(* ===== verification/Ub_Prelude.thy ===== *)
theory Ub_Prelude
  imports Main "HOL-Library.Word" "HOL-Library.List_Lexorder"
begin

unbundle bit_operations_syntax

text \<open>
  Shared vocabulary of the development: machine integers and byte strings, the result
  type of Rust's \<open>Result\<close>, slices, little-endian and big-endian codecs, checked
  \<open>usize\<close> arithmetic, decimal and hexadecimal printing, and the two interfaces that
  several components share: a stream of frames that a loop decodes one after the other,
  and a transition system with an invariant.

  Integers keep their Rust width (\<open>u8\<close>, \<open>u16\<close>, \<open>u32\<close>, \<open>u64\<close> are words);
  \<open>usize\<close> and lengths are naturals, and the places where Rust checks them against
  the 64-bit range are written out. A Rust \<open>String\<close> is its UTF-8 byte sequence.
\<close>

named_theorems codec_simps \<open>encode/decode facts about byte layouts\<close>
named_theorems len_simps \<open>lengths of encoded values\<close>

subsection \<open>Types\<close>

type_synonym u8 = "8 word"
type_synonym u16 = "16 word"
type_synonym u32 = "32 word"
type_synonym u64 = "64 word"
type_synonym bytes = "8 word list"
type_synonym str = "8 word list"

text \<open>A string literal of the source as its bytes.\<close>

definition lit :: "string \<Rightarrow> bytes" where
  "lit s = map of_char s"

lemma length_lit [simp]: "length (lit s) = length s"
  by (simp add: lit_def)

text \<open>The least number that neither \<open>usize\<close> nor \<open>u64\<close> can hold.\<close>

definition usize_limit :: nat where
  "usize_limit = 2 ^ 64"

lemma usize_limit_pos [simp]: "0 < usize_limit"
  by (simp add: usize_limit_def)

definition checked_add :: "nat \<Rightarrow> nat \<Rightarrow> nat option" where
  "checked_add a b = (if a + b < usize_limit then Some (a + b) else None)"

lemma checked_add_Some_iff: "checked_add a b = Some c \<longleftrightarrow> c = a + b \<and> a + b < usize_limit"
  by (auto simp: checked_add_def)

lemma checked_add_ok [simp]: "a + b < usize_limit \<Longrightarrow> checked_add a b = Some (a + b)"
  by (simp add: checked_add_def)

lemma checked_add3:
  "Option.bind (checked_add a b) (\<lambda>v. checked_add v c)
     = (if a + b + c < usize_limit then Some (a + b + c) else None)"
  by (auto simp: checked_add_def)

subsection \<open>Results\<close>

text \<open>\<open>Result<T, E>\<close> is \<open>'e + 'a\<close>; the operator \<open>?\<close> of Rust is \<open>rbind\<close>.\<close>

definition rbind :: "'e + 'a \<Rightarrow> ('a \<Rightarrow> 'e + 'b) \<Rightarrow> 'e + 'b" where
  "rbind m f = (case m of Inl e \<Rightarrow> Inl e | Inr x \<Rightarrow> f x)"

lemma rbind_simps [simp]:
  "rbind (Inl e) f = Inl e"
  "rbind (Inr x) f = f x"
  by (simp_all add: rbind_def)

lemma rbind_eq_Inr_iff: "rbind m f = Inr y \<longleftrightarrow> (\<exists>x. m = Inr x \<and> f x = Inr y)"
  by (cases m) auto

lemma rbind_eq_Inl_iff:
  "rbind m f = Inl e \<longleftrightarrow> m = Inl e \<or> (\<exists>x. m = Inr x \<and> f x = Inl e)"
  by (cases m) auto

text \<open>Evaluates a computation before its continuation.\<close>

lemma rbind_weak_cong: "m = m' \<Longrightarrow> rbind m f = rbind m' f"
  by simp

lemma guard_eq_Inr_iff: "(if b then Inl e else m) = Inr y \<longleftrightarrow> \<not> b \<and> m = Inr y"
  by simp

text \<open>\<open>Option::ok_or\<close>, \<open>Result::map_err\<close> and a guard with an early error return.\<close>

definition ok_or :: "'e \<Rightarrow> 'a option \<Rightarrow> 'e + 'a" where
  "ok_or e v = (case v of None \<Rightarrow> Inl e | Some x \<Rightarrow> Inr x)"

lemma ok_or_simps [simp]:
  "ok_or e None = Inl e"
  "ok_or e (Some x) = Inr x"
  by (simp_all add: ok_or_def)

lemma ok_or_eq_Inr_iff [simp]: "ok_or e v = Inr x \<longleftrightarrow> v = Some x"
  by (cases v) auto

definition map_err :: "('e \<Rightarrow> 'f) \<Rightarrow> 'e + 'a \<Rightarrow> 'f + 'a" where
  "map_err g m = (case m of Inl e \<Rightarrow> Inl (g e) | Inr x \<Rightarrow> Inr x)"

lemma map_err_simps [simp]:
  "map_err g (Inl e) = Inl (g e)"
  "map_err g (Inr x) = Inr x"
  by (simp_all add: map_err_def)

lemma map_err_eq_Inr_iff [simp]: "map_err g m = Inr x \<longleftrightarrow> m = Inr x"
  by (cases m) auto

definition fail_if :: "bool \<Rightarrow> 'e \<Rightarrow> 'e + unit" where
  "fail_if b e = (if b then Inl e else Inr ())"

lemma fail_if_simps [simp]:
  "fail_if True e = Inl e"
  "fail_if False e = Inr ()"
  by (simp_all add: fail_if_def)

lemma fail_if_eq_Inr_iff [simp]: "fail_if b e = Inr u \<longleftrightarrow> \<not> b"
  by (cases b) auto

definition is_ok :: "'e + 'a \<Rightarrow> bool" where
  "is_ok m = (case m of Inl _ \<Rightarrow> False | Inr _ \<Rightarrow> True)"

lemma is_ok_simps [simp]: "\<not> is_ok (Inl e)" "is_ok (Inr x)"
  by (simp_all add: is_ok_def)

lemma is_ok_iff: "is_ok m \<longleftrightarrow> (\<exists>x. m = Inr x)"
  by (cases m) auto

subsection \<open>Slices\<close>

text \<open>\<open>bytes.get(a..b)\<close>.\<close>

definition get_range :: "bytes \<Rightarrow> nat \<Rightarrow> nat \<Rightarrow> bytes option" where
  "get_range bs a b = (if a \<le> b \<and> b \<le> length bs then Some (take (b - a) (drop a bs)) else None)"

lemma get_range_Some_iff:
  "get_range bs a b = Some v \<longleftrightarrow> a \<le> b \<and> b \<le> length bs \<and> v = take (b - a) (drop a bs)"
  by (auto simp: get_range_def)

text \<open>\<open>bytes[a..b]\<close> where the bounds have been checked before.\<close>

definition slice :: "bytes \<Rightarrow> nat \<Rightarrow> nat \<Rightarrow> bytes" where
  "slice bs a b = take (b - a) (drop a bs)"

lemma length_slice: "b \<le> length bs \<Longrightarrow> length (slice bs a b) = b - a"
  by (simp add: slice_def)

subsection \<open>Little-endian and big-endian integers\<close>

primrec le_bytes :: "nat \<Rightarrow> int \<Rightarrow> bytes" where
  "le_bytes 0 v = []"
| "le_bytes (Suc n) v = word_of_int v # le_bytes n (v div 256)"

primrec le_int :: "bytes \<Rightarrow> int" where
  "le_int [] = 0"
| "le_int (b # bs) = uint b + 256 * le_int bs"

lemma length_le_bytes [simp, len_simps]: "length (le_bytes n v) = n"
  by (induction n arbitrary: v) auto

lemma uint_u8_bounds: "0 \<le> uint (b :: u8)" "uint (b :: u8) < 256"
  using unsigned_less [of b, where ?'a = int] by simp_all

lemma uint_of_int_u8: "uint (word_of_int v :: u8) = v mod 256"
  by (simp add: uint_word_of_int)

lemma le_int_le_bytes: "le_int (le_bytes n v) = v mod 256 ^ n"
proof (induction n arbitrary: v)
  case 0
  then show ?case by simp
next
  case (Suc n)
  have "v mod 256 + 256 * (v div 256 mod 256 ^ n) = v mod (256 * 256 ^ n)"
    by (simp add: zmod_zmult2_eq)
  with Suc show ?case by (simp add: uint_of_int_u8)
qed

lemma le_int_nonneg: "0 \<le> le_int bs"
  by (induction bs) (simp_all add: uint_u8_bounds)

lemma le_int_bound: "le_int bs < 256 ^ length bs"
proof (induction bs)
  case Nil
  then show ?case by simp
next
  case (Cons b bs)
  have "256 * (le_int bs + 1) \<le> 256 * 256 ^ length bs"
    using Cons by (intro mult_left_mono) simp_all
  with uint_u8_bounds [of b] show ?case by simp
qed

lemma le_bytes_le_int: "le_bytes (length bs) (le_int bs) = bs"
proof (induction bs)
  case Nil
  then show ?case by simp
next
  case (Cons b bs)
  have "(uint b + 256 * le_int bs) div 256 = le_int bs"
    using uint_u8_bounds [of b] by simp
  moreover have "uint (word_of_int (uint b + 256 * le_int bs) :: u8) = uint b"
    unfolding uint_of_int_u8 using uint_u8_bounds [of b] by simp
  then have "(word_of_int (uint b + 256 * le_int bs) :: u8) = b"
    by (rule unsigned_word_eqI)
  ultimately show ?case using Cons by simp
qed

text \<open>\<open>to_le_bytes\<close> of the three widths, and \<open>to_be_bytes\<close> where SHA-256 uses it.\<close>

definition u16_le :: "u16 \<Rightarrow> bytes" where "u16_le w = le_bytes 2 (uint w)"
definition u32_le :: "u32 \<Rightarrow> bytes" where "u32_le w = le_bytes 4 (uint w)"
definition u64_le :: "u64 \<Rightarrow> bytes" where "u64_le w = le_bytes 8 (uint w)"
definition u32_be :: "u32 \<Rightarrow> bytes" where "u32_be w = rev (le_bytes 4 (uint w))"
definition u64_be :: "u64 \<Rightarrow> bytes" where "u64_be w = rev (le_bytes 8 (uint w))"

lemma length_uN [simp, len_simps]:
  "length (u16_le a) = 2" "length (u32_le b) = 4" "length (u64_le c) = 8"
  "length (u32_be b) = 4" "length (u64_be c) = 8"
  by (simp_all add: u16_le_def u32_le_def u64_le_def u32_be_def u64_be_def)

text \<open>\<open>from_le_bytes\<close> on a slice of the right length.\<close>

definition from_le :: "bytes \<Rightarrow> 'a::len word" where
  "from_le bs = word_of_int (le_int bs)"

lemma from_le_bytes:
  fixes w :: "'a::len word"
  assumes "LENGTH('a) = 8 * n"
  shows "from_le (le_bytes n (uint w)) = w"
proof -
  have "uint w < 2 ^ (8 * n)" using unsigned_less [of w, where ?'a = int] assms by simp
  then have "uint w < 256 ^ n" by (simp add: power_mult)
  then show ?thesis by (simp add: from_le_def le_int_le_bytes)
qed

lemma from_le_uN [simp, codec_simps]:
  "from_le (u16_le a) = a" "from_le (u32_le b) = b" "from_le (u64_le c) = c"
  by (simp_all add: u16_le_def u32_le_def u64_le_def from_le_bytes)

lemma le_bytes_from_le:
  assumes "LENGTH('a) = 8 * n" and "length bs = n"
  shows "le_bytes n (uint (from_le bs :: 'a::len word)) = bs"
proof -
  have "le_int bs < 2 ^ LENGTH('a)"
    using le_int_bound [of bs] assms by (simp add: power_mult)
  then have "uint (from_le bs :: 'a word) = le_int bs"
    using le_int_nonneg [of bs] by (simp add: from_le_def uint_word_of_int)
  with assms show ?thesis using le_bytes_le_int [of bs] by simp
qed

lemma uN_le_from_le [codec_simps]:
  "length bs = 2 \<Longrightarrow> u16_le (from_le bs) = bs"
  "length bs = 4 \<Longrightarrow> u32_le (from_le bs) = bs"
  "length bs = 8 \<Longrightarrow> u64_le (from_le bs) = bs"
  by (simp_all add: u16_le_def u32_le_def u64_le_def le_bytes_from_le)

lemma uN_le_inject [simp]:
  "u16_le a = u16_le a' \<longleftrightarrow> a = a'"
  "u32_le b = u32_le b' \<longleftrightarrow> b = b'"
  "u64_le c = u64_le c' \<longleftrightarrow> c = c'"
  by (metis from_le_uN)+

text \<open>
  The reading helpers that each crate repeats with its own error values
  (\<open>read_u16\<close>, \<open>read_u32\<close>, \<open>read_u64\<close>, \<open>read_digest\<close>): the end of
  the field is computed with an overflow check, then the slice is taken.
\<close>

definition read_field :: "nat \<Rightarrow> 'e \<Rightarrow> 'e \<Rightarrow> bytes \<Rightarrow> nat \<Rightarrow> 'e + bytes" where
  "read_field n overflow truncated bs offset =
     rbind (ok_or overflow (checked_add offset n)) (\<lambda>stop.
     ok_or truncated (get_range bs offset stop))"

lemma read_field_eq_Inr_iff:
  "read_field n ov tr bs off = Inr v \<longleftrightarrow>
     off + n < usize_limit \<and> off + n \<le> length bs \<and> v = take n (drop off bs)"
  by (auto simp: read_field_def rbind_eq_Inr_iff checked_add_Some_iff get_range_Some_iff)

lemma read_field_ok:
  "off + n < usize_limit \<Longrightarrow> off + n \<le> length bs \<Longrightarrow>
   read_field n ov tr bs off = Inr (take n (drop off bs))"
  by (simp add: read_field_eq_Inr_iff)

lemma of_nat_unat_u64: "of_nat (unat w) = (w :: u64)"
  by simp

lemma unat_u32_small: "n < 2 ^ 32 \<Longrightarrow> unat (of_nat n :: u32) = n"
  by (simp add: unat_of_nat)

lemma u64_inc:
  assumes "(w :: u64) \<noteq> - 1"
  shows "unat (w + 1) = Suc (unat w)" and "w < w + 1" and "w + 1 \<noteq> 0"
proof -
  show n: "w + 1 \<noteq> 0" using assms max_word_wrap by blast
  then show u: "unat (w + 1) = Suc (unat w)" using unatSuc [of w] by (simp add: add.commute)
  then show "w < w + 1" by (simp add: word_less_nat_alt)
qed

subsection \<open>Layouts as concatenations of fields\<close>

text \<open>
  Taking and dropping on a concatenation of fields of known lengths: with
  \<open>take_append\<close>, \<open>drop_append\<close> and the lengths, \<open>simp\<close> computes every field.
\<close>

lemma take_drop_field:
  "length a = i \<Longrightarrow> length x = n \<Longrightarrow> take n (drop i (a @ x @ b)) = x"
  by simp

lemma field_join: "j = i + n \<Longrightarrow> take n (drop i bs) @ drop j bs = drop i bs"
  by (metis add.commute append_take_drop_id drop_drop)

lemma find_snoc: "List.find P (xs @ [x]) =
   (case List.find P xs of None \<Rightarrow> if P x then Some x else None | Some y \<Rightarrow> Some y)"
  by (induction xs) auto

lemma drop_after: "drop cur bs = s @ rest \<Longrightarrow> drop (cur + length s) bs = rest"
  by (metis add.commute append_eq_conv_conj drop_drop)

lemma field_join_app: "j = i + n \<Longrightarrow> take n (drop i bs) @ drop j bs @ c = drop i bs @ c"
  by (metis append_assoc field_join)

lemma from_le_eq_iff [codec_simps]:
  "length bs = 2 \<Longrightarrow> from_le bs = (a :: u16) \<longleftrightarrow> bs = u16_le a"
  "length bs = 4 \<Longrightarrow> from_le bs = (b :: u32) \<longleftrightarrow> bs = u32_le b"
  "length bs = 8 \<Longrightarrow> from_le bs = (c :: u64) \<longleftrightarrow> bs = u64_le c"
  by (auto simp: uN_le_from_le)

subsection \<open>Streams of frames\<close>

text \<open>
  Segments, write-ahead logs and ledgers are files that a loop decodes frame by frame,
  with some running state. \<open>frame_stream\<close> is what such a loop promises about one
  well-formed frame; the client lemma is about a whole concatenation of frames.
  \<open>strict_frame_stream\<close> adds the converse: whatever the loop accepts is such a
  concatenation.
\<close>

primrec frames_ok :: "('s \<Rightarrow> 'f \<Rightarrow> bool) \<Rightarrow> ('s \<Rightarrow> 'f \<Rightarrow> 's) \<Rightarrow> 's \<Rightarrow> 'f list \<Rightarrow> bool" where
  "frames_ok ok upd s [] \<longleftrightarrow> True"
| "frames_ok ok upd s (f # fs) \<longleftrightarrow> ok s f \<and> frames_ok ok upd (upd s f) fs"

lemma frames_ok_append:
  "frames_ok ok upd s (fs @ gs) \<longleftrightarrow> frames_ok ok upd s fs \<and> frames_ok ok upd (foldl upd s fs) gs"
  by (induction fs arbitrary: s) auto

locale frame_stream =
  fixes loop :: "'s \<Rightarrow> bytes \<Rightarrow> 'e + 'r"
    and enc :: "'f \<Rightarrow> bytes"
    and ok :: "'s \<Rightarrow> 'f \<Rightarrow> bool"
    and upd :: "'s \<Rightarrow> 'f \<Rightarrow> 's"
  assumes loop_frame: "ok s f \<Longrightarrow> loop s (enc f @ rest) = loop (upd s f) rest"
begin

lemma loop_frames:
  "frames_ok ok upd s fs \<Longrightarrow> loop s (concat (map enc fs) @ rest) = loop (foldl upd s fs) rest"
proof (induction fs arbitrary: s)
  case Nil
  then show ?case by simp
next
  case (Cons f fs)
  then show ?case by (simp add: loop_frame)
qed

end

locale strict_frame_stream = frame_stream loop enc ok upd
  for loop :: "'s \<Rightarrow> bytes \<Rightarrow> 'e + 'r" and enc :: "'f \<Rightarrow> bytes" and ok upd +
  fixes good :: "'s \<Rightarrow> bytes \<Rightarrow> bool"
  assumes enc_nonempty: "ok s f \<Longrightarrow> enc f \<noteq> []"
    and good_frame: "good s (enc f @ rest) \<Longrightarrow> ok s f \<Longrightarrow> good (upd s f) rest"
    and loop_sound: "good s bs \<Longrightarrow> loop s bs = Inr r \<Longrightarrow> bs \<noteq> [] \<Longrightarrow>
      \<exists>f rest. bs = enc f @ rest \<and> ok s f"
begin

lemma loop_accepts_only_frames:
  assumes "good s bs" and "loop s bs = Inr r"
  shows "\<exists>fs. bs = concat (map enc fs) \<and> frames_ok ok upd s fs \<and> loop (foldl upd s fs) [] = Inr r"
  using assms
proof (induction bs arbitrary: s rule: length_induct)
  case (1 bs)
  show ?case
  proof (cases "bs = []")
    case True
    with 1 show ?thesis by (intro exI [of _ "[]"]) simp
  next
    case False
    then obtain f rest where bs: "bs = enc f @ rest" and ok: "ok s f"
      using 1 loop_sound by blast
    moreover have "length rest < length bs" using bs enc_nonempty [OF ok] by simp
    moreover have "good (upd s f) rest" using 1 bs ok good_frame by blast
    moreover have "loop (upd s f) rest = Inr r" using 1 bs ok loop_frame by simp
    ultimately obtain fs where "rest = concat (map enc fs)"
      and "frames_ok ok upd (upd s f) fs" and "loop (foldl upd (upd s f) fs) [] = Inr r"
      using 1 by blast
    with bs ok show ?thesis by (intro exI [of _ "f # fs"]) simp
  qed
qed

end

subsection \<open>Transition systems with an invariant\<close>

inductive reachable :: "('s \<Rightarrow> bool) \<Rightarrow> ('s \<Rightarrow> 's \<Rightarrow> bool) \<Rightarrow> 's \<Rightarrow> bool" for init step where
  reach_init: "init s \<Longrightarrow> reachable init step s"
| reach_step: "reachable init step s \<Longrightarrow> step s s' \<Longrightarrow> reachable init step s'"

locale invariant_system =
  fixes init :: "'s \<Rightarrow> bool"
    and step :: "'s \<Rightarrow> 's \<Rightarrow> bool"
    and inv :: "'s \<Rightarrow> bool"
  assumes inv_init: "init s \<Longrightarrow> inv s"
    and inv_step: "step s s' \<Longrightarrow> inv s \<Longrightarrow> inv s'"
begin

lemma reachable_inv: "reachable init step s \<Longrightarrow> inv s"
  by (induction rule: reachable.induct) (auto intro: inv_init inv_step)

end

subsection \<open>Ledger files\<close>

text \<open>
  An append-only ledger: \<open>push\<close> adds an entry that the ledger admits, and the file is the
  concatenation of the frames of the entries. A client gets that replay of such a file gives
  the ledger that wrote it, that nothing else is accepted, and what replay makes of a file
  that has been cut.
\<close>

locale ledger_file =
  fixes replay :: "'l \<Rightarrow> nat \<Rightarrow> bytes \<Rightarrow> 'e + 'l"
    and push :: "'l \<Rightarrow> 't \<Rightarrow> 'l"
    and frame :: "'t \<Rightarrow> bytes"
    and admits :: "'l \<Rightarrow> 't \<Rightarrow> bool"
    and good :: "'l \<Rightarrow> bool"
  assumes replay_end: "replay l off [] = Inr l"
    and replay_frame: "admits l t \<Longrightarrow> off + length (frame t) < usize_limit \<Longrightarrow>
      replay l off (frame t @ rest) = replay (push l t) (off + length (frame t)) rest"
    and replay_sound: "good l \<Longrightarrow> replay l off bs = Inr l' \<Longrightarrow> bs \<noteq> [] \<Longrightarrow>
      \<exists>t rest. bs = frame t @ rest \<and> admits l t \<and> off + length (frame t) < usize_limit"
    and frame_nonempty: "admits l t \<Longrightarrow> frame t \<noteq> []"
    and good_push: "admits l t \<Longrightarrow> good (push l t)"
begin

definition file_ok :: "'l \<times> nat \<Rightarrow> 't \<Rightarrow> bool" where
  "file_ok s t \<longleftrightarrow> admits (fst s) t \<and> snd s + length (frame t) < usize_limit"

definition file_push :: "'l \<times> nat \<Rightarrow> 't \<Rightarrow> 'l \<times> nat" where
  "file_push s t = (push (fst s) t, snd s + length (frame t))"

definition file_bytes :: "'t list \<Rightarrow> bytes" where
  "file_bytes ts = concat (map frame ts)"

definition history :: "'l \<Rightarrow> 't list \<Rightarrow> bool" where
  "history l ts \<longleftrightarrow> frames_ok file_ok file_push (l, 0) ts"

end

sublocale ledger_file \<subseteq> stream: strict_frame_stream "\<lambda>s. replay (fst s) (snd s)" frame file_ok file_push "\<lambda>s bs. good (fst s)"
proof unfold_locales
  show "\<exists>t rest. bs = frame t @ rest \<and> file_ok s t" if "good (fst s)" "replay (fst s) (snd s) bs = Inr r" "bs \<noteq> []" for s bs r
    using replay_sound [OF that] by (auto simp: file_ok_def)
qed (auto simp: file_ok_def file_push_def replay_frame good_push dest: frame_nonempty)

context ledger_file
begin

lemma file_push_fold:
  "foldl file_push (l, off) ts = (foldl push l ts, off + length (file_bytes ts))"
  by (induction ts arbitrary: l off) (simp_all add: file_bytes_def file_push_def)

lemma file_history_Nil: "history l []"
  by (simp add: history_def)

lemma file_history_snoc:
  "history l (ts @ [t]) \<longleftrightarrow> history l ts \<and> admits (foldl push l ts) t \<and> length (file_bytes (ts @ [t])) < usize_limit"
  by (simp add: history_def frames_ok_append file_push_fold file_ok_def file_bytes_def)

lemma file_history_length: "history l ts \<Longrightarrow> length (file_bytes ts) < usize_limit"
  by (cases ts rule: rev_cases) (auto simp: file_history_snoc file_bytes_def)

lemma file_history_take:
  "history l ts \<Longrightarrow> n < length ts \<Longrightarrow> history l (take n ts) \<and> admits (foldl push l (take n ts)) (ts ! n)"
proof (induction ts rule: rev_induct)
  case (snoc t ts)
  then have "history l ts" "admits (foldl push l ts) t" by (auto simp: file_history_snoc)
  with snoc show ?case by (cases "n < length ts") (auto simp: nth_append less_Suc_eq)
qed simp

lemma file_replay_from:
  "history l ts \<Longrightarrow> replay l 0 (file_bytes ts @ rest) = replay (foldl push l ts) (length (file_bytes ts)) rest"
  using stream.loop_frames [of "(l, 0)" ts rest] by (simp add: history_def file_push_fold file_bytes_def [of ts])

lemma file_replay_history: "history l ts \<Longrightarrow> replay l 0 (file_bytes ts) = Inr (foldl push l ts)"
  using file_replay_from [of l ts "[]"] by (simp add: replay_end)

lemma file_replay_accepts:
  assumes "good l" and "replay l 0 bs = Inr l'"
  shows "\<exists>ts. history l ts \<and> bs = file_bytes ts \<and> l' = foldl push l ts"
proof -
  obtain ts where "bs = file_bytes ts" "history l ts"
    using stream.loop_accepts_only_frames [of "(l, 0)" bs l'] assms by (auto simp: history_def file_bytes_def)
  with file_replay_history assms(2) show ?thesis by fastforce
qed

text \<open>A file cut after \<open>m\<close> bytes: replay reads the entries before the cut and then the rest of one frame.\<close>

lemma file_replay_cut:
  assumes "history l ts" and "m \<le> length (file_bytes ts)"
  shows "\<exists>k. k \<le> length ts \<and> length (file_bytes (take k ts)) \<le> m \<and>
     (k = length ts \<longrightarrow> m = length (file_bytes ts)) \<and>
     (k < length ts \<longrightarrow> m < length (file_bytes (take k ts)) + length (frame (ts ! k))) \<and>
     replay l 0 (take m (file_bytes ts)) = replay (foldl push l (take k ts)) (length (file_bytes (take k ts)))
       (take (m - length (file_bytes (take k ts))) (frame (ts ! k)))"
  using assms
proof (induction ts rule: rev_induct)
  case Nil
  then show ?case by (simp add: file_bytes_def)
next
  case (snoc t ts)
  let ?n = "length (file_bytes ts)"
  have h: "history l ts" using snoc.prems(1) by (simp add: file_history_snoc)
  have b: "file_bytes (ts @ [t]) = file_bytes ts @ frame t" by (simp add: file_bytes_def)
  consider "m < ?n" | "m = ?n + length (frame t)" | "?n \<le> m" "m < ?n + length (frame t)"
    using snoc.prems(2) by (fastforce simp: b)
  then show ?case
  proof cases
    case 1
    with snoc.IH [OF h] obtain k where k: "k \<le> length ts" "length (file_bytes (take k ts)) \<le> m" "k \<noteq> length ts"
      "k < length ts \<longrightarrow> m < length (file_bytes (take k ts)) + length (frame (ts ! k))"
      "replay l 0 (take m (file_bytes ts)) = replay (foldl push l (take k ts)) (length (file_bytes (take k ts)))
       (take (m - length (file_bytes (take k ts))) (frame (ts ! k)))" by auto
    with 1 show ?thesis by (intro exI [of _ k]) (simp add: b nth_append)
  next
    case 2
    then show ?thesis using file_replay_history [OF snoc.prems(1)]
      by (intro exI [of _ "length (ts @ [t])"]) (simp add: b replay_end)
  next
    case 3
    then show ?thesis using file_replay_from [OF h]
      by (intro exI [of _ "length ts"]) (simp add: b)
  qed
qed

end

subsection \<open>IEEE-754 doubles by their bits\<close>

text \<open>\<open>f64::is_finite\<close>, comparison with \<open>0.0\<close>, and the range test
  \<open>(0.0..=1.0).contains\<close>, on the bits that \<open>to_bits\<close> gives.\<close>

type_synonym f64 = u64

definition f64_is_finite :: "f64 \<Rightarrow> bool" where
  "f64_is_finite w \<longleftrightarrow> drop_bit 52 w AND 0x7FF \<noteq> 0x7FF"

definition f64_is_zero :: "f64 \<Rightarrow> bool" where
  "f64_is_zero w \<longleftrightarrow> w AND 0x7FFFFFFFFFFFFFFF = 0"

definition f64_in_unit :: "f64 \<Rightarrow> bool" where
  "f64_in_unit w \<longleftrightarrow> f64_is_zero w \<or> w \<le> 0x3FF0000000000000"

text \<open>\<open>if w == 0.0 { 0.0 } else { w }\<close>: a negative zero becomes the positive one.\<close>

definition f64_canonical :: "f64 \<Rightarrow> f64" where
  "f64_canonical w = (if f64_is_zero w then 0 else w)"

lemma f64_canonical_not_neg_zero: "f64_is_zero (f64_canonical w) \<Longrightarrow> f64_canonical w = 0"
  by (simp add: f64_canonical_def split: if_splits)

lemma f64_canonical_finite: "f64_is_finite w \<Longrightarrow> f64_is_finite (f64_canonical w)"
  by (simp add: f64_canonical_def f64_is_finite_def)

lemma f64_zero_finite: "f64_is_zero w \<Longrightarrow> f64_is_finite w"
proof -
  assume "f64_is_zero w"
  then have "drop_bit 52 (w AND 0x7FFFFFFFFFFFFFFF) = 0" by (simp add: f64_is_zero_def)
  then have "drop_bit 52 w AND drop_bit 52 (0x7FFFFFFFFFFFFFFF :: u64) = 0" by (simp only: drop_bit_and)
  then show ?thesis by (simp add: f64_is_finite_def drop_bit_eq_div)
qed

lemma f64_canonical_finite_iff [simp]: "f64_is_finite (f64_canonical w) \<longleftrightarrow> f64_is_finite w"
  using f64_zero_finite [of w] by (auto simp: f64_canonical_def f64_is_finite_def)

lemma f64_canonical_idem [simp]: "f64_canonical (f64_canonical w) = f64_canonical w"
  by (simp add: f64_canonical_def)

end
