(* ===== verification/Ub_Sha256.thy ===== *)
theory Ub_Sha256
  imports Ub_Prelude
begin

text \<open>
  The SHA-256 of \<open>ultraballoondb-storage/src/lib.rs\<close> (struct \<open>Sha256\<close>): an
  incremental hasher with a 64-byte buffer, its compression function, and the one-shot
  \<open>sha256\<close>. The two \<open>expect\<close> calls on length overflow are panics, modelled by
  \<open>None\<close>. The reference definition \<open>sha256_ref\<close> pads the whole message and
  folds the compression function over its blocks; the main result is that hashing any
  sequence of chunks incrementally computes the reference digest of their concatenation.
\<close>

unbundle bit_operations_syntax

subsection \<open>State and compression function\<close>

record sha256_state =
  sha_h :: "u32 list"
  sha_buffer :: bytes
  sha_buffer_len :: nat
  sha_total_len :: nat

definition sha_init_h :: "u32 list" where
  "sha_init_h =
     [0x6a09e667, 0xbb67ae85, 0x3c6ef372, 0xa54ff53a,
      0x510e527f, 0x9b05688c, 0x1f83d9ab, 0x5be0cd19]"

definition sha_new :: sha256_state where
  "sha_new = \<lparr>sha_h = sha_init_h, sha_buffer = replicate 64 0, sha_buffer_len = 0,
              sha_total_len = 0\<rparr>"

definition sha_K :: "u32 list" where
  "sha_K =
     [0x428A2F98, 0x71374491, 0xB5C0FBCF, 0xE9B5DBA5,
      0x3956C25B, 0x59F111F1, 0x923F82A4, 0xAB1C5ED5,
      0xD807AA98, 0x12835B01, 0x243185BE, 0x550C7DC3,
      0x72BE5D74, 0x80DEB1FE, 0x9BDC06A7, 0xC19BF174,
      0xE49B69C1, 0xEFBE4786, 0x0FC19DC6, 0x240CA1CC,
      0x2DE92C6F, 0x4A7484AA, 0x5CB0A9DC, 0x76F988DA,
      0x983E5152, 0xA831C66D, 0xB00327C8, 0xBF597FC7,
      0xC6E00BF3, 0xD5A79147, 0x06CA6351, 0x14292967,
      0x27B70A85, 0x2E1B2138, 0x4D2C6DFC, 0x53380D13,
      0x650A7354, 0x766A0ABB, 0x81C2C92E, 0x92722C85,
      0xA2BFE8A1, 0xA81A664B, 0xC24B8B70, 0xC76C51A3,
      0xD192E819, 0xD6990624, 0xF40E3585, 0x106AA070,
      0x19A4C116, 0x1E376C08, 0x2748774C, 0x34B0BCB5,
      0x391C0CB3, 0x4ED8AA4A, 0x5B9CCA4F, 0x682E6FF3,
      0x748F82EE, 0x78A5636F, 0x84C87814, 0x8CC70208,
      0x90BEFFFA, 0xA4506CEB, 0xBEF9A3F7, 0xC67178F2]"

definition from_be :: "bytes \<Rightarrow> u32" where
  "from_be bs = from_le (rev bs)"

definition sha_sched0 :: "bytes \<Rightarrow> u32 list" where
  "sha_sched0 block = map (\<lambda>i. from_be (slice block (i * 4) (i * 4 + 4))) [0..<16]"

definition sha_sched_step :: "u32 list \<Rightarrow> nat \<Rightarrow> u32 list" where
  "sha_sched_step W i =
     (let w15 = W ! (i - 15); w2 = W ! (i - 2);
          s0 = word_rotr 7 w15 XOR word_rotr 18 w15 XOR drop_bit 3 w15;
          s1 = word_rotr 17 w2 XOR word_rotr 19 w2 XOR drop_bit 10 w2
      in W @ [W ! (i - 16) + s0 + W ! (i - 7) + s1])"

definition sha_schedule :: "bytes \<Rightarrow> u32 list" where
  "sha_schedule block = foldl sha_sched_step (sha_sched0 block) [16..<64]"

type_synonym sha_vars = "u32 \<times> u32 \<times> u32 \<times> u32 \<times> u32 \<times> u32 \<times> u32 \<times> u32"

fun sha_round :: "u32 list \<Rightarrow> sha_vars \<Rightarrow> nat \<Rightarrow> sha_vars" where
  "sha_round W (a, b, c, d, e, f, g, h) i =
     (let sum1 = word_rotr 6 e XOR word_rotr 11 e XOR word_rotr 25 e;
          choice = (e AND f) XOR (NOT e AND g);
          temp1 = h + sum1 + choice + sha_K ! i + W ! i;
          sum0 = word_rotr 2 a XOR word_rotr 13 a XOR word_rotr 22 a;
          majority = (a AND b) XOR (a AND c) XOR (b AND c);
          temp2 = sum0 + majority
      in (temp1 + temp2, a, b, c, d + temp1, e, f, g))"

definition sha_compress :: "u32 list \<Rightarrow> bytes \<Rightarrow> u32 list" where
  "sha_compress st block =
     (let W = sha_schedule block;
          (a, b, c, d, e, f, g, h) =
            foldl (sha_round W)
              (st ! 0, st ! 1, st ! 2, st ! 3, st ! 4, st ! 5, st ! 6, st ! 7) [0..<64]
      in [st ! 0 + a, st ! 1 + b, st ! 2 + c, st ! 3 + d,
          st ! 4 + e, st ! 5 + f, st ! 6 + g, st ! 7 + h])"

subsection \<open>The incremental hasher\<close>

text \<open>The loop \<open>while data.len() >= 64\<close> of \<open>update\<close>: whole blocks are compressed
  directly from the input, and the rest is returned.\<close>

function sha_blocks :: "u32 list \<Rightarrow> bytes \<Rightarrow> u32 list \<times> bytes" where
  "sha_blocks st data =
     (if 64 \<le> length data then sha_blocks (sha_compress st (take 64 data)) (drop 64 data)
      else (st, data))"
  by pat_completeness auto
termination
  by (relation "measure (\<lambda>(st, data). length data)") auto

declare sha_blocks.simps [simp del]

definition sha_update :: "sha256_state \<Rightarrow> bytes \<Rightarrow> sha256_state option" where
  "sha_update s data =
     (case checked_add (sha_total_len s) (length data) of
        None \<Rightarrow> None
      | Some tot \<Rightarrow>
          (let (h, buf, blen, data) =
                 (if sha_buffer_len s \<noteq> 0 then
                    (let needed = 64 - sha_buffer_len s;
                         tk = min needed (length data);
                         buf = take (sha_buffer_len s) (sha_buffer s) @ take tk data
                               @ drop (sha_buffer_len s + tk) (sha_buffer s);
                         blen = sha_buffer_len s + tk
                     in if blen = 64 then (sha_compress (sha_h s) buf, buf, 0, drop tk data)
                        else (sha_h s, buf, blen, drop tk data))
                  else (sha_h s, sha_buffer s, sha_buffer_len s, data));
               (h, rest) = sha_blocks h data
           in Some (if rest \<noteq> []
                then \<lparr>sha_h = h, sha_buffer = rest @ drop (length rest) buf,
                      sha_buffer_len = length rest, sha_total_len = tot\<rparr>
                else \<lparr>sha_h = h, sha_buffer = buf, sha_buffer_len = blen,
                      sha_total_len = tot\<rparr>)))"

definition sha_finalize :: "sha256_state \<Rightarrow> bytes option" where
  "sha_finalize s =
     (if usize_limit \<le> sha_total_len s * 8 then None
      else
        (let bit_len = (of_nat (sha_total_len s * 8) :: u64);
             buf = (sha_buffer s)[sha_buffer_len s := 0x80];
             blen = sha_buffer_len s + 1;
             (h, buf, blen) =
               (if 56 < blen then
                  (sha_compress (sha_h s) (take blen buf @ replicate (64 - blen) 0),
                   replicate 64 0, 0)
                else (sha_h s, buf, blen));
             buf = take blen buf @ replicate (56 - blen) 0 @ u64_be bit_len;
             h = sha_compress h buf
         in Some (concat (map u32_be h))))"

definition sha256_checked :: "bytes \<Rightarrow> bytes option" where
  "sha256_checked data = Option.bind (sha_update sha_new data) sha_finalize"

text \<open>
  The digest as the rest of the development uses it. On an input of \<open>2 ^ 61\<close> bytes
  or more the code panics (\<open>sha256_checked\<close> is \<open>None\<close>); the total function
  then has a fixed value of the right shape.
\<close>

definition sha256 :: "bytes \<Rightarrow> bytes" where
  "sha256 data = (case sha256_checked data of Some d \<Rightarrow> d | None \<Rightarrow> replicate 32 0)"

text \<open>Hashing a sequence of chunks with one hasher.\<close>

primrec sha_update_all :: "sha256_state \<Rightarrow> bytes list \<Rightarrow> sha256_state option" where
  "sha_update_all s [] = Some s"
| "sha_update_all s (c # cs) = Option.bind (sha_update s c) (\<lambda>s'. sha_update_all s' cs)"

definition sha256_chunks :: "bytes list \<Rightarrow> bytes option" where
  "sha256_chunks cs = Option.bind (sha_update_all sha_new cs) sha_finalize"

text \<open>\<open>sha256_file\<close> reads its file through a 64 KiB buffer.\<close>

function read_chunks :: "nat \<Rightarrow> bytes \<Rightarrow> bytes list" where
  "read_chunks n data =
     (if data = [] \<or> n = 0 then [] else take n data # read_chunks n (drop n data))"
  by pat_completeness auto
termination
  by (relation "measure (\<lambda>(n, data). length data)") auto

declare read_chunks.simps [simp del]

definition sha256_reader :: "bytes \<Rightarrow> bytes option" where
  "sha256_reader data = sha256_chunks (read_chunks 65536 data)"

subsection \<open>Reference definition\<close>

fun blocks64 :: "bytes \<Rightarrow> bytes list" where
  "blocks64 bs = (if length bs < 64 then [] else take 64 bs # blocks64 (drop 64 bs))"

declare blocks64.simps [simp del]

definition sha_pad :: "bytes \<Rightarrow> bytes" where
  "sha_pad msg = msg @ [0x80] @ replicate ((119 - length msg mod 64) mod 64) 0
                 @ u64_be (of_nat (8 * length msg))"

definition sha256_ref :: "bytes \<Rightarrow> bytes" where
  "sha256_ref msg = concat (map u32_be (foldl sha_compress sha_init_h (blocks64 (sha_pad msg))))"

subsection \<open>Lemmas\<close>

lemma length_sha_compress [simp, len_simps]: "length (sha_compress st b) = 8"
  by (simp add: sha_compress_def Let_def split: prod.splits)

lemma length_sha_init_h [simp]: "length sha_init_h = 8"
  by (simp add: sha_init_h_def)

lemma length_concat_u32_be [simp]: "length (concat (map u32_be ws)) = 4 * length ws"
  by (induction ws) auto

lemma sha_blocks_short: "length data < 64 \<Longrightarrow> sha_blocks st data = (st, data)"
  by (subst sha_blocks.simps) simp

lemma sha_blocks_long:
  "64 \<le> length data \<Longrightarrow>
   sha_blocks st data = sha_blocks (sha_compress st (take 64 data)) (drop 64 data)"
  by (subst sha_blocks.simps) simp

lemma sha_blocks_rest_less: "length (snd (sha_blocks st data)) < 64"
proof (induction st data rule: sha_blocks.induct)
  case (1 st data)
  show ?case
  proof (cases "64 \<le> length data")
    case True
    with 1 show ?thesis by (simp only: sha_blocks_long [OF True])
  next
    case False
    then show ?thesis by (simp add: sha_blocks_short)
  qed
qed

lemma sha_blocks_append:
  "sha_blocks st (a @ b) = (let (h, r) = sha_blocks st a in sha_blocks h (r @ b))"
proof (induction st a rule: sha_blocks.induct)
  case (1 st a)
  show ?case
  proof (cases "64 \<le> length a")
    case True
    then have "sha_blocks st (a @ b)
      = sha_blocks (sha_compress st (take 64 a)) (drop 64 a @ b)"
      by (simp add: sha_blocks_long)
    with 1 True show ?thesis by (simp add: sha_blocks_long [of a])
  next
    case False
    then show ?thesis by (simp add: sha_blocks_short [of a])
  qed
qed

lemma sha_blocks_block:
  assumes "length b = 64"
  shows "sha_blocks st (b @ c) = sha_blocks (sha_compress st b) c"
  using assms by (simp add: sha_blocks_long)

lemma sha_blocks_foldl:
  "fst (sha_blocks st data) = foldl sha_compress st (blocks64 data)"
proof (induction st data rule: sha_blocks.induct)
  case (1 st data)
  show ?case
  proof (cases "64 \<le> length data")
    case True
    have "foldl sha_compress st (blocks64 data)
      = foldl sha_compress (sha_compress st (take 64 data)) (blocks64 (drop 64 data))"
      using True by (subst blocks64.simps) simp
    moreover have "fst (sha_blocks (sha_compress st (take 64 data)) (drop 64 data))
      = foldl sha_compress (sha_compress st (take 64 data)) (blocks64 (drop 64 data))"
      using True by (rule 1)
    ultimately show ?thesis by (simp only: sha_blocks_long [OF True])
  next
    case False
    then have "blocks64 data = []" by (subst blocks64.simps) simp
    with False show ?thesis by (simp add: sha_blocks_short)
  qed
qed

text \<open>
  The abstraction: a hasher that represents the message \<open>msg\<close> holds the chaining value
  after all whole blocks of \<open>msg\<close> and the unfinished block at the front of its buffer.
  Bytes of the buffer beyond \<open>sha_buffer_len\<close> are stale and do not matter.
\<close>

definition sha_rep :: "sha256_state \<Rightarrow> bytes \<Rightarrow> bool" where
  "sha_rep s msg \<longleftrightarrow>
     length (sha_buffer s) = 64 \<and> sha_total_len s = length msg \<and> sha_buffer_len s < 64 \<and>
     sha_blocks sha_init_h msg = (sha_h s, take (sha_buffer_len s) (sha_buffer s))"

lemma sha_rep_new: "sha_rep sha_new []"
  by (simp add: sha_rep_def sha_new_def sha_blocks_short)

lemma sha_rep_update:
  assumes rep: "sha_rep s msg" and fits: "length msg + length data < usize_limit"
  shows "\<exists>s'. sha_update s data = Some s' \<and> sha_rep s' (msg @ data)"
proof -
  let ?b = "sha_buffer_len s" and ?B = "sha_buffer s"
  have lB: "length ?B = 64" and tot: "sha_total_len s = length msg" and lb: "?b < 64"
    and blk: "sha_blocks sha_init_h msg = (sha_h s, take ?b ?B)"
    using rep by (auto simp: sha_rep_def)
  have app: "sha_blocks sha_init_h (msg @ data) = sha_blocks (sha_h s) (take ?b ?B @ data)"
    by (simp only: sha_blocks_append [of _ msg data] blk Let_def prod.case)
  have add: "checked_add (sha_total_len s) (length data) = Some (length msg + length data)"
    using fits tot by simp
  consider (empty) "?b = 0" | (fill) "?b \<noteq> 0" "64 \<le> ?b + length data"
    | (keep) "?b \<noteq> 0" "?b + length data < 64" by linarith
  then show ?thesis
  proof cases
    case empty
    obtain h r where hr: "sha_blocks (sha_h s) data = (h, r)" by fastforce
    then have "length r < 64" using sha_blocks_rest_less [of "sha_h s" data] by simp
    then show ?thesis
      using empty hr app lB add by (auto simp: sha_update_def sha_rep_def)
  next
    case fill
    let ?k = "64 - ?b"
    have mn: "min ?k (length data) = ?k" using fill by simp
    have "sha_blocks (sha_h s) ((take ?b ?B @ take ?k data) @ drop ?k data)
      = sha_blocks (sha_compress (sha_h s) (take ?b ?B @ take ?k data)) (drop ?k data)"
      using fill lB lb by (intro sha_blocks_block) simp
    then have app': "sha_blocks sha_init_h (msg @ data)
      = sha_blocks (sha_compress (sha_h s) (take ?b ?B @ take ?k data)) (drop ?k data)"
      using app by simp
    obtain h r where hr: "sha_blocks (sha_compress (sha_h s) (take ?b ?B @ take ?k data))
        (drop ?k data) = (h, r)" by fastforce
    then have "length r < 64"
      by (metis sha_blocks_rest_less snd_conv)
    then show ?thesis
      using fill hr app' lB lb add mn by (auto simp: sha_update_def sha_rep_def Let_def)
  next
    case keep
    have mn: "min (64 - ?b) (length data) = length data" using keep by simp
    have "sha_blocks (sha_h s) (take ?b ?B @ data) = (sha_h s, take ?b ?B @ data)"
      using keep lB by (intro sha_blocks_short) simp
    then show ?thesis
      using keep app lB lb add mn sha_blocks_short [of "[]"]
      by (auto simp: sha_update_def sha_rep_def Let_def min_def)
  qed
qed

lemma sha_rep_update_all:
  "sha_rep s msg \<Longrightarrow> length msg + length (concat cs) < usize_limit \<Longrightarrow>
   \<exists>s'. sha_update_all s cs = Some s' \<and> sha_rep s' (msg @ concat cs)"
proof (induction cs arbitrary: s msg)
  case Nil
  then show ?case by simp
next
  case (Cons c cs)
  then obtain s' where "sha_update s c = Some s'" and "sha_rep s' (msg @ c)"
    using sha_rep_update [of s msg c] by auto
  then show ?case using Cons.IH [of s' "msg @ c"] Cons.prems by auto
qed

lemma sha_blocks_rest_length: "length (snd (sha_blocks st data)) = length data mod 64"
proof (induction st data rule: sha_blocks.induct)
  case (1 st data)
  show ?case
  proof (cases "64 \<le> length data")
    case True
    have "(length data - 64) mod 64 = length data mod 64" using True by (simp add: le_mod_geq)
    with 1 True show ?thesis by (simp only: sha_blocks_long [OF True] length_drop)
  next
    case False
    then show ?thesis by (simp add: sha_blocks_short)
  qed
qed

lemma sha_blocks_one:
  assumes "length b = 64"
  shows "sha_blocks st b = (sha_compress st b, [])"
  using assms sha_blocks_block [of b st "[]"] by (simp add: sha_blocks_short)

lemma take_Suc_update: "b < length B \<Longrightarrow> take (Suc b) (B[b := x]) = take b B @ [x]"
  by (simp add: take_Suc_conv_app_nth)

text \<open>Finalising pads the unfinished block exactly as the reference pads the message.\<close>

lemma sha_rep_finalize:
  assumes rep: "sha_rep s msg" and fits: "length msg * 8 < usize_limit"
  shows "sha_finalize s = Some (sha256_ref msg)"
proof -
  let ?b = "sha_buffer_len s" and ?B = "sha_buffer s" and ?L = "u64_be (of_nat (8 * length msg))"
  let ?r = "take ?b ?B"
  have lB: "length ?B = 64" and tot: "sha_total_len s = length msg" and lb: "?b < 64"
    and blk: "sha_blocks sha_init_h msg = (sha_h s, ?r)"
    using rep by (auto simp: sha_rep_def)
  have bmod: "length msg mod 64 = ?b"
    using sha_blocks_rest_length [of sha_init_h msg] blk lB lb by simp
  have tk: "take (Suc ?b) (?B[?b := 0x80]) = ?r @ [0x80]"
    using lB lb by (intro take_Suc_update) simp
  have ref: "sha256_ref msg = concat (map u32_be (fst (sha_blocks (sha_h s)
      (?r @ [0x80] @ replicate ((119 - ?b) mod 64) 0 @ ?L))))"
    unfolding sha256_ref_def sha_blocks_foldl [symmetric] sha_pad_def bmod
    by (simp only: sha_blocks_append [of _ msg] blk Let_def prod.case)
  show ?thesis
  proof (cases "?b \<le> 55")
    case True
    then have z: "(119 - ?b) mod 64 = 55 - ?b" by (simp add: mod_if)
    have "sha_blocks (sha_h s) (?r @ [0x80] @ replicate (55 - ?b) 0 @ ?L)
      = (sha_compress (sha_h s) (?r @ [0x80] @ replicate (55 - ?b) 0 @ ?L), [])"
      using True lB by (intro sha_blocks_one) simp
    then show ?thesis
      using True fits tot tk unfolding ref z by (simp add: sha_finalize_def Let_def mult.commute)
  next
    case False
    then have z: "(119 - ?b) mod 64 = (63 - ?b) + 56" using lb by simp
    have "sha_blocks (sha_h s) ((?r @ [0x80] @ replicate (63 - ?b) 0) @ replicate 56 0 @ ?L)
      = sha_blocks (sha_compress (sha_h s) (?r @ [0x80] @ replicate (63 - ?b) 0))
          (replicate 56 0 @ ?L)"
      using False lB lb by (intro sha_blocks_block) simp
    moreover have "length (replicate 56 0 @ ?L) = 64" by simp
    note sha_blocks_one [OF this]
    ultimately show ?thesis
      using False fits tot tk unfolding ref z replicate_add
      by (simp add: sha_finalize_def Let_def mult.commute)
  qed
qed

lemma sha256_chunks_ref:
  assumes "length (concat cs) * 8 < usize_limit"
  shows "sha256_chunks cs = Some (sha256_ref (concat cs))"
proof -
  obtain s where "sha_update_all sha_new cs = Some s" and "sha_rep s (concat cs)"
    using sha_rep_update_all [OF sha_rep_new, of cs] assms by auto
  then show ?thesis
    using sha_rep_finalize [of s "concat cs"] assms by (simp add: sha256_chunks_def)
qed

lemma sha256_checked_chunks: "sha256_checked data = sha256_chunks [data]"
  by (cases "sha_update sha_new data") (simp_all add: sha256_checked_def sha256_chunks_def)

lemma sha256_eq_ref: "length data * 8 < usize_limit \<Longrightarrow> sha256 data = sha256_ref data"
  using sha256_chunks_ref [of "[data]"] by (simp add: sha256_def sha256_checked_chunks)

lemma sha_finalize_length: "sha_finalize s = Some d \<Longrightarrow> length d = 32"
  by (auto simp: sha_finalize_def Let_def split: if_splits)

lemma length_sha256 [simp, len_simps]: "length (sha256 data) = 32"
  by (auto simp: sha256_def sha256_checked_def bind_eq_Some_conv sha_finalize_length
      split: option.splits)

lemma concat_read_chunks: "0 < n \<Longrightarrow> concat (read_chunks n data) = data"
proof (induction n data rule: read_chunks.induct)
  case (1 n data)
  show ?case
  proof (cases "data = []")
    case True
    then show ?thesis by (simp add: read_chunks.simps)
  next
    case False
    with 1 show ?thesis by (subst read_chunks.simps) simp
  qed
qed

subsection \<open>Properties\<close>

text \<open>
  C24. Incremental hashing is sound: feeding any sequence of chunks whose total length is
  below \<open>2 ^ 61\<close> bytes to one hasher neither panics nor depends on how the data is
  chunked, and the digest is the padded-block fold of the reference definition.
\<close>

theorem sha256_incremental_correct:
  assumes "length (concat cs) * 8 < usize_limit"
  shows "sha256_chunks cs = Some (sha256 (concat cs))
         \<and> sha256 (concat cs) = sha256_ref (concat cs)"
  using sha256_chunks_ref [OF assms] sha256_eq_ref [OF assms] by simp

theorem sha256_incremental_correct_witness:
  "sha256_chunks [lit ''ab'', lit ''c''] = Some
     [0xBA, 0x78, 0x16, 0xBF, 0x8F, 0x01, 0xCF, 0xEA, 0x41, 0x41, 0x40, 0xDE, 0x5D, 0xAE, 0x22, 0x23,
      0xB0, 0x03, 0x61, 0xA3, 0x96, 0x17, 0x7A, 0x9C, 0xB4, 0x10, 0xFF, 0x61, 0xF2, 0x00, 0x15, 0xAD]"
proof -
  have "length (concat [lit ''ab'', lit ''c'']) * 8 < usize_limit"
    by (simp add: usize_limit_def)
  note sha256_incremental_correct [OF this]
  moreover have "sha256_ref (concat [lit ''ab'', lit ''c'']) =
     [0xBA, 0x78, 0x16, 0xBF, 0x8F, 0x01, 0xCF, 0xEA, 0x41, 0x41, 0x40, 0xDE, 0x5D, 0xAE, 0x22, 0x23,
      0xB0, 0x03, 0x61, 0xA3, 0x96, 0x17, 0x7A, 0x9C, 0xB4, 0x10, 0xFF, 0x61, 0xF2, 0x00, 0x15, 0xAD]"
    by code_simp
  ultimately show ?thesis by simp
qed

text \<open>
  Hashing a file through the 64 KiB read buffer of \<open>sha256_file\<close> yields the digest of
  the whole contents.
\<close>

theorem sha256_reader_correct:
  assumes "length data * 8 < usize_limit"
  shows "sha256_reader data = Some (sha256 data)"
  using sha256_chunks_ref [of "read_chunks 65536 data"] sha256_eq_ref [of data] assms
  by (simp add: sha256_reader_def concat_read_chunks)

theorem sha256_reader_correct_witness:
  "sha256_reader (replicate 100000 0) = Some (sha256 (replicate 100000 0))"
  by (rule sha256_reader_correct) (simp add: usize_limit_def)

end
