(* ===== verification/Ub_Text.thy ===== *)
theory Ub_Text
  imports Ub_Prelude
begin

text \<open>
  The text functions of the Rust standard library that the sources use, on byte strings:
  UTF-8 validation (\<open>std::str::from_utf8\<close>), decimal and zero-padded decimal
  (\<open>{n}\<close> and \<open>{n:020}\<close>) and upper-case hexadecimal (\<open>{byte:02X}\<close>) formatting,
  \<open>starts_with\<close>, \<open>ends_with\<close>, and the components of a Unix path
  (\<open>Path::components\<close>, \<open>Path::is_absolute\<close>).
\<close>

subsection \<open>UTF-8\<close>

definition utf8_cont :: "u8 \<Rightarrow> bool" where
  "utf8_cont b \<longleftrightarrow> 0x80 \<le> b \<and> b \<le> 0xBF"

fun utf8_valid :: "bytes \<Rightarrow> bool" where
  "utf8_valid [] = True"
| "utf8_valid (a # bs) =
     (if a < 0x80 then utf8_valid bs
      else if 0xC2 \<le> a \<and> a \<le> 0xDF then
        (case bs of b # r \<Rightarrow> utf8_cont b \<and> utf8_valid r | [] \<Rightarrow> False)
      else if 0xE0 \<le> a \<and> a \<le> 0xEF then
        (case bs of b # c # r \<Rightarrow>
             (if a = 0xE0 then 0xA0 \<le> b \<and> b \<le> 0xBF
              else if a = 0xED then 0x80 \<le> b \<and> b \<le> 0x9F
              else utf8_cont b) \<and> utf8_cont c \<and> utf8_valid r
         | _ \<Rightarrow> False)
      else if 0xF0 \<le> a \<and> a \<le> 0xF4 then
        (case bs of b # c # d # r \<Rightarrow>
             (if a = 0xF0 then 0x90 \<le> b \<and> b \<le> 0xBF
              else if a = 0xF4 then 0x80 \<le> b \<and> b \<le> 0x8F
              else utf8_cont b) \<and> utf8_cont c \<and> utf8_cont d \<and> utf8_valid r
         | _ \<Rightarrow> False)
      else False)"

definition ascii :: "bytes \<Rightarrow> bool" where
  "ascii bs \<longleftrightarrow> list_all (\<lambda>b. b < 0x80) bs"

lemma ascii_append [simp]: "ascii (a @ b) \<longleftrightarrow> ascii a \<and> ascii b"
  by (simp add: ascii_def)

lemma ascii_utf8_valid: "ascii bs \<Longrightarrow> utf8_valid bs"
  by (induction bs) (simp_all add: ascii_def)

subsection \<open>Formatting\<close>

definition digit_char :: "nat \<Rightarrow> u8" where
  "digit_char d = of_nat (48 + d)"

fun dec_bytes :: "nat \<Rightarrow> bytes" where
  "dec_bytes n = (if n < 10 then [digit_char n] else dec_bytes (n div 10) @ [digit_char (n mod 10)])"

declare dec_bytes.simps [simp del]

definition pad020 :: "u64 \<Rightarrow> bytes" where
  "pad020 w = (let d = dec_bytes (unat w) in replicate (20 - length d) 0x30 @ d)"

definition hex_char :: "u8 \<Rightarrow> u8" where
  "hex_char d = (if d < 10 then 0x30 + d else 0x41 + (d - 10))"

definition hex_byte :: "u8 \<Rightarrow> bytes" where
  "hex_byte b = [hex_char (b div 16), hex_char (b mod 16)]"

definition hex_digest :: "bytes \<Rightarrow> str" where
  "hex_digest d = concat (map hex_byte d)"

definition is_digit_byte :: "u8 \<Rightarrow> bool" where
  "is_digit_byte b \<longleftrightarrow> 0x30 \<le> b \<and> b \<le> 0x39"

lemma digit_char_digit: "d < 10 \<Longrightarrow> is_digit_byte (digit_char d)"
proof -
  assume d: "d < 10"
  then have "unat (digit_char d) = 48 + d"
    unfolding digit_char_def by (simp only: unat_of_nat) simp
  with d show ?thesis by (simp add: is_digit_byte_def word_le_nat_alt)
qed

lemma dec_bytes_digits: "list_all is_digit_byte (dec_bytes n)"
proof (induction n rule: dec_bytes.induct)
  case (1 n)
  then show ?case
    by (cases "n < 10") (simp_all add: dec_bytes.simps [of n] digit_char_digit)
qed

lemma pad020_digits: "list_all is_digit_byte (pad020 w)"
  using dec_bytes_digits [of "unat w"]
  by (auto simp: pad020_def Let_def list_all_iff is_digit_byte_def)

lemma digits_ascii: "list_all is_digit_byte ds \<Longrightarrow> ascii ds"
  by (induction ds) (auto simp: ascii_def is_digit_byte_def word_less_nat_alt word_le_nat_alt)

lemma digits_no_slash: "list_all is_digit_byte ds \<Longrightarrow> 0x2F \<notin> set ds"
  by (induction ds) (auto simp: is_digit_byte_def)

lemma length_hex_digest [simp]: "length (hex_digest d) = 2 * length d"
  by (induction d) (simp_all add: hex_digest_def hex_byte_def)

subsection \<open>Prefixes and suffixes\<close>

definition starts_with :: "bytes \<Rightarrow> bytes \<Rightarrow> bool" where
  "starts_with s p \<longleftrightarrow> take (length p) s = p"

definition ends_with :: "bytes \<Rightarrow> bytes \<Rightarrow> bool" where
  "ends_with s p \<longleftrightarrow> length p \<le> length s \<and> drop (length s - length p) s = p"

lemma starts_with_append [simp]: "starts_with (p @ x) p"
  by (simp add: starts_with_def)

lemma starts_with_append3 [simp]: "starts_with (p @ x @ y) p"
  by (simp add: starts_with_def)

lemma ends_with_append [simp]: "ends_with (x @ p) p"
  by (simp add: ends_with_def)

lemma ends_with_append3 [simp]: "ends_with (x @ y @ p) p"
  using ends_with_append [of "x @ y" p] by simp

subsection \<open>Unix paths\<close>

datatype path_component = RootDir | CurDir | ParentDir | Normal str

fun split_on :: "u8 \<Rightarrow> bytes \<Rightarrow> bytes list" where
  "split_on c [] = [[]]"
| "split_on c (x # xs) =
     (if x = c then [] # split_on c xs
      else (case split_on c xs of s # ss \<Rightarrow> (x # s) # ss | [] \<Rightarrow> [[x]]))"

definition path_is_absolute :: "str \<Rightarrow> bool" where
  "path_is_absolute s \<longleftrightarrow> (case s of [] \<Rightarrow> False | x # _ \<Rightarrow> x = 0x2F)"

definition path_components :: "str \<Rightarrow> path_component list" where
  "path_components s =
     (let segs = split_on 0x2F s in
      (if path_is_absolute s then [RootDir]
       else if hd segs = lit ''.'' then [CurDir] else []) @
      map (\<lambda>seg. if seg = lit ''..'' then ParentDir else Normal seg)
          (filter (\<lambda>seg. seg \<noteq> [] \<and> seg \<noteq> lit ''.'') segs))"

definition is_normal :: "path_component \<Rightarrow> bool" where
  "is_normal c = (case c of Normal _ \<Rightarrow> True | _ \<Rightarrow> False)"

lemma split_on_nonempty [simp]: "split_on c s \<noteq> []"
  by (induction c s rule: split_on.induct) (auto split: list.splits)

lemma split_on_none: "c \<notin> set s \<Longrightarrow> split_on c s = [s]"
  by (induction c s rule: split_on.induct) auto

lemma split_on_append:
  "split_on c (a @ c # b) = split_on c a @ split_on c b"
  by (induction c a rule: split_on.induct) (auto split: list.splits)

text \<open>A name without a slash that is not a dot name is one normal component.\<close>

lemma path_components_simple:
  assumes "0x2F \<notin> set s" and "s \<noteq> []" and "s \<noteq> lit ''.''" and "s \<noteq> lit ''..''"
  shows "path_components s = [Normal s]" and "\<not> path_is_absolute s"
  using assms
  by (auto simp: path_components_def Let_def split_on_none path_is_absolute_def split: list.splits)

text \<open>
  The converse that path-traversal safety needs: a name with one component that starts
  and ends with slash-free affixes of at least two bytes contains no slash at all.
\<close>

lemma starts_with_no_sep:
  assumes "starts_with (a @ c # b) p" and "c \<notin> set p"
  shows "length p \<le> length a"
proof (rule ccontr)
  assume "\<not> length p \<le> length a"
  then obtain n where "length p - length a = Suc n"
    by (metis Suc_diff_Suc not_le)
  then have "c \<in> set (take (length p) (a @ c # b))" by simp
  with assms show False by (simp add: starts_with_def)
qed

lemma ends_with_no_sep:
  assumes "ends_with (a @ c # b) q" and "c \<notin> set q"
  shows "length q \<le> length b"
proof (rule ccontr)
  assume less: "\<not> length q \<le> length b"
  then have "length (a @ c # b) - length q \<le> length a" by simp
  then have "c \<in> set (drop (length (a @ c # b) - length q) (a @ c # b))" by simp
  with assms show False unfolding ends_with_def by metis
qed

lemma last_segment_long:
  assumes "ends_with s q" and "c \<notin> set q"
  shows "length q \<le> length (last (split_on c s))"
proof (cases "c \<in> set s")
  case True
  then obtain a b where s: "s = a @ c # b" and "c \<notin> set b"
    by (meson split_list_last)
  then show ?thesis
    using ends_with_no_sep [of a c b q] assms by (simp add: split_on_append split_on_none)
next
  case False
  then show ?thesis using assms by (simp add: split_on_none ends_with_def)
qed

lemma single_component_no_slash:
  assumes one: "length (path_components s) = 1"
    and pre: "starts_with s p" "0x2F \<notin> set p" "2 \<le> length p"
    and suf: "ends_with s q" "0x2F \<notin> set q" "2 \<le> length q"
  shows "0x2F \<notin> set s"
proof
  assume "0x2F \<in> set s"
  then obtain a b where s: "s = a @ 0x2F # b" and na: "0x2F \<notin> set a"
    by (meson split_list_first)
  let ?ok = "\<lambda>seg. seg \<noteq> [] \<and> seg \<noteq> lit ''.''"
  have la: "2 \<le> length a" using starts_with_no_sep [of a "0x2F" b p] pre s by simp
  have segs: "split_on 0x2F s = a # split_on 0x2F b"
    using na by (simp add: s split_on_append split_on_none)
  have "2 \<le> length (last (split_on 0x2F b))"
    using last_segment_long [OF suf(1,2)] suf(3) by (simp add: segs)
  then have "?ok (last (split_on 0x2F b))" by (auto simp: lit_def)
  then have "filter ?ok (split_on 0x2F b) \<noteq> []"
    by (simp add: filter_empty_conv) (meson last_in_set split_on_nonempty)
  moreover have "?ok a" using la by (auto simp: lit_def)
  ultimately have "2 \<le> length (filter ?ok (split_on 0x2F s))"
    by (cases "filter ?ok (split_on 0x2F b)") (simp_all add: segs)
  with one show False by (simp add: path_components_def Let_def)
qed

end
