(* ===== verification/Ub_BTree.thy ===== *)
theory Ub_BTree
  imports Ub_Prelude
begin

text \<open>
  \<open>std::collections::BTreeMap\<close> and \<open>BTreeSet\<close> as the sources use them: an ordered
  map is the list of its bindings in strictly increasing key order, which is the order in
  which iteration visits them (and in which state hashes and checkpoints serialise them).
  The locale \<open>ordered_map\<close> is the interface that the clients rely on; the association
  list below interprets it. Its consequences, that the serialisation is a function of the
  lookups alone and that reinserting the bindings in order rebuilds the map, are what the
  state hash and the checkpoint codec need.
\<close>

type_synonym ('k, 'v) btree = "('k \<times> 'v) list"

subsection \<open>Operations\<close>

primrec bt_get :: "('k, 'v) btree \<Rightarrow> 'k \<Rightarrow> 'v option" where
  "bt_get [] k = None"
| "bt_get (p # m) k = (if fst p = k then Some (snd p) else bt_get m k)"

fun bt_insert :: "'k::linorder \<Rightarrow> 'v \<Rightarrow> ('k, 'v) btree \<Rightarrow> ('k, 'v) btree" where
  "bt_insert k v [] = [(k, v)]"
| "bt_insert k v ((a, b) # m) =
     (if k < a then (k, v) # (a, b) # m
      else if k = a then (k, v) # m
      else (a, b) # bt_insert k v m)"

definition bt_remove :: "'k \<Rightarrow> ('k, 'v) btree \<Rightarrow> ('k, 'v) btree" where
  "bt_remove k m = filter (\<lambda>p. fst p \<noteq> k) m"

definition bt_values :: "('k, 'v) btree \<Rightarrow> 'v list" where
  "bt_values m = map snd m"

definition bt_ok :: "('k::linorder, 'v) btree \<Rightarrow> bool" where
  "bt_ok m \<longleftrightarrow> sorted_wrt (<) (map fst m)"

text \<open>\<open>BTreeSet::insert\<close> returns whether the element is new.\<close>

definition bset_insert :: "'k::linorder \<Rightarrow> 'k list \<Rightarrow> 'k list" where
  "bset_insert k s = (if k \<in> set s then s else insort k s)"

definition bset_ok :: "'k::linorder list \<Rightarrow> bool" where
  "bset_ok s \<longleftrightarrow> sorted_wrt (<) s"

subsection \<open>The interface\<close>

locale ordered_map =
  fixes empty :: "'m"
    and insert :: "'k::linorder \<Rightarrow> 'v \<Rightarrow> 'm \<Rightarrow> 'm"
    and remove :: "'k \<Rightarrow> 'm \<Rightarrow> 'm"
    and get :: "'m \<Rightarrow> 'k \<Rightarrow> 'v option"
    and items :: "'m \<Rightarrow> ('k \<times> 'v) list"
    and invar :: "'m \<Rightarrow> bool"
  assumes invar_empty: "invar empty"
    and invar_insert: "invar m \<Longrightarrow> invar (insert k v m)"
    and invar_remove: "invar m \<Longrightarrow> invar (remove k m)"
    and items_empty: "items empty = []"
    and items_sorted: "invar m \<Longrightarrow> sorted_wrt (<) (map fst (items m))"
    and get_items: "invar m \<Longrightarrow> get m k = map_of (items m) k"
    and get_insert: "invar m \<Longrightarrow> get (insert k v m) j = (if j = k then Some v else get m j)"
    and get_remove: "invar m \<Longrightarrow> get (remove k m) j = (if j = k then None else get m j)"
begin

lemma items_determined:
  assumes "invar m" and "invar m'" and "get m = get m'"
  shows "items m = items m'"
proof -
  have s: "sorted_wrt (<) (map fst (items m))" "sorted_wrt (<) (map fst (items m'))"
    using assms items_sorted by auto
  then have d: "distinct (map fst (items m))" "distinct (map fst (items m'))"
    and so: "sorted (map fst (items m))" "sorted (map fst (items m'))"
    by (simp_all add: strict_sorted_iff)
  have "map_of (items m) = map_of (items m')"
    using assms get_items by (metis ext)
  then have st: "set (items m) = set (items m')"
    using d by (simp add: map_of_inject_set)
  have "inj_on fst (set (items m) \<union> set (items m'))"
    using d(1) st by (simp add: distinct_map)
  then show ?thesis
    using map_sorted_distinct_set_unique [OF _ so(1) d(1) so(2) d(2) st] by simp
qed

lemma insert_idem: "invar m \<Longrightarrow> get m k = Some v \<Longrightarrow> items (insert k v m) = items m"
  by (rule items_determined) (auto simp: invar_insert get_insert)

lemma invar_inserts: "invar m \<Longrightarrow> invar (foldl (\<lambda>m (k, v). insert k v m) m kvs)"
  by (induction kvs arbitrary: m) (auto simp: invar_insert)

lemma get_inserts:
  "invar m \<Longrightarrow> get (foldl (\<lambda>m (k, v). insert k v m) m kvs) k = (get m ++ map_of (rev kvs)) k"
proof (induction kvs arbitrary: m)
  case Nil
  then show ?case by simp
next
  case (Cons p kvs)
  obtain j v where p: "p = (j, v)" by fastforce
  have "get (insert j v m) = (get m)(j \<mapsto> v)"
    using Cons.prems by (auto simp: get_insert)
  then show ?case
    using Cons p by (simp add: invar_insert map_add_def split: option.splits)
qed

lemma rebuild:
  assumes "invar m"
  shows "items (foldl (\<lambda>m (k, v). insert k v m) empty (items m)) = items m"
proof (rule items_determined [OF invar_inserts [OF invar_empty] assms], rule ext)
  fix k
  have "distinct (map fst (items m))"
    using items_sorted [OF assms] by (simp add: strict_sorted_iff)
  then have "map_of (rev (items m)) k = map_of (items m) k"
    using map_of_inject_set [of "rev (items m)" "items m"] by (simp add: rev_map [symmetric])
  then show "get (foldl (\<lambda>m (k, v). insert k v m) empty (items m)) k = get m k"
    using assms by (simp add: get_inserts invar_empty get_items items_empty map_add_def
        split: option.splits)
qed

end

subsection \<open>The association list implements it\<close>

lemma bt_get_map_of: "bt_get m k = map_of m k"
  by (induction m) auto

lemma fst_bt_insert: "fst ` set (bt_insert k v m) = Set.insert k (fst ` set m)"
  by (induction k v m rule: bt_insert.induct) auto

lemma bt_ok_insert: "bt_ok m \<Longrightarrow> bt_ok (bt_insert k v m)"
proof (induction k v m rule: bt_insert.induct)
  case (1 k v)
  then show ?case by (simp add: bt_ok_def)
next
  case (2 k v a b m)
  then show ?case
    using fst_bt_insert [of k v m] by (fastforce simp: bt_ok_def)
qed

lemma bt_ok_remove: "bt_ok m \<Longrightarrow> bt_ok (bt_remove k m)"
  by (simp add: bt_ok_def bt_remove_def sorted_wrt_map sorted_wrt_filter)

lemma bt_get_insert: "bt_get (bt_insert k v m) j = (if j = k then Some v else bt_get m j)"
  by (induction k v m rule: bt_insert.induct) auto

lemma bt_get_None: "k \<notin> fst ` set m \<Longrightarrow> bt_get m k = None"
  by (induction m) auto

lemma bt_get_remove: "bt_get (bt_remove k m) j = (if j = k then None else bt_get m j)"
  by (induction m) (auto simp: bt_remove_def)

interpretation bt: ordered_map "[]" bt_insert bt_remove bt_get "\<lambda>m. m" bt_ok
proof unfold_locales
  show "bt_ok []" by (simp add: bt_ok_def)
  show "bt_ok m \<Longrightarrow> bt_ok (bt_insert k v m)" for m :: "('a \<times> 'b) list" and k v
    by (rule bt_ok_insert)
  show "bt_ok m \<Longrightarrow> bt_ok (bt_remove k m)" for m :: "('a \<times> 'b) list" and k
    by (rule bt_ok_remove)
  show "bt_ok m \<Longrightarrow> sorted_wrt (<) (map fst m)" for m :: "('a \<times> 'b) list"
    by (simp add: bt_ok_def)
  show "bt_get m k = map_of m k" for m :: "('a \<times> 'b) list" and k
    by (rule bt_get_map_of)
  show "bt_get (bt_insert k v m) j = (if j = k then Some v else bt_get m j)"
    for m :: "('a \<times> 'b) list" and k v j
    by (rule bt_get_insert)
  show "bt_get (bt_remove k m) j = (if j = k then None else bt_get m j)"
    for m :: "('a \<times> 'b) list" and k j
    by (rule bt_get_remove)
qed simp

lemmas bt_ext = bt.items_determined

lemma bt_get_in_set: "bt_get m k = Some v \<Longrightarrow> (k, v) \<in> set m"
  by (induction m) (auto split: if_splits)

lemma bt_in_set_get: "bt_ok m \<Longrightarrow> (k, v) \<in> set m \<Longrightarrow> bt_get m k = Some v"
  by (simp add: bt_get_map_of bt_ok_def strict_sorted_iff)

lemma set_bt_insert: "bt_ok m \<Longrightarrow> set (bt_insert k v m) = Set.insert (k, v) {p \<in> set m. fst p \<noteq> k}"
proof (rule set_eqI)
  fix p :: "'a \<times> 'b" assume ok: "bt_ok m"
  obtain j w where p: "p = (j, w)" by fastforce
  have "p \<in> set (bt_insert k v m) \<longleftrightarrow> bt_get (bt_insert k v m) j = Some w"
    using ok p bt_in_set_get [OF bt_ok_insert] bt_get_in_set by metis
  also have "\<dots> \<longleftrightarrow> p \<in> Set.insert (k, v) {p \<in> set m. fst p \<noteq> k}"
    using ok p bt_in_set_get bt_get_in_set by (auto simp: bt_get_insert)
  finally show "p \<in> set (bt_insert k v m) \<longleftrightarrow> p \<in> Set.insert (k, v) {p \<in> set m. fst p \<noteq> k}" .
qed

lemma bset_ok_insert: "bset_ok s \<Longrightarrow> bset_ok (bset_insert k s)"
  by (auto simp: bset_ok_def bset_insert_def strict_sorted_iff sorted_insort distinct_insort)

lemma set_bset_insert [simp]: "set (bset_insert k s) = Set.insert k (set s)"
  by (auto simp: bset_insert_def set_insort_key)

lemma bset_rebuild:
  assumes "bset_ok (xs @ ys)"
  shows "foldl (\<lambda>s k. bset_insert k s) xs ys = xs @ ys"
  using assms
proof (induction ys arbitrary: xs)
  case Nil
  then show ?case by simp
next
  case (Cons y ys)
  have "insort y xs = xs @ [y]"
    using Cons.prems by (intro sorted_insort_is_snoc) (auto simp: bset_ok_def sorted_wrt_append
        strict_sorted_iff)
  moreover have "y \<notin> set xs" using Cons.prems by (auto simp: bset_ok_def sorted_wrt_append)
  ultimately show ?case using Cons by (simp add: bset_insert_def)
qed

lemma length_bt_insert_new: "bt_get m k = None \<Longrightarrow> length (bt_insert k v m) = Suc (length m)"
  by (induction m) (auto split: if_splits)

end
