(* ===== verification/Ub_Fs.thy ===== *)
theory Ub_Fs
  imports Ub_Text Ub_BTree
begin

text \<open>
  The part of the operating system that the storage crates use (\<open>std::fs\<close>,
  \<open>std::time\<close>): a file system with files and directories, the clock that
  \<open>SystemTime::now\<close> reads and the process id. A computation with effects takes the
  file system and returns a result with the file system it leaves, also when it fails.

  Files are byte strings. A read of a missing file, the creation of an existing one and
  an operation in a missing directory fail; reads and writes of existing files succeed.
  Flushing and syncing have no effect on the contents: what a crash can lose is stated
  with the theorems on recovery, over the bytes of the file.
\<close>

type_synonym path = "str list"

record fsys =
  fs_files :: "(path, bytes) btree"
  fs_dirs :: "path set"
  fs_clock :: "nat \<Rightarrow> int"
  fs_tick :: nat
  fs_pid :: nat

datatype io_error = NotFound path | AlreadyExists path | NotADirectory path | IsADirectory path
  | StorageFull path | InputOutput path

type_synonym ('e, 'a) io = "fsys \<Rightarrow> ('e + 'a) \<times> fsys"

subsection \<open>Sequencing\<close>

definition io_ret :: "'a \<Rightarrow> ('e, 'a) io" where
  "io_ret x fs = (Inr x, fs)"

definition io_err :: "'e \<Rightarrow> ('e, 'a) io" where
  "io_err e fs = (Inl e, fs)"

definition io_bind :: "('e, 'a) io \<Rightarrow> ('a \<Rightarrow> ('e, 'b) io) \<Rightarrow> ('e, 'b) io" where
  "io_bind m f fs = (case m fs of (Inl e, fs') \<Rightarrow> (Inl e, fs') | (Inr x, fs') \<Rightarrow> f x fs')"

definition io_pure :: "'e + 'a \<Rightarrow> ('e, 'a) io" where
  "io_pure r fs = (r, fs)"

text \<open>A read-only computation.\<close>

definition io_query :: "(fsys \<Rightarrow> 'e + 'a) \<Rightarrow> ('e, 'a) io" where
  "io_query q fs = (q fs, fs)"

definition io_map_err :: "('e \<Rightarrow> 'f) \<Rightarrow> ('e, 'a) io \<Rightarrow> ('f, 'a) io" where
  "io_map_err g m fs = (case m fs of (r, fs') \<Rightarrow> (map_err g r, fs'))"

text \<open>\<open>if result.is_err() { let _ = cleanup; }\<close>.\<close>

definition io_on_error :: "('e, 'a) io \<Rightarrow> (fsys \<Rightarrow> fsys) \<Rightarrow> ('e, 'a) io" where
  "io_on_error m cleanup fs =
     (case m fs of (Inl e, fs') \<Rightarrow> (Inl e, cleanup fs') | (Inr x, fs') \<Rightarrow> (Inr x, fs'))"

lemmas io_simps = io_ret_def io_err_def io_pure_def io_query_def

lemma io_bind_eq_Inr_iff:
  "io_bind m f fs = (Inr y, fs'') \<longleftrightarrow> (\<exists>x fs'. m fs = (Inr x, fs') \<and> f x fs' = (Inr y, fs''))"
  by (auto simp: io_bind_def split: prod.splits sum.splits)

lemma io_bind_ok [simp]: "m fs = (Inr x, fs') \<Longrightarrow> io_bind m f fs = f x fs'"
  by (simp add: io_bind_def)

lemma io_bind_fail: "m fs = (Inl e, fs') \<Longrightarrow> io_bind m f fs = (Inl e, fs')"
  by (simp add: io_bind_def)

lemma io_map_err_eq_Inr_iff [simp]: "io_map_err g m fs = (Inr x, fs') \<longleftrightarrow> m fs = (Inr x, fs')"
  by (auto simp: io_map_err_def map_err_def split: prod.splits sum.splits)

lemma io_on_error_eq_Inr_iff [simp]:
  "io_on_error m c fs = (Inr x, fs') \<longleftrightarrow> m fs = (Inr x, fs')"
  by (auto simp: io_on_error_def split: prod.splits sum.splits)

subsection \<open>File operations\<close>

definition fget :: "fsys \<Rightarrow> path \<Rightarrow> bytes option" where
  "fget fs p = bt_get (fs_files fs) p"

definition fput :: "path \<Rightarrow> bytes \<Rightarrow> fsys \<Rightarrow> fsys" where
  "fput p bs fs = fs\<lparr>fs_files := bt_insert p bs (fs_files fs)\<rparr>"

definition fdel :: "path \<Rightarrow> fsys \<Rightarrow> fsys" where
  "fdel p fs = fs\<lparr>fs_files := bt_remove p (fs_files fs)\<rparr>"

lemma fget_put [simp]: "fget (fput p bs fs) q = (if q = p then Some bs else fget fs q)"
  by (simp add: fget_def fput_def bt_get_insert)

lemma fget_del [simp]: "fget (fdel p fs) q = (if q = p then None else fget fs q)"
  by (simp add: fget_def fdel_def bt_get_remove)

lemma fget_update [simp]:
  "fget (fs\<lparr>fs_dirs := d\<rparr>) q = fget fs q" "fget (fs\<lparr>fs_tick := n\<rparr>) q = fget fs q"
  by (simp_all add: fget_def)

lemma fput_fields [simp]:
  "fs_dirs (fput p bs fs) = fs_dirs fs" "fs_clock (fput p bs fs) = fs_clock fs"
  "fs_tick (fput p bs fs) = fs_tick fs" "fs_pid (fput p bs fs) = fs_pid fs"
  "fs_dirs (fdel p fs) = fs_dirs fs" "fs_clock (fdel p fs) = fs_clock fs"
  "fs_tick (fdel p fs) = fs_tick fs" "fs_pid (fdel p fs) = fs_pid fs"
  by (simp_all add: fput_def fdel_def)

definition fs_exists :: "fsys \<Rightarrow> path \<Rightarrow> bool" where
  "fs_exists fs p \<longleftrightarrow> fget fs p \<noteq> None \<or> p \<in> fs_dirs fs"

definition fs_is_dir :: "fsys \<Rightarrow> path \<Rightarrow> bool" where
  "fs_is_dir fs p \<longleftrightarrow> p \<in> fs_dirs fs"

definition fs_read :: "path \<Rightarrow> fsys \<Rightarrow> io_error + bytes" where
  "fs_read p fs = ok_or (NotFound p) (fget fs p)"

definition path_prefixes :: "path \<Rightarrow> path list" where
  "path_prefixes p = map (\<lambda>n. take n p) [0..<Suc (length p)]"

definition create_dir_all :: "path \<Rightarrow> (io_error, unit) io" where
  "create_dir_all p fs =
     (if p \<in> fs_dirs fs then (Inr (), fs)
      else if list_ex (\<lambda>q. fget fs q \<noteq> None) (path_prefixes p) then (Inl (NotADirectory p), fs)
      else (Inr (), fs\<lparr>fs_dirs := fs_dirs fs \<union> set (path_prefixes p)\<rparr>))"

definition path_parent :: "path \<Rightarrow> path option" where
  "path_parent p = (if p = [] then None else Some (butlast p))"

definition path_file_name :: "path \<Rightarrow> str option" where
  "path_file_name p = (if p = [] then None else Some (last p))"

text \<open>\<open>fs::read_dir\<close>: the files of a directory, and \<open>Path::extension\<close>.\<close>

definition dir_files :: "fsys \<Rightarrow> path \<Rightarrow> path list" where
  "dir_files fs d = filter (\<lambda>p. p \<noteq> [] \<and> butlast p = d) (map fst (fs_files fs))"

definition read_dir :: "path \<Rightarrow> fsys \<Rightarrow> io_error + path list" where
  "read_dir d fs = (if d \<in> fs_dirs fs then Inr (dir_files fs d) else Inl (NotFound d))"

definition has_extension :: "path \<Rightarrow> str \<Rightarrow> bool" where
  "has_extension p ext \<longleftrightarrow>
     p \<noteq> [] \<and> 0x2E \<notin> set ext \<and> ends_with (last p) (0x2E # ext) \<and> length ext + 1 < length (last p)"

definition path_display :: "path \<Rightarrow> str" where
  "path_display p = concat (map (\<lambda>c. 0x2F # c) p)"

text \<open>\<open>OpenOptions::new().create_new(true).write(true).open(p)\<close> followed by \<open>write_all\<close>.\<close>

definition create_new :: "path \<Rightarrow> bytes \<Rightarrow> (io_error, unit) io" where
  "create_new p bs fs =
     (if fs_exists fs p then (Inl (AlreadyExists p), fs)
      else if butlast p \<notin> fs_dirs fs then (Inl (NotFound p), fs)
      else (Inr (), fput p bs fs))"

definition write_all :: "path \<Rightarrow> bytes \<Rightarrow> (io_error, unit) io" where
  "write_all p bs fs =
     (case fget fs p of
        None \<Rightarrow> (Inl (NotFound p), fs)
      | Some old \<Rightarrow> (Inr (), fput p (old @ bs) fs))"

text \<open>
  \<open>write_all\<close>, \<open>flush\<close> and \<open>sync_all\<close> on a file opened for appending, on a disk that may fail:
  a write that fails may leave the first bytes of the data in the file, a synchronisation that
  fails leaves all of them. Where a disk is not mentioned, it does not fail.
\<close>

datatype disk = Disk_Ok | Write_Stops nat io_error | Sync_Fails io_error

definition append_sync :: "disk \<Rightarrow> path \<Rightarrow> bytes \<Rightarrow> (io_error, unit) io" where
  "append_sync d p bs fs =
     (case fget fs p of
        None \<Rightarrow> (Inl (NotFound p), fs)
      | Some old \<Rightarrow>
         (case d of
            Disk_Ok \<Rightarrow> (Inr (), fput p (old @ bs) fs)
          | Write_Stops n e \<Rightarrow> (Inl e, fput p (old @ take n bs) fs)
          | Sync_Fails e \<Rightarrow> (Inl e, fput p (old @ bs) fs)))"

lemma append_sync_ok: "append_sync Disk_Ok = write_all"
  by (intro ext) (simp add: append_sync_def write_all_def split: option.split)

definition set_len :: "path \<Rightarrow> nat \<Rightarrow> (io_error, unit) io" where
  "set_len p n fs =
     (case fget fs p of
        None \<Rightarrow> (Inl (NotFound p), fs)
      | Some old \<Rightarrow>
          (Inr (), fput p (take n old @ replicate (n - length old) 0) fs))"

definition fs_rename :: "path \<Rightarrow> path \<Rightarrow> (io_error, unit) io" where
  "fs_rename a b fs =
     (case fget fs a of
        None \<Rightarrow> (Inl (NotFound a), fs)
      | Some bs \<Rightarrow>
          if b \<in> fs_dirs fs then (Inl (IsADirectory b), fs)
          else if butlast b \<notin> fs_dirs fs then (Inl (NotFound b), fs)
          else (Inr (), fput b bs (fdel a fs)))"

definition fs_remove :: "path \<Rightarrow> (io_error, unit) io" where
  "fs_remove p fs =
     (case fget fs p of
        None \<Rightarrow> (Inl (NotFound p), fs)
      | Some _ \<Rightarrow> (Inr (), fdel p fs))"

text \<open>\<open>File::open(dir)?.sync_all()\<close>.\<close>

definition sync_dir :: "path \<Rightarrow> (io_error, unit) io" where
  "sync_dir p fs = (if fs_exists fs p then (Inr (), fs) else (Inl (NotFound p), fs))"

text \<open>\<open>SystemTime::now()\<close>: the clock may give any value at each call.\<close>

definition clock_now :: "fsys \<Rightarrow> int \<times> fsys" where
  "clock_now fs = (fs_clock fs (fs_tick fs), fs\<lparr>fs_tick := Suc (fs_tick fs)\<rparr>)"

subsection \<open>Temporary names\<close>

text \<open>
  \<open>.{name}.tmp-{pid}-{timestamp}\<close> beside the destination. The two crates that define
  \<open>temporary_path\<close> differ only in their error values.
\<close>

definition temporary_name :: "fsys \<Rightarrow> path \<Rightarrow> int \<Rightarrow> path" where
  "temporary_name fs dest t =
     butlast dest @ [lit ''.'' @ last dest @ lit ''.tmp-'' @ dec_bytes (fs_pid fs) @ lit ''-''
                     @ dec_bytes (nat t)]"

definition temporary_path_with :: "'e \<Rightarrow> 'e \<Rightarrow> path \<Rightarrow> ('e, path) io" where
  "temporary_path_with no_parent before_epoch dest fs =
     (if dest = [] then (Inl no_parent, fs)
      else case clock_now fs of (t, fs') \<Rightarrow>
        if t < 0 then (Inl before_epoch, fs') else (Inr (temporary_name fs dest t), fs'))"

definition hidden_name :: "path \<Rightarrow> bool" where
  "hidden_name p \<longleftrightarrow> p \<noteq> [] \<and> starts_with (last p) (lit ''.'')"

lemma hidden_temporary_name: "hidden_name (temporary_name fs dest t)"
  by (simp add: hidden_name_def temporary_name_def)

lemma butlast_temporary_name [simp]: "butlast (temporary_name fs dest t) = butlast dest"
  by (simp add: temporary_name_def)

text \<open>
  The steady state between operations: no temporary file is left, the clock is after the
  epoch, and no directory is also a file.
\<close>

definition fs_quiet :: "fsys \<Rightarrow> bool" where
  "fs_quiet fs \<longleftrightarrow>
     (\<forall>p. hidden_name p \<longrightarrow> fget fs p = None \<and> p \<notin> fs_dirs fs) \<and>
     (\<forall>n. 0 \<le> fs_clock fs n) \<and>
     (\<forall>p \<in> fs_dirs fs. fget fs p = None)"

subsection \<open>What a computation keeps\<close>

text \<open>
  A relation between the file systems before and after, shown for a composed computation
  from its parts, whatever the results of the parts are.
\<close>

locale io_relation =
  fixes R :: "fsys \<Rightarrow> fsys \<Rightarrow> bool"
  assumes R_refl: "R fs fs"
    and R_trans: "R fs fs' \<Longrightarrow> R fs' fs'' \<Longrightarrow> R fs fs''"
begin

definition io_respects :: "('e, 'a) io \<Rightarrow> bool" where
  "io_respects m \<longleftrightarrow> (\<forall>fs. R fs (snd (m fs)))"

lemma bind_at:
  assumes m: "R fs (snd (m fs))" and f: "\<And>x. io_respects (f x)"
  shows "R fs (snd (io_bind m f fs))"
proof -
  obtain r fs' where e: "m fs = (r, fs')" by fastforce
  with m f show ?thesis
    by (cases r) (auto simp: io_bind_def io_respects_def intro: R_trans)
qed

lemma respects_bind [intro]:
  "io_respects m \<Longrightarrow> (\<And>x. io_respects (f x)) \<Longrightarrow> io_respects (io_bind m f)"
  unfolding io_respects_def [of "io_bind m f"] by (auto intro: bind_at simp: io_respects_def [of m])

lemma respects_quiet [intro]:
  "io_respects (io_ret x)" "io_respects (io_err e)" "io_respects (io_pure r)" "io_respects (io_query q)"
  by (simp_all add: io_respects_def io_simps R_refl)

lemma respects_map_err [intro]: "io_respects m \<Longrightarrow> io_respects (io_map_err g m)"
  by (auto simp: io_respects_def io_map_err_def split: prod.splits) (metis snd_conv)

lemma respects_on_error:
  assumes "io_respects m" and "\<And>fs. R fs (c fs)"
  shows "io_respects (io_on_error m c)"
  unfolding io_respects_def
proof
  fix fs
  obtain r fs' where e: "m fs = (r, fs')" by fastforce
  then have "R fs fs'" using assms(1) unfolding io_respects_def by (metis snd_conv)
  with e assms(2) show "R fs (snd (io_on_error m c fs))"
    by (cases r) (auto simp: io_on_error_def intro: R_trans)
qed

end

text \<open>Every file but one keeps its contents.\<close>

definition keeps_files :: "path \<Rightarrow> fsys \<Rightarrow> fsys \<Rightarrow> bool" where
  "keeps_files t fs fs' \<longleftrightarrow> (\<forall>q b. q \<noteq> t \<longrightarrow> fget fs q = Some b \<longrightarrow> fget fs' q = Some b)"

interpretation kf: io_relation "keeps_files t" for t
  by unfold_locales (auto simp: keeps_files_def)

lemma keeps_files_ops:
  "kf.io_respects t (create_dir_all p)" "kf.io_respects t (create_new p bs)"
  "kf.io_respects t (write_all t bs)" "kf.io_respects t (fs_remove t)" "kf.io_respects t (sync_dir p)"
  by (auto simp: kf.io_respects_def keeps_files_def create_dir_all_def create_new_def write_all_def
      fs_remove_def sync_dir_def fs_exists_def split: option.splits if_splits)

text \<open>The effect of storing one file: its contents change, and nothing else that is visible.\<close>

definition fs_installs :: "path \<Rightarrow> bytes \<Rightarrow> fsys \<Rightarrow> fsys \<Rightarrow> bool" where
  "fs_installs p bs fs fs' \<longleftrightarrow> fget fs' = (fget fs)(p \<mapsto> bs) \<and> fs_dirs fs' = fs_dirs fs \<and>
     fs_clock fs' = fs_clock fs \<and> fs_pid fs' = fs_pid fs"

lemma fs_installs_quiet:
  "fs_installs p bs fs fs' \<Longrightarrow> fs_quiet fs \<Longrightarrow> \<not> hidden_name p \<Longrightarrow> p \<notin> fs_dirs fs \<Longrightarrow> fs_quiet fs'"
  by (auto simp: fs_installs_def fs_quiet_def)

lemma fs_installs_exists:
  "fs_installs p bs fs fs' \<Longrightarrow> fs_exists fs' q \<longleftrightarrow> q = p \<or> fs_exists fs q"
  by (auto simp: fs_installs_def fs_exists_def)

lemma fs_installs_trans:
  "fs_installs p a fs fs' \<Longrightarrow> fs_installs p b fs' fs'' \<Longrightarrow> fs_installs p b fs fs''"
  by (simp add: fs_installs_def)

lemma fs_installs_fput: "fs_installs p bs fs (fput p bs fs)"
  by (auto simp: fs_installs_def)

lemma quiet_temporary:
  assumes "fs_quiet fs" and "p \<noteq> []" and "\<not> hidden_name p"
  obtains t where "temporary_path_with e1 e2 p fs = (Inr t, fs\<lparr>fs_tick := Suc (fs_tick fs)\<rparr>)"
    and "butlast t = butlast p" and "t \<noteq> p" and "fget fs t = None" and "t \<notin> fs_dirs fs"
proof
  let ?t = "temporary_name fs p (fs_clock fs (fs_tick fs))"
  show "temporary_path_with e1 e2 p fs = (Inr ?t, fs\<lparr>fs_tick := Suc (fs_tick fs)\<rparr>)"
    using assms by (auto simp: temporary_path_with_def clock_now_def fs_quiet_def not_less)
  show "?t \<noteq> p" using assms(3) hidden_temporary_name by metis
qed (use assms(1) hidden_temporary_name in \<open>auto simp: fs_quiet_def\<close>)

end
