(* ===== verification/Ub_Storage.thy ===== *)
theory Ub_Storage
  imports Ub_Sha256 Ub_Fs
begin

text \<open>
  The on-disk formats of \<open>ultraballoondb-storage/src/lib.rs\<close>: the 80-byte file header,
  record kinds, segment entries and the validation of their payloads, the 56-byte record
  header and the head payload. Fixed arrays \<open>[u8; N]\<close> are byte strings; their lengths
  are the well-formedness predicates \<open>file_header_wf\<close> and \<open>head_wf\<close>. An array that the
  code fills field by field over contiguous ranges is the concatenation of the fields.
\<close>

subsection \<open>Errors and constants\<close>

datatype storage_error =
    Storage_Io io_error
  | Storage_InvalidMagic bytes bytes
  | Storage_UnsupportedVersion u16 u16
  | Storage_InvalidHeader str
  | Storage_InvalidRecord str
  | Storage_IntegrityMismatch str bytes bytes
  | Storage_NonZeroPadding nat
  | Storage_TrailingBytes nat nat
  | Storage_AlreadyExistsDifferent path
  | Storage_InvalidPath str

definition STORAGE_MAJOR :: u16 where "STORAGE_MAJOR = 1"
definition STORAGE_MINOR :: u16 where "STORAGE_MINOR = 0"
definition MAGIC_HEAD :: bytes where "MAGIC_HEAD = lit ''UBHEAD1'' @ [0]"
definition MAGIC_MANIFEST :: bytes where "MAGIC_MANIFEST = lit ''UBMETA1'' @ [0]"
definition MAGIC_SEGMENT :: bytes where "MAGIC_SEGMENT = lit ''UBSEG01'' @ [0]"

lemma length_magics [simp, len_simps]:
  "length MAGIC_HEAD = 8" "length MAGIC_MANIFEST = 8" "length MAGIC_SEGMENT = 8"
  by (simp_all add: MAGIC_HEAD_def MAGIC_MANIFEST_def MAGIC_SEGMENT_def)

subsection \<open>Reading fields\<close>

definition storage_read_u16 :: "bytes \<Rightarrow> nat \<Rightarrow> storage_error + u16" where
  "storage_read_u16 bs offset =
     rbind (read_field 2 (Storage_InvalidHeader (lit ''u16 offset overflow''))
                         (Storage_InvalidHeader (lit ''truncated u16'')) bs offset) (\<lambda>v.
     Inr (from_le v))"

definition storage_read_u32 :: "bytes \<Rightarrow> nat \<Rightarrow> storage_error + u32" where
  "storage_read_u32 bs offset =
     rbind (read_field 4 (Storage_InvalidHeader (lit ''u32 offset overflow''))
                         (Storage_InvalidHeader (lit ''truncated u32'')) bs offset) (\<lambda>v.
     Inr (from_le v))"

definition storage_read_u64 :: "bytes \<Rightarrow> nat \<Rightarrow> storage_error + u64" where
  "storage_read_u64 bs offset =
     rbind (read_field 8 (Storage_InvalidHeader (lit ''u64 offset overflow''))
                         (Storage_InvalidHeader (lit ''truncated u64'')) bs offset) (\<lambda>v.
     Inr (from_le v))"

definition storage_read_digest :: "bytes \<Rightarrow> nat \<Rightarrow> storage_error + bytes" where
  "storage_read_digest bs offset =
     read_field 32 (Storage_InvalidHeader (lit ''digest offset overflow''))
                   (Storage_InvalidHeader (lit ''truncated digest'')) bs offset"

definition padding_len :: "nat \<Rightarrow> nat" where
  "padding_len n = (8 - n mod 8) mod 8"

lemma storage_read_ok:
  "off + 2 < usize_limit \<Longrightarrow> off + 2 \<le> length bs \<Longrightarrow>
     storage_read_u16 bs off = Inr (from_le (take 2 (drop off bs)))"
  "off + 4 < usize_limit \<Longrightarrow> off + 4 \<le> length bs \<Longrightarrow>
     storage_read_u32 bs off = Inr (from_le (take 4 (drop off bs)))"
  "off + 8 < usize_limit \<Longrightarrow> off + 8 \<le> length bs \<Longrightarrow>
     storage_read_u64 bs off = Inr (from_le (take 8 (drop off bs)))"
  "off + 32 < usize_limit \<Longrightarrow> off + 32 \<le> length bs \<Longrightarrow>
     storage_read_digest bs off = Inr (take 32 (drop off bs))"
  by (simp_all add: storage_read_u16_def storage_read_u32_def storage_read_u64_def
      storage_read_digest_def read_field_ok)

subsection \<open>File header\<close>

record file_header =
  fh_magic :: bytes
  fh_major :: u16
  fh_minor :: u16
  fh_generation :: u64
  fh_payload_bytes :: u64
  fh_item_count :: u64
  fh_flags :: u64
  fh_payload_sha256 :: bytes

definition file_header_new :: "bytes \<Rightarrow> u64 \<Rightarrow> u64 \<Rightarrow> u64 \<Rightarrow> bytes \<Rightarrow> file_header" where
  "file_header_new magic generation payload_bytes item_count payload_sha256 =
     \<lparr>fh_magic = magic, fh_major = STORAGE_MAJOR, fh_minor = STORAGE_MINOR,
      fh_generation = generation, fh_payload_bytes = payload_bytes,
      fh_item_count = item_count, fh_flags = 0, fh_payload_sha256 = payload_sha256\<rparr>"

definition file_header_encode :: "file_header \<Rightarrow> bytes" where
  "file_header_encode h =
     fh_magic h @ u16_le (fh_major h) @ u16_le (fh_minor h) @ u32_le 80
     @ u64_le (fh_generation h) @ u64_le (fh_payload_bytes h) @ u64_le (fh_item_count h)
     @ u64_le (fh_flags h) @ fh_payload_sha256 h"

definition file_header_decode :: "bytes \<Rightarrow> bytes \<Rightarrow> storage_error + file_header" where
  "file_header_decode bs expected_magic =
     (if length bs \<noteq> 80 then Inl (Storage_InvalidHeader (lit ''file header must be exactly 80 bytes''))
      else let magic = slice bs 0 8 in
      if magic \<noteq> expected_magic then Inl (Storage_InvalidMagic expected_magic magic)
      else
        rbind (storage_read_u16 bs 8) (\<lambda>major.
        rbind (storage_read_u16 bs 10) (\<lambda>minor.
        if major \<noteq> STORAGE_MAJOR then Inl (Storage_UnsupportedVersion major minor)
        else
          rbind (storage_read_u32 bs 12) (\<lambda>header_bytes.
          if header_bytes \<noteq> 80 then Inl (Storage_InvalidHeader (lit ''file header_bytes is not 80''))
          else
            rbind (storage_read_u64 bs 40) (\<lambda>flags.
            if flags \<noteq> 0 then Inl (Storage_InvalidHeader (lit ''unknown file flags''))
            else
              rbind (storage_read_u64 bs 16) (\<lambda>generation.
              rbind (storage_read_u64 bs 24) (\<lambda>payload_bytes.
              rbind (storage_read_u64 bs 32) (\<lambda>item_count.
              rbind (storage_read_digest bs 48) (\<lambda>payload_sha256.
              Inr \<lparr>fh_magic = magic, fh_major = major, fh_minor = minor,
                   fh_generation = generation, fh_payload_bytes = payload_bytes,
                   fh_item_count = item_count, fh_flags = flags,
                   fh_payload_sha256 = payload_sha256\<rparr>)))))))))"

definition file_header_wf :: "file_header \<Rightarrow> bool" where
  "file_header_wf h \<longleftrightarrow> length (fh_magic h) = 8 \<and> length (fh_payload_sha256 h) = 32 \<and>
     fh_major h = STORAGE_MAJOR \<and> fh_flags h = 0"

subsection \<open>Record kinds and entries\<close>

datatype record_kind = Record | TypedEdge | RecordTombstone | EdgeTombstone | Metadata

fun kind_code :: "record_kind \<Rightarrow> u16" where
  "kind_code Record = 1"
| "kind_code TypedEdge = 2"
| "kind_code RecordTombstone = 3"
| "kind_code EdgeTombstone = 4"
| "kind_code Metadata = 5"

definition kind_from_u16 :: "u16 \<Rightarrow> storage_error + record_kind" where
  "kind_from_u16 value =
     (if value = 1 then Inr Record
      else if value = 2 then Inr TypedEdge
      else if value = 3 then Inr RecordTombstone
      else if value = 4 then Inr EdgeTombstone
      else if value = 5 then Inr Metadata
      else Inl (Storage_InvalidRecord (lit ''unknown record kind '' @ dec_bytes (unat value))))"

record segment_entry =
  se_kind :: record_kind
  se_logical_id :: u64
  se_payload :: bytes

definition validate_record_payload :: "bytes \<Rightarrow> storage_error + unit" where
  "validate_record_payload payload =
     (if length payload < 56
      then Inl (Storage_InvalidRecord (lit ''record payload shorter than fixed prefix''))
      else
        rbind (storage_read_u32 payload 0) (\<lambda>id_len.
        let record_id_len = unat id_len in
        rbind (storage_read_u32 payload 4) (\<lambda>reserved.
        if reserved \<noteq> 0 then Inl (Storage_InvalidRecord (lit ''record reserved field is non-zero''))
        else
          rbind (storage_read_u64 payload 16) (\<lambda>up_len.
          let user_payload_len = unat up_len in
          rbind (ok_or (Storage_InvalidRecord (lit ''record length overflow''))
                   (Option.bind (checked_add 56 record_id_len)
                      (\<lambda>value. checked_add value user_payload_len))) (\<lambda>expected_len.
          if length payload \<noteq> expected_len
          then Inl (Storage_InvalidRecord (lit ''record payload length mismatch expected=''
                 @ dec_bytes expected_len @ lit '' actual='' @ dec_bytes (length payload)))
          else if record_id_len = 0
          then Inl (Storage_InvalidRecord (lit ''record_id cannot be empty''))
          else
            let record_id_end = 56 + record_id_len in
            if \<not> utf8_valid (slice payload 56 record_id_end)
            then Inl (Storage_InvalidRecord (lit ''record_id is not UTF-8''))
            else
              rbind (storage_read_digest payload 24) (\<lambda>expected_hash.
              let actual_hash = sha256 (drop record_id_end payload) in
              if expected_hash \<noteq> actual_hash
              then Inl (Storage_IntegrityMismatch (lit ''record user payload'')
                          expected_hash actual_hash)
              else Inr ()))))))"

definition validate_typed_edge_payload :: "bytes \<Rightarrow> storage_error + unit" where
  "validate_typed_edge_payload payload =
     (if length payload \<noteq> 32
      then Inl (Storage_InvalidRecord (lit ''typed edge payload must be 32 bytes, actual=''
             @ dec_bytes (length payload)))
      else
        rbind (storage_read_u32 payload 20) (\<lambda>reserved.
        if reserved \<noteq> 0
        then Inl (Storage_InvalidRecord (lit ''typed edge reserved field is non-zero''))
        else
          rbind (storage_read_u64 payload 24) (\<lambda>bits.
          if \<not> f64_is_finite bits
          then Inl (Storage_InvalidRecord (lit ''typed edge weight must be finite''))
          else if f64_is_zero bits \<and> bits \<noteq> 0
          then Inl (Storage_InvalidRecord (lit ''typed edge negative zero is not canonical''))
          else Inr ())))"

definition validate_entry_payload :: "segment_entry \<Rightarrow> storage_error + unit" where
  "validate_entry_payload entry =
     (case se_kind entry of
        Record \<Rightarrow> validate_record_payload (se_payload entry)
      | TypedEdge \<Rightarrow> validate_typed_edge_payload (se_payload entry)
      | _ \<Rightarrow> Inr ())"

definition entry_new :: "record_kind \<Rightarrow> u64 \<Rightarrow> bytes \<Rightarrow> storage_error + segment_entry" where
  "entry_new kind logical_id payload =
     (let entry = \<lparr>se_kind = kind, se_logical_id = logical_id, se_payload = payload\<rparr> in
      rbind (validate_entry_payload entry) (\<lambda>_. Inr entry))"

definition record_payload :: "str \<Rightarrow> u64 \<Rightarrow> bytes \<Rightarrow> bytes" where
  "record_payload record_id node_id user_payload =
     u32_le (of_nat (length record_id)) @ u32_le 0 @ u64_le node_id
     @ u64_le (of_nat (length user_payload)) @ sha256 user_payload @ record_id @ user_payload"

definition entry_record :: "u64 \<Rightarrow> str \<Rightarrow> u64 \<Rightarrow> bytes \<Rightarrow> storage_error + segment_entry" where
  "entry_record logical_id record_id node_id user_payload =
     (if record_id = [] then Inl (Storage_InvalidRecord (lit ''record_id cannot be empty''))
      else if 2 ^ 32 \<le> length record_id then Inl (Storage_InvalidRecord (lit ''record_id too long''))
      else if usize_limit \<le> length user_payload
      then Inl (Storage_InvalidRecord (lit ''payload too long''))
      else
        rbind (ok_or (Storage_InvalidRecord (lit ''record payload overflow''))
                 (Option.bind (checked_add 56 (length record_id))
                    (\<lambda>value. checked_add value (length user_payload)))) (\<lambda>_.
        entry_new Record logical_id (record_payload record_id node_id user_payload)))"

definition edge_payload :: "u64 \<Rightarrow> u64 \<Rightarrow> u32 \<Rightarrow> f64 \<Rightarrow> bytes" where
  "edge_payload src dst edge_type weight =
     u64_le src @ u64_le dst @ u32_le edge_type @ u32_le 0 @ u64_le weight"

definition entry_typed_edge ::
  "u64 \<Rightarrow> u64 \<Rightarrow> u64 \<Rightarrow> u32 \<Rightarrow> f64 \<Rightarrow> storage_error + segment_entry" where
  "entry_typed_edge logical_id src dst edge_type weight =
     (if \<not> f64_is_finite weight
      then Inl (Storage_InvalidRecord (lit ''typed edge weight must be finite''))
      else entry_new TypedEdge logical_id (edge_payload src dst edge_type (f64_canonical weight)))"

definition entry_metadata :: "u64 \<Rightarrow> bytes \<Rightarrow> storage_error + segment_entry" where
  "entry_metadata logical_id payload = entry_new Metadata logical_id payload"

subsection \<open>Record header\<close>

record record_header =
  rh_kind :: record_kind
  rh_flags :: u16
  rh_logical_id :: u64
  rh_payload_bytes :: u64
  rh_payload_sha256 :: bytes

definition record_header_for_entry :: "segment_entry \<Rightarrow> storage_error + record_header" where
  "record_header_for_entry entry =
     (if usize_limit \<le> length (se_payload entry)
      then Inl (Storage_InvalidRecord (lit ''payload too long''))
      else Inr \<lparr>rh_kind = se_kind entry, rh_flags = 0, rh_logical_id = se_logical_id entry,
                rh_payload_bytes = of_nat (length (se_payload entry)),
                rh_payload_sha256 = sha256 (se_payload entry)\<rparr>)"

definition record_header_encode :: "record_header \<Rightarrow> bytes" where
  "record_header_encode h =
     u16_le (kind_code (rh_kind h)) @ u16_le (rh_flags h) @ u32_le 56
     @ u64_le (rh_logical_id h) @ u64_le (rh_payload_bytes h) @ rh_payload_sha256 h"

definition record_header_decode :: "bytes \<Rightarrow> storage_error + record_header" where
  "record_header_decode bs =
     (if length bs \<noteq> 56
      then Inl (Storage_InvalidHeader (lit ''record header must be exactly 56 bytes''))
      else
        rbind (storage_read_u16 bs 2) (\<lambda>flags.
        if flags \<noteq> 0 then Inl (Storage_InvalidRecord (lit ''unknown record flags''))
        else
          rbind (storage_read_u32 bs 4) (\<lambda>header_bytes.
          if header_bytes \<noteq> 56 then Inl (Storage_InvalidRecord (lit ''record header_bytes is not 56''))
          else
            rbind (storage_read_u16 bs 0) (\<lambda>kind_value.
            rbind (kind_from_u16 kind_value) (\<lambda>kind.
            rbind (storage_read_u64 bs 8) (\<lambda>logical_id.
            rbind (storage_read_u64 bs 16) (\<lambda>payload_bytes.
            rbind (storage_read_digest bs 24) (\<lambda>payload_sha256.
            Inr \<lparr>rh_kind = kind, rh_flags = flags, rh_logical_id = logical_id,
                 rh_payload_bytes = payload_bytes,
                 rh_payload_sha256 = payload_sha256\<rparr>))))))))"

subsection \<open>Head\<close>

record head =
  hd_generation :: u64
  hd_manifest_filename :: str
  hd_manifest_sha256 :: bytes

definition validate_filename :: "head \<Rightarrow> storage_error + unit" where
  "validate_filename h =
     (let name = hd_manifest_filename h in
      if name = [] then Inl (Storage_InvalidPath (lit ''manifest filename cannot be empty''))
      else if path_is_absolute name
           \<or> list_ex (\<lambda>c. \<not> is_normal c) (path_components name)
           \<or> length (path_components name) \<noteq> 1
      then Inl (Storage_InvalidPath
             (lit ''manifest filename must be one normal relative path component''))
      else if \<not> starts_with name (lit ''MANIFEST-'') \<or> \<not> ends_with name (lit ''.ubmeta'')
      then Inl (Storage_InvalidPath (lit ''manifest filename does not match MANIFEST-*.ubmeta''))
      else Inr ())"

definition head_encode_payload :: "head \<Rightarrow> storage_error + bytes" where
  "head_encode_payload h =
     rbind (validate_filename h) (\<lambda>_.
     if 2 ^ 32 \<le> length (hd_manifest_filename h)
     then Inl (Storage_InvalidPath (lit ''manifest filename too long''))
     else
       let payload = u64_le (hd_generation h) @ u32_le (of_nat (length (hd_manifest_filename h)))
                     @ u32_le 0 @ hd_manifest_sha256 h @ hd_manifest_filename h
       in Inr (payload @ replicate (padding_len (length payload)) 0))"

definition head_decode_payload :: "bytes \<Rightarrow> storage_error + head" where
  "head_decode_payload payload =
     (if length payload < 48 then Inl (Storage_InvalidHeader (lit ''head payload too short''))
      else
        rbind (storage_read_u64 payload 0) (\<lambda>generation.
        rbind (storage_read_u32 payload 8) (\<lambda>name_len.
        rbind (storage_read_u32 payload 12) (\<lambda>reserved.
        if reserved \<noteq> 0
        then Inl (Storage_InvalidHeader (lit ''head reserved field is non-zero''))
        else
          rbind (storage_read_digest payload 16) (\<lambda>manifest_sha256.
          rbind (ok_or (Storage_InvalidHeader (lit ''head filename length overflow''))
                   (checked_add 48 (unat name_len))) (\<lambda>filename_end.
          if length payload < filename_end
          then Inl (Storage_InvalidHeader (lit ''head filename is truncated''))
          else if list_ex (\<lambda>b. b \<noteq> 0) (drop filename_end payload)
          then Inl (Storage_NonZeroPadding filename_end)
          else if \<not> utf8_valid (slice payload 48 filename_end)
          then Inl (Storage_InvalidHeader (lit ''head filename is not UTF-8''))
          else
            let h = \<lparr>hd_generation = generation,
                     hd_manifest_filename = slice payload 48 filename_end,
                     hd_manifest_sha256 = manifest_sha256\<rparr>
            in rbind (validate_filename h) (\<lambda>_. Inr h)))))))"

subsection \<open>Headers and payloads: encoding and decoding\<close>

lemma file_header_roundtrip:
  assumes "file_header_wf h"
  shows "file_header_decode (file_header_encode h) (fh_magic h) = Inr h"
  using assms
  by (simp add: file_header_decode_def file_header_encode_def file_header_wf_def Let_def slice_def
      storage_read_ok usize_limit_def)

lemma file_header_decode_inv:
  assumes "file_header_decode bs magic = Inr h"
  shows "bs = file_header_encode h" and "fh_magic h = magic" and "file_header_wf h"
proof -
  have len: "length bs = 80" using assms by (simp add: file_header_decode_def split: if_splits)
  then have m: "magic = take 8 bs" and h: "h = \<lparr>fh_magic = magic, fh_major = STORAGE_MAJOR,
      fh_minor = from_le (take 2 (drop 10 bs)), fh_generation = from_le (take 8 (drop 16 bs)),
      fh_payload_bytes = from_le (take 8 (drop 24 bs)),
      fh_item_count = from_le (take 8 (drop 32 bs)), fh_flags = 0,
      fh_payload_sha256 = take 32 (drop 48 bs)\<rparr>" 
     and f: "u16_le STORAGE_MAJOR = take 2 (drop 8 bs)" "u32_le 80 = take 4 (drop 12 bs)"
      "u64_le 0 = take 8 (drop 40 bs)"
    using assms
    by (auto simp: file_header_decode_def Let_def slice_def storage_read_ok usize_limit_def
        from_le_eq_iff split: if_splits)
  show "fh_magic h = magic" and "file_header_wf h"
    using len m by (simp_all add: h file_header_wf_def)
  show "bs = file_header_encode h"
    using len by (simp add: file_header_encode_def h f m uN_le_from_le field_join)
qed
lemma kind_from_code [simp]: "kind_from_u16 (kind_code k) = Inr k"
  by (cases k) (simp_all add: kind_from_u16_def)

lemma kind_from_u16_inv: "kind_from_u16 v = Inr k \<Longrightarrow> v = kind_code k"
  by (auto simp: kind_from_u16_def split: if_splits)

lemma record_header_roundtrip:
  assumes "rh_flags h = 0" and "length (rh_payload_sha256 h) = 32"
  shows "record_header_decode (record_header_encode h) = Inr h"
  using assms
  by (simp add: record_header_decode_def record_header_encode_def storage_read_ok usize_limit_def)

lemma record_header_decode_inv:
  assumes "record_header_decode bs = Inr h"
  shows "bs = record_header_encode h" and "rh_flags h = 0" and "length (rh_payload_sha256 h) = 32"
proof -
  have len: "length bs = 56" using assms by (simp add: record_header_decode_def split: if_splits)
  then obtain k where k: "kind_from_u16 (from_le (take 2 bs)) = Inr k"
   and h: "h = \<lparr>rh_kind = k, rh_flags = 0,
      rh_logical_id = from_le (take 8 (drop 8 bs)), rh_payload_bytes = from_le (take 8 (drop 16 bs)),
      rh_payload_sha256 = take 32 (drop 24 bs)\<rparr>" 
     and f: "u16_le 0 = take 2 (drop 2 bs)" "u32_le 56 = take 4 (drop 4 bs)"
    using assms
    by (auto simp: record_header_decode_def storage_read_ok usize_limit_def rbind_eq_Inr_iff
        from_le_eq_iff split: if_splits)
  have kc: "u16_le (kind_code k) = take 2 bs"
    using kind_from_u16_inv [OF k] len by (simp add: from_le_eq_iff)
  show "rh_flags h = 0" and "length (rh_payload_sha256 h) = 32"
    using len by (simp_all add: h)
  show "bs = record_header_encode h" 
    using len by (simp add: record_header_encode_def h f kc uN_le_from_le field_join)
qed

lemma typed_edge_payload_ok_iff:
  "validate_typed_edge_payload p = Inr () \<longleftrightarrow>
   (\<exists>src dst t w. p = edge_payload src dst t w \<and> f64_is_finite w \<and> f64_canonical w = w)"
  (is "?L \<longleftrightarrow> ?R")
proof
  assume ?L
  then have len: "length p = 32" by (simp add: validate_typed_edge_payload_def split: if_splits)
  with \<open>?L\<close> have f: "u32_le 0 = take 4 (drop 20 p)" 
    and w: "f64_is_finite (from_le (take 8 (drop 24 p)))"
     "f64_canonical (from_le (take 8 (drop 24 p))) = from_le (take 8 (drop 24 p))"
    by (auto simp: validate_typed_edge_payload_def storage_read_ok usize_limit_def
        from_le_eq_iff f64_canonical_def split: if_splits)
  have "p = edge_payload (from_le (take 8 p)) (from_le (take 8 (drop 8 p)))
     (from_le (take 4 (drop 16 p))) (from_le (take 8 (drop 24 p)))"
    using len by (simp add: edge_payload_def f uN_le_from_le field_join)
  with w show ?R by blast
next
  assume ?R
  then obtain src dst t w where "p = edge_payload src dst t w" "f64_is_finite w" "f64_canonical w = w"
    by blast
  then show ?L
    by (auto simp: validate_typed_edge_payload_def edge_payload_def storage_read_ok usize_limit_def
       f64_canonical_def split: if_splits)
qed

lemma record_payload_ok_iff:
  "validate_record_payload p = Inr () \<longleftrightarrow>
   (\<exists>rid node up. p = record_payload rid node up \<and> rid \<noteq> [] \<and> utf8_valid rid \<and>
      length rid < 2 ^ 32 \<and> 56 + length rid + length up < usize_limit)"
  (is "?L \<longleftrightarrow> ?R")
proof
  assume L: ?L
  then have len: "56 \<le> length p" by (simp add: validate_record_payload_def split: if_splits)
  define n where "n = unat (from_le (take 4 p) :: u32)"
  define m where "m = unat (from_le (take 8 (drop 16 p)) :: u64)"
  note reads = storage_read_ok(2) [of 0 p] storage_read_ok(2) [of 4 p] storage_read_ok(3) [of 16 p]
    storage_read_ok(4) [of 24 p]
  have f: "u32_le 0 = take 4 (drop 4 p)" and lp: "length p = 56 + n + m"
    and lim: "56 + n + m < usize_limit" and n0: "n \<noteq> 0"
    and u: "utf8_valid (take n (drop 56 p))"
    and hsh: "sha256 (drop (56 + n) p) = take 32 (drop 24 p)"
    using L len reads
    by (simp_all add: validate_record_payload_def Let_def slice_def from_le_eq_iff checked_add3
        n_def [symmetric] m_def [symmetric] usize_limit_def split: if_splits)
  have n32: "n < 2 ^ 32" using unsigned_less [of "from_le (take 4 p) :: u32"] by (simp add: n_def)
  let ?rid = "take n (drop 56 p)" and ?up = "drop (56 + n) p"
  have lr: "length ?rid = n" and lu: "length ?up = m" using lp by simp_all
  have "p = record_payload ?rid (from_le (take 8 (drop 8 p))) ?up"
    using len unfolding record_payload_def lr lu hsh f
    by (simp add: uN_le_from_le field_join n_def m_def)
  with lr lu n0 u n32 lim show ?R
   by (metis length_0_conv)
next
  assume ?R
  then obtain rid node up where "p = record_payload rid node up" "rid \<noteq> []" "utf8_valid rid"
     "length rid < 2 ^ 32" "56 + length rid + length up < usize_limit"
    by blast
  then show ?L
    by (simp add: validate_record_payload_def record_payload_def storage_read_ok usize_limit_def
       Let_def unat_of_nat slice_def checked_add_def)
qed
lemma length_file_header_encode [len_simps]:
  "file_header_wf h \<Longrightarrow> length (file_header_encode h) = 80"
  by (simp add: file_header_encode_def file_header_wf_def)

lemma length_edge_payload [simp, len_simps]: "length (edge_payload src dst t w) = 32"
  by (simp add: edge_payload_def)

lemma length_record_payload [simp, len_simps]:
  "length (record_payload rid node up) = 56 + length rid + length up"
  by (simp add: record_payload_def)

lemma length_record_header_encode [len_simps]:
  "length (rh_payload_sha256 h) = 32 \<Longrightarrow> length (record_header_encode h) = 56"
  by (simp add: record_header_encode_def)

subsection \<open>Head\<close>

definition head_wf :: "head \<Rightarrow> bool" where
  "head_wf h \<longleftrightarrow> length (hd_manifest_sha256 h) = 32 \<and> utf8_valid (hd_manifest_filename h) \<and>
     length (hd_manifest_filename h) < 2 ^ 32 \<and> validate_filename h = Inr ()"

lemma head_roundtrip:
  assumes "head_wf h"
  shows "\<exists>p. head_encode_payload h = Inr p \<and> head_decode_payload p = Inr h"
proof -
  have "48 + length (hd_manifest_filename h) < usize_limit"
    using assms by (simp add: head_wf_def usize_limit_def)
  then show ?thesis
    using assms
    by (cases h) (auto simp: head_encode_payload_def head_decode_payload_def head_wf_def Let_def
        storage_read_ok usize_limit_def unat_of_nat slice_def list_ex_iff checked_add_def)
qed

lemma validate_filename_no_slash:
  assumes "validate_filename h = Inr ()"
  shows "0x2F \<notin> set (hd_manifest_filename h)"
proof (rule single_component_no_slash)
  show "length (path_components (hd_manifest_filename h)) = 1"
    and "starts_with (hd_manifest_filename h) (lit ''MANIFEST-'')"
    and "ends_with (hd_manifest_filename h) (lit ''.ubmeta'')"
    using assms by (auto simp: validate_filename_def Let_def split: if_splits)
qed (simp_all add: lit_def)

end
