(* ===== verification/Ub_Segment.thy ===== *)
theory Ub_Segment
  imports Ub_Storage
begin

text \<open>
  Segments, versioned files and the page store of \<open>ultraballoondb-storage/src/lib.rs\<close>:
  the segment writer and verifier (\<open>write_segment_file\<close>, \<open>verify_segment\<close>), immutable
  publication through a temporary file, versioned files (manifest and head) and the
  \<open>PageStore\<close> operations. The verifier is shown to accept exactly the canonical
  encodings of valid entry lists, and publication never changes a file that exists.
\<close>

subsection \<open>Reports\<close>

record integrity_report =
  ir_path :: path
  ir_magic :: bytes
  ir_generation :: u64
  ir_item_count :: u64
  ir_payload_bytes :: u64
  ir_file_bytes :: nat
  ir_payload_sha256 :: bytes

definition sha256_file :: "path \<Rightarrow> fsys \<Rightarrow> storage_error + bytes" where
  "sha256_file p fs = rbind (map_err Storage_Io (fs_read p fs)) (\<lambda>bs. Inr (sha256 bs))"

subsection \<open>Verifying a segment\<close>

text \<open>
  The loop of \<open>verify_segment\<close>. \<open>total\<close> is the payload length of the header,
  \<open>rest\<close> the part of the file that is still to be read, \<open>seen\<close> what the running
  digest has absorbed.
\<close>

function (sequential) verify_records ::
  "nat \<Rightarrow> nat \<Rightarrow> nat \<Rightarrow> bytes \<Rightarrow> bytes \<Rightarrow> storage_error + (nat \<times> nat \<times> bytes)" where
  "verify_records tot consumed item_count seen rest =
     (if \<not> consumed < tot then Inr (consumed, item_count, seen)
      else if tot - consumed < 56
      then Inl (Storage_InvalidRecord (lit ''truncated record header at segment tail''))
      else
        let record_offset = 80 + consumed;
            encoded_header = take 56 rest;
            rest = drop 56 rest;
            seen = seen @ encoded_header;
            consumed = consumed + 56
        in rbind (record_header_decode encoded_header) (\<lambda>record_header.
           let payload_len = unat (rh_payload_bytes record_header);
               padding = padding_len payload_len
           in rbind (ok_or (Storage_InvalidRecord (lit ''record size overflow''))
                       (checked_add payload_len padding)) (\<lambda>required.
           if tot - consumed < required
           then Inl (Storage_InvalidRecord (lit ''record payload exceeds segment boundary''))
           else
             let payload = take payload_len rest;
                 rest = drop payload_len rest;
                 seen = seen @ payload;
                 consumed = consumed + payload_len;
                 actual_record_hash = sha256 payload
             in if actual_record_hash \<noteq> rh_payload_sha256 record_header
                then Inl (Storage_IntegrityMismatch
                       (lit ''segment record at offset '' @ dec_bytes record_offset)
                       (rh_payload_sha256 record_header) actual_record_hash)
                else
                  rbind (validate_entry_payload
                      \<lparr>se_kind = rh_kind record_header,
                       se_logical_id = rh_logical_id record_header, se_payload = payload\<rparr>) (\<lambda>_.
                  if padding \<noteq> 0 then
                    if list_ex (\<lambda>b. b \<noteq> 0) (take padding rest)
                    then Inl (Storage_NonZeroPadding (80 + consumed))
                    else verify_records tot (consumed + padding) (item_count + 1)
                           (seen @ take padding rest) (drop padding rest)
                  else verify_records tot consumed (item_count + 1) seen rest))))"
  by pat_completeness auto
termination
  by (relation "measure (\<lambda>(tot, consumed, n, seen, rest). tot - consumed)") auto

declare verify_records.simps [simp del]

definition verify_segment_bytes :: "path \<Rightarrow> bytes \<Rightarrow> storage_error + integrity_report" where
  "verify_segment_bytes path file =
     (let file_bytes = length file in
      if file_bytes < 80
      then Inl (Storage_InvalidHeader (lit ''segment file shorter than header''))
      else
        rbind (file_header_decode (take 80 file) MAGIC_SEGMENT) (\<lambda>header.
        rbind (ok_or (Storage_InvalidHeader (lit ''segment payload end overflow''))
                 (checked_add 80 (unat (fh_payload_bytes header)))) (\<lambda>expected_end.
        if file_bytes \<noteq> expected_end then Inl (Storage_TrailingBytes expected_end file_bytes)
        else
          rbind (verify_records (unat (fh_payload_bytes header)) 0 0 [] (drop 80 file))
            (\<lambda>(consumed, item_count, seen).
          if consumed \<noteq> unat (fh_payload_bytes header)
          then Inl (Storage_InvalidHeader (lit ''segment payload consumption mismatch''))
          else if item_count \<noteq> unat (fh_item_count header)
          then Inl (Storage_InvalidHeader (lit ''segment item_count differs from parsed records''))
          else
            let actual_payload_hash = sha256 seen in
            if actual_payload_hash \<noteq> fh_payload_sha256 header
            then Inl (Storage_IntegrityMismatch (lit ''segment payload '' @ path_display path)
                        (fh_payload_sha256 header) actual_payload_hash)
            else Inr \<lparr>ir_path = path, ir_magic = fh_magic header,
                      ir_generation = fh_generation header, ir_item_count = fh_item_count header,
                      ir_payload_bytes = fh_payload_bytes header, ir_file_bytes = file_bytes,
                      ir_payload_sha256 = fh_payload_sha256 header\<rparr>))))"

definition verify_segment :: "path \<Rightarrow> fsys \<Rightarrow> storage_error + integrity_report" where
  "verify_segment path fs =
     rbind (map_err Storage_Io (fs_read path fs)) (\<lambda>file. verify_segment_bytes path file)"

subsection \<open>Publication\<close>

definition storage_temporary_path :: "path \<Rightarrow> (storage_error, path) io" where
  "storage_temporary_path =
     temporary_path_with (Storage_InvalidPath (lit ''destination has no parent''))
       (Storage_InvalidHeader (lit ''system clock before UNIX epoch''))"

text \<open>\<open>atomic_move\<close> on Unix: \<open>rename\<close>, whatever the replace flag says.\<close>

definition atomic_move :: "path \<Rightarrow> path \<Rightarrow> bool \<Rightarrow> (storage_error, unit) io" where
  "atomic_move temporary destination replace = io_map_err Storage_Io (fs_rename temporary destination)"

definition sync_parent_dir :: "path \<Rightarrow> (storage_error, unit) io" where
  "sync_parent_dir p = io_map_err Storage_Io (sync_dir p)"

definition publish_immutable :: "path \<Rightarrow> path \<Rightarrow> (storage_error, unit) io" where
  "publish_immutable temporary destination fs =
     (if fs_exists fs destination then
        io_bind (io_query (sha256_file destination)) (\<lambda>existing_hash.
        io_bind (io_query (sha256_file temporary)) (\<lambda>temporary_hash.
        io_bind (io_query (\<lambda>fs. map_err Storage_Io (fs_read destination fs))) (\<lambda>d.
        io_bind (io_query (\<lambda>fs. map_err Storage_Io (fs_read temporary fs))) (\<lambda>t.
        if existing_hash = temporary_hash \<and> length d = length t
        then io_map_err Storage_Io (fs_remove temporary)
        else io_err (Storage_AlreadyExistsDifferent destination))))) fs
      else
        io_bind (atomic_move temporary destination False) (\<lambda>_.
        io_bind (io_pure (ok_or (Storage_InvalidPath (lit ''destination has no parent''))
                   (path_parent destination))) sync_parent_dir) fs)"

definition create_parent :: "path \<Rightarrow> (storage_error, unit) io" where
  "create_parent p =
     (case path_parent p of
        None \<Rightarrow> io_ret ()
      | Some parent \<Rightarrow> io_map_err Storage_Io (create_dir_all parent))"

subsection \<open>Writing a segment\<close>

fun write_entries ::
  "segment_entry list \<Rightarrow> bytes \<Rightarrow> nat \<Rightarrow> nat \<Rightarrow> storage_error + (bytes \<times> nat \<times> nat)" where
  "write_entries [] out payload_bytes item_count = Inr (out, payload_bytes, item_count)"
| "write_entries (entry # entries) out payload_bytes item_count =
     (let overflow = Storage_InvalidHeader (lit ''segment size overflow'') in
      rbind (validate_entry_payload entry) (\<lambda>_.
      rbind (record_header_for_entry entry) (\<lambda>record_header.
      let out = out @ record_header_encode record_header in
      rbind (ok_or overflow (checked_add payload_bytes 56)) (\<lambda>payload_bytes.
      let out = out @ se_payload entry in
      rbind (ok_or overflow (checked_add payload_bytes (length (se_payload entry)))) (\<lambda>payload_bytes.
      let padding = padding_len (length (se_payload entry)) in
      rbind (if padding \<noteq> 0
             then rbind (ok_or overflow (checked_add payload_bytes padding)) (\<lambda>pb.
                  Inr (out @ replicate padding 0, pb))
             else Inr (out, payload_bytes)) (\<lambda>(out, payload_bytes).
      rbind (ok_or (Storage_InvalidHeader (lit ''segment item count overflow''))
               (checked_add item_count 1)) (\<lambda>item_count.
      write_entries entries out payload_bytes item_count)))))))"

definition segment_file_bytes :: "u64 \<Rightarrow> bytes \<Rightarrow> nat \<Rightarrow> nat \<Rightarrow> bytes" where
  "segment_file_bytes generation out payload_bytes item_count =
     file_header_encode (file_header_new MAGIC_SEGMENT generation (of_nat payload_bytes)
       (of_nat item_count) (sha256 out)) @ out"

definition write_segment_file ::
  "path \<Rightarrow> u64 \<Rightarrow> segment_entry list \<Rightarrow> (storage_error, integrity_report) io" where
  "write_segment_file path generation entries =
     io_bind (create_parent path) (\<lambda>_.
     io_bind (storage_temporary_path path) (\<lambda>temporary.
     io_bind (io_map_err Storage_Io (create_new temporary [])) (\<lambda>_.
     io_on_error
       (io_bind (io_pure (write_entries entries [] 0 0)) (\<lambda>(out, payload_bytes, item_count).
        io_bind (io_map_err Storage_Io (write_all temporary
                   (segment_file_bytes generation out payload_bytes item_count))) (\<lambda>_.
        io_bind (publish_immutable temporary path) (\<lambda>_.
        io_query (verify_segment path)))))
       (\<lambda>fs. snd (fs_remove temporary fs)))))"

subsection \<open>Versioned files\<close>

definition read_versioned_bytes ::
  "path \<Rightarrow> bytes \<Rightarrow> bytes \<Rightarrow> storage_error + (file_header \<times> bytes \<times> nat)" where
  "read_versioned_bytes path file expected_magic =
     (let file_bytes = length file in
      if file_bytes < 80 then Inl (Storage_InvalidHeader (lit ''file shorter than header''))
      else
        rbind (file_header_decode (take 80 file) expected_magic) (\<lambda>header.
        rbind (ok_or (Storage_InvalidHeader (lit ''payload end overflow''))
                 (checked_add 80 (unat (fh_payload_bytes header)))) (\<lambda>expected_end.
        if file_bytes \<noteq> expected_end then Inl (Storage_TrailingBytes expected_end file_bytes)
        else
          let payload = drop 80 file; actual_hash = sha256 payload in
          if actual_hash \<noteq> fh_payload_sha256 header
          then Inl (Storage_IntegrityMismatch (path_display path)
                      (fh_payload_sha256 header) actual_hash)
          else Inr (header, payload, file_bytes))))"

definition read_versioned_file ::
  "path \<Rightarrow> bytes \<Rightarrow> fsys \<Rightarrow> storage_error + (file_header \<times> bytes \<times> nat)" where
  "read_versioned_file path expected_magic fs =
     rbind (map_err Storage_Io (fs_read path fs)) (\<lambda>file.
     read_versioned_bytes path file expected_magic)"

definition verify_versioned_file ::
  "path \<Rightarrow> bytes \<Rightarrow> fsys \<Rightarrow> storage_error + integrity_report" where
  "verify_versioned_file path expected_magic fs =
     rbind (read_versioned_file path expected_magic fs) (\<lambda>(header, _, file_bytes).
     Inr \<lparr>ir_path = path, ir_magic = fh_magic header, ir_generation = fh_generation header,
          ir_item_count = fh_item_count header, ir_payload_bytes = fh_payload_bytes header,
          ir_file_bytes = file_bytes, ir_payload_sha256 = fh_payload_sha256 header\<rparr>)"

definition versioned_file_bytes :: "bytes \<Rightarrow> u64 \<Rightarrow> u64 \<Rightarrow> bytes \<Rightarrow> bytes" where
  "versioned_file_bytes magic generation item_count payload =
     file_header_encode (file_header_new magic generation (of_nat (length payload)) item_count
       (sha256 payload)) @ payload"

definition write_versioned_file ::
  "path \<Rightarrow> bytes \<Rightarrow> u64 \<Rightarrow> u64 \<Rightarrow> bytes \<Rightarrow> bool \<Rightarrow> (storage_error, integrity_report) io" where
  "write_versioned_file path magic generation item_count payload replace =
     io_bind (create_parent path) (\<lambda>_.
     io_bind (io_pure (fail_if (usize_limit \<le> length payload)
                (Storage_InvalidHeader (lit ''payload too long'')))) (\<lambda>_.
     io_bind (storage_temporary_path path) (\<lambda>temporary.
     io_bind (io_map_err Storage_Io (create_new temporary [])) (\<lambda>_.
     io_on_error
       (io_bind (io_map_err Storage_Io (write_all temporary
                   (versioned_file_bytes magic generation item_count payload))) (\<lambda>_.
        io_bind (if replace then atomic_move temporary path True
                 else publish_immutable temporary path) (\<lambda>_.
        io_bind (io_bind (io_pure (ok_or (Storage_InvalidPath (lit ''file has no parent''))
                   (path_parent path))) sync_parent_dir) (\<lambda>_.
        io_query (verify_versioned_file path magic)))))
       (\<lambda>fs. snd (fs_remove temporary fs))))))"

subsection \<open>The page store\<close>

record page_store =
  ps_root :: path

definition store_directories :: "str list" where
  "store_directories =
     [lit ''manifests'', lit ''segments'', lit ''wal'', lit ''checkpoints'', lit ''indexes'']"

fun create_dirs :: "path list \<Rightarrow> (storage_error, unit) io" where
  "create_dirs [] = io_ret ()"
| "create_dirs (d # ds) =
     io_bind (io_map_err Storage_Io (create_dir_all d)) (\<lambda>_. create_dirs ds)"

definition page_store_create :: "path \<Rightarrow> (storage_error, page_store) io" where
  "page_store_create root =
     io_bind (io_map_err Storage_Io (create_dir_all root)) (\<lambda>_.
     io_bind (create_dirs (map (\<lambda>d. root @ [d]) store_directories)) (\<lambda>_.
     io_bind (sync_parent_dir root) (\<lambda>_. io_ret \<lparr>ps_root = root\<rparr>)))"

definition page_store_open :: "path \<Rightarrow> fsys \<Rightarrow> storage_error + page_store" where
  "page_store_open root fs =
     (if \<not> fs_is_dir fs root
      then Inl (Storage_InvalidPath (lit ''database root is not a directory: '' @ path_display root))
      else case List.find (\<lambda>d. \<not> fs_is_dir fs (root @ [d])) store_directories of
             Some d \<Rightarrow> Inl (Storage_InvalidPath (lit ''required directory missing: '' @ d))
           | None \<Rightarrow> Inr \<lparr>ps_root = root\<rparr>)"

definition segment_path :: "page_store \<Rightarrow> u64 \<Rightarrow> u64 \<Rightarrow> path" where
  "segment_path store generation seqno =
     ps_root store @ [lit ''segments'',
       lit ''SEGMENT-'' @ pad020 generation @ lit ''-'' @ pad020 seqno @ lit ''.ubseg'']"

definition write_segment ::
  "page_store \<Rightarrow> u64 \<Rightarrow> u64 \<Rightarrow> segment_entry list \<Rightarrow> (storage_error, integrity_report) io" where
  "write_segment store generation seqno entries =
     write_segment_file (segment_path store generation seqno) generation entries"

definition manifest_name :: "u64 \<Rightarrow> str" where
  "manifest_name generation = lit ''MANIFEST-'' @ pad020 generation @ lit ''.ubmeta''"

definition write_manifest ::
  "page_store \<Rightarrow> u64 \<Rightarrow> u64 \<Rightarrow> bytes \<Rightarrow> (storage_error, integrity_report) io" where
  "write_manifest store generation item_count payload =
     write_versioned_file (ps_root store @ [lit ''manifests'', manifest_name generation])
       MAGIC_MANIFEST generation item_count payload False"

definition head_path :: "page_store \<Rightarrow> path" where
  "head_path store = ps_root store @ [lit ''CURRENT.ubhead'']"

definition manifest_path :: "page_store \<Rightarrow> str \<Rightarrow> path" where
  "manifest_path store name = ps_root store @ [lit ''manifests'', name]"

definition publish_head :: "page_store \<Rightarrow> head \<Rightarrow> (storage_error, integrity_report) io" where
  "publish_head store h =
     io_bind (io_pure (validate_filename h)) (\<lambda>_.
     let mpath = manifest_path store (hd_manifest_filename h) in
     io_bind (io_query (verify_versioned_file mpath MAGIC_MANIFEST)) (\<lambda>manifest_report.
     if ir_generation manifest_report \<noteq> hd_generation h
     then io_err (Storage_InvalidHeader (lit ''head and manifest generations differ''))
     else
       io_bind (io_query (sha256_file mpath)) (\<lambda>actual_manifest_hash.
       if actual_manifest_hash \<noteq> hd_manifest_sha256 h
       then io_err (Storage_IntegrityMismatch (lit ''head referenced manifest file'')
                      (hd_manifest_sha256 h) actual_manifest_hash)
       else
         io_bind (io_pure (head_encode_payload h)) (\<lambda>payload.
         write_versioned_file (head_path store) MAGIC_HEAD (hd_generation h) 1 payload True))))"

definition read_head :: "page_store \<Rightarrow> fsys \<Rightarrow> storage_error + head option" where
  "read_head store fs =
     (if \<not> fs_exists fs (head_path store) then Inr None
      else
        rbind (read_versioned_file (head_path store) MAGIC_HEAD fs) (\<lambda>(header, payload, _).
        if fh_item_count header \<noteq> 1
        then Inl (Storage_InvalidHeader (lit ''head item_count must be exactly 1''))
        else
          rbind (head_decode_payload payload) (\<lambda>h.
          if hd_generation h \<noteq> fh_generation header
          then Inl (Storage_InvalidHeader (lit ''head payload generation differs from file header''))
          else Inr (Some h))))"

record store_integrity_report =
  sir_root :: path
  sir_segment_count :: u64
  sir_segments :: "integrity_report list"
  sir_head :: "head option"
  sir_manifest :: "integrity_report option"

fun verify_segments :: "path list \<Rightarrow> fsys \<Rightarrow> storage_error + integrity_report list" where
  "verify_segments [] fs = Inr []"
| "verify_segments (p # ps) fs =
     rbind (verify_segment p fs) (\<lambda>r. rbind (verify_segments ps fs) (\<lambda>rs. Inr (r # rs)))"

definition page_store_verify :: "page_store \<Rightarrow> fsys \<Rightarrow> storage_error + store_integrity_report" where
  "page_store_verify store fs =
     rbind (map_err Storage_Io (read_dir (ps_root store @ [lit ''segments'']) fs)) (\<lambda>entries.
     let segment_paths = sort (filter (\<lambda>p. has_extension p (lit ''ubseg'')) entries) in
     rbind (verify_segments segment_paths fs) (\<lambda>segments.
     rbind (read_head store fs) (\<lambda>h.
     rbind (case h of
              None \<Rightarrow> Inr None
            | Some head_value \<Rightarrow>
                let path = manifest_path store (hd_manifest_filename head_value) in
                rbind (verify_versioned_file path MAGIC_MANIFEST fs) (\<lambda>report.
                rbind (sha256_file path fs) (\<lambda>actual_file_hash.
                if actual_file_hash \<noteq> hd_manifest_sha256 head_value
                then Inl (Storage_IntegrityMismatch (lit ''store manifest file'')
                            (hd_manifest_sha256 head_value) actual_file_hash)
                else Inr (Some report)))) (\<lambda>manifest.
     Inr \<lparr>sir_root = ps_root store, sir_segment_count = of_nat (length segments),
          sir_segments = segments, sir_head = h, sir_manifest = manifest\<rparr>))))"

subsection \<open>One entry of a segment\<close>

definition entry_header :: "segment_entry \<Rightarrow> record_header" where
  "entry_header e = \<lparr>rh_kind = se_kind e, rh_flags = 0, rh_logical_id = se_logical_id e,
     rh_payload_bytes = of_nat (length (se_payload e)), rh_payload_sha256 = sha256 (se_payload e)\<rparr>"

definition entry_bytes :: "segment_entry \<Rightarrow> bytes" where
  "entry_bytes e = record_header_encode (entry_header e) @ se_payload e
     @ replicate (padding_len (length (se_payload e))) 0"

lemma length_entry_bytes [len_simps]:
  "length (entry_bytes e) = 56 + length (se_payload e) + padding_len (length (se_payload e))"
  by (simp add: entry_bytes_def entry_header_def length_record_header_encode)

text \<open>The state of the verifier's loop, and what it requires of the next entry.\<close>

type_synonym vstate = "nat \<times> nat \<times> nat \<times> bytes"

definition v_loop :: "vstate \<Rightarrow> bytes \<Rightarrow> storage_error + (nat \<times> nat \<times> bytes)" where
  "v_loop s rest = (case s of (tot, consumed, n, seen) \<Rightarrow> verify_records tot consumed n seen rest)"

definition v_ok :: "vstate \<Rightarrow> segment_entry \<Rightarrow> bool" where
  "v_ok s e = (case s of (tot, consumed, n, seen) \<Rightarrow>
     validate_entry_payload e = Inr () \<and> consumed + length (entry_bytes e) \<le> tot \<and> tot < usize_limit)"

definition v_upd :: "vstate \<Rightarrow> segment_entry \<Rightarrow> vstate" where
  "v_upd s e = (case s of (tot, consumed, n, seen) \<Rightarrow>
     (tot, consumed + length (entry_bytes e), n + 1, seen @ entry_bytes e))"

definition v_good :: "vstate \<Rightarrow> bytes \<Rightarrow> bool" where
  "v_good s rest = (case s of (tot, consumed, n, seen) \<Rightarrow>
     tot = consumed + length rest \<and> tot < usize_limit)"

lemma record_header_entry [simp]:
  "record_header_decode (record_header_encode (entry_header e)) = Inr (entry_header e)"
  by (rule record_header_roundtrip) (simp_all add: entry_header_def)

lemma length_header_entry [simp]: "length (record_header_encode (entry_header e)) = 56"
  by (simp add: length_record_header_encode entry_header_def)

lemma verify_records_entry:
  assumes "validate_entry_payload e = Inr ()" and "consumed + length (entry_bytes e) \<le> tot"
    and "tot < usize_limit"
  shows "verify_records tot consumed n seen (entry_bytes e @ rest) =
     verify_records tot (consumed + length (entry_bytes e)) (n + 1) (seen @ entry_bytes e) rest"
proof -
  let ?p = "se_payload e"
  have ub: "unat (of_nat (length ?p) :: u64) = length ?p"
    using assms by (simp add: length_entry_bytes usize_limit_def unat_of_nat)
  have e: "\<lparr>se_kind = se_kind e, se_logical_id = se_logical_id e, se_payload = ?p\<rparr> = e" by simp
  have h: "rh_payload_bytes (entry_header e) = of_nat (length ?p)"
     "rh_payload_sha256 (entry_header e) = sha256 ?p" "rh_kind (entry_header e) = se_kind e"
     "rh_logical_id (entry_header e) = se_logical_id e"
     by (simp_all add: entry_header_def)
  have lo: "consumed < tot" "56 \<le> tot - consumed"
     "length ?p + padding_len (length ?p) \<le> tot - (consumed + 56)"
     "length ?p + padding_len (length ?p) < usize_limit"
    using assms by (auto simp: length_entry_bytes)
  show ?thesis
    by (subst verify_records.simps)
       (use assms(1) lo in \<open>simp add: h ub e Let_def entry_bytes_def list_ex_iff add_ac\<close>)
qed

lemma verify_records_sound:
  assumes "verify_records tot consumed n seen rest = Inr r" and "rest \<noteq> []"
    and good: "tot = consumed + length rest" "tot < usize_limit"
  shows "\<exists>e rest'. rest = entry_bytes e @ rest' \<and> validate_entry_payload e = Inr ()"
proof -
  note v = trans [OF verify_records.simps [symmetric] assms(1)]
  have c: "consumed < tot" "\<not> tot - consumed < 56"
    using v assms(2) good by (auto split: if_splits)
  from v c obtain h where h: "record_header_decode (take 56 rest) = Inr h"
    by (auto simp: Let_def rbind_eq_Inr_iff)
  define k where "k = unat (rh_payload_bytes h)"
  define p where "p = take k (drop 56 rest)"
  define e where "e = \<lparr>se_kind = rh_kind h, se_logical_id = rh_logical_id h, se_payload = p\<rparr>"
  have fit: "k + padding_len k \<le> tot - (consumed + 56)"
    and hsh: "sha256 p = rh_payload_sha256 h" and val: "validate_entry_payload e = Inr ()"
    and pad: "\<forall>b \<in> set (take (padding_len k) (drop (56 + k) rest)). b = 0"
    using v c h by (auto simp: Let_def rbind_eq_Inr_iff k_def [symmetric] p_def [symmetric]
        e_def list_ex_iff add_ac checked_add_Some_iff split: if_splits)
  have lp: "length p = k" using fit good by (simp add: p_def)
  have eh: "entry_header e = h"
    using record_header_decode_inv [OF h] by (simp add: entry_header_def e_def lp hsh k_def)
  have pz: "take (padding_len k) (drop (56 + k) rest) = replicate (padding_len k) 0"
    using pad fit good by (intro replicate_eqI) auto
  have "rest = take 56 rest @ p @ replicate (padding_len k) 0 @ drop (56 + k + padding_len k) rest"
    unfolding pz [symmetric] p_def by (simp add: field_join add_ac)
  also have "\<dots> = entry_bytes e @ drop (56 + k + padding_len k) rest"
    using record_header_decode_inv(1) [OF h] by (simp add: entry_bytes_def eh) (simp add: e_def lp)
  finally show ?thesis using val by blast
qed

interpretation segment_loop: strict_frame_stream v_loop entry_bytes v_ok v_upd v_good
proof unfold_locales
  show "v_ok s e \<Longrightarrow> v_loop s (entry_bytes e @ rest) = v_loop (v_upd s e) rest" for s e rest
    by (cases s) (auto simp: v_ok_def v_loop_def v_upd_def verify_records_entry)
  show "v_ok s e \<Longrightarrow> entry_bytes e \<noteq> []" for s e
    using length_entry_bytes [of e] by auto
  show "v_good s (entry_bytes e @ rest) \<Longrightarrow> v_ok s e \<Longrightarrow> v_good (v_upd s e) rest" for s e rest
    by (cases s) (auto simp: v_good_def v_upd_def)
  show "v_good s bs \<Longrightarrow> v_loop s bs = Inr r \<Longrightarrow> bs \<noteq> [] \<Longrightarrow>
      \<exists>f rest. bs = entry_bytes f @ rest \<and> v_ok s f" for s bs r
    by (cases s) (auto simp: v_good_def v_loop_def v_ok_def dest!: verify_records_sound)
qed

subsection \<open>Publication keeps what is there\<close>

lemma keeps_sync_parent: "kf.io_respects t (io_bind (io_pure q) sync_parent_dir)"
  by (intro kf.respects_bind kf.respects_quiet)
     (simp add: sync_parent_dir_def kf.respects_map_err keeps_files_ops)

lemma keeps_create_parent: "kf.io_respects t (create_parent p)"
  unfolding create_parent_def using keeps_files_ops by (auto split: option.splits)

lemma keeps_publish_immutable: "kf.io_respects t (publish_immutable t dest)"
  unfolding kf.io_respects_def
proof
  fix fs
  have remove: "kf.io_respects t (io_map_err Storage_Io (fs_remove t))"
    using keeps_files_ops by auto
  show "keeps_files t fs (snd (publish_immutable t dest fs))"
  proof (cases "fs_exists fs dest")
    case True
    have "kf.io_respects t
       (io_bind (io_query (sha256_file dest)) (\<lambda>existing_hash.
        io_bind (io_query (sha256_file t)) (\<lambda>temporary_hash.
        io_bind (io_query (\<lambda>fs. map_err Storage_Io (fs_read dest fs))) (\<lambda>d.
        io_bind (io_query (\<lambda>fs. map_err Storage_Io (fs_read t fs))) (\<lambda>u.
        if existing_hash = temporary_hash \<and> length d = length u
        then io_map_err Storage_Io (fs_remove t)
        else io_err (Storage_AlreadyExistsDifferent dest))))))"
      using remove by (intro kf.respects_bind) auto
    with True show ?thesis by (simp add: publish_immutable_def kf.io_respects_def)
  next
    case False
    then have "keeps_files t fs (snd (atomic_move t dest False fs))"
      by (auto simp: atomic_move_def io_map_err_def fs_rename_def keeps_files_def fs_exists_def
          split: option.splits)
    with False show ?thesis
      by (simp add: publish_immutable_def) (rule kf.bind_at [OF _ keeps_sync_parent])
  qed
qed

text \<open>
  Both writers create the temporary file, fill it, and publish it or clean it up. What
  follows the creation keeps every file but the temporary, which did not exist before.
\<close>

lemma tmp_create_keeps:
  assumes body: "\<And>t. kf.io_respects t (body t)"
    and run: "io_bind (storage_temporary_path p) (\<lambda>t.
       io_bind (io_map_err Storage_Io (create_new t [])) (\<lambda>_.
       io_on_error (body t) (\<lambda>fs. snd (fs_remove t fs)))) fs = (r, fs')"
    and q: "fget fs q = Some b"
  shows "fget fs' q = Some b"
proof -
  obtain rt fs1 where t: "storage_temporary_path p fs = (rt, fs1)" by fastforce
  then have f1: "fget fs1 q = Some b" 
    using q by (auto simp: storage_temporary_path_def temporary_path_with_def clock_now_def split: if_splits)
  show ?thesis
  proof (cases rt)
    case (Inl e)
    with t run f1 show ?thesis by (simp add: io_bind_fail)
  next
    case (Inr tmp)
    let ?c = "io_map_err Storage_Io (create_new tmp [])"
    have "kf.io_respects tmp (io_bind ?c (\<lambda>_. io_on_error (body tmp) (\<lambda>fs. snd (fs_remove tmp fs))))"
      using keeps_files_ops(2,4) body unfolding kf.io_respects_def [of _ "fs_remove _"]
      by (auto intro!: kf.respects_bind kf.respects_on_error)
    moreover have run': "io_bind ?c (\<lambda>_. io_on_error (body tmp) (\<lambda>fs. snd (fs_remove tmp fs))) fs1 = (r, fs')"
      using run t Inr by simp
    ultimately have k: "keeps_files tmp fs1 fs'" unfolding kf.io_respects_def by (metis snd_conv)
    show ?thesis
    proof (cases "fs_exists fs1 tmp")
      case True
      then have "fs' = fs1" using run' by (simp add: io_bind_def io_map_err_def create_new_def)
      with f1 show ?thesis by simp
    next
      case False
      with f1 have "q \<noteq> tmp" by (auto simp: fs_exists_def)
      with f1 k show ?thesis by (simp add: keeps_files_def)
    qed
  qed
qed

subsection \<open>Whole segments\<close>

definition entries_bytes :: "segment_entry list \<Rightarrow> bytes" where
  "entries_bytes es = concat (map entry_bytes es)"

definition entries_valid :: "segment_entry list \<Rightarrow> bool" where
  "entries_valid es \<longleftrightarrow> list_all (\<lambda>e. validate_entry_payload e = Inr ()) es \<and>
     80 + length (entries_bytes es) < usize_limit"

text \<open>The canonical segment file; readers ignore the minor version.\<close>

definition segment_header :: "u64 \<Rightarrow> u16 \<Rightarrow> segment_entry list \<Rightarrow> file_header" where
  "segment_header generation minor es =
     (file_header_new MAGIC_SEGMENT generation (of_nat (length (entries_bytes es)))
        (of_nat (length es)) (sha256 (entries_bytes es)))\<lparr>fh_minor := minor\<rparr>"

definition segment_encoding :: "u64 \<Rightarrow> u16 \<Rightarrow> segment_entry list \<Rightarrow> bytes" where
  "segment_encoding generation minor es =
     file_header_encode (segment_header generation minor es) @ entries_bytes es"

definition segment_report :: "path \<Rightarrow> u64 \<Rightarrow> segment_entry list \<Rightarrow> integrity_report" where
  "segment_report path generation es =
     \<lparr>ir_path = path, ir_magic = MAGIC_SEGMENT, ir_generation = generation,
      ir_item_count = of_nat (length es), ir_payload_bytes = of_nat (length (entries_bytes es)),
      ir_file_bytes = 80 + length (entries_bytes es),
      ir_payload_sha256 = sha256 (entries_bytes es)\<rparr>"

lemma entries_bytes_simps [simp]:
  "entries_bytes [] = []" "entries_bytes (e # es) = entry_bytes e @ entries_bytes es"
  by (simp_all add: entries_bytes_def)

lemma length_entries: "56 * length es \<le> length (entries_bytes es)"
  by (induction es) (simp_all add: length_entry_bytes)

lemma v_upd_fold:
  "foldl v_upd (tot, c, n, seen) es =
     (tot, c + length (entries_bytes es), n + length es, seen @ entries_bytes es)"
  by (induction es arbitrary: c n seen) (simp_all add: v_upd_def)

lemma v_ok_upd_simps:
  "v_ok (tot, c, n, seen) e \<longleftrightarrow> validate_entry_payload e = Inr ()
     \<and> c + length (entry_bytes e) \<le> tot \<and> tot < usize_limit"
  "v_upd (tot, c, n, seen) e = (tot, c + length (entry_bytes e), n + 1, seen @ entry_bytes e)"
  by (simp_all add: v_ok_def v_upd_def)

lemma v_frames_ok_iff:
  "frames_ok v_ok v_upd (tot, c, n, seen) es \<longleftrightarrow>
     es = [] \<or> list_all (\<lambda>e. validate_entry_payload e = Inr ()) es
        \<and> c + length (entries_bytes es) \<le> tot \<and> tot < usize_limit"
proof (induction es arbitrary: c n seen)
  case Nil
  then show ?case by simp
next
  case (Cons e es)
  show ?case by (auto simp: v_ok_upd_simps Cons.IH)
qed

lemma verify_records_end: "verify_records tot tot n seen rest = Inr (tot, n, seen)"
  by (simp add: verify_records.simps [of tot tot])

lemma verify_records_iff:
  assumes "length bs < usize_limit"
  shows "verify_records (length bs) 0 0 [] bs = Inr r \<longleftrightarrow>
     (\<exists>es. bs = entries_bytes es \<and> list_all (\<lambda>e. validate_entry_payload e = Inr ()) es
        \<and> r = (length bs, length es, bs))" (is "?L \<longleftrightarrow> ?R")
proof
  assume ?L
  then have l: "v_loop (length bs, 0, 0, []) bs = Inr r" by (simp add: v_loop_def)
  have g: "v_good (length bs, 0, 0, []) bs" using assms by (simp add: v_good_def)
  obtain es where bs: "bs = concat (map entry_bytes es)"
    and fo: "frames_ok v_ok v_upd (length bs, 0, 0, []) es"
    and e: "v_loop (foldl v_upd (length bs, 0, 0, []) es) [] = Inr r"
    using segment_loop.loop_accepts_only_frames [OF g l] by blast
  have bs': "bs = entries_bytes es" using bs by (simp add: entries_bytes_def)
  have "r = (length bs, length es, bs)"
    using e by (simp add: v_upd_fold v_loop_def bs' verify_records_end)
  moreover have "list_all (\<lambda>e. validate_entry_payload e = Inr ()) es"
    using fo by (auto simp: v_frames_ok_iff)
  ultimately show ?R using bs' by blast
next
  assume ?R
  then obtain es where es: "bs = entries_bytes es" "list_all (\<lambda>e. validate_entry_payload e = Inr ()) es"
    and r: "r = (length bs, length es, bs)" by blast
  have "frames_ok v_ok v_upd (length bs, 0, 0, []) es"
    using es assms by (simp add: v_frames_ok_iff)
  from segment_loop.loop_frames [OF this, of "[]"] show ?L
    by (simp add: v_loop_def v_upd_fold es(1) r verify_records_end flip: entries_bytes_def)
qed

lemma segment_header_wf: "file_header_wf (segment_header g minor es)"
  by (simp add: segment_header_def file_header_new_def file_header_wf_def)

lemma segment_header_fields:
  "fh_magic (segment_header g minor es) = MAGIC_SEGMENT"
  "fh_generation (segment_header g minor es) = g"
  "fh_payload_bytes (segment_header g minor es) = of_nat (length (entries_bytes es))"
  "fh_item_count (segment_header g minor es) = of_nat (length es)"
  "fh_payload_sha256 (segment_header g minor es) = sha256 (entries_bytes es)"
  by (simp_all add: segment_header_def file_header_new_def)

lemma verify_segment_encoding:
  assumes "entries_valid es"
  shows "verify_segment_bytes path (segment_encoding g minor es) = Inr (segment_report path g es)"
proof -
  let ?h = "segment_header g minor es" and ?b = "entries_bytes es"
  have d: "file_header_decode (file_header_encode ?h) MAGIC_SEGMENT = Inr ?h"
    using file_header_roundtrip [OF segment_header_wf] by (simp add: segment_header_fields)
  have lb: "unat (of_nat (length ?b) :: u64) = length ?b" "unat (of_nat (length es) :: u64) = length es"
    using assms length_entries [of es] by (simp_all add: entries_valid_def usize_limit_def unat_of_nat)
  have v: "verify_records (length ?b) 0 0 [] ?b = Inr (length ?b, length es, ?b)"
    using assms by (subst verify_records_iff) (auto simp: entries_valid_def)
  have l80: "length (file_header_encode ?h) = 80"
    by (rule length_file_header_encode [OF segment_header_wf])
  have lim: "80 + length ?b < usize_limit" using assms by (simp add: entries_valid_def)
  show ?thesis
    unfolding verify_segment_bytes_def segment_encoding_def
    using lim by (simp add: l80 d segment_header_fields lb v segment_report_def)
qed

lemma verify_segment_bytes_sound:
  assumes "verify_segment_bytes path file = Inr r"
  shows "\<exists>g minor es. file = segment_encoding g minor es \<and> entries_valid es \<and> r = segment_report path g es"
proof -
  obtain h where l80: "80 \<le> length file" and d: "file_header_decode (take 80 file) MAGIC_SEGMENT = Inr h"
    using assms by (auto simp: verify_segment_bytes_def Let_def rbind_eq_Inr_iff split: if_splits)
  let ?p = "drop 80 file"
  note h = file_header_decode_inv [OF d]
  have lim: "length file = 80 + unat (fh_payload_bytes h)" "length file < usize_limit"
    using assms l80 d by (auto simp: verify_segment_bytes_def Let_def rbind_eq_Inr_iff checked_add_Some_iff
        split: if_splits)
  then have lp: "unat (fh_payload_bytes h) = length ?p" "length ?p < usize_limit" by simp_all
  obtain c n seen where v: "verify_records (length ?p) 0 0 [] ?p = Inr (c, n, seen)"
    and n: "n = unat (fh_item_count h)" and sh: "sha256 seen = fh_payload_sha256 h"
    and r: "r = \<lparr>ir_path = path, ir_magic = fh_magic h,
                      ir_generation = fh_generation h, ir_item_count = fh_item_count h,
                      ir_payload_bytes = fh_payload_bytes h, ir_file_bytes = length file,
                      ir_payload_sha256 = fh_payload_sha256 h\<rparr>"
    using assms l80 lim(2) unfolding verify_segment_bytes_def Let_def d rbind_simps lp(1)
    by (auto simp: rbind_eq_Inr_iff split: if_splits prod.splits)
  obtain es where es: "?p = entries_bytes es" "list_all (\<lambda>e. validate_entry_payload e = Inr ()) es"
    and ns: "n = length es" "seen = ?p"
    using verify_records_iff [OF lp(2), THEN iffD1, OF v] by auto
  have pb: "fh_payload_bytes h = of_nat (length (entries_bytes es))"
    and ic: "fh_item_count h = of_nat (length es)"
    using lp(1) n ns es(1) by (metis of_nat_unat_u64)+
  have hs: "h = segment_header (fh_generation h) (fh_minor h) es"
    using h(2,3) pb ic sh ns es(1)
    by (cases h) (simp add: segment_header_def file_header_new_def file_header_wf_def)
  have le: "80 + length (entries_bytes es) = length file"
    using l80 by (simp flip: es(1))
  have "file = take 80 file @ ?p" by simp
  then have "file = segment_encoding (fh_generation h) (fh_minor h) es"
    using h(1) hs es(1) unfolding segment_encoding_def by metis
  moreover have "entries_valid es" using es(2) lim(2) le by (simp add: entries_valid_def)
  moreover have "r = segment_report path (fh_generation h) es"
    using r h(2) pb ic sh ns es(1) le by (simp add: segment_report_def)
  ultimately show ?thesis by blast
qed

subsection \<open>Writing\<close>

lemma write_entries_ok:
  assumes "list_all (\<lambda>e. validate_entry_payload e = Inr ()) es"
    and "pb + length (entries_bytes es) < usize_limit" and "n + length es < usize_limit"
  shows "write_entries es out pb n =
     Inr (out @ entries_bytes es, pb + length (entries_bytes es), n + length es)"
  using assms
proof (induction es arbitrary: out pb n)
  case Nil
  then show ?case by simp
next
  case (Cons e es)
  have h: "record_header_for_entry e = Inr (entry_header e)"
    using Cons.prems by (simp add: record_header_for_entry_def entry_header_def length_entry_bytes)
  show ?case
    using Cons.prems by (simp add: h Let_def length_entry_bytes Cons.IH) (simp add: entry_bytes_def)
qed

lemma write_entries_fails:
  assumes "write_entries es out pb n = Inr r"
  shows "list_all (\<lambda>e. validate_entry_payload e = Inr ()) es"
  using assms
proof (induction es arbitrary: out pb n)
  case Nil
  then show ?case by simp
next
  case (Cons e es)
  then show ?case
    by (auto simp: rbind_eq_Inr_iff Let_def split: if_splits)
qed

lemma segment_file_bytes_encoding:
  "segment_file_bytes g (entries_bytes es) (length (entries_bytes es)) (length es)
     = segment_encoding g STORAGE_MINOR es"
  by (simp add: segment_file_bytes_def segment_encoding_def segment_header_def file_header_new_def)

text \<open>A destination that a store can publish to.\<close>

definition publishable :: "fsys \<Rightarrow> path \<Rightarrow> bool" where
  "publishable fs p \<longleftrightarrow> fs_quiet fs \<and> p \<noteq> [] \<and> \<not> hidden_name p \<and> butlast p \<in> fs_dirs fs \<and>
     p \<notin> fs_dirs fs"

lemma create_parent_present:
  "p \<noteq> [] \<Longrightarrow> butlast p \<in> fs_dirs fs \<Longrightarrow> create_parent p fs = (Inr (), fs)"
  by (simp add: create_parent_def path_parent_def io_map_err_def create_dir_all_def)

lemma sync_parent_present:
  "p \<noteq> [] \<Longrightarrow> butlast p \<in> fs_dirs fs \<Longrightarrow>
   io_bind (io_pure (ok_or e (path_parent p))) sync_parent_dir fs = (Inr (), fs)"
  by (simp add: path_parent_def io_pure_def io_bind_def sync_parent_dir_def io_map_err_def
      sync_dir_def fs_exists_def)

lemma atomic_move_ok:
  assumes "fget fs t = Some bs" and "p \<notin> fs_dirs fs" and "butlast p \<in> fs_dirs fs"
  shows "atomic_move t p replace fs = (Inr (), fput p bs (fdel t fs))"
  using assms by (simp add: atomic_move_def io_map_err_def fs_rename_def)

lemma publish_immutable_new:
  assumes "fget fs t = Some bs" and "\<not> fs_exists fs p" and "butlast p \<in> fs_dirs fs" and "p \<noteq> []"
  shows "publish_immutable t p fs = (Inr (), fput p bs (fdel t fs))"
proof -
  have "atomic_move t p False fs = (Inr (), fput p bs (fdel t fs))"
    using assms by (intro atomic_move_ok) (auto simp: fs_exists_def)
  then show ?thesis
    using assms(2-4) by (simp add: publish_immutable_def sync_parent_present)
qed

lemma publish_immutable_same:
  assumes "fget fs t = Some bs" and "fget fs p = Some bs"
  shows "publish_immutable t p fs = (Inr (), fdel t fs)"
  using assms by (simp add: publish_immutable_def fs_exists_def io_bind_def io_query_def
      sha256_file_def fs_read_def io_map_err_def fs_remove_def)

text \<open>Writing a temporary file and publishing it, where the destination is new or equal.\<close>

lemma tmp_write_publish:
  assumes pub: "publishable fs p" and new: "r \<or> fget fs p = None \<or> fget fs p = Some bs"
  obtains t fs0 fs1 fs2 where "storage_temporary_path p fs = (Inr t, fs0)"
    and "create_new t [] fs0 = (Inr (), fput t [] fs0)"
    and "write_all t bs (fput t [] fs0) = (Inr (), fs1)"
    and "(if r then atomic_move t p True else publish_immutable t p) fs1 = (Inr (), fs2)"
    and "fs_installs p bs fs fs2"
proof -
  let ?fs0 = "fs\<lparr>fs_tick := Suc (fs_tick fs)\<rparr>"
  from pub obtain t where t: "storage_temporary_path p fs = (Inr t, ?fs0)"
    and bl: "butlast t = butlast p" and ne: "t \<noteq> p" and no: "fget fs t = None" "t \<notin> fs_dirs fs"
    unfolding publishable_def storage_temporary_path_def by (metis quiet_temporary)
  let ?fs1 = "fput t bs (fput t [] ?fs0)"
  let ?fs2 = "if r \<or> fget fs p = None then fput p bs (fdel t ?fs1) else fdel t ?fs1"
  have np: "p \<notin> fs_dirs fs" "butlast p \<in> fs_dirs fs" "p \<noteq> []" using pub by (auto simp: publishable_def)
  have g: "fget ?fs1 t = Some bs" "fs_dirs ?fs1 = fs_dirs fs" by simp_all
  show thesis
  proof (rule that [of t ?fs0 ?fs1 ?fs2])
    show "create_new t [] ?fs0 = (Inr (), fput t [] ?fs0)"
      using no bl np by (simp add: create_new_def fs_exists_def)
    show "write_all t bs (fput t [] ?fs0) = (Inr (), ?fs1)" by (simp add: write_all_def)
    show "(if r then atomic_move t p True else publish_immutable t p) ?fs1 = (Inr (), ?fs2)"
    proof (cases "r \<or> fget fs p = None")
      case True
      then show ?thesis
        using np ne g atomic_move_ok [of ?fs1 t bs p True] publish_immutable_new [of ?fs1 t bs p]
        by (auto simp: fs_exists_def)
    next
      case False
      then show ?thesis using new ne g publish_immutable_same [of ?fs1 t bs p] by auto
    qed
    show "fs_installs p bs fs ?fs2"
      using new ne no by (auto simp: fs_installs_def fun_eq_iff)
  qed (rule t)
qed

lemma write_segment_file_ok:
  assumes pub: "publishable fs p" and va: "entries_valid es"
    and new: "fget fs p = None \<or> fget fs p = Some (segment_encoding g STORAGE_MINOR es)"
  shows "\<exists>fs'. write_segment_file p g es fs = (Inr (segment_report p g es), fs') \<and>
     fs_installs p (segment_encoding g STORAGE_MINOR es) fs fs'"
proof -
  let ?bs = "segment_encoding g STORAGE_MINOR es"
  have np: "butlast p \<in> fs_dirs fs" "p \<noteq> []" using pub by (auto simp: publishable_def)
  have we: "write_entries es [] 0 0 = Inr (entries_bytes es, length (entries_bytes es), length es)"
    using va length_entries [of es] by (simp add: entries_valid_def write_entries_ok)
  from new have new': "False \<or> fget fs p = None \<or> fget fs p = Some ?bs" by simp
  obtain t fs0 fs1 fs2 where s: "storage_temporary_path p fs = (Inr t, fs0)"
    "create_new t [] fs0 = (Inr (), fput t [] fs0)"
    "write_all t ?bs (fput t [] fs0) = (Inr (), fs1)"
    "publish_immutable t p fs1 = (Inr (), fs2)"
    and i: "fs_installs p ?bs fs fs2"
    by (rule tmp_write_publish [OF pub new']) (simp only: if_False)
  then have v: "verify_segment p fs2 = Inr (segment_report p g es)"
    using verify_segment_encoding [OF va] by (simp add: verify_segment_def fs_read_def fs_installs_def)
  have "write_segment_file p g es fs = (Inr (segment_report p g es), fs2)"
    unfolding write_segment_file_def
    using s v by (simp add: create_parent_present [OF np(2,1)] io_map_err_def io_on_error_def
       io_pure_def we segment_file_bytes_encoding io_query_def)
  with i show ?thesis by blast
qed

subsection \<open>Versioned files and the head\<close>

definition versioned_header :: "bytes \<Rightarrow> u64 \<Rightarrow> u64 \<Rightarrow> bytes \<Rightarrow> file_header" where
  "versioned_header magic g n payload =
     file_header_new magic g (of_nat (length payload)) n (sha256 payload)"

definition versioned_report :: "path \<Rightarrow> bytes \<Rightarrow> u64 \<Rightarrow> u64 \<Rightarrow> bytes \<Rightarrow> integrity_report" where
  "versioned_report path magic g n payload =
     \<lparr>ir_path = path, ir_magic = magic, ir_generation = g, ir_item_count = n,
      ir_payload_bytes = of_nat (length payload), ir_file_bytes = 80 + length payload,
      ir_payload_sha256 = sha256 payload\<rparr>"

lemma versioned_header_wf: "length magic = 8 \<Longrightarrow> file_header_wf (versioned_header magic g n payload)"
  by (simp add: versioned_header_def file_header_new_def file_header_wf_def)

lemma versioned_header_fields [simp]:
  "fh_magic (versioned_header magic g n payload) = magic"
  "fh_generation (versioned_header magic g n payload) = g"
  "fh_item_count (versioned_header magic g n payload) = n"
  "fh_payload_bytes (versioned_header magic g n payload) = of_nat (length payload)"
  "fh_payload_sha256 (versioned_header magic g n payload) = sha256 payload"
  by (simp_all add: versioned_header_def file_header_new_def)

lemma read_versioned_bytes_ok:
  assumes m: "length magic = 8" and l: "80 + length payload < usize_limit"
  shows "read_versioned_bytes path (versioned_file_bytes magic g n payload) magic =
     Inr (versioned_header magic g n payload, payload, 80 + length payload)"
proof -
  let ?h = "versioned_header magic g n payload"
  have d: "file_header_decode (file_header_encode ?h) magic = Inr ?h"
    using file_header_roundtrip [OF versioned_header_wf [OF m]] by simp
  have lb: "unat (of_nat (length payload) :: u64) = length payload"
    using l by (simp add: usize_limit_def unat_of_nat)
  have l80: "length (file_header_encode ?h) = 80"
    by (rule length_file_header_encode [OF versioned_header_wf [OF m]])
  show ?thesis
    using l by (simp add: read_versioned_bytes_def versioned_file_bytes_def l80 d lb
        flip: versioned_header_def)
qed

lemma read_versioned_bytes_sound:
  assumes "read_versioned_bytes path file magic = Inr (h, payload, n)"
  shows "file = file_header_encode h @ payload" and "fh_magic h = magic" and "n = length file"
    and "fh_payload_sha256 h = sha256 payload" and "unat (fh_payload_bytes h) = length payload"
proof -
  have d: "file_header_decode (take 80 file) magic = Inr h" and p: "payload = drop 80 file"
    and rest: "n = length file" "fh_payload_sha256 h = sha256 payload"
    and len: "80 \<le> length file" "length file = 80 + unat (fh_payload_bytes h)"
    using assms by (auto simp: read_versioned_bytes_def Let_def rbind_eq_Inr_iff
        checked_add_Some_iff split: if_splits)
  note inv = file_header_decode_inv [OF d]
  show "file = file_header_encode h @ payload"
    unfolding p inv(1) [symmetric] by simp
  show "fh_magic h = magic" by (rule inv(2))
  show "unat (fh_payload_bytes h) = length payload" using len p by simp
qed (use assms in \<open>auto simp: read_versioned_bytes_def Let_def rbind_eq_Inr_iff split: if_splits\<close>)

lemma write_versioned_file_ok:
  assumes pub: "publishable fs p" and m: "length magic = 8" and l: "80 + length payload < usize_limit"
    and new: "r \<or> fget fs p = None \<or> fget fs p = Some (versioned_file_bytes magic g n payload)"
  shows "\<exists>fs'. write_versioned_file p magic g n payload r fs
     = (Inr (versioned_report p magic g n payload), fs') \<and>
     fs_installs p (versioned_file_bytes magic g n payload) fs fs'"
proof -
  let ?bs = "versioned_file_bytes magic g n payload" and ?rep = "versioned_report p magic g n payload"
  have np: "butlast p \<in> fs_dirs fs" "p \<noteq> []" using pub by (auto simp: publishable_def)
  obtain t fs0 fs1 fs2 where s: "storage_temporary_path p fs = (Inr t, fs0)"
    "create_new t [] fs0 = (Inr (), fput t [] fs0)"
    "write_all t ?bs (fput t [] fs0) = (Inr (), fs1)"
    "(if r then atomic_move t p True else publish_immutable t p) fs1 = (Inr (), fs2)"
    and i: "fs_installs p ?bs fs fs2"
    by (rule tmp_write_publish [OF pub new])
  have v: "verify_versioned_file p magic fs2 = Inr ?rep"
    using i m l by (simp add: verify_versioned_file_def read_versioned_file_def fs_read_def
        fs_installs_def read_versioned_bytes_ok versioned_report_def)
  have "butlast p \<in> fs_dirs fs2" using i np by (simp add: fs_installs_def)
  note sy = sync_parent_present [OF np(2) this]
  have nl: "\<not> usize_limit \<le> length payload" using l by simp
  have "write_versioned_file p magic g n payload r fs = (Inr ?rep, fs2)"
    unfolding write_versioned_file_def
    using s v by (simp add: create_parent_present [OF np(2,1)] io_map_err_def io_on_error_def
       io_pure_def [of "Inr ()"] nl io_query_def io_bind_ok [where m = "io_bind _ sync_parent_dir", OF sy])
  with i show ?thesis by blast
qed

definition head_payload :: "head \<Rightarrow> bytes" where
  "head_payload h =
     (let payload = u64_le (hd_generation h) @ u32_le (of_nat (length (hd_manifest_filename h)))
                     @ u32_le 0 @ hd_manifest_sha256 h @ hd_manifest_filename h
      in payload @ replicate (padding_len (length payload)) 0)"

definition head_file_bytes :: "head \<Rightarrow> bytes" where
  "head_file_bytes h = versioned_file_bytes MAGIC_HEAD (hd_generation h) 1 (head_payload h)"

lemma head_payload_ok:
  assumes "head_wf h"
  shows "head_encode_payload h = Inr (head_payload h)"
    and "head_decode_payload (head_payload h) = Inr h"
    and "80 + length (head_payload h) < usize_limit"
proof -
  show e: "head_encode_payload h = Inr (head_payload h)"
    using assms by (simp add: head_encode_payload_def head_payload_def head_wf_def Let_def)
  then show "head_decode_payload (head_payload h) = Inr h"
    using head_roundtrip [OF assms] by simp
  have "padding_len k < 8" for k by (simp add: padding_len_def)
  note p8 = this [of "48 + length (hd_manifest_filename h)"]
  show "80 + length (head_payload h) < usize_limit"
    using assms p8 by (simp add: head_payload_def head_wf_def Let_def usize_limit_def add_ac)
qed

lemma read_head_installed:
  assumes "head_wf h" and "fget fs (head_path store) = Some (head_file_bytes h)"
  shows "read_head store fs = Inr (Some h)"
  using assms head_payload_ok [OF assms(1)]
  by (simp add: read_head_def fs_exists_def read_versioned_file_def fs_read_def head_file_bytes_def
      read_versioned_bytes_ok)

lemma publish_head_ok:
  assumes wf: "head_wf h" and pub: "publishable fs (head_path store)"
    and m: "verify_versioned_file (manifest_path store (hd_manifest_filename h)) MAGIC_MANIFEST fs = Inr rep"
    and g: "ir_generation rep = hd_generation h"
    and sh: "sha256_file (manifest_path store (hd_manifest_filename h)) fs = Inr (hd_manifest_sha256 h)"
  shows "\<exists>rep' fs'. publish_head store h fs = (Inr rep', fs') \<and>
     fs_installs (head_path store) (head_file_bytes h) fs fs' \<and> read_head store fs' = Inr (Some h)"
proof -
  have v: "validate_filename h = Inr ()" using wf by (simp add: head_wf_def)
  obtain fs' rep' where w: "write_versioned_file (head_path store) MAGIC_HEAD (hd_generation h) 1 (head_payload h) True fs
     = (Inr rep', fs')" and i: "fs_installs (head_path store) (head_file_bytes h) fs fs'"
    using write_versioned_file_ok [OF pub, of MAGIC_HEAD "head_payload h" True "hd_generation h" 1]
      head_payload_ok(3) [OF wf] by (auto simp: head_file_bytes_def)
  have "publish_head store h fs = (Inr rep', fs')"
    using m g sh w by (simp add: publish_head_def Let_def v io_pure_def io_query_def head_payload_ok(1) [OF wf])
  moreover have "read_head store fs' = Inr (Some h)"
    using i by (intro read_head_installed [OF wf]) (simp add: fs_installs_def)
  ultimately show ?thesis using i by blast
qed

lemmas tmp_create_keeps_snd = tmp_create_keeps [OF _ prod.collapse [symmetric]]

lemma keeps_write_segment:
  assumes "fget fs q = Some b"
  shows "fget (snd (write_segment_file p g es fs)) q = Some b"
proof -
  obtain r fs1 where c: "create_parent p fs = (r, fs1)" by fastforce
  have "fget fs1 q = Some b"
    using c assms by (auto simp: create_parent_def io_map_err_def create_dir_all_def io_ret_def
        split: option.splits if_splits prod.splits)
  moreover have "kf.io_respects t (io_bind (io_pure (write_entries es [] 0 0)) (\<lambda>(out, payload_bytes, item_count).
        io_bind (io_map_err Storage_Io (write_all t
                   (segment_file_bytes g out payload_bytes item_count))) (\<lambda>_.
        io_bind (publish_immutable t p) (\<lambda>_. io_query (verify_segment p)))))" for t
    by (auto intro!: kf.respects_bind kf.respects_map_err keeps_files_ops keeps_publish_immutable)
  ultimately show ?thesis
    using c by (cases r)
      (simp_all add: write_segment_file_def io_bind_fail tmp_create_keeps_snd)
qed

lemma keeps_write_versioned:
  assumes "fget fs q = Some b"
  shows "fget (snd (write_versioned_file p magic g n payload False fs)) q = Some b"
proof -
  obtain r fs1 where c: "create_parent p fs = (r, fs1)" by fastforce
  have "fget fs1 q = Some b"
    using c assms by (auto simp: create_parent_def io_map_err_def create_dir_all_def io_ret_def
        split: option.splits if_splits prod.splits)
  moreover have "kf.io_respects t (io_bind (io_map_err Storage_Io (write_all t
                   (versioned_file_bytes magic g n payload))) (\<lambda>_.
        io_bind (publish_immutable t p) (\<lambda>_.
        io_bind (io_bind (io_pure (ok_or (Storage_InvalidPath (lit ''file has no parent''))
                   (path_parent p))) sync_parent_dir) (\<lambda>_.
        io_query (verify_versioned_file p magic)))))" for t
    by (auto intro!: kf.respects_bind kf.respects_map_err keeps_files_ops keeps_publish_immutable
        keeps_sync_parent)
  ultimately show ?thesis
    using c by (cases r; cases "usize_limit \<le> length payload")
      (simp_all add: write_versioned_file_def io_bind_fail io_pure_def [of "Inl _"]
         io_pure_def [of "Inr ()"] tmp_create_keeps_snd)
qed

subsection \<open>Properties\<close>

text \<open>A small file system for the witnesses: an empty store directory \<open>/db\<close>.\<close>

definition demo_fs :: fsys where
  "demo_fs = \<lparr>fs_files = [],
     fs_dirs = {[], [lit ''db''], [lit ''db'', lit ''segments''], [lit ''db'', lit ''manifests''],
                [lit ''db'', lit ''wal''], [lit ''db'', lit ''checkpoints''],
                [lit ''db'', lit ''indexes'']},
     fs_clock = (\<lambda>_. 0), fs_tick = 0, fs_pid = 1\<rparr>"

definition demo_entry :: segment_entry where
  "demo_entry = \<lparr>se_kind = Metadata, se_logical_id = 7, se_payload = lit ''abc''\<rparr>"

lemma fget_demo [simp]: "fget demo_fs p = None"
  by (simp add: demo_fs_def fget_def)

lemma demo_quiet: "fs_quiet demo_fs"
  by (auto simp: fs_quiet_def hidden_name_def starts_with_def lit_def) (auto simp: demo_fs_def lit_def)

lemma demo_publishable: "publishable demo_fs [lit ''db'', lit ''segments'', lit ''S.ubseg'']"
  using demo_quiet by (simp add: publishable_def demo_fs_def hidden_name_def starts_with_def lit_def)

lemma demo_entries_valid: "entries_valid [demo_entry]"
  by (simp add: entries_valid_def demo_entry_def validate_entry_payload_def length_entry_bytes
      padding_len_def usize_limit_def)

text \<open>
  C21. The segment verifier accepts exactly the canonical encodings: a file passes
  \<open>verify_segment\<close> if and only if it is a file header (any minor version) followed by the
  frames of some list of valid entries, with the payload length, the item count and the
  payload digest of those entries, and nothing after them. The report is then determined
  by the generation and the entries.
\<close>

theorem verify_segment_exact:
  "verify_segment_bytes path file = Inr r \<longleftrightarrow>
     (\<exists>g minor es. file = segment_encoding g minor es \<and> entries_valid es \<and>
        r = segment_report path g es)"
  using verify_segment_bytes_sound verify_segment_encoding by blast

text \<open>
  C26. \<open>write_segment_file\<close> with valid entries succeeds where the destination is free or
  already holds the same segment, leaves exactly that segment under the destination and
  changes no other file, and \<open>verify_segment\<close> then reports the entries that were written.
\<close>

theorem write_segment_then_verify:
  assumes "publishable fs p" and "entries_valid es"
    and "fget fs p = None \<or> fget fs p = Some (segment_encoding g STORAGE_MINOR es)"
  shows "\<exists>fs'. write_segment_file p g es fs = (Inr (segment_report p g es), fs') \<and>
     fget fs' = (fget fs)(p \<mapsto> segment_encoding g STORAGE_MINOR es) \<and>
     verify_segment p fs' = Inr (segment_report p g es)"
proof -
  obtain fs' where "write_segment_file p g es fs = (Inr (segment_report p g es), fs')"
    and i: "fs_installs p (segment_encoding g STORAGE_MINOR es) fs fs'"
    using write_segment_file_ok [OF assms] by blast
  with verify_segment_encoding [OF assms(2)] show ?thesis
    by (auto simp: verify_segment_def fs_read_def fs_installs_def)
qed

theorem write_segment_then_verify_witness:
  "\<exists>fs'. write_segment_file [lit ''db'', lit ''segments'', lit ''S.ubseg''] 1 [demo_entry] demo_fs =
       (Inr (segment_report [lit ''db'', lit ''segments'', lit ''S.ubseg''] 1 [demo_entry]), fs') \<and>
     fget fs' = (fget demo_fs)([lit ''db'', lit ''segments'', lit ''S.ubseg'']
        \<mapsto> segment_encoding 1 STORAGE_MINOR [demo_entry]) \<and>
     verify_segment [lit ''db'', lit ''segments'', lit ''S.ubseg''] fs' =
       Inr (segment_report [lit ''db'', lit ''segments'', lit ''S.ubseg''] 1 [demo_entry])"
  by (rule write_segment_then_verify [OF demo_publishable demo_entries_valid]) simp

text \<open>
  C27. Published files are immutable: whatever happens inside \<open>write_segment_file\<close> or a
  non-replacing \<open>write_versioned_file\<close> (invalid entries, an existing destination with
  other contents, a failing directory), every file that existed before has the same bytes
  afterwards.
\<close>

theorem published_files_immutable:
  assumes "fget fs q = Some b"
  shows "fget (snd (write_segment_file p g es fs)) q = Some b \<and>
     fget (snd (write_versioned_file p magic g n payload False fs)) q = Some b"
  using keeps_write_segment [OF assms] keeps_write_versioned [OF assms] by blast

theorem published_files_immutable_witness:
  "fget (snd (write_segment_file [lit ''x''] 1 [demo_entry] (fput [lit ''x''] [1, 2] demo_fs)))
     [lit ''x''] = Some [1, 2]"
  using published_files_immutable [of "fput [lit ''x''] [1, 2] demo_fs" "[lit ''x'']" "[1, 2]"] by simp

text \<open>
  Reading a versioned file (manifest or head) accepts only a file that is its header
  followed by a payload with the length and the digest that the header states; and what
  \<open>write_versioned_file\<close> writes is read back with the same payload, generation and count.
\<close>

theorem versioned_file_roundtrip:
  assumes "length magic = 8" and "80 + length payload < usize_limit"
  shows "\<exists>h. read_versioned_bytes path (versioned_file_bytes magic g n payload) magic =
       Inr (h, payload, 80 + length payload) \<and>
     fh_generation h = g \<and> fh_item_count h = n \<and> fh_payload_sha256 h = sha256 payload \<and>
     (\<forall>file' h' payload' n'. read_versioned_bytes path file' magic = Inr (h', payload', n') \<longrightarrow>
        file' = file_header_encode h' @ payload' \<and> fh_magic h' = magic \<and>
        fh_payload_sha256 h' = sha256 payload' \<and> unat (fh_payload_bytes h') = length payload')"
  using read_versioned_bytes_ok [OF assms] read_versioned_bytes_sound by auto

theorem versioned_file_roundtrip_witness:
  "\<exists>h. read_versioned_bytes [] (versioned_file_bytes MAGIC_HEAD 3 1 (lit ''abc'')) MAGIC_HEAD =
     Inr (h, lit ''abc'', 83) \<and> fh_generation h = 3"
  using versioned_file_roundtrip [of MAGIC_HEAD "lit ''abc''" "[]" 3 1] by (auto simp: usize_limit_def)

text \<open>
  After \<open>publish_head\<close> on a verified manifest, \<open>read_head\<close> returns that head, and
  only the head file has changed. Publishing replaces an earlier head.
\<close>

theorem publish_head_then_read:
  assumes "head_wf h" and "publishable fs (head_path store)"
    and "verify_versioned_file (manifest_path store (hd_manifest_filename h)) MAGIC_MANIFEST fs = Inr rep"
    and "ir_generation rep = hd_generation h"
    and "sha256_file (manifest_path store (hd_manifest_filename h)) fs = Inr (hd_manifest_sha256 h)"
  shows "\<exists>rep' fs'. publish_head store h fs = (Inr rep', fs') \<and>
     read_head store fs' = Inr (Some h) \<and>
     fget fs' = (fget fs)(head_path store \<mapsto> head_file_bytes h)"
  using publish_head_ok [OF assms] by (auto simp: fs_installs_def)

definition demo_head :: head where
  "demo_head = \<lparr>hd_generation = 1, hd_manifest_filename = lit ''MANIFEST-1.ubmeta'',
     hd_manifest_sha256 = sha256 (versioned_file_bytes MAGIC_MANIFEST 1 1 (lit ''abc''))\<rparr>"

lemma demo_head_wf: "head_wf demo_head"
  by (simp add: head_wf_def demo_head_def lit_def validate_filename_def path_is_absolute_def
      path_components_def is_normal_def starts_with_def ends_with_def)

definition demo_manifest_fs :: fsys where
  "demo_manifest_fs = fput [lit ''db'', lit ''manifests'', lit ''MANIFEST-1.ubmeta'']
     (versioned_file_bytes MAGIC_MANIFEST 1 1 (lit ''abc'')) demo_fs"

theorem publish_head_then_read_witness:
  "\<exists>rep' fs'. publish_head \<lparr>ps_root = [lit ''db'']\<rparr> demo_head demo_manifest_fs = (Inr rep', fs') \<and>
     read_head \<lparr>ps_root = [lit ''db'']\<rparr> fs' = Inr (Some demo_head)"
proof -
  let ?s = "\<lparr>ps_root = [lit ''db'']\<rparr>"
  have q: "fs_quiet demo_manifest_fs"
    using demo_quiet by (auto simp: fs_quiet_def demo_manifest_fs_def hidden_name_def starts_with_def
        lit_def) (simp add: demo_fs_def lit_def)
  note demo_head_wf
  moreover have "publishable demo_manifest_fs (head_path ?s)"
    using q by (simp add: publishable_def head_path_def demo_manifest_fs_def demo_fs_def hidden_name_def
        starts_with_def lit_def)
  moreover have "verify_versioned_file (manifest_path ?s (hd_manifest_filename demo_head)) MAGIC_MANIFEST
      demo_manifest_fs = Inr (versioned_report (manifest_path ?s (hd_manifest_filename demo_head)) MAGIC_MANIFEST 1 1 (lit ''abc''))"
    by (simp add: verify_versioned_file_def read_versioned_file_def fs_read_def demo_manifest_fs_def
        manifest_path_def demo_head_def read_versioned_bytes_ok usize_limit_def versioned_report_def)
  moreover have "sha256_file (manifest_path ?s (hd_manifest_filename demo_head)) demo_manifest_fs
      = Inr (hd_manifest_sha256 demo_head)"
    by (simp add: sha256_file_def fs_read_def demo_manifest_fs_def manifest_path_def demo_head_def)
  ultimately show ?thesis
    using publish_head_then_read [of demo_head demo_manifest_fs ?s] by (auto simp: demo_head_def versioned_report_def)
qed

text \<open>
  A head that is read back names a manifest inside the manifest directory: its file
  name is non-empty, has no path separator and is neither \<open>.\<close> nor \<open>..\<close>, whatever bytes
  the head file holds.
\<close>

theorem head_no_path_traversal:
  assumes "read_head store fs = Inr (Some h)"
  shows "0x2F \<notin> set (hd_manifest_filename h) \<and> hd_manifest_filename h \<noteq> [] \<and>
     hd_manifest_filename h \<noteq> lit ''.'' \<and> hd_manifest_filename h \<noteq> lit ''..''"
proof -
  have v: "validate_filename h = Inr ()"
    using assms by (auto simp: read_head_def head_decode_payload_def Let_def rbind_eq_Inr_iff
        split: if_splits prod.splits)
  then have "starts_with (hd_manifest_filename h) (lit ''MANIFEST-'')"
    by (auto simp: validate_filename_def Let_def split: if_splits)
  then show ?thesis using validate_filename_no_slash [OF v] by (auto simp: starts_with_def lit_def)
qed

theorem head_no_path_traversal_witness:
  "0x2F \<notin> set (hd_manifest_filename demo_head)"
proof -
  from read_head_installed [OF demo_head_wf, of "fput (head_path \<lparr>ps_root = []\<rparr>) (head_file_bytes demo_head) demo_fs" "\<lparr>ps_root = []\<rparr>"]
  have "read_head \<lparr>ps_root = []\<rparr> (fput (head_path \<lparr>ps_root = []\<rparr>) (head_file_bytes demo_head) demo_fs)
     = Inr (Some demo_head)" by simp
  from head_no_path_traversal [OF this] show ?thesis by simp
qed

end
