(* ===== verification/Ub_Wal.thy ===== *)
theory Ub_Wal
  imports Ub_Segment
begin

text \<open>
  The write-ahead log of \<open>ultraballoondb-wal/src/lib.rs\<close>: frames with a 96-byte header,
  the scan that rebuilds them and repairs a torn tail, and the appending writer. The scan
  accepts exactly the concatenations of well-formed frames with increasing sequence
  numbers; with repair it recovers, from any prefix of such a log, the frames that are
  complete in the prefix.
\<close>

subsection \<open>Frames\<close>

datatype frame_type =
    Begin | PutRecord | PutEdge | DeleteRecord | DeleteEdge | Commit | Abort | Checkpoint

datatype wal_error =
    Wal_Io io_error
  | Wal_InvalidHeader str
  | Wal_Integrity str bytes bytes
  | Wal_NonMonotonicLsn u64 u64
  | Wal_PayloadTooLarge u64

definition WAL_MAGIC :: bytes where "WAL_MAGIC = lit ''UBWFR01'' @ [0]"
definition WAL_MAJOR :: u16 where "WAL_MAJOR = 1"
definition MAX_WAL_PAYLOAD_BYTES :: nat where "MAX_WAL_PAYLOAD_BYTES = 67108864"

lemma length_wal_magic [simp, len_simps]: "length WAL_MAGIC = 8"
  by (simp add: WAL_MAGIC_def)

fun frame_code :: "frame_type \<Rightarrow> u16" where
  "frame_code Begin = 1"
| "frame_code PutRecord = 2"
| "frame_code PutEdge = 3"
| "frame_code DeleteRecord = 4"
| "frame_code DeleteEdge = 5"
| "frame_code Commit = 6"
| "frame_code Abort = 7"
| "frame_code Checkpoint = 8"

definition frame_from_u16 :: "u16 \<Rightarrow> wal_error + frame_type" where
  "frame_from_u16 value =
     (if value = 1 then Inr Begin
      else if value = 2 then Inr PutRecord
      else if value = 3 then Inr PutEdge
      else if value = 4 then Inr DeleteRecord
      else if value = 5 then Inr DeleteEdge
      else if value = 6 then Inr Commit
      else if value = 7 then Inr Abort
      else if value = 8 then Inr Checkpoint
      else Inl (Wal_InvalidHeader (lit ''unknown frame type '' @ dec_bytes (unat value))))"

record wal_frame =
  wf_type :: frame_type
  wf_lsn :: u64
  wf_tx :: bytes
  wf_payload :: bytes

record wal_scan =
  ws_frames :: "wal_frame list"
  ws_maximum_lsn :: u64
  ws_repaired_trailing_bytes :: nat
  ws_valid_bytes :: nat

subsection \<open>Headers\<close>

definition wal_read_u16 :: "bytes \<Rightarrow> nat \<Rightarrow> wal_error + u16" where
  "wal_read_u16 bs offset =
     rbind (read_field 2 (Wal_InvalidHeader (lit ''u16 overflow''))
                         (Wal_InvalidHeader (lit ''truncated u16'')) bs offset) (\<lambda>v. Inr (from_le v))"

definition wal_read_u32 :: "bytes \<Rightarrow> nat \<Rightarrow> wal_error + u32" where
  "wal_read_u32 bs offset =
     rbind (read_field 4 (Wal_InvalidHeader (lit ''u32 overflow''))
                         (Wal_InvalidHeader (lit ''truncated u32'')) bs offset) (\<lambda>v. Inr (from_le v))"

definition wal_read_u64 :: "bytes \<Rightarrow> nat \<Rightarrow> wal_error + u64" where
  "wal_read_u64 bs offset =
     rbind (read_field 8 (Wal_InvalidHeader (lit ''u64 overflow''))
                         (Wal_InvalidHeader (lit ''truncated u64'')) bs offset) (\<lambda>v. Inr (from_le v))"

definition wal_read_digest :: "bytes \<Rightarrow> nat \<Rightarrow> wal_error + bytes" where
  "wal_read_digest bs offset =
     read_field 32 (Wal_InvalidHeader (lit ''digest overflow''))
                   (Wal_InvalidHeader (lit ''truncated digest'')) bs offset"

lemma wal_read_ok:
  "off + 2 < usize_limit \<Longrightarrow> off + 2 \<le> length bs \<Longrightarrow>
     wal_read_u16 bs off = Inr (from_le (take 2 (drop off bs)))"
  "off + 4 < usize_limit \<Longrightarrow> off + 4 \<le> length bs \<Longrightarrow>
     wal_read_u32 bs off = Inr (from_le (take 4 (drop off bs)))"
  "off + 8 < usize_limit \<Longrightarrow> off + 8 \<le> length bs \<Longrightarrow>
     wal_read_u64 bs off = Inr (from_le (take 8 (drop off bs)))"
  "off + 32 < usize_limit \<Longrightarrow> off + 32 \<le> length bs \<Longrightarrow>
     wal_read_digest bs off = Inr (take 32 (drop off bs))"
  by (simp_all add: wal_read_u16_def wal_read_u32_def wal_read_u64_def wal_read_digest_def
      read_field_ok)

definition encode_header :: "frame_type \<Rightarrow> u64 \<Rightarrow> bytes \<Rightarrow> bytes \<Rightarrow> wal_error + bytes" where
  "encode_header frame_type lsn transaction_id payload =
     (if usize_limit \<le> length payload then Inl (Wal_PayloadTooLarge (- 1))
      else if MAX_WAL_PAYLOAD_BYTES < length payload
      then Inl (Wal_PayloadTooLarge (of_nat (length payload)))
      else Inr (WAL_MAGIC @ u16_le WAL_MAJOR @ u16_le (frame_code frame_type) @ u32_le 96
                @ u64_le lsn @ transaction_id @ u64_le (of_nat (length payload)) @ u64_le 0
                @ sha256 payload @ u64_le 0))"

definition decode_header ::
  "bytes \<Rightarrow> wal_error + (frame_type \<times> u64 \<times> bytes \<times> u64 \<times> bytes)" where
  "decode_header bs =
     (if slice bs 0 8 \<noteq> WAL_MAGIC then Inl (Wal_InvalidHeader (lit ''magic mismatch''))
      else
        rbind (wal_read_u16 bs 8) (\<lambda>major.
        if major \<noteq> WAL_MAJOR
        then Inl (Wal_InvalidHeader (lit ''unsupported major version '' @ dec_bytes (unat major)))
        else
          rbind (wal_read_u16 bs 10) (\<lambda>code.
          rbind (frame_from_u16 code) (\<lambda>frame_type.
          rbind (wal_read_u32 bs 12) (\<lambda>header_bytes.
          if header_bytes \<noteq> 96 then Inl (Wal_InvalidHeader (lit ''header_bytes is not 96''))
          else
            rbind (wal_read_u64 bs 16) (\<lambda>lsn.
            if lsn = 0 then Inl (Wal_InvalidHeader (lit ''LSN cannot be zero''))
            else
              let transaction_id = slice bs 24 40 in
              rbind (wal_read_u64 bs 40) (\<lambda>payload_bytes.
              if MAX_WAL_PAYLOAD_BYTES < unat payload_bytes
              then Inl (Wal_PayloadTooLarge payload_bytes)
              else
                rbind (wal_read_u64 bs 48) (\<lambda>flags.
                rbind (if flags \<noteq> 0 then Inr True
                       else rbind (wal_read_u64 bs 88) (\<lambda>reserved. Inr (reserved \<noteq> 0))) (\<lambda>nonzero.
                if nonzero then Inl (Wal_InvalidHeader (lit ''flags or reserved are non-zero''))
                else
                  rbind (wal_read_digest bs 56) (\<lambda>payload_hash.
                  Inr (frame_type, lsn, transaction_id, payload_bytes, payload_hash)))))))))))"

subsection \<open>Scanning\<close>

text \<open>
  The loop of \<open>scan_wal\<close>: \<open>rest\<close> is the file from \<open>offset\<close> on. A torn tail ends the
  loop with the number of bytes that the caller cuts off.
\<close>

function (sequential) scan_frames ::
  "bool \<Rightarrow> nat \<Rightarrow> u64 \<Rightarrow> wal_frame list \<Rightarrow> bytes \<Rightarrow> wal_error + wal_scan" where
  "scan_frames repair_trailing offset previous_lsn frames rest =
     (let remaining = length rest;
          torn = \<lparr>ws_frames = frames, ws_maximum_lsn = previous_lsn,
                  ws_repaired_trailing_bytes = remaining, ws_valid_bytes = offset\<rparr>
      in if remaining = 0
         then Inr \<lparr>ws_frames = frames, ws_maximum_lsn = previous_lsn,
                   ws_repaired_trailing_bytes = 0, ws_valid_bytes = offset\<rparr>
         else if remaining < 96 then
           if repair_trailing then Inr torn
           else Inl (Wal_InvalidHeader (lit ''incomplete final frame header''))
         else
           rbind (decode_header (take 96 rest))
             (\<lambda>(frame_type, lsn, transaction_id, payload_bytes, expected_hash).
           if previous_lsn \<noteq> 0 \<and> lsn \<le> previous_lsn
           then Inl (Wal_NonMonotonicLsn previous_lsn lsn)
           else
             rbind (ok_or (Wal_InvalidHeader (lit ''frame length overflow''))
                      (checked_add 96 (unat payload_bytes))) (\<lambda>frame_bytes.
             if remaining < frame_bytes then
               if repair_trailing then Inr torn
               else Inl (Wal_InvalidHeader (lit ''incomplete final frame payload''))
             else
               let payload = take (unat payload_bytes) (drop 96 rest);
                   actual_hash = sha256 payload
               in if actual_hash \<noteq> expected_hash
                  then Inl (Wal_Integrity (lit ''frame LSN '' @ dec_bytes (unat lsn))
                              expected_hash actual_hash)
                  else
                    rbind (ok_or (Wal_InvalidHeader (lit ''WAL offset overflow''))
                             (checked_add offset frame_bytes)) (\<lambda>next_offset.
                    scan_frames repair_trailing next_offset lsn
                      (frames @ [\<lparr>wf_type = frame_type, wf_lsn = lsn, wf_tx = transaction_id,
                                  wf_payload = payload\<rparr>])
                      (drop (96 + unat payload_bytes) rest)))))"
  by pat_completeness auto
termination
  by (relation "measure (\<lambda>(rep, off, prev, fs, rest). length rest)") auto

declare scan_frames.simps [simp del]

definition empty_scan :: wal_scan where
  "empty_scan = \<lparr>ws_frames = [], ws_maximum_lsn = 0, ws_repaired_trailing_bytes = 0,
     ws_valid_bytes = 0\<rparr>"

definition scan_wal :: "path \<Rightarrow> bool \<Rightarrow> (wal_error, wal_scan) io" where
  "scan_wal path repair_trailing fs =
     (if \<not> fs_exists fs path then (Inr empty_scan, fs)
      else
        io_bind (io_query (\<lambda>fs. map_err Wal_Io (fs_read path fs))) (\<lambda>file.
        io_bind (io_pure (scan_frames repair_trailing 0 0 [] file)) (\<lambda>scan.
        if ws_repaired_trailing_bytes scan \<noteq> 0
        then io_bind (io_map_err Wal_Io (set_len path (ws_valid_bytes scan))) (\<lambda>_. io_ret scan)
        else io_ret scan)) fs)"

subsection \<open>The writer\<close>

record wal_writer =
  ww_path :: path
  ww_next_lsn :: u64

text \<open>\<open>saturating_add(1).max(1)\<close>.\<close>

definition next_lsn_after :: "u64 \<Rightarrow> u64" where
  "next_lsn_after m = max (if m = - 1 then m else m + 1) 1"

text \<open>\<open>OpenOptions::new().create(true).append(true).open(path)\<close>.\<close>

definition open_append :: "path \<Rightarrow> (io_error, unit) io" where
  "open_append p fs =
     (case fget fs p of
        Some _ \<Rightarrow> (Inr (), fs)
      | None \<Rightarrow> if p \<in> fs_dirs fs then (Inl (IsADirectory p), fs)
                else if butlast p \<notin> fs_dirs fs then (Inl (NotFound p), fs)
                else (Inr (), fput p [] fs))"

definition wal_open :: "path \<Rightarrow> bool \<Rightarrow> (wal_error, wal_writer) io" where
  "wal_open path repair_trailing =
     io_bind (case path_parent path of
                None \<Rightarrow> io_ret ()
              | Some parent \<Rightarrow> io_map_err Wal_Io (create_dir_all parent)) (\<lambda>_.
     io_bind (scan_wal path repair_trailing) (\<lambda>scan.
     io_bind (io_map_err Wal_Io (open_append path)) (\<lambda>_.
     io_ret \<lparr>ww_path = path, ww_next_lsn = next_lsn_after (ws_maximum_lsn scan)\<rparr>)))"

text \<open>
  \<open>append\<close> returns the sequence number and the writer it leaves; a failing call leaves the
  writer as it was.
\<close>

definition wal_append ::
  "wal_writer \<Rightarrow> frame_type \<Rightarrow> bytes \<Rightarrow> bytes \<Rightarrow> (wal_error, u64 \<times> wal_writer) io" where
  "wal_append w frame_type transaction_id payload =
     (let lsn = ww_next_lsn w in
      io_bind (io_pure (encode_header frame_type lsn transaction_id payload)) (\<lambda>header.
      io_bind (io_map_err Wal_Io (write_all (ww_path w) header)) (\<lambda>_.
      io_bind (io_map_err Wal_Io (write_all (ww_path w) payload)) (\<lambda>_.
      io_bind (io_pure (ok_or (Wal_InvalidHeader (lit ''LSN overflow''))
                 (if lsn = - 1 then None else Some (lsn + 1)))) (\<lambda>next_lsn.
      io_ret (lsn, w\<lparr>ww_next_lsn := next_lsn\<rparr>))))))"

definition flush_and_sync :: "wal_writer \<Rightarrow> (wal_error, unit) io" where
  "flush_and_sync w = io_ret ()"

subsection \<open>One frame\<close>

definition frame_wf :: "wal_frame \<Rightarrow> bool" where
  "frame_wf f \<longleftrightarrow> length (wf_tx f) = 16 \<and> wf_lsn f \<noteq> 0 \<and>
     length (wf_payload f) \<le> MAX_WAL_PAYLOAD_BYTES"

definition frame_header :: "wal_frame \<Rightarrow> bytes" where
  "frame_header f = WAL_MAGIC @ u16_le WAL_MAJOR @ u16_le (frame_code (wf_type f)) @ u32_le 96
     @ u64_le (wf_lsn f) @ wf_tx f @ u64_le (of_nat (length (wf_payload f))) @ u64_le 0
     @ sha256 (wf_payload f) @ u64_le 0"

definition frame_bytes :: "wal_frame \<Rightarrow> bytes" where
  "frame_bytes f = frame_header f @ wf_payload f"

lemma length_frame_header [len_simps]: "frame_wf f \<Longrightarrow> length (frame_header f) = 96"
  by (simp add: frame_header_def frame_wf_def)

lemma length_frame_bytes [len_simps]:
  "frame_wf f \<Longrightarrow> length (frame_bytes f) = 96 + length (wf_payload f)"
  by (simp add: frame_bytes_def length_frame_header)

lemma frame_from_code [simp]: "frame_from_u16 (frame_code k) = Inr k"
  by (cases k) (simp_all add: frame_from_u16_def)

lemma frame_from_u16_inv: "frame_from_u16 v = Inr k \<Longrightarrow> v = frame_code k"
  by (auto simp: frame_from_u16_def split: if_splits)

lemma payload_len_u64:
  "length p \<le> MAX_WAL_PAYLOAD_BYTES \<Longrightarrow> unat (of_nat (length p) :: u64) = length p"
  by (simp add: MAX_WAL_PAYLOAD_BYTES_def unat_of_nat)

lemma encode_header_frame:
  "frame_wf f \<Longrightarrow>
   encode_header (wf_type f) (wf_lsn f) (wf_tx f) (wf_payload f) = Inr (frame_header f)"
  by (simp add: encode_header_def frame_header_def frame_wf_def MAX_WAL_PAYLOAD_BYTES_def
      usize_limit_def)

lemma decode_header_frame:
  assumes "frame_wf f"
  shows "decode_header (frame_header f) =
     Inr (wf_type f, wf_lsn f, wf_tx f, of_nat (length (wf_payload f)), sha256 (wf_payload f))"
proof -
  have "unat (of_nat (length (wf_payload f)) :: u64) \<le> MAX_WAL_PAYLOAD_BYTES"
    using assms by (simp add: frame_wf_def payload_len_u64)
  then show ?thesis
    using assms
    by (simp add: decode_header_def frame_header_def frame_wf_def slice_def wal_read_ok
        usize_limit_def)
qed

lemma decode_header_inv:
  assumes "decode_header bs = Inr (ft, lsn, tx, n, h)" and len: "length bs = 96"
  shows "bs = WAL_MAGIC @ u16_le WAL_MAJOR @ u16_le (frame_code ft) @ u32_le 96
     @ u64_le lsn @ tx @ u64_le n @ u64_le 0 @ h @ u64_le 0"
    and "lsn \<noteq> 0" and "length tx = 16" and "unat n \<le> MAX_WAL_PAYLOAD_BYTES" and "length h = 32"
proof -
  note d = assms(1) [unfolded decode_header_def Let_def slice_def]
  have m: "WAL_MAGIC = take 8 bs" and mj: "u16_le WAL_MAJOR = take 2 (drop 8 bs)"
    using d len by (auto simp: wal_read_ok usize_limit_def from_le_eq_iff split: if_splits)
  have k: "frame_from_u16 (from_le (take 2 (drop 10 bs))) = Inr ft"
    using d len by (auto simp: wal_read_ok usize_limit_def rbind_eq_Inr_iff split: if_splits)
  have f: "u32_le 96 = take 4 (drop 12 bs)" "u64_le 0 = take 8 (drop 48 bs)"
      "u64_le 0 = take 8 (drop 88 bs)"
    and l: "lsn = from_le (take 8 (drop 16 bs))" and n: "n = from_le (take 8 (drop 40 bs))"
    and t: "tx = take 16 (drop 24 bs)" and h: "h = take 32 (drop 56 bs)"
    and lz: "lsn \<noteq> 0" and mx: "unat n \<le> MAX_WAL_PAYLOAD_BYTES"
    using d len k
    by (auto simp: wal_read_ok usize_limit_def from_le_eq_iff rbind_eq_Inr_iff split: if_splits)
  have kc: "u16_le (frame_code ft) = take 2 (drop 10 bs)"
    using frame_from_u16_inv [OF k] len by (simp add: from_le_eq_iff)
  show "lsn \<noteq> 0" and "unat n \<le> MAX_WAL_PAYLOAD_BYTES" by (fact lz mx)+
  show "length tx = 16" and "length h = 32" using len by (simp_all add: t h)
  show "bs = WAL_MAGIC @ u16_le WAL_MAJOR @ u16_le (frame_code ft) @ u32_le 96
     @ u64_le lsn @ tx @ u64_le n @ u64_le 0 @ h @ u64_le 0"
    unfolding m mj kc f(1) l t n h
    by (subst f(2), subst f(3)) (use len in \<open>simp add: uN_le_from_le field_join\<close>)
qed

subsection \<open>The scan as a stream of frames\<close>

type_synonym sstate = "bool \<times> nat \<times> u64 \<times> wal_frame list"

definition s_loop :: "sstate \<Rightarrow> bytes \<Rightarrow> wal_error + wal_scan" where
  "s_loop s rest = (case s of (rep, off, prev, fs) \<Rightarrow> scan_frames rep off prev fs rest)"

definition s_ok :: "sstate \<Rightarrow> wal_frame \<Rightarrow> bool" where
  "s_ok s f = (case s of (rep, off, prev, fs) \<Rightarrow>
     frame_wf f \<and> prev < wf_lsn f \<and> off + length (frame_bytes f) < usize_limit)"

definition s_upd :: "sstate \<Rightarrow> wal_frame \<Rightarrow> sstate" where
  "s_upd s f = (case s of (rep, off, prev, fs) \<Rightarrow>
     (rep, off + length (frame_bytes f), wf_lsn f, fs @ [f]))"

definition s_strict :: "sstate \<Rightarrow> bytes \<Rightarrow> bool" where
  "s_strict s rest = (case s of (rep, off, prev, fs) \<Rightarrow> \<not> rep)"

lemma s_simps:
  "s_loop (rep, off, prev, fs) rest = scan_frames rep off prev fs rest"
  "s_ok (rep, off, prev, fs) f \<longleftrightarrow>
     frame_wf f \<and> prev < wf_lsn f \<and> off + length (frame_bytes f) < usize_limit"
  "s_upd (rep, off, prev, fs) f = (rep, off + length (frame_bytes f), wf_lsn f, fs @ [f])"
  "s_strict (rep, off, prev, fs) rest \<longleftrightarrow> \<not> rep"
  by (simp_all add: s_loop_def s_ok_def s_upd_def s_strict_def)

lemma u64_pos_iff: "0 < (w :: u64) \<longleftrightarrow> w \<noteq> 0"
  by (simp add: word_gt_0)

lemma lsn_check: "(prev \<noteq> 0 \<and> lsn \<le> prev) = (\<not> prev < lsn)" if "lsn \<noteq> 0" for prev lsn :: u64
  using that by (cases "prev = 0") (auto simp: not_less u64_pos_iff)

lemma scan_frames_frame:
  assumes wf: "frame_wf f" and mono: "prev < wf_lsn f"
    and off: "off + length (frame_bytes f) < usize_limit"
  shows "scan_frames rep off prev fs (frame_bytes f @ rest) =
     scan_frames rep (off + length (frame_bytes f)) (wf_lsn f) (fs @ [f]) rest"
proof -
  have l: "length (frame_header f) = 96" by (rule length_frame_header [OF wf])
  have pl: "unat (of_nat (length (wf_payload f)) :: u64) = length (wf_payload f)"
    using wf by (simp add: frame_wf_def payload_len_u64)
  have lsn: "\<not> wf_lsn f \<le> prev" using mono by (simp add: not_le)
  have lim: "96 + length (wf_payload f) < usize_limit" "off + (96 + length (wf_payload f)) < usize_limit"
    using off wf by (simp_all add: length_frame_bytes)
  have fr: "\<lparr>wf_type = wf_type f, wf_lsn = wf_lsn f, wf_tx = wf_tx f, wf_payload = wf_payload f\<rparr> = f"
    by simp
  show ?thesis
    by (subst scan_frames.simps)
      (use lsn lim in \<open>simp add: frame_bytes_def l decode_header_frame [OF wf] pl fr Let_def\<close>)
qed

text \<open>What the loop reads from a non-empty rest when it does not fail.\<close>

lemma scan_frames_cases:
  assumes run: "scan_frames rep off prev fs rest = Inr r" and ne: "rest \<noteq> []"
  obtains (torn) "rep" and "r = \<lparr>ws_frames = fs, ws_maximum_lsn = prev,
      ws_repaired_trailing_bytes = length rest, ws_valid_bytes = off\<rparr>"
  | (frame) f rest' where "rest = frame_bytes f @ rest'" and "s_ok (rep, off, prev, fs) f"
proof -
  note v = trans [OF scan_frames.simps [symmetric] run, unfolded Let_def]
  show thesis
  proof (cases "length rest < 96")
    case True
    with v ne have "rep" and "r = \<lparr>ws_frames = fs, ws_maximum_lsn = prev,
      ws_repaired_trailing_bytes = length rest, ws_valid_bytes = off\<rparr>" by (auto split: if_splits)
    then show thesis by (rule torn)
  next
    case False
    then obtain ft lsn tx n h where d: "decode_header (take 96 rest) = Inr (ft, lsn, tx, n, h)"
      using v ne by (auto simp: rbind_eq_Inr_iff)
    have l96: "length (take 96 rest) = 96" using False by simp
    note inv = decode_header_inv [OF d l96]
    have lim: "96 + unat n < usize_limit"
      using inv(4) by (simp add: MAX_WAL_PAYLOAD_BYTES_def usize_limit_def)
    have mono: "prev < lsn" using v ne False d by (auto simp: lsn_check [OF inv(2)] split: if_splits)
    show thesis
    proof (cases "length rest < 96 + unat n")
      case True
      then show thesis using v ne False d mono lim by (intro torn) (auto split: if_splits)
    next
      case short: False
      define f where "f = \<lparr>wf_type = ft, wf_lsn = lsn, wf_tx = tx, wf_payload = take (unat n) (drop 96 rest)\<rparr>"
      have lp: "length (wf_payload f) = unat n" using short by (simp add: f_def)
      have off: "off + (96 + unat n) < usize_limit" and h: "h = sha256 (wf_payload f)"
        using v ne False d mono lim short
        by (auto simp: f_def rbind_eq_Inr_iff checked_add_Some_iff split: if_splits)
      have wf: "frame_wf f" using inv lp by (simp add: frame_wf_def) (simp add: f_def)
      have "rest = take 96 rest @ wf_payload f @ drop (96 + unat n) rest"
        by (simp add: f_def field_join)
      also have "take 96 rest = frame_header f"
        unfolding inv(1) by (simp add: frame_header_def lp h) (simp add: f_def)
      finally have "rest = frame_bytes f @ drop (96 + unat n) rest" by (simp add: frame_bytes_def)
      moreover have "s_ok (rep, off, prev, fs) f"
        using wf mono off lp by (simp add: s_simps length_frame_bytes) (simp add: f_def)
      ultimately show thesis by (rule frame)
    qed
  qed
qed

interpretation wal_stream: strict_frame_stream s_loop frame_bytes s_ok s_upd s_strict
proof unfold_locales
  show "s_ok s f \<Longrightarrow> s_loop s (frame_bytes f @ rest) = s_loop (s_upd s f) rest" for s f rest
    by (cases s) (simp add: s_simps scan_frames_frame)
  show "s_ok s f \<Longrightarrow> frame_bytes f \<noteq> []" for s f
    using length_frame_bytes [of f] by (cases s) (auto simp: s_simps)
  show "s_strict s (frame_bytes f @ rest) \<Longrightarrow> s_ok s f \<Longrightarrow> s_strict (s_upd s f) rest" for s f rest
    by (cases s) (simp add: s_simps)
  show "\<exists>f rest. bs = frame_bytes f @ rest \<and> s_ok s f"
    if "s_strict s bs" "s_loop s bs = Inr r" "bs \<noteq> []" for s bs r
    using that by (cases s) (auto simp: s_simps(1,4) elim!: scan_frames_cases)
qed

subsection \<open>Whole logs\<close>

definition log_bytes :: "wal_frame list \<Rightarrow> bytes" where
  "log_bytes fs = concat (map frame_bytes fs)"

definition final_lsn :: "u64 \<Rightarrow> wal_frame list \<Rightarrow> u64" where
  "final_lsn prev fs = (if fs = [] then prev else wf_lsn (last fs))"

definition log_wf :: "wal_frame list \<Rightarrow> bool" where
  "log_wf fs \<longleftrightarrow> list_all frame_wf fs \<and> sorted_wrt (<) (map wf_lsn fs) \<and>
     length (log_bytes fs) < usize_limit"

definition log_scan :: "wal_frame list \<Rightarrow> nat \<Rightarrow> wal_scan" where
  "log_scan fs torn = \<lparr>ws_frames = fs, ws_maximum_lsn = final_lsn 0 fs,
     ws_repaired_trailing_bytes = torn, ws_valid_bytes = length (log_bytes fs)\<rparr>"

lemma log_bytes_simps [simp]:
  "log_bytes [] = []" "log_bytes (f # fs) = frame_bytes f @ log_bytes fs"
  "log_bytes (fs @ gs) = log_bytes fs @ log_bytes gs"
  by (simp_all add: log_bytes_def)

lemma s_upd_fold:
  "foldl s_upd (rep, off, prev, fs) gs =
     (rep, off + length (log_bytes gs), final_lsn prev gs, fs @ gs)"
  by (induction gs arbitrary: off prev fs) (simp_all add: s_simps final_lsn_def)

lemma s_frames_ok_iff:
  "frames_ok s_ok s_upd (rep, off, prev, fs) gs \<longleftrightarrow>
     gs = [] \<or> list_all frame_wf gs \<and> sorted_wrt (<) (prev # map wf_lsn gs) \<and>
       off + length (log_bytes gs) < usize_limit"
proof (induction gs arbitrary: off prev fs)
  case Nil
  then show ?case by simp
next
  case (Cons g gs)
  show ?case by (auto simp: s_simps Cons.IH)
qed

lemma log_wf_frames_ok: "log_wf fs \<longleftrightarrow> frames_ok s_ok s_upd (rep, 0, 0, []) fs"
  by (cases "fs = []") (auto simp: log_wf_def s_frames_ok_iff frame_wf_def u64_pos_iff list_all_iff)

lemma scan_log:
  assumes "log_wf fs"
  shows "scan_frames rep 0 0 [] (log_bytes fs @ rest) =
     scan_frames rep (length (log_bytes fs)) (final_lsn 0 fs) fs rest"
  using wal_stream.loop_frames [OF assms [unfolded log_wf_frames_ok [of _ rep]], of rest]
  by (simp add: s_upd_fold s_simps flip: log_bytes_def)

lemma scan_frames_Nil:
  "scan_frames rep off prev fs [] = Inr \<lparr>ws_frames = fs, ws_maximum_lsn = prev,
     ws_repaired_trailing_bytes = 0, ws_valid_bytes = off\<rparr>"
  by (subst scan_frames.simps) (simp add: Let_def)

lemma scan_log_complete: "log_wf fs \<Longrightarrow> scan_frames rep 0 0 [] (log_bytes fs) = Inr (log_scan fs 0)"
  using scan_log [of fs rep "[]"] by (simp add: scan_frames_Nil log_scan_def)

subsection \<open>Torn tails\<close>

lemma scan_torn_rest:
  assumes wf: "frame_wf f" and mono: "prev < wf_lsn f" and m: "0 < m" "m < length (frame_bytes f)"
  shows "scan_frames True off prev fs (take m (frame_bytes f)) = Inr \<lparr>ws_frames = fs,
      ws_maximum_lsn = prev, ws_repaired_trailing_bytes = m, ws_valid_bytes = off\<rparr>"
    and "\<exists>e. scan_frames False off prev fs (take m (frame_bytes f)) = Inl e"
proof -
  have l: "length (frame_header f) = 96" by (rule length_frame_header [OF wf])
  have pl: "unat (of_nat (length (wf_payload f)) :: u64) = length (wf_payload f)"
    using wf by (simp add: frame_wf_def payload_len_u64)
  have lim: "96 + length (wf_payload f) < usize_limit"
    using wf by (simp add: frame_wf_def MAX_WAL_PAYLOAD_BYTES_def usize_limit_def)
  have lm: "length (take m (frame_bytes f)) = m" using m by simp
  have short: "m < 96 + length (wf_payload f)" using m wf by (simp add: length_frame_bytes)
  have hd96: "take 96 (take m (frame_bytes f)) = frame_header f" if "96 \<le> m"
    using that l by (simp add: frame_bytes_def min_def)
  have lsn: "\<not> wf_lsn f \<le> prev" using mono by (simp add: not_le)
  show "scan_frames True off prev fs (take m (frame_bytes f)) = Inr \<lparr>ws_frames = fs,
      ws_maximum_lsn = prev, ws_repaired_trailing_bytes = m, ws_valid_bytes = off\<rparr>"
    by (subst scan_frames.simps, unfold lm)
      (use m hd96 lsn lim short in \<open>simp add: Let_def decode_header_frame [OF wf] pl not_less\<close>)
  show "\<exists>e. scan_frames False off prev fs (take m (frame_bytes f)) = Inl e"
    by (subst scan_frames.simps, unfold lm)
      (use m hd96 lsn lim short in \<open>simp add: Let_def decode_header_frame [OF wf] pl not_less\<close>)
qed

text \<open>The frames of a log that are complete in its first \<open>n\<close> bytes.\<close>

fun complete_frames :: "nat \<Rightarrow> wal_frame list \<Rightarrow> wal_frame list" where
  "complete_frames n [] = []"
| "complete_frames n (f # fs) =
     (if length (frame_bytes f) \<le> n
      then f # complete_frames (n - length (frame_bytes f)) fs else [])"

lemma complete_frames_prefix: "\<exists>gs. fs = complete_frames n fs @ gs"
  by (induction n fs rule: complete_frames.induct) auto

lemma complete_frames_all: "length (log_bytes fs) \<le> n \<Longrightarrow> complete_frames n fs = fs"
  by (induction n fs rule: complete_frames.induct) auto

lemma complete_frames_append:
  "complete_frames (length (log_bytes fs) + n) (fs @ gs) = fs @ complete_frames n gs"
  by (induction fs arbitrary: n) (simp_all add: add.assoc)

lemma take_log_bytes:
  obtains "take n (log_bytes fs) = log_bytes (complete_frames n fs)"
  | m f gs where "fs = complete_frames n fs @ f # gs" and "0 < m" and "m < length (frame_bytes f)"
      and "take n (log_bytes fs) = log_bytes (complete_frames n fs) @ take m (frame_bytes f)"
proof (induction n fs arbitrary: thesis rule: complete_frames.induct)
  case (1 n)
  show thesis by (rule 1(1)) simp_all
next
  case (2 n f fs)
  show thesis
  proof (cases "length (frame_bytes f) \<le> n")
    case False
    then show thesis
      by (cases "n = 0") (auto intro: "2.prems"(1) "2.prems"(2) [of f fs n])
  next
    case True
    show thesis
    proof (rule "2.IH" [OF True])
      assume "take (n - length (frame_bytes f)) (log_bytes fs) =
          log_bytes (complete_frames (n - length (frame_bytes f)) fs)"
      with True show thesis by (intro "2.prems"(1)) auto
    next
      fix m g gs
      assume "fs = complete_frames (n - length (frame_bytes f)) fs @ g # gs" "0 < m"
        "m < length (frame_bytes g)"
        "take (n - length (frame_bytes f)) (log_bytes fs) =
          log_bytes (complete_frames (n - length (frame_bytes f)) fs) @ take m (frame_bytes g)"
      with True show thesis by (intro "2.prems"(2) [of g gs m]) auto
    qed
  qed
qed

lemma log_wf_append_left: "log_wf (fs @ gs) \<Longrightarrow> log_wf fs"
  by (simp add: log_wf_def sorted_wrt_append)

lemma log_wf_snoc_lsn: "log_wf (fs @ f # gs) \<Longrightarrow> final_lsn 0 fs < wf_lsn f"
  by (cases fs rule: rev_cases)
    (auto simp: log_wf_def final_lsn_def sorted_wrt_append frame_wf_def u64_pos_iff)

lemma scan_log_prefix:
  assumes wf: "log_wf fs" and n: "n \<le> length (log_bytes fs)"
  shows "scan_frames True 0 0 [] (take n (log_bytes fs)) =
     Inr (log_scan (complete_frames n fs) (n - length (log_bytes (complete_frames n fs))))"
proof (rule take_log_bytes [of n fs])
  obtain gs where "fs = complete_frames n fs @ gs" using complete_frames_prefix by blast
  then have wc: "log_wf (complete_frames n fs)" using wf log_wf_append_left by metis
  {
    assume t: "take n (log_bytes fs) = log_bytes (complete_frames n fs)"
    then have "length (log_bytes (complete_frames n fs)) = n" using n by (metis length_take min.absorb2)
    then show ?thesis using scan_log_complete [OF wc] t by simp
  next
    fix m f gs
    assume fs: "fs = complete_frames n fs @ f # gs" and m: "0 < m" "m < length (frame_bytes f)"
      and t: "take n (log_bytes fs) = log_bytes (complete_frames n fs) @ take m (frame_bytes f)"
    have "length (take n (log_bytes fs)) = n" using n by simp
    then have nm: "n = length (log_bytes (complete_frames n fs)) + m"
      using t m by simp
    have w: "log_wf (complete_frames n fs @ f # gs)" using wf fs by metis
    then have "final_lsn 0 (complete_frames n fs) < wf_lsn f" by (rule log_wf_snoc_lsn)
    moreover have "frame_wf f" using w by (simp add: log_wf_def)
    ultimately show ?thesis
      using scan_log [OF wc, of True "take m (frame_bytes f)"] m nm t
      by (simp add: scan_torn_rest(1) log_scan_def)
  }
qed

subsection \<open>The scan and the writer on the file system\<close>

lemma scan_wal_missing: "\<not> fs_exists fs p \<Longrightarrow> scan_wal p rep fs = (Inr empty_scan, fs)"
  by (simp add: scan_wal_def)

lemma scan_wal_file:
  assumes "fget fs p = Some bs"
  shows "scan_wal p rep fs =
     (case scan_frames rep 0 0 [] bs of
        Inl e \<Rightarrow> (Inl e, fs)
      | Inr scan \<Rightarrow> (Inr scan,
          if ws_repaired_trailing_bytes scan \<noteq> 0
          then fput p (take (ws_valid_bytes scan) bs @ replicate (ws_valid_bytes scan - length bs) 0) fs
          else fs))"
  using assms by (auto simp: scan_wal_def fs_exists_def io_bind_def io_query_def fs_read_def io_pure_def
      io_map_err_def set_len_def io_ret_def split: sum.splits)

lemma scan_wal_prefix:
  assumes wf: "log_wf frames" and n: "n \<le> length (log_bytes frames)"
    and f: "fget fs p = Some (take n (log_bytes frames))"
  shows "\<exists>fs'. scan_wal p True fs =
       (Inr (log_scan (complete_frames n frames)
          (n - length (log_bytes (complete_frames n frames)))), fs') \<and>
     fs_installs p (log_bytes (complete_frames n frames)) fs fs'"
proof -
  let ?c = "complete_frames n frames"
  obtain gs where gs: "frames = ?c @ gs" using complete_frames_prefix by blast
  have le: "length (log_bytes ?c) \<le> n"
    by (induction n frames rule: complete_frames.induct) auto
  have "take (length (log_bytes ?c)) (log_bytes frames) = log_bytes ?c"
    by (subst gs) simp
  then have t: "take (length (log_bytes ?c)) (take n (log_bytes frames)) = log_bytes ?c"
    using le by (simp add: min_def)
  show ?thesis
    using f t n le scan_wal_file [OF f, of True]
    by (auto simp: scan_log_prefix [OF wf n] log_scan_def fs_installs_def fun_eq_iff)
qed

lemma next_lsn_after_inc: "m \<noteq> - 1 \<Longrightarrow> next_lsn_after m = m + 1"
  by (simp add: next_lsn_after_def max_def word_le_nat_alt u64_inc(1) unat_0_iff)

lemma next_lsn_after_gt: "m \<noteq> - 1 \<Longrightarrow> m < next_lsn_after m"
  by (simp add: next_lsn_after_inc u64_inc)

lemma wal_open_ok:
  assumes wf: "log_wf frames" and n: "n \<le> length (log_bytes frames)"
    and f: "fget fs p = Some (take n (log_bytes frames))" and d: "butlast p \<in> fs_dirs fs"
  shows "\<exists>fs'. wal_open p True fs = (Inr \<lparr>ww_path = p,
       ww_next_lsn = next_lsn_after (final_lsn 0 (complete_frames n frames))\<rparr>, fs') \<and>
     fs_installs p (log_bytes (complete_frames n frames)) fs fs'"
proof -
  let ?c = "complete_frames n frames"
  obtain fs' where s: "scan_wal p True fs = (Inr (log_scan ?c (n - length (log_bytes ?c))), fs')"
    and i: "fs_installs p (log_bytes ?c) fs fs'"
    using scan_wal_prefix [OF wf n f] by blast
  have "fget fs' p = Some (log_bytes ?c)" using i by (simp add: fs_installs_def)
  then have "open_append p fs' = (Inr (), fs')" by (simp add: open_append_def)
  moreover have "(case path_parent p of None \<Rightarrow> io_ret ()
     | Some parent \<Rightarrow> io_map_err Wal_Io (create_dir_all parent)) fs = (Inr (), fs)"
    using d by (simp add: path_parent_def io_ret_def io_map_err_def create_dir_all_def)
  ultimately have "wal_open p True fs = (Inr \<lparr>ww_path = p,
       ww_next_lsn = next_lsn_after (final_lsn 0 ?c)\<rparr>, fs')"
    using s by (simp add: wal_open_def io_map_err_def io_ret_def log_scan_def)
  with i show ?thesis by blast
qed

text \<open>The writer sits at the end of a well-formed log.\<close>

definition wal_at :: "wal_writer \<Rightarrow> wal_frame list \<Rightarrow> fsys \<Rightarrow> bool" where
  "wal_at w frames fs \<longleftrightarrow> fget fs (ww_path w) = Some (log_bytes frames) \<and> log_wf frames \<and>
     final_lsn 0 frames < ww_next_lsn w"

lemma log_wf_snoc:
  assumes "log_wf fs" and "frame_wf f" and "final_lsn 0 fs < wf_lsn f"
    and "length (log_bytes fs) + length (frame_bytes f) < usize_limit"
  shows "log_wf (fs @ [f])"
proof -
  have "wf_lsn g < wf_lsn f" if "g \<in> set fs" for g
  proof -
    from that obtain xs y where fs: "fs = xs @ [y]" by (metis rev_exhaust empty_iff empty_set)
    then have "wf_lsn g \<le> wf_lsn y"
      using that assms(1) by (auto simp: log_wf_def sorted_wrt_append)
    moreover have "wf_lsn y < wf_lsn f" using assms(3) fs by (simp add: final_lsn_def)
    ultimately show ?thesis by (rule le_less_trans)
  qed
  then show ?thesis using assms by (simp add: log_wf_def sorted_wrt_append)
qed

definition next_frame :: "wal_writer \<Rightarrow> frame_type \<Rightarrow> bytes \<Rightarrow> bytes \<Rightarrow> wal_frame" where
  "next_frame w ft tx payload =
     \<lparr>wf_type = ft, wf_lsn = ww_next_lsn w, wf_tx = tx, wf_payload = payload\<rparr>"

lemma wal_append_ok:
  assumes at: "wal_at w frames fs" and tx: "length tx = 16"
    and pl: "length payload \<le> MAX_WAL_PAYLOAD_BYTES"
    and room: "length (log_bytes frames) + 96 + length payload < usize_limit"
    and lsn: "ww_next_lsn w \<noteq> - 1"
  shows "\<exists>fs'. wal_append w ft tx payload fs =
       (Inr (ww_next_lsn w, w\<lparr>ww_next_lsn := ww_next_lsn w + 1\<rparr>), fs') \<and>
     fs_installs (ww_path w) (log_bytes (frames @ [next_frame w ft tx payload])) fs fs' \<and>
     wal_at (w\<lparr>ww_next_lsn := ww_next_lsn w + 1\<rparr>) (frames @ [next_frame w ft tx payload]) fs'"
proof -
  let ?f = "next_frame w ft tx payload"
  have l0: "ww_next_lsn w \<noteq> 0" using at by (auto simp: wal_at_def)
  have wf: "frame_wf ?f" using tx pl l0 by (simp add: frame_wf_def next_frame_def)
  have e: "encode_header ft (ww_next_lsn w) tx payload = Inr (frame_header ?f)"
    using encode_header_frame [OF wf] by (simp add: next_frame_def)
  have g: "fget fs (ww_path w) = Some (log_bytes frames)" using at by (simp add: wal_at_def)
  let ?fs1 = "fput (ww_path w) (log_bytes frames @ frame_header ?f) fs"
  let ?fs2 = "fput (ww_path w) (log_bytes frames @ frame_bytes ?f) ?fs1"
  have "wal_append w ft tx payload fs = (Inr (ww_next_lsn w, w\<lparr>ww_next_lsn := ww_next_lsn w + 1\<rparr>), ?fs2)"
    using lsn g by (simp add: wal_append_def Let_def e io_bind_def io_pure_def io_map_err_def write_all_def
       io_ret_def) (simp add: frame_bytes_def next_frame_def)
  moreover have i: "fs_installs (ww_path w) (log_bytes (frames @ [?f])) fs ?fs2"
    by (auto simp: fs_installs_def fun_eq_iff)
  moreover have "log_wf (frames @ [?f])"
    using at wf room by (intro log_wf_snoc) (auto simp: wal_at_def length_frame_bytes, simp_all add: next_frame_def)
  then have "wal_at (w\<lparr>ww_next_lsn := ww_next_lsn w + 1\<rparr>) (frames @ [?f]) ?fs2"
    using i u64_inc(2) [OF lsn] by (simp add: wal_at_def final_lsn_def next_frame_def)
  ultimately show ?thesis by blast
qed

subsection \<open>Properties\<close>

lemma scan_sound:
  assumes "scan_frames rep off prev fs bs = Inr r"
  shows "\<exists>gs tail. bs = log_bytes gs @ tail \<and> frames_ok s_ok s_upd (rep, off, prev, fs) gs \<and>
     r = \<lparr>ws_frames = fs @ gs, ws_maximum_lsn = final_lsn prev gs,
          ws_repaired_trailing_bytes = length tail, ws_valid_bytes = off + length (log_bytes gs)\<rparr> \<and>
     (tail \<noteq> [] \<longrightarrow> rep)"
  using assms
proof (induction bs arbitrary: off prev fs rule: length_induct)
  case (1 bs)
  show ?case
  proof (cases "bs = []")
    case True
    with 1 show ?thesis by (intro exI [of _ "[]"]) (simp add: scan_frames_Nil final_lsn_def)
  next
    case False
    from 1(2) False show ?thesis
    proof (cases rule: scan_frames_cases)
      case torn
      then show ?thesis by (intro exI [of _ "[]"] exI [of _ bs]) (simp add: final_lsn_def)
    next
      case (frame f rest')
      then have "length rest' < length bs"
        using length_frame_bytes [of f] by (simp add: s_simps)
      moreover have "scan_frames rep (off + length (frame_bytes f)) (wf_lsn f) (fs @ [f]) rest' = Inr r"
        using 1(2) frame by (simp add: scan_frames_frame s_simps)
      ultimately obtain gs tail where "rest' = log_bytes gs @ tail"
        "frames_ok s_ok s_upd (rep, off + length (frame_bytes f), wf_lsn f, fs @ [f]) gs"
        "r = \<lparr>ws_frames = (fs @ [f]) @ gs, ws_maximum_lsn = final_lsn (wf_lsn f) gs,
          ws_repaired_trailing_bytes = length tail,
          ws_valid_bytes = off + length (frame_bytes f) + length (log_bytes gs)\<rparr>"
        "tail \<noteq> [] \<longrightarrow> rep"
        using 1(1) by blast
      with frame show ?thesis
        by (intro exI [of _ "f # gs"] exI [of _ tail]) (auto simp: final_lsn_def s_simps(3))
    qed
  qed
qed

text \<open>
  C20. Scanning without repair accepts exactly the well-formed logs: a log file is accepted
  if and only if it is a concatenation of frames with 16-byte transaction ids, payloads of
  at most 64 MiB with matching digests and strictly increasing non-zero sequence numbers,
  and the scan returns those frames.
\<close>

theorem scan_wal_exact:
  "scan_frames False 0 0 [] bs = Inr r \<longleftrightarrow>
     (\<exists>frames. bs = log_bytes frames \<and> log_wf frames \<and> r = log_scan frames 0)"
proof
  assume "scan_frames False 0 0 [] bs = Inr r"
  from scan_sound [OF this] show "\<exists>frames. bs = log_bytes frames \<and> log_wf frames \<and> r = log_scan frames 0"
    by (auto simp: log_wf_frames_ok [of _ False] log_scan_def)
qed (auto simp: scan_log_complete)

text \<open>
  C12. A crash can cut the log at any byte. Opening any prefix of a well-formed log with
  repair returns exactly the frames that are complete in the prefix, truncates the file to
  them and changes no other file.
\<close>

theorem scan_repairs_any_prefix:
  assumes "log_wf frames" and "n \<le> length (log_bytes frames)"
    and "fget fs p = Some (take n (log_bytes frames))"
  shows "\<exists>fs'. scan_wal p True fs =
       (Inr (log_scan (complete_frames n frames)
          (n - length (log_bytes (complete_frames n frames)))), fs') \<and>
     fget fs' = (fget fs)(p \<mapsto> log_bytes (complete_frames n frames))"
  using scan_wal_prefix [OF assms] by (auto simp: fs_installs_def)

definition demo_frame :: "u64 \<Rightarrow> wal_frame" where
  "demo_frame lsn = \<lparr>wf_type = Begin, wf_lsn = lsn, wf_tx = replicate 16 7, wf_payload = lit ''xy''\<rparr>"

lemma demo_log_wf: "log_wf [demo_frame 1, demo_frame 2]"
proof -
  have "frame_wf (demo_frame 1)" "frame_wf (demo_frame 2)"
    by (simp_all add: frame_wf_def demo_frame_def MAX_WAL_PAYLOAD_BYTES_def)
  then show ?thesis
    by (simp add: log_wf_def length_frame_bytes) (simp add: demo_frame_def usize_limit_def)
qed

theorem scan_repairs_any_prefix_witness:
  "\<exists>fs'. scan_wal [lit ''w''] True (fput [lit ''w''] (take 100 (log_bytes [demo_frame 1, demo_frame 2])) demo_fs) =
     (Inr (log_scan [demo_frame 1] 2), fs')"
proof -
  have w: "frame_wf (demo_frame 1)" "frame_wf (demo_frame 2)" using demo_log_wf by (simp_all add: log_wf_def)
  then have l: "length (frame_bytes (demo_frame 1)) = 98" "length (frame_bytes (demo_frame 2)) = 98"
    by (simp_all add: length_frame_bytes) (simp_all add: demo_frame_def)
  then show ?thesis
    using scan_repairs_any_prefix [OF demo_log_wf, of 100
        "fput [lit ''w''] (take 100 (log_bytes [demo_frame 1, demo_frame 2])) demo_fs" "[lit ''w'']"]
    by auto
qed

text \<open>
  Repair invents nothing: for any bytes on which the repairing scan succeeds, the
  frames it returns form a well-formed log that is a literal prefix of the file, the rest
  is what it reports as torn, and a strict scan of the prefix returns the same frames.
\<close>

theorem scan_repair_sound:
  assumes "scan_frames True 0 0 [] bs = Inr r"
  shows "log_wf (ws_frames r) \<and>
     (\<exists>tail. bs = log_bytes (ws_frames r) @ tail \<and> length tail = ws_repaired_trailing_bytes r \<and>
        take (ws_valid_bytes r) bs = log_bytes (ws_frames r)) \<and>
     scan_frames False 0 0 [] (take (ws_valid_bytes r) bs) = Inr (log_scan (ws_frames r) 0)"
  using scan_sound [OF assms]
  by (auto simp: log_wf_frames_ok [of _ True, symmetric] scan_log_complete)

theorem scan_repair_sound_witness:
  "log_wf (ws_frames (log_scan [demo_frame 1, demo_frame 2] 0))"
  using scan_repair_sound [OF scan_log_complete [OF demo_log_wf, of True]] by blast

text \<open>
  An append by a writer at the end of a well-formed log adds one frame with a sequence
  number above all earlier ones; the next scan, without repair, returns the old frames and
  then the new one, and the writer is again at the end of the log.
\<close>

theorem append_then_scan:
  assumes "wal_at w frames fs" and "length tx = 16" and "length payload \<le> MAX_WAL_PAYLOAD_BYTES"
    and "length (log_bytes frames) + 96 + length payload < usize_limit"
    and "ww_next_lsn w \<noteq> - 1"
  shows "\<exists>w' fs'. wal_append w ft tx payload fs = (Inr (ww_next_lsn w, w'), fs') \<and>
     wal_at w' (frames @ [next_frame w ft tx payload]) fs' \<and>
     fst (scan_wal (ww_path w) False fs') = Inr (log_scan (frames @ [next_frame w ft tx payload]) 0) \<and>
     (\<forall>f \<in> set frames. wf_lsn f < ww_next_lsn w)"
proof -
  let ?w = "w\<lparr>ww_next_lsn := ww_next_lsn w + 1\<rparr>" and ?fr = "frames @ [next_frame w ft tx payload]"
  obtain fs' where a: "wal_append w ft tx payload fs = (Inr (ww_next_lsn w, ?w), fs')"
    and at: "wal_at ?w ?fr fs'"
    using wal_append_ok [OF assms] by blast
  have "\<forall>f \<in> set frames. wf_lsn f < ww_next_lsn w"
    using at by (auto simp: wal_at_def log_wf_def sorted_wrt_append next_frame_def)
  moreover have "fst (scan_wal (ww_path w) False fs') = Inr (log_scan ?fr 0)"
    using at scan_log_complete [of ?fr False] by (simp add: wal_at_def scan_wal_file log_scan_def)
  ultimately show ?thesis using a at by blast
qed

theorem append_then_scan_witness:
  "\<exists>w' fs'. wal_append \<lparr>ww_path = [lit ''w''], ww_next_lsn = 1\<rparr> Begin (replicate 16 7) (lit ''xy'')
      (fput [lit ''w''] [] demo_fs) = (Inr (1, w'), fs') \<and>
     fst (scan_wal [lit ''w''] False fs') = Inr (log_scan [demo_frame 1] 0)"
  using append_then_scan [of "\<lparr>ww_path = [lit ''w''], ww_next_lsn = 1\<rparr>" "[]"
      "fput [lit ''w''] [] demo_fs" "replicate 16 7" "lit ''xy''" Begin]
  by (auto simp: wal_at_def log_wf_def final_lsn_def MAX_WAL_PAYLOAD_BYTES_def usize_limit_def
      next_frame_def demo_frame_def)

text \<open>A frame header that states some digest for its payload.\<close>

definition header_stating :: "wal_frame \<Rightarrow> bytes \<Rightarrow> bytes" where
  "header_stating f d = WAL_MAGIC @ u16_le WAL_MAJOR @ u16_le (frame_code (wf_type f)) @ u32_le 96
     @ u64_le (wf_lsn f) @ wf_tx f @ u64_le (of_nat (length (wf_payload f))) @ u64_le 0
     @ d @ u64_le 0"

lemma decode_header_stating:
  assumes "frame_wf f" and "length d = 32"
  shows "decode_header (header_stating f d) =
     Inr (wf_type f, wf_lsn f, wf_tx f, of_nat (length (wf_payload f)), d)"
    and "length (header_stating f d) = 96"
proof -
  have "unat (of_nat (length (wf_payload f)) :: u64) \<le> MAX_WAL_PAYLOAD_BYTES"
    using assms by (simp add: frame_wf_def payload_len_u64)
  then show "decode_header (header_stating f d) =
     Inr (wf_type f, wf_lsn f, wf_tx f, of_nat (length (wf_payload f)), d)"
    using assms
    by (simp add: decode_header_def header_stating_def frame_wf_def slice_def wal_read_ok
        usize_limit_def)
qed (use assms in \<open>simp add: header_stating_def frame_wf_def\<close>)

text \<open>
  Corruption of a complete frame is not mistaken for a torn tail: if after a
  well-formed log there is a complete frame whose payload does not have the digest that its
  header states, the scan fails with an integrity error, also when repair is allowed, and
  the file is left as it is.
\<close>

theorem corrupt_frame_rejected:
  assumes "log_wf frames" and "frame_wf f" and "final_lsn 0 frames < wf_lsn f"
    and "length d = 32" and "d \<noteq> sha256 (wf_payload f)"
    and "fget fs p = Some (log_bytes frames @ header_stating f d @ wf_payload f @ rest)"
  shows "\<exists>context. scan_wal p rep fs =
     (Inl (Wal_Integrity context d (sha256 (wf_payload f))), fs)"
proof -
  have pl: "unat (of_nat (length (wf_payload f)) :: u64) = length (wf_payload f)"
    using assms(2) by (simp add: frame_wf_def payload_len_u64)
  have lim: "96 + length (wf_payload f) < usize_limit"
    using assms(2) by (simp add: frame_wf_def MAX_WAL_PAYLOAD_BYTES_def usize_limit_def)
  have lsn: "\<not> wf_lsn f \<le> final_lsn 0 frames" using assms(3) by (simp add: not_le)
  have "\<exists>c. scan_frames rep off (final_lsn 0 frames) frames (header_stating f d @ wf_payload f @ rest) =
     Inl (Wal_Integrity c d (sha256 (wf_payload f)))" for off
    by (subst scan_frames.simps) (use assms(5) [symmetric] lsn lim in
      \<open>simp add: decode_header_stating [OF assms(2,4)] pl Let_def\<close>)
  then obtain c where "scan_frames rep 0 0 [] (log_bytes frames @ header_stating f d @ wf_payload f @ rest) =
     Inl (Wal_Integrity c d (sha256 (wf_payload f)))"
    using scan_log [OF assms(1), of rep "header_stating f d @ wf_payload f @ rest"] by metis
  then show ?thesis by (simp add: scan_wal_file [OF assms(6)])
qed

theorem corrupt_frame_rejected_witness:
  "\<exists>context. scan_wal [lit ''w''] True (fput [lit ''w'']
       (header_stating (demo_frame 1) (map (\<lambda>b. b + 1) (sha256 (lit ''xy''))) @ lit ''xy'') demo_fs) =
     (Inl (Wal_Integrity context (map (\<lambda>b. b + 1) (sha256 (lit ''xy''))) (sha256 (lit ''xy''))),
      fput [lit ''w''] (header_stating (demo_frame 1)
        (map (\<lambda>b. b + 1) (sha256 (lit ''xy''))) @ lit ''xy'') demo_fs)"
proof -
  have "map (\<lambda>b :: u8. b + 1) ds \<noteq> ds" if "ds \<noteq> []" for ds
    using that by (cases ds) auto
  moreover have "sha256 (lit ''xy'') \<noteq> []" by (metis length_sha256 list.size(3) zero_neq_numeral)
  ultimately show ?thesis
    using corrupt_frame_rejected [of "[]" "demo_frame 1" "map (\<lambda>b. b + 1) (sha256 (lit ''xy''))"
        "fput [lit ''w''] (header_stating (demo_frame 1) (map (\<lambda>b. b + 1) (sha256 (lit ''xy''))) @ lit ''xy'') demo_fs"
        "[lit ''w'']" "[]" True]
    by (simp add: log_wf_def final_lsn_def frame_wf_def demo_frame_def MAX_WAL_PAYLOAD_BYTES_def)
qed

end
