(* ===== verification/Ub_Transaction.thy ===== *)
theory Ub_Transaction
  imports Ub_Segment
begin

text \<open>
  Write batches and the single-writer transaction core of
  \<open>ultraballoondb-lifecycle/src/lib.rs\<close>. A batch collects validated entries and refuses a
  second, different operation on the same logical id or the same record or edge; the core
  is a state machine around one batch. An operation that fails leaves the batch or the core
  as it was, so a result carries the new state only when the operation succeeds.
\<close>

subsection \<open>Types\<close>

datatype tx_state = Active | Prepared | ShadowMaterialized | DurableCommitted | Aborted

fun is_terminal :: "tx_state \<Rightarrow> bool" where
  "is_terminal ShadowMaterialized = True"
| "is_terminal DurableCommitted = True"
| "is_terminal Aborted = True"
| "is_terminal Active = False"
| "is_terminal Prepared = False"

type_synonym tx_id = bytes

datatype transaction_error =
    Tx_Storage storage_error
  | Tx_InvalidState str tx_state
  | Tx_WriterAlreadyActive tx_id
  | Tx_NoActiveTransaction
  | Tx_TransactionIdMismatch tx_id tx_id
  | Tx_Conflict str
  | Tx_LimitExceeded str nat nat
  | Tx_InvalidInput str
  | Tx_Integrity str

record batch_limits =
  bl_max_operations :: nat
  bl_max_payload_bytes :: nat

definition default_limits :: batch_limits where
  "default_limits = \<lparr>bl_max_operations = 100000, bl_max_payload_bytes = 268435456\<rparr>"

datatype add_outcome = Added | DuplicateIgnored

text \<open>\<open>DomainKey\<close> with its derived order: records before edges, fields from left to right.\<close>

datatype domain_key =
    RecordKey str
  | EdgeDomainKey u64 u64 u32 u64

fun domain_key_code :: "domain_key \<Rightarrow> nat list" where
  "domain_key_code (RecordKey s) = 0 # map unat s"
| "domain_key_code (EdgeDomainKey src dst t w) = [1, unat src, unat dst, unat t, unat w]"

lemma inj_map_unat: "map unat a = map unat b \<Longrightarrow> a = (b :: bytes)"
  by (metis inj_map_eq_map inj_onI word_unat_eq_iff)

lemma domain_key_code_inject: "domain_key_code a = domain_key_code b \<Longrightarrow> a = b"
  by (cases a; cases b) (auto dest: inj_map_unat simp: word_unat_eq_iff)

instantiation domain_key :: linorder
begin

definition less_eq_domain_key :: "domain_key \<Rightarrow> domain_key \<Rightarrow> bool" where
  "less_eq_domain_key a b \<longleftrightarrow> domain_key_code a \<le> domain_key_code b"

definition less_domain_key :: "domain_key \<Rightarrow> domain_key \<Rightarrow> bool" where
  "less_domain_key a b \<longleftrightarrow> domain_key_code a < domain_key_code b"

instance
  by standard (auto simp: less_eq_domain_key_def less_domain_key_def dest: domain_key_code_inject)

end

subsection \<open>Fingerprints and digests\<close>

definition BATCH_DIGEST_MAGIC :: bytes where
  "BATCH_DIGEST_MAGIC = lit ''UBTXB01'' @ [0]"

text \<open>The bytes of an entry that digests and checkpoints absorb.\<close>

definition entry_preimage :: "segment_entry \<Rightarrow> bytes" where
  "entry_preimage e =
     u16_le (kind_code (se_kind e)) @ u16_le 0 @ u64_le (se_logical_id e)
     @ u64_le (of_nat (length (se_payload e))) @ sha256 (se_payload e) @ se_payload e"

definition operation_fingerprint :: "segment_entry \<Rightarrow> bytes" where
  "operation_fingerprint e = sha256 (entry_preimage e)"

definition batch_digest :: "tx_id \<Rightarrow> segment_entry list \<Rightarrow> nat \<Rightarrow> bytes" where
  "batch_digest transaction_id entries total_payload_bytes =
     sha256 (BATCH_DIGEST_MAGIC @ transaction_id @ u64_le (of_nat (length entries))
             @ u64_le (of_nat total_payload_bytes) @ concat (map entry_preimage entries))"

definition canonical_weight :: "f64 \<Rightarrow> transaction_error + f64" where
  "canonical_weight weight =
     (if \<not> f64_is_finite weight
      then Inl (Tx_InvalidInput (lit ''typed edge weight must be finite''))
      else Inr (f64_canonical weight))"

subsection \<open>Write batches\<close>

record prepared_batch =
  pb_transaction_id :: tx_id
  pb_entries :: "segment_entry list"
  pb_batch_digest :: bytes
  pb_total_payload_bytes :: nat

record write_batch =
  wb_entries :: "segment_entry list"
  wb_logical_fingerprints :: "(u64, bytes) btree"
  wb_domain_fingerprints :: "(domain_key, bytes) btree"
  wb_total_payload_bytes :: nat
  wb_limits :: batch_limits

definition batch_new :: "batch_limits \<Rightarrow> write_batch" where
  "batch_new limits = \<lparr>wb_entries = [], wb_logical_fingerprints = [], wb_domain_fingerprints = [],
     wb_total_payload_bytes = 0, wb_limits = limits\<rparr>"

definition add_entry ::
  "write_batch \<Rightarrow> domain_key \<Rightarrow> segment_entry \<Rightarrow> transaction_error + (add_outcome \<times> write_batch)" where
  "add_entry b domain_key entry =
     (let fingerprint = operation_fingerprint entry in
      case bt_get (wb_logical_fingerprints b) (se_logical_id entry) of
        Some existing \<Rightarrow>
          if existing = fingerprint then Inr (DuplicateIgnored, b)
          else Inl (Tx_Conflict (lit ''logical_id '' @ dec_bytes (unat (se_logical_id entry))
                 @ lit '' already belongs to a different operation''))
      | None \<Rightarrow>
          (case bt_get (wb_domain_fingerprints b) domain_key of
             Some existing \<Rightarrow>
               if existing = fingerprint then Inr (DuplicateIgnored, b)
               else Inl (Tx_Conflict (lit ''domain key already has a different operation''))
           | None \<Rightarrow>
               let max_ops = bl_max_operations (wb_limits b);
                   max_bytes = bl_max_payload_bytes (wb_limits b) in
               rbind (ok_or (Tx_LimitExceeded (lit ''max_operations'') max_ops (usize_limit - 1))
                        (checked_add (length (wb_entries b)) 1)) (\<lambda>attempted_operations.
               if max_ops < attempted_operations
               then Inl (Tx_LimitExceeded (lit ''max_operations'') max_ops attempted_operations)
               else
                 rbind (ok_or (Tx_LimitExceeded (lit ''max_payload_bytes'') max_bytes (usize_limit - 1))
                          (checked_add (wb_total_payload_bytes b) (length (se_payload entry))))
                   (\<lambda>attempted_payload.
                 if max_bytes < attempted_payload
                 then Inl (Tx_LimitExceeded (lit ''max_payload_bytes'') max_bytes attempted_payload)
                 else Inr (Added, b\<lparr>
                   wb_logical_fingerprints :=
                     bt_insert (se_logical_id entry) fingerprint (wb_logical_fingerprints b),
                   wb_domain_fingerprints :=
                     bt_insert domain_key fingerprint (wb_domain_fingerprints b),
                   wb_total_payload_bytes := attempted_payload,
                   wb_entries := wb_entries b @ [entry]\<rparr>)))))"

definition batch_put_record ::
  "write_batch \<Rightarrow> u64 \<Rightarrow> str \<Rightarrow> u64 \<Rightarrow> bytes \<Rightarrow> transaction_error + (add_outcome \<times> write_batch)" where
  "batch_put_record b logical_id record_id node_id user_payload =
     rbind (map_err Tx_Storage (entry_record logical_id record_id node_id user_payload)) (\<lambda>entry.
     add_entry b (RecordKey record_id) entry)"

definition tombstone_payload :: "str \<Rightarrow> bytes" where
  "tombstone_payload record_id = u32_le (of_nat (length record_id)) @ u32_le 0 @ record_id"

definition batch_delete_record ::
  "write_batch \<Rightarrow> u64 \<Rightarrow> str \<Rightarrow> transaction_error + (add_outcome \<times> write_batch)" where
  "batch_delete_record b logical_id record_id =
     (if record_id = [] then Inl (Tx_InvalidInput (lit ''record_id cannot be empty''))
      else if 2 ^ 32 \<le> length record_id then Inl (Tx_InvalidInput (lit ''record_id too long''))
      else
        rbind (map_err Tx_Storage (entry_new RecordTombstone logical_id
                 (tombstone_payload record_id))) (\<lambda>entry.
        add_entry b (RecordKey record_id) entry))"

definition batch_put_edge ::
  "write_batch \<Rightarrow> u64 \<Rightarrow> u64 \<Rightarrow> u64 \<Rightarrow> u32 \<Rightarrow> f64 \<Rightarrow>
   transaction_error + (add_outcome \<times> write_batch)" where
  "batch_put_edge b logical_id src dst edge_type weight =
     rbind (canonical_weight weight) (\<lambda>canonical.
     rbind (map_err Tx_Storage (entry_typed_edge logical_id src dst edge_type canonical)) (\<lambda>entry.
     add_entry b (EdgeDomainKey src dst edge_type canonical) entry))"

definition batch_delete_edge ::
  "write_batch \<Rightarrow> u64 \<Rightarrow> u64 \<Rightarrow> u64 \<Rightarrow> u32 \<Rightarrow> f64 \<Rightarrow>
   transaction_error + (add_outcome \<times> write_batch)" where
  "batch_delete_edge b logical_id src dst edge_type weight =
     rbind (canonical_weight weight) (\<lambda>canonical.
     rbind (map_err Tx_Storage (entry_new EdgeTombstone logical_id
              (edge_payload src dst edge_type canonical))) (\<lambda>entry.
     add_entry b (EdgeDomainKey src dst edge_type canonical) entry))"

definition batch_prepare :: "write_batch \<Rightarrow> tx_id \<Rightarrow> prepared_batch" where
  "batch_prepare b transaction_id =
     \<lparr>pb_transaction_id = transaction_id, pb_entries = wb_entries b,
      pb_batch_digest = batch_digest transaction_id (wb_entries b) (wb_total_payload_bytes b),
      pb_total_payload_bytes = wb_total_payload_bytes b\<rparr>"

subsection \<open>The transaction core\<close>

record active_transaction =
  at_transaction_id :: tx_id
  at_state :: tx_state
  at_batch :: write_batch
  at_prepared :: "prepared_batch option"

record transaction_core =
  tc_limits :: batch_limits
  tc_active :: "active_transaction option"

record shadow_receipt =
  sr_transaction_id :: tx_id
  sr_batch_digest :: bytes
  sr_operation_count :: nat
  sr_total_payload_bytes :: nat
  sr_generation :: u64
  sr_sequence :: u64
  sr_segment_path :: path
  sr_segment_file_sha256 :: bytes
  sr_segment_payload_sha256 :: bytes
  sr_durable_commit :: bool
  sr_wal_recorded :: bool
  sr_head_published :: bool
  sr_active_runtime_changed :: bool

definition core_new :: "batch_limits \<Rightarrow> transaction_core" where
  "core_new limits = \<lparr>tc_limits = limits, tc_active = None\<rparr>"

definition active_transaction_id :: "transaction_core \<Rightarrow> tx_id option" where
  "active_transaction_id c = map_option at_transaction_id (tc_active c)"

definition active_state :: "transaction_core \<Rightarrow> tx_state option" where
  "active_state c = map_option at_state (tc_active c)"

definition core_begin :: "transaction_core \<Rightarrow> tx_id \<Rightarrow> transaction_error + transaction_core" where
  "core_begin c transaction_id =
     (case tc_active c of
        Some active \<Rightarrow> Inl (Tx_WriterAlreadyActive (at_transaction_id active))
      | None \<Rightarrow> Inr (c\<lparr>tc_active := Some \<lparr>at_transaction_id = transaction_id, at_state = Active,
                        at_batch = batch_new (tc_limits c), at_prepared = None\<rparr>\<rparr>))"

text \<open>
  \<open>active_batch_mut\<close>, followed by an operation on the batch it gives out.
\<close>

definition with_active_batch ::
  "str \<Rightarrow> transaction_core \<Rightarrow> (write_batch \<Rightarrow> transaction_error + (add_outcome \<times> write_batch)) \<Rightarrow>
   transaction_error + (add_outcome \<times> transaction_core)" where
  "with_active_batch operation c f =
     rbind (ok_or Tx_NoActiveTransaction (tc_active c)) (\<lambda>active.
     if at_state active \<noteq> Active then Inl (Tx_InvalidState operation (at_state active))
     else rbind (f (at_batch active)) (\<lambda>(outcome, b).
          Inr (outcome, c\<lparr>tc_active := Some (active\<lparr>at_batch := b\<rparr>)\<rparr>)))"

definition core_put_record where
  "core_put_record c logical_id record_id node_id user_payload =
     with_active_batch (lit ''put_record'') c
       (\<lambda>b. batch_put_record b logical_id record_id node_id user_payload)"

definition core_delete_record where
  "core_delete_record c logical_id record_id =
     with_active_batch (lit ''delete_record'') c (\<lambda>b. batch_delete_record b logical_id record_id)"

definition core_put_edge where
  "core_put_edge c logical_id src dst edge_type weight =
     with_active_batch (lit ''put_edge'') c
       (\<lambda>b. batch_put_edge b logical_id src dst edge_type weight)"

definition core_delete_edge where
  "core_delete_edge c logical_id src dst edge_type weight =
     with_active_batch (lit ''delete_edge'') c
       (\<lambda>b. batch_delete_edge b logical_id src dst edge_type weight)"

definition core_prepare ::
  "transaction_core \<Rightarrow> transaction_error + (prepared_batch \<times> transaction_core)" where
  "core_prepare c =
     rbind (ok_or Tx_NoActiveTransaction (tc_active c)) (\<lambda>active.
     case at_state active of
       Active \<Rightarrow>
         let prepared = batch_prepare (at_batch active) (at_transaction_id active) in
         Inr (prepared, c\<lparr>tc_active := Some (active\<lparr>at_prepared := Some prepared,
                                                     at_state := Prepared\<rparr>)\<rparr>)
     | Prepared \<Rightarrow>
         rbind (ok_or (Tx_Integrity (lit ''prepared state has no prepared batch''))
                  (at_prepared active)) (\<lambda>prepared. Inr (prepared, c))
     | actual \<Rightarrow> Inl (Tx_InvalidState (lit ''prepare'') actual))"

definition materialize_shadow ::
  "transaction_core \<Rightarrow> page_store \<Rightarrow> u64 \<Rightarrow> u64 \<Rightarrow>
   (transaction_error, shadow_receipt \<times> transaction_core) io" where
  "materialize_shadow c store generation seqno =
     io_bind (io_pure (ok_or Tx_NoActiveTransaction (tc_active c))) (\<lambda>active.
     if at_state active \<noteq> Prepared
     then io_err (Tx_InvalidState (lit ''materialize_shadow'') (at_state active))
     else
       io_bind (io_pure (ok_or (Tx_Integrity (lit ''prepared state has no batch''))
                  (at_prepared active))) (\<lambda>prepared.
       io_bind (io_map_err Tx_Storage (write_segment store generation seqno (pb_entries prepared)))
         (\<lambda>report.
       if ir_item_count report \<noteq> of_nat (length (pb_entries prepared))
       then io_err (Tx_Integrity (lit ''segment item_count mismatch expected=''
              @ dec_bytes (length (pb_entries prepared)) @ lit '' actual=''
              @ dec_bytes (unat (ir_item_count report))))
       else
         io_bind (io_query (\<lambda>fs. map_err Tx_Storage (sha256_file (ir_path report) fs)))
           (\<lambda>segment_file_sha256.
         io_ret
           (\<lparr>sr_transaction_id = pb_transaction_id prepared,
             sr_batch_digest = pb_batch_digest prepared,
             sr_operation_count = length (pb_entries prepared),
             sr_total_payload_bytes = pb_total_payload_bytes prepared,
             sr_generation = generation, sr_sequence = seqno,
             sr_segment_path = ir_path report, sr_segment_file_sha256 = segment_file_sha256,
             sr_segment_payload_sha256 = ir_payload_sha256 report,
             sr_durable_commit = False, sr_wal_recorded = False, sr_head_published = False,
             sr_active_runtime_changed = False\<rparr>,
            c\<lparr>tc_active := Some (active\<lparr>at_state := ShadowMaterialized\<rparr>)\<rparr>)))))"

definition core_abort :: "transaction_core \<Rightarrow> transaction_error + transaction_core" where
  "core_abort c =
     rbind (ok_or Tx_NoActiveTransaction (tc_active c)) (\<lambda>active.
     case at_state active of
       Active \<Rightarrow> Inr (c\<lparr>tc_active := Some (active\<lparr>at_state := Aborted\<rparr>)\<rparr>)
     | Prepared \<Rightarrow> Inr (c\<lparr>tc_active := Some (active\<lparr>at_state := Aborted\<rparr>)\<rparr>)
     | actual \<Rightarrow> Inl (Tx_InvalidState (lit ''abort'') actual))"

definition release_terminal ::
  "transaction_core \<Rightarrow> tx_id \<Rightarrow> transaction_error + (tx_state \<times> transaction_core)" where
  "release_terminal c transaction_id =
     rbind (ok_or Tx_NoActiveTransaction (tc_active c)) (\<lambda>active.
     if at_transaction_id active \<noteq> transaction_id
     then Inl (Tx_TransactionIdMismatch (at_transaction_id active) transaction_id)
     else if \<not> is_terminal (at_state active)
     then Inl (Tx_InvalidState (lit ''release_terminal'') (at_state active))
     else Inr (at_state active, c\<lparr>tc_active := None\<rparr>))"

subsection \<open>Abstract operations\<close>

text \<open>
  What a batch means: the list of operations the client asked for. \<open>operation_entry\<close> is the
  entry that the batch stores for an operation and \<open>operation_key\<close> the record or edge it
  is about.
\<close>

datatype operation =
    PutRecordOp u64 str u64 bytes
  | DeleteRecordOp u64 str
  | PutEdgeOp u64 u64 u64 u32 f64
  | DeleteEdgeOp u64 u64 u64 u32 f64

fun operation_id :: "operation \<Rightarrow> u64" where
  "operation_id (PutRecordOp l _ _ _) = l"
| "operation_id (DeleteRecordOp l _) = l"
| "operation_id (PutEdgeOp l _ _ _ _) = l"
| "operation_id (DeleteEdgeOp l _ _ _ _) = l"

fun operation_key :: "operation \<Rightarrow> domain_key" where
  "operation_key (PutRecordOp _ rid _ _) = RecordKey rid"
| "operation_key (DeleteRecordOp _ rid) = RecordKey rid"
| "operation_key (PutEdgeOp _ s d t w) = EdgeDomainKey s d t w"
| "operation_key (DeleteEdgeOp _ s d t w) = EdgeDomainKey s d t w"

fun operation_entry :: "operation \<Rightarrow> segment_entry" where
  "operation_entry (PutRecordOp l rid node up) =
     \<lparr>se_kind = Record, se_logical_id = l, se_payload = record_payload rid node up\<rparr>"
| "operation_entry (DeleteRecordOp l rid) =
     \<lparr>se_kind = RecordTombstone, se_logical_id = l, se_payload = tombstone_payload rid\<rparr>"
| "operation_entry (PutEdgeOp l s d t w) =
     \<lparr>se_kind = TypedEdge, se_logical_id = l, se_payload = edge_payload s d t w\<rparr>"
| "operation_entry (DeleteEdgeOp l s d t w) =
     \<lparr>se_kind = EdgeTombstone, se_logical_id = l, se_payload = edge_payload s d t w\<rparr>"

fun operation_ok :: "operation \<Rightarrow> bool" where
  "operation_ok (PutRecordOp l rid node up) \<longleftrightarrow> rid \<noteq> [] \<and> utf8_valid rid \<and> length rid < 2 ^ 32 \<and>
     56 + length rid + length up < usize_limit"
| "operation_ok (DeleteRecordOp l rid) \<longleftrightarrow> rid \<noteq> [] \<and> utf8_valid rid \<and> length rid < 2 ^ 32"
| "operation_ok (PutEdgeOp l s d t w) \<longleftrightarrow> f64_is_finite w \<and> f64_canonical w = w"
| "operation_ok (DeleteEdgeOp l s d t w) \<longleftrightarrow> f64_is_finite w \<and> f64_canonical w = w"

lemma operation_entry_id [simp]: "se_logical_id (operation_entry o') = operation_id o'"
  by (cases o') simp_all

lemma operation_entry_valid:
  "operation_ok o' \<Longrightarrow> validate_entry_payload (operation_entry o') = Inr ()"
  by (cases o') (auto simp: validate_entry_payload_def record_payload_ok_iff typed_edge_payload_ok_iff)

lemma operation_entry_length:
  "operation_ok o' \<Longrightarrow> length (se_payload (operation_entry o')) < usize_limit"
  by (cases o') (auto simp: tombstone_payload_def usize_limit_def)

text \<open>
  The batch operations are \<open>add_entry\<close> at the entry of an operation; an operation that the
  batch refuses before that is not well-formed.
\<close>

definition batch_operation :: "write_batch \<Rightarrow> operation \<Rightarrow> transaction_error + (add_outcome \<times> write_batch)" where
  "batch_operation b o' = (case o' of
     PutRecordOp l rid node up \<Rightarrow> batch_put_record b l rid node up
   | DeleteRecordOp l rid \<Rightarrow> batch_delete_record b l rid
   | PutEdgeOp l s d t w \<Rightarrow> batch_put_edge b l s d t w
   | DeleteEdgeOp l s d t w \<Rightarrow> batch_delete_edge b l s d t w)"

fun canonical_operation :: "operation \<Rightarrow> operation" where
  "canonical_operation (PutEdgeOp l s d t w) = PutEdgeOp l s d t (f64_canonical w)"
| "canonical_operation (DeleteEdgeOp l s d t w) = DeleteEdgeOp l s d t (f64_canonical w)"
| "canonical_operation o' = o'"

lemma entry_new_ok:
  "validate_entry_payload \<lparr>se_kind = k, se_logical_id = l, se_payload = p\<rparr> = Inr () \<Longrightarrow>
   entry_new k l p = Inr \<lparr>se_kind = k, se_logical_id = l, se_payload = p\<rparr>"
  by (simp add: entry_new_def)

text \<open>A record id is a \<open>&str\<close>, hence valid UTF-8.\<close>

fun operation_typed :: "operation \<Rightarrow> bool" where
  "operation_typed (PutRecordOp _ rid _ up) \<longleftrightarrow> utf8_valid rid"
| "operation_typed (DeleteRecordOp _ rid) \<longleftrightarrow> utf8_valid rid"
| "operation_typed (PutEdgeOp _ _ _ _ _) \<longleftrightarrow> True"
| "operation_typed (DeleteEdgeOp _ _ _ _ _) \<longleftrightarrow> True"

lemma batch_operation_ok:
  assumes "operation_ok (canonical_operation o')"
  shows "batch_operation b o' = add_entry b (operation_key (canonical_operation o'))
     (operation_entry (canonical_operation o'))"
proof (cases o')
  case (PutRecordOp l rid node up)
  with assms operation_entry_valid [of o'] show ?thesis
    by (simp add: batch_operation_def batch_put_record_def entry_record_def entry_new_ok checked_add3)
next
  case (DeleteRecordOp l rid)
  with assms operation_entry_valid [of o'] show ?thesis
    by (simp add: batch_operation_def batch_delete_record_def entry_new_ok)
next
  case (PutEdgeOp l s d t w)
  with assms operation_entry_valid [of "canonical_operation o'"] show ?thesis
    by (simp add: batch_operation_def batch_put_edge_def canonical_weight_def entry_typed_edge_def
        entry_new_ok)
next
  case (DeleteEdgeOp l s d t w)
  with assms operation_entry_valid [of "canonical_operation o'"] show ?thesis
    by (simp add: batch_operation_def batch_delete_edge_def canonical_weight_def entry_new_ok)
qed

lemma batch_operation_refused:
  assumes "operation_typed o'" and "\<not> operation_ok (canonical_operation o')"
  shows "\<exists>e. batch_operation b o' = Inl e"
  using assms
  by (cases o') (auto simp: batch_operation_def batch_put_record_def entry_record_def checked_add3
      batch_delete_record_def batch_put_edge_def batch_delete_edge_def canonical_weight_def)

subsection \<open>What a batch represents\<close>

definition payload_sum :: "segment_entry list \<Rightarrow> nat" where
  "payload_sum es = sum_list (map (\<lambda>e. length (se_payload e)) es)"

definition fingerprint_of :: "operation \<Rightarrow> bytes" where
  "fingerprint_of o' = operation_fingerprint (operation_entry o')"

definition batch_rep :: "write_batch \<Rightarrow> operation list \<Rightarrow> bool" where
  "batch_rep b ops \<longleftrightarrow>
     wb_entries b = map operation_entry ops \<and> list_all operation_ok ops \<and>
     (\<forall>l. bt_get (wb_logical_fingerprints b) l =
        map_option fingerprint_of (List.find (\<lambda>x. operation_id x = l) ops)) \<and>
     (\<forall>k. bt_get (wb_domain_fingerprints b) k =
        map_option fingerprint_of (List.find (\<lambda>x. operation_key x = k) ops)) \<and>
     distinct (map operation_id ops) \<and> distinct (map operation_key ops) \<and>
     wb_total_payload_bytes b = payload_sum (wb_entries b) \<and>
     length ops \<le> bl_max_operations (wb_limits b) \<and>
     wb_total_payload_bytes b \<le> bl_max_payload_bytes (wb_limits b)"

lemma batch_rep_new: "batch_rep (batch_new limits) []"
  by (simp add: batch_rep_def batch_new_def payload_sum_def)

text \<open>The reference behaviour of adding one operation to the list of operations.\<close>

definition spec_add :: "batch_limits \<Rightarrow> operation list \<Rightarrow> operation \<Rightarrow>
  transaction_error + (add_outcome \<times> operation list)" where
  "spec_add limits ops x =
     (let n = length ops + 1;
          m = payload_sum (map operation_entry ops) + length (se_payload (operation_entry x)) in
      case List.find (\<lambda>y. operation_id y = operation_id x) ops of
        Some y \<Rightarrow>
          if fingerprint_of y = fingerprint_of x then Inr (DuplicateIgnored, ops)
          else Inl (Tx_Conflict (lit ''logical_id '' @ dec_bytes (unat (operation_id x))
                 @ lit '' already belongs to a different operation''))
      | None \<Rightarrow>
          (case List.find (\<lambda>y. operation_key y = operation_key x) ops of
             Some y \<Rightarrow>
               if fingerprint_of y = fingerprint_of x then Inr (DuplicateIgnored, ops)
               else Inl (Tx_Conflict (lit ''domain key already has a different operation''))
           | None \<Rightarrow>
               if bl_max_operations limits < n
               then Inl (Tx_LimitExceeded (lit ''max_operations'') (bl_max_operations limits)
                      (min n (usize_limit - 1)))
               else if bl_max_payload_bytes limits < m
               then Inl (Tx_LimitExceeded (lit ''max_payload_bytes'') (bl_max_payload_bytes limits)
                      (min m (usize_limit - 1)))
               else Inr (Added, ops @ [x])))"

text \<open>Limits are \<open>usize\<close> and \<open>u64\<close> values.\<close>

definition limits_wf :: "batch_limits \<Rightarrow> bool" where
  "limits_wf l \<longleftrightarrow> bl_max_operations l < usize_limit \<and> bl_max_payload_bytes l < usize_limit"

lemma add_entry_refines:
  assumes rep: "batch_rep b ops" and ok: "operation_ok x" and lim: "limits_wf (wb_limits b)"
  shows "case spec_add (wb_limits b) ops x of
     Inl e \<Rightarrow> add_entry b (operation_key x) (operation_entry x) = Inl e
   | Inr (out, ops') \<Rightarrow> \<exists>b'. add_entry b (operation_key x) (operation_entry x) = Inr (out, b') \<and>
        batch_rep b' ops' \<and> wb_limits b' = wb_limits b"
proof -
  have r: "wb_entries b = map operation_entry ops" "wb_total_payload_bytes b = payload_sum (map operation_entry ops)"
    "\<And>l. bt_get (wb_logical_fingerprints b) l = map_option fingerprint_of (List.find (\<lambda>x. operation_id x = l) ops)"
    "\<And>k. bt_get (wb_domain_fingerprints b) k = map_option fingerprint_of (List.find (\<lambda>x. operation_key x = k) ops)"
    "length ops \<le> bl_max_operations (wb_limits b)"
    using rep by (simp_all add: batch_rep_def)
  show ?thesis
  proof (cases "List.find (\<lambda>y. operation_id y = operation_id x) ops")
    case (Some y)
    then show ?thesis using rep by (simp add: spec_add_def add_entry_def Let_def r fingerprint_of_def)
  next
    case n1: None
    show ?thesis
    proof (cases "List.find (\<lambda>y. operation_key y = operation_key x) ops")
      case (Some y)
      then show ?thesis using rep n1 by (simp add: spec_add_def add_entry_def Let_def r fingerprint_of_def)
    next
      case n2: None
      have d: "operation_id x \<notin> operation_id ` set ops" "operation_key x \<notin> operation_key ` set ops"
        using n1 n2 by (auto simp: find_None_iff)
      show ?thesis
        using rep ok n1 n2 lim d
        by (auto simp: spec_add_def add_entry_def Let_def r fingerprint_of_def limits_wf_def checked_add_def
           batch_rep_def bt_get_insert find_snoc payload_sum_def min_def split: option.splits)
    qed
  qed
qed

subsection \<open>The core as a state machine\<close>

text \<open>\<open>active.state = DurableCommitted\<close>, the last step of \<open>commit_durable\<close>.\<close>

definition mark_committed :: "transaction_core \<Rightarrow> transaction_core" where
  "mark_committed c = c\<lparr>tc_active := map_option (\<lambda>a. a\<lparr>at_state := DurableCommitted\<rparr>) (tc_active c)\<rparr>"

definition core_operation ::
  "transaction_core \<Rightarrow> operation \<Rightarrow> transaction_error + (add_outcome \<times> transaction_core)" where
  "core_operation c x = (case x of
     PutRecordOp l rid node up \<Rightarrow> core_put_record c l rid node up
   | DeleteRecordOp l rid \<Rightarrow> core_delete_record c l rid
   | PutEdgeOp l s d t w \<Rightarrow> core_put_edge c l s d t w
   | DeleteEdgeOp l s d t w \<Rightarrow> core_delete_edge c l s d t w)"

inductive core_step :: "transaction_core \<Rightarrow> transaction_core \<Rightarrow> bool" where
  step_begin: "core_begin c tx = Inr c' \<Longrightarrow> length tx = 16 \<Longrightarrow> core_step c c'"
| step_operation: "core_operation c x = Inr (out, c') \<Longrightarrow> operation_typed x \<Longrightarrow> core_step c c'"
| step_prepare: "core_prepare c = Inr (p, c') \<Longrightarrow> core_step c c'"
| step_materialize: "materialize_shadow c store g n fs = (Inr (r, c'), fs') \<Longrightarrow> core_step c c'"
| step_commit: "active_state c = Some Prepared \<Longrightarrow> core_step c (mark_committed c)"
| step_abort: "core_abort c = Inr c' \<Longrightarrow> core_step c c'"
| step_release: "release_terminal c tx = Inr (st, c') \<Longrightarrow> core_step c c'"

inductive_cases core_stepE: "core_step c c'"

text \<open>
  The active transaction holds a batch that represents a list of operations within the
  limits, and from preparation on the prepared batch is the one of that list.
\<close>

definition active_inv :: "batch_limits \<Rightarrow> active_transaction \<Rightarrow> bool" where
  "active_inv limits a \<longleftrightarrow>
     (\<exists>ops. batch_rep (at_batch a) ops) \<and> wb_limits (at_batch a) = limits \<and>
     length (at_transaction_id a) = 16 \<and>
     (case at_state a of
        Active \<Rightarrow> at_prepared a = None
      | Aborted \<Rightarrow> at_prepared a = None \<or>
          at_prepared a = Some (batch_prepare (at_batch a) (at_transaction_id a))
      | _ \<Rightarrow> at_prepared a = Some (batch_prepare (at_batch a) (at_transaction_id a)))"

definition core_inv :: "transaction_core \<Rightarrow> bool" where
  "core_inv c \<longleftrightarrow> limits_wf (tc_limits c) \<and>
     (case tc_active c of None \<Rightarrow> True | Some a \<Rightarrow> active_inv (tc_limits c) a)"

lemma core_operation_eq:
  "core_operation c x = with_active_batch (case x of
      PutRecordOp _ _ _ _ \<Rightarrow> lit ''put_record'' | DeleteRecordOp _ _ \<Rightarrow> lit ''delete_record''
    | PutEdgeOp _ _ _ _ _ \<Rightarrow> lit ''put_edge'' | DeleteEdgeOp _ _ _ _ _ \<Rightarrow> lit ''delete_edge'') c
     (\<lambda>b. batch_operation b x)"
  by (cases x) (simp_all add: core_operation_def batch_operation_def core_put_record_def
      core_delete_record_def core_put_edge_def core_delete_edge_def)

lemma batch_operation_rep:
  assumes "batch_operation b x = Inr (out, b')" and "operation_typed x"
    and "batch_rep b ops" and "limits_wf (wb_limits b)"
  shows "(\<exists>ops'. batch_rep b' ops' \<and> spec_add (wb_limits b) ops (canonical_operation x) = Inr (out, ops'))
    \<and> wb_limits b' = wb_limits b"
proof -
  have ok: "operation_ok (canonical_operation x)"
    using batch_operation_refused [OF assms(2), of b] assms(1) by (metis Inl_Inr_False)
  show ?thesis
    using add_entry_refines [OF assms(3) ok assms(4)] assms(1)
    by (auto simp: batch_operation_ok [OF ok] split: sum.splits)
qed

lemma core_operation_step:
  assumes "core_operation c x = Inr (out, c')"
  obtains a b' where "tc_active c = Some a" and "at_state a = Active"
    and "batch_operation (at_batch a) x = Inr (out, b')"
    and "c' = c\<lparr>tc_active := Some (a\<lparr>at_batch := b'\<rparr>)\<rparr>"
  using assms by (auto simp: core_operation_eq with_active_batch_def rbind_eq_Inr_iff split: if_splits)

lemma materialize_step:
  assumes "materialize_shadow c store g n fs = (Inr (r, c'), fs')"
  obtains a where "tc_active c = Some a" and "at_state a = Prepared"
    and "c' = c\<lparr>tc_active := Some (a\<lparr>at_state := ShadowMaterialized\<rparr>)\<rparr>"
  using assms by (auto simp: materialize_shadow_def io_bind_eq_Inr_iff io_simps split: if_splits)

lemma prepare_step:
  assumes "core_prepare c = Inr (p, c')"
  obtains (first) a where "tc_active c = Some a" and "at_state a = Active"
      and "p = batch_prepare (at_batch a) (at_transaction_id a)"
      and "c' = c\<lparr>tc_active := Some (a\<lparr>at_prepared := Some p, at_state := Prepared\<rparr>)\<rparr>"
  | (again) a where "tc_active c = Some a" and "at_state a = Prepared" and "at_prepared a = Some p"
      and "c' = c"
proof -
  obtain a where a: "tc_active c = Some a"
    using assms by (auto simp: core_prepare_def rbind_eq_Inr_iff)
  with assms show thesis
    by (cases "at_state a") (auto simp: core_prepare_def rbind_eq_Inr_iff Let_def intro: first again)
qed

lemma abort_step:
  assumes "core_abort c = Inr c'"
  obtains a where "tc_active c = Some a" and "at_state a = Active \<or> at_state a = Prepared"
    and "c' = c\<lparr>tc_active := Some (a\<lparr>at_state := Aborted\<rparr>)\<rparr>"
proof -
  obtain a where a: "tc_active c = Some a"
    using assms by (auto simp: core_abort_def rbind_eq_Inr_iff)
  with assms show thesis by (cases "at_state a") (auto simp: core_abort_def intro: that)
qed

lemma release_step:
  assumes "release_terminal c tx = Inr (st, c')"
  obtains a where "tc_active c = Some a" and "at_transaction_id a = tx" and "is_terminal (at_state a)"
    and "st = at_state a" and "c' = c\<lparr>tc_active := None\<rparr>"
  using assms by (auto simp: release_terminal_def rbind_eq_Inr_iff split: if_splits)

lemma core_inv_step:
  assumes "core_step c c'" and "core_inv c"
  shows "core_inv c'"
  using assms(1)
proof cases
  case (step_begin tx)
  then show ?thesis
    using assms(2)
    by (auto simp: core_begin_def core_inv_def active_inv_def split: option.splits
        intro!: exI [of _ "[]"] batch_rep_new) (simp add: batch_new_def)
next
  case (step_operation x out)
  obtain a b' where a: "tc_active c = Some a" "at_state a = Active"
    and b: "batch_operation (at_batch a) x = Inr (out, b')"
    and c': "c' = c\<lparr>tc_active := Some (a\<lparr>at_batch := b'\<rparr>)\<rparr>"
    by (rule core_operation_step [OF step_operation(1)])
  then obtain ops where "batch_rep (at_batch a) ops" "limits_wf (wb_limits (at_batch a))"
    using assms(2) by (auto simp: core_inv_def active_inv_def)
  from batch_operation_rep [OF b step_operation(2) this] show ?thesis
    using assms(2) a c' by (auto simp: core_inv_def active_inv_def)
next
  case (step_prepare p)
  then show ?thesis
    using assms(2) by (elim prepare_step) (auto simp: core_inv_def active_inv_def)
next
  case (step_materialize store g n fs r fs')
  then show ?thesis
    using assms(2) by (auto elim!: materialize_step simp: core_inv_def active_inv_def)
next
  case step_commit
  then show ?thesis
    using assms(2) by (auto simp: mark_committed_def active_state_def core_inv_def active_inv_def)
next
  case step_abort
  then show ?thesis
    using assms(2) by (elim abort_step) (auto simp: core_inv_def active_inv_def)
next
  case (step_release tx st)
  then show ?thesis
    using assms(2) by (elim release_step) (auto simp: core_inv_def)
qed

interpretation core: invariant_system
  "\<lambda>c. \<exists>limits. limits_wf limits \<and> c = core_new limits" core_step core_inv
proof unfold_locales
  show "\<exists>limits. limits_wf limits \<and> s = core_new limits \<Longrightarrow> core_inv s" for s
    by (auto simp: core_inv_def core_new_def)
  show "core_step s s' \<Longrightarrow> core_inv s \<Longrightarrow> core_inv s'" for s s'
    by (rule core_inv_step)
qed

subsection \<open>Properties\<close>

text \<open>
  C22. A write batch implements its reference behaviour on lists of operations: adding an
  operation first drops a negative zero weight, refuses what is not well-formed (empty or
  oversized record ids, non-finite weights), ignores a repeated operation, refuses a second
  different operation on the same logical id, record or edge, and enforces both limits; the
  batch afterwards represents the list that the reference gives.
\<close>

theorem batch_refines_operations:
  assumes "batch_rep b ops" and "limits_wf (wb_limits b)" and "operation_typed x"
  shows "if operation_ok (canonical_operation x)
     then (case spec_add (wb_limits b) ops (canonical_operation x) of
             Inl e \<Rightarrow> batch_operation b x = Inl e
           | Inr (out, ops') \<Rightarrow> \<exists>b'. batch_operation b x = Inr (out, b') \<and> batch_rep b' ops')
     else (\<exists>e. batch_operation b x = Inl e)"
proof (cases "operation_ok (canonical_operation x)")
  case True
  from add_entry_refines [OF assms(1) True assms(2)] show ?thesis
    using True by (auto simp: batch_operation_ok [OF True] split: sum.splits)
qed (simp add: batch_operation_refused [OF assms(3)])

lemma demo_edge_ok: "operation_ok (PutEdgeOp 1 2 3 4 0)"
  by (simp add: f64_is_finite_def f64_canonical_def f64_is_zero_def)

lemma default_limits_wf: "limits_wf default_limits"
  by (simp add: limits_wf_def default_limits_def usize_limit_def)

theorem batch_refines_operations_witness:
  "\<exists>b'. batch_operation (batch_new default_limits) (PutEdgeOp 1 2 3 4 0) = Inr (Added, b') \<and>
     batch_rep b' [PutEdgeOp 1 2 3 4 0]"
  using batch_refines_operations [of "batch_new default_limits" "[]" "PutEdgeOp 1 2 3 4 0"]
    demo_edge_ok batch_rep_new default_limits_wf
  by (simp add: batch_new_def spec_add_def default_limits_def f64_canonical_def f64_is_zero_def
      payload_sum_def)

text \<open>
  C31. In every reachable state of the transaction core, the active transaction's batch is a
  list of well-formed operations with distinct logical ids and distinct records or edges,
  within both limits, and its byte count is the sum of its payloads; once prepared, the
  prepared batch consists of exactly those entries with the digest of those entries.
\<close>

theorem reachable_core_batch:
  assumes "reachable (\<lambda>c. \<exists>limits. limits_wf limits \<and> c = core_new limits) core_step c"
    and "tc_active c = Some a"
  shows "\<exists>ops. wb_entries (at_batch a) = map operation_entry ops \<and> list_all operation_ok ops \<and>
     distinct (map operation_id ops) \<and> distinct (map operation_key ops) \<and>
     length ops \<le> bl_max_operations (tc_limits c) \<and>
     wb_total_payload_bytes (at_batch a) = payload_sum (map operation_entry ops) \<and>
     payload_sum (map operation_entry ops) \<le> bl_max_payload_bytes (tc_limits c) \<and>
     (at_state a \<in> {Prepared, ShadowMaterialized, DurableCommitted} \<longrightarrow>
        at_prepared a = Some \<lparr>pb_transaction_id = at_transaction_id a,
          pb_entries = map operation_entry ops,
          pb_batch_digest = batch_digest (at_transaction_id a) (map operation_entry ops)
             (payload_sum (map operation_entry ops)),
          pb_total_payload_bytes = payload_sum (map operation_entry ops)\<rparr>)"
proof -
  have inv: "active_inv (tc_limits c) a"
    using core.reachable_inv [OF assms(1)] assms(2) by (simp add: core_inv_def)
  then obtain ops where "batch_rep (at_batch a) ops" by (auto simp: active_inv_def)
  with inv show ?thesis
    by (intro exI [of _ ops]) (auto simp: active_inv_def batch_rep_def batch_prepare_def)
qed

definition demo_core :: transaction_core where
  "demo_core = \<lparr>tc_limits = default_limits, tc_active = Some \<lparr>at_transaction_id = replicate 16 1,
     at_state = Active, at_batch = batch_new default_limits, at_prepared = None\<rparr>\<rparr>"

lemma demo_core_reachable:
  "reachable (\<lambda>c. \<exists>limits. limits_wf limits \<and> c = core_new limits) core_step demo_core"
proof (rule reach_step)
  show "reachable (\<lambda>c. \<exists>limits. limits_wf limits \<and> c = core_new limits) core_step (core_new default_limits)"
    using default_limits_wf by (auto intro: reach_init)
  show "core_step (core_new default_limits) demo_core"
    by (rule step_begin [of _ "replicate 16 1"]) (simp_all add: core_begin_def core_new_def demo_core_def)
qed

definition demo_edit :: operation where
  "demo_edit = PutEdgeOp 1 2 3 4 0"

lemma demo_filled:
  obtains b where "core_operation demo_core demo_edit = Inr (Added, demo_core\<lparr>tc_active :=
       map_option (\<lambda>a. a\<lparr>at_batch := b\<rparr>) (tc_active demo_core)\<rparr>)" and "wb_entries b = [operation_entry demo_edit]"
proof -
  have z: "f64_is_finite 0" "f64_canonical 0 = 0" by (simp_all add: f64_is_finite_def f64_is_zero_def f64_canonical_def)
  have e: "entry_typed_edge 1 2 3 4 0 = Inr (operation_entry demo_edit)"
    using operation_entry_valid [of demo_edit] z by (simp add: entry_typed_edge_def entry_new_def demo_edit_def)
  have "length (edge_payload 2 3 4 0) = 32" by (simp add: edge_payload_def)
  then have "\<exists>b. batch_put_edge (batch_new default_limits) 1 2 3 4 0 = Inr (Added, b) \<and> wb_entries b = [operation_entry demo_edit]"
    using z by (simp add: batch_put_edge_def canonical_weight_def e add_entry_def batch_new_def default_limits_def Let_def
        checked_add_def usize_limit_def) (simp add: demo_edit_def)
  then show thesis
    using that by (auto simp: core_operation_def core_put_edge_def with_active_batch_def demo_core_def demo_edit_def)
qed

text \<open>A transaction that was begun, has one operation and is prepared.\<close>

abbreviation demo_prepared :: "write_batch \<Rightarrow> active_transaction" where
  "demo_prepared b \<equiv> \<lparr>at_transaction_id = replicate 16 1, at_state = Prepared, at_batch = b,
     at_prepared = Some (batch_prepare b (replicate 16 1))\<rparr>"

lemma demo_prepared_reachable:
  obtains b where "reachable (\<lambda>c. \<exists>limits. limits_wf limits \<and> c = core_new limits) core_step
      (demo_core\<lparr>tc_active := Some (demo_prepared b)\<rparr>)" and "wb_entries b = [operation_entry demo_edit]"
proof -
  obtain b where o: "core_operation demo_core demo_edit = Inr (Added, demo_core\<lparr>tc_active :=
       map_option (\<lambda>a. a\<lparr>at_batch := b\<rparr>) (tc_active demo_core)\<rparr>)" and e: "wb_entries b = [operation_entry demo_edit]"
    by (rule demo_filled)
  let ?init = "\<lambda>c. \<exists>limits. limits_wf limits \<and> c = core_new limits"
  let ?a = "\<lparr>at_transaction_id = replicate 16 1, at_state = Active, at_batch = b, at_prepared = None\<rparr>"
  have "core_step demo_core (demo_core\<lparr>tc_active := Some ?a\<rparr>)"
    by (rule step_operation [of _ demo_edit Added]) (use o in \<open>simp_all add: demo_core_def demo_edit_def\<close>)
  then have "reachable ?init core_step (demo_core\<lparr>tc_active := Some ?a\<rparr>)"
    by (rule reach_step [of ?init core_step, OF demo_core_reachable])
  moreover have "core_step (demo_core\<lparr>tc_active := Some ?a\<rparr>) (demo_core\<lparr>tc_active := Some (demo_prepared b)\<rparr>)"
    by (rule step_prepare) (simp add: core_prepare_def Let_def)
  ultimately have "reachable ?init core_step (demo_core\<lparr>tc_active := Some (demo_prepared b)\<rparr>)" by (rule reach_step)
  with that e show thesis by blast
qed

theorem reachable_core_batch_witness:
  "\<exists>(c :: transaction_core) a. tc_active c = Some a \<and> at_state a = Prepared \<and> wb_entries (at_batch a) = [operation_entry demo_edit] \<and>
     wb_total_payload_bytes (at_batch a) = payload_sum [operation_entry demo_edit] \<and>
     map_option pb_entries (at_prepared a) = Some [operation_entry demo_edit]"
proof -
  obtain b where r: "reachable (\<lambda>c. \<exists>limits. limits_wf limits \<and> c = core_new limits) core_step
      (demo_core\<lparr>tc_active := Some (demo_prepared b)\<rparr>)" and e: "wb_entries b = [operation_entry demo_edit]"
    by (rule demo_prepared_reachable)
  from reachable_core_batch [OF r, of "demo_prepared b"] e
  have "wb_total_payload_bytes b = payload_sum [operation_entry demo_edit]"
    "pb_entries (batch_prepare b (replicate 16 1)) = [operation_entry demo_edit]" by auto
  with e show ?thesis
    by (intro exI [of _ "demo_core\<lparr>tc_active := Some (demo_prepared b)\<rparr>"] exI [of _ "demo_prepared b"]) simp
qed

text \<open>
  C32. A transaction is frozen when it is prepared: in a state in which the
  transaction is not active any more, a step keeps its id, its batch and its prepared batch,
  or releases it, which is possible only in a terminal state. A terminal state is never left
  by any other step, and no step starts a second transaction beside the first.
\<close>

theorem prepared_transaction_frozen:
  assumes "core_step c c'" and "tc_active c = Some a" and "at_state a \<noteq> Active"
  shows "(\<exists>a'. tc_active c' = Some a' \<and> at_transaction_id a' = at_transaction_id a \<and>
        at_batch a' = at_batch a \<and> at_prepared a' = at_prepared a \<and>
        \<not> is_terminal (at_state a))
     \<or> (tc_active c' = None \<and> is_terminal (at_state a))"
  using assms(1)
proof cases
  case (step_begin tx)
  with assms(2) show ?thesis by (simp add: core_begin_def)
next
  case (step_operation x out)
  from core_operation_step [OF step_operation(1)] assms(2,3) show ?thesis by auto
next
  case (step_prepare p)
  then show ?thesis using assms(2,3) by (elim prepare_step) auto
next
  case (step_materialize store g n fs r fs')
  then show ?thesis using assms(2) by (elim materialize_step) auto
next
  case step_commit
  then show ?thesis using assms(2) by (auto simp: mark_committed_def active_state_def)
next
  case step_abort
  then show ?thesis using assms(2,3) by (elim abort_step) auto
next
  case (step_release tx st)
  then show ?thesis using assms(2) by (elim release_step) auto
qed

theorem prepared_transaction_frozen_witness:
  "\<exists>c a c' a'. reachable (\<lambda>c. \<exists>limits. limits_wf limits \<and> c = core_new limits) core_step c \<and>
     tc_active c = Some a \<and> at_state a = Prepared \<and> wb_entries (at_batch a) = [operation_entry demo_edit] \<and>
     core_abort c = Inr c' \<and> tc_active c' = Some a' \<and> at_state a' = Aborted \<and>
     at_batch a' = at_batch a \<and> at_prepared a' = at_prepared a \<and> at_prepared a \<noteq> None"
proof -
  obtain b where r: "reachable (\<lambda>c. \<exists>limits. limits_wf limits \<and> c = core_new limits) core_step
      (demo_core\<lparr>tc_active := Some (demo_prepared b)\<rparr>)" and e: "wb_entries b = [operation_entry demo_edit]"
    by (rule demo_prepared_reachable)
  let ?p = "demo_prepared b" and ?c = "demo_core\<lparr>tc_active := Some (demo_prepared b)\<rparr>"
  let ?d = "demo_core\<lparr>tc_active := Some (?p\<lparr>at_state := Aborted\<rparr>)\<rparr>"
  have ab: "core_abort ?c = Inr ?d" by (simp add: core_abort_def)
  from prepared_transaction_frozen [OF step_abort [OF ab], of ?p]
  obtain a' where "tc_active ?d = Some a'" "at_batch a' = at_batch ?p" "at_prepared a' = at_prepared ?p" by auto
  with r ab e show ?thesis by (intro exI [of _ ?c] exI [of _ ?p] exI [of _ ?d] exI [of _ a']) auto
qed

text \<open>
  Calls out of order are refused with the state they met: without an active
  transaction, everything but \<open>begin\<close> reports that there is none; with one, \<open>begin\<close> reports
  the transaction that is active; once it has been prepared, put and delete operations
  report its state, and a terminal state refuses \<open>prepare\<close>, \<open>materialize_shadow\<close> and
  \<open>abort\<close>.
\<close>

theorem core_calls_out_of_order:
  "(tc_active c = None \<longrightarrow> core_operation c x = Inl Tx_NoActiveTransaction \<and>
      core_prepare c = Inl Tx_NoActiveTransaction \<and> core_abort c = Inl Tx_NoActiveTransaction \<and>
      materialize_shadow c store g n fs = (Inl Tx_NoActiveTransaction, fs) \<and>
      release_terminal c tx = Inl Tx_NoActiveTransaction) \<and>
   (tc_active c = Some a \<longrightarrow> core_begin c tx = Inl (Tx_WriterAlreadyActive (at_transaction_id a)) \<and>
      (at_state a \<noteq> Active \<longrightarrow> (\<exists>operation. core_operation c x = Inl (Tx_InvalidState operation (at_state a)))) \<and>
      (is_terminal (at_state a) \<longrightarrow>
         core_prepare c = Inl (Tx_InvalidState (lit ''prepare'') (at_state a)) \<and>
         core_abort c = Inl (Tx_InvalidState (lit ''abort'') (at_state a)) \<and>
         materialize_shadow c store g n fs =
           (Inl (Tx_InvalidState (lit ''materialize_shadow'') (at_state a)), fs)))"
proof (cases "tc_active c")
  case None
  then show ?thesis
    by (simp add: core_operation_eq with_active_batch_def core_prepare_def core_abort_def
        materialize_shadow_def release_terminal_def io_bind_def io_pure_def)
next
  case (Some b)
  then show ?thesis
    by (cases "at_state b") (auto simp: core_operation_eq with_active_batch_def core_prepare_def
       core_abort_def core_begin_def materialize_shadow_def io_bind_def io_pure_def io_err_def)
qed

theorem core_calls_out_of_order_witness:
  "core_begin demo_core (replicate 16 2) = Inl (Tx_WriterAlreadyActive (replicate 16 1))"
  using core_calls_out_of_order [of demo_core _ _ _ _ _ "replicate 16 2" "the (tc_active demo_core)"]
  by (simp add: demo_core_def)

end
