(* ===== verification/Ub_Recovery.thy ===== *)
theory Ub_Recovery
  imports Ub_Wal Ub_Transaction
begin

text \<open>
  The recovered state of \<open>ultraballoondb-lifecycle/src/durable.rs\<close>: live records and
  edges in key order, the payloads of the log frames, and the replay that rebuilds the
  state from a checkpoint and the frames after it. A transaction changes the state only at
  its \<open>COMMIT\<close> frame, which carries the operation count, the batch digest and the hash of
  the state it leads to.
\<close>

subsection \<open>Errors and fields\<close>

datatype durable_error =
    Db_Io io_error
  | Db_Storage storage_error
  | Db_Wal wal_error
  | Db_Invalid str
  | Db_Integrity str bytes bytes
  | Db_DuplicateTransaction tx_id

definition db_read_u16 :: "bytes \<Rightarrow> nat \<Rightarrow> durable_error + u16" where
  "db_read_u16 bs offset =
     rbind (read_field 2 (Db_Invalid (lit ''u16 offset overflow''))
                         (Db_Invalid (lit ''truncated u16'')) bs offset) (\<lambda>v. Inr (from_le v))"

definition db_read_u32 :: "bytes \<Rightarrow> nat \<Rightarrow> durable_error + u32" where
  "db_read_u32 bs offset =
     rbind (read_field 4 (Db_Invalid (lit ''u32 offset overflow''))
                         (Db_Invalid (lit ''truncated u32'')) bs offset) (\<lambda>v. Inr (from_le v))"

definition db_read_u64 :: "bytes \<Rightarrow> nat \<Rightarrow> durable_error + u64" where
  "db_read_u64 bs offset =
     rbind (read_field 8 (Db_Invalid (lit ''u64 offset overflow''))
                         (Db_Invalid (lit ''truncated u64'')) bs offset) (\<lambda>v. Inr (from_le v))"

definition db_read_digest :: "bytes \<Rightarrow> nat \<Rightarrow> durable_error + bytes" where
  "db_read_digest bs offset =
     read_field 32 (Db_Invalid (lit ''digest offset overflow''))
                   (Db_Invalid (lit ''truncated digest'')) bs offset"

lemma db_read_ok:
  "off + 2 < usize_limit \<Longrightarrow> off + 2 \<le> length bs \<Longrightarrow>
     db_read_u16 bs off = Inr (from_le (take 2 (drop off bs)))"
  "off + 4 < usize_limit \<Longrightarrow> off + 4 \<le> length bs \<Longrightarrow>
     db_read_u32 bs off = Inr (from_le (take 4 (drop off bs)))"
  "off + 8 < usize_limit \<Longrightarrow> off + 8 \<le> length bs \<Longrightarrow>
     db_read_u64 bs off = Inr (from_le (take 8 (drop off bs)))"
  "off + 32 < usize_limit \<Longrightarrow> off + 32 \<le> length bs \<Longrightarrow>
     db_read_digest bs off = Inr (take 32 (drop off bs))"
  by (simp_all add: db_read_u16_def db_read_u32_def db_read_u64_def db_read_digest_def read_field_ok)

subsection \<open>Keys\<close>

text \<open>\<open>EdgeKey\<close> with its derived order.\<close>

datatype edge_key = EdgeKey (ek_src: u64) (ek_dst: u64) (ek_edge_type: u32) (ek_weight_bits: u64)

definition edge_key_code :: "edge_key \<Rightarrow> nat list" where
  "edge_key_code k = [unat (ek_src k), unat (ek_dst k), unat (ek_edge_type k), unat (ek_weight_bits k)]"

lemma edge_key_code_inject: "edge_key_code a = edge_key_code b \<Longrightarrow> a = b"
  by (cases a; cases b) (simp add: edge_key_code_def word_unat_eq_iff)

instantiation edge_key :: linorder
begin

definition less_eq_edge_key :: "edge_key \<Rightarrow> edge_key \<Rightarrow> bool" where
  "less_eq_edge_key a b \<longleftrightarrow> edge_key_code a \<le> edge_key_code b"

definition less_edge_key :: "edge_key \<Rightarrow> edge_key \<Rightarrow> bool" where
  "less_edge_key a b \<longleftrightarrow> edge_key_code a < edge_key_code b"

instance
  by standard (auto simp: less_eq_edge_key_def less_edge_key_def dest: edge_key_code_inject)

end

definition record_id_from_put :: "bytes \<Rightarrow> durable_error + str" where
  "record_id_from_put payload =
     (if length payload < 56 then Inl (Db_Invalid (lit ''record payload too short''))
      else
        rbind (db_read_u32 payload 0) (\<lambda>len.
        rbind (ok_or (Db_Invalid (lit ''record ID length overflow''))
                 (checked_add 56 (unat len))) (\<lambda>stop.
        rbind (ok_or (Db_Invalid (lit ''record ID is truncated'')) (get_range payload 56 stop))
          (\<lambda>bs.
        if \<not> utf8_valid bs then Inl (Db_Invalid (lit ''record ID is not UTF-8'')) else Inr bs))))"

definition record_id_from_delete :: "bytes \<Rightarrow> durable_error + str" where
  "record_id_from_delete payload =
     (if length payload < 8 then Inl (Db_Invalid (lit ''record tombstone is too short''))
      else
        rbind (db_read_u32 payload 0) (\<lambda>len.
        rbind (ok_or (Db_Invalid (lit ''record tombstone length overflow''))
                 (checked_add 8 (unat len))) (\<lambda>stop.
        if length payload \<noteq> stop
        then Inl (Db_Invalid (lit ''record tombstone length mismatch''))
        else if \<not> utf8_valid (drop 8 payload)
        then Inl (Db_Invalid (lit ''record tombstone ID is not UTF-8''))
        else Inr (drop 8 payload))))"

definition edge_key_of :: "bytes \<Rightarrow> durable_error + edge_key" where
  "edge_key_of payload =
     (if length payload \<noteq> 32 then Inl (Db_Invalid (lit ''edge payload must be 32 bytes''))
      else
        rbind (db_read_u64 payload 0) (\<lambda>src.
        rbind (db_read_u64 payload 8) (\<lambda>dst.
        rbind (db_read_u32 payload 16) (\<lambda>edge_type.
        rbind (db_read_u64 payload 24) (\<lambda>weight_bits.
        Inr (EdgeKey src dst edge_type weight_bits))))))"

subsection \<open>The state\<close>

record recovered_state =
  rs_records :: "(str, segment_entry) btree"
  rs_edges :: "(edge_key, segment_entry) btree"

definition empty_state :: recovered_state where
  "empty_state = \<lparr>rs_records = [], rs_edges = []\<rparr>"

definition state_apply :: "recovered_state \<Rightarrow> segment_entry \<Rightarrow> durable_error + recovered_state" where
  "state_apply st entry =
     (case se_kind entry of
        Record \<Rightarrow>
          rbind (record_id_from_put (se_payload entry)) (\<lambda>record_id.
          Inr (st\<lparr>rs_records := bt_insert record_id entry (rs_records st)\<rparr>))
      | TypedEdge \<Rightarrow>
          rbind (edge_key_of (se_payload entry)) (\<lambda>key.
          Inr (st\<lparr>rs_edges := bt_insert key entry (rs_edges st)\<rparr>))
      | RecordTombstone \<Rightarrow>
          rbind (record_id_from_delete (se_payload entry)) (\<lambda>record_id.
          Inr (st\<lparr>rs_records := bt_remove record_id (rs_records st)\<rparr>))
      | EdgeTombstone \<Rightarrow>
          rbind (edge_key_of (se_payload entry)) (\<lambda>key.
          Inr (st\<lparr>rs_edges := bt_remove key (rs_edges st)\<rparr>))
      | Metadata \<Rightarrow> Inl (Db_Invalid (lit ''metadata is not a transactional operation in B3'')))"

fun apply_all :: "recovered_state \<Rightarrow> segment_entry list \<Rightarrow> durable_error + recovered_state" where
  "apply_all st [] = Inr st"
| "apply_all st (e # es) = rbind (state_apply st e) (\<lambda>st'. apply_all st' es)"

definition STATE_HASH_MAGIC :: bytes where
  "STATE_HASH_MAGIC = lit ''UBSTA01'' @ [0]"

text \<open>\<open>encode_entry_for_hash\<close> writes the same bytes as the preimage of the fingerprint.\<close>

definition encode_entry_for_hash :: "segment_entry \<Rightarrow> bytes" where
  "encode_entry_for_hash e =
     u16_le (kind_code (se_kind e)) @ u16_le 0 @ u64_le (se_logical_id e)
     @ u64_le (of_nat (length (se_payload e))) @ sha256 (se_payload e) @ se_payload e"

definition state_entries :: "recovered_state \<Rightarrow> segment_entry list" where
  "state_entries st = bt_values (rs_records st) @ bt_values (rs_edges st)"

definition state_hash :: "recovered_state \<Rightarrow> bytes" where
  "state_hash st =
     sha256 (STATE_HASH_MAGIC @ u64_le (of_nat (length (rs_records st)))
             @ u64_le (of_nat (length (rs_edges st)))
             @ concat (map encode_entry_for_hash (state_entries st)))"

definition state_counts :: "recovered_state \<Rightarrow> u64 \<times> u64" where
  "state_counts st = (of_nat (length (rs_records st)), of_nat (length (rs_edges st)))"

subsection \<open>Frame payloads\<close>

definition frame_type_for_entry :: "segment_entry \<Rightarrow> durable_error + frame_type" where
  "frame_type_for_entry e =
     (case se_kind e of
        Record \<Rightarrow> Inr PutRecord
      | TypedEdge \<Rightarrow> Inr PutEdge
      | RecordTombstone \<Rightarrow> Inr DeleteRecord
      | EdgeTombstone \<Rightarrow> Inr DeleteEdge
      | Metadata \<Rightarrow> Inl (Db_Invalid (lit ''metadata cannot be committed through B3'')))"

definition record_kind_for_frame :: "frame_type \<Rightarrow> durable_error + record_kind" where
  "record_kind_for_frame ft =
     (case ft of
        PutRecord \<Rightarrow> Inr Record
      | PutEdge \<Rightarrow> Inr TypedEdge
      | DeleteRecord \<Rightarrow> Inr RecordTombstone
      | DeleteEdge \<Rightarrow> Inr EdgeTombstone
      | _ \<Rightarrow> Inl (Db_Invalid (lit ''frame is not an operation'')))"

definition encode_begin_payload :: "prepared_batch \<Rightarrow> bytes" where
  "encode_begin_payload p =
     u64_le (of_nat (length (pb_entries p))) @ u64_le (of_nat (pb_total_payload_bytes p))
     @ pb_batch_digest p"

definition decode_begin_payload :: "bytes \<Rightarrow> durable_error + (u64 \<times> u64 \<times> bytes)" where
  "decode_begin_payload payload =
     (if length payload \<noteq> 48 then Inl (Db_Invalid (lit ''BEGIN payload must be 48 bytes''))
      else
        rbind (db_read_u64 payload 0) (\<lambda>n.
        rbind (db_read_u64 payload 8) (\<lambda>m.
        rbind (db_read_digest payload 16) (\<lambda>d.
        Inr (n, m, d)))))"

definition encode_commit_payload :: "prepared_batch \<Rightarrow> bytes \<Rightarrow> bytes" where
  "encode_commit_payload p state_sha256 =
     u64_le (of_nat (length (pb_entries p))) @ pb_batch_digest p @ state_sha256"

definition decode_commit_payload :: "bytes \<Rightarrow> durable_error + (u64 \<times> bytes \<times> bytes)" where
  "decode_commit_payload payload =
     (if length payload \<noteq> 72 then Inl (Db_Invalid (lit ''COMMIT payload must be 72 bytes''))
      else
        rbind (db_read_u64 payload 0) (\<lambda>n.
        rbind (db_read_digest payload 8) (\<lambda>d.
        rbind (db_read_digest payload 40) (\<lambda>h.
        Inr (n, d, h)))))"

definition encode_checkpoint_frame_payload :: "u64 \<Rightarrow> bytes \<Rightarrow> bytes" where
  "encode_checkpoint_frame_payload generation state_sha256 = u64_le generation @ state_sha256"

definition encode_operation_payload :: "segment_entry \<Rightarrow> bytes" where
  "encode_operation_payload e =
     u64_le (se_logical_id e) @ u64_le (of_nat (length (se_payload e))) @ sha256 (se_payload e)
     @ se_payload e"

definition decode_operation_payload :: "frame_type \<Rightarrow> bytes \<Rightarrow> durable_error + segment_entry" where
  "decode_operation_payload ft payload =
     (if length payload < 48
      then Inl (Db_Invalid (lit ''operation frame payload is truncated''))
      else
        rbind (db_read_u64 payload 0) (\<lambda>logical_id.
        rbind (db_read_u64 payload 8) (\<lambda>payload_len.
        rbind (db_read_digest payload 16) (\<lambda>expected_hash.
        rbind (ok_or (Db_Invalid (lit ''operation length overflow''))
                 (checked_add 48 (unat payload_len))) (\<lambda>expected_len.
        if length payload \<noteq> expected_len
        then Inl (Db_Invalid (lit ''operation payload length mismatch''))
        else
          let entry_payload = drop 48 payload; actual_hash = sha256 entry_payload in
          if actual_hash \<noteq> expected_hash
          then Inl (Db_Integrity (lit ''operation payload'') expected_hash actual_hash)
          else
            rbind (record_kind_for_frame ft) (\<lambda>kind.
            map_err Db_Storage (entry_new kind logical_id entry_payload)))))))"

text \<open>The sum of the payload lengths is a \<open>u64\<close>.\<close>

definition compute_batch_digest :: "tx_id \<Rightarrow> segment_entry list \<Rightarrow> bytes" where
  "compute_batch_digest transaction_id entries =
     sha256 (lit ''UBTXB01'' @ [0] @ transaction_id @ u64_le (of_nat (length entries))
             @ u64_le (of_nat (payload_sum entries)) @ concat (map encode_entry_for_hash entries))"

subsection \<open>Replay\<close>

record pending_transaction =
  pt_expected_operations :: u64
  pt_expected_payload_bytes :: u64
  pt_expected_batch_digest :: bytes
  pt_entries :: "segment_entry list"

record replay_state =
  rp_state :: recovered_state
  rp_committed :: "tx_id list"
  rp_pending :: "(tx_id, pending_transaction) btree"
  rp_replayed :: nat

definition zero_tx :: tx_id where
  "zero_tx = replicate 16 0"

definition replay_begin :: "replay_state \<Rightarrow> wal_frame \<Rightarrow> durable_error + replay_state" where
  "replay_begin r f =
     (if wf_tx f = zero_tx then Inl (Db_Invalid (lit ''BEGIN transaction ID cannot be zero''))
      else if bt_get (rp_pending r) (wf_tx f) \<noteq> None then Inl (Db_Invalid (lit ''duplicate BEGIN''))
      else
        rbind (decode_begin_payload (wf_payload f)) (\<lambda>(n, m, d).
        Inr (r\<lparr>rp_pending := bt_insert (wf_tx f)
                 \<lparr>pt_expected_operations = n, pt_expected_payload_bytes = m,
                  pt_expected_batch_digest = d, pt_entries = []\<rparr> (rp_pending r)\<rparr>)))"

definition replay_operation :: "replay_state \<Rightarrow> wal_frame \<Rightarrow> durable_error + replay_state" where
  "replay_operation r f =
     rbind (ok_or (Db_Invalid (lit ''operation without BEGIN'')) (bt_get (rp_pending r) (wf_tx f)))
       (\<lambda>transaction.
     rbind (decode_operation_payload (wf_type f) (wf_payload f)) (\<lambda>entry.
     Inr (r\<lparr>rp_pending := bt_insert (wf_tx f)
              (transaction\<lparr>pt_entries := pt_entries transaction @ [entry]\<rparr>) (rp_pending r)\<rparr>)))"

definition replay_commit :: "replay_state \<Rightarrow> wal_frame \<Rightarrow> durable_error + replay_state" where
  "replay_commit r f =
     rbind (ok_or (Db_Invalid (lit ''COMMIT without BEGIN'')) (bt_get (rp_pending r) (wf_tx f)))
       (\<lambda>transaction.
     rbind (decode_commit_payload (wf_payload f))
       (\<lambda>(operation_count, batch_digest_value, expected_state_hash).
     if operation_count \<noteq> pt_expected_operations transaction
        \<or> operation_count \<noteq> of_nat (length (pt_entries transaction))
     then Inl (Db_Invalid (lit ''COMMIT operation count mismatch''))
     else if of_nat (payload_sum (pt_entries transaction)) \<noteq> pt_expected_payload_bytes transaction
     then Inl (Db_Invalid (lit ''BEGIN payload byte count mismatch''))
     else
       let actual_batch_digest = compute_batch_digest (wf_tx f) (pt_entries transaction) in
       if actual_batch_digest \<noteq> pt_expected_batch_digest transaction
          \<or> actual_batch_digest \<noteq> batch_digest_value
       then Inl (Db_Integrity (lit ''transaction batch digest'') batch_digest_value
                   actual_batch_digest)
       else if wf_tx f \<in> set (rp_committed r)
       then Inl (Db_Invalid (lit ''duplicate committed transaction ID''))
       else
         rbind (apply_all (rp_state r) (pt_entries transaction)) (\<lambda>candidate.
         if state_hash candidate \<noteq> expected_state_hash
         then Inl (Db_Integrity (lit ''COMMIT state hash'') expected_state_hash
                     (state_hash candidate))
         else
           rbind (ok_or (Db_Invalid (lit ''replayed transaction count overflow''))
                    (checked_add (rp_replayed r) 1)) (\<lambda>replayed.
           Inr (r\<lparr>rp_pending := bt_remove (wf_tx f) (rp_pending r), rp_state := candidate,
                  rp_committed := bset_insert (wf_tx f) (rp_committed r),
                  rp_replayed := replayed\<rparr>)))))"

definition replay_abort :: "replay_state \<Rightarrow> wal_frame \<Rightarrow> durable_error + replay_state" where
  "replay_abort r f =
     (if bt_get (rp_pending r) (wf_tx f) = None then Inl (Db_Invalid (lit ''ABORT without BEGIN''))
      else Inr (r\<lparr>rp_pending := bt_remove (wf_tx f) (rp_pending r)\<rparr>))"

definition replay_checkpoint :: "replay_state \<Rightarrow> wal_frame \<Rightarrow> durable_error + replay_state" where
  "replay_checkpoint r f =
     (if wf_tx f \<noteq> zero_tx \<or> length (wf_payload f) \<noteq> 40
      then Inl (Db_Invalid (lit ''invalid CHECKPOINT frame'')) else Inr r)"

definition replay_frame :: "replay_state \<Rightarrow> wal_frame \<Rightarrow> durable_error + replay_state" where
  "replay_frame r f =
     (case wf_type f of
        Begin \<Rightarrow> replay_begin r f
      | PutRecord \<Rightarrow> replay_operation r f
      | PutEdge \<Rightarrow> replay_operation r f
      | DeleteRecord \<Rightarrow> replay_operation r f
      | DeleteEdge \<Rightarrow> replay_operation r f
      | Commit \<Rightarrow> replay_commit r f
      | Abort \<Rightarrow> replay_abort r f
      | Checkpoint \<Rightarrow> replay_checkpoint r f)"

fun replay_frames :: "replay_state \<Rightarrow> wal_frame list \<Rightarrow> durable_error + replay_state" where
  "replay_frames r [] = Inr r"
| "replay_frames r (f # fs) = rbind (replay_frame r f) (\<lambda>r'. replay_frames r' fs)"

definition replay_after_checkpoint ::
  "recovered_state \<Rightarrow> tx_id list \<Rightarrow> u64 \<Rightarrow> wal_scan \<Rightarrow>
   durable_error + (recovered_state \<times> tx_id list \<times> nat \<times> nat)" where
  "replay_after_checkpoint st committed checkpoint_lsn scan =
     rbind (replay_frames \<lparr>rp_state = st, rp_committed = committed, rp_pending = [], rp_replayed = 0\<rparr>
              (filter (\<lambda>f. checkpoint_lsn < wf_lsn f) (ws_frames scan))) (\<lambda>r.
     Inr (rp_state r, rp_committed r, rp_replayed r, length (rp_pending r)))"

subsection \<open>Operations on the state\<close>

lemma record_id_from_put_ok:
  "length rid < 2 ^ 32 \<Longrightarrow> utf8_valid rid \<Longrightarrow> record_id_from_put (record_payload rid node up) = Inr rid"
  by (simp add: record_id_from_put_def record_payload_def db_read_ok usize_limit_def unat_of_nat
      checked_add_def get_range_def)

lemma record_id_from_delete_ok:
  "length rid < 2 ^ 32 \<Longrightarrow> utf8_valid rid \<Longrightarrow> record_id_from_delete (tombstone_payload rid) = Inr rid"
  by (simp add: record_id_from_delete_def tombstone_payload_def db_read_ok usize_limit_def unat_of_nat
      checked_add_def)

lemma edge_key_of_ok: "edge_key_of (edge_payload s d t w) = Inr (EdgeKey s d t w)"
  by (simp add: edge_key_of_def edge_payload_def db_read_ok usize_limit_def)

fun operation_apply :: "operation \<Rightarrow> recovered_state \<Rightarrow> recovered_state" where
  "operation_apply (PutRecordOp l rid node up) st =
     st\<lparr>rs_records := bt_insert rid (operation_entry (PutRecordOp l rid node up)) (rs_records st)\<rparr>"
| "operation_apply (DeleteRecordOp l rid) st = st\<lparr>rs_records := bt_remove rid (rs_records st)\<rparr>"
| "operation_apply (PutEdgeOp l s d t w) st =
     st\<lparr>rs_edges := bt_insert (EdgeKey s d t w) (operation_entry (PutEdgeOp l s d t w)) (rs_edges st)\<rparr>"
| "operation_apply (DeleteEdgeOp l s d t w) st =
     st\<lparr>rs_edges := bt_remove (EdgeKey s d t w) (rs_edges st)\<rparr>"

lemma state_apply_operation:
  "operation_ok x \<Longrightarrow> state_apply st (operation_entry x) = Inr (operation_apply x st)"
  by (cases x) (simp_all add: state_apply_def record_id_from_put_ok record_id_from_delete_ok edge_key_of_ok)

definition operations_apply :: "operation list \<Rightarrow> recovered_state \<Rightarrow> recovered_state" where
  "operations_apply ops st = foldl (\<lambda>st x. operation_apply x st) st ops"

lemma operations_apply_simps [simp]:
  "operations_apply [] st = st"
  "operations_apply (x # ops) st = operations_apply ops (operation_apply x st)"
  by (simp_all add: operations_apply_def)

lemma apply_all_operations:
  "list_all operation_ok ops \<Longrightarrow> apply_all st (map operation_entry ops) = Inr (operations_apply ops st)"
  by (induction ops arbitrary: st) (simp_all add: state_apply_operation)

subsection \<open>What the state contains\<close>

definition record_binding_ok :: "str \<times> segment_entry \<Rightarrow> bool" where
  "record_binding_ok p \<longleftrightarrow> (\<exists>l node up. operation_ok (PutRecordOp l (fst p) node up) \<and>
     snd p = operation_entry (PutRecordOp l (fst p) node up))"

definition edge_binding_ok :: "edge_key \<times> segment_entry \<Rightarrow> bool" where
  "edge_binding_ok p \<longleftrightarrow> (\<exists>l s d t w. fst p = EdgeKey s d t w \<and> operation_ok (PutEdgeOp l s d t w) \<and>
     snd p = operation_entry (PutEdgeOp l s d t w))"

definition state_inv :: "recovered_state \<Rightarrow> bool" where
  "state_inv st \<longleftrightarrow> bt_ok (rs_records st) \<and> bt_ok (rs_edges st) \<and>
     list_all record_binding_ok (rs_records st) \<and> list_all edge_binding_ok (rs_edges st)"

lemma list_all_bt_insert:
  "list_all P m \<Longrightarrow> P (k, v) \<Longrightarrow> list_all P (bt_insert k v m)"
  by (induction k v m rule: bt_insert.induct) auto

lemma list_all_bt_remove: "list_all P m \<Longrightarrow> list_all P (bt_remove k m)"
  by (simp add: bt_remove_def list_all_iff)

lemma state_inv_empty: "state_inv empty_state"
  by (simp add: state_inv_def empty_state_def bt_ok_def)

lemma binding_ok_intros:
  "operation_ok (PutRecordOp l rid node up) \<Longrightarrow>
     record_binding_ok (rid, operation_entry (PutRecordOp l rid node up))"
  "operation_ok (PutEdgeOp l s d t w) \<Longrightarrow>
     edge_binding_ok (EdgeKey s d t w, operation_entry (PutEdgeOp l s d t w))"
  unfolding record_binding_ok_def edge_binding_ok_def fst_conv snd_conv by blast+

lemma state_inv_operation: "state_inv st \<Longrightarrow> operation_ok x \<Longrightarrow> state_inv (operation_apply x st)"
  by (cases x) (auto simp: state_inv_def bt_ok_insert bt_ok_remove simp del: operation_entry.simps
      operation_ok.simps intro!: list_all_bt_insert list_all_bt_remove binding_ok_intros)

lemma state_inv_operations:
  "state_inv st \<Longrightarrow> list_all operation_ok ops \<Longrightarrow> state_inv (operations_apply ops st)"
  by (induction ops arbitrary: st) (simp_all add: state_inv_operation)

subsection \<open>Payload round trips\<close>

lemma begin_payload_roundtrip:
  "length (pb_batch_digest p) = 32 \<Longrightarrow>
   decode_begin_payload (encode_begin_payload p) =
     Inr (of_nat (length (pb_entries p)), of_nat (pb_total_payload_bytes p), pb_batch_digest p)"
  by (simp add: decode_begin_payload_def encode_begin_payload_def db_read_ok usize_limit_def)

lemma commit_payload_roundtrip:
  "length (pb_batch_digest p) = 32 \<Longrightarrow> length h = 32 \<Longrightarrow>
   decode_commit_payload (encode_commit_payload p h) =
     Inr (of_nat (length (pb_entries p)), pb_batch_digest p, h)"
  by (simp add: decode_commit_payload_def encode_commit_payload_def db_read_ok usize_limit_def)

fun operation_frame_type :: "operation \<Rightarrow> frame_type" where
  "operation_frame_type (PutRecordOp _ _ _ _) = PutRecord"
| "operation_frame_type (DeleteRecordOp _ _) = DeleteRecord"
| "operation_frame_type (PutEdgeOp _ _ _ _ _) = PutEdge"
| "operation_frame_type (DeleteEdgeOp _ _ _ _ _) = DeleteEdge"

lemma frame_type_for_operation [simp]:
  "frame_type_for_entry (operation_entry x) = Inr (operation_frame_type x)"
  "record_kind_for_frame (operation_frame_type x) = Inr (se_kind (operation_entry x))"
  by (cases x; simp add: frame_type_for_entry_def record_kind_for_frame_def)+

lemma operation_payload_roundtrip:
  assumes "operation_ok x" and "48 + length (se_payload (operation_entry x)) < usize_limit"
  shows "decode_operation_payload (operation_frame_type x) (encode_operation_payload (operation_entry x))
     = Inr (operation_entry x)"
proof -
  let ?e = "operation_entry x"
  have u: "unat (of_nat (length (se_payload ?e)) :: u64) = length (se_payload ?e)"
    using assms(2) by (simp add: usize_limit_def unat_of_nat)
  have e: "\<lparr>se_kind = se_kind ?e, se_logical_id = operation_id x, se_payload = se_payload ?e\<rparr> = ?e"
    using operation_entry_id [of x] by simp
  have "entry_new (se_kind ?e) (operation_id x) (se_payload ?e) = Inr ?e"
    using operation_entry_valid [OF assms(1)] by (simp add: entry_new_def Let_def e)
  then show ?thesis
    using assms(2)
    by (simp add: decode_operation_payload_def encode_operation_payload_def db_read_ok usize_limit_def u
        Let_def)
qed

lemma compute_batch_digest_eq: "compute_batch_digest tx es = batch_digest tx es (payload_sum es)"
  unfolding compute_batch_digest_def batch_digest_def BATCH_DIGEST_MAGIC_def
    encode_entry_for_hash_def [abs_def] entry_preimage_def [abs_def] by simp

subsection \<open>The frames of a transaction\<close>

definition prepared_rep :: "prepared_batch \<Rightarrow> operation list \<Rightarrow> bool" where
  "prepared_rep p ops \<longleftrightarrow> pb_entries p = map operation_entry ops \<and> list_all operation_ok ops \<and>
     length (pb_transaction_id p) = 16 \<and>
     pb_total_payload_bytes p = payload_sum (pb_entries p) \<and>
     pb_batch_digest p = batch_digest (pb_transaction_id p) (pb_entries p) (payload_sum (pb_entries p))"

lemma batch_prepare_rep:
  "batch_rep b ops \<Longrightarrow> length tx = 16 \<Longrightarrow> prepared_rep (batch_prepare b tx) ops"
  by (simp add: prepared_rep_def batch_prepare_def batch_rep_def)

lemma length_batch_digest [simp]: "length (batch_digest tx es n) = 32"
  by (simp add: batch_digest_def)

lemma length_state_hash [simp]: "length (state_hash st) = 32"
  by (simp add: state_hash_def)

definition begin_frame :: "u64 \<Rightarrow> prepared_batch \<Rightarrow> wal_frame" where
  "begin_frame lsn p = \<lparr>wf_type = Begin, wf_lsn = lsn, wf_tx = pb_transaction_id p,
     wf_payload = encode_begin_payload p\<rparr>"

definition operation_frame :: "u64 \<Rightarrow> tx_id \<Rightarrow> operation \<Rightarrow> wal_frame" where
  "operation_frame lsn tx x = \<lparr>wf_type = operation_frame_type x, wf_lsn = lsn, wf_tx = tx,
     wf_payload = encode_operation_payload (operation_entry x)\<rparr>"

fun operation_frames :: "u64 \<Rightarrow> tx_id \<Rightarrow> operation list \<Rightarrow> wal_frame list" where
  "operation_frames lsn tx [] = []"
| "operation_frames lsn tx (x # ops) = operation_frame lsn tx x # operation_frames (lsn + 1) tx ops"

definition commit_frame :: "u64 \<Rightarrow> prepared_batch \<Rightarrow> bytes \<Rightarrow> wal_frame" where
  "commit_frame lsn p h = \<lparr>wf_type = Commit, wf_lsn = lsn, wf_tx = pb_transaction_id p,
     wf_payload = encode_commit_payload p h\<rparr>"

definition transaction_frames :: "u64 \<Rightarrow> prepared_batch \<Rightarrow> operation list \<Rightarrow> bytes \<Rightarrow> wal_frame list" where
  "transaction_frames lsn p ops h =
     begin_frame lsn p # operation_frames (lsn + 1) (pb_transaction_id p) ops
     @ [commit_frame (lsn + 1 + of_nat (length ops)) p h]"

lemma length_operation_frames [simp]: "length (operation_frames lsn tx ops) = length ops"
  by (induction ops arbitrary: lsn) simp_all

lemma take_operation_frames:
  "take k (operation_frames lsn tx ops) = operation_frames lsn tx (take k ops)"
proof (induction ops arbitrary: lsn k)
  case (Cons x ops)
  then show ?case by (cases k) simp_all
qed simp

subsection \<open>Replaying a transaction\<close>

lemma replay_frames_append:
  "replay_frames r (fs @ gs) = rbind (replay_frames r fs) (\<lambda>r'. replay_frames r' gs)"
proof (induction fs arbitrary: r)
  case (Cons f fs)
  then show ?case by (cases "replay_frame r f") simp_all
qed simp

lemma bt_insert_overwrite [simp]: "bt_insert k v (bt_insert k u m) = bt_insert k v m"
  by (induction k u m rule: bt_insert.induct) auto

lemma bt_remove_absent: "bt_get m k = None \<Longrightarrow> bt_remove k m = m"
  by (induction m) (auto simp: bt_remove_def split: if_splits)

lemma bt_remove_insert: "bt_get m k = None \<Longrightarrow> bt_remove k (bt_insert k v m) = m"
proof (induction k v m rule: bt_insert.induct)
  case (2 k v a b m)
  with bt_remove_absent [of m k] show ?case by (auto simp: bt_remove_def split: if_splits)
qed (simp add: bt_remove_def)

definition pending_of :: "prepared_batch \<Rightarrow> operation list \<Rightarrow> pending_transaction" where
  "pending_of p ops =
     \<lparr>pt_expected_operations = of_nat (length (pb_entries p)),
      pt_expected_payload_bytes = of_nat (pb_total_payload_bytes p),
      pt_expected_batch_digest = pb_batch_digest p, pt_entries = map operation_entry ops\<rparr>"

definition frame_room :: "operation \<Rightarrow> bool" where
  "frame_room x \<longleftrightarrow> 48 + length (se_payload (operation_entry x)) \<le> MAX_WAL_PAYLOAD_BYTES"

lemma replay_operations:
  assumes "list_all operation_ok ops" and "list_all frame_room ops"
    and "bt_get (rp_pending r) tx = Some q"
  shows "replay_frames r (operation_frames lsn tx ops) =
     Inr (if ops = [] then r else r\<lparr>rp_pending := bt_insert tx
        (q\<lparr>pt_entries := pt_entries q @ map operation_entry ops\<rparr>) (rp_pending r)\<rparr>)"
  using assms
proof (induction ops arbitrary: r q lsn)
  case Nil
  then show ?case by simp
next
  case (Cons x ops)
  let ?q = "q\<lparr>pt_entries := pt_entries q @ [operation_entry x]\<rparr>"
  let ?r = "r\<lparr>rp_pending := bt_insert tx ?q (rp_pending r)\<rparr>"
  have "48 + length (se_payload (operation_entry x)) < usize_limit"
    using Cons.prems by (simp add: frame_room_def MAX_WAL_PAYLOAD_BYTES_def usize_limit_def)
  then have "replay_frame r (operation_frame lsn tx x) = Inr ?r"
    using Cons.prems operation_payload_roundtrip [of x]
    by (cases x) (simp_all add: replay_frame_def replay_operation_def operation_frame_def)
  moreover have "bt_get (rp_pending ?r) tx = Some ?q" by (simp add: bt_get_insert)
  ultimately show ?case
    using Cons.IH [of ?r ?q "lsn + 1"] Cons.prems by auto
qed

lemma replay_begin_frame:
  assumes rep: "prepared_rep p ops" and "pb_transaction_id p \<noteq> zero_tx"
    and "bt_get (rp_pending r) (pb_transaction_id p) = None"
  shows "replay_frame r (begin_frame lsn p) =
     Inr (r\<lparr>rp_pending := bt_insert (pb_transaction_id p) (pending_of p []) (rp_pending r)\<rparr>)"
proof -
  have "length (pb_batch_digest p) = 32" using rep by (simp add: prepared_rep_def)
  with assms(2,3) show ?thesis
    by (simp add: replay_frame_def begin_frame_def replay_begin_def begin_payload_roundtrip pending_of_def)
qed

text \<open>A strict prefix of the frames leaves the state and the committed set alone.\<close>

lemma replay_prefix:
  assumes rep: "prepared_rep p ops" and z: "pb_transaction_id p \<noteq> zero_tx"
    and np: "bt_get (rp_pending r) (pb_transaction_id p) = None"
    and room: "list_all frame_room ops" and k: "k \<le> length ops"
  shows "replay_frames r (begin_frame lsn p # operation_frames (lsn + 1) (pb_transaction_id p) (take k ops)) =
     Inr (r\<lparr>rp_pending := bt_insert (pb_transaction_id p) (pending_of p (take k ops)) (rp_pending r)\<rparr>)"
proof -
  let ?tx = "pb_transaction_id p"
  let ?r = "r\<lparr>rp_pending := bt_insert ?tx (pending_of p []) (rp_pending r)\<rparr>"
  have ok: "list_all operation_ok (take k ops)" "list_all frame_room (take k ops)"
    using rep room by (auto simp: prepared_rep_def list_all_iff dest: in_set_takeD)
  have "bt_get (rp_pending ?r) ?tx = Some (pending_of p [])" by (simp add: bt_get_insert)
  from replay_operations [OF ok this, of "lsn + 1"] show ?thesis
    using replay_begin_frame [OF rep z np, of lsn] by (simp add: pending_of_def)
qed

lemma replay_transaction:
  assumes rep: "prepared_rep p ops" and z: "pb_transaction_id p \<noteq> zero_tx"
    and np: "bt_get (rp_pending r) (pb_transaction_id p) = None"
    and nc: "pb_transaction_id p \<notin> set (rp_committed r)"
    and room: "list_all frame_room ops" and n: "rp_replayed r + 1 < usize_limit"
  shows "replay_frames r (transaction_frames lsn p ops (state_hash (operations_apply ops (rp_state r)))) =
     Inr (r\<lparr>rp_state := operations_apply ops (rp_state r),
            rp_committed := bset_insert (pb_transaction_id p) (rp_committed r),
            rp_replayed := rp_replayed r + 1\<rparr>)"
proof -
  let ?tx = "pb_transaction_id p" and ?st = "operations_apply ops (rp_state r)"
  let ?r = "r\<lparr>rp_pending := bt_insert ?tx (pending_of p ops) (rp_pending r)\<rparr>"
  have pre: "replay_frames r (begin_frame lsn p # operation_frames (lsn + 1) ?tx ops) = Inr ?r"
    using replay_prefix [OF rep z np room, of "length ops" lsn] by simp
  have d: "length (pb_batch_digest p) = 32" "pb_entries p = map operation_entry ops"
     "pb_batch_digest p = compute_batch_digest ?tx (map operation_entry ops)"
     "pb_total_payload_bytes p = payload_sum (map operation_entry ops)" "list_all operation_ok ops"
    using rep by (simp_all add: prepared_rep_def compute_batch_digest_eq)
  have dc: "decode_commit_payload (encode_commit_payload p (state_hash ?st)) =
     Inr (of_nat (length ops), compute_batch_digest ?tx (map operation_entry ops), state_hash ?st)"
    using commit_payload_roundtrip [of p "state_hash ?st"] d by simp
  have "replay_frame ?r (commit_frame l p (state_hash ?st)) =
     Inr (r\<lparr>rp_state := ?st, rp_committed := bset_insert ?tx (rp_committed r),
            rp_replayed := rp_replayed r + 1\<rparr>)" for l
    using nc n bt_remove_insert [OF np]
    by (simp add: replay_frame_def commit_frame_def replay_commit_def bt_get_insert
        dc d(2-5) pending_of_def Let_def apply_all_operations)
  then show ?thesis
    unfolding transaction_frames_def append_Cons [symmetric] replay_frames_append pre by simp
qed

text \<open>
  C25. Replay is all or nothing: reading the \<open>BEGIN\<close> frame and any number of the operation
  frames of a transaction changes neither the recovered state nor the committed set; only
  with the \<open>COMMIT\<close> frame are its operations applied, in order, and its id committed.
\<close>

theorem replay_all_or_nothing:
  assumes "prepared_rep p ops" and "pb_transaction_id p \<noteq> zero_tx"
    and "bt_get (rp_pending r) (pb_transaction_id p) = None"
    and "pb_transaction_id p \<notin> set (rp_committed r)" and "list_all frame_room ops"
    and "rp_replayed r + 1 < usize_limit" and "k \<le> length ops"
  shows "(\<exists>r'. replay_frames r (begin_frame lsn p #
        operation_frames (lsn + 1) (pb_transaction_id p) (take k ops)) = Inr r' \<and>
        rp_state r' = rp_state r \<and> rp_committed r' = rp_committed r) \<and>
     (\<exists>r'. replay_frames r (transaction_frames lsn p ops (state_hash (operations_apply ops (rp_state r)))) = Inr r' \<and>
        rp_state r' = operations_apply ops (rp_state r) \<and>
        set (rp_committed r') = insert (pb_transaction_id p) (set (rp_committed r)) \<and>
        rp_pending r' = rp_pending r)"
  using replay_prefix [OF assms(1-3,5,7), of lsn] replay_transaction [OF assms(1-6), of lsn] by auto

definition replay_demo :: prepared_batch where
  "replay_demo = \<lparr>pb_transaction_id = replicate 16 1, pb_entries = [operation_entry (PutEdgeOp 1 2 3 4 0)],
     pb_batch_digest = batch_digest (replicate 16 1) [operation_entry (PutEdgeOp 1 2 3 4 0)] 32,
     pb_total_payload_bytes = 32\<rparr>"

theorem replay_all_or_nothing_witness:
  "\<exists>r'. replay_frames \<lparr>rp_state = empty_state, rp_committed = [], rp_pending = [], rp_replayed = 0\<rparr>
     (transaction_frames 1 replay_demo [PutEdgeOp 1 2 3 4 0]
       (state_hash (operations_apply [PutEdgeOp 1 2 3 4 0] empty_state))) = Inr r' \<and>
     set (rp_committed r') = {replicate 16 1}"
proof -
  have "prepared_rep replay_demo [PutEdgeOp 1 2 3 4 0]"
    using demo_edge_ok by (simp add: prepared_rep_def replay_demo_def payload_sum_def)
  from replay_all_or_nothing [OF this, of "\<lparr>rp_state = empty_state, rp_committed = [], rp_pending = [],
      rp_replayed = 0\<rparr>" 0 1]
  show ?thesis
    by (auto simp: replay_demo_def zero_tx_def replicate_eq_replicate frame_room_def MAX_WAL_PAYLOAD_BYTES_def
        usize_limit_def)
qed

end
