(* ===== verification/Ub_Checkpoint.thy ===== *)
theory Ub_Checkpoint
  imports Ub_Recovery
begin

text \<open>
  Checkpoints of \<open>ultraballoondb-lifecycle/src/durable.rs\<close>: the checkpoint payload (the
  last sequence number, the state hash, the committed transaction ids and the live
  entries), the manifest payload that binds a checkpoint file to a generation, their files,
  and \<open>load_checkpoint\<close>, which follows the head to the manifest to the checkpoint and checks
  every link.
\<close>

subsection \<open>Checkpoint payload\<close>

definition CHECKPOINT_MAGIC :: bytes where "CHECKPOINT_MAGIC = lit ''UBCHK01'' @ [0]"
definition MANIFEST_PAYLOAD_MAGIC :: bytes where "MANIFEST_PAYLOAD_MAGIC = lit ''UBMNF01'' @ [0]"

lemma length_checkpoint_magics [simp, len_simps]:
  "length CHECKPOINT_MAGIC = 8" "length MANIFEST_PAYLOAD_MAGIC = 8"
  by (simp_all add: CHECKPOINT_MAGIC_def MANIFEST_PAYLOAD_MAGIC_def)

definition encode_checkpoint_payload :: "u64 \<Rightarrow> recovered_state \<Rightarrow> tx_id list \<Rightarrow> bytes" where
  "encode_checkpoint_payload last_lsn st committed =
     (let (record_count, edge_count) = state_counts st in
      u64_le last_lsn @ state_hash st @ u64_le record_count @ u64_le edge_count
      @ u64_le (of_nat (length committed)) @ concat committed
      @ concat (map encode_entry_for_hash (state_entries st)))"

text \<open>\<open>for _ in 0..committed_count\<close>; \<open>BTreeSet::insert\<close> reports a repeated id.\<close>

fun decode_committed ::
  "nat \<Rightarrow> bytes \<Rightarrow> nat \<Rightarrow> tx_id list \<Rightarrow> durable_error + (tx_id list \<times> nat)" where
  "decode_committed 0 payload offset committed = Inr (committed, offset)"
| "decode_committed (Suc n) payload offset committed =
     rbind (ok_or (Db_Invalid (lit ''checkpoint transaction ID overflow''))
              (checked_add offset 16)) (\<lambda>stop.
     rbind (ok_or (Db_Invalid (lit ''checkpoint transaction ID truncated''))
              (get_range payload offset stop)) (\<lambda>transaction_id.
     if transaction_id \<in> set committed
     then Inl (Db_Invalid (lit ''duplicate checkpoint transaction ID''))
     else decode_committed n payload stop (bset_insert transaction_id committed)))"

definition decode_checkpoint_entry :: "bytes \<Rightarrow> nat \<Rightarrow> durable_error + (segment_entry \<times> nat)" where
  "decode_checkpoint_entry payload offset =
     rbind (ok_or (Db_Invalid (lit ''checkpoint entry overflow'')) (checked_add offset 52))
       (\<lambda>fixed_end.
     rbind (ok_or (Db_Invalid (lit ''checkpoint entry truncated''))
              (get_range payload offset fixed_end)) (\<lambda>fixed.
     rbind (db_read_u16 fixed 0) (\<lambda>kind_value.
     rbind (if kind_value = 1 then Inr Record
            else if kind_value = 2 then Inr TypedEdge
            else Inl (Db_Invalid (lit ''checkpoint contains non-state kind ''
                   @ dec_bytes (unat kind_value)))) (\<lambda>kind.
     rbind (db_read_u16 fixed 2) (\<lambda>flags.
     if flags \<noteq> 0 then Inl (Db_Invalid (lit ''checkpoint entry flags non-zero''))
     else
       rbind (db_read_u64 fixed 4) (\<lambda>logical_id.
       rbind (db_read_u64 fixed 12) (\<lambda>entry_payload_bytes.
       rbind (db_read_digest fixed 20) (\<lambda>expected_hash.
       rbind (ok_or (Db_Invalid (lit ''checkpoint entry length overflow''))
                (checked_add fixed_end (unat entry_payload_bytes))) (\<lambda>entry_end.
       rbind (ok_or (Db_Invalid (lit ''checkpoint entry payload truncated''))
                (get_range payload fixed_end entry_end)) (\<lambda>entry_payload.
       let actual_hash = sha256 entry_payload in
       if actual_hash \<noteq> expected_hash
       then Inl (Db_Integrity (lit ''checkpoint entry'') expected_hash actual_hash)
       else
         rbind (map_err Db_Storage (entry_new kind logical_id entry_payload)) (\<lambda>entry.
         Inr (entry, entry_end))))))))))))"

fun decode_checkpoint_entries ::
  "nat \<Rightarrow> bytes \<Rightarrow> nat \<Rightarrow> recovered_state \<Rightarrow> durable_error + (recovered_state \<times> nat)" where
  "decode_checkpoint_entries 0 payload offset st = Inr (st, offset)"
| "decode_checkpoint_entries (Suc n) payload offset st =
     rbind (decode_checkpoint_entry payload offset) (\<lambda>(entry, entry_end).
     rbind (state_apply st entry) (\<lambda>st'.
     decode_checkpoint_entries n payload entry_end st'))"

definition decode_checkpoint_payload ::
  "bytes \<Rightarrow> durable_error + (u64 \<times> recovered_state \<times> tx_id list \<times> bytes)" where
  "decode_checkpoint_payload payload =
     (if length payload < 64 then Inl (Db_Invalid (lit ''checkpoint payload is too short''))
      else
        rbind (db_read_u64 payload 0) (\<lambda>last_lsn.
        rbind (db_read_digest payload 8) (\<lambda>expected_state_hash.
        rbind (db_read_u64 payload 40) (\<lambda>record_count.
        rbind (db_read_u64 payload 48) (\<lambda>edge_count.
        rbind (db_read_u64 payload 56) (\<lambda>committed_count.
        rbind (decode_committed (unat committed_count) payload 64 []) (\<lambda>(committed, offset).
        rbind (ok_or (Db_Invalid (lit ''checkpoint entry count overflow''))
                 (checked_add (unat record_count) (unat edge_count))) (\<lambda>total_entries.
        rbind (decode_checkpoint_entries total_entries payload offset empty_state) (\<lambda>(st, offset).
        if offset \<noteq> length payload
        then Inl (Db_Invalid (lit ''checkpoint has trailing bytes''))
        else if state_hash st \<noteq> expected_state_hash
        then Inl (Db_Integrity (lit ''checkpoint state'') expected_state_hash (state_hash st))
        else Inr (last_lsn, st, committed, expected_state_hash))))))))))"

subsection \<open>Manifest payload\<close>

definition validate_single_filename :: "str \<Rightarrow> bytes \<Rightarrow> bytes \<Rightarrow> durable_error + unit" where
  "validate_single_filename filename prefix suffix =
     (if filename = [] \<or> path_is_absolute filename
         \<or> length (path_components filename) \<noteq> 1
         \<or> list_ex (\<lambda>c. \<not> is_normal c) (path_components filename)
         \<or> \<not> starts_with filename prefix \<or> \<not> ends_with filename suffix
      then Inl (Db_Invalid (lit ''unsafe checkpoint filename'')) else Inr ())"

definition encode_manifest_payload ::
  "u64 \<Rightarrow> u64 \<Rightarrow> bytes \<Rightarrow> bytes \<Rightarrow> str \<Rightarrow> durable_error + bytes" where
  "encode_manifest_payload generation last_lsn state_sha256 checkpoint_sha256 checkpoint_filename =
     rbind (validate_single_filename checkpoint_filename (lit ''CHECKPOINT-'') (lit ''.ubchk'')) (\<lambda>_.
     if 2 ^ 32 \<le> length checkpoint_filename
     then Inl (Db_Invalid (lit ''checkpoint filename too long''))
     else Inr (MANIFEST_PAYLOAD_MAGIC @ u64_le generation @ u64_le last_lsn @ state_sha256
               @ checkpoint_sha256 @ u32_le (of_nat (length checkpoint_filename)) @ u32_le 0
               @ checkpoint_filename))"

definition decode_manifest_payload ::
  "bytes \<Rightarrow> durable_error + (u64 \<times> u64 \<times> bytes \<times> bytes \<times> str)" where
  "decode_manifest_payload payload =
     (if length payload < 96 \<or> slice payload 0 8 \<noteq> MANIFEST_PAYLOAD_MAGIC
      then Inl (Db_Invalid (lit ''manifest payload header mismatch''))
      else
        rbind (db_read_u64 payload 8) (\<lambda>generation.
        rbind (db_read_u64 payload 16) (\<lambda>last_lsn.
        rbind (db_read_digest payload 24) (\<lambda>state_sha256.
        rbind (db_read_digest payload 56) (\<lambda>checkpoint_sha256.
        rbind (db_read_u32 payload 88) (\<lambda>filename_len.
        rbind (db_read_u32 payload 92) (\<lambda>reserved.
        if reserved \<noteq> 0 then Inl (Db_Invalid (lit ''manifest reserved field non-zero''))
        else
          rbind (ok_or (Db_Invalid (lit ''manifest filename overflow''))
                   (checked_add 96 (unat filename_len))) (\<lambda>stop.
          if length payload \<noteq> stop
          then Inl (Db_Invalid (lit ''manifest filename length mismatch''))
          else
            let filename = drop 96 payload in
            if \<not> utf8_valid filename
            then Inl (Db_Invalid (lit ''manifest filename is not UTF-8''))
            else
              rbind (validate_single_filename filename (lit ''CHECKPOINT-'') (lit ''.ubchk'')) (\<lambda>_.
              Inr (generation, last_lsn, state_sha256, checkpoint_sha256, filename))))))))))"

subsection \<open>Files\<close>

definition encode_file_header :: "bytes \<Rightarrow> u64 \<Rightarrow> u64 \<Rightarrow> u64 \<Rightarrow> bytes \<Rightarrow> bytes" where
  "encode_file_header magic generation payload_bytes item_count payload_sha256 =
     magic @ u16_le 1 @ u16_le 0 @ u32_le 80 @ u64_le generation @ u64_le payload_bytes
     @ u64_le item_count @ u64_le 0 @ payload_sha256"

definition db_read_versioned_bytes :: "path \<Rightarrow> bytes \<Rightarrow> bytes \<Rightarrow> durable_error + (u64 \<times> u64 \<times> bytes)" where
  "db_read_versioned_bytes path file expected_magic =
     (let file_bytes = length file in
      if file_bytes < 80 then Inl (Db_Invalid (lit ''versioned file shorter than header''))
      else
        let header = take 80 file;
            mismatch = Inl (Db_Invalid (lit ''versioned file header mismatch'')) in
        if slice header 0 8 \<noteq> expected_magic then mismatch
        else
          rbind (db_read_u16 header 8) (\<lambda>major. if major \<noteq> 1 then mismatch else
          rbind (db_read_u16 header 10) (\<lambda>minor. if minor \<noteq> 0 then mismatch else
          rbind (db_read_u32 header 12) (\<lambda>header_bytes. if header_bytes \<noteq> 80 then mismatch else
          rbind (db_read_u64 header 40) (\<lambda>flags. if flags \<noteq> 0 then mismatch else
          rbind (db_read_u64 header 16) (\<lambda>generation.
          rbind (db_read_u64 header 24) (\<lambda>payload_bytes.
          rbind (db_read_u64 header 32) (\<lambda>item_count.
          rbind (db_read_digest header 48) (\<lambda>expected_hash.
          rbind (ok_or (Db_Invalid (lit ''versioned file length overflow''))
                   (checked_add 80 (unat payload_bytes))) (\<lambda>expected_file_bytes.
          if file_bytes \<noteq> expected_file_bytes
          then Inl (Db_Invalid (lit ''versioned file length mismatch''))
          else
            let payload = drop 80 file; actual_hash = sha256 payload in
            if actual_hash \<noteq> expected_hash
            then Inl (Db_Integrity (path_display path) expected_hash actual_hash)
            else Inr (generation, item_count, payload)))))))))))"

definition db_read_versioned_file ::
  "path \<Rightarrow> bytes \<Rightarrow> fsys \<Rightarrow> durable_error + (u64 \<times> u64 \<times> bytes)" where
  "db_read_versioned_file path expected_magic fs =
     rbind (map_err Db_Io (fs_read path fs)) (\<lambda>file.
     db_read_versioned_bytes path file expected_magic)"

definition db_temporary_path :: "path \<Rightarrow> (durable_error, path) io" where
  "db_temporary_path =
     temporary_path_with (Db_Invalid (lit ''file has no parent''))
       (Db_Invalid (lit ''system time before UNIX epoch''))"

definition db_publish_immutable :: "path \<Rightarrow> path \<Rightarrow> (durable_error, unit) io" where
  "db_publish_immutable temporary destination fs =
     (if fs_exists fs destination then
        io_bind (io_query (\<lambda>fs. map_err Db_Storage (sha256_file destination fs))) (\<lambda>existing_hash.
        io_bind (io_query (\<lambda>fs. map_err Db_Storage (sha256_file temporary fs))) (\<lambda>temporary_hash.
        io_bind (io_query (\<lambda>fs. map_err Db_Io (fs_read destination fs))) (\<lambda>d.
        io_bind (io_query (\<lambda>fs. map_err Db_Io (fs_read temporary fs))) (\<lambda>t.
        if existing_hash = temporary_hash \<and> length d = length t
        then io_map_err Db_Io (fs_remove temporary)
        else io_err (Db_Invalid
               (lit ''immutable checkpoint already exists with different bytes'')))))) fs
      else
        io_bind (io_map_err Db_Io (fs_rename temporary destination)) (\<lambda>_.
        io_bind (io_pure (ok_or (Db_Invalid (lit ''destination has no parent''))
                   (path_parent destination))) (\<lambda>parent.
        io_map_err Db_Io (sync_dir parent))) fs)"

definition write_checkpoint ::
  "path \<Rightarrow> u64 \<Rightarrow> u64 \<Rightarrow> recovered_state \<Rightarrow> tx_id list \<Rightarrow> (durable_error, unit) io" where
  "write_checkpoint path generation last_lsn st committed =
     io_bind (case path_parent path of
                None \<Rightarrow> io_ret ()
              | Some parent \<Rightarrow> io_map_err Db_Io (create_dir_all parent)) (\<lambda>_.
     let payload = encode_checkpoint_payload last_lsn st committed;
         (record_count, edge_count) = state_counts st in
     io_bind (io_pure (ok_or (Db_Invalid (lit ''checkpoint item count overflow''))
                (checked_add (unat record_count) (unat edge_count)))) (\<lambda>item_count.
     let header = encode_file_header CHECKPOINT_MAGIC generation (of_nat (length payload))
                    (of_nat item_count) (sha256 payload) in
     io_bind (db_temporary_path path) (\<lambda>temporary.
     io_bind (io_map_err Db_Io (create_new temporary [])) (\<lambda>_.
     io_bind (io_map_err Db_Io (write_all temporary header)) (\<lambda>_.
     io_bind (io_map_err Db_Io (write_all temporary payload)) (\<lambda>_.
     db_publish_immutable temporary path))))))"

definition read_checkpoint ::
  "path \<Rightarrow> fsys \<Rightarrow> durable_error + (u64 \<times> u64 \<times> recovered_state \<times> tx_id list \<times> bytes)" where
  "read_checkpoint path fs =
     rbind (db_read_versioned_file path CHECKPOINT_MAGIC fs) (\<lambda>(generation, item_count, payload).
     rbind (decode_checkpoint_payload payload) (\<lambda>(last_lsn, st, committed, state_hash_value).
     Inr (generation, last_lsn, st, committed, state_hash_value)))"

definition load_checkpoint ::
  "page_store \<Rightarrow> fsys \<Rightarrow> durable_error + (recovered_state \<times> tx_id list \<times> u64 \<times> u64)" where
  "load_checkpoint store fs =
     rbind (map_err Db_Storage (read_head store fs)) (\<lambda>h.
     case h of
       None \<Rightarrow> Inr (empty_state, [], 0, 0)
     | Some head_value \<Rightarrow>
         let mpath = manifest_path store (hd_manifest_filename head_value) in
         rbind (map_err Db_Storage (sha256_file mpath fs)) (\<lambda>actual_manifest_hash.
         if actual_manifest_hash \<noteq> hd_manifest_sha256 head_value
         then Inl (Db_Integrity (lit ''head manifest'') (hd_manifest_sha256 head_value)
                     actual_manifest_hash)
         else
           rbind (db_read_versioned_file mpath MAGIC_MANIFEST fs)
             (\<lambda>(manifest_generation, manifest_items, manifest_payload).
           rbind (decode_manifest_payload manifest_payload)
             (\<lambda>(generation, manifest_lsn, manifest_state_hash, checkpoint_hash, checkpoint_filename).
           if generation \<noteq> hd_generation head_value \<or> manifest_generation \<noteq> generation
           then Inl (Db_Invalid (lit ''head/manifest generation mismatch''))
           else
             let cpath = ps_root store @ [lit ''checkpoints'', checkpoint_filename] in
             rbind (map_err Db_Storage (sha256_file cpath fs)) (\<lambda>actual_checkpoint_hash.
             if actual_checkpoint_hash \<noteq> checkpoint_hash
             then Inl (Db_Integrity (lit ''manifest checkpoint'') checkpoint_hash
                         actual_checkpoint_hash)
             else
               rbind (read_checkpoint cpath fs)
                 (\<lambda>(checkpoint_generation, checkpoint_lsn, st, committed, checkpoint_state_hash).
               if checkpoint_generation \<noteq> generation \<or> checkpoint_lsn \<noteq> manifest_lsn
                  \<or> checkpoint_state_hash \<noteq> manifest_state_hash
               then Inl (Db_Invalid (lit ''manifest/checkpoint binding mismatch''))
               else Inr (st, committed, generation, checkpoint_lsn)))))))"

subsection \<open>Decoding the lists\<close>

lemma bset_insert_snoc: "bset_ok (xs @ [k]) \<Longrightarrow> bset_insert k xs = xs @ [k]"
  using bset_rebuild [of xs "[k]"] by simp

lemma bset_ok_append1: "bset_ok (xs @ y # ys) \<Longrightarrow> bset_ok (xs @ [y]) \<and> y \<notin> set xs"
  by (auto simp: bset_ok_def sorted_wrt_append)

lemma decode_committed_ok:
  assumes "bset_ok (acc @ cs)" and "list_all (\<lambda>c. length c = 16) cs"
    and "payload = pre @ concat cs @ rest" and "length payload < usize_limit"
  shows "decode_committed (length cs) payload (length pre) acc = Inr (acc @ cs, length (pre @ concat cs))"
  using assms
proof (induction cs arbitrary: acc pre)
  case Nil
  then show ?case by simp
next
  case (Cons c cs)
  have c: "length c = 16" using Cons.prems by simp
  have g: "get_range payload (length pre) (length pre + 16) = Some c"
    using Cons.prems(3) c by (simp add: get_range_def)
  have lim: "length pre + 16 < usize_limit" using Cons.prems(3,4) c by simp
  have nc: "c \<notin> set acc" "bset_insert c acc = acc @ [c]"
    using bset_ok_append1 Cons.prems(1) bset_insert_snoc by blast+
  have "decode_committed (length cs) payload (length (pre @ c)) (acc @ [c]) =
     Inr ((acc @ [c]) @ cs, length ((pre @ c) @ concat cs))"
    using Cons.prems by (intro Cons.IH) simp_all
  then show ?case using g lim nc c by simp
qed

definition state_entry_ok :: "segment_entry \<Rightarrow> bool" where
  "state_entry_ok e \<longleftrightarrow> (se_kind e = Record \<or> se_kind e = TypedEdge) \<and> validate_entry_payload e = Inr ()"

lemma length_encode_entry [len_simps]:
  "length (encode_entry_for_hash e) = 52 + length (se_payload e)"
  by (simp add: encode_entry_for_hash_def)

lemma decode_checkpoint_entry_ok:
  assumes "state_entry_ok e" and "payload = pre @ encode_entry_for_hash e @ rest"
    and "length payload < usize_limit"
  shows "decode_checkpoint_entry payload (length pre) = Inr (e, length (pre @ encode_entry_for_hash e))"
proof -
  let ?p = "se_payload e"
  define fx where "fx = u16_le (kind_code (se_kind e)) @ u16_le 0 @ u64_le (se_logical_id e)
     @ u64_le (of_nat (length ?p)) @ sha256 ?p"
  have lfx: "length fx = 52" by (simp add: fx_def)
  have pay: "payload = pre @ fx @ ?p @ rest" using assms(2) by (simp add: encode_entry_for_hash_def fx_def)
  have lim: "length pre + 52 < usize_limit" "length pre + 52 + length ?p < usize_limit"
    "length ?p < 2 ^ 64"
    using assms(3) lfx by (auto simp: pay usize_limit_def)
  have u: "unat (of_nat (length ?p) :: u64) = length ?p" using lim(3) by (simp add: unat_of_nat)
  have g1: "get_range payload (length pre) (length pre + 52) = Some fx"
    using lfx by (simp add: get_range_def pay)
  have g2: "get_range payload (length pre + 52) (length pre + 52 + length ?p) = Some ?p"
    using lfx by (simp add: get_range_def pay)
  have r: "db_read_u16 fx 0 = Inr (kind_code (se_kind e))" "db_read_u16 fx 2 = Inr 0"
    "db_read_u64 fx 4 = Inr (se_logical_id e)" "db_read_u64 fx 12 = Inr (of_nat (length ?p))"
    "db_read_digest fx 20 = Inr (sha256 ?p)"
    by (simp_all add: fx_def db_read_ok usize_limit_def)
  have ee: "\<lparr>se_kind = se_kind e, se_logical_id = se_logical_id e, se_payload = ?p\<rparr> = e" by simp
  have e: "entry_new (se_kind e) (se_logical_id e) ?p = Inr e"
    using assms(1) by (simp add: entry_new_def state_entry_ok_def Let_def ee)
  have k: "(if kind_code (se_kind e) = 1 then Inr Record
            else if kind_code (se_kind e) = 2 then Inr TypedEdge
            else Inl (Db_Invalid (lit ''checkpoint contains non-state kind ''
                   @ dec_bytes (unat (kind_code (se_kind e)))))) = Inr (se_kind e)"
    using assms(1) by (auto simp: state_entry_ok_def)
  show ?thesis
    unfolding decode_checkpoint_entry_def
    using lim by (simp add: g1 g2 [unfolded add.assoc] r k u e Let_def length_encode_entry add.assoc)
qed

lemma decode_checkpoint_entries_ok:
  assumes "list_all state_entry_ok es" and "payload = pre @ concat (map encode_entry_for_hash es) @ rest"
    and "length payload < usize_limit"
  shows "decode_checkpoint_entries (length es) payload (length pre) st =
     rbind (apply_all st es) (\<lambda>st'. Inr (st', length (pre @ concat (map encode_entry_for_hash es))))"
  using assms
proof (induction es arbitrary: pre st)
  case Nil
  then show ?case by simp
next
  case (Cons e es)
  have d: "decode_checkpoint_entry payload (length pre) = Inr (e, length (pre @ encode_entry_for_hash e))"
    using Cons.prems by (intro decode_checkpoint_entry_ok) simp_all
  have "decode_checkpoint_entries (length es) payload (length (pre @ encode_entry_for_hash e)) st' =
     rbind (apply_all st' es) (\<lambda>st''. Inr (st'',
       length ((pre @ encode_entry_for_hash e) @ concat (map encode_entry_for_hash es))))" for st'
    using Cons.prems by (intro Cons.IH) simp_all
  with d show ?case by (cases "state_apply st e") (simp_all add: add.assoc)
qed

subsection \<open>Rebuilding the state\<close>

lemma apply_all_append: "apply_all st (es @ fs) = rbind (apply_all st es) (\<lambda>st'. apply_all st' fs)"
proof (induction es arbitrary: st)
  case (Cons e es)
  then show ?case by (cases "state_apply st e") simp_all
qed simp

lemma apply_records:
  "list_all record_binding_ok m \<Longrightarrow>
   apply_all st (map snd m) = Inr (st\<lparr>rs_records := foldl (\<lambda>m (k, v). bt_insert k v m) (rs_records st) m\<rparr>)"
proof (induction m arbitrary: st)
  case Nil
  then show ?case by simp
next
  case (Cons p m)
  obtain l node up where ok: "operation_ok (PutRecordOp l (fst p) node up)"
    and sp: "snd p = operation_entry (PutRecordOp l (fst p) node up)"
    using Cons.prems by (auto simp: record_binding_ok_def simp del: operation_ok.simps operation_entry.simps)
  have "state_apply st (snd p) = Inr (st\<lparr>rs_records := bt_insert (fst p) (snd p) (rs_records st)\<rparr>)"
    unfolding sp using state_apply_operation [OF ok] by simp
  with Cons show ?case by (simp add: case_prod_beta)
qed

lemma apply_edges:
  "list_all edge_binding_ok m \<Longrightarrow>
   apply_all st (map snd m) = Inr (st\<lparr>rs_edges := foldl (\<lambda>m (k, v). bt_insert k v m) (rs_edges st) m\<rparr>)"
proof (induction m arbitrary: st)
  case Nil
  then show ?case by simp
next
  case (Cons p m)
  obtain l s d t w where k: "fst p = EdgeKey s d t w" and ok: "operation_ok (PutEdgeOp l s d t w)"
    and sp: "snd p = operation_entry (PutEdgeOp l s d t w)"
    using Cons.prems by (auto simp: edge_binding_ok_def simp del: operation_ok.simps operation_entry.simps)
  have "state_apply st (snd p) = Inr (st\<lparr>rs_edges := bt_insert (fst p) (snd p) (rs_edges st)\<rparr>)"
    unfolding sp k using state_apply_operation [OF ok] by simp
  with Cons show ?case by (simp add: case_prod_beta)
qed

lemma apply_state_entries:
  assumes "state_inv st"
  shows "apply_all empty_state (state_entries st) = Inr st"
proof -
  have "foldl (\<lambda>m (k, v). bt_insert k v m) [] (rs_records st) = rs_records st"
    "foldl (\<lambda>m (k, v). bt_insert k v m) [] (rs_edges st) = rs_edges st"
    using assms bt.rebuild by (auto simp: state_inv_def)
  then show ?thesis
    using assms by (simp add: state_entries_def bt_values_def apply_all_append state_inv_def apply_records
        apply_edges empty_state_def)
qed

lemma state_entries_ok: "state_inv st \<Longrightarrow> list_all state_entry_ok (state_entries st)"
proof -
  assume inv: "state_inv st"
  have "state_entry_ok (snd p)" if "record_binding_ok p" for p
    using that operation_entry_valid by (auto simp: record_binding_ok_def state_entry_ok_def
        simp del: operation_ok.simps) (metis operation_entry.simps(1))
  moreover have "state_entry_ok (snd p)" if "edge_binding_ok p" for p
    using that operation_entry_valid by (auto simp: edge_binding_ok_def state_entry_ok_def
        simp del: operation_ok.simps) (metis operation_entry.simps(3))
  ultimately show ?thesis
    using inv by (auto simp: state_inv_def state_entries_def bt_values_def list_all_iff)
qed

subsection \<open>Round trips\<close>

definition committed_ok :: "tx_id list \<Rightarrow> bool" where
  "committed_ok cs \<longleftrightarrow> bset_ok cs \<and> list_all (\<lambda>c. length c = 16) cs"

lemma length_concat_committed: "list_all (\<lambda>c. length c = 16) cs \<Longrightarrow> length (concat cs) = 16 * length cs"
  by (induction cs) simp_all

lemma length_entries_le: "length es \<le> length (concat (map encode_entry_for_hash es))"
  by (induction es) (simp_all add: length_encode_entry)

lemma length_state_entries: "length (state_entries st) = length (rs_records st) + length (rs_edges st)"
  by (simp add: state_entries_def bt_values_def)

lemma checkpoint_payload_roundtrip:
  assumes inv: "state_inv st" and com: "committed_ok cs"
    and lim: "length (encode_checkpoint_payload lsn st cs) < usize_limit"
  shows "decode_checkpoint_payload (encode_checkpoint_payload lsn st cs) =
     Inr (lsn, st, cs, state_hash st)"
proof -
  let ?n = "length (rs_records st)" and ?m = "length (rs_edges st)" and ?es = "state_entries st"
  define hd where "hd = u64_le lsn @ state_hash st @ u64_le (of_nat ?n) @ u64_le (of_nat ?m)
     @ u64_le (of_nat (length cs))"
  have lh: "length hd = 64" by (simp add: hd_def)
  define p where "p = encode_checkpoint_payload lsn st cs"
  have p: "p = hd @ concat cs @ concat (map encode_entry_for_hash ?es)"
    by (simp add: p_def encode_checkpoint_payload_def state_counts_def hd_def)
  have c16: "list_all (\<lambda>c. length c = 16) cs" using com by (simp add: committed_ok_def)
  have lp: "length p < usize_limit" using lim by (simp add: p_def)
  have le: "64 + 16 * length cs + length (concat (map encode_entry_for_hash ?es)) < usize_limit"
    using lp lh by (simp add: p length_concat_committed [OF c16])
  then have cnt: "?n + ?m < usize_limit" "length cs < usize_limit"
    using length_entries_le [of ?es] by (simp_all add: length_state_entries)
  then have u: "unat (of_nat ?n :: u64) = ?n" "unat (of_nat ?m :: u64) = ?m"
    "unat (of_nat (length cs) :: u64) = length cs"
    by (simp_all add: usize_limit_def unat_of_nat)
  have r: "db_read_u64 p 0 = Inr lsn" "db_read_digest p 8 = Inr (state_hash st)"
    "db_read_u64 p 40 = Inr (of_nat ?n)" "db_read_u64 p 48 = Inr (of_nat ?m)"
    "db_read_u64 p 56 = Inr (of_nat (length cs))"
    by (simp_all add: p hd_def db_read_ok usize_limit_def)
  have dc: "decode_committed (length cs) p 64 [] = Inr (cs, length (hd @ concat cs))"
    using decode_committed_ok [of "[]" cs p hd "concat (map encode_entry_for_hash ?es)"] com lp
    by (simp add: p lh committed_ok_def)
  have de: "decode_checkpoint_entries (?n + ?m) p (length (hd @ concat cs)) empty_state = Inr (st, length p)"
    using decode_checkpoint_entries_ok [OF state_entries_ok [OF inv], of p "hd @ concat cs" "[]" empty_state]
      lp apply_state_entries [OF inv] by (simp add: p length_state_entries)
  have l64: "\<not> length p < 64" using lh by (simp add: p)
  show ?thesis
    unfolding p_def [symmetric] decode_checkpoint_payload_def
    using cnt by (simp add: l64 r u dc de [unfolded length_append])
qed

lemma file_header_same:
  "encode_file_header magic g n k d = file_header_encode (file_header_new magic g n k d)"
  by (simp add: encode_file_header_def file_header_encode_def file_header_new_def STORAGE_MAJOR_def
      STORAGE_MINOR_def)

lemma db_read_versioned_ok:
  assumes "length magic = 8" and "80 + length payload < usize_limit"
  shows "db_read_versioned_bytes path (versioned_file_bytes magic g n payload) magic = Inr (g, n, payload)"
proof -
  define h where "h = encode_file_header magic g (of_nat (length payload)) n (sha256 payload)"
  have f: "versioned_file_bytes magic g n payload = h @ payload"
    by (simp add: versioned_file_bytes_def h_def file_header_same)
  have l: "length h = 80" using assms(1) by (simp add: h_def encode_file_header_def)
  have u: "unat (of_nat (length payload) :: u64) = length payload"
    using assms(2) by (simp add: usize_limit_def unat_of_nat)
  have r: "slice h 0 8 = magic" "db_read_u16 h 8 = Inr 1" "db_read_u16 h 10 = Inr 0"
    "db_read_u32 h 12 = Inr 80" "db_read_u64 h 40 = Inr 0" "db_read_u64 h 16 = Inr g"
    "db_read_u64 h 24 = Inr (of_nat (length payload))" "db_read_u64 h 32 = Inr n"
    "db_read_digest h 48 = Inr (sha256 payload)"
    using assms(1) by (simp_all add: h_def encode_file_header_def db_read_ok usize_limit_def slice_def)
  show ?thesis
    using assms(2) by (simp add: db_read_versioned_bytes_def f l r u Let_def)
qed

definition manifest_payload :: "u64 \<Rightarrow> u64 \<Rightarrow> bytes \<Rightarrow> bytes \<Rightarrow> str \<Rightarrow> bytes" where
  "manifest_payload g lsn sh ch name = MANIFEST_PAYLOAD_MAGIC @ u64_le g @ u64_le lsn @ sh @ ch
     @ u32_le (of_nat (length name)) @ u32_le 0 @ name"

lemma manifest_payload_ok:
  assumes v: "validate_single_filename name (lit ''CHECKPOINT-'') (lit ''.ubchk'') = Inr ()"
    and n: "length name < 2 ^ 32" and u8: "utf8_valid name" and "length sh = 32" and "length ch = 32"
  shows "encode_manifest_payload g lsn sh ch name = Inr (manifest_payload g lsn sh ch name)"
    and "decode_manifest_payload (manifest_payload g lsn sh ch name) = Inr (g, lsn, sh, ch, name)"
    and "length (manifest_payload g lsn sh ch name) = 96 + length name"
proof -
  show "encode_manifest_payload g lsn sh ch name = Inr (manifest_payload g lsn sh ch name)"
    using v n by (simp add: encode_manifest_payload_def manifest_payload_def)
  have un: "unat (of_nat (length name) :: u32) = length name" using n by (simp add: unat_of_nat)
  have lim: "96 + length name < usize_limit" using n by (simp add: usize_limit_def)
  show "decode_manifest_payload (manifest_payload g lsn sh ch name) = Inr (g, lsn, sh, ch, name)"
    using assms lim by (simp add: decode_manifest_payload_def manifest_payload_def slice_def db_read_ok
        usize_limit_def un)
qed (use assms in \<open>simp add: manifest_payload_def\<close>)

definition checkpoint_name :: "u64 \<Rightarrow> str" where
  "checkpoint_name g = lit ''CHECKPOINT-'' @ pad020 g @ lit ''.ubchk''"

lemma pad020_name_facts:
  assumes "ascii a" and "ascii b" and "0x2F \<notin> set a" and "0x2F \<notin> set b" and "3 \<le> length a"
  shows "utf8_valid (a @ pad020 g @ b)" and "path_components (a @ pad020 g @ b) = [Normal (a @ pad020 g @ b)]"
    and "\<not> path_is_absolute (a @ pad020 g @ b)"
proof -
  let ?n = "a @ pad020 g @ b"
  have ns: "0x2F \<notin> set ?n" using assms digits_no_slash [OF pad020_digits] by simp
  have nd: "?n \<noteq> []" "?n \<noteq> lit ''.''" "?n \<noteq> lit ''..''"
    using assms(5) by (auto dest!: arg_cong [where f = length] simp del: length_greater_0_conv)
  show "utf8_valid ?n" using assms digits_ascii [OF pad020_digits] by (intro ascii_utf8_valid) simp
  show "path_components ?n = [Normal ?n]" "\<not> path_is_absolute ?n"
    using path_components_simple [OF ns nd] by auto
qed

lemma length_dec_bytes: "n < 10 ^ k \<Longrightarrow> 0 < k \<Longrightarrow> length (dec_bytes n) \<le> k"
proof (induction n arbitrary: k rule: dec_bytes.induct)
  case (1 n)
  show ?case
  proof (cases "n < 10")
    case True
    with 1 show ?thesis by (subst dec_bytes.simps) simp
  next
    case False
    then obtain k' where k: "k = Suc k'" "0 < k'"
      using 1 by (cases k) (auto, metis False gr0I mult.right_neutral power_0)
    then have "n div 10 < 10 ^ k'" using 1 by (simp add: less_mult_imp_div_less)
    with 1 k False show ?thesis by (subst dec_bytes.simps) simp
  qed
qed

lemma length_pad020: "length (pad020 g) = 20"
proof -
  have "unat g < 2 ^ 64" using unsigned_less [of g] by simp
  then have "unat g < 10 ^ 20" by simp
  then have "length (dec_bytes (unat g)) \<le> 20" by (rule length_dec_bytes) simp
  then show ?thesis by (simp add: pad020_def Let_def)
qed

lemma checkpoint_name_ok:
  "validate_single_filename (checkpoint_name g) (lit ''CHECKPOINT-'') (lit ''.ubchk'') = Inr ()"
  "utf8_valid (checkpoint_name g)" "length (checkpoint_name g) = 37"
proof -
  have a: "ascii (lit ''CHECKPOINT-'')" "ascii (lit ''.ubchk'')" "0x2F \<notin> set (lit ''CHECKPOINT-'')"
    "0x2F \<notin> set (lit ''.ubchk'')" "3 \<le> length (lit ''CHECKPOINT-'')"
    by (simp_all add: lit_def ascii_def)
  note f = pad020_name_facts [OF a, of g, folded checkpoint_name_def]
  have "checkpoint_name g \<noteq> []" by (simp add: checkpoint_name_def lit_def)
  with f show "validate_single_filename (checkpoint_name g) (lit ''CHECKPOINT-'') (lit ''.ubchk'') = Inr ()"
    by (simp add: validate_single_filename_def is_normal_def) (simp add: checkpoint_name_def)
  show "utf8_valid (checkpoint_name g)" by (fact f)
  show "length (checkpoint_name g) = 37" by (simp add: checkpoint_name_def length_pad020)
qed

lemma manifest_head_ok:
  assumes "length d = 32"
  shows "head_wf \<lparr>hd_generation = g, hd_manifest_filename = manifest_name g', hd_manifest_sha256 = d\<rparr>"
proof -
  have a: "ascii (lit ''MANIFEST-'')" "ascii (lit ''.ubmeta'')" "0x2F \<notin> set (lit ''MANIFEST-'')"
    "0x2F \<notin> set (lit ''.ubmeta'')" "3 \<le> length (lit ''MANIFEST-'')"
    by (simp_all add: lit_def ascii_def)
  note f = pad020_name_facts [OF a, of g', folded manifest_name_def]
  have "manifest_name g' \<noteq> []" "length (manifest_name g') = 36"
    by (simp_all add: manifest_name_def lit_def length_pad020)
  with f assms show ?thesis
    by (simp add: head_wf_def validate_filename_def is_normal_def Let_def) (simp add: manifest_name_def)
qed

subsection \<open>Writing and loading\<close>

definition checkpoint_file :: "u64 \<Rightarrow> u64 \<Rightarrow> recovered_state \<Rightarrow> tx_id list \<Rightarrow> bytes" where
  "checkpoint_file g lsn st cs =
     versioned_file_bytes CHECKPOINT_MAGIC g
       (of_nat (length (rs_records st) + length (rs_edges st))) (encode_checkpoint_payload lsn st cs)"

lemma length_checkpoint_payload_ge:
  "committed_ok cs \<Longrightarrow>
   64 + length (rs_records st) + length (rs_edges st) \<le> length (encode_checkpoint_payload lsn st cs)"
  using length_entries_le [of "state_entries st"]
  by (simp add: encode_checkpoint_payload_def state_counts_def length_state_entries)

lemma db_publish_new:
  assumes "fget fs t = Some bs" and "\<not> fs_exists fs p" and "butlast p \<in> fs_dirs fs" and "p \<noteq> []"
  shows "db_publish_immutable t p fs = (Inr (), fput p bs (fdel t fs))"
  using assms by (simp add: db_publish_immutable_def io_bind_def io_map_err_def fs_rename_def
      io_pure_def path_parent_def sync_dir_def fs_exists_def)

lemma write_checkpoint_ok:
  assumes pub: "publishable fs p" and new: "fget fs p = None" and com: "committed_ok cs"
    and lim: "length (encode_checkpoint_payload lsn st cs) < usize_limit"
  shows "\<exists>fs'. write_checkpoint p g lsn st cs fs = (Inr (), fs') \<and>
     fs_installs p (checkpoint_file g lsn st cs) fs fs'"
proof -
  let ?n = "length (rs_records st)" and ?m = "length (rs_edges st)"
  let ?pl = "encode_checkpoint_payload lsn st cs"
  let ?h = "encode_file_header CHECKPOINT_MAGIC g (of_nat (length ?pl)) (of_nat (?n + ?m)) (sha256 ?pl)"
  let ?fs0 = "fs\<lparr>fs_tick := Suc (fs_tick fs)\<rparr>"
  have np: "p \<noteq> []" "butlast p \<in> fs_dirs fs" "p \<notin> fs_dirs fs" using pub by (auto simp: publishable_def)
  have cnt: "?n + ?m < usize_limit" using length_checkpoint_payload_ge [OF com, of st lsn] lim by simp
  then have u: "unat (of_nat ?n :: u64) = ?n" "unat (of_nat ?m :: u64) = ?m"
    by (simp_all add: usize_limit_def unat_of_nat)
  obtain t where t: "db_temporary_path p fs = (Inr t, ?fs0)" and bl: "butlast t = butlast p"
    and ne: "t \<noteq> p" and no: "fget fs t = None" "t \<notin> fs_dirs fs"
    using pub unfolding publishable_def db_temporary_path_def by (metis quiet_temporary)
  let ?fs1 = "fput t [] ?fs0"
  let ?fs2 = "fput t ?h ?fs1"
  let ?fs3 = "fput t (?h @ ?pl) ?fs2"
  have c: "create_new t [] ?fs0 = (Inr (), ?fs1)"
    using no bl np by (simp add: create_new_def fs_exists_def)
  have w: "write_all t ?h ?fs1 = (Inr (), ?fs2)" "write_all t ?pl ?fs2 = (Inr (), ?fs3)"
    by (simp_all add: write_all_def)
  have pb: "db_publish_immutable t p ?fs3 = (Inr (), fput p (?h @ ?pl) (fdel t ?fs3))"
    using np new ne by (intro db_publish_new) (auto simp: fs_exists_def)
  have cp: "(case path_parent p of None \<Rightarrow> io_ret ()
              | Some parent \<Rightarrow> io_map_err Db_Io (create_dir_all parent)) fs = (Inr (), fs)"
    using np by (simp add: path_parent_def io_map_err_def create_dir_all_def)
  have "write_checkpoint p g lsn st cs fs = (Inr (), fput p (?h @ ?pl) (fdel t ?fs3))"
    unfolding write_checkpoint_def
    using cnt c w pb by (simp add: io_bind_ok [where m = "case path_parent p of None \<Rightarrow> _ | Some x \<Rightarrow> _ x", OF cp]
        state_counts_def u io_pure_def t io_map_err_def Let_def)
  moreover have "fs_installs p (?h @ ?pl) fs (fput p (?h @ ?pl) (fdel t ?fs3))"
    using no ne by (auto simp: fs_installs_def fun_eq_iff)
  ultimately show ?thesis
    by (auto simp: checkpoint_file_def versioned_file_bytes_def file_header_same)
qed

definition checkpoint_path :: "page_store \<Rightarrow> u64 \<Rightarrow> path" where
  "checkpoint_path store g = ps_root store @ [lit ''checkpoints'', checkpoint_name g]"

text \<open>The files of a published checkpoint.\<close>

definition checkpoint_manifest :: "u64 \<Rightarrow> u64 \<Rightarrow> recovered_state \<Rightarrow> tx_id list \<Rightarrow> bytes" where
  "checkpoint_manifest g lsn st cs = versioned_file_bytes MAGIC_MANIFEST g 1
     (manifest_payload g lsn (state_hash st) (sha256 (checkpoint_file g lsn st cs)) (checkpoint_name g))"

definition checkpoint_head :: "u64 \<Rightarrow> u64 \<Rightarrow> recovered_state \<Rightarrow> tx_id list \<Rightarrow> head" where
  "checkpoint_head g lsn st cs = \<lparr>hd_generation = g, hd_manifest_filename = manifest_name g,
     hd_manifest_sha256 = sha256 (checkpoint_manifest g lsn st cs)\<rparr>"

definition checkpoint_published ::
  "page_store \<Rightarrow> fsys \<Rightarrow> u64 \<Rightarrow> u64 \<Rightarrow> recovered_state \<Rightarrow> tx_id list \<Rightarrow> bool" where
  "checkpoint_published store fs g lsn st cs \<longleftrightarrow>
     fget fs (checkpoint_path store g) = Some (checkpoint_file g lsn st cs) \<and>
     fget fs (manifest_path store (manifest_name g)) = Some (checkpoint_manifest g lsn st cs) \<and>
     fget fs (head_path store) = Some (head_file_bytes (checkpoint_head g lsn st cs))"

lemma checkpoint_head_wf: "head_wf (checkpoint_head g lsn st cs)"
  unfolding checkpoint_head_def by (rule manifest_head_ok) simp

lemma load_checkpoint_ok:
  assumes pub: "checkpoint_published store fs g lsn st cs" and inv: "state_inv st"
    and com: "committed_ok cs" and lim: "80 + length (encode_checkpoint_payload lsn st cs) < usize_limit"
  shows "load_checkpoint store fs = Inr (st, cs, g, lsn)"
proof -
  let ?h = "checkpoint_head g lsn st cs" and ?cf = "checkpoint_file g lsn st cs"
  let ?mp = "manifest_payload g lsn (state_hash st) (sha256 ?cf) (checkpoint_name g)"
  have h: "read_head store fs = Inr (Some ?h)"
    using pub by (intro read_head_installed [OF checkpoint_head_wf]) (simp add: checkpoint_published_def)
  have n32: "length (checkpoint_name g) < 2 ^ 32" by (simp add: checkpoint_name_ok)
  note mp = manifest_payload_ok [OF checkpoint_name_ok(1) n32 checkpoint_name_ok(2), of "state_hash st" "sha256 ?cf" g lsn]
  have "80 + length ?mp < usize_limit" using mp(3) by (simp add: checkpoint_name_ok usize_limit_def)
  then have rm: "db_read_versioned_file (manifest_path store (manifest_name g)) MAGIC_MANIFEST fs = Inr (g, 1, ?mp)"
    using pub by (simp add: db_read_versioned_file_def fs_read_def checkpoint_published_def checkpoint_manifest_def
        db_read_versioned_ok)
  have rc: "read_checkpoint (checkpoint_path store g) fs = Inr (g, lsn, st, cs, state_hash st)"
    using pub lim inv com by (simp add: read_checkpoint_def db_read_versioned_file_def fs_read_def
        checkpoint_published_def checkpoint_file_def db_read_versioned_ok checkpoint_payload_roundtrip)
  have sm: "sha256_file (manifest_path store (manifest_name g)) fs = Inr (hd_manifest_sha256 ?h)"
    and sc: "sha256_file (checkpoint_path store g) fs = Inr (sha256 ?cf)"
    using pub by (simp_all add: sha256_file_def fs_read_def checkpoint_published_def checkpoint_head_def)
  have hf: "hd_manifest_filename ?h = manifest_name g" "hd_generation ?h = g"
    by (simp_all add: checkpoint_head_def)
  show ?thesis
    unfolding load_checkpoint_def
    using mp(2) rc sc by (simp add: h hf sm rm Let_def checkpoint_path_def)
qed

lemma load_checkpoint_none:
  "\<not> fs_exists fs (head_path store) \<Longrightarrow> load_checkpoint store fs = Inr (empty_state, [], 0, 0)"
  by (simp add: load_checkpoint_def read_head_def)

text \<open>
  Checkpoints lose nothing: decoding the payload that is written for a well-formed
  state and committed set gives back the sequence number, exactly that state, exactly that
  set and the hash of the state.
\<close>

theorem checkpoint_codec_roundtrip:
  assumes "state_inv st" and "committed_ok cs"
    and "length (encode_checkpoint_payload lsn st cs) < usize_limit"
  shows "decode_checkpoint_payload (encode_checkpoint_payload lsn st cs) = Inr (lsn, st, cs, state_hash st)"
  by (rule checkpoint_payload_roundtrip [OF assms])

theorem checkpoint_codec_roundtrip_witness:
  "decode_checkpoint_payload (encode_checkpoint_payload 7
       (operation_apply (PutEdgeOp 1 2 3 4 0) empty_state) [replicate 16 1]) =
     Inr (7, operation_apply (PutEdgeOp 1 2 3 4 0) empty_state, [replicate 16 1],
       state_hash (operation_apply (PutEdgeOp 1 2 3 4 0) empty_state))"
proof (rule checkpoint_codec_roundtrip)
  show "state_inv (operation_apply (PutEdgeOp 1 2 3 4 0) empty_state)"
    by (rule state_inv_operation [OF state_inv_empty demo_edge_ok])
  show "committed_ok [replicate 16 1]" by (simp add: committed_ok_def bset_ok_def)
  show "length (encode_checkpoint_payload 7 (operation_apply (PutEdgeOp 1 2 3 4 0) empty_state)
     [replicate 16 1]) < usize_limit"
    by (simp add: encode_checkpoint_payload_def state_counts_def empty_state_def state_entries_def
        bt_values_def encode_entry_for_hash_def usize_limit_def)
qed

end
