(* ===== verification/Ub_Durable.thy ===== *)
theory Ub_Durable
  imports Ub_Checkpoint
begin

text \<open>
  The durable database of \<open>ultraballoondb-lifecycle/src/durable.rs\<close>: creation, opening
  with recovery, durable commit, checkpoint, and the reads of records and edges. A commit
  writes the segment, then the frames of the transaction to the log, and only then changes
  the state in memory. The file system is a parameter of every operation and so is the
  database value; an operation that fails half-way returns the database and the file system
  as it leaves them.
\<close>

subsection \<open>The database\<close>

record recovery_receipt =
  rr_checkpoint_generation :: u64
  rr_checkpoint_lsn :: u64
  rr_maximum_valid_wal_lsn :: u64
  rr_replayed_transaction_count :: nat
  rr_ignored_uncommitted_count :: nat
  rr_repaired_trailing_bytes :: nat
  rr_record_count :: u64
  rr_edge_count :: u64
  rr_state_sha256 :: bytes
  rr_restart_deterministic :: bool

record durable_database =
  dd_store :: page_store
  dd_wal_path :: path
  dd_wal :: wal_writer
  dd_state :: recovered_state
  dd_committed :: "tx_id list"
  dd_last_lsn :: u64
  dd_recovery :: recovery_receipt

definition default_wal_path :: "path \<Rightarrow> path" where
  "default_wal_path root =
     root @ [lit ''wal'', lit ''WAL-00000000000000000001-00000000000000000000.ubwal'']"

definition db_create :: "path \<Rightarrow> (durable_error, durable_database) io" where
  "db_create root =
     io_bind (io_map_err Db_Storage (page_store_create root)) (\<lambda>store.
     let wal_path = default_wal_path (ps_root store) in
     io_bind (io_map_err Db_Wal (wal_open wal_path True)) (\<lambda>wal.
     io_ret \<lparr>dd_store = store, dd_wal_path = wal_path, dd_wal = wal, dd_state = empty_state,
             dd_committed = [], dd_last_lsn = 0,
             dd_recovery = \<lparr>rr_checkpoint_generation = 0, rr_checkpoint_lsn = 0,
               rr_maximum_valid_wal_lsn = 0, rr_replayed_transaction_count = 0,
               rr_ignored_uncommitted_count = 0, rr_repaired_trailing_bytes = 0,
               rr_record_count = 0, rr_edge_count = 0, rr_state_sha256 = state_hash empty_state,
               rr_restart_deterministic = True\<rparr>\<rparr>))"

definition db_open :: "path \<Rightarrow> bool \<Rightarrow> (durable_error, durable_database) io" where
  "db_open root repair_trailing =
     io_bind (io_query (\<lambda>fs. map_err Db_Storage (page_store_open root fs))) (\<lambda>store.
     io_bind (io_query (load_checkpoint store))
       (\<lambda>(st0, committed0, checkpoint_generation, checkpoint_lsn).
     let wal_path = default_wal_path (ps_root store) in
     io_bind (io_map_err Db_Wal (scan_wal wal_path repair_trailing)) (\<lambda>scan.
     io_bind (io_pure (replay_after_checkpoint st0 committed0 checkpoint_lsn scan))
       (\<lambda>(st, committed, replayed, ignored).
     io_bind (io_map_err Db_Wal (wal_open wal_path False)) (\<lambda>wal.
     io_ret \<lparr>dd_store = store, dd_wal_path = wal_path, dd_wal = wal, dd_state = st,
             dd_committed = committed, dd_last_lsn = ws_maximum_lsn scan,
             dd_recovery = \<lparr>rr_checkpoint_generation = checkpoint_generation,
               rr_checkpoint_lsn = checkpoint_lsn,
               rr_maximum_valid_wal_lsn = ws_maximum_lsn scan,
               rr_replayed_transaction_count = replayed, rr_ignored_uncommitted_count = ignored,
               rr_repaired_trailing_bytes = ws_repaired_trailing_bytes scan,
               rr_record_count = fst (state_counts st), rr_edge_count = snd (state_counts st),
               rr_state_sha256 = state_hash st, rr_restart_deterministic = True\<rparr>\<rparr>)))))"

definition next_generation :: "durable_database \<Rightarrow> durable_error + u64" where
  "next_generation db =
     ok_or (Db_Invalid (lit ''checkpoint generation overflow''))
       (let g = rr_checkpoint_generation (dd_recovery db) in if g = - 1 then None else Some (g + 1))"

definition next_segment_sequence :: "durable_database \<Rightarrow> durable_error + u64" where
  "next_segment_sequence db =
     ok_or (Db_Invalid (lit ''segment sequence overflow''))
       (let n = rr_maximum_valid_wal_lsn (dd_recovery db) in if n = - 1 then None else Some (n + 1))"

subsection \<open>Appending a transaction\<close>

text \<open>
  Computations on the log writer and the file system; a failing append leaves the writer
  where the previous appends have put it.
\<close>

type_synonym ('e, 'a) wio = "wal_writer \<Rightarrow> fsys \<Rightarrow> ('e + 'a) \<times> wal_writer \<times> fsys"

definition wio_ret :: "'a \<Rightarrow> ('e, 'a) wio" where
  "wio_ret x w fs = (Inr x, w, fs)"

definition wio_bind :: "('e, 'a) wio \<Rightarrow> ('a \<Rightarrow> ('e, 'b) wio) \<Rightarrow> ('e, 'b) wio" where
  "wio_bind m f w fs =
     (case m w fs of (Inl e, w', fs') \<Rightarrow> (Inl e, w', fs') | (Inr x, w', fs') \<Rightarrow> f x w' fs')"

definition append_frame :: "frame_type \<Rightarrow> bytes \<Rightarrow> bytes \<Rightarrow> (durable_error, u64) wio" where
  "append_frame frame_type transaction_id payload w fs =
     (case wal_append w frame_type transaction_id payload fs of
        (Inl e, fs') \<Rightarrow> (Inl (Db_Wal e), w, fs')
      | (Inr (lsn, w'), fs') \<Rightarrow> (Inr lsn, w', fs'))"

fun append_operations :: "tx_id \<Rightarrow> segment_entry list \<Rightarrow> (durable_error, unit) wio" where
  "append_operations transaction_id [] = wio_ret ()"
| "append_operations transaction_id (entry # entries) =
     wio_bind (\<lambda>w fs. (frame_type_for_entry entry, w, fs)) (\<lambda>frame_type.
     wio_bind (append_frame frame_type transaction_id (encode_operation_payload entry)) (\<lambda>_.
     append_operations transaction_id entries))"

definition append_transaction :: "prepared_batch \<Rightarrow> bytes \<Rightarrow> (durable_error, u64 \<times> u64) wio" where
  "append_transaction prepared candidate_state_hash =
     wio_bind (append_frame Begin (pb_transaction_id prepared) (encode_begin_payload prepared))
       (\<lambda>begin_lsn.
     wio_bind (append_operations (pb_transaction_id prepared) (pb_entries prepared)) (\<lambda>_.
     wio_bind (append_frame Commit (pb_transaction_id prepared)
                 (encode_commit_payload prepared candidate_state_hash)) (\<lambda>commit_lsn.
     wio_ret (begin_lsn, commit_lsn))))"

subsection \<open>Commit\<close>

record commit_receipt =
  cr_transaction_id :: tx_id
  cr_begin_lsn :: u64
  cr_commit_lsn :: u64
  cr_operation_count :: nat
  cr_batch_digest :: bytes
  cr_state_sha256 :: bytes
  cr_segment_path :: path
  cr_segment_file_sha256 :: bytes
  cr_durable_commit :: bool
  cr_wal_recorded :: bool
  cr_wal_fsynced :: bool
  cr_segment_materialized :: bool
  cr_head_published :: bool
  cr_active_runtime_changed :: bool

definition commit_prepared ::
  "durable_database \<Rightarrow> prepared_batch \<Rightarrow> u64 \<Rightarrow> u64 \<Rightarrow> fsys \<Rightarrow>
   (durable_error + commit_receipt) \<times> durable_database \<times> fsys" where
  "commit_prepared db prepared generation seqno fs =
     (let transaction_id = pb_transaction_id prepared in
      if transaction_id \<in> set (dd_committed db)
      then (Inl (Db_DuplicateTransaction transaction_id), db, fs)
      else
        case write_segment (dd_store db) generation seqno (pb_entries prepared) fs of
          (Inl e, fs1) \<Rightarrow> (Inl (Db_Storage e), db, fs1)
        | (Inr segment, fs1) \<Rightarrow>
        case sha256_file (ir_path segment) fs1 of
          Inl e \<Rightarrow> (Inl (Db_Storage e), db, fs1)
        | Inr segment_file_sha256 \<Rightarrow>
        case apply_all (dd_state db) (pb_entries prepared) of
          Inl e \<Rightarrow> (Inl e, db, fs1)
        | Inr candidate \<Rightarrow>
        let candidate_state_hash = state_hash candidate in
        case append_transaction prepared candidate_state_hash (dd_wal db) fs1 of
          (Inl e, w, fs2) \<Rightarrow> (Inl e, db\<lparr>dd_wal := w\<rparr>, fs2)
        | (Inr (begin_lsn, commit_lsn), w, fs2) \<Rightarrow>
          (Inr \<lparr>cr_transaction_id = transaction_id, cr_begin_lsn = begin_lsn,
                cr_commit_lsn = commit_lsn, cr_operation_count = length (pb_entries prepared),
                cr_batch_digest = pb_batch_digest prepared,
                cr_state_sha256 = candidate_state_hash, cr_segment_path = ir_path segment,
                cr_segment_file_sha256 = segment_file_sha256, cr_durable_commit = True,
                cr_wal_recorded = True, cr_wal_fsynced = True, cr_segment_materialized = True,
                cr_head_published = False, cr_active_runtime_changed = False\<rparr>,
           db\<lparr>dd_wal := w, dd_state := candidate,
              dd_committed := bset_insert transaction_id (dd_committed db),
              dd_last_lsn := commit_lsn\<rparr>, fs2))"

text \<open>\<open>TransactionCore::commit_durable\<close>: the error of the database becomes a message.\<close>

definition commit_durable ::
  "(durable_error \<Rightarrow> str) \<Rightarrow> transaction_core \<Rightarrow> durable_database \<Rightarrow> u64 \<Rightarrow> u64 \<Rightarrow> fsys \<Rightarrow>
   (transaction_error + commit_receipt) \<times> transaction_core \<times> durable_database \<times> fsys" where
  "commit_durable display c db generation seqno fs =
     (case tc_active c of
        None \<Rightarrow> (Inl Tx_NoActiveTransaction, c, db, fs)
      | Some active \<Rightarrow>
          if at_state active \<noteq> Prepared
          then (Inl (Tx_InvalidState (lit ''commit_durable'') (at_state active)), c, db, fs)
          else
            case at_prepared active of
              None \<Rightarrow> (Inl (Tx_Integrity (lit ''prepared state has no batch'')), c, db, fs)
            | Some prepared \<Rightarrow>
                case commit_prepared db prepared generation seqno fs of
                  (Inl e, db', fs') \<Rightarrow>
                    (Inl (Tx_Integrity (lit ''durable commit failed: '' @ display e)), c, db', fs')
                | (Inr receipt, db', fs') \<Rightarrow> (Inr receipt, mark_committed c, db', fs'))"

subsection \<open>Checkpoint\<close>

record checkpoint_receipt =
  kr_generation :: u64
  kr_checkpoint_lsn :: u64
  kr_state_sha256 :: bytes
  kr_checkpoint_path :: path
  kr_checkpoint_file_sha256 :: bytes
  kr_manifest_path :: path
  kr_manifest_file_sha256 :: bytes
  kr_head_path :: path
  kr_head_published :: bool
  kr_wal_checkpoint_recorded :: bool

text \<open>What \<open>checkpoint\<close> does after the log append; it does not touch the database value.\<close>

definition publish_checkpoint ::
  "durable_database \<Rightarrow> u64 \<Rightarrow> u64 \<Rightarrow> bytes \<Rightarrow> (durable_error, checkpoint_receipt) io" where
  "publish_checkpoint db generation checkpoint_lsn state_sha256 =
     (let cpath = ps_root (dd_store db) @ [lit ''checkpoints'', checkpoint_name generation] in
      io_bind (write_checkpoint cpath generation checkpoint_lsn (dd_state db) (dd_committed db)) (\<lambda>_.
      io_bind (io_query (\<lambda>fs. map_err Db_Storage (sha256_file cpath fs))) (\<lambda>checkpoint_file_sha256.
      io_bind (io_pure (encode_manifest_payload generation checkpoint_lsn state_sha256
                 checkpoint_file_sha256 (last cpath))) (\<lambda>mpayload.
      io_bind (io_map_err Db_Storage (write_manifest (dd_store db) generation 1 mpayload)) (\<lambda>manifest.
      io_bind (io_query (\<lambda>fs. map_err Db_Storage (sha256_file (ir_path manifest) fs)))
        (\<lambda>manifest_file_sha256.
      io_bind (io_map_err Db_Storage (publish_head (dd_store db)
                 \<lparr>hd_generation = generation, hd_manifest_filename = last (ir_path manifest),
                  hd_manifest_sha256 = manifest_file_sha256\<rparr>)) (\<lambda>_.
      io_ret \<lparr>kr_generation = generation, kr_checkpoint_lsn = checkpoint_lsn,
              kr_state_sha256 = state_sha256, kr_checkpoint_path = cpath,
              kr_checkpoint_file_sha256 = checkpoint_file_sha256,
              kr_manifest_path = ir_path manifest, kr_manifest_file_sha256 = manifest_file_sha256,
              kr_head_path = head_path (dd_store db), kr_head_published = True,
              kr_wal_checkpoint_recorded = True\<rparr>)))))))"

definition db_checkpoint ::
  "durable_database \<Rightarrow> u64 \<Rightarrow> fsys \<Rightarrow> (durable_error + checkpoint_receipt) \<times> durable_database \<times> fsys" where
  "db_checkpoint db generation fs =
     (let state_sha256 = state_hash (dd_state db) in
      case append_frame Checkpoint zero_tx (encode_checkpoint_frame_payload generation state_sha256)
             (dd_wal db) fs of
        (Inl e, w, fs1) \<Rightarrow> (Inl e, db\<lparr>dd_wal := w\<rparr>, fs1)
      | (Inr checkpoint_lsn, w, fs1) \<Rightarrow>
          let db1 = db\<lparr>dd_wal := w, dd_last_lsn := checkpoint_lsn\<rparr> in
          case publish_checkpoint db1 generation checkpoint_lsn state_sha256 fs1 of
            (r, fs2) \<Rightarrow> (r, db1, fs2))"

subsection \<open>Reads\<close>

record database_record =
  dr_logical_id :: u64
  dr_record_id :: str
  dr_node_id :: u64
  dr_payload :: bytes
  dr_payload_sha256 :: bytes

record database_edge =
  de_logical_id :: u64
  de_src :: u64
  de_dst :: u64
  de_edge_type :: u32
  de_weight :: f64
  de_weight_million :: int

definition validate_edge_weight :: "f64 \<Rightarrow> durable_error + unit" where
  "validate_edge_weight weight =
     (if \<not> f64_is_finite weight \<or> \<not> f64_in_unit weight
      then Inl (Db_Invalid (lit ''edge weight must be finite and within [0,1]'')) else Inr ())"

text \<open>
  \<open>(weight * 1_000_000.0).round() as i64\<close> for a weight in the unit interval: the exact
  product is rounded to 53 bits (ties to even), then to an integer (ties away from zero).
\<close>

fun bit_length :: "int \<Rightarrow> nat" where
  "bit_length n = (if n \<le> 0 then 0 else Suc (bit_length (n div 2)))"

declare bit_length.simps [simp del]

definition round_even :: "int \<Rightarrow> nat \<Rightarrow> int" where
  "round_even p k =
     (let q = p div 2 ^ k; r = p mod 2 ^ k in
      if 2 * r > 2 ^ k \<or> (2 * r = 2 ^ k \<and> odd q) then q + 1 else q)"

definition weight_million :: "f64 \<Rightarrow> int" where
  "weight_million w =
     (let e = uint w div 2 ^ 52 mod 2048;
          f = uint w mod 2 ^ 52;
          m = (if e = 0 then f else 2 ^ 52 + f);
          scale = nat (1075 - max e 1);
          p = m * 1000000;
          k = bit_length p - 53;
          q = round_even p k in
      if scale \<le> k then q * 2 ^ (k - scale)
      else (2 * q + 2 ^ (scale - k)) div (2 * 2 ^ (scale - k)))"

definition decode_database_record :: "str \<Rightarrow> segment_entry \<Rightarrow> durable_error + database_record" where
  "decode_database_record expected_record_id entry =
     (if se_kind entry \<noteq> Record
      then Inl (Db_Invalid (lit ''record map contains a non-record entry''))
      else
        let payload = se_payload entry in
        if length payload < 56 then Inl (Db_Invalid (lit ''record payload is shorter than 56 bytes''))
        else
          rbind (db_read_u32 payload 0) (\<lambda>record_id_bytes.
          rbind (db_read_u32 payload 4) (\<lambda>reserved.
          if reserved \<noteq> 0 then Inl (Db_Invalid (lit ''record reserved field is non-zero''))
          else
            rbind (db_read_u64 payload 8) (\<lambda>node_id.
            rbind (db_read_u64 payload 16) (\<lambda>user_payload_bytes.
            rbind (db_read_digest payload 24) (\<lambda>expected_user_hash.
            rbind (ok_or (Db_Invalid (lit ''record ID length overflow''))
                     (checked_add 56 (unat record_id_bytes))) (\<lambda>record_id_end.
            rbind (ok_or (Db_Invalid (lit ''record payload length overflow''))
                     (checked_add record_id_end (unat user_payload_bytes))) (\<lambda>payload_end.
            if payload_end \<noteq> length payload
            then Inl (Db_Invalid (lit ''record payload length mismatch''))
            else
              let record_id = slice payload 56 record_id_end in
              if \<not> utf8_valid record_id then Inl (Db_Invalid (lit ''record ID is not UTF-8''))
              else if record_id \<noteq> expected_record_id
              then Inl (Db_Invalid (lit ''record map key does not match encoded record ID''))
              else
                let user_payload = drop record_id_end payload;
                    actual_user_hash = sha256 user_payload in
                if actual_user_hash \<noteq> expected_user_hash
                then Inl (Db_Integrity (lit ''record '' @ record_id @ lit '' payload'')
                            expected_user_hash actual_user_hash)
                else Inr \<lparr>dr_logical_id = se_logical_id entry, dr_record_id = record_id,
                          dr_node_id = node_id, dr_payload = user_payload,
                          dr_payload_sha256 = expected_user_hash\<rparr>))))))))"

definition decode_database_edge :: "segment_entry \<Rightarrow> durable_error + database_edge" where
  "decode_database_edge entry =
     (if se_kind entry \<noteq> TypedEdge
      then Inl (Db_Invalid (lit ''edge map contains a non-edge entry''))
      else
        let payload = se_payload entry in
        if length payload \<noteq> 32 then Inl (Db_Invalid (lit ''edge payload must be 32 bytes''))
        else
          rbind (db_read_u64 payload 0) (\<lambda>src.
          rbind (db_read_u64 payload 8) (\<lambda>dst.
          rbind (db_read_u32 payload 16) (\<lambda>edge_type.
          rbind (db_read_u32 payload 20) (\<lambda>reserved.
          if reserved \<noteq> 0 then Inl (Db_Invalid (lit ''edge reserved field is non-zero''))
          else
            rbind (db_read_u64 payload 24) (\<lambda>weight.
            rbind (validate_edge_weight weight) (\<lambda>_.
            Inr \<lparr>de_logical_id = se_logical_id entry, de_src = src, de_dst = dst,
                 de_edge_type = edge_type, de_weight = weight,
                 de_weight_million = weight_million weight\<rparr>)))))))"

text \<open>\<open>map(..).transpose()\<close> and \<open>map(..).collect()\<close> on results.\<close>

definition transpose_option :: "('e + 'a) option \<Rightarrow> 'e + 'a option" where
  "transpose_option v = (case v of None \<Rightarrow> Inr None | Some r \<Rightarrow> rbind r (\<lambda>x. Inr (Some x)))"

fun collect_results :: "('e + 'a) list \<Rightarrow> 'e + 'a list" where
  "collect_results [] = Inr []"
| "collect_results (r # rs) = rbind r (\<lambda>x. rbind (collect_results rs) (\<lambda>xs. Inr (x # xs)))"

definition db_record :: "durable_database \<Rightarrow> str \<Rightarrow> durable_error + database_record option" where
  "db_record db record_id =
     transpose_option (map_option (decode_database_record record_id)
       (bt_get (rs_records (dd_state db)) record_id))"

definition db_records :: "durable_database \<Rightarrow> durable_error + database_record list" where
  "db_records db =
     collect_results (map (\<lambda>(record_id, entry). decode_database_record record_id entry)
       (rs_records (dd_state db)))"

definition db_edge ::
  "durable_database \<Rightarrow> u64 \<Rightarrow> u64 \<Rightarrow> u32 \<Rightarrow> f64 \<Rightarrow> durable_error + database_edge option" where
  "db_edge db src dst edge_type weight =
     rbind (validate_edge_weight weight) (\<lambda>_.
     transpose_option (map_option decode_database_edge
       (bt_get (rs_edges (dd_state db)) (EdgeKey src dst edge_type weight))))"

definition db_edges :: "durable_database \<Rightarrow> durable_error + database_edge list" where
  "db_edges db = collect_results (map decode_database_edge (bt_values (rs_edges (dd_state db))))"

subsection \<open>Appending frames\<close>

lemma u64_room: "unat (w :: u64) + Suc n < 2 ^ 64 \<Longrightarrow> w \<noteq> - 1"
proof -
  have "unat (- 1 :: u64) = 2 ^ 64 - 1" by (simp add: unsigned_minus_1_eq_mask mask_eq_exp_minus_1)
  then show "unat (w :: u64) + Suc n < 2 ^ 64 \<Longrightarrow> w \<noteq> - 1" by auto
qed

lemma append_frame_ok:
  assumes at: "wal_at w frames fs" and tx: "length tx = 16"
    and pl: "length payload \<le> MAX_WAL_PAYLOAD_BYTES"
    and room: "length (log_bytes (frames @ [next_frame w ft tx payload])) < usize_limit"
    and lsn: "ww_next_lsn w \<noteq> - 1"
  obtains fs' where "append_frame ft tx payload w fs =
       (Inr (ww_next_lsn w), w\<lparr>ww_next_lsn := ww_next_lsn w + 1\<rparr>, fs')"
    and "fs_installs (ww_path w) (log_bytes (frames @ [next_frame w ft tx payload])) fs fs'"
    and "wal_at (w\<lparr>ww_next_lsn := ww_next_lsn w + 1\<rparr>) (frames @ [next_frame w ft tx payload]) fs'"
proof -
  have "ww_next_lsn w \<noteq> 0" using at by (auto simp: wal_at_def)
  then have wf: "frame_wf (next_frame w ft tx payload)"
    using tx pl by (simp add: frame_wf_def next_frame_def)
  have "length (log_bytes frames) + 96 + length payload < usize_limit"
    using room by (simp add: length_frame_bytes [OF wf]) (simp add: next_frame_def)
  from wal_append_ok [OF at tx pl this lsn, of ft] show thesis
    by (auto simp: append_frame_def intro: that)
qed

lemma append_operations_ok:
  assumes "wal_at w frames fs" and "length tx = 16" and "list_all operation_ok ops"
    and "list_all frame_room ops"
    and "length (log_bytes (frames @ operation_frames (ww_next_lsn w) tx ops)) < usize_limit"
    and "unat (ww_next_lsn w) + length ops < 2 ^ 64"
  shows "\<exists>fs'. append_operations tx (map operation_entry ops) w fs =
       (Inr (), w\<lparr>ww_next_lsn := ww_next_lsn w + of_nat (length ops)\<rparr>, fs') \<and>
     fs_installs (ww_path w) (log_bytes (frames @ operation_frames (ww_next_lsn w) tx ops)) fs fs' \<and>
     wal_at (w\<lparr>ww_next_lsn := ww_next_lsn w + of_nat (length ops)\<rparr>)
       (frames @ operation_frames (ww_next_lsn w) tx ops) fs'"
  using assms
proof (induction ops arbitrary: w frames fs)
  case Nil
  then show ?case by (auto simp: wio_ret_def fs_installs_def wal_at_def)
next
  case (Cons x ops)
  let ?pl = "encode_operation_payload (operation_entry x)"
  let ?f = "next_frame w (operation_frame_type x) tx ?pl"
  let ?w = "w\<lparr>ww_next_lsn := ww_next_lsn w + 1\<rparr>"
  have pl: "length ?pl \<le> MAX_WAL_PAYLOAD_BYTES"
    using Cons.prems(4) by (simp add: encode_operation_payload_def frame_room_def)
  have f: "?f = operation_frame (ww_next_lsn w) tx x" by (simp add: next_frame_def operation_frame_def)
  have lsn: "ww_next_lsn w \<noteq> - 1" using Cons.prems(6) by (intro u64_room [of _ "length ops"]) simp
  have room: "length (log_bytes (frames @ [?f])) < usize_limit" using Cons.prems(5) by (simp add: f)
  obtain fs1 where a: "append_frame (operation_frame_type x) tx ?pl w fs = (Inr (ww_next_lsn w), ?w, fs1)"
    and i: "fs_installs (ww_path w) (log_bytes (frames @ [?f])) fs fs1"
    and at: "wal_at ?w (frames @ [?f]) fs1"
    by (rule append_frame_ok [OF Cons.prems(1,2) pl room lsn])
  have "\<exists>fs'. append_operations tx (map operation_entry ops) ?w fs1 =
       (Inr (), ?w\<lparr>ww_next_lsn := ww_next_lsn ?w + of_nat (length ops)\<rparr>, fs') \<and>
     fs_installs (ww_path ?w) (log_bytes ((frames @ [?f]) @ operation_frames (ww_next_lsn ?w) tx ops)) fs1 fs' \<and>
     wal_at (?w\<lparr>ww_next_lsn := ww_next_lsn ?w + of_nat (length ops)\<rparr>)
       ((frames @ [?f]) @ operation_frames (ww_next_lsn ?w) tx ops) fs'"
    using Cons.prems u64_inc(1) [OF lsn] by (intro Cons.IH [OF at]) (simp_all add: f)
  then obtain fs' where "append_operations tx (map operation_entry ops) ?w fs1 =
       (Inr (), ?w\<lparr>ww_next_lsn := ww_next_lsn ?w + of_nat (length ops)\<rparr>, fs')"
    "fs_installs (ww_path w) (log_bytes (frames @ operation_frames (ww_next_lsn w) tx (x # ops))) fs1 fs'"
    "wal_at (w\<lparr>ww_next_lsn := ww_next_lsn w + of_nat (length (x # ops))\<rparr>)
       (frames @ operation_frames (ww_next_lsn w) tx (x # ops)) fs'"
    by (auto simp: f add.assoc)
  moreover from this(2) have "fs_installs (ww_path w)
      (log_bytes (frames @ operation_frames (ww_next_lsn w) tx (x # ops))) fs fs'"
    using i fs_installs_trans by blast
  ultimately show ?case
    using a by (intro exI [of _ fs']) (simp add: wio_bind_def add.assoc)
qed

definition transaction_room :: "wal_writer \<Rightarrow> wal_frame list \<Rightarrow> prepared_batch \<Rightarrow> operation list \<Rightarrow> bool" where
  "transaction_room w frames p ops \<longleftrightarrow> list_all frame_room ops \<and>
     unat (ww_next_lsn w) + length ops + 2 < 2 ^ 64 \<and>
     length (log_bytes (frames @ transaction_frames (ww_next_lsn w) p ops (replicate 32 0))) < usize_limit"

lemma length_transaction_frames:
  assumes "length h = 32" and "length h' = 32"
  shows "length (log_bytes (transaction_frames lsn p ops h)) = length (log_bytes (transaction_frames lsn p ops h'))"
  using assms by (simp add: transaction_frames_def commit_frame_def frame_bytes_def frame_header_def
      encode_commit_payload_def)

lemma append_transaction_ok:
  assumes at: "wal_at w frames fs" and rep: "prepared_rep p ops" and h: "length h = 32"
    and room: "transaction_room w frames p ops"
  obtains fs' where "append_transaction p h w fs =
       (Inr (ww_next_lsn w, ww_next_lsn w + 1 + of_nat (length ops)),
        w\<lparr>ww_next_lsn := ww_next_lsn w + 2 + of_nat (length ops)\<rparr>, fs')"
    and "fs_installs (ww_path w) (log_bytes (frames @ transaction_frames (ww_next_lsn w) p ops h)) fs fs'"
    and "wal_at (w\<lparr>ww_next_lsn := ww_next_lsn w + 2 + of_nat (length ops)\<rparr>)
       (frames @ transaction_frames (ww_next_lsn w) p ops h) fs'"
proof -
  let ?l = "ww_next_lsn w" and ?tx = "pb_transaction_id p"
  let ?w1 = "w\<lparr>ww_next_lsn := ?l + 1\<rparr>" and ?w2 = "w\<lparr>ww_next_lsn := ?l + 1 + of_nat (length ops)\<rparr>"
  let ?bf = "begin_frame ?l p" and ?of = "operation_frames (?l + 1) ?tx ops"
  let ?cf = "commit_frame (?l + 1 + of_nat (length ops)) p h"
  have r: "list_all frame_room ops" "unat ?l + length ops + 2 < 2 ^ 64"
    and sz: "length (log_bytes (frames @ transaction_frames ?l p ops h)) < usize_limit"
    using room length_transaction_frames [OF h, of "replicate 32 0" ?l p ops] by (simp_all add: transaction_room_def)
  have tx: "length ?tx = 16" "pb_entries p = map operation_entry ops" "list_all operation_ok ops"
    "length (pb_batch_digest p) = 32"
    using rep by (simp_all add: prepared_rep_def)
  have l1: "?l \<noteq> - 1" using r(2) by (intro u64_room [of _ 0]) simp
  have u1: "unat (?l + 1) = Suc (unat ?l)" by (rule u64_inc [OF l1])
  have lo: "unat (of_nat (length ops) :: u64) = length ops" using r(2) by (simp add: unat_of_nat)
  have u2: "unat (?l + 1 + of_nat (length ops)) = unat ?l + 1 + length ops"
    using r(2) u1 lo by (simp add: unat_word_ariths)
  have l2: "?l + 1 + of_nat (length ops) \<noteq> - 1" using r(2) u2 by (intro u64_room [of _ 0]) simp
  have fb: "next_frame w Begin ?tx (encode_begin_payload p) = ?bf" by (simp add: next_frame_def begin_frame_def)
  have fc: "next_frame ?w2 Commit ?tx (encode_commit_payload p h) = ?cf"
    by (simp add: next_frame_def commit_frame_def)
  have pb: "length (encode_begin_payload p) \<le> MAX_WAL_PAYLOAD_BYTES"
    and pc: "length (encode_commit_payload p h) \<le> MAX_WAL_PAYLOAD_BYTES"
    using tx(4) h by (simp_all add: encode_begin_payload_def encode_commit_payload_def MAX_WAL_PAYLOAD_BYTES_def)
  have s1: "length (log_bytes (frames @ [next_frame w Begin ?tx (encode_begin_payload p)])) < usize_limit"
    using sz by (simp add: fb transaction_frames_def)
  have s3: "length (log_bytes ((frames @ ?bf # ?of) @ [next_frame ?w2 Commit ?tx (encode_commit_payload p h)])) < usize_limit"
    using sz by (simp add: fc transaction_frames_def)
  obtain fs1 where a1: "append_frame Begin ?tx (encode_begin_payload p) w fs = (Inr ?l, ?w1, fs1)"
    and i1: "fs_installs (ww_path w) (log_bytes (frames @ [?bf])) fs fs1" and at1: "wal_at ?w1 (frames @ [?bf]) fs1"
    by (rule append_frame_ok [OF at tx(1) pb s1 l1, unfolded fb])
  obtain fs2 where a2: "append_operations ?tx (pb_entries p) ?w1 fs1 = (Inr (), ?w2, fs2)"
    and i2: "fs_installs (ww_path w) (log_bytes (frames @ ?bf # ?of)) fs1 fs2"
    and at2: "wal_at ?w2 (frames @ ?bf # ?of) fs2"
    using append_operations_ok [OF at1 tx(1,3) r(1)] r(2) u1 sz
    by (auto simp: tx(2) transaction_frames_def)
  have l2': "ww_next_lsn ?w2 \<noteq> - 1" using l2 by simp
  have w3: "?w2\<lparr>ww_next_lsn := ww_next_lsn ?w2 + 1\<rparr> = w\<lparr>ww_next_lsn := ?l + 2 + of_nat (length ops)\<rparr>"
    by (simp add: algebra_simps)
  have tf: "(frames @ ?bf # ?of) @ [next_frame ?w2 Commit ?tx (encode_commit_payload p h)] =
      frames @ transaction_frames ?l p ops h"
    by (simp add: fc transaction_frames_def)
  obtain fs3 where "append_frame Commit ?tx (encode_commit_payload p h) ?w2 fs2 =
      (Inr (ww_next_lsn ?w2), ?w2\<lparr>ww_next_lsn := ww_next_lsn ?w2 + 1\<rparr>, fs3)"
    and "fs_installs (ww_path ?w2) (log_bytes ((frames @ ?bf # ?of) @
       [next_frame ?w2 Commit ?tx (encode_commit_payload p h)])) fs2 fs3"
    and "wal_at (?w2\<lparr>ww_next_lsn := ww_next_lsn ?w2 + 1\<rparr>) ((frames @ ?bf # ?of) @
       [next_frame ?w2 Commit ?tx (encode_commit_payload p h)]) fs3"
    by (rule append_frame_ok [OF at2 tx(1) pc s3 l2'])
  then have a3: "append_frame Commit ?tx (encode_commit_payload p h) ?w2 fs2 =
      (Inr (?l + 1 + of_nat (length ops)), w\<lparr>ww_next_lsn := ?l + 2 + of_nat (length ops)\<rparr>, fs3)"
    and i3: "fs_installs (ww_path w) (log_bytes (frames @ transaction_frames ?l p ops h)) fs2 fs3"
    and at3: "wal_at (w\<lparr>ww_next_lsn := ?l + 2 + of_nat (length ops)\<rparr>) (frames @ transaction_frames ?l p ops h) fs3"
    unfolding w3 tf by simp_all
  show thesis
  proof (rule that [of fs3])
    show "append_transaction p h w fs = (Inr (?l, ?l + 1 + of_nat (length ops)),
        w\<lparr>ww_next_lsn := ?l + 2 + of_nat (length ops)\<rparr>, fs3)"
      using a1 a2 a3 by (simp add: append_transaction_def wio_bind_def wio_ret_def)
    show "fs_installs (ww_path w) (log_bytes (frames @ transaction_frames ?l p ops h)) fs fs3"
      using i1 i2 i3 fs_installs_trans by metis
  qed (rule at3)
qed

subsection \<open>What the store contains\<close>

definition store_ready :: "fsys \<Rightarrow> page_store \<Rightarrow> bool" where
  "store_ready fs store \<longleftrightarrow> fs_quiet fs \<and> ps_root store \<in> fs_dirs fs \<and>
     (\<forall>d \<in> set store_directories. ps_root store @ [d] \<in> fs_dirs fs \<and>
        (\<forall>name. ps_root store @ [d, name] \<notin> fs_dirs fs)) \<and>
     head_path store \<notin> fs_dirs fs"

lemma store_directories_set:
  "set store_directories = {lit ''manifests'', lit ''segments'', lit ''wal'', lit ''checkpoints'', lit ''indexes''}"
  by (auto simp: store_directories_def)

lemma store_ready_publishable:
  assumes "store_ready fs store" and "d \<in> set store_directories" and "\<not> starts_with name (lit ''.'')"
  shows "publishable fs (ps_root store @ [d, name])"
  using assms by (auto simp: publishable_def store_ready_def hidden_name_def butlast_append)

lemma store_ready_head: "store_ready fs store \<Longrightarrow> publishable fs (head_path store)"
  by (auto simp: publishable_def store_ready_def hidden_name_def head_path_def starts_with_def lit_def)

lemma store_ready_installs:
  assumes "store_ready fs store" and "fs_installs p bs fs fs'" and "publishable fs p"
  shows "store_ready fs' store"
  using assms fs_installs_quiet [OF assms(2)] by (auto simp: store_ready_def publishable_def fs_installs_def)

lemma page_store_open_ready: "store_ready fs store \<Longrightarrow> page_store_open (ps_root store) fs = Inr store"
  by (auto simp: page_store_open_def fs_is_dir_def store_ready_def find_Some_iff2 find_None_iff
      split: option.splits)

text \<open>Loading a checkpoint reads the head, a manifest and a checkpoint file, and nothing else.\<close>

lemma load_checkpoint_cong:
  assumes "fs_dirs fs' = fs_dirs fs" and "fget fs' (head_path store) = fget fs (head_path store)"
    and "\<And>n. fget fs' (ps_root store @ [lit ''manifests'', n]) = fget fs (ps_root store @ [lit ''manifests'', n])"
    and "\<And>n. fget fs' (ps_root store @ [lit ''checkpoints'', n]) = fget fs (ps_root store @ [lit ''checkpoints'', n])"
  shows "load_checkpoint store fs' = load_checkpoint store fs"
proof -
  have h: "read_head store fs' = read_head store fs"
    using assms(1,2) by (simp add: read_head_def fs_exists_def read_versioned_file_def fs_read_def)
  have c: "sha256_file p fs' = sha256_file p fs" "db_read_versioned_file p m fs' = db_read_versioned_file p m fs"
    "read_checkpoint p fs' = read_checkpoint p fs" if "fget fs' p = fget fs p" for p m
    using that by (simp_all add: sha256_file_def db_read_versioned_file_def read_checkpoint_def fs_read_def)
  show ?thesis
    unfolding load_checkpoint_def h manifest_path_def Let_def c [OF assms(3)] c [OF assms(4)] by (rule refl)
qed

lemma load_checkpoint_installs:
  assumes "fs_installs p bs fs fs'" and "p = ps_root store @ [d, n]" and "d \<in> {lit ''segments'', lit ''wal''}"
  shows "load_checkpoint store fs' = load_checkpoint store fs"
  using assms by (intro load_checkpoint_cong) (auto simp: fs_installs_def head_path_def lit_def)

subsection \<open>Recovery\<close>

text \<open>
  \<open>recovers\<close>: what \<open>open\<close> would rebuild from the published checkpoint and the given frames:
  the state, the committed transactions and the transactions without \<open>COMMIT\<close>.
\<close>

definition recovers ::
  "page_store \<Rightarrow> fsys \<Rightarrow> wal_frame list \<Rightarrow> recovered_state \<Rightarrow> tx_id list \<Rightarrow>
   (tx_id, pending_transaction) btree \<Rightarrow> bool" where
  "recovers store fs frames st cs pend \<longleftrightarrow>
     (\<exists>st0 cs0 g lsn n. load_checkpoint store fs = Inr (st0, cs0, g, lsn) \<and>
        lsn \<le> final_lsn 0 frames \<and> n \<le> length frames \<and>
        replay_frames \<lparr>rp_state = st0, rp_committed = cs0, rp_pending = [], rp_replayed = 0\<rparr>
          (filter (\<lambda>f. lsn < wf_lsn f) frames) =
        Inr \<lparr>rp_state = st, rp_committed = cs, rp_pending = pend, rp_replayed = n\<rparr>)"

definition db_inv :: "durable_database \<Rightarrow> fsys \<Rightarrow> wal_frame list \<Rightarrow>
  (tx_id, pending_transaction) btree \<Rightarrow> bool" where
  "db_inv db fs frames pend \<longleftrightarrow> store_ready fs (dd_store db) \<and>
     dd_wal_path db = default_wal_path (ps_root (dd_store db)) \<and>
     ww_path (dd_wal db) = dd_wal_path db \<and> wal_at (dd_wal db) frames fs \<and>
     recovers (dd_store db) fs frames (dd_state db) (dd_committed db) pend \<and>
     state_inv (dd_state db) \<and> committed_ok (dd_committed db)"

lemma filter_new_frames:
  assumes "log_wf (frames @ new)" and "lsn \<le> final_lsn 0 frames"
  shows "filter (\<lambda>f. lsn < wf_lsn f) (frames @ new) = filter (\<lambda>f. lsn < wf_lsn f) frames @ new"
proof -
  have "lsn < wf_lsn g" if g: "g \<in> set new" for g
  proof -
    obtain as bs where "new = as @ g # bs" using g by (meson split_list)
    then have w: "log_wf ((frames @ as) @ g # bs)" using assms(1) by simp
    have "final_lsn 0 frames \<le> final_lsn 0 (frames @ as)"
    proof (cases "frames = [] \<or> as = []")
      case False
      then have "wf_lsn (last frames) < wf_lsn (last as)"
        using w by (auto simp: log_wf_def sorted_wrt_append)
      with False show ?thesis by (simp add: final_lsn_def)
    qed (auto simp: final_lsn_def)
    with log_wf_snoc_lsn [OF w] assms(2) show ?thesis by (metis le_less_trans order_trans)
  qed
  then show ?thesis by (simp add: filter_id_conv)
qed

lemma final_lsn_mono: "log_wf (frames @ new) \<Longrightarrow> final_lsn 0 frames \<le> final_lsn 0 (frames @ new)"
proof (cases "frames = [] \<or> new = []")
  case False
  assume w: "log_wf (frames @ new)"
  have "wf_lsn (last frames) < wf_lsn (last new)"
    using w False by (auto simp: log_wf_def sorted_wrt_append)
  with False show ?thesis by (simp add: final_lsn_def)
qed (auto simp: final_lsn_def)

text \<open>Frames that arrive after the state has been recovered continue the replay.\<close>

lemma recovers_append:
  assumes "recovers store fs frames st cs pend" and "log_wf (frames @ new)"
    and "\<And>n. n \<le> length frames \<Longrightarrow>
      \<exists>n'. n' \<le> n + length new \<and>
      replay_frames \<lparr>rp_state = st, rp_committed = cs, rp_pending = pend, rp_replayed = n\<rparr> new =
      Inr \<lparr>rp_state = st', rp_committed = cs', rp_pending = pend', rp_replayed = n'\<rparr>"
  shows "recovers store fs (frames @ new) st' cs' pend'"
proof -
  obtain st0 cs0 g lsn n where l: "load_checkpoint store fs = Inr (st0, cs0, g, lsn)"
    and le: "lsn \<le> final_lsn 0 frames" "n \<le> length frames"
    and r: "replay_frames \<lparr>rp_state = st0, rp_committed = cs0, rp_pending = [], rp_replayed = 0\<rparr>
          (filter (\<lambda>f. lsn < wf_lsn f) frames) =
        Inr \<lparr>rp_state = st, rp_committed = cs, rp_pending = pend, rp_replayed = n\<rparr>"
    using assms(1) by (auto simp: recovers_def)
  obtain n' where n': "n' \<le> n + length new"
    "replay_frames \<lparr>rp_state = st, rp_committed = cs, rp_pending = pend, rp_replayed = n\<rparr> new =
      Inr \<lparr>rp_state = st', rp_committed = cs', rp_pending = pend', rp_replayed = n'\<rparr>"
    using assms(3) [OF le(2)] by blast
  have "lsn \<le> final_lsn 0 (frames @ new)" using le(1) final_lsn_mono [OF assms(2)] by (rule order_trans)
  moreover have "replay_frames \<lparr>rp_state = st0, rp_committed = cs0, rp_pending = [], rp_replayed = 0\<rparr>
          (filter (\<lambda>f. lsn < wf_lsn f) (frames @ new)) =
        Inr \<lparr>rp_state = st', rp_committed = cs', rp_pending = pend', rp_replayed = n'\<rparr>"
    unfolding filter_new_frames [OF assms(2) le(1)] replay_frames_append r using n'(2) by simp
  ultimately show ?thesis
    using l n'(1) le(2) unfolding recovers_def by fastforce
qed

lemma recovers_cong:
  "load_checkpoint store fs' = load_checkpoint store fs \<Longrightarrow>
   recovers store fs' frames st cs pend = recovers store fs frames st cs pend"
  by (simp add: recovers_def)

lemma wal_open_complete:
  assumes "log_wf frames" and "fget fs p = Some (log_bytes frames)" and "butlast p \<in> fs_dirs fs"
  shows "wal_open p rep fs =
     (Inr \<lparr>ww_path = p, ww_next_lsn = next_lsn_after (final_lsn 0 frames)\<rparr>, fs)"
proof -
  have "(case path_parent p of None \<Rightarrow> io_ret ()
     | Some parent \<Rightarrow> io_map_err Wal_Io (create_dir_all parent)) fs = (Inr (), fs)"
    using assms(3) by (simp add: path_parent_def io_ret_def io_map_err_def create_dir_all_def)
  then show ?thesis
    using assms scan_log_complete [OF assms(1), of rep]
    by (simp add: wal_open_def scan_wal_file log_scan_def io_map_err_def open_append_def io_ret_def)
qed

lemma wal_path_publishable:
  assumes "store_ready fs store"
  shows "publishable fs (default_wal_path (ps_root store))" and "butlast (default_wal_path (ps_root store)) \<in> fs_dirs fs"
proof -
  have "\<not> starts_with (lit ''WAL-00000000000000000001-00000000000000000000.ubwal'') (lit ''.'')"
    by (simp add: starts_with_def lit_def)
  then show "publishable fs (default_wal_path (ps_root store))"
    unfolding default_wal_path_def using assms
    by (intro store_ready_publishable) (simp_all add: store_directories_set)
  show "butlast (default_wal_path (ps_root store)) \<in> fs_dirs fs"
    using assms by (simp add: default_wal_path_def store_ready_def store_directories_set butlast_append)
qed

lemma load_checkpoint_wal:
  "fs_installs (default_wal_path (ps_root store)) bs fs fs' \<Longrightarrow>
   load_checkpoint store fs' = load_checkpoint store fs"
  by (rule load_checkpoint_installs) (auto simp: default_wal_path_def)

text \<open>What opening did to the log file, and where the writer continues.\<close>

definition reopened :: "durable_database \<Rightarrow> wal_frame list \<Rightarrow> fsys \<Rightarrow> fsys \<Rightarrow> bool" where
  "reopened db frames fs fs' \<longleftrightarrow> ww_next_lsn (dd_wal db) = next_lsn_after (final_lsn 0 frames) \<and>
     fs_installs (default_wal_path (ps_root (dd_store db))) (log_bytes frames) fs fs'"

lemma db_open_ok:
  assumes ready: "store_ready fs store" and wf: "log_wf frames" and n: "n \<le> length (log_bytes frames)"
    and fl: "fget fs (default_wal_path (ps_root store)) = Some (take n (log_bytes frames))"
    and rec: "recovers store fs (complete_frames n frames) st cs pend"
    and lsn: "final_lsn 0 (complete_frames n frames) \<noteq> - 1"
    and inv: "state_inv st" "committed_ok cs"
  shows "\<exists>db fs'. db_open (ps_root store) True fs = (Inr db, fs') \<and> dd_store db = store \<and>
     dd_state db = st \<and> dd_committed db = cs \<and> db_inv db fs' (complete_frames n frames) pend \<and>
     reopened db (complete_frames n frames) fs fs'"
proof -
  let ?fr = "complete_frames n frames" and ?w = "default_wal_path (ps_root store)"
  have wc: "log_wf ?fr"
    using complete_frames_prefix [of frames n] log_wf_append_left wf by metis
  obtain fs' where s: "scan_wal ?w True fs = (Inr (log_scan ?fr (n - length (log_bytes ?fr))), fs')"
    and i: "fs_installs ?w (log_bytes ?fr) fs fs'"
    using scan_wal_prefix [OF wf n fl] by blast
  obtain st0 cs0 g l k where l: "load_checkpoint store fs = Inr (st0, cs0, g, l)"
    and r: "replay_frames \<lparr>rp_state = st0, rp_committed = cs0, rp_pending = [], rp_replayed = 0\<rparr>
          (filter (\<lambda>f. l < wf_lsn f) ?fr) =
        Inr \<lparr>rp_state = st, rp_committed = cs, rp_pending = pend, rp_replayed = k\<rparr>"
    using rec by (auto simp: recovers_def)
  have ready': "store_ready fs' store"
    by (rule store_ready_installs [OF ready i wal_path_publishable(1) [OF ready]])
  have f': "fget fs' ?w = Some (log_bytes ?fr)" using i by (simp add: fs_installs_def)
  note wo = wal_open_complete [OF wc f' wal_path_publishable(2) [OF ready'], of False]
  have at: "wal_at \<lparr>ww_path = ?w, ww_next_lsn = next_lsn_after (final_lsn 0 ?fr)\<rparr> ?fr fs'"
    using f' wc next_lsn_after_gt [OF lsn] by (simp add: wal_at_def)
  have rec': "recovers store fs' ?fr st cs pend"
    using rec recovers_cong [OF load_checkpoint_wal [OF i]] by blast
  show ?thesis
    using wo s i ready' at rec' inv
    by (simp add: db_open_def io_query_def page_store_open_ready [OF ready] l io_map_err_def io_pure_def
        replay_after_checkpoint_def log_scan_def r io_ret_def db_inv_def Let_def reopened_def)
qed

lemma db_open_reopen:
  assumes "db_inv db fs frames pend" and lsn: "final_lsn 0 frames \<noteq> - 1"
  shows "\<exists>db' fs'. db_open (ps_root (dd_store db)) r fs = (Inr db', fs') \<and> dd_store db' = dd_store db \<and>
     dd_state db' = dd_state db \<and> dd_committed db' = dd_committed db \<and> db_inv db' fs' frames pend \<and>
     fget fs' = fget fs"
proof -
  let ?w = "default_wal_path (ps_root (dd_store db))"
  have inv: "store_ready fs (dd_store db)" "log_wf frames" "fget fs ?w = Some (log_bytes frames)"
    "recovers (dd_store db) fs frames (dd_state db) (dd_committed db) pend"
    "state_inv (dd_state db)" "committed_ok (dd_committed db)"
    using assms(1) by (auto simp: db_inv_def wal_at_def)
  obtain st0 cs0 g l k where l: "load_checkpoint (dd_store db) fs = Inr (st0, cs0, g, l)"
    and r: "replay_frames \<lparr>rp_state = st0, rp_committed = cs0, rp_pending = [], rp_replayed = 0\<rparr>
          (filter (\<lambda>f. l < wf_lsn f) frames) =
        Inr \<lparr>rp_state = dd_state db, rp_committed = dd_committed db, rp_pending = pend, rp_replayed = k\<rparr>"
    using inv(4) by (auto simp: recovers_def)
  have s: "scan_wal ?w r fs = (Inr (log_scan frames 0), fs)"
    using scan_log_complete [OF inv(2), of r] by (simp add: scan_wal_file [OF inv(3)] log_scan_def)
  note wo = wal_open_complete [OF inv(2,3) wal_path_publishable(2) [OF inv(1)], of False]
  have at: "wal_at \<lparr>ww_path = ?w, ww_next_lsn = next_lsn_after (final_lsn 0 frames)\<rparr> frames fs"
    using inv(2,3) next_lsn_after_gt [OF lsn] by (simp add: wal_at_def)
  show ?thesis
    using wo s at inv
    by (simp add: db_open_def io_query_def page_store_open_ready l io_map_err_def io_pure_def
        replay_after_checkpoint_def log_scan_def r io_ret_def db_inv_def Let_def)
qed

subsection \<open>Commit\<close>

lemma log_length: "log_wf fs \<Longrightarrow> length fs < usize_limit"
proof -
  assume w: "log_wf fs"
  have "list_all frame_wf gs \<Longrightarrow> length gs \<le> length (log_bytes gs)" for gs
    by (induction gs) (auto simp: length_frame_bytes)
  with w show ?thesis by (auto simp: log_wf_def intro: le_less_trans)
qed

lemma segment_name_visible: "\<not> starts_with (lit ''SEGMENT-'' @ x) (lit ''.'')"
  by (simp add: starts_with_def lit_def)

lemma segment_path_facts:
  assumes "store_ready fs store"
  shows "publishable fs (segment_path store g s)"
  unfolding segment_path_def using assms
  by (intro store_ready_publishable) (simp_all add: segment_name_visible store_directories_set)

text \<open>What a commit writes, whatever its transaction id.\<close>

lemma commit_prepared_writes:
  assumes inv: "db_inv db fs frames pend" and rep: "prepared_rep p ops"
    and nc: "pb_transaction_id p \<notin> set (dd_committed db)"
    and seg: "fget fs (segment_path (dd_store db) g s) = None" and va: "entries_valid (pb_entries p)"
    and room: "transaction_room (dd_wal db) frames p ops"
  defines "st \<equiv> operations_apply ops (dd_state db)"
  defines "new \<equiv> transaction_frames (ww_next_lsn (dd_wal db)) p ops (state_hash st)"
  shows "\<exists>receipt db' fs'. commit_prepared db p g s fs = (Inr receipt, db', fs') \<and>
     dd_store db' = dd_store db \<and> dd_wal_path db' = dd_wal_path db \<and> dd_state db' = st \<and>
     dd_committed db' = bset_insert (pb_transaction_id p) (dd_committed db) \<and>
     ww_path (dd_wal db') = dd_wal_path db \<and> wal_at (dd_wal db') (frames @ new) fs' \<and>
     store_ready fs' (dd_store db) \<and>
     load_checkpoint (dd_store db) fs' = load_checkpoint (dd_store db) fs \<and>
     fget fs' = (fget fs)(segment_path (dd_store db) g s \<mapsto> segment_encoding g STORAGE_MINOR (pb_entries p),
        dd_wal_path db \<mapsto> log_bytes (frames @ new)) \<and>
     fs_dirs fs' = fs_dirs fs \<and>
     ww_next_lsn (dd_wal db') = ww_next_lsn (dd_wal db) + 2 + of_nat (length ops)"
proof -
  let ?seg = "segment_path (dd_store db) g s"
  have iv: "store_ready fs (dd_store db)" "dd_wal_path db = default_wal_path (ps_root (dd_store db))"
    "ww_path (dd_wal db) = dd_wal_path db" "wal_at (dd_wal db) frames fs"
    using inv by (auto simp: db_inv_def)
  have ops: "pb_entries p = map operation_entry ops" "list_all operation_ok ops"
    using rep by (auto simp: prepared_rep_def)
  obtain fs1 where w: "write_segment (dd_store db) g s (pb_entries p) fs = (Inr (segment_report ?seg g (pb_entries p)), fs1)"
    and i1: "fs_installs ?seg (segment_encoding g STORAGE_MINOR (pb_entries p)) fs fs1"
    using write_segment_file_ok [OF segment_path_facts [OF iv(1), of g s] va, of g] seg by (auto simp: write_segment_def)
  obtain d where d: "sha256_file (ir_path (segment_report ?seg g (pb_entries p))) fs1 = Inr d"
    using i1 by (simp add: segment_report_def sha256_file_def fs_read_def fs_installs_def)
  have ready1: "store_ready fs1 (dd_store db)"
    by (rule store_ready_installs [OF iv(1) i1 segment_path_facts [OF iv(1)]])
  have "?seg \<noteq> dd_wal_path db" by (auto simp: segment_path_def iv(2) default_wal_path_def lit_def)
  then have at1: "wal_at (dd_wal db) frames fs1"
    using iv(3,4) i1 by (auto simp: wal_at_def fs_installs_def)
  obtain fs2 where a: "append_transaction p (state_hash st) (dd_wal db) fs1 =
       (Inr (ww_next_lsn (dd_wal db), ww_next_lsn (dd_wal db) + 1 + of_nat (length ops)),
        (dd_wal db)\<lparr>ww_next_lsn := ww_next_lsn (dd_wal db) + 2 + of_nat (length ops)\<rparr>, fs2)"
    and i2: "fs_installs (ww_path (dd_wal db)) (log_bytes (frames @ new)) fs1 fs2"
    and at2: "wal_at ((dd_wal db)\<lparr>ww_next_lsn := ww_next_lsn (dd_wal db) + 2 + of_nat (length ops)\<rparr>) (frames @ new) fs2"
    unfolding new_def by (rule append_transaction_ok [OF at1 rep length_state_hash room])
  have i2': "fs_installs (default_wal_path (ps_root (dd_store db))) (log_bytes (frames @ new)) fs1 fs2"
    using i2 iv(2,3) by simp
  have ready2: "store_ready fs2 (dd_store db)"
    by (rule store_ready_installs [OF ready1 i2' wal_path_publishable(1) [OF ready1]])
  have "load_checkpoint (dd_store db) fs2 = load_checkpoint (dd_store db) fs1"
    by (rule load_checkpoint_wal [OF i2'])
  also have "\<dots> = load_checkpoint (dd_store db) fs"
    by (rule load_checkpoint_installs [OF i1, where d = "lit ''segments''"]) (simp_all add: segment_path_def)
  finally have lc: "load_checkpoint (dd_store db) fs2 = load_checkpoint (dd_store db) fs" .
  have ap: "apply_all (dd_state db) (pb_entries p) = Inr st" using ops by (simp add: apply_all_operations st_def)
  have fg: "fget fs2 = (fget fs)(?seg \<mapsto> segment_encoding g STORAGE_MINOR (pb_entries p),
        dd_wal_path db \<mapsto> log_bytes (frames @ new))" and fd: "fs_dirs fs2 = fs_dirs fs"
    using i1 i2 iv(3) by (simp_all add: fs_installs_def)
  show ?thesis
    using nc w d ap a ready2 at2 iv(3) fg fd lc by (simp add: commit_prepared_def Let_def)
qed

lemma commit_prepared_ok:
  assumes inv: "db_inv db fs frames pend" and rep: "prepared_rep p ops"
    and z: "pb_transaction_id p \<noteq> zero_tx" and np: "bt_get pend (pb_transaction_id p) = None"
    and nc: "pb_transaction_id p \<notin> set (dd_committed db)"
    and seg: "fget fs (segment_path (dd_store db) g s) = None" and va: "entries_valid (pb_entries p)"
    and room: "transaction_room (dd_wal db) frames p ops"
  shows "\<exists>receipt db' fs'. commit_prepared db p g s fs = (Inr receipt, db', fs') \<and>
     dd_store db' = dd_store db \<and>
     dd_state db' = operations_apply ops (dd_state db) \<and>
     dd_committed db' = bset_insert (pb_transaction_id p) (dd_committed db) \<and>
     db_inv db' fs' (frames @ transaction_frames (ww_next_lsn (dd_wal db)) p ops (state_hash (dd_state db'))) pend \<and>
     fget fs' = (fget fs)(segment_path (dd_store db) g s \<mapsto> segment_encoding g STORAGE_MINOR (pb_entries p),
        dd_wal_path db \<mapsto> log_bytes (frames @ transaction_frames (ww_next_lsn (dd_wal db)) p ops (state_hash (dd_state db')))) \<and>
     fs_dirs fs' = fs_dirs fs"
proof -
  let ?tx = "pb_transaction_id p" and ?st = "operations_apply ops (dd_state db)"
  let ?new = "transaction_frames (ww_next_lsn (dd_wal db)) p ops (state_hash ?st)"
  have iv: "dd_wal_path db = default_wal_path (ps_root (dd_store db))"
    "recovers (dd_store db) fs frames (dd_state db) (dd_committed db) pend"
    "state_inv (dd_state db)" "committed_ok (dd_committed db)"
    using inv by (auto simp: db_inv_def)
  have ops: "list_all operation_ok ops" "length ?tx = 16" using rep by (auto simp: prepared_rep_def)
  obtain receipt db' fs' where c: "commit_prepared db p g s fs = (Inr receipt, db', fs')"
    and f: "dd_store db' = dd_store db" "dd_wal_path db' = dd_wal_path db" "dd_state db' = ?st"
      "dd_committed db' = bset_insert ?tx (dd_committed db)" "ww_path (dd_wal db') = dd_wal_path db"
      "wal_at (dd_wal db') (frames @ ?new) fs'" "store_ready fs' (dd_store db)"
      "load_checkpoint (dd_store db) fs' = load_checkpoint (dd_store db) fs"
      "fget fs' = (fget fs)(segment_path (dd_store db) g s \<mapsto> segment_encoding g STORAGE_MINOR (pb_entries p),
        dd_wal_path db \<mapsto> log_bytes (frames @ ?new))" "fs_dirs fs' = fs_dirs fs"
    using commit_prepared_writes [OF inv rep nc seg va room] by blast
  have lw: "log_wf (frames @ ?new)" using f(6) by (simp add: wal_at_def)
  have len: "length frames + 1 < usize_limit"
    using log_length [OF lw] by (simp add: transaction_frames_def)
  have rec: "recovers (dd_store db) fs (frames @ ?new) ?st (bset_insert ?tx (dd_committed db)) pend"
  proof (rule recovers_append [OF iv(2) lw])
    fix n assume "n \<le> length frames"
    with len have "n + 1 < usize_limit" by simp
    with replay_transaction [OF rep z, of "\<lparr>rp_state = dd_state db, rp_committed = dd_committed db,
        rp_pending = pend, rp_replayed = n\<rparr>" "ww_next_lsn (dd_wal db)"] np nc room
    show "\<exists>n'. n' \<le> n + length ?new \<and>
      replay_frames \<lparr>rp_state = dd_state db, rp_committed = dd_committed db, rp_pending = pend, rp_replayed = n\<rparr> ?new =
      Inr \<lparr>rp_state = ?st, rp_committed = bset_insert ?tx (dd_committed db), rp_pending = pend, rp_replayed = n'\<rparr>"
      by (intro exI [of _ "n + 1"]) (simp add: transaction_room_def transaction_frames_def)
  qed
  have "committed_ok (bset_insert ?tx (dd_committed db))"
    using iv(4) ops(2) by (auto simp: committed_ok_def bset_ok_insert list_all_iff)
  with rec f iv(1) state_inv_operations [OF iv(3) ops(1)]
  have "db_inv db' fs' (frames @ ?new) pend" by (simp add: db_inv_def recovers_cong [OF f(8)])
  with c f show ?thesis by auto
qed

subsection \<open>Crashes during a commit\<close>

lemma complete_frames_take:
  "\<exists>j \<le> length fs. complete_frames n fs = take j fs \<and> (n < length (log_bytes fs) \<longrightarrow> j < length fs)"
proof (induction n fs rule: complete_frames.induct)
  case (2 n f fs)
  show ?case
  proof (cases "length (frame_bytes f) \<le> n")
    case True
    then obtain j where "j \<le> length fs" "complete_frames (n - length (frame_bytes f)) fs = take j fs"
      "n - length (frame_bytes f) < length (log_bytes fs) \<longrightarrow> j < length fs"
      using 2 by blast
    with True show ?thesis by (intro exI [of _ "Suc j"]) auto
  next
    case False
    then show ?thesis by (intro exI [of _ 0]) simp
  qed
qed simp

definition cut_pending :: "prepared_batch \<Rightarrow> operation list \<Rightarrow> nat \<Rightarrow>
  (tx_id, pending_transaction) btree \<Rightarrow> (tx_id, pending_transaction) btree" where
  "cut_pending p ops j pend =
     (if j = 0 then pend else bt_insert (pb_transaction_id p) (pending_of p (take (j - 1) ops)) pend)"

lemma cut_pending_other:
  "t \<noteq> pb_transaction_id p \<Longrightarrow> bt_get (cut_pending p ops j pend) t = bt_get pend t"
  by (simp add: cut_pending_def bt_get_insert)

lemma replay_cut_transaction:
  assumes rep: "prepared_rep p ops" and z: "pb_transaction_id p \<noteq> zero_tx"
    and np: "bt_get (rp_pending r) (pb_transaction_id p) = None"
    and room: "list_all frame_room ops" and j: "j < length (transaction_frames lsn p ops h)"
  shows "replay_frames r (take j (transaction_frames lsn p ops h)) =
     Inr (r\<lparr>rp_pending := cut_pending p ops j (rp_pending r)\<rparr>)"
proof (cases j)
  case 0
  then show ?thesis by (simp add: cut_pending_def)
next
  case (Suc k)
  then have k: "k \<le> length ops" using j by (simp add: transaction_frames_def)
  then have "take j (transaction_frames lsn p ops h) =
     begin_frame lsn p # operation_frames (lsn + 1) (pb_transaction_id p) (take k ops)"
    by (simp add: transaction_frames_def Suc take_operation_frames)
  with replay_prefix [OF rep z np room k] show ?thesis by (simp add: cut_pending_def Suc)
qed

lemma u64_less_not_max: "(a :: u64) < b \<Longrightarrow> a \<noteq> - 1"
  using word_order.extremum_strict by auto

lemma final_lsn_take: "log_wf (frames @ new) \<Longrightarrow> final_lsn 0 (frames @ take j new) \<le> final_lsn 0 (frames @ new)"
  using final_lsn_mono [of "frames @ take j new" "drop j new"] by simp

text \<open>
  The log is cut anywhere inside the frames of a transaction. Opening the database then
  gives the state before the transaction, unless all of its bytes are there.
\<close>

lemma commit_crash:
  assumes inv: "db_inv db fs frames pend" and rep: "prepared_rep p ops"
    and z: "pb_transaction_id p \<noteq> zero_tx" and np: "bt_get pend (pb_transaction_id p) = None"
    and room: "list_all frame_room ops"
    and new: "new = transaction_frames lsn p ops h"
    and lw: "log_wf (frames @ new)" "final_lsn 0 (frames @ new) \<noteq> - 1"
    and m: "length (log_bytes frames) \<le> m" "m < length (log_bytes (frames @ new))"
    and fl: "fget fs' (default_wal_path (ps_root (dd_store db))) = Some (take m (log_bytes (frames @ new)))"
    and ready: "store_ready fs' (dd_store db)"
    and lc: "load_checkpoint (dd_store db) fs' = load_checkpoint (dd_store db) fs"
  shows "\<exists>db' fs'' frames' pend'. db_open (ps_root (dd_store db)) True fs' = (Inr db', fs'') \<and>
     dd_store db' = dd_store db \<and> dd_state db' = dd_state db \<and> dd_committed db' = dd_committed db \<and>
     db_inv db' fs'' frames' pend' \<and> frames' = complete_frames m (frames @ new) \<and>
     reopened db' frames' fs' fs'' \<and>
     (\<forall>t. t \<noteq> pb_transaction_id p \<longrightarrow> bt_get pend' t = bt_get pend t) \<and>
     (length (log_bytes frames) + 144 \<le> m \<longrightarrow> bt_get pend' (pb_transaction_id p) \<noteq> None)"
proof -
  obtain k where k: "m = length (log_bytes frames) + k" "k < length (log_bytes new)"
    using m by (metis add_less_cancel_left le_Suc_ex length_append log_bytes_simps(3))
  obtain j where j: "j < length new" "complete_frames k new = take j new"
    using complete_frames_take [of new k] k(2) by blast
  have c: "complete_frames m (frames @ new) = frames @ take j new"
    using complete_frames_append [of frames k new] k(1) j(2) by simp
  have lt: "log_wf (frames @ take j new)" using lw(1) log_wf_append_left [of "frames @ take j new" "drop j new"] by simp
  have iv: "recovers (dd_store db) fs frames (dd_state db) (dd_committed db) pend" "state_inv (dd_state db)"
    "committed_ok (dd_committed db)" using inv by (auto simp: db_inv_def)
  let ?r = "\<lambda>n. \<lparr>rp_state = dd_state db, rp_committed = dd_committed db, rp_pending = pend, rp_replayed = n\<rparr>"
  have np': "bt_get (rp_pending (?r n)) (pb_transaction_id p) = None" for n using np by simp
  have j': "j < length (transaction_frames lsn p ops h)" using j(1) new by simp
  let ?pend = "cut_pending p ops j pend"
  have rp: "replay_frames (?r n) (take j new) = Inr ((?r n)\<lparr>rp_pending := ?pend\<rparr>)" for n
    using replay_cut_transaction [OF rep z np' room j', of n] new by simp
  have rec: "recovers (dd_store db) fs' (frames @ take j new) (dd_state db) (dd_committed db) ?pend"
    unfolding recovers_cong [OF lc]
    by (rule recovers_append [OF iv(1) lt]) (auto simp: rp)
  have "final_lsn 0 (frames @ take j new) \<noteq> - 1"
    using final_lsn_take [OF lw(1), of j] lw(2) by (metis word_order.extremum_unique)
  from db_open_ok [OF ready lw(1) _ fl, unfolded c, OF _ rec this iv(2,3)] m(2)
  obtain db' fs'' where o: "db_open (ps_root (dd_store db)) True fs' = (Inr db', fs'')" "dd_store db' = dd_store db"
    "dd_state db' = dd_state db" "dd_committed db' = dd_committed db" "db_inv db' fs'' (frames @ take j new) ?pend"
    "reopened db' (frames @ take j new) fs' fs''"
    by (metis less_imp_le)
  have "j \<noteq> 0" if "144 \<le> k"
  proof -
    have "frame_wf (begin_frame lsn p)" using lw(1) new by (simp add: log_wf_def transaction_frames_def)
    then have "length (frame_bytes (begin_frame lsn p)) = 96 + length (wf_payload (begin_frame lsn p))"
      by (rule length_frame_bytes)
    also have "\<dots> = 144" using rep by (simp add: begin_frame_def encode_begin_payload_def prepared_rep_def)
    finally have "complete_frames k new \<noteq> []" using that by (simp add: new transaction_frames_def)
    with j(2) show ?thesis by auto
  qed
  then have "length (log_bytes frames) + 144 \<le> m \<longrightarrow> bt_get ?pend (pb_transaction_id p) \<noteq> None"
    using k(1) by (auto simp: cut_pending_def bt_get_insert)
  with o cut_pending_other [of _ p ops j pend] c show ?thesis by metis
qed

subsection \<open>Checkpoint\<close>

definition checkpoint_frame :: "u64 \<Rightarrow> u64 \<Rightarrow> recovered_state \<Rightarrow> wal_frame" where
  "checkpoint_frame lsn g st = \<lparr>wf_type = Checkpoint, wf_lsn = lsn, wf_tx = zero_tx,
     wf_payload = encode_checkpoint_frame_payload g (state_hash st)\<rparr>"

lemma replay_checkpoint_frame: "replay_frame r (checkpoint_frame lsn g st) = Inr r"
  by (simp add: replay_frame_def checkpoint_frame_def replay_checkpoint_def
      encode_checkpoint_frame_payload_def)

definition checkpoint_room :: "wal_writer \<Rightarrow> wal_frame list \<Rightarrow> u64 \<Rightarrow> recovered_state \<Rightarrow> tx_id list \<Rightarrow> bool" where
  "checkpoint_room w frames g st cs \<longleftrightarrow> ww_next_lsn w \<noteq> - 1 \<and>
     length (log_bytes (frames @ [checkpoint_frame (ww_next_lsn w) g st])) < usize_limit \<and>
     80 + length (encode_checkpoint_payload (ww_next_lsn w) st cs) < usize_limit"

definition mpath :: "page_store \<Rightarrow> u64 \<Rightarrow> path" where
  "mpath store g = manifest_path store (manifest_name g)"

lemma visible_names:
  "\<not> starts_with (checkpoint_name g) (lit ''.'')" "\<not> starts_with (manifest_name g) (lit ''.'')"
  by (simp_all add: starts_with_def lit_def checkpoint_name_def manifest_name_def)

lemma checkpoint_paths_publishable:
  assumes "store_ready fs store"
  shows "publishable fs (checkpoint_path store g)" "publishable fs (mpath store g)"
  unfolding checkpoint_path_def mpath_def manifest_path_def using assms visible_names
  by (auto intro!: store_ready_publishable simp: store_directories_set)

lemma checkpoint_paths_distinct:
  "checkpoint_path store g \<noteq> mpath store g'" "checkpoint_path store g \<noteq> head_path store"
  "mpath store g \<noteq> head_path store"
  "default_wal_path (ps_root store) \<noteq> checkpoint_path store g"
  "default_wal_path (ps_root store) \<noteq> mpath store g"
  "default_wal_path (ps_root store) \<noteq> head_path store"
  by (auto simp: checkpoint_path_def mpath_def manifest_path_def head_path_def default_wal_path_def lit_def)

lemmas checkpoint_paths_neq [simp] = checkpoint_paths_distinct checkpoint_paths_distinct [symmetric]

lemma publish_checkpoint_ok:
  assumes ready: "store_ready fs (dd_store db)" and inv: "state_inv (dd_state db)" "committed_ok (dd_committed db)"
    and free: "fget fs (checkpoint_path (dd_store db) g) = None" "fget fs (mpath (dd_store db) g) = None"
    and lim: "80 + length (encode_checkpoint_payload lsn (dd_state db) (dd_committed db)) < usize_limit"
  shows "\<exists>r fs'. publish_checkpoint db g lsn (state_hash (dd_state db)) fs = (Inr r, fs') \<and>
     store_ready fs' (dd_store db) \<and>
     checkpoint_published (dd_store db) fs' g lsn (dd_state db) (dd_committed db) \<and>
     fget fs' = (fget fs)(checkpoint_path (dd_store db) g \<mapsto> checkpoint_file g lsn (dd_state db) (dd_committed db),
       mpath (dd_store db) g \<mapsto> checkpoint_manifest g lsn (dd_state db) (dd_committed db),
       head_path (dd_store db) \<mapsto> head_file_bytes (checkpoint_head g lsn (dd_state db) (dd_committed db)))"
proof -
  let ?S = "dd_store db" and ?st = "dd_state db" and ?cs = "dd_committed db"
  let ?cp = "checkpoint_path ?S g" and ?mp = "mpath ?S g" and ?hp = "head_path ?S"
  let ?cf = "checkpoint_file g lsn ?st ?cs" and ?mf = "checkpoint_manifest g lsn ?st ?cs"
  let ?pay = "manifest_payload g lsn (state_hash ?st) (sha256 ?cf) (checkpoint_name g)"
  let ?h = "checkpoint_head g lsn ?st ?cs"
  obtain fs1 where w1: "write_checkpoint ?cp g lsn ?st ?cs fs = (Inr (), fs1)" and i1: "fs_installs ?cp ?cf fs fs1"
    using write_checkpoint_ok [OF checkpoint_paths_publishable(1) [OF ready] free(1) inv(2), of lsn ?st] lim by auto
  have r1: "store_ready fs1 ?S" by (rule store_ready_installs [OF ready i1 checkpoint_paths_publishable(1) [OF ready]])
  have s1: "sha256_file ?cp fs1 = Inr (sha256 ?cf)" using i1 by (simp add: sha256_file_def fs_read_def fs_installs_def)
  have n32: "length (checkpoint_name g) < 2 ^ 32" by (simp add: checkpoint_name_ok)
  note mp = manifest_payload_ok [OF checkpoint_name_ok(1) n32 checkpoint_name_ok(2), of "state_hash ?st" "sha256 ?cf" g lsn]
  have lp: "80 + length ?pay < usize_limit" using mp(3) by (simp add: checkpoint_name_ok usize_limit_def)
  have f1: "fget fs1 ?mp = None" using i1 free(2) by (simp add: fs_installs_def)
  obtain fs2 where w2: "write_versioned_file ?mp MAGIC_MANIFEST g 1 ?pay False fs1 =
      (Inr (versioned_report ?mp MAGIC_MANIFEST g 1 ?pay), fs2)" and i2: "fs_installs ?mp ?mf fs1 fs2"
    using write_versioned_file_ok [OF checkpoint_paths_publishable(2) [OF r1, of g], of MAGIC_MANIFEST ?pay False g 1] lp f1
    by (auto simp: checkpoint_manifest_def)
  have r2: "store_ready fs2 ?S" by (rule store_ready_installs [OF r1 i2 checkpoint_paths_publishable(2) [OF r1]])
  have mfile: "fget fs2 (manifest_path ?S (hd_manifest_filename ?h)) = Some ?mf"
    using i2 by (simp add: fs_installs_def mpath_def checkpoint_head_def)
  have v2: "verify_versioned_file (manifest_path ?S (hd_manifest_filename ?h)) MAGIC_MANIFEST fs2 =
      Inr (versioned_report (manifest_path ?S (hd_manifest_filename ?h)) MAGIC_MANIFEST g 1 ?pay)"
    using mfile lp by (simp add: verify_versioned_file_def read_versioned_file_def fs_read_def checkpoint_manifest_def
        read_versioned_bytes_ok versioned_report_def)
  have s2: "sha256_file (manifest_path ?S (hd_manifest_filename ?h)) fs2 = Inr (hd_manifest_sha256 ?h)"
    using mfile by (simp add: sha256_file_def fs_read_def checkpoint_head_def)
  obtain rep fs3 where w3: "publish_head ?S ?h fs2 = (Inr rep, fs3)" and i3: "fs_installs ?hp (head_file_bytes ?h) fs2 fs3"
    using publish_head_ok [OF checkpoint_head_wf store_ready_head [OF r2] v2 _ s2]
    by (auto simp: versioned_report_def checkpoint_head_def)
  have r3: "store_ready fs3 ?S" by (rule store_ready_installs [OF r2 i3 store_ready_head [OF r2]])
  have fg: "fget fs3 = (fget fs)(?cp \<mapsto> ?cf, ?mp \<mapsto> ?mf, ?hp \<mapsto> head_file_bytes ?h)"
    using i1 i2 i3 by (simp add: fs_installs_def)
  have lc: "last ?cp = checkpoint_name g" "last ?mp = manifest_name g"
    by (simp_all add: checkpoint_path_def mpath_def manifest_path_def)
  have hd: "\<lparr>hd_generation = g, hd_manifest_filename = manifest_name g, hd_manifest_sha256 = sha256 ?mf\<rparr> = ?h"
    by (simp add: checkpoint_head_def)
  have s2': "sha256_file ?mp fs2 = Inr (sha256 ?mf)" using i2 by (simp add: sha256_file_def fs_read_def fs_installs_def)
  have wm: "write_manifest ?S g 1 ?pay = write_versioned_file ?mp MAGIC_MANIFEST g 1 ?pay False"
    by (simp add: write_manifest_def mpath_def manifest_path_def)
  have "\<exists>r. publish_checkpoint db g lsn (state_hash ?st) fs = (Inr r, fs3)"
    unfolding publish_checkpoint_def Let_def checkpoint_path_def [symmetric]
    using w1 s1 mp(1) w2 s2' w3
    by (simp add: io_query_def io_pure_def lc wm io_map_err_def versioned_report_def hd io_ret_def)
  moreover have "checkpoint_published ?S fs3 g lsn ?st ?cs"
    unfolding checkpoint_published_def mpath_def [symmetric] fg by simp
  ultimately show ?thesis using r3 fg by blast
qed

text \<open>Paths that are not below the root of the database; a checkpoint does not touch them.\<close>

definition outside :: "path \<Rightarrow> path \<Rightarrow> bool" where
  "outside root p \<longleftrightarrow> take (length root) p \<noteq> root"

lemma outside_append [simp]: "\<not> outside root (root @ q)"
  by (simp add: outside_def)

lemma outside_neq: "outside root p \<Longrightarrow> root @ q \<noteq> p" "outside root p \<Longrightarrow> p \<noteq> root @ q"
  by auto

lemma db_checkpoint_full:
  assumes inv: "db_inv db fs frames pend"
    and free: "fget fs (checkpoint_path (dd_store db) g) = None" "fget fs (mpath (dd_store db) g) = None"
    and room: "checkpoint_room (dd_wal db) frames g (dd_state db) (dd_committed db)"
  shows "\<exists>r db' fs'. db_checkpoint db g fs = (Inr r, db', fs') \<and> dd_store db' = dd_store db \<and>
     dd_state db' = dd_state db \<and> dd_committed db' = dd_committed db \<and>
     db_inv db' fs' (frames @ [checkpoint_frame (ww_next_lsn (dd_wal db)) g (dd_state db)]) [] \<and>
     load_checkpoint (dd_store db) fs' =
       Inr (dd_state db, dd_committed db, g, ww_next_lsn (dd_wal db)) \<and>
     (\<forall>p. outside (ps_root (dd_store db)) p \<longrightarrow> fget fs' p = fget fs p)"
proof -
  let ?S = "dd_store db" and ?w = "dd_wal db" and ?st = "dd_state db" and ?cs = "dd_committed db"
  let ?l = "ww_next_lsn ?w" and ?w1 = "?w\<lparr>ww_next_lsn := ww_next_lsn ?w + 1\<rparr>"
  let ?cf = "checkpoint_frame ?l g ?st" and ?pl = "encode_checkpoint_frame_payload g (state_hash ?st)"
  have iv: "store_ready fs ?S" "dd_wal_path db = default_wal_path (ps_root ?S)"
    "ww_path ?w = dd_wal_path db" "wal_at ?w frames fs" "state_inv ?st" "committed_ok ?cs"
    using inv by (auto simp: db_inv_def)
  have nf: "next_frame ?w Checkpoint zero_tx ?pl = ?cf" by (simp add: next_frame_def checkpoint_frame_def)
  have rm: "?l \<noteq> - 1" "length (log_bytes (frames @ [next_frame ?w Checkpoint zero_tx ?pl])) < usize_limit"
    "80 + length (encode_checkpoint_payload ?l ?st ?cs) < usize_limit"
    using room unfolding nf by (simp_all add: checkpoint_room_def)
  have pl: "length ?pl \<le> MAX_WAL_PAYLOAD_BYTES" by (simp add: encode_checkpoint_frame_payload_def MAX_WAL_PAYLOAD_BYTES_def)
  have z16: "length zero_tx = 16" by (simp add: zero_tx_def)
  obtain fs1 where a: "append_frame Checkpoint zero_tx ?pl ?w fs = (Inr ?l, ?w1, fs1)"
    and i1: "fs_installs (ww_path ?w) (log_bytes (frames @ [?cf])) fs fs1" and at1: "wal_at ?w1 (frames @ [?cf]) fs1"
    by (rule append_frame_ok [OF iv(4) z16 pl rm(2,1), unfolded nf])
  have i1': "fs_installs (default_wal_path (ps_root ?S)) (log_bytes (frames @ [?cf])) fs fs1"
    using i1 iv(2,3) by simp
  let ?db1 = "db\<lparr>dd_wal := ?w1, dd_last_lsn := ?l\<rparr>"
  have r1: "store_ready fs1 (dd_store ?db1)"
    using store_ready_installs [OF iv(1) i1' wal_path_publishable(1) [OF iv(1)]] by simp
  have f1: "fget fs1 (checkpoint_path (dd_store ?db1) g) = None" "fget fs1 (mpath (dd_store ?db1) g) = None"
    using free i1' by (auto simp: fs_installs_def)
  obtain r fs2 where p: "publish_checkpoint ?db1 g ?l (state_hash ?st) fs1 = (Inr r, fs2)"
    and r2: "store_ready fs2 ?S" and cp: "checkpoint_published ?S fs2 g ?l ?st ?cs"
    and fg: "fget fs2 = (fget fs1)(checkpoint_path ?S g \<mapsto> checkpoint_file g ?l ?st ?cs,
       mpath ?S g \<mapsto> checkpoint_manifest g ?l ?st ?cs,
       head_path ?S \<mapsto> head_file_bytes (checkpoint_head g ?l ?st ?cs))"
    using publish_checkpoint_ok [OF r1 _ _ f1, of ?l] iv(5,6) rm(3) by auto
  have at2: "wal_at ?w1 (frames @ [?cf]) fs2"
    using at1 fg iv(2,3) by (simp add: wal_at_def)
  have ld: "load_checkpoint ?S fs2 = Inr (?st, ?cs, g, ?l)"
    by (rule load_checkpoint_ok [OF cp iv(5,6) rm(3)])
  have "filter (\<lambda>f. ?l < wf_lsn f) (frames @ [?cf]) = []"
    using at1 by (auto simp: filter_empty_conv wal_at_def log_wf_def sorted_wrt_append checkpoint_frame_def
        dest: less_asym)
  then have "recovers ?S fs2 (frames @ [?cf]) ?st ?cs []"
    using ld by (auto simp: recovers_def final_lsn_def checkpoint_frame_def)
  moreover have "\<forall>p. outside (ps_root ?S) p \<longrightarrow> fget fs2 p = fget fs p"
    using i1' unfolding fg fs_installs_def checkpoint_path_def mpath_def manifest_path_def head_path_def default_wal_path_def
    by (auto simp: outside_neq)
  ultimately show ?thesis
    using a p r2 at2 iv ld by (simp add: db_checkpoint_def Let_def db_inv_def)
qed

lemma db_checkpoint_ok:
  assumes "db_inv db fs frames pend"
    and "fget fs (checkpoint_path (dd_store db) g) = None" "fget fs (mpath (dd_store db) g) = None"
    and "checkpoint_room (dd_wal db) frames g (dd_state db) (dd_committed db)"
  shows "\<exists>r db' fs'. db_checkpoint db g fs = (Inr r, db', fs') \<and> dd_store db' = dd_store db \<and>
     dd_state db' = dd_state db \<and> dd_committed db' = dd_committed db \<and>
     db_inv db' fs' (frames @ [checkpoint_frame (ww_next_lsn (dd_wal db)) g (dd_state db)]) [] \<and>
     load_checkpoint (dd_store db) fs' =
       Inr (dd_state db, dd_committed db, g, ww_next_lsn (dd_wal db))"
  using db_checkpoint_full [OF assms] by blast

subsection \<open>Creation\<close>

definition fresh_root :: "fsys \<Rightarrow> path \<Rightarrow> bool" where
  "fresh_root fs root \<longleftrightarrow> fs_quiet fs \<and>
     (\<forall>q \<in> set (path_prefixes root). fget fs q = None \<and> \<not> hidden_name q) \<and>
     (\<forall>r. fget fs (root @ r) = None \<and> root @ r \<notin> fs_dirs fs)"

lemma set_path_prefixes_snoc: "set (path_prefixes (p @ [d])) = insert (p @ [d]) (set (path_prefixes p))"
proof -
  have "path_prefixes (p @ [d]) = path_prefixes p @ [p @ [d]]" by (simp add: path_prefixes_def)
  then show ?thesis by simp
qed

lemma path_in_prefixes: "p \<in> set (path_prefixes p)"
proof -
  have "take (length p) p \<in> (\<lambda>n. take n p) ` set [0..<Suc (length p)]" by (intro imageI) simp
  then show ?thesis by (simp add: path_prefixes_def)
qed

lemma create_dir_all_fresh:
  assumes "\<forall>q \<in> set (path_prefixes p). fget fs q = None"
  shows "\<exists>fs'. create_dir_all p fs = (Inr (), fs') \<and> fget fs' = fget fs \<and> fs_clock fs' = fs_clock fs \<and>
     fs_dirs fs' = (if p \<in> fs_dirs fs then fs_dirs fs else fs_dirs fs \<union> set (path_prefixes p))"
  using assms by (auto simp: create_dir_all_def list_ex_iff fun_eq_iff)

lemma create_dirs_fresh:
  assumes "\<forall>q \<in> set (path_prefixes root). fget fs q = None" and "\<forall>d \<in> set ds. fget fs (root @ [d]) = None"
    and "set (path_prefixes root) \<subseteq> fs_dirs fs"
  shows "\<exists>fs'. create_dirs (map (\<lambda>d. root @ [d]) ds) fs = (Inr (), fs') \<and> fget fs' = fget fs \<and>
     fs_clock fs' = fs_clock fs \<and> fs_dirs fs' = fs_dirs fs \<union> (\<lambda>d. root @ [d]) ` set ds"
  using assms
proof (induction ds arbitrary: fs)
  case Nil
  then show ?case by (simp add: io_ret_def)
next
  case (Cons d ds)
  have "\<forall>q \<in> set (path_prefixes (root @ [d])). fget fs q = None"
    using Cons.prems by (simp add: set_path_prefixes_snoc)
  from create_dir_all_fresh [OF this] obtain fs1 where
    c: "create_dir_all (root @ [d]) fs = (Inr (), fs1)" "fget fs1 = fget fs" "fs_clock fs1 = fs_clock fs"
    and d: "fs_dirs fs1 = insert (root @ [d]) (fs_dirs fs)"
    using Cons.prems(3) by (auto simp: set_path_prefixes_snoc split: if_splits)
  have "\<exists>fs'. create_dirs (map (\<lambda>d. root @ [d]) ds) fs1 = (Inr (), fs') \<and> fget fs' = fget fs1 \<and>
     fs_clock fs' = fs_clock fs1 \<and> fs_dirs fs' = fs_dirs fs1 \<union> (\<lambda>d. root @ [d]) ` set ds"
    using Cons.prems c d by (intro Cons.IH) auto
  with c d show ?case by (auto simp: io_map_err_def)
qed

lemma page_store_create_ok:
  assumes fresh: "fresh_root fs root"
  shows "\<exists>fs'. page_store_create root fs = (Inr \<lparr>ps_root = root\<rparr>, fs') \<and> fget fs' = fget fs \<and>
     store_ready fs' \<lparr>ps_root = root\<rparr>"
proof -
  have no: "\<forall>q \<in> set (path_prefixes root). fget fs q = None" "root \<notin> fs_dirs fs"
    using fresh by (auto simp: fresh_root_def dest!: spec [of _ "[]"])
  obtain fs1 where c1: "create_dir_all root fs = (Inr (), fs1)" "fget fs1 = fget fs" "fs_clock fs1 = fs_clock fs"
    and d1: "fs_dirs fs1 = fs_dirs fs \<union> set (path_prefixes root)"
    using create_dir_all_fresh [OF no(1)] no(2) by auto
  have nf: "\<forall>d \<in> set store_directories. fget fs1 (root @ [d]) = None"
    using fresh c1(2) by (auto simp: fresh_root_def)
  obtain fs2 where c2: "create_dirs (map (\<lambda>d. root @ [d]) store_directories) fs1 = (Inr (), fs2)"
      "fget fs2 = fget fs1" "fs_clock fs2 = fs_clock fs1"
    and d2: "fs_dirs fs2 = fs_dirs fs1 \<union> (\<lambda>d. root @ [d]) ` set store_directories"
    using create_dirs_fresh [of root fs1 store_directories] no(1) nf c1(2) d1 by auto
  have rt: "root \<in> fs_dirs fs2" using d1 d2 path_in_prefixes [of root] by simp
  have "page_store_create root fs = (Inr \<lparr>ps_root = root\<rparr>, fs2)"
    using c1(1) c2(1) rt by (simp add: page_store_create_def io_map_err_def sync_parent_dir_def sync_dir_def
        fs_exists_def io_ret_def)
  moreover have "store_ready fs2 \<lparr>ps_root = root\<rparr>"
  proof -
    have nd: "q \<notin> set (path_prefixes root)" if "length root < length q" for q
      using that by (auto simp: path_prefixes_def)
    have hid: "\<not> hidden_name (root @ [d])" if "d \<in> set store_directories" for d
      using that by (auto simp: store_directories_set hidden_name_def starts_with_def lit_def)
    have "fs_quiet fs2"
      using fresh hid nf by (auto simp: fs_quiet_def d1 d2 c1 c2 fresh_root_def)
    moreover have "root @ [d, n] \<notin> fs_dirs fs2" for d n
      using fresh nd [of "root @ [d, n]"] by (auto simp: d1 d2 fresh_root_def)
    moreover have "root @ [lit ''CURRENT.ubhead''] \<notin> fs_dirs fs2"
      using fresh nd [of "root @ [lit ''CURRENT.ubhead'']"]
      by (auto simp: d1 d2 fresh_root_def store_directories_set lit_def)
    ultimately show ?thesis using rt by (auto simp: store_ready_def head_path_def d2)
  qed
  ultimately show ?thesis using c1(2) c2(2) by auto
qed

lemma db_create_ok:
  assumes fresh: "fresh_root fs root"
  shows "\<exists>db fs'. db_create root fs = (Inr db, fs') \<and> dd_state db = empty_state \<and> dd_committed db = [] \<and>
     ps_root (dd_store db) = root \<and> ww_next_lsn (dd_wal db) = 1 \<and> db_inv db fs' [] [] \<and>
     fget fs' = (fget fs)(default_wal_path root \<mapsto> [])"
proof -
  let ?S = "\<lparr>ps_root = root\<rparr>" and ?p = "default_wal_path root"
  obtain fs1 where c: "page_store_create root fs = (Inr ?S, fs1)" "fget fs1 = fget fs" and r: "store_ready fs1 ?S"
    using page_store_create_ok [OF fresh] by blast
  have nf: "fget fs1 ?p = None" "fget fs1 (head_path ?S) = None"
    using fresh c(2) by (simp_all add: fresh_root_def default_wal_path_def head_path_def)
  have nd: "?p \<notin> fs_dirs fs1" "butlast ?p \<in> fs_dirs fs1"
    using wal_path_publishable [OF r] by (auto simp: publishable_def)
  have pp: "path_parent ?p = Some (butlast ?p)" by (simp add: path_parent_def default_wal_path_def)
  have "scan_wal ?p True fs1 = (Inr empty_scan, fs1)" using nf nd by (simp add: scan_wal_missing fs_exists_def)
  then have w: "wal_open ?p True fs1 = (Inr \<lparr>ww_path = ?p, ww_next_lsn = 1\<rparr>, fput ?p [] fs1)"
    using nf nd by (simp add: wal_open_def pp io_map_err_def create_dir_all_def open_append_def empty_scan_def
        next_lsn_after_def io_ret_def)
  have i: "fs_installs ?p [] fs1 (fput ?p [] fs1)" by (rule fs_installs_fput)
  have r2: "store_ready (fput ?p [] fs1) ?S"
    using store_ready_installs [OF r i] wal_path_publishable(1) [OF r] by simp
  have hp: "\<not> fs_exists (fput ?p [] fs1) (head_path ?S)"
    using nf r by (simp add: fs_exists_def store_ready_def default_wal_path_def head_path_def)
  have "recovers ?S (fput ?p [] fs1) [] empty_state [] []"
    by (simp add: recovers_def load_checkpoint_none [OF hp])
  moreover have "wal_at \<lparr>ww_path = ?p, ww_next_lsn = 1\<rparr> [] (fput ?p [] fs1)"
    by (simp add: wal_at_def log_wf_def final_lsn_def)
  moreover have "fget (fput ?p [] fs1) = (fget fs)(?p \<mapsto> [])" using c(2) by (simp add: fun_eq_iff)
  ultimately show ?thesis
    using c(1) w r2 by (simp add: db_create_def Let_def io_map_err_def io_ret_def db_inv_def state_inv_empty
        committed_ok_def bset_ok_def)
qed

end
