(* ===== verification/Ub_Durability.thy ===== *)
theory Ub_Durability
  imports Ub_Durable
begin

text \<open>
  The durable database as a transition system with crashes, and what its users rely on:
  the state is that of the acknowledged transactions, in order; it survives reopening,
  checkpoints and a log that is cut at any byte of a transaction.
\<close>

subsection \<open>Runs with crashes\<close>

text \<open>
  A run of the database: creation, commits, checkpoints, reopening, and crashes in the
  middle of a commit followed by recovery. Beside the database and the file system the
  state remembers what an observer knows: the ids of the transactions that were started and
  the operations of those that were acknowledged or survived. The guard of a commit is what a
  client has to keep, not what \<open>commit_prepared\<close> checks: the source refuses a committed id,
  but neither the zero id nor an id whose earlier attempt was interrupted. The room conditions are the limits of the log: the payload limit of a frame and the range
  of sequence numbers and file offsets.
\<close>

record system =
  sy_db :: durable_database
  sy_fs :: fsys
  sy_used :: "tx_id set"
  sy_history :: "operation list list"

definition commit_guard :: "system \<Rightarrow> prepared_batch \<Rightarrow> operation list \<Rightarrow> u64 \<Rightarrow> u64 \<Rightarrow> bool" where
  "commit_guard s p ops g n \<longleftrightarrow> prepared_rep p ops \<and> pb_transaction_id p \<noteq> zero_tx \<and>
     pb_transaction_id p \<notin> sy_used s \<and> entries_valid (pb_entries p) \<and>
     fget (sy_fs s) (segment_path (dd_store (sy_db s)) g n) = None \<and>
     (\<exists>frames. wal_at (dd_wal (sy_db s)) frames (sy_fs s) \<and>
        transaction_room (dd_wal (sy_db s)) frames p ops)"

inductive db_step :: "system \<Rightarrow> system \<Rightarrow> bool" where
  db_commit:
    "commit_guard s p ops g n \<Longrightarrow>
     commit_prepared (sy_db s) p g n (sy_fs s) = (Inr receipt, db', fs') \<Longrightarrow>
     db_step s \<lparr>sy_db = db', sy_fs = fs', sy_used = insert (pb_transaction_id p) (sy_used s),
                sy_history = sy_history s @ [ops]\<rparr>"
| db_commit_crash:
    "commit_guard s p ops g n \<Longrightarrow>
     commit_prepared (sy_db s) p g n (sy_fs s) = (Inr receipt, db', fs') \<Longrightarrow>
     fget (sy_fs s) (dd_wal_path (sy_db s)) = Some old \<Longrightarrow>
     fget fs' (dd_wal_path (sy_db s)) = Some new \<Longrightarrow>
     length old \<le> m \<Longrightarrow> m < length new \<Longrightarrow>
     db_open (ps_root (dd_store (sy_db s))) True (fput (dd_wal_path (sy_db s)) (take m new) fs')
       = (Inr db'', fs'') \<Longrightarrow>
     db_step s \<lparr>sy_db = db'', sy_fs = fs'', sy_used = insert (pb_transaction_id p) (sy_used s),
                sy_history = sy_history s\<rparr>"
| db_checkpoint:
    "fget (sy_fs s) (checkpoint_path (dd_store (sy_db s)) g) = None \<Longrightarrow>
     fget (sy_fs s) (mpath (dd_store (sy_db s)) g) = None \<Longrightarrow>
     wal_at (dd_wal (sy_db s)) frames (sy_fs s) \<Longrightarrow>
     checkpoint_room (dd_wal (sy_db s)) frames g (dd_state (sy_db s)) (dd_committed (sy_db s)) \<Longrightarrow>
     db_checkpoint (sy_db s) g (sy_fs s) = (Inr r, db', fs') \<Longrightarrow>
     db_step s (s\<lparr>sy_db := db', sy_fs := fs'\<rparr>)"
| db_reopen:
    "db_open (ps_root (dd_store (sy_db s))) rep (sy_fs s) = (Inr db', fs') \<Longrightarrow>
     db_step s (s\<lparr>sy_db := db', sy_fs := fs'\<rparr>)"

definition db_initial :: "system \<Rightarrow> bool" where
  "db_initial s \<longleftrightarrow> (\<exists>root fs. fresh_root fs root \<and> db_create root fs = (Inr (sy_db s), sy_fs s)) \<and>
     sy_used s = {} \<and> sy_history s = []"

definition history_state :: "operation list list \<Rightarrow> recovered_state" where
  "history_state hist = foldl (\<lambda>st ops. operations_apply ops st) empty_state hist"

definition db_system_inv :: "system \<Rightarrow> bool" where
  "db_system_inv s \<longleftrightarrow> dd_state (sy_db s) = history_state (sy_history s) \<and>
     set (dd_committed (sy_db s)) \<subseteq> sy_used s \<and>
     (\<exists>frames pend. db_inv (sy_db s) (sy_fs s) frames pend \<and>
        (\<forall>t. bt_get pend t \<noteq> None \<longrightarrow> t \<in> sy_used s))"

lemma db_system_invI:
  assumes "dd_state (sy_db s) = history_state (sy_history s)" and "set (dd_committed (sy_db s)) \<subseteq> sy_used s"
    and "db_inv (sy_db s) (sy_fs s) frames pend" and "\<And>t. bt_get pend t \<noteq> None \<Longrightarrow> t \<in> sy_used s"
  shows "db_system_inv s"
  using assms unfolding db_system_inv_def by blast

lemma log_bytes_inject:
  assumes "log_wf a" and "log_wf b" and "log_bytes a = log_bytes b"
  shows "a = b"
proof -
  have "Inr (log_scan a 0) = Inr (log_scan b 0)"
    using scan_log_complete [OF assms(1), of False] scan_log_complete [OF assms(2), of False] assms(3) by simp
  then show ?thesis by (simp add: log_scan_def)
qed

lemma wal_at_unique: "wal_at w a fs \<Longrightarrow> wal_at w b fs \<Longrightarrow> a = b"
  by (auto simp: wal_at_def intro: log_bytes_inject)

lemma commit_guard_ok:
  assumes "commit_guard s p ops g n" and "db_system_inv s" and "db_inv (sy_db s) (sy_fs s) frames pend"
    and pend: "\<forall>t. bt_get pend t \<noteq> None \<longrightarrow> t \<in> sy_used s"
  shows "prepared_rep p ops" and "pb_transaction_id p \<noteq> zero_tx"
    and "bt_get pend (pb_transaction_id p) = None" and "pb_transaction_id p \<notin> set (dd_committed (sy_db s))"
    and "fget (sy_fs s) (segment_path (dd_store (sy_db s)) g n) = None"
    and "entries_valid (pb_entries p)" and "transaction_room (dd_wal (sy_db s)) frames p ops"
proof -
  obtain frames' where "wal_at (dd_wal (sy_db s)) frames' (sy_fs s)"
    and r: "transaction_room (dd_wal (sy_db s)) frames' p ops"
    using assms(1) by (auto simp: commit_guard_def)
  moreover have "wal_at (dd_wal (sy_db s)) frames (sy_fs s)" using assms(3) by (simp add: db_inv_def)
  ultimately have "frames' = frames" using wal_at_unique by blast
  with r show "transaction_room (dd_wal (sy_db s)) frames p ops" by simp
  show "bt_get pend (pb_transaction_id p) = None" "pb_transaction_id p \<notin> set (dd_committed (sy_db s))"
    using assms(1,2) pend by (auto simp: commit_guard_def db_system_inv_def)
qed (use assms(1) in \<open>auto simp: commit_guard_def\<close>)

lemma history_snoc: "history_state (hist @ [ops]) = operations_apply ops (history_state hist)"
  by (simp add: history_state_def)

lemma db_step_commit:
  assumes g: "commit_guard s p ops g n" and inv: "db_system_inv s"
    and c: "commit_prepared (sy_db s) p g n (sy_fs s) = (Inr receipt, db', fs')"
  shows "db_system_inv \<lparr>sy_db = db', sy_fs = fs', sy_used = insert (pb_transaction_id p) (sy_used s),
                sy_history = sy_history s @ [ops]\<rparr>"
proof -
  obtain frames pend where i: "db_inv (sy_db s) (sy_fs s) frames pend"
    and pd: "\<forall>t. bt_get pend t \<noteq> None \<longrightarrow> t \<in> sy_used s"
    using inv by (auto simp: db_system_inv_def)
  note k = commit_guard_ok [OF g inv i pd]
  from commit_prepared_ok [OF i k] c inv pd show ?thesis
    by (auto simp: db_system_inv_def history_snoc)
qed

lemma db_step_crash:
  assumes g: "commit_guard s p ops g n" and inv: "db_system_inv s"
    and c: "commit_prepared (sy_db s) p g n (sy_fs s) = (Inr receipt, db', fs')"
    and old: "fget (sy_fs s) (dd_wal_path (sy_db s)) = Some old"
    and new: "fget fs' (dd_wal_path (sy_db s)) = Some new"
    and m: "length old \<le> m" "m < length new"
  shows "\<exists>db'' fs''. db_open (ps_root (dd_store (sy_db s))) True
       (fput (dd_wal_path (sy_db s)) (take m new) fs') = (Inr db'', fs'') \<and>
     dd_state db'' = dd_state (sy_db s) \<and> dd_committed db'' = dd_committed (sy_db s) \<and>
     db_system_inv \<lparr>sy_db = db'', sy_fs = fs'', sy_used = insert (pb_transaction_id p) (sy_used s),
                sy_history = sy_history s\<rparr> \<and>
     dd_store db'' = dd_store (sy_db s) \<and>
     (\<exists>frames' pend'. db_inv db'' fs'' frames' pend' \<and>
        reopened db'' frames' (fput (dd_wal_path (sy_db s)) (take m new) fs') fs'' \<and>
        (\<forall>frames. wal_at (dd_wal (sy_db s)) frames (sy_fs s) \<longrightarrow> frames' = complete_frames m
           (frames @ transaction_frames (ww_next_lsn (dd_wal (sy_db s))) p ops (state_hash (dd_state db')))) \<and>
        (length old + 144 \<le> m \<longrightarrow> bt_get pend' (pb_transaction_id p) \<noteq> None))"
proof -
  let ?db = "sy_db s" and ?wp = "dd_wal_path (sy_db s)"
  obtain frames pend where i: "db_inv ?db (sy_fs s) frames pend"
    and pd: "\<forall>t. bt_get pend t \<noteq> None \<longrightarrow> t \<in> sy_used s"
    using inv by (auto simp: db_system_inv_def)
  note k = commit_guard_ok [OF g inv i pd]
  let ?new = "transaction_frames (ww_next_lsn (dd_wal ?db)) p ops (state_hash (dd_state db'))"
  obtain st: "dd_store db' = dd_store ?db" and iv': "db_inv db' fs' (frames @ ?new) pend"
    and fg: "fget fs' = (fget (sy_fs s))(segment_path (dd_store ?db) g n \<mapsto> segment_encoding g STORAGE_MINOR (pb_entries p),
        ?wp \<mapsto> log_bytes (frames @ ?new))" and fd: "fs_dirs fs' = fs_dirs (sy_fs s)"
    using commit_prepared_ok [OF i k] c by auto
  have wp: "?wp = default_wal_path (ps_root (dd_store ?db))" "ww_path (dd_wal ?db) = ?wp"
    "fget (sy_fs s) ?wp = Some (log_bytes frames)"
    using i by (auto simp: db_inv_def wal_at_def)
  have on: "old = log_bytes frames" "new = log_bytes (frames @ ?new)" using old new wp fg by auto
  have lw: "log_wf (frames @ ?new)" "final_lsn 0 (frames @ ?new) \<noteq> - 1" and r': "store_ready fs' (dd_store ?db)"
    using iv' st by (auto simp: db_inv_def wal_at_def dest: u64_less_not_max)
  let ?fc = "fput ?wp (take m new) fs'"
  have ins: "fs_installs (default_wal_path (ps_root (dd_store ?db))) (take m new) fs' ?fc"
    unfolding wp(1) by (rule fs_installs_fput)
  have rc: "store_ready ?fc (dd_store ?db)"
    by (rule store_ready_installs [OF r' ins wal_path_publishable(1) [OF r']])
  have dirs: "fs_dirs ?fc = fs_dirs (sy_fs s)" using fd by simp
  have lc: "load_checkpoint (dd_store ?db) ?fc = load_checkpoint (dd_store ?db) (sy_fs s)"
    by (rule load_checkpoint_cong [OF dirs])
      (auto simp: fg wp(1) default_wal_path_def segment_path_def head_path_def lit_def)
  have fl: "fget ?fc (default_wal_path (ps_root (dd_store ?db))) = Some (take m (log_bytes (frames @ ?new)))"
    by (simp add: wp(1) on(2))
  have room: "list_all frame_room ops" using k(7) by (simp add: transaction_room_def)
  have m': "length (log_bytes frames) \<le> m" "m < length (log_bytes (frames @ ?new))" using m on by simp_all
  from commit_crash [OF i k(1-3) room refl lw m' fl rc lc] obtain db'' fs'' frames' pend'
    where o: "db_open (ps_root (dd_store ?db)) True ?fc = (Inr db'', fs'')"
      and e: "dd_state db'' = dd_state ?db" "dd_committed db'' = dd_committed ?db" "db_inv db'' fs'' frames' pend'"
      and p': "\<forall>t. t \<noteq> pb_transaction_id p \<longrightarrow> bt_get pend' t = bt_get pend t"
      and p2: "length old + 144 \<le> m \<longrightarrow> bt_get pend' (pb_transaction_id p) \<noteq> None"
      and s2: "dd_store db'' = dd_store ?db" "reopened db'' frames' ?fc fs''"
      and fr: "frames' = complete_frames m (frames @ ?new)"
    unfolding on(1) by blast
  have "wal_at (dd_wal ?db) frames (sy_fs s)" using i by (simp add: db_inv_def)
  then have fr': "\<forall>frames. wal_at (dd_wal ?db) frames (sy_fs s) \<longrightarrow> frames' = complete_frames m (frames @ ?new)"
    using fr wal_at_unique by blast
  show ?thesis
  proof (intro exI conjI)
    have "t \<in> insert (pb_transaction_id p) (sy_used s)" if "bt_get pend' t \<noteq> None" for t
      using that p' pd by auto
    then show "db_system_inv \<lparr>sy_db = db'', sy_fs = fs'', sy_used = insert (pb_transaction_id p) (sy_used s),
                sy_history = sy_history s\<rparr>"
      using e inv by (intro db_system_invI [where frames = frames' and pend = pend']) (auto simp: db_system_inv_def)
  qed (rule o e s2 p2 fr')+
qed

lemma db_step_inv:
  assumes "db_step s s'" and "db_system_inv s"
  shows "db_system_inv s'"
  using assms
proof (induction rule: db_step.induct)
  case (db_commit s p ops g n receipt db' fs')
  then show ?case by (intro db_step_commit)
next
  case (db_commit_crash s p ops g n receipt db' fs' old new m db'' fs'')
  from db_step_crash [OF db_commit_crash(1) db_commit_crash(8) db_commit_crash(2-6)] db_commit_crash(7)
  show ?case by auto
next
  case (db_checkpoint s g frames r db' fs')
  obtain frames' pend where i: "db_inv (sy_db s) (sy_fs s) frames' pend"
    using db_checkpoint(6) by (auto simp: db_system_inv_def)
  then have "frames' = frames"
    using db_checkpoint(3) wal_at_unique by (auto simp: db_inv_def)
  with i have i': "db_inv (sy_db s) (sy_fs s) frames pend" by simp
  from db_checkpoint_ok [OF i' db_checkpoint(1,2,4)] db_checkpoint(5,6) show ?case
    by (intro db_system_invI [where pend = "[]"]) (auto simp: db_system_inv_def)
next
  case (db_reopen s rep db' fs')
  obtain frames pend where i: "db_inv (sy_db s) (sy_fs s) frames pend"
    and pd: "\<forall>t. bt_get pend t \<noteq> None \<longrightarrow> t \<in> sy_used s"
    using db_reopen(2) by (auto simp: db_system_inv_def)
  have "final_lsn 0 frames \<noteq> - 1" using i by (auto simp: db_inv_def wal_at_def dest: u64_less_not_max)
  from db_open_reopen [OF i this, of rep] db_reopen pd show ?case
    by (auto simp: db_system_inv_def)
qed

interpretation db_run: invariant_system db_initial db_step db_system_inv
proof unfold_locales
  show "db_initial s \<Longrightarrow> db_system_inv s" for s
  proof -
    assume "db_initial s"
    then obtain root fs where f: "fresh_root fs root" and c: "db_create root fs = (Inr (sy_db s), sy_fs s)"
      and e: "sy_used s = {}" "sy_history s = []" by (auto simp: db_initial_def)
    from db_create_ok [OF f] c e show ?thesis
      by (auto simp: db_system_inv_def history_state_def intro!: exI [of _ "[]"])
  qed
  show "db_step s s' \<Longrightarrow> db_system_inv s \<Longrightarrow> db_system_inv s'" for s s' by (rule db_step_inv)
qed

subsection \<open>Properties of runs\<close>

lemma reachable_db_inv:
  assumes "reachable db_initial db_step s"
  obtains frames pend where "db_inv (sy_db s) (sy_fs s) frames pend" and "final_lsn 0 frames \<noteq> - 1"
    and "\<forall>t. bt_get pend t \<noteq> None \<longrightarrow> t \<in> sy_used s"
proof -
  obtain frames pend where i: "db_inv (sy_db s) (sy_fs s) frames pend"
    and p: "\<forall>t. bt_get pend t \<noteq> None \<longrightarrow> t \<in> sy_used s"
    using db_run.reachable_inv [OF assms] unfolding db_system_inv_def by blast
  moreover have "final_lsn 0 frames \<noteq> - 1"
    using i by (auto simp: db_inv_def wal_at_def dest: u64_less_not_max)
  ultimately show thesis by (intro that)
qed

text \<open>
  C1. Durability, for clients that keep the guards of the run. A run starts with the creation
  of a store in an unused directory and goes on with successful commits, crashes in the middle
  of a commit followed by recovery, checkpoints and reopenings. Every commit of the run is
  within \<open>commit_guard\<close>: a well-formed batch, whose id is not zero and was never used before,
  not even by an attempt that a crash interrupted, with a free segment name, and with room for
  its frames (payload limit, sequence numbers, file size); every checkpoint uses a free
  generation name and has room in the log. In every state such a run reaches, the state in
  memory is the result of applying the operations of the surviving transactions in order to
  the empty state, and opening the store, with or without repair, succeeds and recovers exactly
  that state and the same set of committed transactions. The source does not check for a zero
  id or for an id that was used and not committed: after such a commit the files may not open,
  as the properties in \<open>Ub_Limits\<close> show.
\<close>

theorem reachable_state_durable:
  assumes "reachable db_initial db_step s"
  shows "dd_state (sy_db s) = history_state (sy_history s) \<and>
     (\<exists>db' fs'. db_open (ps_root (dd_store (sy_db s))) rep (sy_fs s) = (Inr db', fs') \<and>
        dd_state db' = history_state (sy_history s) \<and>
        dd_committed db' = dd_committed (sy_db s) \<and> fget fs' = fget (sy_fs s))"
proof -
  have h: "dd_state (sy_db s) = history_state (sy_history s)"
    using db_run.reachable_inv [OF assms] by (simp add: db_system_inv_def)
  obtain frames pend where i: "db_inv (sy_db s) (sy_fs s) frames pend" "final_lsn 0 frames \<noteq> - 1"
    by (rule reachable_db_inv [OF assms])
  from db_open_reopen [OF i, of rep] h show ?thesis by auto
qed

text \<open>A store that is created in an empty file system, and one transaction for it.\<close>

definition blank_fs :: fsys where
  "blank_fs = \<lparr>fs_files = [], fs_dirs = {[]}, fs_clock = (\<lambda>_. 0), fs_tick = 0, fs_pid = 1\<rparr>"

lemma fget_blank [simp]: "fget blank_fs p = None"
  by (simp add: blank_fs_def fget_def)

lemma blank_fresh: "fresh_root blank_fs [lit ''db'']"
  by (auto simp: fresh_root_def fs_quiet_def hidden_name_def path_prefixes_def starts_with_def)
    (auto simp: blank_fs_def lit_def)

definition demo_batch :: "operation \<Rightarrow> prepared_batch" where
  "demo_batch x = (let n = length (se_payload (operation_entry x)) in
     \<lparr>pb_transaction_id = replicate 16 1, pb_entries = [operation_entry x],
      pb_batch_digest = batch_digest (replicate 16 1) [operation_entry x] n, pb_total_payload_bytes = n\<rparr>)"

definition demo_ok :: "operation \<Rightarrow> bool" where
  "demo_ok x \<longleftrightarrow> operation_ok x \<and> length (se_payload (operation_entry x)) \<le> 100"

lemma demo_batch_facts:
  assumes "demo_ok x"
  shows "prepared_rep (demo_batch x) [x]" and "entries_valid (pb_entries (demo_batch x))"
    and "pb_transaction_id (demo_batch x) = replicate 16 1" and "pb_transaction_id (demo_batch x) \<noteq> zero_tx"
proof -
  have ok: "operation_ok x" and n: "length (se_payload (operation_entry x)) \<le> 100"
    using assms by (auto simp: demo_ok_def)
  then show "prepared_rep (demo_batch x) [x]"
    by (simp add: prepared_rep_def demo_batch_def payload_sum_def Let_def usize_limit_def)
  show "entries_valid (pb_entries (demo_batch x))"
    using operation_entry_valid [OF ok] n
    by (simp add: entries_valid_def demo_batch_def length_entry_bytes padding_len_def usize_limit_def Let_def)
  show "pb_transaction_id (demo_batch x) = replicate 16 1" "pb_transaction_id (demo_batch x) \<noteq> zero_tx"
    by (simp_all add: demo_batch_def zero_tx_def replicate_eq_replicate Let_def)
qed

lemma demo_frames_length:
  "length h = 32 \<Longrightarrow> length (log_bytes (transaction_frames l (demo_batch x) [x] h)) =
     456 + length (se_payload (operation_entry x))"
  "length (frame_bytes (begin_frame l (demo_batch x))) = 144"
  "length (frame_bytes (operation_frame l (replicate 16 1) x)) = 144 + length (se_payload (operation_entry x))"
  by (simp_all add: demo_batch_def transaction_frames_def begin_frame_def
      commit_frame_def operation_frame_def frame_bytes_def frame_header_def encode_begin_payload_def
      encode_operation_payload_def encode_commit_payload_def Let_def)

lemma demo_room:
  assumes "demo_ok x" and "unat (ww_next_lsn w) < 1000" and "length (log_bytes frames) < 1000"
  shows "transaction_room w frames (demo_batch x) [x]"
  using assms demo_frames_length(1) [of "replicate 32 0" "ww_next_lsn w" x]
  by (simp add: transaction_room_def frame_room_def MAX_WAL_PAYLOAD_BYTES_def usize_limit_def demo_ok_def)

lemma demo_run:
  assumes x: "demo_ok x"
  obtains s where "reachable db_initial db_step s" and "sy_history s = []" and "sy_used s = {}"
    and "commit_guard s (demo_batch x) [x] 1 1"
    and "wal_at (dd_wal (sy_db s)) [] (sy_fs s)" and "ww_next_lsn (dd_wal (sy_db s)) = 1"
    and "dd_committed (sy_db s) = []" and "\<forall>g n. fget (sy_fs s) (segment_path (dd_store (sy_db s)) g n) = None"
    and "fget (sy_fs s) (dd_wal_path (sy_db s)) = Some []"
    and "\<forall>q. q \<noteq> dd_wal_path (sy_db s) \<longrightarrow> fget (sy_fs s) q = None"
    and "dd_wal_path (sy_db s) = default_wal_path (ps_root (dd_store (sy_db s)))"
    and "dd_state (sy_db s) = empty_state"
proof -
  obtain db fs where c: "db_create [lit ''db''] blank_fs = (Inr db, fs)" and n: "ww_next_lsn (dd_wal db) = 1"
    and cm: "dd_committed db = []" "dd_state db = empty_state" and st: "ps_root (dd_store db) = [lit ''db'']"
    and i: "db_inv db fs [] []" and files: "fget fs = (fget blank_fs)(default_wal_path [lit ''db''] \<mapsto> [])"
    using db_create_ok [OF blank_fresh] by blast
  let ?s = "\<lparr>sy_db = db, sy_fs = fs, sy_used = {}, sy_history = []\<rparr>"
  have "db_initial ?s" using c blank_fresh by (auto simp: db_initial_def)
  then have "reachable db_initial db_step ?s" by (rule reach_init)
  moreover have "fget fs (segment_path (dd_store db) g n) = None" for g n
    by (auto simp: files segment_path_def default_wal_path_def lit_def)
  moreover have "wal_at (dd_wal db) [] fs" "fget fs (dd_wal_path db) = Some []"
    "\<forall>q. q \<noteq> dd_wal_path db \<longrightarrow> fget fs q = None" "dd_wal_path db = default_wal_path (ps_root (dd_store db))"
    using i st files by (simp_all add: db_inv_def)
  moreover have "commit_guard ?s (demo_batch x) [x] 1 1"
    using demo_batch_facts [OF x] demo_room [OF x, of "dd_wal db" "[]"] n i files
    by (auto simp: commit_guard_def db_inv_def segment_path_def default_wal_path_def lit_def)
  ultimately show thesis using n cm by (intro that [of ?s]) auto
qed

text \<open>A commit within the limits succeeds.\<close>

lemma guard_commits:
  assumes "db_system_inv s" and "commit_guard s p ops g n"
  shows "\<exists>receipt db' fs'. commit_prepared (sy_db s) p g n (sy_fs s) = (Inr receipt, db', fs') \<and>
     dd_state db' = operations_apply ops (dd_state (sy_db s)) \<and>
     dd_committed db' = bset_insert (pb_transaction_id p) (dd_committed (sy_db s)) \<and>
     dd_store db' = dd_store (sy_db s) \<and>
     (\<forall>q. q \<noteq> segment_path (dd_store (sy_db s)) g n \<longrightarrow> q \<noteq> dd_wal_path (sy_db s) \<longrightarrow>
        fget fs' q = fget (sy_fs s) q) \<and> (\<exists>old new. fget (sy_fs s) (dd_wal_path (sy_db s)) = Some old \<and>
        fget fs' (dd_wal_path (sy_db s)) = Some (old @ new) \<and> 64 \<le> length new \<and>
        new = log_bytes (transaction_frames (ww_next_lsn (dd_wal (sy_db s))) p ops (state_hash (dd_state db'))))"
proof -
  obtain frames pend where i: "db_inv (sy_db s) (sy_fs s) frames pend"
    and pd: "\<forall>t. bt_get pend t \<noteq> None \<longrightarrow> t \<in> sy_used s"
    using assms(1) unfolding db_system_inv_def by blast
  have w: "fget (sy_fs s) (dd_wal_path (sy_db s)) = Some (log_bytes frames)"
    using i by (auto simp: db_inv_def wal_at_def)
  let ?new = "\<lambda>st. transaction_frames (ww_next_lsn (dd_wal (sy_db s))) p ops (state_hash st)"
  from commit_prepared_ok [OF i commit_guard_ok [OF assms(2,1) i pd]] obtain receipt db' fs'
    where c: "commit_prepared (sy_db s) p g n (sy_fs s) = (Inr receipt, db', fs')"
      "dd_state db' = operations_apply ops (dd_state (sy_db s))" "dd_store db' = dd_store (sy_db s)"
      "dd_committed db' = bset_insert (pb_transaction_id p) (dd_committed (sy_db s))"
      and f: "fget fs' (dd_wal_path (sy_db s)) = Some (log_bytes (frames @ ?new (dd_state db')))"
      and i': "db_inv db' fs' (frames @ ?new (dd_state db')) pend"
      and q: "\<forall>q. q \<noteq> segment_path (dd_store (sy_db s)) g n \<longrightarrow> q \<noteq> dd_wal_path (sy_db s) \<longrightarrow>
        fget fs' q = fget (sy_fs s) q"
    by (elim exE conjE) (rule that, assumption+, simp only: fun_upd_apply if_True simp_thms, assumption, simp)
  define new where "new = ?new (dd_state db')"
  have n: "new \<noteq> []" by (simp add: new_def transaction_frames_def)
  have "frame_wf (hd new)" using i' n by (cases new) (auto simp: db_inv_def wal_at_def log_wf_def new_def [symmetric])
  then have "64 \<le> length (log_bytes new)" using n by (cases new) (auto simp: length_frame_bytes)
  with c f w q show ?thesis by (auto simp: new_def)
qed

definition demo_operation :: operation where
  "demo_operation = PutEdgeOp 1 2 3 4 0"

lemma demo_operation_ok: "demo_ok demo_operation"
  using demo_edge_ok by (simp add: demo_operation_def demo_ok_def)

theorem reachable_state_durable_witness:
  "\<exists>(s :: system) db' fs'. sy_history s = [[demo_operation]] \<and>
     db_open (ps_root (dd_store (sy_db s))) True (sy_fs s) = (Inr db', fs') \<and>
     dd_state db' = history_state [[demo_operation]]"
proof -
  obtain s where r: "reachable db_initial db_step s" and h: "sy_history s = []"
    and g: "commit_guard s (demo_batch demo_operation) [demo_operation] 1 1"
    by (rule demo_run [OF demo_operation_ok])
  obtain receipt db' fs' where c: "commit_prepared (sy_db s) (demo_batch demo_operation) 1 1 (sy_fs s) = (Inr receipt, db', fs')"
    using guard_commits [OF db_run.reachable_inv [OF r] g] by blast
  from reach_step [OF r db_commit [OF g c]]
  have "reachable db_initial db_step \<lparr>sy_db = db', sy_fs = fs',
     sy_used = insert (pb_transaction_id (demo_batch demo_operation)) (sy_used s), sy_history = [[demo_operation]]\<rparr>"
    using h by simp
  from reachable_state_durable [OF this, of True] obtain x y
    where "db_open (ps_root (dd_store db')) True fs' = (Inr x, y)" "dd_state x = history_state [[demo_operation]]"
    by auto
  then show ?thesis
    by (intro exI [of _ "\<lparr>sy_db = db', sy_fs = fs', sy_used = {}, sy_history = [[demo_operation]]\<rparr>"]
        exI [of _ x] exI [of _ y]) simp
qed

text \<open>
  C3. Progress: in every reachable state, committing a well-formed batch with an unused,
  non-zero transaction id, a free segment name and room in the log succeeds; the new state
  is the old one with the operations applied in order, the id becomes committed, the
  receipt states the hash of the new state, and the resulting state is reachable again.
\<close>

theorem commit_succeeds:
  assumes "reachable db_initial db_step s" and "commit_guard s p ops g n"
  shows "\<exists>receipt db' fs'. commit_prepared (sy_db s) p g n (sy_fs s) = (Inr receipt, db', fs') \<and>
     dd_state db' = operations_apply ops (dd_state (sy_db s)) \<and>
     set (dd_committed db') = insert (pb_transaction_id p) (set (dd_committed (sy_db s))) \<and>
     cr_state_sha256 receipt = state_hash (dd_state db') \<and>
     reachable db_initial db_step \<lparr>sy_db = db', sy_fs = fs',
       sy_used = insert (pb_transaction_id p) (sy_used s), sy_history = sy_history s @ [ops]\<rparr>"
proof -
  obtain receipt db' fs' where c: "commit_prepared (sy_db s) p g n (sy_fs s) = (Inr receipt, db', fs')"
    and e: "dd_state db' = operations_apply ops (dd_state (sy_db s))"
      "dd_committed db' = bset_insert (pb_transaction_id p) (dd_committed (sy_db s))"
    using guard_commits [OF db_run.reachable_inv [OF assms(1)] assms(2)] by blast
  have "cr_state_sha256 receipt = state_hash (dd_state db')"
    using c by (auto simp: commit_prepared_def Let_def split: if_splits sum.splits prod.splits)
  with c e reach_step [OF assms(1) db_commit [OF assms(2) c]] show ?thesis by auto
qed

theorem commit_succeeds_witness:
  "\<exists>(s :: system) receipt db' fs'. commit_prepared (sy_db s) (demo_batch demo_operation) 1 1 (sy_fs s) = (Inr receipt, db', fs') \<and>
     set (dd_committed db') = insert (replicate 16 1) (set (dd_committed (sy_db s)))"
proof -
  obtain s where "reachable db_initial db_step s" and "commit_guard s (demo_batch demo_operation) [demo_operation] 1 1"
    by (rule demo_run [OF demo_operation_ok])
  from commit_succeeds [OF this] show ?thesis by (auto simp: demo_batch_def Let_def)
qed

lemma db_inv_same_log:
  assumes "db_inv db fs frames pend"
  shows "db_inv db (fput (dd_wal_path db) (log_bytes frames) fs) frames pend"
proof -
  let ?fs = "fput (dd_wal_path db) (log_bytes frames) fs"
  have wp: "dd_wal_path db = default_wal_path (ps_root (dd_store db))" and r: "store_ready fs (dd_store db)"
    using assms by (simp_all add: db_inv_def)
  have ins: "fs_installs (default_wal_path (ps_root (dd_store db))) (log_bytes frames) fs ?fs"
    unfolding wp by (rule fs_installs_fput)
  have "store_ready ?fs (dd_store db)"
    by (rule store_ready_installs [OF r ins wal_path_publishable(1) [OF r]])
  with assms recovers_cong [OF load_checkpoint_wal [OF ins]] show ?thesis
    by (simp add: db_inv_def wal_at_def)
qed

text \<open>
  C2. Atomicity of a guarded commit. Take a reachable state of a run and a commit within
  \<open>commit_guard\<close>: a well-formed batch with an id that is not zero and was never used before,
  not even by an interrupted attempt, a free segment name and room in the log. If the machine
  stops while the frames of the commit are written, so that the log holds everything it held
  before and any number of further bytes of the commit, then opening with repair succeeds and
  recovers either the state before the commit or, only if all bytes are there, the state after
  it; nothing in between. Without the guard this fails: a second attempt under an id that an
  interrupted commit has used is refused at its \<open>BEGIN\<close> frame.
\<close>

theorem commit_crash_atomic:
  assumes r: "reachable db_initial db_step s" and g: "commit_guard s p ops g n"
    and c: "commit_prepared (sy_db s) p g n (sy_fs s) = (Inr receipt, db', fs')"
    and old: "fget (sy_fs s) (dd_wal_path (sy_db s)) = Some old"
    and new: "fget fs' (dd_wal_path (sy_db s)) = Some new"
    and m: "length old \<le> m" "m \<le> length new"
  shows "\<exists>db'' fs''. db_open (ps_root (dd_store (sy_db s))) True
       (fput (dd_wal_path (sy_db s)) (take m new) fs') = (Inr db'', fs'') \<and>
     dd_state db'' = (if m = length new then operations_apply ops (dd_state (sy_db s)) else dd_state (sy_db s)) \<and>
     set (dd_committed db'') = (if m = length new
        then insert (pb_transaction_id p) (set (dd_committed (sy_db s))) else set (dd_committed (sy_db s)))"
proof (cases "m = length new")
  case False
  with m have "m < length new" by simp
  from db_step_crash [OF g db_run.reachable_inv [OF r] c old new m(1) this] False show ?thesis by auto
next
  case True
  let ?s' = "\<lparr>sy_db = db', sy_fs = fs', sy_used = insert (pb_transaction_id p) (sy_used s),
                sy_history = sy_history s @ [ops]\<rparr>"
  have "reachable db_initial db_step ?s'" using reach_step [OF r db_commit [OF g c]] by simp
  then obtain frames pend where i: "db_inv db' fs' frames pend" and l: "final_lsn 0 frames \<noteq> - 1"
    using reachable_db_inv by (metis system.select_convs(1,2))
  obtain e: "dd_state db' = operations_apply ops (dd_state (sy_db s))" "dd_store db' = dd_store (sy_db s)"
      "dd_committed db' = bset_insert (pb_transaction_id p) (dd_committed (sy_db s))"
    using guard_commits [OF db_run.reachable_inv [OF r] g] c by auto
  have w: "dd_wal_path db' = dd_wal_path (sy_db s)" using c
    by (auto simp: commit_prepared_def Let_def split: if_splits sum.splits prod.splits)
  have "take m new = log_bytes frames"
    using i new True by (auto simp: db_inv_def wal_at_def w)
  with db_open_reopen [OF db_inv_same_log [OF i] l, of True] e True w show ?thesis by auto
qed

theorem commit_crash_atomic_witness:
  "\<exists>(s :: system) old new fs' db'' fs''. length new = 40 \<and> fget (sy_fs s) (dd_wal_path (sy_db s)) = Some old \<and>
     db_open (ps_root (dd_store (sy_db s))) True
       (fput (dd_wal_path (sy_db s)) (old @ new) fs') = (Inr db'', fs'') \<and> dd_state db'' = dd_state (sy_db s)"
proof -
  obtain s where r: "reachable db_initial db_step s" and g: "commit_guard s (demo_batch demo_operation) [demo_operation] 1 1"
    by (rule demo_run [OF demo_operation_ok])
  obtain receipt db' fs' old new where c: "commit_prepared (sy_db s) (demo_batch demo_operation) 1 1 (sy_fs s) = (Inr receipt, db', fs')"
    and o: "fget (sy_fs s) (dd_wal_path (sy_db s)) = Some old"
    and n: "fget fs' (dd_wal_path (sy_db s)) = Some (old @ new)" "64 \<le> length new"
    using guard_commits [OF db_run.reachable_inv [OF r] g] by blast
  from commit_crash_atomic [OF r g c o n(1), of "length old + 40"] n(2) obtain db'' fs''
    where "db_open (ps_root (dd_store (sy_db s))) True
       (fput (dd_wal_path (sy_db s)) (old @ take 40 new) fs') = (Inr db'', fs'')" "dd_state db'' = dd_state (sy_db s)"
    by auto
  moreover have "length (take 40 new) = 40" using n(2) by simp
  ultimately show ?thesis using o by blast
qed

subsection \<open>Checkpoints and refused commits\<close>

text \<open>
  C23. A checkpoint under a free generation name, with room in the log, succeeds in every
  reachable state: it does not change the state or the committed set, the published head
  leads to a checkpoint file that decodes to exactly them, at the sequence number of the
  CHECKPOINT frame, and the result is a reachable state again.
\<close>

theorem checkpoint_captures_state:
  assumes r: "reachable db_initial db_step s"
    and free: "fget (sy_fs s) (checkpoint_path (dd_store (sy_db s)) g) = None"
      "fget (sy_fs s) (mpath (dd_store (sy_db s)) g) = None"
    and at: "wal_at (dd_wal (sy_db s)) frames (sy_fs s)"
    and room: "checkpoint_room (dd_wal (sy_db s)) frames g (dd_state (sy_db s)) (dd_committed (sy_db s))"
  shows "\<exists>receipt db' fs'. db_checkpoint (sy_db s) g (sy_fs s) = (Inr receipt, db', fs') \<and>
     dd_state db' = dd_state (sy_db s) \<and> dd_committed db' = dd_committed (sy_db s) \<and>
     load_checkpoint (dd_store (sy_db s)) fs' =
       Inr (dd_state (sy_db s), dd_committed (sy_db s), g, ww_next_lsn (dd_wal (sy_db s))) \<and>
     reachable db_initial db_step (s\<lparr>sy_db := db', sy_fs := fs'\<rparr>)"
proof -
  obtain frames' pend where i: "db_inv (sy_db s) (sy_fs s) frames' pend" by (rule reachable_db_inv [OF r])
  then have "frames' = frames" using at wal_at_unique by (auto simp: db_inv_def)
  with db_checkpoint_ok [OF i free] room obtain receipt db' fs'
    where c: "db_checkpoint (sy_db s) g (sy_fs s) = (Inr receipt, db', fs')"
      "dd_state db' = dd_state (sy_db s)" "dd_committed db' = dd_committed (sy_db s)"
      "load_checkpoint (dd_store (sy_db s)) fs' =
         Inr (dd_state (sy_db s), dd_committed (sy_db s), g, ww_next_lsn (dd_wal (sy_db s)))" by blast
  with reach_step [OF r db_checkpoint [OF free at room c(1)]] show ?thesis by blast
qed

theorem checkpoint_captures_state_witness:
  "\<exists>(s :: system) receipt db' fs'. db_checkpoint (sy_db s) 1 (sy_fs s) = (Inr receipt, db', fs') \<and>
     load_checkpoint (dd_store (sy_db s)) fs' = Inr (empty_state, [], 1, 1)"
proof -
  obtain s where r: "reachable db_initial db_step s" and at: "wal_at (dd_wal (sy_db s)) [] (sy_fs s)"
    and l: "ww_next_lsn (dd_wal (sy_db s)) = 1" and e: "dd_committed (sy_db s) = []" "dd_state (sy_db s) = empty_state"
    and f: "\<forall>q. q \<noteq> dd_wal_path (sy_db s) \<longrightarrow> fget (sy_fs s) q = None"
    and w: "dd_wal_path (sy_db s) = default_wal_path (ps_root (dd_store (sy_db s)))"
    by (rule demo_run [OF demo_operation_ok])
  have free: "fget (sy_fs s) (checkpoint_path (dd_store (sy_db s)) 1) = None"
    "fget (sy_fs s) (mpath (dd_store (sy_db s)) 1) = None"
    using f w by (auto simp: checkpoint_path_def mpath_def manifest_path_def default_wal_path_def lit_def)
  have room: "checkpoint_room (dd_wal (sy_db s)) [] 1 (dd_state (sy_db s)) (dd_committed (sy_db s))"
    by (simp add: checkpoint_room_def l e checkpoint_frame_def frame_bytes_def frame_header_def zero_tx_def
        encode_checkpoint_frame_payload_def encode_checkpoint_payload_def state_counts_def empty_state_def
        state_entries_def bt_values_def usize_limit_def)
  from checkpoint_captures_state [OF r free at room] l e show ?thesis by auto
qed

text \<open>
  A commit that reports an error has changed neither the state nor the committed set
  nor the store of the database; and a batch whose transaction id is already committed is
  refused as a duplicate with the database and every file left exactly as they were.
\<close>

theorem failed_commit_keeps_state:
  assumes "commit_prepared db p g n fs = (Inl e, db', fs')"
  shows "dd_state db' = dd_state db \<and> dd_committed db' = dd_committed db \<and> dd_store db' = dd_store db \<and>
     (pb_transaction_id p \<in> set (dd_committed db) \<longrightarrow>
        e = Db_DuplicateTransaction (pb_transaction_id p) \<and> db' = db \<and> fs' = fs)"
  using assms by (auto simp: commit_prepared_def Let_def split: if_splits sum.splits prod.splits)

theorem failed_commit_keeps_state_witness:
  "\<exists>(s :: system) db' fs'. commit_prepared (sy_db s) (demo_batch demo_operation) 1 2 (sy_fs s) =
       (Inl (Db_DuplicateTransaction (replicate 16 1)), db', fs') \<and>
     dd_state db' = dd_state (sy_db s) \<and> fs' = sy_fs s"
proof -
  obtain s where r: "reachable db_initial db_step s" and g: "commit_guard s (demo_batch demo_operation) [demo_operation] 1 1"
    by (rule demo_run [OF demo_operation_ok])
  obtain receipt db fs where "commit_prepared (sy_db s) (demo_batch demo_operation) 1 1 (sy_fs s) = (Inr receipt, db, fs)"
    and "dd_committed db = bset_insert (pb_transaction_id (demo_batch demo_operation)) (dd_committed (sy_db s))"
    using guard_commits [OF db_run.reachable_inv [OF r] g] by blast
  from this(2) have m: "replicate 16 1 \<in> set (dd_committed db)" by (simp add: demo_batch_facts(3) [OF demo_operation_ok])
  let ?s = "\<lparr>sy_db = db, sy_fs = sy_fs s, sy_used = {}, sy_history = []\<rparr>"
  have c: "commit_prepared db (demo_batch demo_operation) 1 2 (sy_fs s) =
       (Inl (Db_DuplicateTransaction (replicate 16 1)), db, sy_fs s)"
    using m by (simp add: commit_prepared_def demo_batch_facts(3) [OF demo_operation_ok])
  from failed_commit_keeps_state [OF c] c show ?thesis by (intro exI [of _ ?s]) auto
qed

end
