(* ===== verification/Ub_Reads.thy ===== *)
theory Ub_Reads
  imports Ub_Durability
begin

text \<open>
  What readers of the durable database see: lookups return what the last surviving
  operation on the key wrote, the record listing is complete and ordered, and the edge
  listing is complete as long as every live weight lies in the unit interval.
\<close>

subsection \<open>Reads\<close>

text \<open>
  What a reader expects of a sequence of operations: the last operation on a key decides.
\<close>

fun record_after :: "str \<Rightarrow> (u64 \<times> u64 \<times> bytes) option \<Rightarrow> operation \<Rightarrow> (u64 \<times> u64 \<times> bytes) option" where
  "record_after k v (PutRecordOp l rid node up) = (if rid = k then Some (l, node, up) else v)"
| "record_after k v (DeleteRecordOp l rid) = (if rid = k then None else v)"
| "record_after k v _ = v"

fun edge_after :: "edge_key \<Rightarrow> u64 option \<Rightarrow> operation \<Rightarrow> u64 option" where
  "edge_after k v (PutEdgeOp l s d t w) = (if EdgeKey s d t w = k then Some l else v)"
| "edge_after k v (DeleteEdgeOp l s d t w) = (if EdgeKey s d t w = k then None else v)"
| "edge_after k v _ = v"

definition last_record :: "operation list list \<Rightarrow> str \<Rightarrow> (u64 \<times> u64 \<times> bytes) option" where
  "last_record hist k = foldl (record_after k) None (concat hist)"

definition last_edge :: "operation list list \<Rightarrow> edge_key \<Rightarrow> u64 option" where
  "last_edge hist k = foldl (edge_after k) None (concat hist)"

definition record_value :: "str \<Rightarrow> u64 \<times> u64 \<times> bytes \<Rightarrow> database_record" where
  "record_value k v = (case v of (l, node, up) \<Rightarrow>
     \<lparr>dr_logical_id = l, dr_record_id = k, dr_node_id = node, dr_payload = up, dr_payload_sha256 = sha256 up\<rparr>)"

definition edge_value :: "edge_key \<Rightarrow> u64 \<Rightarrow> database_edge" where
  "edge_value k l = \<lparr>de_logical_id = l, de_src = ek_src k, de_dst = ek_dst k, de_edge_type = ek_edge_type k,
     de_weight = ek_weight_bits k, de_weight_million = weight_million (ek_weight_bits k)\<rparr>"

definition record_binding :: "str \<Rightarrow> u64 \<times> u64 \<times> bytes \<Rightarrow> segment_entry" where
  "record_binding k v = (case v of (l, node, up) \<Rightarrow> operation_entry (PutRecordOp l k node up))"

definition edge_binding :: "edge_key \<Rightarrow> u64 \<Rightarrow> segment_entry" where
  "edge_binding k l = operation_entry (PutEdgeOp l (ek_src k) (ek_dst k) (ek_edge_type k) (ek_weight_bits k))"

lemma binding_entries:
  "record_binding k (l, node, up) = operation_entry (PutRecordOp l k node up)"
  "edge_binding (EdgeKey s d t w) l = operation_entry (PutEdgeOp l s d t w)"
  by (simp_all add: record_binding_def edge_binding_def)

lemma history_concat: "history_state hist = operations_apply (concat hist) empty_state"
proof (induction hist rule: rev_induct)
  case (snoc ops hist)
  then show ?case by (simp add: history_snoc operations_apply_def)
qed (simp add: history_state_def)

lemma operations_records:
  "bt_get (rs_records st) k = map_option (record_binding k) v \<Longrightarrow>
   bt_get (rs_records (operations_apply ops st)) k = map_option (record_binding k) (foldl (record_after k) v ops)"
proof (induction ops arbitrary: st v)
  case (Cons x ops)
  have "bt_get (rs_records (operation_apply x st)) k = map_option (record_binding k) (record_after k v x)"
    using Cons.prems by (cases x) (auto simp: bt_get_insert bt_get_remove binding_entries)
  from Cons.IH [OF this] show ?case by simp
qed simp

lemma operations_edges:
  "bt_get (rs_edges st) k = map_option (edge_binding k) v \<Longrightarrow>
   bt_get (rs_edges (operations_apply ops st)) k = map_option (edge_binding k) (foldl (edge_after k) v ops)"
proof (induction ops arbitrary: st v)
  case (Cons x ops)
  have "bt_get (rs_edges (operation_apply x st)) k = map_option (edge_binding k) (edge_after k v x)"
    using Cons.prems by (cases x) (auto simp: bt_get_insert bt_get_remove binding_entries)
  from Cons.IH [OF this] show ?case by simp
qed simp

lemma history_maps:
  "bt_get (rs_records (history_state hist)) k = map_option (record_binding k) (last_record hist k)"
  "bt_get (rs_edges (history_state hist)) e = map_option (edge_binding e) (last_edge hist e)"
  unfolding history_concat last_record_def last_edge_def
  by (rule operations_records operations_edges, simp add: empty_state_def)+

lemma decode_record_ok:
  assumes "utf8_valid k" and "length k < 2 ^ 32" and "56 + length k + length up < usize_limit"
  shows "decode_database_record k (operation_entry (PutRecordOp l k node up)) = Inr (record_value k (l, node, up))"
proof -
  have "unat (of_nat (length k) :: u32) = length k" "unat (of_nat (length up) :: u64) = length up"
    using assms(2,3) by (simp_all add: unat_of_nat usize_limit_def)
  then show ?thesis
    using assms by (simp add: decode_database_record_def record_payload_def db_read_ok usize_limit_def Let_def
        checked_add_def slice_def record_value_def)
qed

lemma decode_edge_ok:
  assumes "f64_is_finite (ek_weight_bits k)"
  shows "decode_database_edge (edge_binding k l) =
    (if f64_in_unit (ek_weight_bits k) then Inr (edge_value k l)
     else Inl (Db_Invalid (lit ''edge weight must be finite and within [0,1]'')))"
  using assms by (simp add: decode_database_edge_def edge_binding_def edge_payload_def db_read_ok usize_limit_def
      Let_def validate_edge_weight_def edge_value_def)

lemma decode_record_binding:
  assumes "state_inv st" and "bt_get (rs_records st) k = Some (record_binding k v)"
  shows "decode_database_record k (record_binding k v) = Inr (record_value k v)"
proof -
  obtain l node up where v: "v = (l, node, up)" by (cases v)
  from bt_get_in_set [OF assms(2)] assms(1) have "record_binding_ok (k, record_binding k v)"
    by (auto simp: state_inv_def list_all_iff)
  then obtain l' node' up' where o: "operation_ok (PutRecordOp l' k node' up')"
    and e: "operation_entry (PutRecordOp l k node up) = operation_entry (PutRecordOp l' k node' up')"
    by (auto simp: record_binding_ok_def record_binding_def v simp del: operation_entry.simps operation_ok.simps)
  from e have "length (record_payload k node up) = length (record_payload k node' up')" by simp
  then have "length up = length up'" by (simp add: record_payload_def)
  with o show ?thesis by (simp add: record_binding_def v decode_record_ok del: operation_entry.simps)
qed


lemma reachable_state_inv:
  assumes "reachable db_initial db_step s"
  shows "state_inv (dd_state (sy_db s))" and "dd_state (sy_db s) = history_state (sy_history s)"
  using db_run.reachable_inv [OF assms] by (auto simp: db_system_inv_def db_inv_def)

text \<open>
  C11. Reads: in every reachable state, looking up a record returns what the last surviving
  operation on its id wrote, with the hash of its payload, and nothing after a deletion or
  for an id that was never written; looking up an edge by its full key, with a weight in the
  unit interval, likewise.
\<close>

theorem reads_return_last_write:
  assumes "reachable db_initial db_step s" and "f64_is_finite w" and "f64_in_unit w"
  shows "db_record (sy_db s) k = Inr (map_option (record_value k) (last_record (sy_history s) k)) \<and>
     db_edge (sy_db s) src dst t w =
       Inr (map_option (edge_value (EdgeKey src dst t w)) (last_edge (sy_history s) (EdgeKey src dst t w)))"
proof
  note st = reachable_state_inv [OF assms(1)]
  show "db_record (sy_db s) k = Inr (map_option (record_value k) (last_record (sy_history s) k))"
  proof (cases "last_record (sy_history s) k")
    case (Some v)
    have "bt_get (rs_records (dd_state (sy_db s))) k = Some (record_binding k v)"
      using st(2) by (simp add: history_maps Some)
    from this decode_record_binding [OF st(1) this] Some show ?thesis
      by (simp add: db_record_def transpose_option_def)
  qed (use st(2) in \<open>simp add: db_record_def transpose_option_def history_maps\<close>)
  show "db_edge (sy_db s) src dst t w =
       Inr (map_option (edge_value (EdgeKey src dst t w)) (last_edge (sy_history s) (EdgeKey src dst t w)))"
    using assms(2,3) st(2)
    by (cases "last_edge (sy_history s) (EdgeKey src dst t w)")
      (simp_all add: db_edge_def validate_edge_weight_def transpose_option_def history_maps decode_edge_ok)
qed

lemma demo_committed:
  assumes "demo_ok x"
  obtains s where "reachable db_initial db_step s" and "sy_history s = [[x]]"
proof -
  obtain s where r: "reachable db_initial db_step s" and h: "sy_history s = []"
    and g: "commit_guard s (demo_batch x) [x] 1 1"
    by (rule demo_run [OF assms])
  obtain receipt db' fs' where c: "commit_prepared (sy_db s) (demo_batch x) 1 1 (sy_fs s) = (Inr receipt, db', fs')"
    using guard_commits [OF db_run.reachable_inv [OF r] g] by blast
  from that [OF reach_step [OF r db_commit [OF g c]]] h show thesis by simp
qed

theorem reads_return_last_write_witness:
  "\<exists>s :: system. db_edge (sy_db s) 2 3 4 0 =
     Inr (Some \<lparr>de_logical_id = 1, de_src = 2, de_dst = 3, de_edge_type = 4, de_weight = 0, de_weight_million = 0\<rparr>)"
proof -
  obtain s where r: "reachable db_initial db_step s" and h: "sy_history s = [[demo_operation]]"
    by (rule demo_committed [OF demo_operation_ok])
  have "bit_length 0 = 0" by (subst bit_length.simps) simp
  then have "f64_is_finite 0" "f64_in_unit 0" "weight_million 0 = 0"
    by (simp_all add: f64_is_finite_def f64_in_unit_def f64_is_zero_def weight_million_def round_even_def)
  with reads_return_last_write [OF r, of 0 k 2 3 4 for k] show ?thesis
    by (intro exI [of _ s]) (simp add: h last_edge_def demo_operation_def edge_value_def)
qed

lemma collect_results_map:
  "(\<And>x. x \<in> set xs \<Longrightarrow> f x = Inr (g x)) \<Longrightarrow> collect_results (map f xs) = Inr (map g xs)"
  by (induction xs) auto

text \<open>
  C33. Listing the records of a reachable database succeeds and gives every live record
  exactly once, in strictly ascending order of the record ids.
\<close>

theorem records_listed_in_order:
  assumes "reachable db_initial db_step s"
  shows "\<exists>rs. db_records (sy_db s) = Inr rs \<and> sorted_wrt (<) (map dr_record_id rs) \<and>
     set rs = {record_value k v | k v. last_record (sy_history s) k = Some v}"
proof -
  let ?m = "rs_records (dd_state (sy_db s))" and ?h = "sy_history s"
  note st = reachable_state_inv [OF assms]
  have ok: "bt_ok ?m" using st(1) by (simp add: state_inv_def)
  let ?g = "\<lambda>(k, e). record_value k (the (last_record ?h k))"
  have bind: "\<exists>v. last_record ?h k = Some v \<and> e = record_binding k v" if "(k, e) \<in> set ?m" for k e
    using bt_in_set_get [OF ok that] st(2) by (auto simp: history_maps)
  have dec: "(\<lambda>(k, e). decode_database_record k e) x = Inr (?g x)" if "x \<in> set ?m" for x
  proof -
    obtain k e where x: "x = (k, e)" by (cases x)
    with bind that obtain v where v: "last_record ?h k = Some v" "e = record_binding k v" by blast
    have "bt_get ?m k = Some (record_binding k v)" using bt_in_set_get [OF ok] that x v by simp
    from decode_record_binding [OF st(1) this] v x show ?thesis by simp
  qed
  have "db_records (sy_db s) = Inr (map ?g ?m)"
    unfolding db_records_def using dec by (rule collect_results_map)
  moreover have "map dr_record_id (map ?g ?m) = map fst ?m"
    by (auto simp: record_value_def split: prod.splits)
  then have "sorted_wrt (<) (map dr_record_id (map ?g ?m))"
    using ok by (simp only: bt_ok_def)
  moreover have "set (map ?g ?m) = {record_value k v | k v. last_record ?h k = Some v}"
  proof (intro equalityI subsetI)
    fix r assume "r \<in> set (map ?g ?m)"
    then obtain k e where "(k, e) \<in> set ?m" and "r = record_value k (the (last_record ?h k))" by auto
    with bind show "r \<in> {record_value k v | k v. last_record ?h k = Some v}" by fastforce
  next
    fix r assume "r \<in> {record_value k v | k v. last_record ?h k = Some v}"
    then obtain k v where r: "r = record_value k v" "last_record ?h k = Some v" by blast
    then have "(k, record_binding k v) \<in> set ?m"
      using st(2) by (intro bt_get_in_set) (simp add: history_maps)
    from imageI [OF this, of ?g] r show "r \<in> set (map ?g ?m)" by simp
  qed
  ultimately show ?thesis by blast
qed

text \<open>Two records, put in descending order of their ids by one transaction.\<close>

definition records_operations :: "operation list" where
  "records_operations = [PutRecordOp 1 (lit ''b'') 7 [], PutRecordOp 2 (lit ''a'') 8 [5]]"

definition records_batch :: prepared_batch where
  "records_batch = (let es = map operation_entry records_operations in
     \<lparr>pb_transaction_id = replicate 16 1, pb_entries = es,
      pb_batch_digest = batch_digest (replicate 16 1) es (payload_sum es), pb_total_payload_bytes = payload_sum es\<rparr>)"

lemma records_batch_facts:
  "prepared_rep records_batch records_operations" "entries_valid (pb_entries records_batch)"
  "pb_transaction_id records_batch = replicate 16 1"
proof -
  have ok: "operation_ok (PutRecordOp 1 (lit ''b'') 7 [])" "operation_ok (PutRecordOp 2 (lit ''a'') 8 [5])"
    by (simp_all add: lit_def usize_limit_def)
  then show "prepared_rep records_batch records_operations"
    by (simp add: prepared_rep_def records_batch_def records_operations_def payload_sum_def Let_def usize_limit_def)
  show "entries_valid (pb_entries records_batch)"
    using operation_entry_valid [OF ok(1)] operation_entry_valid [OF ok(2)]
    by (simp add: entries_valid_def records_batch_def records_operations_def length_entry_bytes padding_len_def usize_limit_def Let_def)
  show "pb_transaction_id records_batch = replicate 16 1" by (simp add: records_batch_def Let_def)
qed

lemma records_run:
  obtains s where "reachable db_initial db_step s" and "sy_history s = [records_operations]"
proof -
  obtain s where r: "reachable db_initial db_step s" and h: "sy_history s = []" "sy_used s = {}"
    and at: "wal_at (dd_wal (sy_db s)) [] (sy_fs s)" "ww_next_lsn (dd_wal (sy_db s)) = 1"
    and seg: "\<forall>g n. fget (sy_fs s) (segment_path (dd_store (sy_db s)) g n) = None"
    by (rule demo_run [OF demo_operation_ok])
  have "transaction_room (dd_wal (sy_db s)) [] records_batch records_operations"
    by (simp add: transaction_room_def frame_room_def at(2) records_batch_def records_operations_def
      MAX_WAL_PAYLOAD_BYTES_def transaction_frames_def begin_frame_def commit_frame_def operation_frame_def
      frame_bytes_def frame_header_def encode_begin_payload_def encode_operation_payload_def
      encode_commit_payload_def usize_limit_def Let_def record_payload_def lit_def)
  moreover have "pb_transaction_id records_batch \<noteq> zero_tx"
    by (simp add: records_batch_facts(3) zero_tx_def replicate_eq_replicate)
  ultimately have g: "commit_guard s records_batch records_operations 1 1"
    using records_batch_facts at h seg by (auto simp: commit_guard_def)
  obtain receipt db' fs' where c: "commit_prepared (sy_db s) records_batch 1 1 (sy_fs s) = (Inr receipt, db', fs')"
    using guard_commits [OF db_run.reachable_inv [OF r] g] by blast
  from that [OF reach_step [OF r db_commit [OF g c]]] h show thesis by simp
qed

lemma two_in_order:
  assumes "sorted_wrt (<) (map f xs)" and "set xs = {a, b}" and "(f a :: 'a :: linorder) < f b"
  shows "xs = [a, b]"
proof (rule map_sorted_distinct_set_unique)
  show "sorted (map f xs)" "distinct (map f xs)" using assms(1) by (simp_all add: strict_sorted_iff)
  show "inj_on f (set xs \<union> set [a, b])" using assms(2,3) by (auto simp: inj_on_def)
qed (use assms(2,3) in auto)

theorem records_listed_in_order_witness:
  "\<exists>s. reachable db_initial db_step s \<and> sy_history s = [records_operations] \<and>
     db_records (sy_db s) = Inr [record_value (lit ''a'') (2, 8, [5]), record_value (lit ''b'') (1, 7, [])]"
proof -
  obtain s where r: "reachable db_initial db_step s" and h: "sy_history s = [records_operations]" by (rule records_run)
  obtain rs where rs: "db_records (sy_db s) = Inr rs" "sorted_wrt (<) (map dr_record_id rs)"
    "set rs = {record_value k v | k v. last_record (sy_history s) k = Some v}"
    using records_listed_in_order [OF r] by blast
  have "last_record (sy_history s) k = Some v \<longleftrightarrow>
      k = lit ''a'' \<and> v = (2, 8, [5]) \<or> k = lit ''b'' \<and> v = (1, 7, [])" for k v
    by (auto simp: h last_record_def records_operations_def lit_def)
  then have "set rs = {record_value (lit ''a'') (2, 8, [5]), record_value (lit ''b'') (1, 7, [])}" using rs(3) by auto
  moreover have "dr_record_id (record_value (lit ''a'') (2, 8, [5])) < dr_record_id (record_value (lit ''b'') (1, 7, []))"
    by (simp add: record_value_def lit_def)
  ultimately have "rs = [record_value (lit ''a'') (2, 8, [5]), record_value (lit ''b'') (1, 7, [])]"
    by (rule two_in_order [OF rs(2)])
  with r h rs(1) show ?thesis by blast
qed

lemma edge_binding_finite:
  assumes "state_inv st" and "bt_get (rs_edges st) k = Some (edge_binding k l)"
  shows "f64_is_finite (ek_weight_bits k)"
proof -
  from bt_get_in_set [OF assms(2)] assms(1) have "edge_binding_ok (k, edge_binding k l)"
    by (auto simp: state_inv_def list_all_iff)
  then show ?thesis by (cases k) (auto simp: edge_binding_ok_def)
qed

lemma collect_results_same_error:
  assumes "\<And>x. x \<in> set xs \<Longrightarrow> f x = Inl e \<or> (\<exists>y. f x = Inr y)" and "\<exists>x \<in> set xs. f x = Inl e"
  shows "collect_results (map f xs) = Inl e"
  using assms
proof (induction xs)
  case (Cons x xs)
  then consider "f x = Inl e" | y where "f x = Inr y" "\<exists>x \<in> set xs. f x = Inl e" by fastforce
  then show ?case using Cons by cases auto
qed simp

text \<open>
  C34. Listing the edges of a reachable database gives every live edge exactly when the
  weight of every live edge lies in the unit interval; a single live edge outside of it,
  which the batch and the commit accept, makes the listing fail.
\<close>

theorem edges_listed_iff_unit_weights:
  assumes "reachable db_initial db_step s"
  shows "if \<forall>k l. last_edge (sy_history s) k = Some l \<longrightarrow> f64_in_unit (ek_weight_bits k)
     then \<exists>es. db_edges (sy_db s) = Inr es \<and> distinct es \<and>
        set es = {edge_value k l | k l. last_edge (sy_history s) k = Some l}
     else db_edges (sy_db s) = Inl (Db_Invalid (lit ''edge weight must be finite and within [0,1]''))"
proof -
  let ?m = "rs_edges (dd_state (sy_db s))" and ?h = "sy_history s"
  let ?e = "Db_Invalid (lit ''edge weight must be finite and within [0,1]'')"
  note st = reachable_state_inv [OF assms]
  have ok: "bt_ok ?m" using st(1) by (simp add: state_inv_def)
  let ?g = "\<lambda>(k, e). edge_value k (the (last_edge ?h k))"
  have bind: "\<exists>l. last_edge ?h k = Some l \<and> e = edge_binding k l" if "(k, e) \<in> set ?m" for k e
    using bt_in_set_get [OF ok that] st(2) by (auto simp: history_maps)
  have live: "(k, edge_binding k l) \<in> set ?m" if "last_edge ?h k = Some l" for k l
    using st(2) that by (intro bt_get_in_set) (simp add: history_maps)
  have dec: "(decode_database_edge \<circ> snd) x =
      (if f64_in_unit (ek_weight_bits (fst x)) then Inr (?g x) else Inl ?e)" if "x \<in> set ?m" for x
  proof -
    obtain k e where x: "x = (k, e)" by (cases x)
    with bind that obtain l where l: "last_edge ?h k = Some l" "e = edge_binding k l" by blast
    have "bt_get ?m k = Some (edge_binding k l)" using bt_in_set_get [OF ok] that x l by simp
    from edge_binding_finite [OF st(1) this] l x show ?thesis by (simp add: decode_edge_ok)
  qed
  have edges: "db_edges (sy_db s) = collect_results (map (decode_database_edge \<circ> snd) ?m)"
    by (simp add: db_edges_def bt_values_def)
  show ?thesis
  proof (cases "\<forall>k l. last_edge ?h k = Some l \<longrightarrow> f64_in_unit (ek_weight_bits k)")
    case True
    have "f64_in_unit (ek_weight_bits (fst x))" if "x \<in> set ?m" for x
      using bind [of "fst x" "snd x"] that True by auto
    then have "db_edges (sy_db s) = Inr (map ?g ?m)"
      unfolding edges using dec by (intro collect_results_map) simp
    moreover have "set (map ?g ?m) = {edge_value k l | k l. last_edge ?h k = Some l}"
    proof (intro equalityI subsetI)
      fix r assume "r \<in> set (map ?g ?m)"
      then obtain k e where "(k, e) \<in> set ?m" and "r = edge_value k (the (last_edge ?h k))" by auto
      with bind show "r \<in> {edge_value k l | k l. last_edge ?h k = Some l}" by fastforce
    next
      fix r assume "r \<in> {edge_value k l | k l. last_edge ?h k = Some l}"
      then obtain k l where r: "r = edge_value k l" "last_edge ?h k = Some l" by blast
      from imageI [OF live [OF r(2)], of ?g] r show "r \<in> set (map ?g ?m)" by simp
    qed
    moreover have "inj_on ?g (set ?m)"
    proof (rule inj_onI)
      fix x y assume "x \<in> set ?m" "y \<in> set ?m" "?g x = ?g y"
      moreover obtain k e k' e' where "x = (k, e)" "y = (k', e')" by (cases x, cases y)
      ultimately show "x = y" using bt_in_set_get [OF ok]
        by (cases k; cases k') (fastforce simp: edge_value_def)
    qed
    then have "distinct (map ?g ?m)"
      using ok by (auto simp: distinct_map bt_ok_def strict_sorted_iff)
    ultimately show ?thesis using True by auto
  next
    case False
    then obtain k l where "last_edge ?h k = Some l" "\<not> f64_in_unit (ek_weight_bits k)" by blast
    then have "\<exists>x \<in> set ?m. (decode_database_edge \<circ> snd) x = Inl ?e"
      using dec [OF live] by (intro bexI [OF _ live]) auto
    moreover have "(decode_database_edge \<circ> snd) x = Inl ?e \<or> (\<exists>y. (decode_database_edge \<circ> snd) x = Inr y)"
      if "x \<in> set ?m" for x using dec [OF that] by simp
    ultimately show ?thesis unfolding edges if_not_P [OF False] by (intro collect_results_same_error)
  qed
qed

definition heavy_edge :: operation where
  "heavy_edge = PutEdgeOp 1 2 3 4 0x4000000000000000"

theorem edges_listed_iff_unit_weights_witness:
  "\<exists>s :: system. sy_history s = [[heavy_edge]] \<and>
     db_edges (sy_db s) = Inl (Db_Invalid (lit ''edge weight must be finite and within [0,1]''))"
proof -
  have "demo_ok heavy_edge"
    by (simp add: demo_ok_def heavy_edge_def f64_is_finite_def f64_canonical_def f64_is_zero_def drop_bit_eq_div)
  then obtain s where r: "reachable db_initial db_step s" and h: "sy_history s = [[heavy_edge]]"
    by (rule demo_committed)
  have "last_edge [[heavy_edge]] (EdgeKey 2 3 4 0x4000000000000000) = Some 1"
    by (simp add: last_edge_def heavy_edge_def)
  moreover have "\<not> f64_in_unit 0x4000000000000000" by (simp add: f64_in_unit_def f64_is_zero_def)
  ultimately have "\<not> (\<forall>k l. last_edge [[heavy_edge]] k = Some l \<longrightarrow> f64_in_unit (ek_weight_bits k))"
    by (metis edge_key.sel(4))
  with edges_listed_iff_unit_weights [OF r] h show ?thesis by (intro exI [of _ s]) auto
qed

end
