(* ===== verification/Ub_Limits.thy ===== *)
theory Ub_Limits
  imports Ub_Durability
begin

text \<open>
  Commits the database acknowledges although it cannot open the files they leave: the zero transaction id, and
  an id that is used again after a crash left its \<open>BEGIN\<close> frame in the log.
\<close>

subsection \<open>Commits that cannot be reopened\<close>

lemma commit_then_refused:
  assumes inv: "db_inv db fs frames pend" and rep: "prepared_rep p ops"
    and nc: "pb_transaction_id p \<notin> set (dd_committed db)"
    and seg: "fget fs (segment_path (dd_store db) g n) = None" and va: "entries_valid (pb_entries p)"
    and room: "transaction_room (dd_wal db) frames p ops"
    and refused: "\<And>r lsn. rp_pending r = pend \<Longrightarrow> replay_frame r (begin_frame lsn p) = Inl e"
  shows "\<exists>receipt db' fs'. commit_prepared db p g n fs = (Inr receipt, db', fs') \<and>
     db_open (ps_root (dd_store db)) repair fs' = (Inl e, fs')"
proof -
  let ?new = "transaction_frames (ww_next_lsn (dd_wal db)) p ops (state_hash (operations_apply ops (dd_state db)))"
  let ?w = "default_wal_path (ps_root (dd_store db))"
  obtain receipt db' fs' where c: "commit_prepared db p g n fs = (Inr receipt, db', fs')"
    and at: "wal_at (dd_wal db') (frames @ ?new) fs'" "ww_path (dd_wal db') = dd_wal_path db"
    and ready: "store_ready fs' (dd_store db)"
    and lc: "load_checkpoint (dd_store db) fs' = load_checkpoint (dd_store db) fs"
    using commit_prepared_writes [OF inv rep nc seg va room] by blast
  have lw: "log_wf (frames @ ?new)" and fl: "fget fs' ?w = Some (log_bytes (frames @ ?new))"
    using at inv by (auto simp: wal_at_def db_inv_def)
  obtain st0 cs0 gen l k where l: "load_checkpoint (dd_store db) fs = Inr (st0, cs0, gen, l)" "l \<le> final_lsn 0 frames"
    and r: "replay_frames \<lparr>rp_state = st0, rp_committed = cs0, rp_pending = [], rp_replayed = 0\<rparr>
          (filter (\<lambda>f. l < wf_lsn f) frames) =
        Inr \<lparr>rp_state = dd_state db, rp_committed = dd_committed db, rp_pending = pend, rp_replayed = k\<rparr>"
    using inv by (auto simp: db_inv_def recovers_def)
  have bad: "replay_frames \<lparr>rp_state = st0, rp_committed = cs0, rp_pending = [], rp_replayed = 0\<rparr>
          (filter (\<lambda>f. l < wf_lsn f) (frames @ ?new)) = Inl e"
    unfolding filter_new_frames [OF lw l(2)] replay_frames_append r
    by (simp add: transaction_frames_def refused)
  have s: "scan_wal ?w repair fs' = (Inr (log_scan (frames @ ?new) 0), fs')"
    using scan_log_complete [OF lw, of repair] by (simp add: scan_wal_file [OF fl] log_scan_def)
  have "db_open (ps_root (dd_store db)) repair fs' = (Inl e, fs')"
    using s bad
    by (simp add: db_open_def io_query_def page_store_open_ready [OF ready] lc l(1) io_map_err_def io_pure_def
        replay_after_checkpoint_def log_scan_def Let_def io_bind_def del: filter_append)
  with c show ?thesis by blast
qed

text \<open>
  C40. The database accepts a transaction whose id is sixteen zero bytes and reports it as
  durably committed, when the batch is well formed, its segment name is free, the log has room
  and the zero id is not yet committed; but opening the store on the files as this commit left
  them fails, with or without repair, since replay refuses its \<open>BEGIN\<close> frame. So a crash, or
  closing the database, right after the commit loses access to the store. (A checkpoint through
  the handle that is still open moves the start of replay past the frames; that is not claimed
  to fail.)
\<close>

theorem zero_id_commit_unopenable:
  assumes "reachable db_initial db_step s" and "prepared_rep p ops" and "pb_transaction_id p = zero_tx"
    and "zero_tx \<notin> set (dd_committed (sy_db s))"
    and "fget (sy_fs s) (segment_path (dd_store (sy_db s)) g n) = None" and "entries_valid (pb_entries p)"
    and "wal_at (dd_wal (sy_db s)) frames (sy_fs s)" and "transaction_room (dd_wal (sy_db s)) frames p ops"
  shows "\<exists>receipt db' fs'. commit_prepared (sy_db s) p g n (sy_fs s) = (Inr receipt, db', fs') \<and>
     cr_durable_commit receipt \<and>
     db_open (ps_root (dd_store (sy_db s))) repair fs' =
       (Inl (Db_Invalid (lit ''BEGIN transaction ID cannot be zero'')), fs')"
proof -
  obtain frames' pend where i: "db_inv (sy_db s) (sy_fs s) frames' pend" by (rule reachable_db_inv [OF assms(1)])
  then have f: "frames' = frames" using assms(7) wal_at_unique by (auto simp: db_inv_def)
  have "replay_frame r (begin_frame lsn p) = Inl (Db_Invalid (lit ''BEGIN transaction ID cannot be zero''))" for r lsn
    using assms(3) by (simp add: replay_frame_def begin_frame_def replay_begin_def)
  from commit_then_refused [OF i assms(2) _ assms(5,6) _ this, of repair] assms(3,4,8) f
  obtain receipt db' fs' where c: "commit_prepared (sy_db s) p g n (sy_fs s) = (Inr receipt, db', fs')"
    "db_open (ps_root (dd_store (sy_db s))) repair fs' =
       (Inl (Db_Invalid (lit ''BEGIN transaction ID cannot be zero'')), fs')" by auto
  then show ?thesis
    by (auto simp: commit_prepared_def Let_def split: if_splits sum.splits prod.splits)
qed


definition zero_prepared :: prepared_batch where
  "zero_prepared = \<lparr>pb_transaction_id = zero_tx, pb_entries = [operation_entry demo_operation],
     pb_batch_digest = batch_digest zero_tx [operation_entry demo_operation] 32,
     pb_total_payload_bytes = 32\<rparr>"

lemma zero_prepared_facts:
  "prepared_rep zero_prepared [demo_operation]" "entries_valid (pb_entries zero_prepared)"
  "ww_next_lsn w = 1 \<Longrightarrow> transaction_room w [] zero_prepared [demo_operation]"
proof -
  show "prepared_rep zero_prepared [demo_operation]"
    using demo_edge_ok by (simp add: prepared_rep_def zero_prepared_def demo_operation_def payload_sum_def zero_tx_def)
  show "entries_valid (pb_entries zero_prepared)"
    using demo_batch_facts(2) [OF demo_operation_ok] by (simp add: zero_prepared_def demo_batch_def Let_def)
  show "ww_next_lsn w = 1 \<Longrightarrow> transaction_room w [] zero_prepared [demo_operation]"
    by (simp add: transaction_room_def frame_room_def demo_operation_def zero_prepared_def
      MAX_WAL_PAYLOAD_BYTES_def transaction_frames_def begin_frame_def commit_frame_def operation_frame_def
      frame_bytes_def frame_header_def encode_begin_payload_def encode_operation_payload_def
      encode_commit_payload_def usize_limit_def zero_tx_def)
qed

theorem zero_id_commit_unopenable_witness:
  "\<exists>db receipt db' fs fs'. commit_prepared db zero_prepared 1 1 fs = (Inr receipt, db', fs') \<and>
     db_open (ps_root (dd_store db)) True fs' =
       (Inl (Db_Invalid (lit ''BEGIN transaction ID cannot be zero'')), fs')"
proof -
  obtain db fs where c: "db_create [lit ''db''] blank_fs = (Inr db, fs)" and n: "ww_next_lsn (dd_wal db) = 1"
    and i: "db_inv db fs [] []" and files: "fget fs = (fget blank_fs)(default_wal_path [lit ''db''] \<mapsto> [])"
    and cm: "dd_committed db = []"
    using db_create_ok [OF blank_fresh] by blast
  let ?s = "\<lparr>sy_db = db, sy_fs = fs, sy_used = {}, sy_history = []\<rparr>"
  have "db_initial ?s" using c blank_fresh by (auto simp: db_initial_def)
  then have r: "reachable db_initial db_step ?s" by (rule reach_init)
  have "fget fs (segment_path (dd_store db) 1 1) = None"
    by (auto simp: files segment_path_def default_wal_path_def lit_def)
  with zero_id_commit_unopenable [OF r zero_prepared_facts(1), of 1 1 "[]" True] zero_prepared_facts(2,3) n i cm
  have "\<exists>receipt db' fs'. commit_prepared db zero_prepared 1 1 fs = (Inr receipt, db', fs') \<and>
     db_open (ps_root (dd_store db)) True fs' =
       (Inl (Db_Invalid (lit ''BEGIN transaction ID cannot be zero'')), fs')"
    by (auto simp: zero_prepared_def db_inv_def)
  then show ?thesis by blast
qed

text \<open>
  C39. A transaction that was interrupted after its \<open>BEGIN\<close> frame was written is dropped by
  recovery, as it should be. But its id stays in the log. If the client commits the batch again
  after the recovery, under a segment name that is free and with room in the log, the commit is
  acknowledged and its operations are in memory, since the id is not committed; but opening the
  store on the files as this second commit left them fails, with or without repair, with
  \<open>duplicate BEGIN\<close>. (As for the zero id, a checkpoint through the handle that is still open
  moves the start of replay past the frames; later opens are then not claimed to fail.)
\<close>

theorem retried_transaction_unopenable:
  assumes r: "reachable db_initial db_step s" and g: "commit_guard s p ops g n"
    and c: "commit_prepared (sy_db s) p g n (sy_fs s) = (Inr receipt, db', fs')"
    and old: "fget (sy_fs s) (dd_wal_path (sy_db s)) = Some old"
    and new: "fget fs' (dd_wal_path (sy_db s)) = Some new"
    and m: "length old + 144 \<le> m" "m < length new"
    and o: "db_open (ps_root (dd_store (sy_db s))) True
       (fput (dd_wal_path (sy_db s)) (take m new) fs') = (Inr db1, fs1)"
    and seg: "fget fs1 (segment_path (dd_store (sy_db s)) g1 n1) = None"
    and room: "wal_at (dd_wal db1) frames fs1" "transaction_room (dd_wal db1) frames p ops"
  shows "\<exists>receipt1 db2 fs2. commit_prepared db1 p g1 n1 fs1 = (Inr receipt1, db2, fs2) \<and>
     dd_state db2 = operations_apply ops (dd_state (sy_db s)) \<and>
     db_open (ps_root (dd_store (sy_db s))) repair fs2 = (Inl (Db_Invalid (lit ''duplicate BEGIN'')), fs2)"
proof -
  have "length old \<le> m" using m by simp
  from db_step_crash [OF g db_run.reachable_inv [OF r] c old new this m(2)] o m(1)
  obtain frames' pend where d: "dd_store db1 = dd_store (sy_db s)" "dd_state db1 = dd_state (sy_db s)"
      "dd_committed db1 = dd_committed (sy_db s)"
    and i: "db_inv db1 fs1 frames' pend" and pd: "bt_get pend (pb_transaction_id p) \<noteq> None" by auto
  have f: "frames' = frames" using i room(1) wal_at_unique by (auto simp: db_inv_def)
  have gd: "prepared_rep p ops" "pb_transaction_id p \<noteq> zero_tx" "entries_valid (pb_entries p)"
    "pb_transaction_id p \<notin> set (dd_committed db1)"
    using g db_run.reachable_inv [OF r] d(3) by (auto simp: commit_guard_def db_system_inv_def)
  have "replay_frame r (begin_frame lsn p) = Inl (Db_Invalid (lit ''duplicate BEGIN''))"
    if "rp_pending r = pend" for r lsn
    using gd(2) pd that by (simp add: replay_frame_def begin_frame_def replay_begin_def)
  from commit_then_refused [OF i gd(1,4) _ gd(3) _ this, of g1 n1 repair] seg room(2) f d(1)
  obtain receipt1 db2 fs2 where x: "commit_prepared db1 p g1 n1 fs1 = (Inr receipt1, db2, fs2)"
    "db_open (ps_root (dd_store (sy_db s))) repair fs2 = (Inl (Db_Invalid (lit ''duplicate BEGIN'')), fs2)"
    by auto
  have "dd_state db2 = operations_apply ops (dd_state db1)"
    using commit_prepared_writes [OF i gd(1,4) _ gd(3), of g1 n1] x(1) seg room(2) f d(1) by auto
  with x d(2) show ?thesis by auto
qed


theorem retried_transaction_unopenable_witness:
  "\<exists>db receipt db' fs fs'. commit_prepared db (demo_batch demo_operation) 1 2 fs = (Inr receipt, db', fs') \<and>
     db_open (ps_root (dd_store db)) True fs' = (Inl (Db_Invalid (lit ''duplicate BEGIN'')), fs')"
proof -
  obtain s where r: "reachable db_initial db_step s" and g: "commit_guard s (demo_batch demo_operation) [demo_operation] 1 1"
    and at: "wal_at (dd_wal (sy_db s)) [] (sy_fs s)" and l: "ww_next_lsn (dd_wal (sy_db s)) = 1"
    and seg: "\<forall>g n. fget (sy_fs s) (segment_path (dd_store (sy_db s)) g n) = None"
    and w: "fget (sy_fs s) (dd_wal_path (sy_db s)) = Some []"
    by (rule demo_run [OF demo_operation_ok])
  obtain receipt db' fs' where c: "commit_prepared (sy_db s) (demo_batch demo_operation) 1 1 (sy_fs s) = (Inr receipt, db', fs')"
    and n: "fget fs' (dd_wal_path (sy_db s)) =
      Some (log_bytes (transaction_frames 1 (demo_batch demo_operation) [demo_operation] (state_hash (dd_state db'))))"
    and q: "\<forall>q. q \<noteq> segment_path (dd_store (sy_db s)) 1 1 \<longrightarrow> q \<noteq> dd_wal_path (sy_db s) \<longrightarrow>
        fget fs' q = fget (sy_fs s) q"
    using guard_commits [OF db_run.reachable_inv [OF r] g] w l by auto
  let ?new = "log_bytes (transaction_frames 1 (demo_batch demo_operation) [demo_operation] (state_hash (dd_state db')))"
  have len: "length ?new = 488" using demo_frames_length(1) by (simp add: demo_operation_def)
  obtain db1 fs1 frames where o: "db_open (ps_root (dd_store (sy_db s))) True
       (fput (dd_wal_path (sy_db s)) (take 144 ?new) fs') = (Inr db1, fs1)"
    and d: "dd_store db1 = dd_store (sy_db s)"
    and re: "reopened db1 frames (fput (dd_wal_path (sy_db s)) (take 144 ?new) fs') fs1"
    and fr: "frames = complete_frames 144 (transaction_frames 1 (demo_batch demo_operation) [demo_operation] (state_hash (dd_state db')))"
    and i: "wal_at (dd_wal db1) frames fs1"
    using db_step_crash [OF g db_run.reachable_inv [OF r] c w n, of 144] len at l by (auto simp: db_inv_def)
  have fr': "frames = [begin_frame 1 (demo_batch demo_operation)]"
    using demo_frames_length(2,3) by (simp add: fr transaction_frames_def demo_batch_facts(3) [OF demo_operation_ok])
  have "ww_next_lsn (dd_wal db1) = 2" using re by (simp add: reopened_def fr' next_lsn_after_def begin_frame_def final_lsn_def)
  then have room: "transaction_room (dd_wal db1) frames (demo_batch demo_operation) [demo_operation]"
    using demo_frames_length(2) by (intro demo_room demo_operation_ok) (simp_all add: fr')
  have "fget fs1 (segment_path (dd_store (sy_db s)) 1 2) = None"
  proof -
    let ?q = "segment_path (dd_store (sy_db s)) 1 2"
    have "?q \<noteq> segment_path (dd_store (sy_db s)) 1 1"
      by (simp add: segment_path_def pad020_def dec_bytes.simps [of "Suc 0"] dec_bytes.simps [of 2] digit_char_def)
    moreover have "?q \<noteq> default_wal_path (ps_root (dd_store (sy_db s)))"
      by (auto simp: segment_path_def default_wal_path_def lit_def)
    moreover have "dd_wal_path (sy_db s) = default_wal_path (ps_root (dd_store (sy_db s)))"
      using reachable_db_inv [OF r] by (metis db_inv_def)
    ultimately show ?thesis using re q seg d by (simp add: reopened_def fs_installs_def)
  qed
  from retried_transaction_unopenable [OF r g c w n _ _ o this i room, of True] len d
  have "\<exists>receipt db' fs'. commit_prepared db1 (demo_batch demo_operation) 1 2 fs1 = (Inr receipt, db', fs') \<and>
     db_open (ps_root (dd_store db1)) True fs' = (Inl (Db_Invalid (lit ''duplicate BEGIN'')), fs')" by auto
  then show ?thesis by blast
qed

end
