(* ===== verification/Ub_Trust.thy ===== *)
theory Ub_Trust
  imports Ub_Fs Ub_Sha256
begin

text \<open>
  The trust ledger (\<open>ultraballoondb-trust/src/lib.rs\<close>): an append-only file of trust
  transitions. Every frame carries its sequence number, a strictly increasing timestamp,
  the digest of the frame before it and a digest of its own; its payload states which
  authority moved which record from which trust state to which, on what evidence.
  \<open>apply\<close> decides whether a requested transition is admissible and appends it;
  \<open>open_strict\<close> replays the file and repeats every check.
\<close>

subsection \<open>Trust states\<close>

datatype trust_error =
    Trust_Io io_error
  | Trust_Invalid str
  | Trust_Integrity str bytes bytes
  | Trust_TruncatedTail nat nat

datatype maturity_state = Raw | Hypothesis | Candidate | Verified

fun maturity_code :: "maturity_state \<Rightarrow> u8" where
  "maturity_code Raw = 1"
| "maturity_code Hypothesis = 2"
| "maturity_code Candidate = 3"
| "maturity_code Verified = 4"

definition maturity_from_code :: "u8 \<Rightarrow> trust_error + maturity_state" where
  "maturity_from_code v =
     (if v = 1 then Inr Raw else if v = 2 then Inr Hypothesis
      else if v = 3 then Inr Candidate else if v = 4 then Inr Verified
      else Inl (Trust_Invalid (lit ''unknown maturity code '' @ dec_bytes (unat v))))"

fun maturity_next :: "maturity_state \<Rightarrow> maturity_state option" where
  "maturity_next Raw = Some Hypothesis"
| "maturity_next Hypothesis = Some Candidate"
| "maturity_next Candidate = Some Verified"
| "maturity_next Verified = None"

datatype validity_state = Valid_Active | Disputed | Expired | Revoked | Superseded

fun validity_code :: "validity_state \<Rightarrow> u8" where
  "validity_code Valid_Active = 1"
| "validity_code Disputed = 2"
| "validity_code Expired = 3"
| "validity_code Revoked = 4"
| "validity_code Superseded = 5"

definition validity_from_code :: "u8 \<Rightarrow> trust_error + validity_state" where
  "validity_from_code v =
     (if v = 1 then Inr Valid_Active else if v = 2 then Inr Disputed
      else if v = 3 then Inr Expired else if v = 4 then Inr Revoked
      else if v = 5 then Inr Superseded
      else Inl (Trust_Invalid (lit ''unknown validity code '' @ dec_bytes (unat v))))"

record trust_state =
  ts_maturity :: maturity_state
  ts_validity :: validity_state

definition raw_active :: trust_state where
  "raw_active = \<lparr>ts_maturity = Raw, ts_validity = Valid_Active\<rparr>"

datatype trust_operation = Propose | Promote | Dispute | Revoke | Expire | Supersede

fun trust_operation_code :: "trust_operation \<Rightarrow> u8" where
  "trust_operation_code Propose = 1"
| "trust_operation_code Promote = 2"
| "trust_operation_code Dispute = 3"
| "trust_operation_code Revoke = 4"
| "trust_operation_code Expire = 5"
| "trust_operation_code Supersede = 6"

definition trust_operation_from_code :: "u8 \<Rightarrow> trust_error + trust_operation" where
  "trust_operation_from_code v =
     (if v = 1 then Inr Propose else if v = 2 then Inr Promote
      else if v = 3 then Inr Dispute else if v = 4 then Inr Revoke
      else if v = 5 then Inr Expire else if v = 6 then Inr Supersede
      else Inl (Trust_Invalid (lit ''unknown trust operation code '' @ dec_bytes (unat v))))"

fun trust_operation_str :: "trust_operation \<Rightarrow> str" where
  "trust_operation_str Propose = lit ''PROPOSE''"
| "trust_operation_str Promote = lit ''PROMOTE''"
| "trust_operation_str Dispute = lit ''DISPUTE''"
| "trust_operation_str Revoke = lit ''REVOKE''"
| "trust_operation_str Expire = lit ''EXPIRE''"
| "trust_operation_str Supersede = lit ''SUPERSEDE''"

datatype transition_authority =
  EvidencePolicy | Import | Ranker | Wave | Similarity | Frequency | Llm | RigorMultiplier

fun authority_code :: "transition_authority \<Rightarrow> u8" where
  "authority_code EvidencePolicy = 1"
| "authority_code Import = 2"
| "authority_code Ranker = 3"
| "authority_code Wave = 4"
| "authority_code Similarity = 5"
| "authority_code Frequency = 6"
| "authority_code Llm = 7"
| "authority_code RigorMultiplier = 8"

definition authority_from_code :: "u8 \<Rightarrow> trust_error + transition_authority" where
  "authority_from_code v =
     (if v = 1 then Inr EvidencePolicy else if v = 2 then Inr Import
      else if v = 3 then Inr Ranker else if v = 4 then Inr Wave
      else if v = 5 then Inr Similarity else if v = 6 then Inr Frequency
      else if v = 7 then Inr Llm else if v = 8 then Inr RigorMultiplier
      else Inl (Trust_Invalid (lit ''unknown transition authority code '' @ dec_bytes (unat v))))"

fun authority_str :: "transition_authority \<Rightarrow> str" where
  "authority_str EvidencePolicy = lit ''EVIDENCE_POLICY''"
| "authority_str Import = lit ''IMPORT''"
| "authority_str Ranker = lit ''RANKER''"
| "authority_str Wave = lit ''WAVE''"
| "authority_str Similarity = lit ''SIMILARITY''"
| "authority_str Frequency = lit ''FREQUENCY''"
| "authority_str Llm = lit ''LLM''"
| "authority_str RigorMultiplier = lit ''RIGOR_MULTIPLIER''"

subsection \<open>Transitions and the ledger\<close>

record evidence_ref =
  er_evidence_id :: str
  er_provenance_id :: str
  er_evidence_digest :: bytes

record transition_intent =
  ti_record_id :: str
  ti_operation :: trust_operation
  ti_authority :: transition_authority
  ti_evidence_refs :: "evidence_ref list"
  ti_policy_id :: str
  ti_policy_version :: str
  ti_verifier_id :: str
  ti_record_digest :: bytes
  ti_logical_timestamp :: u64
  ti_reason_code :: str
  ti_superseding_record_id :: "str option"

record trust_transition =
  tt_sequence :: u64
  tt_logical_timestamp :: u64
  tt_transition_id :: bytes
  tt_record_id :: str
  tt_previous_state :: "trust_state option"
  tt_next_state :: trust_state
  tt_operation :: trust_operation
  tt_authority :: transition_authority
  tt_evidence_refs :: "evidence_ref list"
  tt_policy_id :: str
  tt_policy_version :: str
  tt_verifier_id :: str
  tt_record_digest :: bytes
  tt_input_digest :: bytes
  tt_decision_digest :: bytes
  tt_reason_code :: str
  tt_superseding_record_id :: "str option"
  tt_previous_transition_digest :: bytes

record trust_snapshot =
  sn_record_id :: str
  sn_state :: trust_state
  sn_record_digest :: bytes
  sn_last_transition_id :: bytes
  sn_last_sequence :: u64
  sn_superseding_record_id :: "str option"

type_synonym trust_states = "(str, trust_snapshot) btree"

record trust_ledger =
  tl_path :: path
  tl_transitions :: "trust_transition list"
  tl_states :: trust_states
  tl_head_digest :: bytes
  tl_last_timestamp :: u64

definition LEDGER_MAGIC :: bytes where "LEDGER_MAGIC = lit ''UBTRN01'' @ [0]"
definition LEDGER_MAJOR :: u16 where "LEDGER_MAJOR = 1"
definition LEDGER_MINOR :: u16 where "LEDGER_MINOR = 0"
definition PAYLOAD_MAGIC :: bytes where "PAYLOAD_MAGIC = lit ''UBTRP01'' @ [0]"
definition INPUT_DIGEST_DOMAIN :: bytes where "INPUT_DIGEST_DOMAIN = lit ''UBTRIN1'' @ [0]"
definition DECISION_DIGEST_DOMAIN :: bytes where "DECISION_DIGEST_DOMAIN = lit ''UBTRDC1'' @ [0]"
definition TRANSITION_DIGEST_DOMAIN :: bytes where "TRANSITION_DIGEST_DOMAIN = lit ''UBTRDG1'' @ [0]"
definition MAX_PAYLOAD_BYTES :: nat where "MAX_PAYLOAD_BYTES = 16 * 1024 * 1024"
definition MAX_EVIDENCE_REFS :: nat where "MAX_EVIDENCE_REFS = 4096"
definition MAX_STRING_BYTES :: nat where "MAX_STRING_BYTES = 1024 * 1024"

subsection \<open>Fields\<close>

definition trust_read_u16 :: "bytes \<Rightarrow> nat \<Rightarrow> trust_error + u16" where
  "trust_read_u16 bs offset =
     rbind (read_field 2 (Trust_Invalid (lit ''u16 offset overflow''))
                         (Trust_Invalid (lit ''truncated u16'')) bs offset) (\<lambda>v. Inr (from_le v))"

definition trust_read_u32 :: "bytes \<Rightarrow> nat \<Rightarrow> trust_error + u32" where
  "trust_read_u32 bs offset =
     rbind (read_field 4 (Trust_Invalid (lit ''u32 offset overflow''))
                         (Trust_Invalid (lit ''truncated u32'')) bs offset) (\<lambda>v. Inr (from_le v))"

definition trust_read_u64 :: "bytes \<Rightarrow> nat \<Rightarrow> trust_error + u64" where
  "trust_read_u64 bs offset =
     rbind (read_field 8 (Trust_Invalid (lit ''u64 offset overflow''))
                         (Trust_Invalid (lit ''truncated u64'')) bs offset) (\<lambda>v. Inr (from_le v))"

definition trust_read_digest :: "bytes \<Rightarrow> nat \<Rightarrow> trust_error + bytes" where
  "trust_read_digest bs offset =
     read_field 32 (Trust_Invalid (lit ''digest offset overflow''))
                   (Trust_Invalid (lit ''truncated digest'')) bs offset"

text \<open>\<open>read_string\<close> returns the string and the advanced cursor.\<close>

definition trust_read_string :: "bytes \<Rightarrow> nat \<Rightarrow> nat \<Rightarrow> str \<Rightarrow> trust_error + (str \<times> nat)" where
  "trust_read_string bs cursor len context =
     (if MAX_STRING_BYTES < len
      then Inl (Trust_Invalid (context @ lit '' exceeds maximum byte length''))
      else
        rbind (ok_or (Trust_Invalid (context @ lit '' length overflow'')) (checked_add cursor len)) (\<lambda>stop.
        rbind (ok_or (Trust_Invalid (lit ''truncated '' @ context)) (get_range bs cursor stop)) (\<lambda>value.
        if utf8_valid value then Inr (value, stop)
        else Inl (Trust_Invalid (context @ lit '' is not UTF-8'')))))"

definition push_string :: "str \<Rightarrow> bytes" where
  "push_string value = u32_le (of_nat (length value)) @ value"

definition push_optional_string :: "str option \<Rightarrow> bytes" where
  "push_optional_string value = push_string (case value of Some s \<Rightarrow> s | None \<Rightarrow> [])"

fun encode_optional_state :: "trust_state option \<Rightarrow> u8 \<times> u8" where
  "encode_optional_state (Some s) = (maturity_code (ts_maturity s), validity_code (ts_validity s))"
| "encode_optional_state None = (0, 0)"

definition decode_optional_state :: "u8 \<Rightarrow> u8 \<Rightarrow> trust_error + trust_state option" where
  "decode_optional_state m v =
     (if m = 0 \<and> v = 0 then Inr None
      else if m = 0 \<or> v = 0 then Inl (Trust_Invalid (lit ''partial previous trust state encoding''))
      else
        rbind (maturity_from_code m) (\<lambda>maturity.
        rbind (validity_from_code v) (\<lambda>validity.
        Inr (Some \<lparr>ts_maturity = maturity, ts_validity = validity\<rparr>))))"

subsection \<open>Admissible transitions\<close>

definition is_zero_digest :: "bytes \<Rightarrow> bool" where
  "is_zero_digest value \<longleftrightarrow> list_all (\<lambda>b. b = 0) value"

definition validate_string :: "str \<Rightarrow> str \<Rightarrow> trust_error + unit" where
  "validate_string name value =
     (if value = [] then Inl (Trust_Invalid (name @ lit '' cannot be empty''))
      else if MAX_STRING_BYTES < length value
      then Inl (Trust_Invalid (name @ lit '' exceeds maximum byte length '' @ dec_bytes MAX_STRING_BYTES))
      else Inr ())"

fun validate_evidence :: "str list \<Rightarrow> evidence_ref list \<Rightarrow> trust_error + unit" where
  "validate_evidence seen [] = Inr ()"
| "validate_evidence seen (e # es) =
     rbind (validate_string (lit ''evidence_id'') (er_evidence_id e)) (\<lambda>_.
     rbind (validate_string (lit ''provenance_id'') (er_provenance_id e)) (\<lambda>_.
     if is_zero_digest (er_evidence_digest e)
     then Inl (Trust_Invalid (lit ''evidence digest cannot be zero: '' @ er_evidence_id e))
     else if er_evidence_id e \<in> set seen
     then Inl (Trust_Invalid (lit ''duplicate evidence_id: '' @ er_evidence_id e))
     else validate_evidence (bset_insert (er_evidence_id e) seen) es))"

definition validate_common_intent :: "transition_intent \<Rightarrow> trust_error + unit" where
  "validate_common_intent intent =
     rbind (validate_string (lit ''record_id'') (ti_record_id intent)) (\<lambda>_.
     rbind (validate_string (lit ''policy_id'') (ti_policy_id intent)) (\<lambda>_.
     rbind (validate_string (lit ''policy_version'') (ti_policy_version intent)) (\<lambda>_.
     rbind (validate_string (lit ''verifier_id'') (ti_verifier_id intent)) (\<lambda>_.
     rbind (validate_string (lit ''reason_code'') (ti_reason_code intent)) (\<lambda>_.
     if is_zero_digest (ti_record_digest intent)
     then Inl (Trust_Invalid (lit ''record_digest cannot be zero''))
     else if ti_logical_timestamp intent = 0
     then Inl (Trust_Invalid (lit ''logical_timestamp must be greater than zero''))
     else if ti_evidence_refs intent = []
     then Inl (Trust_Invalid (lit ''at least one evidence reference is required''))
     else if MAX_EVIDENCE_REFS < length (ti_evidence_refs intent)
     then Inl (Trust_Invalid (lit ''evidence reference count exceeds maximum ''
                 @ dec_bytes MAX_EVIDENCE_REFS))
     else
       rbind (validate_evidence [] (ti_evidence_refs intent)) (\<lambda>_.
       case ti_superseding_record_id intent of
         Some value \<Rightarrow> validate_string (lit ''superseding_record_id'') value
       | None \<Rightarrow> Inr ()))))))"

definition require_current :: "trust_state option \<Rightarrow> str \<Rightarrow> trust_error + trust_state" where
  "require_current previous_state record_id =
     ok_or (Trust_Invalid (lit ''record is not tracked: '' @ record_id)) previous_state"

fun terminal_validity :: "validity_state \<Rightarrow> bool" where
  "terminal_validity Revoked = True"
| "terminal_validity Superseded = True"
| "terminal_validity _ = False"

text \<open>The arms of the match on the operation.\<close>

definition no_superseding :: "transition_intent \<Rightarrow> trust_error + unit" where
  "no_superseding intent =
     (if ti_superseding_record_id intent \<noteq> None
      then Inl (Trust_Invalid (trust_operation_str (ti_operation intent)
                  @ lit '' cannot include superseding_record_id'')) else Inr ())"

definition trust_propose :: "trust_state option \<Rightarrow> transition_intent \<Rightarrow> trust_error + trust_state" where
  "trust_propose previous_state intent =
     (if previous_state \<noteq> None
      then Inl (Trust_Invalid (lit ''record is already tracked: '' @ ti_record_id intent))
      else rbind (no_superseding intent) (\<lambda>_. Inr raw_active))"

definition trust_promote :: "trust_state option \<Rightarrow> transition_intent \<Rightarrow> trust_error + trust_state" where
  "trust_promote previous_state intent =
     rbind (require_current previous_state (ti_record_id intent)) (\<lambda>current.
     if ts_validity current \<noteq> Valid_Active
     then Inl (Trust_Invalid (lit ''PROMOTE requires ACTIVE validity''))
     else
       rbind (no_superseding intent) (\<lambda>_.
       rbind (ok_or (Trust_Invalid (lit ''VERIFIED maturity cannot be promoted''))
                (maturity_next (ts_maturity current))) (\<lambda>maturity.
       Inr \<lparr>ts_maturity = maturity, ts_validity = Valid_Active\<rparr>)))"

definition trust_dispute :: "trust_state option \<Rightarrow> transition_intent \<Rightarrow> trust_error + trust_state" where
  "trust_dispute previous_state intent =
     rbind (require_current previous_state (ti_record_id intent)) (\<lambda>current.
     if ts_validity current \<noteq> Valid_Active
     then Inl (Trust_Invalid (lit ''DISPUTE requires ACTIVE validity''))
     else
       rbind (no_superseding intent) (\<lambda>_.
       Inr \<lparr>ts_maturity = ts_maturity current, ts_validity = Disputed\<rparr>))"

definition trust_revoke :: "trust_state option \<Rightarrow> transition_intent \<Rightarrow> trust_error + trust_state" where
  "trust_revoke previous_state intent =
     rbind (require_current previous_state (ti_record_id intent)) (\<lambda>current.
     if terminal_validity (ts_validity current)
     then Inl (Trust_Invalid (lit ''REVOKE cannot mutate a terminal validity''))
     else
       rbind (no_superseding intent) (\<lambda>_.
       Inr \<lparr>ts_maturity = ts_maturity current, ts_validity = Revoked\<rparr>))"

definition trust_expire :: "trust_state option \<Rightarrow> transition_intent \<Rightarrow> trust_error + trust_state" where
  "trust_expire previous_state intent =
     rbind (require_current previous_state (ti_record_id intent)) (\<lambda>current.
     if ts_validity current \<notin> {Valid_Active, Disputed}
     then Inl (Trust_Invalid (lit ''EXPIRE requires ACTIVE or DISPUTED validity''))
     else
       rbind (no_superseding intent) (\<lambda>_.
       Inr \<lparr>ts_maturity = ts_maturity current, ts_validity = Expired\<rparr>))"

definition trust_supersede ::
  "trust_states \<Rightarrow> trust_state option \<Rightarrow> transition_intent \<Rightarrow> trust_error + trust_state" where
  "trust_supersede states previous_state intent =
     rbind (require_current previous_state (ti_record_id intent)) (\<lambda>current.
     if terminal_validity (ts_validity current)
     then Inl (Trust_Invalid (lit ''SUPERSEDE cannot mutate a terminal validity''))
     else
       rbind (ok_or (Trust_Invalid (lit ''SUPERSEDE requires superseding_record_id''))
                (case ti_superseding_record_id intent of
                   Some v \<Rightarrow> if v = [] then None else Some v
                 | None \<Rightarrow> None)) (\<lambda>superseding_id.
       if superseding_id = ti_record_id intent
       then Inl (Trust_Invalid (lit ''record cannot supersede itself''))
       else
         rbind (ok_or (Trust_Invalid (lit ''superseding record is not tracked: '' @ superseding_id))
                  (bt_get states superseding_id)) (\<lambda>superseding.
         if terminal_validity (ts_validity (sn_state superseding))
         then Inl (Trust_Invalid (lit ''superseding record has terminal validity''))
         else Inr \<lparr>ts_maturity = ts_maturity current, ts_validity = Superseded\<rparr>)))"

definition authority_allowed :: "transition_authority \<Rightarrow> trust_operation \<Rightarrow> bool" where
  "authority_allowed a op \<longleftrightarrow> a = EvidencePolicy \<or> a = Import \<and> op = Propose"

definition validate_semantic_transition ::
  "trust_states \<Rightarrow> trust_state option \<Rightarrow> transition_intent \<Rightarrow> trust_error + trust_state" where
  "validate_semantic_transition states previous_state intent =
     rbind (validate_common_intent intent) (\<lambda>_.
     if \<not> authority_allowed (ti_authority intent) (ti_operation intent)
     then Inl (Trust_Invalid (lit ''authority '' @ authority_str (ti_authority intent)
                 @ lit '' cannot mutate trust through '' @ trust_operation_str (ti_operation intent)))
     else if (case bt_get states (ti_record_id intent) of
                Some snapshot \<Rightarrow> sn_record_digest snapshot \<noteq> ti_record_digest intent
              | None \<Rightarrow> False)
     then Inl (Trust_Invalid (lit ''record digest does not match bound digest for ''
                 @ ti_record_id intent))
     else
       case ti_operation intent of
         Propose \<Rightarrow> trust_propose previous_state intent
       | Promote \<Rightarrow> trust_promote previous_state intent
       | Dispute \<Rightarrow> trust_dispute previous_state intent
       | Revoke \<Rightarrow> trust_revoke previous_state intent
       | Expire \<Rightarrow> trust_expire previous_state intent
       | Supersede \<Rightarrow> trust_supersede states previous_state intent)"

subsection \<open>Digests and encodings\<close>

definition compute_input_digest :: "transition_intent \<Rightarrow> bytes" where
  "compute_input_digest intent =
     sha256 (INPUT_DIGEST_DOMAIN @ [trust_operation_code (ti_operation intent)]
       @ [authority_code (ti_authority intent)] @ replicate 6 0
       @ push_string (ti_record_id intent) @ push_string (ti_policy_id intent)
       @ push_string (ti_policy_version intent) @ push_string (ti_verifier_id intent)
       @ push_string (ti_reason_code intent)
       @ push_optional_string (ti_superseding_record_id intent)
       @ ti_record_digest intent @ u64_le (ti_logical_timestamp intent)
       @ u32_le (of_nat (length (ti_evidence_refs intent)))
       @ concat (map (\<lambda>e. push_string (er_evidence_id e) @ push_string (er_provenance_id e)
                          @ er_evidence_digest e) (ti_evidence_refs intent)))"

definition compute_decision_digest :: "bytes \<Rightarrow> trust_state option \<Rightarrow> trust_state \<Rightarrow> bytes" where
  "compute_decision_digest input_digest previous_state next_state =
     (let (pm, pv) = encode_optional_state previous_state in
      sha256 (DECISION_DIGEST_DOMAIN @ input_digest @ [pm, pv, maturity_code (ts_maturity next_state),
                validity_code (ts_validity next_state)] @ replicate 4 0))"

definition compute_transition_digest :: "u64 \<Rightarrow> u64 \<Rightarrow> bytes \<Rightarrow> bytes \<Rightarrow> bytes" where
  "compute_transition_digest seqno timestamp previous_digest payload_digest =
     sha256 (TRANSITION_DIGEST_DOMAIN @ u64_le seqno @ u64_le timestamp @ previous_digest @ payload_digest)"

definition evidence_bytes :: "evidence_ref \<Rightarrow> bytes" where
  "evidence_bytes e =
     u32_le (of_nat (length (er_evidence_id e))) @ u32_le (of_nat (length (er_provenance_id e)))
     @ er_evidence_digest e @ er_evidence_id e @ er_provenance_id e"

definition trust_payload_bytes ::
  "trust_state option \<Rightarrow> trust_state \<Rightarrow> bytes \<Rightarrow> bytes \<Rightarrow> transition_intent \<Rightarrow> bytes" where
  "trust_payload_bytes previous_state next_state input_digest decision_digest intent =
     (let (pm, pv) = encode_optional_state previous_state;
          superseding = (case ti_superseding_record_id intent of Some s \<Rightarrow> s | None \<Rightarrow> []) in
      PAYLOAD_MAGIC
      @ [trust_operation_code (ti_operation intent), authority_code (ti_authority intent), pm, pv,
         maturity_code (ts_maturity next_state), validity_code (ts_validity next_state)]
      @ u16_le 0 @ u32_le (of_nat (length (ti_record_id intent)))
      @ u32_le (of_nat (length (ti_policy_id intent))) @ u32_le (of_nat (length (ti_policy_version intent)))
      @ u32_le (of_nat (length (ti_verifier_id intent))) @ u32_le (of_nat (length (ti_reason_code intent)))
      @ u32_le (of_nat (length superseding)) @ u32_le (of_nat (length (ti_evidence_refs intent)))
      @ u32_le 0 @ ti_record_digest intent @ input_digest @ decision_digest
      @ ti_record_id intent @ ti_policy_id intent @ ti_policy_version intent @ ti_verifier_id intent
      @ ti_reason_code intent @ superseding
      @ concat (map evidence_bytes (ti_evidence_refs intent)))"

definition trust_encode_payload ::
  "trust_state option \<Rightarrow> trust_state \<Rightarrow> bytes \<Rightarrow> bytes \<Rightarrow> transition_intent \<Rightarrow> trust_error + bytes" where
  "trust_encode_payload previous_state next_state input_digest decision_digest intent =
     (let output = trust_payload_bytes previous_state next_state input_digest decision_digest intent in
      if MAX_PAYLOAD_BYTES < length output
      then Inl (Trust_Invalid (lit ''encoded trust payload exceeds maximum '' @ dec_bytes MAX_PAYLOAD_BYTES))
      else Inr output)"

text \<open>\<open>for _ in 0..evidence_count\<close>; the cursor is threaded through.\<close>

fun decode_evidence :: "nat \<Rightarrow> bytes \<Rightarrow> nat \<Rightarrow> trust_error + (evidence_ref list \<times> nat)" where
  "decode_evidence 0 payload cursor = Inr ([], cursor)"
| "decode_evidence (Suc n) payload cursor =
     (if length payload < cursor + 40
      then Inl (Trust_Invalid (lit ''truncated evidence reference fixed fields''))
      else
        rbind (trust_read_u32 payload cursor) (\<lambda>evidence_id_bytes.
        rbind (trust_read_u32 payload (cursor + 4)) (\<lambda>provenance_id_bytes.
        rbind (trust_read_digest payload (cursor + 8)) (\<lambda>evidence_digest.
        rbind (trust_read_string payload (cursor + 40) (unat evidence_id_bytes) (lit ''evidence_id''))
          (\<lambda>(evidence_id, c1).
        rbind (trust_read_string payload c1 (unat provenance_id_bytes) (lit ''provenance_id''))
          (\<lambda>(provenance_id, c2).
        rbind (decode_evidence n payload c2) (\<lambda>(es, c3).
        Inr (\<lparr>er_evidence_id = evidence_id, er_provenance_id = provenance_id,
              er_evidence_digest = evidence_digest\<rparr> # es, c3))))))))"

definition trust_decode_payload ::
  "u64 \<Rightarrow> u64 \<Rightarrow> bytes \<Rightarrow> bytes \<Rightarrow> bytes \<Rightarrow> trust_error + trust_transition" where
  "trust_decode_payload seqno timestamp transition_id previous_transition_digest payload =
     (if length payload < 144
      then Inl (Trust_Invalid (lit ''trust payload shorter than fixed header''))
      else if slice payload 0 8 \<noteq> PAYLOAD_MAGIC
      then Inl (Trust_Invalid (lit ''trust payload magic mismatch''))
      else
        rbind (trust_operation_from_code (payload ! 8)) (\<lambda>operation.
        rbind (authority_from_code (payload ! 9)) (\<lambda>authority.
        rbind (decode_optional_state (payload ! 10) (payload ! 11)) (\<lambda>previous_state.
        rbind (maturity_from_code (payload ! 12)) (\<lambda>maturity.
        rbind (validity_from_code (payload ! 13)) (\<lambda>validity.
        rbind (trust_read_u16 payload 14) (\<lambda>reserved16.
        if reserved16 \<noteq> 0 then Inl (Trust_Invalid (lit ''trust payload reserved u16 is non-zero''))
        else
          rbind (trust_read_u32 payload 16) (\<lambda>record_id_bytes.
          rbind (trust_read_u32 payload 20) (\<lambda>policy_id_bytes.
          rbind (trust_read_u32 payload 24) (\<lambda>policy_version_bytes.
          rbind (trust_read_u32 payload 28) (\<lambda>verifier_id_bytes.
          rbind (trust_read_u32 payload 32) (\<lambda>reason_code_bytes.
          rbind (trust_read_u32 payload 36) (\<lambda>superseding_bytes.
          rbind (trust_read_u32 payload 40) (\<lambda>evidence_count.
          rbind (trust_read_u32 payload 44) (\<lambda>reserved32.
          if reserved32 \<noteq> 0 then Inl (Trust_Invalid (lit ''trust payload reserved u32 is non-zero''))
          else if MAX_EVIDENCE_REFS < unat evidence_count
          then Inl (Trust_Invalid (lit ''trust payload evidence count exceeds maximum''))
          else
            rbind (trust_read_digest payload 48) (\<lambda>record_digest.
            rbind (trust_read_digest payload 80) (\<lambda>input_digest.
            rbind (trust_read_digest payload 112) (\<lambda>decision_digest.
            rbind (trust_read_string payload 144 (unat record_id_bytes) (lit ''record_id''))
              (\<lambda>(record_id, c1).
            rbind (trust_read_string payload c1 (unat policy_id_bytes) (lit ''policy_id''))
              (\<lambda>(policy_id, c2).
            rbind (trust_read_string payload c2 (unat policy_version_bytes) (lit ''policy_version''))
              (\<lambda>(policy_version, c3).
            rbind (trust_read_string payload c3 (unat verifier_id_bytes) (lit ''verifier_id''))
              (\<lambda>(verifier_id, c4).
            rbind (trust_read_string payload c4 (unat reason_code_bytes) (lit ''reason_code''))
              (\<lambda>(reason_code, c5).
            rbind (trust_read_string payload c5 (unat superseding_bytes) (lit ''superseding_record_id''))
              (\<lambda>(superseding_value, c6).
            rbind (decode_evidence (unat evidence_count) payload c6) (\<lambda>(evidence_refs, c7).
            if c7 \<noteq> length payload
            then Inl (Trust_Invalid (lit ''trust payload contains trailing bytes''))
            else Inr \<lparr>tt_sequence = seqno, tt_logical_timestamp = timestamp,
                      tt_transition_id = transition_id, tt_record_id = record_id,
                      tt_previous_state = previous_state,
                      tt_next_state = \<lparr>ts_maturity = maturity, ts_validity = validity\<rparr>,
                      tt_operation = operation, tt_authority = authority,
                      tt_evidence_refs = evidence_refs, tt_policy_id = policy_id,
                      tt_policy_version = policy_version, tt_verifier_id = verifier_id,
                      tt_record_digest = record_digest, tt_input_digest = input_digest,
                      tt_decision_digest = decision_digest, tt_reason_code = reason_code,
                      tt_superseding_record_id =
                        (if superseding_value = [] then None else Some superseding_value),
                      tt_previous_transition_digest = previous_transition_digest\<rparr>)))))))))))))))))))))))))"

definition trust_frame_bytes :: "u64 \<Rightarrow> u64 \<Rightarrow> bytes \<Rightarrow> bytes \<Rightarrow> bytes \<Rightarrow> bytes \<Rightarrow> bytes" where
  "trust_frame_bytes seqno timestamp previous_digest payload_digest transition_digest payload =
     LEDGER_MAGIC @ u16_le LEDGER_MAJOR @ u16_le LEDGER_MINOR @ u32_le 144 @ u64_le seqno
     @ u64_le timestamp @ u64_le (of_nat (length payload)) @ previous_digest @ payload_digest
     @ transition_digest @ replicate 8 0 @ payload"

definition trust_encode_frame ::
  "u64 \<Rightarrow> u64 \<Rightarrow> bytes \<Rightarrow> bytes \<Rightarrow> bytes \<Rightarrow> bytes \<Rightarrow> trust_error + bytes" where
  "trust_encode_frame seqno timestamp previous_digest payload_digest transition_digest payload =
     (if MAX_PAYLOAD_BYTES < length payload
      then Inl (Trust_Invalid (lit ''trust frame payload exceeds maximum''))
      else Inr (trust_frame_bytes seqno timestamp previous_digest payload_digest transition_digest payload))"

definition apply_replayed_transition :: "trust_states \<Rightarrow> trust_transition \<Rightarrow> trust_error + trust_states" where
  "apply_replayed_transition states transition =
     (if tt_operation transition = Propose then
        if bt_get states (tt_record_id transition) \<noteq> None
        then Inl (Trust_Invalid (lit ''replay attempted duplicate PROPOSE for '' @ tt_record_id transition))
        else Inr (bt_insert (tt_record_id transition)
                    \<lparr>sn_record_id = tt_record_id transition, sn_state = tt_next_state transition,
                     sn_record_digest = tt_record_digest transition,
                     sn_last_transition_id = tt_transition_id transition,
                     sn_last_sequence = tt_sequence transition,
                     sn_superseding_record_id = tt_superseding_record_id transition\<rparr> states)
      else
        rbind (ok_or (Trust_Invalid (lit ''replay missing record state for '' @ tt_record_id transition))
                 (bt_get states (tt_record_id transition))) (\<lambda>snapshot.
        if sn_record_digest snapshot \<noteq> tt_record_digest transition
        then Inl (Trust_Invalid (lit ''replay record digest binding mismatch''))
        else Inr (bt_insert (tt_record_id transition)
                    (snapshot\<lparr>sn_state := tt_next_state transition,
                      sn_last_transition_id := tt_transition_id transition,
                      sn_last_sequence := tt_sequence transition,
                      sn_superseding_record_id := tt_superseding_record_id transition\<rparr>) states)))"

subsection \<open>The ledger\<close>

definition empty_ledger :: "path \<Rightarrow> trust_ledger" where
  "empty_ledger p = \<lparr>tl_path = p, tl_transitions = [], tl_states = [],
     tl_head_digest = replicate 32 0, tl_last_timestamp = 0\<rparr>"

definition ledger_create :: "path \<Rightarrow> (trust_error, trust_ledger) io" where
  "ledger_create path fs =
     (if fs_exists fs path
      then (Inl (Trust_Invalid (lit ''trust ledger already exists: '' @ path_display path)), fs)
      else
        io_bind (case path_parent path of
                   Some parent \<Rightarrow> io_map_err Trust_Io (create_dir_all parent)
                 | None \<Rightarrow> io_ret ()) (\<lambda>_.
        io_bind (io_map_err Trust_Io (create_new path [])) (\<lambda>_.
        io_ret (empty_ledger path))) fs)"

text \<open>The intent that a transition records.\<close>

definition intent_of :: "trust_transition \<Rightarrow> transition_intent" where
  "intent_of t = \<lparr>ti_record_id = tt_record_id t, ti_operation = tt_operation t,
     ti_authority = tt_authority t, ti_evidence_refs = tt_evidence_refs t,
     ti_policy_id = tt_policy_id t, ti_policy_version = tt_policy_version t,
     ti_verifier_id = tt_verifier_id t, ti_record_digest = tt_record_digest t,
     ti_logical_timestamp = tt_logical_timestamp t, ti_reason_code = tt_reason_code t,
     ti_superseding_record_id = tt_superseding_record_id t\<rparr>"

definition ledger_state_of :: "trust_ledger \<Rightarrow> str \<Rightarrow> trust_state option" where
  "ledger_state_of l record_id = map_option sn_state (bt_get (tl_states l) record_id)"

text \<open>\<open>TrustLedger::apply\<close>: the checks, the append to the file on a disk that may fail, and the new ledger.\<close>

definition ledger_apply_disk ::
  "disk \<Rightarrow> trust_ledger \<Rightarrow> transition_intent \<Rightarrow> fsys \<Rightarrow>
   (trust_error + trust_transition) \<times> trust_ledger \<times> fsys" where
  "ledger_apply_disk disk l intent fs =
     (if ti_logical_timestamp intent \<le> tl_last_timestamp l
      then (Inl (Trust_Invalid (lit ''logical timestamp must increase: previous=''
                   @ dec_bytes (unat (tl_last_timestamp l)) @ lit '' requested=''
                   @ dec_bytes (unat (ti_logical_timestamp intent)))), l, fs)
      else
        case checked_add (length (tl_transitions l)) 1 of
          None \<Rightarrow> (Inl (Trust_Invalid (lit ''trust transition sequence overflow'')), l, fs)
        | Some n \<Rightarrow>
        let seqno = of_nat n; previous_state = ledger_state_of l (ti_record_id intent) in
        case validate_semantic_transition (tl_states l) previous_state intent of
          Inl e \<Rightarrow> (Inl e, l, fs)
        | Inr next_state \<Rightarrow>
        let input_digest = compute_input_digest intent;
            decision_digest = compute_decision_digest input_digest previous_state next_state in
        case trust_encode_payload previous_state next_state input_digest decision_digest intent of
          Inl e \<Rightarrow> (Inl e, l, fs)
        | Inr payload \<Rightarrow>
        let payload_digest = sha256 payload;
            transition_id = compute_transition_digest seqno (ti_logical_timestamp intent)
              (tl_head_digest l) payload_digest in
        case trust_encode_frame seqno (ti_logical_timestamp intent) (tl_head_digest l) payload_digest
               transition_id payload of
          Inl e \<Rightarrow> (Inl e, l, fs)
        | Inr frame \<Rightarrow>
        case append_sync disk (tl_path l) frame fs of
          (Inl e, fs1) \<Rightarrow> (Inl (Trust_Io e), l, fs1)
        | (Inr _, fs1) \<Rightarrow>
        let transition =
              \<lparr>tt_sequence = seqno, tt_logical_timestamp = ti_logical_timestamp intent,
               tt_transition_id = transition_id, tt_record_id = ti_record_id intent,
               tt_previous_state = previous_state, tt_next_state = next_state,
               tt_operation = ti_operation intent, tt_authority = ti_authority intent,
               tt_evidence_refs = ti_evidence_refs intent, tt_policy_id = ti_policy_id intent,
               tt_policy_version = ti_policy_version intent, tt_verifier_id = ti_verifier_id intent,
               tt_record_digest = ti_record_digest intent, tt_input_digest = input_digest,
               tt_decision_digest = decision_digest, tt_reason_code = ti_reason_code intent,
               tt_superseding_record_id = ti_superseding_record_id intent,
               tt_previous_transition_digest = tl_head_digest l\<rparr> in
        case apply_replayed_transition (tl_states l) transition of
          Inl e \<Rightarrow> (Inl e, l, fs1)
        | Inr states \<Rightarrow>
          (Inr transition,
           l\<lparr>tl_states := states, tl_last_timestamp := tt_logical_timestamp transition,
             tl_head_digest := tt_transition_id transition,
             tl_transitions := tl_transitions l @ [transition]\<rparr>, fs1))"

definition ledger_apply ::
  "trust_ledger \<Rightarrow> transition_intent \<Rightarrow> fsys \<Rightarrow>
   (trust_error + trust_transition) \<times> trust_ledger \<times> fsys" where
  "ledger_apply = ledger_apply_disk Disk_Ok"

text \<open>The body of the replay loop after the header: the checks of one frame.\<close>

definition replay_transition ::
  "trust_ledger \<Rightarrow> u64 \<Rightarrow> u64 \<Rightarrow> bytes \<Rightarrow> bytes \<Rightarrow> bytes \<Rightarrow> bytes \<Rightarrow> trust_error + trust_ledger" where
  "replay_transition l seqno timestamp previous_digest expected_payload_digest
       expected_transition_digest payload =
     (let seqtext = dec_bytes (unat seqno) in
      if seqno \<noteq> of_nat (length (tl_transitions l)) + 1
      then Inl (Trust_Invalid (lit ''ledger sequence mismatch: expected=''
                  @ dec_bytes (unat (of_nat (length (tl_transitions l)) + 1 :: u64))
                  @ lit '' actual='' @ seqtext))
      else if timestamp \<le> tl_last_timestamp l
      then Inl (Trust_Invalid (lit ''ledger timestamp is not strictly increasing at sequence '' @ seqtext))
      else if previous_digest \<noteq> tl_head_digest l
      then Inl (Trust_Integrity (lit ''previous transition chain at sequence '' @ seqtext)
                  (tl_head_digest l) previous_digest)
      else
        let actual_payload_digest = sha256 payload in
        if actual_payload_digest \<noteq> expected_payload_digest
        then Inl (Trust_Integrity (lit ''payload at sequence '' @ seqtext)
                    expected_payload_digest actual_payload_digest)
        else
          let actual_transition_digest =
                compute_transition_digest seqno timestamp previous_digest expected_payload_digest in
          if actual_transition_digest \<noteq> expected_transition_digest
          then Inl (Trust_Integrity (lit ''transition at sequence '' @ seqtext)
                      expected_transition_digest actual_transition_digest)
          else
            rbind (trust_decode_payload seqno timestamp expected_transition_digest previous_digest payload)
              (\<lambda>transition.
            let current_state = ledger_state_of l (tt_record_id transition) in
            if current_state \<noteq> tt_previous_state transition
            then Inl (Trust_Invalid (lit ''replayed previous_state mismatch at sequence '' @ seqtext))
            else
              let intent = intent_of transition in
              rbind (validate_semantic_transition (tl_states l) current_state intent) (\<lambda>expected_next.
              if expected_next \<noteq> tt_next_state transition
              then Inl (Trust_Invalid (lit ''replayed next_state mismatch at sequence '' @ seqtext))
              else
                let expected_input = compute_input_digest intent in
                if expected_input \<noteq> tt_input_digest transition
                then Inl (Trust_Integrity (lit ''input digest at sequence '' @ seqtext)
                            expected_input (tt_input_digest transition))
                else
                  let expected_decision = compute_decision_digest expected_input current_state expected_next in
                  if expected_decision \<noteq> tt_decision_digest transition
                  then Inl (Trust_Integrity (lit ''decision digest at sequence '' @ seqtext)
                              expected_decision (tt_decision_digest transition))
                  else
                    rbind (apply_replayed_transition (tl_states l) transition) (\<lambda>states.
                    Inr (l\<lparr>tl_states := states, tl_last_timestamp := timestamp,
                           tl_head_digest := expected_transition_digest,
                           tl_transitions := tl_transitions l @ [transition]\<rparr>)))))"

text \<open>The loop of \<open>replay_bytes\<close>: \<open>rest\<close> is the file from \<open>offset\<close> on.\<close>

function (sequential) replay_bytes :: "trust_ledger \<Rightarrow> nat \<Rightarrow> bytes \<Rightarrow> trust_error + trust_ledger" where
  "replay_bytes l offset rest =
     (let remaining = length rest; at = dec_bytes offset in
      if remaining = 0 then Inr l
      else if remaining < 144 then Inl (Trust_TruncatedTail offset remaining)
      else
        let header = take 144 rest in
        if slice header 0 8 \<noteq> LEDGER_MAGIC
        then Inl (Trust_Invalid (lit ''ledger magic mismatch at offset '' @ at))
        else
          rbind (trust_read_u16 header 8) (\<lambda>major.
          rbind (trust_read_u16 header 10) (\<lambda>minor.
          rbind (trust_read_u32 header 12) (\<lambda>header_bytes.
          if major \<noteq> LEDGER_MAJOR \<or> minor \<noteq> LEDGER_MINOR \<or> header_bytes \<noteq> 144
          then Inl (Trust_Invalid (lit ''ledger version/header mismatch at offset '' @ at))
          else
            rbind (trust_read_u64 header 16) (\<lambda>seqno.
            rbind (trust_read_u64 header 24) (\<lambda>timestamp.
            rbind (trust_read_u64 header 32) (\<lambda>payload_len.
            if MAX_PAYLOAD_BYTES < unat payload_len
            then Inl (Trust_Invalid (lit ''ledger payload exceeds maximum: '' @ dec_bytes (unat payload_len)))
            else
              rbind (trust_read_digest header 40) (\<lambda>previous_digest.
              rbind (trust_read_digest header 72) (\<lambda>expected_payload_digest.
              rbind (trust_read_digest header 104) (\<lambda>expected_transition_digest.
              if slice header 136 144 \<noteq> replicate 8 0
              then Inl (Trust_Invalid (lit ''ledger reserved bytes are non-zero at sequence ''
                          @ dec_bytes (unat seqno)))
              else
                rbind (ok_or (Trust_Invalid (lit ''ledger frame length overflow''))
                         (checked_add (offset + 144) (unat payload_len))) (\<lambda>frame_end.
                if remaining < 144 + unat payload_len
                then Inl (Trust_TruncatedTail offset remaining)
                else
                  rbind (replay_transition l seqno timestamp previous_digest expected_payload_digest
                           expected_transition_digest (take (unat payload_len) (drop 144 rest))) (\<lambda>l'.
                  replay_bytes l' frame_end (drop (144 + unat payload_len) rest)))))))))))))"
  by pat_completeness auto
termination
  by (relation "measure (\<lambda>(l, off, rest). length rest)") auto

declare replay_bytes.simps [simp del]

definition ledger_open_strict :: "path \<Rightarrow> (trust_error, trust_ledger) io" where
  "ledger_open_strict path fs =
     (if fget fs path = None
      then (Inl (Trust_Invalid (lit ''trust ledger file missing: '' @ path_display path)), fs)
      else
        io_bind (io_query (\<lambda>fs. map_err Trust_Io (fs_read path fs))) (\<lambda>bytes.
        io_pure (replay_bytes (empty_ledger path) 0 bytes)) fs)"

definition ledger_snapshot :: "trust_ledger \<Rightarrow> str \<Rightarrow> trust_snapshot option" where
  "ledger_snapshot l record_id = bt_get (tl_states l) record_id"

definition ledger_snapshots :: "trust_ledger \<Rightarrow> trust_snapshot list" where
  "ledger_snapshots l = bt_values (tl_states l)"

subsection \<open>The payload codec\<close>

lemma trust_read_iff:
  "trust_read_u16 bs off = Inr a \<longleftrightarrow> off + 2 < usize_limit \<and> off + 2 \<le> length bs \<and> a = from_le (take 2 (drop off bs))"
  "trust_read_u32 bs off = Inr b \<longleftrightarrow> off + 4 < usize_limit \<and> off + 4 \<le> length bs \<and> b = from_le (take 4 (drop off bs))"
  "trust_read_u64 bs off = Inr c \<longleftrightarrow> off + 8 < usize_limit \<and> off + 8 \<le> length bs \<and> c = from_le (take 8 (drop off bs))"
  "trust_read_digest bs off = Inr d \<longleftrightarrow> off + 32 < usize_limit \<and> off + 32 \<le> length bs \<and> d = take 32 (drop off bs)"
  by (auto simp: trust_read_u16_def trust_read_u32_def trust_read_u64_def trust_read_digest_def
      rbind_eq_Inr_iff read_field_eq_Inr_iff)

lemma trust_read_ok:
  "off + 2 < usize_limit \<Longrightarrow> off + 2 \<le> length bs \<Longrightarrow> trust_read_u16 bs off = Inr (from_le (take 2 (drop off bs)))"
  "off + 4 < usize_limit \<Longrightarrow> off + 4 \<le> length bs \<Longrightarrow> trust_read_u32 bs off = Inr (from_le (take 4 (drop off bs)))"
  "off + 8 < usize_limit \<Longrightarrow> off + 8 \<le> length bs \<Longrightarrow> trust_read_u64 bs off = Inr (from_le (take 8 (drop off bs)))"
  "off + 32 < usize_limit \<Longrightarrow> off + 32 \<le> length bs \<Longrightarrow> trust_read_digest bs off = Inr (take 32 (drop off bs))"
  by (simp_all add: trust_read_iff)

lemma trust_read_string_iff:
  "trust_read_string bs cur n ctx = Inr (v, cur') \<longleftrightarrow> n \<le> MAX_STRING_BYTES \<and> cur + n < usize_limit \<and>
     cur + n \<le> length bs \<and> v = take n (drop cur bs) \<and> utf8_valid v \<and> cur' = cur + n"
  by (auto simp: trust_read_string_def rbind_eq_Inr_iff checked_add_Some_iff get_range_Some_iff)

lemma maturity_codes [simp]: "maturity_from_code (maturity_code m) = Inr m" "maturity_code m \<noteq> 0"
  by (cases m; simp add: maturity_from_code_def)+

lemma validity_codes [simp]: "validity_from_code (validity_code v) = Inr v" "validity_code v \<noteq> 0"
  by (cases v; simp add: validity_from_code_def)+

lemma operation_codes [simp]: "trust_operation_from_code (trust_operation_code x) = Inr x"
  by (cases x; simp add: trust_operation_from_code_def)

lemma authority_codes [simp]: "authority_from_code (authority_code a) = Inr a"
  by (cases a; simp add: authority_from_code_def)

lemma trust_codes_inv:
  "maturity_from_code c = Inr m \<Longrightarrow> c = maturity_code m"
  "validity_from_code c = Inr v \<Longrightarrow> c = validity_code v"
  "trust_operation_from_code c = Inr x \<Longrightarrow> c = trust_operation_code x"
  "authority_from_code c = Inr a \<Longrightarrow> c = authority_code a"
  by (auto simp: maturity_from_code_def validity_from_code_def trust_operation_from_code_def
      authority_from_code_def split: if_splits)

lemma optional_state_codec [simp]:
  "decode_optional_state (fst (encode_optional_state s)) (snd (encode_optional_state s)) = Inr s"
  by (cases s) (simp_all add: decode_optional_state_def)

lemma optional_state_inv: "decode_optional_state m v = Inr s \<Longrightarrow> encode_optional_state s = (m, v)"
  by (auto simp: decode_optional_state_def rbind_eq_Inr_iff dest: trust_codes_inv split: if_splits)

text \<open>What the types of Rust guarantee of the strings and digests.\<close>

definition text_ok :: "str \<Rightarrow> bool" where
  "text_ok s \<longleftrightarrow> utf8_valid s \<and> length s \<le> MAX_STRING_BYTES"

definition evidence_ok :: "evidence_ref \<Rightarrow> bool" where
  "evidence_ok e \<longleftrightarrow> text_ok (er_evidence_id e) \<and> text_ok (er_provenance_id e) \<and>
     length (er_evidence_digest e) = 32"

lemma text_length: "text_ok s \<Longrightarrow> unat (of_nat (length s) :: u32) = length s"
  by (simp add: text_ok_def MAX_STRING_BYTES_def unat_of_nat)

lemma length_evidence_bytes: "evidence_ok e \<Longrightarrow>
  length (evidence_bytes e) = 40 + length (er_evidence_id e) + length (er_provenance_id e)"
  by (simp add: evidence_bytes_def evidence_ok_def)

lemma decode_evidence_ok:
  assumes "list_all evidence_ok es" and "payload = pre @ concat (map evidence_bytes es) @ rest"
    and "length payload < usize_limit"
  shows "decode_evidence (length es) payload (length pre) =
     Inr (es, length (pre @ concat (map evidence_bytes es)))"
  using assms
proof (induction es arbitrary: pre)
  case (Cons e es)
  let ?a = "er_evidence_id e" and ?b = "er_provenance_id e" and ?d = "er_evidence_digest e"
  let ?c = "length pre" and ?tail = "concat (map evidence_bytes es) @ rest"
  have ok: "text_ok ?a" "text_ok ?b" "length ?d = 32" using Cons.prems(1) by (auto simp: evidence_ok_def)
  have p: "payload = pre @ u32_le (of_nat (length ?a)) @ u32_le (of_nat (length ?b)) @ ?d @ ?a @ ?b @ ?tail"
    using Cons.prems(2) by (simp add: evidence_bytes_def [of e])
  have r: "trust_read_u32 payload ?c = Inr (of_nat (length ?a))"
    "trust_read_u32 payload (?c + 4) = Inr (of_nat (length ?b))"
    "trust_read_digest payload (?c + 8) = Inr ?d"
    "trust_read_string payload (?c + 40) (length ?a) (lit ''evidence_id'') = Inr (?a, ?c + 40 + length ?a)"
    "trust_read_string payload (?c + 40 + length ?a) (length ?b) (lit ''provenance_id'')
       = Inr (?b, ?c + 40 + length ?a + length ?b)"
    using ok Cons.prems(3) by (simp_all add: trust_read_iff trust_read_string_iff p text_ok_def)
  have "payload = (pre @ evidence_bytes e) @ ?tail" using Cons.prems(2) by simp
  then have d: "decode_evidence (length es) payload (length (pre @ evidence_bytes e)) =
     Inr (es, length ((pre @ evidence_bytes e) @ concat (map evidence_bytes es)))"
    using Cons.IH [OF _ _ Cons.prems(3)] Cons.prems(1) by simp
  have l: "length (pre @ evidence_bytes e) = ?c + 40 + length ?a + length ?b"
    using Cons.prems(1) by (simp add: length_evidence_bytes)
  have "\<not> length payload < ?c + 40" using ok by (simp add: p)
  then show ?case
    using ok d [unfolded l] by (simp add: r text_length)
qed simp

lemma decode_evidence_sound:
  assumes "decode_evidence n payload c = Inr (es, c')"
  shows "length es = n \<and> list_all evidence_ok es \<and> (c \<le> length payload \<longrightarrow> c \<le> c' \<and> c' \<le> length payload \<and>
     drop c payload = concat (map evidence_bytes es) @ drop c' payload)"
  using assms
proof (induction n arbitrary: c es)
  case (Suc n)
  then obtain a b d s1 c1 s2 c2 es' where le: "c + 40 \<le> length payload"
    and r: "trust_read_u32 payload c = Inr a" "trust_read_u32 payload (c + 4) = Inr b"
      "trust_read_digest payload (c + 8) = Inr d"
      "trust_read_string payload (c + 40) (unat a) (lit ''evidence_id'') = Inr (s1, c1)"
      "trust_read_string payload c1 (unat b) (lit ''provenance_id'') = Inr (s2, c2)"
    and d: "decode_evidence n payload c2 = Inr (es', c')"
    and es: "es = \<lparr>er_evidence_id = s1, er_provenance_id = s2, er_evidence_digest = d\<rparr> # es'"
    by (auto simp: rbind_eq_Inr_iff split: if_splits)
  note f = r [unfolded trust_read_iff trust_read_string_iff]
  have l: "length s1 = unat a" "length s2 = unat b" using f by auto
  have e: "evidence_bytes \<lparr>er_evidence_id = s1, er_provenance_id = s2, er_evidence_digest = d\<rparr> =
      take (40 + unat a + unat b) (drop c payload)"
  proof -
    have "length (take 4 (drop c payload)) = 4" "length (take 4 (drop (c + 4) payload)) = 4" using le by simp_all
    then have "u32_le a = take 4 (drop c payload)" "u32_le b = take 4 (drop (c + 4) payload)"
      using f(1,2) uN_le_from_le(2) by blast+
    then have "evidence_bytes \<lparr>er_evidence_id = s1, er_provenance_id = s2, er_evidence_digest = d\<rparr> =
       take 4 (drop c payload) @ take 4 (drop (c + 4) payload) @ take 32 (drop (c + 8) payload)
       @ take (unat a) (drop (c + 40) payload) @ take (unat b) (drop (c + 40 + unat a) payload)"
      using f l by (simp add: evidence_bytes_def)
    also have "\<dots> = take (40 + unat a + unat b) (drop c payload)"
    proof -
      have "40 + unat a + unat b = 4 + (4 + (32 + (unat a + unat b)))" by simp
      then show ?thesis by (simp only: take_add drop_drop) (simp add: ac_simps)
    qed
    finally show ?thesis .
  qed
  have "c2 = c + (40 + unat a + unat b)" "c2 \<le> length payload" using f by auto
  moreover from this have "drop c payload = take (40 + unat a + unat b) (drop c payload) @ drop c2 payload"
    by (simp add: field_join)
  moreover have "evidence_ok \<lparr>er_evidence_id = s1, er_provenance_id = s2, er_evidence_digest = d\<rparr>"
    using f le by (auto simp: evidence_ok_def text_ok_def)
  ultimately show ?case using Suc.IH [OF d] e es by (auto simp del: append_take_drop_id)
qed simp

definition superseding_text :: "str option \<Rightarrow> str" where
  "superseding_text v = (case v of Some s \<Rightarrow> s | None \<Rightarrow> [])"

definition transition_payload :: "trust_transition \<Rightarrow> bytes" where
  "transition_payload t = trust_payload_bytes (tt_previous_state t) (tt_next_state t)
     (tt_input_digest t) (tt_decision_digest t) (intent_of t)"

definition transition_fixed :: "trust_transition \<Rightarrow> bytes" where
  "transition_fixed t = (let (pm, pv) = encode_optional_state (tt_previous_state t) in
     PAYLOAD_MAGIC @ [trust_operation_code (tt_operation t), authority_code (tt_authority t), pm, pv,
         maturity_code (ts_maturity (tt_next_state t)), validity_code (ts_validity (tt_next_state t))]
      @ u16_le 0 @ u32_le (of_nat (length (tt_record_id t)))
      @ u32_le (of_nat (length (tt_policy_id t))) @ u32_le (of_nat (length (tt_policy_version t)))
      @ u32_le (of_nat (length (tt_verifier_id t))) @ u32_le (of_nat (length (tt_reason_code t)))
      @ u32_le (of_nat (length (superseding_text (tt_superseding_record_id t))))
      @ u32_le (of_nat (length (tt_evidence_refs t))) @ u32_le 0
      @ tt_record_digest t @ tt_input_digest t @ tt_decision_digest t)"

definition transition_texts :: "trust_transition \<Rightarrow> bytes" where
  "transition_texts t = tt_record_id t @ tt_policy_id t @ tt_policy_version t @ tt_verifier_id t
     @ tt_reason_code t @ superseding_text (tt_superseding_record_id t)"

lemma transition_payload_parts:
  "transition_payload t = transition_fixed t @ transition_texts t @ concat (map evidence_bytes (tt_evidence_refs t))"
  by (simp add: transition_payload_def trust_payload_bytes_def transition_fixed_def transition_texts_def
      intent_of_def superseding_text_def Let_def split: prod.splits)

definition transition_typed :: "trust_transition \<Rightarrow> bool" where
  "transition_typed t \<longleftrightarrow> text_ok (tt_record_id t) \<and> text_ok (tt_policy_id t) \<and>
     text_ok (tt_policy_version t) \<and> text_ok (tt_verifier_id t) \<and> text_ok (tt_reason_code t) \<and>
     text_ok (superseding_text (tt_superseding_record_id t)) \<and> tt_superseding_record_id t \<noteq> Some [] \<and>
     list_all evidence_ok (tt_evidence_refs t) \<and> length (tt_evidence_refs t) \<le> MAX_EVIDENCE_REFS \<and>
     length (tt_record_digest t) = 32 \<and> length (tt_input_digest t) = 32 \<and>
     length (tt_decision_digest t) = 32"

lemma length_payload_magic [simp]: "length PAYLOAD_MAGIC = 8"
  by (simp add: PAYLOAD_MAGIC_def lit_def)

lemma length_transition_fixed: "transition_typed t \<Longrightarrow> length (transition_fixed t) = 144"
  by (simp add: transition_fixed_def transition_typed_def split: prod.splits)

lemma transition_fixed_reads:
  assumes ty: "transition_typed t" and p: "p = transition_fixed t @ rest"
  shows "slice p 0 8 = PAYLOAD_MAGIC" and "p ! 8 = trust_operation_code (tt_operation t)"
    and "p ! 9 = authority_code (tt_authority t)"
    and "decode_optional_state (p ! 10) (p ! 11) = Inr (tt_previous_state t)"
    and "p ! 12 = maturity_code (ts_maturity (tt_next_state t))"
    and "p ! 13 = validity_code (ts_validity (tt_next_state t))"
    and "trust_read_u16 p 14 = Inr 0"
    and "trust_read_u32 p 16 = Inr (of_nat (length (tt_record_id t)))"
    and "trust_read_u32 p 20 = Inr (of_nat (length (tt_policy_id t)))"
    and "trust_read_u32 p 24 = Inr (of_nat (length (tt_policy_version t)))"
    and "trust_read_u32 p 28 = Inr (of_nat (length (tt_verifier_id t)))"
    and "trust_read_u32 p 32 = Inr (of_nat (length (tt_reason_code t)))"
    and "trust_read_u32 p 36 = Inr (of_nat (length (superseding_text (tt_superseding_record_id t))))"
    and "trust_read_u32 p 40 = Inr (of_nat (length (tt_evidence_refs t)))"
    and "trust_read_u32 p 44 = Inr 0"
    and "trust_read_digest p 48 = Inr (tt_record_digest t)"
    and "trust_read_digest p 80 = Inr (tt_input_digest t)"
    and "trust_read_digest p 112 = Inr (tt_decision_digest t)"
proof -
  obtain pm pv where s: "encode_optional_state (tt_previous_state t) = (pm, pv)" by fastforce
  then have ds: "decode_optional_state pm pv = Inr (tt_previous_state t)"
    using optional_state_codec [of "tt_previous_state t"] by simp
  note l = ty [unfolded transition_typed_def]
  note d = p [unfolded transition_fixed_def s, simplified]
  show "slice p 0 8 = PAYLOAD_MAGIC" by (simp add: d slice_def)
  show "p ! 8 = trust_operation_code (tt_operation t)" "p ! 9 = authority_code (tt_authority t)"
    "decode_optional_state (p ! 10) (p ! 11) = Inr (tt_previous_state t)"
    "p ! 12 = maturity_code (ts_maturity (tt_next_state t))"
    "p ! 13 = validity_code (ts_validity (tt_next_state t))"
    by (simp_all add: d nth_append ds)
  show "trust_read_u16 p 14 = Inr 0"
    "trust_read_u32 p 16 = Inr (of_nat (length (tt_record_id t)))"
    "trust_read_u32 p 20 = Inr (of_nat (length (tt_policy_id t)))"
    "trust_read_u32 p 24 = Inr (of_nat (length (tt_policy_version t)))"
    "trust_read_u32 p 28 = Inr (of_nat (length (tt_verifier_id t)))"
    "trust_read_u32 p 32 = Inr (of_nat (length (tt_reason_code t)))"
    "trust_read_u32 p 36 = Inr (of_nat (length (superseding_text (tt_superseding_record_id t))))"
    "trust_read_u32 p 40 = Inr (of_nat (length (tt_evidence_refs t)))"
    "trust_read_u32 p 44 = Inr 0"
    "trust_read_digest p 48 = Inr (tt_record_digest t)"
    "trust_read_digest p 80 = Inr (tt_input_digest t)"
    "trust_read_digest p 112 = Inr (tt_decision_digest t)"
    using l by (simp_all add: trust_read_iff d usize_limit_def)
qed

lemma read_string_at:
  assumes "p = pre @ v @ rest" and "text_ok v" and "length p < usize_limit"
  shows "trust_read_string p (length pre) (unat (of_nat (length v) :: u32)) ctx = Inr (v, length (pre @ v))"
  using assms by (simp add: text_length) (simp add: trust_read_string_iff text_ok_def)


lemma decode_payload_ok:
  assumes ty: "transition_typed t" and lim: "length (transition_payload t) < usize_limit"
  shows "trust_decode_payload (tt_sequence t) (tt_logical_timestamp t) (tt_transition_id t)
     (tt_previous_transition_digest t) (transition_payload t) = Inr t"
proof -
  let ?s = "superseding_text (tt_superseding_record_id t)" and ?fx = "transition_fixed t"
  let ?ev = "concat (map evidence_bytes (tt_evidence_refs t))"
  define p where "p = transition_payload t"
  have pp: "p = ?fx @ transition_texts t @ ?ev" by (simp add: p_def transition_payload_parts)
  note r = transition_fixed_reads [OF ty pp]
  note ok = ty [unfolded transition_typed_def]
  have lp: "length p < usize_limit" using lim by (simp add: p_def)
  have tl: "unat (of_nat (length v) :: u32) = length v"
    if "v \<in> {tt_record_id t, tt_policy_id t, tt_policy_version t, tt_verifier_id t, tt_reason_code t, ?s}" for v
    using ok that by (auto intro: text_length)
  define c1 where "c1 = length (?fx @ tt_record_id t)"
  define c2 where "c2 = length (?fx @ tt_record_id t @ tt_policy_id t)"
  define c3 where "c3 = length (?fx @ tt_record_id t @ tt_policy_id t @ tt_policy_version t)"
  define c4 where "c4 = length (?fx @ tt_record_id t @ tt_policy_id t @ tt_policy_version t @ tt_verifier_id t)"
  define c5 where "c5 = length (?fx @ tt_record_id t @ tt_policy_id t @ tt_policy_version t @ tt_verifier_id t
     @ tt_reason_code t)"
  define c6 where "c6 = length (?fx @ transition_texts t)"
  have rd: "trust_read_string p 144 (unat (of_nat (length (tt_record_id t)) :: u32)) ctx = Inr (tt_record_id t, c1)"
    "trust_read_string p c1 (unat (of_nat (length (tt_policy_id t)) :: u32)) ctx = Inr (tt_policy_id t, c2)"
    "trust_read_string p c2 (unat (of_nat (length (tt_policy_version t)) :: u32)) ctx = Inr (tt_policy_version t, c3)"
    "trust_read_string p c3 (unat (of_nat (length (tt_verifier_id t)) :: u32)) ctx = Inr (tt_verifier_id t, c4)"
    "trust_read_string p c4 (unat (of_nat (length (tt_reason_code t)) :: u32)) ctx = Inr (tt_reason_code t, c5)"
    "trust_read_string p c5 (unat (of_nat (length ?s) :: u32)) ctx = Inr (?s, c6)" for ctx
    using ok lp length_transition_fixed [OF ty]
    by (simp_all add: tl trust_read_string_iff text_ok_def pp transition_texts_def c1_def c2_def c3_def c4_def
        c5_def c6_def)
  have "decode_evidence (length (tt_evidence_refs t)) p (length (?fx @ transition_texts t)) =
     Inr (tt_evidence_refs t, length ((?fx @ transition_texts t) @ ?ev))"
    by (rule decode_evidence_ok [where rest = "[]"]) (use ok lp in \<open>simp_all add: pp\<close>)
  then have ev: "decode_evidence (length (tt_evidence_refs t)) p c6 = Inr (tt_evidence_refs t, length p)"
    by (simp add: c6_def pp)
  have n: "unat (of_nat (length (tt_evidence_refs t)) :: u32) = length (tt_evidence_refs t)"
    using ok by (simp add: MAX_EVIDENCE_REFS_def unat_of_nat)
  have sup: "(if ?s = [] then None else Some ?s) = tt_superseding_record_id t"
    using ok by (auto simp: superseding_text_def split: option.splits)
  have "\<not> length p < 144" using length_transition_fixed [OF ty] by (simp add: pp)
  then show ?thesis
    unfolding p_def [symmetric] trust_decode_payload_def
    using ok by (simp add: r rd n ev sup)
qed

lemma bytes_at: "i + 6 \<le> length p \<Longrightarrow> take 6 (drop i p) = [p ! i, p ! (i + 1), p ! (i + 2), p ! (i + 3), p ! (i + 4), p ! (i + 5)]"
  by (simp add: list_eq_iff_nth_eq nth_Cons' less_Suc_eq numeral_eq_Suc)

lemma payload_fields:
  assumes "144 \<le> length p"
  shows "take 144 p = take 8 p @ [p ! 8, p ! 9, p ! 10, p ! 11, p ! 12, p ! 13] @ take 2 (drop 14 p)
     @ take 4 (drop 16 p) @ take 4 (drop 20 p) @ take 4 (drop 24 p) @ take 4 (drop 28 p) @ take 4 (drop 32 p)
     @ take 4 (drop 36 p) @ take 4 (drop 40 p) @ take 4 (drop 44 p)
     @ take 32 (drop 48 p) @ take 32 (drop 80 p) @ take 32 (drop 112 p)"
proof -
  have b: "[p ! 8, p ! 9, p ! 10, p ! 11, p ! 12, p ! 13] = take 6 (drop 8 p)"
    using bytes_at [of 8 p] assms by simp
  have "(144 :: nat) = 8 + (6 + (2 + (4 + (4 + (4 + (4 + (4 + (4 + (4 + (4 + (32 + (32 + 32))))))))))))" by simp
  then show ?thesis unfolding b by (simp only: take_add drop_drop) simp
qed

lemma u32_field: "off + 4 \<le> length p \<Longrightarrow> u32_le (from_le (take 4 (drop off p))) = take 4 (drop off p)"
  by (simp add: uN_le_from_le)

lemma decode_payload_sound:
  assumes d: "trust_decode_payload s ts tid prev p = Inr t" and lim: "length p < usize_limit"
  shows "p = transition_payload t" and "transition_typed t" and "tt_sequence t = s"
    and "tt_logical_timestamp t = ts" and "tt_transition_id t = tid" and "tt_previous_transition_digest t = prev"
proof -
  from d obtain op au ps m v z16 n1 n2 n3 n4 n5 n6 n7 z32 d1 d2 d3 s1 c1 s2 c2 s3 c3 s4 c4 s5 c5 s6 c6 ev c7
    where len': "\<not> length p < 144" and magic': "\<not> slice p 0 8 \<noteq> PAYLOAD_MAGIC"
    and codes: "trust_operation_from_code (p ! 8) = Inr op" "authority_from_code (p ! 9) = Inr au"
      "decode_optional_state (p ! 10) (p ! 11) = Inr ps" "maturity_from_code (p ! 12) = Inr m"
      "validity_from_code (p ! 13) = Inr v"
    and words: "trust_read_u16 p 14 = Inr z16" "trust_read_u32 p 16 = Inr n1" "trust_read_u32 p 20 = Inr n2"
      "trust_read_u32 p 24 = Inr n3" "trust_read_u32 p 28 = Inr n4" "trust_read_u32 p 32 = Inr n5"
      "trust_read_u32 p 36 = Inr n6" "trust_read_u32 p 40 = Inr n7" "trust_read_u32 p 44 = Inr z32"
      "trust_read_digest p 48 = Inr d1" "trust_read_digest p 80 = Inr d2" "trust_read_digest p 112 = Inr d3"
    and zero': "\<not> z16 \<noteq> 0" "\<not> z32 \<noteq> 0" and cnt': "\<not> MAX_EVIDENCE_REFS < unat n7"
    and texts: "trust_read_string p 144 (unat n1) (lit ''record_id'') = Inr (s1, c1)"
      "trust_read_string p c1 (unat n2) (lit ''policy_id'') = Inr (s2, c2)"
      "trust_read_string p c2 (unat n3) (lit ''policy_version'') = Inr (s3, c3)"
      "trust_read_string p c3 (unat n4) (lit ''verifier_id'') = Inr (s4, c4)"
      "trust_read_string p c4 (unat n5) (lit ''reason_code'') = Inr (s5, c5)"
      "trust_read_string p c5 (unat n6) (lit ''superseding_record_id'') = Inr (s6, c6)"
    and evd': "decode_evidence (unat n7) p c6 = Inr (ev, c7)" and fin': "\<not> c7 \<noteq> length p"
    and t': "Inr \<lparr>tt_sequence = s, tt_logical_timestamp = ts, tt_transition_id = tid, tt_record_id = s1,
       tt_previous_state = ps, tt_next_state = \<lparr>ts_maturity = m, ts_validity = v\<rparr>, tt_operation = op,
       tt_authority = au, tt_evidence_refs = ev, tt_policy_id = s2, tt_policy_version = s3,
       tt_verifier_id = s4, tt_record_digest = d1, tt_input_digest = d2, tt_decision_digest = d3,
       tt_reason_code = s5, tt_superseding_record_id = (if s6 = [] then None else Some s6),
       tt_previous_transition_digest = prev\<rparr> = (Inr t :: trust_error + trust_transition)"
    unfolding trust_decode_payload_def
    unfolding guard_eq_Inr_iff rbind_eq_Inr_iff split_paired_Ex prod.case
    by (elim exE conjE) (rule that; assumption)
  note t = t' [unfolded sum.inject, symmetric]
  have len: "144 \<le> length p" and magic: "slice p 0 8 = PAYLOAD_MAGIC" and zero: "z16 = 0" "z32 = 0"
    and cnt: "unat n7 \<le> MAX_EVIDENCE_REFS" and evd: "decode_evidence (unat n7) p c6 = Inr (ev, length p)"
    using len' magic' zero' cnt' fin' evd' by simp_all
  show "tt_sequence t = s" "tt_logical_timestamp t = ts" "tt_transition_id t = tid"
    "tt_previous_transition_digest t = prev" by (simp_all add: t)
  note w = words [unfolded trust_read_iff] and x = texts [unfolded trust_read_string_iff]
  have cs: "c1 = 144 + unat n1" "c2 = c1 + unat n2" "c3 = c2 + unat n3" "c4 = c3 + unat n4" "c5 = c4 + unat n5"
    "c6 = c5 + unat n6" "c6 \<le> length p" using x by simp_all
  have ls: "length s1 = unat n1" "length s2 = unat n2" "length s3 = unat n3" "length s4 = unat n4"
    "length s5 = unat n5" "length s6 = unat n6" using x by auto
  have es: "length ev = unat n7" "list_all evidence_ok ev" "drop c6 p = concat (map evidence_bytes ev)"
    using decode_evidence_sound [OF evd] cs(7) by auto
  have s6: "superseding_text (tt_superseding_record_id t) = s6" by (simp add: t superseding_text_def)
  have tx: "transition_texts t = s1 @ s2 @ s3 @ s4 @ s5 @ s6"
    unfolding transition_texts_def s6 by (simp add: t)
  have le: "u16_le z16 = take 2 (drop 14 p)" "u32_le n1 = take 4 (drop 16 p)" "u32_le n2 = take 4 (drop 20 p)"
    "u32_le n3 = take 4 (drop 24 p)" "u32_le n4 = take 4 (drop 28 p)" "u32_le n5 = take 4 (drop 32 p)"
    "u32_le n6 = take 4 (drop 36 p)" "u32_le n7 = take 4 (drop 40 p)" "u32_le z32 = take 4 (drop 44 p)"
    using w len by (auto simp: uN_le_from_le)
  note cd = trust_codes_inv(3) [OF codes(1)] trust_codes_inv(4) [OF codes(2)] trust_codes_inv(1) [OF codes(4)]
    trust_codes_inv(2) [OF codes(5)]
  have fx: "transition_fixed t = take 144 p"
    unfolding transition_fixed_def payload_fields [OF len] s6
    using w magic optional_state_inv [OF codes(3)]
    by (simp add: t cd ls es(1) slice_def flip: le zero)
  have "drop 144 p = s1 @ s2 @ s3 @ s4 @ s5 @ s6 @ drop c6 p"
    using x cs by (simp add: field_join)
  then show "p = transition_payload t"
    unfolding transition_payload_parts fx tx using es(3) by (metis append_assoc append_take_drop_id t trust_transition.select_convs(9))
  show "transition_typed t"
  proof -
    have "text_ok s1" "text_ok s2" "text_ok s3" "text_ok s4" "text_ok s5" "text_ok s6"
      using x ls unfolding text_ok_def by metis+
    moreover have "length d1 = 32" "length d2 = 32" "length d3 = 32" using w(10-12) by auto
    ultimately show ?thesis
      using es(1,2) cnt unfolding transition_typed_def s6 by (simp add: t)
  qed
qed

end
