(* ===== verification/Ub_Ledger.thy ===== *)
theory Ub_Ledger
  imports Ub_Trust
begin

text \<open>
  What the trust ledger guarantees. The file of a ledger is the concatenation of the frames of
  its transitions; replay accepts exactly the files that a sequence of admitted transitions
  writes, and rebuilds the ledger that wrote them.
\<close>

subsection \<open>Frames\<close>

definition transition_frame :: "trust_transition \<Rightarrow> bytes" where
  "transition_frame t = trust_frame_bytes (tt_sequence t) (tt_logical_timestamp t)
     (tt_previous_transition_digest t) (sha256 (transition_payload t)) (tt_transition_id t) (transition_payload t)"

text \<open>
  The transition a ledger would record next: every field that is not chosen by the caller is
  determined by the ledger, and the rules admit it.
\<close>

definition ledger_admits :: "trust_ledger \<Rightarrow> trust_transition \<Rightarrow> bool" where
  "ledger_admits l t \<longleftrightarrow> transition_typed t \<and> tt_sequence t = of_nat (length (tl_transitions l)) + 1 \<and>
     tl_last_timestamp l < tt_logical_timestamp t \<and> tt_previous_transition_digest t = tl_head_digest l \<and>
     length (tl_head_digest l) = 32 \<and>
     tt_transition_id t = compute_transition_digest (tt_sequence t) (tt_logical_timestamp t)
       (tl_head_digest l) (sha256 (transition_payload t)) \<and>
     tt_previous_state t = ledger_state_of l (tt_record_id t) \<and>
     validate_semantic_transition (tl_states l) (tt_previous_state t) (intent_of t) = Inr (tt_next_state t) \<and>
     tt_input_digest t = compute_input_digest (intent_of t) \<and>
     tt_decision_digest t = compute_decision_digest (tt_input_digest t) (tt_previous_state t) (tt_next_state t) \<and>
     length (transition_payload t) \<le> MAX_PAYLOAD_BYTES"

definition push_state :: "trust_states \<Rightarrow> trust_transition \<Rightarrow> trust_states" where
  "push_state states t = bt_insert (tt_record_id t)
     \<lparr>sn_record_id = (case bt_get states (tt_record_id t) of Some s \<Rightarrow> sn_record_id s | None \<Rightarrow> tt_record_id t),
      sn_state = tt_next_state t, sn_record_digest = tt_record_digest t,
      sn_last_transition_id = tt_transition_id t, sn_last_sequence = tt_sequence t,
      sn_superseding_record_id = tt_superseding_record_id t\<rparr> states"

definition ledger_push :: "trust_ledger \<Rightarrow> trust_transition \<Rightarrow> trust_ledger" where
  "ledger_push l t = l\<lparr>tl_states := push_state (tl_states l) t, tl_last_timestamp := tt_logical_timestamp t,
     tl_head_digest := tt_transition_id t, tl_transitions := tl_transitions l @ [t]\<rparr>"

lemma intent_of_simps [simp]:
  "ti_record_id (intent_of t) = tt_record_id t" "ti_operation (intent_of t) = tt_operation t"
  "ti_authority (intent_of t) = tt_authority t" "ti_record_digest (intent_of t) = tt_record_digest t"
  "ti_superseding_record_id (intent_of t) = tt_superseding_record_id t"
  "ti_logical_timestamp (intent_of t) = tt_logical_timestamp t"
  "ti_evidence_refs (intent_of t) = tt_evidence_refs t"
  by (simp_all add: intent_of_def)

text \<open>What the rules admit, by operation.\<close>

fun trust_move :: "trust_operation \<Rightarrow> trust_state option \<Rightarrow> trust_state \<Rightarrow> bool" where
  "trust_move Propose prev next \<longleftrightarrow> prev = None \<and> next = raw_active"
| "trust_move Promote prev next \<longleftrightarrow> (\<exists>s m. prev = Some s \<and> ts_validity s = Valid_Active \<and>
     maturity_next (ts_maturity s) = Some m \<and> next = \<lparr>ts_maturity = m, ts_validity = Valid_Active\<rparr>)"
| "trust_move Dispute prev next \<longleftrightarrow> (\<exists>s. prev = Some s \<and> ts_validity s = Valid_Active \<and>
     next = \<lparr>ts_maturity = ts_maturity s, ts_validity = Disputed\<rparr>)"
| "trust_move Revoke prev next \<longleftrightarrow> (\<exists>s. prev = Some s \<and> \<not> terminal_validity (ts_validity s) \<and>
     next = \<lparr>ts_maturity = ts_maturity s, ts_validity = Revoked\<rparr>)"
| "trust_move Expire prev next \<longleftrightarrow> (\<exists>s. prev = Some s \<and> ts_validity s \<in> {Valid_Active, Disputed} \<and>
     next = \<lparr>ts_maturity = ts_maturity s, ts_validity = Expired\<rparr>)"
| "trust_move Supersede prev next \<longleftrightarrow> (\<exists>s. prev = Some s \<and> \<not> terminal_validity (ts_validity s) \<and>
     next = \<lparr>ts_maturity = ts_maturity s, ts_validity = Superseded\<rparr>)"

definition superseding_ok :: "trust_states \<Rightarrow> transition_intent \<Rightarrow> bool" where
  "superseding_ok states i \<longleftrightarrow> (if ti_operation i = Supersede
     then \<exists>s sn. ti_superseding_record_id i = Some s \<and> s \<noteq> [] \<and> s \<noteq> ti_record_id i \<and>
        bt_get states s = Some sn \<and> \<not> terminal_validity (ts_validity (sn_state sn))
     else ti_superseding_record_id i = None)"

lemmas trust_arm_defs = trust_propose_def trust_promote_def trust_dispute_def trust_revoke_def
  trust_expire_def trust_supersede_def no_superseding_def require_current_def

lemma validate_semantic_iff:
  "validate_semantic_transition states prev i = Inr next \<longleftrightarrow>
     validate_common_intent i = Inr () \<and> authority_allowed (ti_authority i) (ti_operation i) \<and>
     (\<forall>sn. bt_get states (ti_record_id i) = Some sn \<longrightarrow> sn_record_digest sn = ti_record_digest i) \<and>
     trust_move (ti_operation i) prev next \<and> superseding_ok states i"
  unfolding validate_semantic_transition_def
  by (cases "ti_operation i"; cases prev)
    (auto simp: rbind_eq_Inr_iff trust_arm_defs superseding_ok_def split: if_splits option.splits)

lemma trust_move_tracked: "trust_move x prev next \<Longrightarrow> x = Propose \<longleftrightarrow> prev = None"
  by (cases x) auto

lemma apply_replayed_valid:
  assumes "tt_previous_state t = ledger_state_of l (tt_record_id t)"
    and "validate_semantic_transition (tl_states l) (tt_previous_state t) (intent_of t) = Inr (tt_next_state t)"
  shows "apply_replayed_transition (tl_states l) t = Inr (push_state (tl_states l) t)"
proof -
  let ?m = "bt_get (tl_states l) (tt_record_id t)"
  have v: "trust_move (tt_operation t) (map_option sn_state ?m) (tt_next_state t)"
    "\<forall>sn. ?m = Some sn \<longrightarrow> sn_record_digest sn = tt_record_digest t"
    using assms by (auto simp: validate_semantic_iff ledger_state_of_def)
  show ?thesis
  proof (cases ?m)
    case None
    then show ?thesis using trust_move_tracked [OF v(1)]
      by (simp add: apply_replayed_transition_def push_state_def)
  next
    case (Some sn)
    then have "tt_operation t \<noteq> Propose" using trust_move_tracked [OF v(1)] by simp
    then show ?thesis using v(2) Some
      by (cases sn) (simp add: apply_replayed_transition_def push_state_def)
  qed
qed

lemma replay_transition_ok:
  assumes a: "ledger_admits l t"
  shows "replay_transition l (tt_sequence t) (tt_logical_timestamp t) (tt_previous_transition_digest t)
     (sha256 (transition_payload t)) (tt_transition_id t) (transition_payload t) = Inr (ledger_push l t)"
proof -
  have "length (transition_payload t) < usize_limit"
    using a by (simp add: ledger_admits_def MAX_PAYLOAD_BYTES_def usize_limit_def)
  then have d: "trust_decode_payload (tt_sequence t) (tt_logical_timestamp t) (tt_transition_id t)
     (tt_previous_transition_digest t) (transition_payload t) = Inr t"
    using a by (intro decode_payload_ok) (auto simp: ledger_admits_def)
  show ?thesis
    using a apply_replayed_valid [of t l] d
    by (auto simp: replay_transition_def ledger_admits_def Let_def ledger_push_def)
qed

lemma replay_transition_sound:
  assumes r: "replay_transition l s ts prev ph tid p = Inr l'" and lim: "length p \<le> MAX_PAYLOAD_BYTES"
    and h: "length (tl_head_digest l) = 32"
  obtains t where "p = transition_payload t" and "s = tt_sequence t" and "ts = tt_logical_timestamp t"
    and "prev = tt_previous_transition_digest t" and "ph = sha256 p" and "tid = tt_transition_id t"
    and "ledger_admits l t" and "l' = ledger_push l t"
proof -
  obtain t where d: "trust_decode_payload s ts tid prev p = Inr t"
    using r by (auto simp: replay_transition_def Let_def rbind_eq_Inr_iff split: if_splits)
  have "length p < usize_limit" using lim by (simp add: MAX_PAYLOAD_BYTES_def usize_limit_def)
  note t = decode_payload_sound [OF d this]
  have ph: "ph = sha256 p" using r by (auto simp: replay_transition_def Let_def split: if_splits)
  have a: "ledger_admits l t"
    using r d t lim h
    by (auto simp: replay_transition_def Let_def rbind_eq_Inr_iff ledger_admits_def split: if_splits)
  have "l' = ledger_push l t" using r replay_transition_ok [OF a] t ph by simp
  with that t ph a show thesis by blast
qed

lemma length_ledger_magic [simp]: "length LEDGER_MAGIC = 8"
  by (simp add: LEDGER_MAGIC_def lit_def)

lemma admits_digests:
  assumes "ledger_admits l t"
  shows "length (tt_previous_transition_digest t) = 32" and "length (tt_transition_id t) = 32"
  using assms by (auto simp: ledger_admits_def compute_transition_digest_def)

lemma length_transition_frame:
  assumes "ledger_admits l t"
  shows "length (transition_frame t) = 144 + length (transition_payload t)"
  using admits_digests [OF assms] by (simp add: transition_frame_def trust_frame_bytes_def)

lemma frame_header:
  assumes a: "ledger_admits l t"
  defines "h \<equiv> take 144 (transition_frame t)"
  shows "slice h 0 8 = LEDGER_MAGIC" "trust_read_u16 h 8 = Inr LEDGER_MAJOR" "trust_read_u16 h 10 = Inr LEDGER_MINOR"
    "trust_read_u32 h 12 = Inr 144" "trust_read_u64 h 16 = Inr (tt_sequence t)"
    "trust_read_u64 h 24 = Inr (tt_logical_timestamp t)"
    "trust_read_u64 h 32 = Inr (of_nat (length (transition_payload t)))"
    "trust_read_digest h 40 = Inr (tt_previous_transition_digest t)"
    "trust_read_digest h 72 = Inr (sha256 (transition_payload t))"
    "trust_read_digest h 104 = Inr (tt_transition_id t)" "slice h 136 144 = replicate 8 0"
    "unat (of_nat (length (transition_payload t)) :: u64) = length (transition_payload t)"
    "length (transition_payload t) \<le> MAX_PAYLOAD_BYTES"
    "transition_frame t = h @ transition_payload t"
proof -
  let ?p = "transition_payload t"
  have d: "length (tt_previous_transition_digest t) = 32" "length (tt_transition_id t) = 32"
    by (rule admits_digests [OF a])+
  show lp: "length ?p \<le> MAX_PAYLOAD_BYTES" using a by (simp add: ledger_admits_def)
  then show "unat (of_nat (length ?p) :: u64) = length ?p"
    by (simp add: unat_of_nat MAX_PAYLOAD_BYTES_def)
  have h: "h = LEDGER_MAGIC @ u16_le LEDGER_MAJOR @ u16_le LEDGER_MINOR @ u32_le 144 @ u64_le (tt_sequence t)
     @ u64_le (tt_logical_timestamp t) @ u64_le (of_nat (length ?p)) @ tt_previous_transition_digest t
     @ sha256 ?p @ tt_transition_id t @ replicate 8 0"
    using d by (simp add: h_def transition_frame_def trust_frame_bytes_def)
  show "slice h 0 8 = LEDGER_MAGIC" "trust_read_u16 h 8 = Inr LEDGER_MAJOR" "trust_read_u16 h 10 = Inr LEDGER_MINOR"
    "trust_read_u32 h 12 = Inr 144" "trust_read_u64 h 16 = Inr (tt_sequence t)"
    "trust_read_u64 h 24 = Inr (tt_logical_timestamp t)" "trust_read_u64 h 32 = Inr (of_nat (length ?p))"
    "trust_read_digest h 40 = Inr (tt_previous_transition_digest t)" "trust_read_digest h 72 = Inr (sha256 ?p)"
    "trust_read_digest h 104 = Inr (tt_transition_id t)" "slice h 136 144 = replicate 8 0"
    "transition_frame t = h @ ?p"
    using d by (simp_all add: h trust_read_iff slice_def usize_limit_def transition_frame_def trust_frame_bytes_def)
qed

lemma replay_bytes_frame:
  assumes a: "ledger_admits l t" and off: "off + length (transition_frame t) < usize_limit"
  shows "replay_bytes l off (transition_frame t @ rest) =
     replay_bytes (ledger_push l t) (off + length (transition_frame t)) rest"
proof -
  let ?p = "transition_payload t" and ?h = "take 144 (transition_frame t)"
  note h = frame_header [OF a] and len = length_transition_frame [OF a]
  have c: "checked_add (off + 144) (length ?p) = Some (off + length (transition_frame t))"
    using off len by (simp add: checked_add_def)
  have d: "take (length ?p) (drop 144 (transition_frame t)) = ?p" by (subst h(14)) (simp add: len)
  show ?thesis
    by (subst replay_bytes.simps)
      (use h(13) in \<open>simp add: len Let_def h(1-12) c [unfolded len] d replay_transition_ok [OF a]\<close>)
qed

lemma header_fields:
  assumes "length h = 144"
  shows "h = take 8 h @ take 2 (drop 8 h) @ take 2 (drop 10 h) @ take 4 (drop 12 h) @ take 8 (drop 16 h)
     @ take 8 (drop 24 h) @ take 8 (drop 32 h) @ take 32 (drop 40 h) @ take 32 (drop 72 h)
     @ take 32 (drop 104 h) @ take 8 (drop 136 h)"
proof -
  have "(144 :: nat) = 8 + (2 + (2 + (4 + (8 + (8 + (8 + (32 + (32 + (32 + 8)))))))))" by simp
  then have "take 144 h = take (8 + (2 + (2 + (4 + (8 + (8 + (8 + (32 + (32 + (32 + 8)))))))))) h" by (rule arg_cong)
  then show ?thesis using assms by (simp only: take_add drop_drop) simp
qed

lemma replay_bytes_sound:
  assumes run: "replay_bytes l off bs = Inr l'" and ne: "bs \<noteq> []" and h: "length (tl_head_digest l) = 32"
  shows "\<exists>t rest. bs = transition_frame t @ rest \<and> ledger_admits l t \<and>
     off + length (transition_frame t) < usize_limit"
proof -
  let ?h = "take 144 bs"
  note v = trans [OF replay_bytes.simps [symmetric] run]
  from v ne obtain z1 z2 z3 s ts n prev ph tid fe l1 where len: "144 \<le> length bs"
    and r: "slice ?h 0 8 = LEDGER_MAGIC" "trust_read_u16 ?h 8 = Inr z1" "trust_read_u16 ?h 10 = Inr z2"
      "trust_read_u32 ?h 12 = Inr z3" "trust_read_u64 ?h 16 = Inr s" "trust_read_u64 ?h 24 = Inr ts"
      "trust_read_u64 ?h 32 = Inr n" "trust_read_digest ?h 40 = Inr prev" "trust_read_digest ?h 72 = Inr ph"
      "trust_read_digest ?h 104 = Inr tid" "slice ?h 136 144 = replicate 8 0"
    and z: "z1 = LEDGER_MAJOR" "z2 = LEDGER_MINOR" "z3 = 144" and n: "unat n \<le> MAX_PAYLOAD_BYTES"
    and fe: "checked_add (off + 144) (unat n) = Some fe" "144 + unat n \<le> length bs"
    and rt: "replay_transition l s ts prev ph tid (take (unat n) (drop 144 bs)) = Inr l1"
    by (auto simp: Let_def rbind_eq_Inr_iff split: if_splits)
  let ?p = "take (unat n) (drop 144 bs)"
  have lp: "length ?p = unat n" using fe(2) by simp
  obtain t where t: "?p = transition_payload t" "s = tt_sequence t" "ts = tt_logical_timestamp t"
    "prev = tt_previous_transition_digest t" "ph = sha256 ?p" "tid = tt_transition_id t" and a: "ledger_admits l t"
    using replay_transition_sound [OF rt _ h] lp n by metis
  have lh: "length ?h = 144" using len by simp
  note w = r(2-10) [unfolded trust_read_iff]
  have le: "u16_le z1 = take 2 (drop 8 ?h)" "u16_le z2 = take 2 (drop 10 ?h)" "u32_le z3 = take 4 (drop 12 ?h)"
    "u64_le s = take 8 (drop 16 ?h)" "u64_le ts = take 8 (drop 24 ?h)" "u64_le n = take 8 (drop 32 ?h)"
    using w lh by (auto simp: uN_le_from_le)
  have "?h = LEDGER_MAGIC @ u16_le LEDGER_MAJOR @ u16_le LEDGER_MINOR @ u32_le 144 @ u64_le s @ u64_le ts @ u64_le n
     @ prev @ ph @ tid @ replicate 8 0"
    using header_fields [OF lh] w(7-9) r(1,11) by (simp add: slice_def flip: le z)
  moreover have "of_nat (length ?p) = n" using lp by simp
  ultimately have "transition_frame t = ?h @ ?p"
    unfolding transition_frame_def trust_frame_bytes_def t(1) [symmetric] using t(2-6) by simp
  moreover have "bs = (?h @ ?p) @ drop (144 + unat n) bs" by (simp add: field_join)
  moreover have "off + length (transition_frame t) < usize_limit"
    using fe(1) calculation(1) lh lp by (simp add: checked_add_Some_iff)
  ultimately show ?thesis using a by metis
qed

subsection \<open>Histories\<close>

interpretation trust_file: ledger_file replay_bytes ledger_push transition_frame ledger_admits
  "\<lambda>l. length (tl_head_digest l) = 32"
proof unfold_locales
  show "replay_bytes l off [] = Inr l" for l off by (simp add: replay_bytes.simps)
  show "ledger_admits l t \<Longrightarrow> transition_frame t \<noteq> []" for l t using length_transition_frame by fastforce
  show "ledger_admits l t \<Longrightarrow> length (tl_head_digest (ledger_push l t)) = 32" for l t
    by (auto simp: ledger_push_def dest: admits_digests)
  show "\<exists>t rest. bs = transition_frame t @ rest \<and> ledger_admits l t \<and> off + length (transition_frame t) < usize_limit"
    if "length (tl_head_digest l) = 32" "replay_bytes l off bs = Inr l'" "bs \<noteq> []" for l off bs l'
    by (rule replay_bytes_sound [OF that(2,3,1)])
qed (simp add: replay_bytes_frame)

definition ledger_bytes :: "trust_transition list \<Rightarrow> bytes" where
  "ledger_bytes ts = concat (map transition_frame ts)"

definition ledger_of :: "path \<Rightarrow> trust_transition list \<Rightarrow> trust_ledger" where
  "ledger_of p ts = foldl ledger_push (empty_ledger p) ts"

definition ledger_history :: "path \<Rightarrow> trust_transition list \<Rightarrow> bool" where
  "ledger_history p ts \<longleftrightarrow> trust_file.history (empty_ledger p) ts"

lemmas file_facts = ledger_history_def ledger_of_def ledger_bytes_def trust_file.file_bytes_def

lemma ledger_history_snoc:
  "ledger_history p (ts @ [t]) \<longleftrightarrow> ledger_history p ts \<and> ledger_admits (ledger_of p ts) t \<and>
     length (ledger_bytes (ts @ [t])) < usize_limit"
  by (simp add: file_facts trust_file.file_history_snoc)

lemma ledger_history_Nil [simp]: "ledger_history p []"
  by (simp add: file_facts trust_file.file_history_Nil)

lemma ledger_of_simps [simp]:
  "ledger_of p [] = empty_ledger p" "ledger_of p (ts @ [t]) = ledger_push (ledger_of p ts) t"
  by (simp_all add: ledger_of_def)

lemma ledger_of_fields [simp]: "tl_path (ledger_of p ts) = p" "tl_transitions (ledger_of p ts) = ts"
  by (induction ts rule: rev_induct) (simp_all add: ledger_push_def empty_ledger_def)

lemma ledger_head_length:
  "ledger_history p ts \<Longrightarrow> length (tl_head_digest (ledger_of p ts)) = 32"
  by (cases ts rule: rev_cases) (auto simp: ledger_history_snoc empty_ledger_def trust_file.good_push)

lemma replay_history: "ledger_history p ts \<Longrightarrow> replay_bytes (empty_ledger p) 0 (ledger_bytes ts) = Inr (ledger_of p ts)"
  using trust_file.file_replay_history by (simp add: file_facts)

lemma replay_accepts:
  "replay_bytes (empty_ledger p) 0 bs = Inr l \<Longrightarrow> \<exists>ts. ledger_history p ts \<and> bs = ledger_bytes ts \<and> l = ledger_of p ts"
  using trust_file.file_replay_accepts [of "empty_ledger p" bs l] by (simp add: file_facts empty_ledger_def)

subsection \<open>Applying an intent\<close>

text \<open>What the types of Rust guarantee of an intent.\<close>

definition evidence_typed :: "evidence_ref \<Rightarrow> bool" where
  "evidence_typed e \<longleftrightarrow> utf8_valid (er_evidence_id e) \<and> utf8_valid (er_provenance_id e) \<and>
     length (er_evidence_digest e) = 32"

definition intent_typed :: "transition_intent \<Rightarrow> bool" where
  "intent_typed i \<longleftrightarrow> utf8_valid (ti_record_id i) \<and> utf8_valid (ti_policy_id i) \<and>
     utf8_valid (ti_policy_version i) \<and> utf8_valid (ti_verifier_id i) \<and> utf8_valid (ti_reason_code i) \<and>
     (\<forall>s. ti_superseding_record_id i = Some s \<longrightarrow> utf8_valid s) \<and>
     length (ti_record_digest i) = 32 \<and> list_all evidence_typed (ti_evidence_refs i)"

definition planned_transition :: "trust_ledger \<Rightarrow> transition_intent \<Rightarrow> trust_state \<Rightarrow> trust_transition" where
  "planned_transition l i nxt =
     (let prev = ledger_state_of l (ti_record_id i); inp = compute_input_digest i;
          dec = compute_decision_digest inp prev nxt; seqno = of_nat (length (tl_transitions l)) + 1 in
      \<lparr>tt_sequence = seqno, tt_logical_timestamp = ti_logical_timestamp i,
       tt_transition_id = compute_transition_digest seqno (ti_logical_timestamp i) (tl_head_digest l)
         (sha256 (trust_payload_bytes prev nxt inp dec i)),
       tt_record_id = ti_record_id i, tt_previous_state = prev, tt_next_state = nxt,
       tt_operation = ti_operation i, tt_authority = ti_authority i,
       tt_evidence_refs = ti_evidence_refs i, tt_policy_id = ti_policy_id i,
       tt_policy_version = ti_policy_version i, tt_verifier_id = ti_verifier_id i,
       tt_record_digest = ti_record_digest i, tt_input_digest = inp,
       tt_decision_digest = dec, tt_reason_code = ti_reason_code i,
       tt_superseding_record_id = ti_superseding_record_id i,
       tt_previous_transition_digest = tl_head_digest l\<rparr>)"

lemma intent_of_planned [simp]: "intent_of (planned_transition l i nxt) = i"
  by (cases i) (simp add: planned_transition_def intent_of_def Let_def)

lemma planned_fields [simp]:
  "tt_record_id (planned_transition l i nxt) = ti_record_id i"
  "tt_operation (planned_transition l i nxt) = ti_operation i"
  "tt_next_state (planned_transition l i nxt) = nxt"
  "tt_previous_state (planned_transition l i nxt) = ledger_state_of l (ti_record_id i)"
  "tt_logical_timestamp (planned_transition l i nxt) = ti_logical_timestamp i"
  "tt_record_digest (planned_transition l i nxt) = ti_record_digest i"
  by (simp_all add: planned_transition_def Let_def)

lemma planned_digests:
  "tt_sequence (planned_transition l i nxt) = of_nat (length (tl_transitions l)) + 1"
  "tt_input_digest (planned_transition l i nxt) = compute_input_digest i"
  "tt_decision_digest (planned_transition l i nxt) =
     compute_decision_digest (compute_input_digest i) (ledger_state_of l (ti_record_id i)) nxt"
  "tt_previous_transition_digest (planned_transition l i nxt) = tl_head_digest l"
  by (simp_all add: planned_transition_def Let_def)

lemma planned_payload:
  "transition_payload (planned_transition l i nxt) =
     trust_payload_bytes (ledger_state_of l (ti_record_id i)) nxt (compute_input_digest i)
       (compute_decision_digest (compute_input_digest i) (ledger_state_of l (ti_record_id i)) nxt) i"
  by (simp add: transition_payload_def planned_digests)

lemma planned_id:
  "tt_transition_id (planned_transition l i nxt) =
     compute_transition_digest (of_nat (length (tl_transitions l)) + 1) (ti_logical_timestamp i) (tl_head_digest l)
       (sha256 (transition_payload (planned_transition l i nxt)))"
  unfolding planned_payload by (simp add: planned_transition_def Let_def)

lemma admitted_is_planned: "ledger_admits l t \<Longrightarrow> t = planned_transition l (intent_of t) (tt_next_state t)"
  by (cases t) (simp add: planned_transition_def Let_def ledger_admits_def transition_payload_def intent_of_def)

lemma validate_string_ok: "validate_string n v = Inr u \<longleftrightarrow> v \<noteq> [] \<and> length v \<le> MAX_STRING_BYTES"
  by (auto simp: validate_string_def split: if_splits)

lemma validate_evidence_ok:
  "validate_evidence seen es = Inr u \<Longrightarrow> list_all evidence_typed es \<Longrightarrow> list_all evidence_ok es"
  by (induction seen es rule: validate_evidence.induct)
    (auto simp: rbind_eq_Inr_iff validate_string_ok evidence_ok_def evidence_typed_def text_ok_def split: if_splits)

lemma planned_typed:
  assumes c: "validate_common_intent i = Inr ()" and ty: "intent_typed i"
  shows "transition_typed (planned_transition l i nxt)"
proof -
  have s: "ti_superseding_record_id i = None \<or>
      (\<exists>s. ti_superseding_record_id i = Some s \<and> s \<noteq> [] \<and> length s \<le> MAX_STRING_BYTES)"
    and t: "length (ti_record_id i) \<le> MAX_STRING_BYTES" "length (ti_policy_id i) \<le> MAX_STRING_BYTES"
      "length (ti_policy_version i) \<le> MAX_STRING_BYTES" "length (ti_verifier_id i) \<le> MAX_STRING_BYTES"
      "length (ti_reason_code i) \<le> MAX_STRING_BYTES" "length (ti_evidence_refs i) \<le> MAX_EVIDENCE_REFS"
    and e: "list_all evidence_ok (ti_evidence_refs i)"
    using c ty validate_evidence_ok unfolding validate_common_intent_def intent_typed_def
    by (auto simp: rbind_eq_Inr_iff validate_string_ok split: if_splits option.splits)
  from s t e ty show ?thesis
    by (auto simp: transition_typed_def planned_transition_def Let_def text_ok_def intent_typed_def
        superseding_text_def compute_input_digest_def compute_decision_digest_def utf8_valid.simps split: prod.splits)
qed


definition intent_admitted :: "trust_ledger \<Rightarrow> transition_intent \<Rightarrow> trust_state \<Rightarrow> bool" where
  "intent_admitted l i nxt \<longleftrightarrow> tl_last_timestamp l < ti_logical_timestamp i \<and>
     validate_semantic_transition (tl_states l) (ledger_state_of l (ti_record_id i)) i = Inr nxt \<and>
     length (transition_payload (planned_transition l i nxt)) \<le> MAX_PAYLOAD_BYTES"

lemma planned_admitted:
  assumes "intent_admitted l i nxt" and "intent_typed i" and "length (tl_head_digest l) = 32"
  shows "ledger_admits l (planned_transition l i nxt)"
proof -
  have "validate_common_intent i = Inr ()" using assms(1) by (simp add: intent_admitted_def validate_semantic_iff)
  note ty = planned_typed [OF this assms(2), of l nxt]
  show ?thesis
    using assms ty unfolding ledger_admits_def intent_admitted_def
    by (simp add: planned_digests planned_id)
qed

lemma admitted_intent:
  "ledger_admits l t \<Longrightarrow> intent_admitted l (intent_of t) (tt_next_state t)"
  using admitted_is_planned [of l t] by (auto simp: ledger_admits_def intent_admitted_def)

text \<open>\<open>apply\<close> either records the planned transition at the end of the file or changes nothing.\<close>

lemma ledger_apply_disk_cases:
  assumes len: "length (tl_transitions l) + 1 < usize_limit"
  obtains (refused) e where "ledger_apply_disk d l i fs = (Inl e, l, fs)"
      and "fget fs (tl_path l) = None \<or> (\<forall>nxt. \<not> intent_admitted l i nxt)"
  | (recorded) old nxt where "fget fs (tl_path l) = Some old" and "intent_admitted l i nxt"
      and "ledger_apply_disk d l i fs = (case append_sync d (tl_path l) (transition_frame (planned_transition l i nxt)) fs of
         (Inl e, fs') \<Rightarrow> (Inl (Trust_Io e), l, fs')
       | (Inr u, fs') \<Rightarrow> (Inr (planned_transition l i nxt), ledger_push l (planned_transition l i nxt), fs'))"
proof (cases "tl_last_timestamp l < ti_logical_timestamp i")
  case False
  then show thesis by (intro refused) (auto simp: ledger_apply_disk_def intent_admitted_def)
next
  case ts: True
  let ?prev = "ledger_state_of l (ti_record_id i)"
  define q where "q = length (tl_transitions l) + 1"
  have n: "checked_add (length (tl_transitions l)) 1 = Some q"
    using len by (simp add: checked_add_def q_def)
  show thesis
  proof (cases "validate_semantic_transition (tl_states l) ?prev i")
    case (Inl e)
    with ts n show thesis by (intro refused [of e]) (auto simp: ledger_apply_disk_def intent_admitted_def Let_def)
  next
    case (Inr nxt)
    let ?t = "planned_transition l i nxt"
    have ap: "apply_replayed_transition (tl_states l) ?t = Inr (push_state (tl_states l) ?t)"
      by (rule apply_replayed_valid) (simp_all add: Inr)
    show thesis
    proof (cases "length (transition_payload ?t) \<le> MAX_PAYLOAD_BYTES")
      case False
      with ts n Inr show thesis
        by (intro refused [of "Trust_Invalid (lit ''encoded trust payload exceeds maximum '' @ dec_bytes MAX_PAYLOAD_BYTES)"])
          (auto simp: ledger_apply_disk_def intent_admitted_def Let_def trust_encode_payload_def planned_payload)
    next
      case True
      have adm: "intent_admitted l i nxt" using ts Inr True by (simp add: intent_admitted_def)
      have pe: "trust_encode_payload ?prev nxt (compute_input_digest i)
          (compute_decision_digest (compute_input_digest i) ?prev nxt) i = Inr (transition_payload ?t)"
        using True by (simp add: trust_encode_payload_def planned_payload)
      have fe: "trust_encode_frame (of_nat q) (ti_logical_timestamp i) (tl_head_digest l)
          (sha256 (transition_payload ?t)) (compute_transition_digest (of_nat q)
            (ti_logical_timestamp i) (tl_head_digest l) (sha256 (transition_payload ?t))) (transition_payload ?t)
          = Inr (transition_frame ?t)"
        using True by (simp add: trust_encode_frame_def transition_frame_def planned_digests planned_id q_def add.commute)
      have tr: "\<lparr>tt_sequence = of_nat q, tt_logical_timestamp = ti_logical_timestamp i,
         tt_transition_id = compute_transition_digest (of_nat q)
            (ti_logical_timestamp i) (tl_head_digest l) (sha256 (transition_payload ?t)),
         tt_record_id = ti_record_id i, tt_previous_state = ?prev, tt_next_state = nxt,
         tt_operation = ti_operation i, tt_authority = ti_authority i,
         tt_evidence_refs = ti_evidence_refs i, tt_policy_id = ti_policy_id i,
         tt_policy_version = ti_policy_version i, tt_verifier_id = ti_verifier_id i,
         tt_record_digest = ti_record_digest i, tt_input_digest = compute_input_digest i,
         tt_decision_digest = compute_decision_digest (compute_input_digest i) ?prev nxt,
         tt_reason_code = ti_reason_code i, tt_superseding_record_id = ti_superseding_record_id i,
         tt_previous_transition_digest = tl_head_digest l\<rparr> = ?t"
        unfolding planned_payload by (simp add: planned_transition_def Let_def q_def add.commute)
      show thesis
      proof (cases "fget fs (tl_path l)")
        case None
        then show thesis using ts n Inr pe fe
          by (intro refused [of "Trust_Io (NotFound (tl_path l))"]) (simp_all add: ledger_apply_disk_def Let_def append_sync_def)
      next
        case (Some old)
        then have "ledger_apply_disk d l i fs = (case append_sync d (tl_path l) (transition_frame ?t) fs of
            (Inl e, fs') \<Rightarrow> (Inl (Trust_Io e), l, fs') | (Inr u, fs') \<Rightarrow> (Inr ?t, ledger_push l ?t, fs'))"
          using ts [folded not_le] n Inr pe fe ap
          unfolding ledger_apply_disk_def Let_def
          by (simp add: tr ledger_push_def split: prod.split sum.split)
        with Some adm show thesis by (intro recorded)
      qed
    qed
  qed
qed

lemma ledger_apply_cases:
  assumes "length (tl_transitions l) + 1 < usize_limit"
  obtains (refused) e where "ledger_apply l i fs = (Inl e, l, fs)"
      and "fget fs (tl_path l) = None \<or> (\<forall>nxt. \<not> intent_admitted l i nxt)"
  | (recorded) old nxt where "fget fs (tl_path l) = Some old" and "intent_admitted l i nxt"
      and "ledger_apply l i fs = (Inr (planned_transition l i nxt), ledger_push l (planned_transition l i nxt),
         fput (tl_path l) (old @ transition_frame (planned_transition l i nxt)) fs)"
  using assms
proof (cases rule: ledger_apply_disk_cases [of l Disk_Ok i fs])
  case (recorded old nxt)
  with that(2) show thesis by (simp add: ledger_apply_def append_sync_def)
qed (use that(1) in \<open>simp add: ledger_apply_def\<close>)

subsection \<open>Runs of a ledger\<close>

text \<open>
  A ledger that is created, offered intents, and reopened. The file stays shorter than the
  address space.
\<close>

type_synonym ledger_system = "trust_ledger \<times> fsys"

definition ledger_initial :: "ledger_system \<Rightarrow> bool" where
  "ledger_initial s \<longleftrightarrow> (\<exists>p fs. ledger_create p fs = (Inr (fst s), snd s))"

inductive ledger_step :: "ledger_system \<Rightarrow> ledger_system \<Rightarrow> bool" where
  ledger_applies:
    "intent_typed i \<Longrightarrow> ledger_apply l i fs = (r, l', fs') \<Longrightarrow>
     list_all (\<lambda>b. length b < usize_limit) (case fget fs' (tl_path l) of Some b \<Rightarrow> [b] | None \<Rightarrow> []) \<Longrightarrow>
     ledger_step (l, fs) (l', fs')"
| ledger_reopens:
    "ledger_open_strict (tl_path l) fs = (Inr l', fs') \<Longrightarrow> ledger_step (l, fs) (l', fs')"

definition ledger_inv :: "ledger_system \<Rightarrow> bool" where
  "ledger_inv s \<longleftrightarrow> (\<exists>p ts. ledger_history p ts \<and> fst s = ledger_of p ts \<and>
     fget (snd s) p = Some (ledger_bytes ts))"

lemma ledger_bytes_simps [simp]:
  "ledger_bytes [] = []" "ledger_bytes (ts @ us) = ledger_bytes ts @ ledger_bytes us"
  "ledger_bytes [t] = transition_frame t"
  by (simp_all add: ledger_bytes_def)

lemma ledger_history_length: "ledger_history p ts \<Longrightarrow> length (ledger_bytes ts) < usize_limit"
  by (cases ts rule: rev_cases) (auto simp: ledger_history_snoc usize_limit_def)

lemma ledger_history_count: "ledger_history p ts \<Longrightarrow> 144 * length ts \<le> length (ledger_bytes ts)"
proof (induction ts rule: rev_induct)
  case (snoc t ts)
  then have "ledger_admits (ledger_of p ts) t" by (simp add: ledger_history_snoc)
  from length_transition_frame [OF this] snoc show ?case by (simp add: ledger_history_snoc)
qed simp

lemma ledger_history_room: "ledger_history p ts \<Longrightarrow> length ts + 1 < usize_limit"
  using ledger_history_count [of p ts] ledger_history_length [of p ts] by (simp add: usize_limit_def)

lemma open_history:
  "ledger_history p ts \<Longrightarrow> fget fs p = Some (ledger_bytes ts) \<Longrightarrow>
   ledger_open_strict p fs = (Inr (ledger_of p ts), fs)"
  by (simp add: ledger_open_strict_def io_query_def fs_read_def io_pure_def replay_history)

lemma ledger_applies_inv:
  assumes inv: "ledger_history p ts" "fget fs p = Some (ledger_bytes ts)" and ty: "intent_typed i"
    and a: "ledger_apply (ledger_of p ts) i fs = (r, l', fs')"
    and room: "\<forall>b. fget fs' p = Some b \<longrightarrow> length b < usize_limit"
  shows "\<exists>ts'. ledger_history p ts' \<and> l' = ledger_of p ts' \<and> fget fs' p = Some (ledger_bytes ts') \<and>
     (case r of Inl e \<Rightarrow> ts' = ts \<and> fs' = fs | Inr t \<Rightarrow> ts' = ts @ [t] \<and> intent_of t = i)"
proof -
  let ?l = "ledger_of p ts"
  have "length (tl_transitions ?l) + 1 < usize_limit" using ledger_history_room [OF inv(1)] by simp
  then show ?thesis
  proof (cases rule: ledger_apply_cases [of ?l i fs])
    case (refused e)
    then show ?thesis using a inv by auto
  next
    case (recorded old nxt)
    let ?t = "planned_transition ?l i nxt"
    have old: "old = ledger_bytes ts" using recorded(1) inv(2) by simp
    have e: "r = Inr ?t" "l' = ledger_push ?l ?t" "fs' = fput p (ledger_bytes ts @ transition_frame ?t) fs"
      using a recorded(3) old by simp_all
    have "ledger_admits ?l ?t" by (rule planned_admitted [OF recorded(2) ty ledger_head_length [OF inv(1)]])
    then have "ledger_history p (ts @ [?t])" using inv(1) room e(3) by (simp add: ledger_history_snoc)
    with e show ?thesis by (intro exI [of _ "ts @ [?t]"]) simp
  qed
qed

interpretation ledger_run: invariant_system ledger_initial ledger_step ledger_inv
proof unfold_locales
  show "ledger_initial s \<Longrightarrow> ledger_inv s" for s
  proof -
    assume "ledger_initial s"
    then obtain p fs where c: "ledger_create p fs = (Inr (fst s), snd s)" by (auto simp: ledger_initial_def)
    then obtain fs' where "empty_ledger p = fst s" "fput p [] fs' = snd s"
      by (auto simp: ledger_create_def io_bind_eq_Inr_iff io_ret_def create_new_def split: if_splits)
    then have "fst s = ledger_of p []" "fget (snd s) p = Some (ledger_bytes [])"
      by (auto simp del: fput_fields simp flip: \<open>fput p [] fs' = snd s\<close>)
    then show ?thesis unfolding ledger_inv_def by (intro exI [of _ p] exI [of _ "[]"]) simp
  qed
  show "ledger_step s s' \<Longrightarrow> ledger_inv s \<Longrightarrow> ledger_inv s'" for s s'
  proof (induction rule: ledger_step.induct)
    case (ledger_applies i l fs r l' fs')
    then obtain p ts where h: "ledger_history p ts" "l = ledger_of p ts" "fget fs p = Some (ledger_bytes ts)"
      by (auto simp: ledger_inv_def)
    have "\<forall>b. fget fs' p = Some b \<longrightarrow> length b < usize_limit"
      using ledger_applies(3) h(2) by auto
    from ledger_applies_inv [OF h(1,3) ledger_applies(1) ledger_applies(2) [unfolded h(2)] this] show ?case
      by (auto simp: ledger_inv_def)
  next
    case (ledger_reopens l fs l' fs')
    then obtain p ts where h: "ledger_history p ts" "l = ledger_of p ts" "fget fs p = Some (ledger_bytes ts)"
      by (auto simp: ledger_inv_def)
    with ledger_reopens(1) open_history [OF h(1,3)] show ?case by (auto simp: ledger_inv_def)
  qed
qed

lemma reachable_ledger:
  assumes "reachable ledger_initial ledger_step (l, fs)"
  obtains ts where "ledger_history (tl_path l) ts" and "l = ledger_of (tl_path l) ts"
    and "tl_transitions l = ts" and "fget fs (tl_path l) = Some (ledger_bytes ts)"
  using ledger_run.reachable_inv [OF assms] by (auto simp: ledger_inv_def)

text \<open>
  C4. Reopening: in every reachable state of a ledger, opening its file strictly succeeds and
  gives back exactly the ledger in memory: the transitions, the trust state of every record,
  the head of the digest chain and the last timestamp.
\<close>

theorem ledger_reopens_exactly:
  assumes "reachable ledger_initial ledger_step (l, fs)"
  shows "ledger_open_strict (tl_path l) fs = (Inr l, fs)"
  using reachable_ledger [OF assms] open_history by metis


definition demo_ledger_fs :: fsys where
  "demo_ledger_fs = \<lparr>fs_files = [], fs_dirs = {[]}, fs_clock = (\<lambda>_. 0), fs_tick = 0, fs_pid = 1\<rparr>"

definition demo_intent :: transition_intent where
  "demo_intent = \<lparr>ti_record_id = lit ''r'', ti_operation = Propose, ti_authority = Import,
     ti_evidence_refs = [\<lparr>er_evidence_id = lit ''e'', er_provenance_id = lit ''p'', er_evidence_digest = replicate 32 1\<rparr>],
     ti_policy_id = lit ''p'', ti_policy_version = lit ''1'', ti_verifier_id = lit ''v'',
     ti_record_digest = replicate 32 2, ti_logical_timestamp = 1, ti_reason_code = lit ''n'',
     ti_superseding_record_id = None\<rparr>"

definition demo_path :: path where
  "demo_path = [lit ''trust'']"

lemma demo_create: "ledger_create demo_path demo_ledger_fs = (Inr (empty_ledger demo_path), fput demo_path [] demo_ledger_fs)"
  by (simp add: ledger_create_def demo_path_def demo_ledger_fs_def fs_exists_def fget_def path_parent_def
      create_dir_all_def create_new_def io_map_err_def io_bind_def io_ret_def)

lemma demo_intent_typed: "intent_typed demo_intent"
  by (simp add: intent_typed_def demo_intent_def evidence_typed_def lit_def)

lemma demo_intent_admitted: "intent_admitted (empty_ledger p) demo_intent raw_active"
proof -
  have c: "validate_common_intent demo_intent = Inr ()"
    by (simp add: validate_common_intent_def demo_intent_def validate_string_def MAX_STRING_BYTES_def
        MAX_EVIDENCE_REFS_def is_zero_digest_def lit_def list_all_iff)
  have "length (transition_payload (planned_transition (empty_ledger p) demo_intent raw_active)) \<le> MAX_PAYLOAD_BYTES"
    unfolding planned_payload
    by (simp add: trust_payload_bytes_def demo_intent_def evidence_bytes_def lit_def MAX_PAYLOAD_BYTES_def
        compute_input_digest_def compute_decision_digest_def Let_def split: prod.splits)
  with c show ?thesis
    by (simp add: intent_admitted_def validate_semantic_iff superseding_ok_def authority_allowed_def)
      (simp add: demo_intent_def empty_ledger_def ledger_state_of_def)
qed

lemma demo_ledger_run:
  obtains l fs t where "reachable ledger_initial ledger_step (l, fs)" and "tl_transitions l = [t]"
    and "intent_of t = demo_intent" and "tl_path l = demo_path" and "l = ledger_of demo_path [t]"
proof -
  let ?fs = "fput demo_path [] demo_ledger_fs" and ?l = "empty_ledger demo_path"
  have "ledger_initial (?l, ?fs)" using demo_create by (auto simp: ledger_initial_def)
  then have r: "reachable ledger_initial ledger_step (?l, ?fs)" by (rule reach_init)
  let ?t = "planned_transition ?l demo_intent raw_active"
  have a: "ledger_admits ?l ?t"
    by (rule planned_admitted [OF demo_intent_admitted demo_intent_typed]) (simp add: empty_ledger_def)
  have len: "length (transition_frame ?t) < usize_limit"
    using length_transition_frame [OF a] demo_intent_admitted [of demo_path]
    by (simp add: intent_admitted_def MAX_PAYLOAD_BYTES_def usize_limit_def)
  have "length (tl_transitions ?l) + 1 < usize_limit" by (simp add: empty_ledger_def usize_limit_def)
  then have ap: "ledger_apply ?l demo_intent ?fs =
      (Inr ?t, ledger_push ?l ?t, fput demo_path (transition_frame ?t) ?fs)"
  proof (cases rule: ledger_apply_cases [of ?l demo_intent ?fs])
    case (refused e)
    have "tl_path ?l = demo_path" by (simp add: empty_ledger_def)
    then show ?thesis using refused(2) demo_intent_admitted [of demo_path] by auto
  next
    case (recorded old nxt)
    have "nxt = raw_active"
      using recorded(2) demo_intent_admitted [of demo_path] by (simp add: intent_admitted_def)
    with recorded show ?thesis by (simp add: empty_ledger_def)
  qed
  have "ledger_step (?l, ?fs) (ledger_push ?l ?t, fput demo_path (transition_frame ?t) ?fs)"
    by (rule ledger_applies [OF demo_intent_typed ap]) (use len in \<open>simp add: empty_ledger_def\<close>)
  from reach_step [OF r this] show thesis
    by (rule that [of _ _ ?t]) (simp_all add: ledger_push_def empty_ledger_def ledger_of_def)
qed

theorem ledger_reopens_exactly_witness:
  "\<exists>l fs. length (tl_transitions l) = 1 \<and> ledger_open_strict demo_path fs = (Inr l, fs)"
proof -
  obtain l fs t where "reachable ledger_initial ledger_step (l, fs)" "tl_transitions l = [t]" "tl_path l = demo_path"
    by (rule demo_ledger_run)
  with ledger_reopens_exactly [of l fs] have "length (tl_transitions l) = 1 \<and> ledger_open_strict demo_path fs = (Inr l, fs)"
    by simp
  then show ?thesis by blast
qed

subsection \<open>What a ledger file can be\<close>

fun apply_intents :: "trust_ledger \<Rightarrow> transition_intent list \<Rightarrow> fsys \<Rightarrow> (trust_ledger \<times> fsys) option" where
  "apply_intents l [] fs = Some (l, fs)"
| "apply_intents l (i # is) fs =
     (case ledger_apply l i fs of
        (Inr t, l', fs') \<Rightarrow> apply_intents l' is fs'
      | (Inl e, l', fs') \<Rightarrow> None)"

lemma apply_intents_append:
  "apply_intents l (is @ js) fs =
     (case apply_intents l is fs of Some (l', fs') \<Rightarrow> apply_intents l' js fs' | None \<Rightarrow> None)"
  by (induction l "is" fs rule: apply_intents.induct) (auto split: prod.splits sum.splits)

lemma ledger_apply_grows:
  assumes "ledger_apply l i fs = (Inr t, l', fs')"
  shows "tl_path l' = tl_path l \<and> (\<exists>old new. fget fs (tl_path l) = Some old \<and> fget fs' (tl_path l) = Some (old @ new))"
  using assms unfolding ledger_apply_def ledger_apply_disk_def Let_def append_sync_def
  by (auto split: if_splits option.splits sum.splits)

lemma apply_intents_grows:
  "apply_intents l is fs = Some (l', fs') \<Longrightarrow> fget fs (tl_path l) = Some b \<Longrightarrow>
   \<exists>b'. fget fs' (tl_path l) = Some b' \<and> length b \<le> length b'"
proof (induction "is" arbitrary: l fs b)
  case (Cons i "is")
  then obtain t l1 fs1 where a: "ledger_apply l i fs = (Inr t, l1, fs1)" and r: "apply_intents l1 is fs1 = Some (l', fs')"
    by (auto split: prod.splits sum.splits)
  from ledger_apply_grows [OF a] Cons.prems(2) obtain new
    where "tl_path l1 = tl_path l" "fget fs1 (tl_path l) = Some (b @ new)" by auto
  with Cons.IH [OF r, of "b @ new"] show ?case by auto
qed simp

lemma apply_intents_history:
  assumes "ledger_history p ts" and "fget fs p = Some (ledger_bytes ts)" and "list_all intent_typed is"
    and "apply_intents (ledger_of p ts) is fs = Some (l, fs')" and "fget fs' p = Some bs" and "length bs < usize_limit"
  shows "\<exists>us. ledger_history p us \<and> l = ledger_of p us \<and> bs = ledger_bytes us"
  using assms
proof (induction "is" arbitrary: ts fs)
  case (Cons i "is")
  then obtain t l1 fs1 where a: "ledger_apply (ledger_of p ts) i fs = (Inr t, l1, fs1)"
    and r: "apply_intents l1 is fs1 = Some (l, fs')"
    by (auto split: prod.splits sum.splits)
  have p: "tl_path l1 = p" "\<exists>b1. fget fs1 p = Some b1" using ledger_apply_grows [OF a] by auto
  have "\<forall>b. fget fs1 p = Some b \<longrightarrow> length b < usize_limit"
    using apply_intents_grows [OF r] Cons.prems(5,6) p by fastforce
  from ledger_applies_inv [OF Cons.prems(1,2) _ a this] Cons.prems(3)
  obtain ts1 where "ledger_history p ts1" "l1 = ledger_of p ts1" "fget fs1 p = Some (ledger_bytes ts1)" by auto
  with Cons.IH [of ts1 fs1] r Cons.prems show ?case by auto
qed auto

lemma history_apply_intents:
  "ledger_history p ts \<Longrightarrow> \<exists>fs'. apply_intents (empty_ledger p) (map intent_of ts) (fput p [] fs) =
     Some (ledger_of p ts, fs') \<and> fget fs' p = Some (ledger_bytes ts)"
proof (induction ts rule: rev_induct)
  case (snoc t ts)
  then have h: "ledger_history p ts" and a: "ledger_admits (ledger_of p ts) t" by (auto simp: ledger_history_snoc)
  from snoc.IH [OF h] obtain fs' where f: "apply_intents (empty_ledger p) (map intent_of ts) (fput p [] fs) =
     Some (ledger_of p ts, fs')" "fget fs' p = Some (ledger_bytes ts)" by blast
  let ?l = "ledger_of p ts"
  note adm = admitted_intent [OF a] and pl = admitted_is_planned [OF a]
  have "length (tl_transitions ?l) + 1 < usize_limit" using ledger_history_room [OF h] by simp
  then have "ledger_apply ?l (intent_of t) fs' = (Inr t, ledger_push ?l t, fput p (ledger_bytes ts @ transition_frame t) fs')"
  proof (cases rule: ledger_apply_cases [of ?l "intent_of t" fs'])
    case (refused e)
    then show ?thesis using adm f(2) by auto
  next
    case (recorded old nxt)
    have "nxt = tt_next_state t" using recorded(2) adm by (simp add: intent_admitted_def)
    with recorded f(2) pl show ?thesis by simp
  qed
  with f(1) show ?case by (simp add: apply_intents_append)
qed simp

lemma history_typed: "ledger_history p ts \<Longrightarrow> list_all intent_typed (map intent_of ts)"
proof (induction ts rule: rev_induct)
  case (snoc t ts)
  then have "transition_typed t" by (simp add: ledger_history_snoc ledger_admits_def)
  then have "intent_typed (intent_of t)"
    by (auto simp: transition_typed_def intent_typed_def intent_of_def text_ok_def superseding_text_def list_all_iff
        evidence_ok_def evidence_typed_def)
  with snoc show ?case by (simp add: ledger_history_snoc)
qed simp

text \<open>
  C13. Strict replay accepts exactly the files the ledger itself can write: the bytes of a file
  are accepted, with some ledger as the result, if and only if a sequence of successful calls of
  \<open>apply\<close> on a new ledger writes these bytes and ends in that ledger. No other file, however it
  was produced, is accepted.
\<close>

theorem replay_accepts_exactly_applied:
  assumes "length bs < usize_limit"
  shows "replay_bytes (empty_ledger p) 0 bs = Inr l \<longleftrightarrow>
     (\<exists>is fs'. list_all intent_typed is \<and>
        apply_intents (empty_ledger p) is (fput p [] fs) = Some (l, fs') \<and> fget fs' p = Some bs)"
proof
  assume "replay_bytes (empty_ledger p) 0 bs = Inr l"
  from replay_accepts [OF this] obtain ts where h: "ledger_history p ts" "bs = ledger_bytes ts" "l = ledger_of p ts"
    by blast
  from history_apply_intents [OF h(1), of fs] history_typed [OF h(1)] h(2,3)
  show "\<exists>is fs'. list_all intent_typed is \<and>
        apply_intents (empty_ledger p) is (fput p [] fs) = Some (l, fs') \<and> fget fs' p = Some bs" by blast
next
  assume "\<exists>is fs'. list_all intent_typed is \<and>
        apply_intents (empty_ledger p) is (fput p [] fs) = Some (l, fs') \<and> fget fs' p = Some bs"
  then obtain "is" fs' where "list_all intent_typed is" "fget fs' p = Some bs"
    "apply_intents (empty_ledger p) is (fput p [] fs) = Some (l, fs')" by blast
  with apply_intents_history [of p "[]" "fput p [] fs" "is" l fs' bs] assms
  obtain us where "ledger_history p us" "l = ledger_of p us" "bs = ledger_bytes us" by auto
  then show "replay_bytes (empty_ledger p) 0 bs = Inr l" using replay_history by simp
qed

theorem replay_accepts_exactly_applied_witness:
  "\<exists>bs l. bs \<noteq> [] \<and> replay_bytes (empty_ledger demo_path) 0 bs = Inr l"
proof -
  obtain l fs t where r: "reachable ledger_initial ledger_step (l, fs)" and t: "tl_transitions l = [t]"
    and p: "tl_path l = demo_path"
    by (rule demo_ledger_run)
  have h: "ledger_history demo_path [t]" using reachable_ledger [OF r] t p by metis
  obtain fs' where "apply_intents (empty_ledger demo_path) (map intent_of [t]) (fput demo_path [] fs) =
     Some (ledger_of demo_path [t], fs')" "fget fs' demo_path = Some (ledger_bytes [t])"
    using history_apply_intents [OF h] by blast
  then have "replay_bytes (empty_ledger demo_path) 0 (ledger_bytes [t]) = Inr (ledger_of demo_path [t])"
    using replay_accepts_exactly_applied [OF ledger_history_length [OF h], of demo_path _ fs] history_typed [OF h] by blast
  moreover have "ledger_bytes [t] \<noteq> []" using ledger_history_count [OF h] by auto
  ultimately show ?thesis by blast
qed

subsection \<open>Rules of trust\<close>

lemma ledger_history_take:
  "ledger_history p ts \<Longrightarrow> n < length ts \<Longrightarrow>
   ledger_history p (take n ts) \<and> ledger_admits (ledger_of p (take n ts)) (ts ! n)"
  using trust_file.file_history_take by (simp add: file_facts)

lemma ledger_head: "tl_head_digest (ledger_of p ts) = (if ts = [] then replicate 32 0 else tt_transition_id (last ts))"
  "tl_last_timestamp (ledger_of p ts) = (if ts = [] then 0 else tt_logical_timestamp (last ts))"
  by (cases ts rule: rev_cases; simp add: ledger_push_def empty_ledger_def)+

lemma last_take_Suc: "Suc n \<le> length ts \<Longrightarrow> last (take (Suc n) ts) = ts ! n"
  by (simp add: take_Suc_conv_app_nth)

text \<open>
  C14. Every transition of a reachable ledger was authorised and lawful: its authority is the
  evidence policy, or an import that proposes a new record, never a ranker, a wave, similarity,
  frequency, a language model or a rigor multiplier; it moves the record from its state at that
  point along the rules of its operation, with at least one piece of evidence; its sequence
  number is its position, its timestamp is later than the one before, and it carries the digest
  of the transition before it.
\<close>

theorem ledger_transitions_lawful:
  assumes "reachable ledger_initial ledger_step (l, fs)" and "n < length (tl_transitions l)"
  shows "let t = tl_transitions l ! n; before = ledger_of (tl_path l) (take n (tl_transitions l)) in
     (tt_authority t = EvidencePolicy \<or> tt_authority t = Import \<and> tt_operation t = Propose) \<and>
     tt_previous_state t = ledger_state_of before (tt_record_id t) \<and>
     trust_move (tt_operation t) (tt_previous_state t) (tt_next_state t) \<and>
     tt_evidence_refs t \<noteq> [] \<and> unat (tt_sequence t) = n + 1 \<and>
     (0 < n \<longrightarrow> tt_logical_timestamp (tl_transitions l ! (n - 1)) < tt_logical_timestamp t) \<and>
     tt_previous_transition_digest t =
       (if n = 0 then replicate 32 0 else tt_transition_id (tl_transitions l ! (n - 1)))"
proof -
  obtain ts where h: "ledger_history (tl_path l) ts" and ts: "tl_transitions l = ts"
    by (rule reachable_ledger [OF assms(1)])
  have n: "n < length ts" using assms(2) ts by simp
  let ?t = "ts ! n" and ?b = "ledger_of (tl_path l) (take n ts)"
  have a: "ledger_admits ?b ?t" using ledger_history_take [OF h n] by simp
  then have v: "validate_common_intent (intent_of ?t) = Inr ()" "authority_allowed (tt_authority ?t) (tt_operation ?t)"
    "trust_move (tt_operation ?t) (tt_previous_state ?t) (tt_next_state ?t)"
    "tt_previous_state ?t = ledger_state_of ?b (tt_record_id ?t)"
    by (auto simp: ledger_admits_def validate_semantic_iff)
  have e: "tt_evidence_refs ?t \<noteq> []"
    using v(1) by (auto simp: validate_common_intent_def rbind_eq_Inr_iff split: if_splits)
  have "unat (of_nat n + 1 :: u64) = n + 1"
    using ledger_history_room [OF h] n by (simp add: usize_limit_def unat_word_ariths unat_of_nat)
  then have s: "unat (tt_sequence ?t) = n + 1" using a n by (simp add: ledger_admits_def min_def)
  have ne: "ts \<noteq> []" using n by auto
  have last: "0 < n \<Longrightarrow> last (take n ts) = ts ! (n - 1)" using n last_take_Suc [of "n - 1" ts] by (cases n) auto
  have "0 < n \<longrightarrow> tt_logical_timestamp (ts ! (n - 1)) < tt_logical_timestamp ?t"
    "tt_previous_transition_digest ?t = (if n = 0 then replicate 32 0 else tt_transition_id (ts ! (n - 1)))"
    using a ne last by (auto simp: ledger_admits_def ledger_head)
  with v e s show ?thesis unfolding ts Let_def by (auto simp: authority_allowed_def)
qed

theorem ledger_transitions_lawful_witness:
  "\<exists>l fs t. tl_transitions l = [t] \<and> reachable ledger_initial ledger_step (l, fs) \<and>
     trust_move (tt_operation t) (tt_previous_state t) (tt_next_state t) \<and> unat (tt_sequence t) = 1"
proof -
  obtain l fs t where r: "reachable ledger_initial ledger_step (l, fs)" and t: "tl_transitions l = [t]"
    by (rule demo_ledger_run)
  from ledger_transitions_lawful [OF r, of 0] t
  have "trust_move (tt_operation t) (tt_previous_state t) (tt_next_state t) \<and> unat (tt_sequence t) = 1"
    unfolding Let_def by auto
  with r t show ?thesis by blast
qed

text \<open>
  C29. What a request that fails leaves, on a disk that may fail. In every reachable state, a
  request of another authority, a request for a record that is revoked or superseded, one whose
  digest differs from the digest the record was proposed with, and one whose timestamp does not
  increase are refused, and no file changes. Whatever the reason of a failure, the ledger in
  memory stays as it was. If the disk does not fail, every file stays as it was too. If a write
  stops in the middle or the synchronisation fails, only a request that passed all checks can
  have changed a file, and only the file of the ledger: it was extended by the first bytes of the
  frame of the transition, possibly by all of them.
\<close>

theorem ledger_refusals_change_nothing:
  assumes "reachable ledger_initial ledger_step (l, fs)" and "ledger_apply_disk disk l i fs = (r, l', fs')"
  shows "((\<not> authority_allowed (ti_authority i) (ti_operation i) \<or>
      (\<exists>s. ledger_state_of l (ti_record_id i) = Some s \<and> terminal_validity (ts_validity s)) \<or>
      (\<exists>sn. ledger_snapshot l (ti_record_id i) = Some sn \<and> sn_record_digest sn \<noteq> ti_record_digest i) \<or>
      ti_logical_timestamp i \<le> tl_last_timestamp l) \<longrightarrow> \<not> is_ok r \<and> fs' = fs) \<and>
     (\<not> is_ok r \<longrightarrow> l' = l \<and> (disk = Disk_Ok \<longrightarrow> fs' = fs) \<and>
        (fs' = fs \<or> (\<exists>old nxt n. fget fs (tl_path l) = Some old \<and> intent_admitted l i nxt \<and>
           fs' = fput (tl_path l) (old @ take n (transition_frame (planned_transition l i nxt))) fs)))"
proof -
  obtain ts where "ledger_history (tl_path l) ts" "tl_transitions l = ts"
    by (rule reachable_ledger [OF assms(1)])
  then have "length (tl_transitions l) + 1 < usize_limit" using ledger_history_room by simp
  then show ?thesis
  proof (cases rule: ledger_apply_disk_cases [of l disk i fs])
    case (refused e)
    then show ?thesis using assms(2) by auto
  next
    case (recorded old nxt)
    then have v: "tl_last_timestamp l < ti_logical_timestamp i" "authority_allowed (ti_authority i) (ti_operation i)"
      "\<forall>sn. ledger_snapshot l (ti_record_id i) = Some sn \<longrightarrow> sn_record_digest sn = ti_record_digest i"
      "trust_move (ti_operation i) (ledger_state_of l (ti_record_id i)) nxt"
      by (auto simp: intent_admitted_def validate_semantic_iff ledger_snapshot_def)
    have nt: "\<not> terminal_validity (ts_validity s)" if "ledger_state_of l (ti_record_id i) = Some s" for s
      using v(4) that by (cases "ti_operation i") auto
    let ?f = "transition_frame (planned_transition l i nxt)"
    have "l' = l \<and> (disk = Disk_Ok \<longrightarrow> fs' = fs) \<and> (\<exists>n. fs' = fput (tl_path l) (old @ take n ?f) fs)" if "\<not> is_ok r"
      using recorded(1,3) assms(2) that
      by (cases disk) (auto simp: append_sync_def intro: exI [of _ "length ?f"])
    with v nt recorded(1,2) show ?thesis by fastforce
  qed
qed

text \<open>
  A request by an authority that may not make it, and a lawful request whose write stops after 100
  bytes, on a ledger that has just been created.
\<close>

theorem ledger_refusals_change_nothing_witness:
  "\<exists>fs r l1 fs1 n. ledger_apply_disk Disk_Ok (empty_ledger demo_path) (demo_intent\<lparr>ti_authority := Llm\<rparr>) fs
       = (r, empty_ledger demo_path, fs) \<and>
     ledger_apply_disk (Write_Stops 100 (StorageFull demo_path)) (empty_ledger demo_path) demo_intent fs
       = (Inl (Trust_Io (StorageFull demo_path)), l1, fs1) \<and> l1 = empty_ledger demo_path \<and>
     fget fs1 demo_path = Some (take n (transition_frame (planned_transition (empty_ledger demo_path) demo_intent raw_active)))"
proof -
  let ?fs = "fput demo_path [] demo_ledger_fs" and ?l = "empty_ledger demo_path" and ?i = "demo_intent\<lparr>ti_authority := Llm\<rparr>"
  let ?d = "Write_Stops 100 (StorageFull demo_path)" and ?f = "\<lambda>nxt. transition_frame (planned_transition (empty_ledger demo_path) demo_intent nxt)"
  have "ledger_initial (?l, ?fs)" using demo_create by (auto simp: ledger_initial_def)
  then have r: "reachable ledger_initial ledger_step (?l, ?fs)" by (rule reach_init)
  have p: "tl_path ?l = demo_path" by (simp add: empty_ledger_def)
  have u: "nxt = raw_active" if "intent_admitted ?l demo_intent nxt" for nxt
    using that demo_intent_admitted [of demo_path] by (simp add: intent_admitted_def)
  obtain x l' fs' where a: "ledger_apply_disk Disk_Ok ?l ?i ?fs = (x, l', fs')" by (metis prod_cases3)
  have "\<not> authority_allowed (ti_authority ?i) (ti_operation ?i)" by (simp add: authority_allowed_def)
  with ledger_refusals_change_nothing [OF r a] have one: "l' = ?l" "fs' = ?fs" by blast+
  obtain fs1 where b: "ledger_apply_disk ?d ?l demo_intent ?fs = (Inl (Trust_Io (StorageFull demo_path)), ?l, fs1)"
    and ne: "fget fs1 demo_path = Some (take 100 (?f raw_active))"
  proof (rule ledger_apply_disk_cases [of ?l ?d demo_intent ?fs])
    show "length (tl_transitions ?l) + 1 < usize_limit" by (simp add: empty_ledger_def usize_limit_def)
  qed (use demo_intent_admitted [of demo_path] p u in \<open>auto simp: append_sync_def\<close>)
  from ledger_refusals_change_nothing [OF r b] obtain n where "fs1 = ?fs \<or> fs1 = fput demo_path (take n (?f raw_active)) ?fs"
    using p u by auto
  then have "\<exists>n. fget fs1 demo_path = Some (take n (?f raw_active))" by (auto intro: exI [of _ 0])
  then show ?thesis using a b one by blast
qed

subsection \<open>Supersession\<close>

definition supersedes :: "trust_ledger \<Rightarrow> (str \<times> str) set" where
  "supersedes l = {(r, s). \<exists>sn. ledger_snapshot l r = Some sn \<and> sn_superseding_record_id sn = Some s}"

definition supersession_ok :: "trust_ledger \<Rightarrow> bool" where
  "supersession_ok l \<longleftrightarrow> acyclic (supersedes l) \<and> Range (supersedes l) \<subseteq> dom (ledger_snapshot l) \<and>
     (\<forall>r sn. ledger_snapshot l r = Some sn \<longrightarrow>
        (sn_superseding_record_id sn \<noteq> None \<longleftrightarrow> ts_validity (sn_state sn) = Superseded))"

lemma snapshot_push: "ledger_snapshot (ledger_push l t) r =
   (if r = tt_record_id t then Some
     \<lparr>sn_record_id = (case ledger_snapshot l r of Some s \<Rightarrow> sn_record_id s | None \<Rightarrow> r),
      sn_state = tt_next_state t, sn_record_digest = tt_record_digest t,
      sn_last_transition_id = tt_transition_id t, sn_last_sequence = tt_sequence t,
      sn_superseding_record_id = tt_superseding_record_id t\<rparr> else ledger_snapshot l r)"
  by (simp add: ledger_snapshot_def ledger_push_def push_state_def bt_get_insert split: option.splits)

lemma supersession_push:
  assumes ok: "supersession_ok l" and a: "ledger_admits l t"
  shows "supersession_ok (ledger_push l t)"
proof -
  let ?r = "tt_record_id t" and ?l' = "ledger_push l t"
  have m: "trust_move (tt_operation t) (map_option sn_state (ledger_snapshot l ?r)) (tt_next_state t)"
    and s: "superseding_ok (tl_states l) (intent_of t)"
    using a by (auto simp: ledger_admits_def validate_semantic_iff ledger_state_of_def ledger_snapshot_def)
  have nt: "sn_superseding_record_id sn = None" if "ledger_snapshot l ?r = Some sn" for sn
  proof -
    have "ts_validity (sn_state sn) \<noteq> Superseded" using m that by (cases "tt_operation t") auto
    with ok that show ?thesis unfolding supersession_ok_def by blast
  qed
  have v: "ts_validity (tt_next_state t) = Superseded \<longleftrightarrow> tt_operation t = Supersede"
    using m by (cases "tt_operation t") (auto simp: raw_active_def)
  show ?thesis
  proof (cases "tt_superseding_record_id t")
    case None
    then have e: "supersedes ?l' = supersedes l" using nt by (auto simp: supersedes_def snapshot_push split: if_splits)
    have "tt_operation t \<noteq> Supersede" using s None by (auto simp: superseding_ok_def)
    then show ?thesis using ok None v unfolding supersession_ok_def e by (auto simp: snapshot_push)
  next
    case (Some x)
    then have "tt_operation t = Supersede" using s by (auto simp: superseding_ok_def split: if_splits)
    with s Some obtain sn where x: "x \<noteq> ?r" "ledger_snapshot l x = Some sn" "\<not> terminal_validity (ts_validity (sn_state sn))"
      by (auto simp: superseding_ok_def ledger_snapshot_def)
    have e: "supersedes ?l' = insert (?r, x) (supersedes l)" using nt Some by (auto simp: supersedes_def snapshot_push split: if_splits)
    have "x \<notin> Domain (supersedes l)" using x(2,3) ok by (auto simp: supersedes_def supersession_ok_def)
    then have "(x, ?r) \<notin> (supersedes l)\<^sup>*" using x(1) by (metis DomainI converse_rtranclE)
    then show ?thesis
      using ok Some v x \<open>tt_operation t = Supersede\<close> unfolding supersession_ok_def e by (auto simp: snapshot_push)
  qed
qed

lemma history_supersession: "ledger_history p ts \<Longrightarrow> supersession_ok (ledger_of p ts)"
proof (induction ts rule: rev_induct)
  case Nil
  then show ?case by (simp add: supersession_ok_def supersedes_def ledger_snapshot_def empty_ledger_def acyclic_def)
next
  case (snoc t ts)
  then show ?case by (simp add: ledger_history_snoc supersession_push)
qed

lemma finite_supersedes: "finite (supersedes l)"
proof (rule finite_subset)
  show "supersedes l \<subseteq> (\<lambda>(r, sn). (r, the (sn_superseding_record_id sn))) ` set (tl_states l)"
    by (force simp: supersedes_def ledger_snapshot_def dest: bt_get_in_set)
qed simp

lemma supersedes_single: "single_valued (supersedes l)"
  by (auto simp: single_valued_def supersedes_def)

lemma supersession_end:
  assumes ok: "supersession_ok l" and r: "r \<in> dom (ledger_snapshot l)"
  shows "\<exists>f. (r, f) \<in> (supersedes l)\<^sup>* \<and> f \<in> dom (ledger_snapshot l) \<and> f \<notin> Domain (supersedes l)"
proof -
  have "wf ((supersedes l)\<inverse>)"
    using ok finite_supersedes by (intro finite_acyclic_wf_converse) (auto simp: supersession_ok_def)
  from this r show ?thesis
  proof (induction r rule: wf_induct_rule)
    case (less r)
    show ?case
    proof (cases "r \<in> Domain (supersedes l)")
      case True
      then obtain s where s: "(r, s) \<in> supersedes l" by auto
      moreover have "s \<in> dom (ledger_snapshot l)" using s ok by (auto simp: supersession_ok_def)
      ultimately show ?thesis using less.IH [of s] by (auto intro: converse_rtrancl_into_rtrancl)
    next
      case False
      then show ?thesis using less.prems by auto
    qed
  qed
qed

lemma single_valued_ends:
  assumes sv: "single_valued E" and "(r, f) \<in> E\<^sup>*" "(r, g) \<in> E\<^sup>*" "f \<notin> Domain E" "g \<notin> Domain E"
  shows "f = g"
  using assms(2)
proof (cases rule: single_valued_confluent [OF sv assms(2,3), THEN disjE])
  case 1
  then show ?thesis using assms(4) by (metis DomainI converse_rtranclE)
next
  case 2
  then show ?thesis using assms(5) by (metis DomainI converse_rtranclE)
qed

text \<open>
  C28. Supersession has no cycles: in every reachable ledger the relation from a superseded
  record to the record that replaced it is acyclic, and following it from any tracked record
  leads to exactly one tracked record that is not superseded.
\<close>

theorem supersession_resolves:
  assumes "reachable ledger_initial ledger_step (l, fs)" and "ledger_state_of l r \<noteq> None"
  shows "acyclic (supersedes l) \<and> (\<exists>!f. (r, f) \<in> (supersedes l)\<^sup>* \<and>
     (\<exists>s. ledger_state_of l f = Some s \<and> ts_validity s \<noteq> Superseded))"
proof -
  obtain ts where "ledger_history (tl_path l) ts" "l = ledger_of (tl_path l) ts"
    by (rule reachable_ledger [OF assms(1)])
  then have ok: "supersession_ok l" using history_supersession by metis
  have cur: "(\<exists>s. ledger_state_of l f = Some s \<and> ts_validity s \<noteq> Superseded) \<longleftrightarrow>
      f \<in> dom (ledger_snapshot l) \<and> f \<notin> Domain (supersedes l)" for f
    using ok by (fastforce simp: supersession_ok_def supersedes_def ledger_state_of_def ledger_snapshot_def)
  have "r \<in> dom (ledger_snapshot l)" using assms(2) by (auto simp: ledger_state_of_def ledger_snapshot_def)
  from supersession_end [OF ok this] have "\<exists>!f. (r, f) \<in> (supersedes l)\<^sup>* \<and>
      f \<in> dom (ledger_snapshot l) \<and> f \<notin> Domain (supersedes l)"
    using single_valued_ends [OF supersedes_single] by blast
  then show ?thesis using ok unfolding cur by (simp add: supersession_ok_def)
qed

theorem supersession_resolves_witness:
  "\<exists>l fs. reachable ledger_initial ledger_step (l, fs) \<and> ledger_state_of l (lit ''r'') \<noteq> None \<and>
     acyclic (supersedes l)"
proof -
  obtain l fs t where r: "reachable ledger_initial ledger_step (l, fs)" and t: "intent_of t = demo_intent"
    and l: "l = ledger_of demo_path [t]"
    by (rule demo_ledger_run)
  have "tt_record_id t = lit ''r''" using arg_cong [OF t, of ti_record_id] by (simp add: demo_intent_def)
  then have "ledger_state_of l (lit ''r'') \<noteq> None"
    by (simp add: l ledger_of_def ledger_state_of_def ledger_push_def push_state_def bt_get_insert)
  from supersession_resolves [OF r this] this r show ?thesis by blast
qed

subsection \<open>Truncated files\<close>

lemma replay_truncated_frame:
  assumes a: "ledger_admits l t" and off: "off + length (transition_frame t) < usize_limit"
    and m: "0 < m" "m < length (transition_frame t)"
  shows "replay_bytes l off (take m (transition_frame t)) = Inl (Trust_TruncatedTail off m)"
proof (cases "m < 144")
  case True
  then show ?thesis using m by (subst replay_bytes.simps) (simp add: Let_def min_def)
next
  case False
  note h = frame_header [OF a]
  have c: "checked_add (off + 144) (length (transition_payload t)) = Some (off + length (transition_frame t))"
    using off length_transition_frame [OF a] by (simp add: checked_add_def)
  have "take 144 (take m (transition_frame t)) = take 144 (transition_frame t)" using False by (simp add: min_def)
  then show ?thesis
    using m length_transition_frame [OF a] h(13)
    by (subst replay_bytes.simps) (simp add: h(1-12) c Let_def min_def False)
qed

lemma replay_truncated:
  assumes h: "ledger_history p ts" and m: "m \<le> length (ledger_bytes ts)"
  shows "\<exists>k off. k \<le> length ts \<and> off = length (ledger_bytes (take k ts)) \<and> off \<le> m \<and>
     (k < length ts \<longrightarrow> m < length (ledger_bytes (take (Suc k) ts))) \<and>
     replay_bytes (empty_ledger p) 0 (take m (ledger_bytes ts)) =
       (if m = off then Inr (ledger_of p (take k ts)) else Inl (Trust_TruncatedTail off (m - off)))"
proof -
  obtain k where k: "k \<le> length ts" "length (ledger_bytes (take k ts)) \<le> m"
    "k = length ts \<longrightarrow> m = length (ledger_bytes ts)"
    "k < length ts \<longrightarrow> m < length (ledger_bytes (take k ts)) + length (transition_frame (ts ! k))"
    "replay_bytes (empty_ledger p) 0 (take m (ledger_bytes ts)) = replay_bytes (ledger_of p (take k ts))
       (length (ledger_bytes (take k ts))) (take (m - length (ledger_bytes (take k ts))) (transition_frame (ts ! k)))"
    using trust_file.file_replay_cut [OF h [unfolded ledger_history_def], of m] m by (auto simp: file_facts)
  let ?off = "length (ledger_bytes (take k ts))"
  have "replay_bytes (ledger_of p (take k ts)) ?off (take (m - ?off) (transition_frame (ts ! k))) =
     (if m = ?off then Inr (ledger_of p (take k ts)) else Inl (Trust_TruncatedTail ?off (m - ?off)))"
  proof (cases "k = length ts")
    case True
    then show ?thesis using k(3) by (simp add: trust_file.replay_end)
  next
    case False
    then have lt: "k < length ts" using k(1) by simp
    have t: "take (Suc k) ts = take k ts @ [ts ! k]" by (rule take_Suc_conv_app_nth [OF lt])
    have a: "ledger_admits (ledger_of p (take k ts)) (ts ! k)" using ledger_history_take [OF h lt] by simp
    have "ledger_bytes ts = ledger_bytes (take (Suc k) ts) @ ledger_bytes (drop (Suc k) ts)"
      unfolding ledger_bytes_simps(2) [symmetric] append_take_drop_id ..
    then have "?off + length (transition_frame (ts ! k)) < usize_limit"
      using ledger_history_length [OF h] by (simp add: t)
    from replay_truncated_frame [OF a this, of "m - ?off"] k(2,4) lt show ?thesis
      by (auto simp: trust_file.replay_end)
  qed
  with k show ?thesis by (intro exI [of _ k] exI [of _ ?off]) (auto simp: take_Suc_conv_app_nth)
qed

text \<open>
  C30. A torn write is never mistaken for a ledger: of the bytes of a reachable ledger's file
  cut at any point, strict replay gives the ledger of the transitions before the cut if the cut
  is at the end of a transition's frame, and otherwise the error that names the start of the
  incomplete frame and the bytes that remain of it.
\<close>

theorem truncated_ledger_detected:
  assumes "reachable ledger_initial ledger_step (l, fs)" and "fget fs (tl_path l) = Some bs" and "m \<le> length bs"
  shows "\<exists>k off. k \<le> length (tl_transitions l) \<and> off = length (ledger_bytes (take k (tl_transitions l))) \<and> off \<le> m \<and>
     (k < length (tl_transitions l) \<longrightarrow> m < length (ledger_bytes (take (Suc k) (tl_transitions l)))) \<and>
     replay_bytes (empty_ledger (tl_path l)) 0 (take m bs) =
       (if m = off then Inr (ledger_of (tl_path l) (take k (tl_transitions l)))
        else Inl (Trust_TruncatedTail off (m - off)))"
proof -
  let ?p = "tl_path l"
  obtain ts where "ledger_history ?p ts" "tl_transitions l = ts" "fget fs ?p = Some (ledger_bytes ts)"
    by (rule reachable_ledger [OF assms(1)])
  then have h: "ledger_history ?p ts" and ts: "tl_transitions l = ts" and bs: "bs = ledger_bytes ts" using assms(2) by auto
  from replay_truncated [OF h, of m] assms(3) show ?thesis unfolding ts bs by simp
qed

theorem truncated_ledger_detected_witness:
  "\<exists>t. replay_bytes (empty_ledger demo_path) 0 (take 100 (transition_frame t)) = Inl (Trust_TruncatedTail 0 100)"
proof -
  obtain l fs t where r: "reachable ledger_initial ledger_step (l, fs)" and t: "tl_transitions l = [t]"
    and p: "tl_path l = demo_path"
    by (rule demo_ledger_run)
  obtain ts where "ledger_history demo_path ts" "ts = [t]" "fget fs demo_path = Some (ledger_bytes ts)"
    by (rule reachable_ledger [OF r, unfolded t p]) simp
  then have h: "ledger_history demo_path [t]" and f: "fget fs demo_path = Some (transition_frame t)" by simp_all
  have len: "144 \<le> length (transition_frame t)" using ledger_history_count [OF h] by simp
  from truncated_ledger_detected [OF r, of "transition_frame t" 100] t p f len
  obtain k off where k: "k \<le> 1" "off = length (ledger_bytes (take k [t]))" "off \<le> 100"
    and e: "replay_bytes (empty_ledger demo_path) 0 (take 100 (transition_frame t)) =
       (if 100 = off then Inr (ledger_of demo_path (take k [t])) else Inl (Trust_TruncatedTail off (100 - off)))"
    by auto
  have "k = 0" using k len by (cases k) auto
  with k e show ?thesis by (intro exI [of _ t]) simp
qed

text \<open>
  What a failed append leaves for the next strict open: the ledger without the transition if
  nothing of its frame arrived, the ledger with it if all of it did, and a truncated tail otherwise.
\<close>

lemma failed_append_reopens:
  assumes "reachable ledger_initial ledger_step (l, fs)" and "fget fs (tl_path l) = Some old"
    and "intent_admitted l i nxt" and "intent_typed i"
    and "length (old @ transition_frame (planned_transition l i nxt)) < usize_limit"
  shows "replay_bytes (empty_ledger (tl_path l)) 0 (old @ take n (transition_frame (planned_transition l i nxt))) =
     (if n = 0 then Inr l else if length (transition_frame (planned_transition l i nxt)) \<le> n
      then Inr (ledger_push l (planned_transition l i nxt)) else Inl (Trust_TruncatedTail (length old) n))"
proof -
  let ?p = "tl_path l" and ?t = "planned_transition l i nxt"
  obtain ts where h: "ledger_history ?p ts" and l: "l = ledger_of ?p ts" and old: "old = ledger_bytes ts"
    using reachable_ledger [OF assms(1)] assms(2) by auto
  have len: "length (tl_head_digest l) = 32" using ledger_head_length [OF h] l by simp
  have a: "ledger_admits l ?t" by (rule planned_admitted [OF assms(3,4) len])
  then have h': "ledger_history ?p (ts @ [?t])" using h l old assms(5) by (simp add: ledger_history_snoc)
  consider "n = 0" | "length (transition_frame ?t) \<le> n" | "0 < n" "n < length (transition_frame ?t)" by linarith
  then show ?thesis
  proof cases
    case 1
    then show ?thesis using replay_history [OF h] l old by simp
  next
    case 2
    have "0 < length (transition_frame ?t)" using length_transition_frame [OF a] by simp
    with 2 have "0 < n" by linarith
    with 2 show ?thesis using replay_history [OF h'] l old by simp
  next
    case 3
    obtain k where k: "k \<le> length ts + 1" "length (ledger_bytes (take k (ts @ [?t]))) \<le> length old + n"
      "k < length ts + 1 \<longrightarrow> length old + n < length (ledger_bytes (take (Suc k) (ts @ [?t])))"
      "replay_bytes (empty_ledger ?p) 0 (take (length old + n) (old @ transition_frame ?t)) =
         (if length old + n = length (ledger_bytes (take k (ts @ [?t]))) then Inr (ledger_of ?p (take k (ts @ [?t])))
          else Inl (Trust_TruncatedTail (length (ledger_bytes (take k (ts @ [?t]))))
            (length old + n - length (ledger_bytes (take k (ts @ [?t]))))))"
      using replay_truncated [OF h', of "length old + n"] 3 old by auto
    have "\<not> length ts < k" using k(1,2) 3 old by auto
    moreover have "\<not> k < length ts"
    proof
      assume "k < length ts"
      then have "length old + n < length (ledger_bytes (take (Suc k) ts))" using k(3) by simp
      moreover have "old = ledger_bytes (take (Suc k) ts) @ ledger_bytes (drop (Suc k) ts)"
        unfolding old ledger_bytes_simps(2) [symmetric] append_take_drop_id ..
      ultimately show False by simp
    qed
    ultimately have "k = length ts" by simp
    with k 3 old show ?thesis by simp
  qed
qed

end
