(* ===== verification/Ub_Asymmetric.thy ===== *)
theory Ub_Asymmetric
  imports Ub_Fs Ub_Sha256 "HOL-Library.Product_Lexorder"
begin

text \<open>
  The verification side of \<open>ultraballoondb-trust-asymmetric\<close>: the state of the key registry,
  the authorisation ledger, and the check of an authorisation against the registry
  (\<open>ledger.rs\<close>, \<open>registry.rs\<close>, \<open>cng.rs\<close>, \<open>lib.rs\<close>).

  The signature check itself is done by the cryptography interface of the operating system.
  It is the parameter \<open>bcrypt\<close>: a function of the public key, the digest and the signature.
\<close>

datatype asym_error =
  Asym_Io io_error | Asym_Invalid str | Asym_Integrity str | Asym_Provider str
| Asym_Truncated str nat nat

text \<open>The texts that \<open>std::io::Error\<close> prints for the errors of the file system.\<close>

fun io_error_display :: "io_error \<Rightarrow> str" where
  "io_error_display (NotFound p) = lit ''No such file or directory (os error 2)''"
| "io_error_display (AlreadyExists p) = lit ''File exists (os error 17)''"
| "io_error_display (NotADirectory p) = lit ''Not a directory (os error 20)''"
| "io_error_display (IsADirectory p) = lit ''Is a directory (os error 21)''"
| "io_error_display (StorageFull p) = lit ''No space left on device (os error 28)''"
| "io_error_display (InputOutput p) = lit ''Input/output error (os error 5)''"

fun asym_display :: "asym_error \<Rightarrow> str" where
  "asym_display (Asym_Io e) = lit ''I/O error: '' @ io_error_display e"
| "asym_display (Asym_Invalid m) = lit ''invalid asymmetric operation: '' @ m"
| "asym_display (Asym_Integrity m) = lit ''asymmetric integrity error: '' @ m"
| "asym_display (Asym_Provider m) = lit ''CNG provider error: '' @ m"
| "asym_display (Asym_Truncated context offset remaining) =
     lit ''truncated '' @ context @ lit '' at offset '' @ dec_bytes offset
       @ lit '': remaining_bytes='' @ dec_bytes remaining"

subsection \<open>Identifiers\<close>

text \<open>\<open>char::is_control\<close> on the UTF-8 bytes: U+0000 to U+001F, U+007F, and U+0080 to U+009F.\<close>

fun has_control :: "str \<Rightarrow> bool" where
  "has_control [] = False"
| "has_control (a # bs) =
     (a < 0x20 \<or> a = 0x7F \<or> (case bs of b # r \<Rightarrow> a = 0xC2 \<and> 0x80 \<le> b \<and> b \<le> 0x9F | [] \<Rightarrow> False)
      \<or> has_control bs)"

definition validate_identifier :: "str \<Rightarrow> str \<Rightarrow> asym_error + unit" where
  "validate_identifier name value =
     (if value = [] \<or> 1024 < length value
      then Inl (Asym_Invalid (name @ lit '' must contain 1..1024 UTF-8 bytes''))
      else if has_control value
      then Inl (Asym_Invalid (name @ lit '' contains a control character''))
      else Inr ())"

subsection \<open>Keys\<close>

datatype key_event_kind = Key_Enroll | Key_Rotate | Key_Revoke

record key_event =
  ke_sequence :: u64
  ke_kind :: key_event_kind
  ke_role_mask :: u16
  ke_logical_timestamp :: u64
  ke_generation :: u64
  ke_key_id :: str
  ke_provider_name :: str
  ke_provider_key_name :: str
  ke_public_blob :: bytes
  ke_public_key_digest :: bytes
  ke_previous_public_key_digest :: bytes
  ke_provider_key_name_digest :: bytes
  ke_subject_digest :: bytes
  ke_signature_old :: bytes
  ke_signature_new :: bytes
  ke_nonce :: str
  ke_previous_digest :: bytes
  ke_frame_digest :: bytes

record key_state =
  ks_key_id :: str
  ks_provider_name :: str
  ks_provider_key_name :: str
  ks_role_mask :: u16
  ks_generation :: u64
  ks_public_blob :: bytes
  ks_public_key_digest :: bytes
  ks_active :: bool
  ks_last_event_sequence :: u64

definition has_role :: "key_state \<Rightarrow> u16 \<Rightarrow> bool" where
  "has_role s required \<longleftrightarrow> ks_active s \<and> required \<noteq> 0 \<and> ks_role_mask s AND required = required"

record key_registry =
  kr_path :: path
  kr_events :: "key_event list"
  kr_states :: "(str, key_state) btree"
  kr_states_by_head :: "(bytes, (str, key_state) btree) btree"
  kr_used_nonces :: "(str \<times> str) list"
  kr_head_digest :: bytes
  kr_last_timestamp :: u64

definition state_at_head :: "key_registry \<Rightarrow> bytes \<Rightarrow> str \<Rightarrow> key_state option" where
  "state_at_head r head key_id = Option.bind (bt_get (kr_states_by_head r) head) (\<lambda>states. bt_get states key_id)"

subsection \<open>Signatures\<close>

definition ECDSA_P256_PUBLIC_BLOB_BYTES :: nat where "ECDSA_P256_PUBLIC_BLOB_BYTES = 72"

text \<open>\<open>{:08X}\<close> of a \<open>u32\<close>.\<close>

definition hex08 :: "u32 \<Rightarrow> str" where
  "hex08 w = hex_digest (u32_be w)"

definition validate_public_blob :: "bytes \<Rightarrow> asym_error + unit" where
  "validate_public_blob blob =
     (if length blob \<noteq> ECDSA_P256_PUBLIC_BLOB_BYTES
      then Inl (Asym_Invalid (lit ''ECDSA P-256 public blob must be '' @ dec_bytes ECDSA_P256_PUBLIC_BLOB_BYTES
                  @ lit '' bytes, got '' @ dec_bytes (length blob)))
      else
        let magic = from_le (slice blob 0 4) :: u32; key_bytes = from_le (slice blob 4 8) :: u32 in
        if magic \<noteq> 0x31534345 \<or> key_bytes \<noteq> 32
        then Inl (Asym_Invalid (lit ''invalid ECDSA P-256 public blob header: magic=0x'' @ hex08 magic
                    @ lit '' key_bytes='' @ dec_bytes (unat key_bytes)))
        else Inr ())"

type_synonym signature_check = "bytes \<Rightarrow> bytes \<Rightarrow> bytes \<Rightarrow> asym_error + bool"

definition verify_digest :: "signature_check \<Rightarrow> bytes \<Rightarrow> bytes \<Rightarrow> bytes \<Rightarrow> asym_error + bool" where
  "verify_digest bcrypt blob digest sig = rbind (validate_public_blob blob) (\<lambda>_. bcrypt blob digest sig)"

subsection \<open>Authorisations\<close>

definition AUTHORIZATION_DOMAIN :: bytes where "AUTHORIZATION_DOMAIN = lit ''UBASAU01''"
definition EVENT_ID_DOMAIN :: bytes where "EVENT_ID_DOMAIN = lit ''UBASEV01''"

record authorization =
  au_sequence :: u64
  au_domain_code :: u8
  au_required_role_mask :: u16
  au_logical_timestamp :: u64
  au_key_id :: str
  au_nonce :: str
  au_subject_digest :: bytes
  au_key_registry_head :: bytes
  au_public_key_digest :: bytes
  au_authorization_digest :: bytes
  au_event_id :: bytes
  au_signature :: bytes
  au_previous_digest :: bytes
  au_frame_digest :: bytes

record authorization_ledger =
  al_path :: path
  al_events :: "authorization list"
  al_used_nonces :: "(str \<times> str) list"
  al_head_digest :: bytes
  al_last_timestamp :: u64

definition authorization_message_digest ::
  "u8 \<Rightarrow> u16 \<Rightarrow> bytes \<Rightarrow> bytes \<Rightarrow> bytes \<Rightarrow> u64 \<Rightarrow> str \<Rightarrow> str \<Rightarrow> asym_error + bytes" where
  "authorization_message_digest domain_code role_mask subject registry_head public_key timestamp key_id nonce =
     rbind (validate_identifier (lit ''key_id'') key_id) (\<lambda>_.
     rbind (validate_identifier (lit ''nonce'') nonce) (\<lambda>_.
     if domain_code = 0 \<or> role_mask = 0 \<or> subject = replicate 32 0 \<or> registry_head = replicate 32 0
        \<or> public_key = replicate 32 0 \<or> timestamp = 0
     then Inl (Asym_Invalid (lit ''invalid authorization digest fields''))
     else Inr (sha256 (AUTHORIZATION_DOMAIN @ [domain_code, 1] @ u16_le role_mask @ subject @ registry_head
            @ public_key @ u64_le timestamp @ u32_le (of_nat (length key_id)) @ u32_le (of_nat (length nonce))
            @ key_id @ nonce))))"

definition authorization_event_id :: "bytes \<Rightarrow> bytes \<Rightarrow> bytes" where
  "authorization_event_id digest sig = sha256 (EVENT_ID_DOMAIN @ digest @ sig)"

definition verify_event :: "signature_check \<Rightarrow> authorization \<Rightarrow> key_registry \<Rightarrow> asym_error + bool" where
  "verify_event bcrypt e registry =
     rbind (validate_identifier (lit ''key_id'') (au_key_id e)) (\<lambda>_.
     rbind (validate_identifier (lit ''nonce'') (au_nonce e)) (\<lambda>_.
     if au_domain_code e = 0 \<or> au_required_role_mask e = 0 \<or> au_logical_timestamp e = 0
        \<or> au_subject_digest e = replicate 32 0 \<or> au_key_registry_head e = replicate 32 0
        \<or> au_public_key_digest e = replicate 32 0 \<or> au_signature e = replicate 64 0
     then Inl (Asym_Invalid (lit ''authorization event invariant mismatch''))
     else
       rbind (ok_or (Asym_Invalid (lit ''authorization references unknown registry head/key''))
                (state_at_head registry (au_key_registry_head e) (au_key_id e))) (\<lambda>state.
       if \<not> has_role state (au_required_role_mask e) \<or> ks_public_key_digest state \<noteq> au_public_key_digest e
       then Inl (Asym_Invalid (lit ''authorization key state/role mismatch''))
       else
         rbind (authorization_message_digest (au_domain_code e) (au_required_role_mask e) (au_subject_digest e)
                  (au_key_registry_head e) (au_public_key_digest e) (au_logical_timestamp e) (au_key_id e)
                  (au_nonce e)) (\<lambda>expected_digest.
         if expected_digest \<noteq> au_authorization_digest e
         then Inl (Asym_Integrity (lit ''authorization message digest mismatch''))
         else if authorization_event_id (au_authorization_digest e) (au_signature e) \<noteq> au_event_id e
         then Inl (Asym_Integrity (lit ''authorization event ID mismatch''))
         else verify_digest bcrypt (ks_public_blob state) (au_authorization_digest e) (au_signature e)))))"

text \<open>\<open>events.iter().find(|e| e.sequence == sequence)\<close>.\<close>

definition find_authorization :: "authorization_ledger \<Rightarrow> u64 \<Rightarrow> authorization option" where
  "find_authorization l seqno = List.find (\<lambda>e. au_sequence e = seqno) (al_events l)"

definition verify_sequence ::
  "signature_check \<Rightarrow> authorization_ledger \<Rightarrow> u64 \<Rightarrow> key_registry \<Rightarrow> asym_error + bool" where
  "verify_sequence bcrypt l seqno registry =
     rbind (ok_or (Asym_Invalid (lit ''authorization sequence not found: '' @ dec_bytes (unat seqno)))
              (find_authorization l seqno)) (\<lambda>e. verify_event bcrypt e registry)"

definition identifier_ok :: "str \<Rightarrow> bool" where
  "identifier_ok s \<longleftrightarrow> s \<noteq> [] \<and> length s \<le> 1024 \<and> \<not> has_control s"

lemma validate_identifier_iff: "validate_identifier n v = Inr u \<longleftrightarrow> identifier_ok v"
  by (auto simp: validate_identifier_def identifier_ok_def)

lemma verify_event_iff:
  "verify_event b e r = Inr v \<longleftrightarrow> identifier_ok (au_key_id e) \<and> identifier_ok (au_nonce e) \<and>
     \<not> (au_domain_code e = 0 \<or> au_required_role_mask e = 0 \<or> au_logical_timestamp e = 0
        \<or> au_subject_digest e = replicate 32 0 \<or> au_key_registry_head e = replicate 32 0
        \<or> au_public_key_digest e = replicate 32 0 \<or> au_signature e = replicate 64 0) \<and>
     (\<exists>s. state_at_head r (au_key_registry_head e) (au_key_id e) = Some s \<and> has_role s (au_required_role_mask e) \<and>
        ks_public_key_digest s = au_public_key_digest e \<and>
        verify_digest b (ks_public_blob s) (au_authorization_digest e) (au_signature e) = Inr v) \<and>
     authorization_message_digest (au_domain_code e) (au_required_role_mask e) (au_subject_digest e)
       (au_key_registry_head e) (au_public_key_digest e) (au_logical_timestamp e) (au_key_id e) (au_nonce e)
       = Inr (au_authorization_digest e) \<and>
     authorization_event_id (au_authorization_digest e) (au_signature e) = au_event_id e"
  unfolding verify_event_def rbind_eq_Inr_iff guard_eq_Inr_iff validate_identifier_iff ok_or_eq_Inr_iff by blast

subsection \<open>Growth of the ledgers\<close>

text \<open>
  A registry and an authorisation ledger only grow: states at earlier heads are kept and
  events are added at the end. What has been verified stays verified.
\<close>

definition registry_extends :: "key_registry \<Rightarrow> key_registry \<Rightarrow> bool" where
  "registry_extends r r' \<longleftrightarrow>
     (\<forall>h m. bt_get (kr_states_by_head r) h = Some m \<longrightarrow> bt_get (kr_states_by_head r') h = Some m)"

definition authorizations_extend :: "authorization_ledger \<Rightarrow> authorization_ledger \<Rightarrow> bool" where
  "authorizations_extend l l' \<longleftrightarrow> (\<exists>new. al_events l' = al_events l @ new)"

lemma find_append_Some: "List.find P xs = Some x \<Longrightarrow> List.find P (xs @ ys) = Some x"
  by (induction xs) auto

lemma find_authorization_extends:
  "authorizations_extend l l' \<Longrightarrow> find_authorization l q = Some e \<Longrightarrow> find_authorization l' q = Some e"
  by (auto simp: authorizations_extend_def find_authorization_def find_append_Some)

lemma state_at_head_extends:
  "registry_extends r r' \<Longrightarrow> state_at_head r h k = Some s \<Longrightarrow> state_at_head r' h k = Some s"
  by (auto simp: registry_extends_def state_at_head_def bind_eq_Some_conv)

lemma verify_event_extends:
  "registry_extends r r' \<Longrightarrow> verify_event b e r = Inr v \<Longrightarrow> verify_event b e r' = Inr v"
  unfolding verify_event_iff using state_at_head_extends by blast

lemma verify_sequence_extends:
  "registry_extends r r' \<Longrightarrow> authorizations_extend l l' \<Longrightarrow> verify_sequence b l q r = Inr v \<Longrightarrow>
   verify_sequence b l' q r' = Inr v"
  by (auto simp: verify_sequence_def rbind_eq_Inr_iff find_authorization_extends verify_event_extends)

end
