(* ===== verification/Ub_Provider.thy ===== *)
theory Ub_Provider
  imports Ub_Asymmetric
begin

text \<open>
  Signing providers (\<open>ultraballoondb-trust-asymmetric/src/provider.rs\<close>) and the checks that
  \<open>cng.rs\<close> makes around the key storage of the operating system.

  A provider is the record of the answers it gives to the methods of the trait
  \<open>SigningProvider\<close> during one call of a ledger. The key storage of the operating system is the
  record \<open>cng\<close>: creating a key gives its public blob and whether the export of the private key
  is refused.
\<close>

datatype provider_class = Software | Hardware | Tpm

datatype provider_requirement = SoftwareAllowed | HardwareRequired | TpmRequired

record provider_capabilities =
  pc_provider_name :: str
  pc_provider_class :: provider_class
  pc_available :: bool
  pc_persistent_keys :: bool
  pc_private_export_rejected :: bool
  pc_hardware_bound :: bool
  pc_tpm_used :: bool
  pc_evidence_digest :: bytes

record key_material =
  km_provider_name :: str
  km_provider_key_name :: str
  km_public_blob :: bytes
  km_private_export_rejected :: bool

record signing_provider =
  sp_capabilities :: provider_capabilities
  sp_create_key :: "str \<Rightarrow> asym_error + key_material"
  sp_export_public :: "str \<Rightarrow> asym_error + bytes"
  sp_sign :: "str \<Rightarrow> bytes \<Rightarrow> asym_error + bytes"
  sp_verify :: "bytes \<Rightarrow> bytes \<Rightarrow> bytes \<Rightarrow> asym_error + bool"

record cng =
  cng_create :: "str \<Rightarrow> str \<Rightarrow> asym_error + bytes \<times> bool"
  cng_export :: "str \<Rightarrow> str \<Rightarrow> asym_error + bytes"
  cng_sign :: "str \<Rightarrow> str \<Rightarrow> bytes \<Rightarrow> asym_error + bytes"
  cng_export_rejected :: "str \<Rightarrow> str \<Rightarrow> asym_error + bool"
  cng_verify :: signature_check

definition SOFTWARE_KSP :: str where "SOFTWARE_KSP = lit ''Microsoft Software Key Storage Provider''"

fun class_str :: "provider_class \<Rightarrow> str" where
  "class_str Software = lit ''SOFTWARE''"
| "class_str Hardware = lit ''HARDWARE''"
| "class_str Tpm = lit ''TPM''"

fun requirement_str :: "provider_requirement \<Rightarrow> str" where
  "requirement_str SoftwareAllowed = lit ''SOFTWARE_ALLOWED''"
| "requirement_str HardwareRequired = lit ''HARDWARE_REQUIRED''"
| "requirement_str TpmRequired = lit ''TPM_REQUIRED''"

definition bool_str :: "bool \<Rightarrow> str" where
  "bool_str b = (if b then lit ''true'' else lit ''false'')"

definition satisfies :: "provider_capabilities \<Rightarrow> provider_requirement \<Rightarrow> bool" where
  "satisfies c r =
     (if \<not> pc_available c \<or> \<not> pc_persistent_keys c \<or> \<not> pc_private_export_rejected c then False
      else case r of
        SoftwareAllowed \<Rightarrow> True
      | HardwareRequired \<Rightarrow> pc_hardware_bound c
      | TpmRequired \<Rightarrow> pc_tpm_used c)"

definition enforce_provider_requirement ::
  "signing_provider \<Rightarrow> provider_requirement \<Rightarrow> asym_error + provider_capabilities" where
  "enforce_provider_requirement provider requirement =
     (let c = sp_capabilities provider in
      if \<not> satisfies c requirement
      then Inl (Asym_Provider (lit ''provider requirement rejected: requirement='' @ requirement_str requirement
        @ lit '' provider='' @ pc_provider_name c @ lit '' class='' @ class_str (pc_provider_class c)
        @ lit '' available='' @ bool_str (pc_available c) @ lit '' hardware_bound='' @ bool_str (pc_hardware_bound c)
        @ lit '' tpm_used='' @ bool_str (pc_tpm_used c)))
      else Inr c)"

definition select_provider :: "signing_provider list \<Rightarrow> provider_requirement \<Rightarrow> asym_error + signing_provider" where
  "select_provider candidates requirement =
     ok_or (Asym_Provider (lit ''no provider satisfies requirement '' @ requirement_str requirement))
       (List.find (\<lambda>p. satisfies (sp_capabilities p) requirement) candidates)"

definition create_persisted_key :: "cng \<Rightarrow> str \<Rightarrow> str \<Rightarrow> asym_error + key_material" where
  "create_persisted_key os provider_name key_name =
     (if provider_name \<noteq> SOFTWARE_KSP
      then Inl (Asym_Invalid (lit ''unsupported T6B provider: '' @ provider_name))
      else
        rbind (validate_identifier (lit ''provider_key_name'') key_name) (\<lambda>_.
        rbind (cng_create os provider_name key_name) (\<lambda>(blob, rejected).
        rbind (validate_public_blob blob) (\<lambda>_.
        if \<not> rejected then Inl (Asym_Provider (lit ''private-key export was unexpectedly allowed''))
        else Inr \<lparr>km_provider_name = provider_name, km_provider_key_name = key_name, km_public_blob = blob,
               km_private_export_rejected = rejected\<rparr>))))"

definition export_public_blob :: "cng \<Rightarrow> str \<Rightarrow> str \<Rightarrow> asym_error + bytes" where
  "export_public_blob os provider_name key_name =
     rbind (cng_export os provider_name key_name) (\<lambda>blob.
     rbind (validate_public_blob blob) (\<lambda>_. Inr blob))"

subsection \<open>The providers of the crate\<close>

definition software_cng_provider :: "bool \<Rightarrow> cng \<Rightarrow> signing_provider" where
  "software_cng_provider windows os =
     \<lparr>sp_capabilities = \<lparr>pc_provider_name = SOFTWARE_KSP, pc_provider_class = Software, pc_available = windows,
        pc_persistent_keys = True, pc_private_export_rejected = True, pc_hardware_bound = False, pc_tpm_used = False,
        pc_evidence_digest = replicate 32 0\<rparr>,
      sp_create_key = (\<lambda>name.
        rbind (create_persisted_key os SOFTWARE_KSP name) (\<lambda>material.
        if \<not> km_private_export_rejected material
        then Inl (Asym_Provider (lit ''software CNG private export rejection not proven''))
        else rbind (cng_export_rejected os SOFTWARE_KSP name) (\<lambda>rejected.
          if \<not> rejected then Inl (Asym_Provider (lit ''software CNG private export rejection not proven''))
          else Inr material))),
      sp_export_public = export_public_blob os SOFTWARE_KSP,
      sp_sign = cng_sign os SOFTWARE_KSP,
      sp_verify = verify_digest (cng_verify os)\<rparr>"

definition provider_no_go :: "str \<Rightarrow> provider_class \<Rightarrow> bytes \<Rightarrow> asym_error + 'a" where
  "provider_no_go name cls evidence =
     Inl (Asym_Provider (lit ''provider unavailable: '' @ name @ lit '' class='' @ class_str cls
       @ lit '' evidence_digest='' @ hex_digest evidence))"

definition unavailable_provider :: "str \<Rightarrow> provider_class \<Rightarrow> bytes \<Rightarrow> signing_provider" where
  "unavailable_provider name cls evidence =
     \<lparr>sp_capabilities = \<lparr>pc_provider_name = name, pc_provider_class = cls, pc_available = False,
        pc_persistent_keys = False, pc_private_export_rejected = False, pc_hardware_bound = (cls \<noteq> Software),
        pc_tpm_used = (cls = Tpm), pc_evidence_digest = evidence\<rparr>,
      sp_create_key = (\<lambda>name'. provider_no_go name cls evidence),
      sp_export_public = (\<lambda>name'. provider_no_go name cls evidence),
      sp_sign = (\<lambda>name' digest. provider_no_go name cls evidence),
      sp_verify = (\<lambda>blob digest sig. provider_no_go name cls evidence)\<rparr>"

lemma enforce_iff:
  "enforce_provider_requirement p r = Inr c \<longleftrightarrow> c = sp_capabilities p \<and> satisfies (sp_capabilities p) r"
  by (auto simp: enforce_provider_requirement_def Let_def)

lemma unavailable_never_satisfies: "\<not> satisfies (sp_capabilities (unavailable_provider n c d)) r"
  by (simp add: unavailable_provider_def satisfies_def)

lemma software_not_hardware:
  "satisfies (sp_capabilities (software_cng_provider w os)) r \<Longrightarrow> r = SoftwareAllowed"
  by (cases r) (simp_all add: software_cng_provider_def satisfies_def split: if_splits)

lemma select_provider_sound:
  assumes "select_provider ps r = Inr p"
  shows "p \<in> set ps" and "satisfies (sp_capabilities p) r"
  using assms by (auto simp: select_provider_def find_Some_iff)

lemma select_provider_complete:
  "p \<in> set ps \<Longrightarrow> satisfies (sp_capabilities p) r \<Longrightarrow> \<exists>q. select_provider ps r = Inr q"
  by (auto simp: select_provider_def ok_or_def find_None_iff split: option.splits)

end
