(* ===== verification/Ub_Federation.thy ===== *)
theory Ub_Federation
  imports Ub_Provider
begin

text \<open>
  The state of the federation ledger (\<open>ultraballoondb-trust-federation\<close>): namespace policies,
  authorities, accepted bundles and the events that led to them. The provenance ledger reads
  the policies and the events.
\<close>

datatype federation_event_kind = NamespacePolicySet | AuthorityEnroll | AuthorityRevoke | BundleAccept

record namespace_policy =
  np_namespace :: str
  np_policy_version :: u64
  np_controller_key_id :: str
  np_controller_role_mask :: u16
  np_authority_role_mask :: u16
  np_quorum_weight :: u32
  np_provider_requirement :: provider_requirement
  np_policy_digest :: bytes

record authority_state =
  as_namespace :: str
  as_key_id :: str
  as_role_mask :: u16
  as_weight :: u32
  as_active :: bool
  as_last_event_sequence :: u64

record accepted_bundle =
  ab_namespace :: str
  ab_policy_version :: u64
  ab_bundle_version :: u64
  ab_bundle_digest :: bytes
  ab_event_sequence :: u64

record federation_event =
  fe_sequence :: u64
  fe_kind :: federation_event_kind
  fe_logical_timestamp :: u64
  fe_namespace :: str
  fe_key_id :: str
  fe_controller_key_id :: str
  fe_controller_role_mask :: u16
  fe_authority_role_mask :: u16
  fe_weight :: u32
  fe_quorum_weight :: u32
  fe_provider_requirement :: provider_requirement
  fe_policy_version :: u64
  fe_bundle_version :: u64
  fe_policy_digest :: bytes
  fe_parent_bundle_digest :: bytes
  fe_bundle_digest :: bytes
  fe_subject_digest :: bytes
  fe_controller_authorization_sequence :: u64
  fe_approval_sequences :: "u64 list"
  fe_previous_digest :: bytes
  fe_frame_digest :: bytes

record federation_ledger =
  fl_path :: path
  fl_events :: "federation_event list"
  fl_policies :: "(str, namespace_policy) btree"
  fl_authorities :: "(str \<times> str, authority_state) btree"
  fl_accepted :: "(str, accepted_bundle) btree"
  fl_used_authorization_ids :: "bytes list"
  fl_head_digest :: bytes
  fl_last_timestamp :: u64

text \<open>A federation ledger only grows: events are added and a namespace keeps its policy.\<close>

definition federation_extends :: "federation_ledger \<Rightarrow> federation_ledger \<Rightarrow> bool" where
  "federation_extends f f' \<longleftrightarrow> (\<exists>new. fl_events f' = fl_events f @ new) \<and>
     (\<forall>n p. bt_get (fl_policies f) n = Some p \<longrightarrow> bt_get (fl_policies f') n = Some p)"

end
