(* ===== verification/Ub_Provenance.thy ===== *)
theory Ub_Provenance
  imports Ub_Federation
begin

text \<open>
  The provenance ledger (\<open>ultraballoondb-provenance/src/lib.rs\<close>): events about the versions of
  objects, each bound to a signed authorisation and to an accepted federation bundle, chained
  by digests and replayed strictly when the file is opened.

  The cursor over a payload (\<open>struct Cursor\<close>) is the pair of the bytes that are left and the
  offset reached. A panic of \<open>latest + 1\<close> would need 2 to the 64 versions of one object; the
  sum is the one of \<open>u64\<close>.
\<close>

subsection \<open>Data\<close>

definition PROVENANCE_DOMAIN :: u8 where "PROVENANCE_DOMAIN = 9"
definition PROV_FILE_MAGIC :: bytes where "PROV_FILE_MAGIC = lit ''UBPROV1'' @ [0]"
definition PROV_PAYLOAD_MAGIC :: bytes where "PROV_PAYLOAD_MAGIC = lit ''UBPRP01'' @ [0]"
definition SUBJECT_DOMAIN :: bytes where "SUBJECT_DOMAIN = lit ''UBPRSUB1''"
definition ID_DOMAIN :: bytes where "ID_DOMAIN = lit ''UBPRID01''"
definition FRAME_DOMAIN :: bytes where "FRAME_DOMAIN = lit ''UBPRFR01''"
definition PROV_FORMAT_VERSION :: u16 where "PROV_FORMAT_VERSION = 1"
definition PROV_MAX_PAYLOAD_BYTES :: nat where "PROV_MAX_PAYLOAD_BYTES = 8 * 1024 * 1024"
definition MAX_PARENTS :: nat where "MAX_PARENTS = 1024"

datatype prov_error =
  Prov_Io io_error | Prov_Invalid str | Prov_Integrity str | Prov_Trust str | Prov_Truncated str nat

datatype prov_kind = Source | Imported | Derived

fun prov_kind_code :: "prov_kind \<Rightarrow> u8" where
  "prov_kind_code Source = 1"
| "prov_kind_code Imported = 2"
| "prov_kind_code Derived = 3"

definition prov_kind_from_code :: "u8 \<Rightarrow> prov_error + prov_kind" where
  "prov_kind_from_code c =
     (if c = 1 then Inr Source else if c = 2 then Inr Imported else if c = 3 then Inr Derived
      else Inl (Prov_Invalid (lit ''unknown provenance kind '' @ dec_bytes (unat c))))"

record prov_input =
  pi_kind :: prov_kind
  pi_logical_timestamp :: u64
  pi_namespace :: str
  pi_object_id :: str
  pi_object_kind :: str
  pi_object_version :: u64
  pi_actor_key_id :: str
  pi_source_locator_digest :: bytes
  pi_content_digest :: bytes
  pi_operation_digest :: bytes
  pi_transformation_digest :: bytes
  pi_federation_policy_version :: u64
  pi_federation_policy_digest :: bytes
  pi_federation_bundle_version :: u64
  pi_federation_bundle_digest :: bytes
  pi_authorization_sequence :: u64
  pi_parent_provenance_ids :: "bytes list"

record prov_event =
  pe_sequence :: u64
  pe_kind :: prov_kind
  pe_logical_timestamp :: u64
  pe_namespace :: str
  pe_object_id :: str
  pe_object_kind :: str
  pe_object_version :: u64
  pe_actor_key_id :: str
  pe_source_locator_digest :: bytes
  pe_content_digest :: bytes
  pe_operation_digest :: bytes
  pe_transformation_digest :: bytes
  pe_federation_policy_version :: u64
  pe_federation_policy_digest :: bytes
  pe_federation_bundle_version :: u64
  pe_federation_bundle_digest :: bytes
  pe_authorization_sequence :: u64
  pe_authorization_event_id :: bytes
  pe_authorization_frame_digest :: bytes
  pe_parent_provenance_ids :: "bytes list"
  pe_subject_digest :: bytes
  pe_provenance_id :: bytes
  pe_previous_digest :: bytes
  pe_frame_digest :: bytes

record prov_receipt =
  pr_sequence :: u64
  pr_provenance_id :: bytes
  pr_frame_digest :: bytes
  pr_object_version :: u64

record prov_ledger =
  pl_path :: path
  pl_events :: "prov_event list"
  pl_by_id :: "(bytes, nat) btree"
  pl_latest_object_versions :: "(str \<times> str, u64) btree"
  pl_used_authorization_sequences :: "u64 list"
  pl_head_digest :: bytes
  pl_last_timestamp :: u64

definition prov_empty :: "path \<Rightarrow> prov_ledger" where
  "prov_empty p = \<lparr>pl_path = p, pl_events = [], pl_by_id = [], pl_latest_object_versions = [],
     pl_used_authorization_sequences = [], pl_head_digest = replicate 32 0, pl_last_timestamp = 0\<rparr>"

definition prov_create :: "path \<Rightarrow> (prov_error, prov_ledger) io" where
  "prov_create path =
     io_bind (case path_parent path of
                Some parent \<Rightarrow> io_map_err Prov_Io (create_dir_all parent)
              | None \<Rightarrow> io_ret ()) (\<lambda>_.
     io_bind (io_map_err Prov_Io (create_new path [])) (\<lambda>_.
     io_ret (prov_empty path)))"

definition prov_get :: "prov_ledger \<Rightarrow> bytes \<Rightarrow> prov_event option" where
  "prov_get l pid = Option.bind (bt_get (pl_by_id l) pid)
     (\<lambda>i. if i < length (pl_events l) then Some (pl_events l ! i) else None)"

definition latest_object_version :: "prov_ledger \<Rightarrow> str \<Rightarrow> str \<Rightarrow> u64 option" where
  "latest_object_version l namespace object_id = bt_get (pl_latest_object_versions l) (namespace, object_id)"

subsection \<open>Lineage\<close>

text \<open>
  \<open>collect_lineage\<close> with its two accumulators \<open>visited\<close> and \<open>ordered\<close>. Every call that
  recurses adds one known identifier to \<open>visited\<close>, so the depth is at most their number:
  \<open>None\<close>, out of fuel, is never the result of \<open>lineage\<close>.
\<close>

type_synonym lineage_state = "bytes list \<times> prov_event list"

fun collect_lineage :: "nat \<Rightarrow> prov_ledger \<Rightarrow> bytes \<Rightarrow> lineage_state \<Rightarrow> (prov_error + lineage_state) option"
  and collect_parents :: "nat \<Rightarrow> prov_ledger \<Rightarrow> bytes list \<Rightarrow> lineage_state \<Rightarrow> (prov_error + lineage_state) option" where
  "collect_lineage 0 l pid st = None"
| "collect_lineage (Suc n) l pid (visited, ordered) =
     (if pid \<in> set visited then Some (Inr (visited, ordered))
      else
        let visited = bset_insert pid visited in
        case prov_get l pid of
          None \<Rightarrow> Some (Inl (Prov_Integrity (lit ''lineage parent missing'')))
        | Some event \<Rightarrow>
          case collect_parents n l (pe_parent_provenance_ids event) (visited, ordered) of
            None \<Rightarrow> None
          | Some (Inl e) \<Rightarrow> Some (Inl e)
          | Some (Inr (visited, ordered)) \<Rightarrow> Some (Inr (visited, ordered @ [event])))"
| "collect_parents n l [] st = Some (Inr st)"
| "collect_parents n l (p # ps) st =
     (case collect_lineage n l p st of
        None \<Rightarrow> None
      | Some (Inl e) \<Rightarrow> Some (Inl e)
      | Some (Inr st) \<Rightarrow> collect_parents n l ps st)"

definition lineage :: "prov_ledger \<Rightarrow> bytes \<Rightarrow> (prov_error + prov_event list) option" where
  "lineage l pid =
     (if bt_get (pl_by_id l) pid = None then Some (Inl (Prov_Invalid (lit ''provenance id not found'')))
      else map_option (\<lambda>r. rbind r (\<lambda>(visited, ordered). Inr ordered))
             (collect_lineage (Suc (Suc (length (pl_by_id l)))) l pid ([], [])))"

subsection \<open>Text and fields\<close>

definition is_ascii_graphic :: "u8 \<Rightarrow> bool" where
  "is_ascii_graphic b \<longleftrightarrow> 0x21 \<le> b \<and> b \<le> 0x7E"

definition validate_text :: "str \<Rightarrow> str \<Rightarrow> prov_error + unit" where
  "validate_text field value =
     (if value = [] \<or> 255 < length value \<or> \<not> list_all (\<lambda>b. is_ascii_graphic b \<and> b \<noteq> 0x5C) value
      then Inl (Prov_Invalid (lit ''invalid '' @ field)) else Inr ())"

definition put_string :: "str \<Rightarrow> prov_error + bytes" where
  "put_string value =
     rbind (validate_text (lit ''encoded text'') value) (\<lambda>_.
     if length value < 2 ^ 16 then Inr (u16_le (of_nat (length value)) @ value)
     else Inl (Prov_Invalid (lit ''encoded text too long'')))"

definition prov_read_u64 :: "bytes \<Rightarrow> nat \<Rightarrow> prov_error + u64" where
  "prov_read_u64 bs offset = rbind (ok_or (Prov_Truncated (lit ''u64'') offset) (get_range bs offset (offset + 8)))
     (\<lambda>v. Inr (from_le v))"

definition prov_read_u32 :: "bytes \<Rightarrow> nat \<Rightarrow> prov_error + u32" where
  "prov_read_u32 bs offset = rbind (ok_or (Prov_Truncated (lit ''u32'') offset) (get_range bs offset (offset + 4)))
     (\<lambda>v. Inr (from_le v))"

type_synonym cursor = "bytes \<times> nat"

definition cursor_take :: "nat \<Rightarrow> cursor \<Rightarrow> prov_error + bytes \<times> cursor" where
  "cursor_take n c =
     (case c of (rest, offset) \<Rightarrow>
        rbind (ok_or (Prov_Integrity (lit ''cursor overflow'')) (checked_add offset n)) (\<lambda>stop.
        if length rest < n then Inl (Prov_Truncated (lit ''provenance payload field'') offset)
        else Inr (take n rest, (drop n rest, stop))))"

definition cursor_u64 :: "cursor \<Rightarrow> prov_error + u64 \<times> cursor" where
  "cursor_u64 c = rbind (cursor_take 8 c) (\<lambda>(v, c). Inr (from_le v, c))"

definition cursor_u32 :: "cursor \<Rightarrow> prov_error + u32 \<times> cursor" where
  "cursor_u32 c = rbind (cursor_take 4 c) (\<lambda>(v, c). Inr (from_le v, c))"

definition cursor_digest :: "cursor \<Rightarrow> prov_error + bytes \<times> cursor" where
  "cursor_digest c = cursor_take 32 c"

definition cursor_string :: "cursor \<Rightarrow> prov_error + str \<times> cursor" where
  "cursor_string c =
     rbind (cursor_take 2 c) (\<lambda>(v, c).
     rbind (cursor_take (unat (from_le v :: u16)) c) (\<lambda>(value, c).
     if \<not> utf8_valid value then Inl (Prov_Integrity (lit ''invalid UTF-8''))
     else rbind (validate_text (lit ''decoded text'') value) (\<lambda>_. Inr (value, c))))"

fun cursor_digests :: "nat \<Rightarrow> cursor \<Rightarrow> prov_error + bytes list \<times> cursor" where
  "cursor_digests 0 c = Inr ([], c)"
| "cursor_digests (Suc n) c =
     rbind (cursor_digest c) (\<lambda>(d, c).
     rbind (cursor_digests n c) (\<lambda>(ds, c). Inr (d # ds, c)))"

subsection \<open>Shape of an input\<close>

fun validate_parents :: "bytes option \<Rightarrow> bytes list \<Rightarrow> prov_error + unit" where
  "validate_parents previous [] = Inr ()"
| "validate_parents previous (p # ps) =
     (if p = replicate 32 0 \<or> (case previous of Some v \<Rightarrow> p \<le> v | None \<Rightarrow> False)
      then Inl (Prov_Invalid (lit ''parent provenance ids must be nonzero, unique, and strictly sorted''))
      else validate_parents (Some p) ps)"

definition validate_input_shape :: "prov_input \<Rightarrow> prov_error + unit" where
  "validate_input_shape i =
     rbind (validate_text (lit ''namespace'') (pi_namespace i)) (\<lambda>_.
     rbind (validate_text (lit ''object_id'') (pi_object_id i)) (\<lambda>_.
     rbind (validate_text (lit ''object_kind'') (pi_object_kind i)) (\<lambda>_.
     rbind (validate_text (lit ''actor_key_id'') (pi_actor_key_id i)) (\<lambda>_.
     if pi_logical_timestamp i = 0 \<or> pi_object_version i = 0 \<or> pi_content_digest i = replicate 32 0
        \<or> pi_operation_digest i = replicate 32 0 \<or> pi_federation_policy_version i = 0
        \<or> pi_federation_policy_digest i = replicate 32 0 \<or> pi_federation_bundle_version i = 0
        \<or> pi_federation_bundle_digest i = replicate 32 0 \<or> MAX_PARENTS < length (pi_parent_provenance_ids i)
     then Inl (Prov_Invalid (lit ''required provenance field missing''))
     else
       rbind (validate_parents None (pi_parent_provenance_ids i)) (\<lambda>_.
       case pi_kind i of
         Derived \<Rightarrow>
           if pi_transformation_digest i = replicate 32 0 \<or> pi_parent_provenance_ids i = []
           then Inl (Prov_Invalid (lit ''derived provenance requires transformation digest and parents''))
           else Inr ()
       | _ \<Rightarrow>
           if pi_source_locator_digest i = replicate 32 0 \<or> pi_transformation_digest i \<noteq> replicate 32 0
              \<or> pi_parent_provenance_ids i \<noteq> []
           then Inl (Prov_Invalid
             (lit ''source/imported provenance requires source digest, zero transform, and no parents''))
           else Inr ())))))"

subsection \<open>Digests\<close>

definition provenance_subject_digest :: "prov_input \<Rightarrow> prov_error + bytes" where
  "provenance_subject_digest i =
     rbind (validate_input_shape i) (\<lambda>_.
     rbind (put_string (pi_namespace i)) (\<lambda>namespace.
     rbind (put_string (pi_object_id i)) (\<lambda>object_id.
     rbind (put_string (pi_object_kind i)) (\<lambda>object_kind.
     rbind (put_string (pi_actor_key_id i)) (\<lambda>actor.
     Inr (sha256 (SUBJECT_DOMAIN @ [prov_kind_code (pi_kind i)] @ u64_le (pi_logical_timestamp i)
        @ namespace @ object_id @ object_kind @ u64_le (pi_object_version i) @ actor
        @ pi_source_locator_digest i @ pi_content_digest i @ pi_operation_digest i @ pi_transformation_digest i
        @ u64_le (pi_federation_policy_version i) @ pi_federation_policy_digest i
        @ u64_le (pi_federation_bundle_version i) @ pi_federation_bundle_digest i
        @ u32_le (of_nat (length (pi_parent_provenance_ids i))) @ concat (pi_parent_provenance_ids i))))))))"

definition provenance_id_digest :: "bytes \<Rightarrow> bytes \<Rightarrow> bytes" where
  "provenance_id_digest subject auth_id = sha256 (ID_DOMAIN @ subject @ auth_id)"

definition prov_frame_digest :: "u64 \<Rightarrow> u64 \<Rightarrow> bytes \<Rightarrow> bytes \<Rightarrow> bytes \<Rightarrow> bytes" where
  "prov_frame_digest seqno timestamp previous pid payload_digest =
     sha256 (FRAME_DOMAIN @ u64_le seqno @ u64_le timestamp @ previous @ pid @ payload_digest)"

definition event_to_input :: "prov_event \<Rightarrow> prov_input" where
  "event_to_input e = \<lparr>pi_kind = pe_kind e, pi_logical_timestamp = pe_logical_timestamp e,
     pi_namespace = pe_namespace e, pi_object_id = pe_object_id e, pi_object_kind = pe_object_kind e,
     pi_object_version = pe_object_version e, pi_actor_key_id = pe_actor_key_id e,
     pi_source_locator_digest = pe_source_locator_digest e, pi_content_digest = pe_content_digest e,
     pi_operation_digest = pe_operation_digest e, pi_transformation_digest = pe_transformation_digest e,
     pi_federation_policy_version = pe_federation_policy_version e,
     pi_federation_policy_digest = pe_federation_policy_digest e,
     pi_federation_bundle_version = pe_federation_bundle_version e,
     pi_federation_bundle_digest = pe_federation_bundle_digest e,
     pi_authorization_sequence = pe_authorization_sequence e,
     pi_parent_provenance_ids = pe_parent_provenance_ids e\<rparr>"

subsection \<open>Trust in an event\<close>

definition accepted_historically :: "prov_input \<Rightarrow> federation_ledger \<Rightarrow> bool" where
  "accepted_historically i federation \<longleftrightarrow>
     list_ex (\<lambda>e. fe_kind e = BundleAccept \<and> fe_namespace e = pi_namespace i
        \<and> fe_policy_version e = pi_federation_policy_version i
        \<and> fe_bundle_version e = pi_federation_bundle_version i
        \<and> fe_policy_digest e = pi_federation_policy_digest i
        \<and> fe_bundle_digest e = pi_federation_bundle_digest i) (fl_events federation)"

definition verify_federation_binding :: "prov_input \<Rightarrow> u16 \<Rightarrow> federation_ledger \<Rightarrow> prov_error + unit" where
  "verify_federation_binding i role_mask federation =
     rbind (ok_or (Prov_Trust (lit ''namespace federation policy missing''))
              (bt_get (fl_policies federation) (pi_namespace i))) (\<lambda>policy.
     if np_policy_version policy \<noteq> pi_federation_policy_version i
        \<or> np_policy_digest policy \<noteq> pi_federation_policy_digest i
        \<or> role_mask \<noteq> np_authority_role_mask policy
     then Inl (Prov_Trust (lit ''federation policy binding mismatch''))
     else if \<not> accepted_historically i federation
     then Inl (Prov_Trust (lit ''historically accepted federation bundle binding missing''))
     else Inr ())"

definition verify_event_trust ::
  "signature_check \<Rightarrow> prov_event \<Rightarrow> key_registry \<Rightarrow> authorization_ledger \<Rightarrow> federation_ledger \<Rightarrow> prov_error + unit" where
  "verify_event_trust bcrypt e registry authorizations federation =
     rbind (ok_or (Prov_Trust (lit ''authorization sequence missing during replay''))
              (find_authorization authorizations (pe_authorization_sequence e))) (\<lambda>a.
     if au_domain_code a \<noteq> PROVENANCE_DOMAIN \<or> au_key_id a \<noteq> pe_actor_key_id e
        \<or> au_subject_digest a \<noteq> pe_subject_digest e \<or> au_event_id a \<noteq> pe_authorization_event_id e
        \<or> au_frame_digest a \<noteq> pe_authorization_frame_digest e
     then Inl (Prov_Trust (lit ''authorization binding mismatch during replay''))
     else
       rbind (map_err (\<lambda>err. Prov_Trust (asym_display err))
                (verify_sequence bcrypt authorizations (pe_authorization_sequence e) registry)) (\<lambda>ok.
       if \<not> ok then Inl (Prov_Trust (lit ''authorization replay verification failed''))
       else verify_federation_binding (event_to_input e) (au_required_role_mask a) federation))"

text \<open>The event that \<open>build_event\<close> returns once every check has passed.\<close>

definition built_event :: "u64 \<Rightarrow> bytes \<Rightarrow> prov_input \<Rightarrow> authorization \<Rightarrow> bytes \<Rightarrow> prov_event" where
  "built_event seqno previous i a subject = \<lparr>pe_sequence = seqno, pe_kind = pi_kind i, pe_logical_timestamp = pi_logical_timestamp i,
     pe_namespace = pi_namespace i, pe_object_id = pi_object_id i, pe_object_kind = pi_object_kind i,
     pe_object_version = pi_object_version i, pe_actor_key_id = pi_actor_key_id i,
     pe_source_locator_digest = pi_source_locator_digest i, pe_content_digest = pi_content_digest i,
     pe_operation_digest = pi_operation_digest i,
     pe_transformation_digest = pi_transformation_digest i,
     pe_federation_policy_version = pi_federation_policy_version i,
     pe_federation_policy_digest = pi_federation_policy_digest i,
     pe_federation_bundle_version = pi_federation_bundle_version i,
     pe_federation_bundle_digest = pi_federation_bundle_digest i,
     pe_authorization_sequence = pi_authorization_sequence i,
     pe_authorization_event_id = au_event_id a, pe_authorization_frame_digest = au_frame_digest a,
     pe_parent_provenance_ids = pi_parent_provenance_ids i, pe_subject_digest = subject,
     pe_provenance_id = provenance_id_digest subject (au_event_id a),
     pe_previous_digest = previous, pe_frame_digest = replicate 32 0\<rparr>"

definition build_event ::
  "u64 \<Rightarrow> bytes \<Rightarrow> prov_input \<Rightarrow> signature_check \<Rightarrow> key_registry \<Rightarrow> authorization_ledger \<Rightarrow> federation_ledger \<Rightarrow>
   prov_error + prov_event" where
  "build_event seqno previous i bcrypt registry authorizations federation =
     rbind (validate_input_shape i) (\<lambda>_.
     if pi_authorization_sequence i = 0
     then Inl (Prov_Invalid (lit ''authorization sequence must be nonzero''))
     else
       rbind (ok_or (Prov_Trust (lit ''authorization sequence not found: ''
                       @ dec_bytes (unat (pi_authorization_sequence i))))
                (find_authorization authorizations (pi_authorization_sequence i))) (\<lambda>a.
       rbind (provenance_subject_digest i) (\<lambda>subject.
       if au_domain_code a \<noteq> PROVENANCE_DOMAIN \<or> au_subject_digest a \<noteq> subject \<or> au_key_id a \<noteq> pi_actor_key_id i
       then Inl (Prov_Trust (lit ''authorization domain, subject, or actor mismatch''))
       else
         rbind (map_err (\<lambda>err. Prov_Trust (asym_display err))
                  (verify_sequence bcrypt authorizations (pi_authorization_sequence i) registry)) (\<lambda>ok.
         if \<not> ok then Inl (Prov_Trust (lit ''authorization signature verification failed''))
         else
           rbind (verify_federation_binding i (au_required_role_mask a) federation) (\<lambda>_.
           Inr (built_event seqno previous i a subject))))))"

subsection \<open>Encoding\<close>

definition prov_encode_payload :: "prov_event \<Rightarrow> prov_error + bytes" where
  "prov_encode_payload e =
     rbind (put_string (pe_namespace e)) (\<lambda>namespace.
     rbind (put_string (pe_object_id e)) (\<lambda>object_id.
     rbind (put_string (pe_object_kind e)) (\<lambda>object_kind.
     rbind (put_string (pe_actor_key_id e)) (\<lambda>actor.
     Inr (PROV_PAYLOAD_MAGIC @ namespace @ object_id @ object_kind @ actor @ u64_le (pe_object_version e)
        @ pe_source_locator_digest e @ pe_content_digest e @ pe_operation_digest e @ pe_transformation_digest e
        @ u64_le (pe_federation_policy_version e) @ pe_federation_policy_digest e
        @ u64_le (pe_federation_bundle_version e) @ pe_federation_bundle_digest e
        @ u64_le (pe_authorization_sequence e) @ pe_authorization_event_id e @ pe_authorization_frame_digest e
        @ u32_le (of_nat (length (pe_parent_provenance_ids e))) @ concat (pe_parent_provenance_ids e)
        @ pe_subject_digest e)))))"

definition prov_decode_payload ::
  "prov_kind \<Rightarrow> u64 \<Rightarrow> u64 \<Rightarrow> bytes \<Rightarrow> bytes \<Rightarrow> bytes \<Rightarrow> bytes \<Rightarrow> prov_error + prov_event" where
  "prov_decode_payload kind seqno timestamp previous pid frame_digest payload =
     rbind (cursor_take 8 (payload, 0)) (\<lambda>(magic, c).
     if magic \<noteq> PROV_PAYLOAD_MAGIC then Inl (Prov_Integrity (lit ''payload magic mismatch''))
     else
       rbind (cursor_string c) (\<lambda>(namespace, c).
       rbind (cursor_string c) (\<lambda>(object_id, c).
       rbind (cursor_string c) (\<lambda>(object_kind, c).
       rbind (cursor_string c) (\<lambda>(actor, c).
       rbind (cursor_u64 c) (\<lambda>(object_version, c).
       rbind (cursor_digest c) (\<lambda>(source_locator, c).
       rbind (cursor_digest c) (\<lambda>(content, c).
       rbind (cursor_digest c) (\<lambda>(operation, c).
       rbind (cursor_digest c) (\<lambda>(transformation, c).
       rbind (cursor_u64 c) (\<lambda>(policy_version, c).
       rbind (cursor_digest c) (\<lambda>(policy_digest, c).
       rbind (cursor_u64 c) (\<lambda>(bundle_version, c).
       rbind (cursor_digest c) (\<lambda>(bundle_digest, c).
       rbind (cursor_u64 c) (\<lambda>(auth_sequence, c).
       rbind (cursor_digest c) (\<lambda>(auth_event, c).
       rbind (cursor_digest c) (\<lambda>(auth_frame, c).
       rbind (cursor_u32 c) (\<lambda>(parent_count, c).
       if MAX_PARENTS < unat parent_count then Inl (Prov_Integrity (lit ''too many provenance parents''))
       else
         rbind (cursor_digests (unat parent_count) c) (\<lambda>(parents, c).
         rbind (cursor_digest c) (\<lambda>(subject, c).
         if fst c \<noteq> [] then Inl (Prov_Integrity (lit ''payload trailing bytes''))
         else Inr \<lparr>pe_sequence = seqno, pe_kind = kind, pe_logical_timestamp = timestamp,
              pe_namespace = namespace, pe_object_id = object_id, pe_object_kind = object_kind,
              pe_object_version = object_version, pe_actor_key_id = actor,
              pe_source_locator_digest = source_locator, pe_content_digest = content,
              pe_operation_digest = operation, pe_transformation_digest = transformation,
              pe_federation_policy_version = policy_version, pe_federation_policy_digest = policy_digest,
              pe_federation_bundle_version = bundle_version, pe_federation_bundle_digest = bundle_digest,
              pe_authorization_sequence = auth_sequence, pe_authorization_event_id = auth_event,
              pe_authorization_frame_digest = auth_frame, pe_parent_provenance_ids = parents,
              pe_subject_digest = subject, pe_provenance_id = pid, pe_previous_digest = previous,
              pe_frame_digest = frame_digest\<rparr>))))))))))))))))))))"

definition prov_encode_frame :: "prov_event \<Rightarrow> bytes \<Rightarrow> bytes \<Rightarrow> prov_error + bytes" where
  "prov_encode_frame e payload_digest payload =
     (if \<not> length payload < 2 ^ 32 then Inl (Prov_Invalid (lit ''payload length exceeds u32''))
      else Inr (PROV_FILE_MAGIC @ u16_le PROV_FORMAT_VERSION @ [prov_kind_code (pe_kind e), 0]
        @ u64_le (pe_sequence e) @ u64_le (pe_logical_timestamp e) @ u32_le (of_nat (length payload)) @ u32_le 0
        @ pe_previous_digest e @ payload_digest @ pe_provenance_id e @ pe_frame_digest e @ payload))"

subsection \<open>The ledger\<close>

definition validate_state_transition :: "prov_ledger \<Rightarrow> prov_event \<Rightarrow> prov_error + unit" where
  "validate_state_transition l e =
     (if pe_logical_timestamp e \<le> pl_last_timestamp l
      then Inl (Prov_Invalid (lit ''provenance timestamps must be strictly increasing''))
      else if bt_get (pl_by_id l) (pe_provenance_id e) \<noteq> None
      then Inl (Prov_Invalid (lit ''duplicate provenance id''))
      else if pe_authorization_sequence e \<in> set (pl_used_authorization_sequences l)
      then Inl (Prov_Invalid (lit ''authorization sequence already used by provenance''))
      else
        let latest = (case bt_get (pl_latest_object_versions l) (pe_namespace e, pe_object_id e) of
                        Some v \<Rightarrow> v | None \<Rightarrow> 0);
            expected = latest + 1 in
        if pe_object_version e \<noteq> expected
        then Inl (Prov_Invalid (lit ''object version mismatch expected='' @ dec_bytes (unat expected)
                    @ lit '' actual='' @ dec_bytes (unat (pe_object_version e))))
        else if list_ex (\<lambda>p. bt_get (pl_by_id l) p = None) (pe_parent_provenance_ids e)
        then Inl (Prov_Invalid (lit ''parent provenance id must reference an earlier event''))
        else Inr ())"

definition apply_event :: "prov_ledger \<Rightarrow> prov_event \<Rightarrow> prov_ledger" where
  "apply_event l e = l\<lparr>
     pl_by_id := bt_insert (pe_provenance_id e) (length (pl_events l)) (pl_by_id l),
     pl_latest_object_versions :=
       bt_insert (pe_namespace e, pe_object_id e) (pe_object_version e) (pl_latest_object_versions l),
     pl_used_authorization_sequences :=
       bset_insert (pe_authorization_sequence e) (pl_used_authorization_sequences l),
     pl_last_timestamp := pe_logical_timestamp e,
     pl_head_digest := pe_frame_digest e,
     pl_events := pl_events l @ [e]\<rparr>"

definition append_authorized ::
  "signature_check \<Rightarrow> key_registry \<Rightarrow> authorization_ledger \<Rightarrow> federation_ledger \<Rightarrow> prov_input \<Rightarrow>
   prov_ledger \<Rightarrow> fsys \<Rightarrow> (prov_error + prov_receipt) \<times> prov_ledger \<times> fsys" where
  "append_authorized bcrypt registry authorizations federation i l fs =
     (let seqno = of_nat (length (pl_events l)) + 1; previous = pl_head_digest l in
      case build_event seqno previous i bcrypt registry authorizations federation of
        Inl e \<Rightarrow> (Inl e, l, fs)
      | Inr event \<Rightarrow>
      case validate_state_transition l event of
        Inl e \<Rightarrow> (Inl e, l, fs)
      | Inr _ \<Rightarrow>
      case prov_encode_payload event of
        Inl e \<Rightarrow> (Inl e, l, fs)
      | Inr payload \<Rightarrow>
      if PROV_MAX_PAYLOAD_BYTES < length payload
      then (Inl (Prov_Invalid (lit ''provenance payload too large'')), l, fs)
      else
        let payload_digest = sha256 payload;
            frame_digest = prov_frame_digest (pe_sequence event) (pe_logical_timestamp event)
              (pe_previous_digest event) (pe_provenance_id event) payload_digest;
            event = event\<lparr>pe_frame_digest := frame_digest\<rparr> in
        case prov_encode_frame event payload_digest payload of
          Inl e \<Rightarrow> (Inl e, l, fs)
        | Inr frame \<Rightarrow>
        case write_all (pl_path l) frame fs of
          (Inl e, fs1) \<Rightarrow> (Inl (Prov_Io e), l, fs1)
        | (Inr _, fs1) \<Rightarrow>
          (Inr \<lparr>pr_sequence = pe_sequence event, pr_provenance_id = pe_provenance_id event,
              pr_frame_digest = pe_frame_digest event, pr_object_version = pe_object_version event\<rparr>,
           apply_event l event, fs1))"

text \<open>The checks of one frame during replay, after its header and payload have been cut out.\<close>

definition prov_replay_event ::
  "signature_check \<Rightarrow> key_registry \<Rightarrow> authorization_ledger \<Rightarrow> federation_ledger \<Rightarrow> prov_ledger \<Rightarrow>
   prov_kind \<Rightarrow> u64 \<Rightarrow> u64 \<Rightarrow> bytes \<Rightarrow> bytes \<Rightarrow> bytes \<Rightarrow> bytes \<Rightarrow> bytes \<Rightarrow> prov_error + prov_ledger" where
  "prov_replay_event bcrypt registry authorizations federation l kind seqno timestamp previous payload_digest
       pid frame_digest payload =
     (if sha256 payload \<noteq> payload_digest then Inl (Prov_Integrity (lit ''payload digest mismatch''))
      else
        rbind (prov_decode_payload kind seqno timestamp previous pid frame_digest payload) (\<lambda>event.
        if pe_sequence event \<noteq> of_nat (length (pl_events l)) + 1 \<or> pe_previous_digest event \<noteq> pl_head_digest l
        then Inl (Prov_Integrity (lit ''sequence or previous digest mismatch''))
        else
          rbind (verify_event_trust bcrypt event registry authorizations federation) (\<lambda>_.
          rbind (provenance_subject_digest (event_to_input event)) (\<lambda>expected_subject.
          if pe_subject_digest event \<noteq> expected_subject
          then Inl (Prov_Integrity (lit ''subject digest mismatch''))
          else if pe_provenance_id event \<noteq> provenance_id_digest expected_subject (pe_authorization_event_id event)
          then Inl (Prov_Integrity (lit ''provenance id mismatch''))
          else
            let expected_frame = prov_frame_digest (pe_sequence event) (pe_logical_timestamp event)
                  (pe_previous_digest event) (pe_provenance_id event) payload_digest in
            if pe_frame_digest event \<noteq> expected_frame
            then Inl (Prov_Integrity (lit ''frame digest mismatch''))
            else
              rbind (validate_state_transition l event) (\<lambda>_.
              Inr (apply_event l (event\<lparr>pe_frame_digest := expected_frame\<rparr>)))))))"

text \<open>The loop of \<open>replay\<close>: \<open>rest\<close> is the file from \<open>offset\<close> on.\<close>

function (sequential) prov_replay ::
  "signature_check \<Rightarrow> key_registry \<Rightarrow> authorization_ledger \<Rightarrow> federation_ledger \<Rightarrow> prov_ledger \<Rightarrow> nat \<Rightarrow> bytes \<Rightarrow>
   prov_error + prov_ledger" where
  "prov_replay bcrypt registry authorizations federation l offset rest =
     (if rest = [] then Inr l
      else if length rest < 164 then Inl (Prov_Truncated (lit ''provenance frame header'') offset)
      else
        let header = take 164 rest in
        if slice header 0 8 \<noteq> PROV_FILE_MAGIC
        then Inl (Prov_Integrity (lit ''frame magic mismatch at '' @ dec_bytes offset))
        else if from_le (slice header 8 10) \<noteq> PROV_FORMAT_VERSION \<or> header ! 11 \<noteq> 0
        then Inl (Prov_Integrity (lit ''unsupported frame header''))
        else
          rbind (prov_kind_from_code (header ! 10)) (\<lambda>kind.
          rbind (prov_read_u64 header 12) (\<lambda>seqno.
          rbind (prov_read_u64 header 20) (\<lambda>timestamp.
          rbind (prov_read_u32 header 28) (\<lambda>payload_len.
          rbind (prov_read_u32 header 32) (\<lambda>reserved.
          if reserved \<noteq> 0 \<or> PROV_MAX_PAYLOAD_BYTES < unat payload_len
          then Inl (Prov_Integrity (lit ''invalid frame length/reserved field''))
          else
            rbind (ok_or (Prov_Integrity (lit ''payload length overflow''))
                     (checked_add (offset + 164) (unat payload_len))) (\<lambda>payload_end.
            if length rest < 164 + unat payload_len
            then Inl (Prov_Truncated (lit ''provenance payload'') (offset + 164))
            else
              rbind (prov_replay_event bcrypt registry authorizations federation l kind seqno timestamp
                       (slice header 36 68) (slice header 68 100) (slice header 100 132) (slice header 132 164)
                       (take (unat payload_len) (drop 164 rest))) (\<lambda>l'.
              prov_replay bcrypt registry authorizations federation l' payload_end
                (drop (164 + unat payload_len) rest)))))))))"
  by pat_completeness auto
termination
  by (relation "measure (\<lambda>(b, r, a, f, l, off, rest). length rest)") auto

declare prov_replay.simps [simp del]

definition prov_open_strict ::
  "signature_check \<Rightarrow> path \<Rightarrow> key_registry \<Rightarrow> authorization_ledger \<Rightarrow> federation_ledger \<Rightarrow>
   (prov_error, prov_ledger) io" where
  "prov_open_strict bcrypt path registry authorizations federation fs =
     (if fget fs path = None
      then (Inl (Prov_Invalid (lit ''provenance ledger missing: '' @ path_display path)), fs)
      else
        io_bind (io_query (\<lambda>fs. map_err Prov_Io (fs_read path fs))) (\<lambda>bytes.
        io_pure (prov_replay bcrypt registry authorizations federation (prov_empty path) 0 bytes)) fs)"

subsection \<open>The payload codec\<close>

definition text_valid :: "str \<Rightarrow> bool" where
  "text_valid s \<longleftrightarrow> s \<noteq> [] \<and> length s \<le> 255 \<and> list_all (\<lambda>b. is_ascii_graphic b \<and> b \<noteq> 0x5C) s"

definition text_bytes :: "str \<Rightarrow> bytes" where
  "text_bytes s = u16_le (of_nat (length s)) @ s"

lemma validate_text_iff: "validate_text f s = Inr u \<longleftrightarrow> text_valid s"
  by (auto simp: validate_text_def text_valid_def)

lemma put_string_iff: "put_string s = Inr b \<longleftrightarrow> text_valid s \<and> b = text_bytes s"
  by (auto simp: put_string_def rbind_eq_Inr_iff validate_text_iff text_bytes_def text_valid_def)

lemma put_string_ok [simp]: "text_valid s \<Longrightarrow> put_string s = Inr (text_bytes s)"
  by (simp add: put_string_iff)

lemma length_text_bytes [simp]: "length (text_bytes s) = 2 + length s"
  by (simp add: text_bytes_def)

lemma text_valid_utf8: "text_valid s \<Longrightarrow> utf8_valid s"
proof (rule ascii_utf8_valid)
  assume "text_valid s"
  moreover have "is_ascii_graphic b \<Longrightarrow> b < 0x80" for b
    unfolding is_ascii_graphic_def by (auto intro: le_less_trans)
  ultimately show "ascii s" by (auto simp: text_valid_def ascii_def list_all_iff)
qed

lemma cursor_take_iff:
  "cursor_take n (b, off) = Inr (v, r, off') \<longleftrightarrow>
     b = v @ r \<and> length v = n \<and> off' = off + n \<and> off' < usize_limit"
  by (auto simp: cursor_take_def rbind_eq_Inr_iff checked_add_Some_iff guard_eq_Inr_iff append_eq_conv_conj)

lemma cursor_word_iff:
  "cursor_u64 (b, off) = Inr (w, r, off') \<longleftrightarrow> b = u64_le w @ r \<and> off' = off + 8 \<and> off' < usize_limit"
  "cursor_u32 (b, off) = Inr (v, r, off') \<longleftrightarrow> b = u32_le v @ r \<and> off' = off + 4 \<and> off' < usize_limit"
  by (auto simp: cursor_u64_def cursor_u32_def rbind_eq_Inr_iff split_paired_Ex cursor_take_iff uN_le_from_le)

lemma cursor_digest_iff:
  "cursor_digest (b, off) = Inr (d, r, off') \<longleftrightarrow> b = d @ r \<and> length d = 32 \<and> off' = off + 32 \<and> off' < usize_limit"
  by (simp add: cursor_digest_def cursor_take_iff)

lemma text_valid_length: "text_valid s \<Longrightarrow> unat (of_nat (length s) :: u16) = length s"
  by (simp add: text_valid_def unat_of_nat)

lemma cursor_string_iff:
  "cursor_string (b, off) = Inr (s, r, off') \<longleftrightarrow>
     text_valid s \<and> b = text_bytes s @ r \<and> off' = off + (2 + length s) \<and> off' < usize_limit"
proof
  assume "cursor_string (b, off) = Inr (s, r, off')"
  then obtain v r1 off1 where "cursor_take 2 (b, off) = Inr (v, r1, off1)"
    "cursor_take (unat (from_le v :: u16)) (r1, off1) = Inr (s, r, off')" "text_valid s"
    unfolding cursor_string_def rbind_eq_Inr_iff split_paired_Ex prod.case guard_eq_Inr_iff validate_text_iff by auto
  then show "text_valid s \<and> b = text_bytes s @ r \<and> off' = off + (2 + length s) \<and> off' < usize_limit"
    by (auto simp: cursor_take_iff text_bytes_def uN_le_from_le)
next
  assume a: "text_valid s \<and> b = text_bytes s @ r \<and> off' = off + (2 + length s) \<and> off' < usize_limit"
  then have "cursor_take 2 (b, off) = Inr (u16_le (of_nat (length s)), s @ r, off + 2)"
    "cursor_take (length s) (s @ r, off + 2) = Inr (s, r, off')"
    by (simp_all add: cursor_take_iff text_bytes_def)
  moreover have "validate_text (lit ''decoded text'') s = Inr ()" using a by (simp add: validate_text_iff)
  ultimately show "cursor_string (b, off) = Inr (s, r, off')"
    using a text_valid_utf8 by (simp add: cursor_string_def text_valid_length)
qed

lemma cursor_digests_iff:
  "off < usize_limit \<Longrightarrow> cursor_digests n (b, off) = Inr (ds, r, off') \<longleftrightarrow>
     length ds = n \<and> list_all (\<lambda>d. length d = 32) ds \<and> b = concat ds @ r \<and> off' = off + 32 * n \<and> off' < usize_limit"
proof (induction n arbitrary: b off ds)
  case (Suc n)
  have "cursor_digests (Suc n) (b, off) = Inr (ds, r, off') \<longleftrightarrow> (\<exists>d b1 ds1. b = d @ b1 \<and> length d = 32 \<and>
      off + 32 < usize_limit \<and> cursor_digests n (b1, off + 32) = Inr (ds1, r, off') \<and> ds = d # ds1)"
    by (auto simp: rbind_eq_Inr_iff split_paired_Ex cursor_digest_iff)
  also have "\<dots> \<longleftrightarrow> length ds = Suc n \<and> list_all (\<lambda>d. length d = 32) ds \<and> b = concat ds @ r \<and>
      off' = off + 32 * Suc n \<and> off' < usize_limit"
    using Suc.IH [of "off + 32"] by (cases ds) auto
  finally show ?case .
qed auto

definition event_typed :: "prov_event \<Rightarrow> bool" where
  "event_typed e \<longleftrightarrow> text_valid (pe_namespace e) \<and> text_valid (pe_object_id e) \<and> text_valid (pe_object_kind e) \<and>
     text_valid (pe_actor_key_id e) \<and> length (pe_source_locator_digest e) = 32 \<and> length (pe_content_digest e) = 32 \<and>
     length (pe_operation_digest e) = 32 \<and> length (pe_transformation_digest e) = 32 \<and>
     length (pe_federation_policy_digest e) = 32 \<and> length (pe_federation_bundle_digest e) = 32 \<and>
     length (pe_authorization_event_id e) = 32 \<and> length (pe_authorization_frame_digest e) = 32 \<and>
     length (pe_subject_digest e) = 32 \<and> length (pe_parent_provenance_ids e) \<le> MAX_PARENTS \<and>
     list_all (\<lambda>d. length d = 32) (pe_parent_provenance_ids e)"

definition prov_payload :: "prov_event \<Rightarrow> bytes" where
  "prov_payload e = PROV_PAYLOAD_MAGIC @ text_bytes (pe_namespace e) @ text_bytes (pe_object_id e)
     @ text_bytes (pe_object_kind e) @ text_bytes (pe_actor_key_id e) @ u64_le (pe_object_version e)
     @ pe_source_locator_digest e @ pe_content_digest e @ pe_operation_digest e @ pe_transformation_digest e
     @ u64_le (pe_federation_policy_version e) @ pe_federation_policy_digest e
     @ u64_le (pe_federation_bundle_version e) @ pe_federation_bundle_digest e
     @ u64_le (pe_authorization_sequence e) @ pe_authorization_event_id e @ pe_authorization_frame_digest e
     @ u32_le (of_nat (length (pe_parent_provenance_ids e))) @ concat (pe_parent_provenance_ids e)
     @ pe_subject_digest e"

lemma encode_payload_ok: "event_typed e \<Longrightarrow> prov_encode_payload e = Inr (prov_payload e)"
  by (simp add: event_typed_def prov_encode_payload_def prov_payload_def)

lemma length_concat_digests: "list_all (\<lambda>d. length d = 32) ds \<Longrightarrow> length (concat ds) = 32 * length ds"
  by (induction ds) auto

lemma length_prov_payload: "event_typed e \<Longrightarrow> length (prov_payload e) =
    8 + (2 + length (pe_namespace e)) + (2 + length (pe_object_id e)) + (2 + length (pe_object_kind e))
    + (2 + length (pe_actor_key_id e)) + 324 + 32 * length (pe_parent_provenance_ids e)"
  by (simp add: event_typed_def prov_payload_def PROV_PAYLOAD_MAGIC_def lit_def length_concat_digests)

lemma prov_payload_small: "event_typed e \<Longrightarrow> length (prov_payload e) \<le> PROV_MAX_PAYLOAD_BYTES"
  using length_prov_payload [of e] by (simp add: event_typed_def text_valid_def MAX_PARENTS_def PROV_MAX_PAYLOAD_BYTES_def)


lemmas cursor_iffs = cursor_take_iff cursor_word_iff cursor_digest_iff cursor_string_iff

lemma cursor_sound:
  "cursor_take n (b, off) = Inr (v, r, off') \<Longrightarrow> b = v @ r"
  "cursor_u64 (b, off) = Inr (w, r, off') \<Longrightarrow> b = u64_le w @ r"
  "cursor_u32 (b, off) = Inr (x, r, off') \<Longrightarrow> b = u32_le x @ r"
  "cursor_digest (b, off) = Inr (d, r, off') \<Longrightarrow> b = d @ r \<and> length d = 32"
  "cursor_string (b, off) = Inr (s, r, off') \<Longrightarrow> b = text_bytes s @ r \<and> text_valid s"
  by (simp_all add: cursor_iffs)

lemma cursor_digests_sound:
  "cursor_digests n (b, off) = Inr (ds, r, off') \<Longrightarrow>
   b = concat ds @ r \<and> length ds = n \<and> list_all (\<lambda>d. length d = 32) ds"
  by (induction n arbitrary: b off ds) (auto simp: rbind_eq_Inr_iff dest!: cursor_sound(4))

lemma prov_decode_sound:
  assumes d: "prov_decode_payload k q ts prev pid fd p = Inr e"
  shows "p = prov_payload e" and "event_typed e" and "pe_kind e = k" and "pe_sequence e = q"
    and "pe_logical_timestamp e = ts" and "pe_previous_digest e = prev" and "pe_provenance_id e = pid"
    and "pe_frame_digest e = fd"
proof -
  from d obtain mg b1 o1 s1 b2 o2 s2 b3 o3 s3 b4 o4 s4 b5 o5 v b6 o6 d1 b7 o7 d2 b8 o8 d3 b9 o9 d4 b10 o10 pv b11 o11
      d5 b12 o12 bv b13 o13 d6 b14 o14 aq b15 o15 d7 b16 o16 d8 b17 o17 n b18 o18 ps b19 o19 d9 b20 o20
    where m: "cursor_take 8 (p, 0) = Inr (mg, b1, o1)" and mg: "mg = PROV_PAYLOAD_MAGIC"
    and cs: "cursor_string (b1, o1) = Inr (s1, b2, o2)" "cursor_string (b2, o2) = Inr (s2, b3, o3)"
      "cursor_string (b3, o3) = Inr (s3, b4, o4)" "cursor_string (b4, o4) = Inr (s4, b5, o5)"
    and cw: "cursor_u64 (b5, o5) = Inr (v, b6, o6)" "cursor_u64 (b10, o10) = Inr (pv, b11, o11)"
      "cursor_u64 (b12, o12) = Inr (bv, b13, o13)" "cursor_u64 (b14, o14) = Inr (aq, b15, o15)"
    and cd: "cursor_digest (b6, o6) = Inr (d1, b7, o7)" "cursor_digest (b7, o7) = Inr (d2, b8, o8)"
      "cursor_digest (b8, o8) = Inr (d3, b9, o9)" "cursor_digest (b9, o9) = Inr (d4, b10, o10)"
      "cursor_digest (b11, o11) = Inr (d5, b12, o12)" "cursor_digest (b13, o13) = Inr (d6, b14, o14)"
      "cursor_digest (b15, o15) = Inr (d7, b16, o16)" "cursor_digest (b16, o16) = Inr (d8, b17, o17)"
      "cursor_digest (b19, o19) = Inr (d9, b20, o20)"
    and cn: "cursor_u32 (b17, o17) = Inr (n, b18, o18)"
    and ps: "cursor_digests (unat n) (b18, o18) = Inr (ps, b19, o19)" and np: "unat n \<le> MAX_PARENTS"
    and fin: "b20 = []"
    and e': "\<lparr>pe_sequence = q, pe_kind = k, pe_logical_timestamp = ts, pe_namespace = s1, pe_object_id = s2,
       pe_object_kind = s3, pe_object_version = v, pe_actor_key_id = s4, pe_source_locator_digest = d1,
       pe_content_digest = d2, pe_operation_digest = d3, pe_transformation_digest = d4,
       pe_federation_policy_version = pv, pe_federation_policy_digest = d5, pe_federation_bundle_version = bv,
       pe_federation_bundle_digest = d6, pe_authorization_sequence = aq, pe_authorization_event_id = d7,
       pe_authorization_frame_digest = d8, pe_parent_provenance_ids = ps, pe_subject_digest = d9,
       pe_provenance_id = pid, pe_previous_digest = prev, pe_frame_digest = fd\<rparr> = e"
    unfolding prov_decode_payload_def
    unfolding guard_eq_Inr_iff rbind_eq_Inr_iff split_paired_Ex prod.case not_less not_not fst_conv sum.inject
    by (elim exE conjE) (rule that; assumption)
  note e = e' [symmetric]
  note fs = m [THEN cursor_sound(1)] cs [THEN cursor_sound(5), THEN conjunct1] cw [THEN cursor_sound(2)]
    cd [THEN cursor_sound(4), THEN conjunct1] cn [THEN cursor_sound(3)] ps [THEN cursor_digests_sound, THEN conjunct1]
  show "pe_kind e = k" "pe_sequence e = q" "pe_logical_timestamp e = ts" "pe_previous_digest e = prev"
    "pe_provenance_id e = pid" "pe_frame_digest e = fd" by (simp_all add: e)
  show "event_typed e"
    using cs [THEN cursor_sound(5), THEN conjunct2] cd [THEN cursor_sound(4), THEN conjunct2]
      ps [THEN cursor_digests_sound, THEN conjunct2] np by (simp add: e event_typed_def)
  have "of_nat (length ps) = n" using ps [THEN cursor_digests_sound] by simp
  then show "p = prov_payload e" by (simp add: e prov_payload_def fs mg fin)
qed

lemma cursor_ok [simp]:
  "length v = n \<Longrightarrow> off + n < usize_limit \<Longrightarrow> cursor_take n (v @ r, off) = Inr (v, r, off + n)"
  "off + 8 < usize_limit \<Longrightarrow> cursor_u64 (u64_le w @ r, off) = Inr (w, r, off + 8)"
  "off + 4 < usize_limit \<Longrightarrow> cursor_u32 (u32_le x @ r, off) = Inr (x, r, off + 4)"
  "length d = 32 \<Longrightarrow> off + 32 < usize_limit \<Longrightarrow> cursor_digest (d @ r, off) = Inr (d, r, off + 32)"
  "text_valid s \<Longrightarrow> off + (2 + length s) < usize_limit \<Longrightarrow>
     cursor_string (text_bytes s @ r, off) = Inr (s, r, off + (2 + length s))"
  by (simp_all add: cursor_iffs)

lemma prov_decode_ok:
  assumes t: "event_typed e"
  shows "prov_decode_payload (pe_kind e) (pe_sequence e) (pe_logical_timestamp e) (pe_previous_digest e)
     (pe_provenance_id e) (pe_frame_digest e) (prov_payload e) = Inr e"
proof -
  let ?ps = "pe_parent_provenance_ids e"
  have lens: "length (pe_namespace e) \<le> 255" "length (pe_object_id e) \<le> 255" "length (pe_object_kind e) \<le> 255"
    "length (pe_actor_key_id e) \<le> 255" "length ?ps \<le> 1024"
    using t by (auto simp: event_typed_def text_valid_def MAX_PARENTS_def)
  have n: "unat (of_nat (length ?ps) :: u32) = length ?ps" using lens(5) by (simp add: unat_of_nat)
  have ds: "cursor_digests (length ?ps) (concat ?ps @ r, off) = Inr (?ps, r, off + 32 * length ?ps)"
    if "off + 32 * length ?ps < usize_limit" for off r
    using that t by (subst cursor_digests_iff) (auto simp: event_typed_def)
  have sd: "cursor_digest (pe_subject_digest e, off) = Inr (pe_subject_digest e, [], off + 32)"
    if "off + 32 < usize_limit" for off
    using that t cursor_ok(4) [of "pe_subject_digest e" off "[]"] by (simp add: event_typed_def)
  have m: "length PROV_PAYLOAD_MAGIC = 8" by (simp add: PROV_PAYLOAD_MAGIC_def lit_def)
  show ?thesis
    using t lens
    by (simp add: event_typed_def prov_decode_payload_def prov_payload_def usize_limit_def n ds sd m cong: rbind_weak_cong)
qed

end
