(* ===== verification/Ub_Prov_Ledger.thy ===== *)
theory Ub_Prov_Ledger
  imports Ub_Provenance
begin

text \<open>
  What the provenance ledger guarantees. The file is the concatenation of the frames of the
  events; replay accepts exactly what admitted events write. The ledger reopens also after the
  key registry, the authorisation ledger and the federation ledger have grown.
\<close>

subsection \<open>Frames\<close>

record prov_env =
  en_registry :: key_registry
  en_authorizations :: authorization_ledger
  en_federation :: federation_ledger

definition event_frame :: "prov_event \<Rightarrow> bytes" where
  "event_frame e = PROV_FILE_MAGIC @ u16_le PROV_FORMAT_VERSION @ [prov_kind_code (pe_kind e), 0]
     @ u64_le (pe_sequence e) @ u64_le (pe_logical_timestamp e) @ u32_le (of_nat (length (prov_payload e))) @ u32_le 0
     @ pe_previous_digest e @ sha256 (prov_payload e) @ pe_provenance_id e @ pe_frame_digest e @ prov_payload e"

definition prov_trusts :: "signature_check \<Rightarrow> prov_env \<Rightarrow> prov_event \<Rightarrow> bool" where
  "prov_trusts b env e \<longleftrightarrow>
     verify_event_trust b e (en_registry env) (en_authorizations env) (en_federation env) = Inr ()"

text \<open>The event a ledger would record next.\<close>

definition prov_admits :: "signature_check \<Rightarrow> prov_env \<Rightarrow> prov_ledger \<Rightarrow> prov_event \<Rightarrow> bool" where
  "prov_admits b env l e \<longleftrightarrow> event_typed e \<and> prov_trusts b env e \<and>
     pe_sequence e = of_nat (length (pl_events l)) + 1 \<and> pe_previous_digest e = pl_head_digest l \<and>
     length (pl_head_digest l) = 32 \<and>
     provenance_subject_digest (event_to_input e) = Inr (pe_subject_digest e) \<and>
     pe_provenance_id e = provenance_id_digest (pe_subject_digest e) (pe_authorization_event_id e) \<and>
     pe_frame_digest e = prov_frame_digest (pe_sequence e) (pe_logical_timestamp e) (pe_previous_digest e)
       (pe_provenance_id e) (sha256 (prov_payload e)) \<and>
     validate_state_transition l e = Inr ()"

abbreviation prov_replay_in :: "signature_check \<Rightarrow> prov_env \<Rightarrow> prov_ledger \<Rightarrow> nat \<Rightarrow> bytes \<Rightarrow> prov_error + prov_ledger" where
  "prov_replay_in b env \<equiv> prov_replay b (en_registry env) (en_authorizations env) (en_federation env)"

abbreviation prov_replay_event_in where
  "prov_replay_event_in b env \<equiv> prov_replay_event b (en_registry env) (en_authorizations env) (en_federation env)"

lemma replay_event_ok:
  assumes a: "prov_admits b env l e"
  shows "prov_replay_event_in b env l (pe_kind e) (pe_sequence e) (pe_logical_timestamp e) (pe_previous_digest e)
     (sha256 (prov_payload e)) (pe_provenance_id e) (pe_frame_digest e) (prov_payload e) = Inr (apply_event l e)"
proof -
  have t: "event_typed e" using a by (simp add: prov_admits_def)
  have f: "pe_frame_digest e = x \<Longrightarrow> e\<lparr>pe_frame_digest := x\<rparr> = e" for x by (cases e) simp
  show ?thesis
    using a unfolding prov_admits_def prov_trusts_def prov_replay_event_def prov_decode_ok [OF t]
    by (simp add: Let_def f cong: rbind_weak_cong)
qed

lemma replay_event_sound:
  assumes r: "prov_replay_event_in b env l k q ts prev ph pid fd p = Inr l'" and h: "length (pl_head_digest l) = 32"
  obtains e where "p = prov_payload e" and "pe_kind e = k" and "pe_sequence e = q" and "pe_logical_timestamp e = ts"
    and "pe_previous_digest e = prev" and "ph = sha256 p" and "pe_provenance_id e = pid" and "pe_frame_digest e = fd"
    and "prov_admits b env l e" and "l' = apply_event l e"
proof -
  from r obtain e s where d: "prov_decode_payload k q ts prev pid fd p = Inr e" and ph: "sha256 p = ph"
    and ck: "pe_sequence e = of_nat (length (pl_events l)) + 1" "pe_previous_digest e = pl_head_digest l"
      "verify_event_trust b e (en_registry env) (en_authorizations env) (en_federation env) = Inr ()"
      "provenance_subject_digest (event_to_input e) = Inr s" "pe_subject_digest e = s"
      "pe_provenance_id e = provenance_id_digest s (pe_authorization_event_id e)"
      "pe_frame_digest e = prov_frame_digest (pe_sequence e) (pe_logical_timestamp e) (pe_previous_digest e)
        (pe_provenance_id e) ph" "validate_state_transition l e = Inr ()"
    unfolding prov_replay_event_def Let_def guard_eq_Inr_iff rbind_eq_Inr_iff by auto
  note e = prov_decode_sound [OF d]
  have a: "prov_admits b env l e" using ck e ph h by (auto simp: prov_admits_def prov_trusts_def)
  have "l' = apply_event l e" using replay_event_ok [OF a] r e ph by simp
  with that e ph a show thesis by blast
qed

lemma length_file_magic [simp]: "length PROV_FILE_MAGIC = 8"
  by (simp add: PROV_FILE_MAGIC_def lit_def)

lemma prov_kind_codes [simp]: "prov_kind_from_code (prov_kind_code k) = Inr k"
  by (cases k) (simp_all add: prov_kind_from_code_def)

lemma prov_kind_code_inv: "prov_kind_from_code c = Inr k \<Longrightarrow> c = prov_kind_code k"
  by (auto simp: prov_kind_from_code_def split: if_splits)

lemma prov_read_iff:
  "prov_read_u64 bs off = Inr a \<longleftrightarrow> off + 8 \<le> length bs \<and> a = from_le (take 8 (drop off bs))"
  "prov_read_u32 bs off = Inr c \<longleftrightarrow> off + 4 \<le> length bs \<and> c = from_le (take 4 (drop off bs))"
  by (auto simp: prov_read_u64_def prov_read_u32_def rbind_eq_Inr_iff get_range_Some_iff)

lemma prov_digests:
  assumes "prov_admits b env l e"
  shows "length (pe_previous_digest e) = 32" and "length (pe_provenance_id e) = 32" and "length (pe_frame_digest e) = 32"
  using assms by (auto simp: prov_admits_def provenance_id_digest_def prov_frame_digest_def)

lemma event_frame_header:
  assumes a: "prov_admits b env l e"
  defines "h \<equiv> take 164 (event_frame e)"
  shows "slice h 0 8 = PROV_FILE_MAGIC" "from_le (slice h 8 10) = PROV_FORMAT_VERSION" "h ! 11 = 0"
    "h ! 10 = prov_kind_code (pe_kind e)" "prov_read_u64 h 12 = Inr (pe_sequence e)"
    "prov_read_u64 h 20 = Inr (pe_logical_timestamp e)"
    "prov_read_u32 h 28 = Inr (of_nat (length (prov_payload e)))" "prov_read_u32 h 32 = Inr 0"
    "slice h 36 68 = pe_previous_digest e" "slice h 68 100 = sha256 (prov_payload e)"
    "slice h 100 132 = pe_provenance_id e" "slice h 132 164 = pe_frame_digest e"
    "unat (of_nat (length (prov_payload e)) :: u32) = length (prov_payload e)"
    "event_frame e = h @ prov_payload e" "length (event_frame e) = 164 + length (prov_payload e)"
proof -
  note d = prov_digests [OF a]
  have h: "h = PROV_FILE_MAGIC @ u16_le PROV_FORMAT_VERSION @ [prov_kind_code (pe_kind e), 0]
     @ u64_le (pe_sequence e) @ u64_le (pe_logical_timestamp e) @ u32_le (of_nat (length (prov_payload e))) @ u32_le 0
     @ pe_previous_digest e @ sha256 (prov_payload e) @ pe_provenance_id e @ pe_frame_digest e"
    using d by (simp add: h_def event_frame_def)
  show "slice h 0 8 = PROV_FILE_MAGIC" "from_le (slice h 8 10) = PROV_FORMAT_VERSION" "h ! 11 = 0"
    "h ! 10 = prov_kind_code (pe_kind e)" "prov_read_u64 h 12 = Inr (pe_sequence e)"
    "prov_read_u64 h 20 = Inr (pe_logical_timestamp e)"
    "prov_read_u32 h 28 = Inr (of_nat (length (prov_payload e)))" "prov_read_u32 h 32 = Inr 0"
    "slice h 36 68 = pe_previous_digest e" "slice h 68 100 = sha256 (prov_payload e)"
    "slice h 100 132 = pe_provenance_id e" "slice h 132 164 = pe_frame_digest e"
    "event_frame e = h @ prov_payload e" "length (event_frame e) = 164 + length (prov_payload e)"
    using d by (simp_all add: h prov_read_iff slice_def nth_append event_frame_def)
  have "length (prov_payload e) \<le> PROV_MAX_PAYLOAD_BYTES" using a prov_payload_small by (simp add: prov_admits_def)
  then show "unat (of_nat (length (prov_payload e)) :: u32) = length (prov_payload e)"
    by (simp add: unat_of_nat PROV_MAX_PAYLOAD_BYTES_def)
qed

lemma prov_replay_frame:
  assumes a: "prov_admits b env l e" and off: "off + length (event_frame e) < usize_limit"
  shows "prov_replay_in b env l off (event_frame e @ rest) =
     prov_replay_in b env (apply_event l e) (off + length (event_frame e)) rest"
proof -
  note h = event_frame_header [OF a]
  have lp: "length (prov_payload e) \<le> PROV_MAX_PAYLOAD_BYTES" using a prov_payload_small by (simp add: prov_admits_def)
  have ne: "event_frame e \<noteq> []" using h(15) by auto
  have d: "take (length (prov_payload e)) (drop 164 (event_frame e)) = prov_payload e" by (subst h(14)) (simp add: h(15))
  show ?thesis
    by (subst prov_replay.simps)
      (use lp off ne in \<open>simp add: h(1-13,15) d Let_def add.assoc replay_event_ok [OF a] cong: rbind_weak_cong\<close>)
qed


lemma prov_header_fields:
  assumes "length h = 164"
  shows "h = take 8 h @ take 2 (drop 8 h) @ [h ! 10, h ! 11] @ take 8 (drop 12 h) @ take 8 (drop 20 h)
     @ take 4 (drop 28 h) @ take 4 (drop 32 h) @ take 32 (drop 36 h) @ take 32 (drop 68 h) @ take 32 (drop 100 h)
     @ take 32 (drop 132 h)"
proof -
  have b: "[h ! 10, h ! 11] = take 2 (drop 10 h)"
    using assms by (simp add: numeral_2_eq_2 take_Suc_conv_app_nth)
  have "(164 :: nat) = 8 + (2 + (2 + (8 + (8 + (4 + (4 + (32 + (32 + (32 + 32)))))))))" by simp
  then have "take 164 h = take (8 + (2 + (2 + (8 + (8 + (4 + (4 + (32 + (32 + (32 + 32)))))))))) h" by (rule arg_cong)
  then show ?thesis unfolding b using assms by (simp only: take_add drop_drop) simp
qed

lemma prov_replay_sound:
  assumes run: "prov_replay_in b env l off bs = Inr l'" and ne: "bs \<noteq> []" and hd: "length (pl_head_digest l) = 32"
  shows "\<exists>e rest. bs = event_frame e @ rest \<and> prov_admits b env l e \<and> off + length (event_frame e) < usize_limit"
proof -
  define h where "h = take 164 bs"
  note v = trans [OF prov_replay.simps [symmetric] run, unfolded if_not_P [OF ne] Let_def guard_eq_Inr_iff
    rbind_eq_Inr_iff ok_or_eq_Inr_iff not_less not_not de_Morgan_disj, folded h_def]
  from v obtain k q ts n z fe l1 where len: "164 \<le> length bs"
    and r: "slice h 0 8 = PROV_FILE_MAGIC" "from_le (slice h 8 10) = PROV_FORMAT_VERSION" "h ! 11 = 0"
      "prov_kind_from_code (h ! 10) = Inr k" "prov_read_u64 h 12 = Inr q" "prov_read_u64 h 20 = Inr ts"
      "prov_read_u32 h 28 = Inr n" "prov_read_u32 h 32 = Inr z" "z = 0"
    and fe: "checked_add (off + 164) (unat n) = Some fe" "164 + unat n \<le> length bs"
    and rt: "prov_replay_event_in b env l k q ts (slice h 36 68) (slice h 68 100) (slice h 100 132)
        (slice h 132 164) (take (unat n) (drop 164 bs)) = Inr l1"
    by (elim exE conjE) (rule that; assumption)
  let ?p = "take (unat n) (drop 164 bs)"
  have lp: "length ?p = unat n" and lh: "length h = 164" using fe(2) len by (simp_all add: h_def)
  obtain e where e: "?p = prov_payload e" "pe_kind e = k" "pe_sequence e = q" "pe_logical_timestamp e = ts"
      "pe_previous_digest e = slice h 36 68" "slice h 68 100 = sha256 ?p" "pe_provenance_id e = slice h 100 132"
      "pe_frame_digest e = slice h 132 164" and a: "prov_admits b env l e"
    by (rule replay_event_sound [OF rt hd]) (rule that; assumption)
  have le: "take 2 (drop 8 h) = u16_le PROV_FORMAT_VERSION" "take 8 (drop 12 h) = u64_le q"
    "take 8 (drop 20 h) = u64_le ts" "take 4 (drop 28 h) = u32_le n" "take 4 (drop 32 h) = u32_le 0"
    "take 8 h = PROV_FILE_MAGIC" "take 32 (drop 68 h) = sha256 ?p"
    using r(1,2,5-9) lh e(6) by (auto simp: prov_read_iff uN_le_from_le slice_def from_le_eq_iff)
  have n: "of_nat (length (prov_payload e)) = n" using lp e(1) by simp
  have "h @ ?p = event_frame e"
    unfolding event_frame_def e(2-5,7,8) n unfolding e(1) [symmetric]
    by (subst prov_header_fields [OF lh]) (simp add: le r(3) prov_kind_code_inv [OF r(4)] slice_def)
  then have f: "event_frame e = h @ ?p" ..
  moreover have "bs = (h @ ?p) @ drop (164 + unat n) bs" by (simp add: h_def field_join)
  moreover have "off + length (event_frame e) < usize_limit"
    using fe(1) lh lp by (simp add: f checked_add_Some_iff)
  ultimately show ?thesis using a by metis
qed

interpretation prov_file: ledger_file "prov_replay_in b env" apply_event event_frame "prov_admits b env"
  "\<lambda>l. length (pl_head_digest l) = 32" for b env
proof unfold_locales
  show "prov_replay_in b env l off [] = Inr l" for l off by (simp add: prov_replay.simps)
  show "prov_admits b env l e \<Longrightarrow> event_frame e \<noteq> []" for l e using event_frame_header(15) by fastforce
  show "prov_admits b env l e \<Longrightarrow> length (pl_head_digest (apply_event l e)) = 32" for l e
    by (auto simp: apply_event_def dest: prov_digests)
  show "\<exists>e rest. bs = event_frame e @ rest \<and> prov_admits b env l e \<and> off + length (event_frame e) < usize_limit"
    if "length (pl_head_digest l) = 32" "prov_replay_in b env l off bs = Inr l'" "bs \<noteq> []" for l off bs l'
    by (rule prov_replay_sound [OF that(2,3,1)])
qed (simp add: prov_replay_frame)

subsection \<open>Histories\<close>

definition prov_bytes :: "prov_event list \<Rightarrow> bytes" where
  "prov_bytes es = concat (map event_frame es)"

definition prov_of :: "path \<Rightarrow> prov_event list \<Rightarrow> prov_ledger" where
  "prov_of p es = foldl apply_event (prov_empty p) es"

definition prov_history :: "signature_check \<Rightarrow> prov_env \<Rightarrow> path \<Rightarrow> prov_event list \<Rightarrow> bool" where
  "prov_history b env p es \<longleftrightarrow> prov_file.history b env (prov_empty p) es"

lemmas prov_file_facts = prov_history_def prov_of_def prov_bytes_def prov_file.file_bytes_def

lemma prov_history_snoc:
  "prov_history b env p (es @ [e]) \<longleftrightarrow> prov_history b env p es \<and> prov_admits b env (prov_of p es) e \<and>
     length (prov_bytes (es @ [e])) < usize_limit"
  by (simp add: prov_file_facts prov_file.file_history_snoc)

lemma prov_history_Nil [simp]: "prov_history b env p []"
  by (simp add: prov_file_facts prov_file.file_history_Nil)

lemma prov_of_simps [simp]:
  "prov_of p [] = prov_empty p" "prov_of p (es @ [e]) = apply_event (prov_of p es) e"
  by (simp_all add: prov_of_def)

lemma prov_of_fields [simp]: "pl_path (prov_of p es) = p" "pl_events (prov_of p es) = es"
  by (induction es rule: rev_induct) (simp_all add: apply_event_def prov_empty_def)

lemma prov_bytes_simps [simp]:
  "prov_bytes [] = []" "prov_bytes (es @ gs) = prov_bytes es @ prov_bytes gs" "prov_bytes [e] = event_frame e"
  by (simp_all add: prov_bytes_def)

lemma prov_head_length: "prov_history b env p es \<Longrightarrow> length (pl_head_digest (prov_of p es)) = 32"
  by (cases es rule: rev_cases) (auto simp: prov_history_snoc prov_empty_def intro: prov_file.good_push)

subsection \<open>Growing trust\<close>

definition env_extends :: "prov_env \<Rightarrow> prov_env \<Rightarrow> bool" where
  "env_extends env env' \<longleftrightarrow> registry_extends (en_registry env) (en_registry env') \<and>
     authorizations_extend (en_authorizations env) (en_authorizations env') \<and>
     federation_extends (en_federation env) (en_federation env')"

lemma federation_binding_iff:
  "verify_federation_binding i m f = Inr u \<longleftrightarrow> accepted_historically i f \<and>
     (\<exists>p. bt_get (fl_policies f) (pi_namespace i) = Some p \<and> np_policy_version p = pi_federation_policy_version i \<and>
        np_policy_digest p = pi_federation_policy_digest i \<and> m = np_authority_role_mask p)"
  by (auto simp: verify_federation_binding_def rbind_eq_Inr_iff guard_eq_Inr_iff)

lemma federation_binding_extends:
  "federation_extends f f' \<Longrightarrow> verify_federation_binding i m f = Inr u \<Longrightarrow> verify_federation_binding i m f' = Inr u"
  by (auto simp: federation_binding_iff federation_extends_def accepted_historically_def)

lemma event_trust_iff:
  "verify_event_trust b e r l f = Inr u \<longleftrightarrow> (\<exists>a. find_authorization l (pe_authorization_sequence e) = Some a \<and>
     au_domain_code a = PROVENANCE_DOMAIN \<and> au_key_id a = pe_actor_key_id e \<and>
     au_subject_digest a = pe_subject_digest e \<and> au_event_id a = pe_authorization_event_id e \<and>
     au_frame_digest a = pe_authorization_frame_digest e \<and>
     verify_sequence b l (pe_authorization_sequence e) r = Inr True \<and>
     verify_federation_binding (event_to_input e) (au_required_role_mask a) f = Inr u)"
  unfolding verify_event_trust_def rbind_eq_Inr_iff guard_eq_Inr_iff ok_or_eq_Inr_iff map_err_eq_Inr_iff by auto

lemma prov_trusts_extends: "env_extends env env' \<Longrightarrow> prov_trusts b env e \<Longrightarrow> prov_trusts b env' e"
  unfolding prov_trusts_def event_trust_iff env_extends_def
  using find_authorization_extends verify_sequence_extends federation_binding_extends by blast

lemma prov_history_extends:
  "env_extends env env' \<Longrightarrow> prov_history b env p es \<Longrightarrow> prov_history b env' p es"
proof (induction es rule: rev_induct)
  case (snoc e es)
  then show ?case by (auto simp: prov_history_snoc prov_admits_def prov_trusts_extends)
qed simp

subsection \<open>Appending\<close>

text \<open>What the array types of Rust guarantee.\<close>

definition input_typed :: "prov_input \<Rightarrow> bool" where
  "input_typed i \<longleftrightarrow> length (pi_source_locator_digest i) = 32 \<and> length (pi_content_digest i) = 32 \<and>
     length (pi_operation_digest i) = 32 \<and> length (pi_transformation_digest i) = 32 \<and>
     length (pi_federation_policy_digest i) = 32 \<and> length (pi_federation_bundle_digest i) = 32 \<and>
     list_all (\<lambda>d. length d = 32) (pi_parent_provenance_ids i)"

definition env_typed :: "prov_env \<Rightarrow> bool" where
  "env_typed env \<longleftrightarrow> list_all (\<lambda>a. length (au_event_id a) = 32 \<and> length (au_frame_digest a) = 32)
     (al_events (en_authorizations env))"

lemma input_shape_texts:
  assumes "validate_input_shape i = Inr u"
  shows "text_valid (pi_namespace i)" and "text_valid (pi_object_id i)" and "text_valid (pi_object_kind i)"
    and "text_valid (pi_actor_key_id i)" and "length (pi_parent_provenance_ids i) \<le> MAX_PARENTS"
  using assms unfolding validate_input_shape_def rbind_eq_Inr_iff guard_eq_Inr_iff validate_text_iff by auto

lemma event_to_input_simps [simp]:
  "pi_kind (event_to_input e) = pe_kind e" "pi_logical_timestamp (event_to_input e) = pe_logical_timestamp e"
  "pi_namespace (event_to_input e) = pe_namespace e" "pi_object_id (event_to_input e) = pe_object_id e"
  "pi_object_kind (event_to_input e) = pe_object_kind e" "pi_actor_key_id (event_to_input e) = pe_actor_key_id e"
  "pi_object_version (event_to_input e) = pe_object_version e"
  "pi_source_locator_digest (event_to_input e) = pe_source_locator_digest e"
  "pi_content_digest (event_to_input e) = pe_content_digest e"
  "pi_operation_digest (event_to_input e) = pe_operation_digest e"
  "pi_transformation_digest (event_to_input e) = pe_transformation_digest e"
  "pi_federation_policy_version (event_to_input e) = pe_federation_policy_version e"
  "pi_federation_policy_digest (event_to_input e) = pe_federation_policy_digest e"
  "pi_federation_bundle_version (event_to_input e) = pe_federation_bundle_version e"
  "pi_federation_bundle_digest (event_to_input e) = pe_federation_bundle_digest e"
  "pi_authorization_sequence (event_to_input e) = pe_authorization_sequence e"
  "pi_parent_provenance_ids (event_to_input e) = pe_parent_provenance_ids e"
  by (simp_all add: event_to_input_def)

lemma subject_digest_shape:
  assumes "provenance_subject_digest i = Inr s"
  shows "validate_input_shape i = Inr ()" and "length s = 32"
  using assms by (auto simp: provenance_subject_digest_def rbind_eq_Inr_iff)

lemma built_event_simps [simp]:
  "event_to_input (built_event q prev i a s) = i" "pe_sequence (built_event q prev i a s) = q"
  "pe_previous_digest (built_event q prev i a s) = prev" "pe_subject_digest (built_event q prev i a s) = s"
  "pe_authorization_event_id (built_event q prev i a s) = au_event_id a"
  "pe_authorization_frame_digest (built_event q prev i a s) = au_frame_digest a"
  "pe_authorization_sequence (built_event q prev i a s) = pi_authorization_sequence i"
  "pe_actor_key_id (built_event q prev i a s) = pi_actor_key_id i"
  "pe_provenance_id (built_event q prev i a s) = provenance_id_digest s (au_event_id a)"
  by (simp_all add: built_event_def event_to_input_def)

lemma build_event_sound:
  assumes "build_event q prev i b r l f = Inr e"
  shows "event_to_input e = i" and "pe_sequence e = q" and "pe_previous_digest e = prev"
    and "provenance_subject_digest i = Inr (pe_subject_digest e)"
    and "pe_provenance_id e = provenance_id_digest (pe_subject_digest e) (pe_authorization_event_id e)"
    and "verify_event_trust b e r l f = Inr ()"
proof -
  from assms obtain a s where a: "find_authorization l (pi_authorization_sequence i) = Some a"
    and s: "provenance_subject_digest i = Inr s" "au_domain_code a = PROVENANCE_DOMAIN"
      "au_subject_digest a = s" "au_key_id a = pi_actor_key_id i"
      "verify_sequence b l (pi_authorization_sequence i) r = Inr True"
      "verify_federation_binding i (au_required_role_mask a) f = Inr ()"
    and e: "e = built_event q prev i a s"
    unfolding build_event_def rbind_eq_Inr_iff guard_eq_Inr_iff ok_or_eq_Inr_iff map_err_eq_Inr_iff by auto
  then show "event_to_input e = i" "pe_sequence e = q" "pe_previous_digest e = prev"
    "provenance_subject_digest i = Inr (pe_subject_digest e)"
    "pe_provenance_id e = provenance_id_digest (pe_subject_digest e) (pe_authorization_event_id e)"
    "verify_event_trust b e r l f = Inr ()" by (simp_all add: event_trust_iff)
qed

lemma event_trust_typed:
  assumes "verify_event_trust b e r l f = Inr u" and "list_all (\<lambda>a. length (au_event_id a) = 32 \<and> length (au_frame_digest a) = 32) (al_events l)"
  shows "length (pe_authorization_event_id e) = 32" and "length (pe_authorization_frame_digest e) = 32"
proof -
  obtain a where a: "find_authorization l (pe_authorization_sequence e) = Some a"
    "au_event_id a = pe_authorization_event_id e" "au_frame_digest a = pe_authorization_frame_digest e"
    using assms(1) by (auto simp: event_trust_iff)
  from a(1) have "a \<in> set (al_events l)" unfolding find_authorization_def find_Some_iff by (metis nth_mem)
  with assms(2) a(2,3) show "length (pe_authorization_event_id e) = 32" "length (pe_authorization_frame_digest e) = 32"
    by (auto simp: list_all_iff)
qed

lemma frame_digest_irrelevant [simp]:
  "prov_payload (e\<lparr>pe_frame_digest := d\<rparr>) = prov_payload e"
  "event_to_input (e\<lparr>pe_frame_digest := d\<rparr>) = event_to_input e"
  "validate_state_transition l (e\<lparr>pe_frame_digest := d\<rparr>) = validate_state_transition l e"
  "event_typed (e\<lparr>pe_frame_digest := d\<rparr>) = event_typed e"
  "verify_event_trust b (e\<lparr>pe_frame_digest := d\<rparr>) r a f = verify_event_trust b e r a f"
  by (cases e; simp only: prov_event.update_convs prov_event.select_convs prov_payload_def event_to_input_def
      validate_state_transition_def event_typed_def verify_event_trust_def)+

abbreviation append_in where
  "append_in b env \<equiv> append_authorized b (en_registry env) (en_authorizations env) (en_federation env)"

lemma append_cases:
  assumes ty: "input_typed i" "env_typed env" and h: "length (pl_head_digest l) = 32"
  obtains (refused) err where "append_in b env i l fs = (Inl err, l, fs)"
      and "fget fs (pl_path l) = None \<or> (\<forall>e. build_event (of_nat (length (pl_events l)) + 1) (pl_head_digest l) i b
          (en_registry env) (en_authorizations env) (en_federation env) = Inr e \<longrightarrow> validate_state_transition l e \<noteq> Inr ())"
  | (recorded) old e r where "fget fs (pl_path l) = Some old" and "prov_admits b env l e" and "event_to_input e = i"
      and "append_in b env i l fs = (Inr r, apply_event l e, fput (pl_path l) (old @ event_frame e) fs)"
      and "pr_provenance_id r = pe_provenance_id e"
proof (cases "build_event (of_nat (length (pl_events l)) + 1) (pl_head_digest l) i b (en_registry env)
     (en_authorizations env) (en_federation env)")
  case (Inl err)
  then show thesis by (intro refused [of err]) (simp_all add: append_authorized_def)
next
  case (Inr e0)
  note e0 = build_event_sound [OF Inr] and shape = subject_digest_shape [OF build_event_sound(4) [OF Inr]]
  have typed: "event_typed e0"
    using input_shape_texts [OF shape(1)] ty(1) shape(2)
      event_trust_typed [OF e0(6) ty(2) [unfolded env_typed_def]]
    unfolding e0(1) [symmetric] by (simp add: event_typed_def input_typed_def)
  show thesis
  proof (cases "validate_state_transition l e0")
    case (Inl err)
    with Inr show thesis by (intro refused [of err]) (simp_all add: append_authorized_def Let_def)
  next
    case v: (Inr u)
    note small = prov_payload_small [OF typed]
    let ?d = "prov_frame_digest (pe_sequence e0) (pe_logical_timestamp e0) (pe_previous_digest e0) (pe_provenance_id e0)
      (sha256 (prov_payload e0))"
    let ?e = "e0\<lparr>pe_frame_digest := ?d\<rparr>"
    have a: "prov_admits b env l ?e"
      using typed e0 v h by (simp add: prov_admits_def prov_trusts_def)
    have f: "prov_encode_frame ?e (sha256 (prov_payload e0)) (prov_payload e0) = Inr (event_frame ?e)"
      using small by (simp add: prov_encode_frame_def event_frame_def PROV_MAX_PAYLOAD_BYTES_def)
    show thesis
    proof (cases "fget fs (pl_path l)")
      case None
      with Inr v f small show thesis
        by (intro refused [of "Prov_Io (NotFound (pl_path l))"])
          (simp_all add: append_authorized_def Let_def encode_payload_ok [OF typed] write_all_def)
    next
      case (Some old)
      with Inr v f small show thesis
        by (intro recorded [OF Some a, of "\<lparr>pr_sequence = pe_sequence e0, pr_provenance_id = pe_provenance_id e0,
              pr_frame_digest = ?d, pr_object_version = pe_object_version e0\<rparr>"])
          (simp_all add: append_authorized_def Let_def encode_payload_ok [OF typed] write_all_def e0(1))
    qed
  qed
qed

subsection \<open>Runs of a provenance ledger\<close>

text \<open>
  A ledger that is created, offered inputs, and reopened, while the ledgers it relies on
  grow. The file stays shorter than the address space.
\<close>

type_synonym prov_system = "prov_env \<times> prov_ledger \<times> fsys"

definition prov_initial :: "prov_system \<Rightarrow> bool" where
  "prov_initial s \<longleftrightarrow> (case s of (env, l, fs) \<Rightarrow> env_typed env \<and> (\<exists>p fs0. prov_create p fs0 = (Inr l, fs)))"

inductive prov_step :: "signature_check \<Rightarrow> prov_system \<Rightarrow> prov_system \<Rightarrow> bool" for b where
  prov_appends:
    "input_typed i \<Longrightarrow>
     append_authorized b (en_registry env) (en_authorizations env) (en_federation env) i l fs = (r, l', fs') \<Longrightarrow>
     (\<And>bs. fget fs' (pl_path l) = Some bs \<Longrightarrow> length bs < usize_limit) \<Longrightarrow>
     prov_step b (env, l, fs) (env, l', fs')"
| prov_reopens:
    "prov_open_strict b (pl_path l) (en_registry env) (en_authorizations env) (en_federation env) fs = (Inr l', fs') \<Longrightarrow>
     prov_step b (env, l, fs) (env, l', fs')"
| prov_trust_grows:
    "env_extends env env' \<Longrightarrow> env_typed env' \<Longrightarrow> fget fs' (pl_path l) = fget fs (pl_path l) \<Longrightarrow>
     prov_step b (env, l, fs) (env', l, fs')"

definition prov_inv :: "signature_check \<Rightarrow> prov_system \<Rightarrow> bool" where
  "prov_inv b s \<longleftrightarrow> (case s of (env, l, fs) \<Rightarrow> env_typed env \<and> (\<exists>p es. prov_history b env p es \<and> l = prov_of p es \<and>
     fget fs p = Some (prov_bytes es)))"

lemma prov_inv_I:
  "env_typed env \<Longrightarrow> prov_history b env p es \<Longrightarrow> fget fs p = Some (prov_bytes es) \<Longrightarrow> prov_inv b (env, prov_of p es, fs)"
  by (auto simp: prov_inv_def)

lemma prov_inv_E:
  assumes "prov_inv b (env, l, fs)"
  obtains es where "env_typed env" and "prov_history b env (pl_path l) es" and "l = prov_of (pl_path l) es"
    and "pl_events l = es" and "fget fs (pl_path l) = Some (prov_bytes es)"
  using assms by (auto simp: prov_inv_def)

lemma prov_open_history:
  "prov_history b env p es \<Longrightarrow> fget fs p = Some (prov_bytes es) \<Longrightarrow>
   prov_open_strict b p (en_registry env) (en_authorizations env) (en_federation env) fs = (Inr (prov_of p es), fs)"
  using prov_file.file_replay_history [of b env "prov_empty p" es]
  by (simp add: prov_open_strict_def io_query_def fs_read_def io_pure_def prov_file_facts)

interpretation prov_run: invariant_system prov_initial "prov_step b" "prov_inv b" for b
proof unfold_locales
  show "prov_initial s \<Longrightarrow> prov_inv b s" for s
  proof -
    assume i: "prov_initial s"
    obtain env l fs where s: "s = (env, l, fs)" by (metis prod_cases3)
    from i s obtain p fs0 where "env_typed env" and c: "prov_create p fs0 = (Inr l, fs)" by (auto simp: prov_initial_def)
    from c obtain fs' where "l = prov_empty p" "fs = fput p [] fs'"
      by (auto simp: prov_create_def io_bind_eq_Inr_iff io_ret_def create_new_def split: if_splits)
    then show ?thesis using prov_inv_I [of env b p "[]" fs] \<open>env_typed env\<close> s by simp
  qed
  show "prov_step b s s' \<Longrightarrow> prov_inv b s \<Longrightarrow> prov_inv b s'" for s s'
  proof (induction rule: prov_step.induct)
    case (prov_appends i env l fs r l' fs')
    from prov_appends.prems obtain es where h: "env_typed env" "prov_history b env (pl_path l) es" "l = prov_of (pl_path l) es"
      "fget fs (pl_path l) = Some (prov_bytes es)" by (rule prov_inv_E)
    have "length (pl_head_digest l) = 32" using prov_head_length [OF h(2)] h(3) by simp
    with prov_appends(1) h(1) show ?case
    proof (cases rule: append_cases [of i env l b fs])
      case (refused err)
      then show ?thesis using prov_appends by auto
    next
      case (recorded old e r')
      have e: "l' = apply_event l e" "fs' = fput (pl_path l) (prov_bytes es @ event_frame e) fs"
        using recorded(1,4) prov_appends(2) h(4) by simp_all
      have "prov_history b env (pl_path l) (es @ [e])"
        using h(2,3) recorded(2) prov_appends(3) e(2) by (simp add: prov_history_snoc)
      from prov_inv_I [OF h(1) this, of fs'] e h(3) show ?thesis by simp
    qed
  next
    case (prov_reopens l env fs l' fs')
    from prov_reopens.prems obtain es where h: "env_typed env" "prov_history b env (pl_path l) es"
      "fget fs (pl_path l) = Some (prov_bytes es)" by (rule prov_inv_E)
    from prov_open_history [OF h(2,3)] prov_reopens(1) prov_inv_I [OF h] show ?case by simp
  next
    case (prov_trust_grows env env' fs' l fs)
    from prov_trust_grows.prems obtain es where h: "prov_history b env (pl_path l) es" "l = prov_of (pl_path l) es"
      "fget fs (pl_path l) = Some (prov_bytes es)" by (rule prov_inv_E)
    from prov_inv_I [OF prov_trust_grows(2) prov_history_extends [OF prov_trust_grows(1) h(1)]] h(2,3) prov_trust_grows(3)
    show ?case by metis
  qed
qed

lemma reachable_prov:
  assumes "reachable prov_initial (prov_step b) (env, l, fs)"
  obtains es where "env_typed env" and "prov_history b env (pl_path l) es" and "l = prov_of (pl_path l) es"
    and "pl_events l = es" and "fget fs (pl_path l) = Some (prov_bytes es)"
  using prov_inv_E [OF prov_run.reachable_inv [OF assms]] by blast

text \<open>
  The provenance ledger reopens: in every reachable state, opening its file strictly against
  the current trust ledgers succeeds and gives back exactly the ledger in memory. This includes
  states in which the trust ledgers have grown after the events were recorded: key states at
  earlier registry heads, earlier authorisations and federation events and the policy of a
  namespace are kept, anything may have been added.
\<close>

theorem provenance_reopens_exactly:
  assumes "reachable prov_initial (prov_step b) (env, l, fs)"
  shows "prov_open_strict b (pl_path l) (en_registry env) (en_authorizations env) (en_federation env) fs = (Inr l, fs)"
proof -
  obtain es where "prov_history b env (pl_path l) es" "l = prov_of (pl_path l) es" "fget fs (pl_path l) = Some (prov_bytes es)"
    by (rule reachable_prov [OF assms])
  with prov_open_history show ?thesis by metis
qed

subsection \<open>Lineage\<close>

definition prov_parents :: "prov_ledger \<Rightarrow> (bytes \<times> bytes) set" where
  "prov_parents l = {(x, p). \<exists>e. prov_get l x = Some e \<and> p \<in> set (pe_parent_provenance_ids e)}"

text \<open>
  The index of the identifiers: every event is found under its identifier, identifiers are
  unique, and the parents of an event come before it.
\<close>

definition index_ok :: "prov_event list \<Rightarrow> (bytes, nat) btree \<Rightarrow> bool" where
  "index_ok es m \<longleftrightarrow> bt_ok m \<and> length m = length es \<and>
     (\<forall>x i. bt_get m x = Some i \<longleftrightarrow> i < length es \<and> pe_provenance_id (es ! i) = x) \<and>
     (\<forall>i < length es. \<forall>p \<in> set (pe_parent_provenance_ids (es ! i)). \<exists>j < i. pe_provenance_id (es ! j) = p)"

lemma length_bt_insert: "bt_ok m \<Longrightarrow> bt_get m k = None \<Longrightarrow> length (bt_insert k v m) = Suc (length m)"
  by (induction k v m rule: bt_insert.induct) (auto simp: bt_ok_def split: if_splits)

lemma transition_iff:
  "validate_state_transition l e = Inr u \<longleftrightarrow> pl_last_timestamp l < pe_logical_timestamp e \<and>
     bt_get (pl_by_id l) (pe_provenance_id e) = None \<and>
     pe_authorization_sequence e \<notin> set (pl_used_authorization_sequences l) \<and>
     pe_object_version e = (case bt_get (pl_latest_object_versions l) (pe_namespace e, pe_object_id e) of
        Some v \<Rightarrow> v | None \<Rightarrow> 0) + 1 \<and>
     (\<forall>p \<in> set (pe_parent_provenance_ids e). bt_get (pl_by_id l) p \<noteq> None)"
  unfolding validate_state_transition_def Let_def guard_eq_Inr_iff by (auto simp: list_ex_iff)

lemma index_ok_snoc:
  assumes ok: "index_ok es m" and new: "bt_get m (pe_provenance_id e) = None"
    and ps: "\<forall>p \<in> set (pe_parent_provenance_ids e). bt_get m p \<noteq> None"
  shows "index_ok (es @ [e]) (bt_insert (pe_provenance_id e) (length es) m)"
proof -
  let ?x = "pe_provenance_id e"
  have fresh: "\<forall>i < length es. pe_provenance_id (es ! i) \<noteq> ?x" using ok new unfolding index_ok_def by (metis option.distinct(1))
  have get: "bt_get m x = Some i \<longleftrightarrow> i < length es \<and> pe_provenance_id (es ! i) = x" for x i
    using ok by (simp add: index_ok_def)
  have "bt_get (bt_insert ?x (length es) m) x = Some i \<longleftrightarrow>
      i < length (es @ [e]) \<and> pe_provenance_id ((es @ [e]) ! i) = x" for x i
    using get [of x i] fresh by (auto simp: bt_get_insert nth_append less_Suc_eq)
  moreover have "\<exists>j < i. pe_provenance_id ((es @ [e]) ! j) = p"
    if "i < length (es @ [e])" "p \<in> set (pe_parent_provenance_ids ((es @ [e]) ! i))" for i p
  proof (cases "i < length es")
    case True
    with that(2) have "p \<in> set (pe_parent_provenance_ids (es ! i))" by (simp add: nth_append)
    with True ok obtain j where "j < i" "pe_provenance_id (es ! j) = p" unfolding index_ok_def by blast
    with True show ?thesis by (intro exI [of _ j]) (simp add: nth_append)
  next
    case False
    with that(1) have "i = length es" by simp
    with that(2) have i: "i = length es" "p \<in> set (pe_parent_provenance_ids e)" by simp_all
    with ps obtain j where "bt_get m p = Some j" by auto
    with get i show ?thesis by (intro exI [of _ j]) (simp add: nth_append)
  qed
  ultimately show ?thesis
    using ok bt_ok_insert [of m] length_bt_insert [OF _ new] by (auto simp: index_ok_def)
qed

lemma history_index: "prov_history b env p es \<Longrightarrow> index_ok es (pl_by_id (prov_of p es))"
proof (induction es rule: rev_induct)
  case Nil
  then show ?case by (simp add: index_ok_def prov_empty_def bt_ok_def)
next
  case (snoc e es)
  then have "index_ok es (pl_by_id (prov_of p es))" "validate_state_transition (prov_of p es) e = Inr ()"
    by (auto simp: prov_history_snoc prov_admits_def)
  then show ?case using index_ok_snoc by (simp add: transition_iff apply_event_def)
qed


abbreviation prov_ids :: "prov_event list \<Rightarrow> bytes set" where
  "prov_ids es \<equiv> pe_provenance_id ` set es"

definition ancestors :: "prov_ledger \<Rightarrow> bytes \<Rightarrow> bytes set" where
  "ancestors l x = (prov_parents l)\<^sup>* `` {x}"

text \<open>Known events in an order in which every event comes after its parents.\<close>

definition topological :: "prov_ledger \<Rightarrow> prov_event list \<Rightarrow> bool" where
  "topological l es \<longleftrightarrow> distinct (map pe_provenance_id es) \<and>
     (\<forall>k < length es. prov_get l (pe_provenance_id (es ! k)) = Some (es ! k) \<and>
        set (pe_parent_provenance_ids (es ! k)) \<subseteq> prov_ids (take k es))"

lemma topological_Nil: "topological l []"
  by (simp add: topological_def)

lemma topological_snoc:
  "topological l es \<Longrightarrow> prov_get l (pe_provenance_id e) = Some e \<Longrightarrow> pe_provenance_id e \<notin> prov_ids es \<Longrightarrow>
   set (pe_parent_provenance_ids e) \<subseteq> prov_ids es \<Longrightarrow> topological l (es @ [e])"
  by (auto simp: topological_def nth_append less_Suc_eq)

lemma ancestors_closed:
  assumes t: "topological l es" and x: "x \<in> prov_ids es"
  shows "ancestors l x \<subseteq> prov_ids es"
proof -
  have "y \<in> prov_ids es" if "(x, y) \<in> (prov_parents l)\<^sup>*" for y
    using that
  proof (induction rule: rtrancl_induct)
    case (step y z)
    then obtain k where k: "k < length es" "y = pe_provenance_id (es ! k)" by (auto simp: in_set_conv_nth)
    with step(2) t have "z \<in> prov_ids (take k es)" by (auto simp: topological_def prov_parents_def)
    then show ?case using set_take_subset by fastforce
  qed (rule x)
  then show ?thesis by (auto simp: ancestors_def)
qed

lemma ancestors_unfold:
  "prov_get l x = Some e \<Longrightarrow> ancestors l x = insert x (\<Union>p \<in> set (pe_parent_provenance_ids e). ancestors l p)"
  by (auto simp: ancestors_def prov_parents_def elim: converse_rtranclE intro: converse_rtrancl_into_rtrancl)

text \<open>
  The search for an identifier below index \<open>m\<close>: the events found so far are in order, they
  have been visited, and every visited identifier below the index has been finished.
\<close>

definition search_ok :: "prov_ledger \<Rightarrow> nat \<Rightarrow> bytes list \<Rightarrow> prov_event list \<Rightarrow> bool" where
  "search_ok l m visited ordered \<longleftrightarrow> topological l ordered \<and> prov_ids ordered \<subseteq> set visited \<and>
     (\<forall>x j. x \<in> set visited \<longrightarrow> bt_get (pl_by_id l) x = Some j \<longrightarrow> j < m \<longrightarrow> x \<in> prov_ids ordered)"

definition search_adds :: "prov_ledger \<Rightarrow> bytes set \<Rightarrow> lineage_state \<Rightarrow> prov_event list \<Rightarrow> lineage_state \<Rightarrow> bool" where
  "search_adds l A st new st' \<longleftrightarrow> set (fst st') = set (fst st) \<union> A \<and> snd st' = snd st @ new \<and>
     prov_ids new = A - set (fst st) \<and> topological l (snd st')"

lemma search_ok_adds:
  "search_ok l m V O1 \<Longrightarrow> search_adds l A (V, O1) new (V', O2) \<Longrightarrow> search_ok l m V' O2"
  unfolding search_ok_def search_adds_def fst_conv snd_conv by (auto simp: image_Un)

lemma search_ok_mono: "search_ok l m V O1 \<Longrightarrow> j \<le> m \<Longrightarrow> search_ok l j V O1"
  by (auto simp: search_ok_def)

lemma collect_parents_spec:
  assumes one: "\<And>p j V O1. bt_get (pl_by_id l) p = Some j \<Longrightarrow> j < m \<Longrightarrow> search_ok l (Suc j) V O1 \<Longrightarrow>
      \<exists>st new. collect_lineage n l p (V, O1) = Some (Inr st) \<and> search_adds l (ancestors l p) (V, O1) new st"
  shows "\<forall>p \<in> set ps. \<exists>j < m. bt_get (pl_by_id l) p = Some j \<Longrightarrow> search_ok l m V O1 \<Longrightarrow>
      \<exists>st new. collect_parents n l ps (V, O1) = Some (Inr st) \<and>
        search_adds l (\<Union>p \<in> set ps. ancestors l p) (V, O1) new st"
proof (induction ps arbitrary: V O1)
  case Nil
  then show ?case by (intro exI [of _ "(V, O1)"] exI [of _ "[]"]) (auto simp: search_adds_def search_ok_def)
next
  case (Cons p ps)
  then obtain j where j: "j < m" "bt_get (pl_by_id l) p = Some j" by auto
  obtain V1 O2 new1 where s: "collect_lineage n l p (V, O1) = Some (Inr (V1, O2))"
    "search_adds l (ancestors l p) (V, O1) new1 (V1, O2)"
    using one [OF j(2,1) search_ok_mono [OF Cons.prems(2)]] j(1) by (metis Suc_leI surj_pair)
  obtain st new2 where "collect_parents n l ps (V1, O2) = Some (Inr st)"
    "search_adds l (\<Union>p \<in> set ps. ancestors l p) (V1, O2) new2 st"
    using Cons.IH [OF _ search_ok_adds [OF Cons.prems(2) s(2)]] Cons.prems(1) by auto
  with s show ?case by (intro exI [of _ st] exI [of _ "new1 @ new2"]) (auto simp: search_adds_def image_Un)
qed

lemma get_by_index:
  assumes "index_ok (pl_events l) (pl_by_id l)" and "bt_get (pl_by_id l) x = Some i"
  shows "prov_get l x = Some (pl_events l ! i)" and "pe_provenance_id (pl_events l ! i) = x"
    and "\<forall>p \<in> set (pe_parent_provenance_ids (pl_events l ! i)). \<exists>j < i. bt_get (pl_by_id l) p = Some j"
proof -
  have i: "i < length (pl_events l)" "pe_provenance_id (pl_events l ! i) = x" using assms by (auto simp: index_ok_def)
  then show "prov_get l x = Some (pl_events l ! i)" "pe_provenance_id (pl_events l ! i) = x"
    using assms(2) by (simp_all add: prov_get_def)
  show "\<forall>p \<in> set (pe_parent_provenance_ids (pl_events l ! i)). \<exists>j < i. bt_get (pl_by_id l) p = Some j"
    using assms(1) i unfolding index_ok_def by (meson order.strict_trans)
qed

lemma collect_lineage_spec:
  assumes ix: "index_ok (pl_events l) (pl_by_id l)"
  shows "bt_get (pl_by_id l) pid = Some i \<Longrightarrow> i < n \<Longrightarrow> search_ok l (Suc i) V O1 \<Longrightarrow>
    \<exists>st new. collect_lineage n l pid (V, O1) = Some (Inr st) \<and> search_adds l (ancestors l pid) (V, O1) new st \<and>
      (pid \<notin> set V \<longrightarrow> new \<noteq> [] \<and> last new = pl_events l ! i)"
proof (induction n arbitrary: pid i V O1)
  case (Suc n)
  note ok = Suc.prems(3)
  show ?case
  proof (cases "pid \<in> set V")
    case True
    then have "pid \<in> prov_ids O1" using ok Suc.prems(1) by (auto simp: search_ok_def)
    with ok have "ancestors l pid \<subseteq> set V" using ancestors_closed by (fastforce simp: search_ok_def)
    with True ok show ?thesis
      by (intro exI [of _ "(V, O1)"] exI [of _ "[]"]) (auto simp: search_adds_def search_ok_def)
  next
    case False
    let ?e = "pl_events l ! i" and ?V = "bset_insert pid V"
    let ?ps = "pe_parent_provenance_ids ?e"
    note g = get_by_index [OF ix Suc.prems(1)]
    have ok1: "search_ok l i ?V O1" using ok Suc.prems(1) by (auto simp: search_ok_def)
    have one: "\<exists>st new. collect_lineage n l p (V, O1) = Some (Inr st) \<and> search_adds l (ancestors l p) (V, O1) new st"
      if "bt_get (pl_by_id l) p = Some j" "j < i" "search_ok l (Suc j) V O1" for p j V O1
      using Suc.IH [OF that(1) _ that(3)] that(2) Suc.prems(2) by auto
    have "\<exists>st new. collect_parents n l ?ps (?V, O1) = Some (Inr st) \<and>
        search_adds l (\<Union>p \<in> set ?ps. ancestors l p) (?V, O1) new st"
      by (rule collect_parents_spec [where m = i]) (use one g(3) ok1 in auto)
    then obtain V1 O2 new where p: "collect_parents n l ?ps (?V, O1) = Some (Inr (V1, O2))"
      "search_adds l (\<Union>p \<in> set ?ps. ancestors l p) (?V, O1) new (V1, O2)" by auto
    have ok2: "search_ok l i V1 O2" by (rule search_ok_adds [OF ok1 p(2)])
    have "set ?ps \<subseteq> prov_ids O2"
    proof
      fix x assume x: "x \<in> set ?ps"
      then have "x \<in> set V1" using p(2) by (auto simp: search_adds_def ancestors_def)
      with ok2 g(3) x show "x \<in> prov_ids O2" by (auto simp: search_ok_def)
    qed
    moreover have "pid \<notin> prov_ids O2" using p(2) ok False by (auto simp: search_adds_def search_ok_def)
    ultimately have "topological l (O2 @ [?e])"
      using ok2 g(1,2) by (intro topological_snoc) (auto simp: search_ok_def)
    then have "search_adds l (ancestors l pid) (V, O1) (new @ [?e]) (V1, O2 @ [?e])"
      using p(2) False g(2) unfolding search_adds_def ancestors_unfold [OF g(1)] by auto
    with p(1) False g(1) show ?thesis
      by (intro exI [of _ "(V1, O2 @ [?e])"] exI [of _ "new @ [?e]"]) (simp add: Let_def)
  qed
qed simp

text \<open>
  C15. Lineage: for an unknown identifier the query reports that it is not known. For a known
  one it always returns: the events of exactly the identifier and all its ancestors, each once,
  every event after all of its parents, and the event itself last.
\<close>

theorem lineage_correct:
  assumes "reachable prov_initial (prov_step b) (env, l, fs)"
  shows "case prov_get l pid of
      None \<Rightarrow> lineage l pid = Some (Inl (Prov_Invalid (lit ''provenance id not found'')))
    | Some e \<Rightarrow> (\<exists>es. lineage l pid = Some (Inr es) \<and> es \<noteq> [] \<and> last es = e \<and>
        distinct (map pe_provenance_id es) \<and> set es \<subseteq> set (pl_events l) \<and>
        pe_provenance_id ` set es = {x. (pid, x) \<in> (prov_parents l)\<^sup>*} \<and>
        (\<forall>k < length es. \<forall>p \<in> set (pe_parent_provenance_ids (es ! k)). \<exists>j < k. pe_provenance_id (es ! j) = p))"
proof -
  obtain es where "prov_history b env (pl_path l) es" "l = prov_of (pl_path l) es" "pl_events l = es"
    by (rule reachable_prov [OF assms])
  then have ix: "index_ok (pl_events l) (pl_by_id l)" using history_index by metis
  show ?thesis
  proof (cases "bt_get (pl_by_id l) pid")
    case None
    then show ?thesis by (simp add: prov_get_def lineage_def)
  next
    case (Some i)
    note g = get_by_index [OF ix Some]
    have n: "i < Suc (Suc (length (pl_by_id l)))" using ix Some by (auto simp: index_ok_def)
    have "search_ok l (Suc i) [] []" by (simp add: search_ok_def topological_Nil)
    from collect_lineage_spec [OF ix Some n this] obtain V O1 where
      c: "collect_lineage (Suc (Suc (length (pl_by_id l)))) l pid ([], []) = Some (Inr (V, O1))"
      and s: "search_adds l (ancestors l pid) ([], []) O1 (V, O1)" "O1 \<noteq> []" "last O1 = pl_events l ! i"
      by (auto simp: search_adds_def)
    have t: "topological l O1" using s(1) by (simp add: search_adds_def)
    have "\<exists>j < k. pe_provenance_id (O1 ! j) = p" if "k < length O1" "p \<in> set (pe_parent_provenance_ids (O1 ! k))" for k p
    proof -
      have "p \<in> prov_ids (take k O1)" using t that by (auto simp: topological_def)
      then obtain j where "j < k" "p = pe_provenance_id (O1 ! j)" using that(1) by (auto simp: in_set_conv_nth)
      then show ?thesis by blast
    qed
    moreover have "set O1 \<subseteq> set (pl_events l)"
    proof
      fix x assume "x \<in> set O1"
      then have "prov_get l (pe_provenance_id x) = Some x" using t by (auto simp: topological_def in_set_conv_nth)
      then show "x \<in> set (pl_events l)" by (auto simp: prov_get_def bind_eq_Some_conv split: if_splits)
    qed
    moreover have "lineage l pid = Some (Inr O1)" using Some c by (simp add: lineage_def del: collect_lineage.simps)
    ultimately show ?thesis
      using g(1) s t by (auto simp: search_adds_def topological_def ancestors_def)
  qed
qed

subsection \<open>Every event is authorised\<close>

definition same_object :: "prov_event \<Rightarrow> prov_event \<Rightarrow> bool" where
  "same_object e f \<longleftrightarrow> pe_namespace f = pe_namespace e \<and> pe_object_id f = pe_object_id e"

lemma history_used:
  "prov_history b env p es \<Longrightarrow> set (pl_used_authorization_sequences (prov_of p es)) = pe_authorization_sequence ` set es \<and>
     distinct (map pe_authorization_sequence es)"
proof (induction es rule: rev_induct)
  case (snoc e es)
  then have "validate_state_transition (prov_of p es) e = Inr ()" by (auto simp: prov_history_snoc prov_admits_def)
  with snoc show ?case by (auto simp: prov_history_snoc transition_iff apply_event_def)
qed (simp add: prov_empty_def)

lemma latest_versions:
  "prov_history b env p es \<Longrightarrow>
   (case bt_get (pl_latest_object_versions (prov_of p es)) (pe_namespace e, pe_object_id e) of Some v \<Rightarrow> v | None \<Rightarrow> 0)
     = of_nat (length (filter (same_object e) es))"
proof (induction es rule: rev_induct)
  case (snoc f es)
  then have "validate_state_transition (prov_of p es) f = Inr ()" "prov_history b env p es"
    by (auto simp: prov_history_snoc prov_admits_def)
  with snoc.IH show ?case
    by (auto simp: transition_iff apply_event_def bt_get_insert same_object_def)
qed (simp add: prov_empty_def)

lemma prov_history_count: "prov_history b env p es \<Longrightarrow> 164 * length es \<le> length (prov_bytes es)"
proof (induction es rule: rev_induct)
  case (snoc e es)
  then have a: "prov_admits b env (prov_of p es) e" by (simp add: prov_history_snoc)
  from event_frame_header(15) [OF a] snoc show ?case by (simp add: prov_history_snoc)
qed simp

lemma prov_history_room: "prov_history b env p es \<Longrightarrow> length es + 1 < usize_limit"
  using prov_history_count [of b env p es] prov_file.file_history_length [of b env "prov_empty p" es]
  by (simp add: prov_file_facts usize_limit_def)

lemma prov_history_take:
  "prov_history b env p es \<Longrightarrow> n < length es \<Longrightarrow>
   prov_history b env p (take n es) \<and> prov_admits b env (prov_of p (take n es)) (es ! n)"
  using prov_file.file_history_take by (simp add: prov_file_facts)

lemma unat_of_small: "n + 1 < usize_limit \<Longrightarrow> unat (of_nat n + 1 :: u64) = n + 1"
  by (simp add: usize_limit_def unat_word_ariths unat_of_nat)

text \<open>
  C16. Every event of a reachable provenance ledger is authorised under the current trust
  ledgers: the authorisation with the sequence number the event names belongs to the provenance
  domain and to the actor of the event. What it signs is the digest of a message made of this
  domain, the required role, the subject digest of exactly this event, the registry head, the
  digest of the actor's public key, its timestamp, key and nonce; the signature of that digest
  verifies under the public key, which was active and had the role at the registry head the
  authorisation names. The role is the one the policy of the namespace asks for, and the
  federation bundle the event names was accepted. No authorisation serves
  two events, events are numbered from one, and the versions of an object count its events.
\<close>

theorem provenance_events_authorised:
  assumes "reachable prov_initial (prov_step b) (env, l, fs)" and "n < length (pl_events l)"
  shows "let e = pl_events l ! n in
     (\<exists>a s p. find_authorization (en_authorizations env) (pe_authorization_sequence e) = Some a \<and>
        au_domain_code a = PROVENANCE_DOMAIN \<and> au_key_id a = pe_actor_key_id e \<and>
        provenance_subject_digest (event_to_input e) = Inr (au_subject_digest a) \<and>
        state_at_head (en_registry env) (au_key_registry_head a) (pe_actor_key_id e) = Some s \<and>
        has_role s (au_required_role_mask a) \<and> ks_public_key_digest s = au_public_key_digest a \<and>
        authorization_message_digest (au_domain_code a) (au_required_role_mask a) (au_subject_digest a)
          (au_key_registry_head a) (au_public_key_digest a) (au_logical_timestamp a) (au_key_id a) (au_nonce a)
          = Inr (au_authorization_digest a) \<and>
        verify_digest b (ks_public_blob s) (au_authorization_digest a) (au_signature a) = Inr True \<and>
        bt_get (fl_policies (en_federation env)) (pe_namespace e) = Some p \<and>
        au_required_role_mask a = np_authority_role_mask p) \<and>
     accepted_historically (event_to_input e) (en_federation env) \<and>
     distinct (map pe_authorization_sequence (pl_events l)) \<and> unat (pe_sequence e) = n + 1 \<and>
     unat (pe_object_version e) = length (filter (same_object e) (take n (pl_events l))) + 1"
proof -
  obtain es where h: "prov_history b env (pl_path l) es" and es: "pl_events l = es"
    by (rule reachable_prov [OF assms(1)])
  have n: "n < length es" using assms(2) es by simp
  let ?e = "es ! n" and ?l = "prov_of (pl_path l) (take n es)"
  have th: "prov_history b env (pl_path l) (take n es)" and a: "prov_admits b env ?l ?e"
    using prov_history_take [OF h n] by simp_all
  have t: "verify_event_trust b ?e (en_registry env) (en_authorizations env) (en_federation env) = Inr ()"
    and s: "provenance_subject_digest (event_to_input ?e) = Inr (pe_subject_digest ?e)"
    and q: "pe_sequence ?e = of_nat n + 1" and v: "validate_state_transition ?l ?e = Inr ()"
    using a n by (auto simp: prov_admits_def prov_trusts_def min_def)
  from t obtain x where x: "find_authorization (en_authorizations env) (pe_authorization_sequence ?e) = Some x"
    "au_domain_code x = PROVENANCE_DOMAIN" "au_key_id x = pe_actor_key_id ?e" "au_subject_digest x = pe_subject_digest ?e"
    "verify_sequence b (en_authorizations env) (pe_authorization_sequence ?e) (en_registry env) = Inr True"
    "verify_federation_binding (event_to_input ?e) (au_required_role_mask x) (en_federation env) = Inr ()"
    unfolding event_trust_iff by blast
  have "verify_event b x (en_registry env) = Inr True" using x(1,5) by (simp add: verify_sequence_def)
  then obtain k where k: "state_at_head (en_registry env) (au_key_registry_head x) (pe_actor_key_id ?e) = Some k"
    "has_role k (au_required_role_mask x)" "ks_public_key_digest k = au_public_key_digest x"
    "authorization_message_digest (au_domain_code x) (au_required_role_mask x) (au_subject_digest x)
       (au_key_registry_head x) (au_public_key_digest x) (au_logical_timestamp x) (au_key_id x) (au_nonce x)
       = Inr (au_authorization_digest x)"
    "verify_digest b (ks_public_blob k) (au_authorization_digest x) (au_signature x) = Inr True"
    unfolding verify_event_iff x(3) by blast
  from x(6) obtain p where p: "bt_get (fl_policies (en_federation env)) (pe_namespace ?e) = Some p"
    "au_required_role_mask x = np_authority_role_mask p" "accepted_historically (event_to_input ?e) (en_federation env)"
    by (auto simp: federation_binding_iff)
  have c: "length (filter (same_object ?e) (take n es)) \<le> n" using length_filter_le [of _ "take n es"] n by (simp add: min_def)
  have r: "n + 1 < usize_limit" using prov_history_room [OF h] n by simp
  have "unat (pe_object_version ?e) = length (filter (same_object ?e) (take n es)) + 1"
    using v latest_versions [OF th, of ?e] c r by (simp add: transition_iff unat_of_small del: One_nat_def)
  moreover have "unat (pe_sequence ?e) = n + 1" unfolding q by (rule unat_of_small [OF r])
  ultimately show ?thesis unfolding es Let_def using x k p s history_used [OF h] by auto
qed

end
