(* ===== verification/Ub_Prov_Demo.thy ===== *)
theory Ub_Prov_Demo
  imports Ub_Prov_Ledger
begin

text \<open>
  A concrete run of the provenance ledger: one key, one authorisation, one accepted bundle and
  one recorded event. The signature check is the function that accepts everything. The subject
  of an authorisation must not be the zero digest; the digest of the demo input is computed
  block by block.
\<close>

subsection \<open>The digest of the demo input\<close>

definition demo_input :: prov_input where
  "demo_input = \<lparr>pi_kind = Source, pi_logical_timestamp = 1, pi_namespace = lit ''n'', pi_object_id = lit ''o'',
     pi_object_kind = lit ''k'', pi_object_version = 1, pi_actor_key_id = lit ''a'',
     pi_source_locator_digest = replicate 32 1, pi_content_digest = replicate 32 2,
     pi_operation_digest = replicate 32 3, pi_transformation_digest = replicate 32 0,
     pi_federation_policy_version = 1, pi_federation_policy_digest = replicate 32 4,
     pi_federation_bundle_version = 1, pi_federation_bundle_digest = replicate 32 5,
     pi_authorization_sequence = 1, pi_parent_provenance_ids = []\<rparr>"

definition demo_block1 :: bytes where
  "demo_block1 = [85, 66, 80, 82, 83, 85, 66, 49, 1, 1, 0, 0, 0, 0, 0, 0,
    0, 1, 0, 110, 1, 0, 111, 1, 0, 107, 1, 0, 0, 0, 0, 0,
    0, 0, 1, 0, 97, 1, 1, 1, 1, 1, 1, 1, 1, 1, 1, 1,
    1, 1, 1, 1, 1, 1, 1, 1, 1, 1, 1, 1, 1, 1, 1, 1]"

definition demo_block2 :: bytes where
  "demo_block2 = [1, 1, 1, 1, 1, 2, 2, 2, 2, 2, 2, 2, 2, 2, 2, 2,
    2, 2, 2, 2, 2, 2, 2, 2, 2, 2, 2, 2, 2, 2, 2, 2,
    2, 2, 2, 2, 2, 3, 3, 3, 3, 3, 3, 3, 3, 3, 3, 3,
    3, 3, 3, 3, 3, 3, 3, 3, 3, 3, 3, 3, 3, 3, 3, 3]"

definition demo_block3 :: bytes where
  "demo_block3 = [3, 3, 3, 3, 3, 0, 0, 0, 0, 0, 0, 0, 0, 0, 0, 0,
    0, 0, 0, 0, 0, 0, 0, 0, 0, 0, 0, 0, 0, 0, 0, 0,
    0, 0, 0, 0, 0, 1, 0, 0, 0, 0, 0, 0, 0, 4, 4, 4,
    4, 4, 4, 4, 4, 4, 4, 4, 4, 4, 4, 4, 4, 4, 4, 4]"

definition demo_block4 :: bytes where
  "demo_block4 = [4, 4, 4, 4, 4, 4, 4, 4, 4, 4, 4, 4, 4, 1, 0, 0,
    0, 0, 0, 0, 0, 5, 5, 5, 5, 5, 5, 5, 5, 5, 5, 5,
    5, 5, 5, 5, 5, 5, 5, 5, 5, 5, 5, 5, 5, 5, 5, 5,
    5, 5, 5, 5, 5, 0, 0, 0, 0, 128, 0, 0, 0, 0, 0, 0]"

definition demo_block5 :: bytes where
  "demo_block5 = [0, 0, 0, 0, 0, 0, 0, 0, 0, 0, 0, 0, 0, 0, 0, 0,
    0, 0, 0, 0, 0, 0, 0, 0, 0, 0, 0, 0, 0, 0, 0, 0,
    0, 0, 0, 0, 0, 0, 0, 0, 0, 0, 0, 0, 0, 0, 0, 0,
    0, 0, 0, 0, 0, 0, 0, 0, 0, 0, 0, 0, 0, 0, 7, 200]"

lemma demo_hash1: "sha_compress sha_init_h demo_block1 =
   [0x950BF84A, 0xFD2F80A2, 0xEB0A7EEF, 0x51B6C00C, 0xD853E4D1, 0x969AF091, 0x9C588838, 0x93CAFCC9]"
  by code_simp

lemma demo_hash2: "sha_compress [0x950BF84A, 0xFD2F80A2, 0xEB0A7EEF, 0x51B6C00C, 0xD853E4D1, 0x969AF091, 0x9C588838, 0x93CAFCC9] demo_block2 =
   [0xCCB95A7E, 0x1AC0B176, 0x94650D68, 0xFB32A5CF, 0xC2A6B96E, 0x9277DEE0, 0x69BBC22B, 0xD39D9485]"
  by code_simp

lemma demo_hash3: "sha_compress [0xCCB95A7E, 0x1AC0B176, 0x94650D68, 0xFB32A5CF, 0xC2A6B96E, 0x9277DEE0, 0x69BBC22B, 0xD39D9485] demo_block3 =
   [0x24EB4A93, 0x55C7098F, 0x7E0989E9, 0xC1B2D5BF, 0x98A896C3, 0xEB7E9971, 0x20722FF3, 0x85751476]"
  by code_simp

lemma demo_hash4: "sha_compress [0x24EB4A93, 0x55C7098F, 0x7E0989E9, 0xC1B2D5BF, 0x98A896C3, 0xEB7E9971, 0x20722FF3, 0x85751476] demo_block4 =
   [0x4F665F68, 0xD735AB41, 0x8435CDBA, 0x88C10550, 0x95004FF2, 0x6E7D2576, 0x2DC72F96, 0x90E768AA]"
  by code_simp

lemma demo_hash5: "sha_compress [0x4F665F68, 0xD735AB41, 0x8435CDBA, 0x88C10550, 0x95004FF2, 0x6E7D2576, 0x2DC72F96, 0x90E768AA] demo_block5 =
   [0xD882AAE0, 0xD000C30B, 0xF4754FA1, 0xCC9557D3, 0x4D01B304, 0xFA98780D, 0xE3966800, 0x829FF950]"
  by code_simp

definition demo_message :: bytes where
  "demo_message = SUBJECT_DOMAIN @ [1] @ u64_le 1 @ text_bytes (lit ''n'') @ text_bytes (lit ''o'') @ text_bytes (lit ''k'')
     @ u64_le 1 @ text_bytes (lit ''a'') @ replicate 32 1 @ replicate 32 2 @ replicate 32 3 @ replicate 32 0 @ u64_le 1
     @ replicate 32 4 @ u64_le 1 @ replicate 32 5 @ u32_le 0"

lemma demo_message_blocks:
  "blocks64 (sha_pad demo_message) = [demo_block1, demo_block2, demo_block3, demo_block4, demo_block5]"
  by code_simp

definition demo_subject :: bytes where
  "demo_subject = sha256 demo_message"

lemma demo_subject_nonzero: "demo_subject \<noteq> replicate 32 0"
proof -
  have "length demo_message * 8 < usize_limit"
    by (simp add: demo_message_def SUBJECT_DOMAIN_def usize_limit_def)
  then have "demo_subject = concat (map u32_be (foldl sha_compress sha_init_h (blocks64 (sha_pad demo_message))))"
    by (simp add: demo_subject_def sha256_eq_ref sha256_ref_def)
  also have "\<dots> \<noteq> replicate 32 0"
    unfolding demo_message_blocks foldl_Cons foldl_Nil demo_hash1 demo_hash2 demo_hash3 demo_hash4 demo_hash5
    by code_simp
  finally show ?thesis .
qed

lemma demo_input_digest: "provenance_subject_digest demo_input = Inr demo_subject"
proof -
  have t: "text_valid [c]" if "is_ascii_graphic c" "c \<noteq> 0x5C" for c using that by (simp add: text_valid_def)
  have "validate_input_shape demo_input = Inr ()"
    by (simp add: validate_input_shape_def demo_input_def validate_text_def is_ascii_graphic_def lit_def MAX_PARENTS_def)
  then show ?thesis
    by (simp add: provenance_subject_digest_def demo_subject_def demo_message_def t is_ascii_graphic_def demo_input_def lit_def)
qed

subsection \<open>The run\<close>

definition accept_all :: signature_check where
  "accept_all blob digest sig = Inr True"

definition demo_blob :: bytes where
  "demo_blob = u32_le 0x31534345 @ u32_le 32 @ replicate 64 7"

definition demo_key :: key_state where
  "demo_key = \<lparr>ks_key_id = lit ''a'', ks_provider_name = lit ''p'', ks_provider_key_name = lit ''a'', ks_role_mask = 1,
     ks_generation = 1, ks_public_blob = demo_blob, ks_public_key_digest = replicate 32 8, ks_active = True,
     ks_last_event_sequence = 1\<rparr>"

definition demo_message_digest :: bytes where
  "demo_message_digest = sha256 (AUTHORIZATION_DOMAIN @ [9, 1] @ u16_le 1 @ demo_subject @ replicate 32 9
     @ replicate 32 8 @ u64_le 1 @ u32_le 1 @ u32_le 1 @ lit ''a'' @ lit ''n'')"

definition demo_authorization :: authorization where
  "demo_authorization = \<lparr>au_sequence = 1, au_domain_code = 9, au_required_role_mask = 1, au_logical_timestamp = 1,
     au_key_id = lit ''a'', au_nonce = lit ''n'', au_subject_digest = demo_subject, au_key_registry_head = replicate 32 9,
     au_public_key_digest = replicate 32 8, au_authorization_digest = demo_message_digest,
     au_event_id = authorization_event_id demo_message_digest (replicate 64 6), au_signature = replicate 64 6,
     au_previous_digest = replicate 32 0, au_frame_digest = replicate 32 3\<rparr>"

definition demo_env :: prov_env where
  "demo_env = \<lparr>en_registry = \<lparr>kr_path = [lit ''k''], kr_events = [], kr_states = [(lit ''a'', demo_key)],
       kr_states_by_head = [(replicate 32 9, [(lit ''a'', demo_key)])], kr_used_nonces = [],
       kr_head_digest = replicate 32 9, kr_last_timestamp = 1\<rparr>,
     en_authorizations = \<lparr>al_path = [lit ''s''], al_events = [demo_authorization], al_used_nonces = [],
       al_head_digest = replicate 32 3, al_last_timestamp = 1\<rparr>,
     en_federation = \<lparr>fl_path = [lit ''f''],
       fl_events = [\<lparr>fe_sequence = 2, fe_kind = BundleAccept, fe_logical_timestamp = 1, fe_namespace = lit ''n'',
         fe_key_id = [], fe_controller_key_id = lit ''a'', fe_controller_role_mask = 1, fe_authority_role_mask = 1,
         fe_weight = 0, fe_quorum_weight = 1, fe_provider_requirement = SoftwareAllowed, fe_policy_version = 1,
         fe_bundle_version = 1, fe_policy_digest = replicate 32 4, fe_parent_bundle_digest = replicate 32 0,
         fe_bundle_digest = replicate 32 5, fe_subject_digest = replicate 32 0, fe_controller_authorization_sequence = 0,
         fe_approval_sequences = [], fe_previous_digest = replicate 32 0, fe_frame_digest = replicate 32 0\<rparr>],
       fl_policies = [(lit ''n'', \<lparr>np_namespace = lit ''n'', np_policy_version = 1, np_controller_key_id = lit ''a'',
         np_controller_role_mask = 1, np_authority_role_mask = 1, np_quorum_weight = 1,
         np_provider_requirement = SoftwareAllowed, np_policy_digest = replicate 32 4\<rparr>)],
       fl_authorities = [], fl_accepted = [], fl_used_authorization_ids = [], fl_head_digest = replicate 32 0,
       fl_last_timestamp = 1\<rparr>\<rparr>"

definition demo_prov_path :: path where
  "demo_prov_path = [lit ''provenance'']"

definition demo_prov_fs :: fsys where
  "demo_prov_fs = \<lparr>fs_files = [], fs_dirs = {[]}, fs_clock = (\<lambda>_. 0), fs_tick = 0, fs_pid = 1\<rparr>"

lemma demo_verified: "verify_event accept_all demo_authorization (en_registry demo_env) = Inr True"
proof -
  have i: "identifier_ok (lit ''a'')" "identifier_ok (lit ''n'')"
    by (simp_all add: identifier_ok_def lit_def)
  have "validate_public_blob demo_blob = Inr ()"
    by (simp add: validate_public_blob_def demo_blob_def ECDSA_P256_PUBLIC_BLOB_BYTES_def slice_def Let_def)
  then have v: "verify_digest accept_all demo_blob d s = Inr True" for d s by (simp add: verify_digest_def accept_all_def)
  have st: "state_at_head (en_registry demo_env) (replicate 32 9) (lit ''a'') = Some demo_key"
    by (simp add: state_at_head_def demo_env_def)
  have m: "authorization_message_digest 9 1 demo_subject (replicate 32 9) (replicate 32 8) 1 (lit ''a'') (lit ''n'') =
      Inr demo_message_digest"
    using i demo_subject_nonzero
    by (simp add: authorization_message_digest_def validate_identifier_def identifier_ok_def demo_message_digest_def)
  show ?thesis
    unfolding verify_event_iff using i st m v demo_subject_nonzero
    by (simp add: demo_authorization_def demo_key_def has_role_def)
qed

lemma demo_built:
  "build_event 1 prev demo_input accept_all (en_registry demo_env) (en_authorizations demo_env) (en_federation demo_env) =
     Inr (built_event 1 prev demo_input demo_authorization demo_subject)"
proof -
  have f: "find_authorization (en_authorizations demo_env) 1 = Some demo_authorization"
    by (simp add: find_authorization_def demo_env_def demo_authorization_def)
  then have v: "verify_sequence accept_all (en_authorizations demo_env) 1 (en_registry demo_env) = Inr True"
    by (simp add: verify_sequence_def demo_verified)
  have b: "verify_federation_binding demo_input 1 (en_federation demo_env) = Inr ()"
    by (simp add: federation_binding_iff accepted_historically_def demo_env_def demo_input_def)
  have i: "pi_authorization_sequence demo_input = 1" "pi_actor_key_id demo_input = lit ''a''" by (simp_all add: demo_input_def)
  have a: "au_domain_code demo_authorization = PROVENANCE_DOMAIN" "au_subject_digest demo_authorization = demo_subject"
    "au_key_id demo_authorization = lit ''a''" "au_required_role_mask demo_authorization = 1"
    by (simp_all add: demo_authorization_def PROVENANCE_DOMAIN_def)
  show ?thesis
    using subject_digest_shape(1) [OF demo_input_digest]
    by (simp add: build_event_def i a f v b demo_input_digest cong: rbind_weak_cong)
qed

lemma demo_typed: "input_typed demo_input" "env_typed demo_env"
  by (simp_all add: input_typed_def demo_input_def env_typed_def demo_env_def demo_authorization_def authorization_event_id_def)

lemma demo_prov_create:
  "prov_create demo_prov_path demo_prov_fs = (Inr (prov_empty demo_prov_path), fput demo_prov_path [] demo_prov_fs)"
  by (simp add: prov_create_def demo_prov_path_def demo_prov_fs_def fs_exists_def fget_def path_parent_def
      create_dir_all_def create_new_def io_map_err_def io_bind_def io_ret_def)

lemma demo_prov_run:
  obtains l fs e where "reachable prov_initial (prov_step accept_all) (demo_env, l, fs)" and "pl_events l = [e]"
    and "event_to_input e = demo_input" and "pl_path l = demo_prov_path"
proof -
  let ?fs = "fput demo_prov_path [] demo_prov_fs" and ?l = "prov_empty demo_prov_path"
  have "prov_initial (demo_env, ?l, ?fs)" using demo_prov_create demo_typed(2) by (auto simp: prov_initial_def)
  then have r: "reachable prov_initial (prov_step accept_all) (demo_env, ?l, ?fs)" by (rule reach_init)
  have l: "length (pl_head_digest ?l) = 32" "pl_path ?l = demo_prov_path" by (simp_all add: prov_empty_def)
  from demo_typed l(1) show thesis
  proof (cases rule: append_cases [of demo_input demo_env ?l accept_all ?fs])
    case (refused err)
    have "validate_state_transition ?l (built_event 1 (replicate 32 0) demo_input demo_authorization demo_subject) = Inr ()"
      by (simp add: transition_iff prov_empty_def built_event_def demo_input_def)
    then show thesis using refused(2) demo_built l(2) by (auto simp: prov_empty_def)
  next
    case (recorded old e rc)
    have old: "old = []" using recorded(1) l(2) by simp
    have len: "length (event_frame e) < usize_limit"
      using event_frame_header(15) [OF recorded(2)] prov_payload_small recorded(2)
      by (fastforce simp: prov_admits_def PROV_MAX_PAYLOAD_BYTES_def usize_limit_def)
    have "prov_step accept_all (demo_env, ?l, ?fs) (demo_env, apply_event ?l e, fput (pl_path ?l) (old @ event_frame e) ?fs)"
      by (rule prov_appends [OF demo_typed(1) recorded(4)]) (use len old l(2) in auto)
    from reach_step [OF r this] show thesis
      by (rule that [of _ _ e]) (use recorded(3) in \<open>simp_all add: apply_event_def prov_empty_def\<close>)
  qed
qed

theorem provenance_reopens_exactly_witness:
  "\<exists>l fs. length (pl_events l) = 1 \<and> prov_open_strict accept_all demo_prov_path (en_registry demo_env)
     (en_authorizations demo_env) (en_federation demo_env) fs = (Inr l, fs)"
proof -
  obtain l fs e where "reachable prov_initial (prov_step accept_all) (demo_env, l, fs)" "pl_events l = [e]"
    "pl_path l = demo_prov_path" by (rule demo_prov_run)
  with provenance_reopens_exactly [of accept_all demo_env l fs] show ?thesis by (intro exI [of _ l] exI [of _ fs]) simp
qed

theorem lineage_correct_witness:
  "\<exists>l e es. pl_events l = [e] \<and> lineage l (pe_provenance_id e) = Some (Inr es) \<and> last es = e"
proof -
  obtain l fs e where r: "reachable prov_initial (prov_step accept_all) (demo_env, l, fs)" and e: "pl_events l = [e]"
    by (rule demo_prov_run)
  obtain gs where "prov_history accept_all demo_env (pl_path l) gs" "l = prov_of (pl_path l) gs" "pl_events l = gs"
    by (rule reachable_prov [OF r])
  then have "index_ok [e] (pl_by_id l)" using history_index e by metis
  then have "bt_get (pl_by_id l) (pe_provenance_id e) = Some 0" by (simp add: index_ok_def)
  then have "prov_get l (pe_provenance_id e) = Some e" by (simp add: prov_get_def e)
  with lineage_correct [OF r, of "pe_provenance_id e"] e show ?thesis by auto
qed

theorem provenance_events_authorised_witness:
  "\<exists>(l :: prov_ledger) (e :: prov_event) a s. pl_events l = [e] \<and> find_authorization (en_authorizations demo_env) (pe_authorization_sequence e) = Some a \<and>
     provenance_subject_digest (event_to_input e) = Inr (au_subject_digest a) \<and>
     authorization_message_digest (au_domain_code a) (au_required_role_mask a) (au_subject_digest a)
       (au_key_registry_head a) (au_public_key_digest a) (au_logical_timestamp a) (au_key_id a) (au_nonce a)
       = Inr (au_authorization_digest a) \<and>
     state_at_head (en_registry demo_env) (au_key_registry_head a) (pe_actor_key_id e) = Some s \<and>
     verify_digest accept_all (ks_public_blob s) (au_authorization_digest a) (au_signature a) = Inr True \<and>
     unat (pe_sequence e) = 1 \<and> unat (pe_object_version e) = 1"
proof -
  obtain l fs e where r: "reachable prov_initial (prov_step accept_all) (demo_env, l, fs)" and e: "pl_events l = [e]"
    by (rule demo_prov_run)
  from provenance_events_authorised [OF r, of 0] e show ?thesis
    unfolding Let_def by (intro exI [of _ l] exI [of _ e]) auto
qed

end
