(* ===== verification/Ub_Chain.thy ===== *)
theory Ub_Chain
  imports Ub_Fs Ub_Sha256
begin

text \<open>
  The frames that the trust crates chain by digests (\<open>ultraballoondb-trust-asymmetric\<close>,
  \<open>-trust-federation\<close>, \<open>-trust-auth\<close> and \<open>-trust-enterprise\<close>): a header of 144 bytes with
  the digests of the previous frame, of the payload and of the frame, and the payload. Each
  file of these crates has its own copy of \<open>encode_frame\<close> and of \<open>decode_frames\<close>, with its own
  magic bytes, checks of the header and error values; the loop is the same.

  The loop is \<open>chain_decode\<close>, over a record of what differs. The locale \<open>chained_frames\<close> is
  what such a record promises of one frame; it makes the loop a \<open>ledger_file\<close>. The locale
  \<open>chained_ledger\<close> adds the second pass of the readers, which replays the decoded frames one
  by one, and the operation that appends an event.
\<close>

subsection \<open>Layout\<close>

record chain_frame =
  cf_sequence :: u64
  cf_previous :: bytes
  cf_digest :: bytes
  cf_payload :: bytes

definition zero_digest :: bytes where "zero_digest = replicate 32 0"

lemma length_zero_digest [simp]: "length zero_digest = 32"
  by (simp add: zero_digest_def)

definition compute_frame_digest :: "bytes \<Rightarrow> u64 \<Rightarrow> bytes \<Rightarrow> bytes \<Rightarrow> bytes" where
  "compute_frame_digest domain seqno previous payload_digest =
     sha256 (domain @ u64_le seqno @ previous @ payload_digest)"

lemma length_frame_digest [simp]: "length (compute_frame_digest d q p h) = 32"
  by (simp add: compute_frame_digest_def)

definition chain_header ::
  "bytes \<Rightarrow> bytes \<Rightarrow> u64 \<Rightarrow> nat \<Rightarrow> bytes \<Rightarrow> bytes \<Rightarrow> bytes \<Rightarrow> bytes \<Rightarrow> bytes" where
  "chain_header magic flags seqno len previous payload_digest digest reserved =
     magic @ u16_le 1 @ flags @ u32_le 144 @ u64_le seqno @ u64_le (of_nat len)
       @ previous @ payload_digest @ digest @ reserved"

definition encode_chain_frame ::
  "'e \<Rightarrow> nat \<Rightarrow> bytes \<Rightarrow> u64 \<Rightarrow> bytes \<Rightarrow> bytes \<Rightarrow> bytes \<Rightarrow> bytes \<Rightarrow> 'e + bytes" where
  "encode_chain_frame too_large limit magic seqno previous payload_digest digest payload =
     (if limit < length payload then Inl too_large
      else Inr (chain_header magic (u16_le 0) seqno (length payload) previous payload_digest digest (replicate 16 0)
             @ payload))"

text \<open>A byte string cut into fields of the given widths.\<close>

primrec pieces :: "nat \<Rightarrow> nat list \<Rightarrow> bytes \<Rightarrow> bytes" where
  "pieces off [] bs = drop off bs"
| "pieces off (n # ns) bs = slice bs off (off + n) @ pieces (off + n) ns bs"

lemma pieces_eq: "pieces off ns bs = drop off bs"
  by (induction ns arbitrary: off) (simp_all add: slice_def field_join)

lemma byte_slices: "i < length p \<Longrightarrow> slice p i (Suc i) = [p ! i]"
  by (simp add: slice_def take_Suc_conv_app_nth)

lemma unat_u64_iff: "n < usize_limit \<Longrightarrow> unat (w :: u64) = n \<longleftrightarrow> w = of_nat n"
  by (auto simp: usize_limit_def unat_of_nat)

subsection \<open>Reading frames\<close>

text \<open>
  What differs between the files: the errors for a file that ends in a header or in a payload
  (with the offset of the frame and the bytes that are left), the checks of a header at its offset
  against the number of frames read so far and the digest of the last one, which give the length of
  the payload, and the checks of the payload against the header.
\<close>

record 'e chain_reader =
  cr_short :: "nat \<Rightarrow> nat \<Rightarrow> 'e"
  cr_header :: "nat \<Rightarrow> nat \<Rightarrow> bytes \<Rightarrow> bytes \<Rightarrow> 'e + nat"
  cr_overflow :: 'e
  cr_cut :: "nat \<Rightarrow> nat \<Rightarrow> 'e"
  cr_body :: "bytes \<Rightarrow> bytes \<Rightarrow> 'e + unit"

type_synonym chain_state = "chain_frame list \<times> bytes"

function (sequential) chain_decode ::
  "'e chain_reader \<Rightarrow> chain_state \<Rightarrow> nat \<Rightarrow> bytes \<Rightarrow> 'e + chain_state" where
  "chain_decode rd (frames, head) offset bs =
     (if bs = [] then Inr (frames, head)
      else if length bs < 144 then Inl (cr_short rd offset (length bs))
      else
        let header = take 144 bs in
        rbind (cr_header rd offset (length frames) head header) (\<lambda>payload_len.
        rbind (ok_or (cr_overflow rd) (checked_add (offset + 144) payload_len)) (\<lambda>frame_end.
        if length bs < 144 + payload_len then Inl (cr_cut rd offset (length bs))
        else
          let payload = take payload_len (drop 144 bs) in
          rbind (cr_body rd header payload) (\<lambda>_.
          chain_decode rd
            (frames @ [\<lparr>cf_sequence = from_le (slice header 16 24), cf_previous = slice header 32 64,
               cf_digest = slice header 96 128, cf_payload = payload\<rparr>], slice header 96 128)
            frame_end (drop (144 + payload_len) bs)))))"
  by pat_completeness auto
termination by (relation "measure (\<lambda>(rd, st, off, bs). length bs)") auto

declare chain_decode.simps [simp del]

text \<open>The second pass: \<open>for frame in frames\<close>, with an early return.\<close>

primrec chain_replay_frames :: "('l \<Rightarrow> chain_frame \<Rightarrow> 'e + 'l) \<Rightarrow> 'l \<Rightarrow> chain_frame list \<Rightarrow> 'e + 'l" where
  "chain_replay_frames step l [] = Inr l"
| "chain_replay_frames step l (f # fs) = rbind (step l f) (\<lambda>l. chain_replay_frames step l fs)"

lemma chain_replay_frames_append:
  "chain_replay_frames step l (fs @ gs) = rbind (chain_replay_frames step l fs) (\<lambda>l. chain_replay_frames step l gs)"
proof (induction fs arbitrary: l)
  case (Cons f fs)
  then show ?case by (cases "step l f") simp_all
qed simp

definition chain_replay ::
  "'e chain_reader \<Rightarrow> ('l \<Rightarrow> chain_frame \<Rightarrow> 'e + 'l) \<Rightarrow> 'l \<Rightarrow> bytes \<Rightarrow> 'e + 'l" where
  "chain_replay rd step l bs =
     rbind (chain_decode rd ([], zero_digest) 0 bs) (\<lambda>(frames, head). chain_replay_frames step l frames)"

subsection \<open>Headers\<close>

lemma length_chain_header:
  "length magic = 8 \<Longrightarrow> length flags = 2 \<Longrightarrow> length prev = 32 \<Longrightarrow> length pd = 32 \<Longrightarrow> length d = 32 \<Longrightarrow>
   length resv = 16 \<Longrightarrow> length (chain_header magic flags q n prev pd d resv) = 144"
  by (simp add: chain_header_def)

lemma chain_header_split:
  assumes "length h = 144"
  shows "h = slice h 0 8 @ slice h 8 10 @ slice h 10 12 @ slice h 12 16 @ slice h 16 24 @ slice h 24 32
     @ slice h 32 64 @ slice h 64 96 @ slice h 96 128 @ slice h 128 144"
  using pieces_eq [of 0 "[8, 2, 2, 4, 8, 8, 32, 32, 32, 16]" h] assms by simp

lemma chain_header_fields:
  fixes q n
  assumes "length magic = 8" "length flags = 2" "length prev = 32" "length pd = 32" "length d = 32" "length resv = 16"
  defines "h \<equiv> chain_header magic flags q n prev pd d resv"
  shows "slice h 0 8 = magic" "slice h 8 10 = u16_le 1" "slice h 10 12 = flags" "slice h 12 16 = u32_le 144"
    "slice h 16 24 = u64_le q" "slice h 24 32 = u64_le (of_nat n)" "slice h 32 64 = prev" "slice h 64 96 = pd"
    "slice h 96 128 = d" "slice h 128 144 = resv"
  using assms by (simp_all add: h_def chain_header_def slice_def)

text \<open>A header is determined by its fields; the readers below compare them one by one.\<close>

lemma chain_header_iff:
  assumes h: "length h = 144"
    and m: "length magic = 8" "length flags = 2" "length prev = 32" "length pd = 32" "length d = 32" "length resv = 16"
  shows "h = chain_header magic flags q n prev pd d resv \<longleftrightarrow>
     slice h 0 8 = magic \<and> from_le (slice h 8 10) = (1 :: u16) \<and> slice h 10 12 = flags \<and>
     from_le (slice h 12 16) = (144 :: u32) \<and> from_le (slice h 16 24) = q \<and>
     from_le (slice h 24 32) = (of_nat n :: u64) \<and> slice h 32 64 = prev \<and> slice h 64 96 = pd \<and>
     slice h 96 128 = d \<and> slice h 128 144 = resv" (is "?l \<longleftrightarrow> ?r")
proof
  assume ?l
  then show ?r using chain_header_fields [OF m] by simp
next
  assume r: ?r
  then have "slice h 8 10 = u16_le 1" "slice h 12 16 = u32_le 144" "slice h 16 24 = u64_le q"
    "slice h 24 32 = u64_le (of_nat n)"
    using h by (simp_all add: from_le_eq_iff length_slice)
  with r show ?l unfolding chain_header_def by (subst chain_header_split [OF h]) simp
qed

subsection \<open>Files of chained frames\<close>

text \<open>
  An entry of a file is a frame with the bytes of the header that no digest covers: the flags and
  the reserved bytes. \<open>slack\<close> tells which of them a reader lets through.
\<close>

record chain_entry =
  ce_flags :: bytes
  ce_reserved :: bytes
  ce_frame :: chain_frame

definition entry_bytes :: "bytes \<Rightarrow> chain_entry \<Rightarrow> bytes" where
  "entry_bytes magic t = (let f = ce_frame t in
     chain_header magic (ce_flags t) (cf_sequence f) (length (cf_payload f)) (cf_previous f)
       (sha256 (cf_payload f)) (cf_digest f) (ce_reserved t) @ cf_payload f)"

definition chain_push :: "chain_state \<Rightarrow> chain_entry \<Rightarrow> chain_state" where
  "chain_push st t = (fst st @ [ce_frame t], cf_digest (ce_frame t))"

lemma chain_push_pair: "chain_push (fs, h) t = (fs @ [ce_frame t], cf_digest (ce_frame t))"
  by (simp add: chain_push_def)

definition frame_follows :: "bytes \<Rightarrow> nat \<Rightarrow> bytes \<Rightarrow> chain_frame \<Rightarrow> bool" where
  "frame_follows domain n head f \<longleftrightarrow> cf_sequence f = of_nat n + 1 \<and> cf_previous f = head \<and>
     cf_digest f = compute_frame_digest domain (of_nat n + 1) head (sha256 (cf_payload f))"

definition entry_admits ::
  "bytes \<Rightarrow> nat \<Rightarrow> (bytes \<Rightarrow> bytes \<Rightarrow> bool) \<Rightarrow> chain_state \<Rightarrow> chain_entry \<Rightarrow> bool" where
  "entry_admits domain limit slack st t \<longleftrightarrow> frame_follows domain (length (fst st)) (snd st) (ce_frame t) \<and>
     length (snd st) = 32 \<and> length (cf_payload (ce_frame t)) \<le> limit \<and>
     length (ce_flags t) = 2 \<and> length (ce_reserved t) = 16 \<and> slack (ce_flags t) (ce_reserved t)"

definition no_slack :: "bytes \<Rightarrow> bytes \<Rightarrow> bool" where
  "no_slack flags reserved \<longleftrightarrow> flags = u16_le 0 \<and> reserved = replicate 16 0"

definition plain_entry :: "chain_frame \<Rightarrow> chain_entry" where
  "plain_entry f = \<lparr>ce_flags = u16_le 0, ce_reserved = replicate 16 0, ce_frame = f\<rparr>"

lemma plain_entry_simps [simp]:
  "ce_flags (plain_entry f) = u16_le 0" "ce_reserved (plain_entry f) = replicate 16 0" "ce_frame (plain_entry f) = f"
  by (simp_all add: plain_entry_def)

locale chained_frames =
  fixes rd :: "'e chain_reader" and magic domain :: bytes and limit :: nat
    and slack :: "bytes \<Rightarrow> bytes \<Rightarrow> bool"
  assumes magic_length: "length magic = 8"
    and limit_small: "limit < usize_limit"
    and plain_slack: "slack (u16_le 0) (replicate 16 0)"
    and reader_iff: "length h = 144 \<Longrightarrow> length head = 32 \<Longrightarrow>
      cr_header rd off n head h = Inr (length p) \<and> cr_body rd h p = Inr () \<longleftrightarrow>
      length p \<le> limit \<and> slack (slice h 10 12) (slice h 128 144) \<and>
      h = chain_header magic (slice h 10 12) (of_nat n + 1) (length p) head (sha256 p)
        (compute_frame_digest domain (of_nat n + 1) head (sha256 p)) (slice h 128 144)"
begin

lemma entry_header:
  assumes a: "entry_admits domain limit slack st t"
  defines "h \<equiv> take 144 (entry_bytes magic t)" and "p \<equiv> cf_payload (ce_frame t)"
  shows "entry_bytes magic t = h @ p" and "length h = 144" and "slice h 96 128 = cf_digest (ce_frame t)"
    and "cr_header rd off (length (fst st)) (snd st) h = Inr (length p)" and "cr_body rd h p = Inr ()"
    and "\<lparr>cf_sequence = from_le (slice h 16 24), cf_previous = slice h 32 64, cf_digest = slice h 96 128,
      cf_payload = p\<rparr> = ce_frame t"
proof -
  let ?f = "ce_frame t"
  have l: "length (ce_flags t) = 2" "length (snd st) = 32" "length (sha256 p) = 32"
    "length (compute_frame_digest domain (of_nat (length (fst st)) + 1) (snd st) (sha256 p)) = 32"
    "length (ce_reserved t) = 16"
    and f: "cf_sequence ?f = of_nat (length (fst st)) + 1" "cf_previous ?f = snd st"
      "cf_digest ?f = compute_frame_digest domain (of_nat (length (fst st)) + 1) (snd st) (sha256 p)"
    and s: "length p \<le> limit" "slack (ce_flags t) (ce_reserved t)"
    using a by (simp_all add: entry_admits_def frame_follows_def p_def)
  note hl = length_chain_header [OF magic_length l(1-5)] and hf = chain_header_fields [OF magic_length l(1-5)]
  have h: "h = chain_header magic (ce_flags t) (of_nat (length (fst st)) + 1) (length p) (snd st) (sha256 p)
      (compute_frame_digest domain (of_nat (length (fst st)) + 1) (snd st) (sha256 p)) (ce_reserved t)"
    by (simp add: h_def entry_bytes_def Let_def f hl flip: p_def)
  show "entry_bytes magic t = h @ p" by (simp add: h entry_bytes_def Let_def f flip: p_def)
  show len: "length h = 144" by (simp add: h hl)
  show d: "slice h 96 128 = cf_digest ?f" by (simp add: h hf f)
  have sl: "slice h 10 12 = ce_flags t" "slice h 128 144 = ce_reserved t" by (simp_all add: h hf)
  have "cr_header rd off (length (fst st)) (snd st) h = Inr (length p) \<and> cr_body rd h p = Inr ()"
    unfolding reader_iff [OF len l(2)] sl using s h by blast
  then show "cr_header rd off (length (fst st)) (snd st) h = Inr (length p)" "cr_body rd h p = Inr ()" by simp_all
  show "\<lparr>cf_sequence = from_le (slice h 16 24), cf_previous = slice h 32 64, cf_digest = slice h 96 128,
      cf_payload = p\<rparr> = ?f"
    using f by (intro chain_frame.equality) (simp_all add: h hf flip: p_def)
qed

lemma decode_entry:
  assumes a: "entry_admits domain limit slack st t" and off: "off + length (entry_bytes magic t) < usize_limit"
  shows "chain_decode rd st off (entry_bytes magic t @ rest) =
     chain_decode rd (chain_push st t) (off + length (entry_bytes magic t)) rest"
proof -
  note h = entry_header [OF a]
  let ?b = "entry_bytes magic t" and ?p = "cf_payload (ce_frame t)"
  have l: "length ?b = 144 + length ?p" using h(1,2) by (metis length_append)
  then have ne: "?b \<noteq> []" by auto
  have d: "drop 144 ?b = ?p" using h(1,2) by (metis append_eq_conv_conj)
  obtain fs hd where st: "st = (fs, hd)" by (cases st)
  show ?thesis
    unfolding st chain_push_def
    by (subst chain_decode.simps)
      (use l ne off h(3-6) in \<open>simp add: st Let_def d add.assoc\<close>)
qed

lemma decode_sound:
  assumes run: "chain_decode rd st off bs = Inr st'" and ne: "bs \<noteq> []" and hd: "length (snd st) = 32"
  shows "\<exists>t rest. bs = entry_bytes magic t @ rest \<and> entry_admits domain limit slack st t \<and>
     off + length (entry_bytes magic t) < usize_limit"
proof -
  obtain fs head where st: "st = (fs, head)" by (cases st)
  define h where "h = take 144 bs"
  note v = trans [OF chain_decode.simps [symmetric] run [unfolded st], unfolded if_not_P [OF ne] Let_def guard_eq_Inr_iff
    rbind_eq_Inr_iff ok_or_eq_Inr_iff not_less, folded h_def]
  from v obtain n fe where len: "144 \<le> length bs" and hh: "cr_header rd off (length fs) head h = Inr n"
    and fe: "checked_add (off + 144) n = Some fe" "144 + n \<le> length bs"
    and b: "cr_body rd h (take n (drop 144 bs)) = Inr ()" by auto
  let ?p = "take n (drop 144 bs)"
  have lp: "length ?p = n" and lh: "length h = 144" using fe(2) len by (simp_all add: h_def)
  from hh b lp hd have r: "length ?p \<le> limit" "slack (slice h 10 12) (slice h 128 144)"
    "h = chain_header magic (slice h 10 12) (of_nat (length fs) + 1) (length ?p) head (sha256 ?p)
       (compute_frame_digest domain (of_nat (length fs) + 1) head (sha256 ?p)) (slice h 128 144)"
    using reader_iff [OF lh, of head off "length fs" ?p] by (simp_all add: st)
  define t where "t = \<lparr>ce_flags = slice h 10 12, ce_reserved = slice h 128 144,
    ce_frame = \<lparr>cf_sequence = of_nat (length fs) + 1, cf_previous = head,
      cf_digest = compute_frame_digest domain (of_nat (length fs) + 1) head (sha256 ?p), cf_payload = ?p\<rparr>\<rparr>"
  have e: "entry_bytes magic t = h @ ?p" using r(3) by (simp add: entry_bytes_def t_def Let_def)
  have "bs = (h @ ?p) @ drop (144 + n) bs" by (simp add: h_def field_join)
  moreover have "entry_admits domain limit slack st t"
    using r(1,2) hd lh by (simp add: entry_admits_def frame_follows_def t_def st length_slice)
  moreover have "off + length (entry_bytes magic t) < usize_limit"
    using fe(1) lh lp by (simp add: e checked_add_Some_iff)
  ultimately show ?thesis unfolding e [symmetric] by blast
qed

end

sublocale chained_frames \<subseteq> chain: ledger_file "chain_decode rd" chain_push "entry_bytes magic" "entry_admits domain limit slack"
  "\<lambda>st. length (snd st) = 32"
proof unfold_locales
  show "chain_decode rd l off [] = Inr l" for l off by (cases l) (simp add: chain_decode.simps)
  show "entry_admits domain limit slack l t \<Longrightarrow> entry_bytes magic t \<noteq> []" for l t
    using entry_header(1,2) by fastforce
  show "entry_admits domain limit slack l t \<Longrightarrow> length (snd (chain_push l t)) = 32" for l t
    by (simp add: chain_push_def entry_admits_def frame_follows_def)
  show "\<exists>t rest. bs = entry_bytes magic t @ rest \<and> entry_admits domain limit slack l t \<and>
      off + length (entry_bytes magic t) < usize_limit"
    if "length (snd l) = 32" "chain_decode rd l off bs = Inr l'" "bs \<noteq> []" for l off bs l'
    by (rule decode_sound [OF that(2,3,1)])
qed (simp add: decode_entry)

subsection \<open>Ledgers of chained frames\<close>

text \<open>
  A ledger whose file is a chain of frames. \<open>step\<close> is the body of the loop over the decoded
  frames, \<open>push\<close> the effect of one event on the ledger, and \<open>admits\<close> tells which event may come
  next. The contents of a file are the plain entries of the events.
\<close>

definition event_bytes :: "bytes \<Rightarrow> ('ev \<Rightarrow> chain_frame) \<Rightarrow> 'ev \<Rightarrow> bytes" where
  "event_bytes magic frame_of e = entry_bytes magic (plain_entry (frame_of e))"

definition events_bytes :: "bytes \<Rightarrow> ('ev \<Rightarrow> chain_frame) \<Rightarrow> 'ev list \<Rightarrow> bytes" where
  "events_bytes magic frame_of es = concat (map (event_bytes magic frame_of) es)"

lemma events_bytes_simps [simp]:
  "events_bytes m f [] = []" "events_bytes m f (es @ gs) = events_bytes m f es @ events_bytes m f gs"
  "events_bytes m f [e] = event_bytes m f e"
  by (simp_all add: events_bytes_def)

locale chained_ledger = chained_frames rd magic domain limit slack
  for rd :: "'e chain_reader" and magic domain :: bytes and limit :: nat and slack :: "bytes \<Rightarrow> bytes \<Rightarrow> bool" +
  fixes step :: "'l \<Rightarrow> chain_frame \<Rightarrow> 'e + 'l"
    and push :: "'l \<Rightarrow> 'ev \<Rightarrow> 'l"
    and frame_of :: "'ev \<Rightarrow> chain_frame"
    and admits :: "'l \<Rightarrow> 'ev \<Rightarrow> bool"
    and count :: "'l \<Rightarrow> nat"
    and head :: "'l \<Rightarrow> bytes"
  assumes step_ok: "admits l e \<Longrightarrow> step l (frame_of e) = Inr (push l e)"
    and step_sound: "frame_follows domain (count l) (head l) f \<Longrightarrow> length (head l) = 32 \<Longrightarrow>
      length (cf_payload f) \<le> limit \<Longrightarrow> step l f = Inr l' \<Longrightarrow> \<exists>e. f = frame_of e \<and> admits l e"
    and admits_follows: "admits l e \<Longrightarrow> frame_follows domain (count l) (head l) (frame_of e)"
    and admits_size: "admits l e \<Longrightarrow> length (cf_payload (frame_of e)) \<le> limit"
    and count_push: "admits l e \<Longrightarrow> count (push l e) = Suc (count l)"
    and head_push: "admits l e \<Longrightarrow> head (push l e) = cf_digest (frame_of e)"
begin

definition recorded :: "'l \<Rightarrow> 'ev list \<Rightarrow> bool" where
  "recorded l es \<longleftrightarrow> frames_ok admits push l es \<and> length (events_bytes magic frame_of es) < usize_limit"

lemma recorded_Nil [simp]: "recorded l []"
  by (simp add: recorded_def)

lemma recorded_snoc:
  "recorded l (es @ [e]) \<longleftrightarrow> recorded l es \<and> admits (foldl push l es) e \<and>
     length (events_bytes magic frame_of (es @ [e])) < usize_limit"
  by (auto simp: recorded_def frames_ok_append)

lemma recorded_prefix: "recorded l (es @ gs) \<Longrightarrow> recorded l es"
  by (simp add: recorded_def frames_ok_append)

lemma recorded_take:
  "recorded l es \<Longrightarrow> n < length es \<Longrightarrow> recorded l (take n es) \<and> admits (foldl push l (take n es)) (es ! n)"
  by (metis append_take_drop_id recorded_prefix recorded_snoc take_Suc_conv_app_nth)

abbreviation entries :: "'ev list \<Rightarrow> chain_entry list" where
  "entries es \<equiv> map (\<lambda>e. plain_entry (frame_of e)) es"

lemma chain_bytes_entries: "chain.file_bytes (entries es) = events_bytes magic frame_of es"
  by (simp add: chain.file_bytes_def events_bytes_def event_bytes_def [abs_def] comp_def)

lemma replay_events: "frames_ok admits push l es \<Longrightarrow> chain_replay_frames step l (map frame_of es) = Inr (foldl push l es)"
  by (induction es arbitrary: l) (simp_all add: step_ok)

lemma frames_count: "frames_ok admits push l es \<Longrightarrow> count (foldl push l es) = count l + length es"
  by (induction es arbitrary: l) (simp_all add: count_push)

lemma frames_head: "frames_ok admits push l es \<Longrightarrow> length (head l) = 32 \<Longrightarrow> length (head (foldl push l es)) = 32"
proof (induction es arbitrary: l)
  case (Cons e es)
  then have "length (head (push l e)) = 32"
    using admits_follows [of l e] by (simp add: head_push frame_follows_def)
  with Cons show ?case by simp
qed simp

lemma chain_history:
  assumes "recorded l es" and "count l = 0" and "head l = zero_digest"
  shows "chain.history ([], zero_digest) (entries es) \<and>
     foldl chain_push ([], zero_digest) (entries es) = (map frame_of es, head (foldl push l es))"
  using assms(1)
proof (induction es rule: rev_induct)
  case Nil
  then show ?case by (simp add: chain.file_history_Nil assms)
next
  case (snoc e es)
  then have r: "recorded l es" "admits (foldl push l es) e" by (simp_all add: recorded_snoc)
  then have f: "frames_ok admits push l es" by (simp add: recorded_def)
  note IH = snoc.IH [OF r(1)]
  have "frame_follows domain (length es) (head (foldl push l es)) (frame_of e)"
    using admits_follows [OF r(2)] by (simp add: frames_count [OF f] assms)
  moreover have "length (head (foldl push l es)) = 32" using frames_head [OF f] assms by simp
  ultimately have "entry_admits domain limit slack (map frame_of es, head (foldl push l es)) (plain_entry (frame_of e))"
    using admits_size [OF r(2)] plain_slack by (simp add: entry_admits_def)
  with IH snoc.prems chain_bytes_entries [of "es @ [e]"] show ?case
    by (simp add: chain.file_history_snoc recorded_snoc chain_push_pair head_push [OF r(2)])
qed

lemma replay_recorded:
  assumes "recorded l es" and "count l = 0" and "head l = zero_digest"
  shows "chain_replay rd step l (events_bytes magic frame_of es) = Inr (foldl push l es)"
proof -
  note h = chain_history [OF assms]
  from chain.file_replay_history [OF conjunct1 [OF h]] h
  have "chain_decode rd ([], zero_digest) 0 (events_bytes magic frame_of es) = Inr (map frame_of es, head (foldl push l es))"
    by (simp add: chain_bytes_entries)
  with assms(1) show ?thesis by (simp add: chain_replay_def replay_events recorded_def)
qed

text \<open>What replay accepts: the frames of admitted events, up to the slack of the headers.\<close>

lemma replay_entries_sound:
  assumes "chain.history ([], zero_digest) ts" and "chain_replay_frames step l (map ce_frame ts) = Inr l'"
    and "count l = 0" and "head l = zero_digest"
  shows "\<exists>es. map ce_frame ts = map frame_of es \<and> frames_ok admits push l es \<and> l' = foldl push l es \<and>
     foldl chain_push ([], zero_digest) ts = (map frame_of es, head l')"
  using assms(1,2)
proof (induction ts arbitrary: l' rule: rev_induct)
  case Nil
  then show ?case using assms(4) by simp
next
  case (snoc t ts)
  from snoc.prems(2) obtain l1 where r: "chain_replay_frames step l (map ce_frame ts) = Inr l1" "step l1 (ce_frame t) = Inr l'"
    by (auto simp: chain_replay_frames_append rbind_eq_Inr_iff)
  from snoc.prems(1) have h: "chain.history ([], zero_digest) ts"
    and a: "entry_admits domain limit slack (foldl chain_push ([], zero_digest) ts) t"
    by (simp_all add: chain.file_history_snoc)
  from snoc.IH [OF h r(1)] obtain es where es: "map ce_frame ts = map frame_of es" "frames_ok admits push l es"
    "l1 = foldl push l es" "foldl chain_push ([], zero_digest) ts = (map frame_of es, head l1)" by blast
  have "frame_follows domain (count l1) (head l1) (ce_frame t)" "length (head l1) = 32"
    "length (cf_payload (ce_frame t)) \<le> limit"
    using a by (simp_all add: es(4) entry_admits_def es(3) frames_count [OF es(2)] assms)
  from step_sound [OF this r(2)] obtain e where e: "ce_frame t = frame_of e" "admits l1 e" by blast
  have "l' = push l1 e" using step_ok [OF e(2)] r(2) e(1) by simp
  with e es show ?case
    by (intro exI [of _ "es @ [e]"]) (simp add: frames_ok_append chain_push_pair head_push)
qed

lemma replay_accepts_frames:
  assumes run: "chain_replay rd step l bs = Inr l'" and "count l = 0" and "head l = zero_digest"
  shows "\<exists>ts es. bs = concat (map (entry_bytes magic) ts) \<and> map ce_frame ts = map frame_of es \<and>
     list_all (\<lambda>t. slack (ce_flags t) (ce_reserved t)) ts \<and> recorded l es \<and> l' = foldl push l es"
proof -
  from run obtain st where st: "chain_decode rd ([], zero_digest) 0 bs = Inr st" "chain_replay_frames step l (fst st) = Inr l'"
    by (auto simp: chain_replay_def rbind_eq_Inr_iff)
  from chain.file_replay_accepts [OF _ st(1)] obtain ts where ts: "chain.history ([], zero_digest) ts"
    "bs = chain.file_bytes ts" "st = foldl chain_push ([], zero_digest) ts" by auto
  have "fst (foldl chain_push ([], zero_digest) ts) = map ce_frame ts"
    by (induction ts rule: rev_induct) (simp_all add: chain_push_def)
  with st(2) ts(3) have "chain_replay_frames step l (map ce_frame ts) = Inr l'" by simp
  from replay_entries_sound [OF ts(1) this assms(2,3)] obtain es where es: "map ce_frame ts = map frame_of es"
    "frames_ok admits push l es" "l' = foldl push l es" by blast
  have "list_all (\<lambda>t. slack (ce_flags t) (ce_reserved t) \<and> length (ce_flags t) = 2 \<and> length (ce_reserved t) = 16) ts"
    using ts(1) by (induction ts rule: rev_induct) (simp_all add: chain.file_history_snoc entry_admits_def)
  then have sl: "list_all (\<lambda>t. slack (ce_flags t) (ce_reserved t)) ts"
    and len: "list_all (\<lambda>t. length (ce_flags t) = 2 \<and> length (ce_reserved t) = 16) ts"
    by (simp_all add: list_all_iff)
  have "length (entry_bytes magic t) = length (event_bytes magic frame_of e)"
    if "ce_frame t = frame_of e" "t \<in> set ts" for t e
    using that len by (simp add: event_bytes_def entry_bytes_def Let_def chain_header_def list_all_iff)
  then have "length bs = length (events_bytes magic frame_of es)"
    using es(1) unfolding ts(2) chain.file_bytes_def events_bytes_def
    by (induction ts arbitrary: es) (auto simp: Cons_eq_map_conv)
  then have "recorded l es" using chain.file_history_length [OF ts(1)] es(2) ts(2) by (simp add: recorded_def)
  with es ts(2) sl show ?thesis unfolding chain.file_bytes_def by blast
qed

lemma replay_exact:
  assumes "\<And>f r. slack f r \<Longrightarrow> no_slack f r" and "count l = 0" and "head l = zero_digest"
  shows "chain_replay rd step l bs = Inr l' \<longleftrightarrow>
     (\<exists>es. recorded l es \<and> bs = events_bytes magic frame_of es \<and> l' = foldl push l es)"
proof
  assume "chain_replay rd step l bs = Inr l'"
  from replay_accepts_frames [OF this assms(2,3)] obtain ts es where t: "bs = concat (map (entry_bytes magic) ts)"
    "map ce_frame ts = map frame_of es" "list_all (\<lambda>t. slack (ce_flags t) (ce_reserved t)) ts"
    and r: "recorded l es" "l' = foldl push l es" by blast
  have "t = plain_entry (ce_frame t)" if "t \<in> set ts" for t
  proof -
    have "no_slack (ce_flags t) (ce_reserved t)" using that t(3) assms(1) by (simp add: list_all_iff)
    then show ?thesis by (cases t) (simp add: no_slack_def plain_entry_def)
  qed
  then have "ts = map plain_entry (map ce_frame ts)" by (simp add: map_idI)
  then have "bs = events_bytes magic frame_of es"
    unfolding t(1,2) by (simp add: events_bytes_def event_bytes_def [abs_def] comp_def)
  with r show "\<exists>es. recorded l es \<and> bs = events_bytes magic frame_of es \<and> l' = foldl push l es" by blast
qed (use replay_recorded assms(2,3) in blast)

text \<open>A ledger in memory and its file: the same events led to both.\<close>

definition in_sync :: "'l \<Rightarrow> 'l \<Rightarrow> bytes \<Rightarrow> bool" where
  "in_sync l0 l bs \<longleftrightarrow> (\<exists>es. recorded l0 es \<and> l = foldl push l0 es \<and> bs = events_bytes magic frame_of es)"

lemma in_sync_empty: "in_sync l0 l0 []"
  by (auto simp: in_sync_def intro: exI [of _ "[]"])

lemma in_sync_replay:
  "in_sync l0 l bs \<Longrightarrow> count l0 = 0 \<Longrightarrow> head l0 = zero_digest \<Longrightarrow> chain_replay rd step l0 bs = Inr l"
  by (auto simp: in_sync_def replay_recorded)

lemma in_sync_head: "in_sync l0 l bs \<Longrightarrow> head l0 = zero_digest \<Longrightarrow> length (head l) = 32"
  by (auto simp: in_sync_def recorded_def intro: frames_head)

lemma in_sync_push:
  "in_sync l0 l bs \<Longrightarrow> admits l e \<Longrightarrow> length (bs @ event_bytes magic frame_of e) < usize_limit \<Longrightarrow>
   in_sync l0 (push l e) (bs @ event_bytes magic frame_of e)"
  unfolding in_sync_def by (elim exE conjE) (intro exI [of _ "_ @ [e]"], auto simp: recorded_snoc)

lemma in_sync_induct [consumes 1, case_names empty push]:
  assumes "in_sync l0 l bs" and "P l0"
    and "\<And>l bs e. in_sync l0 l bs \<Longrightarrow> P l \<Longrightarrow> admits l e \<Longrightarrow> P (push l e)"
  shows "P l"
proof -
  have "P (foldl push l0 es)" if "recorded l0 es" for es
    using that
  proof (induction es rule: rev_induct)
    case (snoc e es)
    then have r: "recorded l0 es" "admits (foldl push l0 es) e" by (simp_all add: recorded_snoc)
    then have "in_sync l0 (foldl push l0 es) (events_bytes magic frame_of es)" by (auto simp: in_sync_def)
    from assms(3) [OF this snoc.IH [OF r(1)] r(2)] show ?case by simp
  qed (simp add: assms(2))
  with assms(1) show ?thesis by (auto simp: in_sync_def)
qed

end

text \<open>
  The effect of an operation on a ledger and its file: nothing, or one admitted event at the
  end of both.
\<close>

definition append_effect ::
  "('l \<Rightarrow> 'ev \<Rightarrow> bool) \<Rightarrow> ('l \<Rightarrow> 'ev \<Rightarrow> 'l) \<Rightarrow> ('ev \<Rightarrow> bytes) \<Rightarrow> path \<Rightarrow> 'l \<Rightarrow> fsys \<Rightarrow> 'l \<Rightarrow> fsys \<Rightarrow> bool" where
  "append_effect admits push enc p l fs l' fs' \<longleftrightarrow> (l' = l \<and> fs' = fs) \<or>
     (\<exists>e old. fget fs p = Some old \<and> admits l e \<and> l' = push l e \<and> fs' = fput p (old @ enc e) fs)"

lemma append_effect_none [simp]: "append_effect admits push enc p l fs l fs"
  by (simp add: append_effect_def)

lemma append_effect_event:
  "fget fs p = Some old \<Longrightarrow> admits l e \<Longrightarrow> append_effect admits push enc p l fs (push l e) (fput p (old @ enc e) fs)"
  by (auto simp: append_effect_def)

lemma append_effect_keeps: "append_effect admits push enc p l fs l' fs' \<Longrightarrow> q \<noteq> p \<Longrightarrow> fget fs' q = fget fs q"
  by (auto simp: append_effect_def)

context chained_ledger
begin

lemma in_sync_effect:
  assumes "append_effect admits push (event_bytes magic frame_of) p l fs l' fs'"
    and "fget fs p = Some bs" and "in_sync l0 l bs" and "\<And>bs. fget fs' p = Some bs \<Longrightarrow> length bs < usize_limit"
  shows "\<exists>bs'. fget fs' p = Some bs' \<and> in_sync l0 l' bs'"
  using assms in_sync_push by (fastforce simp: append_effect_def)

end

end
