(* ===== verification/Ub_Registry.thy ===== *)
theory Ub_Registry
  imports Ub_Provider Ub_Chain
begin

text \<open>
  The asymmetric key registry (\<open>ultraballoondb-trust-asymmetric/src/registry.rs\<close>): enrolment,
  rotation and revocation of keys, each proven by signatures of the keys concerned, in a file of
  chained frames that is replayed strictly when the registry is opened.

  The sum \<open>current.generation + 1\<close> is the one of \<open>u64\<close>: a key starts at generation 1, so a
  panic would need 2 to the 64 rotations.
\<close>

subsection \<open>Fields of a payload\<close>

text \<open>The reading helpers, which \<open>ledger.rs\<close> repeats.\<close>

definition asym_read_u16 :: "bytes \<Rightarrow> nat \<Rightarrow> asym_error + u16" where
  "asym_read_u16 bs offset =
     rbind (ok_or (Asym_Invalid (lit ''truncated u16'')) (get_range bs offset (offset + 2))) (\<lambda>v. Inr (from_le v))"

definition asym_read_u32 :: "bytes \<Rightarrow> nat \<Rightarrow> asym_error + u32" where
  "asym_read_u32 bs offset =
     rbind (ok_or (Asym_Invalid (lit ''truncated u32'')) (get_range bs offset (offset + 4))) (\<lambda>v. Inr (from_le v))"

definition asym_read_u64 :: "bytes \<Rightarrow> nat \<Rightarrow> asym_error + u64" where
  "asym_read_u64 bs offset =
     rbind (ok_or (Asym_Invalid (lit ''truncated u64'')) (get_range bs offset (offset + 8))) (\<lambda>v. Inr (from_le v))"

definition asym_read_digest :: "bytes \<Rightarrow> nat \<Rightarrow> asym_error + bytes" where
  "asym_read_digest bs offset =
     ok_or (Asym_Invalid (lit ''truncated digest'')) (get_range bs offset (offset + 32))"

definition asym_read_signature :: "bytes \<Rightarrow> nat \<Rightarrow> asym_error + bytes" where
  "asym_read_signature bs offset =
     ok_or (Asym_Invalid (lit ''truncated signature'')) (get_range bs offset (offset + 64))"

text \<open>\<open>read_string\<close> advances a cursor; \<open>what\<close> is the word the two files use for themselves.\<close>

definition asym_read_string :: "str \<Rightarrow> bytes \<Rightarrow> nat \<Rightarrow> nat \<Rightarrow> str \<Rightarrow> asym_error + str \<times> nat" where
  "asym_read_string what bs cursor len name =
     (if 1024 * 1024 < len then Inl (Asym_Invalid (name @ lit '' too long''))
      else
        rbind (ok_or (Asym_Invalid (what @ lit '' string length overflow'')) (checked_add cursor len)) (\<lambda>stop.
        rbind (ok_or (Asym_Invalid (lit ''truncated '' @ what @ lit '' '' @ name)) (get_range bs cursor stop)) (\<lambda>value.
        if \<not> utf8_valid value then Inl (Asym_Invalid (what @ lit '' '' @ name @ lit '' is not UTF-8''))
        else Inr (value, stop))))"

lemma asym_read_ok:
  "off + 2 \<le> length bs \<Longrightarrow> asym_read_u16 bs off = Inr (from_le (slice bs off (off + 2)))"
  "off + 4 \<le> length bs \<Longrightarrow> asym_read_u32 bs off = Inr (from_le (slice bs off (off + 4)))"
  "off + 8 \<le> length bs \<Longrightarrow> asym_read_u64 bs off = Inr (from_le (slice bs off (off + 8)))"
  "off + 32 \<le> length bs \<Longrightarrow> asym_read_digest bs off = Inr (slice bs off (off + 32))"
  "off + 64 \<le> length bs \<Longrightarrow> asym_read_signature bs off = Inr (slice bs off (off + 64))"
  by (simp_all add: asym_read_u16_def asym_read_u32_def asym_read_u64_def asym_read_digest_def
      asym_read_signature_def get_range_def slice_def)

lemma asym_read_string_iff:
  "asym_read_string what bs cur len name = Inr r \<longleftrightarrow> len \<le> 1024 * 1024 \<and> cur + len < usize_limit \<and>
     cur + len \<le> length bs \<and> utf8_valid (slice bs cur (cur + len)) \<and> r = (slice bs cur (cur + len), cur + len)"
  by (auto simp: asym_read_string_def rbind_eq_Inr_iff get_range_Some_iff checked_add_Some_iff slice_def)

subsection \<open>Events\<close>

definition REGISTRY_MAGIC :: bytes where "REGISTRY_MAGIC = lit ''UBAKY01'' @ [0]"
definition REGISTRY_PAYLOAD_MAGIC :: bytes where "REGISTRY_PAYLOAD_MAGIC = lit ''UBAKP01'' @ [0]"
definition REGISTRY_FRAME_DOMAIN :: bytes where "REGISTRY_FRAME_DOMAIN = lit ''UBAKYFR1''"
definition REGISTRY_SUBJECT_DOMAIN :: bytes where "REGISTRY_SUBJECT_DOMAIN = lit ''UBAKSUB1''"
definition KEY_EVENT_FIXED_BYTES :: nat where "KEY_EVENT_FIXED_BYTES = 328"
definition REGISTRY_MAX_PAYLOAD :: nat where "REGISTRY_MAX_PAYLOAD = 16 * 1024 * 1024"

fun key_kind_code :: "key_event_kind \<Rightarrow> u8" where
  "key_kind_code Key_Enroll = 1"
| "key_kind_code Key_Rotate = 2"
| "key_kind_code Key_Revoke = 3"

definition key_kind_from_code :: "u8 \<Rightarrow> asym_error + key_event_kind" where
  "key_kind_from_code c =
     (if c = 1 then Inr Key_Enroll else if c = 2 then Inr Key_Rotate else if c = 3 then Inr Key_Revoke
      else Inl (Asym_Invalid (lit ''unknown asymmetric key event kind '' @ dec_bytes (unat c))))"

record key_receipt =
  kc_changed :: bool
  kc_sequence :: u64
  kc_event_kind :: key_event_kind
  kc_key_id :: str
  kc_generation :: u64
  kc_public_key_digest :: bytes
  kc_frame_digest :: bytes
  kc_private_export_rejected :: bool

definition registry_empty :: "path \<Rightarrow> key_registry" where
  "registry_empty p = \<lparr>kr_path = p, kr_events = [], kr_states = [],
     kr_states_by_head = bt_insert (replicate 32 0) [] [], kr_used_nonces = [],
     kr_head_digest = replicate 32 0, kr_last_timestamp = 0\<rparr>"

definition registry_event_subject_digest ::
  "key_event_kind \<Rightarrow> u16 \<Rightarrow> u64 \<Rightarrow> u64 \<Rightarrow> str \<Rightarrow> str \<Rightarrow> str \<Rightarrow> bytes \<Rightarrow> bytes \<Rightarrow> str \<Rightarrow> asym_error + bytes" where
  "registry_event_subject_digest kind role_mask timestamp generation key_id provider_name provider_key_name
     public_key_digest previous_public_key_digest nonce =
     rbind (validate_identifier (lit ''key_id'') key_id) (\<lambda>_.
     rbind (validate_identifier (lit ''provider_name'') provider_name) (\<lambda>_.
     rbind (validate_identifier (lit ''provider_key_name'') provider_key_name) (\<lambda>_.
     rbind (validate_identifier (lit ''nonce'') nonce) (\<lambda>_.
     if role_mask = 0 \<or> timestamp = 0 \<or> generation = 0 \<or> public_key_digest = replicate 32 0
     then Inl (Asym_Invalid (lit ''invalid registry subject fields''))
     else Inr (sha256 (REGISTRY_SUBJECT_DOMAIN @ [key_kind_code kind, 1] @ u16_le role_mask @ u64_le timestamp
       @ u64_le generation @ public_key_digest @ previous_public_key_digest
       @ u32_le (of_nat (length key_id)) @ u32_le (of_nat (length provider_name))
       @ u32_le (of_nat (length provider_key_name)) @ u32_le (of_nat (length nonce))
       @ key_id @ provider_name @ provider_key_name @ nonce))))))"

text \<open>The subject that an event signs, from its own fields.\<close>

abbreviation event_subject :: "key_event \<Rightarrow> asym_error + bytes" where
  "event_subject e \<equiv> registry_event_subject_digest (ke_kind e) (ke_role_mask e) (ke_logical_timestamp e)
     (ke_generation e) (ke_key_id e) (ke_provider_name e) (ke_provider_key_name e) (ke_public_key_digest e)
     (ke_previous_public_key_digest e) (ke_nonce e)"

text \<open>A chain of conditions with \<open>||\<close> whose last members are signature checks with \<open>?\<close>.\<close>

fun verify_all :: "signature_check \<Rightarrow> asym_error \<Rightarrow> (bytes \<times> bytes \<times> bytes) list \<Rightarrow> asym_error + unit" where
  "verify_all bcrypt err [] = Inr ()"
| "verify_all bcrypt err ((blob, digest, sig) # rest) =
     rbind (verify_digest bcrypt blob digest sig) (\<lambda>ok. if \<not> ok then Inl err else verify_all bcrypt err rest)"

definition validate_key_event :: "signature_check \<Rightarrow> (str, key_state) btree \<Rightarrow> key_event \<Rightarrow> asym_error + unit" where
  "validate_key_event bcrypt states e =
     rbind (validate_identifier (lit ''key_id'') (ke_key_id e)) (\<lambda>_.
     rbind (validate_identifier (lit ''provider_name'') (ke_provider_name e)) (\<lambda>_.
     rbind (validate_identifier (lit ''provider_key_name'') (ke_provider_key_name e)) (\<lambda>_.
     rbind (validate_identifier (lit ''nonce'') (ke_nonce e)) (\<lambda>_.
     rbind (validate_public_blob (ke_public_blob e)) (\<lambda>_.
     if ke_role_mask e = 0 \<or> ke_logical_timestamp e = 0 \<or> ke_generation e = 0
        \<or> ke_public_key_digest e \<noteq> sha256 (ke_public_blob e)
        \<or> ke_provider_key_name_digest e \<noteq> sha256 (ke_provider_key_name e)
     then Inl (Asym_Invalid (lit ''asymmetric key event invariant mismatch''))
     else
       rbind (event_subject e) (\<lambda>expected.
       if expected \<noteq> ke_subject_digest e
       then Inl (Asym_Integrity (lit ''asymmetric key event subject mismatch''))
       else case ke_kind e of
         Key_Enroll \<Rightarrow>
           if bt_get states (ke_key_id e) \<noteq> None \<or> ke_generation e \<noteq> 1
              \<or> ke_previous_public_key_digest e \<noteq> replicate 32 0 \<or> ke_signature_old e \<noteq> replicate 64 0
              \<or> ke_signature_new e = replicate 64 0
           then Inl (Asym_Invalid (lit ''invalid ENROLL event''))
           else verify_all bcrypt (Asym_Invalid (lit ''invalid ENROLL event''))
             [(ke_public_blob e, ke_subject_digest e, ke_signature_new e)]
       | Key_Rotate \<Rightarrow>
           rbind (ok_or (Asym_Invalid (lit ''ROTATE references unknown key'')) (bt_get states (ke_key_id e))) (\<lambda>current.
           if \<not> ks_active current \<or> ke_role_mask e \<noteq> ks_role_mask current
              \<or> ke_generation e \<noteq> ks_generation current + 1
              \<or> ke_previous_public_key_digest e \<noteq> ks_public_key_digest current
              \<or> ke_public_key_digest e = ks_public_key_digest current
              \<or> ke_signature_old e = replicate 64 0 \<or> ke_signature_new e = replicate 64 0
           then Inl (Asym_Invalid (lit ''invalid ROTATE event''))
           else verify_all bcrypt (Asym_Invalid (lit ''invalid ROTATE event''))
             [(ks_public_blob current, ke_subject_digest e, ke_signature_old e),
              (ke_public_blob e, ke_subject_digest e, ke_signature_new e)])
       | Key_Revoke \<Rightarrow>
           rbind (ok_or (Asym_Invalid (lit ''REVOKE references unknown key'')) (bt_get states (ke_key_id e))) (\<lambda>current.
           if \<not> ks_active current \<or> ke_role_mask e \<noteq> ks_role_mask current
              \<or> ke_generation e \<noteq> ks_generation current
              \<or> ke_provider_key_name e \<noteq> ks_provider_key_name current
              \<or> ke_public_key_digest e \<noteq> ks_public_key_digest current
              \<or> ke_previous_public_key_digest e \<noteq> ks_public_key_digest current
              \<or> ke_public_blob e \<noteq> ks_public_blob current
              \<or> ke_signature_old e = replicate 64 0 \<or> ke_signature_new e \<noteq> replicate 64 0
           then Inl (Asym_Invalid (lit ''invalid REVOKE event''))
           else verify_all bcrypt (Asym_Invalid (lit ''invalid REVOKE event''))
             [(ks_public_blob current, ke_subject_digest e, ke_signature_old e)])))))))"

definition apply_key_event :: "(str, key_state) btree \<Rightarrow> key_event \<Rightarrow> asym_error + (str, key_state) btree" where
  "apply_key_event states e =
     (case ke_kind e of
        Key_Revoke \<Rightarrow>
          rbind (ok_or (Asym_Invalid (lit ''revoked state disappeared'')) (bt_get states (ke_key_id e))) (\<lambda>state.
          Inr (bt_insert (ke_key_id e) (state\<lparr>ks_active := False, ks_last_event_sequence := ke_sequence e\<rparr>) states))
      | _ \<Rightarrow>
          Inr (bt_insert (ke_key_id e) \<lparr>ks_key_id = ke_key_id e, ks_provider_name = ke_provider_name e,
            ks_provider_key_name = ke_provider_key_name e, ks_role_mask = ke_role_mask e,
            ks_generation = ke_generation e, ks_public_blob = ke_public_blob e,
            ks_public_key_digest = ke_public_key_digest e, ks_active = True,
            ks_last_event_sequence = ke_sequence e\<rparr> states))"

subsection \<open>Encoding\<close>

definition encode_key_payload :: "key_event \<Rightarrow> asym_error + bytes" where
  "encode_key_payload e =
     (if REGISTRY_MAX_PAYLOAD < length (ke_public_blob e) then Inl (Asym_Invalid (lit ''public blob too large''))
      else Inr (REGISTRY_PAYLOAD_MAGIC @ [key_kind_code (ke_kind e), 1, 1, if ke_kind e \<noteq> Key_Revoke then 1 else 0]
        @ u16_le (ke_role_mask e) @ u16_le 0 @ u64_le (ke_logical_timestamp e) @ u64_le (ke_generation e)
        @ u32_le (of_nat (length (ke_key_id e))) @ u32_le (of_nat (length (ke_provider_name e)))
        @ u32_le (of_nat (length (ke_provider_key_name e))) @ u32_le (of_nat (length (ke_public_blob e)))
        @ u32_le (of_nat (length (ke_nonce e))) @ u32_le 0
        @ ke_public_key_digest e @ ke_previous_public_key_digest e @ ke_provider_key_name_digest e
        @ ke_subject_digest e @ ke_signature_old e @ ke_signature_new e @ replicate 16 0
        @ ke_key_id e @ ke_provider_name e @ ke_provider_key_name e @ ke_public_blob e @ ke_nonce e))"

definition decode_key_payload :: "bytes \<Rightarrow> asym_error + key_event" where
  "decode_key_payload payload =
     (if length payload < KEY_EVENT_FIXED_BYTES \<or> slice payload 0 8 \<noteq> REGISTRY_PAYLOAD_MAGIC
      then Inl (Asym_Invalid (lit ''registry payload header mismatch''))
      else
        rbind (key_kind_from_code (payload ! 8)) (\<lambda>kind.
        if payload ! 9 \<noteq> 1 \<or> payload ! 10 \<noteq> 1 \<or> 1 < payload ! 11 \<or> slice payload 14 16 \<noteq> [0, 0]
           \<or> slice payload 312 328 \<noteq> replicate 16 0
        then Inl (Asym_Invalid (lit ''registry payload algorithm/provider/reserved mismatch''))
        else
          rbind (asym_read_u16 payload 12) (\<lambda>role_mask.
          rbind (asym_read_u64 payload 16) (\<lambda>timestamp.
          rbind (asym_read_u64 payload 24) (\<lambda>generation.
          rbind (asym_read_u32 payload 32) (\<lambda>key_len.
          rbind (asym_read_u32 payload 36) (\<lambda>provider_len.
          rbind (asym_read_u32 payload 40) (\<lambda>provider_key_len.
          rbind (asym_read_u32 payload 44) (\<lambda>public_blob_len.
          rbind (asym_read_u32 payload 48) (\<lambda>nonce_len.
          rbind (asym_read_u32 payload 52) (\<lambda>reserved.
          if reserved \<noteq> 0 then Inl (Asym_Invalid (lit ''registry payload reserved value non-zero''))
          else
            rbind (asym_read_digest payload 56) (\<lambda>public_key_digest.
            rbind (asym_read_digest payload 88) (\<lambda>previous_public_key_digest.
            rbind (asym_read_digest payload 120) (\<lambda>provider_key_name_digest.
            rbind (asym_read_digest payload 152) (\<lambda>subject_digest.
            rbind (asym_read_signature payload 184) (\<lambda>signature_old.
            rbind (asym_read_signature payload 248) (\<lambda>signature_new.
            rbind (asym_read_string (lit ''registry'') payload KEY_EVENT_FIXED_BYTES (unat key_len) (lit ''key_id''))
              (\<lambda>(key_id, cursor).
            rbind (asym_read_string (lit ''registry'') payload cursor (unat provider_len) (lit ''provider_name''))
              (\<lambda>(provider_name, cursor).
            rbind (asym_read_string (lit ''registry'') payload cursor (unat provider_key_len) (lit ''provider_key_name''))
              (\<lambda>(provider_key_name, cursor).
            rbind (ok_or (Asym_Invalid (lit ''public blob length overflow'')) (checked_add cursor (unat public_blob_len)))
              (\<lambda>public_end.
            rbind (ok_or (Asym_Invalid (lit ''truncated public blob'')) (get_range payload cursor public_end))
              (\<lambda>public_blob.
            rbind (asym_read_string (lit ''registry'') payload public_end (unat nonce_len) (lit ''nonce''))
              (\<lambda>(nonce, cursor).
            if cursor \<noteq> length payload then Inl (Asym_Invalid (lit ''registry payload trailing bytes''))
            else Inr \<lparr>ke_sequence = 0, ke_kind = kind, ke_role_mask = role_mask, ke_logical_timestamp = timestamp,
              ke_generation = generation, ke_key_id = key_id, ke_provider_name = provider_name,
              ke_provider_key_name = provider_key_name, ke_public_blob = public_blob,
              ke_public_key_digest = public_key_digest, ke_previous_public_key_digest = previous_public_key_digest,
              ke_provider_key_name_digest = provider_key_name_digest, ke_subject_digest = subject_digest,
              ke_signature_old = signature_old, ke_signature_new = signature_new, ke_nonce = nonce,
              ke_previous_digest = replicate 32 0, ke_frame_digest = replicate 32 0\<rparr>)))))))))))))))))))))))"

subsection \<open>Frames\<close>

definition encode_registry_frame :: "u64 \<Rightarrow> bytes \<Rightarrow> bytes \<Rightarrow> bytes \<Rightarrow> bytes \<Rightarrow> asym_error + bytes" where
  "encode_registry_frame = encode_chain_frame (Asym_Invalid (lit ''registry payload too large'')) REGISTRY_MAX_PAYLOAD
     REGISTRY_MAGIC"

text \<open>
  The checks of \<open>decode_frames\<close>, which \<open>ledger.rs\<close> repeats with other constants. The length of
  a payload is a \<open>u64\<close> and fits a \<open>usize\<close>.
\<close>

definition asym_frame_header :: "str \<Rightarrow> bytes \<Rightarrow> nat \<Rightarrow> nat \<Rightarrow> bytes \<Rightarrow> bytes \<Rightarrow> asym_error + nat" where
  "asym_frame_header what magic limit n head header =
     (if slice header 0 8 \<noteq> magic \<or> from_le (slice header 8 10) \<noteq> (1 :: u16) \<or> from_le (slice header 10 12) \<noteq> (0 :: u16)
         \<or> from_le (slice header 12 16) \<noteq> (144 :: u32) \<or> slice header 128 144 \<noteq> replicate 16 0
      then Inl (Asym_Invalid (what @ lit '' frame header mismatch''))
      else if from_le (slice header 16 24) \<noteq> (of_nat n + 1 :: u64)
      then Inl (Asym_Invalid (what @ lit '' frame sequence mismatch''))
      else
        let payload_len = unat (from_le (slice header 24 32) :: u64) in
        if limit < payload_len then Inl (Asym_Invalid (what @ lit '' payload exceeds maximum''))
        else if slice header 32 64 \<noteq> head then Inl (Asym_Integrity (what @ lit '' previous digest mismatch''))
        else Inr payload_len)"

definition asym_frame_body :: "str \<Rightarrow> bytes \<Rightarrow> bytes \<Rightarrow> bytes \<Rightarrow> asym_error + unit" where
  "asym_frame_body what domain header payload =
     (if sha256 payload \<noteq> slice header 64 96 then Inl (Asym_Integrity (what @ lit '' payload digest mismatch''))
      else if compute_frame_digest domain (from_le (slice header 16 24)) (slice header 32 64) (slice header 64 96)
         \<noteq> slice header 96 128
      then Inl (Asym_Integrity (what @ lit '' frame digest mismatch''))
      else Inr ())"

definition asym_reader :: "str \<Rightarrow> str \<Rightarrow> bytes \<Rightarrow> bytes \<Rightarrow> nat \<Rightarrow> asym_error chain_reader" where
  "asym_reader what file_name magic domain limit =
     \<lparr>cr_short = Asym_Truncated file_name, cr_header = (\<lambda>offset. asym_frame_header what magic limit),
      cr_overflow = Asym_Invalid (what @ lit '' frame length overflow''),
      cr_cut = Asym_Truncated file_name, cr_body = asym_frame_body what domain\<rparr>"

definition registry_reader :: "asym_error chain_reader" where
  "registry_reader = asym_reader (lit ''registry'') (lit ''asymmetric key registry'') REGISTRY_MAGIC
     REGISTRY_FRAME_DOMAIN REGISTRY_MAX_PAYLOAD"

subsection \<open>Append and replay\<close>

text \<open>The updates of the registry after an event has been validated and applied to the states.\<close>

definition registry_record :: "key_registry \<Rightarrow> (str, key_state) btree \<Rightarrow> key_event \<Rightarrow> key_registry" where
  "registry_record r states e = r\<lparr>kr_states := states,
     kr_used_nonces := bset_insert (ke_key_id e, ke_nonce e) (kr_used_nonces r),
     kr_last_timestamp := ke_logical_timestamp e,
     kr_head_digest := ke_frame_digest e,
     kr_events := kr_events r @ [e],
     kr_states_by_head := bt_insert (ke_frame_digest e) states (kr_states_by_head r)\<rparr>"

definition registry_append ::
  "signature_check \<Rightarrow> key_event \<Rightarrow> key_registry \<Rightarrow> fsys \<Rightarrow> (asym_error + key_event) \<times> key_registry \<times> fsys" where
  "registry_append bcrypt event r fs =
     (if ke_logical_timestamp event \<le> kr_last_timestamp r
      then (Inl (Asym_Invalid (lit ''key event timestamps must be strictly increasing'')), r, fs)
      else if (ke_key_id event, ke_nonce event) \<in> set (kr_used_nonces r)
      then (Inl (Asym_Invalid (lit ''key event nonce already used'')), r, fs)
      else
        let event = event\<lparr>ke_sequence := of_nat (length (kr_events r)) + 1, ke_previous_digest := kr_head_digest r\<rparr> in
        case validate_key_event bcrypt (kr_states r) event of
          Inl e \<Rightarrow> (Inl e, r, fs)
        | Inr _ \<Rightarrow>
        case encode_key_payload event of
          Inl e \<Rightarrow> (Inl e, r, fs)
        | Inr payload \<Rightarrow>
        let payload_digest = sha256 payload;
            frame_digest = compute_frame_digest REGISTRY_FRAME_DOMAIN (ke_sequence event) (ke_previous_digest event)
              payload_digest;
            event = event\<lparr>ke_frame_digest := frame_digest\<rparr> in
        case encode_registry_frame (ke_sequence event) (ke_previous_digest event) payload_digest frame_digest payload of
          Inl e \<Rightarrow> (Inl e, r, fs)
        | Inr frame \<Rightarrow>
        case write_all (kr_path r) frame fs of
          (Inl e, fs) \<Rightarrow> (Inl (Asym_Io e), r, fs)
        | (Inr _, fs) \<Rightarrow>
        case apply_key_event (kr_states r) event of
          Inl e \<Rightarrow> (Inl e, r, fs)
        | Inr states \<Rightarrow> (Inr event, registry_record r states event, fs))"

definition registry_replay_frame :: "signature_check \<Rightarrow> key_registry \<Rightarrow> chain_frame \<Rightarrow> asym_error + key_registry" where
  "registry_replay_frame bcrypt r frame =
     rbind (decode_key_payload (cf_payload frame)) (\<lambda>event.
     let event = event\<lparr>ke_sequence := cf_sequence frame, ke_previous_digest := cf_previous frame,
                   ke_frame_digest := cf_digest frame\<rparr> in
     if ke_logical_timestamp event \<le> kr_last_timestamp r
     then Inl (Asym_Invalid (lit ''key registry timestamp order mismatch''))
     else if (ke_key_id event, ke_nonce event) \<in> set (kr_used_nonces r)
     then Inl (Asym_Invalid (lit ''key registry duplicate nonce''))
     else
       rbind (validate_key_event bcrypt (kr_states r) event) (\<lambda>_.
       rbind (apply_key_event (kr_states r) event) (\<lambda>states. Inr (registry_record r states event))))"

definition asym_create_empty_file :: "str \<Rightarrow> path \<Rightarrow> (asym_error, unit) io" where
  "asym_create_empty_file what path fs =
     (if fs_exists fs path
      then (Inl (Asym_Invalid (what @ lit '' already exists: '' @ path_display path)), fs)
      else io_bind (case path_parent path of
                Some parent \<Rightarrow> io_map_err Asym_Io (create_dir_all parent)
              | None \<Rightarrow> io_ret ()) (\<lambda>_. io_map_err Asym_Io (create_new path [])) fs)"

definition registry_create :: "path \<Rightarrow> (asym_error, key_registry) io" where
  "registry_create path = io_bind (asym_create_empty_file (lit ''registry'') path) (\<lambda>_. io_ret (registry_empty path))"

definition registry_open_strict :: "signature_check \<Rightarrow> path \<Rightarrow> (asym_error, key_registry) io" where
  "registry_open_strict bcrypt path fs =
     (if fget fs path = None
      then (Inl (Asym_Invalid (lit ''asymmetric key registry missing: '' @ path_display path)), fs)
      else
        io_bind (io_query (\<lambda>fs. map_err Asym_Io (fs_read path fs))) (\<lambda>bytes.
        io_pure (chain_replay registry_reader (registry_replay_frame bcrypt) (registry_empty path) bytes)) fs)"

subsection \<open>Operations\<close>

text \<open>
  Each operation builds an event and appends it; the second component is the member
  \<open>private_export_rejected\<close> of the receipt.
\<close>

definition registry_submit ::
  "signature_check \<Rightarrow> asym_error + key_event \<times> bool \<Rightarrow> key_registry \<Rightarrow> fsys \<Rightarrow>
   (asym_error + key_receipt) \<times> key_registry \<times> fsys" where
  "registry_submit bcrypt built r fs =
     (case built of
        Inl e \<Rightarrow> (Inl e, r, fs)
      | Inr (event, rejected) \<Rightarrow>
        (case registry_append bcrypt event r fs of
           (Inl e, r, fs) \<Rightarrow> (Inl e, r, fs)
         | (Inr a, r, fs) \<Rightarrow>
             (Inr \<lparr>kc_changed = True, kc_sequence = ke_sequence a, kc_event_kind = ke_kind a, kc_key_id = ke_key_id a,
                kc_generation = ke_generation a, kc_public_key_digest = ke_public_key_digest a,
                kc_frame_digest = ke_frame_digest a, kc_private_export_rejected = rejected\<rparr>, r, fs)))"

definition key_event_of ::
  "key_event_kind \<Rightarrow> u16 \<Rightarrow> u64 \<Rightarrow> u64 \<Rightarrow> str \<Rightarrow> str \<Rightarrow> str \<Rightarrow> bytes \<Rightarrow> bytes \<Rightarrow> bytes \<Rightarrow> bytes \<Rightarrow> bytes \<Rightarrow> bytes
   \<Rightarrow> str \<Rightarrow> key_event" where
  "key_event_of kind role_mask timestamp generation key_id provider_name provider_key_name blob digest previous
     subject old_sig new_sig nonce =
     \<lparr>ke_sequence = 0, ke_kind = kind, ke_role_mask = role_mask, ke_logical_timestamp = timestamp,
      ke_generation = generation, ke_key_id = key_id, ke_provider_name = provider_name,
      ke_provider_key_name = provider_key_name, ke_public_blob = blob, ke_public_key_digest = digest,
      ke_previous_public_key_digest = previous, ke_provider_key_name_digest = sha256 provider_key_name,
      ke_subject_digest = subject, ke_signature_old = old_sig, ke_signature_new = new_sig, ke_nonce = nonce,
      ke_previous_digest = replicate 32 0, ke_frame_digest = replicate 32 0\<rparr>"

definition key_not_found :: "str \<Rightarrow> asym_error" where
  "key_not_found key_id = Asym_Invalid (lit ''asymmetric key not found: '' @ key_id)"

definition enroll_new_key_with_provider where
  "enroll_new_key_with_provider bcrypt provider requirement key_id role_mask provider_key_name timestamp nonce r =
     registry_submit bcrypt (
       rbind (validate_identifier (lit ''key_id'') key_id) (\<lambda>_.
       rbind (validate_identifier (lit ''provider_key_name'') provider_key_name) (\<lambda>_.
       rbind (validate_identifier (lit ''nonce'') nonce) (\<lambda>_.
       if role_mask = 0 \<or> bt_get (kr_states r) key_id \<noteq> None
       then Inl (Asym_Invalid (lit ''role mask zero or key ID already exists''))
       else
         rbind (enforce_provider_requirement provider requirement) (\<lambda>capabilities.
         rbind (sp_create_key provider provider_key_name) (\<lambda>material.
         if km_provider_name material \<noteq> pc_provider_name capabilities \<or> \<not> km_private_export_rejected material
         then Inl (Asym_Integrity (lit ''provider material does not match admitted capabilities''))
         else
           rbind (validate_public_blob (km_public_blob material)) (\<lambda>_.
           let digest = sha256 (km_public_blob material) in
           rbind (registry_event_subject_digest Key_Enroll role_mask timestamp 1 key_id (pc_provider_name capabilities)
                    provider_key_name digest (replicate 32 0) nonce) (\<lambda>subject.
           rbind (sp_sign provider provider_key_name subject) (\<lambda>signature_new.
           rbind (sp_verify provider (km_public_blob material) subject signature_new) (\<lambda>ok.
           if \<not> ok then Inl (Asym_Integrity (lit ''provider enrollment proof failed''))
           else Inr (key_event_of Key_Enroll role_mask timestamp 1 key_id (pc_provider_name capabilities)
               provider_key_name (km_public_blob material) digest (replicate 32 0) subject (replicate 64 0)
               signature_new nonce, km_private_export_rejected material)))))))))))
     r"

definition rotate_to_new_key_with_providers where
  "rotate_to_new_key_with_providers bcrypt old_provider new_provider new_requirement key_id old_provider_key_name
     new_provider_key_name timestamp nonce r =
     registry_submit bcrypt (
       rbind (validate_identifier (lit ''key_id'') key_id) (\<lambda>_.
       rbind (validate_identifier (lit ''old_provider_key_name'') old_provider_key_name) (\<lambda>_.
       rbind (validate_identifier (lit ''new_provider_key_name'') new_provider_key_name) (\<lambda>_.
       rbind (validate_identifier (lit ''nonce'') nonce) (\<lambda>_.
       rbind (ok_or (key_not_found key_id) (bt_get (kr_states r) key_id)) (\<lambda>current.
       if \<not> ks_active current \<or> ks_provider_name current \<noteq> pc_provider_name (sp_capabilities old_provider)
          \<or> ks_provider_key_name current \<noteq> old_provider_key_name
       then Inl (Asym_Invalid (lit ''old provider does not match active registry state''))
       else
         rbind (enforce_provider_requirement new_provider new_requirement) (\<lambda>capabilities.
         rbind (sp_create_key new_provider new_provider_key_name) (\<lambda>material.
         if km_provider_name material \<noteq> pc_provider_name capabilities \<or> \<not> km_private_export_rejected material
         then Inl (Asym_Integrity (lit ''new provider material mismatch''))
         else
           let digest = sha256 (km_public_blob material) in
           if digest = ks_public_key_digest current
           then Inl (Asym_Invalid (lit ''rotation public key did not change''))
           else if ks_generation current = - 1 then Inl (Asym_Invalid (lit ''key generation overflow''))
           else
             let generation = ks_generation current + 1 in
             rbind (registry_event_subject_digest Key_Rotate (ks_role_mask current) timestamp generation key_id
                      (pc_provider_name capabilities) new_provider_key_name digest (ks_public_key_digest current) nonce)
               (\<lambda>subject.
             rbind (sp_sign old_provider old_provider_key_name subject) (\<lambda>signature_old.
             rbind (sp_sign new_provider new_provider_key_name subject) (\<lambda>signature_new.
             rbind (sp_verify old_provider (ks_public_blob current) subject signature_old) (\<lambda>ok_old.
             if \<not> ok_old then Inl (Asym_Integrity (lit ''provider-neutral dual-proof rotation failed''))
             else
               rbind (sp_verify new_provider (km_public_blob material) subject signature_new) (\<lambda>ok_new.
               if \<not> ok_new then Inl (Asym_Integrity (lit ''provider-neutral dual-proof rotation failed''))
               else Inr (key_event_of Key_Rotate (ks_role_mask current) timestamp generation key_id
                   (pc_provider_name capabilities) new_provider_key_name (km_public_blob material) digest
                   (ks_public_key_digest current) subject signature_old signature_new nonce,
                 km_private_export_rejected material))))))))))))))
     r"

definition revoke_with_provider where
  "revoke_with_provider bcrypt provider key_id provider_key_name timestamp nonce r =
     registry_submit bcrypt (
       rbind (validate_identifier (lit ''key_id'') key_id) (\<lambda>_.
       rbind (validate_identifier (lit ''provider_key_name'') provider_key_name) (\<lambda>_.
       rbind (validate_identifier (lit ''nonce'') nonce) (\<lambda>_.
       rbind (ok_or (key_not_found key_id) (bt_get (kr_states r) key_id)) (\<lambda>current.
       if \<not> ks_active current \<or> ks_provider_name current \<noteq> pc_provider_name (sp_capabilities provider)
          \<or> ks_provider_key_name current \<noteq> provider_key_name
       then Inl (Asym_Invalid (lit ''provider does not match active registry state''))
       else
         rbind (registry_event_subject_digest Key_Revoke (ks_role_mask current) timestamp (ks_generation current) key_id
                  (ks_provider_name current) provider_key_name (ks_public_key_digest current)
                  (ks_public_key_digest current) nonce) (\<lambda>subject.
         rbind (sp_sign provider provider_key_name subject) (\<lambda>signature_old.
         rbind (sp_verify provider (ks_public_blob current) subject signature_old) (\<lambda>ok.
         if \<not> ok then Inl (Asym_Integrity (lit ''provider revocation proof failed''))
         else Inr (key_event_of Key_Revoke (ks_role_mask current) timestamp (ks_generation current) key_id
             (ks_provider_name current) (ks_provider_key_name current) (ks_public_blob current)
             (ks_public_key_digest current) (ks_public_key_digest current) subject signature_old (replicate 64 0)
             nonce, True)))))))))
     r"

definition enroll_new_provider_key where
  "enroll_new_provider_key os key_id role_mask provider_key_name timestamp nonce r =
     registry_submit (cng_verify os) (
       rbind (validate_identifier (lit ''key_id'') key_id) (\<lambda>_.
       rbind (validate_identifier (lit ''provider_key_name'') provider_key_name) (\<lambda>_.
       rbind (validate_identifier (lit ''nonce'') nonce) (\<lambda>_.
       if role_mask = 0 then Inl (Asym_Invalid (lit ''role mask cannot be zero''))
       else if bt_get (kr_states r) key_id \<noteq> None
       then Inl (Asym_Invalid (lit ''asymmetric key ID already exists: '' @ key_id))
       else
         rbind (create_persisted_key os SOFTWARE_KSP provider_key_name) (\<lambda>material.
         let digest = sha256 (km_public_blob material) in
         rbind (registry_event_subject_digest Key_Enroll role_mask timestamp 1 key_id SOFTWARE_KSP
                  provider_key_name digest (replicate 32 0) nonce) (\<lambda>subject.
         rbind (cng_sign os SOFTWARE_KSP provider_key_name subject) (\<lambda>signature_new.
         rbind (verify_digest (cng_verify os) (km_public_blob material) subject signature_new) (\<lambda>ok.
         if \<not> ok then Inl (Asym_Integrity (lit ''new key enrollment proof failed verification''))
         else Inr (key_event_of Key_Enroll role_mask timestamp 1 key_id SOFTWARE_KSP
             provider_key_name (km_public_blob material) digest (replicate 32 0) subject (replicate 64 0)
             signature_new nonce, km_private_export_rejected material)))))))))
     r"

definition rotate_to_new_provider_key where
  "rotate_to_new_provider_key os key_id old_provider_key_name new_provider_key_name timestamp nonce r =
     registry_submit (cng_verify os) (
       rbind (validate_identifier (lit ''key_id'') key_id) (\<lambda>_.
       rbind (validate_identifier (lit ''old_provider_key_name'') old_provider_key_name) (\<lambda>_.
       rbind (validate_identifier (lit ''new_provider_key_name'') new_provider_key_name) (\<lambda>_.
       rbind (validate_identifier (lit ''nonce'') nonce) (\<lambda>_.
       rbind (ok_or (key_not_found key_id) (bt_get (kr_states r) key_id)) (\<lambda>current.
       if \<not> ks_active current then Inl (Asym_Invalid (lit ''cannot rotate a revoked key''))
       else if ks_provider_name current \<noteq> SOFTWARE_KSP \<or> ks_provider_key_name current \<noteq> old_provider_key_name
       then Inl (Asym_Invalid (lit ''old provider key does not match registry state''))
       else
         rbind (create_persisted_key os SOFTWARE_KSP new_provider_key_name) (\<lambda>material.
         let digest = sha256 (km_public_blob material) in
         if digest = ks_public_key_digest current
         then Inl (Asym_Invalid (lit ''rotation public key did not change''))
         else if ks_generation current = - 1 then Inl (Asym_Invalid (lit ''key generation overflow''))
         else
           let generation = ks_generation current + 1 in
           rbind (registry_event_subject_digest Key_Rotate (ks_role_mask current) timestamp generation key_id
                    SOFTWARE_KSP new_provider_key_name digest (ks_public_key_digest current) nonce) (\<lambda>subject.
           rbind (cng_sign os SOFTWARE_KSP old_provider_key_name subject) (\<lambda>signature_old.
           rbind (cng_sign os SOFTWARE_KSP new_provider_key_name subject) (\<lambda>signature_new.
           rbind (verify_digest (cng_verify os) (ks_public_blob current) subject signature_old) (\<lambda>ok_old.
           if \<not> ok_old then Inl (Asym_Integrity (lit ''dual-proof key rotation verification failed''))
           else
             rbind (verify_digest (cng_verify os) (km_public_blob material) subject signature_new) (\<lambda>ok_new.
             if \<not> ok_new then Inl (Asym_Integrity (lit ''dual-proof key rotation verification failed''))
             else Inr (key_event_of Key_Rotate (ks_role_mask current) timestamp generation key_id SOFTWARE_KSP
                 new_provider_key_name (km_public_blob material) digest (ks_public_key_digest current) subject
                 signature_old signature_new nonce, km_private_export_rejected material)))))))))))))
     r"

definition revoke_key where
  "revoke_key os key_id provider_key_name timestamp nonce r =
     registry_submit (cng_verify os) (
       rbind (validate_identifier (lit ''key_id'') key_id) (\<lambda>_.
       rbind (validate_identifier (lit ''provider_key_name'') provider_key_name) (\<lambda>_.
       rbind (validate_identifier (lit ''nonce'') nonce) (\<lambda>_.
       rbind (ok_or (key_not_found key_id) (bt_get (kr_states r) key_id)) (\<lambda>current.
       if \<not> ks_active current then Inl (Asym_Invalid (lit ''key is already revoked''))
       else if ks_provider_key_name current \<noteq> provider_key_name
       then Inl (Asym_Invalid (lit ''provider key does not match active registry state''))
       else
         rbind (registry_event_subject_digest Key_Revoke (ks_role_mask current) timestamp (ks_generation current) key_id
                  (ks_provider_name current) provider_key_name (ks_public_key_digest current)
                  (ks_public_key_digest current) nonce) (\<lambda>subject.
         rbind (cng_sign os (ks_provider_name current) provider_key_name subject) (\<lambda>signature_old.
         rbind (verify_digest (cng_verify os) (ks_public_blob current) subject signature_old) (\<lambda>ok.
         if \<not> ok then Inl (Asym_Integrity (lit ''key revocation proof failed verification''))
         else Inr (key_event_of Key_Revoke (ks_role_mask current) timestamp (ks_generation current) key_id
             (ks_provider_name current) (ks_provider_key_name current) (ks_public_blob current)
             (ks_public_key_digest current) (ks_public_key_digest current) subject signature_old (replicate 64 0)
             nonce, True)))))))))
     r"

subsection \<open>The payload codec\<close>

text \<open>
  The byte at offset 11 tells whether the event carries a proof of the new key. It is written from
  the kind of the event; the decoder only checks that it is 0 or 1.
\<close>

definition key_payload :: "u8 \<Rightarrow> key_event \<Rightarrow> bytes" where
  "key_payload flag e = REGISTRY_PAYLOAD_MAGIC @ [key_kind_code (ke_kind e), 1, 1, flag]
     @ u16_le (ke_role_mask e) @ u16_le 0 @ u64_le (ke_logical_timestamp e) @ u64_le (ke_generation e)
     @ u32_le (of_nat (length (ke_key_id e))) @ u32_le (of_nat (length (ke_provider_name e)))
     @ u32_le (of_nat (length (ke_provider_key_name e))) @ u32_le (of_nat (length (ke_public_blob e)))
     @ u32_le (of_nat (length (ke_nonce e))) @ u32_le 0
     @ ke_public_key_digest e @ ke_previous_public_key_digest e @ ke_provider_key_name_digest e
     @ ke_subject_digest e @ ke_signature_old e @ ke_signature_new e @ replicate 16 0
     @ ke_key_id e @ ke_provider_name e @ ke_provider_key_name e @ ke_public_blob e @ ke_nonce e"

definition proof_flag :: "key_event \<Rightarrow> u8" where
  "proof_flag e = (if ke_kind e \<noteq> Key_Revoke then 1 else 0)"

text \<open>What the types of Rust and the limits of the decoder guarantee of an event.\<close>

definition key_event_fits :: "key_event \<Rightarrow> bool" where
  "key_event_fits e \<longleftrightarrow> length (ke_public_key_digest e) = 32 \<and> length (ke_previous_public_key_digest e) = 32 \<and>
     length (ke_provider_key_name_digest e) = 32 \<and> length (ke_subject_digest e) = 32 \<and>
     length (ke_signature_old e) = 64 \<and> length (ke_signature_new e) = 64 \<and>
     list_all (\<lambda>s. utf8_valid s \<and> length s \<le> 1024 * 1024)
       [ke_key_id e, ke_provider_name e, ke_provider_key_name e, ke_nonce e] \<and>
     length (ke_public_blob e) < 2 ^ 32"

definition key_event_bare :: "key_event \<Rightarrow> key_event" where
  "key_event_bare e = e\<lparr>ke_sequence := 0, ke_previous_digest := replicate 32 0, ke_frame_digest := replicate 32 0\<rparr>"

lemma length_registry_magics [simp]:
  "length REGISTRY_MAGIC = 8" "length REGISTRY_PAYLOAD_MAGIC = 8" "length REGISTRY_FRAME_DOMAIN = 8"
  by (simp_all add: REGISTRY_MAGIC_def REGISTRY_PAYLOAD_MAGIC_def REGISTRY_FRAME_DOMAIN_def lit_def)

lemma key_kind_codes [simp]: "key_kind_from_code (key_kind_code k) = Inr k"
  by (cases k) (simp_all add: key_kind_from_code_def)

lemma key_kind_code_inv: "key_kind_from_code c = Inr k \<Longrightarrow> c = key_kind_code k"
  by (auto simp: key_kind_from_code_def split: if_splits)

lemma length_key_payload:
  "key_event_fits e \<Longrightarrow> length (key_payload flag e) = 328 + length (ke_key_id e) + length (ke_provider_name e)
     + length (ke_provider_key_name e) + length (ke_public_blob e) + length (ke_nonce e)"
  by (simp add: key_payload_def key_event_fits_def)

lemma key_payload_fields:
  fixes flag
  assumes "key_event_fits e"
  defines "p \<equiv> key_payload flag e"
  shows "slice p 0 8 = REGISTRY_PAYLOAD_MAGIC" "p ! 8 = key_kind_code (ke_kind e)" "p ! 9 = 1" "p ! 10 = 1"
    "p ! 11 = flag" "slice p 12 14 = u16_le (ke_role_mask e)" "slice p 14 16 = u16_le 0"
    "slice p 16 24 = u64_le (ke_logical_timestamp e)" "slice p 24 32 = u64_le (ke_generation e)"
    "slice p 32 36 = u32_le (of_nat (length (ke_key_id e)))" "slice p 36 40 = u32_le (of_nat (length (ke_provider_name e)))"
    "slice p 40 44 = u32_le (of_nat (length (ke_provider_key_name e)))"
    "slice p 44 48 = u32_le (of_nat (length (ke_public_blob e)))" "slice p 48 52 = u32_le (of_nat (length (ke_nonce e)))"
    "slice p 52 56 = u32_le 0" "slice p 56 88 = ke_public_key_digest e" "slice p 88 120 = ke_previous_public_key_digest e"
    "slice p 120 152 = ke_provider_key_name_digest e" "slice p 152 184 = ke_subject_digest e"
    "slice p 184 248 = ke_signature_old e" "slice p 248 312 = ke_signature_new e" "slice p 312 328 = replicate 16 0"
    "drop 328 p = ke_key_id e @ ke_provider_name e @ ke_provider_key_name e @ ke_public_blob e @ ke_nonce e"
  using assms by (simp_all add: p_def key_payload_def key_event_fits_def slice_def nth_append)

lemma asym_read_string_at:
  assumes "drop cur bs = s @ rest" and "utf8_valid s" and "length s \<le> 1024 * 1024" and "length bs < usize_limit"
    and "cur \<le> length bs"
  shows "asym_read_string w bs cur (length s) n = Inr (s, cur + length s)" and "drop (cur + length s) bs = rest"
    and "cur + length s \<le> length bs"
proof -
  show l: "cur + length s \<le> length bs" using arg_cong [OF assms(1), of length] assms(5) by simp
  show "drop (cur + length s) bs = rest" by (rule drop_after [OF assms(1)])
  show "asym_read_string w bs cur (length s) n = Inr (s, cur + length s)"
    using assms l by (simp add: asym_read_string_iff slice_def)
qed

lemma key_decode_ok:
  assumes f: "key_event_fits e" and flag: "flag \<le> 1"
  shows "decode_key_payload (key_payload flag e) = Inr (key_event_bare e)"
proof -
  note fs = key_payload_fields [OF f, of flag] and len = length_key_payload [OF f, of flag]
  let ?p = "key_payload flag e"
  have sm: "length (ke_key_id e) \<le> 1024 * 1024" "length (ke_provider_name e) \<le> 1024 * 1024"
    "length (ke_provider_key_name e) \<le> 1024 * 1024" "length (ke_nonce e) \<le> 1024 * 1024" "length (ke_public_blob e) < 2 ^ 32"
    and u8: "utf8_valid (ke_key_id e)" "utf8_valid (ke_provider_name e)" "utf8_valid (ke_provider_key_name e)"
      "utf8_valid (ke_nonce e)" using f by (simp_all add: key_event_fits_def)
  have l: "length ?p < usize_limit" "328 \<le> length ?p" using len sm by (simp_all add: usize_limit_def)
  note r1 = asym_read_string_at [OF fs(23) u8(1) sm(1) l]
  note r2 = asym_read_string_at [OF r1(2) u8(2) sm(2) l(1) r1(3)]
  note r3 = asym_read_string_at [OF r2(2) u8(3) sm(3) l(1) r2(3)]
  let ?c = "328 + length (ke_key_id e) + length (ke_provider_name e) + length (ke_provider_key_name e)"
  have b: "get_range ?p ?c (?c + length (ke_public_blob e)) = Some (ke_public_blob e)"
    using r3(2,3) len by (simp add: get_range_def)
  have d: "drop (?c + length (ke_public_blob e)) ?p = ke_nonce e @ []"
    using drop_after [OF r3(2)] by simp
  have c: "?c + length (ke_public_blob e) \<le> length ?p" using len by simp
  note r4 = asym_read_string_at [OF d u8(4) sm(4) l(1) c]
  have u: "unat (of_nat (length (ke_key_id e)) :: u32) = length (ke_key_id e)"
    "unat (of_nat (length (ke_provider_name e)) :: u32) = length (ke_provider_name e)"
    "unat (of_nat (length (ke_provider_key_name e)) :: u32) = length (ke_provider_key_name e)"
    "unat (of_nat (length (ke_public_blob e)) :: u32) = length (ke_public_blob e)"
    "unat (of_nat (length (ke_nonce e)) :: u32) = length (ke_nonce e)"
    using sm by (simp_all add: unat_u32_small)
  have ca: "checked_add ?c (length (ke_public_blob e)) = Some (?c + length (ke_public_blob e))"
    using l(1) len by simp
  have z: "slice ?p 14 16 = [0, 0]" using fs(7) by (simp add: u16_le_def numeral_2_eq_2)
  have nl: "\<not> (1 :: u8) < flag" using flag by simp
  have rd: "asym_read_u16 ?p 12 = Inr (ke_role_mask e)" "asym_read_u64 ?p 16 = Inr (ke_logical_timestamp e)"
    "asym_read_u64 ?p 24 = Inr (ke_generation e)" "asym_read_u32 ?p 32 = Inr (of_nat (length (ke_key_id e)))"
    "asym_read_u32 ?p 36 = Inr (of_nat (length (ke_provider_name e)))"
    "asym_read_u32 ?p 40 = Inr (of_nat (length (ke_provider_key_name e)))"
    "asym_read_u32 ?p 44 = Inr (of_nat (length (ke_public_blob e)))"
    "asym_read_u32 ?p 48 = Inr (of_nat (length (ke_nonce e)))" "asym_read_u32 ?p 52 = Inr 0"
    "asym_read_digest ?p 56 = Inr (ke_public_key_digest e)" "asym_read_digest ?p 88 = Inr (ke_previous_public_key_digest e)"
    "asym_read_digest ?p 120 = Inr (ke_provider_key_name_digest e)" "asym_read_digest ?p 152 = Inr (ke_subject_digest e)"
    "asym_read_signature ?p 184 = Inr (ke_signature_old e)" "asym_read_signature ?p 248 = Inr (ke_signature_new e)"
    using l(2) by (simp_all add: asym_read_ok fs(1-22))
  have stop: "?c + length (ke_public_blob e) + length (ke_nonce e) = length ?p" using len by simp
  show ?thesis
    unfolding decode_key_payload_def KEY_EVENT_FIXED_BYTES_def
    using l(2) by (simp add: fs(1-5,22) z nl rd r1(1) r2(1) r3(1) ca b r4(1) u stop key_event_bare_def cong: rbind_weak_cong)
qed

lemma asym_read_string_sound:
  assumes "asym_read_string w bs cur len n = Inr (s, cur')"
  shows "drop cur bs = s @ drop cur' bs" and "utf8_valid s" and "length s = len" and "len \<le> 1024 * 1024"
    and "cur' = cur + len" and "cur' \<le> length bs"
  using assms by (auto simp: asym_read_string_iff slice_def field_join)

lemma key_decode_sound:
  assumes d: "decode_key_payload p = Inr e"
  shows "\<exists>flag \<le> 1. p = key_payload flag e" and "key_event_fits e" and "key_event_bare e = e"
proof -
  note v = d [unfolded decode_key_payload_def KEY_EVENT_FIXED_BYTES_def guard_eq_Inr_iff rbind_eq_Inr_iff de_Morgan_disj
      not_less not_not]
  then have len: "328 \<le> length p" by simp
  from v obtain k kl pl pkl bl nl kid c1 pn c2 pkn c3 blob nonce c4
    where m: "slice p 0 8 = REGISTRY_PAYLOAD_MAGIC" and kind: "key_kind_from_code (p ! 8) = Inr k"
      and fx: "p ! 9 = 1" "p ! 10 = 1" "p ! 11 \<le> 1" "slice p 14 16 = [0, 0]" "slice p 312 328 = replicate 16 0"
      and ls: "asym_read_u32 p 32 = Inr kl" "asym_read_u32 p 36 = Inr pl" "asym_read_u32 p 40 = Inr pkl"
        "asym_read_u32 p 44 = Inr bl" "asym_read_u32 p 48 = Inr nl" "asym_read_u32 p 52 = Inr 0"
      and s1: "asym_read_string (lit ''registry'') p 328 (unat kl) (lit ''key_id'') = Inr (kid, c1)"
      and s2: "asym_read_string (lit ''registry'') p c1 (unat pl) (lit ''provider_name'') = Inr (pn, c2)"
      and s3: "asym_read_string (lit ''registry'') p c2 (unat pkl) (lit ''provider_key_name'') = Inr (pkn, c3)"
      and b: "get_range p c3 (c3 + unat bl) = Some blob"
      and s4: "asym_read_string (lit ''registry'') p (c3 + unat bl) (unat nl) (lit ''nonce'') = Inr (nonce, c4)"
      and c4: "c4 = length p"
      and e: "e = \<lparr>ke_sequence = 0, ke_kind = k, ke_role_mask = from_le (slice p 12 14),
          ke_logical_timestamp = from_le (slice p 16 24),
          ke_generation = from_le (slice p 24 32), ke_key_id = kid, ke_provider_name = pn,
          ke_provider_key_name = pkn, ke_public_blob = blob, ke_public_key_digest = slice p 56 88,
          ke_previous_public_key_digest = slice p 88 120, ke_provider_key_name_digest = slice p 120 152,
          ke_subject_digest = slice p 152 184, ke_signature_old = slice p 184 248, ke_signature_new = slice p 248 312,
          ke_nonce = nonce, ke_previous_digest = replicate 32 0, ke_frame_digest = replicate 32 0\<rparr>"
    by (auto simp: asym_read_ok rbind_eq_Inr_iff checked_add_Some_iff split: if_splits)
  note t1 = asym_read_string_sound [OF s1] and t2 = asym_read_string_sound [OF s2]
    and t3 = asym_read_string_sound [OF s3] and t4 = asym_read_string_sound [OF s4]
  have bb: "drop c3 p = blob @ drop (c3 + unat bl) p" and lb: "length blob = unat bl"
    using b by (auto simp: get_range_Some_iff field_join)
  have u32: "slice p 32 36 = u32_le kl" "slice p 36 40 = u32_le pl" "slice p 40 44 = u32_le pkl" "slice p 44 48 = u32_le bl"
    "slice p 48 52 = u32_le nl" "slice p 52 56 = u32_le 0"
    using ls len by (simp_all add: asym_read_ok from_le_eq_iff length_slice)
  have ln: "of_nat (length kid) = kl" "of_nat (length pn) = pl" "of_nat (length pkn) = pkl" "of_nat (length blob) = bl"
    "of_nat (length nonce) = nl" using t1(3) t2(3) t3(3) t4(3) lb by simp_all
  have z: "[0, 0] = u16_le 0" by (simp add: u16_le_def numeral_2_eq_2)
  show "key_event_bare e = e" by (simp add: e key_event_bare_def)
  show "key_event_fits e"
    using len t1(2-4) t2(2-4) t3(2-4) t4(2-4) lb unsigned_less [of bl, where ?'a = nat]
    by (simp add: e key_event_fits_def length_slice)
  have "p = slice p 0 8 @ slice p 8 9 @ slice p 9 10 @ slice p 10 11 @ slice p 11 12 @ slice p 12 14 @ slice p 14 16
      @ slice p 16 24 @ slice p 24 32 @ slice p 32 36 @ slice p 36 40 @ slice p 40 44 @ slice p 44 48 @ slice p 48 52
      @ slice p 52 56 @ slice p 56 88 @ slice p 88 120 @ slice p 120 152 @ slice p 152 184 @ slice p 184 248
      @ slice p 248 312 @ slice p 312 328 @ drop 328 p"
    using pieces_eq [of 0 "[8, 1, 1, 1, 1, 2, 2, 8, 8, 4, 4, 4, 4, 4, 4, 32, 32, 32, 32, 64, 64, 16]" p] by simp
  also have "\<dots> = key_payload (p ! 11) e"
    using len byte_slices [of 8 p] byte_slices [of 9 p] byte_slices [of 10 p] byte_slices [of 11 p]
    by (simp add: key_payload_def e m u32 fx z ln key_kind_code_inv [OF kind] t1(1) t2(1) t3(1) t4(1) bb c4
        length_slice uN_le_from_le)
  finally show "\<exists>flag \<le> 1. p = key_payload flag e" using fx(3) by blast
qed

subsection \<open>The file of the registry\<close>

lemma asym_reader_frames:
  assumes m: "length magic = 8" and l: "limit < usize_limit"
  shows "chained_frames (asym_reader what file_name magic domain limit) magic domain limit no_slack"
proof
  show "no_slack (u16_le 0) (replicate 16 0)" by (simp add: no_slack_def)
  fix h head p :: bytes and off n
  assume h: "length h = 144" and hd: "length head = 32"
  have "length (slice h 10 12) = 2" "length (slice h 128 144) = 16" using h by (simp_all add: length_slice)
  note iff = chain_header_iff [OF h m this(1) hd length_sha256 length_frame_digest this(2)]
  have len: "unat (from_le (slice h 24 32) :: u64) = length p \<longleftrightarrow> from_le (slice h 24 32) = (of_nat (length p) :: u64)"
    if "length p \<le> limit"
    using that l by (intro unat_u64_iff) simp
  show "cr_header (asym_reader what file_name magic domain limit) off n head h = Inr (length p) \<and>
      cr_body (asym_reader what file_name magic domain limit) h p = Inr () \<longleftrightarrow>
      length p \<le> limit \<and> no_slack (slice h 10 12) (slice h 128 144) \<and>
      h = chain_header magic (slice h 10 12) (of_nat n + 1) (length p) head (sha256 p)
        (compute_frame_digest domain (of_nat n + 1) head (sha256 p)) (slice h 128 144)"
    unfolding iff using h len
    by (auto simp: asym_reader_def asym_frame_header_def asym_frame_body_def Let_def no_slack_def from_le_eq_iff length_slice
        split: if_splits)
qed (use assms in simp_all)

interpretation registry_frames: chained_frames registry_reader REGISTRY_MAGIC REGISTRY_FRAME_DOMAIN REGISTRY_MAX_PAYLOAD
  no_slack
  unfolding registry_reader_def by (rule asym_reader_frames) (simp_all add: REGISTRY_MAX_PAYLOAD_def usize_limit_def)

text \<open>An event of the file is an event of the registry with its proof flag.\<close>

type_synonym flagged_event = "key_event \<times> u8"

definition key_frame :: "flagged_event \<Rightarrow> chain_frame" where
  "key_frame ev = \<lparr>cf_sequence = ke_sequence (fst ev), cf_previous = ke_previous_digest (fst ev),
     cf_digest = ke_frame_digest (fst ev), cf_payload = key_payload (snd ev) (fst ev)\<rparr>"

definition registry_push :: "key_registry \<Rightarrow> flagged_event \<Rightarrow> key_registry" where
  "registry_push r ev = (case apply_key_event (kr_states r) (fst ev) of
     Inr states \<Rightarrow> registry_record r states (fst ev) | Inl _ \<Rightarrow> r)"

definition registry_admits :: "signature_check \<Rightarrow> key_registry \<Rightarrow> flagged_event \<Rightarrow> bool" where
  "registry_admits b r ev \<longleftrightarrow> key_event_fits (fst ev) \<and> snd ev \<le> 1 \<and>
     frame_follows REGISTRY_FRAME_DOMAIN (length (kr_events r)) (kr_head_digest r) (key_frame ev) \<and>
     kr_last_timestamp r < ke_logical_timestamp (fst ev) \<and>
     (ke_key_id (fst ev), ke_nonce (fst ev)) \<notin> set (kr_used_nonces r) \<and>
     validate_key_event b (kr_states r) (fst ev) = Inr ()"

lemma key_stamps_irrelevant [simp]:
  "key_payload flag (e\<lparr>ke_sequence := q\<rparr>) = key_payload flag e"
  "key_payload flag (e\<lparr>ke_previous_digest := d\<rparr>) = key_payload flag e"
  "key_payload flag (e\<lparr>ke_frame_digest := d\<rparr>) = key_payload flag e"
  "key_event_fits (e\<lparr>ke_sequence := q\<rparr>) = key_event_fits e"
  "key_event_fits (e\<lparr>ke_previous_digest := d\<rparr>) = key_event_fits e"
  "key_event_fits (e\<lparr>ke_frame_digest := d\<rparr>) = key_event_fits e"
  "validate_key_event b states (e\<lparr>ke_sequence := q\<rparr>) = validate_key_event b states e"
  "validate_key_event b states (e\<lparr>ke_previous_digest := d\<rparr>) = validate_key_event b states e"
  "validate_key_event b states (e\<lparr>ke_frame_digest := d\<rparr>) = validate_key_event b states e"
  "proof_flag (e\<lparr>ke_sequence := q\<rparr>) = proof_flag e" "proof_flag (e\<lparr>ke_previous_digest := d\<rparr>) = proof_flag e"
  "proof_flag (e\<lparr>ke_frame_digest := d\<rparr>) = proof_flag e"
  by (cases e; simp only: key_event.update_convs key_event.select_convs key_payload_def key_event_fits_def
      validate_key_event_def proof_flag_def)+

lemma proof_flag_le [simp]: "proof_flag e \<le> 1"
  by (simp add: proof_flag_def)

text \<open>What a validated event satisfies.\<close>

lemma verify_all_iff:
  "verify_all b err cs = Inr u \<longleftrightarrow> (\<forall>(blob, d, s) \<in> set cs. verify_digest b blob d s = Inr True)"
  by (induction cs) (auto simp: rbind_eq_Inr_iff guard_eq_Inr_iff)

lemma validate_public_blob_iff:
  "validate_public_blob blob = Inr u \<longleftrightarrow> length blob = 72 \<and> from_le (slice blob 0 4) = (0x31534345 :: u32) \<and>
     from_le (slice blob 4 8) = (32 :: u32)"
  by (auto simp: validate_public_blob_def Let_def guard_eq_Inr_iff ECDSA_P256_PUBLIC_BLOB_BYTES_def)

lemma validate_key_event_basics:
  assumes "validate_key_event b states e = Inr u"
  shows "identifier_ok (ke_key_id e)" "identifier_ok (ke_provider_name e)" "identifier_ok (ke_provider_key_name e)"
    "identifier_ok (ke_nonce e)" "length (ke_public_blob e) = 72" "ke_public_key_digest e = sha256 (ke_public_blob e)"
    "event_subject e = Inr (ke_subject_digest e)"
  using assms unfolding validate_key_event_def rbind_eq_Inr_iff guard_eq_Inr_iff validate_identifier_iff
    validate_public_blob_iff by auto

lemma validate_key_event_kinds:
  assumes "validate_key_event b states e = Inr u"
  shows "ke_kind e = Key_Enroll \<Longrightarrow> bt_get states (ke_key_id e) = None \<and> ke_generation e = 1 \<and>
      verify_digest b (ke_public_blob e) (ke_subject_digest e) (ke_signature_new e) = Inr True"
    and "ke_kind e = Key_Rotate \<Longrightarrow> \<exists>s. bt_get states (ke_key_id e) = Some s \<and> ks_active s \<and>
      ke_role_mask e = ks_role_mask s \<and> ke_generation e = ks_generation s + 1 \<and>
      ke_public_key_digest e \<noteq> ks_public_key_digest s \<and> ke_previous_public_key_digest e = ks_public_key_digest s \<and>
      verify_digest b (ks_public_blob s) (ke_subject_digest e) (ke_signature_old e) = Inr True \<and>
      verify_digest b (ke_public_blob e) (ke_subject_digest e) (ke_signature_new e) = Inr True"
    and "ke_kind e = Key_Revoke \<Longrightarrow> \<exists>s. bt_get states (ke_key_id e) = Some s \<and> ks_active s \<and>
      ke_generation e = ks_generation s \<and> ke_public_blob e = ks_public_blob s \<and> ke_role_mask e = ks_role_mask s \<and>
      verify_digest b (ks_public_blob s) (ke_subject_digest e) (ke_signature_old e) = Inr True"
  using assms unfolding validate_key_event_def rbind_eq_Inr_iff guard_eq_Inr_iff
  by (auto simp: verify_all_iff rbind_eq_Inr_iff guard_eq_Inr_iff)

lemma apply_validated:
  assumes "validate_key_event b states e = Inr u"
  obtains states' where "apply_key_event states e = Inr states'"
proof (cases "ke_kind e")
  case Key_Revoke
  with validate_key_event_kinds(3) [OF assms] that show thesis by (auto simp: apply_key_event_def)
qed (use that in \<open>auto simp: apply_key_event_def\<close>)

lemma registry_push_admitted:
  assumes "registry_admits b r ev"
  obtains states where "apply_key_event (kr_states r) (fst ev) = Inr states"
    and "registry_push r ev = registry_record r states (fst ev)"
  using assms by (auto simp: registry_admits_def registry_push_def elim: apply_validated)

lemma key_payload_size:
  assumes "validate_key_event b states e = Inr u" and "key_event_fits e"
  shows "length (key_payload flag e) \<le> REGISTRY_MAX_PAYLOAD"
  using validate_key_event_basics(1-5) [OF assms(1)]
  by (simp add: length_key_payload [OF assms(2)] identifier_ok_def REGISTRY_MAX_PAYLOAD_def)

lemma key_event_stamped:
  "key_event_bare e = e \<Longrightarrow> key_event_bare (e\<lparr>ke_sequence := q, ke_previous_digest := p, ke_frame_digest := d\<rparr>) = e"
  by (cases e) (simp add: key_event_bare_def)

lemma key_event_restamp:
  "(key_event_bare e)\<lparr>ke_sequence := ke_sequence e, ke_previous_digest := ke_previous_digest e,
     ke_frame_digest := ke_frame_digest e\<rparr> = e"
  by (cases e) (simp add: key_event_bare_def)

interpretation registry_file: chained_ledger registry_reader REGISTRY_MAGIC REGISTRY_FRAME_DOMAIN REGISTRY_MAX_PAYLOAD
  no_slack "registry_replay_frame b" registry_push key_frame "registry_admits b" "\<lambda>r. length (kr_events r)" kr_head_digest
  for b
proof unfold_locales
  fix r ev
  assume a: "registry_admits b r ev"
  show "registry_replay_frame b r (key_frame ev) = Inr (registry_push r ev)"
  proof -
    obtain states where s: "apply_key_event (kr_states r) (fst ev) = Inr states"
      "registry_push r ev = registry_record r states (fst ev)" by (rule registry_push_admitted [OF a])
    have d: "decode_key_payload (cf_payload (key_frame ev)) = Inr (key_event_bare (fst ev))"
      using a key_decode_ok by (simp add: registry_admits_def key_frame_def)
    have st: "(key_event_bare (fst ev))\<lparr>ke_sequence := cf_sequence (key_frame ev), ke_previous_digest := cf_previous (key_frame ev),
        ke_frame_digest := cf_digest (key_frame ev)\<rparr> = fst ev" by (simp add: key_frame_def key_event_restamp)
    show ?thesis using a s unfolding registry_replay_frame_def d rbind_simps Let_def st
      by (simp add: registry_admits_def not_le [symmetric])
  qed
  show "frame_follows REGISTRY_FRAME_DOMAIN (length (kr_events r)) (kr_head_digest r) (key_frame ev)"
    using a by (simp add: registry_admits_def)
  show "length (cf_payload (key_frame ev)) \<le> REGISTRY_MAX_PAYLOAD"
    using a by (auto simp: registry_admits_def key_frame_def intro: key_payload_size)
  show "length (kr_events (registry_push r ev)) = Suc (length (kr_events r))"
    "kr_head_digest (registry_push r ev) = cf_digest (key_frame ev)"
  proof -
    obtain states where "registry_push r ev = registry_record r states (fst ev)" by (rule registry_push_admitted [OF a])
    then show "length (kr_events (registry_push r ev)) = Suc (length (kr_events r))"
      "kr_head_digest (registry_push r ev) = cf_digest (key_frame ev)"
      by (simp_all add: registry_record_def key_frame_def)
  qed
next
  fix r f r'
  assume ff: "frame_follows REGISTRY_FRAME_DOMAIN (length (kr_events r)) (kr_head_digest r) f"
    and run: "registry_replay_frame b r f = Inr r'"
  from run obtain e where d: "decode_key_payload (cf_payload f) = Inr e"
    and c: "kr_last_timestamp r < ke_logical_timestamp e" "(ke_key_id e, ke_nonce e) \<notin> set (kr_used_nonces r)"
      "validate_key_event b (kr_states r) (e\<lparr>ke_sequence := cf_sequence f, ke_previous_digest := cf_previous f,
         ke_frame_digest := cf_digest f\<rparr>) = Inr ()"
    unfolding registry_replay_frame_def Let_def guard_eq_Inr_iff rbind_eq_Inr_iff by auto
  let ?e = "e\<lparr>ke_sequence := cf_sequence f, ke_previous_digest := cf_previous f, ke_frame_digest := cf_digest f\<rparr>"
  obtain flag where fl: "flag \<le> 1" "cf_payload f = key_payload flag e" "key_event_fits e"
    using key_decode_sound [OF d] by blast
  have "f = key_frame (?e, flag)" by (intro chain_frame.equality) (simp_all add: key_frame_def fl(2))
  moreover from this have "registry_admits b r (?e, flag)"
    using ff fl c by (simp add: registry_admits_def)
  ultimately show "\<exists>ev. f = key_frame ev \<and> registry_admits b r ev" by blast
qed

subsection \<open>Appending\<close>

text \<open>The types of Rust alone: arrays have their length and strings are UTF-8.\<close>

definition key_event_typed :: "key_event \<Rightarrow> bool" where
  "key_event_typed e \<longleftrightarrow> length (ke_public_key_digest e) = 32 \<and> length (ke_previous_public_key_digest e) = 32 \<and>
     length (ke_provider_key_name_digest e) = 32 \<and> length (ke_subject_digest e) = 32 \<and>
     length (ke_signature_old e) = 64 \<and> length (ke_signature_new e) = 64 \<and>
     list_all utf8_valid [ke_key_id e, ke_provider_name e, ke_provider_key_name e, ke_nonce e]"

lemma validated_fits: "validate_key_event b states e = Inr u \<Longrightarrow> key_event_typed e \<Longrightarrow> key_event_fits e"
  using validate_key_event_basics [of b states e u] by (simp add: key_event_typed_def key_event_fits_def identifier_ok_def)

lemma registry_frame_bytes:
  "encode_registry_frame (ke_sequence e) (ke_previous_digest e) (sha256 (key_payload f e)) (ke_frame_digest e) (key_payload f e)
     = (if REGISTRY_MAX_PAYLOAD < length (key_payload f e) then Inl (Asym_Invalid (lit ''registry payload too large''))
        else Inr (event_bytes REGISTRY_MAGIC key_frame (e, f)))"
  by (simp add: encode_registry_frame_def encode_chain_frame_def event_bytes_def entry_bytes_def key_frame_def Let_def)

lemma encode_key_payload_ok:
  "key_event_fits e \<Longrightarrow> length (ke_public_blob e) \<le> REGISTRY_MAX_PAYLOAD \<Longrightarrow> encode_key_payload e = Inr (key_payload (proof_flag e) e)"
  by (simp add: encode_key_payload_def key_payload_def proof_flag_def not_less)

text \<open>The event as it is recorded: with its place in the chain.\<close>

definition key_event_placed :: "key_registry \<Rightarrow> key_event \<Rightarrow> key_event" where
  "key_event_placed r e = e\<lparr>ke_sequence := of_nat (length (kr_events r)) + 1, ke_previous_digest := kr_head_digest r,
     ke_frame_digest := compute_frame_digest REGISTRY_FRAME_DOMAIN (of_nat (length (kr_events r)) + 1) (kr_head_digest r)
       (sha256 (key_payload (proof_flag e) e))\<rparr>"

definition registry_acceptable :: "signature_check \<Rightarrow> key_registry \<Rightarrow> key_event \<Rightarrow> bool" where
  "registry_acceptable b r e \<longleftrightarrow> kr_last_timestamp r < ke_logical_timestamp e \<and>
     (ke_key_id e, ke_nonce e) \<notin> set (kr_used_nonces r) \<and> validate_key_event b (kr_states r) e = Inr ()"

lemma registry_admits_placed:
  assumes "registry_acceptable b r e" and "key_event_typed e"
  shows "registry_admits b r (key_event_placed r e, proof_flag e)"
  using assms validated_fits [of b "kr_states r" e]
  by (simp add: registry_acceptable_def registry_admits_def frame_follows_def key_frame_def key_event_placed_def)

lemma registry_append_ok:
  assumes ac: "registry_acceptable b r e" and ty: "key_event_typed e" and old: "fget fs (kr_path r) = Some old"
  shows "registry_append b e r fs = (Inr (key_event_placed r e), registry_push r (key_event_placed r e, proof_flag e),
     fput (kr_path r) (old @ event_bytes REGISTRY_MAGIC key_frame (key_event_placed r e, proof_flag e)) fs)"
proof -
  let ?p = "key_payload (proof_flag e) e"
  have v: "validate_key_event b (kr_states r) e = Inr ()" using ac by (simp add: registry_acceptable_def)
  note ft = validated_fits [OF v ty]
  have enc: "encode_key_payload (e\<lparr>ke_sequence := of_nat (length (kr_events r)) + 1, ke_previous_digest := kr_head_digest r\<rparr>) = Inr ?p"
    using encode_key_payload_ok [of "e\<lparr>ke_sequence := of_nat (length (kr_events r)) + 1, ke_previous_digest := kr_head_digest r\<rparr>"]
      ft validate_key_event_basics(5) [OF v] by (simp add: REGISTRY_MAX_PAYLOAD_def)
  have fr: "encode_registry_frame (of_nat (length (kr_events r)) + 1) (kr_head_digest r) (sha256 ?p)
      (ke_frame_digest (key_event_placed r e)) ?p = Inr (event_bytes REGISTRY_MAGIC key_frame (key_event_placed r e, proof_flag e))"
    using registry_frame_bytes [of "key_event_placed r e" "proof_flag e"] key_payload_size [OF v ft, of "proof_flag e"]
    by (simp add: key_event_placed_def)
  obtain states where st: "apply_key_event (kr_states r) (key_event_placed r e) = Inr states"
    "registry_push r (key_event_placed r e, proof_flag e) = registry_record r states (key_event_placed r e)"
    using registry_push_admitted [OF registry_admits_placed [OF ac ty]] by auto
  from ac enc fr old st(1) [unfolded key_event_placed_def] show ?thesis unfolding st(2)
    by (simp add: registry_append_def Let_def not_le [symmetric] write_all_def registry_acceptable_def key_event_placed_def)
qed

lemma registry_append_effect:
  assumes run: "registry_append b e r fs = (res, r', fs')" and ty: "key_event_typed e"
  shows "append_effect (registry_admits b) registry_push (event_bytes REGISTRY_MAGIC key_frame) (kr_path r) r fs r' fs'"
proof (cases "registry_acceptable b r e \<and> fget fs (kr_path r) \<noteq> None")
  case False
  then have "r' = r \<and> fs' = fs" using run unfolding registry_append_def Let_def registry_acceptable_def
    by (auto simp: not_le not_less write_all_def split: if_splits sum.splits)
  then show ?thesis by simp
next
  case True
  then obtain old where old: "fget fs (kr_path r) = Some old" and ac: "registry_acceptable b r e" by auto
  from append_effect_event [of fs "kr_path r" old "registry_admits b", OF old registry_admits_placed [OF ac ty]]
    registry_append_ok [OF ac ty old] run show ?thesis by simp
qed

end
