(* ===== verification/Ub_Registry_Runs.thy ===== *)
theory Ub_Registry_Runs
  imports Ub_Registry
begin

text \<open>
  What the key registry guarantees over a run: its file reopens to the registry in memory, the
  events of a key form a chain of custody, and the states at earlier heads are kept.
\<close>

subsection \<open>Runs of a registry\<close>

text \<open>
  The requests to a registry. The answers of the providers and of the key storage may differ from
  request to request; the check of signatures is the same throughout.
\<close>

datatype key_request =
  Enroll_With signing_provider provider_requirement str u16 str u64 str
| Rotate_With signing_provider signing_provider provider_requirement str str str u64 str
| Revoke_With signing_provider str str u64 str
| Enroll_Software cng str u16 str u64 str
| Rotate_Software cng str str str u64 str
| Revoke_Software cng str str u64 str

fun registry_handle ::
  "signature_check \<Rightarrow> key_request \<Rightarrow> key_registry \<Rightarrow> fsys \<Rightarrow> (asym_error + key_receipt) \<times> key_registry \<times> fsys" where
  "registry_handle b (Enroll_With p q k m n t c) r fs = enroll_new_key_with_provider b p q k m n t c r fs"
| "registry_handle b (Rotate_With po pn q k on nn t c) r fs = rotate_to_new_key_with_providers b po pn q k on nn t c r fs"
| "registry_handle b (Revoke_With p k n t c) r fs = revoke_with_provider b p k n t c r fs"
| "registry_handle b (Enroll_Software os k m n t c) r fs =
     enroll_new_provider_key (os\<lparr>cng_verify := b\<rparr>) k m n t c r fs"
| "registry_handle b (Rotate_Software os k on nn t c) r fs =
     rotate_to_new_provider_key (os\<lparr>cng_verify := b\<rparr>) k on nn t c r fs"
| "registry_handle b (Revoke_Software os k n t c) r fs = revoke_key (os\<lparr>cng_verify := b\<rparr>) k n t c r fs"

text \<open>What the types guarantee of a request: strings are UTF-8 and a signature has 64 bytes.\<close>

definition provider_typed :: "signing_provider \<Rightarrow> bool" where
  "provider_typed p \<longleftrightarrow> utf8_valid (pc_provider_name (sp_capabilities p)) \<and>
     (\<forall>n d s. sp_sign p n d = Inr s \<longrightarrow> length s = 64)"

definition cng_typed :: "cng \<Rightarrow> bool" where
  "cng_typed os \<longleftrightarrow> (\<forall>p n d s. cng_sign os p n d = Inr s \<longrightarrow> length s = 64)"

fun request_typed :: "key_request \<Rightarrow> bool" where
  "request_typed (Enroll_With p q k m n t c) \<longleftrightarrow> provider_typed p \<and> list_all utf8_valid [k, n, c]"
| "request_typed (Rotate_With po pn q k on nn t c) \<longleftrightarrow>
     provider_typed po \<and> provider_typed pn \<and> list_all utf8_valid [k, on, nn, c]"
| "request_typed (Revoke_With p k n t c) \<longleftrightarrow> provider_typed p \<and> list_all utf8_valid [k, n, c]"
| "request_typed (Enroll_Software os k m n t c) \<longleftrightarrow> cng_typed os \<and> list_all utf8_valid [k, n, c]"
| "request_typed (Rotate_Software os k on nn t c) \<longleftrightarrow> cng_typed os \<and> list_all utf8_valid [k, on, nn, c]"
| "request_typed (Revoke_Software os k n t c) \<longleftrightarrow> cng_typed os \<and> list_all utf8_valid [k, n, c]"

text \<open>The states of a registry hold data of recorded events.\<close>

definition key_state_typed :: "key_state \<Rightarrow> bool" where
  "key_state_typed s \<longleftrightarrow> utf8_valid (ks_provider_name s) \<and> utf8_valid (ks_provider_key_name s) \<and>
     length (ks_public_key_digest s) = 32"

definition states_typed :: "(str, key_state) btree \<Rightarrow> bool" where
  "states_typed m \<longleftrightarrow> (\<forall>k s. bt_get m k = Some s \<longrightarrow> key_state_typed s)"

lemma states_typed_insert: "states_typed m \<Longrightarrow> key_state_typed s \<Longrightarrow> states_typed (bt_insert k s m)"
  by (simp add: states_typed_def bt_get_insert)

lemma states_typed_apply:
  assumes "apply_key_event m e = Inr m'" and "states_typed m" and "key_event_fits e"
  shows "states_typed m'"
proof (cases "ke_kind e")
  case Key_Revoke
  then obtain s where s: "bt_get m (ke_key_id e) = Some s"
    and m': "m' = bt_insert (ke_key_id e) (s\<lparr>ks_active := False, ks_last_event_sequence := ke_sequence e\<rparr>) m"
    using assms(1) by (auto simp: apply_key_event_def rbind_eq_Inr_iff)
  have "key_state_typed s" using assms(2) s by (simp add: states_typed_def)
  then show ?thesis unfolding m' by (intro states_typed_insert assms(2)) (simp add: key_state_typed_def)
qed (use assms in \<open>auto simp: apply_key_event_def key_state_typed_def key_event_fits_def intro!: states_typed_insert\<close>)

lemma utf8_SOFTWARE_KSP [simp]: "utf8_valid SOFTWARE_KSP"
  unfolding SOFTWARE_KSP_def by code_simp

lemma key_event_of_typed:
  "list_all utf8_valid [k, p, pk, n] \<Longrightarrow> length d = 32 \<Longrightarrow> length pd = 32 \<Longrightarrow> length s = 32 \<Longrightarrow> length so = 64 \<Longrightarrow>
   length sn = 64 \<Longrightarrow> key_event_typed (key_event_of kind m t g k p pk blob d pd s so sn n)"
  by (simp add: key_event_of_def key_event_typed_def)

lemma subject_digest_length: "registry_event_subject_digest k m t g kid pn pkn d pd n = Inr s \<Longrightarrow> length s = 32"
  by (auto simp: registry_event_subject_digest_def rbind_eq_Inr_iff guard_eq_Inr_iff)

lemma registry_submit_effect:
  assumes run: "registry_submit b built r fs = (res, r', fs')"
    and ty: "\<And>e x. built = Inr (e, x) \<Longrightarrow> key_event_typed e"
  shows "append_effect (registry_admits b) registry_push (event_bytes REGISTRY_MAGIC key_frame) (kr_path r) r fs r' fs'"
proof (cases built)
  case (Inr ex)
  obtain e x where ex: "ex = (e, x)" by (cases ex)
  obtain q r1 fs1 where a: "registry_append b e r fs = (q, r1, fs1)" by (metis prod_cases3)
  have "r1 = r'" "fs1 = fs'" using run Inr ex a by (auto simp: registry_submit_def split: sum.splits)
  with registry_append_effect [OF a] ty Inr ex show ?thesis by simp
qed (use run in \<open>simp add: registry_submit_def\<close>)

lemmas registry_ops = enroll_new_key_with_provider_def rotate_to_new_key_with_providers_def revoke_with_provider_def
  enroll_new_provider_key_def rotate_to_new_provider_key_def revoke_key_def

lemma registry_handle_effect:
  assumes run: "registry_handle b q r fs = (res, r', fs')" and ty: "request_typed q"
    and st: "states_typed (kr_states r)"
  shows "append_effect (registry_admits b) registry_push (event_bytes REGISTRY_MAGIC key_frame) (kr_path r) r fs r' fs'"
proof -
  note sl = subject_digest_length and state = st [unfolded states_typed_def key_state_typed_def, rule_format]
  show ?thesis
  proof (cases q)
    case (Enroll_With p q k m n t c)
    with run ty show ?thesis
      by (auto simp: enroll_new_key_with_provider_def provider_typed_def rbind_eq_Inr_iff guard_eq_Inr_iff Let_def enforce_iff
          intro!: registry_submit_effect key_event_of_typed dest!: sl)
  next
    case (Rotate_With po pn q k on nn t c)
    with run ty show ?thesis
      by (auto simp: rotate_to_new_key_with_providers_def provider_typed_def rbind_eq_Inr_iff guard_eq_Inr_iff Let_def enforce_iff
          intro!: registry_submit_effect key_event_of_typed dest!: sl state)
  next
    case (Revoke_With p k n t c)
    with run ty show ?thesis
      by (auto simp: revoke_with_provider_def provider_typed_def rbind_eq_Inr_iff guard_eq_Inr_iff Let_def
          intro!: registry_submit_effect key_event_of_typed dest!: sl state)
  next
    case (Enroll_Software os k m n t c)
    with run ty show ?thesis
      by (auto simp: enroll_new_provider_key_def cng_typed_def rbind_eq_Inr_iff guard_eq_Inr_iff Let_def
          intro!: registry_submit_effect key_event_of_typed dest!: sl)
  next
    case (Rotate_Software os k on nn t c)
    with run ty show ?thesis
      by (auto simp: rotate_to_new_provider_key_def cng_typed_def rbind_eq_Inr_iff guard_eq_Inr_iff Let_def
          intro!: registry_submit_effect key_event_of_typed dest!: sl state)
  next
    case (Revoke_Software os k n t c)
    with run ty show ?thesis
      by (auto simp: revoke_key_def cng_typed_def rbind_eq_Inr_iff guard_eq_Inr_iff Let_def
          intro!: registry_submit_effect key_event_of_typed dest!: sl state)
  qed
qed

type_synonym registry_system = "key_registry \<times> fsys"

definition registry_initial :: "registry_system \<Rightarrow> bool" where
  "registry_initial s \<longleftrightarrow> (\<exists>p fs0. registry_create p fs0 = (Inr (fst s), snd s))"

inductive registry_step :: "signature_check \<Rightarrow> registry_system \<Rightarrow> registry_system \<Rightarrow> bool" for b where
  registry_handles:
    "request_typed q \<Longrightarrow> registry_handle b q r fs = (res, r', fs') \<Longrightarrow>
     (\<And>bs. fget fs' (kr_path r) = Some bs \<Longrightarrow> length bs < usize_limit) \<Longrightarrow>
     registry_step b (r, fs) (r', fs')"
| registry_reopens:
    "registry_open_strict b (kr_path r) fs = (Inr r', fs') \<Longrightarrow> registry_step b (r, fs) (r', fs')"

definition registry_inv :: "signature_check \<Rightarrow> registry_system \<Rightarrow> bool" where
  "registry_inv b s \<longleftrightarrow> (\<exists>bs. fget (snd s) (kr_path (fst s)) = Some bs \<and>
     registry_file.in_sync b (registry_empty (kr_path (fst s))) (fst s) bs)"

lemma registry_empty_simps [simp]:
  "kr_path (registry_empty p) = p" "kr_events (registry_empty p) = []" "kr_states (registry_empty p) = []"
  "kr_head_digest (registry_empty p) = zero_digest" "kr_used_nonces (registry_empty p) = []"
  "kr_last_timestamp (registry_empty p) = 0"
  by (simp_all add: registry_empty_def zero_digest_def)

lemma registry_record_simps [simp]:
  "kr_path (registry_record r states e) = kr_path r" "kr_events (registry_record r states e) = kr_events r @ [e]"
  "kr_states (registry_record r states e) = states"
  "kr_states_by_head (registry_record r states e) = bt_insert (ke_frame_digest e) states (kr_states_by_head r)"
  "kr_head_digest (registry_record r states e) = ke_frame_digest e"
  "kr_last_timestamp (registry_record r states e) = ke_logical_timestamp e"
  "kr_used_nonces (registry_record r states e) = bset_insert (ke_key_id e, ke_nonce e) (kr_used_nonces r)"
  by (simp_all add: registry_record_def)

lemma registry_push_path [simp]: "kr_path (registry_push r ev) = kr_path r"
  by (simp add: registry_push_def split: sum.splits)

lemma synced_states_typed: "registry_file.in_sync b (registry_empty p) r bs \<Longrightarrow> states_typed (kr_states r)"
proof (induction rule: registry_file.in_sync_induct)
  case empty
  then show ?case by (simp add: states_typed_def)
next
  case (push r bs ev)
  obtain states where "apply_key_event (kr_states r) (fst ev) = Inr states"
    "registry_push r ev = registry_record r states (fst ev)" by (rule registry_push_admitted [OF push(2)])
  with push states_typed_apply show ?case by (auto simp: registry_admits_def)
qed

lemma registry_open_synced:
  "fget fs p = Some bs \<Longrightarrow> registry_file.in_sync b (registry_empty p) r bs \<Longrightarrow> registry_open_strict b p fs = (Inr r, fs)"
  using registry_file.in_sync_replay [of b "registry_empty p" r bs]
  by (simp add: registry_open_strict_def io_query_def fs_read_def io_pure_def)

lemma asym_create_file:
  assumes "asym_create_empty_file w p fs = (Inr u, fs')"
  shows "fget fs' p = Some []"
  using assms by (auto simp: asym_create_empty_file_def io_bind_eq_Inr_iff create_new_def split: if_splits)

interpretation registry_run: invariant_system registry_initial "registry_step b" "registry_inv b" for b
proof unfold_locales
  show "registry_initial s \<Longrightarrow> registry_inv b s" for s
    by (auto simp: registry_initial_def registry_create_def io_bind_eq_Inr_iff io_ret_def registry_inv_def
        registry_file.in_sync_empty dest!: asym_create_file sym [of "registry_empty _"]
        intro: exI [of _ "[]"])
  show "registry_step b s s' \<Longrightarrow> registry_inv b s \<Longrightarrow> registry_inv b s'" for s s'
  proof (induction rule: registry_step.induct)
    case (registry_handles q r fs res r' fs')
    from registry_handles.prems obtain bs where bs: "fget fs (kr_path r) = Some bs"
      and sy: "registry_file.in_sync b (registry_empty (kr_path r)) r bs" by (auto simp: registry_inv_def)
    note eff = registry_handle_effect [OF registry_handles(2,1) synced_states_typed [OF sy]]
    have "kr_path r' = kr_path r" using eff by (auto simp: append_effect_def)
    with registry_file.in_sync_effect [OF eff bs sy] registry_handles(3) show ?case by (auto simp: registry_inv_def)
  next
    case (registry_reopens r fs r' fs')
    then obtain bs where bs: "fget fs (kr_path r) = Some bs"
      and sy: "registry_file.in_sync b (registry_empty (kr_path r)) r bs" by (auto simp: registry_inv_def)
    with registry_open_synced [OF bs sy] registry_reopens show ?case by simp
  qed
qed

lemma reachable_registry:
  assumes "reachable registry_initial (registry_step b) (r, fs)"
  obtains bs where "fget fs (kr_path r) = Some bs" and "registry_file.in_sync b (registry_empty (kr_path r)) r bs"
  using registry_run.reachable_inv [OF assms] by (auto simp: registry_inv_def)

text \<open>
  The key registry reopens exactly: in every state reachable from the creation of a registry
  by requests to enrol, rotate and revoke keys, with any providers, and by reopening it, a strict
  open of its file succeeds and gives back exactly the registry in memory.
\<close>

theorem registry_reopens_exactly:
  assumes "reachable registry_initial (registry_step b) (r, fs)"
  shows "registry_open_strict b (kr_path r) fs = (Inr r, fs)"
  by (rule reachable_registry [OF assms]) (rule registry_open_synced)

subsection \<open>Custody of a key\<close>

definition last_key_event :: "key_event list \<Rightarrow> str \<Rightarrow> key_event option" where
  "last_key_event es k = List.find (\<lambda>e. ke_key_id e = k) (rev es)"

text \<open>The key with this blob signed the subject of the event.\<close>

definition signed_by :: "signature_check \<Rightarrow> bytes \<Rightarrow> key_event \<Rightarrow> bytes \<Rightarrow> bool" where
  "signed_by b blob e sig \<longleftrightarrow> (\<exists>s. event_subject e = Inr s \<and> verify_digest b blob s sig = Inr True)"

text \<open>
  The first event of a key enrols it; every later one is signed by the key that the event before
  it left, which is not revoked. A rotation is also signed by the new key.
\<close>

fun custody_step :: "signature_check \<Rightarrow> key_event option \<Rightarrow> key_event \<Rightarrow> bool" where
  "custody_step b None e \<longleftrightarrow> ke_kind e = Key_Enroll \<and> ke_generation e = 1 \<and>
     signed_by b (ke_public_blob e) e (ke_signature_new e)"
| "custody_step b (Some p) e \<longleftrightarrow> ke_kind p \<noteq> Key_Revoke \<and> ke_role_mask e = ke_role_mask p \<and>
     signed_by b (ke_public_blob p) e (ke_signature_old e) \<and>
     (case ke_kind e of
        Key_Enroll \<Rightarrow> False
      | Key_Rotate \<Rightarrow> ke_generation e = ke_generation p + 1 \<and> sha256 (ke_public_blob e) \<noteq> sha256 (ke_public_blob p) \<and>
          signed_by b (ke_public_blob e) e (ke_signature_new e)
      | Key_Revoke \<Rightarrow> ke_generation e = ke_generation p \<and> ke_public_blob e = ke_public_blob p)"

definition custody :: "signature_check \<Rightarrow> key_event list \<Rightarrow> bool" where
  "custody b es \<longleftrightarrow> (\<forall>i < length es. custody_step b (last_key_event (take i es) (ke_key_id (es ! i))) (es ! i))"

text \<open>The state of a key is what its last event left.\<close>

definition state_matches :: "key_state \<Rightarrow> key_event \<Rightarrow> bool" where
  "state_matches s e \<longleftrightarrow> ks_key_id s = ke_key_id e \<and> ks_public_blob s = ke_public_blob e \<and>
     ks_public_key_digest s = sha256 (ke_public_blob e) \<and> ks_role_mask s = ke_role_mask e \<and>
     ks_generation s = ke_generation e \<and> ks_provider_key_name s = ke_provider_key_name e \<and>
     (ks_active s \<longleftrightarrow> ke_kind e \<noteq> Key_Revoke) \<and> ks_last_event_sequence s = ke_sequence e"

definition states_match :: "key_event list \<Rightarrow> (str, key_state) btree \<Rightarrow> bool" where
  "states_match es m \<longleftrightarrow> (\<forall>k. case last_key_event es k of
     None \<Rightarrow> bt_get m k = None | Some e \<Rightarrow> \<exists>s. bt_get m k = Some s \<and> state_matches s e)"

lemma last_key_event_snoc:
  "last_key_event (es @ [e]) k = (if ke_key_id e = k then Some e else last_key_event es k)"
  by (simp add: last_key_event_def)

lemma last_key_event_key: "last_key_event es k = Some e \<Longrightarrow> ke_key_id e = k \<and> e \<in> set es"
  by (auto simp: last_key_event_def find_Some_iff rev_nth)

lemma states_match_get:
  "states_match es m \<Longrightarrow> bt_get m k = Some s \<Longrightarrow> \<exists>e. last_key_event es k = Some e \<and> state_matches s e"
  unfolding states_match_def by (drule spec [of _ k]) (auto split: option.splits)

lemma custody_snoc: "custody b (es @ [e]) \<longleftrightarrow> custody b es \<and> custody_step b (last_key_event es (ke_key_id e)) e"
  by (auto simp: custody_def nth_append less_Suc_eq)

lemma custody_step_validated:
  assumes "validate_key_event b m e = Inr u" and "states_match es m"
  shows "custody_step b (last_key_event es (ke_key_id e)) e"
proof -
  note k = validate_key_event_kinds [OF assms(1)] and s = validate_key_event_basics(6,7) [OF assms(1)]
  have m: "case last_key_event es (ke_key_id e) of None \<Rightarrow> bt_get m (ke_key_id e) = None
      | Some p \<Rightarrow> \<exists>s. bt_get m (ke_key_id e) = Some s \<and> state_matches s p"
    using assms(2) by (simp add: states_match_def)
  show ?thesis
    using m k s by (cases "ke_kind e"; cases "last_key_event es (ke_key_id e)") (auto simp: signed_by_def state_matches_def)
qed

lemma states_match_apply:
  assumes v: "validate_key_event b m e = Inr u" and m: "states_match es m" and a: "apply_key_event m e = Inr m'"
  shows "states_match (es @ [e]) m'"
proof -
  note s = validate_key_event_basics(6) [OF v]
  have "\<exists>s. m' = bt_insert (ke_key_id e) s m \<and> state_matches s e"
  proof (cases "ke_kind e")
    case Key_Revoke
    from v Key_Revoke obtain s where "bt_get m (ke_key_id e) = Some s" "ke_role_mask e = ks_role_mask s"
      "ke_generation e = ks_generation s" "ke_provider_key_name e = ks_provider_key_name s"
      "ke_public_key_digest e = ks_public_key_digest s" "ke_public_blob e = ks_public_blob s"
      unfolding validate_key_event_def rbind_eq_Inr_iff guard_eq_Inr_iff
      by (auto simp: rbind_eq_Inr_iff guard_eq_Inr_iff)
    moreover have "ks_key_id s = ke_key_id e" if "bt_get m (ke_key_id e) = Some s" for s
      using states_match_get [OF m that] last_key_event_key by (auto simp: state_matches_def)
    ultimately show ?thesis
      using a Key_Revoke \<open>ke_public_key_digest e = sha256 (ke_public_blob e)\<close>
      by (auto simp: apply_key_event_def state_matches_def)
  qed (use a s in \<open>auto simp: apply_key_event_def state_matches_def\<close>)
  then obtain s where s: "m' = bt_insert (ke_key_id e) s m" "state_matches s e" by blast
  show ?thesis unfolding states_match_def
  proof
    fix k
    from m have "case last_key_event es k of None \<Rightarrow> bt_get m k = None | Some e \<Rightarrow> \<exists>s. bt_get m k = Some s \<and> state_matches s e"
      by (simp add: states_match_def)
    with s show "case last_key_event (es @ [e]) k of None \<Rightarrow> bt_get m' k = None
        | Some e \<Rightarrow> \<exists>s. bt_get m' k = Some s \<and> state_matches s e"
      by (simp add: last_key_event_snoc bt_get_insert split: option.splits)
  qed
qed

text \<open>Timestamps increase and a key uses a nonce once.\<close>

definition registry_orders :: "key_registry \<Rightarrow> bool" where
  "registry_orders r \<longleftrightarrow> sorted_wrt (<) (map ke_logical_timestamp (kr_events r)) \<and>
     (\<forall>e \<in> set (kr_events r). ke_logical_timestamp e \<le> kr_last_timestamp r) \<and>
     distinct (map (\<lambda>e. (ke_key_id e, ke_nonce e)) (kr_events r)) \<and>
     set (kr_used_nonces r) = (\<lambda>e. (ke_key_id e, ke_nonce e)) ` set (kr_events r)"

lemma registry_orders_record:
  "registry_orders r \<Longrightarrow> kr_last_timestamp r < ke_logical_timestamp e \<Longrightarrow> (ke_key_id e, ke_nonce e) \<notin> set (kr_used_nonces r) \<Longrightarrow>
   registry_orders (registry_record r states e)"
  by (fastforce simp: registry_orders_def sorted_wrt_append)

lemma synced_custody:
  "registry_file.in_sync b (registry_empty p) r bs \<Longrightarrow>
   custody b (kr_events r) \<and> states_match (kr_events r) (kr_states r) \<and> registry_orders r"
proof (induction rule: registry_file.in_sync_induct)
  case empty
  then show ?case by (simp add: custody_def states_match_def last_key_event_def registry_orders_def)
next
  case (push r bs ev)
  obtain states where a: "apply_key_event (kr_states r) (fst ev) = Inr states"
    "registry_push r ev = registry_record r states (fst ev)" by (rule registry_push_admitted [OF push(2)])
  have v: "validate_key_event b (kr_states r) (fst ev) = Inr ()" "kr_last_timestamp r < ke_logical_timestamp (fst ev)"
    "(ke_key_id (fst ev), ke_nonce (fst ev)) \<notin> set (kr_used_nonces r)" using push(2) by (simp_all add: registry_admits_def)
  with a push.IH custody_step_validated [OF v(1)] states_match_apply [OF v(1) _ a(1)] registry_orders_record
  show ?case by (simp add: custody_snoc)
qed

text \<open>
  C9. Custody of keys. In every reachable registry the events of a key start with an enrolment
  that the key itself signed; each later event is signed by the key that the previous event of
  this key left, never after a revocation, and keeps the roles; a rotation increases the
  generation by one, changes the key and is signed by the new key too; a revocation keeps the
  key. The state of each key is the one its last event left, timestamps increase strictly, and
  no key uses a nonce twice.
\<close>

theorem registry_custody:
  assumes "reachable registry_initial (registry_step b) (r, fs)"
  shows "custody b (kr_events r) \<and> states_match (kr_events r) (kr_states r) \<and>
     sorted_wrt (<) (map ke_logical_timestamp (kr_events r)) \<and>
     distinct (map (\<lambda>e. (ke_key_id e, ke_nonce e)) (kr_events r))"
proof -
  obtain bs where "registry_file.in_sync b (registry_empty (kr_path r)) r bs" by (rule reachable_registry [OF assms])
  from synced_custody [OF this] show ?thesis by (simp add: registry_orders_def)
qed

subsection \<open>States at earlier heads\<close>

text \<open>
  \<open>states_by_head\<close> is indexed by the digests of the frames. Two frames with one digest would be a
  collision of SHA-256 on two different inputs, since the sequence numbers differ.
\<close>

definition heads_distinct :: "key_registry \<Rightarrow> bool" where
  "heads_distinct r \<longleftrightarrow> distinct (zero_digest # map ke_frame_digest (kr_events r))"

definition heads_kept :: "key_registry \<Rightarrow> bool" where
  "heads_kept r \<longleftrightarrow> bt_get (kr_states_by_head r) zero_digest = Some [] \<and>
     (\<forall>n < length (kr_events r). \<exists>m. bt_get (kr_states_by_head r) (ke_frame_digest (kr_events r ! n)) = Some m \<and>
        states_match (take (Suc n) (kr_events r)) m) \<and>
     (\<forall>h m. bt_get (kr_states_by_head r) h = Some m \<longrightarrow>
        h = zero_digest \<or> (\<exists>n < length (kr_events r). h = ke_frame_digest (kr_events r ! n)))"

lemma synced_heads:
  "registry_file.in_sync b (registry_empty p) r bs \<Longrightarrow> heads_distinct r \<longrightarrow> heads_kept r"
proof (induction rule: registry_file.in_sync_induct)
  case empty
  then show ?case by (simp add: heads_kept_def registry_empty_def bt_get_insert zero_digest_def)
next
  case (push r bs ev)
  obtain states where a: "apply_key_event (kr_states r) (fst ev) = Inr states"
    and r': "registry_push r ev = registry_record r states (fst ev)" by (rule registry_push_admitted [OF push(2)])
  have "validate_key_event b (kr_states r) (fst ev) = Inr ()" using push(2) by (simp add: registry_admits_def)
  from states_match_apply [OF this _ a] synced_custody [OF push(1)]
  have new: "states_match (kr_events r @ [fst ev]) states" by blast
  show ?case
  proof
    assume d: "heads_distinct (registry_push r ev)"
    then have "heads_distinct r" by (simp add: r' heads_distinct_def)
    with push.IH have k: "heads_kept r" by blast
    have fresh: "ke_frame_digest (fst ev) \<notin> ke_frame_digest ` set (kr_events r)"
      and ne: "ke_frame_digest (fst ev) \<noteq> zero_digest" using d by (auto simp: r' heads_distinct_def)
    have nd: "n < length (kr_events r) \<Longrightarrow> ke_frame_digest (kr_events r ! n) \<noteq> ke_frame_digest (fst ev)" for n
      using fresh imageI [OF nth_mem] by metis
    show "heads_kept (registry_push r ev)"
      unfolding heads_kept_def
    proof (intro conjI allI impI)
      show "bt_get (kr_states_by_head (registry_push r ev)) zero_digest = Some []"
        using k ne by (simp add: r' bt_get_insert heads_kept_def)
    next
      fix n assume "n < length (kr_events (registry_push r ev))"
      then consider "n < length (kr_events r)" | "n = length (kr_events r)" by (auto simp: r' less_Suc_eq)
      then show "\<exists>m. bt_get (kr_states_by_head (registry_push r ev)) (ke_frame_digest (kr_events (registry_push r ev) ! n)) = Some m \<and>
          states_match (take (Suc n) (kr_events (registry_push r ev))) m"
        using k nd new by cases (auto simp: r' bt_get_insert heads_kept_def nth_append)
    next
      fix h m assume "bt_get (kr_states_by_head (registry_push r ev)) h = Some m"
      then show "h = zero_digest \<or> (\<exists>n < length (kr_events (registry_push r ev)). h = ke_frame_digest (kr_events (registry_push r ev) ! n))"
        using k by (auto simp: r' bt_get_insert heads_kept_def nth_append less_Suc_eq split: if_splits)
    qed
  qed
qed

text \<open>
  C19. Historic key states. In every reachable registry whose frame digests are distinct, the
  lookup of a key at the head left by an event gives the state of that key after exactly the
  events up to that one, whatever has been recorded since. Verification of an authorisation
  against the head it names does not depend on later rotations and revocations.
\<close>

theorem state_at_head_historic:
  assumes "reachable registry_initial (registry_step b) (r, fs)" and "heads_distinct r" and "n < length (kr_events r)"
  shows "case last_key_event (take (Suc n) (kr_events r)) k of
     None \<Rightarrow> state_at_head r (ke_frame_digest (kr_events r ! n)) k = None
   | Some e \<Rightarrow> \<exists>s. state_at_head r (ke_frame_digest (kr_events r ! n)) k = Some s \<and> state_matches s e"
proof -
  obtain bs where "registry_file.in_sync b (registry_empty (kr_path r)) r bs" by (rule reachable_registry [OF assms(1)])
  with synced_heads assms(2) have "heads_kept r" by blast
  then obtain m where m: "bt_get (kr_states_by_head r) (ke_frame_digest (kr_events r ! n)) = Some m"
    "states_match (take (Suc n) (kr_events r)) m" using assms(3) by (auto simp: heads_kept_def)
  have e: "state_at_head r (ke_frame_digest (kr_events r ! n)) k = bt_get m k" using m(1) by (simp add: state_at_head_def)
  show ?thesis unfolding e by (rule spec [OF m(2) [unfolded states_match_def], of k])
qed

subsection \<open>Growth\<close>

lemma registry_push_extends:
  assumes "heads_kept r" and "ke_frame_digest (fst ev) \<noteq> zero_digest"
    and "ke_frame_digest (fst ev) \<notin> ke_frame_digest ` set (kr_events r)"
  shows "registry_extends r (registry_push r ev)"
proof (cases "apply_key_event (kr_states r) (fst ev)")
  case (Inr states)
  have "h \<noteq> ke_frame_digest (fst ev)" if "bt_get (kr_states_by_head r) h = Some m" for h m
    using that assms by (metis heads_kept_def imageI nth_mem)
  with Inr show ?thesis by (auto simp: registry_extends_def registry_push_def bt_get_insert)
qed (simp add: registry_extends_def registry_push_def)

lemma registry_push_grows:
  assumes "registry_file.in_sync b (registry_empty p) r bs" and "registry_admits b r ev"
    and d: "heads_distinct (registry_push r ev)"
  shows "heads_distinct r" and "registry_extends r (registry_push r ev)"
proof -
  obtain states where r': "registry_push r ev = registry_record r states (fst ev)"
    by (rule registry_push_admitted [OF assms(2)])
  show "heads_distinct r" using d by (simp add: r' heads_distinct_def)
  with synced_heads [OF assms(1)] have "heads_kept r" by blast
  then show "registry_extends r (registry_push r ev)"
    using d by (intro registry_push_extends) (auto simp: r' heads_distinct_def)
qed

text \<open>Every digest of a frame is a SHA-256 of an input that contains the position of the frame.\<close>

lemma synced_digests:
  assumes "registry_file.in_sync b (registry_empty p) r bs" and "i < length (kr_events r)"
  shows "\<exists>rest. ke_frame_digest (kr_events r ! i) = sha256 (REGISTRY_FRAME_DOMAIN @ u64_le (of_nat i + 1) @ rest)"
  using assms
proof (induction arbitrary: i rule: registry_file.in_sync_induct)
  case (push r bs ev)
  obtain states where r': "registry_push r ev = registry_record r states (fst ev)"
    by (rule registry_push_admitted [OF push(2)])
  have "ke_frame_digest (fst ev) = sha256 (REGISTRY_FRAME_DOMAIN @ u64_le (of_nat (length (kr_events r)) + 1)
      @ kr_head_digest r @ sha256 (key_payload (snd ev) (fst ev)))"
    using push(2) by (simp add: registry_admits_def frame_follows_def key_frame_def compute_frame_digest_def)
  with push.IH push.prems show ?case by (auto simp: r' nth_append less_Suc_eq)
qed simp

lemma heads_clash_collision:
  assumes sync: "registry_file.in_sync b (registry_empty p) r bs" and "\<not> heads_distinct r"
    and "length (kr_events r) < usize_limit"
  obtains e where "e \<in> set (kr_events r)" and "ke_frame_digest e = zero_digest"
  | i j x y where "i < j" and "j < length (kr_events r)" and "x \<noteq> y" and "sha256 x = sha256 y"
    and "ke_frame_digest (kr_events r ! i) = sha256 x" and "ke_frame_digest (kr_events r ! j) = sha256 y"
proof -
  from assms(2) consider "\<exists>e \<in> set (kr_events r). ke_frame_digest e = zero_digest"
    | "\<not> distinct (map ke_frame_digest (kr_events r))" by (fastforce simp: heads_distinct_def)
  then show thesis
  proof cases
    case 2
    then obtain i j where ij: "i < j" "j < length (kr_events r)"
      "ke_frame_digest (kr_events r ! i) = ke_frame_digest (kr_events r ! j)"
      by (auto simp: distinct_conv_nth) (metis nat_neq_iff)
    obtain x where x: "ke_frame_digest (kr_events r ! i) = sha256 (REGISTRY_FRAME_DOMAIN @ u64_le (of_nat i + 1) @ x)"
      using synced_digests [OF sync, of i] ij by auto
    obtain y where y: "ke_frame_digest (kr_events r ! j) = sha256 (REGISTRY_FRAME_DOMAIN @ u64_le (of_nat j + 1) @ y)"
      using synced_digests [OF sync, of j] ij by auto
    have "unat (of_nat i :: u64) \<noteq> unat (of_nat j :: u64)" using ij assms(3) by (simp add: usize_limit_def unat_of_nat)
    then have "(of_nat i :: u64) \<noteq> of_nat j" by metis
    then show thesis using that(2) [OF ij(1,2) _ _ x y] ij(3) x y by simp
  qed (use that(1) in blast)
qed

end
