(* ===== verification/Ub_Authorizations.thy ===== *)
theory Ub_Authorizations
  imports Ub_Registry_Runs
begin

text \<open>
  The authorisation ledger (\<open>ultraballoondb-trust-asymmetric/src/ledger.rs\<close>): signed
  authorisations, each bound to a head of the key registry, in a file of chained frames that is
  verified again when it is opened.
\<close>

subsection \<open>Encoding\<close>

definition AUTH_LEDGER_MAGIC :: bytes where "AUTH_LEDGER_MAGIC = lit ''UBASI01'' @ [0]"
definition LEDGER_PAYLOAD_MAGIC :: bytes where "LEDGER_PAYLOAD_MAGIC = lit ''UBASP01'' @ [0]"
definition LEDGER_FRAME_DOMAIN :: bytes where "LEDGER_FRAME_DOMAIN = lit ''UBASIFR1''"
definition AUTH_FIXED_BYTES :: nat where "AUTH_FIXED_BYTES = 280"
definition AUTH_MAX_PAYLOAD :: nat where "AUTH_MAX_PAYLOAD = 4 * 1024 * 1024"

record authorization_receipt =
  ac_changed :: bool
  ac_sequence :: u64
  ac_key_id :: str
  ac_authorization_digest :: bytes
  ac_event_id :: bytes
  ac_frame_digest :: bytes

definition authorizations_empty :: "path \<Rightarrow> authorization_ledger" where
  "authorizations_empty p = \<lparr>al_path = p, al_events = [], al_used_nonces = [], al_head_digest = replicate 32 0,
     al_last_timestamp = 0\<rparr>"

definition auth_payload :: "authorization \<Rightarrow> bytes" where
  "auth_payload e = LEDGER_PAYLOAD_MAGIC @ [au_domain_code e, 1] @ u16_le (au_required_role_mask e) @ u32_le 0
     @ u64_le (au_logical_timestamp e) @ u32_le (of_nat (length (au_key_id e))) @ u32_le (of_nat (length (au_nonce e)))
     @ u64_le 0 @ au_subject_digest e @ au_key_registry_head e @ au_public_key_digest e @ au_authorization_digest e
     @ au_event_id e @ au_signature e @ replicate 16 0 @ au_key_id e @ au_nonce e"

definition decode_auth_payload :: "bytes \<Rightarrow> asym_error + authorization" where
  "decode_auth_payload payload =
     (if length payload < AUTH_FIXED_BYTES \<or> slice payload 0 8 \<noteq> LEDGER_PAYLOAD_MAGIC
      then Inl (Asym_Invalid (lit ''authorization payload header mismatch''))
      else if payload ! 9 \<noteq> 1
      then Inl (Asym_Invalid (lit ''authorization payload reserved/algorithm mismatch''))
      else
        rbind (asym_read_u32 payload 12) (\<lambda>reserved.
        if reserved \<noteq> 0 then Inl (Asym_Invalid (lit ''authorization payload reserved/algorithm mismatch''))
        else
          rbind (asym_read_u64 payload 32) (\<lambda>reserved.
          if reserved \<noteq> 0 \<or> slice payload 264 280 \<noteq> replicate 16 0
          then Inl (Asym_Invalid (lit ''authorization payload reserved/algorithm mismatch''))
          else
            rbind (asym_read_u16 payload 10) (\<lambda>role_mask.
            rbind (asym_read_u64 payload 16) (\<lambda>timestamp.
            rbind (asym_read_u32 payload 24) (\<lambda>key_len.
            rbind (asym_read_u32 payload 28) (\<lambda>nonce_len.
            rbind (asym_read_digest payload 40) (\<lambda>subject_digest.
            rbind (asym_read_digest payload 72) (\<lambda>key_registry_head.
            rbind (asym_read_digest payload 104) (\<lambda>public_key_digest.
            rbind (asym_read_digest payload 136) (\<lambda>authorization_digest.
            rbind (asym_read_digest payload 168) (\<lambda>event_id.
            rbind (asym_read_signature payload 200) (\<lambda>sig.
            rbind (asym_read_string (lit ''authorization'') payload AUTH_FIXED_BYTES (unat key_len) (lit ''key_id''))
              (\<lambda>(key_id, cursor).
            rbind (asym_read_string (lit ''authorization'') payload cursor (unat nonce_len) (lit ''nonce''))
              (\<lambda>(nonce, cursor).
            if cursor \<noteq> length payload then Inl (Asym_Invalid (lit ''authorization payload trailing bytes''))
            else Inr \<lparr>au_sequence = 0, au_domain_code = payload ! 8, au_required_role_mask = role_mask,
              au_logical_timestamp = timestamp, au_key_id = key_id, au_nonce = nonce,
              au_subject_digest = subject_digest, au_key_registry_head = key_registry_head,
              au_public_key_digest = public_key_digest, au_authorization_digest = authorization_digest,
              au_event_id = event_id, au_signature = sig, au_previous_digest = replicate 32 0,
              au_frame_digest = replicate 32 0\<rparr>)))))))))))))))"

definition encode_auth_frame :: "u64 \<Rightarrow> bytes \<Rightarrow> bytes \<Rightarrow> bytes \<Rightarrow> bytes \<Rightarrow> asym_error + bytes" where
  "encode_auth_frame = encode_chain_frame (Asym_Invalid (lit ''authorization payload too large'')) AUTH_MAX_PAYLOAD
     AUTH_LEDGER_MAGIC"

definition auth_reader :: "asym_error chain_reader" where
  "auth_reader = asym_reader (lit ''authorization'') (lit ''asymmetric authorization ledger'') AUTH_LEDGER_MAGIC
     LEDGER_FRAME_DOMAIN AUTH_MAX_PAYLOAD"

subsection \<open>Append and replay\<close>

definition auth_record :: "authorization_ledger \<Rightarrow> authorization \<Rightarrow> authorization_ledger" where
  "auth_record l e = l\<lparr>al_used_nonces := bset_insert (au_key_id e, au_nonce e) (al_used_nonces l),
     al_last_timestamp := au_logical_timestamp e, al_head_digest := au_frame_digest e, al_events := al_events l @ [e]\<rparr>"

definition auth_append ::
  "signature_check \<Rightarrow> key_registry \<Rightarrow> authorization \<Rightarrow> authorization_ledger \<Rightarrow> fsys \<Rightarrow>
   (asym_error + authorization) \<times> authorization_ledger \<times> fsys" where
  "auth_append bcrypt registry event l fs =
     (if au_logical_timestamp event \<le> al_last_timestamp l
      then (Inl (Asym_Invalid (lit ''authorization timestamps must be strictly increasing'')), l, fs)
      else if (au_key_id event, au_nonce event) \<in> set (al_used_nonces l)
      then (Inl (Asym_Invalid (lit ''authorization nonce already used'')), l, fs)
      else
        let event = event\<lparr>au_sequence := of_nat (length (al_events l)) + 1, au_previous_digest := al_head_digest l\<rparr> in
        case verify_event bcrypt event registry of
          Inl e \<Rightarrow> (Inl e, l, fs)
        | Inr ok \<Rightarrow>
        if \<not> ok then (Inl (Asym_Integrity (lit ''authorization event verification failed'')), l, fs)
        else
          let payload = auth_payload event;
              payload_digest = sha256 payload;
              frame_digest = compute_frame_digest LEDGER_FRAME_DOMAIN (au_sequence event) (au_previous_digest event)
                payload_digest;
              event = event\<lparr>au_frame_digest := frame_digest\<rparr> in
          case encode_auth_frame (au_sequence event) (au_previous_digest event) payload_digest frame_digest payload of
            Inl e \<Rightarrow> (Inl e, l, fs)
          | Inr frame \<Rightarrow>
          case write_all (al_path l) frame fs of
            (Inl e, fs) \<Rightarrow> (Inl (Asym_Io e), l, fs)
          | (Inr _, fs) \<Rightarrow> (Inr event, auth_record l event, fs))"

definition auth_replay_frame ::
  "signature_check \<Rightarrow> key_registry \<Rightarrow> authorization_ledger \<Rightarrow> chain_frame \<Rightarrow> asym_error + authorization_ledger" where
  "auth_replay_frame bcrypt registry l frame =
     rbind (decode_auth_payload (cf_payload frame)) (\<lambda>event.
     let event = event\<lparr>au_sequence := cf_sequence frame, au_previous_digest := cf_previous frame,
                   au_frame_digest := cf_digest frame\<rparr> in
     if au_logical_timestamp event \<le> al_last_timestamp l
     then Inl (Asym_Invalid (lit ''authorization timestamp order mismatch''))
     else if (au_key_id event, au_nonce event) \<in> set (al_used_nonces l)
     then Inl (Asym_Invalid (lit ''authorization duplicate nonce''))
     else
       rbind (verify_event bcrypt event registry) (\<lambda>ok.
       if \<not> ok then Inl (Asym_Integrity (lit ''authorization replay signature failed''))
       else Inr (auth_record l event)))"

definition authorizations_create :: "path \<Rightarrow> (asym_error, authorization_ledger) io" where
  "authorizations_create path =
     io_bind (asym_create_empty_file (lit ''authorization ledger'') path) (\<lambda>_. io_ret (authorizations_empty path))"

definition authorizations_open_strict ::
  "signature_check \<Rightarrow> path \<Rightarrow> key_registry \<Rightarrow> (asym_error, authorization_ledger) io" where
  "authorizations_open_strict bcrypt path registry fs =
     (if fget fs path = None
      then (Inl (Asym_Invalid (lit ''asymmetric authorization ledger missing: '' @ path_display path)), fs)
      else
        io_bind (io_query (\<lambda>fs. map_err Asym_Io (fs_read path fs))) (\<lambda>bytes.
        io_pure (chain_replay auth_reader (auth_replay_frame bcrypt registry) (authorizations_empty path) bytes)) fs)"

subsection \<open>Operations\<close>

definition auth_submit ::
  "signature_check \<Rightarrow> key_registry \<Rightarrow> asym_error + authorization \<Rightarrow> authorization_ledger \<Rightarrow> fsys \<Rightarrow>
   (asym_error + authorization_receipt) \<times> authorization_ledger \<times> fsys" where
  "auth_submit bcrypt registry built l fs =
     (case built of
        Inl e \<Rightarrow> (Inl e, l, fs)
      | Inr event \<Rightarrow>
        (case auth_append bcrypt registry event l fs of
           (Inl e, l, fs) \<Rightarrow> (Inl e, l, fs)
         | (Inr a, l, fs) \<Rightarrow>
             (Inr \<lparr>ac_changed = True, ac_sequence = au_sequence a, ac_key_id = au_key_id a,
                ac_authorization_digest = au_authorization_digest a, ac_event_id = au_event_id a,
                ac_frame_digest = au_frame_digest a\<rparr>, l, fs)))"

definition authorization_of ::
  "u8 \<Rightarrow> u16 \<Rightarrow> u64 \<Rightarrow> str \<Rightarrow> str \<Rightarrow> bytes \<Rightarrow> bytes \<Rightarrow> bytes \<Rightarrow> bytes \<Rightarrow> bytes \<Rightarrow> authorization" where
  "authorization_of domain_code role_mask timestamp key_id nonce subject head public_key digest sig =
     \<lparr>au_sequence = 0, au_domain_code = domain_code, au_required_role_mask = role_mask,
      au_logical_timestamp = timestamp, au_key_id = key_id, au_nonce = nonce, au_subject_digest = subject,
      au_key_registry_head = head, au_public_key_digest = public_key, au_authorization_digest = digest,
      au_event_id = authorization_event_id digest sig, au_signature = sig,
      au_previous_digest = replicate 32 0, au_frame_digest = replicate 32 0\<rparr>"

definition authorize_with_provider where
  "authorize_with_provider bcrypt registry provider requirement domain_code role_mask subject key_id provider_key_name
     timestamp nonce =
     auth_submit bcrypt registry (
       rbind (validate_identifier (lit ''key_id'') key_id) (\<lambda>_.
       rbind (validate_identifier (lit ''provider_key_name'') provider_key_name) (\<lambda>_.
       rbind (validate_identifier (lit ''nonce'') nonce) (\<lambda>_.
       if domain_code = 0 \<or> role_mask = 0 \<or> subject = replicate 32 0 \<or> timestamp = 0
       then Inl (Asym_Invalid (lit ''invalid asymmetric authorization fields''))
       else
         rbind (enforce_provider_requirement provider requirement) (\<lambda>capabilities.
         rbind (ok_or (key_not_found key_id) (bt_get (kr_states registry) key_id)) (\<lambda>state.
         if \<not> has_role state role_mask \<or> ks_provider_name state \<noteq> pc_provider_name capabilities
            \<or> ks_provider_key_name state \<noteq> provider_key_name
         then Inl (Asym_Invalid (lit ''provider or role does not match active registry state''))
         else
           rbind (sp_export_public provider provider_key_name) (\<lambda>live.
           if sha256 live \<noteq> ks_public_key_digest state \<or> live \<noteq> ks_public_blob state
           then Inl (Asym_Integrity (lit ''provider public key does not match registry''))
           else
             rbind (authorization_message_digest domain_code role_mask subject (kr_head_digest registry)
                      (ks_public_key_digest state) timestamp key_id nonce) (\<lambda>digest.
             rbind (sp_sign provider provider_key_name digest) (\<lambda>sig.
             rbind (sp_verify provider (ks_public_blob state) digest sig) (\<lambda>ok.
             if \<not> ok then Inl (Asym_Integrity (lit ''provider authorization signature failed''))
             else Inr (authorization_of domain_code role_mask timestamp key_id nonce subject (kr_head_digest registry)
                 (ks_public_key_digest state) digest sig)))))))))))"

definition authorize where
  "authorize os registry domain_code role_mask subject key_id provider_key_name timestamp nonce =
     auth_submit (cng_verify os) registry (
       rbind (validate_identifier (lit ''key_id'') key_id) (\<lambda>_.
       rbind (validate_identifier (lit ''provider_key_name'') provider_key_name) (\<lambda>_.
       rbind (validate_identifier (lit ''nonce'') nonce) (\<lambda>_.
       if domain_code = 0 \<or> role_mask = 0 \<or> subject = replicate 32 0 \<or> timestamp = 0
       then Inl (Asym_Invalid (lit ''invalid asymmetric authorization fields''))
       else
         rbind (ok_or (key_not_found key_id) (bt_get (kr_states registry) key_id)) (\<lambda>state.
         if \<not> has_role state role_mask
         then Inl (Asym_Invalid (lit ''asymmetric key lacks required active role''))
         else if ks_provider_key_name state \<noteq> provider_key_name
         then Inl (Asym_Invalid (lit ''provider key name does not match registry state''))
         else
           rbind (export_public_blob os (ks_provider_name state) provider_key_name) (\<lambda>live.
           if sha256 live \<noteq> ks_public_key_digest state \<or> live \<noteq> ks_public_blob state
           then Inl (Asym_Integrity (lit ''provider public key does not match registry''))
           else
             rbind (authorization_message_digest domain_code role_mask subject (kr_head_digest registry)
                      (ks_public_key_digest state) timestamp key_id nonce) (\<lambda>digest.
             rbind (cng_sign os (ks_provider_name state) provider_key_name digest) (\<lambda>sig.
             rbind (verify_digest (cng_verify os) (ks_public_blob state) digest sig) (\<lambda>ok.
             if \<not> ok then Inl (Asym_Integrity (lit ''asymmetric authorization signature failed''))
             else Inr (authorization_of domain_code role_mask timestamp key_id nonce subject (kr_head_digest registry)
                 (ks_public_key_digest state) digest sig))))))))))"

subsection \<open>The payload codec\<close>

text \<open>What the types of Rust and the limits of the decoder guarantee of an authorisation.\<close>

definition auth_fits :: "authorization \<Rightarrow> bool" where
  "auth_fits e \<longleftrightarrow> length (au_subject_digest e) = 32 \<and> length (au_key_registry_head e) = 32 \<and>
     length (au_public_key_digest e) = 32 \<and> length (au_authorization_digest e) = 32 \<and> length (au_event_id e) = 32 \<and>
     length (au_signature e) = 64 \<and> list_all (\<lambda>s. utf8_valid s \<and> length s \<le> 1024 * 1024) [au_key_id e, au_nonce e]"

definition auth_bare :: "authorization \<Rightarrow> authorization" where
  "auth_bare e = e\<lparr>au_sequence := 0, au_previous_digest := replicate 32 0, au_frame_digest := replicate 32 0\<rparr>"

lemma length_auth_magics [simp]: "length AUTH_LEDGER_MAGIC = 8" "length LEDGER_PAYLOAD_MAGIC = 8"
  by (simp_all add: AUTH_LEDGER_MAGIC_def LEDGER_PAYLOAD_MAGIC_def lit_def)

lemma length_auth_payload:
  "auth_fits e \<Longrightarrow> length (auth_payload e) = 280 + length (au_key_id e) + length (au_nonce e)"
  by (simp add: auth_payload_def auth_fits_def)

lemma auth_payload_fields:
  assumes "auth_fits e"
  defines "p \<equiv> auth_payload e"
  shows "slice p 0 8 = LEDGER_PAYLOAD_MAGIC" "p ! 8 = au_domain_code e" "p ! 9 = 1"
    "slice p 10 12 = u16_le (au_required_role_mask e)" "slice p 12 16 = u32_le 0"
    "slice p 16 24 = u64_le (au_logical_timestamp e)" "slice p 24 28 = u32_le (of_nat (length (au_key_id e)))"
    "slice p 28 32 = u32_le (of_nat (length (au_nonce e)))" "slice p 32 40 = u64_le 0"
    "slice p 40 72 = au_subject_digest e" "slice p 72 104 = au_key_registry_head e"
    "slice p 104 136 = au_public_key_digest e" "slice p 136 168 = au_authorization_digest e"
    "slice p 168 200 = au_event_id e" "slice p 200 264 = au_signature e" "slice p 264 280 = replicate 16 0"
    "drop 280 p = au_key_id e @ au_nonce e"
  using assms by (simp_all add: p_def auth_payload_def auth_fits_def slice_def nth_append)

lemma auth_decode_ok:
  assumes f: "auth_fits e"
  shows "decode_auth_payload (auth_payload e) = Inr (auth_bare e)"
proof -
  note fs = auth_payload_fields [OF f] and len = length_auth_payload [OF f]
  let ?p = "auth_payload e"
  have sm: "length (au_key_id e) \<le> 1024 * 1024" "length (au_nonce e) \<le> 1024 * 1024"
    and u8: "utf8_valid (au_key_id e)" "utf8_valid (au_nonce e)" using f by (simp_all add: auth_fits_def)
  have l: "length ?p < usize_limit" "280 \<le> length ?p" using len sm by (simp_all add: usize_limit_def)
  note r1 = asym_read_string_at [OF fs(17) u8(1) sm(1) l]
  have d: "drop (280 + length (au_key_id e)) ?p = au_nonce e @ []" using r1(2) by simp
  note r2 = asym_read_string_at [OF d u8(2) sm(2) l(1) r1(3)]
  have u: "unat (of_nat (length (au_key_id e)) :: u32) = length (au_key_id e)"
    "unat (of_nat (length (au_nonce e)) :: u32) = length (au_nonce e)" using sm by (simp_all add: unat_u32_small)
  have rd: "asym_read_u16 ?p 10 = Inr (au_required_role_mask e)" "asym_read_u32 ?p 12 = Inr 0"
    "asym_read_u64 ?p 16 = Inr (au_logical_timestamp e)" "asym_read_u32 ?p 24 = Inr (of_nat (length (au_key_id e)))"
    "asym_read_u32 ?p 28 = Inr (of_nat (length (au_nonce e)))" "asym_read_u64 ?p 32 = Inr 0"
    "asym_read_digest ?p 40 = Inr (au_subject_digest e)" "asym_read_digest ?p 72 = Inr (au_key_registry_head e)"
    "asym_read_digest ?p 104 = Inr (au_public_key_digest e)" "asym_read_digest ?p 136 = Inr (au_authorization_digest e)"
    "asym_read_digest ?p 168 = Inr (au_event_id e)" "asym_read_signature ?p 200 = Inr (au_signature e)"
    using l(2) by (simp_all add: asym_read_ok fs(1-16))
  show ?thesis
    unfolding decode_auth_payload_def AUTH_FIXED_BYTES_def
    using l(2) by (simp add: fs(1-3,16) rd r1(1) r2(1) u len auth_bare_def cong: rbind_weak_cong)
qed

lemma auth_decode_sound:
  assumes d: "decode_auth_payload p = Inr e"
  shows "p = auth_payload e" and "auth_fits e" and "auth_bare e = e"
proof -
  note v = d [unfolded decode_auth_payload_def AUTH_FIXED_BYTES_def guard_eq_Inr_iff rbind_eq_Inr_iff de_Morgan_disj
      not_less not_not]
  then have len: "280 \<le> length p" by simp
  from v obtain kl nl kid c1 nonce c2
    where m: "slice p 0 8 = LEDGER_PAYLOAD_MAGIC" and fx: "p ! 9 = 1" "slice p 264 280 = replicate 16 0"
      and ls: "asym_read_u32 p 12 = Inr 0" "asym_read_u32 p 24 = Inr kl" "asym_read_u32 p 28 = Inr nl" "asym_read_u64 p 32 = Inr 0"
      and s1: "asym_read_string (lit ''authorization'') p 280 (unat kl) (lit ''key_id'') = Inr (kid, c1)"
      and s2: "asym_read_string (lit ''authorization'') p c1 (unat nl) (lit ''nonce'') = Inr (nonce, c2)"
      and c2: "c2 = length p"
      and e: "e = \<lparr>au_sequence = 0, au_domain_code = p ! 8, au_required_role_mask = from_le (slice p 10 12),
          au_logical_timestamp = from_le (slice p 16 24), au_key_id = kid, au_nonce = nonce,
          au_subject_digest = slice p 40 72, au_key_registry_head = slice p 72 104,
          au_public_key_digest = slice p 104 136, au_authorization_digest = slice p 136 168,
          au_event_id = slice p 168 200, au_signature = slice p 200 264, au_previous_digest = replicate 32 0,
          au_frame_digest = replicate 32 0\<rparr>"
    by (auto simp: asym_read_ok rbind_eq_Inr_iff split: if_splits)
  note t1 = asym_read_string_sound [OF s1] and t2 = asym_read_string_sound [OF s2]
  have w: "slice p 12 16 = u32_le 0" "slice p 24 28 = u32_le kl" "slice p 28 32 = u32_le nl" "slice p 32 40 = u64_le 0"
    using ls len by (simp_all add: asym_read_ok from_le_eq_iff length_slice)
  have ln: "of_nat (length kid) = kl" "of_nat (length nonce) = nl" using t1(3) t2(3) by simp_all
  show "auth_bare e = e" by (simp add: e auth_bare_def)
  show "auth_fits e" using len t1(2-4) t2(2-4) by (simp add: e auth_fits_def length_slice)
  have "p = slice p 0 8 @ slice p 8 9 @ slice p 9 10 @ slice p 10 12 @ slice p 12 16 @ slice p 16 24 @ slice p 24 28
      @ slice p 28 32 @ slice p 32 40 @ slice p 40 72 @ slice p 72 104 @ slice p 104 136 @ slice p 136 168
      @ slice p 168 200 @ slice p 200 264 @ slice p 264 280 @ drop 280 p"
    using pieces_eq [of 0 "[8, 1, 1, 2, 4, 8, 4, 4, 8, 32, 32, 32, 32, 32, 64, 16]" p] by simp
  also have "\<dots> = auth_payload e"
    using len byte_slices [of 8 p] byte_slices [of 9 p]
    by (simp add: auth_payload_def e m w fx ln t1(1) t2(1) c2 length_slice uN_le_from_le)
  finally show "p = auth_payload e" .
qed

subsection \<open>The file of the authorisations\<close>

interpretation auth_frames: chained_frames auth_reader AUTH_LEDGER_MAGIC LEDGER_FRAME_DOMAIN AUTH_MAX_PAYLOAD no_slack
  unfolding auth_reader_def by (rule asym_reader_frames) (simp_all add: AUTH_MAX_PAYLOAD_def usize_limit_def)

definition auth_frame :: "authorization \<Rightarrow> chain_frame" where
  "auth_frame e = \<lparr>cf_sequence = au_sequence e, cf_previous = au_previous_digest e, cf_digest = au_frame_digest e,
     cf_payload = auth_payload e\<rparr>"

definition auth_admits :: "signature_check \<Rightarrow> key_registry \<Rightarrow> authorization_ledger \<Rightarrow> authorization \<Rightarrow> bool" where
  "auth_admits b r l e \<longleftrightarrow> auth_fits e \<and>
     frame_follows LEDGER_FRAME_DOMAIN (length (al_events l)) (al_head_digest l) (auth_frame e) \<and>
     al_last_timestamp l < au_logical_timestamp e \<and> (au_key_id e, au_nonce e) \<notin> set (al_used_nonces l) \<and>
     verify_event b e r = Inr True"

lemma auth_record_simps [simp]:
  "al_path (auth_record l e) = al_path l" "al_events (auth_record l e) = al_events l @ [e]"
  "al_head_digest (auth_record l e) = au_frame_digest e" "al_last_timestamp (auth_record l e) = au_logical_timestamp e"
  "al_used_nonces (auth_record l e) = bset_insert (au_key_id e, au_nonce e) (al_used_nonces l)"
  by (simp_all add: auth_record_def)

lemma auth_stamps_irrelevant [simp]:
  "auth_payload (e\<lparr>au_sequence := q\<rparr>) = auth_payload e" "auth_payload (e\<lparr>au_previous_digest := d\<rparr>) = auth_payload e"
  "auth_payload (e\<lparr>au_frame_digest := d\<rparr>) = auth_payload e" "auth_fits (e\<lparr>au_sequence := q\<rparr>) = auth_fits e"
  "auth_fits (e\<lparr>au_previous_digest := d\<rparr>) = auth_fits e" "auth_fits (e\<lparr>au_frame_digest := d\<rparr>) = auth_fits e"
  "verify_event b (e\<lparr>au_sequence := q\<rparr>) r = verify_event b e r"
  "verify_event b (e\<lparr>au_previous_digest := d\<rparr>) r = verify_event b e r"
  "verify_event b (e\<lparr>au_frame_digest := d\<rparr>) r = verify_event b e r"
  by (cases e; simp only: authorization.update_convs authorization.select_convs auth_payload_def auth_fits_def
      verify_event_def)+

lemma auth_restamp:
  "(auth_bare e)\<lparr>au_sequence := au_sequence e, au_previous_digest := au_previous_digest e,
     au_frame_digest := au_frame_digest e\<rparr> = e"
  by (cases e) (simp add: auth_bare_def)

lemma verified_identifiers: "verify_event b e r = Inr v \<Longrightarrow> identifier_ok (au_key_id e) \<and> identifier_ok (au_nonce e)"
  by (simp add: verify_event_iff)

lemma auth_payload_size:
  "verify_event b e r = Inr v \<Longrightarrow> auth_fits e \<Longrightarrow> length (auth_payload e) \<le> AUTH_MAX_PAYLOAD"
  using verified_identifiers [of b e r v] by (simp add: length_auth_payload identifier_ok_def AUTH_MAX_PAYLOAD_def)

interpretation auth_file: chained_ledger auth_reader AUTH_LEDGER_MAGIC LEDGER_FRAME_DOMAIN AUTH_MAX_PAYLOAD no_slack
  "auth_replay_frame b r" auth_record auth_frame "auth_admits b r" "\<lambda>l. length (al_events l)" al_head_digest
  for b r
proof unfold_locales
  fix l e
  assume a: "auth_admits b r l e"
  show "auth_replay_frame b r l (auth_frame e) = Inr (auth_record l e)"
  proof -
    have d: "decode_auth_payload (cf_payload (auth_frame e)) = Inr (auth_bare e)"
      using a auth_decode_ok by (simp add: auth_admits_def auth_frame_def)
    have st: "(auth_bare e)\<lparr>au_sequence := cf_sequence (auth_frame e), au_previous_digest := cf_previous (auth_frame e),
        au_frame_digest := cf_digest (auth_frame e)\<rparr> = e" by (simp add: auth_frame_def auth_restamp)
    show ?thesis using a unfolding auth_replay_frame_def d rbind_simps Let_def st
      by (simp add: auth_admits_def not_le [symmetric])
  qed
  show "frame_follows LEDGER_FRAME_DOMAIN (length (al_events l)) (al_head_digest l) (auth_frame e)"
    using a by (simp add: auth_admits_def)
  show "length (cf_payload (auth_frame e)) \<le> AUTH_MAX_PAYLOAD"
    using a by (auto simp: auth_admits_def auth_frame_def intro: auth_payload_size)
next
  fix l f l'
  assume ff: "frame_follows LEDGER_FRAME_DOMAIN (length (al_events l)) (al_head_digest l) f"
    and run: "auth_replay_frame b r l f = Inr l'"
  from run obtain e where d: "decode_auth_payload (cf_payload f) = Inr e"
    and c: "al_last_timestamp l < au_logical_timestamp e" "(au_key_id e, au_nonce e) \<notin> set (al_used_nonces l)"
      "verify_event b e r = Inr True"
    unfolding auth_replay_frame_def Let_def guard_eq_Inr_iff rbind_eq_Inr_iff by auto
  let ?e = "e\<lparr>au_sequence := cf_sequence f, au_previous_digest := cf_previous f, au_frame_digest := cf_digest f\<rparr>"
  have "f = auth_frame ?e"
    using auth_decode_sound(1) [OF d] by (intro chain_frame.equality) (simp_all add: auth_frame_def)
  moreover from this have "auth_admits b r l ?e"
    using ff auth_decode_sound(2) [OF d] c by (simp add: auth_admits_def)
  ultimately show "\<exists>e. f = auth_frame e \<and> auth_admits b r l e" by blast
qed (simp_all add: auth_frame_def)

subsection \<open>Appending\<close>

definition auth_typed :: "authorization \<Rightarrow> bool" where
  "auth_typed e \<longleftrightarrow> length (au_subject_digest e) = 32 \<and> length (au_key_registry_head e) = 32 \<and>
     length (au_public_key_digest e) = 32 \<and> length (au_authorization_digest e) = 32 \<and> length (au_event_id e) = 32 \<and>
     length (au_signature e) = 64 \<and> utf8_valid (au_key_id e) \<and> utf8_valid (au_nonce e)"

lemma verified_fits: "verify_event b e r = Inr v \<Longrightarrow> auth_typed e \<Longrightarrow> auth_fits e"
  using verified_identifiers [of b e r v] by (simp add: auth_typed_def auth_fits_def identifier_ok_def)

lemma auth_frame_bytes:
  "encode_auth_frame (au_sequence e) (au_previous_digest e) (sha256 (auth_payload e)) (au_frame_digest e) (auth_payload e)
     = (if AUTH_MAX_PAYLOAD < length (auth_payload e) then Inl (Asym_Invalid (lit ''authorization payload too large''))
        else Inr (event_bytes AUTH_LEDGER_MAGIC auth_frame e))"
  by (simp add: encode_auth_frame_def encode_chain_frame_def event_bytes_def entry_bytes_def auth_frame_def Let_def)

abbreviation auth_effect ::
  "signature_check \<Rightarrow> key_registry \<Rightarrow> authorization_ledger \<Rightarrow> fsys \<Rightarrow> authorization_ledger \<Rightarrow> fsys \<Rightarrow> bool" where
  "auth_effect b r l fs l' fs' \<equiv>
     append_effect (auth_admits b r) auth_record (event_bytes AUTH_LEDGER_MAGIC auth_frame) (al_path l) l fs l' fs'"

text \<open>The event as it is recorded: with its place in the chain.\<close>

definition auth_stamped :: "authorization_ledger \<Rightarrow> authorization \<Rightarrow> authorization" where
  "auth_stamped l e = e\<lparr>au_sequence := of_nat (length (al_events l)) + 1, au_previous_digest := al_head_digest l,
     au_frame_digest := compute_frame_digest LEDGER_FRAME_DOMAIN (of_nat (length (al_events l)) + 1) (al_head_digest l)
       (sha256 (auth_payload e))\<rparr>"

definition auth_acceptable :: "signature_check \<Rightarrow> key_registry \<Rightarrow> authorization_ledger \<Rightarrow> authorization \<Rightarrow> bool" where
  "auth_acceptable b r l e \<longleftrightarrow> al_last_timestamp l < au_logical_timestamp e \<and>
     (au_key_id e, au_nonce e) \<notin> set (al_used_nonces l) \<and> verify_event b e r = Inr True"

lemma auth_append_ok:
  assumes a: "auth_acceptable b r l e" and ty: "auth_typed e" and old: "fget fs (al_path l) = Some old"
  shows "auth_append b r e l fs = (Inr (auth_stamped l e), auth_record l (auth_stamped l e),
     fput (al_path l) (old @ event_bytes AUTH_LEDGER_MAGIC auth_frame (auth_stamped l e)) fs)"
proof -
  have v: "verify_event b e r = Inr True" using a by (simp add: auth_acceptable_def)
  have "encode_auth_frame (of_nat (length (al_events l)) + 1) (al_head_digest l) (sha256 (auth_payload e))
      (au_frame_digest (auth_stamped l e)) (auth_payload e) = Inr (event_bytes AUTH_LEDGER_MAGIC auth_frame (auth_stamped l e))"
    using auth_frame_bytes [of "auth_stamped l e"] auth_payload_size [OF v verified_fits [OF v ty]] by (simp add: auth_stamped_def)
  with a old show ?thesis
    by (simp add: auth_append_def Let_def not_le [symmetric] write_all_def auth_acceptable_def auth_stamped_def)
qed

lemma auth_append_effect:
  assumes run: "auth_append b r e l fs = (res, l', fs')" and ty: "auth_typed e"
  shows "auth_effect b r l fs l' fs'"
proof (cases "auth_acceptable b r l e \<and> fget fs (al_path l) \<noteq> None")
  case False
  then have "l' = l \<and> fs' = fs" using run unfolding auth_append_def Let_def auth_acceptable_def
    by (auto simp: not_le not_less write_all_def split: if_splits sum.splits)
  then show ?thesis by simp
next
  case True
  then obtain old where old: "fget fs (al_path l) = Some old" and a: "auth_acceptable b r l e" by auto
  then have v: "verify_event b e r = Inr True" by (simp add: auth_acceptable_def)
  have "auth_admits b r l (auth_stamped l e)"
    using a verified_fits [OF v ty] by (simp add: auth_acceptable_def auth_admits_def frame_follows_def auth_frame_def auth_stamped_def)
  from append_effect_event [of fs "al_path l" old "auth_admits b r", OF old this] auth_append_ok [OF a ty old] run show ?thesis by simp
qed

lemma auth_submit_effect:
  assumes run: "auth_submit b r built l fs = (res, l', fs')" and ty: "\<And>e. built = Inr e \<Longrightarrow> auth_typed e"
  shows "auth_effect b r l fs l' fs'"
proof (cases built)
  case (Inr e)
  obtain q l1 fs1 where a: "auth_append b r e l fs = (q, l1, fs1)" by (metis prod_cases3)
  have "l1 = l'" "fs1 = fs'" using run Inr a by (auto simp: auth_submit_def split: sum.splits)
  with auth_append_effect [OF a] ty Inr show ?thesis by simp
qed (use run in \<open>simp add: auth_submit_def\<close>)

text \<open>The requests to the ledger; the providers may differ from one to the next.\<close>

datatype auth_request =
  Authorize_With signing_provider provider_requirement u8 u16 bytes str str u64 str
| Authorize_Software cng u8 u16 bytes str str u64 str

fun auth_handle ::
  "signature_check \<Rightarrow> key_registry \<Rightarrow> auth_request \<Rightarrow> authorization_ledger \<Rightarrow> fsys \<Rightarrow>
   (asym_error + authorization_receipt) \<times> authorization_ledger \<times> fsys" where
  "auth_handle b r (Authorize_With p q d m s k n t c) l fs = authorize_with_provider b r p q d m s k n t c l fs"
| "auth_handle b r (Authorize_Software os d m s k n t c) l fs = authorize (os\<lparr>cng_verify := b\<rparr>) r d m s k n t c l fs"

fun auth_request_typed :: "auth_request \<Rightarrow> bool" where
  "auth_request_typed (Authorize_With p q d m s k n t c) \<longleftrightarrow> provider_typed p \<and> length s = 32 \<and> list_all utf8_valid [k, n, c]"
| "auth_request_typed (Authorize_Software os d m s k n t c) \<longleftrightarrow> cng_typed os \<and> length s = 32 \<and> list_all utf8_valid [k, n, c]"

lemma authorization_of_typed:
  "length s = 32 \<Longrightarrow> length h = 32 \<Longrightarrow> length p = 32 \<Longrightarrow> length dg = 32 \<Longrightarrow> length sg = 64 \<Longrightarrow> utf8_valid k \<Longrightarrow>
   utf8_valid c \<Longrightarrow> auth_typed (authorization_of d m t k c s h p dg sg)"
  by (simp add: authorization_of_def auth_typed_def authorization_event_id_def)

lemma authorization_digest_length:
  "authorization_message_digest d m s h p t k c = Inr dg \<Longrightarrow> length dg = 32"
  by (auto simp: authorization_message_digest_def rbind_eq_Inr_iff guard_eq_Inr_iff)

lemma auth_handle_effect:
  assumes run: "auth_handle b r q l fs = (res, l', fs')" and ty: "auth_request_typed q"
    and hd: "length (kr_head_digest r) = 32" and st: "states_typed (kr_states r)"
  shows "auth_effect b r l fs l' fs'"
proof -
  note state = st [unfolded states_typed_def key_state_typed_def, rule_format]
  show ?thesis
  proof (cases q)
    case (Authorize_With p q d m s k n t c)
    with run ty show ?thesis
      by (auto simp: authorize_with_provider_def provider_typed_def rbind_eq_Inr_iff guard_eq_Inr_iff Let_def enforce_iff
          intro!: auth_submit_effect authorization_of_typed [OF _ hd] dest!: authorization_digest_length state)
  next
    case (Authorize_Software os d m s k n t c)
    with run ty show ?thesis
      by (auto simp: authorize_def cng_typed_def rbind_eq_Inr_iff guard_eq_Inr_iff Let_def
          intro!: auth_submit_effect authorization_of_typed [OF _ hd] dest!: authorization_digest_length state)
  qed
qed

lemma auth_admits_extends: "registry_extends r r' \<Longrightarrow> auth_admits b r l e \<Longrightarrow> auth_admits b r' l e"
  by (simp add: auth_admits_def verify_event_extends)

lemma auth_sync_extends:
  assumes x: "registry_extends r r'" and "auth_file.in_sync b r l0 l bs"
  shows "auth_file.in_sync b r' l0 l bs"
proof -
  have "frames_ok (auth_admits b r) auth_record l es \<Longrightarrow> frames_ok (auth_admits b r') auth_record l es" for l es
    by (induction es arbitrary: l) (simp_all add: auth_admits_extends [OF x])
  with assms(2) show ?thesis by (auto simp: auth_file.in_sync_def auth_file.recorded_def)
qed

end
