(* ===== verification/Ub_Asym_Init.thy ===== *)
theory Ub_Asym_Init
  imports Ub_Authorizations
begin

text \<open>
  The root directory of the asymmetric trust crate (\<open>lib.rs\<close>): the paths of its two files and
  \<open>init_asymmetric_root\<close>, which creates the missing ones and opens the others strictly.
\<close>

record asymmetric_paths =
  ap_root :: path
  ap_key_registry :: path
  ap_authorization_ledger :: path

definition paths_from_root :: "path \<Rightarrow> asymmetric_paths" where
  "paths_from_root root =
     \<lparr>ap_root = root, ap_key_registry = root @ [lit ''asymmetric-keys.ubakey''],
      ap_authorization_ledger = root @ [lit ''asymmetric-authorizations.ubasig'']\<rparr>"

record init_receipt =
  ir_changed :: bool
  ir_key_registry_changed :: bool
  ir_authorization_ledger_changed :: bool
  ir_key_registry_path :: path
  ir_authorization_ledger_path :: path

text \<open>The two branches for a file: open it when it exists, else create it; the result is \<open>true\<close> when it is new.\<close>

definition open_or_create :: "path \<Rightarrow> ('e, 'a) io \<Rightarrow> ('e, 'b) io \<Rightarrow> ('e, bool) io" where
  "open_or_create p opens creates fs =
     (if fs_exists fs p then io_bind opens (\<lambda>_. io_ret False) fs else io_bind creates (\<lambda>_. io_ret True) fs)"

definition init_asymmetric_root :: "signature_check \<Rightarrow> path \<Rightarrow> (asym_error, init_receipt) io" where
  "init_asymmetric_root bcrypt root =
     (let paths = paths_from_root root; keys = ap_key_registry paths; ledger = ap_authorization_ledger paths in
      io_bind (io_map_err Asym_Io (create_dir_all (ap_root paths))) (\<lambda>_.
      io_bind (open_or_create keys (registry_open_strict bcrypt keys) (registry_create keys)) (\<lambda>key_registry_changed.
      io_bind (open_or_create ledger
        (io_bind (registry_open_strict bcrypt keys) (authorizations_open_strict bcrypt ledger))
        (authorizations_create ledger)) (\<lambda>authorization_ledger_changed.
      io_ret \<lparr>ir_changed = (key_registry_changed \<or> authorization_ledger_changed),
              ir_key_registry_changed = key_registry_changed,
              ir_authorization_ledger_changed = authorization_ledger_changed,
              ir_key_registry_path = keys, ir_authorization_ledger_path = ledger\<rparr>))))"

lemma paths_distinct: "ap_key_registry (paths_from_root root) \<noteq> ap_authorization_ledger (paths_from_root root)"
  by (simp add: paths_from_root_def lit_def)

text \<open>Creating a file leaves every other file as it is, and the new one is empty and opens.\<close>

lemma create_dir_all_effect:
  assumes "create_dir_all p fs = (r, fs')"
  shows "fget fs' = fget fs" and "fs_dirs fs \<subseteq> fs_dirs fs'" and "r = Inr () \<Longrightarrow> p \<in> fs_dirs fs'"
  using assms by (auto simp: create_dir_all_def path_prefixes_def fun_eq_iff split: if_splits)

lemma create_empty_effect:
  assumes "asym_create_empty_file what p fs = (Inr u, fs')"
  shows "fget fs' = (fget fs)(p \<mapsto> []) \<and> fs_dirs fs \<subseteq> fs_dirs fs'"
proof -
  define parents where "parents = (case path_parent p of Some parent \<Rightarrow> create_dir_all parent | None \<Rightarrow> io_ret ())"
  from assms obtain fs1 where fs1: "parents fs = (Inr (), fs1)" "create_new p [] fs1 = (Inr (), fs')"
    by (auto simp: asym_create_empty_file_def io_bind_eq_Inr_iff parents_def io_ret_def
        split: if_splits option.splits)
  have "fget fs1 = fget fs \<and> fs_dirs fs \<subseteq> fs_dirs fs1"
    using fs1(1) create_dir_all_effect(1,2)
    by (cases "path_parent p") (simp_all add: parents_def io_ret_def)
  with fs1(2) show ?thesis by (auto simp: create_new_def fun_eq_iff split: if_splits)
qed

lemma empty_files_open:
  "fget fs p = Some [] \<Longrightarrow> registry_open_strict bcrypt p fs = (Inr (registry_empty p), fs)"
  "fget fs p = Some [] \<Longrightarrow> authorizations_open_strict bcrypt p r fs = (Inr (authorizations_empty p), fs)"
  by (simp_all add: registry_open_strict_def authorizations_open_strict_def chain_replay_def chain_decode.simps
      io_bind_def io_simps fs_read_def ok_or_def map_err_def)

lemma open_strict_reads:
  assumes "registry_open_strict bcrypt p fs = (Inr g, fs')"
  shows "fs' = fs" and "fget fs p \<noteq> None"
  using assms by (auto simp: registry_open_strict_def io_bind_eq_Inr_iff io_simps split: if_splits)

lemma authorizations_open_reads:
  assumes "authorizations_open_strict bcrypt p g fs = (Inr l, fs')"
  shows "fs' = fs" and "fget fs p \<noteq> None"
  using assms by (auto simp: authorizations_open_strict_def io_bind_eq_Inr_iff io_simps split: if_splits)

lemma registry_open_local: "fget fs p = fget fs' p \<Longrightarrow> registry_open_strict bcrypt p fs = (Inr g, fs) \<Longrightarrow>
    registry_open_strict bcrypt p fs' = (Inr g, fs')"
  by (auto simp: registry_open_strict_def io_bind_eq_Inr_iff io_simps fs_read_def split: if_splits)

lemma open_or_create_cases:
  assumes "open_or_create p opens creates fs = (Inr c, fs')"
  obtains x where "fs_exists fs p" "opens fs = (Inr x, fs')" "\<not> c"
  | x where "\<not> fs_exists fs p" "creates fs = (Inr x, fs')" c
  using assms by (auto simp: open_or_create_def io_bind_eq_Inr_iff io_simps split: if_splits)

lemma open_or_create_opens:
  "fs_exists fs p \<Longrightarrow> opens fs = (Inr x, fs) \<Longrightarrow> open_or_create p opens creates fs = (Inr False, fs)"
  by (simp add: open_or_create_def io_bind_def io_simps)

lemma init_registry_opens:
  assumes "open_or_create p (registry_open_strict bcrypt p) (registry_create p) fs = (Inr c, fs')"
  shows "\<exists>g. registry_open_strict bcrypt p fs' = (Inr g, fs') \<and> fs_dirs fs \<subseteq> fs_dirs fs'"
  using assms
proof (cases rule: open_or_create_cases)
  case (1 x)
  then show ?thesis using open_strict_reads(1) [OF 1(2)] by auto
next
  case (2 x)
  then have "asym_create_empty_file (lit ''registry'') p fs = (Inr (), fs')"
    by (auto simp: registry_create_def io_bind_eq_Inr_iff io_simps)
  from create_empty_effect [OF this] show ?thesis by (auto simp: empty_files_open)
qed

lemma init_authorizations_opens:
  assumes run: "open_or_create p (io_bind (registry_open_strict bcrypt k) (authorizations_open_strict bcrypt p))
      (authorizations_create p) fs = (Inr c, fs')"
    and k: "registry_open_strict bcrypt k fs = (Inr g, fs)" and d: "k \<noteq> p"
  shows "registry_open_strict bcrypt k fs' = (Inr g, fs') \<and> fs_dirs fs \<subseteq> fs_dirs fs' \<and>
    (\<exists>l. authorizations_open_strict bcrypt p g fs' = (Inr l, fs'))"
  using run
proof (cases rule: open_or_create_cases)
  case (1 x)
  then have "authorizations_open_strict bcrypt p g fs = (Inr x, fs')" using k by simp
  with authorizations_open_reads(1) [OF this] k show ?thesis by auto
next
  case (2 x)
  then have "asym_create_empty_file (lit ''authorization ledger'') p fs = (Inr (), fs')"
    by (auto simp: authorizations_create_def io_bind_eq_Inr_iff io_simps)
  note e = create_empty_effect [OF this]
  with d have "fget fs k = fget fs' k" by simp
  from registry_open_local [OF this k] e show ?thesis by (auto simp: empty_files_open)
qed

text \<open>
  After \<open>init_asymmetric_root\<close> both files exist and open, the registry on its own and the
  authorisation ledger against that registry.
\<close>

lemma init_root_opens:
  assumes "init_asymmetric_root bcrypt root fs = (Inr receipt, fs')"
  shows "\<exists>g l. registry_open_strict bcrypt (ap_key_registry (paths_from_root root)) fs' = (Inr g, fs') \<and>
    authorizations_open_strict bcrypt (ap_authorization_ledger (paths_from_root root)) g fs' = (Inr l, fs') \<and>
    root \<in> fs_dirs fs'"
proof -
  let ?k = "ap_key_registry (paths_from_root root)" and ?a = "ap_authorization_ledger (paths_from_root root)"
  from assms obtain fs1 fs2 c d where fs1: "create_dir_all (ap_root (paths_from_root root)) fs = (Inr (), fs1)"
    and k: "open_or_create ?k (registry_open_strict bcrypt ?k) (registry_create ?k) fs1 = (Inr c, fs2)"
    and a: "open_or_create ?a (io_bind (registry_open_strict bcrypt ?k) (authorizations_open_strict bcrypt ?a))
      (authorizations_create ?a) fs2 = (Inr d, fs')"
    by (auto simp: init_asymmetric_root_def Let_def io_bind_eq_Inr_iff io_ret_def)
  from fs1 have r: "root \<in> fs_dirs fs1" using create_dir_all_effect(3) [OF fs1] by (simp add: paths_from_root_def)
  from init_registry_opens [OF k] obtain g
    where g: "registry_open_strict bcrypt ?k fs2 = (Inr g, fs2)" "fs_dirs fs1 \<subseteq> fs_dirs fs2" by blast
  from init_authorizations_opens [OF a g(1) paths_distinct] g(2) r show ?thesis by blast
qed

text \<open>Initialising twice is the same as initialising once; the second receipt says that nothing changed.\<close>

theorem init_root_idempotent:
  assumes "init_asymmetric_root bcrypt root fs = (Inr receipt, fs')"
  shows "init_asymmetric_root bcrypt root fs' =
    (Inr \<lparr>ir_changed = False, ir_key_registry_changed = False, ir_authorization_ledger_changed = False,
          ir_key_registry_path = ap_key_registry (paths_from_root root),
          ir_authorization_ledger_path = ap_authorization_ledger (paths_from_root root)\<rparr>, fs')"
proof -
  from init_root_opens [OF assms] obtain g l
    where g: "registry_open_strict bcrypt (ap_key_registry (paths_from_root root)) fs' = (Inr g, fs')"
      and l: "authorizations_open_strict bcrypt (ap_authorization_ledger (paths_from_root root)) g fs' = (Inr l, fs')"
      and d: "root \<in> fs_dirs fs'"
    by blast
  have "create_dir_all (ap_root (paths_from_root root)) fs' = (Inr (), fs')"
    using d by (simp add: create_dir_all_def paths_from_root_def)
  with g l open_strict_reads(2) [OF g] authorizations_open_reads(2) [OF l] show ?thesis
    by (simp add: init_asymmetric_root_def Let_def io_bind_def io_ret_def open_or_create_opens io_map_err_def
        map_err_def fs_exists_def)
qed

end
