(* ===== verification/Ub_Auth_Runs.thy ===== *)
theory Ub_Auth_Runs
  imports Ub_Authorizations
begin

text \<open>
  What the key registry and the authorisation ledger guarantee together: requests to both may be
  interleaved; the ledger reopens against the registry as it has become, and every recorded
  authorisation was genuine at the registry head that it names.
\<close>

subsection \<open>Runs of a registry and an authorisation ledger\<close>

type_synonym auth_system = "key_registry \<times> authorization_ledger \<times> fsys"

definition auth_initial :: "auth_system \<Rightarrow> bool" where
  "auth_initial s \<longleftrightarrow> (case s of (r, l, fs) \<Rightarrow> \<exists>p q fs0 fs1. p \<noteq> q \<and>
     registry_create p fs0 = (Inr r, fs1) \<and> authorizations_create q fs1 = (Inr l, fs))"

inductive auth_step :: "signature_check \<Rightarrow> auth_system \<Rightarrow> auth_system \<Rightarrow> bool" for b where
  registry_moves: "registry_step b (r, fs) (r', fs') \<Longrightarrow> auth_step b (r, l, fs) (r', l, fs')"
| auth_handles:
    "auth_request_typed q \<Longrightarrow> auth_handle b r q l fs = (res, l', fs') \<Longrightarrow>
     (\<And>bs. fget fs' (al_path l) = Some bs \<Longrightarrow> length bs < usize_limit) \<Longrightarrow>
     auth_step b (r, l, fs) (r, l', fs')"
| auth_reopens:
    "authorizations_open_strict b (al_path l) r fs = (Inr l', fs') \<Longrightarrow> auth_step b (r, l, fs) (r, l', fs')"

definition auth_synced :: "signature_check \<Rightarrow> key_registry \<Rightarrow> authorization_ledger \<Rightarrow> fsys \<Rightarrow> bool" where
  "auth_synced b r l fs \<longleftrightarrow> (\<exists>bs. fget fs (al_path l) = Some bs \<and>
     auth_file.in_sync b r (authorizations_empty (al_path l)) l bs)"

definition auth_inv :: "signature_check \<Rightarrow> auth_system \<Rightarrow> bool" where
  "auth_inv b s \<longleftrightarrow> (case s of (r, l, fs) \<Rightarrow> registry_inv b (r, fs) \<and> kr_path r \<noteq> al_path l \<and>
     (heads_distinct r \<longrightarrow> auth_synced b r l fs))"

lemma authorizations_empty_simps [simp]:
  "al_path (authorizations_empty p) = p" "al_events (authorizations_empty p) = []"
  "al_head_digest (authorizations_empty p) = zero_digest" "al_used_nonces (authorizations_empty p) = []"
  "al_last_timestamp (authorizations_empty p) = 0"
  by (simp_all add: authorizations_empty_def zero_digest_def)

lemma authorizations_open_synced:
  "fget fs p = Some bs \<Longrightarrow> auth_file.in_sync b r (authorizations_empty p) l bs \<Longrightarrow>
   authorizations_open_strict b p r fs = (Inr l, fs)"
  using auth_file.in_sync_replay [of b r "authorizations_empty p" l bs]
  by (simp add: authorizations_open_strict_def io_query_def fs_read_def io_pure_def)

lemma authorizations_open_path:
  assumes "authorizations_open_strict b p r fs = (Inr l, fs')"
  shows "al_path l = p \<and> fs' = fs"
proof -
  from assms obtain bs where "chain_replay auth_reader (auth_replay_frame b r) (authorizations_empty p) bs = Inr l" "fs' = fs"
    by (auto simp: authorizations_open_strict_def io_bind_eq_Inr_iff io_query_def io_pure_def split: if_splits)
  from auth_file.replay_accepts_frames [OF this(1)] this(2) obtain es where es: "l = foldl auth_record (authorizations_empty p) es" "fs' = fs"
    by auto
  have "al_path (foldl auth_record m es) = al_path m" for m by (induction es arbitrary: m) simp_all
  with es show ?thesis by simp
qed

lemma auth_effect_path: "auth_effect b r l fs l' fs' \<Longrightarrow> al_path l' = al_path l"
  by (auto simp: append_effect_def)

lemma registry_inv_facts:
  assumes "registry_inv b (r, fs)"
  shows "length (kr_head_digest r) = 32" and "states_typed (kr_states r)"
  using assms by (auto simp: registry_inv_def dest: registry_file.in_sync_head synced_states_typed)

lemma create_dir_all_files: "create_dir_all p fs = (res, fs') \<Longrightarrow> fget fs' q = fget fs q"
  by (auto simp: create_dir_all_def fget_def split: if_splits)

lemma asym_create_keeps:
  assumes "asym_create_empty_file w p fs = (Inr u, fs')" and "q \<noteq> p"
  shows "fget fs' q = fget fs q"
  using assms create_dir_all_files
  by (fastforce simp: asym_create_empty_file_def io_bind_eq_Inr_iff create_new_def io_ret_def io_map_err_def
      split: if_splits option.splits prod.splits)

text \<open>A step of the registry keeps other files and, without collisions, the states at earlier heads.\<close>

lemma registry_step_grows:
  assumes st: "registry_step b (r, fs) (r', fs')" and inv: "registry_inv b (r, fs)"
  shows "kr_path r' = kr_path r" and "q \<noteq> kr_path r \<Longrightarrow> fget fs' q = fget fs q"
    and "heads_distinct r' \<Longrightarrow> heads_distinct r \<and> registry_extends r r'"
proof -
  from inv obtain bs where bs: "fget fs (kr_path r) = Some bs"
    and sy: "registry_file.in_sync b (registry_empty (kr_path r)) r bs" by (auto simp: registry_inv_def)
  have eff: "append_effect (registry_admits b) registry_push (event_bytes REGISTRY_MAGIC key_frame) (kr_path r) r fs r' fs'"
    using st
  proof cases
    case (registry_handles q res)
    show ?thesis by (rule registry_handle_effect [OF registry_handles(2,1) registry_inv_facts(2) [OF inv]])
  next
    case registry_reopens
    with registry_open_synced [OF bs sy] show ?thesis by simp
  qed
  then show "kr_path r' = kr_path r" by (auto simp: append_effect_def)
  show "q \<noteq> kr_path r \<Longrightarrow> fget fs' q = fget fs q" by (rule append_effect_keeps [OF eff])
  show "heads_distinct r' \<Longrightarrow> heads_distinct r \<and> registry_extends r r'"
    using eff registry_push_grows [OF sy] by (auto simp: append_effect_def registry_extends_def)
qed

lemma registry_inv_frame: "registry_inv b (r, fs) \<Longrightarrow> fget fs' (kr_path r) = fget fs (kr_path r) \<Longrightarrow> registry_inv b (r, fs')"
  by (simp add: registry_inv_def)

lemma auth_synced_keeps:
  "auth_synced b r l fs \<Longrightarrow> registry_extends r r' \<Longrightarrow> fget fs' (al_path l) = fget fs (al_path l) \<Longrightarrow> auth_synced b r' l fs'"
  by (auto simp: auth_synced_def intro: auth_sync_extends)

lemma auth_effect_synced:
  assumes eff: "auth_effect b r l fs l' fs'" and sy: "auth_synced b r l fs"
    and sz: "\<And>bs. fget fs' (al_path l) = Some bs \<Longrightarrow> length bs < usize_limit"
  shows "auth_synced b r l' fs'"
proof -
  from sy obtain bs where "fget fs (al_path l) = Some bs" "auth_file.in_sync b r (authorizations_empty (al_path l)) l bs"
    by (auto simp: auth_synced_def)
  from auth_file.in_sync_effect [OF eff this sz] auth_effect_path [OF eff] show ?thesis by (auto simp: auth_synced_def)
qed

lemma auth_open_synced: "auth_synced b r l fs \<Longrightarrow> authorizations_open_strict b (al_path l) r fs = (Inr l, fs)"
  by (auto simp: auth_synced_def authorizations_open_synced)

interpretation auth_run: invariant_system auth_initial "auth_step b" "auth_inv b" for b
proof unfold_locales
  fix s
  assume "auth_initial s"
  then obtain p q fs0 fs1 r l fs where s: "s = (r, l, fs)" "p \<noteq> q" "registry_create p fs0 = (Inr r, fs1)"
    "authorizations_create q fs1 = (Inr l, fs)" by (auto simp: auth_initial_def)
  from s(3) have r: "registry_inv b (r, fs1)" "kr_path r = p"
    using registry_run.inv_init [of "(r, fs1)"]
    by (auto simp: registry_initial_def registry_create_def io_bind_eq_Inr_iff io_ret_def)
  from s(4) have l: "l = authorizations_empty q" "asym_create_empty_file (lit ''authorization ledger'') q fs1 = (Inr (), fs)"
    by (auto simp: authorizations_create_def io_bind_eq_Inr_iff io_ret_def)
  have k: "fget fs p = fget fs1 p" by (rule asym_create_keeps [OF l(2) s(2)])
  from asym_create_file [OF l(2)] have "auth_synced b r l fs"
    by (auto simp: auth_synced_def l(1) auth_file.in_sync_empty intro: exI [of _ "[]"])
  then show "auth_inv b s" using registry_inv_frame [OF r(1), of fs] s(2) r(2) k by (simp add: auth_inv_def s(1) l(1))
next
  fix s s'
  assume "auth_step b s s'" and "auth_inv b s"
  then show "auth_inv b s'"
  proof (induction rule: auth_step.induct)
    case (registry_moves r fs r' fs' l)
    then have i: "registry_inv b (r, fs)" by (simp add: auth_inv_def)
    note g = registry_step_grows [OF registry_moves(1) i]
    have "auth_synced b r' l fs'" if "heads_distinct r'"
      using that g(2) [of "al_path l"] g(3) registry_moves.prems by (auto simp: auth_inv_def intro: auth_synced_keeps)
    then show ?case using registry_run.inv_step [OF registry_moves(1) i] g(1) registry_moves.prems by (simp add: auth_inv_def)
  next
    case (auth_handles q r l fs res l' fs')
    then have i: "registry_inv b (r, fs)" "kr_path r \<noteq> al_path l" by (simp_all add: auth_inv_def)
    note eff = auth_handle_effect [OF auth_handles(2,1) registry_inv_facts [OF i(1)]]
    show ?case using auth_handles.prems registry_inv_frame [OF i(1)] append_effect_keeps [OF eff i(2)]
        auth_effect_path [OF eff] auth_effect_synced [OF eff _ auth_handles(3)] by (simp add: auth_inv_def)
  next
    case (auth_reopens l r fs l' fs')
    then show ?case using authorizations_open_path [OF auth_reopens(1)] auth_open_synced [of b r l fs]
      by (auto simp: auth_inv_def)
  qed
qed

lemma reachable_auth:
  assumes "reachable auth_initial (auth_step b) (r, l, fs)"
  shows "registry_inv b (r, fs)" and "kr_path r \<noteq> al_path l" and "heads_distinct r \<Longrightarrow> auth_synced b r l fs"
  using auth_run.reachable_inv [OF assms] by (simp_all add: auth_inv_def)

text \<open>
  The authorisation ledger reopens exactly, against the registry as it is now: in every
  state reachable from the creation of a key registry and an authorisation ledger by requests to
  both, interleaved in any order, and by reopening them, a strict open of the authorisation ledger
  succeeds and gives back exactly the ledger in memory. Keys may have been rotated and revoked
  since an authorisation was recorded. The frame digests of the registry are supposed distinct.
\<close>

theorem authorizations_reopen_exactly:
  assumes "reachable auth_initial (auth_step b) (r, l, fs)" and "heads_distinct r"
  shows "authorizations_open_strict b (al_path l) r fs = (Inr l, fs)"
  using auth_open_synced reachable_auth(3) [OF assms] .

subsection \<open>What a recorded authorisation proves\<close>

text \<open>
  The head that the authorisation names is the one an event of the registry left. The last event
  of the signing key up to there is not a revocation, has the required roles and the public key
  that is named; the signature verifies with this public key.
\<close>

definition authorized_at :: "signature_check \<Rightarrow> key_event list \<Rightarrow> authorization \<Rightarrow> nat \<Rightarrow> bool" where
  "authorized_at b es a n \<longleftrightarrow> n < length es \<and> au_key_registry_head a = ke_frame_digest (es ! n) \<and>
     (case last_key_event (take (Suc n) es) (au_key_id a) of
        None \<Rightarrow> False
      | Some e \<Rightarrow> ke_kind e \<noteq> Key_Revoke \<and> au_required_role_mask a \<noteq> 0 \<and>
          ke_role_mask e AND au_required_role_mask a = au_required_role_mask a \<and>
          au_public_key_digest a = sha256 (ke_public_blob e) \<and>
          authorization_message_digest (au_domain_code a) (au_required_role_mask a) (au_subject_digest a)
            (au_key_registry_head a) (au_public_key_digest a) (au_logical_timestamp a) (au_key_id a) (au_nonce a)
            = Inr (au_authorization_digest a) \<and>
          verify_digest b (ke_public_blob e) (au_authorization_digest a) (au_signature a) = Inr True)"

lemma verified_authorized:
  assumes v: "verify_event b a r = Inr True" and k: "heads_kept r" and len: "length (au_key_registry_head a) = 32"
  shows "\<exists>n. authorized_at b (kr_events r) a n"
proof -
  from v obtain s where s: "state_at_head r (au_key_registry_head a) (au_key_id a) = Some s"
    and sv: "has_role s (au_required_role_mask a)" "ks_public_key_digest s = au_public_key_digest a"
      "verify_digest b (ks_public_blob s) (au_authorization_digest a) (au_signature a) = Inr True"
    and nz: "au_key_registry_head a \<noteq> zero_digest"
    and msg: "authorization_message_digest (au_domain_code a) (au_required_role_mask a) (au_subject_digest a)
      (au_key_registry_head a) (au_public_key_digest a) (au_logical_timestamp a) (au_key_id a) (au_nonce a)
      = Inr (au_authorization_digest a)" by (auto simp: verify_event_iff zero_digest_def)
  from s obtain m where m: "bt_get (kr_states_by_head r) (au_key_registry_head a) = Some m" "bt_get m (au_key_id a) = Some s"
    by (auto simp: state_at_head_def bind_eq_Some_conv)
  from k m(1) nz obtain n where n: "n < length (kr_events r)" "au_key_registry_head a = ke_frame_digest (kr_events r ! n)"
    by (auto simp: heads_kept_def)
  from k n m(1) have "states_match (take (Suc n) (kr_events r)) m" by (auto simp: heads_kept_def)
  from states_match_get [OF this m(2)] obtain e where
    "last_key_event (take (Suc n) (kr_events r)) (au_key_id a) = Some e" "state_matches s e" by blast
  with n sv msg have "authorized_at b (kr_events r) a n"
    by (auto simp: authorized_at_def state_matches_def has_role_def)
  then show ?thesis by blast
qed

definition auth_orders :: "authorization_ledger \<Rightarrow> bool" where
  "auth_orders l \<longleftrightarrow> sorted_wrt (<) (map au_logical_timestamp (al_events l)) \<and>
     (\<forall>e \<in> set (al_events l). au_logical_timestamp e \<le> al_last_timestamp l) \<and>
     distinct (map (\<lambda>e. (au_key_id e, au_nonce e)) (al_events l)) \<and>
     set (al_used_nonces l) = (\<lambda>e. (au_key_id e, au_nonce e)) ` set (al_events l)"

lemma synced_authorizations:
  "auth_file.in_sync b r (authorizations_empty p) l bs \<Longrightarrow>
   auth_orders l \<and> (\<forall>a \<in> set (al_events l). auth_fits a \<and> verify_event b a r = Inr True) \<and>
   map au_sequence (al_events l) = map (\<lambda>i. of_nat i + 1) [0..<length (al_events l)]"
proof (induction rule: auth_file.in_sync_induct)
  case empty
  then show ?case by (simp add: auth_orders_def)
next
  case (push l bs a)
  have f: "auth_fits a" "al_last_timestamp l < au_logical_timestamp a" "(au_key_id a, au_nonce a) \<notin> set (al_used_nonces l)"
    "verify_event b a r = Inr True" "au_sequence a = of_nat (length (al_events l)) + 1"
    using push(2) by (simp_all add: auth_admits_def frame_follows_def auth_frame_def)
  have "auth_orders (auth_record l a)" using push.IH f(2,3) by (fastforce simp: auth_orders_def sorted_wrt_append)
  with push.IH f show ?case by simp
qed

text \<open>
  C10. Authorisations are genuine. In every reachable state, each recorded authorisation names the
  head that some event of the key registry left; there the key was enrolled and not revoked, held
  every role that the authorisation requires and had the public key that it names, and the
  signature over the message digest of all these fields verifies with that public key.
  Timestamps increase strictly and a key never uses a nonce twice.
\<close>

theorem authorizations_genuine:
  assumes "reachable auth_initial (auth_step b) (r, l, fs)" and "heads_distinct r"
  shows "(\<forall>a \<in> set (al_events l). \<exists>n. authorized_at b (kr_events r) a n) \<and>
     sorted_wrt (<) (map au_logical_timestamp (al_events l)) \<and>
     distinct (map (\<lambda>a. (au_key_id a, au_nonce a)) (al_events l))"
proof -
  obtain bs where bs: "registry_file.in_sync b (registry_empty (kr_path r)) r bs"
    using reachable_auth(1) [OF assms(1)] by (auto simp: registry_inv_def)
  then have k: "heads_kept r" using synced_heads assms(2) by blast
  obtain cs where "auth_file.in_sync b r (authorizations_empty (al_path l)) l cs"
    using reachable_auth(3) [OF assms] by (auto simp: auth_synced_def)
  from synced_authorizations [OF this] verified_authorized [OF _ k] show ?thesis
    by (auto simp: auth_orders_def auth_fits_def)
qed

end
