(* ===== verification/Ub_Fed_Ledger.thy ===== *)
theory Ub_Fed_Ledger
  imports Ub_Federation Ub_Auth_Runs
begin

text \<open>
  The enterprise federation ledger (\<open>ultraballoondb-trust-federation/src/lib.rs\<close>): policies of
  namespaces, authorities and accepted bundles, each event authorised in the authorisation
  ledger, in a file of chained frames that is validated again when it is opened.
\<close>

subsection \<open>Constants, texts and codes\<close>

definition FED_FILE_MAGIC :: bytes where "FED_FILE_MAGIC = lit ''UBFED01'' @ [0]"
definition FED_PAYLOAD_MAGIC :: bytes where "FED_PAYLOAD_MAGIC = lit ''UBFEP01'' @ [0]"
definition FED_FRAME_DOMAIN :: bytes where "FED_FRAME_DOMAIN = lit ''UBFEDFR1''"
definition POLICY_DOMAIN :: bytes where "POLICY_DOMAIN = lit ''UBFPLCY1''"
definition AUTHORITY_DOMAIN :: bytes where "AUTHORITY_DOMAIN = lit ''UBFAUTH1''"
definition BUNDLE_DOMAIN :: bytes where "BUNDLE_DOMAIN = lit ''UBFBNDL1''"
definition FED_MAX_PAYLOAD :: nat where "FED_MAX_PAYLOAD = 8 * 1024 * 1024"
definition DOMAIN_POLICY_REGISTER :: u8 where "DOMAIN_POLICY_REGISTER = 4"
definition DOMAIN_POLICY_REVOKE :: u8 where "DOMAIN_POLICY_REVOKE = 7"
definition DOMAIN_FEDERATION_BUNDLE :: u8 where "DOMAIN_FEDERATION_BUNDLE = 8"

datatype fed_error = Fed_Io io_error | Fed_Invalid str | Fed_Integrity str | Fed_Truncated str nat

fun fed_kind_code :: "federation_event_kind \<Rightarrow> u8" where
  "fed_kind_code NamespacePolicySet = 1" | "fed_kind_code AuthorityEnroll = 2"
| "fed_kind_code AuthorityRevoke = 3" | "fed_kind_code BundleAccept = 4"

definition fed_kind_from_code :: "u8 \<Rightarrow> fed_error + federation_event_kind" where
  "fed_kind_from_code code =
     (if code = 1 then Inr NamespacePolicySet else if code = 2 then Inr AuthorityEnroll
      else if code = 3 then Inr AuthorityRevoke else if code = 4 then Inr BundleAccept
      else Inl (Fed_Invalid (lit ''unknown event kind '' @ dec_bytes (unat code))))"

fun requirement_code :: "provider_requirement \<Rightarrow> u8" where
  "requirement_code SoftwareAllowed = 1" | "requirement_code HardwareRequired = 2" | "requirement_code TpmRequired = 3"

definition requirement_from_code :: "u8 \<Rightarrow> fed_error + provider_requirement" where
  "requirement_from_code code =
     (if code = 1 then Inr SoftwareAllowed else if code = 2 then Inr HardwareRequired
      else if code = 3 then Inr TpmRequired
      else Inl (Fed_Invalid (lit ''unknown provider requirement '' @ dec_bytes (unat code))))"

definition fed_validate_text :: "str \<Rightarrow> str \<Rightarrow> fed_error + unit" where
  "fed_validate_text name value =
     (if value = [] \<or> 1024 < length value \<or> has_control value
      then Inl (Fed_Invalid (name @ lit '' must contain 1..1024 non-control UTF-8 bytes'')) else Inr ())"

fun provider_name_satisfies :: "str \<Rightarrow> provider_requirement \<Rightarrow> bool" where
  "provider_name_satisfies name SoftwareAllowed \<longleftrightarrow> name \<noteq> []"
| "provider_name_satisfies name HardwareRequired \<longleftrightarrow> name = lit ''Microsoft Platform Crypto Provider''
     \<or> name = lit ''Microsoft Smart Card Key Storage Provider''"
| "provider_name_satisfies name TpmRequired \<longleftrightarrow> name = lit ''Microsoft Platform Crypto Provider''"

subsection \<open>Digests\<close>

definition namespace_policy_digest ::
  "str \<Rightarrow> u64 \<Rightarrow> str \<Rightarrow> u16 \<Rightarrow> u16 \<Rightarrow> u32 \<Rightarrow> provider_requirement \<Rightarrow> fed_error + bytes" where
  "namespace_policy_digest namespace version controller controller_role authority_role quorum requirement =
     rbind (fed_validate_text (lit ''namespace'') namespace) (\<lambda>_.
     rbind (fed_validate_text (lit ''controller_key_id'') controller) (\<lambda>_.
     if version = 0 \<or> controller_role = 0 \<or> authority_role = 0 \<or> quorum = 0
     then Inl (Fed_Invalid (lit ''invalid namespace policy fields''))
     else Inr (sha256 (POLICY_DOMAIN @ u64_le version @ u16_le controller_role @ u16_le authority_role @ u32_le quorum
       @ [requirement_code requirement] @ u32_le (of_nat (length namespace)) @ u32_le (of_nat (length controller))
       @ namespace @ controller))))"

definition namespace_policy_subject_digest :: "bytes \<Rightarrow> bytes" where
  "namespace_policy_subject_digest policy_digest = sha256 (POLICY_DOMAIN @ policy_digest)"

definition authority_subject_digest ::
  "federation_event_kind \<Rightarrow> str \<Rightarrow> str \<Rightarrow> u32 \<Rightarrow> bytes \<Rightarrow> fed_error + bytes" where
  "authority_subject_digest kind namespace key_id weight policy_digest =
     (if \<not> (kind = AuthorityEnroll \<or> kind = AuthorityRevoke) \<or> weight = 0 \<or> policy_digest = replicate 32 0
      then Inl (Fed_Invalid (lit ''invalid authority subject fields''))
      else
        rbind (fed_validate_text (lit ''namespace'') namespace) (\<lambda>_.
        rbind (fed_validate_text (lit ''key_id'') key_id) (\<lambda>_.
        Inr (sha256 (AUTHORITY_DOMAIN @ [fed_kind_code kind] @ u32_le weight @ policy_digest
          @ u32_le (of_nat (length namespace)) @ u32_le (of_nat (length key_id)) @ namespace @ key_id)))))"

definition bundle_subject_digest :: "str \<Rightarrow> u64 \<Rightarrow> u64 \<Rightarrow> bytes \<Rightarrow> bytes \<Rightarrow> bytes \<Rightarrow> fed_error + bytes" where
  "bundle_subject_digest namespace policy_version bundle_version policy_digest parent bundle =
     rbind (fed_validate_text (lit ''namespace'') namespace) (\<lambda>_.
     if policy_version = 0 \<or> bundle_version = 0 \<or> policy_digest = replicate 32 0 \<or> bundle = replicate 32 0
     then Inl (Fed_Invalid (lit ''invalid bundle subject fields''))
     else Inr (sha256 (BUNDLE_DOMAIN @ u64_le policy_version @ u64_le bundle_version @ policy_digest @ parent @ bundle
       @ u32_le (of_nat (length namespace)) @ namespace)))"

subsection \<open>References to authorisations\<close>

definition authorization_by_sequence :: "authorization_ledger \<Rightarrow> u64 \<Rightarrow> fed_error + authorization" where
  "authorization_by_sequence authorizations seqno =
     ok_or (Fed_Invalid (lit ''authorization sequence not found: '' @ dec_bytes (unat seqno)))
       (find_authorization authorizations seqno)"

definition verify_authorization_reference ::
  "signature_check \<Rightarrow> key_registry \<Rightarrow> authorization_ledger \<Rightarrow> u64 \<Rightarrow> u8 \<Rightarrow> u16 \<Rightarrow> bytes \<Rightarrow> str option \<Rightarrow>
   fed_error + authorization" where
  "verify_authorization_reference bcrypt registry authorizations seqno domain_code role_mask subject expected_key =
     rbind (authorization_by_sequence authorizations seqno) (\<lambda>event.
     if au_domain_code event \<noteq> domain_code \<or> au_required_role_mask event \<noteq> role_mask
        \<or> au_subject_digest event \<noteq> subject
        \<or> (case expected_key of Some key \<Rightarrow> key \<noteq> au_key_id event | None \<Rightarrow> False)
     then Inl (Fed_Invalid (lit ''authorization reference fields do not match federation event''))
     else
       rbind (map_err (\<lambda>error. Fed_Integrity (asym_display error)) (verify_sequence bcrypt authorizations seqno registry))
         (\<lambda>valid.
       if \<not> valid then Inl (Fed_Integrity (lit ''authorization reference signature is invalid''))
       else
         rbind (ok_or (Fed_Integrity (lit ''authorization registry head cannot resolve signer''))
                  (state_at_head registry (au_key_registry_head event) (au_key_id event))) (\<lambda>state.
         if \<not> has_role state role_mask \<or> ks_public_key_digest state \<noteq> au_public_key_digest event
         then Inl (Fed_Integrity (lit ''authorization signer state mismatch''))
         else Inr event)))"

subsection \<open>Encoding\<close>

definition fed_payload :: "u16 \<Rightarrow> federation_event \<Rightarrow> bytes" where
  "fed_payload reserved e = FED_PAYLOAD_MAGIC @ [fed_kind_code (fe_kind e), requirement_code (fe_provider_requirement e)]
     @ u16_le reserved @ u16_le (fe_controller_role_mask e) @ u16_le (fe_authority_role_mask e) @ u32_le (fe_weight e)
     @ u32_le (fe_quorum_weight e) @ u64_le (fe_logical_timestamp e) @ u64_le (fe_policy_version e)
     @ u64_le (fe_bundle_version e) @ u64_le (fe_controller_authorization_sequence e)
     @ u32_le (of_nat (length (fe_namespace e))) @ u32_le (of_nat (length (fe_key_id e)))
     @ u32_le (of_nat (length (fe_controller_key_id e))) @ u32_le (of_nat (length (fe_approval_sequences e)))
     @ fe_policy_digest e @ fe_parent_bundle_digest e @ fe_bundle_digest e @ fe_subject_digest e
     @ fe_namespace e @ fe_key_id e @ fe_controller_key_id e @ concat (map u64_le (fe_approval_sequences e))"

definition fed_encode_payload :: "federation_event \<Rightarrow> fed_error + bytes" where
  "fed_encode_payload e =
     (if 1024 < length (fe_namespace e) then Inl (Fed_Invalid (lit ''namespace too long''))
      else if 1024 < length (fe_key_id e) then Inl (Fed_Invalid (lit ''key_id too long''))
      else if 1024 < length (fe_controller_key_id e) then Inl (Fed_Invalid (lit ''controller_key_id too long''))
      else if FED_MAX_PAYLOAD < length (fed_payload 0 e) then Inl (Fed_Invalid (lit ''federation payload too large''))
      else Inr (fed_payload 0 e))"

text \<open>The cursor over a payload is the pair of the bytes that are left and the offset.\<close>

type_synonym fed_cursor = "bytes \<times> nat"

definition fed_take :: "nat \<Rightarrow> fed_cursor \<Rightarrow> fed_error + bytes \<times> fed_cursor" where
  "fed_take count c = (case c of (rest, offset) \<Rightarrow>
     rbind (ok_or (Fed_Invalid (lit ''cursor overflow'')) (checked_add offset count)) (\<lambda>stop.
     if length rest < count then Inl (Fed_Truncated (lit ''federation payload'') offset)
     else Inr (take count rest, (drop count rest, stop))))"

definition fed_u8 :: "fed_cursor \<Rightarrow> fed_error + u8 \<times> fed_cursor" where
  "fed_u8 c = rbind (fed_take 1 c) (\<lambda>(v, c). Inr (v ! 0, c))"

definition fed_u16 :: "fed_cursor \<Rightarrow> fed_error + u16 \<times> fed_cursor" where
  "fed_u16 c = rbind (fed_take 2 c) (\<lambda>(v, c). Inr (from_le v, c))"

definition fed_u32 :: "fed_cursor \<Rightarrow> fed_error + u32 \<times> fed_cursor" where
  "fed_u32 c = rbind (fed_take 4 c) (\<lambda>(v, c). Inr (from_le v, c))"

definition fed_u64 :: "fed_cursor \<Rightarrow> fed_error + u64 \<times> fed_cursor" where
  "fed_u64 c = rbind (fed_take 8 c) (\<lambda>(v, c). Inr (from_le v, c))"

definition fed_digest :: "fed_cursor \<Rightarrow> fed_error + bytes \<times> fed_cursor" where
  "fed_digest c = fed_take 32 c"

definition fed_string :: "nat \<Rightarrow> fed_cursor \<Rightarrow> fed_error + str \<times> fed_cursor" where
  "fed_string len c = rbind (fed_take len c) (\<lambda>(v, c).
     if \<not> utf8_valid v then Inl (Fed_Invalid (lit ''invalid UTF-8 string'')) else Inr (v, c))"

fun fed_u64s :: "nat \<Rightarrow> fed_cursor \<Rightarrow> fed_error + u64 list \<times> fed_cursor" where
  "fed_u64s 0 c = Inr ([], c)"
| "fed_u64s (Suc n) c = rbind (fed_u64 c) (\<lambda>(v, c). rbind (fed_u64s n c) (\<lambda>(vs, c). Inr (v # vs, c)))"

definition fed_decode_payload :: "bytes \<Rightarrow> fed_error + federation_event" where
  "fed_decode_payload bs =
     rbind (fed_take 8 (bs, 0)) (\<lambda>(magic, c).
     if magic \<noteq> FED_PAYLOAD_MAGIC then Inl (Fed_Integrity (lit ''payload magic mismatch''))
     else
       rbind (fed_u8 c) (\<lambda>(code, c). rbind (fed_kind_from_code code) (\<lambda>kind.
       rbind (fed_u8 c) (\<lambda>(code, c). rbind (requirement_from_code code) (\<lambda>requirement.
       rbind (fed_u16 c) (\<lambda>(reserved, c).
       rbind (fed_u16 c) (\<lambda>(controller_role, c). rbind (fed_u16 c) (\<lambda>(authority_role, c).
       rbind (fed_u32 c) (\<lambda>(weight, c). rbind (fed_u32 c) (\<lambda>(quorum, c).
       rbind (fed_u64 c) (\<lambda>(timestamp, c). rbind (fed_u64 c) (\<lambda>(policy_version, c).
       rbind (fed_u64 c) (\<lambda>(bundle_version, c). rbind (fed_u64 c) (\<lambda>(controller_auth, c).
       rbind (fed_u32 c) (\<lambda>(namespace_len, c). rbind (fed_u32 c) (\<lambda>(key_id_len, c).
       rbind (fed_u32 c) (\<lambda>(controller_len, c). rbind (fed_u32 c) (\<lambda>(approval_count, c).
       if 1024 < unat namespace_len \<or> 1024 < unat key_id_len \<or> 1024 < unat controller_len
          \<or> 1000000 < unat approval_count
       then Inl (Fed_Invalid (lit ''payload length limit exceeded''))
       else
         rbind (fed_digest c) (\<lambda>(policy_digest, c). rbind (fed_digest c) (\<lambda>(parent, c).
         rbind (fed_digest c) (\<lambda>(bundle, c). rbind (fed_digest c) (\<lambda>(subject, c).
         rbind (fed_string (unat namespace_len) c) (\<lambda>(namespace, c).
         rbind (fed_string (unat key_id_len) c) (\<lambda>(key_id, c).
         rbind (fed_string (unat controller_len) c) (\<lambda>(controller, c).
         rbind (fed_u64s (unat approval_count) c) (\<lambda>(approvals, c).
         if fst c \<noteq> [] then Inl (Fed_Integrity (lit ''payload trailing bytes''))
         else Inr \<lparr>fe_sequence = 0, fe_kind = kind, fe_logical_timestamp = timestamp, fe_namespace = namespace,
           fe_key_id = key_id, fe_controller_key_id = controller, fe_controller_role_mask = controller_role,
           fe_authority_role_mask = authority_role, fe_weight = weight, fe_quorum_weight = quorum,
           fe_provider_requirement = requirement, fe_policy_version = policy_version, fe_bundle_version = bundle_version,
           fe_policy_digest = policy_digest, fe_parent_bundle_digest = parent, fe_bundle_digest = bundle,
           fe_subject_digest = subject, fe_controller_authorization_sequence = controller_auth,
           fe_approval_sequences = approvals, fe_previous_digest = replicate 32 0,
           fe_frame_digest = replicate 32 0\<rparr>))))))))))))))))))))))))))"

subsection \<open>Frames\<close>

definition fed_encode_frame :: "u64 \<Rightarrow> bytes \<Rightarrow> bytes \<Rightarrow> bytes \<Rightarrow> bytes \<Rightarrow> fed_error + bytes" where
  "fed_encode_frame = encode_chain_frame (Fed_Invalid (lit ''frame payload too large'')) FED_MAX_PAYLOAD FED_FILE_MAGIC"

text \<open>The bytes 10 to 12 and 128 to 144 of a header are not looked at.\<close>

definition fed_frame_header :: "nat \<Rightarrow> bytes \<Rightarrow> bytes \<Rightarrow> fed_error + nat" where
  "fed_frame_header n head header =
     (if slice header 0 8 \<noteq> FED_FILE_MAGIC \<or> from_le (slice header 8 10) \<noteq> (1 :: u16)
         \<or> from_le (slice header 12 16) \<noteq> (144 :: u32)
      then Inl (Fed_Integrity (lit ''frame header mismatch''))
      else
        let seqno = from_le (slice header 16 24) :: u64; payload_len = unat (from_le (slice header 24 32) :: u64) in
        if seqno \<noteq> of_nat n + 1 \<or> FED_MAX_PAYLOAD < payload_len
        then Inl (Fed_Integrity (lit ''frame sequence or size mismatch''))
        else if slice header 32 64 \<noteq> head
           \<or> slice header 96 128 \<noteq> compute_frame_digest FED_FRAME_DOMAIN seqno (slice header 32 64) (slice header 64 96)
        then Inl (Fed_Integrity (lit ''frame chain mismatch''))
        else Inr payload_len)"

definition fed_frame_body :: "bytes \<Rightarrow> bytes \<Rightarrow> fed_error + unit" where
  "fed_frame_body header payload =
     (if sha256 payload \<noteq> slice header 64 96 then Inl (Fed_Integrity (lit ''payload digest mismatch'')) else Inr ())"

definition fed_reader :: "fed_error chain_reader" where
  "fed_reader = \<lparr>cr_short = (\<lambda>offset remaining. Fed_Truncated (lit ''frame header'') offset),
     cr_header = (\<lambda>offset. fed_frame_header), cr_overflow = Fed_Invalid (lit ''payload offset overflow''),
     cr_cut = (\<lambda>offset remaining. Fed_Truncated (lit ''frame payload'') (offset + 144)), cr_body = fed_frame_body\<rparr>"

subsection \<open>Validation of an event\<close>

definition policy_for_event :: "federation_ledger \<Rightarrow> federation_event \<Rightarrow> fed_error + namespace_policy" where
  "policy_for_event l e =
     rbind (ok_or (Fed_Invalid (lit ''namespace policy not found'')) (bt_get (fl_policies l) (fe_namespace e))) (\<lambda>policy.
     if np_policy_version policy \<noteq> fe_policy_version e \<or> np_policy_digest policy \<noteq> fe_policy_digest e
        \<or> np_controller_key_id policy \<noteq> fe_controller_key_id e
        \<or> np_controller_role_mask policy \<noteq> fe_controller_role_mask e
        \<or> np_authority_role_mask policy \<noteq> fe_authority_role_mask e
        \<or> np_quorum_weight policy \<noteq> fe_quorum_weight e
        \<or> np_provider_requirement policy \<noteq> fe_provider_requirement e
     then Inl (Fed_Integrity (lit ''event policy snapshot mismatch''))
     else Inr policy)"

definition authority_active :: "federation_ledger \<Rightarrow> str \<Rightarrow> str \<Rightarrow> bool" where
  "authority_active l namespace key_id =
     (case bt_get (fl_authorities l) (namespace, key_id) of Some state \<Rightarrow> as_active state | None \<Rightarrow> False)"

text \<open>
  The match on the accepted bundle: the first version has no parent, a later one follows the
  accepted version and names its digest.
\<close>

definition bundle_follows :: "federation_ledger \<Rightarrow> str \<Rightarrow> u64 \<Rightarrow> bytes \<Rightarrow> bool" where
  "bundle_follows l namespace version parent =
     (case bt_get (fl_accepted l) namespace of
        None \<Rightarrow> version = 1 \<and> parent = replicate 32 0
      | Some previous \<Rightarrow> version = ab_bundle_version previous + 1 \<and> parent = ab_bundle_digest previous)"

text \<open>
  The loop over the approvals of a bundle in \<open>validate_event\<close>; the accumulators are the last
  sequence number, the keys and authorisations seen, and the weight, a \<open>u64\<close> with checked addition.
\<close>

fun validate_approvals ::
  "signature_check \<Rightarrow> key_registry \<Rightarrow> authorization_ledger \<Rightarrow> federation_ledger \<Rightarrow> namespace_policy \<Rightarrow> str \<Rightarrow> bytes \<Rightarrow>
   u64 list \<Rightarrow> u64 \<Rightarrow> str list \<Rightarrow> bytes list \<Rightarrow> nat \<Rightarrow> fed_error + nat" where
  "validate_approvals bcrypt registry authorizations l policy namespace subject [] prior keys ids total_weight = Inr total_weight"
| "validate_approvals bcrypt registry authorizations l policy namespace subject (seqno # rest) prior keys ids total_weight =
     (if seqno \<le> prior then Inl (Fed_Invalid (lit ''bundle approvals are not strictly ordered''))
      else
        rbind (verify_authorization_reference bcrypt registry authorizations seqno DOMAIN_FEDERATION_BUNDLE
                 (np_authority_role_mask policy) subject None) (\<lambda>authorization.
        let key = au_key_id authorization; eid = au_event_id authorization in
        if key \<in> set keys \<or> eid \<in> set (fl_used_authorization_ids l) \<or> eid \<in> set ids
        then Inl (Fed_Invalid (lit ''duplicate key or reused authorization''))
        else
          rbind (ok_or (Fed_Invalid (lit ''approval authority not enrolled''))
                   (bt_get (fl_authorities l) (namespace, key))) (\<lambda>authority.
          if \<not> as_active authority then Inl (Fed_Invalid (lit ''approval authority is revoked''))
          else
            rbind (ok_or (Fed_Integrity (lit ''approval historical key missing''))
                     (state_at_head registry (au_key_registry_head authorization) key)) (\<lambda>historical.
            if \<not> provider_name_satisfies (ks_provider_name historical) (np_provider_requirement policy)
            then Inl (Fed_Invalid (lit ''approval provider violates policy''))
            else
              rbind (ok_or (Fed_Invalid (lit ''quorum weight overflow'')) (checked_add total_weight (unat (as_weight authority))))
                (\<lambda>total_weight. validate_approvals bcrypt registry authorizations l policy namespace subject rest seqno
                   (bset_insert key keys) (bset_insert eid ids) total_weight)))))"

definition validate_policy_set ::
  "signature_check \<Rightarrow> key_registry \<Rightarrow> authorization_ledger \<Rightarrow> federation_ledger \<Rightarrow> federation_event \<Rightarrow> fed_error + unit" where
  "validate_policy_set bcrypt registry authorizations l e =
     (if bt_get (fl_policies l) (fe_namespace e) \<noteq> None \<or> fe_policy_version e \<noteq> 1 \<or> fe_controller_role_mask e = 0
         \<or> fe_authority_role_mask e = 0 \<or> fe_quorum_weight e = 0
      then Inl (Fed_Invalid (lit ''invalid initial namespace policy event''))
      else
        rbind (namespace_policy_digest (fe_namespace e) (fe_policy_version e) (fe_controller_key_id e)
                 (fe_controller_role_mask e) (fe_authority_role_mask e) (fe_quorum_weight e) (fe_provider_requirement e))
          (\<lambda>expected.
        if expected \<noteq> fe_policy_digest e \<or> namespace_policy_subject_digest expected \<noteq> fe_subject_digest e
        then Inl (Fed_Integrity (lit ''namespace policy digest mismatch''))
        else
          rbind (verify_authorization_reference bcrypt registry authorizations (fe_controller_authorization_sequence e)
                   DOMAIN_POLICY_REGISTER (fe_controller_role_mask e) (fe_subject_digest e)
                   (Some (fe_controller_key_id e))) (\<lambda>authorization.
          rbind (ok_or (Fed_Integrity (lit ''controller key missing at policy authorization head''))
                   (state_at_head registry (au_key_registry_head authorization) (fe_controller_key_id e))) (\<lambda>state.
          if \<not> provider_name_satisfies (ks_provider_name state) (fe_provider_requirement e)
          then Inl (Fed_Invalid (lit ''controller provider violates namespace policy''))
          else Inr ()))))"

definition validate_authority_enroll ::
  "signature_check \<Rightarrow> key_registry \<Rightarrow> authorization_ledger \<Rightarrow> federation_ledger \<Rightarrow> federation_event \<Rightarrow> fed_error + unit" where
  "validate_authority_enroll bcrypt registry authorizations l e =
     rbind (policy_for_event l e) (\<lambda>policy.
     if fe_weight e = 0 \<or> authority_active l (fe_namespace e) (fe_key_id e)
     then Inl (Fed_Invalid (lit ''invalid authority enrollment state''))
     else
       rbind (authority_subject_digest (fe_kind e) (fe_namespace e) (fe_key_id e) (fe_weight e) (np_policy_digest policy))
         (\<lambda>expected.
       if expected \<noteq> fe_subject_digest e then Inl (Fed_Integrity (lit ''authority enrollment subject mismatch''))
       else
         rbind (verify_authorization_reference bcrypt registry authorizations (fe_controller_authorization_sequence e)
                  DOMAIN_POLICY_REGISTER (np_controller_role_mask policy) (fe_subject_digest e)
                  (Some (np_controller_key_id policy))) (\<lambda>authorization.
         rbind (ok_or (Fed_Invalid (lit ''authority key not found at controller authorization head''))
                  (state_at_head registry (au_key_registry_head authorization) (fe_key_id e))) (\<lambda>state.
         if \<not> has_role state (np_authority_role_mask policy)
            \<or> \<not> provider_name_satisfies (ks_provider_name state) (np_provider_requirement policy)
         then Inl (Fed_Invalid (lit ''authority key fails namespace policy''))
         else Inr ()))))"

definition validate_authority_revoke ::
  "signature_check \<Rightarrow> key_registry \<Rightarrow> authorization_ledger \<Rightarrow> federation_ledger \<Rightarrow> federation_event \<Rightarrow> fed_error + unit" where
  "validate_authority_revoke bcrypt registry authorizations l e =
     rbind (policy_for_event l e) (\<lambda>policy.
     rbind (ok_or (Fed_Invalid (lit ''authority to revoke not found''))
              (bt_get (fl_authorities l) (fe_namespace e, fe_key_id e))) (\<lambda>current.
     if \<not> as_active current \<or> as_weight current \<noteq> fe_weight e
     then Inl (Fed_Invalid (lit ''authority revoke state mismatch''))
     else
       rbind (authority_subject_digest (fe_kind e) (fe_namespace e) (fe_key_id e) (fe_weight e) (np_policy_digest policy))
         (\<lambda>expected.
       if expected \<noteq> fe_subject_digest e then Inl (Fed_Integrity (lit ''authority revoke subject mismatch''))
       else
         rbind (verify_authorization_reference bcrypt registry authorizations (fe_controller_authorization_sequence e)
                  DOMAIN_POLICY_REVOKE (np_controller_role_mask policy) (fe_subject_digest e)
                  (Some (np_controller_key_id policy))) (\<lambda>_. Inr ()))))"

definition validate_bundle_accept ::
  "signature_check \<Rightarrow> key_registry \<Rightarrow> authorization_ledger \<Rightarrow> federation_ledger \<Rightarrow> federation_event \<Rightarrow> fed_error + unit" where
  "validate_bundle_accept bcrypt registry authorizations l e =
     rbind (policy_for_event l e) (\<lambda>policy.
     if fe_policy_version e \<noteq> np_policy_version policy \<or> fe_policy_digest e \<noteq> np_policy_digest policy
        \<or> fe_bundle_digest e = replicate 32 0
     then Inl (Fed_Invalid (lit ''bundle policy binding mismatch''))
     else if \<not> bundle_follows l (fe_namespace e) (fe_bundle_version e) (fe_parent_bundle_digest e)
     then Inl (Fed_Invalid (lit ''bundle chain mismatch''))
     else
       rbind (bundle_subject_digest (fe_namespace e) (fe_policy_version e) (fe_bundle_version e) (fe_policy_digest e)
                (fe_parent_bundle_digest e) (fe_bundle_digest e)) (\<lambda>expected.
       if expected \<noteq> fe_subject_digest e then Inl (Fed_Integrity (lit ''bundle subject mismatch''))
       else
         rbind (validate_approvals bcrypt registry authorizations l policy (fe_namespace e) (fe_subject_digest e)
                  (fe_approval_sequences e) 0 [] [] 0) (\<lambda>total_weight.
         if total_weight < unat (np_quorum_weight policy) then Inl (Fed_Invalid (lit ''bundle quorum not reached''))
         else Inr ())))"

definition fed_validate_event ::
  "signature_check \<Rightarrow> key_registry \<Rightarrow> authorization_ledger \<Rightarrow> federation_ledger \<Rightarrow> federation_event \<Rightarrow> fed_error + unit" where
  "fed_validate_event bcrypt registry authorizations l e =
     rbind (fed_validate_text (lit ''namespace'') (fe_namespace e)) (\<lambda>_.
     case fe_kind e of
       NamespacePolicySet \<Rightarrow> validate_policy_set bcrypt registry authorizations l e
     | AuthorityEnroll \<Rightarrow> validate_authority_enroll bcrypt registry authorizations l e
     | AuthorityRevoke \<Rightarrow> validate_authority_revoke bcrypt registry authorizations l e
     | BundleAccept \<Rightarrow> validate_bundle_accept bcrypt registry authorizations l e)"

subsection \<open>Application of an event\<close>

text \<open>Each application gives the outcome and the ledger as it is then, since it changes the ledger in place.\<close>

fun use_approvals :: "authorization_ledger \<Rightarrow> u64 list \<Rightarrow> bytes list \<Rightarrow> (fed_error + unit) \<times> bytes list" where
  "use_approvals authorizations [] used = (Inr (), used)"
| "use_approvals authorizations (seqno # rest) used =
     (case authorization_by_sequence authorizations seqno of
        Inl e \<Rightarrow> (Inl e, used)
      | Inr authorization \<Rightarrow> use_approvals authorizations rest (bset_insert (au_event_id authorization) used))"

definition fed_apply_event ::
  "authorization_ledger \<Rightarrow> federation_event \<Rightarrow> federation_ledger \<Rightarrow> (fed_error + unit) \<times> federation_ledger" where
  "fed_apply_event authorizations e l =
     (case fe_kind e of
        NamespacePolicySet \<Rightarrow> (Inr (), l\<lparr>fl_policies := bt_insert (fe_namespace e)
          \<lparr>np_namespace = fe_namespace e, np_policy_version = fe_policy_version e,
           np_controller_key_id = fe_controller_key_id e, np_controller_role_mask = fe_controller_role_mask e,
           np_authority_role_mask = fe_authority_role_mask e, np_quorum_weight = fe_quorum_weight e,
           np_provider_requirement = fe_provider_requirement e, np_policy_digest = fe_policy_digest e\<rparr> (fl_policies l)\<rparr>)
      | AuthorityEnroll \<Rightarrow> (Inr (), l\<lparr>fl_authorities := bt_insert (fe_namespace e, fe_key_id e)
          \<lparr>as_namespace = fe_namespace e, as_key_id = fe_key_id e, as_role_mask = fe_authority_role_mask e,
           as_weight = fe_weight e, as_active = True, as_last_event_sequence = fe_sequence e\<rparr> (fl_authorities l)\<rparr>)
      | AuthorityRevoke \<Rightarrow>
          (case bt_get (fl_authorities l) (fe_namespace e, fe_key_id e) of
             None \<Rightarrow> (Inl (Fed_Integrity (lit ''authority missing during apply'')), l)
           | Some state \<Rightarrow> (Inr (), l\<lparr>fl_authorities := bt_insert (fe_namespace e, fe_key_id e)
               (state\<lparr>as_active := False, as_last_event_sequence := fe_sequence e\<rparr>) (fl_authorities l)\<rparr>))
      | BundleAccept \<Rightarrow>
          (case use_approvals authorizations (fe_approval_sequences e) (fl_used_authorization_ids l) of
             (Inl err, used) \<Rightarrow> (Inl err, l\<lparr>fl_used_authorization_ids := used\<rparr>)
           | (Inr _, used) \<Rightarrow> (Inr (), l\<lparr>fl_used_authorization_ids := used, fl_accepted := bt_insert (fe_namespace e)
               \<lparr>ab_namespace = fe_namespace e, ab_policy_version = fe_policy_version e,
                ab_bundle_version = fe_bundle_version e, ab_bundle_digest = fe_bundle_digest e,
                ab_event_sequence = fe_sequence e\<rparr> (fl_accepted l)\<rparr>)))"

definition fed_record :: "federation_ledger \<Rightarrow> federation_event \<Rightarrow> federation_ledger" where
  "fed_record l e = l\<lparr>fl_last_timestamp := fe_logical_timestamp e, fl_head_digest := fe_frame_digest e,
     fl_events := fl_events l @ [e]\<rparr>"

subsection \<open>Append and replay\<close>

definition fed_empty :: "path \<Rightarrow> federation_ledger" where
  "fed_empty p = \<lparr>fl_path = p, fl_events = [], fl_policies = [], fl_authorities = [], fl_accepted = [],
     fl_used_authorization_ids = [], fl_head_digest = replicate 32 0, fl_last_timestamp = 0\<rparr>"

record federation_receipt =
  fr_changed :: bool
  fr_sequence :: u64
  fr_event_kind :: federation_event_kind
  fr_namespace :: str
  fr_subject_digest :: bytes
  fr_frame_digest :: bytes

definition fed_append ::
  "signature_check \<Rightarrow> key_registry \<Rightarrow> authorization_ledger \<Rightarrow> federation_event \<Rightarrow> federation_ledger \<Rightarrow> fsys \<Rightarrow>
   (fed_error + federation_receipt) \<times> federation_ledger \<times> fsys" where
  "fed_append bcrypt registry authorizations event l fs =
     (if fe_logical_timestamp event \<le> fl_last_timestamp l
      then (Inl (Fed_Invalid (lit ''federation timestamps must be strictly increasing'')), l, fs)
      else
        let event = event\<lparr>fe_sequence := of_nat (length (fl_events l)) + 1, fe_previous_digest := fl_head_digest l\<rparr> in
        case fed_validate_event bcrypt registry authorizations l event of
          Inl e \<Rightarrow> (Inl e, l, fs)
        | Inr _ \<Rightarrow>
        case fed_encode_payload event of
          Inl e \<Rightarrow> (Inl e, l, fs)
        | Inr payload \<Rightarrow>
        let payload_digest = sha256 payload;
            event = event\<lparr>fe_frame_digest := compute_frame_digest FED_FRAME_DOMAIN (fe_sequence event)
              (fe_previous_digest event) payload_digest\<rparr> in
        case fed_encode_frame (fe_sequence event) (fe_previous_digest event) payload_digest (fe_frame_digest event) payload of
          Inl e \<Rightarrow> (Inl e, l, fs)
        | Inr frame \<Rightarrow>
        case write_all (fl_path l) frame fs of
          (Inl e, fs) \<Rightarrow> (Inl (Fed_Io e), l, fs)
        | (Inr _, fs) \<Rightarrow>
        case fed_apply_event authorizations event l of
          (Inl e, l) \<Rightarrow> (Inl e, l, fs)
        | (Inr _, l) \<Rightarrow>
          (Inr \<lparr>fr_changed = True, fr_sequence = fe_sequence event, fr_event_kind = fe_kind event,
             fr_namespace = fe_namespace event, fr_subject_digest = fe_subject_digest event,
             fr_frame_digest = fe_frame_digest event\<rparr>, fed_record l event, fs))"

definition fed_replay_frame ::
  "signature_check \<Rightarrow> key_registry \<Rightarrow> authorization_ledger \<Rightarrow> federation_ledger \<Rightarrow> chain_frame \<Rightarrow>
   fed_error + federation_ledger" where
  "fed_replay_frame bcrypt registry authorizations l frame =
     rbind (fed_decode_payload (cf_payload frame)) (\<lambda>event.
     let event = event\<lparr>fe_sequence := cf_sequence frame, fe_previous_digest := cf_previous frame,
                   fe_frame_digest := cf_digest frame\<rparr> in
     if fe_sequence event \<noteq> of_nat (length (fl_events l)) + 1 \<or> fe_previous_digest event \<noteq> fl_head_digest l
        \<or> fe_logical_timestamp event \<le> fl_last_timestamp l
     then Inl (Fed_Integrity (lit ''federation replay order mismatch''))
     else
       rbind (fed_validate_event bcrypt registry authorizations l event) (\<lambda>_.
       case fed_apply_event authorizations event l of
         (Inl e, l) \<Rightarrow> Inl e
       | (Inr _, l) \<Rightarrow> Inr (fed_record l event)))"

definition fed_create :: "path \<Rightarrow> (fed_error, federation_ledger) io" where
  "fed_create path =
     io_bind (case path_parent path of
                Some parent \<Rightarrow> io_map_err Fed_Io (create_dir_all parent)
              | None \<Rightarrow> io_ret ()) (\<lambda>_.
     io_bind (io_map_err Fed_Io (create_new path [])) (\<lambda>_.
     io_ret (fed_empty path)))"

definition fed_open_strict ::
  "signature_check \<Rightarrow> path \<Rightarrow> key_registry \<Rightarrow> authorization_ledger \<Rightarrow> (fed_error, federation_ledger) io" where
  "fed_open_strict bcrypt path registry authorizations fs =
     (if fget fs path = None
      then (Inl (Fed_Invalid (lit ''federation ledger missing: '' @ path_display path)), fs)
      else
        io_bind (io_query (\<lambda>fs. map_err Fed_Io (fs_read path fs))) (\<lambda>bytes.
        io_pure (chain_replay fed_reader (fed_replay_frame bcrypt registry authorizations) (fed_empty path) bytes)) fs)"

subsection \<open>Operations\<close>

text \<open>The checks of an operation build the event; \<open>append\<close> then validates it once more.\<close>

definition fed_submit ::
  "signature_check \<Rightarrow> key_registry \<Rightarrow> authorization_ledger \<Rightarrow> fed_error + federation_event \<Rightarrow> federation_ledger \<Rightarrow> fsys \<Rightarrow>
   (fed_error + federation_receipt) \<times> federation_ledger \<times> fsys" where
  "fed_submit bcrypt registry authorizations built l fs =
     (case built of
        Inl e \<Rightarrow> (Inl e, l, fs)
      | Inr event \<Rightarrow> fed_append bcrypt registry authorizations event l fs)"

definition policy_not_found :: "str \<Rightarrow> fed_error" where
  "policy_not_found namespace = Fed_Invalid (lit ''namespace policy not found: '' @ namespace)"

text \<open>An event that carries a snapshot of the policy of its namespace.\<close>

definition policy_event ::
  "federation_event_kind \<Rightarrow> u64 \<Rightarrow> str \<Rightarrow> str \<Rightarrow> namespace_policy \<Rightarrow> u32 \<Rightarrow> u64 \<Rightarrow> bytes \<Rightarrow> bytes \<Rightarrow> bytes \<Rightarrow> u64 \<Rightarrow>
   u64 list \<Rightarrow> federation_event" where
  "policy_event kind timestamp namespace key_id policy weight bundle_version parent bundle subject controller_auth approvals =
     \<lparr>fe_sequence = 0, fe_kind = kind, fe_logical_timestamp = timestamp, fe_namespace = namespace, fe_key_id = key_id,
      fe_controller_key_id = np_controller_key_id policy, fe_controller_role_mask = np_controller_role_mask policy,
      fe_authority_role_mask = np_authority_role_mask policy, fe_weight = weight,
      fe_quorum_weight = np_quorum_weight policy, fe_provider_requirement = np_provider_requirement policy,
      fe_policy_version = np_policy_version policy, fe_bundle_version = bundle_version,
      fe_policy_digest = np_policy_digest policy, fe_parent_bundle_digest = parent, fe_bundle_digest = bundle,
      fe_subject_digest = subject, fe_controller_authorization_sequence = controller_auth,
      fe_approval_sequences = approvals, fe_previous_digest = replicate 32 0, fe_frame_digest = replicate 32 0\<rparr>"

definition set_namespace_policy where
  "set_namespace_policy bcrypt registry authorizations namespace policy_version controller controller_role authority_role
     quorum requirement controller_auth timestamp l =
     fed_submit bcrypt registry authorizations (
       rbind (fed_validate_text (lit ''namespace'') namespace) (\<lambda>_.
       rbind (fed_validate_text (lit ''controller_key_id'') controller) (\<lambda>_.
       if bt_get (fl_policies l) namespace \<noteq> None \<or> policy_version \<noteq> 1 \<or> controller_role = 0 \<or> authority_role = 0
          \<or> quorum = 0
       then Inl (Fed_Invalid (lit ''namespace policy must be initial version 1 with nonzero roles and quorum''))
       else
         rbind (namespace_policy_digest namespace policy_version controller controller_role authority_role quorum
                  requirement) (\<lambda>policy_digest.
         let subject = namespace_policy_subject_digest policy_digest;
             policy = \<lparr>np_namespace = namespace, np_policy_version = policy_version, np_controller_key_id = controller,
               np_controller_role_mask = controller_role, np_authority_role_mask = authority_role,
               np_quorum_weight = quorum, np_provider_requirement = requirement, np_policy_digest = policy_digest\<rparr> in
         rbind (verify_authorization_reference bcrypt registry authorizations controller_auth DOMAIN_POLICY_REGISTER
                  controller_role subject (Some controller)) (\<lambda>_.
         Inr (policy_event NamespacePolicySet timestamp namespace [] policy 0 0 (replicate 32 0) (replicate 32 0)
                subject controller_auth [])))))) l"

definition enroll_authority where
  "enroll_authority bcrypt registry authorizations namespace key_id weight controller_auth timestamp l =
     fed_submit bcrypt registry authorizations (
       rbind (fed_validate_text (lit ''namespace'') namespace) (\<lambda>_.
       rbind (fed_validate_text (lit ''key_id'') key_id) (\<lambda>_.
       if weight = 0 then Inl (Fed_Invalid (lit ''authority weight cannot be zero''))
       else
         rbind (ok_or (policy_not_found namespace) (bt_get (fl_policies l) namespace)) (\<lambda>policy.
         if authority_active l namespace key_id then Inl (Fed_Invalid (lit ''authority is already active''))
         else
           rbind (ok_or (Fed_Invalid (lit ''authority key not found: '' @ key_id)) (bt_get (kr_states registry) key_id))
             (\<lambda>key_state.
           if \<not> has_role key_state (np_authority_role_mask policy)
              \<or> \<not> provider_name_satisfies (ks_provider_name key_state) (np_provider_requirement policy)
           then Inl (Fed_Invalid (lit ''authority key fails role or provider requirement''))
           else
             rbind (authority_subject_digest AuthorityEnroll namespace key_id weight (np_policy_digest policy)) (\<lambda>subject.
             rbind (verify_authorization_reference bcrypt registry authorizations controller_auth DOMAIN_POLICY_REGISTER
                      (np_controller_role_mask policy) subject (Some (np_controller_key_id policy))) (\<lambda>_.
             Inr (policy_event AuthorityEnroll timestamp namespace key_id policy weight 0 (replicate 32 0)
                    (replicate 32 0) subject controller_auth [])))))))) l"

definition revoke_authority where
  "revoke_authority bcrypt registry authorizations namespace key_id controller_auth timestamp l =
     fed_submit bcrypt registry authorizations (
       rbind (ok_or (policy_not_found namespace) (bt_get (fl_policies l) namespace)) (\<lambda>policy.
       rbind (ok_or (Fed_Invalid (lit ''authority not found'')) (bt_get (fl_authorities l) (namespace, key_id))) (\<lambda>current.
       if \<not> as_active current then Inl (Fed_Invalid (lit ''authority already revoked''))
       else
         rbind (authority_subject_digest AuthorityRevoke namespace key_id (as_weight current) (np_policy_digest policy))
           (\<lambda>subject.
         rbind (verify_authorization_reference bcrypt registry authorizations controller_auth DOMAIN_POLICY_REVOKE
                  (np_controller_role_mask policy) subject (Some (np_controller_key_id policy))) (\<lambda>_.
         Inr (policy_event AuthorityRevoke timestamp namespace key_id policy (as_weight current) 0 (replicate 32 0)
                (replicate 32 0) subject controller_auth [])))))) l"

text \<open>The loop over the approvals in \<open>accept_bundle\<close>; it has its own messages and order of checks.\<close>

fun accept_approvals ::
  "signature_check \<Rightarrow> key_registry \<Rightarrow> authorization_ledger \<Rightarrow> federation_ledger \<Rightarrow> namespace_policy \<Rightarrow> str \<Rightarrow> bytes \<Rightarrow>
   u64 list \<Rightarrow> u64 \<Rightarrow> str list \<Rightarrow> bytes list \<Rightarrow> nat \<Rightarrow> fed_error + nat" where
  "accept_approvals bcrypt registry authorizations l policy namespace subject [] previous keys ids total_weight =
     Inr total_weight"
| "accept_approvals bcrypt registry authorizations l policy namespace subject (seqno # rest) previous keys ids total_weight =
     (if seqno \<le> previous then Inl (Fed_Invalid (lit ''approval sequences must be strictly increasing''))
      else
        rbind (verify_authorization_reference bcrypt registry authorizations seqno DOMAIN_FEDERATION_BUNDLE
                 (np_authority_role_mask policy) subject None) (\<lambda>authorization.
        let key = au_key_id authorization; eid = au_event_id authorization in
        if key \<in> set keys then Inl (Fed_Invalid (lit ''one authority key may approve a bundle only once''))
        else if eid \<in> set (fl_used_authorization_ids l) \<or> eid \<in> set ids
        then Inl (Fed_Invalid (lit ''authorization event reuse is forbidden''))
        else
          rbind (ok_or (Fed_Invalid (lit ''bundle approval key is not a namespace authority''))
                   (bt_get (fl_authorities l) (namespace, key))) (\<lambda>authority.
          if \<not> as_active authority then Inl (Fed_Invalid (lit ''bundle approval authority is revoked''))
          else
            rbind (ok_or (Fed_Integrity (lit ''authorization registry head cannot resolve key''))
                     (state_at_head registry (au_key_registry_head authorization) key)) (\<lambda>key_state.
            if \<not> provider_name_satisfies (ks_provider_name key_state) (np_provider_requirement policy)
            then Inl (Fed_Invalid (lit ''bundle approval provider violates namespace policy''))
            else
              rbind (ok_or (Fed_Invalid (lit ''quorum weight overflow''))
                       (checked_add total_weight (unat (as_weight authority))))
                (\<lambda>total_weight. accept_approvals bcrypt registry authorizations l policy namespace subject rest seqno
                   (bset_insert key keys) (bset_insert eid ids) total_weight)))))"

definition accept_bundle where
  "accept_bundle bcrypt registry authorizations namespace policy_version bundle_version policy_digest parent bundle
     approvals timestamp l =
     fed_submit bcrypt registry authorizations (
       rbind (ok_or (policy_not_found namespace) (bt_get (fl_policies l) namespace)) (\<lambda>policy.
       if policy_version \<noteq> np_policy_version policy \<or> policy_digest \<noteq> np_policy_digest policy
          \<or> bundle = replicate 32 0 \<or> approvals = []
       then Inl (Fed_Invalid (lit ''bundle policy binding or digest is invalid''))
       else if \<not> bundle_follows l namespace bundle_version parent
       then Inl (Fed_Invalid (lit ''bundle version or parent digest is not monotonic''))
       else
         rbind (bundle_subject_digest namespace policy_version bundle_version policy_digest parent bundle) (\<lambda>subject.
         rbind (accept_approvals bcrypt registry authorizations l policy namespace subject approvals 0 [] [] 0)
           (\<lambda>total_weight.
         if total_weight < unat (np_quorum_weight policy)
         then Inl (Fed_Invalid (lit ''federation quorum not reached: '' @ dec_bytes total_weight @ lit '' < ''
                @ dec_bytes (unat (np_quorum_weight policy))))
         else Inr (policy_event BundleAccept timestamp namespace [] policy 0 bundle_version parent bundle subject 0
                approvals))))) l"

subsection \<open>The payload codec\<close>

lemma fed_take_iff:
  "fed_take n (b, off) = Inr (v, r, off') \<longleftrightarrow> b = v @ r \<and> length v = n \<and> off' = off + n \<and> off' < usize_limit"
  by (auto simp: fed_take_def rbind_eq_Inr_iff checked_add_Some_iff guard_eq_Inr_iff append_eq_conv_conj)

lemma fed_word_iff:
  "fed_u16 (b, off) = Inr (h, r, off') \<longleftrightarrow> b = u16_le h @ r \<and> off' = off + 2 \<and> off' < usize_limit"
  "fed_u32 (b, off) = Inr (v, r, off') \<longleftrightarrow> b = u32_le v @ r \<and> off' = off + 4 \<and> off' < usize_limit"
  "fed_u64 (b, off) = Inr (w, r, off') \<longleftrightarrow> b = u64_le w @ r \<and> off' = off + 8 \<and> off' < usize_limit"
  by (auto simp: fed_u16_def fed_u32_def fed_u64_def rbind_eq_Inr_iff split_paired_Ex fed_take_iff uN_le_from_le)

lemma fed_u8_iff: "fed_u8 (b, off) = Inr (v, r, off') \<longleftrightarrow> b = v # r \<and> off' = off + 1 \<and> off' < usize_limit"
  by (auto simp: fed_u8_def rbind_eq_Inr_iff split_paired_Ex fed_take_iff length_Suc_conv)

lemma fed_digest_iff:
  "fed_digest (b, off) = Inr (d, r, off') \<longleftrightarrow> b = d @ r \<and> length d = 32 \<and> off' = off + 32 \<and> off' < usize_limit"
  by (simp add: fed_digest_def fed_take_iff)

lemma fed_string_iff:
  "fed_string n (b, off) = Inr (s, r, off') \<longleftrightarrow>
     b = s @ r \<and> length s = n \<and> utf8_valid s \<and> off' = off + n \<and> off' < usize_limit"
  by (auto simp: fed_string_def rbind_eq_Inr_iff split_paired_Ex fed_take_iff guard_eq_Inr_iff)

lemma length_u64s [simp]: "length (concat (map u64_le ws)) = 8 * length ws"
  by (induction ws) simp_all

lemma fed_u64s_iff:
  "off < usize_limit \<Longrightarrow> fed_u64s n (b, off) = Inr (ws, r, off') \<longleftrightarrow>
     length ws = n \<and> b = concat (map u64_le ws) @ r \<and> off' = off + 8 * n \<and> off' < usize_limit"
proof (induction n arbitrary: b off ws)
  case (Suc n)
  have "fed_u64s (Suc n) (b, off) = Inr (ws, r, off') \<longleftrightarrow> (\<exists>w b1 ws1. b = u64_le w @ b1 \<and>
      off + 8 < usize_limit \<and> fed_u64s n (b1, off + 8) = Inr (ws1, r, off') \<and> ws = w # ws1)"
    by (auto simp: rbind_eq_Inr_iff split_paired_Ex fed_word_iff)
  also have "\<dots> \<longleftrightarrow> length ws = Suc n \<and> b = concat (map u64_le ws) @ r \<and> off' = off + 8 * Suc n \<and> off' < usize_limit"
    using Suc.IH [of "off + 8"] by (cases ws) auto
  finally show ?case .
qed auto

lemma fed_u64s_sound: "fed_u64s n (b, off) = Inr (ws, r, off') \<Longrightarrow> length ws = n \<and> b = concat (map u64_le ws) @ r"
  by (induction n arbitrary: b off ws) (auto simp: rbind_eq_Inr_iff fed_word_iff)

lemma fed_cursor_ok:
  "length v = n \<Longrightarrow> off + n < usize_limit \<Longrightarrow> fed_take n (v @ r, off) = Inr (v, r, off + n)"
  "off + 1 < usize_limit \<Longrightarrow> fed_u8 (c # r, off) = Inr (c, r, off + 1)"
  "off + 2 < usize_limit \<Longrightarrow> fed_u16 (u16_le h @ r, off) = Inr (h, r, off + 2)"
  "off + 4 < usize_limit \<Longrightarrow> fed_u32 (u32_le x @ r, off) = Inr (x, r, off + 4)"
  "off + 8 < usize_limit \<Longrightarrow> fed_u64 (u64_le w @ r, off) = Inr (w, r, off + 8)"
  "length d = 32 \<Longrightarrow> off + 32 < usize_limit \<Longrightarrow> fed_digest (d @ r, off) = Inr (d, r, off + 32)"
  "utf8_valid s \<Longrightarrow> length s = n \<Longrightarrow> off + n < usize_limit \<Longrightarrow> fed_string n (s @ r, off) = Inr (s, r, off + n)"
  "length ws = n \<Longrightarrow> off + 8 * n < usize_limit \<Longrightarrow> fed_u64s n (concat (map u64_le ws), off) = Inr (ws, [], off + 8 * n)"
  by (simp_all add: fed_take_iff fed_u8_iff fed_word_iff fed_digest_iff fed_string_iff fed_u64s_iff)

lemma fed_kind_codes [simp]: "fed_kind_from_code (fed_kind_code k) = Inr k"
  by (cases k) (simp_all add: fed_kind_from_code_def)

lemma fed_kind_code_inv: "fed_kind_from_code c = Inr k \<Longrightarrow> c = fed_kind_code k"
  by (auto simp: fed_kind_from_code_def split: if_splits)

lemma requirement_codes [simp]: "requirement_from_code (requirement_code k) = Inr k"
  by (cases k) (simp_all add: requirement_from_code_def)

lemma requirement_code_inv: "requirement_from_code c = Inr k \<Longrightarrow> c = requirement_code k"
  by (auto simp: requirement_from_code_def split: if_splits)

text \<open>
  What the types of Rust guarantee of an event, and the limits of the decoder.
\<close>

definition fed_digests_typed :: "federation_event \<Rightarrow> bool" where
  "fed_digests_typed e \<longleftrightarrow> length (fe_policy_digest e) = 32 \<and> length (fe_parent_bundle_digest e) = 32 \<and>
     length (fe_bundle_digest e) = 32 \<and> length (fe_subject_digest e) = 32"

definition fed_fits :: "federation_event \<Rightarrow> bool" where
  "fed_fits e \<longleftrightarrow> fed_digests_typed e \<and> list_all (\<lambda>s. utf8_valid s \<and> length s \<le> 1024)
       [fe_namespace e, fe_key_id e, fe_controller_key_id e] \<and> length (fe_approval_sequences e) \<le> 1000000"

definition fed_bare :: "federation_event \<Rightarrow> federation_event" where
  "fed_bare e = e\<lparr>fe_sequence := 0, fe_previous_digest := replicate 32 0, fe_frame_digest := replicate 32 0\<rparr>"

lemma length_fed_magics [simp]: "length FED_FILE_MAGIC = 8" "length FED_PAYLOAD_MAGIC = 8"
  by (simp_all add: FED_FILE_MAGIC_def FED_PAYLOAD_MAGIC_def lit_def)

lemma length_fed_payload:
  "fed_digests_typed e \<Longrightarrow> length (fed_payload x e) = 200 + length (fe_namespace e) + length (fe_key_id e)
     + length (fe_controller_key_id e) + 8 * length (fe_approval_sequences e)"
  by (simp add: fed_payload_def fed_digests_typed_def)

lemma fed_payload_size: "fed_fits e \<Longrightarrow> length (fed_payload x e) \<le> FED_MAX_PAYLOAD"
  by (simp add: fed_fits_def length_fed_payload FED_MAX_PAYLOAD_def)

lemma fed_decode_ok:
  assumes f: "fed_fits e"
  shows "fed_decode_payload (fed_payload x e) = Inr (fed_bare e)"
proof -
  have u: "unat (of_nat (length (fe_namespace e)) :: u32) = length (fe_namespace e)"
    "unat (of_nat (length (fe_key_id e)) :: u32) = length (fe_key_id e)"
    "unat (of_nat (length (fe_controller_key_id e)) :: u32) = length (fe_controller_key_id e)"
    "unat (of_nat (length (fe_approval_sequences e)) :: u32) = length (fe_approval_sequences e)"
    using f by (simp_all add: fed_fits_def unat_u32_small)
  show ?thesis
    using f by (simp add: fed_fits_def fed_digests_typed_def fed_decode_payload_def fed_payload_def usize_limit_def u
        fed_cursor_ok fed_bare_def not_less cong: rbind_weak_cong)
qed

lemma fed_decode_sound:
  assumes d: "fed_decode_payload p = Inr e"
  shows "\<exists>x. p = fed_payload x e" and "fed_fits e" and "fed_bare e = e"
proof -
  from d obtain mg b1 o1 kc b2 o2 k qc b3 o3 q x b4 o4 cr b5 o5 ar b6 o6 w b7 o7 qw b8 o8 t b9 o9 pv b10 o10 bv b11 o11
      ca b12 o12 nl b13 o13 kl b14 o14 cl b15 o15 ac b16 o16 d1 b17 o17 d2 b18 o18 d3 b19 o19 d4 b20 o20
      n b21 o21 ki b22 o22 ck b23 o23 as b24 o24
    where m: "fed_take 8 (p, 0) = Inr (mg, b1, o1)" "mg = FED_PAYLOAD_MAGIC"
    and c8: "fed_u8 (b1, o1) = Inr (kc, b2, o2)" "fed_kind_from_code kc = Inr k"
      "fed_u8 (b2, o2) = Inr (qc, b3, o3)" "requirement_from_code qc = Inr q"
    and c16: "fed_u16 (b3, o3) = Inr (x, b4, o4)" "fed_u16 (b4, o4) = Inr (cr, b5, o5)" "fed_u16 (b5, o5) = Inr (ar, b6, o6)"
    and c32: "fed_u32 (b6, o6) = Inr (w, b7, o7)" "fed_u32 (b7, o7) = Inr (qw, b8, o8)"
    and c64: "fed_u64 (b8, o8) = Inr (t, b9, o9)" "fed_u64 (b9, o9) = Inr (pv, b10, o10)"
      "fed_u64 (b10, o10) = Inr (bv, b11, o11)" "fed_u64 (b11, o11) = Inr (ca, b12, o12)"
    and cl: "fed_u32 (b12, o12) = Inr (nl, b13, o13)" "fed_u32 (b13, o13) = Inr (kl, b14, o14)"
      "fed_u32 (b14, o14) = Inr (cl, b15, o15)" "fed_u32 (b15, o15) = Inr (ac, b16, o16)"
    and lim: "\<not> (1024 < unat nl \<or> 1024 < unat kl \<or> 1024 < unat cl \<or> 1000000 < unat ac)"
    and cd: "fed_digest (b16, o16) = Inr (d1, b17, o17)" "fed_digest (b17, o17) = Inr (d2, b18, o18)"
      "fed_digest (b18, o18) = Inr (d3, b19, o19)" "fed_digest (b19, o19) = Inr (d4, b20, o20)"
    and cs: "fed_string (unat nl) (b20, o20) = Inr (n, b21, o21)" "fed_string (unat kl) (b21, o21) = Inr (ki, b22, o22)"
      "fed_string (unat cl) (b22, o22) = Inr (ck, b23, o23)"
    and as: "fed_u64s (unat ac) (b23, o23) = Inr (as, b24, o24)" and fin: "b24 = []"
    and e': "\<lparr>fe_sequence = 0, fe_kind = k, fe_logical_timestamp = t, fe_namespace = n, fe_key_id = ki,
       fe_controller_key_id = ck, fe_controller_role_mask = cr, fe_authority_role_mask = ar, fe_weight = w,
       fe_quorum_weight = qw, fe_provider_requirement = q, fe_policy_version = pv, fe_bundle_version = bv,
       fe_policy_digest = d1, fe_parent_bundle_digest = d2, fe_bundle_digest = d3, fe_subject_digest = d4,
       fe_controller_authorization_sequence = ca, fe_approval_sequences = as, fe_previous_digest = replicate 32 0,
       fe_frame_digest = replicate 32 0\<rparr> = e"
    unfolding fed_decode_payload_def
    unfolding guard_eq_Inr_iff rbind_eq_Inr_iff split_paired_Ex prod.case not_not fst_conv sum.inject
    by (elim exE conjE) (rule that; assumption)
  note e = e' [symmetric]
  note ds = cd [unfolded fed_digest_iff] and ss = cs [unfolded fed_string_iff] and a = fed_u64s_sound [OF as]
  note fs = m(1) [unfolded fed_take_iff, THEN conjunct1] c8(1,3) [unfolded fed_u8_iff, THEN conjunct1]
    c16 [unfolded fed_word_iff, THEN conjunct1] c32 [unfolded fed_word_iff, THEN conjunct1]
    c64 [unfolded fed_word_iff, THEN conjunct1] cl [unfolded fed_word_iff, THEN conjunct1]
    ds [THEN conjunct1] ss [THEN conjunct1] a [THEN conjunct2]
  have ln: "of_nat (length n) = nl" "of_nat (length ki) = kl" "of_nat (length ck) = cl" "of_nat (length as) = ac"
    using ss a by simp_all
  show "fed_bare e = e" by (simp add: e fed_bare_def)
  show "fed_fits e" using ds ss a lim by (simp add: e fed_fits_def fed_digests_typed_def not_less)
  have "p = fed_payload x e"
    by (simp add: e fed_payload_def fs m(2) fin ln fed_kind_code_inv [OF c8(2)] requirement_code_inv [OF c8(4)])
  then show "\<exists>x. p = fed_payload x e" ..
qed

subsection \<open>The file of the federation\<close>

interpretation fed_frames: chained_frames fed_reader FED_FILE_MAGIC FED_FRAME_DOMAIN FED_MAX_PAYLOAD "\<lambda>_ _. True"
proof
  fix h head p :: bytes and off n
  assume h: "length h = 144" "length head = 32"
  have "length (slice h 10 12) = 2" "length (slice h 128 144) = 16" using h by (simp_all add: length_slice)
  note iff = chain_header_iff [OF h(1) length_fed_magics(1) this(1) h(2) length_sha256 length_frame_digest this(2)]
  have len: "unat (from_le (slice h 24 32) :: u64) = length p \<longleftrightarrow> from_le (slice h 24 32) = (of_nat (length p) :: u64)"
    if "length p \<le> FED_MAX_PAYLOAD"
    using that by (intro unat_u64_iff) (simp add: FED_MAX_PAYLOAD_def usize_limit_def)
  show "cr_header fed_reader off n head h = Inr (length p) \<and> cr_body fed_reader h p = Inr () \<longleftrightarrow>
      length p \<le> FED_MAX_PAYLOAD \<and> True \<and>
      h = chain_header FED_FILE_MAGIC (slice h 10 12) (of_nat n + 1) (length p) head (sha256 p)
        (compute_frame_digest FED_FRAME_DOMAIN (of_nat n + 1) head (sha256 p)) (slice h 128 144)"
    unfolding iff using h len
    by (auto simp: fed_reader_def fed_frame_header_def fed_frame_body_def Let_def split: if_splits)
qed (simp_all add: FED_MAX_PAYLOAD_def usize_limit_def)

text \<open>An event of the file is an event of the ledger with the reserved half-word of its payload.\<close>

type_synonym fed_entry = "federation_event \<times> u16"

definition fed_frame :: "fed_entry \<Rightarrow> chain_frame" where
  "fed_frame ev = \<lparr>cf_sequence = fe_sequence (fst ev), cf_previous = fe_previous_digest (fst ev),
     cf_digest = fe_frame_digest (fst ev), cf_payload = fed_payload (snd ev) (fst ev)\<rparr>"

definition fed_push :: "authorization_ledger \<Rightarrow> federation_ledger \<Rightarrow> fed_entry \<Rightarrow> federation_ledger" where
  "fed_push a l ev = fed_record (snd (fed_apply_event a (fst ev) l)) (fst ev)"

definition fed_admits ::
  "signature_check \<Rightarrow> key_registry \<Rightarrow> authorization_ledger \<Rightarrow> federation_ledger \<Rightarrow> fed_entry \<Rightarrow> bool" where
  "fed_admits b r a l ev \<longleftrightarrow> fed_fits (fst ev) \<and>
     frame_follows FED_FRAME_DOMAIN (length (fl_events l)) (fl_head_digest l) (fed_frame ev) \<and>
     fl_last_timestamp l < fe_logical_timestamp (fst ev) \<and> fed_validate_event b r a l (fst ev) = Inr ()"

lemma fed_record_simps [simp]:
  "fl_path (fed_record l e) = fl_path l" "fl_events (fed_record l e) = fl_events l @ [e]"
  "fl_head_digest (fed_record l e) = fe_frame_digest e" "fl_last_timestamp (fed_record l e) = fe_logical_timestamp e"
  "fl_policies (fed_record l e) = fl_policies l" "fl_authorities (fed_record l e) = fl_authorities l"
  "fl_accepted (fed_record l e) = fl_accepted l"
  "fl_used_authorization_ids (fed_record l e) = fl_used_authorization_ids l"
  by (simp_all add: fed_record_def)

lemma fed_apply_keeps [simp]:
  "fl_path (snd (fed_apply_event a e l)) = fl_path l" "fl_events (snd (fed_apply_event a e l)) = fl_events l"
  by (auto simp: fed_apply_event_def split: federation_event_kind.splits option.splits prod.splits sum.splits)

lemma fed_push_simps [simp]:
  "fl_path (fed_push a l ev) = fl_path l" "fl_events (fed_push a l ev) = fl_events l @ [fst ev]"
  "fl_head_digest (fed_push a l ev) = fe_frame_digest (fst ev)"
  "fl_last_timestamp (fed_push a l ev) = fe_logical_timestamp (fst ev)"
  by (simp_all add: fed_push_def)

text \<open>The validation of an event does not look at its place in the file.\<close>

lemma fed_stamps_irrelevant [simp]:
  "fed_payload x (e\<lparr>fe_sequence := q\<rparr>) = fed_payload x e" "fed_payload x (e\<lparr>fe_previous_digest := d\<rparr>) = fed_payload x e"
  "fed_payload x (e\<lparr>fe_frame_digest := d\<rparr>) = fed_payload x e"
  "fed_fits (e\<lparr>fe_sequence := q\<rparr>) = fed_fits e" "fed_fits (e\<lparr>fe_previous_digest := d\<rparr>) = fed_fits e"
  "fed_fits (e\<lparr>fe_frame_digest := d\<rparr>) = fed_fits e"
  by (cases e; simp only: federation_event.update_convs federation_event.select_convs fed_payload_def fed_fits_def
      fed_digests_typed_def)+

lemmas fed_validate_defs = fed_validate_event_def validate_policy_set_def validate_authority_enroll_def
  validate_authority_revoke_def validate_bundle_accept_def policy_for_event_def

lemma fed_validate_stamps [simp]:
  "fed_validate_event b r a l (e\<lparr>fe_sequence := q\<rparr>) = fed_validate_event b r a l e"
  "fed_validate_event b r a l (e\<lparr>fe_previous_digest := d\<rparr>) = fed_validate_event b r a l e"
  "fed_validate_event b r a l (e\<lparr>fe_frame_digest := d\<rparr>) = fed_validate_event b r a l e"
  by (cases e; simp only: federation_event.update_convs federation_event.select_convs fed_validate_defs)+

text \<open>A validated event is applied without error.\<close>

lemma verified_reference:
  "verify_authorization_reference b r a q d m s k = Inr au \<longleftrightarrow>
     find_authorization a q = Some au \<and> au_domain_code au = d \<and> au_required_role_mask au = m \<and> au_subject_digest au = s \<and>
     (case k of Some key \<Rightarrow> key = au_key_id au | None \<Rightarrow> True) \<and> verify_event b au r = Inr True" (is "?l \<longleftrightarrow> ?r")
proof
  assume ?l
  then show ?r
    by (auto simp: verify_authorization_reference_def authorization_by_sequence_def verify_sequence_def rbind_eq_Inr_iff
        guard_eq_Inr_iff map_err_eq_Inr_iff split: option.splits)
next
  assume r: ?r
  then obtain s where "state_at_head r (au_key_registry_head au) (au_key_id au) = Some s" "has_role s (au_required_role_mask au)"
    "ks_public_key_digest s = au_public_key_digest au" by (auto simp: verify_event_iff)
  with r show ?l
    by (auto simp: verify_authorization_reference_def authorization_by_sequence_def verify_sequence_def rbind_eq_Inr_iff
        guard_eq_Inr_iff map_err_eq_Inr_iff split: option.splits)
qed

text \<open>What is checked of one approval.\<close>

definition approval_ok ::
  "signature_check \<Rightarrow> key_registry \<Rightarrow> authorization_ledger \<Rightarrow> federation_ledger \<Rightarrow> namespace_policy \<Rightarrow> str \<Rightarrow> bytes \<Rightarrow>
   u64 \<Rightarrow> authorization \<Rightarrow> bool" where
  "approval_ok b r a l p n s q au \<longleftrightarrow>
     verify_authorization_reference b r a q DOMAIN_FEDERATION_BUNDLE (np_authority_role_mask p) s None = Inr au \<and>
     au_event_id au \<notin> set (fl_used_authorization_ids l) \<and> authority_active l n (au_key_id au) \<and>
     (\<exists>st. state_at_head r (au_key_registry_head au) (au_key_id au) = Some st \<and>
        provider_name_satisfies (ks_provider_name st) (np_provider_requirement p))"

definition authority_weight :: "federation_ledger \<Rightarrow> str \<Rightarrow> str \<Rightarrow> nat" where
  "authority_weight l n k = (case bt_get (fl_authorities l) (n, k) of Some st \<Rightarrow> unat (as_weight st) | None \<Rightarrow> 0)"

lemma validate_approvals_Cons:
  "validate_approvals b r a l p n s (q # qs) prior keys ids t = Inr t' \<longleftrightarrow>
     (\<exists>au. prior < q \<and> approval_ok b r a l p n s q au \<and> au_key_id au \<notin> set keys \<and> au_event_id au \<notin> set ids \<and>
        t + authority_weight l n (au_key_id au) < usize_limit \<and>
        validate_approvals b r a l p n s qs q (bset_insert (au_key_id au) keys) (bset_insert (au_event_id au) ids)
          (t + authority_weight l n (au_key_id au)) = Inr t')"
  by (fastforce simp: approval_ok_def authority_active_def authority_weight_def rbind_eq_Inr_iff guard_eq_Inr_iff Let_def
      checked_add_Some_iff not_le split: option.splits)

declare validate_approvals.simps(2) [simp del]

lemma validated_use_approvals:
  "validate_approvals b r a l p n s qs prior keys ids t = Inr t' \<Longrightarrow> \<exists>used'. use_approvals a qs used = (Inr (), used')"
proof (induction qs arbitrary: prior keys ids t used)
  case (Cons q qs)
  from Cons.prems show ?case
    using Cons.IH by (auto simp: validate_approvals_Cons approval_ok_def verified_reference authorization_by_sequence_def)
qed simp

lemma fed_apply_validated:
  assumes "fed_validate_event b r a l e = Inr u"
  shows "fed_apply_event a e l = (Inr (), snd (fed_apply_event a e l))"
proof -
  have "fst (fed_apply_event a e l) = Inr ()"
  proof (cases "fe_kind e")
    case BundleAccept
    with assms obtain p n s t where "validate_approvals b r a l p n s (fe_approval_sequences e) 0 [] [] 0 = Inr t"
      by (auto simp: fed_validate_event_def validate_bundle_accept_def rbind_eq_Inr_iff guard_eq_Inr_iff)
    from validated_use_approvals [OF this, of "fl_used_authorization_ids l"] BundleAccept show ?thesis
      by (auto simp: fed_apply_event_def)
  next
    case AuthorityRevoke
    with assms show ?thesis
      by (auto simp: fed_validate_event_def validate_authority_revoke_def rbind_eq_Inr_iff guard_eq_Inr_iff fed_apply_event_def)
  qed (simp_all add: fed_apply_event_def)
  then show ?thesis by (metis prod.collapse)
qed

lemma fed_restamp:
  "(fed_bare e)\<lparr>fe_sequence := fe_sequence e, fe_previous_digest := fe_previous_digest e,
     fe_frame_digest := fe_frame_digest e\<rparr> = e"
  by (cases e) (simp add: fed_bare_def)

interpretation fed_file: chained_ledger fed_reader FED_FILE_MAGIC FED_FRAME_DOMAIN FED_MAX_PAYLOAD "\<lambda>_ _. True"
  "fed_replay_frame b r a" "fed_push a" fed_frame "fed_admits b r a" "\<lambda>l. length (fl_events l)" fl_head_digest
  for b r a
proof unfold_locales
  fix l ev
  assume ad: "fed_admits b r a l ev"
  show "fed_replay_frame b r a l (fed_frame ev) = Inr (fed_push a l ev)"
  proof -
    have d: "fed_decode_payload (cf_payload (fed_frame ev)) = Inr (fed_bare (fst ev))"
      using ad fed_decode_ok by (simp add: fed_admits_def fed_frame_def)
    have st: "(fed_bare (fst ev))\<lparr>fe_sequence := cf_sequence (fed_frame ev), fe_previous_digest := cf_previous (fed_frame ev),
        fe_frame_digest := cf_digest (fed_frame ev)\<rparr> = fst ev" by (simp add: fed_frame_def fed_restamp)
    have v: "fed_validate_event b r a l (fst ev) = Inr ()" using ad by (simp add: fed_admits_def)
    show ?thesis using ad unfolding fed_replay_frame_def d rbind_simps Let_def st
      by (subst fed_apply_validated [OF v])
        (simp add: fed_admits_def not_le [symmetric] frame_follows_def fed_frame_def fed_push_def)
  qed
  show "frame_follows FED_FRAME_DOMAIN (length (fl_events l)) (fl_head_digest l) (fed_frame ev)"
    using ad by (simp add: fed_admits_def)
  show "length (cf_payload (fed_frame ev)) \<le> FED_MAX_PAYLOAD"
    using ad by (simp add: fed_admits_def fed_frame_def fed_payload_size)
next
  fix l f l'
  assume ff: "frame_follows FED_FRAME_DOMAIN (length (fl_events l)) (fl_head_digest l) f"
    and run: "fed_replay_frame b r a l f = Inr l'"
  from run obtain e where d: "fed_decode_payload (cf_payload f) = Inr e"
    and c: "fl_last_timestamp l < fe_logical_timestamp e" "fed_validate_event b r a l e = Inr ()"
    unfolding fed_replay_frame_def Let_def guard_eq_Inr_iff rbind_eq_Inr_iff by auto
  obtain x where x: "cf_payload f = fed_payload x e" using fed_decode_sound(1) [OF d] ..
  let ?e = "e\<lparr>fe_sequence := cf_sequence f, fe_previous_digest := cf_previous f, fe_frame_digest := cf_digest f\<rparr>"
  have "f = fed_frame (?e, x)" by (intro chain_frame.equality) (simp_all add: fed_frame_def x)
  moreover from this have "fed_admits b r a l (?e, x)" using ff fed_decode_sound(2) [OF d] c by (simp add: fed_admits_def)
  ultimately show "\<exists>ev. f = fed_frame ev \<and> fed_admits b r a l ev" by blast
qed (simp_all add: fed_frame_def)

subsection \<open>Appending\<close>

text \<open>
  What the types of Rust guarantee of an event that is submitted, and the number of approvals that
  the decoder accepts. The encoder has no such limit.
\<close>

definition fed_typed :: "federation_event \<Rightarrow> bool" where
  "fed_typed e \<longleftrightarrow> fed_digests_typed e \<and> list_all utf8_valid [fe_namespace e, fe_key_id e, fe_controller_key_id e] \<and>
     length (fe_approval_sequences e) \<le> 1000000"

lemma fed_encode_iff:
  "fed_typed e \<Longrightarrow> fed_encode_payload e = Inr p \<longleftrightarrow> fed_fits e \<and> p = fed_payload 0 e"
  using fed_payload_size [of e 0] by (auto simp: fed_encode_payload_def fed_typed_def fed_fits_def)

lemma fed_frame_bytes:
  "fed_encode_frame (fe_sequence e) (fe_previous_digest e) (sha256 (fed_payload x e)) (fe_frame_digest e) (fed_payload x e)
     = (if FED_MAX_PAYLOAD < length (fed_payload x e) then Inl (Fed_Invalid (lit ''frame payload too large''))
        else Inr (event_bytes FED_FILE_MAGIC fed_frame (e, x)))"
  by (simp add: fed_encode_frame_def encode_chain_frame_def event_bytes_def entry_bytes_def fed_frame_def Let_def)

abbreviation fed_effect where
  "fed_effect b r a l fs l' fs' \<equiv>
     append_effect (fed_admits b r a) (fed_push a) (event_bytes FED_FILE_MAGIC fed_frame) (fl_path l) l fs l' fs'"

text \<open>The event as it is recorded: with its place in the chain.\<close>

definition fed_stamped :: "federation_ledger \<Rightarrow> federation_event \<Rightarrow> federation_event" where
  "fed_stamped l e = e\<lparr>fe_sequence := of_nat (length (fl_events l)) + 1, fe_previous_digest := fl_head_digest l,
     fe_frame_digest := compute_frame_digest FED_FRAME_DOMAIN (of_nat (length (fl_events l)) + 1) (fl_head_digest l)
       (sha256 (fed_payload 0 e))\<rparr>"

definition fed_acceptable ::
  "signature_check \<Rightarrow> key_registry \<Rightarrow> authorization_ledger \<Rightarrow> federation_ledger \<Rightarrow> federation_event \<Rightarrow> bool" where
  "fed_acceptable b r a l e \<longleftrightarrow> fl_last_timestamp l < fe_logical_timestamp e \<and> fed_validate_event b r a l e = Inr () \<and>
     fed_fits e"

lemma fed_append_ok:
  assumes ac: "fed_acceptable b r a l e" and old: "fget fs (fl_path l) = Some old"
  shows "\<exists>rc. fed_append b r a e l fs = (Inr rc, fed_push a l (fed_stamped l e, 0),
     fput (fl_path l) (old @ event_bytes FED_FILE_MAGIC fed_frame (fed_stamped l e, 0)) fs)"
proof -
  let ?s = "e\<lparr>fe_sequence := of_nat (length (fl_events l)) + 1, fe_previous_digest := fl_head_digest l\<rparr>"
  have ft: "fed_fits e" and v: "fed_validate_event b r a l (fed_stamped l e) = Inr ()"
    using ac by (simp_all add: fed_acceptable_def fed_stamped_def)
  have enc: "fed_encode_payload ?s = Inr (fed_payload 0 e)"
    using ft fed_payload_size [OF ft, of 0] by (simp add: fed_encode_payload_def fed_fits_def)
  have fr: "fed_encode_frame (of_nat (length (fl_events l)) + 1) (fl_head_digest l) (sha256 (fed_payload 0 e))
      (fe_frame_digest (fed_stamped l e)) (fed_payload 0 e) = Inr (event_bytes FED_FILE_MAGIC fed_frame (fed_stamped l e, 0))"
    using fed_frame_bytes [of "fed_stamped l e" 0] fed_payload_size [OF ft, of 0] by (simp add: fed_stamped_def)
  obtain m where m: "fed_apply_event a (fed_stamped l e) l = (Inr (), m)" using fed_apply_validated [OF v] by blast
  from m [unfolded fed_stamped_def] ac enc fr old show ?thesis
    by (simp add: fed_append_def Let_def not_le [symmetric] write_all_def fed_acceptable_def fed_push_def fed_stamped_def)
qed

lemma fed_append_effect:
  assumes run: "fed_append b r a e l fs = (res, l', fs')" and ty: "fed_typed e"
  shows "fed_effect b r a l fs l' fs'"
proof (cases "fed_acceptable b r a l e \<and> fget fs (fl_path l) \<noteq> None")
  case False
  have "fed_typed (e\<lparr>fe_sequence := of_nat (length (fl_events l)) + 1, fe_previous_digest := fl_head_digest l\<rparr>)"
    using ty by (simp add: fed_typed_def fed_digests_typed_def)
  with False have "l' = l \<and> fs' = fs" using run unfolding fed_append_def Let_def fed_acceptable_def
    by (auto simp: not_le not_less fed_encode_iff write_all_def split: if_splits sum.splits)
  then show ?thesis by simp
next
  case True
  then obtain old where old: "fget fs (fl_path l) = Some old" and ac: "fed_acceptable b r a l e" by auto
  then have "fed_admits b r a l (fed_stamped l e, 0)"
    by (simp add: fed_acceptable_def fed_admits_def frame_follows_def fed_frame_def fed_stamped_def)
  from append_effect_event [of fs "fl_path l" old "fed_admits b r a", OF old this] fed_append_ok [OF ac old] run show ?thesis by auto
qed

lemma fed_submit_effect:
  assumes "fed_submit b r a built l fs = (res, l', fs')" and "\<And>e. built = Inr e \<Longrightarrow> fed_typed e"
  shows "fed_effect b r a l fs l' fs'"
  using assms fed_append_effect by (cases built) (auto simp: fed_submit_def)

text \<open>The requests to the ledger.\<close>

datatype fed_request =
  Set_Policy str u64 str u16 u16 u32 provider_requirement u64 u64
| Enroll_Authority str str u32 u64 u64
| Revoke_Authority str str u64 u64
| Accept_Bundle str u64 u64 bytes bytes bytes "u64 list" u64

fun fed_handle ::
  "signature_check \<Rightarrow> key_registry \<Rightarrow> authorization_ledger \<Rightarrow> fed_request \<Rightarrow> federation_ledger \<Rightarrow> fsys \<Rightarrow>
   (fed_error + federation_receipt) \<times> federation_ledger \<times> fsys" where
  "fed_handle b r a (Set_Policy n v c cr ar q req ca t) l fs = set_namespace_policy b r a n v c cr ar q req ca t l fs"
| "fed_handle b r a (Enroll_Authority n k w ca t) l fs = enroll_authority b r a n k w ca t l fs"
| "fed_handle b r a (Revoke_Authority n k ca t) l fs = revoke_authority b r a n k ca t l fs"
| "fed_handle b r a (Accept_Bundle n pv bv pd par bd qs t) l fs = accept_bundle b r a n pv bv pd par bd qs t l fs"

fun fed_request_typed :: "fed_request \<Rightarrow> bool" where
  "fed_request_typed (Set_Policy n v c cr ar q req ca t) \<longleftrightarrow> utf8_valid n \<and> utf8_valid c"
| "fed_request_typed (Enroll_Authority n k w ca t) \<longleftrightarrow> utf8_valid n \<and> utf8_valid k"
| "fed_request_typed (Revoke_Authority n k ca t) \<longleftrightarrow> utf8_valid n \<and> utf8_valid k"
| "fed_request_typed (Accept_Bundle n pv bv pd par bd qs t) \<longleftrightarrow> utf8_valid n \<and> length pd = 32 \<and> length par = 32 \<and>
     length bd = 32 \<and> length qs \<le> 1000000"

definition policies_typed :: "federation_ledger \<Rightarrow> bool" where
  "policies_typed l \<longleftrightarrow> (\<forall>n p. bt_get (fl_policies l) n = Some p \<longrightarrow>
     utf8_valid (np_controller_key_id p) \<and> length (np_policy_digest p) = 32)"

lemma policy_event_typed:
  "utf8_valid n \<Longrightarrow> utf8_valid k \<Longrightarrow> utf8_valid (np_controller_key_id p) \<Longrightarrow> length (np_policy_digest p) = 32 \<Longrightarrow>
   length par = 32 \<Longrightarrow> length bd = 32 \<Longrightarrow> length s = 32 \<Longrightarrow> length qs \<le> 1000000 \<Longrightarrow>
   fed_typed (policy_event kind t n k p w bv par bd s ca qs)"
  by (simp add: policy_event_def fed_typed_def fed_digests_typed_def)

lemma fed_digest_lengths:
  "namespace_policy_digest n v c cr ar q req = Inr d \<Longrightarrow> length d = 32"
  "authority_subject_digest kind n k w pd = Inr d \<Longrightarrow> length d = 32"
  "bundle_subject_digest n pv bv pd par bd = Inr d \<Longrightarrow> length d = 32"
  by (auto simp: namespace_policy_digest_def authority_subject_digest_def bundle_subject_digest_def rbind_eq_Inr_iff
      guard_eq_Inr_iff)

lemma fed_handle_effect:
  assumes run: "fed_handle b r a q l fs = (res, l', fs')" and ty: "fed_request_typed q" and pt: "policies_typed l"
  shows "fed_effect b r a l fs l' fs'"
proof -
  note p = pt [unfolded policies_typed_def, rule_format]
  have u: "utf8_valid []" by simp
  show ?thesis
  proof (cases q)
    case (Set_Policy n v c cr ar q req ca t)
    with run ty u show ?thesis
      by (auto simp: set_namespace_policy_def rbind_eq_Inr_iff guard_eq_Inr_iff Let_def namespace_policy_subject_digest_def
          intro!: fed_submit_effect policy_event_typed dest!: fed_digest_lengths)
  next
    case (Enroll_Authority n k w ca t)
    with run ty show ?thesis
      by (auto simp: enroll_authority_def rbind_eq_Inr_iff guard_eq_Inr_iff
          intro!: fed_submit_effect policy_event_typed dest!: fed_digest_lengths p)
  next
    case (Revoke_Authority n k ca t)
    with run ty show ?thesis
      by (auto simp: revoke_authority_def rbind_eq_Inr_iff guard_eq_Inr_iff
          intro!: fed_submit_effect policy_event_typed dest!: fed_digest_lengths p)
  next
    case (Accept_Bundle n pv bv pd par bd qs t)
    with run ty u show ?thesis
      by (auto simp: accept_bundle_def rbind_eq_Inr_iff guard_eq_Inr_iff
          intro!: fed_submit_effect policy_event_typed dest!: fed_digest_lengths p)
  qed
qed

end
