(* ===== verification/Ub_Fed_Runs.thy ===== *)
theory Ub_Fed_Runs
  imports Ub_Fed_Ledger
begin

text \<open>
  What the federation ledger guarantees over a run of the three trust ledgers: it reopens against
  the other two as they have become, an accepted bundle had a quorum of enrolled authorities, and
  the bundles of a namespace form a chain.
\<close>

subsection \<open>Growth of what the federation relies on\<close>

lemma verify_reference_extends:
  "registry_extends r r' \<Longrightarrow> authorizations_extend a a' \<Longrightarrow> verify_authorization_reference b r a q d m s k = Inr au \<Longrightarrow>
   verify_authorization_reference b r' a' q d m s k = Inr au"
  by (auto simp: verified_reference intro: find_authorization_extends verify_event_extends)

lemma approval_ok_extends:
  "registry_extends r r' \<Longrightarrow> authorizations_extend a a' \<Longrightarrow> approval_ok b r a l p n s q au \<Longrightarrow>
   approval_ok b r' a' l p n s q au"
  unfolding approval_ok_def using verify_reference_extends state_at_head_extends by blast

lemma validate_approvals_extends:
  assumes x: "registry_extends r r'" "authorizations_extend a a'"
  shows "validate_approvals b r a l p n s qs prior keys ids t = Inr t' \<Longrightarrow>
    validate_approvals b r' a' l p n s qs prior keys ids t = Inr t'"
proof (induction qs arbitrary: prior keys ids t)
  case (Cons q qs)
  then show ?case unfolding validate_approvals_Cons using approval_ok_extends [OF x] by blast
qed simp

lemma fed_validate_extends:
  assumes x: "registry_extends r r'" "authorizations_extend a a'" and v: "fed_validate_event b r a l e = Inr ()"
  shows "fed_validate_event b r' a' l e = Inr ()"
proof (cases "fe_kind e")
  case NamespacePolicySet
  with v show ?thesis
    by (auto simp: fed_validate_event_def validate_policy_set_def rbind_eq_Inr_iff guard_eq_Inr_iff
        dest!: verify_reference_extends [OF x] state_at_head_extends [OF x(1)])
next
  case AuthorityEnroll
  with v show ?thesis
    by (auto simp: fed_validate_event_def validate_authority_enroll_def rbind_eq_Inr_iff guard_eq_Inr_iff
        dest!: verify_reference_extends [OF x] state_at_head_extends [OF x(1)])
next
  case AuthorityRevoke
  with v show ?thesis
    by (auto simp: fed_validate_event_def validate_authority_revoke_def rbind_eq_Inr_iff guard_eq_Inr_iff
        dest!: verify_reference_extends [OF x])
next
  case BundleAccept
  with v show ?thesis
    by (auto simp: fed_validate_event_def validate_bundle_accept_def rbind_eq_Inr_iff guard_eq_Inr_iff
        dest!: validate_approvals_extends [OF x])
qed

lemma use_approvals_extends:
  "authorizations_extend a a' \<Longrightarrow> use_approvals a qs used = (Inr (), u) \<Longrightarrow> use_approvals a' qs used = (Inr (), u)"
  by (induction qs arbitrary: used)
    (auto simp: authorization_by_sequence_def find_authorization_extends ok_or_eq_Inr_iff split: sum.splits)

lemma fed_apply_extends:
  assumes x: "authorizations_extend a a'" and "fed_apply_event a e l = (Inr (), l')"
  shows "fed_apply_event a' e l = (Inr (), l')"
proof (cases "fe_kind e")
  case BundleAccept
  with assms(2) obtain used where u: "use_approvals a (fe_approval_sequences e) (fl_used_authorization_ids l) = (Inr (), used)"
    by (auto simp: fed_apply_event_def split: prod.splits sum.splits)
  with use_approvals_extends [OF x u] BundleAccept assms(2) show ?thesis by (simp add: fed_apply_event_def)
qed (use assms(2) in \<open>simp_all add: fed_apply_event_def\<close>)

lemma fed_push_extends:
  assumes "authorizations_extend a a'" and "fed_admits b r a l ev"
  shows "fed_push a' l ev = fed_push a l ev"
proof -
  have "fed_validate_event b r a l (fst ev) = Inr ()" using assms(2) by (simp add: fed_admits_def)
  from fed_apply_extends [OF assms(1) fed_apply_validated [OF this]] show ?thesis by (simp add: fed_push_def)
qed

lemma fed_sync_extends:
  assumes x: "registry_extends r r'" "authorizations_extend a a'" and sy: "fed_file.in_sync a b r l0 l bs"
  shows "fed_file.in_sync a' b r' l0 l bs"
proof -
  have ad: "fed_admits b r a l ev \<Longrightarrow> fed_admits b r' a' l ev" for l ev
    using fed_validate_extends [OF x] by (simp add: fed_admits_def)
  have "frames_ok (fed_admits b r a) (fed_push a) l es \<Longrightarrow>
      frames_ok (fed_admits b r' a') (fed_push a') l es \<and> foldl (fed_push a') l es = foldl (fed_push a) l es" for l es
    by (induction es arbitrary: l) (simp_all add: ad fed_push_extends [OF x(2), of b r])
  with sy show ?thesis unfolding fed_file.in_sync_def fed_file.recorded_def by metis
qed

subsection \<open>Runs of the three ledgers\<close>

type_synonym fed_system = "federation_ledger \<times> auth_system"

definition fed_initial :: "fed_system \<Rightarrow> bool" where
  "fed_initial s \<longleftrightarrow> (case s of (l, r, a, fs) \<Rightarrow> \<exists>p fs0. auth_initial (r, a, fs0) \<and> p \<noteq> kr_path r \<and> p \<noteq> al_path a \<and>
     fed_create p fs0 = (Inr l, fs))"

inductive fed_step :: "signature_check \<Rightarrow> fed_system \<Rightarrow> fed_system \<Rightarrow> bool" for b where
  auth_moves: "auth_step b (r, a, fs) (r', a', fs') \<Longrightarrow> fed_step b (l, r, a, fs) (l, r', a', fs')"
| fed_handles:
    "fed_request_typed q \<Longrightarrow> fed_handle b r a q l fs = (res, l', fs') \<Longrightarrow>
     (\<And>bs. fget fs' (fl_path l) = Some bs \<Longrightarrow> length bs < usize_limit) \<Longrightarrow>
     fed_step b (l, r, a, fs) (l', r, a, fs')"
| fed_reopens:
    "fed_open_strict b (fl_path l) r a fs = (Inr l', fs') \<Longrightarrow> fed_step b (l, r, a, fs) (l', r, a, fs')"

definition fed_synced :: "signature_check \<Rightarrow> key_registry \<Rightarrow> authorization_ledger \<Rightarrow> federation_ledger \<Rightarrow> fsys \<Rightarrow> bool" where
  "fed_synced b r a l fs \<longleftrightarrow> (\<exists>bs. fget fs (fl_path l) = Some bs \<and> fed_file.in_sync a b r (fed_empty (fl_path l)) l bs)"

text \<open>As long as the frame digests of the registry are distinct, every file agrees with its ledger.\<close>

definition fed_inv :: "signature_check \<Rightarrow> fed_system \<Rightarrow> bool" where
  "fed_inv b s \<longleftrightarrow> (case s of (l, r, a, fs) \<Rightarrow> auth_inv b (r, a, fs) \<and> fl_path l \<noteq> kr_path r \<and> fl_path l \<noteq> al_path a \<and>
     policies_typed l \<and> (heads_distinct r \<longrightarrow> fed_synced b r a l fs))"

lemma fed_empty_simps [simp]:
  "fl_path (fed_empty p) = p" "fl_events (fed_empty p) = []" "fl_policies (fed_empty p) = []"
  "fl_authorities (fed_empty p) = []" "fl_accepted (fed_empty p) = []" "fl_used_authorization_ids (fed_empty p) = []"
  "fl_head_digest (fed_empty p) = zero_digest" "fl_last_timestamp (fed_empty p) = 0"
  by (simp_all add: fed_empty_def zero_digest_def)

lemma policies_typed_push: "policies_typed l \<Longrightarrow> fed_fits (fst ev) \<Longrightarrow> policies_typed (fed_push a l ev)"
  by (auto simp: policies_typed_def fed_push_def fed_apply_event_def bt_get_insert fed_fits_def fed_digests_typed_def
      split: federation_event_kind.splits option.splits prod.splits sum.splits if_splits)

lemma policies_typed_effect: "fed_effect b r a l fs l' fs' \<Longrightarrow> policies_typed l \<Longrightarrow> policies_typed l'"
  by (auto simp: append_effect_def fed_admits_def intro: policies_typed_push)

lemma fed_open_synced: "fed_synced b r a l fs \<Longrightarrow> fed_open_strict b (fl_path l) r a fs = (Inr l, fs)"
  using fed_file.in_sync_replay
  by (auto simp: fed_synced_def fed_open_strict_def io_query_def fs_read_def io_pure_def)

lemma fed_open_facts:
  assumes "fed_open_strict b p r a fs = (Inr l, fs')"
  shows "fl_path l = p" and "fs' = fs" and "policies_typed l"
proof -
  from assms obtain bs where "chain_replay fed_reader (fed_replay_frame b r a) (fed_empty p) bs = Inr l" and fs: "fs' = fs"
    by (auto simp: fed_open_strict_def io_bind_eq_Inr_iff io_query_def io_pure_def split: if_splits)
  from fed_file.replay_accepts_frames [OF this(1)] obtain es where r: "fed_file.recorded a b r (fed_empty p) es"
    and l: "l = foldl (fed_push a) (fed_empty p) es" by auto
  show "fs' = fs" by (rule fs)
  have "frames_ok (fed_admits b r a) (fed_push a) m es \<Longrightarrow> policies_typed m \<Longrightarrow>
      fl_path (foldl (fed_push a) m es) = fl_path m \<and> policies_typed (foldl (fed_push a) m es)" for m
    by (induction es arbitrary: m) (simp_all add: policies_typed_push fed_admits_def)
  from this [of "fed_empty p"] r show "fl_path l = p" "policies_typed l"
    by (simp_all add: l fed_file.recorded_def policies_typed_def)
qed

lemma fed_effect_path: "fed_effect b r a l fs l' fs' \<Longrightarrow> fl_path l' = fl_path l"
  by (auto simp: append_effect_def)

lemma fed_effect_synced:
  assumes eff: "fed_effect b r a l fs l' fs'" and sy: "fed_synced b r a l fs"
    and sz: "\<And>bs. fget fs' (fl_path l) = Some bs \<Longrightarrow> length bs < usize_limit"
  shows "fed_synced b r a l' fs'"
proof -
  from sy obtain bs where "fget fs (fl_path l) = Some bs" "fed_file.in_sync a b r (fed_empty (fl_path l)) l bs"
    by (auto simp: fed_synced_def)
  from fed_file.in_sync_effect [OF eff this sz] fed_effect_path [OF eff] show ?thesis by (auto simp: fed_synced_def)
qed

text \<open>A step of the registry or of the authorisation ledger keeps other files and only adds to them.\<close>

lemma auth_step_grows:
  assumes st: "auth_step b (r, a, fs) (r', a', fs')" and inv: "auth_inv b (r, a, fs)"
  shows "kr_path r' = kr_path r" and "al_path a' = al_path a"
    and "q \<noteq> kr_path r \<Longrightarrow> q \<noteq> al_path a \<Longrightarrow> fget fs' q = fget fs q"
    and "heads_distinct r' \<Longrightarrow> heads_distinct r \<and> registry_extends r r' \<and> authorizations_extend a a'"
proof -
  have ri: "registry_inv b (r, fs)" using inv by (simp add: auth_inv_def)
  have "kr_path r' = kr_path r \<and> al_path a' = al_path a \<and>
      (q \<noteq> kr_path r \<longrightarrow> q \<noteq> al_path a \<longrightarrow> fget fs' q = fget fs q) \<and>
      (heads_distinct r' \<longrightarrow> heads_distinct r \<and> registry_extends r r' \<and> authorizations_extend a a')"
    using st
  proof cases
    case registry_moves
    with registry_step_grows [OF registry_moves(2) ri] show ?thesis by (simp add: authorizations_extend_def)
  next
    case (auth_handles q res)
    note eff = auth_handle_effect [OF auth_handles(3,2) registry_inv_facts [OF ri]]
    have "authorizations_extend a a'" using eff by (auto simp: append_effect_def authorizations_extend_def)
    with eff auth_handles auth_effect_path [OF eff] append_effect_keeps [OF eff] show ?thesis by (simp add: registry_extends_def)
  next
    case auth_reopens
    with authorizations_open_path [OF auth_reopens(2)] auth_open_synced [of b r a fs] inv
    show ?thesis by (auto simp: auth_inv_def registry_extends_def authorizations_extend_def)
  qed
  then show "kr_path r' = kr_path r" "al_path a' = al_path a"
    "q \<noteq> kr_path r \<Longrightarrow> q \<noteq> al_path a \<Longrightarrow> fget fs' q = fget fs q"
    "heads_distinct r' \<Longrightarrow> heads_distinct r \<and> registry_extends r r' \<and> authorizations_extend a a'" by blast+
qed

lemma auth_inv_frame:
  "auth_inv b (r, a, fs) \<Longrightarrow> fget fs' (kr_path r) = fget fs (kr_path r) \<Longrightarrow> fget fs' (al_path a) = fget fs (al_path a) \<Longrightarrow>
   auth_inv b (r, a, fs')"
  by (auto simp: auth_inv_def auth_synced_def registry_inv_def)

lemma fed_create_files:
  assumes "fed_create p fs = (Inr l, fs')"
  shows "l = fed_empty p \<and> fget fs' p = Some [] \<and> (\<forall>q. q \<noteq> p \<longrightarrow> fget fs' q = fget fs q)"
proof -
  from assms obtain fs1 where m: "(case path_parent p of Some parent \<Rightarrow> io_map_err Fed_Io (create_dir_all parent)
      | None \<Rightarrow> io_ret ()) fs = (Inr (), fs1)" and c: "create_new p [] fs1 = (Inr (), fs')" and l: "l = fed_empty p"
    by (auto simp: fed_create_def io_bind_eq_Inr_iff io_ret_def)
  have "fget fs1 q = fget fs q" for q
    using m by (auto simp: io_ret_def split: option.splits dest: create_dir_all_files)
  with c l show ?thesis by (auto simp: create_new_def split: if_splits)
qed

interpretation fed_run: invariant_system fed_initial "fed_step b" "fed_inv b" for b
proof unfold_locales
  fix s
  assume "fed_initial s"
  then obtain l r a fs p fs0 where s: "s = (l, r, a, fs)" and ai: "auth_initial (r, a, fs0)"
    and p: "p \<noteq> kr_path r" "p \<noteq> al_path a" and c: "fed_create p fs0 = (Inr l, fs)" by (auto simp: fed_initial_def)
  from fed_create_files [OF c] have l: "l = fed_empty p" and f: "fget fs p = Some []" "q \<noteq> p \<Longrightarrow> fget fs q = fget fs0 q" for q
    by simp_all
  have "fed_synced b r a l fs" using f(1) by (auto simp: fed_synced_def l fed_file.in_sync_empty intro: exI [of _ "[]"])
  then show "fed_inv b s" using p auth_inv_frame [OF auth_run.inv_init [OF ai]] f(2)
    by (simp add: fed_inv_def s l policies_typed_def)
next
  fix s s'
  assume "fed_step b s s'" and "fed_inv b s"
  then show "fed_inv b s'"
  proof (induction rule: fed_step.induct)
    case (auth_moves r a fs r' a' fs' l)
    then have i: "auth_inv b (r, a, fs)" "fl_path l \<noteq> kr_path r" "fl_path l \<noteq> al_path a" by (simp_all add: fed_inv_def)
    note g = auth_step_grows [OF auth_moves(1) i(1)]
    have "fed_synced b r' a' l fs'" if "heads_distinct r'"
      using that g(3) [OF i(2,3)] g(4) auth_moves.prems by (auto simp: fed_inv_def fed_synced_def intro: fed_sync_extends)
    then show ?case using auth_run.inv_step [OF auth_moves(1) i(1)] g(1,2) auth_moves.prems by (simp add: fed_inv_def)
  next
    case (fed_handles q r a l fs res l' fs')
    then have i: "auth_inv b (r, a, fs)" "fl_path l \<noteq> kr_path r" "fl_path l \<noteq> al_path a" "policies_typed l"
      by (simp_all add: fed_inv_def)
    note eff = fed_handle_effect [OF fed_handles(2,1) i(4)]
    show ?case using fed_handles.prems auth_inv_frame [OF i(1)] append_effect_keeps [OF eff] i(2,3)
        fed_effect_path [OF eff] policies_typed_effect [OF eff i(4)] fed_effect_synced [OF eff _ fed_handles(3)]
      by (auto simp: fed_inv_def)
  next
    case (fed_reopens l r a fs l' fs')
    then show ?case using fed_open_facts [OF fed_reopens(1)] fed_open_synced [of b r a l fs] by (auto simp: fed_inv_def)
  qed
qed

lemma reachable_fed:
  assumes "reachable fed_initial (fed_step b) (l, r, a, fs)"
  shows "auth_inv b (r, a, fs)" and "heads_distinct r \<Longrightarrow> fed_synced b r a l fs"
  using fed_run.reachable_inv [OF assms] by (simp_all add: fed_inv_def)

text \<open>
  The federation ledger reopens exactly, against the registry and the authorisation ledger as
  they are now: in every state reachable from the creation of the three ledgers by requests to
  them, interleaved in any order, and by reopening them, a strict open of the federation ledger
  succeeds and gives back exactly the ledger in memory. The frame digests of the key registry are
  supposed distinct, and a bundle has at most 1,000,000 approvals.
\<close>

theorem federation_reopens_exactly:
  assumes "reachable fed_initial (fed_step b) (l, r, a, fs)" and "heads_distinct r"
  shows "fed_open_strict b (fl_path l) r a fs = (Inr l, fs)"
  by (rule fed_open_synced [OF reachable_fed(2) [OF assms]])

subsection \<open>The state of the federation and its events\<close>

definition policy_of :: "federation_event list \<Rightarrow> str \<Rightarrow> federation_event option" where
  "policy_of es n = List.find (\<lambda>e. fe_kind e = NamespacePolicySet \<and> fe_namespace e = n) es"

definition last_authority_event :: "federation_event list \<Rightarrow> str \<Rightarrow> str \<Rightarrow> federation_event option" where
  "last_authority_event es n k = List.find (\<lambda>e. (fe_kind e = AuthorityEnroll \<or> fe_kind e = AuthorityRevoke) \<and>
     fe_namespace e = n \<and> fe_key_id e = k) (rev es)"

definition last_bundle :: "federation_event list \<Rightarrow> str \<Rightarrow> federation_event option" where
  "last_bundle es n = List.find (\<lambda>e. fe_kind e = BundleAccept \<and> fe_namespace e = n) (rev es)"

text \<open>The weight of an authority: it is enrolled and its enrolment has not been revoked.\<close>

definition enrolled_weight :: "federation_event list \<Rightarrow> str \<Rightarrow> str \<Rightarrow> nat option" where
  "enrolled_weight es n k = (case last_authority_event es n k of
     Some e \<Rightarrow> if fe_kind e = AuthorityEnroll then Some (unat (fe_weight e)) else None | None \<Rightarrow> None)"

definition policies_match :: "federation_event list \<Rightarrow> federation_ledger \<Rightarrow> bool" where
  "policies_match es l \<longleftrightarrow> (\<forall>n. bt_get (fl_policies l) n = map_option (\<lambda>e.
     \<lparr>np_namespace = fe_namespace e, np_policy_version = fe_policy_version e,
      np_controller_key_id = fe_controller_key_id e, np_controller_role_mask = fe_controller_role_mask e,
      np_authority_role_mask = fe_authority_role_mask e, np_quorum_weight = fe_quorum_weight e,
      np_provider_requirement = fe_provider_requirement e, np_policy_digest = fe_policy_digest e\<rparr>) (policy_of es n))"

definition authorities_match :: "federation_event list \<Rightarrow> federation_ledger \<Rightarrow> bool" where
  "authorities_match es l \<longleftrightarrow> (\<forall>n k. map_option (\<lambda>s. (as_active s, as_weight s)) (bt_get (fl_authorities l) (n, k)) =
     map_option (\<lambda>e. (fe_kind e = AuthorityEnroll, fe_weight e)) (last_authority_event es n k))"

definition bundles_match :: "federation_event list \<Rightarrow> federation_ledger \<Rightarrow> bool" where
  "bundles_match es l \<longleftrightarrow> (\<forall>n. map_option (\<lambda>s. (ab_bundle_version s, ab_bundle_digest s)) (bt_get (fl_accepted l) n) =
     map_option (\<lambda>e. (fe_bundle_version e, fe_bundle_digest e)) (last_bundle es n))"

text \<open>The identifiers of the authorisations that approved a bundle.\<close>

definition approval_ids :: "authorization_ledger \<Rightarrow> federation_event \<Rightarrow> bytes set" where
  "approval_ids a e = (if fe_kind e = BundleAccept
     then {au_event_id au | au q. q \<in> set (fe_approval_sequences e) \<and> find_authorization a q = Some au} else {})"

definition used_match :: "authorization_ledger \<Rightarrow> federation_event list \<Rightarrow> federation_ledger \<Rightarrow> bool" where
  "used_match a es l \<longleftrightarrow> set (fl_used_authorization_ids l) = (\<Union>e \<in> set es. approval_ids a e)"

lemma use_approvals_ids:
  "use_approvals a qs used = (Inr u, used') \<Longrightarrow>
   set used' = set used \<union> {au_event_id au | au q. q \<in> set qs \<and> find_authorization a q = Some au}"
proof (induction qs arbitrary: used)
  case (Cons q qs)
  then obtain au where au: "find_authorization a q = Some au"
    "use_approvals a qs (bset_insert (au_event_id au) used) = (Inr u, used')"
    by (auto simp: authorization_by_sequence_def split: sum.splits option.splits)
  from Cons.IH [OF au(2)] au(1) show ?case by auto
qed simp

lemma fed_events_snoc:
  "policy_of (es @ [e]) n = (case policy_of es n of Some p \<Rightarrow> Some p
     | None \<Rightarrow> if fe_kind e = NamespacePolicySet \<and> fe_namespace e = n then Some e else None)"
  "last_authority_event (es @ [e]) n k = (if (fe_kind e = AuthorityEnroll \<or> fe_kind e = AuthorityRevoke) \<and>
     fe_namespace e = n \<and> fe_key_id e = k then Some e else last_authority_event es n k)"
  "last_bundle (es @ [e]) n = (if fe_kind e = BundleAccept \<and> fe_namespace e = n then Some e else last_bundle es n)"
  by (auto simp: policy_of_def last_authority_event_def last_bundle_def find_snoc split: option.splits)

text \<open>What one event changes.\<close>

lemma fed_push_policy:
  assumes "fe_kind (fst ev) = NamespacePolicySet"
  shows "fl_policies (fed_push a l ev) = bt_insert (fe_namespace (fst ev))
      \<lparr>np_namespace = fe_namespace (fst ev), np_policy_version = fe_policy_version (fst ev),
       np_controller_key_id = fe_controller_key_id (fst ev), np_controller_role_mask = fe_controller_role_mask (fst ev),
       np_authority_role_mask = fe_authority_role_mask (fst ev), np_quorum_weight = fe_quorum_weight (fst ev),
       np_provider_requirement = fe_provider_requirement (fst ev), np_policy_digest = fe_policy_digest (fst ev)\<rparr> (fl_policies l)"
  using assms by (simp add: fed_push_def fed_apply_event_def)

lemma fed_push_others:
  "fe_kind (fst ev) \<noteq> NamespacePolicySet \<Longrightarrow> fl_policies (fed_push a l ev) = fl_policies l"
  "fe_kind (fst ev) \<noteq> AuthorityEnroll \<Longrightarrow> fe_kind (fst ev) \<noteq> AuthorityRevoke \<Longrightarrow>
     fl_authorities (fed_push a l ev) = fl_authorities l"
  "fe_kind (fst ev) \<noteq> BundleAccept \<Longrightarrow> fl_accepted (fed_push a l ev) = fl_accepted l"
  "fe_kind (fst ev) \<noteq> BundleAccept \<Longrightarrow> fl_used_authorization_ids (fed_push a l ev) = fl_used_authorization_ids l"
  by (auto simp: fed_push_def fed_apply_event_def split: federation_event_kind.splits option.splits prod.splits sum.splits)

lemma fed_push_authority:
  assumes "fed_validate_event b r a l (fst ev) = Inr u" and "fe_kind (fst ev) = AuthorityEnroll \<or> fe_kind (fst ev) = AuthorityRevoke"
  shows "\<exists>s. fl_authorities (fed_push a l ev) = bt_insert (fe_namespace (fst ev), fe_key_id (fst ev)) s (fl_authorities l) \<and>
     as_active s = (fe_kind (fst ev) = AuthorityEnroll) \<and> as_weight s = fe_weight (fst ev)"
proof (cases "fe_kind (fst ev)")
  case AuthorityRevoke
  with assms(1) obtain s where s: "bt_get (fl_authorities l) (fe_namespace (fst ev), fe_key_id (fst ev)) = Some s"
    "as_weight s = fe_weight (fst ev)"
    by (auto simp: fed_validate_event_def validate_authority_revoke_def rbind_eq_Inr_iff guard_eq_Inr_iff)
  with AuthorityRevoke show ?thesis
    by (intro exI [of _ "s\<lparr>as_active := False, as_last_event_sequence := fe_sequence (fst ev)\<rparr>"])
      (simp add: fed_push_def fed_apply_event_def)
qed (use assms(2) in \<open>auto simp: fed_push_def fed_apply_event_def\<close>)

lemma fed_push_bundle:
  assumes "fed_validate_event b r a l (fst ev) = Inr u" and "fe_kind (fst ev) = BundleAccept"
  shows "fl_accepted (fed_push a l ev) = bt_insert (fe_namespace (fst ev))
       \<lparr>ab_namespace = fe_namespace (fst ev), ab_policy_version = fe_policy_version (fst ev),
        ab_bundle_version = fe_bundle_version (fst ev), ab_bundle_digest = fe_bundle_digest (fst ev),
        ab_event_sequence = fe_sequence (fst ev)\<rparr> (fl_accepted l)"
    and "set (fl_used_authorization_ids (fed_push a l ev)) = set (fl_used_authorization_ids l) \<union> approval_ids a (fst ev)"
proof -
  note ap = fed_apply_validated [OF assms(1)]
  from ap assms(2) obtain used where u: "use_approvals a (fe_approval_sequences (fst ev)) (fl_used_authorization_ids l) = (Inr (), used)"
    by (cases "use_approvals a (fe_approval_sequences (fst ev)) (fl_used_authorization_ids l)")
      (auto simp: fed_apply_event_def split: sum.splits)
  show "fl_accepted (fed_push a l ev) = bt_insert (fe_namespace (fst ev))
       \<lparr>ab_namespace = fe_namespace (fst ev), ab_policy_version = fe_policy_version (fst ev),
        ab_bundle_version = fe_bundle_version (fst ev), ab_bundle_digest = fe_bundle_digest (fst ev),
        ab_event_sequence = fe_sequence (fst ev)\<rparr> (fl_accepted l)"
    "set (fl_used_authorization_ids (fed_push a l ev)) = set (fl_used_authorization_ids l) \<union> approval_ids a (fst ev)"
    using u assms(2) use_approvals_ids [OF u] by (simp_all add: fed_push_def fed_apply_event_def approval_ids_def)
qed

definition fed_matches :: "authorization_ledger \<Rightarrow> federation_event list \<Rightarrow> federation_ledger \<Rightarrow> bool" where
  "fed_matches a es l \<longleftrightarrow> policies_match es l \<and> authorities_match es l \<and> bundles_match es l \<and> used_match a es l"

lemma fed_matches_push:
  assumes m: "fed_matches a es l" and ad: "fed_admits b r a l ev"
  shows "fed_matches a (es @ [fst ev]) (fed_push a l ev)"
proof -
  let ?e = "fst ev"
  have v: "fed_validate_event b r a l ?e = Inr ()" using ad by (simp add: fed_admits_def)
  consider (policy) "fe_kind ?e = NamespacePolicySet" | (accepts) "fe_kind ?e = BundleAccept"
    | (authority) "fe_kind ?e = AuthorityEnroll \<or> fe_kind ?e = AuthorityRevoke" by (cases "fe_kind ?e") auto
  then show ?thesis
  proof cases
    case policy
    then have "bt_get (fl_policies l) (fe_namespace ?e) = None"
      using v by (auto simp: fed_validate_event_def validate_policy_set_def rbind_eq_Inr_iff guard_eq_Inr_iff)
    then have "policy_of es (fe_namespace ?e) = None" using m by (auto simp: fed_matches_def policies_match_def)
    then have "policies_match (es @ [?e]) (fed_push a l ev)"
      using m policy fed_push_policy [OF policy]
      by (auto simp: fed_matches_def policies_match_def fed_events_snoc bt_get_insert split: option.splits)
    then show ?thesis using m policy fed_push_others(2-4) [of ev]
      by (auto simp: fed_matches_def authorities_match_def bundles_match_def used_match_def fed_events_snoc approval_ids_def)
  next
    case accepts
    from fed_push_bundle [OF v accepts] m accepts fed_push_others(1,2) [of ev] show ?thesis
      by (auto simp: fed_matches_def policies_match_def authorities_match_def bundles_match_def used_match_def fed_events_snoc
          bt_get_insert split: option.splits)
  next
    case authority
    obtain s where "fl_authorities (fed_push a l ev) = bt_insert (fe_namespace ?e, fe_key_id ?e) s (fl_authorities l)"
      "as_active s = (fe_kind ?e = AuthorityEnroll)" "as_weight s = fe_weight ?e"
      using fed_push_authority [OF v authority] by auto
    with m authority fed_push_others(1,3,4) [of ev] show ?thesis
      by (auto simp: fed_matches_def policies_match_def authorities_match_def bundles_match_def used_match_def fed_events_snoc
          bt_get_insert approval_ids_def split: option.splits)
  qed
qed

lemma synced_matches: "fed_file.in_sync a b r (fed_empty p) l bs \<Longrightarrow> fed_matches a (fl_events l) l"
proof (induction rule: fed_file.in_sync_induct)
  case empty
  then show ?case
    by (simp add: fed_matches_def policies_match_def authorities_match_def bundles_match_def used_match_def policy_of_def
        last_authority_event_def last_bundle_def)
next
  case (push l bs ev)
  from fed_matches_push [OF push.IH push(2)] show ?case by simp
qed

subsection \<open>Accepted bundles\<close>

text \<open>
  An accepted bundle: the namespace had a policy; every approval is a genuine authorisation of
  this bundle under this policy, by different keys that were enrolled authorities of the
  namespace; together they have the weight that the policy requires.
\<close>

definition bundle_approved ::
  "signature_check \<Rightarrow> key_registry \<Rightarrow> authorization_ledger \<Rightarrow> federation_event list \<Rightarrow> federation_event \<Rightarrow> bool" where
  "bundle_approved b r a past e \<longleftrightarrow> (\<exists>p aus ws. policy_of past (fe_namespace e) = Some p \<and>
     fe_policy_digest e = fe_policy_digest p \<and>
     list_all2 (\<lambda>q au. find_authorization a q = Some au \<and> au_domain_code au = DOMAIN_FEDERATION_BUNDLE \<and>
       au_required_role_mask au = fe_authority_role_mask p \<and>
       bundle_subject_digest (fe_namespace e) (fe_policy_version e) (fe_bundle_version e) (fe_policy_digest e)
         (fe_parent_bundle_digest e) (fe_bundle_digest e) = Inr (au_subject_digest au) \<and>
       (\<exists>n. authorized_at b (kr_events r) au n)) (fe_approval_sequences e) aus \<and>
     distinct (map au_key_id aus) \<and> map (\<lambda>au. enrolled_weight past (fe_namespace e) (au_key_id au)) aus = map Some ws \<and>
     unat (fe_quorum_weight p) \<le> sum_list ws)"

text \<open>A bundle follows the one accepted last; no authorisation has approved an earlier bundle.\<close>

definition bundle_in_chain :: "authorization_ledger \<Rightarrow> federation_event list \<Rightarrow> federation_event \<Rightarrow> bool" where
  "bundle_in_chain a past e \<longleftrightarrow>
     (case last_bundle past (fe_namespace e) of
        None \<Rightarrow> fe_bundle_version e = 1 \<and> fe_parent_bundle_digest e = zero_digest
      | Some p \<Rightarrow> fe_bundle_version e = fe_bundle_version p + 1 \<and> fe_parent_bundle_digest e = fe_bundle_digest p) \<and>
     sorted_wrt (<) (fe_approval_sequences e) \<and> (\<forall>p \<in> set past. approval_ids a p \<inter> approval_ids a e = {})"

lemma validate_approvals_sound:
  "validate_approvals b r a l p n s qs prior keys ids t = Inr t' \<Longrightarrow>
   sorted_wrt (<) (prior # qs) \<and> (\<exists>aus. list_all2 (approval_ok b r a l p n s) qs aus \<and> distinct (map au_key_id aus) \<and>
     set (map au_key_id aus) \<inter> set keys = {} \<and> t' = t + (\<Sum>au\<leftarrow>aus. authority_weight l n (au_key_id au)))"
proof (induction qs arbitrary: prior keys ids t)
  case (Cons q qs)
  then obtain au where au: "prior < q" "approval_ok b r a l p n s q au" "au_key_id au \<notin> set keys"
    "validate_approvals b r a l p n s qs q (bset_insert (au_key_id au) keys) (bset_insert (au_event_id au) ids)
       (t + authority_weight l n (au_key_id au)) = Inr t'" by (auto simp: validate_approvals_Cons)
  from Cons.IH [OF au(4)] obtain aus where "sorted_wrt (<) (q # qs)" "list_all2 (approval_ok b r a l p n s) qs aus"
    "distinct (map au_key_id aus)" "set (map au_key_id aus) \<inter> set (bset_insert (au_key_id au) keys) = {}"
    "t' = t + authority_weight l n (au_key_id au) + (\<Sum>au\<leftarrow>aus. authority_weight l n (au_key_id au))" by blast
  with au(1-3) show ?case by (intro conjI exI [of _ "au # aus"]) (auto dest: less_trans)
qed (auto intro: exI [of _ "[]"])

lemma enrolled_weight_match:
  assumes "authorities_match es l" and "authority_active l n k"
  shows "enrolled_weight es n k = Some (authority_weight l n k)"
proof -
  from assms(2) obtain s where s: "bt_get (fl_authorities l) (n, k) = Some s" "as_active s"
    by (auto simp: authority_active_def split: option.splits)
  have "map_option (\<lambda>s. (as_active s, as_weight s)) (bt_get (fl_authorities l) (n, k)) =
      map_option (\<lambda>e. (fe_kind e = AuthorityEnroll, fe_weight e)) (last_authority_event es n k)"
    using assms(1) by (simp add: authorities_match_def)
  with s obtain e where "last_authority_event es n k = Some e" "fe_kind e = AuthorityEnroll" "fe_weight e = as_weight s"
    by (cases "last_authority_event es n k") auto
  with s show ?thesis by (simp add: enrolled_weight_def authority_weight_def)
qed

lemma bundle_validated:
  assumes v: "fed_validate_event b r a l e = Inr ()" and kind: "fe_kind e = BundleAccept"
    and m: "fed_matches a es l" and k: "heads_kept r" and ok: "\<And>au. au \<in> set (al_events a) \<Longrightarrow> auth_fits au"
  shows "bundle_approved b r a es e" and "bundle_in_chain a es e"
proof -
  let ?n = "fe_namespace e"
  from v kind obtain np t where np: "policy_for_event l e = Inr np" and fo: "bundle_follows l ?n (fe_bundle_version e) (fe_parent_bundle_digest e)"
    and sd: "bundle_subject_digest ?n (fe_policy_version e) (fe_bundle_version e) (fe_policy_digest e)
      (fe_parent_bundle_digest e) (fe_bundle_digest e) = Inr (fe_subject_digest e)"
    and va: "validate_approvals b r a l np ?n (fe_subject_digest e) (fe_approval_sequences e) 0 [] [] 0 = Inr t"
    and qt: "unat (np_quorum_weight np) \<le> t"
    by (auto simp: fed_validate_event_def validate_bundle_accept_def rbind_eq_Inr_iff guard_eq_Inr_iff not_less)
  from np have g: "bt_get (fl_policies l) ?n = Some np" "np_policy_digest np = fe_policy_digest e"
    by (auto simp: policy_for_event_def rbind_eq_Inr_iff guard_eq_Inr_iff)
  from g(1) m obtain p where p: "policy_of es ?n = Some p" "np_policy_digest np = fe_policy_digest p"
    "np_authority_role_mask np = fe_authority_role_mask p" "np_quorum_weight np = fe_quorum_weight p"
    unfolding fed_matches_def policies_match_def by fastforce
  from validate_approvals_sound [OF va] obtain aus where so: "sorted_wrt (<) (0 # fe_approval_sequences e)"
    and aus: "list_all2 (approval_ok b r a l np ?n (fe_subject_digest e)) (fe_approval_sequences e) aus"
    and di: "distinct (map au_key_id aus)" and t: "t = (\<Sum>au\<leftarrow>aus. authority_weight l ?n (au_key_id au))" by auto
  have each: "find_authorization a q = Some au \<and> au_domain_code au = DOMAIN_FEDERATION_BUNDLE \<and>
      au_required_role_mask au = fe_authority_role_mask p \<and> Inr (fe_subject_digest e) = Inr (au_subject_digest au) \<and>
      (\<exists>n. authorized_at b (kr_events r) au n)" if "approval_ok b r a l np ?n (fe_subject_digest e) q au" for q au
  proof -
    from that have f: "find_authorization a q = Some au" "verify_event b au r = Inr True" "au_domain_code au = DOMAIN_FEDERATION_BUNDLE"
      "au_required_role_mask au = np_authority_role_mask np" "au_subject_digest au = fe_subject_digest e"
      by (simp_all add: approval_ok_def verified_reference)
    have "au \<in> set (al_events a)" using f(1) by (auto simp: find_authorization_def find_Some_iff)
    with verified_authorized [OF f(2) k] ok f p show ?thesis by (simp add: auth_fits_def)
  qed
  have active: "list_all (\<lambda>au. authority_active l ?n (au_key_id au)) aus"
    using aus by (induction rule: list_all2_induct) (simp_all add: approval_ok_def)
  have w: "map (\<lambda>au. enrolled_weight es ?n (au_key_id au)) aus = map Some (map (\<lambda>au. authority_weight l ?n (au_key_id au)) aus)"
    using active enrolled_weight_match [of es l ?n] m by (simp add: list_all_iff fed_matches_def)
  show "bundle_approved b r a es e"
    unfolding bundle_approved_def sd
  proof (intro exI conjI)
    show "policy_of es ?n = Some p" "fe_policy_digest e = fe_policy_digest p" "distinct (map au_key_id aus)"
      "map (\<lambda>au. enrolled_weight es ?n (au_key_id au)) aus = map Some (map (\<lambda>au. authority_weight l ?n (au_key_id au)) aus)"
      "unat (fe_quorum_weight p) \<le> sum_list (map (\<lambda>au. authority_weight l ?n (au_key_id au)) aus)"
      using p g(2) di w qt t by simp_all
  qed (use aus each in \<open>rule list_all2_mono\<close>)
  have ids: "approval_ids a e \<inter> set (fl_used_authorization_ids l) = {}"
  proof -
    have "au_event_id au \<notin> set (fl_used_authorization_ids l)" if "q \<in> set (fe_approval_sequences e)" "find_authorization a q = Some au" for q au
      using aus that by (induction rule: list_all2_induct) (auto simp: approval_ok_def verified_reference)
    then show ?thesis by (auto simp: approval_ids_def)
  qed
  have "bundles_match es l" using m by (simp add: fed_matches_def)
  then have "map_option (\<lambda>s. (ab_bundle_version s, ab_bundle_digest s)) (bt_get (fl_accepted l) ?n) =
      map_option (\<lambda>e. (fe_bundle_version e, fe_bundle_digest e)) (last_bundle es ?n)" by (simp add: bundles_match_def)
  with fo have "case last_bundle es ?n of None \<Rightarrow> fe_bundle_version e = 1 \<and> fe_parent_bundle_digest e = zero_digest
      | Some p \<Rightarrow> fe_bundle_version e = fe_bundle_version p + 1 \<and> fe_parent_bundle_digest e = fe_bundle_digest p"
    by (auto simp: bundle_follows_def zero_digest_def split: option.splits)
  with so ids m show "bundle_in_chain a es e" by (auto simp: bundle_in_chain_def fed_matches_def used_match_def)
qed

lemma synced_bundles:
  assumes "fed_file.in_sync a b r (fed_empty p) l bs" and k: "heads_kept r" and ok: "\<And>au. au \<in> set (al_events a) \<Longrightarrow> auth_fits au"
  shows "\<forall>i < length (fl_events l). fe_kind (fl_events l ! i) = BundleAccept \<longrightarrow>
     bundle_approved b r a (take i (fl_events l)) (fl_events l ! i) \<and> bundle_in_chain a (take i (fl_events l)) (fl_events l ! i)"
  using assms(1)
proof (induction rule: fed_file.in_sync_induct)
  case (push l bs ev)
  have v: "fed_validate_event b r a l (fst ev) = Inr ()" using push(2) by (simp add: fed_admits_def)
  note new = bundle_validated [OF v _ synced_matches [OF push(1)] k ok]
  show ?case
  proof (intro allI impI)
    fix i assume "i < length (fl_events (fed_push a l ev))" and kd: "fe_kind (fl_events (fed_push a l ev) ! i) = BundleAccept"
    then consider "i < length (fl_events l)" | "i = length (fl_events l)" by fastforce
    then show "bundle_approved b r a (take i (fl_events (fed_push a l ev))) (fl_events (fed_push a l ev) ! i) \<and>
        bundle_in_chain a (take i (fl_events (fed_push a l ev))) (fl_events (fed_push a l ev) ! i)"
      using push.IH new kd by cases (auto simp: nth_append)
  qed
qed simp

lemma reachable_fed_parts:
  assumes "reachable fed_initial (fed_step b) (l, r, a, fs)" and "heads_distinct r"
  shows "\<exists>bs. fed_file.in_sync a b r (fed_empty (fl_path l)) l bs" and "heads_kept r"
    and "au \<in> set (al_events a) \<Longrightarrow> auth_fits au"
proof -
  have i: "auth_inv b (r, a, fs)" by (rule reachable_fed(1) [OF assms(1)])
  then obtain rs where "registry_file.in_sync b (registry_empty (kr_path r)) r rs" by (auto simp: auth_inv_def registry_inv_def)
  then show "heads_kept r" using synced_heads assms(2) by blast
  from i assms(2) obtain as where "auth_file.in_sync b r (authorizations_empty (al_path a)) a as"
    by (auto simp: auth_inv_def auth_synced_def)
  then show "au \<in> set (al_events a) \<Longrightarrow> auth_fits au" using synced_authorizations by blast
  show "\<exists>bs. fed_file.in_sync a b r (fed_empty (fl_path l)) l bs" using reachable_fed(2) [OF assms] by (auto simp: fed_synced_def)
qed

text \<open>
  C8. Accepted bundles have a quorum. In every reachable state, each recorded bundle was approved
  by recorded authorisations for exactly this bundle and the policy of its namespace, signed by
  pairwise different keys; each key was enrolled as authority of the namespace when the bundle was
  accepted and held, unrevoked, the authority role at the registry head that its authorisation
  names; the weights of their enrolments reach the quorum of the policy.
\<close>

theorem bundles_have_quorum:
  assumes "reachable fed_initial (fed_step b) (l, r, a, fs)" and "heads_distinct r"
    and "i < length (fl_events l)" and "fe_kind (fl_events l ! i) = BundleAccept"
  shows "bundle_approved b r a (take i (fl_events l)) (fl_events l ! i)"
  using synced_bundles reachable_fed_parts [OF assms(1,2)] assms(3,4) by metis

text \<open>
  C18. Bundles form a chain. In every reachable state, the first bundle of a namespace has version
  1 and the zero parent; each later one has the next version and names the digest of the one
  before. The approvals of a bundle are in strictly increasing order, and no authorisation
  approves two bundles.
\<close>

theorem bundles_form_chain:
  assumes "reachable fed_initial (fed_step b) (l, r, a, fs)" and "heads_distinct r"
    and "i < length (fl_events l)" and "fe_kind (fl_events l ! i) = BundleAccept"
  shows "bundle_in_chain a (take i (fl_events l)) (fl_events l ! i)"
  using synced_bundles reachable_fed_parts [OF assms(1,2)] assms(3,4) by metis

subsection \<open>Growth of the federation\<close>

lemma fed_push_grows:
  assumes "fed_admits b r a l ev"
  shows "federation_extends l (fed_push a l ev)"
proof (cases "fe_kind (fst ev) = NamespacePolicySet")
  case True
  then have "bt_get (fl_policies l) (fe_namespace (fst ev)) = None"
    using assms by (auto simp: fed_admits_def fed_validate_event_def validate_policy_set_def rbind_eq_Inr_iff guard_eq_Inr_iff)
  with fed_push_policy [OF True] show ?thesis by (auto simp: federation_extends_def bt_get_insert)
qed (simp add: federation_extends_def fed_push_others(1))

lemma fed_effect_grows: "fed_effect b r a l fs l' fs' \<Longrightarrow> federation_extends l l'"
  using fed_push_grows by (auto simp: append_effect_def federation_extends_def [of l l])

text \<open>A step of the three ledgers adds to them, and touches no file but theirs.\<close>

lemma fed_step_grows:
  assumes st: "fed_step b (l, r, a, fs) (l', r', a', fs')" and inv: "fed_inv b (l, r, a, fs)"
  shows "fl_path l' = fl_path l \<and> kr_path r' = kr_path r \<and> al_path a' = al_path a"
    and "q \<noteq> fl_path l \<Longrightarrow> q \<noteq> kr_path r \<Longrightarrow> q \<noteq> al_path a \<Longrightarrow> fget fs' q = fget fs q"
    and "heads_distinct r' \<Longrightarrow> heads_distinct r \<and> registry_extends r r' \<and> authorizations_extend a a' \<and> federation_extends l l'"
proof -
  have i: "auth_inv b (r, a, fs)" "policies_typed l" using inv by (simp_all add: fed_inv_def)
  note same = registry_extends_def [of r r] authorizations_extend_def [of a a] federation_extends_def [of l l]
  have "(fl_path l' = fl_path l \<and> kr_path r' = kr_path r \<and> al_path a' = al_path a) \<and>
      (q \<noteq> fl_path l \<longrightarrow> q \<noteq> kr_path r \<longrightarrow> q \<noteq> al_path a \<longrightarrow> fget fs' q = fget fs q) \<and>
      (heads_distinct r' \<longrightarrow> heads_distinct r \<and> registry_extends r r' \<and> authorizations_extend a a' \<and> federation_extends l l')"
    using st
  proof cases
    case auth_moves
    with auth_step_grows [OF auth_moves(2) i(1)] show ?thesis by (simp add: same)
  next
    case (fed_handles q res)
    note eff = fed_handle_effect [OF fed_handles(4,3) i(2)]
    show ?thesis using fed_handles(1,2) fed_effect_path [OF eff] append_effect_keeps [OF eff] fed_effect_grows [OF eff]
      by (auto simp: same)
  next
    case fed_reopens
    with fed_open_facts [OF fed_reopens(3)] fed_open_synced [of b r a l fs] inv show ?thesis by (auto simp: fed_inv_def same)
  qed
  then show "fl_path l' = fl_path l \<and> kr_path r' = kr_path r \<and> al_path a' = al_path a"
    "q \<noteq> fl_path l \<Longrightarrow> q \<noteq> kr_path r \<Longrightarrow> q \<noteq> al_path a \<Longrightarrow> fget fs' q = fget fs q"
    "heads_distinct r' \<Longrightarrow> heads_distinct r \<and> registry_extends r r' \<and> authorizations_extend a a' \<and> federation_extends l l'"
    by blast+
qed

subsection \<open>Use of an enrolment twice\<close>

text \<open>What the validation of a recorded enrolment has established and later events keep.\<close>

definition enrolment_evidence ::
  "signature_check \<Rightarrow> key_registry \<Rightarrow> authorization_ledger \<Rightarrow> federation_ledger \<Rightarrow> federation_event \<Rightarrow> bool" where
  "enrolment_evidence b r a l e \<longleftrightarrow> (\<exists>p au s. policy_for_event l e = Inr p \<and> fe_weight e \<noteq> 0 \<and>
     fed_validate_text (lit ''namespace'') (fe_namespace e) = Inr () \<and>
     authority_subject_digest AuthorityEnroll (fe_namespace e) (fe_key_id e) (fe_weight e) (np_policy_digest p) = Inr (fe_subject_digest e) \<and>
     verify_authorization_reference b r a (fe_controller_authorization_sequence e) DOMAIN_POLICY_REGISTER
       (np_controller_role_mask p) (fe_subject_digest e) (Some (np_controller_key_id p)) = Inr au \<and>
     state_at_head r (au_key_registry_head au) (fe_key_id e) = Some s \<and> has_role s (np_authority_role_mask p) \<and>
     provider_name_satisfies (ks_provider_name s) (np_provider_requirement p))"

lemma validated_enrolment:
  "fed_validate_event b r a l e = Inr u \<Longrightarrow> fe_kind e = AuthorityEnroll \<Longrightarrow> enrolment_evidence b r a l e"
  by (auto simp: fed_validate_event_def validate_authority_enroll_def rbind_eq_Inr_iff guard_eq_Inr_iff enrolment_evidence_def)

lemma evidence_validates:
  "enrolment_evidence b r a l e \<Longrightarrow> fe_kind e = AuthorityEnroll \<Longrightarrow> \<not> authority_active l (fe_namespace e) (fe_key_id e) \<Longrightarrow>
   fed_validate_event b r a l e = Inr ()"
  by (auto simp: fed_validate_event_def validate_authority_enroll_def rbind_eq_Inr_iff guard_eq_Inr_iff enrolment_evidence_def)

lemma enrolment_evidence_extends:
  assumes x: "federation_extends l l'" and e: "enrolment_evidence b r a l e"
  shows "enrolment_evidence b r a l' e"
proof -
  have "policy_for_event l' e = Inr p" if "policy_for_event l e = Inr p" for p
    using that x by (auto simp: policy_for_event_def rbind_eq_Inr_iff guard_eq_Inr_iff federation_extends_def)
  with e show ?thesis unfolding enrolment_evidence_def by metis
qed

lemma synced_enrolments:
  "fed_file.in_sync a b r (fed_empty p) l bs \<Longrightarrow>
   \<forall>e \<in> set (fl_events l). fed_fits e \<and> (fe_kind e = AuthorityEnroll \<longrightarrow> enrolment_evidence b r a l e)"
proof (induction rule: fed_file.in_sync_induct)
  case (push l bs ev)
  note x = enrolment_evidence_extends [OF fed_push_grows [OF push(2)]]
  have "fed_fits (fst ev)" "fe_kind (fst ev) = AuthorityEnroll \<longrightarrow> enrolment_evidence b r a l (fst ev)"
    using push(2) validated_enrolment by (auto simp: fed_admits_def)
  with push.IH x show ?case by auto
qed simp

text \<open>A fresh request with the data of an enrolment builds an event with the same evidence.\<close>

lemma enrolment_again:
  assumes ev: "enrolment_evidence b r a l e" and ft: "fed_fits e" and idle: "\<not> authority_active l (fe_namespace e) (fe_key_id e)"
    and t: "fl_last_timestamp l < t" and disk: "fget fs (fl_path l) = Some bs"
  obtains p rc l' fs' where "policy_for_event l e = Inr p" and "fed_append b r a (policy_event AuthorityEnroll t (fe_namespace e)
      (fe_key_id e) p (fe_weight e) 0 (replicate 32 0) (replicate 32 0) (fe_subject_digest e)
      (fe_controller_authorization_sequence e) []) l fs = (Inr rc, l', fs')"
    and "authority_active l' (fe_namespace e) (fe_key_id e)"
proof -
  from ev obtain p where p: "policy_for_event l e = Inr p" by (auto simp: enrolment_evidence_def)
  then have g: "bt_get (fl_policies l) (fe_namespace e) = Some p" "np_controller_key_id p = fe_controller_key_id e"
    "np_policy_digest p = fe_policy_digest e" by (auto simp: policy_for_event_def rbind_eq_Inr_iff guard_eq_Inr_iff)
  define E where "E = policy_event AuthorityEnroll t (fe_namespace e) (fe_key_id e) p (fe_weight e) 0 (replicate 32 0)
    (replicate 32 0) (fe_subject_digest e) (fe_controller_authorization_sequence e) []"
  have E: "fe_kind E = AuthorityEnroll" "fe_namespace E = fe_namespace e" "fe_key_id E = fe_key_id e" "fe_logical_timestamp E = t"
    by (simp_all add: E_def policy_event_def)
  have "policy_for_event l E = Inr p" using g(1) by (simp add: policy_for_event_def E_def policy_event_def)
  with ev p have "enrolment_evidence b r a l E" by (auto simp: enrolment_evidence_def E_def policy_event_def)
  from evidence_validates [OF this E(1)] idle E have "fed_validate_event b r a l E = Inr ()" by simp
  have "fed_fits E" using ft g(2,3) by (simp add: fed_fits_def fed_digests_typed_def E_def policy_event_def)
  with t E \<open>fed_validate_event b r a l E = Inr ()\<close> have "fed_acceptable b r a l E" by (simp add: fed_acceptable_def)
  from fed_append_ok [OF this disk] obtain rc fs' where "fed_append b r a E l fs = (Inr rc, fed_push a l (fed_stamped l E, 0), fs')"
    by blast
  moreover have "authority_active (fed_push a l (fed_stamped l E, 0)) (fe_namespace e) (fe_key_id e)"
    using E by (simp add: fed_push_def fed_apply_event_def authority_active_def bt_get_insert fed_stamped_def)
  ultimately have "\<exists>rc l' fs'. fed_append b r a E l fs = (Inr rc, l', fs') \<and> authority_active l' (fe_namespace e) (fe_key_id e)"
    by blast
  with that [OF p] show thesis unfolding E_def by blast
qed

text \<open>
  C35. An enrolment can be used again, in every reachable state. Only approvals of bundles are kept in the set of used
  authorisations. Once an enrolled authority has been revoked, a request that names the
  authorisation of the old enrolment, with a later timestamp, enrols it again, as long as its key
  is still active with the role in the registry and the name of the key's provider satisfies the
  requirement of the policy under which it was enrolled: the controller does not sign a second
  time. The frame digests of the key registry are supposed distinct.
\<close>

theorem old_enrolment_accepted_again:
  assumes "reachable fed_initial (fed_step b) (l, r, a, fs)" and "heads_distinct r"
    and "e \<in> set (fl_events l)" and "fe_kind e = AuthorityEnroll"
    and "\<not> authority_active l (fe_namespace e) (fe_key_id e)" and "fl_last_timestamp l < t"
    and "bt_get (kr_states r) (fe_key_id e) = Some s" and "has_role s (fe_authority_role_mask e)"
    and "provider_name_satisfies (ks_provider_name s) (fe_provider_requirement e)"
  shows "\<exists>rc l' fs'. enroll_authority b r a (fe_namespace e) (fe_key_id e) (fe_weight e)
       (fe_controller_authorization_sequence e) t l fs = (Inr rc, l', fs') \<and>
     authority_active l' (fe_namespace e) (fe_key_id e)"
proof -
  obtain bs where sy: "fget fs (fl_path l) = Some bs" "fed_file.in_sync a b r (fed_empty (fl_path l)) l bs"
    using reachable_fed(2) [OF assms(1,2)] by (auto simp: fed_synced_def)
  from synced_enrolments [OF sy(2)] assms(3,4) have ft: "fed_fits e" and ev: "enrolment_evidence b r a l e" by auto
  obtain p rc l' fs' where p: "policy_for_event l e = Inr p" and ap: "fed_append b r a (policy_event AuthorityEnroll t (fe_namespace e)
      (fe_key_id e) p (fe_weight e) 0 (replicate 32 0) (replicate 32 0) (fe_subject_digest e)
      (fe_controller_authorization_sequence e) []) l fs = (Inr rc, l', fs')"
    and ac: "authority_active l' (fe_namespace e) (fe_key_id e)"
    by (rule enrolment_again [OF ev ft assms(5,6) sy(1)])
  from p have g: "bt_get (fl_policies l) (fe_namespace e) = Some p" "np_authority_role_mask p = fe_authority_role_mask e"
    "np_provider_requirement p = fe_provider_requirement e"
    by (auto simp: policy_for_event_def rbind_eq_Inr_iff guard_eq_Inr_iff)
  from ev p obtain au where au: "fe_weight e \<noteq> 0" "fed_validate_text (lit ''namespace'') (fe_namespace e) = Inr ()"
    "authority_subject_digest AuthorityEnroll (fe_namespace e) (fe_key_id e) (fe_weight e) (np_policy_digest p) = Inr (fe_subject_digest e)"
    "verify_authorization_reference b r a (fe_controller_authorization_sequence e) DOMAIN_POLICY_REGISTER
       (np_controller_role_mask p) (fe_subject_digest e) (Some (np_controller_key_id p)) = Inr au"
    by (auto simp: enrolment_evidence_def)
  have "fed_validate_text (lit ''key_id'') (fe_key_id e) = Inr ()"
    using au(3) by (auto simp: authority_subject_digest_def rbind_eq_Inr_iff guard_eq_Inr_iff)
  with au g ap ac assms(5,7-9) show ?thesis by (simp add: enroll_authority_def fed_submit_def)
qed

text \<open>
  C36. The limits on approvals differ. The encoder of a federation event only bounds the payload,
  at 8 MiB; the decoder also refuses more than 1,000,000 approvals. An event with more approvals
  whose payload is within the bound is encoded, and its payload cannot be decoded again.
\<close>

theorem approvals_beyond_decoder_limit:
  assumes "fed_digests_typed e" and "length (fe_namespace e) \<le> 1024" and "length (fe_key_id e) \<le> 1024"
    and "length (fe_controller_key_id e) \<le> 1024" and "1000000 < length (fe_approval_sequences e)"
    and "200 + length (fe_namespace e) + length (fe_key_id e) + length (fe_controller_key_id e)
      + 8 * length (fe_approval_sequences e) \<le> FED_MAX_PAYLOAD"
  shows "fed_encode_payload e = Inr (fed_payload 0 e) \<and>
     fed_decode_payload (fed_payload 0 e) = Inl (Fed_Invalid (lit ''payload length limit exceeded''))"
proof
  show "fed_encode_payload e = Inr (fed_payload 0 e)"
    using assms by (simp add: fed_encode_payload_def length_fed_payload)
  have "length (fe_approval_sequences e) < 2 ^ 32" using assms(6) by (simp add: FED_MAX_PAYLOAD_def)
  then have "unat (of_nat (length (fe_approval_sequences e)) :: u32) = length (fe_approval_sequences e)"
    by (rule unat_u32_small)
  then show "fed_decode_payload (fed_payload 0 e) = Inl (Fed_Invalid (lit ''payload length limit exceeded''))"
    using assms by (simp add: fed_decode_payload_def fed_payload_def usize_limit_def fed_cursor_ok cong: rbind_weak_cong)
qed

end
