(* ===== verification/Ub_Trust_System.thy ===== *)
theory Ub_Trust_System
  imports Ub_Fed_Runs Ub_Prov_Ledger
begin

text \<open>
  The four trust ledgers together: the key registry, the authorisation ledger, the federation
  ledger and the provenance ledger, whose operations may be interleaved in any order. What each
  of them supposes of the others is discharged here.
\<close>

subsection \<open>Runs of the four ledgers\<close>

type_synonym trust_system = "prov_ledger \<times> fed_system"

definition trust_initial :: "trust_system \<Rightarrow> bool" where
  "trust_initial s \<longleftrightarrow> (case s of (l, f, r, a, fs) \<Rightarrow> \<exists>p fs0. fed_initial (f, r, a, fs0) \<and>
     p \<noteq> fl_path f \<and> p \<noteq> kr_path r \<and> p \<noteq> al_path a \<and> prov_create p fs0 = (Inr l, fs))"

inductive trust_step :: "signature_check \<Rightarrow> trust_system \<Rightarrow> trust_system \<Rightarrow> bool" for b where
  trust_fed_moves: "fed_step b s s' \<Longrightarrow> trust_step b (l, s) (l, s')"
| trust_prov_appends:
    "input_typed i \<Longrightarrow> append_authorized b r a f i l fs = (res, l', fs') \<Longrightarrow>
     (\<And>bs. fget fs' (pl_path l) = Some bs \<Longrightarrow> length bs < usize_limit) \<Longrightarrow>
     trust_step b (l, f, r, a, fs) (l', f, r, a, fs')"
| trust_prov_reopens:
    "prov_open_strict b (pl_path l) r a f fs = (Inr l', fs') \<Longrightarrow> trust_step b (l, f, r, a, fs) (l', f, r, a, fs')"

definition trust_inv :: "signature_check \<Rightarrow> trust_system \<Rightarrow> bool" where
  "trust_inv b s \<longleftrightarrow> (case s of (l, f, r, a, fs) \<Rightarrow> fed_inv b (f, r, a, fs) \<and>
     pl_path l \<noteq> fl_path f \<and> pl_path l \<noteq> kr_path r \<and> pl_path l \<noteq> al_path a)"

definition trust_env :: "key_registry \<Rightarrow> authorization_ledger \<Rightarrow> federation_ledger \<Rightarrow> prov_env" where
  "trust_env r a f = \<lparr>en_registry = r, en_authorizations = a, en_federation = f\<rparr>"

lemma trust_env_simps [simp]:
  "en_registry (trust_env r a f) = r" "en_authorizations (trust_env r a f) = a" "en_federation (trust_env r a f) = f"
  by (simp_all add: trust_env_def)

text \<open>The provenance ledger writes its own file only.\<close>

lemma append_authorized_files:
  "append_authorized b r a f i l fs = (res, l', fs') \<Longrightarrow> pl_path l' = pl_path l \<and> (q \<noteq> pl_path l \<longrightarrow> fget fs' q = fget fs q)"
  by (auto simp: append_authorized_def Let_def write_all_def apply_event_def
      split: sum.splits if_splits prod.splits option.splits)

lemma prov_open_files:
  assumes "prov_open_strict b p r a f fs = (Inr l, fs')"
  shows "pl_path l = p \<and> fs' = fs"
proof -
  from assms obtain bs where "prov_replay_in b (trust_env r a f) (prov_empty p) 0 bs = Inr l" and fs: "fs' = fs"
    by (auto simp: prov_open_strict_def io_bind_eq_Inr_iff io_query_def io_pure_def split: if_splits)
  with prov_file.file_replay_accepts [of "prov_empty p" b "trust_env r a f" bs l] obtain es
    where l: "l = foldl apply_event (prov_empty p) es" by (auto simp: prov_empty_def)
  have "pl_path (foldl apply_event m es) = pl_path m" for m by (induction es arbitrary: m) (simp_all add: apply_event_def)
  with l fs show ?thesis by (simp add: prov_empty_def)
qed

lemma prov_create_files:
  assumes "prov_create p fs = (Inr l, fs')"
  shows "l = prov_empty p \<and> (\<forall>q. q \<noteq> p \<longrightarrow> fget fs' q = fget fs q)"
proof -
  from assms obtain fs1 where m: "(case path_parent p of Some parent \<Rightarrow> io_map_err Prov_Io (create_dir_all parent)
      | None \<Rightarrow> io_ret ()) fs = (Inr (), fs1)" and c: "create_new p [] fs1 = (Inr (), fs')" and l: "l = prov_empty p"
    by (auto simp: prov_create_def io_bind_eq_Inr_iff io_ret_def)
  have "fget fs1 q = fget fs q" for q
    using m by (auto simp: io_ret_def split: option.splits dest: create_dir_all_files)
  with c l show ?thesis by (auto simp: create_new_def split: if_splits)
qed

lemma fed_inv_frame:
  "fed_inv b (f, r, a, fs) \<Longrightarrow> fget fs' (fl_path f) = fget fs (fl_path f) \<Longrightarrow> fget fs' (kr_path r) = fget fs (kr_path r) \<Longrightarrow>
   fget fs' (al_path a) = fget fs (al_path a) \<Longrightarrow> fed_inv b (f, r, a, fs')"
  by (auto simp: fed_inv_def fed_synced_def intro: auth_inv_frame)

interpretation trust_run: invariant_system trust_initial "trust_step b" "trust_inv b" for b
proof unfold_locales
  fix s
  assume "trust_initial s"
  then obtain l f r a fs p fs0 where s: "s = (l, f, r, a, fs)" and fi: "fed_initial (f, r, a, fs0)"
    and p: "p \<noteq> fl_path f" "p \<noteq> kr_path r" "p \<noteq> al_path a" and c: "prov_create p fs0 = (Inr l, fs)"
    by (auto simp: trust_initial_def)
  from prov_create_files [OF c] p fed_inv_frame [OF fed_run.inv_init [OF fi]] show "trust_inv b s"
    by (auto simp: trust_inv_def s prov_empty_def)
next
  fix s s'
  assume "trust_step b s s'" and "trust_inv b s"
  then show "trust_inv b s'"
  proof (induction rule: trust_step.induct)
    case (trust_fed_moves t t' l)
    obtain f r a fs f' r' a' fs' where t: "t = (f, r, a, fs)" "t' = (f', r', a', fs')" by (metis prod_cases4)
    with trust_fed_moves have st: "fed_step b (f, r, a, fs) (f', r', a', fs')" and i: "fed_inv b (f, r, a, fs)"
      by (simp_all add: trust_inv_def)
    show ?case using fed_step_grows(1) [OF st i] fed_run.inv_step [OF st i] trust_fed_moves.prems by (auto simp: trust_inv_def t)
  next
    case (trust_prov_appends i r a f l fs res l' fs')
    from append_authorized_files [OF trust_prov_appends(2)] trust_prov_appends.prems fed_inv_frame [of b f r a fs fs']
    show ?case by (auto simp: trust_inv_def)
  next
    case (trust_prov_reopens l r a f fs l' fs')
    with prov_open_files [OF trust_prov_reopens(1)] show ?case by (simp add: trust_inv_def)
  qed
qed

lemma fed_env_typed:
  assumes "fed_inv b (f, r, a, fs)" and "heads_distinct r"
  shows "env_typed (trust_env r a f)"
proof -
  from assms obtain bs where "auth_file.in_sync b r (authorizations_empty (al_path a)) a bs"
    by (auto simp: fed_inv_def auth_inv_def auth_synced_def)
  then have "list_all (\<lambda>a. length (au_event_id a) = 32 \<and> length (au_frame_digest a) = 32) (al_events a)"
  proof (induction rule: auth_file.in_sync_induct)
    case (push l bs e)
    then show ?case by (simp add: auth_admits_def auth_fits_def frame_follows_def auth_frame_def)
  qed simp
  then show ?thesis by (simp add: env_typed_def)
qed

text \<open>A step of the four ledgers is a step of the provenance ledger in its environment.\<close>

lemma trust_step_prov:
  assumes "trust_step b (l, f, r, a, fs) (l', f', r', a', fs')" and inv: "trust_inv b (l, f, r, a, fs)" and d: "heads_distinct r'"
  shows "heads_distinct r" and "prov_step b (trust_env r a f, l, fs) (trust_env r' a' f', l', fs')"
proof -
  have i: "fed_inv b (f, r, a, fs)" and pl: "pl_path l \<noteq> fl_path f" "pl_path l \<noteq> kr_path r" "pl_path l \<noteq> al_path a"
    using inv by (simp_all add: trust_inv_def)
  from assms(1) have "heads_distinct r \<and> prov_step b (trust_env r a f, l, fs) (trust_env r' a' f', l', fs')"
  proof cases
    case trust_fed_moves
    note g = fed_step_grows [OF trust_fed_moves(2) i]
    show ?thesis using trust_fed_moves(1) d g(2) [OF pl] g(3) fed_env_typed [OF fed_run.inv_step [OF trust_fed_moves(2) i]]
      by (auto simp: env_extends_def intro!: prov_trust_grows)
  next
    case (trust_prov_appends i res)
    with d show ?thesis by (auto intro!: prov_appends)
  next
    case trust_prov_reopens
    with d show ?thesis by (auto intro!: prov_reopens)
  qed
  then show "heads_distinct r" "prov_step b (trust_env r a f, l, fs) (trust_env r' a' f', l', fs')" by blast+
qed

lemma trust_reaches:
  assumes "reachable trust_initial (trust_step b) s"
  shows "case s of (l, f, r, a, fs) \<Rightarrow> heads_distinct r \<longrightarrow> reachable prov_initial (prov_step b) (trust_env r a f, l, fs)"
  using assms
proof (induction rule: reachable.induct)
  case (reach_init s)
  then obtain l f r a fs p fs0 where s: "s = (l, f, r, a, fs)" "fed_initial (f, r, a, fs0)" "prov_create p fs0 = (Inr l, fs)"
    by (auto simp: trust_initial_def)
  have "heads_distinct r \<longrightarrow> prov_initial (trust_env r a f, l, fs)"
    using s(3) fed_env_typed [OF fed_run.inv_init [OF s(2)]] by (auto simp: prov_initial_def)
  then show ?case by (simp add: s reachable.reach_init)
next
  case (reach_step s s')
  obtain l f r a fs l' f' r' a' fs' where s: "s = (l, f, r, a, fs)" "s' = (l', f', r', a', fs')" by (metis prod_cases5)
  note st = trust_step_prov [OF reach_step(2) [unfolded s] trust_run.reachable_inv [OF reach_step(1), unfolded s]]
  show ?case using reach_step.IH st by (auto simp: s intro: reachable.reach_step)
qed

text \<open>
  C17. The composed system refines the model of the provenance ledger in which the trust ledgers
  are an environment that may grow: every state of the four ledgers that is reachable by their own
  operations, interleaved in any order, is reachable there. The growth that the provenance ledger
  relies on is what the other ledgers do.
\<close>

theorem trust_refines_provenance:
  assumes "reachable trust_initial (trust_step b) (l, f, r, a, fs)" and "heads_distinct r"
  shows "reachable prov_initial (prov_step b) (trust_env r a f, l, fs)"
  using trust_reaches [OF assms(1)] assms(2) by simp

text \<open>
  C7. The trust ledgers reopen exactly. In every state reachable from the creation of the key
  registry, the authorisation ledger, the federation ledger and the provenance ledger by their
  operations, interleaved in any order, and by reopening any of them, a strict open of each file
  against the others as they are now succeeds and gives back exactly the ledger in memory. The
  operations may fail; their arguments are of the source's types (valid UTF-8, digests of 32 and
  signatures of 64 bytes), no file grows beyond the range of \<open>usize\<close>, and a request to accept a
  bundle lists at most 1,000,000 approvals. The source does not check this last bound when it
  writes, and its reader refuses more. The frame digests of the
  key registry are supposed distinct.
\<close>

theorem trust_reopens_exactly:
  assumes "reachable trust_initial (trust_step b) (l, f, r, a, fs)" and "heads_distinct r"
  shows "registry_open_strict b (kr_path r) fs = (Inr r, fs) \<and>
     authorizations_open_strict b (al_path a) r fs = (Inr a, fs) \<and>
     fed_open_strict b (fl_path f) r a fs = (Inr f, fs) \<and>
     prov_open_strict b (pl_path l) r a f fs = (Inr l, fs)"
proof (intro conjI)
  have i: "fed_inv b (f, r, a, fs)" using trust_run.reachable_inv [OF assms(1)] by (simp add: trust_inv_def)
  then have ai: "auth_inv b (r, a, fs)" by (simp add: fed_inv_def)
  show "registry_open_strict b (kr_path r) fs = (Inr r, fs)"
    using ai registry_open_synced by (auto simp: auth_inv_def registry_inv_def)
  show "authorizations_open_strict b (al_path a) r fs = (Inr a, fs)" using ai assms(2) auth_open_synced by (simp add: auth_inv_def)
  show "fed_open_strict b (fl_path f) r a fs = (Inr f, fs)" using i assms(2) fed_open_synced by (simp add: fed_inv_def)
  have "reachable prov_initial (prov_step b) (trust_env r a f, l, fs)" using trust_reaches [OF assms(1)] assms(2) by simp
  then obtain es where "prov_history b (trust_env r a f) (pl_path l) es" "l = prov_of (pl_path l) es"
    "fget fs (pl_path l) = Some (prov_bytes es)" by (rule reachable_prov)
  with prov_open_history [of b "trust_env r a f"] show "prov_open_strict b (pl_path l) r a f fs = (Inr l, fs)" by fastforce
qed

end
