(* ===== verification/Ub_Sha_Eval.thy ===== *)
theory Ub_Sha_Eval
  imports Ub_Sha256
begin

unbundle bit_operations_syntax

text \<open>
  The compression function on lists of bits, least significant first. It is proved equal to
  \<open>sha_compress\<close> and serves as its code equation: the kernel evaluates single bits much faster than
  machine words.
\<close>

subsection \<open>Words as lists of bits\<close>

definition bits :: "u32 \<Rightarrow> bool list" where
  "bits w = map (bit w) [0..<32]"

lemma length_bits [simp]: "length (bits w) = 32" by (simp add: bits_def)

lemma nth_bits [simp]: "i < 32 \<Longrightarrow> bits w ! i = bit w i" by (simp add: bits_def)

definition int_bits :: "int \<Rightarrow> bool list" where
  "int_bits k = map (bit k) [0..<32]"

fun num_bits :: "nat \<Rightarrow> num \<Rightarrow> bool list" where
  "num_bits 0 n = []"
| "num_bits (Suc i) num.One = True # replicate i False"
| "num_bits (Suc i) (num.Bit0 n) = False # num_bits i n"
| "num_bits (Suc i) (num.Bit1 n) = True # num_bits i n"

lemma num_bits_eq: "num_bits i n = map (bit (numeral n :: int)) [0..<i]"
proof (induction i n rule: num_bits.induct)
  case (2 i)
  show ?case by (rule nth_equalityI) (simp_all add: nth_Cons' bit_1_iff del: upt_Suc)
qed (simp_all add: upt_conv_Cons map_Suc_upt [symmetric] bit_0 bit_Suc del: upt_Suc)

lemma int_bits_code [code]:
  "int_bits 0 = replicate 32 False" "int_bits (Int.Pos n) = num_bits 32 n"
  "int_bits (Int.Neg n) = map Not (int_bits (numeral n - 1))"
  by (auto simp: int_bits_def num_bits_eq bit_minus_int_iff bit_not_int_iff intro!: nth_equalityI)

lemma bits_code [code]: "bits w = int_bits (uint w)"
  by (simp add: bits_def int_bits_def bit_uint_iff)

fun bits_int :: "bool list \<Rightarrow> int" where
  "bits_int [] = 0"
| "bits_int (b # bs) = (if b then Int.dup (bits_int bs) + 1 else Int.dup (bits_int bs))"

lemma bits_int_eq: "bits_int bs = horner_sum of_bool 2 bs"
  by (induction bs) (simp_all add: Int.dup_def)

lemma word_of_bits [simp]: "word_of_int (bits_int (bits w)) = w"
proof -
  have "take_bit 32 (uint w) = uint w" using unsigned_less [of w, where ?'a = int] by (simp add: take_bit_int_eq_self)
  then show ?thesis by (simp add: bits_int_eq bits_code int_bits_def horner_sum_bit_eq_take_bit)
qed

subsection \<open>The operations on bits\<close>

fun bit_xor :: "bool \<Rightarrow> bool \<Rightarrow> bool" where
  "bit_xor True b = (\<not> b)"
| "bit_xor False b = b"

fun bits_xor3 :: "bool list \<Rightarrow> bool list \<Rightarrow> bool list \<Rightarrow> bool list" where
  "bits_xor3 (a # as) (b # bs) (c # cs) = bit_xor a (bit_xor b c) # bits_xor3 as bs cs"
| "bits_xor3 _ _ _ = []"

fun bits_choice :: "bool list \<Rightarrow> bool list \<Rightarrow> bool list \<Rightarrow> bool list" where
  "bits_choice (a # as) (b # bs) (c # cs) = (if a then b else c) # bits_choice as bs cs"
| "bits_choice _ _ _ = []"

fun bit_maj :: "bool \<Rightarrow> bool \<Rightarrow> bool \<Rightarrow> bool" where
  "bit_maj True b c = (b \<or> c)"
| "bit_maj False b c = (b \<and> c)"

fun bits_maj :: "bool list \<Rightarrow> bool list \<Rightarrow> bool list \<Rightarrow> bool list" where
  "bits_maj (a # as) (b # bs) (c # cs) = bit_maj a b c # bits_maj as bs cs"
| "bits_maj _ _ _ = []"

fun bits_add :: "bool \<Rightarrow> bool list \<Rightarrow> bool list \<Rightarrow> bool list" where
  "bits_add c (a # as) (b # bs) = bit_xor a (bit_xor b c) # bits_add (bit_maj a b c) as bs"
| "bits_add _ _ _ = []"

definition bits_rotr :: "nat \<Rightarrow> bool list \<Rightarrow> bool list" where
  "bits_rotr n bs = drop n bs @ take n bs"

definition bits_shr :: "nat \<Rightarrow> bool list \<Rightarrow> bool list" where
  "bits_shr n bs = drop n bs @ replicate n False"

lemma bit_xor_eq: "bit_xor a b \<longleftrightarrow> a \<noteq> b" by (cases a) auto

lemma bit_maj_eq: "bit_maj a b c \<longleftrightarrow> a \<and> b \<or> a \<and> c \<or> b \<and> c" by (cases a) auto

lemma bits_zip3:
  "bits_xor3 as bs cs = map (\<lambda>(a, b, c). a \<noteq> (b \<noteq> c)) (zip as (zip bs cs))"
  "bits_choice as bs cs = map (\<lambda>(a, b, c). if a then b else c) (zip as (zip bs cs))"
  "bits_maj as bs cs = map (\<lambda>(a, b, c). bit_maj a b c) (zip as (zip bs cs))"
  by (induction as bs cs rule: bits_xor3.induct) (simp_all add: bit_xor_eq)

lemma bits_eqI: "length bs = 32 \<Longrightarrow> (\<And>i. i < 32 \<Longrightarrow> bs ! i = bit w i) \<Longrightarrow> bs = bits w"
  by (rule nth_equalityI) simp_all

lemma bits_logic [simp]:
  "bits_xor3 (bits a) (bits b) (bits c) = bits (a XOR b XOR c)"
  "bits_choice (bits a) (bits b) (bits c) = bits ((a AND b) XOR (NOT a AND c))"
  "bits_maj (bits a) (bits b) (bits c) = bits ((a AND b) XOR (a AND c) XOR (b AND c))"
  by (rule bits_eqI; auto simp: bits_zip3 bit_simps bit_maj_eq)+

lemma bits_rotr_eq [simp]: "n < 32 \<Longrightarrow> bits_rotr n (bits w) = bits (word_rotr n w)"
proof (rule bits_eqI)
  fix i :: nat
  assume "n < 32" "i < 32"
  moreover have "(i + n) mod 32 = (if i < 32 - n then n + i else i + n - 32)"
    using \<open>n < 32\<close> \<open>i < 32\<close> by (auto simp: mod_if)
  ultimately show "bits_rotr n (bits w) ! i = bit (word_rotr n w) i"
    by (simp add: bits_rotr_def nth_append bit_word_rotr_iff)
qed (simp add: bits_rotr_def)

lemma bits_shr_eq [simp]: "n < 32 \<Longrightarrow> bits_shr n (bits w) = bits (drop_bit n w)"
  by (rule bits_eqI) (auto simp: bits_shr_def nth_append bit_drop_bit_eq ac_simps dest: bit_imp_le_length)

text \<open>Ripple-carry addition: what is lost is a multiple of a power of two.\<close>

lemma bits_add_horner:
  "length as = length bs \<Longrightarrow> \<exists>k :: bool. horner_sum of_bool 2 (bits_add c as bs) + 2 ^ length as * of_bool k =
     horner_sum of_bool (2 :: int) as + horner_sum of_bool 2 bs + of_bool c"
proof (induction c as bs rule: bits_add.induct)
  case (1 c a as b bs)
  then obtain k where "horner_sum of_bool (2 :: int) (bits_add (bit_maj a b c) as bs) + 2 ^ length as * of_bool k =
     horner_sum of_bool (2 :: int) as + horner_sum of_bool 2 bs + of_bool (bit_maj a b c)" by auto
  then show ?case by (intro exI [of _ k]) (cases a; cases b; cases c; simp)
qed auto

lemma length_bits_add [simp]: "length (bits_add c as bs) = min (length as) (length bs)"
  by (induction c as bs rule: bits_add.induct) auto

lemma bits_of_horner: "length bs = 32 \<Longrightarrow> bits (word_of_int (horner_sum of_bool 2 bs)) = bs"
  by (rule bits_eqI [symmetric]) (auto simp: bit_simps)

lemma bits_add_eq [simp]: "bits_add False (bits a) (bits b) = bits (a + b)"
proof -
  have h: "word_of_int (horner_sum of_bool 2 (bits w)) = w" for w using word_of_bits [of w] by (simp add: bits_int_eq)
  obtain k where k: "horner_sum of_bool 2 (bits_add False (bits a) (bits b)) + 2 ^ 32 * of_bool k =
     horner_sum of_bool (2 :: int) (bits a) + horner_sum of_bool 2 (bits b)"
    using bits_add_horner [of "bits a" "bits b" False] by auto
  have z: "(4294967296 :: u32) = 0" by code_simp
  from arg_cong [OF k, of "word_of_int :: int \<Rightarrow> u32"]
  have "word_of_int (horner_sum of_bool 2 (bits_add False (bits a) (bits b))) = a + b"
    by (cases k) (simp_all add: h z wi_hom_add [symmetric])
  with bits_of_horner [of "bits_add False (bits a) (bits b)"] show ?thesis by simp
qed

subsection \<open>The compression function\<close>

text \<open>The four combinations of rotations and shifts, written out bit by bit for evaluation.\<close>

definition bits_S0 :: "bool list \<Rightarrow> bool list" where
  "bits_S0 bs = bits_xor3 (bits_rotr 2 bs) (bits_rotr 13 bs) (bits_rotr 22 bs)"

definition bits_S1 :: "bool list \<Rightarrow> bool list" where
  "bits_S1 bs = bits_xor3 (bits_rotr 6 bs) (bits_rotr 11 bs) (bits_rotr 25 bs)"

definition bits_s0 :: "bool list \<Rightarrow> bool list" where
  "bits_s0 bs = bits_xor3 (bits_rotr 7 bs) (bits_rotr 18 bs) (bits_shr 3 bs)"

definition bits_s1 :: "bool list \<Rightarrow> bool list" where
  "bits_s1 bs = bits_xor3 (bits_rotr 17 bs) (bits_rotr 19 bs) (bits_shr 10 bs)"

lemma bits_S0_code [code]:
  "bits_S0 [b0, b1, b2, b3, b4, b5, b6, b7, b8, b9, b10, b11, b12, b13, b14, b15,
      b16, b17, b18, b19, b20, b21, b22, b23, b24, b25, b26, b27, b28, b29, b30, b31] =
     [bit_xor b2 (bit_xor b13 b22), bit_xor b3 (bit_xor b14 b23), bit_xor b4 (bit_xor b15 b24), bit_xor b5 (bit_xor b16 b25),
      bit_xor b6 (bit_xor b17 b26), bit_xor b7 (bit_xor b18 b27), bit_xor b8 (bit_xor b19 b28), bit_xor b9 (bit_xor b20 b29),
      bit_xor b10 (bit_xor b21 b30), bit_xor b11 (bit_xor b22 b31), bit_xor b12 (bit_xor b23 b0), bit_xor b13 (bit_xor b24 b1),
      bit_xor b14 (bit_xor b25 b2), bit_xor b15 (bit_xor b26 b3), bit_xor b16 (bit_xor b27 b4), bit_xor b17 (bit_xor b28 b5),
      bit_xor b18 (bit_xor b29 b6), bit_xor b19 (bit_xor b30 b7), bit_xor b20 (bit_xor b31 b8), bit_xor b21 (bit_xor b0 b9),
      bit_xor b22 (bit_xor b1 b10), bit_xor b23 (bit_xor b2 b11), bit_xor b24 (bit_xor b3 b12), bit_xor b25 (bit_xor b4 b13),
      bit_xor b26 (bit_xor b5 b14), bit_xor b27 (bit_xor b6 b15), bit_xor b28 (bit_xor b7 b16), bit_xor b29 (bit_xor b8 b17),
      bit_xor b30 (bit_xor b9 b18), bit_xor b31 (bit_xor b10 b19), bit_xor b0 (bit_xor b11 b20), bit_xor b1 (bit_xor b12 b21)]"
  by (simp add: bits_S0_def bits_rotr_def bits_shr_def numeral_eq_Suc)

lemma bits_S1_code [code]:
  "bits_S1 [b0, b1, b2, b3, b4, b5, b6, b7, b8, b9, b10, b11, b12, b13, b14, b15,
      b16, b17, b18, b19, b20, b21, b22, b23, b24, b25, b26, b27, b28, b29, b30, b31] =
     [bit_xor b6 (bit_xor b11 b25), bit_xor b7 (bit_xor b12 b26), bit_xor b8 (bit_xor b13 b27), bit_xor b9 (bit_xor b14 b28),
      bit_xor b10 (bit_xor b15 b29), bit_xor b11 (bit_xor b16 b30), bit_xor b12 (bit_xor b17 b31), bit_xor b13 (bit_xor b18 b0),
      bit_xor b14 (bit_xor b19 b1), bit_xor b15 (bit_xor b20 b2), bit_xor b16 (bit_xor b21 b3), bit_xor b17 (bit_xor b22 b4),
      bit_xor b18 (bit_xor b23 b5), bit_xor b19 (bit_xor b24 b6), bit_xor b20 (bit_xor b25 b7), bit_xor b21 (bit_xor b26 b8),
      bit_xor b22 (bit_xor b27 b9), bit_xor b23 (bit_xor b28 b10), bit_xor b24 (bit_xor b29 b11), bit_xor b25 (bit_xor b30 b12),
      bit_xor b26 (bit_xor b31 b13), bit_xor b27 (bit_xor b0 b14), bit_xor b28 (bit_xor b1 b15), bit_xor b29 (bit_xor b2 b16),
      bit_xor b30 (bit_xor b3 b17), bit_xor b31 (bit_xor b4 b18), bit_xor b0 (bit_xor b5 b19), bit_xor b1 (bit_xor b6 b20),
      bit_xor b2 (bit_xor b7 b21), bit_xor b3 (bit_xor b8 b22), bit_xor b4 (bit_xor b9 b23), bit_xor b5 (bit_xor b10 b24)]"
  by (simp add: bits_S1_def bits_rotr_def bits_shr_def numeral_eq_Suc)

lemma bits_s0_code [code]:
  "bits_s0 [b0, b1, b2, b3, b4, b5, b6, b7, b8, b9, b10, b11, b12, b13, b14, b15,
      b16, b17, b18, b19, b20, b21, b22, b23, b24, b25, b26, b27, b28, b29, b30, b31] =
     [bit_xor b7 (bit_xor b18 b3), bit_xor b8 (bit_xor b19 b4), bit_xor b9 (bit_xor b20 b5), bit_xor b10 (bit_xor b21 b6),
      bit_xor b11 (bit_xor b22 b7), bit_xor b12 (bit_xor b23 b8), bit_xor b13 (bit_xor b24 b9), bit_xor b14 (bit_xor b25 b10),
      bit_xor b15 (bit_xor b26 b11), bit_xor b16 (bit_xor b27 b12), bit_xor b17 (bit_xor b28 b13), bit_xor b18 (bit_xor b29 b14),
      bit_xor b19 (bit_xor b30 b15), bit_xor b20 (bit_xor b31 b16), bit_xor b21 (bit_xor b0 b17), bit_xor b22 (bit_xor b1 b18),
      bit_xor b23 (bit_xor b2 b19), bit_xor b24 (bit_xor b3 b20), bit_xor b25 (bit_xor b4 b21), bit_xor b26 (bit_xor b5 b22),
      bit_xor b27 (bit_xor b6 b23), bit_xor b28 (bit_xor b7 b24), bit_xor b29 (bit_xor b8 b25), bit_xor b30 (bit_xor b9 b26),
      bit_xor b31 (bit_xor b10 b27), bit_xor b0 (bit_xor b11 b28), bit_xor b1 (bit_xor b12 b29), bit_xor b2 (bit_xor b13 b30),
      bit_xor b3 (bit_xor b14 b31), bit_xor b4 (bit_xor b15 False), bit_xor b5 (bit_xor b16 False), bit_xor b6 (bit_xor b17 False)]"
  by (simp add: bits_s0_def bits_rotr_def bits_shr_def numeral_eq_Suc)

lemma bits_s1_code [code]:
  "bits_s1 [b0, b1, b2, b3, b4, b5, b6, b7, b8, b9, b10, b11, b12, b13, b14, b15,
      b16, b17, b18, b19, b20, b21, b22, b23, b24, b25, b26, b27, b28, b29, b30, b31] =
     [bit_xor b17 (bit_xor b19 b10), bit_xor b18 (bit_xor b20 b11), bit_xor b19 (bit_xor b21 b12), bit_xor b20 (bit_xor b22 b13),
      bit_xor b21 (bit_xor b23 b14), bit_xor b22 (bit_xor b24 b15), bit_xor b23 (bit_xor b25 b16), bit_xor b24 (bit_xor b26 b17),
      bit_xor b25 (bit_xor b27 b18), bit_xor b26 (bit_xor b28 b19), bit_xor b27 (bit_xor b29 b20), bit_xor b28 (bit_xor b30 b21),
      bit_xor b29 (bit_xor b31 b22), bit_xor b30 (bit_xor b0 b23), bit_xor b31 (bit_xor b1 b24), bit_xor b0 (bit_xor b2 b25),
      bit_xor b1 (bit_xor b3 b26), bit_xor b2 (bit_xor b4 b27), bit_xor b3 (bit_xor b5 b28), bit_xor b4 (bit_xor b6 b29),
      bit_xor b5 (bit_xor b7 b30), bit_xor b6 (bit_xor b8 b31), bit_xor b7 (bit_xor b9 False), bit_xor b8 (bit_xor b10 False),
      bit_xor b9 (bit_xor b11 False), bit_xor b10 (bit_xor b12 False), bit_xor b11 (bit_xor b13 False), bit_xor b12 (bit_xor b14 False),
      bit_xor b13 (bit_xor b15 False), bit_xor b14 (bit_xor b16 False), bit_xor b15 (bit_xor b17 False), bit_xor b16 (bit_xor b18 False)]"
  by (simp add: bits_s1_def bits_rotr_def bits_shr_def numeral_eq_Suc)

text \<open>The schedule in reverse, so that a step looks at its first sixteen words only.\<close>

definition bits_next :: "bool list \<Rightarrow> bool list \<Rightarrow> bool list \<Rightarrow> bool list \<Rightarrow> bool list" where
  "bits_next w16 w15 w7 w2 =
     bits_add False (bits_add False (bits_add False w16 (bits_s0 w15)) w7) (bits_s1 w2)"

fun bits_expand :: "nat \<Rightarrow> bool list list \<Rightarrow> bool list list" where
  "bits_expand 0 R = R"
| "bits_expand (Suc n) R = bits_expand n (bits_next (R ! 15) (R ! 14) (R ! 6) (R ! 1) # R)"

lemma bits_next_eq [simp]:
  "bits_next (bits w16) (bits w15) (bits w7) (bits w2) =
     bits (w16 + (word_rotr 7 w15 XOR word_rotr 18 w15 XOR drop_bit 3 w15) + w7 + (word_rotr 17 w2 XOR word_rotr 19 w2 XOR drop_bit 10 w2))"
  by (simp add: bits_next_def bits_s0_def bits_s1_def)

lemma sched_step_bits:
  assumes "16 \<le> length W"
  shows "map bits (rev (sha_sched_step W (length W))) = (let R = map bits (rev W) in bits_next (R ! 15) (R ! 14) (R ! 6) (R ! 1) # R)"
  using assms by (simp add: sha_sched_step_def Let_def rev_nth numeral_2_eq_2)

lemma expand_bits:
  "16 \<le> length W \<Longrightarrow> bits_expand n (map bits (rev W)) = map bits (rev (foldl sha_sched_step W [length W..<length W + n]))"
proof (induction n arbitrary: W)
  case (Suc n)
  let ?W = "sha_sched_step W (length W)"
  have l: "length ?W = Suc (length W)" by (simp add: sha_sched_step_def Let_def)
  have "[length W..<length W + Suc n] = length W # [length ?W..<length ?W + n]" unfolding l by (simp add: upt_conv_Cons)
  moreover have "bits_expand (Suc n) (map bits (rev W)) = bits_expand n (map bits (rev ?W))"
    using sched_step_bits [OF Suc.prems] by (simp add: Let_def)
  ultimately show ?case using Suc.IH [of ?W] Suc.prems l by simp
qed simp

lemma length_sched0: "length (sha_sched0 block) = 16" by (simp add: sha_sched0_def)

lemma schedule_bits: "rev (bits_expand 48 (rev (map bits (sha_sched0 block)))) = map bits (sha_schedule block)"
proof -
  have e: "(16 :: nat) + 48 = 64" by simp
  have "bits_expand 48 (map bits (rev (sha_sched0 block))) = map bits (rev (sha_schedule block))"
    unfolding sha_schedule_def by (rule expand_bits [of "sha_sched0 block" 48, unfolded length_sched0 e, OF order_refl])
  then show ?thesis by (simp only: rev_map rev_rev_ident)
qed

lemma length_schedule: "length (sha_schedule block) = 64"
proof -
  have l: "length (foldl sha_sched_step W is) = length W + length is" for W "is"
    by (induction "is" arbitrary: W) (simp_all add: sha_sched_step_def Let_def)
  show ?thesis unfolding sha_schedule_def l length_sched0 length_upt by simp
qed

type_synonym bits_vars = "bool list \<times> bool list \<times> bool list \<times> bool list \<times> bool list \<times> bool list \<times> bool list \<times> bool list"

definition bits_shift ::
  "bool list \<Rightarrow> bool list \<Rightarrow> bool list \<Rightarrow> bool list \<Rightarrow> bool list \<Rightarrow> bool list \<Rightarrow> bool list \<Rightarrow> bool list \<Rightarrow> bool list \<Rightarrow> bits_vars" where
  "bits_shift temp1 temp2 a b c d e f g = (bits_add False temp1 temp2, a, b, c, bits_add False d temp1, e, f, g)"

definition bits_round :: "bits_vars \<Rightarrow> bool list \<Rightarrow> bool list \<Rightarrow> bits_vars" where
  "bits_round v k w = (case v of (a, b, c, d, e, f, g, h) \<Rightarrow>
     bits_shift (bits_add False (bits_add False (bits_add False (bits_add False h (bits_S1 e)) (bits_choice e f g)) k) w)
       (bits_add False (bits_S0 a) (bits_maj a b c)) a b c d e f g)"

fun bits_rounds :: "bool list list \<Rightarrow> bool list list \<Rightarrow> bits_vars \<Rightarrow> bits_vars" where
  "bits_rounds (k # ks) (w # ws) v = bits_rounds ks ws (bits_round v k w)"
| "bits_rounds _ _ v = v"

definition bits_vars :: "sha_vars \<Rightarrow> bits_vars" where
  "bits_vars v = (case v of (a, b, c, d, e, f, g, h) \<Rightarrow> (bits a, bits b, bits c, bits d, bits e, bits f, bits g, bits h))"

lemma round_bits: "bits_round (bits_vars v) (bits (sha_K ! i)) (bits (W ! i)) = bits_vars (sha_round W v i)"
proof -
  obtain a b c d e f g h where "v = (a, b, c, d, e, f, g, h)" by (metis prod.exhaust)
  then show ?thesis by (simp add: bits_vars_def bits_round_def bits_shift_def bits_S0_def bits_S1_def Let_def)
qed

lemma rounds_bits_from:
  "n \<le> length W \<Longrightarrow> length W = length sha_K \<Longrightarrow>
   bits_rounds (map bits (drop n sha_K)) (map bits (drop n W)) (bits_vars v) = bits_vars (foldl (sha_round W) v [n..<length W])"
proof (induction n arbitrary: v rule: inc_induct)
  case (step n)
  have "drop n sha_K = sha_K ! n # drop (Suc n) sha_K" "drop n W = W ! n # drop (Suc n) W" "[n..<length W] = n # [Suc n..<length W]"
    using step by (simp_all add: Cons_nth_drop_Suc upt_conv_Cons)
  then show ?case using step by (simp add: round_bits)
qed simp

definition bits_word :: "bool list \<Rightarrow> u32" where
  "bits_word bs = word_of_int (bits_int bs)"

text \<open>The words of a block, byte by byte.\<close>

definition byte_bits :: "u8 \<Rightarrow> bool list" where
  "byte_bits w = map (bit w) [0..<8]"

definition int_byte_bits :: "int \<Rightarrow> bool list" where
  "int_byte_bits k = map (bit k) [0..<8]"

lemma int_byte_bits_code [code]:
  "int_byte_bits 0 = replicate 8 False" "int_byte_bits (Int.Pos n) = num_bits 8 n"
  "int_byte_bits (Int.Neg n) = map Not (int_byte_bits (numeral n - 1))"
  by (auto simp: int_byte_bits_def num_bits_eq bit_minus_int_iff bit_not_int_iff intro!: nth_equalityI)

lemma byte_bits_code [code]: "byte_bits w = int_byte_bits (uint w)"
  by (simp add: byte_bits_def int_byte_bits_def bit_uint_iff)

fun block_bits :: "bytes \<Rightarrow> bool list list" where
  "block_bits (a # b # c # d # bs) = (byte_bits d @ byte_bits c @ byte_bits b @ byte_bits a) # block_bits bs"
| "block_bits _ = []"

lemma bit_le_int: "bit (le_int bs) i \<longleftrightarrow> i < 8 * length bs \<and> bit (bs ! (i div 8)) (i mod 8)"
proof (induction bs arbitrary: i)
  case (Cons b bs)
  have "le_int (b # bs) = concat_bit 8 (uint b) (le_int bs)"
    using unsigned_less [of b, where ?'a = int] by (simp add: concat_bit_eq take_bit_int_eq_self push_bit_eq_mult)
  moreover have "i div 8 = Suc ((i - 8) div 8)" "i mod 8 = (i - 8) mod 8" if "8 \<le> i"
    using that by (simp_all add: le_div_geq le_mod_geq)
  ultimately show ?case by (cases "i < 8") (auto simp: bit_concat_bit_iff Cons bit_uint_iff dest: bit_imp_le_length)
qed simp

lemma from_be_bits: "bits (from_be [a, b, c, d]) = byte_bits d @ byte_bits c @ byte_bits b @ byte_bits a"
proof (rule bits_eqI [symmetric])
  fix i :: nat
  assume "i < 32"
  then have f: "bit (from_be [a, b, c, d]) i = bit ([d, c, b, a] ! (i div 8)) (i mod 8)"
    using bit_le_int [of "[d, c, b, a]" i] by (simp add: from_be_def from_le_def bit_word_of_int_iff del: le_int.simps)
  obtain q r where q: "i = 8 * q + r" "r < 8" by (metis div_mod_decomp mod_less_divisor mult.commute zero_less_numeral)
  have m: "(8 * q + r) mod 8 = r" "(8 * q + r) div 8 = q" using q(2) by simp_all
  from q \<open>i < 32\<close> consider "q = 0" | "q = 1" | "q = 2" | "q = 3" by linarith
  then show "(byte_bits d @ byte_bits c @ byte_bits b @ byte_bits a) ! i = bit (from_be [a, b, c, d]) i"
    unfolding f unfolding q(1) m using q(2) by cases (simp_all add: nth_append byte_bits_def)
qed (simp add: byte_bits_def)

lemma block_bits_eq: "length block = 64 \<Longrightarrow> block_bits block = map bits (sha_sched0 block)"
proof -
  have w: "length bs = 4 * n \<Longrightarrow> block_bits bs = map (\<lambda>i. bits (from_be (slice bs (i * 4) (i * 4 + 4)))) [0..<n]" for bs n
  proof (induction n arbitrary: bs)
    case (Suc n)
    then obtain a b c d cs where bs: "bs = a # b # c # d # cs" and l: "length cs = 4 * n"
      by (cases bs rule: block_bits.cases) auto
    have "slice bs 0 4 = [a, b, c, d]" "\<And>i. slice bs (Suc i * 4) (Suc i * 4 + 4) = slice cs (i * 4) (i * 4 + 4)"
      by (simp_all add: bs slice_def drop_Cons' add.commute)
    then show ?case using Suc.IH [OF l] by (simp add: bs from_be_bits upt_conv_Cons map_Suc_upt [symmetric] comp_def del: upt_Suc)
  qed simp
  assume "length block = 64"
  then show ?thesis using w [of block 16] unfolding sha_sched0_def by (simp only: map_map comp_def)
qed

definition bits_block :: "bytes \<Rightarrow> bool list list" where
  "bits_block block = (if length block = 64 then block_bits block else map bits (sha_sched0 block))"

definition bits_compress :: "bool list \<Rightarrow> bool list \<Rightarrow> bool list \<Rightarrow> bool list \<Rightarrow> bool list \<Rightarrow> bool list \<Rightarrow> bool list \<Rightarrow> bool list
    \<Rightarrow> bool list list \<Rightarrow> bool list list" where
  "bits_compress s0 s1 s2 s3 s4 s5 s6 s7 W =
     (case bits_rounds (map bits sha_K) (rev (bits_expand 48 (rev W))) (s0, s1, s2, s3, s4, s5, s6, s7) of
        (a, b, c, d, e, f, g, h) \<Rightarrow>
          [bits_add False s0 a, bits_add False s1 b, bits_add False s2 c, bits_add False s3 d,
           bits_add False s4 e, bits_add False s5 f, bits_add False s6 g, bits_add False s7 h])"

lemma sha_compress_bits [code]:
  "sha_compress st block = map bits_word (bits_compress (bits (st ! 0)) (bits (st ! 1)) (bits (st ! 2)) (bits (st ! 3))
     (bits (st ! 4)) (bits (st ! 5)) (bits (st ! 6)) (bits (st ! 7)) (bits_block block))"
proof -
  let ?v = "(st ! 0, st ! 1, st ! 2, st ! 3, st ! 4, st ! 5, st ! 6, st ! 7)" and ?W = "sha_schedule block"
  have k: "length ?W = length sha_K" unfolding length_schedule by (simp add: sha_K_def)
  have b: "bits_block block = map bits (sha_sched0 block)" by (simp add: bits_block_def block_bits_eq)
  obtain a b c d e f g h where r: "foldl (sha_round ?W) ?v [0..<64] = (a, b, c, d, e, f, g, h)" by (metis prod.exhaust)
  have "bits_rounds (map bits sha_K) (map bits ?W) (bits_vars ?v) = bits_vars (a, b, c, d, e, f, g, h)"
    using rounds_bits_from [of 0 ?W ?v] k unfolding r [symmetric] length_schedule by (simp only: drop_0 le0 simp_thms)
  then have "bits_compress (bits (st ! 0)) (bits (st ! 1)) (bits (st ! 2)) (bits (st ! 3))
     (bits (st ! 4)) (bits (st ! 5)) (bits (st ! 6)) (bits (st ! 7)) (bits_block block) =
     map bits [st ! 0 + a, st ! 1 + b, st ! 2 + c, st ! 3 + d, st ! 4 + e, st ! 5 + f, st ! 6 + g, st ! 7 + h]"
    unfolding bits_compress_def b schedule_bits bits_vars_def prod.case by (simp only: prod.case bits_add_eq list.map)
  moreover have "sha_compress st block = [st ! 0 + a, st ! 1 + b, st ! 2 + c, st ! 3 + d, st ! 4 + e, st ! 5 + f, st ! 6 + g, st ! 7 + h]"
    unfolding sha_compress_def Let_def r prod.case ..
  ultimately show ?thesis by (simp add: bits_word_def)
qed

text \<open>A digest from the blocks of its message.\<close>

lemma sha256_by_blocks:
  assumes "length m * 8 < usize_limit" and "blocks64 (sha_pad m) = bs" and "foldl sha_compress sha_init_h bs = ws"
    and "concat (map u32_be ws) = d"
  shows "sha256 m = d"
  using assms by (simp add: sha256_eq_ref sha256_ref_def)

end
