(* ===== verification/Ub_Trust_Hashes.thy ===== *)
theory Ub_Trust_Hashes
  imports Ub_Fed_Ledger Ub_Sha_Eval
begin

text \<open>
  The digests of a concrete run of the trust ledgers, computed block by block. The checks of the
  ledgers compare digests with the zero digest, so a run needs their values.
\<close>

definition run_blob :: bytes where
  "run_blob = u32_le 0x31534345 @ u32_le 32 @ replicate 64 7"

lemma run_public_hash1: "sha_compress sha_init_h
   [69, 67, 83, 49, 32, 0, 0, 0, 7, 7, 7, 7, 7, 7, 7, 7,
    7, 7, 7, 7, 7, 7, 7, 7, 7, 7, 7, 7, 7, 7, 7, 7,
    7, 7, 7, 7, 7, 7, 7, 7, 7, 7, 7, 7, 7, 7, 7, 7,
    7, 7, 7, 7, 7, 7, 7, 7, 7, 7, 7, 7, 7, 7, 7, 7] =
   [0x5A3B997C, 0xAAA010A1, 0xF6C44937, 0x24ED16D2, 0x481B8A7C, 0xB468FA26, 0x7474CCCD, 0xC8B97736]"
  by code_simp

lemma run_public_hash2: "sha_compress [0x5A3B997C, 0xAAA010A1, 0xF6C44937, 0x24ED16D2, 0x481B8A7C, 0xB468FA26, 0x7474CCCD, 0xC8B97736]
   [7, 7, 7, 7, 7, 7, 7, 7, 128, 0, 0, 0, 0, 0, 0, 0,
    0, 0, 0, 0, 0, 0, 0, 0, 0, 0, 0, 0, 0, 0, 0, 0,
    0, 0, 0, 0, 0, 0, 0, 0, 0, 0, 0, 0, 0, 0, 0, 0,
    0, 0, 0, 0, 0, 0, 0, 0, 0, 0, 0, 0, 0, 0, 2, 64] =
   [0x863449A1, 0x421F69DB, 0xF206F4CD, 0x2225C3CF, 0x91F3EE12, 0x7472C247, 0x77E458B7, 0xC292197E]"
  by code_simp

text \<open>The digest of the public key.\<close>

definition run_public :: bytes where
  "run_public = [134, 52, 73, 161, 66, 31, 105, 219, 242, 6, 244, 205, 34, 37, 195, 207,
    145, 243, 238, 18, 116, 114, 194, 71, 119, 228, 88, 183, 194, 146, 25, 126]"

lemma run_public_blocks:
  "blocks64 (sha_pad (run_blob)) =
    [[69, 67, 83, 49, 32, 0, 0, 0, 7, 7, 7, 7, 7, 7, 7, 7,
    7, 7, 7, 7, 7, 7, 7, 7, 7, 7, 7, 7, 7, 7, 7, 7,
    7, 7, 7, 7, 7, 7, 7, 7, 7, 7, 7, 7, 7, 7, 7, 7,
    7, 7, 7, 7, 7, 7, 7, 7, 7, 7, 7, 7, 7, 7, 7, 7],
     [7, 7, 7, 7, 7, 7, 7, 7, 128, 0, 0, 0, 0, 0, 0, 0,
    0, 0, 0, 0, 0, 0, 0, 0, 0, 0, 0, 0, 0, 0, 0, 0,
    0, 0, 0, 0, 0, 0, 0, 0, 0, 0, 0, 0, 0, 0, 0, 0,
    0, 0, 0, 0, 0, 0, 0, 0, 0, 0, 0, 0, 0, 0, 2, 64]]"
  by code_simp

lemma run_public_digest: "sha256 (run_blob) = run_public"
  unfolding run_public_def
  by (rule sha256_by_blocks [OF _ run_public_blocks, unfolded foldl_Cons foldl_Nil run_public_hash1 run_public_hash2, OF _ refl])
    (simp add: usize_limit_def run_blob_def, code_simp)

lemma run_name_hash1: "sha_compress sha_init_h
   [97, 128, 0, 0, 0, 0, 0, 0, 0, 0, 0, 0, 0, 0, 0, 0,
    0, 0, 0, 0, 0, 0, 0, 0, 0, 0, 0, 0, 0, 0, 0, 0,
    0, 0, 0, 0, 0, 0, 0, 0, 0, 0, 0, 0, 0, 0, 0, 0,
    0, 0, 0, 0, 0, 0, 0, 0, 0, 0, 0, 0, 0, 0, 0, 8] =
   [0xCA978112, 0xCA1BBDCA, 0xFAC231B3, 0x9A23DC4D, 0xA786EFF8, 0x147C4E72, 0xB9807785, 0xAFEE48BB]"
  by code_simp

text \<open>The digest of the name of the key at the provider.\<close>

definition run_name :: bytes where
  "run_name = [202, 151, 129, 18, 202, 27, 189, 202, 250, 194, 49, 179, 154, 35, 220, 77,
    167, 134, 239, 248, 20, 124, 78, 114, 185, 128, 119, 133, 175, 238, 72, 187]"

lemma run_name_blocks:
  "blocks64 (sha_pad (lit ''a'')) =
    [[97, 128, 0, 0, 0, 0, 0, 0, 0, 0, 0, 0, 0, 0, 0, 0,
    0, 0, 0, 0, 0, 0, 0, 0, 0, 0, 0, 0, 0, 0, 0, 0,
    0, 0, 0, 0, 0, 0, 0, 0, 0, 0, 0, 0, 0, 0, 0, 0,
    0, 0, 0, 0, 0, 0, 0, 0, 0, 0, 0, 0, 0, 0, 0, 8]]"
  by code_simp

lemma run_name_digest: "sha256 (lit ''a'') = run_name"
  unfolding run_name_def
  by (rule sha256_by_blocks [OF _ run_name_blocks, unfolded foldl_Cons foldl_Nil run_name_hash1, OF _ refl])
    (simp add: usize_limit_def , code_simp)

lemma run_subject_hash1: "sha_compress sha_init_h
   [85, 66, 65, 75, 83, 85, 66, 49, 1, 1, 1, 0, 1, 0, 0, 0,
    0, 0, 0, 0, 1, 0, 0, 0, 0, 0, 0, 0, 134, 52, 73, 161,
    66, 31, 105, 219, 242, 6, 244, 205, 34, 37, 195, 207, 145, 243, 238, 18,
    116, 114, 194, 71, 119, 228, 88, 183, 194, 146, 25, 126, 0, 0, 0, 0] =
   [0xE6BA914E, 0xCDC8D64B, 0x26EF3D73, 0x29E2CCD6, 0x62B5F19F, 0x1F21EEAE, 0x4F4A4F72, 0xB512C597]"
  by code_simp

lemma run_subject_hash2: "sha_compress [0xE6BA914E, 0xCDC8D64B, 0x26EF3D73, 0x29E2CCD6, 0x62B5F19F, 0x1F21EEAE, 0x4F4A4F72, 0xB512C597]
   [0, 0, 0, 0, 0, 0, 0, 0, 0, 0, 0, 0, 0, 0, 0, 0,
    0, 0, 0, 0, 0, 0, 0, 0, 0, 0, 0, 0, 1, 0, 0, 0,
    1, 0, 0, 0, 1, 0, 0, 0, 1, 0, 0, 0, 97, 112, 97, 110,
    128, 0, 0, 0, 0, 0, 0, 0, 0, 0, 0, 0, 0, 0, 3, 128] =
   [0xB8D9B7F1, 0xEB4F173E, 0xD8CE7300, 0x9C8B369C, 0xC3003C83, 0x81C202D1, 0xA36A1CCB, 0x8F2C8DB2]"
  by code_simp

text \<open>The subject of the enrolment of the key.\<close>

definition run_subject :: bytes where
  "run_subject = [184, 217, 183, 241, 235, 79, 23, 62, 216, 206, 115, 0, 156, 139, 54, 156,
    195, 0, 60, 131, 129, 194, 2, 209, 163, 106, 28, 203, 143, 44, 141, 178]"

lemma run_subject_blocks:
  "blocks64 (sha_pad (REGISTRY_SUBJECT_DOMAIN @ [1, 1] @ u16_le 1 @ u64_le 1 @ u64_le 1 @ run_public
     @ replicate 32 0 @ u32_le 1 @ u32_le 1 @ u32_le 1 @ u32_le 1 @ lit ''a'' @ lit ''p'' @ lit ''a'' @ lit ''n'')) =
    [[85, 66, 65, 75, 83, 85, 66, 49, 1, 1, 1, 0, 1, 0, 0, 0,
    0, 0, 0, 0, 1, 0, 0, 0, 0, 0, 0, 0, 134, 52, 73, 161,
    66, 31, 105, 219, 242, 6, 244, 205, 34, 37, 195, 207, 145, 243, 238, 18,
    116, 114, 194, 71, 119, 228, 88, 183, 194, 146, 25, 126, 0, 0, 0, 0],
     [0, 0, 0, 0, 0, 0, 0, 0, 0, 0, 0, 0, 0, 0, 0, 0,
    0, 0, 0, 0, 0, 0, 0, 0, 0, 0, 0, 0, 1, 0, 0, 0,
    1, 0, 0, 0, 1, 0, 0, 0, 1, 0, 0, 0, 97, 112, 97, 110,
    128, 0, 0, 0, 0, 0, 0, 0, 0, 0, 0, 0, 0, 0, 3, 128]]"
  by code_simp

lemma run_subject_digest: "sha256 (REGISTRY_SUBJECT_DOMAIN @ [1, 1] @ u16_le 1 @ u64_le 1 @ u64_le 1 @ run_public
     @ replicate 32 0 @ u32_le 1 @ u32_le 1 @ u32_le 1 @ u32_le 1 @ lit ''a'' @ lit ''p'' @ lit ''a'' @ lit ''n'') = run_subject"
  unfolding run_subject_def
  by (rule sha256_by_blocks [OF _ run_subject_blocks, unfolded foldl_Cons foldl_Nil run_subject_hash1 run_subject_hash2, OF _ refl])
    (simp add: usize_limit_def REGISTRY_SUBJECT_DOMAIN_def run_public_def, code_simp)

lemma run_payload_hash1: "sha_compress sha_init_h
   [85, 66, 65, 75, 80, 48, 49, 0, 1, 1, 1, 1, 1, 0, 0, 0,
    1, 0, 0, 0, 0, 0, 0, 0, 1, 0, 0, 0, 0, 0, 0, 0,
    1, 0, 0, 0, 1, 0, 0, 0, 1, 0, 0, 0, 72, 0, 0, 0,
    1, 0, 0, 0, 0, 0, 0, 0, 134, 52, 73, 161, 66, 31, 105, 219] =
   [0x9FBA1152, 0xB96376B5, 0x4F5F0C67, 0x7851EDFC, 0xCCAE9FD3, 0xBED7FF31, 0x8CEF5F62, 0xBC63A28F]"
  by code_simp

lemma run_payload_hash2: "sha_compress [0x9FBA1152, 0xB96376B5, 0x4F5F0C67, 0x7851EDFC, 0xCCAE9FD3, 0xBED7FF31, 0x8CEF5F62, 0xBC63A28F]
   [242, 6, 244, 205, 34, 37, 195, 207, 145, 243, 238, 18, 116, 114, 194, 71,
    119, 228, 88, 183, 194, 146, 25, 126, 0, 0, 0, 0, 0, 0, 0, 0,
    0, 0, 0, 0, 0, 0, 0, 0, 0, 0, 0, 0, 0, 0, 0, 0,
    0, 0, 0, 0, 0, 0, 0, 0, 202, 151, 129, 18, 202, 27, 189, 202] =
   [0xE9ABD802, 0xF1745AA2, 0x2B020C55, 0x2A1E538A, 0x60E92604, 0x6B587A5D, 0xC191CE84, 0x932096DF]"
  by code_simp

lemma run_payload_hash3: "sha_compress [0xE9ABD802, 0xF1745AA2, 0x2B020C55, 0x2A1E538A, 0x60E92604, 0x6B587A5D, 0xC191CE84, 0x932096DF]
   [250, 194, 49, 179, 154, 35, 220, 77, 167, 134, 239, 248, 20, 124, 78, 114,
    185, 128, 119, 133, 175, 238, 72, 187, 184, 217, 183, 241, 235, 79, 23, 62,
    216, 206, 115, 0, 156, 139, 54, 156, 195, 0, 60, 131, 129, 194, 2, 209,
    163, 106, 28, 203, 143, 44, 141, 178, 0, 0, 0, 0, 0, 0, 0, 0] =
   [0x73153778, 0xC4675B67, 0x3A72B2AB, 0xB394A41C, 0x2064719B, 0xFDC29618, 0x634219C6, 0x29BEB1DF]"
  by code_simp

lemma run_payload_hash4: "sha_compress [0x73153778, 0xC4675B67, 0x3A72B2AB, 0xB394A41C, 0x2064719B, 0xFDC29618, 0x634219C6, 0x29BEB1DF]
   [0, 0, 0, 0, 0, 0, 0, 0, 0, 0, 0, 0, 0, 0, 0, 0,
    0, 0, 0, 0, 0, 0, 0, 0, 0, 0, 0, 0, 0, 0, 0, 0,
    0, 0, 0, 0, 0, 0, 0, 0, 0, 0, 0, 0, 0, 0, 0, 0,
    0, 0, 0, 0, 0, 0, 0, 0, 6, 6, 6, 6, 6, 6, 6, 6] =
   [0xACE4242E, 0xCE50CDBB, 0x9407A432, 0x030DAEC9, 0xBADFF257, 0x73C90D6B, 0x04842C6D, 0x02406A88]"
  by code_simp

lemma run_payload_hash5: "sha_compress [0xACE4242E, 0xCE50CDBB, 0x9407A432, 0x030DAEC9, 0xBADFF257, 0x73C90D6B, 0x04842C6D, 0x02406A88]
   [6, 6, 6, 6, 6, 6, 6, 6, 6, 6, 6, 6, 6, 6, 6, 6,
    6, 6, 6, 6, 6, 6, 6, 6, 6, 6, 6, 6, 6, 6, 6, 6,
    6, 6, 6, 6, 6, 6, 6, 6, 6, 6, 6, 6, 6, 6, 6, 6,
    6, 6, 6, 6, 6, 6, 6, 6, 0, 0, 0, 0, 0, 0, 0, 0] =
   [0x95644D65, 0xFA218A81, 0x510B2731, 0x206C9F4F, 0xFC466986, 0x3F549C52, 0xDEF99DF4, 0x61BFFD5C]"
  by code_simp

lemma run_payload_hash6: "sha_compress [0x95644D65, 0xFA218A81, 0x510B2731, 0x206C9F4F, 0xFC466986, 0x3F549C52, 0xDEF99DF4, 0x61BFFD5C]
   [0, 0, 0, 0, 0, 0, 0, 0, 97, 112, 97, 69, 67, 83, 49, 32,
    0, 0, 0, 7, 7, 7, 7, 7, 7, 7, 7, 7, 7, 7, 7, 7,
    7, 7, 7, 7, 7, 7, 7, 7, 7, 7, 7, 7, 7, 7, 7, 7,
    7, 7, 7, 7, 7, 7, 7, 7, 7, 7, 7, 7, 7, 7, 7, 7] =
   [0x77AC678B, 0x3887C819, 0xB711F19D, 0xB70F4518, 0xD2963A3C, 0xD9E45926, 0x85091724, 0x2CC40E3D]"
  by code_simp

lemma run_payload_hash7: "sha_compress [0x77AC678B, 0x3887C819, 0xB711F19D, 0xB70F4518, 0xD2963A3C, 0xD9E45926, 0x85091724, 0x2CC40E3D]
   [7, 7, 7, 7, 7, 7, 7, 7, 7, 7, 7, 7, 7, 7, 7, 7,
    7, 7, 7, 110, 128, 0, 0, 0, 0, 0, 0, 0, 0, 0, 0, 0,
    0, 0, 0, 0, 0, 0, 0, 0, 0, 0, 0, 0, 0, 0, 0, 0,
    0, 0, 0, 0, 0, 0, 0, 0, 0, 0, 0, 0, 0, 0, 12, 160] =
   [0xB835C918, 0x59B3E110, 0xC7604D5D, 0x65B03FE7, 0xFE8E4C0F, 0xD49EA679, 0x15B67967, 0x30FCC828]"
  by code_simp

text \<open>The digest of the payload of the enrolment.\<close>

definition run_payload :: bytes where
  "run_payload = [184, 53, 201, 24, 89, 179, 225, 16, 199, 96, 77, 93, 101, 176, 63, 231,
    254, 142, 76, 15, 212, 158, 166, 121, 21, 182, 121, 103, 48, 252, 200, 40]"

lemma run_payload_blocks:
  "blocks64 (sha_pad (REGISTRY_PAYLOAD_MAGIC @ [1, 1, 1, 1] @ u16_le 1 @ u16_le 0 @ u64_le 1 @ u64_le 1
     @ u32_le 1 @ u32_le 1 @ u32_le 1 @ u32_le 72 @ u32_le 1 @ u32_le 0 @ run_public @ replicate 32 0 @ run_name
     @ run_subject @ replicate 64 0 @ replicate 64 6 @ replicate 16 0
     @ lit ''a'' @ lit ''p'' @ lit ''a'' @ run_blob @ lit ''n'')) =
    [[85, 66, 65, 75, 80, 48, 49, 0, 1, 1, 1, 1, 1, 0, 0, 0,
    1, 0, 0, 0, 0, 0, 0, 0, 1, 0, 0, 0, 0, 0, 0, 0,
    1, 0, 0, 0, 1, 0, 0, 0, 1, 0, 0, 0, 72, 0, 0, 0,
    1, 0, 0, 0, 0, 0, 0, 0, 134, 52, 73, 161, 66, 31, 105, 219],
     [242, 6, 244, 205, 34, 37, 195, 207, 145, 243, 238, 18, 116, 114, 194, 71,
    119, 228, 88, 183, 194, 146, 25, 126, 0, 0, 0, 0, 0, 0, 0, 0,
    0, 0, 0, 0, 0, 0, 0, 0, 0, 0, 0, 0, 0, 0, 0, 0,
    0, 0, 0, 0, 0, 0, 0, 0, 202, 151, 129, 18, 202, 27, 189, 202],
     [250, 194, 49, 179, 154, 35, 220, 77, 167, 134, 239, 248, 20, 124, 78, 114,
    185, 128, 119, 133, 175, 238, 72, 187, 184, 217, 183, 241, 235, 79, 23, 62,
    216, 206, 115, 0, 156, 139, 54, 156, 195, 0, 60, 131, 129, 194, 2, 209,
    163, 106, 28, 203, 143, 44, 141, 178, 0, 0, 0, 0, 0, 0, 0, 0],
     [0, 0, 0, 0, 0, 0, 0, 0, 0, 0, 0, 0, 0, 0, 0, 0,
    0, 0, 0, 0, 0, 0, 0, 0, 0, 0, 0, 0, 0, 0, 0, 0,
    0, 0, 0, 0, 0, 0, 0, 0, 0, 0, 0, 0, 0, 0, 0, 0,
    0, 0, 0, 0, 0, 0, 0, 0, 6, 6, 6, 6, 6, 6, 6, 6],
     [6, 6, 6, 6, 6, 6, 6, 6, 6, 6, 6, 6, 6, 6, 6, 6,
    6, 6, 6, 6, 6, 6, 6, 6, 6, 6, 6, 6, 6, 6, 6, 6,
    6, 6, 6, 6, 6, 6, 6, 6, 6, 6, 6, 6, 6, 6, 6, 6,
    6, 6, 6, 6, 6, 6, 6, 6, 0, 0, 0, 0, 0, 0, 0, 0],
     [0, 0, 0, 0, 0, 0, 0, 0, 97, 112, 97, 69, 67, 83, 49, 32,
    0, 0, 0, 7, 7, 7, 7, 7, 7, 7, 7, 7, 7, 7, 7, 7,
    7, 7, 7, 7, 7, 7, 7, 7, 7, 7, 7, 7, 7, 7, 7, 7,
    7, 7, 7, 7, 7, 7, 7, 7, 7, 7, 7, 7, 7, 7, 7, 7],
     [7, 7, 7, 7, 7, 7, 7, 7, 7, 7, 7, 7, 7, 7, 7, 7,
    7, 7, 7, 110, 128, 0, 0, 0, 0, 0, 0, 0, 0, 0, 0, 0,
    0, 0, 0, 0, 0, 0, 0, 0, 0, 0, 0, 0, 0, 0, 0, 0,
    0, 0, 0, 0, 0, 0, 0, 0, 0, 0, 0, 0, 0, 0, 12, 160]]"
  by code_simp

lemma run_payload_digest: "sha256 (REGISTRY_PAYLOAD_MAGIC @ [1, 1, 1, 1] @ u16_le 1 @ u16_le 0 @ u64_le 1 @ u64_le 1
     @ u32_le 1 @ u32_le 1 @ u32_le 1 @ u32_le 72 @ u32_le 1 @ u32_le 0 @ run_public @ replicate 32 0 @ run_name
     @ run_subject @ replicate 64 0 @ replicate 64 6 @ replicate 16 0
     @ lit ''a'' @ lit ''p'' @ lit ''a'' @ run_blob @ lit ''n'') = run_payload"
  unfolding run_payload_def
  by (rule sha256_by_blocks [OF _ run_payload_blocks, unfolded foldl_Cons foldl_Nil run_payload_hash1 run_payload_hash2 run_payload_hash3 run_payload_hash4 run_payload_hash5 run_payload_hash6 run_payload_hash7, OF _ refl])
    (simp add: usize_limit_def REGISTRY_PAYLOAD_MAGIC_def run_public_def run_name_def run_subject_def run_blob_def, code_simp)

lemma run_head_hash1: "sha_compress sha_init_h
   [85, 66, 65, 75, 89, 70, 82, 49, 1, 0, 0, 0, 0, 0, 0, 0,
    0, 0, 0, 0, 0, 0, 0, 0, 0, 0, 0, 0, 0, 0, 0, 0,
    0, 0, 0, 0, 0, 0, 0, 0, 0, 0, 0, 0, 0, 0, 0, 0,
    184, 53, 201, 24, 89, 179, 225, 16, 199, 96, 77, 93, 101, 176, 63, 231] =
   [0xDB20E12A, 0x8F1AB312, 0x72A43778, 0x1378246A, 0x9C9A7B87, 0xFD77DF8B, 0xC17DE683, 0xD563F904]"
  by code_simp

lemma run_head_hash2: "sha_compress [0xDB20E12A, 0x8F1AB312, 0x72A43778, 0x1378246A, 0x9C9A7B87, 0xFD77DF8B, 0xC17DE683, 0xD563F904]
   [254, 142, 76, 15, 212, 158, 166, 121, 21, 182, 121, 103, 48, 252, 200, 40,
    128, 0, 0, 0, 0, 0, 0, 0, 0, 0, 0, 0, 0, 0, 0, 0,
    0, 0, 0, 0, 0, 0, 0, 0, 0, 0, 0, 0, 0, 0, 0, 0,
    0, 0, 0, 0, 0, 0, 0, 0, 0, 0, 0, 0, 0, 0, 2, 128] =
   [0xE686392A, 0xBB7BEBAE, 0xF4DBFB3B, 0xA0B681E9, 0x6AA34E28, 0x5BBD40CE, 0xEC37B6DD, 0x1A602FCC]"
  by code_simp

text \<open>The head of the registry after the enrolment.\<close>

definition run_head :: bytes where
  "run_head = [230, 134, 57, 42, 187, 123, 235, 174, 244, 219, 251, 59, 160, 182, 129, 233,
    106, 163, 78, 40, 91, 189, 64, 206, 236, 55, 182, 221, 26, 96, 47, 204]"

lemma run_head_blocks:
  "blocks64 (sha_pad (REGISTRY_FRAME_DOMAIN @ u64_le 1 @ replicate 32 0 @ run_payload)) =
    [[85, 66, 65, 75, 89, 70, 82, 49, 1, 0, 0, 0, 0, 0, 0, 0,
    0, 0, 0, 0, 0, 0, 0, 0, 0, 0, 0, 0, 0, 0, 0, 0,
    0, 0, 0, 0, 0, 0, 0, 0, 0, 0, 0, 0, 0, 0, 0, 0,
    184, 53, 201, 24, 89, 179, 225, 16, 199, 96, 77, 93, 101, 176, 63, 231],
     [254, 142, 76, 15, 212, 158, 166, 121, 21, 182, 121, 103, 48, 252, 200, 40,
    128, 0, 0, 0, 0, 0, 0, 0, 0, 0, 0, 0, 0, 0, 0, 0,
    0, 0, 0, 0, 0, 0, 0, 0, 0, 0, 0, 0, 0, 0, 0, 0,
    0, 0, 0, 0, 0, 0, 0, 0, 0, 0, 0, 0, 0, 0, 2, 128]]"
  by code_simp

lemma run_head_digest: "sha256 (REGISTRY_FRAME_DOMAIN @ u64_le 1 @ replicate 32 0 @ run_payload) = run_head"
  unfolding run_head_def
  by (rule sha256_by_blocks [OF _ run_head_blocks, unfolded foldl_Cons foldl_Nil run_head_hash1 run_head_hash2, OF _ refl])
    (simp add: usize_limit_def REGISTRY_FRAME_DOMAIN_def run_payload_def, code_simp)

lemma run_policy_hash1: "sha_compress sha_init_h
   [85, 66, 70, 80, 76, 67, 89, 49, 1, 0, 0, 0, 0, 0, 0, 0,
    1, 0, 1, 0, 1, 0, 0, 0, 1, 1, 0, 0, 0, 1, 0, 0,
    0, 110, 97, 128, 0, 0, 0, 0, 0, 0, 0, 0, 0, 0, 0, 0,
    0, 0, 0, 0, 0, 0, 0, 0, 0, 0, 0, 0, 0, 0, 1, 24] =
   [0xEF89CAFE, 0x0A3B3EE2, 0xDAA6873B, 0xEBC503D6, 0x56989169, 0x63FC342C, 0xD0EF6AE4, 0xBE2B4F44]"
  by code_simp

text \<open>The digest of the policy of the namespace.\<close>

definition run_policy :: bytes where
  "run_policy = [239, 137, 202, 254, 10, 59, 62, 226, 218, 166, 135, 59, 235, 197, 3, 214,
    86, 152, 145, 105, 99, 252, 52, 44, 208, 239, 106, 228, 190, 43, 79, 68]"

lemma run_policy_blocks:
  "blocks64 (sha_pad (POLICY_DOMAIN @ u64_le 1 @ u16_le 1 @ u16_le 1 @ u32_le 1 @ [1] @ u32_le 1 @ u32_le 1
     @ lit ''n'' @ lit ''a'')) =
    [[85, 66, 70, 80, 76, 67, 89, 49, 1, 0, 0, 0, 0, 0, 0, 0,
    1, 0, 1, 0, 1, 0, 0, 0, 1, 1, 0, 0, 0, 1, 0, 0,
    0, 110, 97, 128, 0, 0, 0, 0, 0, 0, 0, 0, 0, 0, 0, 0,
    0, 0, 0, 0, 0, 0, 0, 0, 0, 0, 0, 0, 0, 0, 1, 24]]"
  by code_simp

lemma run_policy_digest: "sha256 (POLICY_DOMAIN @ u64_le 1 @ u16_le 1 @ u16_le 1 @ u32_le 1 @ [1] @ u32_le 1 @ u32_le 1
     @ lit ''n'' @ lit ''a'') = run_policy"
  unfolding run_policy_def
  by (rule sha256_by_blocks [OF _ run_policy_blocks, unfolded foldl_Cons foldl_Nil run_policy_hash1, OF _ refl])
    (simp add: usize_limit_def POLICY_DOMAIN_def, code_simp)

lemma run_policy_subject_hash1: "sha_compress sha_init_h
   [85, 66, 70, 80, 76, 67, 89, 49, 239, 137, 202, 254, 10, 59, 62, 226,
    218, 166, 135, 59, 235, 197, 3, 214, 86, 152, 145, 105, 99, 252, 52, 44,
    208, 239, 106, 228, 190, 43, 79, 68, 128, 0, 0, 0, 0, 0, 0, 0,
    0, 0, 0, 0, 0, 0, 0, 0, 0, 0, 0, 0, 0, 0, 1, 64] =
   [0x53756A11, 0x9E285E0F, 0x2C39732E, 0xEDBB558D, 0x45C7F54C, 0x2EA2634A, 0x2248F4AF, 0x1463C4DD]"
  by code_simp

text \<open>The subject that authorises the policy.\<close>

definition run_policy_subject :: bytes where
  "run_policy_subject = [83, 117, 106, 17, 158, 40, 94, 15, 44, 57, 115, 46, 237, 187, 85, 141,
    69, 199, 245, 76, 46, 162, 99, 74, 34, 72, 244, 175, 20, 99, 196, 221]"

lemma run_policy_subject_blocks:
  "blocks64 (sha_pad (POLICY_DOMAIN @ run_policy)) =
    [[85, 66, 70, 80, 76, 67, 89, 49, 239, 137, 202, 254, 10, 59, 62, 226,
    218, 166, 135, 59, 235, 197, 3, 214, 86, 152, 145, 105, 99, 252, 52, 44,
    208, 239, 106, 228, 190, 43, 79, 68, 128, 0, 0, 0, 0, 0, 0, 0,
    0, 0, 0, 0, 0, 0, 0, 0, 0, 0, 0, 0, 0, 0, 1, 64]]"
  by code_simp

lemma run_policy_subject_digest: "sha256 (POLICY_DOMAIN @ run_policy) = run_policy_subject"
  unfolding run_policy_subject_def
  by (rule sha256_by_blocks [OF _ run_policy_subject_blocks, unfolded foldl_Cons foldl_Nil run_policy_subject_hash1, OF _ refl])
    (simp add: usize_limit_def POLICY_DOMAIN_def run_policy_def, code_simp)

lemma run_enrol_hash1: "sha_compress sha_init_h
   [85, 66, 70, 65, 85, 84, 72, 49, 2, 1, 0, 0, 0, 239, 137, 202,
    254, 10, 59, 62, 226, 218, 166, 135, 59, 235, 197, 3, 214, 86, 152, 145,
    105, 99, 252, 52, 44, 208, 239, 106, 228, 190, 43, 79, 68, 1, 0, 0,
    0, 1, 0, 0, 0, 110, 97, 128, 0, 0, 0, 0, 0, 0, 1, 184] =
   [0x4352DD2B, 0x4C3D6982, 0x5E3FD53F, 0x702EFA9A, 0x85AEBBF8, 0x4DA3FA80, 0xE0C2120A, 0xA6A917A6]"
  by code_simp

text \<open>The subject that authorises the enrolment of the authority.\<close>

definition run_enrol :: bytes where
  "run_enrol = [67, 82, 221, 43, 76, 61, 105, 130, 94, 63, 213, 63, 112, 46, 250, 154,
    133, 174, 187, 248, 77, 163, 250, 128, 224, 194, 18, 10, 166, 169, 23, 166]"

lemma run_enrol_blocks:
  "blocks64 (sha_pad (AUTHORITY_DOMAIN @ [2] @ u32_le 1 @ run_policy @ u32_le 1 @ u32_le 1 @ lit ''n'' @ lit ''a'')) =
    [[85, 66, 70, 65, 85, 84, 72, 49, 2, 1, 0, 0, 0, 239, 137, 202,
    254, 10, 59, 62, 226, 218, 166, 135, 59, 235, 197, 3, 214, 86, 152, 145,
    105, 99, 252, 52, 44, 208, 239, 106, 228, 190, 43, 79, 68, 1, 0, 0,
    0, 1, 0, 0, 0, 110, 97, 128, 0, 0, 0, 0, 0, 0, 1, 184]]"
  by code_simp

lemma run_enrol_digest: "sha256 (AUTHORITY_DOMAIN @ [2] @ u32_le 1 @ run_policy @ u32_le 1 @ u32_le 1 @ lit ''n'' @ lit ''a'') = run_enrol"
  unfolding run_enrol_def
  by (rule sha256_by_blocks [OF _ run_enrol_blocks, unfolded foldl_Cons foldl_Nil run_enrol_hash1, OF _ refl])
    (simp add: usize_limit_def AUTHORITY_DOMAIN_def run_policy_def, code_simp)

lemma run_revoke_hash1: "sha_compress sha_init_h
   [85, 66, 70, 65, 85, 84, 72, 49, 3, 1, 0, 0, 0, 239, 137, 202,
    254, 10, 59, 62, 226, 218, 166, 135, 59, 235, 197, 3, 214, 86, 152, 145,
    105, 99, 252, 52, 44, 208, 239, 106, 228, 190, 43, 79, 68, 1, 0, 0,
    0, 1, 0, 0, 0, 110, 97, 128, 0, 0, 0, 0, 0, 0, 1, 184] =
   [0xE2205002, 0x00887541, 0x7D266747, 0x918B1EC7, 0xB4767F94, 0x5D271F09, 0xCF8AACFA, 0x3055D879]"
  by code_simp

text \<open>The subject that authorises its revocation.\<close>

definition run_revoke :: bytes where
  "run_revoke = [226, 32, 80, 2, 0, 136, 117, 65, 125, 38, 103, 71, 145, 139, 30, 199,
    180, 118, 127, 148, 93, 39, 31, 9, 207, 138, 172, 250, 48, 85, 216, 121]"

lemma run_revoke_blocks:
  "blocks64 (sha_pad (AUTHORITY_DOMAIN @ [3] @ u32_le 1 @ run_policy @ u32_le 1 @ u32_le 1 @ lit ''n'' @ lit ''a'')) =
    [[85, 66, 70, 65, 85, 84, 72, 49, 3, 1, 0, 0, 0, 239, 137, 202,
    254, 10, 59, 62, 226, 218, 166, 135, 59, 235, 197, 3, 214, 86, 152, 145,
    105, 99, 252, 52, 44, 208, 239, 106, 228, 190, 43, 79, 68, 1, 0, 0,
    0, 1, 0, 0, 0, 110, 97, 128, 0, 0, 0, 0, 0, 0, 1, 184]]"
  by code_simp

lemma run_revoke_digest: "sha256 (AUTHORITY_DOMAIN @ [3] @ u32_le 1 @ run_policy @ u32_le 1 @ u32_le 1 @ lit ''n'' @ lit ''a'') = run_revoke"
  unfolding run_revoke_def
  by (rule sha256_by_blocks [OF _ run_revoke_blocks, unfolded foldl_Cons foldl_Nil run_revoke_hash1, OF _ refl])
    (simp add: usize_limit_def AUTHORITY_DOMAIN_def run_policy_def, code_simp)

lemma run_bundle_hash1: "sha_compress sha_init_h
   [85, 66, 70, 66, 78, 68, 76, 49, 1, 0, 0, 0, 0, 0, 0, 0,
    1, 0, 0, 0, 0, 0, 0, 0, 239, 137, 202, 254, 10, 59, 62, 226,
    218, 166, 135, 59, 235, 197, 3, 214, 86, 152, 145, 105, 99, 252, 52, 44,
    208, 239, 106, 228, 190, 43, 79, 68, 0, 0, 0, 0, 0, 0, 0, 0] =
   [0x5EC1C1F3, 0x504E5D87, 0x9A6B1127, 0x80E64915, 0x484AAA50, 0x682BB83A, 0x5F20142B, 0xC069751E]"
  by code_simp

lemma run_bundle_hash2: "sha_compress [0x5EC1C1F3, 0x504E5D87, 0x9A6B1127, 0x80E64915, 0x484AAA50, 0x682BB83A, 0x5F20142B, 0xC069751E]
   [0, 0, 0, 0, 0, 0, 0, 0, 0, 0, 0, 0, 0, 0, 0, 0,
    0, 0, 0, 0, 0, 0, 0, 0, 5, 5, 5, 5, 5, 5, 5, 5,
    5, 5, 5, 5, 5, 5, 5, 5, 5, 5, 5, 5, 5, 5, 5, 5,
    5, 5, 5, 5, 5, 5, 5, 5, 1, 0, 0, 0, 110, 128, 0, 0] =
   [0x6D498375, 0x61687F63, 0x51CF53B1, 0xEF0CB56E, 0x4D062419, 0x8B03A156, 0xD3127204, 0xABCB47F8]"
  by code_simp

lemma run_bundle_hash3: "sha_compress [0x6D498375, 0x61687F63, 0x51CF53B1, 0xEF0CB56E, 0x4D062419, 0x8B03A156, 0xD3127204, 0xABCB47F8]
   [0, 0, 0, 0, 0, 0, 0, 0, 0, 0, 0, 0, 0, 0, 0, 0,
    0, 0, 0, 0, 0, 0, 0, 0, 0, 0, 0, 0, 0, 0, 0, 0,
    0, 0, 0, 0, 0, 0, 0, 0, 0, 0, 0, 0, 0, 0, 0, 0,
    0, 0, 0, 0, 0, 0, 0, 0, 0, 0, 0, 0, 0, 0, 3, 232] =
   [0x26620469, 0xB154C925, 0x88F8A24A, 0xAF2CBA7D, 0xBDCFEAD9, 0xF560EABA, 0xCC112582, 0x34E1D4EB]"
  by code_simp

text \<open>The subject that approves the bundle.\<close>

definition run_bundle :: bytes where
  "run_bundle = [38, 98, 4, 105, 177, 84, 201, 37, 136, 248, 162, 74, 175, 44, 186, 125,
    189, 207, 234, 217, 245, 96, 234, 186, 204, 17, 37, 130, 52, 225, 212, 235]"

lemma run_bundle_blocks:
  "blocks64 (sha_pad (BUNDLE_DOMAIN @ u64_le 1 @ u64_le 1 @ run_policy @ replicate 32 0 @ replicate 32 5
     @ u32_le 1 @ lit ''n'')) =
    [[85, 66, 70, 66, 78, 68, 76, 49, 1, 0, 0, 0, 0, 0, 0, 0,
    1, 0, 0, 0, 0, 0, 0, 0, 239, 137, 202, 254, 10, 59, 62, 226,
    218, 166, 135, 59, 235, 197, 3, 214, 86, 152, 145, 105, 99, 252, 52, 44,
    208, 239, 106, 228, 190, 43, 79, 68, 0, 0, 0, 0, 0, 0, 0, 0],
     [0, 0, 0, 0, 0, 0, 0, 0, 0, 0, 0, 0, 0, 0, 0, 0,
    0, 0, 0, 0, 0, 0, 0, 0, 5, 5, 5, 5, 5, 5, 5, 5,
    5, 5, 5, 5, 5, 5, 5, 5, 5, 5, 5, 5, 5, 5, 5, 5,
    5, 5, 5, 5, 5, 5, 5, 5, 1, 0, 0, 0, 110, 128, 0, 0],
     [0, 0, 0, 0, 0, 0, 0, 0, 0, 0, 0, 0, 0, 0, 0, 0,
    0, 0, 0, 0, 0, 0, 0, 0, 0, 0, 0, 0, 0, 0, 0, 0,
    0, 0, 0, 0, 0, 0, 0, 0, 0, 0, 0, 0, 0, 0, 0, 0,
    0, 0, 0, 0, 0, 0, 0, 0, 0, 0, 0, 0, 0, 0, 3, 232]]"
  by code_simp

lemma run_bundle_digest: "sha256 (BUNDLE_DOMAIN @ u64_le 1 @ u64_le 1 @ run_policy @ replicate 32 0 @ replicate 32 5
     @ u32_le 1 @ lit ''n'') = run_bundle"
  unfolding run_bundle_def
  by (rule sha256_by_blocks [OF _ run_bundle_blocks, unfolded foldl_Cons foldl_Nil run_bundle_hash1 run_bundle_hash2 run_bundle_hash3, OF _ refl])
    (simp add: usize_limit_def BUNDLE_DOMAIN_def run_policy_def, code_simp)

lemma run_prov_subject_hash1: "sha_compress sha_init_h
   [85, 66, 80, 82, 83, 85, 66, 49, 1, 1, 0, 0, 0, 0, 0, 0,
    0, 1, 0, 110, 1, 0, 111, 1, 0, 107, 1, 0, 0, 0, 0, 0,
    0, 0, 1, 0, 97, 1, 1, 1, 1, 1, 1, 1, 1, 1, 1, 1,
    1, 1, 1, 1, 1, 1, 1, 1, 1, 1, 1, 1, 1, 1, 1, 1] =
   [0x950BF84A, 0xFD2F80A2, 0xEB0A7EEF, 0x51B6C00C, 0xD853E4D1, 0x969AF091, 0x9C588838, 0x93CAFCC9]"
  by code_simp

lemma run_prov_subject_hash2: "sha_compress [0x950BF84A, 0xFD2F80A2, 0xEB0A7EEF, 0x51B6C00C, 0xD853E4D1, 0x969AF091, 0x9C588838, 0x93CAFCC9]
   [1, 1, 1, 1, 1, 2, 2, 2, 2, 2, 2, 2, 2, 2, 2, 2,
    2, 2, 2, 2, 2, 2, 2, 2, 2, 2, 2, 2, 2, 2, 2, 2,
    2, 2, 2, 2, 2, 3, 3, 3, 3, 3, 3, 3, 3, 3, 3, 3,
    3, 3, 3, 3, 3, 3, 3, 3, 3, 3, 3, 3, 3, 3, 3, 3] =
   [0xCCB95A7E, 0x1AC0B176, 0x94650D68, 0xFB32A5CF, 0xC2A6B96E, 0x9277DEE0, 0x69BBC22B, 0xD39D9485]"
  by code_simp

lemma run_prov_subject_hash3: "sha_compress [0xCCB95A7E, 0x1AC0B176, 0x94650D68, 0xFB32A5CF, 0xC2A6B96E, 0x9277DEE0, 0x69BBC22B, 0xD39D9485]
   [3, 3, 3, 3, 3, 0, 0, 0, 0, 0, 0, 0, 0, 0, 0, 0,
    0, 0, 0, 0, 0, 0, 0, 0, 0, 0, 0, 0, 0, 0, 0, 0,
    0, 0, 0, 0, 0, 1, 0, 0, 0, 0, 0, 0, 0, 239, 137, 202,
    254, 10, 59, 62, 226, 218, 166, 135, 59, 235, 197, 3, 214, 86, 152, 145] =
   [0xA3F252C0, 0xF7ED0352, 0xEAD62BEB, 0x784FFEEA, 0x2DA1B302, 0xA1B70437, 0x0F348C64, 0x1F21E51C]"
  by code_simp

lemma run_prov_subject_hash4: "sha_compress [0xA3F252C0, 0xF7ED0352, 0xEAD62BEB, 0x784FFEEA, 0x2DA1B302, 0xA1B70437, 0x0F348C64, 0x1F21E51C]
   [105, 99, 252, 52, 44, 208, 239, 106, 228, 190, 43, 79, 68, 1, 0, 0,
    0, 0, 0, 0, 0, 5, 5, 5, 5, 5, 5, 5, 5, 5, 5, 5,
    5, 5, 5, 5, 5, 5, 5, 5, 5, 5, 5, 5, 5, 5, 5, 5,
    5, 5, 5, 5, 5, 0, 0, 0, 0, 128, 0, 0, 0, 0, 0, 0] =
   [0xE16A3D78, 0x2FA6DC56, 0x5B6FE25A, 0x5F3AA0C7, 0x042C8FBA, 0x48DBC5EF, 0x84173A9B, 0x9F32DA61]"
  by code_simp

lemma run_prov_subject_hash5: "sha_compress [0xE16A3D78, 0x2FA6DC56, 0x5B6FE25A, 0x5F3AA0C7, 0x042C8FBA, 0x48DBC5EF, 0x84173A9B, 0x9F32DA61]
   [0, 0, 0, 0, 0, 0, 0, 0, 0, 0, 0, 0, 0, 0, 0, 0,
    0, 0, 0, 0, 0, 0, 0, 0, 0, 0, 0, 0, 0, 0, 0, 0,
    0, 0, 0, 0, 0, 0, 0, 0, 0, 0, 0, 0, 0, 0, 0, 0,
    0, 0, 0, 0, 0, 0, 0, 0, 0, 0, 0, 0, 0, 0, 7, 200] =
   [0xEF8F2861, 0xE136C3E8, 0x653C6B4D, 0x4508B80F, 0x5D232B2E, 0x76875657, 0x7AB356FE, 0xC6688521]"
  by code_simp

text \<open>The subject of the provenance event.\<close>

definition run_prov_subject :: bytes where
  "run_prov_subject = [239, 143, 40, 97, 225, 54, 195, 232, 101, 60, 107, 77, 69, 8, 184, 15,
    93, 35, 43, 46, 118, 135, 86, 87, 122, 179, 86, 254, 198, 104, 133, 33]"

lemma run_prov_subject_blocks:
  "blocks64 (sha_pad (lit ''UBPRSUB1'' @ [1] @ u64_le 1 @ u16_le 1 @ lit ''n'' @ u16_le 1 @ lit ''o'' @ u16_le 1 @ lit ''k''
     @ u64_le 1 @ u16_le 1 @ lit ''a'' @ replicate 32 1 @ replicate 32 2 @ replicate 32 3 @ replicate 32 0 @ u64_le 1 @ run_policy
     @ u64_le 1 @ replicate 32 5 @ u32_le 0)) =
    [[85, 66, 80, 82, 83, 85, 66, 49, 1, 1, 0, 0, 0, 0, 0, 0,
    0, 1, 0, 110, 1, 0, 111, 1, 0, 107, 1, 0, 0, 0, 0, 0,
    0, 0, 1, 0, 97, 1, 1, 1, 1, 1, 1, 1, 1, 1, 1, 1,
    1, 1, 1, 1, 1, 1, 1, 1, 1, 1, 1, 1, 1, 1, 1, 1],
     [1, 1, 1, 1, 1, 2, 2, 2, 2, 2, 2, 2, 2, 2, 2, 2,
    2, 2, 2, 2, 2, 2, 2, 2, 2, 2, 2, 2, 2, 2, 2, 2,
    2, 2, 2, 2, 2, 3, 3, 3, 3, 3, 3, 3, 3, 3, 3, 3,
    3, 3, 3, 3, 3, 3, 3, 3, 3, 3, 3, 3, 3, 3, 3, 3],
     [3, 3, 3, 3, 3, 0, 0, 0, 0, 0, 0, 0, 0, 0, 0, 0,
    0, 0, 0, 0, 0, 0, 0, 0, 0, 0, 0, 0, 0, 0, 0, 0,
    0, 0, 0, 0, 0, 1, 0, 0, 0, 0, 0, 0, 0, 239, 137, 202,
    254, 10, 59, 62, 226, 218, 166, 135, 59, 235, 197, 3, 214, 86, 152, 145],
     [105, 99, 252, 52, 44, 208, 239, 106, 228, 190, 43, 79, 68, 1, 0, 0,
    0, 0, 0, 0, 0, 5, 5, 5, 5, 5, 5, 5, 5, 5, 5, 5,
    5, 5, 5, 5, 5, 5, 5, 5, 5, 5, 5, 5, 5, 5, 5, 5,
    5, 5, 5, 5, 5, 0, 0, 0, 0, 128, 0, 0, 0, 0, 0, 0],
     [0, 0, 0, 0, 0, 0, 0, 0, 0, 0, 0, 0, 0, 0, 0, 0,
    0, 0, 0, 0, 0, 0, 0, 0, 0, 0, 0, 0, 0, 0, 0, 0,
    0, 0, 0, 0, 0, 0, 0, 0, 0, 0, 0, 0, 0, 0, 0, 0,
    0, 0, 0, 0, 0, 0, 0, 0, 0, 0, 0, 0, 0, 0, 7, 200]]"
  by code_simp

lemma run_prov_subject_digest: "sha256 (lit ''UBPRSUB1'' @ [1] @ u64_le 1 @ u16_le 1 @ lit ''n'' @ u16_le 1 @ lit ''o'' @ u16_le 1 @ lit ''k''
     @ u64_le 1 @ u16_le 1 @ lit ''a'' @ replicate 32 1 @ replicate 32 2 @ replicate 32 3 @ replicate 32 0 @ u64_le 1 @ run_policy
     @ u64_le 1 @ replicate 32 5 @ u32_le 0) = run_prov_subject"
  unfolding run_prov_subject_def
  by (rule sha256_by_blocks [OF _ run_prov_subject_blocks, unfolded foldl_Cons foldl_Nil run_prov_subject_hash1 run_prov_subject_hash2 run_prov_subject_hash3 run_prov_subject_hash4 run_prov_subject_hash5, OF _ refl])
    (simp add: usize_limit_def run_policy_def, code_simp)

end
