(* ===== verification/Ub_Trust_Demo.thy ===== *)
theory Ub_Trust_Demo
  imports Ub_Trust_System Ub_Trust_Hashes
begin

text \<open>
  A concrete run of the trust ledgers: one key is enrolled, five authorisations are signed, a
  namespace gets a policy and an authority, a bundle is accepted, the authority is revoked, and a
  version of an object is recorded under the accepted bundle.
  The check of signatures accepts one fixed signature. The theorems of the trust ledgers are
  applied to this run.
\<close>


subsection \<open>A key\<close>

text \<open>The check accepts one signature, and a provider with one key makes it.\<close>

definition run_signature :: bytes where "run_signature = replicate 64 6"

definition run_check :: signature_check where
  "run_check blob digest sig = Inr (sig = run_signature)"

definition run_provider :: signing_provider where
  "run_provider = \<lparr>sp_capabilities = \<lparr>pc_provider_name = lit ''p'', pc_provider_class = Software, pc_available = True,
       pc_persistent_keys = True, pc_private_export_rejected = True, pc_hardware_bound = False, pc_tpm_used = False,
       pc_evidence_digest = replicate 32 0\<rparr>,
     sp_create_key = (\<lambda>n. Inr \<lparr>km_provider_name = lit ''p'', km_provider_key_name = n, km_public_blob = run_blob,
       km_private_export_rejected = True\<rparr>),
     sp_export_public = (\<lambda>n. Inr run_blob), sp_sign = (\<lambda>n d. Inr run_signature), sp_verify = run_check\<rparr>"

definition run_event :: key_event where
  "run_event = key_event_of Key_Enroll 1 1 1 (lit ''a'') (lit ''p'') (lit ''a'') run_blob run_public (replicate 32 0)
     run_subject (replicate 64 0) run_signature (lit ''n'')"

definition run_registry :: "path \<Rightarrow> key_registry" where
  "run_registry p = registry_push (registry_empty p) (key_event_placed (registry_empty p) run_event, 1)"

definition run_key :: key_state where
  "run_key = \<lparr>ks_key_id = lit ''a'', ks_provider_name = lit ''p'', ks_provider_key_name = lit ''a'', ks_role_mask = 1,
     ks_generation = 1, ks_public_blob = run_blob, ks_public_key_digest = run_public, ks_active = True,
     ks_last_event_sequence = 1\<rparr>"

lemma run_identifiers: "identifier_ok (lit ''a'')" "identifier_ok (lit ''p'')" "identifier_ok (lit ''n'')"
  "utf8_valid (lit ''a'')" "utf8_valid (lit ''p'')" "utf8_valid (lit ''n'')"
  by (code_simp+)

lemma run_validates [simp]: "identifier_ok s \<Longrightarrow> validate_identifier n s = Inr ()"
  by (simp add: validate_identifier_iff)

lemma run_nonzero: "run_public \<noteq> replicate 32 0" "run_head \<noteq> replicate 32 0" "run_policy \<noteq> replicate 32 0"
  "run_policy_subject \<noteq> replicate 32 0" "run_enrol \<noteq> replicate 32 0" "run_revoke \<noteq> replicate 32 0"
  "run_bundle \<noteq> replicate 32 0" "run_signature \<noteq> replicate 64 0" "run_prov_subject \<noteq> replicate 32 0"
  by (code_simp+)

lemma run_lengths [simp]: "length run_blob = 72" "length run_public = 32" "length run_subject = 32" "length run_head = 32"
  "length run_policy = 32" "length run_policy_subject = 32" "length run_enrol = 32" "length run_revoke = 32"
  "length run_bundle = 32" "length run_signature = 64" "length run_name = 32" "length run_prov_subject = 32"
  by (simp_all add: run_blob_def run_public_def run_subject_def run_head_def run_policy_def run_policy_subject_def run_enrol_def
      run_revoke_def run_bundle_def run_signature_def run_name_def run_prov_subject_def)

lemma run_blob_valid: "validate_public_blob run_blob = Inr ()"
  by (simp add: validate_public_blob_def run_blob_def ECDSA_P256_PUBLIC_BLOB_BYTES_def slice_def Let_def)

lemma run_verifies: "verify_digest run_check run_blob d run_signature = Inr True"
  by (simp add: verify_digest_def run_blob_valid run_check_def)

lemma run_subject_ok: "registry_event_subject_digest Key_Enroll 1 1 1 (lit ''a'') (lit ''p'') (lit ''a'') run_public (replicate 32 0)
    (lit ''n'') = Inr run_subject"
  using run_subject_digest run_nonzero(1) run_identifiers by (simp add: registry_event_subject_digest_def)

lemma run_event_ok: "registry_acceptable run_check (registry_empty p) run_event" "key_event_typed run_event" "proof_flag run_event = 1"
proof -
  show "registry_acceptable run_check (registry_empty p) run_event"
    unfolding registry_acceptable_def validate_key_event_def
    using run_identifiers run_nonzero(8) run_public_digest
    by (simp add: run_event_def key_event_of_def run_blob_valid run_subject_ok run_verifies)
  show "key_event_typed run_event" "proof_flag run_event = 1"
    using run_identifiers by (simp_all add: run_event_def key_event_of_def key_event_typed_def proof_flag_def)
qed

lemma run_payload: "sha256 (key_payload 1 run_event) = run_payload"
  using run_payload_digest run_name_digest
  by (simp add: key_payload_def run_event_def key_event_of_def run_signature_def)

lemma run_placed_head: "ke_frame_digest (key_event_placed (registry_empty p) run_event) = run_head"
  using run_head_digest
  by (simp add: key_event_placed_def run_event_ok(3) run_payload compute_frame_digest_def zero_digest_def)

lemma run_registry_facts:
  "kr_path (run_registry p) = p" "kr_head_digest (run_registry p) = run_head" "length (kr_events (run_registry p)) = 1"
  "bt_get (kr_states (run_registry p)) (lit ''a'') = Some run_key" "heads_distinct (run_registry p)"
  "state_at_head (run_registry p) run_head (lit ''a'') = Some run_key"
proof -
  let ?e = "key_event_placed (registry_empty p) run_event"
  have a: "apply_key_event (kr_states (registry_empty p)) ?e = Inr (bt_insert (lit ''a'') run_key [])"
    by (simp add: apply_key_event_def key_event_placed_def run_event_def key_event_of_def run_key_def)
  then have r: "run_registry p = registry_record (registry_empty p) (bt_insert (lit ''a'') run_key []) ?e"
    by (simp add: run_registry_def registry_push_def)
  show "kr_path (run_registry p) = p" "kr_head_digest (run_registry p) = run_head" "length (kr_events (run_registry p)) = 1"
    "bt_get (kr_states (run_registry p)) (lit ''a'') = Some run_key" "heads_distinct (run_registry p)"
    "state_at_head (run_registry p) run_head (lit ''a'') = Some run_key"
    using run_nonzero(2)
    by (simp_all add: r run_placed_head heads_distinct_def state_at_head_def bt_get_insert zero_digest_def)
qed

lemma run_provider_facts [simp]:
  "enforce_provider_requirement run_provider SoftwareAllowed = Inr (sp_capabilities run_provider)"
  "pc_provider_name (sp_capabilities run_provider) = lit ''p''"
  "sp_create_key run_provider n = Inr \<lparr>km_provider_name = lit ''p'', km_provider_key_name = n, km_public_blob = run_blob,
     km_private_export_rejected = True\<rparr>"
  "sp_export_public run_provider n = Inr run_blob" "sp_sign run_provider n d = Inr run_signature"
  "sp_verify run_provider blob d run_signature = Inr True"
  by (simp_all add: enforce_provider_requirement_def satisfies_def run_provider_def run_check_def)

lemma run_enrols:
  assumes "fget fs p = Some old"
  shows "\<exists>rc. registry_handle run_check (Enroll_With run_provider SoftwareAllowed (lit ''a'') 1 (lit ''a'') 1 (lit ''n'')) (registry_empty p) fs =
     (Inr rc, run_registry p, fput p (old @ event_bytes REGISTRY_MAGIC key_frame (key_event_placed (registry_empty p) run_event, 1)) fs)"
  using registry_append_ok [OF run_event_ok(1,2), of fs p old] assms run_identifiers
  by (simp add: enroll_new_key_with_provider_def registry_submit_def run_blob_valid run_public_digest
      run_subject_ok run_event_ok(3) run_registry_def Let_def flip: run_event_def)



subsection \<open>Runs\<close>

lemma reachable_star:
  assumes "step\<^sup>*\<^sup>* s s'" and "reachable init step s"
  shows "reachable init step s'"
  using assms by (induction rule: rtranclp_induct) (auto intro: reach_step)

lemma event_bytes_length:
  "length magic = 8 \<Longrightarrow> length (cf_previous (f e)) = 32 \<Longrightarrow> length (cf_digest (f e)) = 32 \<Longrightarrow>
   length (event_bytes magic f e) = 144 + length (cf_payload (f e))"
  by (simp add: event_bytes_def entry_bytes_def chain_header_def Let_def)

text \<open>A file that has room for a few more frames.\<close>

definition roomy :: "nat \<Rightarrow> bytes \<Rightarrow> bool" where
  "roomy n bs \<longleftrightarrow> length bs \<le> n * 20000000"

lemma roomy_limit: "roomy n bs \<Longrightarrow> n \<le> 1000 \<Longrightarrow> length bs < usize_limit"
  by (simp add: roomy_def usize_limit_def)

lemma run_registry_step:
  assumes "fget fs p = Some old" and "roomy n old" and "n < 1000"
  shows "\<exists>new. registry_step run_check (registry_empty p, fs) (run_registry p, fput p new fs) \<and> roomy (Suc n) new"
proof -
  let ?ev = "(key_event_placed (registry_empty p) run_event, 1 :: u8)"
  obtain rc where h: "registry_handle run_check (Enroll_With run_provider SoftwareAllowed (lit ''a'') 1 (lit ''a'') 1 (lit ''n''))
      (registry_empty p) fs = (Inr rc, run_registry p, fput p (old @ event_bytes REGISTRY_MAGIC key_frame ?ev) fs)"
    using run_enrols [OF assms(1)] by blast
  have "length (event_bytes REGISTRY_MAGIC key_frame ?ev) = 144 + 404"
    by (subst event_bytes_length)
      (simp_all add: key_frame_def key_event_placed_def run_placed_head [unfolded key_event_placed_def] key_payload_def run_event_def key_event_of_def)
  then have new: "roomy (Suc n) (old @ event_bytes REGISTRY_MAGIC key_frame ?ev)" using assms(2) by (simp add: roomy_def)
  have "registry_step run_check (registry_empty p, fs) (run_registry p, fput p (old @ event_bytes REGISTRY_MAGIC key_frame ?ev) fs)"
    using run_identifiers roomy_limit [OF new] assms(3)
    by (intro registry_handles [OF _ h]) (auto simp: provider_typed_def run_provider_def)
  with new show ?thesis by blast
qed

subsection \<open>Authorisations\<close>

definition run_authorization :: "u8 \<Rightarrow> u64 \<Rightarrow> str \<Rightarrow> bytes \<Rightarrow> authorization" where
  "run_authorization d t nonce s = authorization_of d 1 t (lit ''a'') nonce s run_head run_public
     (sha256 (AUTHORIZATION_DOMAIN @ [d, 1] @ u16_le 1 @ s @ run_head @ run_public @ u64_le t @ u32_le 1
        @ u32_le (of_nat (length nonce)) @ lit ''a'' @ nonce)) run_signature"

definition run_request_ok :: "u8 \<Rightarrow> u64 \<Rightarrow> str \<Rightarrow> bytes \<Rightarrow> bool" where
  "run_request_ok d t nonce s \<longleftrightarrow> d \<noteq> 0 \<and> t \<noteq> 0 \<and> identifier_ok nonce \<and> utf8_valid nonce \<and> length s = 32 \<and> s \<noteq> replicate 32 0"

lemma run_message:
  "run_request_ok d t nonce s \<Longrightarrow> authorization_message_digest d 1 s run_head run_public t (lit ''a'') nonce =
     Inr (au_authorization_digest (run_authorization d t nonce s))"
  using run_identifiers run_nonzero(1,2)
  by (simp add: authorization_message_digest_def run_authorization_def authorization_of_def run_request_ok_def)

lemma run_authorization_ok:
  assumes "run_request_ok d t nonce s"
  shows "verify_event run_check (run_authorization d t nonce s) (run_registry p) = Inr True" and "auth_typed (run_authorization d t nonce s)"
proof -
  show "verify_event run_check (run_authorization d t nonce s) (run_registry p) = Inr True"
    unfolding verify_event_iff
    using assms run_message [OF assms] run_identifiers run_nonzero run_registry_facts(6) [of p]
    by (simp add: run_request_ok_def run_authorization_def authorization_of_def run_key_def has_role_def run_verifies)
  show "auth_typed (run_authorization d t nonce s)"
    using assms run_identifiers
    by (simp add: run_request_ok_def run_authorization_def authorization_of_def auth_typed_def authorization_event_id_def)
qed

definition run_authorize :: "authorization_ledger \<Rightarrow> u8 \<times> u64 \<times> str \<times> bytes \<Rightarrow> authorization_ledger" where
  "run_authorize l x = (case x of (d, t, nonce, s) \<Rightarrow> auth_record l (auth_stamped l (run_authorization d t nonce s)))"

lemma run_auth_step:
  assumes q: "run_request_ok d t nonce s" and t: "al_last_timestamp l < t" and n: "(lit ''a'', nonce) \<notin> set (al_used_nonces l)"
    and hd: "length (al_head_digest l) = 32" and old: "fget fs (al_path l) = Some old" "roomy k old" "k < 1000"
  shows "\<exists>new. auth_step run_check (run_registry p, l, fs) (run_registry p, run_authorize l (d, t, nonce, s), fput (al_path l) new fs) \<and>
     roomy (Suc k) new"
proof -
  let ?a = "run_authorization d t nonce s"
  let ?new = "old @ event_bytes AUTH_LEDGER_MAGIC auth_frame (auth_stamped l ?a)"
  note v = run_authorization_ok [OF q]
  have f: "au_logical_timestamp ?a = t" "au_key_id ?a = lit ''a''" "au_nonce ?a = nonce"
    by (simp_all add: run_authorization_def authorization_of_def)
  have "auth_acceptable run_check (run_registry p) l ?a" using v(1) t n f by (simp add: auth_acceptable_def)
  note ap = auth_append_ok [OF this v(2) old(1)]
  have "authorization_of d 1 t (lit ''a'') nonce s run_head run_public (au_authorization_digest ?a) run_signature = ?a"
    by (simp add: run_authorization_def authorization_of_def)
  then have h: "\<exists>rc. auth_handle run_check (run_registry p) (Authorize_With run_provider SoftwareAllowed d 1 s (lit ''a'') (lit ''a'') t nonce) l fs
      = (Inr rc, auth_record l (auth_stamped l ?a), fput (al_path l) ?new fs)"
    using ap q run_identifiers run_message [OF q]
    by (simp add: authorize_with_provider_def auth_submit_def run_request_ok_def run_registry_facts run_key_def has_role_def run_public_digest)
  have "auth_fits ?a" by (rule verified_fits [OF v])
  from length_auth_payload [OF this] have "length (auth_payload ?a) \<le> 2000"
    using verified_identifiers [OF v(1)] f by (simp add: identifier_ok_def lit_def)
  then have "length (event_bytes AUTH_LEDGER_MAGIC auth_frame (auth_stamped l ?a)) \<le> 5000"
    using hd by (subst event_bytes_length) (simp_all add: auth_frame_def auth_stamped_def)
  then have new: "roomy (Suc k) ?new" using old(2) by (simp add: roomy_def)
  have "auth_request_typed (Authorize_With run_provider SoftwareAllowed d 1 s (lit ''a'') (lit ''a'') t nonce)"
    using q run_identifiers by (simp add: run_request_ok_def provider_typed_def run_provider_def)
  moreover from h obtain rc where "auth_handle run_check (run_registry p)
      (Authorize_With run_provider SoftwareAllowed d 1 s (lit ''a'') (lit ''a'') t nonce) l fs
      = (Inr rc, auth_record l (auth_stamped l ?a), fput (al_path l) ?new fs)" by blast
  ultimately have "auth_step run_check (run_registry p, l, fs) (run_registry p, auth_record l (auth_stamped l ?a), fput (al_path l) ?new fs)"
    by (rule auth_handles) (use roomy_limit [OF new] old(3) in auto)
  with new show ?thesis by (auto simp: run_authorize_def)
qed



lemma run_auth_steps:
  assumes "list_all (\<lambda>(d, t, nonce, s). run_request_ok d t nonce s) xs"
    and "sorted_wrt (<) (al_last_timestamp l # map (\<lambda>x. fst (snd x)) xs)"
    and "distinct (map (\<lambda>x. fst (snd (snd x))) xs)" and "\<forall>x \<in> set xs. (lit ''a'', fst (snd (snd x))) \<notin> set (al_used_nonces l)"
    and "length (al_head_digest l) = 32" and "fget fs (al_path l) = Some old" and "roomy k old" and "k + length xs < 1000"
  shows "\<exists>fs' new. (auth_step run_check)\<^sup>*\<^sup>* (run_registry p, l, fs) (run_registry p, foldl run_authorize l xs, fs') \<and>
     fget fs' (al_path l) = Some new \<and> roomy (k + length xs) new \<and> (\<forall>q. q \<noteq> al_path l \<longrightarrow> fget fs' q = fget fs q)"
  using assms
proof (induction xs arbitrary: l fs old k)
  case (Cons x xs)
  obtain d t nonce s where x: "x = (d, t, nonce, s)" by (metis prod_cases4)
  let ?l = "run_authorize l x"
  obtain new where st: "auth_step run_check (run_registry p, l, fs) (run_registry p, ?l, fput (al_path l) new fs)"
    and new: "roomy (Suc k) new"
    using run_auth_step [of d t nonce s l fs old k p] Cons.prems by (auto simp: x)
  have l: "al_path ?l = al_path l" "al_last_timestamp ?l = t" "length (al_head_digest ?l) = 32"
    "set (al_used_nonces ?l) = insert (lit ''a'', nonce) (set (al_used_nonces l))"
    by (simp_all add: run_authorize_def x auth_stamped_def run_authorization_def authorization_of_def)
  have "\<exists>fs' new'. (auth_step run_check)\<^sup>*\<^sup>* (run_registry p, ?l, fput (al_path l) new fs) (run_registry p, foldl run_authorize ?l xs, fs') \<and>
      fget fs' (al_path ?l) = Some new' \<and> roomy (Suc k + length xs) new' \<and>
      (\<forall>q. q \<noteq> al_path ?l \<longrightarrow> fget fs' q = fget (fput (al_path l) new fs) q)"
    by (rule Cons.IH) (use Cons.prems new l in \<open>auto simp: x\<close>)
  then show ?case using st l(1) by (auto simp: x intro: converse_rtranclp_into_rtranclp)
qed auto

definition run_requests :: "(u8 \<times> u64 \<times> str \<times> bytes) list" where
  "run_requests = [(4, 1, lit ''1'', run_policy_subject), (4, 2, lit ''2'', run_enrol), (8, 3, lit ''3'', run_bundle),
     (7, 4, lit ''4'', run_revoke), (9, 5, lit ''5'', run_prov_subject)]"

definition run_auths :: "path \<Rightarrow> authorization_ledger" where
  "run_auths q = foldl run_authorize (authorizations_empty q) run_requests"

lemma run_requests_ok:
  "list_all (\<lambda>(d, t, nonce, s). run_request_ok d t nonce s) run_requests"
  "distinct (map (\<lambda>x. fst (snd (snd x))) run_requests)"
proof -
  have "identifier_ok (lit ''1'')" "identifier_ok (lit ''2'')" "identifier_ok (lit ''3'')" "identifier_ok (lit ''4'')" "identifier_ok (lit ''5'')"
    "utf8_valid (lit ''1'')" "utf8_valid (lit ''2'')" "utf8_valid (lit ''3'')" "utf8_valid (lit ''4'')" "utf8_valid (lit ''5'')"
    by (code_simp+)
  with run_nonzero show "list_all (\<lambda>(d, t, nonce, s). run_request_ok d t nonce s) run_requests"
    by (simp add: run_requests_def run_request_ok_def)
  show "distinct (map (\<lambda>x. fst (snd (snd x))) run_requests)" by (simp add: run_requests_def lit_def)
qed

lemma run_auths_steps:
  assumes "fget fs q = Some []"
  shows "\<exists>fs'. (auth_step run_check)\<^sup>*\<^sup>* (run_registry p, authorizations_empty q, fs) (run_registry p, run_auths q, fs') \<and>
     (\<forall>x. x \<noteq> q \<longrightarrow> fget fs' x = fget fs x)"
proof -
  have "roomy 0 ([] :: bytes)" by (simp add: roomy_def)
  with run_auth_steps [OF run_requests_ok(1) _ run_requests_ok(2), of "authorizations_empty q" fs "[]" 0 p] assms
  show ?thesis by (auto simp: run_auths_def run_requests_def)
qed

text \<open>The recorded authorisations, by their number.\<close>

definition run_reference :: "path \<Rightarrow> path \<Rightarrow> u64 \<Rightarrow> u8 \<Rightarrow> bytes \<Rightarrow> bool" where
  "run_reference p q i d s \<longleftrightarrow> (\<exists>au. find_authorization (run_auths q) i = Some au \<and> au_domain_code au = d \<and>
     au_required_role_mask au = 1 \<and> au_subject_digest au = s \<and> au_key_id au = lit ''a'' \<and> au_key_registry_head au = run_head \<and>
     verify_event run_check au (run_registry p) = Inr True)"

lemma run_stamped:
  "au_sequence (auth_stamped l e) = of_nat (length (al_events l)) + 1" "au_domain_code (auth_stamped l e) = au_domain_code e"
  "au_required_role_mask (auth_stamped l e) = au_required_role_mask e" "au_subject_digest (auth_stamped l e) = au_subject_digest e"
  "au_key_id (auth_stamped l e) = au_key_id e" "au_key_registry_head (auth_stamped l e) = au_key_registry_head e"
  "verify_event b (auth_stamped l e) r = verify_event b e r"
  by (simp_all add: auth_stamped_def)

lemma run_authorization_fields:
  "au_domain_code (run_authorization d t n s) = d" "au_required_role_mask (run_authorization d t n s) = 1"
  "au_subject_digest (run_authorization d t n s) = s" "au_key_id (run_authorization d t n s) = lit ''a''"
  "au_key_registry_head (run_authorization d t n s) = run_head"
  by (simp_all add: run_authorization_def authorization_of_def)

lemma run_references:
  "run_reference p q 1 4 run_policy_subject" "run_reference p q 2 4 run_enrol" "run_reference p q 3 8 run_bundle"
  "run_reference p q 4 7 run_revoke" "run_reference p q 5 9 run_prov_subject"
  using run_requests_ok(1) run_authorization_ok(1)
  by (simp_all add: run_reference_def run_auths_def run_requests_def run_authorize_def find_authorization_def run_stamped
      run_authorization_fields)



subsection \<open>A policy, an authority and a bundle\<close>

lemma run_reference_verified:
  assumes "run_reference p q i d s" and "k = None \<or> k = Some (lit ''a'')"
  shows "\<exists>au. verify_authorization_reference run_check (run_registry p) (run_auths q) i d 1 s k = Inr au \<and>
     au_key_id au = lit ''a'' \<and> au_key_registry_head au = run_head \<and> find_authorization (run_auths q) i = Some au"
  using assms by (auto simp: run_reference_def verified_reference)

definition run_namespace_policy :: namespace_policy where
  "run_namespace_policy = \<lparr>np_namespace = lit ''n'', np_policy_version = 1, np_controller_key_id = lit ''a'', np_controller_role_mask = 1,
     np_authority_role_mask = 1, np_quorum_weight = 1, np_provider_requirement = SoftwareAllowed, np_policy_digest = run_policy\<rparr>"

definition run_fed_event :: "federation_event_kind \<Rightarrow> u64 \<Rightarrow> str \<Rightarrow> u32 \<Rightarrow> u64 \<Rightarrow> bytes \<Rightarrow> bytes \<Rightarrow> u64 \<Rightarrow> u64 list \<Rightarrow> federation_event" where
  "run_fed_event kind t k w v bundle s ca qs =
     policy_event kind t (lit ''n'') k run_namespace_policy w v (replicate 32 0) bundle s ca qs"

definition run_fed_events :: "federation_event list" where
  "run_fed_events =
     [run_fed_event NamespacePolicySet 1 [] 0 0 (replicate 32 0) run_policy_subject 1 [],
      run_fed_event AuthorityEnroll 2 (lit ''a'') 1 0 (replicate 32 0) run_enrol 2 [],
      run_fed_event BundleAccept 3 [] 0 1 (replicate 32 5) run_bundle 0 [3],
      run_fed_event AuthorityRevoke 4 (lit ''a'') 1 0 (replicate 32 0) run_revoke 4 []]"

definition run_fed :: "path \<Rightarrow> path \<Rightarrow> nat \<Rightarrow> federation_ledger" where
  "run_fed x q n = foldl (\<lambda>l e. fed_push (run_auths q) l (fed_stamped l e, 0)) (fed_empty x) (take n run_fed_events)"

fun run_fed_request :: "nat \<Rightarrow> fed_request" where
  "run_fed_request 0 = Set_Policy (lit ''n'') 1 (lit ''a'') 1 1 1 SoftwareAllowed 1 1"
| "run_fed_request (Suc 0) = Enroll_Authority (lit ''n'') (lit ''a'') 1 2 2"
| "run_fed_request (Suc (Suc 0)) = Accept_Bundle (lit ''n'') 1 1 run_policy (replicate 32 0) (replicate 32 5) [3] 3"
| "run_fed_request (Suc (Suc (Suc _))) = Revoke_Authority (lit ''n'') (lit ''a'') 4 4"

lemma run_texts [simp]: "fed_validate_text n (lit ''n'') = Inr ()" "fed_validate_text n (lit ''a'') = Inr ()"
  by (simp_all add: fed_validate_text_def lit_def)

lemma run_digests:
  "namespace_policy_digest (lit ''n'') 1 (lit ''a'') 1 1 1 SoftwareAllowed = Inr run_policy"
  "namespace_policy_subject_digest run_policy = run_policy_subject"
  "authority_subject_digest AuthorityEnroll (lit ''n'') (lit ''a'') 1 run_policy = Inr run_enrol"
  "authority_subject_digest AuthorityRevoke (lit ''n'') (lit ''a'') 1 run_policy = Inr run_revoke"
  "bundle_subject_digest (lit ''n'') 1 1 run_policy (replicate 32 0) (replicate 32 5) = Inr run_bundle"
  using run_policy_digest run_policy_subject_digest run_enrol_digest run_revoke_digest run_bundle_digest run_nonzero(3)
  by (simp_all add: namespace_policy_digest_def namespace_policy_subject_digest_def authority_subject_digest_def bundle_subject_digest_def)

lemma run_fed_event_fits:
  "e \<in> set run_fed_events \<Longrightarrow> fed_fits e"
  using run_identifiers
  by (auto simp: run_fed_events_def run_fed_event_def policy_event_def run_namespace_policy_def fed_fits_def fed_digests_typed_def lit_def)

text \<open>The ledger after each event.\<close>

lemma fed_stamped_simps [simp]:
  "fe_kind (fed_stamped l e) = fe_kind e" "fe_namespace (fed_stamped l e) = fe_namespace e" "fe_key_id (fed_stamped l e) = fe_key_id e"
  "fe_weight (fed_stamped l e) = fe_weight e" "fe_logical_timestamp (fed_stamped l e) = fe_logical_timestamp e"
  "fe_policy_version (fed_stamped l e) = fe_policy_version e" "fe_controller_key_id (fed_stamped l e) = fe_controller_key_id e"
  "fe_controller_role_mask (fed_stamped l e) = fe_controller_role_mask e" "fe_authority_role_mask (fed_stamped l e) = fe_authority_role_mask e"
  "fe_quorum_weight (fed_stamped l e) = fe_quorum_weight e" "fe_provider_requirement (fed_stamped l e) = fe_provider_requirement e"
  "fe_policy_digest (fed_stamped l e) = fe_policy_digest e" "fe_bundle_version (fed_stamped l e) = fe_bundle_version e"
  "fe_bundle_digest (fed_stamped l e) = fe_bundle_digest e" "fe_approval_sequences (fed_stamped l e) = fe_approval_sequences e"
  "fe_controller_authorization_sequence (fed_stamped l e) = fe_controller_authorization_sequence e"
  "length (fe_frame_digest (fed_stamped l e)) = 32"
  by (simp_all add: fed_stamped_def)

lemma run_fed_count: "length run_fed_events = 4"
  by (simp add: run_fed_events_def)

lemma run_fed_Suc:
  "n < 4 \<Longrightarrow> run_fed x q (Suc n) = fed_push (run_auths q) (run_fed x q n) (fed_stamped (run_fed x q n) (run_fed_events ! n), 0)"
  using take_Suc_conv_app_nth [of n run_fed_events] by (simp add: run_fed_def run_fed_count)

lemma run_fed_path [simp]: "fl_path (run_fed x q n) = x"
proof -
  have "fl_path (foldl (\<lambda>l e. fed_push (run_auths q) l (fed_stamped l e, 0)) l es) = fl_path l" for l es
    by (induction es arbitrary: l) simp_all
  then show ?thesis by (simp add: run_fed_def)
qed

lemma run_fed_head: "length (fl_head_digest (run_fed x q n)) = 32"
proof -
  have "length (fl_head_digest (foldl (\<lambda>l e. fed_push (run_auths q) l (fed_stamped l e, 0)) l es)) = 32"
    if "length (fl_head_digest l) = 32" for l es
    using that by (induction es arbitrary: l) simp_all
  then show ?thesis by (simp add: run_fed_def)
qed

lemmas run_event_simps = run_fed_events_def run_fed_event_def policy_event_def run_namespace_policy_def

lemma run_fed_states:
  "fl_policies (run_fed x q 1) = [(lit ''n'', run_namespace_policy)]" "fl_policies (run_fed x q 2) = [(lit ''n'', run_namespace_policy)]"
  "fl_policies (run_fed x q 3) = [(lit ''n'', run_namespace_policy)]"
  "authority_active (run_fed x q 2) (lit ''n'') (lit ''a'')" "authority_active (run_fed x q 3) (lit ''n'') (lit ''a'')"
  "\<not> authority_active (run_fed x q 1) (lit ''n'') (lit ''a'')" "\<not> authority_active (run_fed x q 4) (lit ''n'') (lit ''a'')"
  "fl_accepted (run_fed x q 2) = []" "fl_used_authorization_ids (run_fed x q 2) = []"
  "fl_last_timestamp (run_fed x q 1) = 1" "fl_last_timestamp (run_fed x q 2) = 2" "fl_last_timestamp (run_fed x q 3) = 3"
  "map_option as_weight (bt_get (fl_authorities (run_fed x q 2)) (lit ''n'', lit ''a'')) = Some 1"
  "map_option as_weight (bt_get (fl_authorities (run_fed x q 3)) (lit ''n'', lit ''a'')) = Some 1"
proof -
  obtain au where au: "find_authorization (run_auths q) 3 = Some au" using run_references(3) [of "[]" q] by (auto simp: run_reference_def)
  note s = run_fed_def run_event_simps fed_push_def fed_apply_event_def authority_active_def bt_get_insert
    authorization_by_sequence_def au numeral_2_eq_2 numeral_3_eq_3 numeral_eq_Suc
  show "fl_policies (run_fed x q 1) = [(lit ''n'', run_namespace_policy)]" "fl_policies (run_fed x q 2) = [(lit ''n'', run_namespace_policy)]"
    by (simp_all add: s)
  show "authority_active (run_fed x q 2) (lit ''n'') (lit ''a'')" by (simp add: s)
  show "fl_policies (run_fed x q 3) = [(lit ''n'', run_namespace_policy)]" by (simp add: s)
  show "authority_active (run_fed x q 3) (lit ''n'') (lit ''a'')" by (simp add: s)
  show "\<not> authority_active (run_fed x q 1) (lit ''n'') (lit ''a'')" by (simp add: s)
  show "\<not> authority_active (run_fed x q 4) (lit ''n'') (lit ''a'')" by (simp add: s)
  show "fl_accepted (run_fed x q 2) = []" "fl_used_authorization_ids (run_fed x q 2) = []"
  "fl_last_timestamp (run_fed x q 1) = 1" "fl_last_timestamp (run_fed x q 2) = 2" "fl_last_timestamp (run_fed x q 3) = 3"
    by (simp_all add: s)
  show "map_option as_weight (bt_get (fl_authorities (run_fed x q 2)) (lit ''n'', lit ''a'')) = Some 1"
    "map_option as_weight (bt_get (fl_authorities (run_fed x q 3)) (lit ''n'', lit ''a'')) = Some 1" by (simp_all add: s)
qed



lemma run_head_state: "state_at_head (run_registry p) run_head (lit ''a'') = Some run_key" "ks_provider_name run_key = lit ''p''"
  "has_role run_key 1" "bt_get (kr_states (run_registry p)) (lit ''a'') = Some run_key" "(lit ''p'') \<noteq> []"
  by (rule run_registry_facts(6), simp add: run_key_def, simp add: run_key_def has_role_def, rule run_registry_facts(4),
    simp add: lit_def)

lemma run_fed_nth:
  "run_fed_events ! 2 = run_fed_event BundleAccept 3 [] 0 1 (replicate 32 5) run_bundle 0 [3]"
  "run_fed_events ! 3 = run_fed_event AuthorityRevoke 4 (lit ''a'') 1 0 (replicate 32 0) run_revoke 4 []"
  "run_fed_request 2 = Accept_Bundle (lit ''n'') 1 1 run_policy (replicate 32 0) (replicate 32 5) [3] 3"
  "run_fed_request 3 = Revoke_Authority (lit ''n'') (lit ''a'') 4 4"
  by (simp_all add: run_fed_events_def numeral_2_eq_2 numeral_3_eq_3)

lemma run_approval:
  assumes "l = run_fed x q 2" and "find_authorization (run_auths q) 3 = Some au" and "au_key_id au = lit ''a''"
    and "au_key_registry_head au = run_head"
    and "verify_authorization_reference run_check (run_registry p) (run_auths q) 3 8 1 run_bundle None = Inr au"
  shows "validate_approvals run_check (run_registry p) (run_auths q) l run_namespace_policy (lit ''n'') run_bundle [3] 0 [] [] 0 = Inr 1"
    and "accept_approvals run_check (run_registry p) (run_auths q) l run_namespace_policy (lit ''n'') run_bundle [3] 0 [] [] 0 = Inr 1"
proof -
  obtain st where st: "bt_get (fl_authorities l) (lit ''n'', lit ''a'') = Some st" "as_active st" "as_weight st = 1"
    using run_fed_states(4,13) [of x q] by (auto simp: assms(1) authority_active_def split: option.splits)
  note f = assms st run_head_state run_fed_states(9)
  have pol: "np_authority_role_mask run_namespace_policy = 1" "np_provider_requirement run_namespace_policy = SoftwareAllowed"
    by (simp_all add: run_namespace_policy_def)
  show "accept_approvals run_check (run_registry p) (run_auths q) l run_namespace_policy (lit ''n'') run_bundle [3] 0 [] [] 0 = Inr 1"
    using f by (simp add: DOMAIN_FEDERATION_BUNDLE_def pol usize_limit_def)
  show "validate_approvals run_check (run_registry p) (run_auths q) l run_namespace_policy (lit ''n'') run_bundle [3] 0 [] [] 0 = Inr 1"
    using f by (simp add: validate_approvals_Cons approval_ok_def authority_active_def authority_weight_def DOMAIN_FEDERATION_BUNDLE_def
        pol usize_limit_def)
qed

lemma run_fed_built:
  assumes "fget fs x = Some old" and "n < 4"
    and "fed_validate_event run_check (run_registry p) (run_auths q) (run_fed x q n) (run_fed_events ! n) = Inr ()"
    and "fl_last_timestamp (run_fed x q n) < fe_logical_timestamp (run_fed_events ! n)"
    and "fed_handle run_check (run_registry p) (run_auths q) (run_fed_request n) (run_fed x q n) fs =
       fed_append run_check (run_registry p) (run_auths q) (run_fed_events ! n) (run_fed x q n) fs"
  shows "\<exists>rc. fed_handle run_check (run_registry p) (run_auths q) (run_fed_request n) (run_fed x q n) fs =
     (Inr rc, run_fed x q (Suc n), fput x (old @ event_bytes FED_FILE_MAGIC fed_frame (fed_stamped (run_fed x q n) (run_fed_events ! n), 0)) fs)"
proof -
  have "fed_fits (run_fed_events ! n)" using run_fed_event_fits assms(2) run_fed_count by simp
  with assms(3,4) have "fed_acceptable run_check (run_registry p) (run_auths q) (run_fed x q n) (run_fed_events ! n)"
    by (simp add: fed_acceptable_def)
  from fed_append_ok [OF this, of fs old] assms(1,2,5) show ?thesis by (simp add: run_fed_Suc)
qed

lemma run_fed_handles:
  assumes "fget fs x = Some old" and "n < 4"
  shows "\<exists>rc. fed_handle run_check (run_registry p) (run_auths q) (run_fed_request n) (run_fed x q n) fs =
     (Inr rc, run_fed x q (Suc n), fput x (old @ event_bytes FED_FILE_MAGIC fed_frame (fed_stamped (run_fed x q n) (run_fed_events ! n), 0)) fs)"
proof (rule run_fed_built [OF assms])
  note refs = run_references [of p q, THEN run_reference_verified]
  note defs = fed_validate_event_def validate_policy_set_def validate_authority_enroll_def validate_authority_revoke_def
    validate_bundle_accept_def policy_for_event_def run_event_simps run_digests bundle_follows_def DOMAIN_POLICY_REGISTER_def
    DOMAIN_POLICY_REVOKE_def
  consider "n = 0" | "n = 1" | "n = 2" | "n = 3" using assms(2) by linarith
  then have "fed_validate_event run_check (run_registry p) (run_auths q) (run_fed x q n) (run_fed_events ! n) = Inr () \<and>
      fl_last_timestamp (run_fed x q n) < fe_logical_timestamp (run_fed_events ! n) \<and>
      fed_handle run_check (run_registry p) (run_auths q) (run_fed_request n) (run_fed x q n) fs =
        fed_append run_check (run_registry p) (run_auths q) (run_fed_events ! n) (run_fed x q n) fs"
  proof cases
    case 1
    obtain au where au: "verify_authorization_reference run_check (run_registry p) (run_auths q) 1 4 1 run_policy_subject (Some (lit ''a'')) = Inr au"
      "au_key_registry_head au = run_head" using refs(1) by blast
    have e: "run_fed x q 0 = fed_empty x" by (simp add: run_fed_def)
    show ?thesis unfolding 1 e using au run_head_state
      by (simp add: defs set_namespace_policy_def fed_submit_def Let_def)
  next
    case 2
    obtain au where au: "verify_authorization_reference run_check (run_registry p) (run_auths q) 2 4 1 run_enrol (Some (lit ''a'')) = Inr au"
      "au_key_registry_head au = run_head" using refs(2) by blast
    show ?thesis unfolding 2 using au run_head_state run_fed_states(1,6,10) [of x q]
      by (simp add: defs enroll_authority_def fed_submit_def Let_def)
  next
    case 3
    obtain au where au: "verify_authorization_reference run_check (run_registry p) (run_auths q) 3 8 1 run_bundle None = Inr au"
      "au_key_registry_head au = run_head" "au_key_id au = lit ''a''" "find_authorization (run_auths q) 3 = Some au" using refs(3) by blast
    note ap = run_approval [OF refl au(4,3,2,1), of x]
    show ?thesis unfolding 3 using ap run_fed_states(2,8,11) [of x q] run_nonzero(3)
      by (simp add: defs accept_bundle_def fed_submit_def run_fed_nth)
  next
    case 4
    obtain au where au: "verify_authorization_reference run_check (run_registry p) (run_auths q) 4 7 1 run_revoke (Some (lit ''a'')) = Inr au"
      using refs(4) by blast
    obtain st where st: "bt_get (fl_authorities (run_fed x q 3)) (lit ''n'', lit ''a'') = Some st" "as_active st" "as_weight st = 1"
      using run_fed_states(5,14) [of x q] by (auto simp: authority_active_def split: option.splits)
    show ?thesis unfolding 4 using au st run_fed_states(3,12) [of x q]
      by (simp add: defs revoke_authority_def fed_submit_def run_fed_nth)
  qed
  then show "fed_validate_event run_check (run_registry p) (run_auths q) (run_fed x q n) (run_fed_events ! n) = Inr ()"
    "fl_last_timestamp (run_fed x q n) < fe_logical_timestamp (run_fed_events ! n)"
    "fed_handle run_check (run_registry p) (run_auths q) (run_fed_request n) (run_fed x q n) fs =
        fed_append run_check (run_registry p) (run_auths q) (run_fed_events ! n) (run_fed x q n) fs" by blast+
qed



lemma run_fed_step:
  assumes "fget fs x = Some old" and "roomy k old" and "k < 1000" and "n < 4"
  shows "\<exists>new. fed_step run_check (run_fed x q n, run_registry p, run_auths q, fs)
       (run_fed x q (Suc n), run_registry p, run_auths q, fput x new fs) \<and> roomy (Suc k) new"
proof -
  let ?e = "fed_stamped (run_fed x q n) (run_fed_events ! n)"
  obtain rc where h: "fed_handle run_check (run_registry p) (run_auths q) (run_fed_request n) (run_fed x q n) fs =
      (Inr rc, run_fed x q (Suc n), fput x (old @ event_bytes FED_FILE_MAGIC fed_frame (?e, 0)) fs)"
    using run_fed_handles [OF assms(1,4)] by blast
  have "fed_fits (run_fed_events ! n)" using run_fed_event_fits assms(4) run_fed_count by simp
  from fed_payload_size [OF this, of 0] have "length (event_bytes FED_FILE_MAGIC fed_frame (?e, 0)) \<le> 20000000"
    using run_fed_head by (subst event_bytes_length) (simp_all add: fed_frame_def fed_stamped_def FED_MAX_PAYLOAD_def)
  then have new: "roomy (Suc k) (old @ event_bytes FED_FILE_MAGIC fed_frame (?e, 0))" using assms(2) by (simp add: roomy_def)
  have "fed_request_typed (run_fed_request n)"
    using run_identifiers by (cases n rule: run_fed_request.cases) simp_all
  from fed_handles [OF this h] roomy_limit [OF new] assms(3) new show ?thesis by auto
qed

lemma run_fed_steps:
  assumes "fget fs x = Some []" and "n \<le> 4"
  shows "\<exists>fs' new. (fed_step run_check)\<^sup>*\<^sup>* (fed_empty x, run_registry p, run_auths q, fs) (run_fed x q n, run_registry p, run_auths q, fs') \<and>
     fget fs' x = Some new \<and> roomy n new \<and> (\<forall>y. y \<noteq> x \<longrightarrow> fget fs' y = fget fs y)"
  using assms(2)
proof (induction n)
  case 0
  then show ?case using assms(1) by (auto simp: run_fed_def roomy_def)
next
  case (Suc n)
  then obtain fs' new where "(fed_step run_check)\<^sup>*\<^sup>* (fed_empty x, run_registry p, run_auths q, fs) (run_fed x q n, run_registry p, run_auths q, fs')"
    "fget fs' x = Some new" "roomy n new" "\<forall>y. y \<noteq> x \<longrightarrow> fget fs' y = fget fs y" by auto
  moreover from run_fed_step [OF this(2,3), of n q p] Suc.prems obtain new'
    where "fed_step run_check (run_fed x q n, run_registry p, run_auths q, fs') (run_fed x q (Suc n), run_registry p, run_auths q, fput x new' fs')"
      "roomy (Suc n) new'" by auto
  ultimately show ?case by (intro exI [of _ "fput x new' fs'"] exI [of _ new']) (auto intro: rtranclp.rtrancl_into_rtrancl)
qed

text \<open>A run of the inner ledgers is a run of the outer ones.\<close>

lemma lift_auth: "(auth_step b)\<^sup>*\<^sup>* s s' \<Longrightarrow> (fed_step b)\<^sup>*\<^sup>* (l, s) (l, s')"
proof (induction rule: rtranclp_induct)
  case (step s' s'')
  then show ?case by (cases s', cases s'') (auto intro: rtranclp.rtrancl_into_rtrancl auth_moves)
qed simp

lemma lift_fed: "(fed_step b)\<^sup>*\<^sup>* s s' \<Longrightarrow> (trust_step b)\<^sup>*\<^sup>* (l, s) (l, s')"
  by (induction rule: rtranclp_induct) (auto intro: rtranclp.rtrancl_into_rtrancl trust_fed_moves)

subsection \<open>The files\<close>

definition run_fs :: fsys where
  "run_fs = \<lparr>fs_files = [], fs_dirs = {[]}, fs_clock = (\<lambda>_. 0), fs_tick = 0, fs_pid = 1\<rparr>"

abbreviation run_k :: path where "run_k \<equiv> [lit ''k'']"
abbreviation run_s :: path where "run_s \<equiv> [lit ''s'']"
abbreviation run_f :: path where "run_f \<equiv> [lit ''f'']"
abbreviation run_p :: path where "run_p \<equiv> [lit ''p'']"

lemma run_fs_files: "fs_dirs (fput p bs fs) = fs_dirs fs" "fs_dirs run_fs = {[]}" "fget run_fs p = None"
  by (simp_all add: fput_def run_fs_def fget_def)

lemma run_creates:
  assumes "fs_dirs fs = {[]}" and "fget fs [n] = None"
  shows "registry_create [n] fs = (Inr (registry_empty [n]), fput [n] [] fs)"
    and "authorizations_create [n] fs = (Inr (authorizations_empty [n]), fput [n] [] fs)"
    and "fed_create [n] fs = (Inr (fed_empty [n]), fput [n] [] fs)"
    and "prov_create [n] fs = (Inr (prov_empty [n]), fput [n] [] fs)"
  using assms
  by (simp_all add: registry_create_def authorizations_create_def asym_create_empty_file_def fed_create_def prov_create_def
      fs_exists_def path_parent_def create_dir_all_def create_new_def io_map_err_def io_bind_def io_ret_def)

lemma run_names: "lit ''k'' \<noteq> lit ''s''" "lit ''k'' \<noteq> lit ''f''" "lit ''s'' \<noteq> lit ''f''" "lit ''p'' \<noteq> lit ''k''" "lit ''p'' \<noteq> lit ''s''"
  "lit ''p'' \<noteq> lit ''f''"
  by (simp_all add: lit_def)

text \<open>A registry with one key; with it, a ledger with five authorisations; with these, a federation ledger after n events.\<close>

lemma run_reaches_registry: "\<exists>fs. reachable registry_initial (registry_step run_check) (run_registry run_k, fs)"
proof -
  have "registry_initial (registry_empty run_k, fput run_k [] run_fs)"
    using run_creates(1) [of run_fs "lit ''k''"] by (auto simp: registry_initial_def run_fs_files)
  then have r: "reachable registry_initial (registry_step run_check) (registry_empty run_k, fput run_k [] run_fs)" by (rule reach_init)
  have "roomy 0 ([] :: bytes)" by (simp add: roomy_def)
  with run_registry_step [of "fput run_k [] run_fs" run_k "[]" 0] obtain new where
    "registry_step run_check (registry_empty run_k, fput run_k [] run_fs) (run_registry run_k, fput run_k new (fput run_k [] run_fs))" by auto
  with r have "reachable registry_initial (registry_step run_check) (run_registry run_k, fput run_k new (fput run_k [] run_fs))"
    by (rule reach_step)
  then show ?thesis ..
qed

lemma run_auth_start:
  "auth_initial (registry_empty run_k, authorizations_empty run_s, fput run_s [] (fput run_k [] run_fs))"
  unfolding auth_initial_def prod.case
proof (intro exI conjI)
  show "run_k \<noteq> run_s" using run_names by simp
  show "registry_create run_k run_fs = (Inr (registry_empty run_k), fput run_k [] run_fs)"
    by (rule run_creates(1)) (simp_all add: run_fs_files)
  show "authorizations_create run_s (fput run_k [] run_fs) = (Inr (authorizations_empty run_s), fput run_s [] (fput run_k [] run_fs))"
    by (rule run_creates(2)) (use run_names in \<open>simp_all add: run_fs_files\<close>)
qed

lemma run_auth_star:
  assumes "fget fs run_k = Some []" and "fget fs run_s = Some []"
  shows "\<exists>fs'. (auth_step run_check)\<^sup>*\<^sup>* (registry_empty run_k, authorizations_empty run_s, fs) (run_registry run_k, run_auths run_s, fs') \<and>
     (\<forall>x. x \<noteq> run_k \<longrightarrow> x \<noteq> run_s \<longrightarrow> fget fs' x = fget fs x)"
proof -
  have "roomy 0 ([] :: bytes)" by (simp add: roomy_def)
  with run_registry_step [OF assms(1), of 0] obtain new where
    "registry_step run_check (registry_empty run_k, fs) (run_registry run_k, fput run_k new fs)" by auto
  then have s: "auth_step run_check (registry_empty run_k, authorizations_empty run_s, fs)
      (run_registry run_k, authorizations_empty run_s, fput run_k new fs)" by (rule registry_moves)
  have "fget (fput run_k new fs) run_s = Some []" using assms(2) run_names by simp
  from run_auths_steps [OF this, of run_k] obtain fs' where "(auth_step run_check)\<^sup>*\<^sup>* (run_registry run_k, authorizations_empty run_s,
      fput run_k new fs) (run_registry run_k, run_auths run_s, fs')" "\<forall>x. x \<noteq> run_s \<longrightarrow> fget fs' x = fget (fput run_k new fs) x" by blast
  with converse_rtranclp_into_rtranclp [of "auth_step run_check", OF s] show ?thesis
    by (intro exI [of _ fs']) auto
qed

lemma run_reaches_auth: "\<exists>fs. reachable auth_initial (auth_step run_check) (run_registry run_k, run_auths run_s, fs)"
proof -
  let ?fs = "fput run_s [] (fput run_k [] run_fs)"
  have "reachable auth_initial (auth_step run_check) (registry_empty run_k, authorizations_empty run_s, ?fs)"
    by (rule reach_init) (rule run_auth_start)
  then show ?thesis using run_auth_star [of ?fs] run_names by (auto intro: reachable_star)
qed

lemma run_fed_start:
  "fed_initial (fed_empty run_f, registry_empty run_k, authorizations_empty run_s, fput run_f [] (fput run_s [] (fput run_k [] run_fs)))"
  unfolding fed_initial_def prod.case
  using run_auth_start run_creates(3) [of "fput run_s [] (fput run_k [] run_fs)" "lit ''f''"] run_names
  by (intro exI [of _ run_f] exI [of _ "fput run_s [] (fput run_k [] run_fs)"]) (auto simp: run_fs_files)

lemma run_fed_star:
  assumes "fget fs run_k = Some []" and "fget fs run_s = Some []" and "fget fs run_f = Some []" and "n \<le> 4"
  shows "\<exists>fs'. (fed_step run_check)\<^sup>*\<^sup>* (fed_empty run_f, registry_empty run_k, authorizations_empty run_s, fs)
     (run_fed run_f run_s n, run_registry run_k, run_auths run_s, fs') \<and> fget fs' run_p = fget fs run_p"
proof -
  obtain fs1 where s: "(auth_step run_check)\<^sup>*\<^sup>* (registry_empty run_k, authorizations_empty run_s, fs) (run_registry run_k, run_auths run_s, fs1)"
    and f: "fget fs1 run_f = Some []" "fget fs1 run_p = fget fs run_p"
    using run_auth_star [OF assms(1,2)] assms(3) run_names by fastforce
  obtain fs2 where "(fed_step run_check)\<^sup>*\<^sup>* (fed_empty run_f, run_registry run_k, run_auths run_s, fs1)
      (run_fed run_f run_s n, run_registry run_k, run_auths run_s, fs2)" "fget fs2 run_p = fget fs1 run_p"
    using run_fed_steps [OF f(1) assms(4), of run_k run_s] run_names by auto
  with lift_auth [OF s, of "fed_empty run_f"] f(2) show ?thesis by (intro exI [of _ fs2]) auto
qed

lemma run_reaches_fed:
  assumes "n \<le> 4"
  shows "\<exists>fs. reachable fed_initial (fed_step run_check) (run_fed run_f run_s n, run_registry run_k, run_auths run_s, fs)"
proof -
  let ?fs = "fput run_f [] (fput run_s [] (fput run_k [] run_fs))"
  have "reachable fed_initial (fed_step run_check) (fed_empty run_f, registry_empty run_k, authorizations_empty run_s, ?fs)"
    by (rule reach_init) (rule run_fed_start)
  then show ?thesis using run_fed_star [of ?fs n] run_names assms by (auto intro: reachable_star)
qed

lemma run_reaches_trust:
  "\<exists>fs. reachable trust_initial (trust_step run_check) (prov_empty run_p, run_fed run_f run_s 4, run_registry run_k, run_auths run_s, fs) \<and>
     fget fs run_p = Some []"
proof -
  let ?fs = "fput run_f [] (fput run_s [] (fput run_k [] run_fs))"
  have "trust_initial (prov_empty run_p, fed_empty run_f, registry_empty run_k, authorizations_empty run_s, fput run_p [] ?fs)"
    unfolding trust_initial_def prod.case
    using run_fed_start run_creates(4) [of ?fs "lit ''p''"] run_names
    by (intro exI [of _ run_p] exI [of _ ?fs]) (auto simp: run_fs_files)
  then have "reachable trust_initial (trust_step run_check) (prov_empty run_p, fed_empty run_f, registry_empty run_k,
      authorizations_empty run_s, fput run_p [] ?fs)" by (rule reach_init)
  with run_fed_star [of "fput run_p [] ?fs" 4] run_names show ?thesis
    by (auto intro: reachable_star dest: lift_fed [where l = "prov_empty run_p"])
qed

subsection \<open>A version of an object\<close>

definition run_input :: prov_input where
  "run_input = \<lparr>pi_kind = Source, pi_logical_timestamp = 1, pi_namespace = lit ''n'', pi_object_id = lit ''o'',
     pi_object_kind = lit ''k'', pi_object_version = 1, pi_actor_key_id = lit ''a'',
     pi_source_locator_digest = replicate 32 1, pi_content_digest = replicate 32 2,
     pi_operation_digest = replicate 32 3, pi_transformation_digest = replicate 32 0,
     pi_federation_policy_version = 1, pi_federation_policy_digest = run_policy,
     pi_federation_bundle_version = 1, pi_federation_bundle_digest = replicate 32 5,
     pi_authorization_sequence = 5, pi_parent_provenance_ids = []\<rparr>"

lemma run_input_digest: "provenance_subject_digest run_input = Inr run_prov_subject"
proof -
  have t: "text_valid [c]" if "is_ascii_graphic c" "c \<noteq> 0x5C" for c using that by (simp add: text_valid_def)
  have v: "validate_input_shape run_input = Inr ()"
    using run_nonzero(3)
    by (simp add: validate_input_shape_def run_input_def validate_text_def is_ascii_graphic_def lit_def MAX_PARENTS_def)
  have "put_string [c] = Inr (u16_le 1 @ [c])" if "is_ascii_graphic c" "c \<noteq> 0x5C" for c
    using that t by (simp add: text_bytes_def)
  then have "put_string (lit ''n'') = Inr (u16_le 1 @ lit ''n'')" "put_string (lit ''o'') = Inr (u16_le 1 @ lit ''o'')"
    "put_string (lit ''k'') = Inr (u16_le 1 @ lit ''k'')" "put_string (lit ''a'') = Inr (u16_le 1 @ lit ''a'')"
    by (simp_all add: lit_def is_ascii_graphic_def)
  with v run_prov_subject_digest show ?thesis
    by (simp add: provenance_subject_digest_def) (simp add: run_input_def SUBJECT_DOMAIN_def)
qed

abbreviation run_env :: "path \<Rightarrow> path \<Rightarrow> path \<Rightarrow> prov_env" where
  "run_env p q x \<equiv> trust_env (run_registry p) (run_auths q) (run_fed x q 4)"

lemma run_built:
  "\<exists>e. build_event 1 (replicate 32 0) run_input run_check (run_registry p) (run_auths q) (run_fed x q 4) = Inr e \<and>
     validate_state_transition (prov_empty y) e = Inr ()"
proof -
  obtain au where au: "find_authorization (run_auths q) 5 = Some au" "au_domain_code au = 9" "au_required_role_mask au = 1"
    "au_subject_digest au = run_prov_subject" "au_key_id au = lit ''a''" "verify_event run_check au (run_registry p) = Inr True"
    using run_references(5) [of p q] by (auto simp: run_reference_def)
  have "run_fed x q 4 = fed_push (run_auths q) (run_fed x q 3) (fed_stamped (run_fed x q 3) (run_fed_events ! 3), 0)"
    using run_fed_Suc [of 3 x q] by simp
  then have pol: "fl_policies (run_fed x q 4) = [(lit ''n'', run_namespace_policy)]"
    using run_fed_states(3) [of x q] by (simp add: fed_push_def fed_apply_event_def run_fed_nth run_fed_event_def policy_event_def split: option.split)
  have "accepted_historically run_input (run_fed x q 4)"
    by (simp add: accepted_historically_def run_input_def run_fed_def run_event_simps numeral_eq_Suc)
  then have b: "verify_federation_binding run_input 1 (run_fed x q 4) = Inr ()"
    by (simp add: federation_binding_iff pol) (simp add: run_input_def run_namespace_policy_def)
  have i: "pi_authorization_sequence run_input = 5" "pi_actor_key_id run_input = lit ''a''" by (simp_all add: run_input_def)
  have "build_event 1 (replicate 32 0) run_input run_check (run_registry p) (run_auths q) (run_fed x q 4) =
      Inr (built_event 1 (replicate 32 0) run_input au run_prov_subject)"
    using subject_digest_shape(1) [OF run_input_digest] au
    by (simp add: build_event_def i b run_input_digest verify_sequence_def PROVENANCE_DOMAIN_def cong: rbind_weak_cong)
  moreover have "validate_state_transition (prov_empty y) (built_event 1 (replicate 32 0) run_input au run_prov_subject) = Inr ()"
    by (simp add: transition_iff prov_empty_def built_event_def run_input_def)
  ultimately show ?thesis by blast
qed

lemma run_reaches_versions:
  "\<exists>l e fs. reachable trust_initial (trust_step run_check) (l, run_fed run_f run_s 4, run_registry run_k, run_auths run_s, fs) \<and>
     pl_events l = [e] \<and> event_to_input e = run_input \<and> pl_path l = run_p"
proof -
  obtain fs where r: "reachable trust_initial (trust_step run_check)
      (prov_empty run_p, run_fed run_f run_s 4, run_registry run_k, run_auths run_s, fs)" and f: "fget fs run_p = Some []"
    using run_reaches_trust by auto
  have ty: "input_typed run_input" "env_typed (run_env run_k run_s run_f)"
    using trust_run.reachable_inv [OF r] fed_env_typed run_registry_facts(5) by (auto simp: input_typed_def run_input_def trust_inv_def)
  let ?l = "prov_empty run_p"
  have l: "length (pl_head_digest ?l) = 32" "pl_path ?l = run_p" by (simp_all add: prov_empty_def)
  from ty l(1) show ?thesis
  proof (cases rule: append_cases [of run_input "run_env run_k run_s run_f" ?l run_check fs])
    case (refused err)
    then show ?thesis using run_built [of run_k run_s run_f run_p] f l(2) by (auto simp: prov_empty_def)
  next
    case (recorded old e rc)
    have old: "old = []" using recorded(1) f l(2) by simp
    have len: "length (event_frame e) < usize_limit"
      using event_frame_header(15) [OF recorded(2)] prov_payload_small recorded(2)
      by (fastforce simp: prov_admits_def PROV_MAX_PAYLOAD_BYTES_def usize_limit_def)
    have "trust_step run_check (?l, run_fed run_f run_s 4, run_registry run_k, run_auths run_s, fs)
        (apply_event ?l e, run_fed run_f run_s 4, run_registry run_k, run_auths run_s, fput (pl_path ?l) (old @ event_frame e) fs)"
      by (rule trust_prov_appends [OF ty(1)]) (use recorded(4) len old l(2) in auto)
    then have r': "reachable trust_initial (trust_step run_check)
        (apply_event ?l e, run_fed run_f run_s 4, run_registry run_k, run_auths run_s, fput (pl_path ?l) (old @ event_frame e) fs)"
      by (rule reach_step [of _ "trust_step run_check", OF r])
    have "pl_events (apply_event ?l e) = [e]" "pl_path (apply_event ?l e) = run_p"
      by (simp_all add: apply_event_def prov_empty_def)
    with r' recorded(3) show ?thesis by blast
  qed
qed

subsection \<open>Witnesses\<close>

lemma run_fed_kinds:
  "length (fl_events (run_fed x q 4)) = 4" "fe_kind (fl_events (run_fed x q 4) ! 2) = BundleAccept"
  "\<exists>e \<in> set (fl_events (run_fed x q 4)). fe_kind e = AuthorityEnroll \<and> fe_namespace e = lit ''n'' \<and> fe_key_id e = lit ''a'' \<and>
     fe_weight e = 1 \<and> fe_controller_authorization_sequence e = 2 \<and> fe_authority_role_mask e = 1 \<and>
     fe_provider_requirement e = SoftwareAllowed"
  "fl_last_timestamp (run_fed x q 4) = 4"
  by (simp_all add: run_fed_def run_event_simps numeral_eq_Suc)

lemma run_auths_count: "length (al_events (run_auths q)) = 5"
  by (simp add: run_auths_def run_requests_def run_authorize_def)

theorem registry_custody_witness:
  "length (kr_events (run_registry run_k)) = 1 \<and> custody run_check (kr_events (run_registry run_k)) \<and>
   states_match (kr_events (run_registry run_k)) (kr_states (run_registry run_k))"
proof -
  obtain fs where "reachable registry_initial (registry_step run_check) (run_registry run_k, fs)" using run_reaches_registry ..
  from registry_custody [OF this] run_registry_facts(3) show ?thesis by simp
qed

theorem state_at_head_historic_witness:
  "\<exists>e. last_key_event (take 1 (kr_events (run_registry run_k))) (lit ''a'') = Some e \<and>
     (\<exists>s. state_at_head (run_registry run_k) (ke_frame_digest (kr_events (run_registry run_k) ! 0)) (lit ''a'') = Some s \<and> state_matches s e)"
proof -
  obtain fs where r: "reachable registry_initial (registry_step run_check) (run_registry run_k, fs)" using run_reaches_registry ..
  let ?e = "key_event_placed (registry_empty run_k) run_event"
  have e: "kr_events (run_registry run_k) = [?e]"
    by (simp add: run_registry_def registry_push_def apply_key_event_def key_event_placed_def run_event_def key_event_of_def)
  have "last_key_event [?e] (lit ''a'') = Some ?e"
    by (simp add: last_key_event_def key_event_placed_def run_event_def key_event_of_def)
  with state_at_head_historic [OF r run_registry_facts(5), of 0 "lit ''a''"] e show ?thesis by simp
qed

theorem authorizations_genuine_witness:
  "length (al_events (run_auths run_s)) = 5 \<and>
   (\<exists>n. authorized_at run_check (kr_events (run_registry run_k)) (al_events (run_auths run_s) ! 3) n)"
proof -
  obtain fs where "reachable auth_initial (auth_step run_check) (run_registry run_k, run_auths run_s, fs)" using run_reaches_auth ..
  from authorizations_genuine [OF this run_registry_facts(5)] run_auths_count [of run_s] show ?thesis by simp
qed

theorem bundles_have_quorum_witness:
  "fe_kind (fl_events (run_fed run_f run_s 4) ! 2) = BundleAccept \<and>
   bundle_approved run_check (run_registry run_k) (run_auths run_s) (take 2 (fl_events (run_fed run_f run_s 4)))
     (fl_events (run_fed run_f run_s 4) ! 2)"
proof -
  obtain fs where "reachable fed_initial (fed_step run_check) (run_fed run_f run_s 4, run_registry run_k, run_auths run_s, fs)"
    using run_reaches_fed [of 4] by auto
  from bundles_have_quorum [OF this run_registry_facts(5), of 2] run_fed_kinds(1,2) [of run_f run_s] show ?thesis by simp
qed

theorem bundles_form_chain_witness:
  "bundle_in_chain (run_auths run_s) (take 2 (fl_events (run_fed run_f run_s 4))) (fl_events (run_fed run_f run_s 4) ! 2)"
proof -
  obtain fs where "reachable fed_initial (fed_step run_check) (run_fed run_f run_s 4, run_registry run_k, run_auths run_s, fs)"
    using run_reaches_fed [of 4] by auto
  from bundles_form_chain [OF this run_registry_facts(5), of 2] run_fed_kinds(1,2) [of run_f run_s] show ?thesis by simp
qed

theorem old_enrolment_accepted_again_witness:
  "\<exists>fs rc l' fs'. \<not> authority_active (run_fed run_f run_s 4) (lit ''n'') (lit ''a'') \<and>
     enroll_authority run_check (run_registry run_k) (run_auths run_s) (lit ''n'') (lit ''a'') 1 2 5 (run_fed run_f run_s 4) fs =
       (Inr rc, l', fs') \<and> authority_active l' (lit ''n'') (lit ''a'')"
proof -
  obtain fs where r: "reachable fed_initial (fed_step run_check) (run_fed run_f run_s 4, run_registry run_k, run_auths run_s, fs)"
    using run_reaches_fed [of 4] by auto
  obtain e where e: "e \<in> set (fl_events (run_fed run_f run_s 4))" "fe_kind e = AuthorityEnroll" "fe_namespace e = lit ''n''"
    "fe_key_id e = lit ''a''" "fe_weight e = 1" "fe_controller_authorization_sequence e = 2" "fe_authority_role_mask e = 1"
    "fe_provider_requirement e = SoftwareAllowed" using run_fed_kinds(3) [of run_f run_s] by blast
  from old_enrolment_accepted_again [OF r run_registry_facts(5) e(1,2), of 5 run_key] e run_head_state run_fed_states(7) [of run_f run_s]
    run_fed_kinds(4) [of run_f run_s] show ?thesis by simp blast
qed

theorem approvals_beyond_decoder_limit_witness:
  "\<exists>e. length (fe_approval_sequences e) = 1000001 \<and> fed_encode_payload e = Inr (fed_payload 0 e) \<and>
     fed_decode_payload (fed_payload 0 e) = Inl (Fed_Invalid (lit ''payload length limit exceeded''))"
proof -
  let ?e = "run_fed_event BundleAccept 3 [] 0 1 (replicate 32 5) run_bundle 0 (replicate 1000001 3)"
  have "fed_digests_typed ?e" "length (fe_namespace ?e) = 1" "length (fe_key_id ?e) = 0" "length (fe_controller_key_id ?e) = 1"
    "length (fe_approval_sequences ?e) = 1000001"
    by (simp_all add: run_fed_event_def policy_event_def run_namespace_policy_def fed_digests_typed_def lit_def)
  with approvals_beyond_decoder_limit [of ?e] show ?thesis by (intro exI [of _ ?e]) (simp add: FED_MAX_PAYLOAD_def)
qed

theorem trust_refines_provenance_witness:
  "\<exists>l e fs. reachable prov_initial (prov_step run_check) (run_env run_k run_s run_f, l, fs) \<and> pl_events l = [e]"
proof -
  obtain l e fs where "reachable trust_initial (trust_step run_check) (l, run_fed run_f run_s 4, run_registry run_k, run_auths run_s, fs)"
    "pl_events l = [e]" using run_reaches_versions by blast
  with trust_refines_provenance [OF _ run_registry_facts(5), of run_check l] show ?thesis by blast
qed

theorem trust_reopens_exactly_witness:
  "\<exists>l fs. length (pl_events l) = 1 \<and> registry_open_strict run_check run_k fs = (Inr (run_registry run_k), fs) \<and>
     authorizations_open_strict run_check run_s (run_registry run_k) fs = (Inr (run_auths run_s), fs) \<and>
     fed_open_strict run_check run_f (run_registry run_k) (run_auths run_s) fs = (Inr (run_fed run_f run_s 4), fs) \<and>
     prov_open_strict run_check run_p (run_registry run_k) (run_auths run_s) (run_fed run_f run_s 4) fs = (Inr l, fs)"
proof -
  obtain l e fs where r: "reachable trust_initial (trust_step run_check) (l, run_fed run_f run_s 4, run_registry run_k, run_auths run_s, fs)"
    and l: "pl_events l = [e]" "pl_path l = run_p" using run_reaches_versions by blast
  have "al_path (run_auths run_s) = run_s" by (simp add: run_auths_def run_requests_def run_authorize_def)
  with trust_reopens_exactly [OF r run_registry_facts(5)] run_registry_facts(1) [of run_k] l show ?thesis
    by (intro exI [of _ l] exI [of _ fs]) simp
qed

end
