(* ===== verification/Ub_Policy.thy ===== *)
theory Ub_Policy
  imports Ub_Trust Ub_Chain "HOL-Library.Product_Lexorder"
begin

text \<open>
  The policies of the trust co-commit (\<open>ultraballoondb-trust-commit/src/lib.rs\<close>): requests, policy
  definitions, and the registry of policies, a file of chained frames. A policy names one authority,
  the operations it may perform, a range for the number of evidence references and the verifier;
  \<open>authorize\<close> compares a request with the policy it names.
\<close>

subsection \<open>Constants, errors and fields\<close>

definition POLICY_LEDGER_MAGIC :: bytes where "POLICY_LEDGER_MAGIC = lit ''UBPOL01'' @ [0]"
definition POLICY_PAYLOAD_MAGIC :: bytes where "POLICY_PAYLOAD_MAGIC = lit ''UBPYP01'' @ [0]"
definition POLICY_DIGEST_DOMAIN :: bytes where "POLICY_DIGEST_DOMAIN = lit ''UBTRPOL1''"
definition POLICY_FRAME_DOMAIN :: bytes where "POLICY_FRAME_DOMAIN = lit ''UBPOLFR1''"
definition MAX_FRAME_PAYLOAD_BYTES :: nat where "MAX_FRAME_PAYLOAD_BYTES = 16 * 1024 * 1024"
definition POLICY_PAYLOAD_FIXED_BYTES :: nat where "POLICY_PAYLOAD_FIXED_BYTES = 40"

datatype tc_error =
    Tc_Io io_error
  | Tc_Invalid str
  | Tc_Integrity str bytes bytes
  | Tc_Truncated str nat nat
  | Tc_Lifecycle str
  | Tc_Trust str

definition tc_read_u16 :: "bytes \<Rightarrow> nat \<Rightarrow> tc_error + u16" where
  "tc_read_u16 bs offset =
     rbind (ok_or (Tc_Invalid (lit ''truncated u16'')) (get_range bs offset (offset + 2))) (\<lambda>v. Inr (from_le v))"

definition tc_read_u32 :: "bytes \<Rightarrow> nat \<Rightarrow> tc_error + u32" where
  "tc_read_u32 bs offset =
     rbind (ok_or (Tc_Invalid (lit ''truncated u32'')) (get_range bs offset (offset + 4))) (\<lambda>v. Inr (from_le v))"

definition tc_read_u64 :: "bytes \<Rightarrow> nat \<Rightarrow> tc_error + u64" where
  "tc_read_u64 bs offset =
     rbind (ok_or (Tc_Invalid (lit ''truncated u64'')) (get_range bs offset (offset + 8))) (\<lambda>v. Inr (from_le v))"

definition tc_read_digest :: "bytes \<Rightarrow> nat \<Rightarrow> tc_error + bytes" where
  "tc_read_digest bs offset =
     ok_or (Tc_Invalid (lit ''truncated digest'')) (get_range bs offset (offset + 32))"

definition tc_read_string :: "bytes \<Rightarrow> nat \<Rightarrow> nat \<Rightarrow> str \<Rightarrow> tc_error + str \<times> nat" where
  "tc_read_string bs cursor len name =
     (if MAX_STRING_BYTES < len then Inl (Tc_Invalid (name @ lit '' exceeds maximum length''))
      else
        rbind (ok_or (Tc_Invalid (lit ''string length overflow'')) (checked_add cursor len)) (\<lambda>stop.
        rbind (ok_or (Tc_Invalid (lit ''truncated string '' @ name)) (get_range bs cursor stop)) (\<lambda>value.
        if \<not> utf8_valid value then Inl (Tc_Invalid (name @ lit '' is not UTF-8''))
        else Inr (value, stop))))"

definition tc_validate_string :: "str \<Rightarrow> str \<Rightarrow> tc_error + unit" where
  "tc_validate_string name value =
     (if value = [] then Inl (Tc_Invalid (name @ lit '' cannot be empty''))
      else if MAX_STRING_BYTES < length value then Inl (Tc_Invalid (name @ lit '' exceeds maximum length''))
      else Inr ())"

definition tc_push_optional_string :: "str option \<Rightarrow> bytes" where
  "tc_push_optional_string value =
     (case value of Some v \<Rightarrow> [1] @ replicate 3 0 @ push_string v | None \<Rightarrow> [0] @ replicate 3 0 @ u32_le 0)"

text \<open>The reader of both files of the crate; \<open>context\<close> is the name of the file in its messages.\<close>

definition tc_frame_header :: "str \<Rightarrow> bytes \<Rightarrow> nat \<Rightarrow> nat \<Rightarrow> bytes \<Rightarrow> bytes \<Rightarrow> tc_error + nat" where
  "tc_frame_header ctxt magic offset n head header =
     (if slice header 0 8 \<noteq> magic
      then Inl (Tc_Invalid (ctxt @ lit '' magic mismatch at offset '' @ dec_bytes offset))
      else if from_le (slice header 8 10) \<noteq> (1 :: u16) \<or> from_le (slice header 10 12) \<noteq> (0 :: u16)
         \<or> from_le (slice header 12 16) \<noteq> (144 :: u32)
      then Inl (Tc_Invalid (ctxt @ lit '' version/header mismatch at offset '' @ dec_bytes offset))
      else
        let seqno = from_le (slice header 16 24) :: u64; expected = of_nat n + 1 :: u64 in
        if seqno \<noteq> expected
        then Inl (Tc_Invalid (ctxt @ lit '' sequence mismatch: expected='' @ dec_bytes (unat expected)
               @ lit '' actual='' @ dec_bytes (unat seqno)))
        else
          let payload_bytes = unat (from_le (slice header 24 32) :: u64) in
          if MAX_FRAME_PAYLOAD_BYTES < payload_bytes then Inl (Tc_Invalid (ctxt @ lit '' payload exceeds maximum''))
          else if slice header 128 144 \<noteq> replicate 16 0
          then Inl (Tc_Invalid (ctxt @ lit '' reserved bytes are non-zero''))
          else if slice header 32 64 \<noteq> head
          then Inl (Tc_Integrity (ctxt @ lit '' previous digest'') head (slice header 32 64))
          else Inr payload_bytes)"

definition tc_frame_body :: "str \<Rightarrow> bytes \<Rightarrow> bytes \<Rightarrow> bytes \<Rightarrow> tc_error + unit" where
  "tc_frame_body ctxt domain header payload =
     (let actual = sha256 payload in
      if actual \<noteq> slice header 64 96
      then Inl (Tc_Integrity (ctxt @ lit '' payload'') (slice header 64 96) actual)
      else
        let frame = compute_frame_digest domain (from_le (slice header 16 24)) (slice header 32 64) (slice header 64 96) in
        if frame \<noteq> slice header 96 128
        then Inl (Tc_Integrity (ctxt @ lit '' frame'') (slice header 96 128) frame)
        else Inr ())"

definition tc_reader :: "str \<Rightarrow> bytes \<Rightarrow> bytes \<Rightarrow> tc_error chain_reader" where
  "tc_reader ctxt magic domain =
     \<lparr>cr_short = Tc_Truncated ctxt, cr_header = tc_frame_header ctxt magic,
      cr_overflow = Tc_Invalid (lit ''chain frame length overflow''),
      cr_cut = Tc_Truncated ctxt, cr_body = tc_frame_body ctxt domain\<rparr>"

definition tc_encode_frame :: "bytes \<Rightarrow> u64 \<Rightarrow> bytes \<Rightarrow> bytes \<Rightarrow> bytes \<Rightarrow> bytes \<Rightarrow> tc_error + bytes" where
  "tc_encode_frame = encode_chain_frame (Tc_Invalid (lit ''chain frame payload exceeds maximum'')) MAX_FRAME_PAYLOAD_BYTES"

text \<open>Creating an empty file and reading it back, as both files do.\<close>

definition tc_create_file :: "str \<Rightarrow> path \<Rightarrow> (tc_error, unit) io" where
  "tc_create_file what path fs =
     (if fs_exists fs path then (Inl (Tc_Invalid (what @ lit '' already exists: '' @ path_display path)), fs)
      else io_bind (case path_parent path of
                Some parent \<Rightarrow> io_map_err Tc_Io (create_dir_all parent)
              | None \<Rightarrow> io_ret ()) (\<lambda>_. io_map_err Tc_Io (create_new path [])) fs)"

definition tc_read_file :: "str \<Rightarrow> path \<Rightarrow> (tc_error, bytes) io" where
  "tc_read_file what path fs =
     (if fget fs path = None then (Inl (Tc_Invalid (what @ lit '' file missing: '' @ path_display path)), fs)
      else (map_err Tc_Io (fs_read path fs), fs))"

subsection \<open>Requests and policies\<close>

record commit_request =
  cq_record_id :: str
  cq_operation :: trust_operation
  cq_authority :: transition_authority
  cq_evidence_refs :: "evidence_ref list"
  cq_policy_id :: str
  cq_policy_version :: str
  cq_verifier_id :: str
  cq_logical_timestamp :: u64
  cq_reason_code :: str
  cq_superseding_record_id :: "str option"

record policy_definition =
  pd_policy_id :: str
  pd_policy_version :: str
  pd_allowed_authority :: transition_authority
  pd_allowed_operation_mask :: u16
  pd_min_evidence_refs :: u32
  pd_max_evidence_refs :: u32
  pd_required_verifier_id :: str
  pd_require_unique_provenance :: bool

unbundle bit_operations_syntax

definition operation_bit :: "trust_operation \<Rightarrow> u16" where
  "operation_bit operation = push_bit (unat (trust_operation_code operation) - 1) 1"

definition operation_mask :: "trust_operation list \<Rightarrow> u16" where
  "operation_mask operations = foldl (\<lambda>value operation. value OR operation_bit operation) 0 operations"

definition policy_allows :: "policy_definition \<Rightarrow> trust_operation \<Rightarrow> bool" where
  "policy_allows policy operation \<longleftrightarrow> pd_allowed_operation_mask policy AND operation_bit operation \<noteq> 0"

definition tc_authority_from_code :: "u8 \<Rightarrow> tc_error + transition_authority" where
  "tc_authority_from_code v =
     (if v = 1 then Inr EvidencePolicy else if v = 2 then Inr Import
      else if v = 3 then Inr Ranker else if v = 4 then Inr Wave
      else if v = 5 then Inr Similarity else if v = 6 then Inr Frequency
      else if v = 7 then Inr Llm else if v = 8 then Inr RigorMultiplier
      else Inl (Tc_Invalid (lit ''unknown transition authority code '' @ dec_bytes (unat v))))"

definition validate_policy :: "policy_definition \<Rightarrow> tc_error + unit" where
  "validate_policy policy =
     rbind (tc_validate_string (lit ''policy_id'') (pd_policy_id policy)) (\<lambda>_.
     rbind (tc_validate_string (lit ''policy_version'') (pd_policy_version policy)) (\<lambda>_.
     rbind (tc_validate_string (lit ''required_verifier_id'') (pd_required_verifier_id policy)) (\<lambda>_.
     if pd_allowed_authority policy \<noteq> EvidencePolicy \<and> pd_allowed_authority policy \<noteq> Import
     then Inl (Tc_Invalid (lit ''trust-neutral authority cannot be registered: ''
            @ authority_str (pd_allowed_authority policy)))
     else if pd_allowed_operation_mask policy = 0
        \<or> pd_allowed_operation_mask policy AND NOT (push_bit 6 1 - 1) \<noteq> 0
     then Inl (Tc_Invalid (lit ''policy operation mask is invalid''))
     else if pd_min_evidence_refs policy = 0 \<or> pd_max_evidence_refs policy < pd_min_evidence_refs policy
        \<or> 4096 < pd_max_evidence_refs policy
     then Inl (Tc_Invalid (lit ''policy evidence range is invalid''))
     else if pd_allowed_authority policy = Import \<and> pd_allowed_operation_mask policy \<noteq> operation_bit Propose
     then Inl (Tc_Invalid (lit ''IMPORT policy may allow only PROPOSE''))
     else Inr ())))"

definition policy_payload :: "policy_definition \<Rightarrow> bytes" where
  "policy_payload policy = POLICY_PAYLOAD_MAGIC
     @ [authority_code (pd_allowed_authority policy), if pd_require_unique_provenance policy then 1 else 0]
     @ u16_le (pd_allowed_operation_mask policy) @ u32_le (pd_min_evidence_refs policy)
     @ u32_le (pd_max_evidence_refs policy) @ u32_le (of_nat (length (pd_policy_id policy)))
     @ u32_le (of_nat (length (pd_policy_version policy))) @ u32_le (of_nat (length (pd_required_verifier_id policy)))
     @ u32_le 0 @ u32_le 0 @ pd_policy_id policy @ pd_policy_version policy @ pd_required_verifier_id policy"

definition encode_policy_payload :: "policy_definition \<Rightarrow> tc_error + bytes" where
  "encode_policy_payload policy = rbind (validate_policy policy) (\<lambda>_. Inr (policy_payload policy))"

definition policy_digest :: "policy_definition \<Rightarrow> tc_error + bytes" where
  "policy_digest policy =
     rbind (validate_policy policy) (\<lambda>_.
     rbind (encode_policy_payload policy) (\<lambda>payload.
     Inr (sha256 (POLICY_DIGEST_DOMAIN @ u64_le (of_nat (length payload)) @ payload))))"

definition decode_policy_payload :: "bytes \<Rightarrow> tc_error + policy_definition" where
  "decode_policy_payload payload =
     (if length payload < POLICY_PAYLOAD_FIXED_BYTES
      then Inl (Tc_Invalid (lit ''policy payload shorter than fixed header''))
      else if slice payload 0 8 \<noteq> POLICY_PAYLOAD_MAGIC
      then Inl (Tc_Invalid (lit ''policy payload magic mismatch''))
      else
        rbind (tc_authority_from_code (payload ! 8)) (\<lambda>authority.
        rbind (if payload ! 9 = 0 then Inr False else if payload ! 9 = 1 then Inr True
               else Inl (Tc_Invalid (lit ''invalid policy flags byte '' @ dec_bytes (unat (payload ! 9)))))
          (\<lambda>require_unique.
        rbind (tc_read_u16 payload 10) (\<lambda>operation_mask.
        rbind (tc_read_u32 payload 12) (\<lambda>min_evidence.
        rbind (tc_read_u32 payload 16) (\<lambda>max_evidence.
        rbind (tc_read_u32 payload 20) (\<lambda>policy_id_bytes.
        rbind (tc_read_u32 payload 24) (\<lambda>version_bytes.
        rbind (tc_read_u32 payload 28) (\<lambda>verifier_bytes.
        rbind (tc_read_u32 payload 32) (\<lambda>reserved0.
        rbind (tc_read_u32 payload 36) (\<lambda>reserved1.
        if reserved0 \<noteq> 0 \<or> reserved1 \<noteq> 0
        then Inl (Tc_Invalid (lit ''policy reserved fields are non-zero''))
        else
          rbind (tc_read_string payload POLICY_PAYLOAD_FIXED_BYTES (unat policy_id_bytes) (lit ''policy_id''))
            (\<lambda>(policy_id, c1).
          rbind (tc_read_string payload c1 (unat version_bytes) (lit ''policy_version'')) (\<lambda>(policy_version, c2).
          rbind (tc_read_string payload c2 (unat verifier_bytes) (lit ''required_verifier_id'')) (\<lambda>(verifier, c3).
          if c3 \<noteq> length payload then Inl (Tc_Invalid (lit ''policy payload contains trailing bytes''))
          else Inr \<lparr>pd_policy_id = policy_id, pd_policy_version = policy_version, pd_allowed_authority = authority,
                 pd_allowed_operation_mask = operation_mask, pd_min_evidence_refs = min_evidence,
                 pd_max_evidence_refs = max_evidence, pd_required_verifier_id = verifier,
                 pd_require_unique_provenance = require_unique\<rparr>))))))))))))))"

subsection \<open>The registry of policies\<close>

record policy_registry =
  pr_path :: path
  pr_policies :: "(str \<times> str, policy_definition) btree"
  pr_digests :: "(str \<times> str, bytes) btree"
  pr_frame_count :: u64
  pr_head_digest :: bytes

definition policies_empty :: "path \<Rightarrow> policy_registry" where
  "policies_empty path = \<lparr>pr_path = path, pr_policies = [], pr_digests = [], pr_frame_count = 0,
     pr_head_digest = replicate 32 0\<rparr>"

definition policy_key :: "policy_definition \<Rightarrow> str \<times> str" where
  "policy_key policy = (pd_policy_id policy, pd_policy_version policy)"

definition policy_at :: "str \<Rightarrow> str \<Rightarrow> str" where
  "policy_at policy_id version = policy_id @ lit ''@'' @ version"

definition policies_create :: "path \<Rightarrow> (tc_error, policy_registry) io" where
  "policies_create path = io_bind (tc_create_file (lit ''policy registry'') path) (\<lambda>_. io_ret (policies_empty path))"

text \<open>The updates of the registry, in \<open>register\<close> and in \<open>replay\<close>.\<close>

definition policies_record :: "policy_registry \<Rightarrow> policy_definition \<Rightarrow> bytes \<Rightarrow> u64 \<Rightarrow> bytes \<Rightarrow> policy_registry" where
  "policies_record r policy digest seqno frame_digest =
     r\<lparr>pr_frame_count := seqno, pr_head_digest := frame_digest,
       pr_digests := bt_insert (policy_key policy) digest (pr_digests r),
       pr_policies := bt_insert (policy_key policy) policy (pr_policies r)\<rparr>"

definition policies_register ::
  "policy_definition \<Rightarrow> policy_registry \<Rightarrow> fsys \<Rightarrow> (tc_error + bytes) \<times> policy_registry \<times> fsys" where
  "policies_register policy r fs =
     (case rbind (validate_policy policy) (\<lambda>_.
           if bt_get (pr_policies r) (policy_key policy) \<noteq> None
           then Inl (Tc_Invalid (lit ''policy version already registered: ''
                  @ policy_at (pd_policy_id policy) (pd_policy_version policy)))
           else
             rbind (encode_policy_payload policy) (\<lambda>payload.
             rbind (policy_digest policy) (\<lambda>digest.
             if pr_frame_count r = - 1 then Inl (Tc_Invalid (lit ''policy registry sequence overflow''))
             else
               let seqno = pr_frame_count r + 1; payload_digest = sha256 payload;
                   frame_digest = compute_frame_digest POLICY_FRAME_DOMAIN seqno (pr_head_digest r) payload_digest in
               rbind (tc_encode_frame POLICY_LEDGER_MAGIC seqno (pr_head_digest r) payload_digest frame_digest payload)
                 (\<lambda>frame. Inr (digest, seqno, frame_digest, frame))))) of
        Inl e \<Rightarrow> (Inl e, r, fs)
      | Inr (digest, seqno, frame_digest, frame) \<Rightarrow>
          case write_all (pr_path r) frame fs of
            (Inl e, fs1) \<Rightarrow> (Inl (Tc_Io e), r, fs1)
          | (Inr _, fs1) \<Rightarrow> (Inr digest, policies_record r policy digest seqno frame_digest, fs1))"

definition policies_replay_frame :: "policy_registry \<Rightarrow> chain_frame \<Rightarrow> tc_error + policy_registry" where
  "policies_replay_frame r f =
     rbind (decode_policy_payload (cf_payload f)) (\<lambda>policy.
     rbind (validate_policy policy) (\<lambda>_.
     if bt_get (pr_policies r) (policy_key policy) \<noteq> None
     then Inl (Tc_Invalid (lit ''duplicate policy during replay: ''
            @ policy_at (pd_policy_id policy) (pd_policy_version policy)))
     else
       rbind (policy_digest policy) (\<lambda>digest.
       Inr (policies_record r policy digest (cf_sequence f) (cf_digest f)))))"

definition policy_reader :: "tc_error chain_reader" where
  "policy_reader = tc_reader (lit ''policy registry'') POLICY_LEDGER_MAGIC POLICY_FRAME_DOMAIN"

definition policies_open_strict :: "path \<Rightarrow> (tc_error, policy_registry) io" where
  "policies_open_strict path =
     io_bind (tc_read_file (lit ''policy registry'') path) (\<lambda>bytes.
     io_pure (chain_replay policy_reader policies_replay_frame (policies_empty path) bytes))"

fun unique_provenance :: "str list \<Rightarrow> evidence_ref list \<Rightarrow> tc_error + unit" where
  "unique_provenance seen [] = Inr ()"
| "unique_provenance seen (e # es) =
     (if er_provenance_id e \<in> set seen
      then Inl (Tc_Invalid (lit ''policy requires unique provenance: '' @ er_provenance_id e))
      else unique_provenance (bset_insert (er_provenance_id e) seen) es)"

definition policies_authorize :: "policy_registry \<Rightarrow> commit_request \<Rightarrow> tc_error + bytes" where
  "policies_authorize r q =
     (let key = (cq_policy_id q, cq_policy_version q) in
      rbind (ok_or (Tc_Invalid (lit ''policy is not registered: '' @ policy_at (cq_policy_id q) (cq_policy_version q)))
               (bt_get (pr_policies r) key)) (\<lambda>policy.
      rbind (ok_or (Tc_Invalid (lit ''policy digest missing from registry'')) (bt_get (pr_digests r) key)) (\<lambda>digest.
      if pd_allowed_authority policy \<noteq> cq_authority q
      then Inl (Tc_Invalid (lit ''policy authority mismatch: policy='' @ authority_str (pd_allowed_authority policy)
             @ lit '' request='' @ authority_str (cq_authority q)))
      else if \<not> policy_allows policy (cq_operation q)
      then Inl (Tc_Invalid (lit ''operation '' @ trust_operation_str (cq_operation q)
             @ lit '' is not allowed by policy '' @ policy_at (pd_policy_id policy) (pd_policy_version policy)))
      else if 2 ^ 32 \<le> length (cq_evidence_refs q) then Inl (Tc_Invalid (lit ''evidence count overflow''))
      else
        let evidence_count = length (cq_evidence_refs q) in
        if evidence_count < unat (pd_min_evidence_refs policy) \<or> unat (pd_max_evidence_refs policy) < evidence_count
        then Inl (Tc_Invalid (lit ''evidence count outside policy range: actual='' @ dec_bytes evidence_count
               @ lit '' min='' @ dec_bytes (unat (pd_min_evidence_refs policy))
               @ lit '' max='' @ dec_bytes (unat (pd_max_evidence_refs policy))))
        else if cq_verifier_id q \<noteq> pd_required_verifier_id policy
        then Inl (Tc_Invalid (lit ''verifier is not authorized by policy: expected='' @ pd_required_verifier_id policy
               @ lit '' actual='' @ cq_verifier_id q))
        else
          rbind (if pd_require_unique_provenance policy then unique_provenance [] (cq_evidence_refs q) else Inr ())
            (\<lambda>_. Inr digest))))"

subsection \<open>Facts on fields and frames\<close>

lemma length_policy_magics [simp]: "length POLICY_LEDGER_MAGIC = 8" "length POLICY_PAYLOAD_MAGIC = 8"
  by (simp_all add: POLICY_LEDGER_MAGIC_def POLICY_PAYLOAD_MAGIC_def lit_def)

lemma tc_read_ok:
  "off + 2 \<le> length bs \<Longrightarrow> tc_read_u16 bs off = Inr (from_le (slice bs off (off + 2)))"
  "off + 4 \<le> length bs \<Longrightarrow> tc_read_u32 bs off = Inr (from_le (slice bs off (off + 4)))"
  "off + 8 \<le> length bs \<Longrightarrow> tc_read_u64 bs off = Inr (from_le (slice bs off (off + 8)))"
  "off + 32 \<le> length bs \<Longrightarrow> tc_read_digest bs off = Inr (slice bs off (off + 32))"
  by (simp_all add: tc_read_u16_def tc_read_u32_def tc_read_u64_def tc_read_digest_def get_range_def slice_def)

lemma tc_read_string_iff:
  "tc_read_string bs cur len name = Inr r \<longleftrightarrow> len \<le> MAX_STRING_BYTES \<and> cur + len < usize_limit \<and>
     cur + len \<le> length bs \<and> utf8_valid (slice bs cur (cur + len)) \<and> r = (slice bs cur (cur + len), cur + len)"
  by (auto simp: tc_read_string_def rbind_eq_Inr_iff get_range_Some_iff checked_add_Some_iff slice_def)

lemma tc_read_string_at:
  assumes "drop cur bs = s @ rest" and "utf8_valid s" and "length s \<le> MAX_STRING_BYTES" and "length bs < usize_limit"
    and "cur \<le> length bs"
  shows "tc_read_string bs cur (length s) n = Inr (s, cur + length s)" and "drop (cur + length s) bs = rest"
    and "cur + length s \<le> length bs"
proof -
  show l: "cur + length s \<le> length bs" using arg_cong [OF assms(1), of length] assms(5) by simp
  show "drop (cur + length s) bs = rest" by (rule drop_after [OF assms(1)])
  show "tc_read_string bs cur (length s) n = Inr (s, cur + length s)"
    using assms l by (simp add: tc_read_string_iff slice_def)
qed

lemma tc_read_string_sound:
  assumes "tc_read_string bs cur len n = Inr (s, cur')"
  shows "drop cur bs = s @ drop cur' bs" and "utf8_valid s" and "length s = len" and "len \<le> MAX_STRING_BYTES"
    and "cur' = cur + len" and "cur' \<le> length bs"
  using assms by (auto simp: tc_read_string_iff slice_def field_join)

lemma tc_validate_string_iff: "tc_validate_string n s = Inr () \<longleftrightarrow> s \<noteq> [] \<and> length s \<le> MAX_STRING_BYTES"
  by (auto simp: tc_validate_string_def)

lemma tc_reader_frames:
  assumes m: "length magic = 8"
  shows "chained_frames (tc_reader ctxt magic domain) magic domain MAX_FRAME_PAYLOAD_BYTES no_slack"
proof
  show "no_slack (u16_le 0) (replicate 16 0)" by (simp add: no_slack_def)
  fix h head p :: bytes and off n
  assume h: "length h = 144" and hd: "length head = 32"
  have "length (slice h 10 12) = 2" "length (slice h 128 144) = 16" using h by (simp_all add: length_slice)
  note iff = chain_header_iff [OF h m this(1) hd length_sha256 length_frame_digest this(2)]
  have len: "unat (from_le (slice h 24 32) :: u64) = length p \<longleftrightarrow> from_le (slice h 24 32) = (of_nat (length p) :: u64)"
    if "length p \<le> MAX_FRAME_PAYLOAD_BYTES"
    using that by (intro unat_u64_iff) (simp add: MAX_FRAME_PAYLOAD_BYTES_def usize_limit_def)
  show "cr_header (tc_reader ctxt magic domain) off n head h = Inr (length p) \<and>
      cr_body (tc_reader ctxt magic domain) h p = Inr () \<longleftrightarrow>
      length p \<le> MAX_FRAME_PAYLOAD_BYTES \<and> no_slack (slice h 10 12) (slice h 128 144) \<and>
      h = chain_header magic (slice h 10 12) (of_nat n + 1) (length p) head (sha256 p)
        (compute_frame_digest domain (of_nat n + 1) head (sha256 p)) (slice h 128 144)"
    unfolding iff using h len
    by (auto simp: tc_reader_def tc_frame_header_def tc_frame_body_def Let_def no_slack_def from_le_eq_iff length_slice
        split: if_splits)
qed (use assms in \<open>simp_all add: MAX_FRAME_PAYLOAD_BYTES_def usize_limit_def\<close>)

subsection \<open>The payload codec\<close>

definition policy_fits :: "policy_definition \<Rightarrow> bool" where
  "policy_fits p \<longleftrightarrow> list_all (\<lambda>s. utf8_valid s \<and> length s \<le> MAX_STRING_BYTES)
     [pd_policy_id p, pd_policy_version p, pd_required_verifier_id p]"

lemma tc_authority_codes [simp]: "tc_authority_from_code (authority_code a) = Inr a"
  by (cases a) (simp_all add: tc_authority_from_code_def)

lemma tc_authority_code_inv: "tc_authority_from_code c = Inr a \<Longrightarrow> c = authority_code a"
  by (auto simp: tc_authority_from_code_def split: if_splits)

lemma length_policy_payload:
  "length (policy_payload p) = 40 + length (pd_policy_id p) + length (pd_policy_version p) + length (pd_required_verifier_id p)"
  by (simp add: policy_payload_def)

lemma policy_payload_fields:
  fixes p
  defines "b \<equiv> policy_payload p"
  shows "slice b 0 8 = POLICY_PAYLOAD_MAGIC" "b ! 8 = authority_code (pd_allowed_authority p)"
    "b ! 9 = (if pd_require_unique_provenance p then 1 else 0)" "slice b 10 12 = u16_le (pd_allowed_operation_mask p)"
    "slice b 12 16 = u32_le (pd_min_evidence_refs p)" "slice b 16 20 = u32_le (pd_max_evidence_refs p)"
    "slice b 20 24 = u32_le (of_nat (length (pd_policy_id p)))" "slice b 24 28 = u32_le (of_nat (length (pd_policy_version p)))"
    "slice b 28 32 = u32_le (of_nat (length (pd_required_verifier_id p)))" "slice b 32 36 = u32_le 0" "slice b 36 40 = u32_le 0"
    "drop 40 b = pd_policy_id p @ pd_policy_version p @ pd_required_verifier_id p"
  by (simp_all add: b_def policy_payload_def slice_def nth_append)

lemma policy_decode_ok:
  assumes "policy_fits p"
  shows "decode_policy_payload (policy_payload p) = Inr p"
proof -
  let ?b = "policy_payload p"
  note fs = policy_payload_fields [of p] and len = length_policy_payload [of p]
  have sm: "length (pd_policy_id p) \<le> MAX_STRING_BYTES" "length (pd_policy_version p) \<le> MAX_STRING_BYTES"
    "length (pd_required_verifier_id p) \<le> MAX_STRING_BYTES"
    and u8: "utf8_valid (pd_policy_id p)" "utf8_valid (pd_policy_version p)" "utf8_valid (pd_required_verifier_id p)"
    using assms by (simp_all add: policy_fits_def)
  have l: "length ?b < usize_limit" "40 \<le> length ?b"
    using sm len by (simp_all add: MAX_STRING_BYTES_def usize_limit_def)
  note r1 = tc_read_string_at [OF fs(12) u8(1) sm(1) l]
  note r2 = tc_read_string_at [OF r1(2) u8(2) sm(2) l(1) r1(3)]
  have r2': "drop (40 + length (pd_policy_id p) + length (pd_policy_version p)) ?b = pd_required_verifier_id p @ []"
    using r2(2) by simp
  note r3 = tc_read_string_at [OF r2' u8(3) sm(3) l(1) r2(3)]
  have u: "unat (of_nat (length (pd_policy_id p)) :: u32) = length (pd_policy_id p)"
    "unat (of_nat (length (pd_policy_version p)) :: u32) = length (pd_policy_version p)"
    "unat (of_nat (length (pd_required_verifier_id p)) :: u32) = length (pd_required_verifier_id p)"
    using sm by (simp_all add: unat_u32_small MAX_STRING_BYTES_def)
  show ?thesis
    unfolding decode_policy_payload_def POLICY_PAYLOAD_FIXED_BYTES_def
    using l(2) len by (simp add: tc_read_ok fs(1-11) u r1(1) r2(1) r3(1) cong: rbind_weak_cong)
qed

lemma policy_decode_sound:
  assumes d: "decode_policy_payload b = Inr p"
  shows "b = policy_payload p" and "policy_fits p"
proof -
  note v = d [unfolded decode_policy_payload_def POLICY_PAYLOAD_FIXED_BYTES_def guard_eq_Inr_iff rbind_eq_Inr_iff
      de_Morgan_disj not_less not_not]
  then have len: "40 \<le> length b" by simp
  from v obtain a uq il vl rl i c1 ve c2 ri c3
    where m: "slice b 0 8 = POLICY_PAYLOAD_MAGIC" and au: "tc_authority_from_code (b ! 8) = Inr a"
      and fl: "b ! 9 = (if uq then 1 else 0)"
      and ls: "tc_read_u32 b 20 = Inr il" "tc_read_u32 b 24 = Inr vl" "tc_read_u32 b 28 = Inr rl"
        "tc_read_u32 b 32 = Inr 0" "tc_read_u32 b 36 = Inr 0"
      and s1: "tc_read_string b 40 (unat il) (lit ''policy_id'') = Inr (i, c1)"
      and s2: "tc_read_string b c1 (unat vl) (lit ''policy_version'') = Inr (ve, c2)"
      and s3: "tc_read_string b c2 (unat rl) (lit ''required_verifier_id'') = Inr (ri, c3)" and c3: "c3 = length b"
      and p: "p = \<lparr>pd_policy_id = i, pd_policy_version = ve, pd_allowed_authority = a,
          pd_allowed_operation_mask = from_le (slice b 10 12), pd_min_evidence_refs = from_le (slice b 12 16),
          pd_max_evidence_refs = from_le (slice b 16 20), pd_required_verifier_id = ri, pd_require_unique_provenance = uq\<rparr>"
    by (auto simp: tc_read_ok rbind_eq_Inr_iff split: if_splits)
  note t1 = tc_read_string_sound [OF s1] and t2 = tc_read_string_sound [OF s2] and t3 = tc_read_string_sound [OF s3]
  have u32: "slice b 20 24 = u32_le il" "slice b 24 28 = u32_le vl" "slice b 28 32 = u32_le rl" "slice b 32 36 = u32_le 0"
    "slice b 36 40 = u32_le 0"
    using ls len by (simp_all add: tc_read_ok from_le_eq_iff length_slice)
  have ln: "of_nat (length i) = il" "of_nat (length ve) = vl" "of_nat (length ri) = rl"
    using t1(3) t2(3) t3(3) by simp_all
  show "policy_fits p" using t1(2-4) t2(2-4) t3(2-4) by (simp add: p policy_fits_def)
  have "b = slice b 0 8 @ slice b 8 9 @ slice b 9 10 @ slice b 10 12 @ slice b 12 16 @ slice b 16 20 @ slice b 20 24
      @ slice b 24 28 @ slice b 28 32 @ slice b 32 36 @ slice b 36 40 @ drop 40 b"
    using pieces_eq [of 0 "[8, 1, 1, 2, 4, 4, 4, 4, 4, 4, 4]" b] by simp
  also have "\<dots> = policy_payload p"
    using len byte_slices [of 8 b] byte_slices [of 9 b]
    by (simp add: policy_payload_def p m u32 fl ln tc_authority_code_inv [OF au] t1(1) t2(1) t3(1) c3 length_slice uN_le_from_le)
  finally show "b = policy_payload p" .
qed

subsection \<open>The file of the registry\<close>

interpretation policy_frames: chained_frames policy_reader POLICY_LEDGER_MAGIC POLICY_FRAME_DOMAIN MAX_FRAME_PAYLOAD_BYTES
  no_slack
  unfolding policy_reader_def by (rule tc_reader_frames) simp

text \<open>An entry of the file: a policy and the stamps of its frame.\<close>

record policy_entry =
  pe_policy :: policy_definition
  pe_sequence :: u64
  pe_previous :: bytes
  pe_digest :: bytes

definition policy_frame :: "policy_entry \<Rightarrow> chain_frame" where
  "policy_frame e = \<lparr>cf_sequence = pe_sequence e, cf_previous = pe_previous e, cf_digest = pe_digest e,
     cf_payload = policy_payload (pe_policy e)\<rparr>"

definition registered_digest :: "policy_definition \<Rightarrow> bytes" where
  "registered_digest p = sha256 (POLICY_DIGEST_DOMAIN @ u64_le (of_nat (length (policy_payload p))) @ policy_payload p)"

definition policies_push :: "policy_registry \<Rightarrow> policy_entry \<Rightarrow> policy_registry" where
  "policies_push r e = policies_record r (pe_policy e) (registered_digest (pe_policy e)) (pe_sequence e) (pe_digest e)"

definition policies_admit :: "policy_registry \<Rightarrow> policy_entry \<Rightarrow> bool" where
  "policies_admit r e \<longleftrightarrow> policy_fits (pe_policy e) \<and> validate_policy (pe_policy e) = Inr () \<and>
     bt_get (pr_policies r) (policy_key (pe_policy e)) = None \<and>
     frame_follows POLICY_FRAME_DOMAIN (length (pr_policies r)) (pr_head_digest r) (policy_frame e)"

lemma policy_digest_valid: "validate_policy p = Inr () \<Longrightarrow> policy_digest p = Inr (registered_digest p)"
  by (simp add: policy_digest_def encode_policy_payload_def registered_digest_def)

interpretation policy_file: chained_ledger policy_reader POLICY_LEDGER_MAGIC POLICY_FRAME_DOMAIN MAX_FRAME_PAYLOAD_BYTES
  no_slack policies_replay_frame policies_push policy_frame policies_admit "\<lambda>r. length (pr_policies r)" pr_head_digest
proof unfold_locales
  fix r e
  assume a: "policies_admit r e"
  then show "policies_replay_frame r (policy_frame e) = Inr (policies_push r e)"
    by (simp add: policies_admit_def policies_replay_frame_def policy_frame_def policy_decode_ok policy_digest_valid
        policies_push_def)
  show "frame_follows POLICY_FRAME_DOMAIN (length (pr_policies r)) (pr_head_digest r) (policy_frame e)"
    using a by (simp add: policies_admit_def)
  show "length (cf_payload (policy_frame e)) \<le> MAX_FRAME_PAYLOAD_BYTES"
    using a by (simp add: policies_admit_def policy_fits_def policy_frame_def length_policy_payload MAX_FRAME_PAYLOAD_BYTES_def
        MAX_STRING_BYTES_def)
  show "length (pr_policies (policies_push r e)) = Suc (length (pr_policies r))"
    using a by (simp add: policies_admit_def policies_push_def policies_record_def length_bt_insert_new)
  show "pr_head_digest (policies_push r e) = cf_digest (policy_frame e)"
    by (simp add: policies_push_def policies_record_def policy_frame_def)
next
  fix r f r'
  assume f: "frame_follows POLICY_FRAME_DOMAIN (length (pr_policies r)) (pr_head_digest r) f"
    and s: "policies_replay_frame r f = Inr r'"
  from s obtain p where p: "decode_policy_payload (cf_payload f) = Inr p" "validate_policy p = Inr ()"
    "bt_get (pr_policies r) (policy_key p) = None"
    by (auto simp: policies_replay_frame_def rbind_eq_Inr_iff split: if_splits)
  let ?e = "\<lparr>pe_policy = p, pe_sequence = cf_sequence f, pe_previous = cf_previous f, pe_digest = cf_digest f\<rparr>"
  have "f = policy_frame ?e" using policy_decode_sound(1) [OF p(1)] by (simp add: policy_frame_def)
  with f p policy_decode_sound(2) [OF p(1)] show "\<exists>e. f = policy_frame e \<and> policies_admit r e"
    by (intro exI [of _ ?e]) (simp add: policies_admit_def)
qed

text \<open>The frame counter is the number of policies.\<close>

lemma policy_count:
  "policy_file.in_sync (policies_empty p) r bs \<Longrightarrow> pr_frame_count r = of_nat (length (pr_policies r))"
proof (induction rule: policy_file.in_sync_induct)
  case (push r bs e)
  then show ?case
    by (simp add: policies_admit_def frame_follows_def policies_push_def policies_record_def length_bt_insert_new policy_frame_def)
qed (simp add: policies_empty_def)

lemma policies_open_synced:
  assumes "policy_file.in_sync (policies_empty p) r bs" and "fget fs p = Some bs"
  shows "policies_open_strict p fs = (Inr r, fs)"
  using assms policy_file.in_sync_replay [OF assms(1)]
  by (simp add: policies_open_strict_def tc_read_file_def io_bind_def io_pure_def fs_read_def policies_empty_def zero_digest_def)

subsection \<open>Registration\<close>

definition policy_stamped :: "policy_registry \<Rightarrow> policy_definition \<Rightarrow> policy_entry" where
  "policy_stamped r p = \<lparr>pe_policy = p, pe_sequence = of_nat (length (pr_policies r)) + 1, pe_previous = pr_head_digest r,
     pe_digest = compute_frame_digest POLICY_FRAME_DOMAIN (of_nat (length (pr_policies r)) + 1) (pr_head_digest r)
       (sha256 (policy_payload p))\<rparr>"

definition policy_acceptable :: "policy_registry \<Rightarrow> policy_definition \<Rightarrow> bool" where
  "policy_acceptable r p \<longleftrightarrow> validate_policy p = Inr () \<and> bt_get (pr_policies r) (policy_key p) = None \<and>
     pr_frame_count r \<noteq> - 1"

definition policy_typed :: "policy_definition \<Rightarrow> bool" where
  "policy_typed p \<longleftrightarrow> list_all utf8_valid [pd_policy_id p, pd_policy_version p, pd_required_verifier_id p]"

lemma validated_policy_strings:
  assumes "validate_policy p = Inr ()"
  shows "length (pd_policy_id p) \<le> MAX_STRING_BYTES" and "length (pd_policy_version p) \<le> MAX_STRING_BYTES"
    and "length (pd_required_verifier_id p) \<le> MAX_STRING_BYTES"
  using assms by (auto simp: validate_policy_def rbind_eq_Inr_iff tc_validate_string_iff)

lemma validated_policy_fits: "validate_policy p = Inr () \<Longrightarrow> policy_typed p \<Longrightarrow> policy_fits p"
  using validated_policy_strings [of p] by (simp add: policy_typed_def policy_fits_def)

lemma policies_register_ok:
  assumes a: "policy_acceptable r p" and ty: "policy_typed p" and n: "pr_frame_count r = of_nat (length (pr_policies r))"
    and old: "fget fs (pr_path r) = Some old"
  shows "policies_register p r fs = (Inr (registered_digest p), policies_push r (policy_stamped r p),
     fput (pr_path r) (old @ event_bytes POLICY_LEDGER_MAGIC policy_frame (policy_stamped r p)) fs)"
proof -
  have v: "validate_policy p = Inr ()" "bt_get (pr_policies r) (policy_key p) = None" "pr_frame_count r \<noteq> - 1"
    using a by (simp_all add: policy_acceptable_def)
  have "length (policy_payload p) \<le> MAX_FRAME_PAYLOAD_BYTES"
    using validated_policy_strings [OF v(1)]
    by (simp add: length_policy_payload MAX_FRAME_PAYLOAD_BYTES_def MAX_STRING_BYTES_def)
  then have "tc_encode_frame POLICY_LEDGER_MAGIC (of_nat (length (pr_policies r)) + 1) (pr_head_digest r) (sha256 (policy_payload p))
      (pe_digest (policy_stamped r p)) (policy_payload p) = Inr (event_bytes POLICY_LEDGER_MAGIC policy_frame (policy_stamped r p))"
    by (simp add: tc_encode_frame_def encode_chain_frame_def event_bytes_def entry_bytes_def policy_frame_def Let_def
        policy_stamped_def)
  with v old n show ?thesis
    by (simp add: policies_register_def encode_policy_payload_def policy_digest_valid Let_def write_all_def policies_push_def
        policy_stamped_def)
qed

lemma policies_register_effect:
  assumes run: "policies_register p r fs = (res, r', fs')" and ty: "policy_typed p"
    and n: "pr_frame_count r = of_nat (length (pr_policies r))" and hd: "length (pr_head_digest r) = 32"
  shows "append_effect policies_admit policies_push (event_bytes POLICY_LEDGER_MAGIC policy_frame) (pr_path r) r fs r' fs'"
proof (cases "policy_acceptable r p \<and> fget fs (pr_path r) \<noteq> None")
  case False
  then have "r' = r \<and> fs' = fs" using run unfolding policies_register_def policy_acceptable_def
    by (auto simp: rbind_def write_all_def Let_def split: if_splits sum.splits prod.splits option.splits)
  then show ?thesis by simp
next
  case True
  then obtain old where old: "fget fs (pr_path r) = Some old" and a: "policy_acceptable r p" by auto
  have "policies_admit r (policy_stamped r p)"
    using a validated_policy_fits [OF _ ty] hd
    by (simp add: policy_acceptable_def policies_admit_def frame_follows_def policy_frame_def policy_stamped_def)
  from append_effect_event [of fs "pr_path r" old policies_admit, OF old this] policies_register_ok [OF a ty n old] run
  show ?thesis by simp
qed

text \<open>
  What authorisation promises: the policy is registered under the name that the request gives, its
  authority, operations and verifier are those of the request, and the number of evidence
  references is within its range; a validated policy allows at most 4096.
\<close>

definition authorized_by :: "policy_definition \<Rightarrow> commit_request \<Rightarrow> bool" where
  "authorized_by p q \<longleftrightarrow> pd_allowed_authority p = cq_authority q \<and> policy_allows p (cq_operation q) \<and>
     unat (pd_min_evidence_refs p) \<le> length (cq_evidence_refs q) \<and>
     length (cq_evidence_refs q) \<le> unat (pd_max_evidence_refs p) \<and> cq_verifier_id q = pd_required_verifier_id p \<and>
     (pd_require_unique_provenance p \<longrightarrow> distinct (map er_provenance_id (cq_evidence_refs q)))"

lemma unique_provenance_iff:
  "unique_provenance seen es = Inr () \<longleftrightarrow> distinct (map er_provenance_id es) \<and> set seen \<inter> er_provenance_id ` set es = {}"
  by (induction es arbitrary: seen) auto

lemma policies_authorize_iff:
  "policies_authorize r q = Inr d \<longleftrightarrow> bt_get (pr_digests r) (cq_policy_id q, cq_policy_version q) = Some d \<and>
     (\<exists>p. bt_get (pr_policies r) (cq_policy_id q, cq_policy_version q) = Some p \<and> authorized_by p q)"
proof -
  let ?k = "(cq_policy_id q, cq_policy_version q)"
  have chain: "(if a then Inl e1 else if b then Inl e2 else if c then Inl e3
      else if x then Inl e4 else if y then Inl e5 else rbind z (\<lambda>_. Inr d')) = Inr d \<longleftrightarrow>
      \<not> a \<and> \<not> b \<and> \<not> c \<and> \<not> x \<and> \<not> y \<and> z = Inr () \<and> d' = d"
    for a b c x y e1 e2 e3 e4 e5 z and d d' :: bytes
    by (simp add: rbind_eq_Inr_iff)
  have lim: "length (cq_evidence_refs q) \<le> unat (pd_max_evidence_refs p) \<Longrightarrow> length (cq_evidence_refs q) < 2 ^ 32" for p
    using unsigned_less [of "pd_max_evidence_refs p", where ?'a = nat] by simp
  have uq: "(if u then unique_provenance [] es else Inr ()) = Inr () \<longleftrightarrow> (u \<longrightarrow> distinct (map er_provenance_id es))" for u es
    by (simp add: unique_provenance_iff)
  show ?thesis
  proof (cases "bt_get (pr_policies r) ?k")
    case (Some p)
    have "policies_authorize r q = Inr d \<longleftrightarrow> bt_get (pr_digests r) ?k = Some d \<and> authorized_by p q"
    proof (cases "bt_get (pr_digests r) ?k")
      case (Some d')
      then show ?thesis
        unfolding policies_authorize_def Let_def \<open>bt_get (pr_policies r) ?k = Some p\<close> Some ok_or_simps rbind_simps chain uq
          authorized_by_def not_not not_less not_le de_Morgan_disj
        using lim [of p] by blast
    qed (simp add: policies_authorize_def Some Let_def)
    with Some show ?thesis by simp
  qed (simp add: policies_authorize_def Let_def)
qed

lemma synced_policies:
  assumes "policy_file.in_sync (policies_empty p) r bs"
  shows "\<forall>k pd. bt_get (pr_policies r) k = Some pd \<longrightarrow>
     policy_key pd = k \<and> validate_policy pd = Inr () \<and> bt_get (pr_digests r) k = Some (registered_digest pd)"
  using assms
proof (induction rule: policy_file.in_sync_induct)
  case (push r bs e)
  then show ?case
    by (auto simp: policies_push_def policies_record_def bt_get_insert policies_admit_def)
qed (simp add: policies_empty_def)

lemma authorized_evidence:
  assumes "policy_file.in_sync (policies_empty p) r bs" and "policies_authorize r q = Inr d"
  shows "length (cq_evidence_refs q) \<le> 4096" and "length d = 32"
proof -
  from assms(2) obtain pd where pd: "bt_get (pr_policies r) (cq_policy_id q, cq_policy_version q) = Some pd"
    "authorized_by pd q" "bt_get (pr_digests r) (cq_policy_id q, cq_policy_version q) = Some d"
    by (auto simp: policies_authorize_iff)
  from synced_policies [OF assms(1)] pd(1,3) have v: "validate_policy pd = Inr ()" and d: "d = registered_digest pd" by auto
  from v have "pd_max_evidence_refs pd \<le> 4096" by (auto simp: validate_policy_def rbind_eq_Inr_iff split: if_splits)
  then have "unat (pd_max_evidence_refs pd) \<le> 4096" by (simp add: word_le_nat_alt)
  with pd(2) show "length (cq_evidence_refs q) \<le> 4096" by (simp add: authorized_by_def)
  show "length d = 32" by (simp add: d registered_digest_def)
qed

end
