(* ===== verification/Ub_Journal.thy ===== *)
theory Ub_Journal
  imports Ub_Policy
begin

text \<open>
  The journal of the trust co-commit (\<open>ultraballoondb-trust-commit/src/lib.rs\<close>): one entry per
  stage that a transaction has reached, in a file of chained frames. \<open>append\<close> checks that the stage
  follows the last one of the transaction and that nothing else of the transaction has changed.
\<close>

subsection \<open>Stages and entries\<close>

definition COMMIT_LEDGER_MAGIC :: bytes where "COMMIT_LEDGER_MAGIC = lit ''UBTCJ01'' @ [0]"
definition COMMIT_PAYLOAD_MAGIC :: bytes where "COMMIT_PAYLOAD_MAGIC = lit ''UBTCP01'' @ [0]"
definition COMMIT_FRAME_DOMAIN :: bytes where "COMMIT_FRAME_DOMAIN = lit ''UBTCJFR1''"
definition REQUEST_DIGEST_DOMAIN :: bytes where "REQUEST_DIGEST_DOMAIN = lit ''UBTRREQ1''"
definition COMMIT_PAYLOAD_FIXED_BYTES :: nat where "COMMIT_PAYLOAD_FIXED_BYTES = 320"

datatype commit_stage = Co_Prepared | Co_DatabaseCommitted | Co_TrustCommitted | Co_Finalized | Co_Aborted

fun stage_code :: "commit_stage \<Rightarrow> u8" where
  "stage_code Co_Prepared = 1"
| "stage_code Co_DatabaseCommitted = 2"
| "stage_code Co_TrustCommitted = 3"
| "stage_code Co_Finalized = 4"
| "stage_code Co_Aborted = 5"

definition stage_from_code :: "u8 \<Rightarrow> tc_error + commit_stage" where
  "stage_from_code v =
     (if v = 1 then Inr Co_Prepared else if v = 2 then Inr Co_DatabaseCommitted else if v = 3 then Inr Co_TrustCommitted
      else if v = 4 then Inr Co_Finalized else if v = 5 then Inr Co_Aborted
      else Inl (Tc_Invalid (lit ''unknown commit stage code '' @ dec_bytes (unat v))))"

fun stage_terminal :: "commit_stage \<Rightarrow> bool" where
  "stage_terminal Co_Finalized = True"
| "stage_terminal Co_Aborted = True"
| "stage_terminal _ = False"

text \<open>The derived \<open>Debug\<close> format.\<close>

fun stage_debug :: "commit_stage \<Rightarrow> str" where
  "stage_debug Co_Prepared = lit ''Prepared''"
| "stage_debug Co_DatabaseCommitted = lit ''DatabaseCommitted''"
| "stage_debug Co_TrustCommitted = lit ''TrustCommitted''"
| "stage_debug Co_Finalized = lit ''Finalized''"
| "stage_debug Co_Aborted = lit ''Aborted''"

record journal_entry =
  je_sequence :: u64
  je_transaction_id :: bytes
  je_stage :: commit_stage
  je_request :: commit_request
  je_record_digest :: bytes
  je_policy_digest :: bytes
  je_request_digest :: bytes
  je_trust_pre_head :: bytes
  je_expected_trust_sequence :: u64
  je_binding_record_id :: str
  je_binding_record_digest :: bytes
  je_database_state_digest :: bytes
  je_trust_transition_id :: bytes
  je_previous_digest :: bytes
  je_digest :: bytes

record commit_journal =
  cj_path :: path
  cj_entries :: "journal_entry list"
  cj_latest :: "(bytes, journal_entry) btree"
  cj_head_digest :: bytes

definition tc_operation_from_code :: "u8 \<Rightarrow> tc_error + trust_operation" where
  "tc_operation_from_code v =
     (if v = 1 then Inr Propose else if v = 2 then Inr Promote
      else if v = 3 then Inr Dispute else if v = 4 then Inr Revoke
      else if v = 5 then Inr Expire else if v = 6 then Inr Supersede
      else Inl (Tc_Invalid (lit ''unknown trust operation code '' @ dec_bytes (unat v))))"

fun tc_validate_evidence :: "str list \<Rightarrow> evidence_ref list \<Rightarrow> tc_error + unit" where
  "tc_validate_evidence seen [] = Inr ()"
| "tc_validate_evidence seen (e # es) =
     rbind (tc_validate_string (lit ''evidence_id'') (er_evidence_id e)) (\<lambda>_.
     rbind (tc_validate_string (lit ''provenance_id'') (er_provenance_id e)) (\<lambda>_.
     if list_all (\<lambda>b. b = 0) (er_evidence_digest e) then Inl (Tc_Invalid (lit ''evidence digest cannot be zero''))
     else if er_evidence_id e \<in> set seen
     then Inl (Tc_Invalid (lit ''duplicate evidence ID: '' @ er_evidence_id e))
     else tc_validate_evidence (bset_insert (er_evidence_id e) seen) es))"

definition validate_request :: "commit_request \<Rightarrow> tc_error + unit" where
  "validate_request q =
     rbind (tc_validate_string (lit ''record_id'') (cq_record_id q)) (\<lambda>_.
     rbind (tc_validate_string (lit ''policy_id'') (cq_policy_id q)) (\<lambda>_.
     rbind (tc_validate_string (lit ''policy_version'') (cq_policy_version q)) (\<lambda>_.
     rbind (tc_validate_string (lit ''verifier_id'') (cq_verifier_id q)) (\<lambda>_.
     rbind (tc_validate_string (lit ''reason_code'') (cq_reason_code q)) (\<lambda>_.
     if cq_logical_timestamp q = 0 then Inl (Tc_Invalid (lit ''logical_timestamp must be greater than zero''))
     else if cq_evidence_refs q = [] then Inl (Tc_Invalid (lit ''at least one evidence reference is required''))
     else
       rbind (tc_validate_evidence [] (cq_evidence_refs q)) (\<lambda>_.
       case cq_superseding_record_id q of
         Some value \<Rightarrow> tc_validate_string (lit ''superseding_record_id'') value
       | None \<Rightarrow> Inr ()))))))"

definition compute_request_digest :: "commit_request \<Rightarrow> bytes" where
  "compute_request_digest q = sha256 (REQUEST_DIGEST_DOMAIN
     @ [trust_operation_code (cq_operation q), authority_code (cq_authority q)] @ replicate 6 0
     @ push_string (cq_record_id q) @ push_string (cq_policy_id q) @ push_string (cq_policy_version q)
     @ push_string (cq_verifier_id q) @ push_string (cq_reason_code q)
     @ tc_push_optional_string (cq_superseding_record_id q) @ u64_le (cq_logical_timestamp q)
     @ u32_le (of_nat (length (cq_evidence_refs q)))
     @ concat (map (\<lambda>e. push_string (er_evidence_id e) @ push_string (er_provenance_id e) @ er_evidence_digest e)
         (cq_evidence_refs q)))"

subsection \<open>Encoding\<close>

definition commit_payload :: "journal_entry \<Rightarrow> bytes" where
  "commit_payload e =
     (let q = je_request e; superseding = superseding_text (cq_superseding_record_id q) in
      COMMIT_PAYLOAD_MAGIC
      @ [stage_code (je_stage e), trust_operation_code (cq_operation q), authority_code (cq_authority q), 0] @ replicate 4 0
      @ u32_le (of_nat (length (cq_record_id q))) @ u32_le (of_nat (length (cq_policy_id q)))
      @ u32_le (of_nat (length (cq_policy_version q))) @ u32_le (of_nat (length (cq_verifier_id q)))
      @ u32_le (of_nat (length (cq_reason_code q))) @ u32_le (of_nat (length superseding))
      @ u32_le (of_nat (length (je_binding_record_id e))) @ u32_le (of_nat (length (cq_evidence_refs q)))
      @ u64_le (je_expected_trust_sequence e) @ u64_le (cq_logical_timestamp q)
      @ je_transaction_id e @ je_record_digest e @ je_policy_digest e @ je_request_digest e @ je_trust_pre_head e
      @ je_trust_transition_id e @ je_database_state_digest e @ je_binding_record_digest e
      @ cq_record_id q @ cq_policy_id q @ cq_policy_version q @ cq_verifier_id q @ cq_reason_code q @ superseding
      @ je_binding_record_id e @ concat (map evidence_bytes (cq_evidence_refs q)))"

definition tc_encode_commit_payload :: "journal_entry \<Rightarrow> tc_error + bytes" where
  "tc_encode_commit_payload e =
     rbind (validate_request (je_request e)) (\<lambda>_.
     if MAX_FRAME_PAYLOAD_BYTES < length (commit_payload e)
     then Inl (Tc_Invalid (lit ''commit journal payload exceeds maximum''))
     else Inr (commit_payload e))"

fun tc_decode_evidence :: "nat \<Rightarrow> bytes \<Rightarrow> nat \<Rightarrow> tc_error + evidence_ref list \<times> nat" where
  "tc_decode_evidence 0 payload cursor = Inr ([], cursor)"
| "tc_decode_evidence (Suc n) payload cursor =
     (if length payload < cursor + 40 then Inl (Tc_Invalid (lit ''truncated evidence reference''))
      else
        rbind (tc_read_u32 payload cursor) (\<lambda>evidence_id_bytes.
        rbind (tc_read_u32 payload (cursor + 4)) (\<lambda>provenance_id_bytes.
        rbind (tc_read_digest payload (cursor + 8)) (\<lambda>evidence_digest.
        rbind (tc_read_string payload (cursor + 40) (unat evidence_id_bytes) (lit ''evidence_id'')) (\<lambda>(evidence_id, c1).
        rbind (tc_read_string payload c1 (unat provenance_id_bytes) (lit ''provenance_id'')) (\<lambda>(provenance_id, c2).
        rbind (tc_decode_evidence n payload c2) (\<lambda>(es, c3).
        Inr (\<lparr>er_evidence_id = evidence_id, er_provenance_id = provenance_id,
              er_evidence_digest = evidence_digest\<rparr> # es, c3))))))))"

definition tc_decode_commit_payload :: "bytes \<Rightarrow> tc_error + journal_entry" where
  "tc_decode_commit_payload payload =
     (if length payload < COMMIT_PAYLOAD_FIXED_BYTES
      then Inl (Tc_Invalid (lit ''commit payload shorter than fixed header''))
      else if slice payload 0 8 \<noteq> COMMIT_PAYLOAD_MAGIC then Inl (Tc_Invalid (lit ''commit payload magic mismatch''))
      else
        rbind (stage_from_code (payload ! 8)) (\<lambda>stage.
        rbind (tc_operation_from_code (payload ! 9)) (\<lambda>operation.
        rbind (tc_authority_from_code (payload ! 10)) (\<lambda>authority.
        if payload ! 11 \<noteq> 0 \<or> slice payload 12 16 \<noteq> replicate 4 0
        then Inl (Tc_Invalid (lit ''commit payload reserved bytes are non-zero''))
        else
          rbind (tc_read_u32 payload 16) (\<lambda>record_id_bytes.
          rbind (tc_read_u32 payload 20) (\<lambda>policy_id_bytes.
          rbind (tc_read_u32 payload 24) (\<lambda>policy_version_bytes.
          rbind (tc_read_u32 payload 28) (\<lambda>verifier_id_bytes.
          rbind (tc_read_u32 payload 32) (\<lambda>reason_code_bytes.
          rbind (tc_read_u32 payload 36) (\<lambda>superseding_bytes.
          rbind (tc_read_u32 payload 40) (\<lambda>binding_record_id_bytes.
          rbind (tc_read_u32 payload 44) (\<lambda>evidence_count.
          if 4096 < unat evidence_count then Inl (Tc_Invalid (lit ''commit evidence count exceeds maximum''))
          else
            rbind (tc_read_u64 payload 48) (\<lambda>expected_trust_sequence.
            rbind (tc_read_u64 payload 56) (\<lambda>logical_timestamp.
            rbind (tc_read_digest payload 64) (\<lambda>transaction_id.
            rbind (tc_read_digest payload 96) (\<lambda>record_digest.
            rbind (tc_read_digest payload 128) (\<lambda>policy_digest.
            rbind (tc_read_digest payload 160) (\<lambda>request_digest.
            rbind (tc_read_digest payload 192) (\<lambda>trust_pre_head.
            rbind (tc_read_digest payload 224) (\<lambda>trust_transition_id.
            rbind (tc_read_digest payload 256) (\<lambda>database_state_digest.
            rbind (tc_read_digest payload 288) (\<lambda>binding_record_digest.
            rbind (tc_read_string payload COMMIT_PAYLOAD_FIXED_BYTES (unat record_id_bytes) (lit ''record_id''))
              (\<lambda>(record_id, c1).
            rbind (tc_read_string payload c1 (unat policy_id_bytes) (lit ''policy_id'')) (\<lambda>(policy_id, c2).
            rbind (tc_read_string payload c2 (unat policy_version_bytes) (lit ''policy_version'')) (\<lambda>(policy_version, c3).
            rbind (tc_read_string payload c3 (unat verifier_id_bytes) (lit ''verifier_id'')) (\<lambda>(verifier_id, c4).
            rbind (tc_read_string payload c4 (unat reason_code_bytes) (lit ''reason_code'')) (\<lambda>(reason_code, c5).
            rbind (tc_read_string payload c5 (unat superseding_bytes) (lit ''superseding_record_id''))
              (\<lambda>(superseding_value, c6).
            rbind (tc_read_string payload c6 (unat binding_record_id_bytes) (lit ''binding_record_id''))
              (\<lambda>(binding_record_id, c7).
            rbind (tc_decode_evidence (unat evidence_count) payload c7) (\<lambda>(evidence_refs, c8).
            if c8 \<noteq> length payload then Inl (Tc_Invalid (lit ''commit payload contains trailing bytes''))
            else
              let q = \<lparr>cq_record_id = record_id, cq_operation = operation, cq_authority = authority,
                    cq_evidence_refs = evidence_refs, cq_policy_id = policy_id, cq_policy_version = policy_version,
                    cq_verifier_id = verifier_id, cq_logical_timestamp = logical_timestamp, cq_reason_code = reason_code,
                    cq_superseding_record_id = (if superseding_value = [] then None else Some superseding_value)\<rparr> in
              rbind (validate_request q) (\<lambda>_.
              if compute_request_digest q \<noteq> request_digest then Inl (Tc_Invalid (lit ''commit request digest mismatch''))
              else Inr \<lparr>je_sequence = 0, je_transaction_id = transaction_id, je_stage = stage, je_request = q,
                     je_record_digest = record_digest, je_policy_digest = policy_digest, je_request_digest = request_digest,
                     je_trust_pre_head = trust_pre_head, je_expected_trust_sequence = expected_trust_sequence,
                     je_binding_record_id = binding_record_id, je_binding_record_digest = binding_record_digest,
                     je_database_state_digest = database_state_digest, je_trust_transition_id = trust_transition_id,
                     je_previous_digest = replicate 32 0, je_digest = replicate 32 0\<rparr>)))))))))))))))))))))))))))))))"

subsection \<open>Rules of the stages\<close>

fun stage_follows :: "commit_stage option \<Rightarrow> commit_stage \<Rightarrow> bool" where
  "stage_follows None Co_Prepared = True"
| "stage_follows (Some Co_Prepared) Co_DatabaseCommitted = True"
| "stage_follows (Some Co_Prepared) Co_Aborted = True"
| "stage_follows (Some Co_DatabaseCommitted) Co_TrustCommitted = True"
| "stage_follows (Some Co_TrustCommitted) Co_Finalized = True"
| "stage_follows _ _ = False"

definition validate_stage_transition :: "commit_stage option \<Rightarrow> commit_stage \<Rightarrow> tc_error + unit" where
  "validate_stage_transition previous nxt =
     (if \<not> stage_follows previous nxt
      then Inl (Tc_Invalid (lit ''invalid commit stage transition: previous=''
             @ (case previous of None \<Rightarrow> lit ''None'' | Some s \<Rightarrow> lit ''Some('' @ stage_debug s @ lit '')'')
             @ lit '' next='' @ stage_debug nxt))
      else Inr ())"

definition validate_stage_payload :: "journal_entry \<Rightarrow> tc_error + unit" where
  "validate_stage_payload e =
     (let zero = replicate 32 0 in
      case je_stage e of
        Co_Prepared \<Rightarrow>
          if je_database_state_digest e \<noteq> zero \<or> je_trust_transition_id e \<noteq> zero
          then Inl (Tc_Invalid (lit ''PREPARED stage contains committed digests'')) else Inr ()
      | Co_DatabaseCommitted \<Rightarrow>
          if je_database_state_digest e = zero \<or> je_trust_transition_id e \<noteq> zero
          then Inl (Tc_Invalid (lit ''DATABASE_COMMITTED stage digest contract failed'')) else Inr ()
      | Co_Aborted \<Rightarrow>
          if je_trust_transition_id e \<noteq> zero
          then Inl (Tc_Invalid (lit ''ABORTED stage cannot contain trust transition ID'')) else Inr ()
      | _ \<Rightarrow>
          if je_database_state_digest e = zero \<or> je_trust_transition_id e = zero
          then Inl (Tc_Invalid (lit ''trust/final stage digest contract failed'')) else Inr ())"

definition validate_same_transaction :: "journal_entry \<Rightarrow> journal_entry \<Rightarrow> tc_error + unit" where
  "validate_same_transaction previous nxt =
     (if je_transaction_id previous \<noteq> je_transaction_id nxt \<or> je_request previous \<noteq> je_request nxt
         \<or> je_record_digest previous \<noteq> je_record_digest nxt \<or> je_policy_digest previous \<noteq> je_policy_digest nxt
         \<or> je_request_digest previous \<noteq> je_request_digest nxt \<or> je_trust_pre_head previous \<noteq> je_trust_pre_head nxt
         \<or> je_expected_trust_sequence previous \<noteq> je_expected_trust_sequence nxt
         \<or> je_binding_record_id previous \<noteq> je_binding_record_id nxt
         \<or> je_binding_record_digest previous \<noteq> je_binding_record_digest nxt
      then Inl (Tc_Invalid (lit ''commit journal transaction fields changed between stages''))
      else if (je_stage previous = Co_DatabaseCommitted \<or> je_stage previous = Co_TrustCommitted)
         \<and> je_database_state_digest previous \<noteq> je_database_state_digest nxt
      then Inl (Tc_Invalid (lit ''database state digest changed after DATABASE_COMMITTED''))
      else if je_stage previous = Co_TrustCommitted \<and> je_trust_transition_id previous \<noteq> je_trust_transition_id nxt
      then Inl (Tc_Invalid (lit ''trust transition ID changed after TRUST_COMMITTED''))
      else validate_stage_payload nxt)"

text \<open>The checks that \<open>append\<close> and \<open>replay\<close> share.\<close>

definition validate_entry :: "commit_journal \<Rightarrow> journal_entry \<Rightarrow> tc_error + unit" where
  "validate_entry j e =
     (let previous = bt_get (cj_latest j) (je_transaction_id e) in
      rbind (validate_stage_transition (map_option je_stage previous) (je_stage e)) (\<lambda>_.
      case previous of Some p \<Rightarrow> validate_same_transaction p e | None \<Rightarrow> validate_stage_payload e))"

subsection \<open>The journal\<close>

definition journal_empty :: "path \<Rightarrow> commit_journal" where
  "journal_empty path = \<lparr>cj_path = path, cj_entries = [], cj_latest = [], cj_head_digest = replicate 32 0\<rparr>"

definition journal_create :: "path \<Rightarrow> (tc_error, commit_journal) io" where
  "journal_create path = io_bind (tc_create_file (lit ''commit journal'') path) (\<lambda>_. io_ret (journal_empty path))"

definition journal_pending :: "commit_journal \<Rightarrow> journal_entry list" where
  "journal_pending j = filter (\<lambda>e. \<not> stage_terminal (je_stage e)) (bt_values (cj_latest j))"

definition journal_record :: "commit_journal \<Rightarrow> journal_entry \<Rightarrow> commit_journal" where
  "journal_record j e = j\<lparr>cj_head_digest := je_digest e, cj_entries := cj_entries j @ [e],
     cj_latest := bt_insert (je_transaction_id e) e (cj_latest j)\<rparr>"

definition journal_append ::
  "journal_entry \<Rightarrow> commit_journal \<Rightarrow> fsys \<Rightarrow> (tc_error + journal_entry) \<times> commit_journal \<times> fsys" where
  "journal_append entry j fs =
     (case rbind (validate_entry j entry) (\<lambda>_.
           if (of_nat (length (cj_entries j)) :: u64) = - 1
           then Inl (Tc_Invalid (lit ''commit journal sequence overflow''))
           else
             let seqno = of_nat (length (cj_entries j)) + 1;
                 e = entry\<lparr>je_sequence := seqno, je_previous_digest := cj_head_digest j\<rparr> in
             rbind (tc_encode_commit_payload e) (\<lambda>payload.
             let payload_digest = sha256 payload;
                 frame_digest = compute_frame_digest COMMIT_FRAME_DOMAIN seqno (cj_head_digest j) payload_digest in
             rbind (tc_encode_frame COMMIT_LEDGER_MAGIC seqno (cj_head_digest j) payload_digest frame_digest payload) (\<lambda>frame.
             Inr (e\<lparr>je_digest := frame_digest\<rparr>, frame)))) of
        Inl err \<Rightarrow> (Inl err, j, fs)
      | Inr (e, frame) \<Rightarrow>
          case write_all (cj_path j) frame fs of
            (Inl err, fs1) \<Rightarrow> (Inl (Tc_Io err), j, fs1)
          | (Inr _, fs1) \<Rightarrow> (Inr e, journal_record j e, fs1))"

definition journal_replay_frame :: "commit_journal \<Rightarrow> chain_frame \<Rightarrow> tc_error + commit_journal" where
  "journal_replay_frame j f =
     rbind (tc_decode_commit_payload (cf_payload f)) (\<lambda>entry.
     rbind (validate_entry j entry) (\<lambda>_.
     Inr (journal_record j (entry\<lparr>je_sequence := cf_sequence f, je_previous_digest := cf_previous f,
       je_digest := cf_digest f\<rparr>))))"

definition journal_reader :: "tc_error chain_reader" where
  "journal_reader = tc_reader (lit ''commit journal'') COMMIT_LEDGER_MAGIC COMMIT_FRAME_DOMAIN"

definition journal_open_strict :: "path \<Rightarrow> (tc_error, commit_journal) io" where
  "journal_open_strict path =
     io_bind (tc_read_file (lit ''commit journal'') path) (\<lambda>bytes.
     io_pure (chain_replay journal_reader journal_replay_frame (journal_empty path) bytes))"

subsection \<open>The payload codec\<close>

definition request_fits :: "commit_request \<Rightarrow> bool" where
  "request_fits q \<longleftrightarrow> list_all text_ok [cq_record_id q, cq_policy_id q, cq_policy_version q, cq_verifier_id q,
       cq_reason_code q, superseding_text (cq_superseding_record_id q)] \<and>
     list_all evidence_ok (cq_evidence_refs q) \<and> length (cq_evidence_refs q) \<le> 4096 \<and>
     cq_superseding_record_id q \<noteq> Some []"

definition entry_fits :: "journal_entry \<Rightarrow> bool" where
  "entry_fits e \<longleftrightarrow> request_fits (je_request e) \<and> text_ok (je_binding_record_id e) \<and>
     list_all (\<lambda>d. length d = 32) [je_transaction_id e, je_record_digest e, je_policy_digest e, je_request_digest e,
       je_trust_pre_head e, je_trust_transition_id e, je_database_state_digest e, je_binding_record_digest e]"

definition entry_bare :: "journal_entry \<Rightarrow> journal_entry" where
  "entry_bare e = e\<lparr>je_sequence := 0, je_previous_digest := replicate 32 0, je_digest := replicate 32 0\<rparr>"

lemma length_commit_magics [simp]: "length COMMIT_LEDGER_MAGIC = 8" "length COMMIT_PAYLOAD_MAGIC = 8"
  by (simp_all add: COMMIT_LEDGER_MAGIC_def COMMIT_PAYLOAD_MAGIC_def lit_def)

lemma stage_codes [simp]: "stage_from_code (stage_code s) = Inr s"
  by (cases s) (simp_all add: stage_from_code_def)

lemma tc_operation_codes [simp]: "tc_operation_from_code (trust_operation_code x) = Inr x"
  by (cases x) (simp_all add: tc_operation_from_code_def)

lemma commit_codes_inv:
  "stage_from_code c = Inr s \<Longrightarrow> c = stage_code s" "tc_operation_from_code c = Inr x \<Longrightarrow> c = trust_operation_code x"
  by (auto simp: stage_from_code_def tc_operation_from_code_def split: if_splits)

lemma tc_decode_evidence_ok:
  assumes "list_all evidence_ok es" and "drop cur p = concat (map evidence_bytes es) @ rest" and "cur \<le> length p"
    and "length p < usize_limit"
  shows "tc_decode_evidence (length es) p cur = Inr (es, cur + length (concat (map evidence_bytes es)))"
  using assms(1-3)
proof (induction es arbitrary: cur)
  case (Cons e es)
  let ?a = "er_evidence_id e" and ?b = "er_provenance_id e" and ?d = "er_evidence_digest e"
  have ok: "text_ok ?a" "text_ok ?b" "length ?d = 32" using Cons.prems(1) by (auto simp: evidence_ok_def)
  have dr: "drop cur p = (u32_le (of_nat (length ?a)) @ u32_le (of_nat (length ?b)) @ ?d) @ ?a @ ?b
      @ concat (map evidence_bytes es) @ rest"
    using Cons.prems(2) by (simp add: evidence_bytes_def [of e])
  then have "40 \<le> length (drop cur p)" using ok(3) by (simp only: dr) simp
  with Cons.prems(3) have len: "cur + 40 \<le> length p" by simp
  have d40: "drop (cur + 40) p = ?a @ ?b @ concat (map evidence_bytes es) @ rest"
    using drop_after [OF dr] ok(3) by simp
  have tl: "length ?a \<le> MAX_STRING_BYTES" "length ?b \<le> MAX_STRING_BYTES" "utf8_valid ?a" "utf8_valid ?b"
    using ok by (simp_all add: text_ok_def)
  note r1 = tc_read_string_at [OF d40 tl(3,1) assms(4) len]
  note r2 = tc_read_string_at [OF r1(2) tl(4,2) assms(4) r1(3)]
  have r: "tc_read_u32 p cur = Inr (of_nat (length ?a))" "tc_read_u32 p (cur + 4) = Inr (of_nat (length ?b))"
    "tc_read_digest p (cur + 8) = Inr ?d"
    using len dr ok(3) by (simp_all add: tc_read_ok slice_def drop_drop [symmetric] add.commute [of cur] del: drop_drop)
  have "tc_decode_evidence (length es) p (cur + 40 + length ?a + length ?b) =
      Inr (es, cur + 40 + length ?a + length ?b + length (concat (map evidence_bytes es)))"
    using Cons.prems(1) r2(2,3) by (intro Cons.IH) simp_all
  with len r1(1) r2(1) ok show ?case
    by (simp add: r text_length length_evidence_bytes evidence_ok_def cong: rbind_weak_cong)
qed simp

lemma tc_decode_evidence_sound:
  assumes "tc_decode_evidence n p c = Inr (es, c')" and "c \<le> length p"
  shows "length es = n \<and> list_all evidence_ok es \<and> c' \<le> length p \<and> drop c p = concat (map evidence_bytes es) @ drop c' p"
  using assms
proof (induction n arbitrary: c es)
  case (Suc n)
  then obtain a b d s1 c1 s2 c2 es' where le: "c + 40 \<le> length p"
    and r: "tc_read_u32 p c = Inr a" "tc_read_u32 p (c + 4) = Inr b" "tc_read_digest p (c + 8) = Inr d"
    and s1: "tc_read_string p (c + 40) (unat a) (lit ''evidence_id'') = Inr (s1, c1)"
    and s2: "tc_read_string p c1 (unat b) (lit ''provenance_id'') = Inr (s2, c2)"
    and d: "tc_decode_evidence n p c2 = Inr (es', c')"
    and es: "es = \<lparr>er_evidence_id = s1, er_provenance_id = s2, er_evidence_digest = d\<rparr> # es'"
    by (auto simp: rbind_eq_Inr_iff split: if_splits)
  note t1 = tc_read_string_sound [OF s1] and t2 = tc_read_string_sound [OF s2]
  have f: "slice p c (c + 4) = u32_le a" "slice p (c + 4) (c + 8) = u32_le b" "slice p (c + 8) (c + 40) = d"
    using r le by (simp_all add: tc_read_ok from_le_eq_iff length_slice add.commute [of c])
  then have ld: "length d = 32" using le by (auto simp: length_slice)
  have "drop c p = slice p c (c + 4) @ slice p (c + 4) (c + 8) @ slice p (c + 8) (c + 40) @ drop (c + 40) p"
    using pieces_eq [of c "[4, 4, 32]" p] by (simp add: add.assoc)
  also have "\<dots> = evidence_bytes \<lparr>er_evidence_id = s1, er_provenance_id = s2, er_evidence_digest = d\<rparr> @ drop c2 p"
    unfolding f t1(1) t2(1) using t1(3) t2(3) by (simp add: evidence_bytes_def)
  finally have dc: "drop c p = evidence_bytes \<lparr>er_evidence_id = s1, er_provenance_id = s2, er_evidence_digest = d\<rparr> @ drop c2 p" .
  from Suc.IH [OF d t2(6)] dc t1(2-4) t2(2-4) ld show ?case
    by (simp add: es evidence_ok_def text_ok_def)
qed simp

lemma length_commit_payload:
  assumes "entry_fits e"
  defines "q \<equiv> je_request e"
  shows "length (commit_payload e) = 320 + length (cq_record_id q) + length (cq_policy_id q) + length (cq_policy_version q)
    + length (cq_verifier_id q) + length (cq_reason_code q) + length (superseding_text (cq_superseding_record_id q))
    + length (je_binding_record_id e) + length (concat (map evidence_bytes (cq_evidence_refs q)))"
  using assms(1) by (simp add: commit_payload_def entry_fits_def Let_def q_def)

lemma commit_payload_fields:
  fixes e
  assumes "entry_fits e"
  defines "p \<equiv> commit_payload e" and "q \<equiv> je_request e"
  shows "slice p 0 8 = COMMIT_PAYLOAD_MAGIC" "p ! 8 = stage_code (je_stage e)" "p ! 9 = trust_operation_code (cq_operation q)"
    "p ! 10 = authority_code (cq_authority q)" "p ! 11 = 0" "slice p 12 16 = replicate 4 0"
    "slice p 16 20 = u32_le (of_nat (length (cq_record_id q)))" "slice p 20 24 = u32_le (of_nat (length (cq_policy_id q)))"
    "slice p 24 28 = u32_le (of_nat (length (cq_policy_version q)))"
    "slice p 28 32 = u32_le (of_nat (length (cq_verifier_id q)))" "slice p 32 36 = u32_le (of_nat (length (cq_reason_code q)))"
    "slice p 36 40 = u32_le (of_nat (length (superseding_text (cq_superseding_record_id q))))"
    "slice p 40 44 = u32_le (of_nat (length (je_binding_record_id e)))"
    "slice p 44 48 = u32_le (of_nat (length (cq_evidence_refs q)))"
    "slice p 48 56 = u64_le (je_expected_trust_sequence e)" "slice p 56 64 = u64_le (cq_logical_timestamp q)"
    "slice p 64 96 = je_transaction_id e" "slice p 96 128 = je_record_digest e" "slice p 128 160 = je_policy_digest e"
    "slice p 160 192 = je_request_digest e" "slice p 192 224 = je_trust_pre_head e"
    "slice p 224 256 = je_trust_transition_id e" "slice p 256 288 = je_database_state_digest e"
    "slice p 288 320 = je_binding_record_digest e"
    "drop 320 p = cq_record_id q @ cq_policy_id q @ cq_policy_version q @ cq_verifier_id q @ cq_reason_code q
       @ superseding_text (cq_superseding_record_id q) @ je_binding_record_id e
       @ concat (map evidence_bytes (cq_evidence_refs q)) @ []"
  using assms(1) by (simp_all add: p_def q_def commit_payload_def entry_fits_def slice_def nth_append Let_def)

definition entry_consistent :: "journal_entry \<Rightarrow> bool" where
  "entry_consistent e \<longleftrightarrow> validate_request (je_request e) = Inr () \<and>
     compute_request_digest (je_request e) = je_request_digest e"

lemma superseding_text_inv: "v \<noteq> Some [] \<Longrightarrow> (if superseding_text v = [] then None else Some (superseding_text v)) = v"
  by (cases v) (simp_all add: superseding_text_def)

lemma commit_decode_ok:
  assumes f: "entry_fits e" and c: "entry_consistent e" and small: "length (commit_payload e) \<le> MAX_FRAME_PAYLOAD_BYTES"
  shows "tc_decode_commit_payload (commit_payload e) = Inr (entry_bare e)"
proof -
  let ?p = "commit_payload e" and ?q = "je_request e"
  let ?s = "superseding_text (cq_superseding_record_id ?q)"
  note fs = commit_payload_fields [OF f] and len = length_commit_payload [OF f]
  have t: "text_ok (cq_record_id ?q)" "text_ok (cq_policy_id ?q)" "text_ok (cq_policy_version ?q)"
    "text_ok (cq_verifier_id ?q)" "text_ok (cq_reason_code ?q)" "text_ok ?s" "text_ok (je_binding_record_id e)"
    and ev: "list_all evidence_ok (cq_evidence_refs ?q)" "length (cq_evidence_refs ?q) \<le> 4096"
      "cq_superseding_record_id ?q \<noteq> Some []"
    using f by (simp_all add: entry_fits_def request_fits_def)
  note u = text_ok_def [THEN iffD1, THEN conjunct1] and m = text_ok_def [THEN iffD1, THEN conjunct2]
  have l: "length ?p < usize_limit" "320 \<le> length ?p"
    using small len by (simp_all add: MAX_FRAME_PAYLOAD_BYTES_def usize_limit_def)
  note r1 = tc_read_string_at [OF fs(25) u [OF t(1)] m [OF t(1)] l]
  note r2 = tc_read_string_at [OF r1(2) u [OF t(2)] m [OF t(2)] l(1) r1(3)]
  note r3 = tc_read_string_at [OF r2(2) u [OF t(3)] m [OF t(3)] l(1) r2(3)]
  note r4 = tc_read_string_at [OF r3(2) u [OF t(4)] m [OF t(4)] l(1) r3(3)]
  note r5 = tc_read_string_at [OF r4(2) u [OF t(5)] m [OF t(5)] l(1) r4(3)]
  note r6 = tc_read_string_at [OF r5(2) u [OF t(6)] m [OF t(6)] l(1) r5(3)]
  note r7 = tc_read_string_at [OF r6(2) u [OF t(7)] m [OF t(7)] l(1) r6(3)]
  note r8 = tc_decode_evidence_ok [OF ev(1) r7(2) r7(3) l(1)]
  have n: "unat (of_nat (length (cq_evidence_refs ?q)) :: u32) = length (cq_evidence_refs ?q)"
    using ev(2) by (simp add: unat_u32_small)
  have stop: "320 + length (cq_record_id ?q) + length (cq_policy_id ?q) + length (cq_policy_version ?q)
      + length (cq_verifier_id ?q) + length (cq_reason_code ?q) + length ?s + length (je_binding_record_id e)
      + length (concat (map evidence_bytes (cq_evidence_refs ?q))) = length ?p"
    using len by simp
  have rd: "tc_read_u32 ?p 16 = Inr (of_nat (length (cq_record_id ?q)))" "tc_read_u32 ?p 20 = Inr (of_nat (length (cq_policy_id ?q)))"
    "tc_read_u32 ?p 24 = Inr (of_nat (length (cq_policy_version ?q)))" "tc_read_u32 ?p 28 = Inr (of_nat (length (cq_verifier_id ?q)))"
    "tc_read_u32 ?p 32 = Inr (of_nat (length (cq_reason_code ?q)))" "tc_read_u32 ?p 36 = Inr (of_nat (length ?s))"
    "tc_read_u32 ?p 40 = Inr (of_nat (length (je_binding_record_id e)))"
    "tc_read_u32 ?p 44 = Inr (of_nat (length (cq_evidence_refs ?q)))"
    "tc_read_u64 ?p 48 = Inr (je_expected_trust_sequence e)" "tc_read_u64 ?p 56 = Inr (cq_logical_timestamp ?q)"
    "tc_read_digest ?p 64 = Inr (je_transaction_id e)" "tc_read_digest ?p 96 = Inr (je_record_digest e)"
    "tc_read_digest ?p 128 = Inr (je_policy_digest e)" "tc_read_digest ?p 160 = Inr (je_request_digest e)"
    "tc_read_digest ?p 192 = Inr (je_trust_pre_head e)" "tc_read_digest ?p 224 = Inr (je_trust_transition_id e)"
    "tc_read_digest ?p 256 = Inr (je_database_state_digest e)" "tc_read_digest ?p 288 = Inr (je_binding_record_digest e)"
    using l(2) by (simp_all add: tc_read_ok fs(7-24))
  have q: "\<lparr>cq_record_id = cq_record_id ?q, cq_operation = cq_operation ?q, cq_authority = cq_authority ?q,
      cq_evidence_refs = cq_evidence_refs ?q, cq_policy_id = cq_policy_id ?q, cq_policy_version = cq_policy_version ?q,
      cq_verifier_id = cq_verifier_id ?q, cq_logical_timestamp = cq_logical_timestamp ?q, cq_reason_code = cq_reason_code ?q,
      cq_superseding_record_id = (if ?s = [] then None else Some ?s)\<rparr> = ?q"
    unfolding superseding_text_inv [OF ev(3)] by simp
  show ?thesis
    unfolding tc_decode_commit_payload_def COMMIT_PAYLOAD_FIXED_BYTES_def
    using l(2) ev(2) c
    by (simp add: fs(1-6) rd text_length [OF t(1)] text_length [OF t(2)] text_length [OF t(3)] text_length [OF t(4)]
        text_length [OF t(5)] text_length [OF t(6)] text_length [OF t(7)] n r1(1) r2(1) r3(1) r4(1) r5(1) r6(1) r7(1) r8 stop
        q Let_def entry_consistent_def entry_bare_def cong: rbind_weak_cong del: if_splits)
qed

lemma commit_decode_sound:
  assumes d: "tc_decode_commit_payload p = Inr e"
  shows "p = commit_payload e" and "entry_fits e" and "entry_consistent e" and "entry_bare e = e"
proof -
  from d obtain st op au l1 l2 l3 l4 l5 l6 l7 n sq ts d1 d2 d3 d4 d5 d6 d7 d8 s1 c1 s2 c2 s3 c3 s4 c4 s5 c5 s6 c6 s7 c7 es c8 u
    where len': "\<not> length p < COMMIT_PAYLOAD_FIXED_BYTES" and m': "\<not> slice p 0 8 \<noteq> COMMIT_PAYLOAD_MAGIC"
        "\<not> (p ! 11 \<noteq> 0 \<or> slice p 12 16 \<noteq> replicate 4 0)"
      and cd: "stage_from_code (p ! 8) = Inr st" "tc_operation_from_code (p ! 9) = Inr op" "tc_authority_from_code (p ! 10) = Inr au"
      and ls: "tc_read_u32 p 16 = Inr l1" "tc_read_u32 p 20 = Inr l2" "tc_read_u32 p 24 = Inr l3" "tc_read_u32 p 28 = Inr l4"
        "tc_read_u32 p 32 = Inr l5" "tc_read_u32 p 36 = Inr l6" "tc_read_u32 p 40 = Inr l7" "tc_read_u32 p 44 = Inr n"
      and n': "\<not> 4096 < unat n"
      and fx: "tc_read_u64 p 48 = Inr sq" "tc_read_u64 p 56 = Inr ts" "tc_read_digest p 64 = Inr d1"
        "tc_read_digest p 96 = Inr d2" "tc_read_digest p 128 = Inr d3" "tc_read_digest p 160 = Inr d4"
        "tc_read_digest p 192 = Inr d5" "tc_read_digest p 224 = Inr d6" "tc_read_digest p 256 = Inr d7"
        "tc_read_digest p 288 = Inr d8"
      and r1: "tc_read_string p COMMIT_PAYLOAD_FIXED_BYTES (unat l1) (lit ''record_id'') = Inr (s1, c1)"
      and r2: "tc_read_string p c1 (unat l2) (lit ''policy_id'') = Inr (s2, c2)"
      and r3: "tc_read_string p c2 (unat l3) (lit ''policy_version'') = Inr (s3, c3)"
      and r4: "tc_read_string p c3 (unat l4) (lit ''verifier_id'') = Inr (s4, c4)"
      and r5: "tc_read_string p c4 (unat l5) (lit ''reason_code'') = Inr (s5, c5)"
      and r6: "tc_read_string p c5 (unat l6) (lit ''superseding_record_id'') = Inr (s6, c6)"
      and r7: "tc_read_string p c6 (unat l7) (lit ''binding_record_id'') = Inr (s7, c7)"
      and ev': "tc_decode_evidence (unat n) p c7 = Inr (es, c8)" "\<not> c8 \<noteq> length p"
      and ok': "validate_request \<lparr>cq_record_id = s1, cq_operation = op, cq_authority = au, cq_evidence_refs = es, cq_policy_id = s2,
          cq_policy_version = s3, cq_verifier_id = s4, cq_logical_timestamp = ts, cq_reason_code = s5,
          cq_superseding_record_id = (if s6 = [] then None else Some s6)\<rparr> = Inr u"
        "\<not> compute_request_digest \<lparr>cq_record_id = s1, cq_operation = op, cq_authority = au, cq_evidence_refs = es,
          cq_policy_id = s2, cq_policy_version = s3, cq_verifier_id = s4, cq_logical_timestamp = ts, cq_reason_code = s5,
          cq_superseding_record_id = (if s6 = [] then None else Some s6)\<rparr> \<noteq> d4"
      and e': "Inr \<lparr>je_sequence = 0, je_transaction_id = d1, je_stage = st,
          je_request = \<lparr>cq_record_id = s1, cq_operation = op, cq_authority = au, cq_evidence_refs = es,
            cq_policy_id = s2, cq_policy_version = s3, cq_verifier_id = s4, cq_logical_timestamp = ts, cq_reason_code = s5,
            cq_superseding_record_id = (if s6 = [] then None else Some s6)\<rparr>,
          je_record_digest = d2, je_policy_digest = d3, je_request_digest = d4,
          je_trust_pre_head = d5, je_expected_trust_sequence = sq,
          je_binding_record_id = s7, je_binding_record_digest = d8,
          je_database_state_digest = d7, je_trust_transition_id = d6,
          je_previous_digest = replicate 32 0, je_digest = replicate 32 0\<rparr> = (Inr e :: tc_error + journal_entry)"
    unfolding tc_decode_commit_payload_def Let_def
    unfolding guard_eq_Inr_iff rbind_eq_Inr_iff split_paired_Ex prod.case
    by (elim exE conjE) (rule that; assumption)
  define q where "q = \<lparr>cq_record_id = s1, cq_operation = op, cq_authority = au, cq_evidence_refs = es, cq_policy_id = s2,
          cq_policy_version = s3, cq_verifier_id = s4, cq_logical_timestamp = ts, cq_reason_code = s5,
          cq_superseding_record_id = (if s6 = [] then None else Some s6)\<rparr>"
  note e = e' [unfolded sum.inject, folded q_def, symmetric]
  have len: "320 \<le> length p" and m: "slice p 0 8 = COMMIT_PAYLOAD_MAGIC" "p ! 11 = 0" "slice p 12 16 = replicate 4 0"
    and n: "unat n \<le> 4096" and ev: "tc_decode_evidence (unat n) p c7 = Inr (es, length p)"
    and ok: "validate_request q = Inr ()" "compute_request_digest q = d4"
    using len' m' n' ev' ok' by (simp_all add: COMMIT_PAYLOAD_FIXED_BYTES_def flip: q_def)
  note t1 = tc_read_string_sound [OF r1, unfolded COMMIT_PAYLOAD_FIXED_BYTES_def] and t2 = tc_read_string_sound [OF r2] and t3 = tc_read_string_sound [OF r3]
    and t4 = tc_read_string_sound [OF r4] and t5 = tc_read_string_sound [OF r5] and t6 = tc_read_string_sound [OF r6]
    and t7 = tc_read_string_sound [OF r7]
  note t8 = tc_decode_evidence_sound [OF ev t7(6)]
  have u32: "slice p 16 20 = u32_le l1" "slice p 20 24 = u32_le l2" "slice p 24 28 = u32_le l3" "slice p 28 32 = u32_le l4"
    "slice p 32 36 = u32_le l5" "slice p 36 40 = u32_le l6" "slice p 40 44 = u32_le l7" "slice p 44 48 = u32_le n"
    using ls len by (simp_all add: tc_read_ok from_le_eq_iff length_slice)
  have f: "slice p 48 56 = u64_le sq" "slice p 56 64 = u64_le ts" "slice p 64 96 = d1" "slice p 96 128 = d2"
    "slice p 128 160 = d3" "slice p 160 192 = d4" "slice p 192 224 = d5" "slice p 224 256 = d6" "slice p 256 288 = d7"
    "slice p 288 320 = d8"
    using fx len by (simp_all add: tc_read_ok from_le_eq_iff length_slice)
  have dl: "length d1 = 32" "length d2 = 32" "length d3 = 32" "length d4 = 32" "length d5 = 32" "length d6 = 32"
    "length d7 = 32" "length d8 = 32"
    using len by (simp_all add: length_slice flip: f)
  have ln: "of_nat (length s1) = l1" "of_nat (length s2) = l2" "of_nat (length s3) = l3" "of_nat (length s4) = l4"
    "of_nat (length s5) = l5" "of_nat (length s6) = l6" "of_nat (length s7) = l7" "of_nat (length es) = n"
    using t1(3) t2(3) t3(3) t4(3) t5(3) t6(3) t7(3) t8 by simp_all
  have s6: "superseding_text (if s6 = [] then None else Some s6) = s6" by (simp add: superseding_text_def)
  show "entry_bare e = e" by (simp add: e entry_bare_def)
  show "entry_consistent e" using ok by (simp add: entry_consistent_def e)
  show "entry_fits e"
    using len t1(2-4) t2(2-4) t3(2-4) t4(2-4) t5(2-4) t6(2-4) t7(2-4) t8 n
    by (simp add: e q_def entry_fits_def request_fits_def text_ok_def dl s6)
  have "p = slice p 0 8 @ slice p 8 9 @ slice p 9 10 @ slice p 10 11 @ slice p 11 12 @ slice p 12 16 @ slice p 16 20
      @ slice p 20 24 @ slice p 24 28 @ slice p 28 32 @ slice p 32 36 @ slice p 36 40 @ slice p 40 44 @ slice p 44 48
      @ slice p 48 56 @ slice p 56 64 @ slice p 64 96 @ slice p 96 128 @ slice p 128 160 @ slice p 160 192 @ slice p 192 224
      @ slice p 224 256 @ slice p 256 288 @ slice p 288 320 @ drop 320 p"
    using pieces_eq [of 0 "[8, 1, 1, 1, 1, 4, 4, 4, 4, 4, 4, 4, 4, 4, 8, 8, 32, 32, 32, 32, 32, 32, 32, 32]" p] by simp
  also have "drop 320 p = s1 @ s2 @ s3 @ s4 @ s5 @ s6 @ s7 @ concat (map evidence_bytes es)"
    using t8 by (simp add: t1(1) t2(1) t3(1) t4(1) t5(1) t6(1) t7(1))
  finally show "p = commit_payload e"
    using len byte_slices [of 8 p] byte_slices [of 9 p] byte_slices [of 10 p] byte_slices [of 11 p]
    by (simp add: commit_payload_def e q_def m u32 f ln commit_codes_inv(1) [OF cd(1)] commit_codes_inv(2) [OF cd(2)]
        tc_authority_code_inv [OF cd(3)] s6 Let_def del: if_split)
qed

subsection \<open>The file of the journal\<close>

interpretation journal_frames: chained_frames journal_reader COMMIT_LEDGER_MAGIC COMMIT_FRAME_DOMAIN MAX_FRAME_PAYLOAD_BYTES
  no_slack
  unfolding journal_reader_def by (rule tc_reader_frames) simp

definition journal_frame :: "journal_entry \<Rightarrow> chain_frame" where
  "journal_frame e = \<lparr>cf_sequence = je_sequence e, cf_previous = je_previous_digest e, cf_digest = je_digest e,
     cf_payload = commit_payload e\<rparr>"

definition journal_admits :: "commit_journal \<Rightarrow> journal_entry \<Rightarrow> bool" where
  "journal_admits j e \<longleftrightarrow> entry_fits e \<and> entry_consistent e \<and> validate_entry j e = Inr () \<and>
     length (commit_payload e) \<le> MAX_FRAME_PAYLOAD_BYTES \<and>
     frame_follows COMMIT_FRAME_DOMAIN (length (cj_entries j)) (cj_head_digest j) (journal_frame e)"

text \<open>Payload and checks do not look at the stamps of the frame.\<close>

lemma stage_stamps_irrelevant:
  fixes e a b c
  defines "e' \<equiv> e\<lparr>je_sequence := a, je_previous_digest := b, je_digest := c\<rparr>"
  shows "validate_stage_payload e' = validate_stage_payload e" "validate_same_transaction p e' = validate_same_transaction p e"
  by (simp_all add: e'_def validate_stage_payload_def validate_same_transaction_def Let_def)

lemma entry_stamps_irrelevant:
  fixes e a b c
  defines "e' \<equiv> e\<lparr>je_sequence := a, je_previous_digest := b, je_digest := c\<rparr>"
  shows "commit_payload e' = commit_payload e" "entry_fits e' = entry_fits e" "entry_consistent e' = entry_consistent e"
    "validate_entry j e' = validate_entry j e" "entry_bare e' = entry_bare e"
  by (simp_all add: e'_def commit_payload_def entry_fits_def entry_consistent_def validate_entry_def Let_def
      stage_stamps_irrelevant entry_bare_def cong: option.case_cong)

lemmas entry_bare_irrelevant =
  entry_stamps_irrelevant [where a = 0 and b = "replicate 32 0" and c = "replicate 32 0", folded entry_bare_def]

lemma entry_restamp:
  "(entry_bare e)\<lparr>je_sequence := je_sequence e, je_previous_digest := je_previous_digest e, je_digest := je_digest e\<rparr> = e"
  by (simp add: entry_bare_def)

lemma journal_record_simps [simp]:
  "cj_path (journal_record j e) = cj_path j" "cj_entries (journal_record j e) = cj_entries j @ [e]"
  "cj_head_digest (journal_record j e) = je_digest e"
  "cj_latest (journal_record j e) = bt_insert (je_transaction_id e) e (cj_latest j)"
  by (simp_all add: journal_record_def)

interpretation journal_file: chained_ledger journal_reader COMMIT_LEDGER_MAGIC COMMIT_FRAME_DOMAIN MAX_FRAME_PAYLOAD_BYTES
  no_slack journal_replay_frame journal_record journal_frame journal_admits "\<lambda>j. length (cj_entries j)" cj_head_digest
proof unfold_locales
  fix j e
  assume a: "journal_admits j e"
  then show "journal_replay_frame j (journal_frame e) = Inr (journal_record j e)"
    using entry_restamp [of e]
    by (simp add: journal_admits_def journal_replay_frame_def journal_frame_def commit_decode_ok entry_bare_irrelevant)
  show "frame_follows COMMIT_FRAME_DOMAIN (length (cj_entries j)) (cj_head_digest j) (journal_frame e)"
    "length (cf_payload (journal_frame e)) \<le> MAX_FRAME_PAYLOAD_BYTES"
    using a by (simp_all add: journal_admits_def journal_frame_def)
next
  fix j f j'
  assume f: "frame_follows COMMIT_FRAME_DOMAIN (length (cj_entries j)) (cj_head_digest j) f"
    and l: "length (cf_payload f) \<le> MAX_FRAME_PAYLOAD_BYTES" and s: "journal_replay_frame j f = Inr j'"
  from s obtain e where e: "tc_decode_commit_payload (cf_payload f) = Inr e" "validate_entry j e = Inr ()"
    by (auto simp: journal_replay_frame_def rbind_eq_Inr_iff)
  note d = commit_decode_sound [OF e(1)]
  let ?e = "e\<lparr>je_sequence := cf_sequence f, je_previous_digest := cf_previous f, je_digest := cf_digest f\<rparr>"
  have "f = journal_frame ?e" using d(1) by (simp add: journal_frame_def entry_stamps_irrelevant)
  with f l d e(2) show "\<exists>e. f = journal_frame e \<and> journal_admits j e"
    by (intro exI [of _ ?e]) (simp add: journal_admits_def entry_stamps_irrelevant)
qed (simp_all add: journal_frame_def)

lemma journal_open_synced:
  assumes "journal_file.in_sync (journal_empty p) j bs" and "fget fs p = Some bs"
  shows "journal_open_strict p fs = (Inr j, fs)"
  using assms journal_file.in_sync_replay [OF assms(1)]
  by (simp add: journal_open_strict_def tc_read_file_def io_bind_def io_pure_def fs_read_def journal_empty_def zero_digest_def)

subsection \<open>Append\<close>

definition entry_stamped :: "commit_journal \<Rightarrow> journal_entry \<Rightarrow> journal_entry" where
  "entry_stamped j e = e\<lparr>je_sequence := of_nat (length (cj_entries j)) + 1, je_previous_digest := cj_head_digest j,
     je_digest := compute_frame_digest COMMIT_FRAME_DOMAIN (of_nat (length (cj_entries j)) + 1) (cj_head_digest j)
       (sha256 (commit_payload e))\<rparr>"

definition entry_acceptable :: "commit_journal \<Rightarrow> journal_entry \<Rightarrow> bool" where
  "entry_acceptable j e \<longleftrightarrow> validate_entry j e = Inr () \<and> (of_nat (length (cj_entries j)) :: u64) \<noteq> - 1 \<and>
     validate_request (je_request e) = Inr () \<and> length (commit_payload e) \<le> MAX_FRAME_PAYLOAD_BYTES"

lemma entry_stamped_simps [simp]:
  "je_stage (entry_stamped j e) = je_stage e" "je_transaction_id (entry_stamped j e) = je_transaction_id e"
  "je_request (entry_stamped j e) = je_request e" "je_record_digest (entry_stamped j e) = je_record_digest e"
  "je_policy_digest (entry_stamped j e) = je_policy_digest e" "je_request_digest (entry_stamped j e) = je_request_digest e"
  "je_trust_pre_head (entry_stamped j e) = je_trust_pre_head e"
  "je_expected_trust_sequence (entry_stamped j e) = je_expected_trust_sequence e"
  "je_binding_record_id (entry_stamped j e) = je_binding_record_id e"
  "je_binding_record_digest (entry_stamped j e) = je_binding_record_digest e"
  "je_database_state_digest (entry_stamped j e) = je_database_state_digest e"
  "je_trust_transition_id (entry_stamped j e) = je_trust_transition_id e"
  "je_sequence (entry_stamped j e) = of_nat (length (cj_entries j)) + 1"
  by (simp_all add: entry_stamped_def)

lemma journal_append_ok:
  assumes a: "entry_acceptable j e" and old: "fget fs (cj_path j) = Some old"
  shows "journal_append e j fs = (Inr (entry_stamped j e), journal_record j (entry_stamped j e),
     fput (cj_path j) (old @ event_bytes COMMIT_LEDGER_MAGIC journal_frame (entry_stamped j e)) fs)"
proof -
  let ?n = "of_nat (length (cj_entries j)) + 1 :: u64"
  have p: "commit_payload (e\<lparr>je_sequence := ?n, je_previous_digest := cj_head_digest j\<rparr>) = commit_payload e"
    by (simp add: commit_payload_def)
  have "tc_encode_frame COMMIT_LEDGER_MAGIC ?n (cj_head_digest j) (sha256 (commit_payload e))
      (je_digest (entry_stamped j e)) (commit_payload e) = Inr (event_bytes COMMIT_LEDGER_MAGIC journal_frame (entry_stamped j e))"
    using a by (simp add: entry_acceptable_def tc_encode_frame_def encode_chain_frame_def event_bytes_def entry_bytes_def
        journal_frame_def entry_stamped_def Let_def entry_stamps_irrelevant)
  with a old show ?thesis
    by (simp add: journal_append_def entry_acceptable_def tc_encode_commit_payload_def p Let_def write_all_def entry_stamped_def)
qed

lemma journal_append_refused:
  assumes "\<not> (entry_acceptable j e \<and> fget fs (cj_path j) \<noteq> None)"
  shows "\<exists>err. journal_append e j fs = (Inl err, j, fs)"
proof (cases "entry_acceptable j e")
  case True
  let ?n = "of_nat (length (cj_entries j)) + 1 :: u64"
  have p: "commit_payload (e\<lparr>je_sequence := ?n, je_previous_digest := cj_head_digest j\<rparr>) = commit_payload e"
    by (simp add: commit_payload_def)
  from True assms show ?thesis
    by (simp add: journal_append_def entry_acceptable_def tc_encode_commit_payload_def p Let_def write_all_def
        tc_encode_frame_def encode_chain_frame_def)
next
  case False
  let ?n = "of_nat (length (cj_entries j)) + 1 :: u64"
  have p: "commit_payload (e\<lparr>je_sequence := ?n, je_previous_digest := cj_head_digest j\<rparr>) = commit_payload e"
    by (simp add: commit_payload_def)
  from False show ?thesis
    by (auto simp: journal_append_def entry_acceptable_def tc_encode_commit_payload_def p Let_def rbind_def not_le
        split: sum.splits)
qed

lemma journal_append_effect:
  assumes run: "journal_append e j fs = (res, j', fs')" and f: "entry_fits e" "entry_consistent e"
    and hd: "length (cj_head_digest j) = 32"
  shows "append_effect journal_admits journal_record (event_bytes COMMIT_LEDGER_MAGIC journal_frame) (cj_path j) j fs j' fs'"
proof (cases "entry_acceptable j e \<and> fget fs (cj_path j) \<noteq> None")
  case False
  with journal_append_refused [OF False] run show ?thesis by auto
next
  case True
  then obtain old where old: "fget fs (cj_path j) = Some old" and a: "entry_acceptable j e" by auto
  have "journal_admits j (entry_stamped j e)"
    using a f hd by (simp add: entry_acceptable_def journal_admits_def frame_follows_def journal_frame_def entry_stamped_def
        entry_stamps_irrelevant)
  from append_effect_event [of fs "cj_path j" old journal_admits, OF old this] journal_append_ok [OF a old] run
  show ?thesis by simp
qed

end
