(* ===== verification/Ub_Coordinator.thy ===== *)
theory Ub_Coordinator
  imports Ub_Journal Ub_Durable
begin

text \<open>
  The coordinator of the trust co-commit (\<open>ultraballoondb-trust-commit/src/lib.rs\<close>). One commit
  writes a binding record to the durable database and a transition to the trust ledger; the journal
  records the stage that it has reached, and \<open>recover_pending\<close> completes or aborts the transactions
  that a crash has left open. The texts of the errors of the other crates are a parameter.
\<close>

subsection \<open>Records and digests\<close>

definition BINDING_PAYLOAD_MAGIC :: bytes where "BINDING_PAYLOAD_MAGIC = lit ''UBTBD01'' @ [0]"
definition RECORD_DIGEST_DOMAIN :: bytes where "RECORD_DIGEST_DOMAIN = lit ''UBTRREC1''"
definition TRANSACTION_ID_DOMAIN :: bytes where "TRANSACTION_ID_DOMAIN = lit ''UBTRTXN1''"
definition BINDING_RECORD_PREFIX :: str where "BINDING_RECORD_PREFIX = lit ''__ubdb_trust_binding__/''"

datatype probe_stop = Stop_None | AfterPrepared | AfterDatabaseCommitted | AfterTrustApplied

record commit_receipt_data =
  tr_transaction_id :: bytes
  tr_binding_record_id :: str
  tr_binding_record_digest :: bytes
  tr_policy_digest :: bytes
  tr_record_digest :: bytes
  tr_database_state_digest :: bytes
  tr_trust_transition_id :: bytes
  tr_trust_sequence :: u64
  tr_journal_sequence :: u64
  tr_finalized :: bool
  tr_recovered :: bool

datatype probe_outcome = Committed_Receipt commit_receipt_data | Stopped_At bytes commit_stage

record commit_recovery =
  rv_pending_before :: u64
  rv_aborted_prepared :: u64
  rv_database_stage_reconstructed :: u64
  rv_trust_transition_applied :: u64
  rv_trust_stage_reconstructed :: u64
  rv_finalized :: u64

definition no_recovery :: commit_recovery where
  "no_recovery = \<lparr>rv_pending_before = 0, rv_aborted_prepared = 0, rv_database_stage_reconstructed = 0,
     rv_trust_transition_applied = 0, rv_trust_stage_reconstructed = 0, rv_finalized = 0\<rparr>"

record coordinator =
  co_root :: path
  co_database :: durable_database
  co_trust :: trust_ledger
  co_policies :: policy_registry
  co_journal :: commit_journal
  co_last_recovery :: commit_recovery

record prepared_context =
  px_request :: commit_request
  px_transaction_id :: bytes
  px_record_digest :: bytes
  px_policy_digest :: bytes
  px_request_digest :: bytes
  px_trust_pre_head :: bytes
  px_expected_trust_sequence :: u64
  px_binding_record_id :: str
  px_binding_payload :: bytes
  px_binding_record_digest :: bytes

text \<open>The \<open>Display\<close> texts of the errors of the database, the transaction core and the trust ledger.\<close>

record displays =
  ds_durable :: "durable_error \<Rightarrow> str"
  ds_transaction :: "transaction_error \<Rightarrow> str"
  ds_trust :: "trust_error \<Rightarrow> str"

definition nonzero_u64 :: "bytes \<Rightarrow> u64" where
  "nonzero_u64 bs = (let value = from_le bs in if value = 0 then 1 else value)"

definition canonical_database_record_digest :: "database_record \<Rightarrow> bytes" where
  "canonical_database_record_digest r =
     sha256 (RECORD_DIGEST_DOMAIN @ u64_le (dr_logical_id r) @ u32_le (of_nat (length (dr_record_id r)))
       @ dr_record_id r @ u64_le (dr_node_id r) @ u64_le (of_nat (length (dr_payload r)))
       @ dr_payload_sha256 r @ dr_payload r)"

definition request_intent :: "commit_request \<Rightarrow> bytes \<Rightarrow> transition_intent" where
  "request_intent request record_digest =
     \<lparr>ti_record_id = cq_record_id request, ti_operation = cq_operation request,
      ti_authority = cq_authority request, ti_evidence_refs = cq_evidence_refs request,
      ti_policy_id = cq_policy_id request, ti_policy_version = cq_policy_version request,
      ti_verifier_id = cq_verifier_id request, ti_record_digest = record_digest,
      ti_logical_timestamp = cq_logical_timestamp request, ti_reason_code = cq_reason_code request,
      ti_superseding_record_id = cq_superseding_record_id request\<rparr>"

definition compute_transaction_id :: "bytes \<Rightarrow> bytes \<Rightarrow> bytes \<Rightarrow> bytes \<Rightarrow> bytes \<Rightarrow> u64 \<Rightarrow> bytes" where
  "compute_transaction_id database_state_digest trust_pre_head policy record_digest request_digest seqno =
     sha256 (TRANSACTION_ID_DOMAIN @ database_state_digest @ trust_pre_head @ policy @ record_digest
       @ request_digest @ u64_le seqno)"

definition encode_binding_payload ::
  "bytes \<Rightarrow> str \<Rightarrow> bytes \<Rightarrow> bytes \<Rightarrow> bytes \<Rightarrow> bytes \<Rightarrow> u64 \<Rightarrow> u64 \<Rightarrow> tc_error + bytes" where
  "encode_binding_payload transaction_id record_id record_digest policy request_digest trust_pre_head
      seqno timestamp =
     rbind (tc_validate_string (lit ''binding target record_id'') record_id) (\<lambda>_.
     Inr (BINDING_PAYLOAD_MAGIC @ transaction_id @ record_digest @ policy @ request_digest @ trust_pre_head
       @ u64_le seqno @ u64_le timestamp @ u32_le (of_nat (length record_id)) @ u32_le 0 @ record_id))"

definition validate_binding_record :: "database_record \<Rightarrow> journal_entry \<Rightarrow> tc_error + unit" where
  "validate_binding_record binding e =
     (if dr_record_id binding \<noteq> je_binding_record_id e then Inl (Tc_Invalid (lit ''binding record ID mismatch''))
      else
        let digest = sha256 (dr_payload binding) in
        if digest \<noteq> je_binding_record_digest e
        then Inl (Tc_Integrity (lit ''binding record payload'') (je_binding_record_digest e) digest)
        else
          rbind (encode_binding_payload (je_transaction_id e) (cq_record_id (je_request e)) (je_record_digest e)
              (je_policy_digest e) (je_request_digest e) (je_trust_pre_head e) (je_expected_trust_sequence e)
              (cq_logical_timestamp (je_request e))) (\<lambda>expected.
          if dr_payload binding \<noteq> expected
          then Inl (Tc_Invalid (lit ''binding record canonical payload mismatch'')) else Inr ()))"

definition validate_transition_matches ::
  "trust_transition \<Rightarrow> commit_request \<Rightarrow> bytes \<Rightarrow> bytes \<Rightarrow> u64 \<Rightarrow> tc_error + unit" where
  "validate_transition_matches t request record_digest trust_pre_head expected_sequence =
     (if tt_sequence t \<noteq> expected_sequence \<or> tt_previous_transition_digest t \<noteq> trust_pre_head
         \<or> tt_record_id t \<noteq> cq_record_id request \<or> tt_operation t \<noteq> cq_operation request
         \<or> tt_authority t \<noteq> cq_authority request \<or> tt_evidence_refs t \<noteq> cq_evidence_refs request
         \<or> tt_policy_id t \<noteq> cq_policy_id request \<or> tt_policy_version t \<noteq> cq_policy_version request
         \<or> tt_verifier_id t \<noteq> cq_verifier_id request \<or> tt_record_digest t \<noteq> record_digest
         \<or> tt_logical_timestamp t \<noteq> cq_logical_timestamp request \<or> tt_reason_code t \<noteq> cq_reason_code request
         \<or> tt_superseding_record_id t \<noteq> cq_superseding_record_id request
      then Inl (Tc_Invalid (lit ''trust transition does not match commit request'')) else Inr ())"

definition find_matching_transition ::
  "trust_ledger \<Rightarrow> commit_request \<Rightarrow> bytes \<Rightarrow> bytes \<Rightarrow> u64 \<Rightarrow> tc_error + trust_transition option" where
  "find_matching_transition trust request record_digest trust_pre_head expected_sequence =
     (case find (\<lambda>t. tt_sequence t = expected_sequence) (tl_transitions trust) of
        None \<Rightarrow> Inr None
      | Some t \<Rightarrow>
          rbind (validate_transition_matches t request record_digest trust_pre_head expected_sequence) (\<lambda>_.
          Inr (Some t)))"

text \<open>\<open>PreparedContext::stage_entry\<close>.\<close>

definition stage_entry :: "prepared_context \<Rightarrow> commit_stage \<Rightarrow> bytes \<Rightarrow> bytes \<Rightarrow> journal_entry" where
  "stage_entry x stage database_state_digest trust_transition_id =
     \<lparr>je_sequence = 0, je_transaction_id = px_transaction_id x, je_stage = stage, je_request = px_request x,
      je_record_digest = px_record_digest x, je_policy_digest = px_policy_digest x,
      je_request_digest = px_request_digest x, je_trust_pre_head = px_trust_pre_head x,
      je_expected_trust_sequence = px_expected_trust_sequence x, je_binding_record_id = px_binding_record_id x,
      je_binding_record_digest = px_binding_record_digest x, je_database_state_digest = database_state_digest,
      je_trust_transition_id = trust_transition_id, je_previous_digest = replicate 32 0,
      je_digest = replicate 32 0\<rparr>"

definition prepared_entry :: "prepared_context \<Rightarrow> journal_entry" where
  "prepared_entry x = stage_entry x Co_Prepared (replicate 32 0) (replicate 32 0)"

subsection \<open>Computations of the coordinator\<close>

text \<open>
  A computation reads and changes the coordinator and the files; an error leaves what the earlier
  steps have done.
\<close>

type_synonym 'a cio = "coordinator \<Rightarrow> fsys \<Rightarrow> (tc_error + 'a) \<times> coordinator \<times> fsys"

definition co_ret :: "'a \<Rightarrow> 'a cio" where
  "co_ret x c fs = (Inr x, c, fs)"

definition co_bind :: "'a cio \<Rightarrow> ('a \<Rightarrow> 'b cio) \<Rightarrow> 'b cio" where
  "co_bind m k c fs = (case m c fs of (Inl e, c', fs') \<Rightarrow> (Inl e, c', fs') | (Inr x, c', fs') \<Rightarrow> k x c' fs')"

definition co_query :: "(coordinator \<Rightarrow> tc_error + 'a) \<Rightarrow> 'a cio" where
  "co_query q c fs = (q c, c, fs)"

definition co_append :: "journal_entry \<Rightarrow> journal_entry cio" where
  "co_append e c fs = (case journal_append e (co_journal c) fs of (r, j, fs') \<Rightarrow> (r, c\<lparr>co_journal := j\<rparr>, fs'))"

definition co_apply :: "displays \<Rightarrow> transition_intent \<Rightarrow> trust_transition cio" where
  "co_apply d i c fs = (case ledger_apply (co_trust c) i fs of
     (r, l, fs') \<Rightarrow> (map_err (\<lambda>e. Tc_Trust (ds_trust d e)) r, c\<lparr>co_trust := l\<rparr>, fs'))"

definition co_reopen_database :: "displays \<Rightarrow> unit cio" where
  "co_reopen_database d c fs = (case db_open (co_root c) False fs of
     (Inl e, fs') \<Rightarrow> (Inl (Tc_Lifecycle (ds_durable d e)), c, fs')
   | (Inr db, fs') \<Rightarrow> (Inr (), c\<lparr>co_database := db\<rparr>, fs'))"

definition co_commit_durable ::
  "displays \<Rightarrow> transaction_core \<Rightarrow> u64 \<Rightarrow> u64 \<Rightarrow> (commit_receipt \<times> transaction_core) cio" where
  "co_commit_durable d core generation seqno c fs =
     (case commit_durable (ds_durable d) core (co_database c) generation seqno fs of
        (r, core', db, fs') \<Rightarrow> (rbind (map_err (\<lambda>e. Tc_Lifecycle (ds_transaction d e)) r)
           (\<lambda>receipt. Inr (receipt, core')), c\<lparr>co_database := db\<rparr>, fs'))"

definition co_checkpoint :: "displays \<Rightarrow> u64 \<Rightarrow> checkpoint_receipt cio" where
  "co_checkpoint d generation c fs = (case db_checkpoint (co_database c) generation fs of
     (r, db, fs') \<Rightarrow> (map_err (\<lambda>e. Tc_Lifecycle (ds_durable d e)) r, c\<lparr>co_database := db\<rparr>, fs'))"

subsection \<open>Preparing a commit\<close>

definition co_record :: "displays \<Rightarrow> coordinator \<Rightarrow> str \<Rightarrow> tc_error + database_record option" where
  "co_record d c record_id = map_err (\<lambda>e. Tc_Lifecycle (ds_durable d e)) (db_record (co_database c) record_id)"

definition require_target_record :: "displays \<Rightarrow> coordinator \<Rightarrow> str \<Rightarrow> tc_error + database_record" where
  "require_target_record d c record_id =
     rbind (co_record d c record_id) (\<lambda>r.
     ok_or (Tc_Invalid (lit ''canonical database record not found: '' @ record_id)) r)"

definition validate_superseding_binding :: "displays \<Rightarrow> coordinator \<Rightarrow> commit_request \<Rightarrow> tc_error + unit" where
  "validate_superseding_binding d c request =
     (case cq_superseding_record_id request of
        None \<Rightarrow> Inr ()
      | Some record_id \<Rightarrow>
          if starts_with record_id BINDING_RECORD_PREFIX
          then Inl (Tc_Invalid (lit ''binding record cannot be a superseding target''))
          else
            rbind (require_target_record d c record_id) (\<lambda>record.
            rbind (ok_or (Tc_Invalid (lit ''superseding canonical record has no trust state: '' @ record_id))
                     (ledger_snapshot (co_trust c) record_id)) (\<lambda>snapshot.
            if sn_record_digest snapshot \<noteq> canonical_database_record_digest record
            then Inl (Tc_Invalid (lit ''superseding record digest binding mismatch: '' @ record_id))
            else Inr ())))"

definition prepare_context :: "displays \<Rightarrow> coordinator \<Rightarrow> commit_request \<Rightarrow> tc_error + prepared_context" where
  "prepare_context d c request =
     rbind (validate_request request) (\<lambda>_.
     if starts_with (cq_record_id request) BINDING_RECORD_PREFIX
     then Inl (Tc_Invalid (lit ''trust binding records cannot be trust targets''))
     else
       rbind (policies_authorize (co_policies c) request) (\<lambda>policy_digest.
       rbind (require_target_record d c (cq_record_id request)) (\<lambda>record.
       let record_digest = canonical_database_record_digest record in
       rbind (case ledger_snapshot (co_trust c) (cq_record_id request) of
                Some snapshot \<Rightarrow>
                  if sn_record_digest snapshot \<noteq> record_digest
                  then Inl (Tc_Invalid (lit ''canonical record changed after trust binding: '' @ cq_record_id request))
                  else Inr ()
              | None \<Rightarrow> Inr ()) (\<lambda>_.
       rbind (validate_superseding_binding d c request) (\<lambda>_.
       let request_digest = compute_request_digest request; trust_pre_head = tl_head_digest (co_trust c);
           n = of_nat (length (tl_transitions (co_trust c))) :: u64 in
       if n = - 1 then Inl (Tc_Invalid (lit ''trust sequence overflow''))
       else
         let transaction_id = compute_transaction_id (state_hash (dd_state (co_database c))) trust_pre_head
               policy_digest record_digest request_digest (n + 1);
             binding_record_id = BINDING_RECORD_PREFIX @ hex_digest transaction_id in
         rbind (co_record d c binding_record_id) (\<lambda>existing.
         if existing \<noteq> None then Inl (Tc_Invalid (lit ''derived binding record already exists''))
         else
           rbind (encode_binding_payload transaction_id (cq_record_id request) record_digest policy_digest
               request_digest trust_pre_head (n + 1) (cq_logical_timestamp request)) (\<lambda>binding_payload.
           Inr \<lparr>px_request = request, px_transaction_id = transaction_id, px_record_digest = record_digest,
                px_policy_digest = policy_digest, px_request_digest = request_digest,
                px_trust_pre_head = trust_pre_head, px_expected_trust_sequence = n + 1,
                px_binding_record_id = binding_record_id, px_binding_payload = binding_payload,
                px_binding_record_digest = sha256 binding_payload\<rparr>)))))))"

subsection \<open>The binding record\<close>

text \<open>The transaction that puts the binding record, up to \<open>prepare\<close>.\<close>

definition binding_core :: "prepared_context \<Rightarrow> transaction_error + transaction_core" where
  "binding_core x =
     rbind (core_begin (core_new default_limits) (slice (px_transaction_id x) 0 16)) (\<lambda>core.
     rbind (core_put_record core (nonzero_u64 (slice (px_transaction_id x) 16 24)) (px_binding_record_id x)
              (nonzero_u64 (slice (px_transaction_id x) 24 32)) (px_binding_payload x)) (\<lambda>(_, core).
     rbind (core_prepare core) (\<lambda>(_, core). Inr core)))"

definition commit_binding_record :: "displays \<Rightarrow> prepared_context \<Rightarrow> bytes cio" where
  "commit_binding_record d x =
     co_bind (co_reopen_database d) (\<lambda>_.
     co_bind (co_query (\<lambda>c. map_err (\<lambda>e. Tc_Lifecycle (ds_durable d e)) (next_generation (co_database c)))) (\<lambda>generation.
     co_bind (co_query (\<lambda>c. map_err (\<lambda>e. Tc_Lifecycle (ds_durable d e)) (next_segment_sequence (co_database c)))) (\<lambda>seqno.
     co_bind (co_query (\<lambda>_. map_err (\<lambda>e. Tc_Lifecycle (ds_transaction d e)) (binding_core x))) (\<lambda>core.
     co_bind (co_commit_durable d core generation seqno) (\<lambda>(commit, core).
     co_bind (co_query (\<lambda>_. map_err (\<lambda>e. Tc_Lifecycle (ds_transaction d e))
                (release_terminal core (slice (px_transaction_id x) 0 16)))) (\<lambda>_.
     co_bind (co_checkpoint d generation) (\<lambda>checkpoint.
     co_query (\<lambda>c.
       if \<not> cr_durable_commit commit \<or> \<not> cr_wal_recorded commit \<or> \<not> cr_wal_fsynced commit
          \<or> \<not> kr_head_published checkpoint \<or> \<not> kr_wal_checkpoint_recorded checkpoint
          \<or> cr_state_sha256 commit \<noteq> kr_state_sha256 checkpoint
       then Inl (Tc_Invalid (lit ''database binding commit receipt is incomplete''))
       else
         rbind (co_record d c (px_binding_record_id x)) (\<lambda>r.
         rbind (ok_or (Tc_Invalid (lit ''binding record missing after durable commit'')) r) (\<lambda>binding.
         if dr_payload binding \<noteq> px_binding_payload x
         then Inl (Tc_Invalid (lit ''binding record payload mismatch after commit''))
         else Inr (kr_state_sha256 checkpoint)))))))))))"

subsection \<open>Recovery\<close>

text \<open>The checks that \<open>recover_transaction\<close> makes first; they give the binding record, if it is there.\<close>

definition recovery_checks :: "displays \<Rightarrow> coordinator \<Rightarrow> journal_entry \<Rightarrow> tc_error + database_record option" where
  "recovery_checks d c latest =
     rbind (policies_authorize (co_policies c) (je_request latest)) (\<lambda>policy_digest.
     if policy_digest \<noteq> je_policy_digest latest
     then Inl (Tc_Integrity (lit ''recovery policy digest'') (je_policy_digest latest) policy_digest)
     else
       rbind (require_target_record d c (cq_record_id (je_request latest))) (\<lambda>record.
       let actual = canonical_database_record_digest record in
       if actual \<noteq> je_record_digest latest
       then Inl (Tc_Integrity (lit ''recovery target record digest'') (je_record_digest latest) actual)
       else
         rbind (validate_superseding_binding d c (je_request latest)) (\<lambda>_.
         co_record d c (je_binding_record_id latest))))"

text \<open>The last part of \<open>recover_transaction\<close>: an entry at \<open>TRUST_COMMITTED\<close> is finalised.\<close>

definition recover_trust_stage :: "journal_entry \<Rightarrow> commit_recovery \<Rightarrow> commit_recovery cio" where
  "recover_trust_stage latest receipt =
     (if je_stage latest = Co_TrustCommitted
      then
        co_bind (co_query (\<lambda>c.
          rbind (find_matching_transition (co_trust c) (je_request latest) (je_record_digest latest)
                   (je_trust_pre_head latest) (je_expected_trust_sequence latest)) (\<lambda>t.
          rbind (ok_or (Tc_Invalid (lit ''TRUST_COMMITTED journal stage has no matching trust transition'')) t) (\<lambda>transition.
          if tt_transition_id transition \<noteq> je_trust_transition_id latest
          then Inl (Tc_Integrity (lit ''recovery trust transition ID'') (je_trust_transition_id latest)
                 (tt_transition_id transition))
          else Inr ())))) (\<lambda>_.
        co_bind (co_append (latest\<lparr>je_stage := Co_Finalized\<rparr>)) (\<lambda>_.
        co_ret (receipt\<lparr>rv_finalized := rv_finalized receipt + 1\<rparr>)))
      else co_ret receipt)"

text \<open>The transition of an entry at \<open>DATABASE_COMMITTED\<close>: the one in the ledger, or a new one.\<close>

definition recover_transition :: "displays \<Rightarrow> journal_entry \<Rightarrow> commit_recovery \<Rightarrow> (trust_transition \<times> commit_recovery) cio" where
  "recover_transition d latest receipt =
     co_bind (co_query (\<lambda>c. find_matching_transition (co_trust c) (je_request latest) (je_record_digest latest)
                (je_trust_pre_head latest) (je_expected_trust_sequence latest))) (\<lambda>found.
     case found of
       Some t \<Rightarrow> co_ret (t, receipt\<lparr>rv_trust_stage_reconstructed := rv_trust_stage_reconstructed receipt + 1\<rparr>)
     | None \<Rightarrow>
         co_bind (co_query (\<lambda>c.
           if tl_head_digest (co_trust c) \<noteq> je_trust_pre_head latest
           then Inl (Tc_Invalid (lit ''trust head changed before pending transaction recovery''))
           else
             let n = of_nat (length (tl_transitions (co_trust c))) :: u64 in
             if n = - 1 then Inl (Tc_Invalid (lit ''trust sequence overflow during recovery''))
             else if n + 1 \<noteq> je_expected_trust_sequence latest
             then Inl (Tc_Invalid (lit ''trust sequence changed before pending recovery'')) else Inr ())) (\<lambda>_.
         co_bind (co_apply d (request_intent (je_request latest) (je_record_digest latest))) (\<lambda>t.
         co_bind (co_query (\<lambda>_. validate_transition_matches t (je_request latest) (je_record_digest latest)
                    (je_trust_pre_head latest) (je_expected_trust_sequence latest))) (\<lambda>_.
         co_ret (t, receipt\<lparr>rv_trust_transition_applied := rv_trust_transition_applied receipt + 1\<rparr>)))))"

definition recover_database_stage :: "displays \<Rightarrow> journal_entry \<Rightarrow> commit_recovery \<Rightarrow> commit_recovery cio" where
  "recover_database_stage d latest receipt =
     (if je_stage latest = Co_DatabaseCommitted
      then
        co_bind (co_query (\<lambda>c.
          rbind (co_record d c (je_binding_record_id latest)) (\<lambda>r.
          rbind (ok_or (Tc_Invalid (lit ''database binding record disappeared during recovery'')) r) (\<lambda>binding.
          validate_binding_record binding latest)))) (\<lambda>_.
        co_bind (recover_transition d latest receipt) (\<lambda>(transition, receipt).
        co_bind (co_append (latest\<lparr>je_stage := Co_TrustCommitted,
                   je_trust_transition_id := tt_transition_id transition\<rparr>)) (\<lambda>latest.
        recover_trust_stage latest receipt)))
      else recover_trust_stage latest receipt)"

definition recover_transaction :: "displays \<Rightarrow> journal_entry \<Rightarrow> commit_recovery \<Rightarrow> commit_recovery cio" where
  "recover_transaction d latest receipt =
     co_bind (co_query (\<lambda>c. recovery_checks d c latest)) (\<lambda>binding.
     if je_stage latest = Co_Prepared
     then
       co_bind (co_query (\<lambda>c. Inr (state_hash (dd_state (co_database c))))) (\<lambda>digest.
       case binding of
         None \<Rightarrow>
           co_bind (co_append (latest\<lparr>je_stage := Co_Aborted, je_database_state_digest := digest,
                      je_trust_transition_id := replicate 32 0\<rparr>)) (\<lambda>_.
           co_ret (receipt\<lparr>rv_aborted_prepared := rv_aborted_prepared receipt + 1\<rparr>))
       | Some b \<Rightarrow>
           co_bind (co_query (\<lambda>_. validate_binding_record b latest)) (\<lambda>_.
           co_bind (co_append (latest\<lparr>je_stage := Co_DatabaseCommitted, je_database_state_digest := digest,
                      je_trust_transition_id := replicate 32 0\<rparr>)) (\<lambda>latest.
           recover_database_stage d latest
             (receipt\<lparr>rv_database_stage_reconstructed := rv_database_stage_reconstructed receipt + 1\<rparr>))))
     else recover_database_stage d latest receipt)"

fun recover_all :: "displays \<Rightarrow> journal_entry list \<Rightarrow> commit_recovery \<Rightarrow> commit_recovery cio" where
  "recover_all d [] receipt = co_ret receipt"
| "recover_all d (latest # rest) receipt =
     co_bind (recover_transaction d latest receipt) (\<lambda>receipt. recover_all d rest receipt)"

definition recover_pending :: "displays \<Rightarrow> commit_recovery cio" where
  "recover_pending d =
     co_bind (co_query (\<lambda>c. Inr (sort_key je_sequence (journal_pending (co_journal c))))) (\<lambda>pending.
     recover_all d pending (no_recovery\<lparr>rv_pending_before := of_nat (length pending)\<rparr>))"

subsection \<open>Commit and open\<close>

definition co_recovered :: "commit_recovery \<Rightarrow> unit cio" where
  "co_recovered receipt c fs = (Inr (), c\<lparr>co_last_recovery := receipt\<rparr>, fs)"

text \<open>
  \<open>commit_for_probe\<close> after the \<open>DATABASE_COMMITTED\<close> entry, after the binding record, and from the
  \<open>PREPARED\<close> entry on.
\<close>

definition commit_trust :: "displays \<Rightarrow> prepared_context \<Rightarrow> probe_stop \<Rightarrow> bytes \<Rightarrow> probe_outcome cio" where
  "commit_trust d x stop database_state_digest =
     co_bind (co_apply d (request_intent (px_request x) (px_record_digest x))) (\<lambda>t.
     co_bind (co_query (\<lambda>_. validate_transition_matches t (px_request x) (px_record_digest x)
                (px_trust_pre_head x) (px_expected_trust_sequence x))) (\<lambda>_.
     if stop = AfterTrustApplied then co_ret (Stopped_At (px_transaction_id x) Co_DatabaseCommitted)
     else
       co_bind (co_append (stage_entry x Co_TrustCommitted database_state_digest (tt_transition_id t))) (\<lambda>_.
       co_bind (co_append (stage_entry x Co_Finalized database_state_digest (tt_transition_id t))) (\<lambda>finalized.
       co_ret (Committed_Receipt
         \<lparr>tr_transaction_id = px_transaction_id x, tr_binding_record_id = px_binding_record_id x,
          tr_binding_record_digest = px_binding_record_digest x, tr_policy_digest = px_policy_digest x,
          tr_record_digest = px_record_digest x, tr_database_state_digest = database_state_digest,
          tr_trust_transition_id = tt_transition_id t, tr_trust_sequence = tt_sequence t,
          tr_journal_sequence = je_sequence finalized, tr_finalized = True, tr_recovered = False\<rparr>)))))"

definition commit_rest :: "displays \<Rightarrow> prepared_context \<Rightarrow> probe_stop \<Rightarrow> bytes \<Rightarrow> probe_outcome cio" where
  "commit_rest d x stop database_state_digest =
     co_bind (co_append (stage_entry x Co_DatabaseCommitted database_state_digest (replicate 32 0))) (\<lambda>database_entry.
     if stop = AfterDatabaseCommitted
     then co_ret (Stopped_At (je_transaction_id database_entry) Co_DatabaseCommitted)
     else commit_trust d x stop database_state_digest)"

definition commit_stages :: "displays \<Rightarrow> prepared_context \<Rightarrow> probe_stop \<Rightarrow> probe_outcome cio" where
  "commit_stages d x stop =
     co_bind (co_append (prepared_entry x)) (\<lambda>prepared.
     if stop = AfterPrepared then co_ret (Stopped_At (je_transaction_id prepared) Co_Prepared)
     else co_bind (commit_binding_record d x) (\<lambda>digest. commit_rest d x stop digest))"

definition commit_for_probe :: "displays \<Rightarrow> commit_request \<Rightarrow> probe_stop \<Rightarrow> probe_outcome cio" where
  "commit_for_probe d request stop =
     co_bind (recover_pending d) (\<lambda>recovery.
     co_bind (co_recovered recovery) (\<lambda>_.
     co_bind (co_query (\<lambda>c. prepare_context d c request)) (\<lambda>x.
     commit_stages d x stop)))"

definition co_commit :: "displays \<Rightarrow> commit_request \<Rightarrow> commit_receipt_data cio" where
  "co_commit d request =
     co_bind (commit_for_probe d request Stop_None) (\<lambda>outcome.
     case outcome of
       Committed_Receipt receipt \<Rightarrow> co_ret receipt
     | Stopped_At _ _ \<Rightarrow> co_query (\<lambda>_. Inl (Tc_Invalid (lit ''normal commit unexpectedly stopped''))))"

text \<open>
  Opening replays the four stores and then recovers. When it fails, the coordinator is dropped and
  only the files remain.
\<close>

definition co_load :: "displays \<Rightarrow> path \<Rightarrow> path \<Rightarrow> path \<Rightarrow> path \<Rightarrow> (tc_error, coordinator) io" where
  "co_load d root trust_path policy_path journal_path =
     io_bind (io_map_err (\<lambda>e. Tc_Lifecycle (ds_durable d e)) (db_open root False)) (\<lambda>database.
     io_bind (io_map_err (\<lambda>e. Tc_Trust (ds_trust d e)) (ledger_open_strict trust_path)) (\<lambda>trust.
     io_bind (policies_open_strict policy_path) (\<lambda>policies.
     io_bind (journal_open_strict journal_path) (\<lambda>journal.
     io_ret \<lparr>co_root = root, co_database = database, co_trust = trust, co_policies = policies,
             co_journal = journal, co_last_recovery = no_recovery\<rparr>))))"

definition co_open_strict :: "displays \<Rightarrow> path \<Rightarrow> path \<Rightarrow> path \<Rightarrow> path \<Rightarrow> (tc_error, coordinator) io" where
  "co_open_strict d root trust_path policy_path journal_path =
     io_bind (co_load d root trust_path policy_path journal_path) (\<lambda>c fs.
     case recover_pending d c fs of
       (Inl e, _, fs') \<Rightarrow> (Inl e, fs')
     | (Inr receipt, c', fs') \<Rightarrow> (Inr (c'\<lparr>co_last_recovery := receipt\<rparr>), fs'))"

end
