(* ===== verification/Ub_Cocommit.thy ===== *)
theory Ub_Cocommit
  imports Ub_Coordinator Ub_Ledger Ub_Reads
begin

text \<open>
  What the coordinator of the trust co-commit keeps: the invariant of its four stores, the journal
  between two commits, one stage at a time, and recovery of a commit that stops after \<open>PREPARED\<close>.
\<close>

subsection \<open>The coordinator and its files\<close>

lemmas co_simps = co_bind_def co_ret_def co_query_def

lemma db_inv_fput:
  assumes i: "db_inv db fs frames pend" and o: "outside (ps_root (dd_store db)) p" and e: "fget fs p \<noteq> None"
  shows "db_inv db (fput p b fs) frames pend"
proof -
  let ?S = "dd_store db"
  have d: "fs_dirs (fput p b fs) = fs_dirs fs" "fs_clock (fput p b fs) = fs_clock fs" by simp_all
  have ne: "fget (fput p b fs) (ps_root ?S @ q) = fget fs (ps_root ?S @ q)" for q
    using outside_append o by (cases "ps_root ?S @ q = p") auto
  have q: "fs_quiet (fput p b fs)" using i e by (auto simp: db_inv_def store_ready_def fs_quiet_def)
  have l: "load_checkpoint ?S (fput p b fs) = load_checkpoint ?S fs"
    by (rule load_checkpoint_cong) (simp_all add: ne head_path_def del: fget_put)
  have w: "fget (fput p b fs) (default_wal_path (ps_root ?S)) = fget fs (default_wal_path (ps_root ?S))"
    unfolding default_wal_path_def by (rule ne)
  show ?thesis using i q w recovers_cong [OF l]
    by (auto simp: db_inv_def store_ready_def wal_at_def)
qed

definition co_separate :: "coordinator \<Rightarrow> bool" where
  "co_separate c \<longleftrightarrow> list_all (outside (co_root c)) [tl_path (co_trust c), pr_path (co_policies c), cj_path (co_journal c)] \<and>
     distinct [tl_path (co_trust c), pr_path (co_policies c), cj_path (co_journal c)]"

definition co_ok :: "coordinator \<Rightarrow> fsys \<Rightarrow> bool" where
  "co_ok c fs \<longleftrightarrow> co_root c = ps_root (dd_store (co_database c)) \<and> co_separate c \<and>
     (\<exists>frames. db_inv (co_database c) fs frames []) \<and> ledger_inv (co_trust c, fs) \<and>
     (\<exists>bs. policy_file.in_sync (policies_empty (pr_path (co_policies c))) (co_policies c) bs \<and>
        fget fs (pr_path (co_policies c)) = Some bs) \<and>
     (\<exists>bs. journal_file.in_sync (journal_empty (cj_path (co_journal c))) (co_journal c) bs \<and>
        fget fs (cj_path (co_journal c)) = Some bs)"

lemma ledger_inv_keeps: "ledger_inv (l, fs) \<Longrightarrow> fget fs' (tl_path l) = fget fs (tl_path l) \<Longrightarrow> ledger_inv (l, fs')"
  unfolding ledger_inv_def by (elim exE conjE) (intro exI conjI, assumption, simp, simp)

lemma db_inv_lsn: "db_inv db fs frames pend \<Longrightarrow> final_lsn 0 frames \<noteq> - 1"
  using u64_less_not_max by (auto simp: db_inv_def wal_at_def)

text \<open>Reopening gives back the coordinator, except for what the database notes of its recovery.\<close>

lemma co_load_ok:
  assumes ok: "co_ok c fs"
  obtains db fs' where "co_load d (co_root c) (tl_path (co_trust c)) (pr_path (co_policies c)) (cj_path (co_journal c)) fs =
       (Inr (c\<lparr>co_database := db, co_last_recovery := no_recovery\<rparr>), fs')"
    and "fget fs' = fget fs" and "dd_state db = dd_state (co_database c)"
    and "dd_committed db = dd_committed (co_database c)" and "dd_store db = dd_store (co_database c)"
    and "db_open (co_root c) False fs = (Inr db, fs')"
    and "co_ok (c\<lparr>co_database := db, co_last_recovery := no_recovery\<rparr>) fs'"
proof -
  obtain frames where i: "db_inv (co_database c) fs frames []" and r: "co_root c = ps_root (dd_store (co_database c))"
    using ok by (auto simp: co_ok_def)
  obtain db fs' where o: "db_open (co_root c) False fs = (Inr db, fs')" and e: "dd_store db = dd_store (co_database c)"
      "dd_state db = dd_state (co_database c)" "dd_committed db = dd_committed (co_database c)"
    and i': "db_inv db fs' frames []" and f: "fget fs' = fget fs"
    using db_open_reopen [OF i db_inv_lsn [OF i], of False] r by auto
  from ok obtain ts where h: "ledger_history (tl_path (co_trust c)) ts" "co_trust c = ledger_of (tl_path (co_trust c)) ts"
    "fget fs (tl_path (co_trust c)) = Some (ledger_bytes ts)" by (auto simp: co_ok_def ledger_inv_def)
  from ok obtain pb where p: "policy_file.in_sync (policies_empty (pr_path (co_policies c))) (co_policies c) pb"
    "fget fs (pr_path (co_policies c)) = Some pb" by (auto simp: co_ok_def)
  from ok obtain jb where j: "journal_file.in_sync (journal_empty (cj_path (co_journal c))) (co_journal c) jb"
    "fget fs (cj_path (co_journal c)) = Some jb" by (auto simp: co_ok_def)
  have "ledger_open_strict (tl_path (co_trust c)) fs' = (Inr (co_trust c), fs')"
    using open_history [OF h(1)] h(2,3) f by simp
  moreover have "policies_open_strict (pr_path (co_policies c)) fs' = (Inr (co_policies c), fs')"
    using policies_open_synced [OF p(1)] p(2) f by simp
  moreover have "journal_open_strict (cj_path (co_journal c)) fs' = (Inr (co_journal c), fs')"
    using journal_open_synced [OF j(1)] j(2) f by simp
  ultimately have l: "co_load d (co_root c) (tl_path (co_trust c)) (pr_path (co_policies c)) (cj_path (co_journal c)) fs =
       (Inr (c\<lparr>co_database := db, co_last_recovery := no_recovery\<rparr>), fs')"
    using o by (simp add: co_load_def io_bind_def io_map_err_def io_ret_def)
  have "co_ok (c\<lparr>co_database := db, co_last_recovery := no_recovery\<rparr>) fs'"
    using ok i' e f by (auto simp: co_ok_def co_separate_def ledger_inv_def)
  from that [OF l f e(2,3,1) o this] show thesis .
qed

lemma bt_insert_filter:
  assumes "bt_ok m" and "\<And>j w. (j, w) \<in> set m \<Longrightarrow> j \<noteq> k \<Longrightarrow> \<not> P w"
  shows "filter P (bt_values (bt_insert k v m)) = (if P v then [v] else [])"
  using assms
proof (induction k v m rule: bt_insert.induct)
  case (2 k v a b m)
  have ok: "bt_ok m" "\<forall>p \<in> set m. a < fst p" using 2(2) by (auto simp: bt_ok_def)
  have no: "filter P (map snd m) = []" if "k \<le> a"
  proof -
    have "\<not> P w" if "(j, w) \<in> set m" for j w
    proof -
      have "k \<noteq> j" using ok(2) \<open>k \<le> a\<close> that by fastforce
      with 2(3) [of j w] that show ?thesis by auto
    qed
    then show ?thesis by (auto simp: filter_empty_conv)
  qed
  show ?case
  proof (cases "k \<le> a")
    case True
    then show ?thesis using no 2(3) [of a b] by (auto simp: bt_values_def)
  next
    case False
    then have k: "\<not> k < a" "k \<noteq> a" by auto
    have "filter P (bt_values (bt_insert k v m)) = (if P v then [v] else [])"
      by (rule 2(1) [OF k ok(1)]) (use 2(3) in auto)
    with k 2(3) [of a b] show ?thesis by (auto simp: bt_values_def)
  qed
qed (simp add: bt_values_def)

subsection \<open>The journal between two commits\<close>

text \<open>Every transaction but \<open>t\<close> is finished.\<close>

definition only_pending :: "commit_journal \<Rightarrow> bytes \<Rightarrow> bool" where
  "only_pending j t \<longleftrightarrow> bt_ok (cj_latest j) \<and>
     (\<forall>k e. bt_get (cj_latest j) k = Some e \<longrightarrow> k \<noteq> t \<longrightarrow> stage_terminal (je_stage e))"

lemma only_pending_record:
  assumes "only_pending j t" and "je_transaction_id e = t"
  shows "only_pending (journal_record j e) t"
    and "journal_pending (journal_record j e) = (if stage_terminal (je_stage e) then [] else [e])"
proof -
  have ok: "bt_ok (cj_latest j)" using assms(1) by (simp add: only_pending_def)
  show "only_pending (journal_record j e) t"
    using assms by (auto simp: only_pending_def bt_ok_insert bt_get_insert)
  show "journal_pending (journal_record j e) = (if stage_terminal (je_stage e) then [] else [e])"
    unfolding journal_pending_def journal_record_simps
    by (subst bt_insert_filter [OF ok]) (use assms bt_in_set_get [OF ok] in \<open>auto simp: only_pending_def\<close>)
qed

lemma synced_latest_ok: "journal_file.in_sync (journal_empty p) j bs \<Longrightarrow> bt_ok (cj_latest j)"
proof (induction rule: journal_file.in_sync_induct)
  case empty
  show ?case by (simp add: journal_empty_def bt_ok_def)
qed (simp add: bt_ok_insert)

lemma no_pending_only:
  assumes "journal_pending j = []" and "bt_ok (cj_latest j)"
  shows "only_pending j t"
  using assms by (fastforce simp: only_pending_def journal_pending_def filter_empty_conv bt_values_def dest: bt_get_in_set)

text \<open>Room for \<open>k\<close> more entries in the journal's file.\<close>

definition journal_room :: "nat \<Rightarrow> coordinator \<Rightarrow> fsys \<Rightarrow> bool" where
  "journal_room k c fs \<longleftrightarrow> (\<forall>bs. fget fs (cj_path (co_journal c)) = Some bs \<longrightarrow> length bs + k * 2 ^ 25 < usize_limit)"

lemma length_entry_frame:
  assumes "length (commit_payload e) \<le> MAX_FRAME_PAYLOAD_BYTES" and "length (cj_head_digest j) = 32"
  shows "length (event_bytes COMMIT_LEDGER_MAGIC journal_frame (entry_stamped j e)) \<le> 2 ^ 25"
  using assms by (simp add: event_bytes_def Ub_Chain.entry_bytes_def journal_frame_def length_chain_header entry_stamped_def
      entry_stamps_irrelevant MAX_FRAME_PAYLOAD_BYTES_def)

lemma co_append_ok:
  assumes ok: "co_ok c fs" and room: "journal_room (Suc k) c fs"
    and e: "entry_acceptable (co_journal c) e" "entry_fits e" "entry_consistent e"
  defines "e' \<equiv> entry_stamped (co_journal c) e"
  obtains fs' bytes where "co_append e c fs = (Inr e', c\<lparr>co_journal := journal_record (co_journal c) e'\<rparr>, fs')"
    and "co_ok (c\<lparr>co_journal := journal_record (co_journal c) e'\<rparr>) fs'"
    and "journal_room k (c\<lparr>co_journal := journal_record (co_journal c) e'\<rparr>) fs'"
    and "fs' = fput (cj_path (co_journal c)) bytes fs"
proof -
  let ?J = "co_journal c" and ?c = "c\<lparr>co_journal := journal_record (co_journal c) e'\<rparr>"
  obtain bs where s: "journal_file.in_sync (journal_empty (cj_path ?J)) ?J bs" and f: "fget fs (cj_path ?J) = Some bs"
    using ok by (auto simp: co_ok_def)
  have hd: "length (cj_head_digest ?J) = 32"
    using journal_file.in_sync_head [OF s] by (simp add: journal_empty_def zero_digest_def)
  let ?fs = "fput (cj_path ?J) (bs @ event_bytes COMMIT_LEDGER_MAGIC journal_frame e') fs"
  have ap: "co_append e c fs = (Inr e', ?c, ?fs)"
    using journal_append_ok [OF e(1) f] by (simp add: co_append_def e'_def)
  have adm: "journal_admits ?J e'"
    using e hd by (simp add: entry_acceptable_def journal_admits_def frame_follows_def journal_frame_def e'_def entry_stamped_def
        entry_stamps_irrelevant)
  have len: "length (event_bytes COMMIT_LEDGER_MAGIC journal_frame e') \<le> 2 ^ 25"
    using e(1) hd unfolding e'_def by (intro length_entry_frame) (simp_all add: entry_acceptable_def)
  have rm: "length bs + Suc k * 2 ^ 25 < usize_limit" using room f by (simp add: journal_room_def)
  have s': "journal_file.in_sync (journal_empty (cj_path ?J)) (journal_record ?J e') (bs @ event_bytes COMMIT_LEDGER_MAGIC journal_frame e')"
    by (rule journal_file.in_sync_push [OF s adm]) (use len rm in simp)
  have o: "outside (ps_root (dd_store (co_database c))) (cj_path ?J)" and ne: "cj_path ?J \<noteq> tl_path (co_trust c)"
    "cj_path ?J \<noteq> pr_path (co_policies c)"
    using ok by (auto simp: co_ok_def co_separate_def)
  obtain frames where "db_inv (co_database c) fs frames []" using ok by (auto simp: co_ok_def)
  from db_inv_fput [OF this o] f have d: "db_inv (co_database c) ?fs frames []" by simp
  have "ledger_inv (co_trust c, ?fs)" by (rule ledger_inv_keeps [where fs = fs]) (use ok ne in \<open>auto simp: co_ok_def\<close>)
  then have "co_ok ?c ?fs" using ok s' d ne by (auto simp: co_ok_def co_separate_def)
  moreover have "journal_room k ?c ?fs" using rm len by (simp add: journal_room_def)
  ultimately show thesis by (intro that [OF ap]) simp_all
qed

subsection \<open>What a prepared context is\<close>

definition request_typed :: "commit_request \<Rightarrow> bool" where
  "request_typed q \<longleftrightarrow> list_all utf8_valid [cq_record_id q, cq_policy_id q, cq_policy_version q, cq_verifier_id q,
       cq_reason_code q, superseding_text (cq_superseding_record_id q)] \<and>
     list_all evidence_typed (cq_evidence_refs q)"

lemma tc_evidence_ok:
  "tc_validate_evidence seen es = Inr () \<Longrightarrow> list_all evidence_typed es \<Longrightarrow> list_all evidence_ok es"
  by (induction seen es rule: tc_validate_evidence.induct)
    (auto simp: rbind_eq_Inr_iff tc_validate_string_iff evidence_typed_def evidence_ok_def text_ok_def Let_def split: if_splits)

lemma request_fits_ok:
  assumes v: "validate_request q = Inr ()" and ty: "request_typed q" and n: "length (cq_evidence_refs q) \<le> 4096"
  shows "request_fits q"
proof -
  have "cq_superseding_record_id q \<noteq> Some []" "length (superseding_text (cq_superseding_record_id q)) \<le> MAX_STRING_BYTES"
    using v by (auto simp: validate_request_def rbind_eq_Inr_iff tc_validate_string_iff superseding_text_def
        split: if_splits option.splits)
  moreover have "length (cq_record_id q) \<le> MAX_STRING_BYTES" "length (cq_policy_id q) \<le> MAX_STRING_BYTES"
    "length (cq_policy_version q) \<le> MAX_STRING_BYTES" "length (cq_verifier_id q) \<le> MAX_STRING_BYTES"
    "length (cq_reason_code q) \<le> MAX_STRING_BYTES" "tc_validate_evidence [] (cq_evidence_refs q) = Inr ()"
    using v by (auto simp: validate_request_def rbind_eq_Inr_iff tc_validate_string_iff split: if_splits)
  ultimately show ?thesis using ty n tc_evidence_ok by (simp add: request_fits_def request_typed_def text_ok_def)
qed

definition binding_bytes :: "prepared_context \<Rightarrow> bytes" where
  "binding_bytes x = BINDING_PAYLOAD_MAGIC @ px_transaction_id x @ px_record_digest x @ px_policy_digest x
     @ px_request_digest x @ px_trust_pre_head x @ u64_le (px_expected_trust_sequence x)
     @ u64_le (cq_logical_timestamp (px_request x)) @ u32_le (of_nat (length (cq_record_id (px_request x)))) @ u32_le 0
     @ cq_record_id (px_request x)"

text \<open>What \<open>prepare_context\<close> has checked, and how it has derived the rest.\<close>

lemma prepare_context_sound:
  assumes "prepare_context d c q = Inr x"
  shows "px_request x = q" "validate_request q = Inr ()" "\<not> starts_with (cq_record_id q) BINDING_RECORD_PREFIX"
    "policies_authorize (co_policies c) q = Inr (px_policy_digest x)"
    "\<exists>r. require_target_record d c (cq_record_id q) = Inr r \<and> px_record_digest x = canonical_database_record_digest r"
    "validate_superseding_binding d c q = Inr ()"
    "px_request_digest x = compute_request_digest q" "px_trust_pre_head x = tl_head_digest (co_trust c)"
    "(of_nat (length (tl_transitions (co_trust c))) :: u64) \<noteq> - 1"
    "px_expected_trust_sequence x = of_nat (length (tl_transitions (co_trust c))) + 1"
    "px_transaction_id x = compute_transaction_id (state_hash (dd_state (co_database c))) (px_trust_pre_head x)
       (px_policy_digest x) (px_record_digest x) (px_request_digest x) (px_expected_trust_sequence x)"
    "px_binding_record_id x = BINDING_RECORD_PREFIX @ hex_digest (px_transaction_id x)"
    "co_record d c (px_binding_record_id x) = Inr None"
    "px_binding_payload x = binding_bytes x" "px_binding_record_digest x = sha256 (px_binding_payload x)"
    "cq_record_id q \<noteq> []" "length (cq_record_id q) \<le> MAX_STRING_BYTES"
  using assms unfolding prepare_context_def Let_def
  by (auto simp: rbind_eq_Inr_iff encode_binding_payload_def tc_validate_string_iff binding_bytes_def
      split: if_splits)

lemma hex_char_ascii: "d < 16 \<Longrightarrow> hex_char d < 0x80"
  by (simp add: hex_char_def word_less_nat_alt unat_word_ariths unat_sub_if')

lemma hex_digest_ascii: "ascii (hex_digest d)"
proof -
  have "hex_char (b div 16) < 0x80" "hex_char (b mod 16) < 0x80" for b :: u8
    by (rule hex_char_ascii, use unsigned_less [of b, where ?'a = nat] in \<open>simp add: word_less_nat_alt unat_div unat_mod\<close>)+
  then show ?thesis by (induction d) (simp_all add: hex_digest_def hex_byte_def ascii_def)
qed

lemma length_request_digest [simp]: "length (compute_request_digest q) = 32"
  by (simp add: compute_request_digest_def)

text \<open>What holds of a context whatever happens to the stores afterwards.\<close>

definition context_fits :: "prepared_context \<Rightarrow> bool" where
  "context_fits x \<longleftrightarrow> request_fits (px_request x) \<and> validate_request (px_request x) = Inr () \<and>
     px_request_digest x = compute_request_digest (px_request x) \<and> text_ok (px_binding_record_id x) \<and>
     list_all (\<lambda>b. length b = 32) [px_transaction_id x, px_record_digest x, px_policy_digest x, px_request_digest x,
       px_trust_pre_head x, px_binding_record_digest x]"

lemma context_fits_ok:
  assumes ok: "co_ok c fs" and p: "prepare_context d c q = Inr x" and ty: "request_typed q"
  shows "context_fits x"
proof -
  note s = prepare_context_sound [OF p]
  from ok obtain pb where pb: "policy_file.in_sync (policies_empty (pr_path (co_policies c))) (co_policies c) pb"
    by (auto simp: co_ok_def)
  note a = authorized_evidence [OF pb s(4)]
  have "request_fits q" by (rule request_fits_ok [OF s(2) ty a(1)])
  moreover have "length (tl_head_digest (co_trust c)) = 32"
    using ok ledger_head_length by (auto simp: co_ok_def ledger_inv_def)
  moreover have "text_ok (px_binding_record_id x)"
    using ascii_utf8_valid [of "px_binding_record_id x"] hex_digest_ascii [of "px_transaction_id x"]
    by (simp add: s(12) text_ok_def s(11) compute_transaction_id_def MAX_STRING_BYTES_def BINDING_RECORD_PREFIX_def ascii_def lit_def)
  ultimately show ?thesis using s a(2)
    by (auto simp: context_fits_def compute_transaction_id_def canonical_database_record_digest_def)
qed

lemma stage_entry_simps [simp]:
  "je_stage (stage_entry x s a b) = s" "je_transaction_id (stage_entry x s a b) = px_transaction_id x"
  "je_request (stage_entry x s a b) = px_request x" "je_record_digest (stage_entry x s a b) = px_record_digest x"
  "je_policy_digest (stage_entry x s a b) = px_policy_digest x"
  "je_request_digest (stage_entry x s a b) = px_request_digest x"
  "je_trust_pre_head (stage_entry x s a b) = px_trust_pre_head x"
  "je_expected_trust_sequence (stage_entry x s a b) = px_expected_trust_sequence x"
  "je_binding_record_id (stage_entry x s a b) = px_binding_record_id x"
  "je_binding_record_digest (stage_entry x s a b) = px_binding_record_digest x"
  "je_database_state_digest (stage_entry x s a b) = a" "je_trust_transition_id (stage_entry x s a b) = b"
  by (simp_all add: stage_entry_def)

lemma stage_entry_fits:
  assumes "context_fits x" and "length a = 32" and "length b = 32"
  shows "entry_fits (stage_entry x s a b)" and "entry_consistent (stage_entry x s a b)"
    and "length (commit_payload (stage_entry x s a b)) = length (commit_payload (prepared_entry x))"
proof -
  show f: "entry_fits (stage_entry x s a b)" "entry_consistent (stage_entry x s a b)"
    using assms by (simp_all add: entry_fits_def context_fits_def entry_consistent_def)
  have "entry_fits (prepared_entry x)" using assms by (simp add: prepared_entry_def entry_fits_def context_fits_def)
  with f show "length (commit_payload (stage_entry x s a b)) = length (commit_payload (prepared_entry x))"
    by (simp add: length_commit_payload prepared_entry_def)
qed

text \<open>Appending ignores the stamps of its argument.\<close>

lemma co_append_bare: "co_append e = co_append (entry_bare e)"
proof (intro ext)
  fix c fs
  have p: "commit_payload (e\<lparr>je_sequence := n, je_previous_digest := b\<rparr>) = commit_payload e"
    "commit_payload ((entry_bare e)\<lparr>je_sequence := n, je_previous_digest := b\<rparr>) = commit_payload e" for n b
    by (simp_all add: commit_payload_def entry_bare_def)
  have q: "(entry_bare e)\<lparr>je_sequence := n, je_previous_digest := b, je_digest := h\<rparr> =
      e\<lparr>je_sequence := n, je_previous_digest := b, je_digest := h\<rparr>" for n b h by (simp add: entry_bare_def)
  have r: "tc_encode_commit_payload (e\<lparr>je_sequence := n, je_previous_digest := b\<rparr>) =
      tc_encode_commit_payload ((entry_bare e)\<lparr>je_sequence := n, je_previous_digest := b\<rparr>)" for n b
    by (simp add: tc_encode_commit_payload_def p) (simp add: entry_bare_def)
  show "co_append e c fs = co_append (entry_bare e) c fs"
    unfolding co_append_def journal_append_def Let_def r q entry_bare_irrelevant(4) ..
qed

lemma bare_stage_entry:
  "entry_bare ((entry_stamped j (stage_entry x s a b))\<lparr>je_stage := s', je_database_state_digest := a', je_trust_transition_id := b'\<rparr>) =
     stage_entry x s' a' b'"
  "entry_bare ((entry_stamped j (stage_entry x s a b))\<lparr>je_stage := s', je_trust_transition_id := b'\<rparr>) = stage_entry x s' a b'"
  "entry_bare ((entry_stamped j (stage_entry x s a b))\<lparr>je_stage := s'\<rparr>) = stage_entry x s' a b"
  by (simp_all add: entry_bare_def entry_stamped_def stage_entry_def)

lemma journal_entry_count:
  assumes "journal_file.in_sync (journal_empty p) j bs"
  shows "length (cj_entries j) \<le> length bs"
proof -
  obtain es where e: "j = foldl journal_record (journal_empty p) es" "bs = events_bytes COMMIT_LEDGER_MAGIC journal_frame es"
    using assms by (auto simp: journal_file.in_sync_def)
  have "cj_entries (foldl journal_record (journal_empty p) es) = es"
    by (induction es rule: rev_induct) (simp_all add: journal_empty_def)
  moreover have "length es \<le> length (events_bytes COMMIT_LEDGER_MAGIC journal_frame es)"
    by (induction es rule: rev_induct) (simp_all add: event_bytes_def Ub_Chain.entry_bytes_def chain_header_def Let_def)
  ultimately show ?thesis using e by simp
qed

lemma u64_room_count: "n + 1 < 2 ^ 64 \<Longrightarrow> (of_nat n :: u64) \<noteq> - 1"
proof
  assume n: "n + 1 < 2 ^ 64" and e: "(of_nat n :: u64) = - 1"
  have "unat (- 1 :: u64) = 2 ^ 64 - 1" by (simp add: unsigned_minus_1_eq_mask mask_eq_exp_minus_1)
  moreover have "unat (of_nat n :: u64) = n" using n unat_u64_iff [of n "of_nat n"] by (simp add: usize_limit_def)
  ultimately show False using n e by simp
qed

subsection \<open>One stage further\<close>

definition at_stage :: "commit_journal \<Rightarrow> prepared_context \<Rightarrow> commit_stage \<Rightarrow> bytes \<Rightarrow> bytes \<Rightarrow> bool" where
  "at_stage j x s a b \<longleftrightarrow> (\<exists>j0. bt_get (cj_latest j) (px_transaction_id x) = Some (entry_stamped j0 (stage_entry x s a b)))"

definition stage_ready :: "commit_journal \<Rightarrow> prepared_context \<Rightarrow> commit_stage \<Rightarrow> bytes \<Rightarrow> bytes \<Rightarrow> bool" where
  "stage_ready j x s a b \<longleftrightarrow> validate_stage_payload (stage_entry x s a b) = Inr () \<and>
     (case bt_get (cj_latest j) (px_transaction_id x) of
        None \<Rightarrow> s = Co_Prepared
      | Some e \<Rightarrow> (\<exists>j0 s0 a0 b0. e = entry_stamped j0 (stage_entry x s0 a0 b0) \<and> stage_follows (Some s0) s \<and>
          (s0 = Co_DatabaseCommitted \<or> s0 = Co_TrustCommitted \<longrightarrow> a = a0) \<and> (s0 = Co_TrustCommitted \<longrightarrow> b = b0)))"

lemma stage_readyI:
  assumes "at_stage j x s0 a0 b0" and "stage_follows (Some s0) s" and "validate_stage_payload (stage_entry x s a b) = Inr ()"
    and "s0 = Co_DatabaseCommitted \<or> s0 = Co_TrustCommitted \<Longrightarrow> a = a0" and "s0 = Co_TrustCommitted \<Longrightarrow> b = b0"
  shows "stage_ready j x s a b"
proof -
  from assms(1) obtain j0 where "bt_get (cj_latest j) (px_transaction_id x) = Some (entry_stamped j0 (stage_entry x s0 a0 b0))"
    by (auto simp: at_stage_def)
  with assms(2-5) show ?thesis
    unfolding stage_ready_def by simp (intro exI conjI, rule refl, auto)
qed

lemma stage_ready_valid: "stage_ready j x s a b \<Longrightarrow> validate_entry j (stage_entry x s a b) = Inr ()"
proof (cases "bt_get (cj_latest j) (px_transaction_id x)")
  case (Some e)
  assume r: "stage_ready j x s a b"
  then obtain j0 s0 a0 b0 where e: "e = entry_stamped j0 (stage_entry x s0 a0 b0)" "stage_follows (Some s0) s"
    "s0 = Co_DatabaseCommitted \<or> s0 = Co_TrustCommitted \<longrightarrow> a = a0" "s0 = Co_TrustCommitted \<longrightarrow> b = b0"
    and p: "validate_stage_payload (stage_entry x s a b) = Inr ()"
    using Some unfolding stage_ready_def by auto
  have "validate_same_transaction e (stage_entry x s a b) = Inr ()"
    unfolding validate_same_transaction_def using e(3,4) p by (auto simp: e(1))
  with Some e(2) show ?thesis by (simp add: validate_entry_def validate_stage_transition_def e(1))
qed (auto simp: stage_ready_def validate_entry_def validate_stage_transition_def)

text \<open>The conditions under which the coordinator can write the entries of a context.\<close>

definition co_open_for :: "nat \<Rightarrow> prepared_context \<Rightarrow> coordinator \<Rightarrow> fsys \<Rightarrow> bool" where
  "co_open_for k x c fs \<longleftrightarrow> co_ok c fs \<and> journal_room k c fs \<and> only_pending (co_journal c) (px_transaction_id x) \<and>
     context_fits x \<and> length (commit_payload (prepared_entry x)) \<le> MAX_FRAME_PAYLOAD_BYTES"

lemma stage_append:
  assumes o: "co_open_for (Suc k) x c fs" and r: "stage_ready (co_journal c) x s a b" and l: "length a = 32" "length b = 32"
  defines "e \<equiv> entry_stamped (co_journal c) (stage_entry x s a b)"
  obtains fs' bytes where "co_append (stage_entry x s a b) c fs = (Inr e, c\<lparr>co_journal := journal_record (co_journal c) e\<rparr>, fs')"
    and "co_open_for k x (c\<lparr>co_journal := journal_record (co_journal c) e\<rparr>) fs'"
    and "at_stage (journal_record (co_journal c) e) x s a b"
    and "journal_pending (journal_record (co_journal c) e) = (if stage_terminal s then [] else [e])"
    and "fs' = fput (cj_path (co_journal c)) bytes fs"
proof -
  let ?J = "co_journal c" and ?e = "stage_entry x s a b"
  from o have ok: "co_ok c fs" and room: "journal_room (Suc k) c fs" and on: "only_pending ?J (px_transaction_id x)"
    and f: "context_fits x" and sm: "length (commit_payload (prepared_entry x)) \<le> MAX_FRAME_PAYLOAD_BYTES"
    by (auto simp: co_open_for_def)
  note fit = stage_entry_fits [OF f l, of s]
  obtain bs where s: "journal_file.in_sync (journal_empty (cj_path ?J)) ?J bs" "fget fs (cj_path ?J) = Some bs"
    using ok by (auto simp: co_ok_def)
  have "length (cj_entries ?J) + 1 < 2 ^ 64"
    using journal_entry_count [OF s(1)] room s(2) by (simp add: journal_room_def usize_limit_def)
  then have n: "(of_nat (length (cj_entries ?J)) :: u64) \<noteq> - 1"
    using u64_room_count by blast
  have acc: "entry_acceptable ?J ?e"
    using stage_ready_valid [OF r] n f fit(3) sm by (simp add: entry_acceptable_def context_fits_def)
  obtain fs' bytes where ap: "co_append ?e c fs = (Inr e, c\<lparr>co_journal := journal_record ?J e\<rparr>, fs')"
    and ok': "co_ok (c\<lparr>co_journal := journal_record ?J e\<rparr>) fs'" "journal_room k (c\<lparr>co_journal := journal_record ?J e\<rparr>) fs'"
    and fr: "fs' = fput (cj_path ?J) bytes fs"
    by (rule co_append_ok [OF ok room acc fit(1,2), folded e_def])
  have t: "je_transaction_id e = px_transaction_id x" "je_stage e = s" by (simp_all add: e_def)
  note pd = only_pending_record [OF on t(1)]
  have "co_open_for k x (c\<lparr>co_journal := journal_record ?J e\<rparr>) fs'" using ok' pd(1) f sm by (simp add: co_open_for_def)
  moreover have "at_stage (journal_record ?J e) x s a b"
    unfolding at_stage_def journal_record_simps t(1) bt_get_insert by (auto simp: e_def)
  ultimately show thesis using pd(2) fr by (intro that [OF ap]) (simp_all add: t(2))
qed

subsection \<open>Recovery of one transaction\<close>

lemma co_bind_ret [simp]: "co_bind m co_ret = m"
  by (intro ext) (simp add: co_bind_def co_ret_def split: prod.splits sum.splits)

lemma recover_none: "journal_pending (co_journal c) = [] \<Longrightarrow> recover_pending d c fs = (Inr no_recovery, c, fs)"
  by (simp add: recover_pending_def co_simps no_recovery_def)

lemma recover_one:
  "journal_pending (co_journal c) = [e] \<Longrightarrow>
   recover_pending d c fs = recover_transaction d e (no_recovery\<lparr>rv_pending_before := 1\<rparr>) c fs"
proof -
  assume "journal_pending (co_journal c) = [e]"
  then have "recover_pending d c fs = co_bind (recover_transaction d e (no_recovery\<lparr>rv_pending_before := 1\<rparr>)) co_ret c fs"
    by (simp add: recover_pending_def co_bind_def [of "co_query _"] co_query_def)
      (simp add: co_bind_def co_ret_def split: prod.split sum.split)
  then show ?thesis by simp
qed

lemma context_last_recovery [simp]: "prepare_context d (c\<lparr>co_last_recovery := r\<rparr>) q = prepare_context d c q"
  by (simp add: prepare_context_def require_target_record_def validate_superseding_binding_def co_record_def Let_def
      cong: if_cong option.case_cong)

lemma commit_start:
  assumes "journal_pending (co_journal c) = []"
  defines "c' \<equiv> c\<lparr>co_last_recovery := no_recovery\<rparr>"
  shows "commit_for_probe d q stop c fs =
     (case prepare_context d c q of Inl e \<Rightarrow> (Inl e, c', fs) | Inr x \<Rightarrow> commit_stages d x stop c' fs)"
  using recover_none [OF assms(1), of d fs]
  by (simp add: commit_for_probe_def co_bind_def co_recovered_def co_query_def c'_def split: sum.split)

lemma recovery_checks_ok:
  assumes p: "prepare_context d c q = Inr x" and pol: "co_policies c' = co_policies c"
    and r: "require_target_record d c' (cq_record_id q) = require_target_record d c (cq_record_id q)"
    and s: "validate_superseding_binding d c' q = Inr ()"
  shows "recovery_checks d c' (entry_stamped j (stage_entry x st a b)) = co_record d c' (px_binding_record_id x)"
  using prepare_context_sound [OF p] pol r s by (auto simp: recovery_checks_def Let_def)

lemma same_state_reads:
  assumes "dd_state (co_database c') = dd_state (co_database c)"
  shows "co_record d c' r = co_record d c r" "require_target_record d c' r = require_target_record d c r"
    "co_trust c' = co_trust c \<Longrightarrow> validate_superseding_binding d c' q = validate_superseding_binding d c q"
  using assms by (simp_all add: co_record_def db_record_def require_target_record_def validate_superseding_binding_def
      cong: if_cong option.case_cong)

text \<open>An entry at \<open>PREPARED\<close> without a binding record is aborted.\<close>

lemma recover_prepared_aborts:
  assumes o: "co_open_for (Suc k) x c' fs" and p: "prepare_context d c q = Inr x"
    and same: "dd_state (co_database c') = dd_state (co_database c)" "co_trust c' = co_trust c" "co_policies c' = co_policies c"
    and at: "bt_get (cj_latest (co_journal c')) (px_transaction_id x) = Some (entry_stamped j (prepared_entry x))"
  obtains e fs' where "recover_transaction d (entry_stamped j (prepared_entry x)) receipt c' fs =
       (Inr (receipt\<lparr>rv_aborted_prepared := rv_aborted_prepared receipt + 1\<rparr>), c'\<lparr>co_journal := journal_record (co_journal c') e\<rparr>, fs')"
    and "co_open_for k x (c'\<lparr>co_journal := journal_record (co_journal c') e\<rparr>) fs'"
    and "journal_pending (journal_record (co_journal c') e) = []"
    and "je_transaction_id e = px_transaction_id x" and "je_stage e = Co_Aborted"
proof -
  note s = prepare_context_sound [OF p]
  let ?z = "replicate 32 0 :: bytes" and ?h = "state_hash (dd_state (co_database c'))"
  let ?e = "entry_stamped (co_journal c') (stage_entry x Co_Aborted ?h ?z)"
  have v: "validate_superseding_binding d c' q = Inr ()" using s(6) same_state_reads(3) [OF same(1,2)] by simp
  have ck: "recovery_checks d c' (entry_stamped j (prepared_entry x)) = Inr None"
    unfolding prepared_entry_def
    using recovery_checks_ok [OF p same(3) same_state_reads(2) [OF same(1)] v] s(13) same_state_reads(1) [OF same(1)] by simp
  have rd: "stage_ready (co_journal c') x Co_Aborted ?h ?z"
    by (rule stage_readyI [of _ _ Co_Prepared ?z ?z])
      (use at in \<open>auto simp: at_stage_def validate_stage_payload_def prepared_entry_def\<close>)
  obtain fs' where "co_append (stage_entry x Co_Aborted ?h ?z) c' fs = (Inr ?e, c'\<lparr>co_journal := journal_record (co_journal c') ?e\<rparr>, fs')"
    "co_open_for k x (c'\<lparr>co_journal := journal_record (co_journal c') ?e\<rparr>) fs'"
    "journal_pending (journal_record (co_journal c') ?e) = []"
    by (rule stage_append [OF o rd]) (auto simp: state_hash_def)
  then show thesis
    using ck co_append_bare [of "(entry_stamped j (prepared_entry x))\<lparr>je_stage := Co_Aborted, je_database_state_digest := ?h,
       je_trust_transition_id := ?z\<rparr>"]
    by (intro that [of ?e fs']) (simp_all add: recover_transaction_def co_simps prepared_entry_def bare_stage_entry)
qed

lemma nothing_before_prepared: "\<not> stage_follows (Some s) Co_Prepared"
  by (cases s) simp_all

lemma prepared_appended:
  assumes "co_append (prepared_entry x) c fs = (Inr e, c1, fs1)"
  shows "bt_get (cj_latest (co_journal c)) (px_transaction_id x) = None"
    and "length (commit_payload (prepared_entry x)) \<le> MAX_FRAME_PAYLOAD_BYTES"
proof -
  have "\<exists>r. journal_append (prepared_entry x) (co_journal c) fs = (Inr e, r)"
    using assms by (auto simp: co_append_def split: prod.splits)
  then have a: "entry_acceptable (co_journal c) (prepared_entry x)"
    using journal_append_refused [of "co_journal c" "prepared_entry x" fs] by fastforce
  then show "length (commit_payload (prepared_entry x)) \<le> MAX_FRAME_PAYLOAD_BYTES" by (simp add: entry_acceptable_def)
  show "bt_get (cj_latest (co_journal c)) (px_transaction_id x) = None"
    using a nothing_before_prepared
    by (cases "bt_get (cj_latest (co_journal c)) (px_transaction_id x)")
      (auto simp: entry_acceptable_def validate_entry_def validate_stage_transition_def prepared_entry_def Let_def)
qed

lemma co_ok_last_recovery [simp]: "co_ok (c\<lparr>co_last_recovery := r\<rparr>) fs = co_ok c fs"
  by (simp add: co_ok_def co_separate_def)

lemma co_open_for_last_recovery [simp]: "co_open_for k x (c\<lparr>co_last_recovery := r\<rparr>) fs = co_open_for k x c fs"
  by (simp add: co_open_for_def journal_room_def)

text \<open>The first stage of a commit.\<close>

lemma commit_prepared_stage:
  assumes ok: "co_ok c fs" and np: "journal_pending (co_journal c) = []"
    and run: "commit_for_probe d q stop c fs = (Inr out, c2, fs2)"
  obtains x where "prepare_context d c q = Inr x" and "bt_get (cj_latest (co_journal c)) (px_transaction_id x) = None"
    and "length (commit_payload (prepared_entry x)) \<le> MAX_FRAME_PAYLOAD_BYTES"
proof -
  let ?c = "c\<lparr>co_last_recovery := no_recovery\<rparr>"
  note st = commit_start [OF np, of d q stop fs]
  obtain x where p: "prepare_context d c q = Inr x" using run st by (cases "prepare_context d c q") auto
  have "commit_stages d x stop ?c fs = (Inr out, c2, fs2)" using run st p by simp
  then obtain e c1 fs1 where a: "co_append (prepared_entry x) ?c fs = (Inr e, c1, fs1)"
    by (cases "co_append (prepared_entry x) ?c fs") (auto simp: commit_stages_def co_bind_def split: sum.splits)
  from that [OF p] prepared_appended [OF a] show thesis by simp
qed

lemma prepared_stage:
  assumes ok: "co_ok c fs" and np: "journal_pending (co_journal c) = []" and ty: "request_typed q"
    and room: "journal_room (Suc k) c fs" and p: "prepare_context d c q = Inr x"
    and new: "bt_get (cj_latest (co_journal c)) (px_transaction_id x) = None"
    and small: "length (commit_payload (prepared_entry x)) \<le> MAX_FRAME_PAYLOAD_BYTES"
  defines "e \<equiv> entry_stamped (co_journal c) (prepared_entry x)"
  defines "c1 \<equiv> c\<lparr>co_last_recovery := no_recovery, co_journal := journal_record (co_journal c) e\<rparr>"
  obtains fs1 bytes where "\<And>stop. commit_for_probe d q stop c fs =
      (if stop = AfterPrepared then (Inr (Stopped_At (px_transaction_id x) Co_Prepared), c1, fs1)
       else co_bind (commit_binding_record d x) (\<lambda>h. commit_rest d x stop h) c1 fs1)"
    and "co_open_for k x c1 fs1" and "fs1 = fput (cj_path (co_journal c)) bytes fs"
    and "journal_pending (co_journal c1) = [e]" and "at_stage (co_journal c1) x Co_Prepared (replicate 32 0) (replicate 32 0)"
proof -
  let ?c = "c\<lparr>co_last_recovery := no_recovery\<rparr>" and ?J = "co_journal c" and ?z = "replicate 32 0 :: bytes"
  obtain bs where s: "journal_file.in_sync (journal_empty (cj_path ?J)) ?J bs" using ok by (auto simp: co_ok_def)
  have o: "co_open_for (Suc k) x ?c fs"
    using ok room context_fits_ok [OF ok p ty] no_pending_only [OF np synced_latest_ok [OF s]] small
    by (simp add: co_open_for_def journal_room_def)
  have rd: "stage_ready (co_journal ?c) x Co_Prepared ?z ?z"
    using new by (simp add: stage_ready_def validate_stage_payload_def)
  obtain fs1 bytes where ap: "co_append (prepared_entry x) ?c fs = (Inr e, c1, fs1)" and o1: "co_open_for k x c1 fs1"
    and pd: "journal_pending (co_journal c1) = [e]" "at_stage (co_journal c1) x Co_Prepared ?z ?z"
    and fr: "fs1 = fput (cj_path ?J) bytes fs"
    by (rule stage_append [OF o rd]) (simp_all add: prepared_entry_def c1_def e_def)
  have run: "commit_for_probe d q stop c fs =
      (if stop = AfterPrepared then (Inr (Stopped_At (px_transaction_id x) Co_Prepared), c1, fs1)
       else co_bind (commit_binding_record d x) (\<lambda>h. commit_rest d x stop h) c1 fs1)" for stop
    using commit_start [OF np, of d q stop fs] p ap
    by (simp add: commit_stages_def co_bind_def [of "co_append _"] co_ret_def prepared_entry_def e_def)
  from that [OF run o1 fr pd] show thesis .
qed

text \<open>Reopening the files of a coordinator.\<close>

definition co_reopen :: "displays \<Rightarrow> coordinator \<Rightarrow> (tc_error, coordinator) io" where
  "co_reopen d c = co_open_strict d (co_root c) (tl_path (co_trust c)) (pr_path (co_policies c)) (cj_path (co_journal c))"

lemma co_open_for_reload:
  assumes "co_open_for k x c fs"
  obtains db fs' where "co_reopen d c fs = (case recover_pending d (c\<lparr>co_database := db, co_last_recovery := no_recovery\<rparr>) fs' of
         (Inl e, _, fs'') \<Rightarrow> (Inl e, fs'')
       | (Inr receipt, c', fs'') \<Rightarrow> (Inr (c'\<lparr>co_last_recovery := receipt\<rparr>), fs''))"
    and "dd_state db = dd_state (co_database c)" and "fget fs' = fget fs"
    and "co_open_for k x (c\<lparr>co_database := db, co_last_recovery := no_recovery\<rparr>) fs'"
proof -
  have ok: "co_ok c fs" using assms by (simp add: co_open_for_def)
  obtain db fs' where l: "co_load d (co_root c) (tl_path (co_trust c)) (pr_path (co_policies c)) (cj_path (co_journal c)) fs =
       (Inr (c\<lparr>co_database := db, co_last_recovery := no_recovery\<rparr>), fs')" and f: "fget fs' = fget fs"
    and e: "dd_state db = dd_state (co_database c)" and ok': "co_ok (c\<lparr>co_database := db, co_last_recovery := no_recovery\<rparr>) fs'"
    by (rule co_load_ok [OF ok, of d]) blast
  have "co_open_for k x (c\<lparr>co_database := db, co_last_recovery := no_recovery\<rparr>) fs'"
    using assms ok' f by (simp add: co_open_for_def journal_room_def)
  moreover have "co_reopen d c fs = (case recover_pending d (c\<lparr>co_database := db, co_last_recovery := no_recovery\<rparr>) fs' of
         (Inl e, _, fs'') \<Rightarrow> (Inl e, fs'')
       | (Inr receipt, c', fs'') \<Rightarrow> (Inr (c'\<lparr>co_last_recovery := receipt\<rparr>), fs''))"
    using l by (simp add: co_reopen_def co_open_strict_def io_bind_def)
  ultimately show thesis using that e f by blast
qed

lemma prepared_crash:
  assumes ok: "co_ok c fs" and np: "journal_pending (co_journal c) = []" and ty: "request_typed q"
    and room: "journal_room (Suc (Suc k)) c fs" and run: "commit_for_probe d q AfterPrepared c fs = (Inr out, c1, fs1)"
  obtains x c2 fs2 e where "prepare_context d c q = Inr x" and "out = Stopped_At (px_transaction_id x) Co_Prepared"
    and "co_reopen d c1 fs1 = (Inr c2, fs2)" and "co_open_for k x c2 fs2" and "journal_pending (co_journal c2) = []"
    and "bt_get (cj_latest (co_journal c2)) (px_transaction_id x) = Some e" and "je_stage e = Co_Aborted"
    and "dd_state (co_database c2) = dd_state (co_database c)" and "co_trust c2 = co_trust c" and "co_policies c2 = co_policies c"
    and "co_last_recovery c2 = no_recovery\<lparr>rv_pending_before := 1, rv_aborted_prepared := 1\<rparr>"
proof -
  let ?J = "co_journal c"
  obtain x where p: "prepare_context d c q = Inr x" and nw: "bt_get (cj_latest ?J) (px_transaction_id x) = None"
    and sm: "length (commit_payload (prepared_entry x)) \<le> MAX_FRAME_PAYLOAD_BYTES"
    by (rule commit_prepared_stage [OF ok np run])
  define c1' where c1': "c1' = c\<lparr>co_last_recovery := no_recovery, co_journal := journal_record ?J (entry_stamped ?J (prepared_entry x))\<rparr>"
  obtain fs1' bytes where r: "\<And>stop. commit_for_probe d q stop c fs =
      (if stop = AfterPrepared then (Inr (Stopped_At (px_transaction_id x) Co_Prepared), c1', fs1')
       else co_bind (commit_binding_record d x) (\<lambda>h. commit_rest d x stop h) c1' fs1')"
    and o: "co_open_for (Suc k) x c1' fs1'" and pd: "journal_pending (co_journal c1') = [entry_stamped ?J (prepared_entry x)]"
    by (rule prepared_stage [OF ok np ty room p nw sm, folded c1']) blast
  have e: "out = Stopped_At (px_transaction_id x) Co_Prepared" "c1 = c1'" "fs1 = fs1'" using r [of AfterPrepared] run by simp_all
  obtain db fs2 where re: "co_reopen d c1' fs1' = (case recover_pending d (c1'\<lparr>co_database := db, co_last_recovery := no_recovery\<rparr>) fs2 of
         (Inl e, _, fs'') \<Rightarrow> (Inl e, fs'')
       | (Inr receipt, c', fs'') \<Rightarrow> (Inr (c'\<lparr>co_last_recovery := receipt\<rparr>), fs''))"
    and st: "dd_state db = dd_state (co_database c1')"
    and o2: "co_open_for (Suc k) x (c1'\<lparr>co_database := db, co_last_recovery := no_recovery\<rparr>) fs2"
    by (rule co_open_for_reload [OF o, of d])
  let ?c2 = "c1'\<lparr>co_database := db, co_last_recovery := no_recovery\<rparr>"
  have same: "dd_state (co_database ?c2) = dd_state (co_database c)" "co_trust ?c2 = co_trust c" "co_policies ?c2 = co_policies c"
    using st by (simp_all add: c1')
  have at: "bt_get (cj_latest (co_journal ?c2)) (px_transaction_id x) = Some (entry_stamped ?J (prepared_entry x))"
    by (simp add: c1' bt_get_insert prepared_entry_def)
  obtain e2 fs3 where rec: "recover_transaction d (entry_stamped ?J (prepared_entry x)) (no_recovery\<lparr>rv_pending_before := 1\<rparr>) ?c2 fs2 =
       (Inr (no_recovery\<lparr>rv_pending_before := 1, rv_aborted_prepared := 1\<rparr>), ?c2\<lparr>co_journal := journal_record (co_journal ?c2) e2\<rparr>, fs3)"
    and o3: "co_open_for k x (?c2\<lparr>co_journal := journal_record (co_journal ?c2) e2\<rparr>) fs3"
    and pd3: "journal_pending (journal_record (co_journal ?c2) e2) = []" and t: "je_transaction_id e2 = px_transaction_id x" "je_stage e2 = Co_Aborted"
    by (rule recover_prepared_aborts [OF o2 p same at, of "no_recovery\<lparr>rv_pending_before := 1\<rparr>"]) (auto simp: no_recovery_def)
  let ?r = "no_recovery\<lparr>rv_pending_before := 1, rv_aborted_prepared := 1\<rparr>"
  let ?c3 = "?c2\<lparr>co_journal := journal_record (co_journal ?c2) e2\<rparr>\<lparr>co_last_recovery := ?r\<rparr>"
  have re3: "co_reopen d c1 fs1 = (Inr ?c3, fs3)" using re recover_one [of ?c2] pd rec e by simp
  have "co_open_for k x ?c3 fs3" using o3 by (simp only: co_open_for_last_recovery)
  then show thesis using pd3 t same by (intro that [OF p e(1) re3, of e2]) (simp_all add: bt_get_insert c1')
qed

text \<open>
  C38. A request whose commit was interrupted after \<open>PREPARED\<close> cannot be repeated. Let the stores
  agree with their files, with nothing pending and room in the journal. If a commit stops after
  \<open>PREPARED\<close> and the files are opened again, recovery aborts the transaction and changes neither
  database nor ledger, so the same request leads to the same transaction id. The next commit of this
  request, whatever the stage to stop at, is refused at its first journal entry, because the
  transaction has been aborted; it changes no file and, but for the report of the last recovery,
  nothing in the coordinator, so that trying again meets the same state.
\<close>

theorem aborted_request_not_retryable:
  assumes ok: "co_ok c fs" and np: "journal_pending (co_journal c) = []" and ty: "request_typed q"
    and room: "journal_room 2 c fs" and run: "commit_for_probe d q AfterPrepared c fs = (Inr out, c1, fs1)"
    and re: "co_reopen d c1 fs1 = (Inr c2, fs2)"
  shows "commit_for_probe d q stop c2 fs2 =
     (Inl (Tc_Invalid (lit ''invalid commit stage transition: previous=Some(Aborted) next=Prepared'')),
      c2\<lparr>co_last_recovery := no_recovery\<rparr>, fs2)"
proof -
  obtain x c2' fs2' e where p: "prepare_context d c q = Inr x" and r: "co_reopen d c1 fs1 = (Inr c2', fs2')"
    and np2: "journal_pending (co_journal c2') = []"
    and at: "bt_get (cj_latest (co_journal c2')) (px_transaction_id x) = Some e" "je_stage e = Co_Aborted"
    and same: "dd_state (co_database c2') = dd_state (co_database c)" "co_trust c2' = co_trust c" "co_policies c2' = co_policies c"
    using room by (auto simp: numeral_2_eq_2 intro: prepared_crash [OF ok np ty _ run])
  have "prepare_context d c2' q = prepare_context d c q"
    using same by (simp add: prepare_context_def same_state_reads [OF same(1)] Let_def cong: if_cong option.case_cong)
  with p have p2: "prepare_context d c2' q = Inr x" by simp
  have "co_append (prepared_entry x) (c2'\<lparr>co_last_recovery := no_recovery\<rparr>) fs2' =
     (Inl (Tc_Invalid (lit ''invalid commit stage transition: previous=Some(Aborted) next=Prepared'')),
      c2'\<lparr>co_last_recovery := no_recovery\<rparr>, fs2')"
    using at by (simp add: co_append_def journal_append_def validate_entry_def validate_stage_transition_def prepared_entry_def lit_def)
  with commit_start [OF np2, of d q stop fs2'] p2 r re show ?thesis
    by (simp add: commit_stages_def co_bind_def)
qed

end
