(* ===== verification/Ub_Binding.thy ===== *)
theory Ub_Binding
  imports Ub_Cocommit
begin

text \<open>
  The two stores that a commit of the trust co-commit coordinator writes: the binding record that it
  puts into the database and checkpoints, and the transition that it appends to the trust ledger, with
  the room in the files that the two need.
\<close>

subsection \<open>The transaction of the binding record\<close>

definition binding_op :: "prepared_context \<Rightarrow> operation" where
  "binding_op x = PutRecordOp (nonzero_u64 (slice (px_transaction_id x) 16 24)) (px_binding_record_id x)
     (nonzero_u64 (slice (px_transaction_id x) 24 32)) (px_binding_payload x)"

definition binding_tx :: "prepared_context \<Rightarrow> tx_id" where
  "binding_tx x = slice (px_transaction_id x) 0 16"

definition binding_fits :: "prepared_context \<Rightarrow> bool" where
  "binding_fits x \<longleftrightarrow> context_fits x \<and> length (px_binding_record_id x) \<le> 100 \<and> px_binding_record_id x \<noteq> [] \<and>
     length (px_binding_payload x) \<le> 200 + MAX_STRING_BYTES"

lemma binding_fits_ok:
  assumes f: "context_fits x" and p: "prepare_context d c q = Inr x"
  shows "binding_fits x"
proof -
  note s = prepare_context_sound [OF p]
  have l: "length (px_transaction_id x) = 32" "length (px_record_digest x) = 32" "length (px_policy_digest x) = 32"
    "length (px_request_digest x) = 32" "length (px_trust_pre_head x) = 32"
    using f by (simp_all add: context_fits_def)
  then have "length (px_binding_payload x) \<le> 200 + MAX_STRING_BYTES"
    using s(17) by (simp add: s(14) s(1) binding_bytes_def BINDING_PAYLOAD_MAGIC_def lit_def)
  moreover have "length (px_binding_record_id x) \<le> 100" "px_binding_record_id x \<noteq> []"
    by (simp_all add: s(12) l(1) BINDING_RECORD_PREFIX_def lit_def)
  ultimately show ?thesis using f by (simp add: binding_fits_def)
qed

lemma binding_op_facts:
  assumes "binding_fits x"
  shows "operation_ok (binding_op x)" and "length (se_payload (operation_entry (binding_op x))) \<le> 2 ^ 21"
    and "length (binding_tx x) = 16" and "entries_valid [operation_entry (binding_op x)]"
proof -
  have l: "length (px_binding_record_id x) \<le> 100" "length (px_binding_payload x) \<le> 200 + MAX_STRING_BYTES"
    "px_binding_record_id x \<noteq> []" "utf8_valid (px_binding_record_id x)" "length (px_transaction_id x) = 32"
    using assms by (simp_all add: binding_fits_def context_fits_def text_ok_def)
  show ok: "operation_ok (binding_op x)"
    using l by (simp add: binding_op_def usize_limit_def MAX_STRING_BYTES_def)
  show sz: "length (se_payload (operation_entry (binding_op x))) \<le> 2 ^ 21"
    using l by (simp add: binding_op_def record_payload_def MAX_STRING_BYTES_def)
  show "length (binding_tx x) = 16" using l(5) by (simp add: binding_tx_def slice_def)
  show "entries_valid [operation_entry (binding_op x)]"
    using operation_entry_valid [OF ok] sz
    by (simp add: entries_valid_def length_entry_bytes padding_len_def usize_limit_def)
qed

definition binding_batch :: "prepared_context \<Rightarrow> prepared_batch" where
  "binding_batch x = (let e = operation_entry (binding_op x) in
     \<lparr>pb_transaction_id = binding_tx x, pb_entries = [e],
      pb_batch_digest = batch_digest (binding_tx x) [e] (length (se_payload e)),
      pb_total_payload_bytes = length (se_payload e)\<rparr>)"

lemma binding_batch_rep:
  assumes "binding_fits x"
  shows "prepared_rep (binding_batch x) [binding_op x]"
  using binding_op_facts [OF assms] by (simp add: prepared_rep_def binding_batch_def Let_def payload_sum_def)

text \<open>The core of \<open>commit_binding_record\<close> holds exactly that batch when it is prepared.\<close>

lemma binding_core_ok:
  assumes "binding_fits x"
  obtains core a where "binding_core x = Inr core" and "tc_active core = Some a" and "at_state a = Prepared"
    and "at_prepared a = Some (binding_batch x)" and "at_transaction_id a = binding_tx x"
proof -
  note f = binding_op_facts [OF assms]
  let ?b = "batch_new default_limits" and ?op = "binding_op x" and ?e = "operation_entry (binding_op x)"
  let ?c = "(core_new default_limits)\<lparr>tc_active := Some \<lparr>at_transaction_id = binding_tx x, at_state = Active,
      at_batch = ?b, at_prepared = None\<rparr>\<rparr>"
  have c0: "core_begin (core_new default_limits) (binding_tx x) = Inr ?c" by (simp add: core_begin_def core_new_def)
  have "spec_add (wb_limits ?b) [] ?op = Inr (Added, [?op])"
    using f(2) by (simp add: spec_add_def Let_def payload_sum_def batch_new_def default_limits_def)
  with add_entry_refines [OF batch_rep_new f(1), of default_limits] default_limits_wf
  obtain b' where b': "add_entry ?b (operation_key ?op) ?e = Inr (Added, b')" "batch_rep b' [?op]"
    by (auto simp: batch_new_def)
  have can: "canonical_operation ?op = ?op" by (simp add: binding_op_def)
  have "batch_operation ?b ?op = Inr (Added, b')" using batch_operation_ok [of ?op ?b] f(1) b'(1) by (simp add: can)
  then have pr: "core_put_record ?c (nonzero_u64 (slice (px_transaction_id x) 16 24)) (px_binding_record_id x)
     (nonzero_u64 (slice (px_transaction_id x) 24 32)) (px_binding_payload x) =
     Inr (Added, ?c\<lparr>tc_active := Some \<lparr>at_transaction_id = binding_tx x, at_state = Active,
      at_batch = b', at_prepared = None\<rparr>\<rparr>)"
    by (simp add: core_put_record_def with_active_batch_def batch_operation_def binding_op_def core_new_def)
  have bp: "batch_prepare b' (binding_tx x) = binding_batch x"
    using b'(2) by (simp add: batch_rep_def batch_prepare_def binding_batch_def Let_def payload_sum_def)
  define a where "a = \<lparr>at_transaction_id = binding_tx x, at_state = Prepared, at_batch = b', at_prepared = Some (binding_batch x)\<rparr>"
  have "binding_core x = Inr (?c\<lparr>tc_active := Some a\<rparr>)"
    unfolding binding_core_def binding_tx_def [symmetric] c0 rbind_simps pr prod.case
    by (simp add: core_prepare_def bp a_def Let_def)
  then show thesis by (rule that [of _ a]) (simp_all add: a_def)
qed

subsection \<open>The database before the binding record\<close>

text \<open>Opening a database in order, with what \<open>open\<close> notes of its recovery.\<close>

lemma db_open_exact:
  assumes i: "db_inv db fs frames pend" and l: "load_checkpoint (dd_store db) fs = Inr (st0, cs0, g, n)"
  obtains db' where "db_open (ps_root (dd_store db)) r fs = (Inr db', fs)" and "dd_store db' = dd_store db"
    and "dd_state db' = dd_state db" and "dd_committed db' = dd_committed db" and "db_inv db' fs frames pend"
    and "rr_checkpoint_generation (dd_recovery db') = g" and "rr_maximum_valid_wal_lsn (dd_recovery db') = final_lsn 0 frames"
    and "ww_next_lsn (dd_wal db') = next_lsn_after (final_lsn 0 frames)"
proof -
  let ?w = "default_wal_path (ps_root (dd_store db))"
  have inv: "store_ready fs (dd_store db)" "log_wf frames" "fget fs ?w = Some (log_bytes frames)"
    "recovers (dd_store db) fs frames (dd_state db) (dd_committed db) pend"
    "state_inv (dd_state db)" "committed_ok (dd_committed db)"
    using i by (auto simp: db_inv_def wal_at_def)
  obtain k where r: "replay_frames \<lparr>rp_state = st0, rp_committed = cs0, rp_pending = [], rp_replayed = 0\<rparr>
          (filter (\<lambda>f. n < wf_lsn f) frames) =
        Inr \<lparr>rp_state = dd_state db, rp_committed = dd_committed db, rp_pending = pend, rp_replayed = k\<rparr>"
    using inv(4) l by (auto simp: recovers_def)
  have s: "scan_wal ?w r fs = (Inr (log_scan frames 0), fs)"
    using scan_log_complete [OF inv(2), of r] by (simp add: scan_wal_file [OF inv(3)] log_scan_def)
  note wo = wal_open_complete [OF inv(2,3) wal_path_publishable(2) [OF inv(1)], of False]
  have at: "wal_at \<lparr>ww_path = ?w, ww_next_lsn = next_lsn_after (final_lsn 0 frames)\<rparr> frames fs"
    using inv(2,3) next_lsn_after_gt [OF db_inv_lsn [OF i]] by (simp add: wal_at_def)
  have "\<exists>db'. db_open (ps_root (dd_store db)) r fs = (Inr db', fs) \<and> dd_store db' = dd_store db \<and>
     dd_state db' = dd_state db \<and> dd_committed db' = dd_committed db \<and> db_inv db' fs frames pend \<and>
     rr_checkpoint_generation (dd_recovery db') = g \<and> rr_maximum_valid_wal_lsn (dd_recovery db') = final_lsn 0 frames \<and>
     ww_next_lsn (dd_wal db') = next_lsn_after (final_lsn 0 frames)"
    using wo s at inv
    by (simp add: db_open_def io_query_def page_store_open_ready l io_map_err_def io_pure_def
        replay_after_checkpoint_def log_scan_def r io_ret_def db_inv_def Let_def)
  with that show thesis by blast
qed

text \<open>
  Room for the binding record: its transaction id is new, the files of the next generation do not
  exist, and log, log numbers and checkpoint have space left.
\<close>

definition binding_room :: "prepared_context \<Rightarrow> durable_database \<Rightarrow> fsys \<Rightarrow> bool" where
  "binding_room x db fs \<longleftrightarrow> binding_tx x \<noteq> zero_tx \<and> binding_tx x \<notin> set (dd_committed db) \<and>
     80 + length (encode_checkpoint_payload 0 (operations_apply [binding_op x] (dd_state db))
       (bset_insert (binding_tx x) (dd_committed db))) < usize_limit \<and>
     (\<exists>st cs g n frames. load_checkpoint (dd_store db) fs = Inr (st, cs, g, n) \<and> wal_at (dd_wal db) frames fs \<and> g \<noteq> - 1 \<and>
        unat (final_lsn 0 frames) + 8 < 2 ^ 64 \<and> length (log_bytes frames) + 2 ^ 23 < usize_limit \<and>
        fget fs (segment_path (dd_store db) (g + 1) (final_lsn 0 frames + 1)) = None \<and>
        fget fs (checkpoint_path (dd_store db) (g + 1)) = None \<and> fget fs (mpath (dd_store db) (g + 1)) = None)"

lemma binding_room_fput:
  assumes "binding_room x db fs" and "outside (ps_root (dd_store db)) p" and "ww_path (dd_wal db) = default_wal_path (ps_root (dd_store db))"
  shows "binding_room x db (fput p b fs)"
proof -
  have ne: "fget (fput p b fs) (ps_root (dd_store db) @ q) = fget fs (ps_root (dd_store db) @ q)" for q
    using outside_neq [OF assms(2)] by simp
  have l: "load_checkpoint (dd_store db) (fput p b fs) = load_checkpoint (dd_store db) fs"
    by (rule load_checkpoint_cong) (simp_all add: ne head_path_def del: fget_put)
  have w: "wal_at (dd_wal db) frames (fput p b fs) = wal_at (dd_wal db) frames fs" for frames
    unfolding wal_at_def assms(3) default_wal_path_def ne ..
  show ?thesis
    using assms(1) unfolding binding_room_def l w segment_path_def checkpoint_path_def mpath_def manifest_path_def ne .
qed

lemma length_checkpoint_payload_lsn:
  "length (encode_checkpoint_payload l st cs) = length (encode_checkpoint_payload 0 st cs)"
  by (simp add: encode_checkpoint_payload_def split: prod.split)

subsection \<open>Committing the binding record\<close>

lemma frame_size: "length (wf_tx f) = 16 \<Longrightarrow> length (frame_bytes f) = 96 + length (wf_payload f)"
  by (simp add: frame_bytes_def frame_header_def)

lemma binding_frames_size:
  assumes f: "binding_fits x" and h: "length h = 32"
  shows "length (log_bytes (transaction_frames l (binding_batch x) [binding_op x] h)) \<le> 2 ^ 22"
  using binding_op_facts(2,3) [OF f] h
  by (simp add: transaction_frames_def begin_frame_def commit_frame_def operation_frame_def frame_size binding_batch_def Let_def
      encode_begin_payload_def encode_commit_payload_def encode_operation_payload_def batch_digest_def)

lemma binding_transaction_room:
  assumes f: "binding_fits x" and l: "length (log_bytes frames) + 2 ^ 23 < usize_limit"
    and n: "unat (ww_next_lsn w) + 4 < 2 ^ 64"
  shows "transaction_room w frames (binding_batch x) [binding_op x]"
  using binding_op_facts(2) [OF f] binding_frames_size [OF f, of "replicate 32 0" "ww_next_lsn w"] l n
  by (simp add: transaction_room_def frame_room_def MAX_WAL_PAYLOAD_BYTES_def)

lemma next_lsn_bound: "m \<noteq> - 1 \<Longrightarrow> unat (next_lsn_after m) \<le> unat m + 1"
proof -
  assume "m \<noteq> - 1"
  then have "unat (m + 1) = unat m + 1" using u64_inc by simp
  then show ?thesis by (simp add: next_lsn_after_def max_def)
qed

lemma checkpoint_receipt_fields:
  assumes "db_checkpoint db g fs = (Inr r, db', fs')"
  shows "kr_head_published r" "kr_wal_checkpoint_recorded r" "kr_state_sha256 r = state_hash (dd_state db)"
  using assms
  by (auto simp: db_checkpoint_def publish_checkpoint_def Let_def io_bind_eq_Inr_iff io_ret_def split: prod.splits sum.splits)

lemma commit_receipt_fields:
  assumes "commit_prepared db p g s fs = (Inr r, db', fs')"
  shows "cr_durable_commit r" "cr_wal_recorded r" "cr_wal_fsynced r" "cr_state_sha256 r = state_hash (dd_state db')"
  using assms by (auto simp: commit_prepared_def Let_def split: prod.splits sum.splits if_splits)

text \<open>Commit and checkpoint of the binding record on a database that has just been opened.\<close>

lemma binding_commits:
  assumes i: "db_inv db fs frames []" and f: "binding_fits x" and tx: "binding_tx x \<noteq> zero_tx" "binding_tx x \<notin> set (dd_committed db)"
    and lsn: "unat (ww_next_lsn (dd_wal db)) + 4 < 2 ^ 64" and lg: "length (log_bytes frames) + 2 ^ 23 < usize_limit"
    and fr: "fget fs (segment_path (dd_store db) g s) = None" "fget fs (checkpoint_path (dd_store db) g) = None"
      "fget fs (mpath (dd_store db) g) = None"
    and ck: "80 + length (encode_checkpoint_payload 0 (operations_apply [binding_op x] (dd_state db))
       (bset_insert (binding_tx x) (dd_committed db))) < usize_limit"
  obtains r db1 fs1 k db2 fs2 frames2 where "commit_prepared db (binding_batch x) g s fs = (Inr r, db1, fs1)"
    and "db_checkpoint db1 g fs1 = (Inr k, db2, fs2)" and "db_inv db2 fs2 frames2 []" and "dd_store db2 = dd_store db"
    and "dd_state db1 = operations_apply [binding_op x] (dd_state db)" and "dd_state db2 = dd_state db1"
    and "dd_committed db2 = bset_insert (binding_tx x) (dd_committed db)"
    and "\<And>p. outside (ps_root (dd_store db)) p \<Longrightarrow> fget fs2 p = fget fs p"
proof -
  let ?S = "dd_store db" and ?p = "binding_batch x" and ?w = "ww_next_lsn (dd_wal db)"
  have bp: "pb_transaction_id ?p = binding_tx x" "pb_entries ?p = [operation_entry (binding_op x)]"
    by (simp_all add: binding_batch_def Let_def)
  note rep = binding_batch_rep [OF f] and va = binding_op_facts(4) [OF f]
  note room = binding_transaction_room [OF f lg lsn]
  obtain r db1 fs1 where c: "commit_prepared db ?p g s fs = (Inr r, db1, fs1)"
    and e: "dd_store db1 = ?S" "dd_state db1 = operations_apply [binding_op x] (dd_state db)"
      "dd_committed db1 = bset_insert (binding_tx x) (dd_committed db)"
    and i1: "db_inv db1 fs1 (frames @ transaction_frames ?w ?p [binding_op x] (state_hash (dd_state db1))) []"
    and g1: "fget fs1 = (fget fs)(segment_path ?S g s \<mapsto> segment_encoding g STORAGE_MINOR (pb_entries ?p),
        dd_wal_path db \<mapsto> log_bytes (frames @ transaction_frames ?w ?p [binding_op x] (state_hash (dd_state db1))))"
    using commit_prepared_ok [OF i rep, of g s] tx fr(1) va room bp by auto
  have w1: "ww_next_lsn (dd_wal db1) = ?w + 3"
    using commit_prepared_writes [OF i rep, of g s] tx fr(1) va room bp c by auto
  have wp: "dd_wal_path db = default_wal_path (ps_root ?S)" using i by (simp add: db_inv_def)
  let ?frames = "frames @ transaction_frames ?w ?p [binding_op x] (state_hash (dd_state db1))"
  have "unat (?w + 3) = unat ?w + 3" using lsn by (simp add: unat_word_ariths)
  then have "?w + 3 \<noteq> - 1" using lsn u64_room [of "?w + 3" 0] by simp
  moreover have "length (log_bytes (?frames @ [checkpoint_frame (?w + 3) g (dd_state db1)])) < usize_limit"
    using lg binding_frames_size [OF f length_state_hash, of ?w "dd_state db1"]
    by (simp add: checkpoint_frame_def frame_size zero_tx_def encode_checkpoint_frame_payload_def)
  ultimately have cr: "checkpoint_room (dd_wal db1) ?frames g (dd_state db1) (dd_committed db1)"
    using ck unfolding checkpoint_room_def w1 e(2,3) length_checkpoint_payload_lsn [of "?w + 3"] by simp
  have f1: "fget fs1 (checkpoint_path (dd_store db1) g) = None" "fget fs1 (mpath (dd_store db1) g) = None"
    using fr(2,3) by (auto simp: g1 e(1) wp segment_path_def checkpoint_path_def mpath_def manifest_path_def lit_def default_wal_path_def)
  obtain k db2 fs2 where k: "db_checkpoint db1 g fs1 = (Inr k, db2, fs2)" "dd_store db2 = dd_store db1"
    "dd_state db2 = dd_state db1" "dd_committed db2 = dd_committed db1"
    "db_inv db2 fs2 (?frames @ [checkpoint_frame (ww_next_lsn (dd_wal db1)) g (dd_state db1)]) []"
    "\<forall>p. outside (ps_root (dd_store db1)) p \<longrightarrow> fget fs2 p = fget fs1 p"
    using db_checkpoint_full [OF i1 f1 cr] by blast
  have "fget fs2 p = fget fs p" if "outside (ps_root ?S) p" for p
    using that k(6) outside_neq [OF that] by (simp add: e(1) g1 wp segment_path_def default_wal_path_def)
  with that [OF c k(1,5)] k(2-4) e show thesis by simp
qed

text \<open>The binding record as the database reads it.\<close>

definition binding_record :: "prepared_context \<Rightarrow> database_record" where
  "binding_record x = record_value (px_binding_record_id x)
     (nonzero_u64 (slice (px_transaction_id x) 16 24), nonzero_u64 (slice (px_transaction_id x) 24 32), px_binding_payload x)"

definition bound_in :: "prepared_context \<Rightarrow> recovered_state \<Rightarrow> bool" where
  "bound_in x st \<longleftrightarrow> bt_get (rs_records st) (px_binding_record_id x) = Some (operation_entry (binding_op x))"

lemma bound_after: "bound_in x (operations_apply [binding_op x] st)"
  by (simp add: bound_in_def binding_op_def bt_get_insert)

lemma bound_record:
  assumes "binding_fits x" and "bound_in x (dd_state (co_database c))"
  shows "co_record d c (px_binding_record_id x) = Inr (Some (binding_record x))"
proof -
  have l: "length (px_binding_record_id x) \<le> 100" "length (px_binding_payload x) \<le> 200 + MAX_STRING_BYTES"
    "utf8_valid (px_binding_record_id x)"
    using assms(1) by (simp_all add: binding_fits_def context_fits_def text_ok_def)
  have "decode_database_record (px_binding_record_id x) (operation_entry (binding_op x)) = Inr (binding_record x)"
    unfolding binding_op_def binding_record_def
    by (rule decode_record_ok) (use l in \<open>auto simp: usize_limit_def MAX_STRING_BYTES_def\<close>)
  with assms(2) show ?thesis by (simp add: co_record_def db_record_def bound_in_def transpose_option_def)
qed

lemma other_records_kept:
  assumes "dd_state (co_database c') = operations_apply [binding_op x] (dd_state (co_database c))" and "r \<noteq> px_binding_record_id x"
  shows "co_record d c' r = co_record d c r" "require_target_record d c' r = require_target_record d c r"
  using assms by (simp_all add: co_record_def db_record_def require_target_record_def binding_op_def bt_get_insert)

lemma binding_record_payload [simp]: "dr_payload (binding_record x) = px_binding_payload x"
  "dr_record_id (binding_record x) = px_binding_record_id x"
  by (simp_all add: binding_record_def record_value_def)

lemma commit_binding_ok:
  assumes ok: "co_ok c fs" and f: "binding_fits x" and rm: "binding_room x (co_database c) fs"
  obtains db fs' where "commit_binding_record d x c fs = (Inr (state_hash (dd_state db)), c\<lparr>co_database := db\<rparr>, fs')"
    and "dd_state db = operations_apply [binding_op x] (dd_state (co_database c))"
    and "co_ok (c\<lparr>co_database := db\<rparr>) fs'" and "\<And>p. outside (co_root c) p \<Longrightarrow> fget fs' p = fget fs p"
proof -
  let ?D = "co_database c" and ?S = "dd_store (co_database c)"
  have rt: "co_root c = ps_root ?S" using ok by (simp add: co_ok_def)
  obtain fr where i: "db_inv ?D fs fr []" using ok by (auto simp: co_ok_def)
  from rm obtain st cs g n frames where l: "load_checkpoint ?S fs = Inr (st, cs, g, n)" and at: "wal_at (dd_wal ?D) frames fs"
    and g: "g \<noteq> - 1" and lsn: "unat (final_lsn 0 frames) + 8 < 2 ^ 64" and lg: "length (log_bytes frames) + 2 ^ 23 < usize_limit"
    and free: "fget fs (segment_path ?S (g + 1) (final_lsn 0 frames + 1)) = None"
      "fget fs (checkpoint_path ?S (g + 1)) = None" "fget fs (mpath ?S (g + 1)) = None"
    and tx: "binding_tx x \<noteq> zero_tx" "binding_tx x \<notin> set (dd_committed ?D)"
    and ck: "80 + length (encode_checkpoint_payload 0 (operations_apply [binding_op x] (dd_state ?D))
       (bset_insert (binding_tx x) (dd_committed ?D))) < usize_limit"
    by (auto simp: binding_room_def)
  have "fr = frames" using i at wal_at_unique by (auto simp: db_inv_def)
  with i have i: "db_inv ?D fs frames []" by simp
  obtain db0 where o: "db_open (co_root c) False fs = (Inr db0, fs)" and e0: "dd_store db0 = ?S"
    "dd_state db0 = dd_state ?D" "dd_committed db0 = dd_committed ?D" and i0: "db_inv db0 fs frames []"
    and r0: "rr_checkpoint_generation (dd_recovery db0) = g" "rr_maximum_valid_wal_lsn (dd_recovery db0) = final_lsn 0 frames"
    and w0: "ww_next_lsn (dd_wal db0) = next_lsn_after (final_lsn 0 frames)"
    unfolding rt by (rule db_open_exact [OF i l, of False]) blast
  have fl: "final_lsn 0 frames \<noteq> - 1" by (rule db_inv_lsn [OF i])
  have n1: "next_generation db0 = Inr (g + 1)" "next_segment_sequence db0 = Inr (final_lsn 0 frames + 1)"
    using g fl by (simp_all add: next_generation_def next_segment_sequence_def r0 Let_def)
  have wl: "unat (ww_next_lsn (dd_wal db0)) + 4 < 2 ^ 64" using next_lsn_bound [OF fl] lsn by (simp add: w0)
  obtain core a where core: "binding_core x = Inr core" "tc_active core = Some a" "at_state a = Prepared"
    "at_prepared a = Some (binding_batch x)" "at_transaction_id a = binding_tx x"
    by (rule binding_core_ok [OF f])
  obtain r db1 fs1 k db2 fs2 frames2 where c1: "commit_prepared db0 (binding_batch x) (g + 1) (final_lsn 0 frames + 1) fs = (Inr r, db1, fs1)"
    and c2: "db_checkpoint db1 (g + 1) fs1 = (Inr k, db2, fs2)" and i2: "db_inv db2 fs2 frames2 []" and e2: "dd_store db2 = ?S"
    and s1: "dd_state db1 = operations_apply [binding_op x] (dd_state ?D)" and s2: "dd_state db2 = dd_state db1"
    and out: "\<And>p. outside (ps_root ?S) p \<Longrightarrow> fget fs2 p = fget fs p"
    by (rule binding_commits [OF i0 f tx [folded e0(3)] wl lg free [folded e0(1)]])
      (use ck in \<open>auto simp: e0\<close>)
  have cd: "commit_durable (ds_durable d) core db0 (g + 1) (final_lsn 0 frames + 1) fs = (Inr r, mark_committed core, db1, fs1)"
    by (simp add: commit_durable_def core c1)
  have rel: "release_terminal (mark_committed core) (binding_tx x) = Inr (DurableCommitted, (mark_committed core)\<lparr>tc_active := None\<rparr>)"
    by (simp add: release_terminal_def mark_committed_def core)
  have bd: "co_record d (c\<lparr>co_database := db2\<rparr>) (px_binding_record_id x) = Inr (Some (binding_record x))"
    by (rule bound_record [OF f]) (simp add: s2 s1 bound_after del: operations_apply_simps)
  note cf = commit_receipt_fields [OF c1] and kf = checkpoint_receipt_fields [OF c2]
  have run: "commit_binding_record d x c fs = (Inr (state_hash (dd_state db2)), c\<lparr>co_database := db2\<rparr>, fs2)"
    unfolding commit_binding_record_def binding_tx_def [symmetric]
    using o n1 core(1) cd rel c2 bd cf kf s2
    by (simp add: co_bind_def co_query_def co_reopen_database_def co_commit_durable_def co_checkpoint_def)
  have "ledger_inv (co_trust c, fs2)"
    by (rule ledger_inv_keeps [where fs = fs]) (use ok out rt in \<open>auto simp: co_ok_def co_separate_def\<close>)
  then have "co_ok (c\<lparr>co_database := db2\<rparr>) fs2"
    using ok out i2 e2 rt by (auto simp: co_ok_def co_separate_def)
  with that [OF run] out s1 s2 rt show thesis by simp
qed

subsection \<open>The transition\<close>

definition trust_room :: "coordinator \<Rightarrow> fsys \<Rightarrow> bool" where
  "trust_room c fs \<longleftrightarrow> (\<forall>bs. fget fs (tl_path (co_trust c)) = Some bs \<longrightarrow> length bs + 2 ^ 25 < usize_limit)"

lemma request_intent_typed: "request_typed q \<Longrightarrow> length h = 32 \<Longrightarrow> intent_typed (request_intent q h)"
  by (auto simp: request_typed_def intent_typed_def request_intent_def superseding_text_def)

lemma co_apply_ok:
  assumes ok: "co_ok c fs" and ty: "intent_typed i" and adm: "intent_admitted (co_trust c) i nxt" and room: "trust_room c fs"
  defines "t \<equiv> planned_transition (co_trust c) i nxt"
  obtains fs' where "co_apply d i c fs = (Inr t, c\<lparr>co_trust := ledger_push (co_trust c) t\<rparr>, fs')"
    and "co_ok (c\<lparr>co_trust := ledger_push (co_trust c) t\<rparr>) fs'"
    and "\<And>p. p \<noteq> tl_path (co_trust c) \<Longrightarrow> fget fs' p = fget fs p"
proof -
  let ?l = "co_trust c" and ?p = "tl_path (co_trust c)"
  obtain ts where h: "ledger_history ?p ts" "?l = ledger_of ?p ts" "fget fs ?p = Some (ledger_bytes ts)"
    using ok by (auto simp: co_ok_def ledger_inv_def)
  have len: "length (tl_transitions ?l) + 1 < usize_limit"
    using ledger_history_room [OF h(1)] h(2) ledger_of_fields(2) [of ?p ts] by simp
  have hd: "length (tl_head_digest ?l) = 32" using ledger_head_length [OF h(1)] h(2) by simp
  obtain n2 where n2: "intent_admitted ?l i n2" and ap: "ledger_apply ?l i fs = (Inr (planned_transition ?l i n2),
      ledger_push ?l (planned_transition ?l i n2), fput ?p (ledger_bytes ts @ transition_frame (planned_transition ?l i n2)) fs)"
    by (rule ledger_apply_cases [OF len, of i fs]) (use adm h(3) in auto)
  have nn: "n2 = nxt" using n2 adm by (simp add: intent_admitted_def)
  let ?fs = "fput ?p (ledger_bytes ts @ transition_frame t) fs"
  have ad: "ledger_admits ?l t" unfolding t_def by (rule planned_admitted [OF adm ty hd])
  have "length (transition_frame t) \<le> 2 ^ 25"
    using length_transition_frame [OF ad] adm by (simp add: intent_admitted_def t_def MAX_PAYLOAD_BYTES_def)
  moreover have "length (ledger_bytes ts) + 2 ^ 25 < usize_limit" using room h(3) by (simp add: trust_room_def)
  ultimately have h': "ledger_history ?p (ts @ [t])" using h(1) ad h(2) by (simp add: ledger_history_snoc)
  have lp: "ledger_push ?l t = ledger_of ?p (ts @ [t])" using h(2) by simp
  have li: "ledger_inv (ledger_push ?l t, ?fs)"
    unfolding ledger_inv_def using h' lp by (intro exI [of _ ?p] exI [of _ "ts @ [t]"]) simp
  have o: "outside (ps_root (dd_store (co_database c))) ?p" and ne: "?p \<noteq> pr_path (co_policies c)" "?p \<noteq> cj_path (co_journal c)"
    using ok by (auto simp: co_ok_def co_separate_def)
  obtain frames where "db_inv (co_database c) fs frames []" using ok by (auto simp: co_ok_def)
  from db_inv_fput [OF this o] h(3) have "db_inv (co_database c) ?fs frames []" by simp
  then have "co_ok (c\<lparr>co_trust := ledger_push ?l t\<rparr>) ?fs"
    using ok li ne by (auto simp: co_ok_def co_separate_def ledger_push_def)
  moreover have "co_apply d i c fs = (Inr t, c\<lparr>co_trust := ledger_push ?l t\<rparr>, ?fs)"
    using ap by (simp add: co_apply_def nn t_def)
  ultimately show thesis by (intro that [of ?fs]) simp_all
qed

lemma planned_matches:
  assumes "px_trust_pre_head x = tl_head_digest l" and "px_expected_trust_sequence x = of_nat (length (tl_transitions l)) + 1"
  shows "validate_transition_matches (planned_transition l (request_intent q h) nxt) q h (px_trust_pre_head x)
     (px_expected_trust_sequence x) = Inr ()"
  using assms by (simp add: validate_transition_matches_def planned_transition_def request_intent_def Let_def)

lemma history_sequences:
  assumes "ledger_history p ts" and "t \<in> set ts"
  shows "\<exists>n < length ts. tt_sequence t = of_nat n + 1"
  using assms
proof (induction ts rule: rev_induct)
  case (snoc u us)
  then have "ledger_history p us" "tt_sequence u = of_nat (length us) + 1"
    by (simp_all add: ledger_history_snoc ledger_admits_def)
  with snoc show ?case by (auto simp: less_Suc_eq)
qed simp

text \<open>The transition with the expected number is found exactly when it has been recorded.\<close>

lemma find_transition:
  assumes h: "ledger_history p ts"
  shows "find (\<lambda>t. tt_sequence t = of_nat (length ts) + 1) ts = None"
proof -
  have "tt_sequence t \<noteq> of_nat (length ts) + 1" if t: "t \<in> set ts" for t
  proof
    assume e: "tt_sequence t = of_nat (length ts) + 1"
    obtain n where n: "n < length ts" "tt_sequence t = of_nat n + 1" using history_sequences [OF h t] by blast
    have r: "length ts < usize_limit" using ledger_history_room [OF h] by simp
    have "(of_nat n :: u64) = of_nat (length ts)" using e n(2) by simp
    moreover have "unat (of_nat n :: u64) = n" "unat (of_nat (length ts) :: u64) = length ts"
      using r n(1) unat_u64_iff [of n "of_nat n"] unat_u64_iff [of "length ts" "of_nat (length ts)"] by simp_all
    ultimately show False using n(1) by simp
  qed
  then show ?thesis by (auto simp: find_None_iff)
qed

lemma find_matching_none:
  assumes "co_ok c fs" and "px_expected_trust_sequence x = of_nat (length (tl_transitions (co_trust c))) + 1"
  shows "find_matching_transition (co_trust c) q h b (px_expected_trust_sequence x) = Inr None"
proof -
  obtain ts where h: "ledger_history (tl_path (co_trust c)) ts" "co_trust c = ledger_of (tl_path (co_trust c)) ts"
    using assms(1) by (auto simp: co_ok_def ledger_inv_def)
  have "tl_transitions (co_trust c) = ts" using h(2) ledger_of_fields(2) by metis
  with assms(2) find_transition [OF h(1)] show ?thesis by (simp add: find_matching_transition_def)
qed

lemma find_matching_some:
  fixes q h nxt
  assumes ok: "co_ok c fs" and e: "px_expected_trust_sequence x = of_nat (length (tl_transitions (co_trust c))) + 1"
    "px_trust_pre_head x = tl_head_digest (co_trust c)"
  defines "t \<equiv> planned_transition (co_trust c) (request_intent q h) nxt"
  shows "find_matching_transition (ledger_push (co_trust c) t) q h (px_trust_pre_head x) (px_expected_trust_sequence x) = Inr (Some t)"
proof -
  obtain ts where h: "ledger_history (tl_path (co_trust c)) ts" "co_trust c = ledger_of (tl_path (co_trust c)) ts"
    using ok by (auto simp: co_ok_def ledger_inv_def)
  have ts: "tl_transitions (co_trust c) = ts" using h(2) ledger_of_fields(2) by metis
  have "find (\<lambda>u. tt_sequence u = px_expected_trust_sequence x) (ts @ [t]) = Some t"
    using find_transition [OF h(1)] e(1) ts by (simp add: find_snoc t_def planned_digests)
  then show ?thesis
    using planned_matches [OF e(2,1), of q h nxt] ts by (simp add: find_matching_transition_def ledger_push_def t_def)
qed

end
