(* ===== verification/Ub_Co_Runs.thy ===== *)
theory Ub_Co_Runs
  imports Ub_Binding
begin

text \<open>
  Whole commits of the trust co-commit coordinator: what a commit does when it is interrupted at any
  stage and the coordinator is reopened, what it does when the trust ledger refuses the transition, and
  what the database, the ledger and the journal agree on after any run.
\<close>

subsection \<open>The last two stages\<close>

lemma committed_payload_ok:
  "h \<noteq> replicate 32 0 \<Longrightarrow> u \<noteq> replicate 32 0 \<Longrightarrow> s \<in> {Co_TrustCommitted, Co_Finalized} \<Longrightarrow>
   validate_stage_payload (stage_entry x s h u) = Inr ()"
  by (auto simp: validate_stage_payload_def)

lemma trust_stages_ok:
  assumes o: "co_open_for (Suc (Suc k)) x c fs" and at: "at_stage (co_journal c) x Co_DatabaseCommitted h b"
    and nz: "h \<noteq> replicate 32 0" "u \<noteq> replicate 32 0" and len: "length h = 32" "length u = 32"
  obtains j1 fs1 e1 e2 j2 fs2 where "co_append (stage_entry x Co_TrustCommitted h u) c fs =
       (Inr (entry_stamped (co_journal c) (stage_entry x Co_TrustCommitted h u)), c\<lparr>co_journal := j1\<rparr>, fs1)"
    and "co_append (stage_entry x Co_Finalized h u) (c\<lparr>co_journal := j1\<rparr>) fs1 = (Inr e2, c\<lparr>co_journal := j2\<rparr>, fs2)"
    and "co_open_for k x (c\<lparr>co_journal := j2\<rparr>) fs2" and "journal_pending j2 = []" and "at_stage j2 x Co_Finalized h u"
proof -
  let ?e1 = "entry_stamped (co_journal c) (stage_entry x Co_TrustCommitted h u)"
  let ?c1 = "c\<lparr>co_journal := journal_record (co_journal c) ?e1\<rparr>"
  have r1: "stage_ready (co_journal c) x Co_TrustCommitted h u"
    by (rule stage_readyI [OF at]) (use committed_payload_ok nz in auto)
  obtain fs1 where a1: "co_append (stage_entry x Co_TrustCommitted h u) c fs = (Inr ?e1, ?c1, fs1)"
    and o1: "co_open_for (Suc k) x ?c1 fs1" and at1: "at_stage (journal_record (co_journal c) ?e1) x Co_TrustCommitted h u"
    by (rule stage_append [OF o r1 len])
  let ?e2 = "entry_stamped (co_journal ?c1) (stage_entry x Co_Finalized h u)"
  have at1': "at_stage (co_journal ?c1) x Co_TrustCommitted h u" using at1 by simp
  have r2: "stage_ready (co_journal ?c1) x Co_Finalized h u"
    by (rule stage_readyI [OF at1']) (use committed_payload_ok nz in auto)
  obtain fs2 where "co_append (stage_entry x Co_Finalized h u) ?c1 fs1 = (Inr ?e2, ?c1\<lparr>co_journal := journal_record (co_journal ?c1) ?e2\<rparr>, fs2)"
    "co_open_for k x (?c1\<lparr>co_journal := journal_record (co_journal ?c1) ?e2\<rparr>) fs2"
    "at_stage (journal_record (co_journal ?c1) ?e2) x Co_Finalized h u" "journal_pending (journal_record (co_journal ?c1) ?e2) = []"
    by (rule stage_append [OF o1 r2 len]) simp
  then show thesis by (intro that [OF a1, of ?e2]) simp_all
qed

subsection \<open>Recovery after the binding record\<close>

lemma binding_valid:
  assumes p: "prepare_context d c q = Inr x"
  shows "validate_binding_record (binding_record x) (entry_stamped j (stage_entry x s a b)) = Inr ()"
proof -
  note s = prepare_context_sound [OF p]
  have "encode_binding_payload (px_transaction_id x) (cq_record_id q) (px_record_digest x) (px_policy_digest x)
      (px_request_digest x) (px_trust_pre_head x) (px_expected_trust_sequence x) (cq_logical_timestamp q) = Inr (px_binding_payload x)"
    using s(14,16,17) by (simp add: encode_binding_payload_def tc_validate_string_def binding_bytes_def s(1))
  then show ?thesis by (simp add: validate_binding_record_def s(1) s(15))
qed

lemma co_open_for_store:
  assumes "co_open_for k x c fs" and "co_ok c' fs'" and "co_journal c' = co_journal c"
    and "fget fs' (cj_path (co_journal c)) = fget fs (cj_path (co_journal c))"
  shows "co_open_for k x c' fs'"
  using assms by (simp add: co_open_for_def journal_room_def)

text \<open>The transition that recovery takes: it has been recorded before the crash, or it is recorded now.\<close>

lemma recover_transition_ok:
  fixes c x q nxt j h b
  defines "t \<equiv> planned_transition (co_trust c) (request_intent q (px_record_digest x)) nxt"
  defines "e \<equiv> entry_stamped j (stage_entry x Co_DatabaseCommitted h b)"
  assumes o: "co_open_for k x c' fs" and ok: "co_ok c fs0" and p: "prepare_context d c q = Inr x" and ty: "request_typed q"
    and adm: "intent_admitted (co_trust c) (request_intent q (px_record_digest x)) nxt"
    and tr: "co_trust c' = co_trust c \<and> trust_room c' fs \<or> co_trust c' = ledger_push (co_trust c) t"
  obtains receipt' fs' where "recover_transition d e receipt c' fs = (Inr (t, receipt'), c'\<lparr>co_trust := ledger_push (co_trust c) t\<rparr>, fs')"
    and "co_open_for k x (c'\<lparr>co_trust := ledger_push (co_trust c) t\<rparr>) fs'"
proof -
  note s = prepare_context_sound [OF p]
  have ok': "co_ok c' fs" and f: "context_fits x" using o by (simp_all add: co_open_for_def)
  have it: "intent_typed (request_intent q (px_record_digest x))"
    by (rule request_intent_typed [OF ty]) (use f in \<open>simp add: context_fits_def\<close>)
  show thesis
  proof (cases "co_trust c' = ledger_push (co_trust c) t")
    case True
    have "find_matching_transition (co_trust c') q (px_record_digest x) (px_trust_pre_head x) (px_expected_trust_sequence x) = Inr (Some t)"
      unfolding True t_def by (rule find_matching_some [OF ok s(10,8)])
    then have "recover_transition d e receipt c' fs =
        (Inr (t, receipt\<lparr>rv_trust_stage_reconstructed := rv_trust_stage_reconstructed receipt + 1\<rparr>), c', fs)"
      by (simp add: recover_transition_def co_simps e_def s(1))
    moreover have "c'\<lparr>co_trust := ledger_push (co_trust c) t\<rparr> = c'" using True by simp
    ultimately show thesis using that o by metis
  next
    case False
    then have e1: "co_trust c' = co_trust c" and room: "trust_room c' fs" using tr t_def by auto
    have none: "find_matching_transition (co_trust c') q (px_record_digest x) (px_trust_pre_head x) (px_expected_trust_sequence x) = Inr None"
      by (rule find_matching_none [OF ok']) (simp add: e1 s(10))
    have adm': "intent_admitted (co_trust c') (request_intent q (px_record_digest x)) nxt" using adm e1 by simp
    obtain fs' where a: "co_apply d (request_intent q (px_record_digest x)) c' fs = (Inr t, c'\<lparr>co_trust := ledger_push (co_trust c) t\<rparr>, fs')"
      and ok2: "co_ok (c'\<lparr>co_trust := ledger_push (co_trust c) t\<rparr>) fs'"
      and fr: "\<And>p. p \<noteq> tl_path (co_trust c) \<Longrightarrow> fget fs' p = fget fs p"
      by (rule co_apply_ok [OF ok' it adm' room, unfolded e1, folded t_def, of d]) blast
    have v: "validate_transition_matches t q (px_record_digest x) (px_trust_pre_head x) (px_expected_trust_sequence x) = Inr ()"
      unfolding t_def by (rule planned_matches [OF s(8,10)])
    have "recover_transition d e receipt c' fs =
        (Inr (t, receipt\<lparr>rv_trust_transition_applied := rv_trust_transition_applied receipt + 1\<rparr>), c'\<lparr>co_trust := ledger_push (co_trust c) t\<rparr>, fs')"
      using none a v s(8-10) e1 by (simp add: recover_transition_def co_simps e_def s(1) Let_def)
    moreover have "cj_path (co_journal c') \<noteq> tl_path (co_trust c)" using ok' e1 by (auto simp: co_ok_def co_separate_def)
    then have "co_open_for k x (c'\<lparr>co_trust := ledger_push (co_trust c) t\<rparr>) fs'"
      using co_open_for_store [OF o ok2] fr by simp
    ultimately show thesis using that by blast
  qed
qed

text \<open>An entry at \<open>DATABASE_COMMITTED\<close> is finalised.\<close>

lemma recover_committed:
  fixes c x q nxt j h receipt
  defines "t \<equiv> planned_transition (co_trust c) (request_intent q (px_record_digest x)) nxt"
  defines "e \<equiv> entry_stamped j (stage_entry x Co_DatabaseCommitted h (replicate 32 0))"
  assumes o: "co_open_for (Suc (Suc k)) x c' fs" and ok: "co_ok c fs0" and p: "prepare_context d c q = Inr x" and ty: "request_typed q"
    and adm: "intent_admitted (co_trust c) (request_intent q (px_record_digest x)) nxt"
    and tr: "co_trust c' = co_trust c \<and> trust_room c' fs \<or> co_trust c' = ledger_push (co_trust c) t"
    and at: "bt_get (cj_latest (co_journal c')) (px_transaction_id x) = Some e"
    and ck: "recovery_checks d c' e = Inr (Some (binding_record x))" and bd: "bound_in x (dd_state (co_database c'))"
    and nz: "h \<noteq> replicate 32 0" "tt_transition_id t \<noteq> replicate 32 0" and len: "length h = 32"
  obtains receipt' j2 fs2 where "recover_transaction d e receipt c' fs =
       (Inr receipt', c'\<lparr>co_trust := ledger_push (co_trust c) t, co_journal := j2\<rparr>, fs2)"
    and "co_open_for k x (c'\<lparr>co_trust := ledger_push (co_trust c) t, co_journal := j2\<rparr>) fs2"
    and "journal_pending j2 = []" and "at_stage j2 x Co_Finalized h (tt_transition_id t)"
proof -
  note s = prepare_context_sound [OF p]
  let ?c1 = "c'\<lparr>co_trust := ledger_push (co_trust c) t\<rparr>" and ?u = "tt_transition_id t"
  have bf: "binding_fits x" by (rule binding_fits_ok [OF _ p]) (use o in \<open>simp add: co_open_for_def\<close>)
  obtain receipt1 fs1 where rt: "recover_transition d e receipt c' fs = (Inr (t, receipt1), ?c1, fs1)"
    and o1: "co_open_for (Suc (Suc k)) x ?c1 fs1"
    unfolding e_def t_def by (rule recover_transition_ok [OF o ok p ty adm tr [unfolded t_def], of j h "replicate 32 0" receipt]) blast
  have at1: "at_stage (co_journal ?c1) x Co_DatabaseCommitted h (replicate 32 0)" using at by (auto simp: at_stage_def e_def)
  have lu: "length ?u = 32" by (simp add: t_def planned_transition_def Let_def compute_transition_digest_def)
  obtain j1 fs1' e2 j2 fs2 where a1: "co_append (stage_entry x Co_TrustCommitted h ?u) ?c1 fs1 =
       (Inr (entry_stamped (co_journal ?c1) (stage_entry x Co_TrustCommitted h ?u)), ?c1\<lparr>co_journal := j1\<rparr>, fs1')"
    and a2: "co_append (stage_entry x Co_Finalized h ?u) (?c1\<lparr>co_journal := j1\<rparr>) fs1' = (Inr e2, ?c1\<lparr>co_journal := j2\<rparr>, fs2)"
    and o2: "co_open_for k x (?c1\<lparr>co_journal := j2\<rparr>) fs2" and pd: "journal_pending j2 = []"
    and at2: "at_stage j2 x Co_Finalized h ?u"
    by (rule trust_stages_ok [OF o1 at1 nz len lu])
  have b1: "co_append (e\<lparr>je_stage := Co_TrustCommitted, je_trust_transition_id := ?u\<rparr>) = co_append (stage_entry x Co_TrustCommitted h ?u)"
    by (subst co_append_bare) (simp add: e_def bare_stage_entry)
  let ?e1 = "entry_stamped (co_journal ?c1) (stage_entry x Co_TrustCommitted h ?u)"
  have b2: "co_append (?e1\<lparr>je_stage := Co_Finalized\<rparr>) = co_append (stage_entry x Co_Finalized h ?u)"
    by (subst co_append_bare) (simp add: bare_stage_entry)
  have fm: "find_matching_transition (ledger_push (co_trust c) t) q (px_record_digest x) (px_trust_pre_head x)
      (px_expected_trust_sequence x) = Inr (Some t)"
    unfolding t_def by (rule find_matching_some [OF ok s(10,8)])
  have st: "recover_trust_stage ?e1 r (?c1\<lparr>co_journal := j1\<rparr>) fs1' =
      (Inr (r\<lparr>rv_finalized := rv_finalized r + 1\<rparr>), ?c1\<lparr>co_journal := j2\<rparr>, fs2)" for r
    using a2 fm by (simp add: recover_trust_stage_def co_simps b2 [simplified] s(1))
  have bv: "validate_binding_record (binding_record x) e = Inr ()" unfolding e_def by (rule binding_valid [OF p])
  have eb: "je_binding_record_id e = px_binding_record_id x" "je_stage e = Co_DatabaseCommitted" by (simp_all add: e_def)
  have "recover_transaction d e receipt c' fs = (Inr (receipt1\<lparr>rv_finalized := rv_finalized receipt1 + 1\<rparr>), ?c1\<lparr>co_journal := j2\<rparr>, fs2)"
    unfolding recover_transaction_def recover_database_stage_def
    using ck rt a1 st bound_record [OF bf bd, of d] bv by (simp add: co_bind_def co_query_def eb b1)
  with o2 pd at2 show thesis by (intro that) simp_all
qed

subsection \<open>A whole commit\<close>

definition commit_transition :: "coordinator \<Rightarrow> commit_request \<Rightarrow> prepared_context \<Rightarrow> trust_state \<Rightarrow> trust_transition" where
  "commit_transition c q x nxt = planned_transition (co_trust c) (request_intent q (px_record_digest x)) nxt"

text \<open>
  What a commit needs to write the binding record: a prepared context that the journal does not know,
  room in the files, and a digest of the new state that is not zero. A commit succeeds if in addition
  the trust ledger admits the transition.
\<close>

definition commit_room :: "displays \<Rightarrow> commit_request \<Rightarrow> prepared_context \<Rightarrow> coordinator \<Rightarrow> fsys \<Rightarrow> bool" where
  "commit_room d q x c fs \<longleftrightarrow> co_ok c fs \<and> journal_pending (co_journal c) = [] \<and> request_typed q \<and>
     prepare_context d c q = Inr x \<and> bt_get (cj_latest (co_journal c)) (px_transaction_id x) = None \<and>
     length (commit_payload (prepared_entry x)) \<le> MAX_FRAME_PAYLOAD_BYTES \<and> journal_room 4 c fs \<and> trust_room c fs \<and>
     binding_room x (co_database c) fs \<and>
     state_hash (operations_apply [binding_op x] (dd_state (co_database c))) \<noteq> replicate 32 0"

definition commit_ready :: "displays \<Rightarrow> commit_request \<Rightarrow> prepared_context \<Rightarrow> trust_state \<Rightarrow> coordinator \<Rightarrow> fsys \<Rightarrow> bool" where
  "commit_ready d q x nxt c fs \<longleftrightarrow> commit_room d q x c fs \<and>
     intent_admitted (co_trust c) (request_intent q (px_record_digest x)) nxt \<and>
     tt_transition_id (commit_transition c q x nxt) \<noteq> replicate 32 0"

text \<open>What a commit leaves at \<open>DATABASE_COMMITTED\<close>: the binding record, but no transition yet.\<close>

definition database_stage :: "coordinator \<Rightarrow> prepared_context \<Rightarrow> nat \<Rightarrow> coordinator \<Rightarrow> fsys \<Rightarrow> bool" where
  "database_stage c x k c3 fs3 \<longleftrightarrow> co_open_for k x c3 fs3 \<and> co_policies c3 = co_policies c \<and>
     dd_state (co_database c3) = operations_apply [binding_op x] (dd_state (co_database c)) \<and>
     (\<exists>j. bt_get (cj_latest (co_journal c3)) (px_transaction_id x) =
         Some (entry_stamped j (stage_entry x Co_DatabaseCommitted (state_hash (dd_state (co_database c3))) (replicate 32 0))) \<and>
       journal_pending (co_journal c3) =
         [entry_stamped j (stage_entry x Co_DatabaseCommitted (state_hash (dd_state (co_database c3))) (replicate 32 0))])"

lemma length_state_hash': "length (state_hash st) = 32"
  by (simp add: state_hash_def)

lemma commit_to_database_stage:
  assumes r: "commit_room d q x c fs"
  obtains c3 fs3 where "database_stage c x 2 c3 fs3" and "co_trust c3 = co_trust c" and "trust_room c3 fs3"
    and "\<And>stop. stop \<noteq> AfterPrepared \<Longrightarrow> commit_for_probe d q stop c fs =
      (if stop = AfterDatabaseCommitted then (Inr (Stopped_At (px_transaction_id x) Co_DatabaseCommitted), c3, fs3)
       else commit_trust d x stop (state_hash (dd_state (co_database c3))) c3 fs3)"
proof -
  let ?J = "co_journal c" and ?z = "replicate 32 0 :: bytes"
  have ok: "co_ok c fs" and np: "journal_pending ?J = []" and ty: "request_typed q" and p: "prepare_context d c q = Inr x"
    and new: "bt_get (cj_latest ?J) (px_transaction_id x) = None" and small: "length (commit_payload (prepared_entry x)) \<le> MAX_FRAME_PAYLOAD_BYTES"
    and room: "journal_room (Suc 3) c fs" and tr: "trust_room c fs" and br: "binding_room x (co_database c) fs"
    and nz: "state_hash (operations_apply [binding_op x] (dd_state (co_database c))) \<noteq> ?z"
    using r by (simp_all add: commit_room_def)
  define c1 where "c1 = c\<lparr>co_last_recovery := no_recovery, co_journal := journal_record ?J (entry_stamped ?J (prepared_entry x))\<rparr>"
  obtain fs1 bytes where run1: "\<And>stop. commit_for_probe d q stop c fs =
      (if stop = AfterPrepared then (Inr (Stopped_At (px_transaction_id x) Co_Prepared), c1, fs1)
       else co_bind (commit_binding_record d x) (\<lambda>h. commit_rest d x stop h) c1 fs1)"
    and o1: "co_open_for 3 x c1 fs1" and f1: "fs1 = fput (cj_path ?J) bytes fs"
    and at1: "at_stage (co_journal c1) x Co_Prepared ?z ?z"
    by (rule prepared_stage [OF ok np ty room p new small, folded c1_def]) blast
  have ok1: "co_ok c1 fs1" and cf: "context_fits x" using o1 by (simp_all add: co_open_for_def)
  have out: "outside (co_root c) (cj_path ?J)" "outside (co_root c) (tl_path (co_trust c))" "cj_path ?J \<noteq> tl_path (co_trust c)"
    and rt: "co_root c = ps_root (dd_store (co_database c))" using ok by (auto simp: co_ok_def co_separate_def)
  have wp: "ww_path (dd_wal (co_database c)) = default_wal_path (ps_root (dd_store (co_database c)))"
    using ok by (auto simp: co_ok_def db_inv_def)
  have br1: "binding_room x (co_database c1) fs1"
    using binding_room_fput [OF br out(1) [unfolded rt] wp, of bytes] by (simp add: c1_def f1)
  obtain db fs2 where b: "commit_binding_record d x c1 fs1 = (Inr (state_hash (dd_state db)), c1\<lparr>co_database := db\<rparr>, fs2)"
    and st: "dd_state db = operations_apply [binding_op x] (dd_state (co_database c1))"
    and ok2: "co_ok (c1\<lparr>co_database := db\<rparr>) fs2" and f2: "\<And>p. outside (co_root c1) p \<Longrightarrow> fget fs2 p = fget fs1 p"
    by (rule commit_binding_ok [OF ok1 binding_fits_ok [OF cf p] br1, of d]) blast
  let ?c2 = "c1\<lparr>co_database := db\<rparr>" and ?h = "state_hash (dd_state db)"
  have o2: "co_open_for (Suc 2) x ?c2 fs2"
    using co_open_for_store [OF o1 ok2] f2 out(1) by (simp add: c1_def)
  have dz: "?h \<noteq> ?z" using nz st by (simp add: c1_def del: operations_apply_simps)
  have rd: "stage_ready (co_journal ?c2) x Co_DatabaseCommitted ?h ?z"
    by (rule stage_readyI [of _ _ Co_Prepared ?z ?z]) (use at1 dz in \<open>auto simp: validate_stage_payload_def\<close>)
  let ?e = "entry_stamped (co_journal ?c2) (stage_entry x Co_DatabaseCommitted ?h ?z)"
  let ?c3 = "?c2\<lparr>co_journal := journal_record (co_journal ?c2) ?e\<rparr>"
  obtain fs3 bytes' where ap: "co_append (stage_entry x Co_DatabaseCommitted ?h ?z) ?c2 fs2 = (Inr ?e, ?c3, fs3)"
    and o3: "co_open_for 2 x ?c3 fs3" and pd3: "journal_pending (journal_record (co_journal ?c2) ?e) = [?e]"
    and f3: "fs3 = fput (cj_path (co_journal ?c2)) bytes' fs2"
    by (rule stage_append [OF o2 rd]) (auto simp: length_state_hash')
  have "database_stage c x 2 ?c3 fs3"
    unfolding database_stage_def using o3 pd3 st
    by (auto simp: bt_get_insert c1_def simp del: operations_apply_simps intro!: exI [of _ "co_journal ?c2"])
  moreover have "co_trust ?c3 = co_trust c" by (simp add: c1_def)
  moreover have "trust_room ?c3 fs3" using tr out f1 f2 [of "tl_path (co_trust c)"] f3 by (simp add: trust_room_def c1_def)
  moreover have "commit_for_probe d q stop c fs =
      (if stop = AfterDatabaseCommitted then (Inr (Stopped_At (px_transaction_id x) Co_DatabaseCommitted), ?c3, fs3)
       else commit_trust d x stop ?h ?c3 fs3)" if "stop \<noteq> AfterPrepared" for stop
    using run1 [of stop] that b ap by (simp add: co_bind_def co_ret_def commit_rest_def)
  ultimately show thesis by (intro that [of ?c3 fs3]) simp_all
qed

subsection \<open>Outcomes\<close>

definition co_committed :: "coordinator \<Rightarrow> commit_request \<Rightarrow> prepared_context \<Rightarrow> trust_state \<Rightarrow> coordinator \<Rightarrow> bool" where
  "co_committed c q x nxt c' \<longleftrightarrow>
     dd_state (co_database c') = operations_apply [binding_op x] (dd_state (co_database c)) \<and>
     co_trust c' = ledger_push (co_trust c) (commit_transition c q x nxt) \<and> co_policies c' = co_policies c \<and>
     journal_pending (co_journal c') = [] \<and>
     at_stage (co_journal c') x Co_Finalized (state_hash (dd_state (co_database c'))) (tt_transition_id (commit_transition c q x nxt))"

definition co_aborted :: "coordinator \<Rightarrow> prepared_context \<Rightarrow> coordinator \<Rightarrow> bool" where
  "co_aborted c x c' \<longleftrightarrow> dd_state (co_database c') = dd_state (co_database c) \<and> co_trust c' = co_trust c \<and>
     co_policies c' = co_policies c \<and> journal_pending (co_journal c') = [] \<and>
     (\<exists>e. bt_get (cj_latest (co_journal c')) (px_transaction_id x) = Some e \<and> je_stage e = Co_Aborted)"

lemma binding_id_prefix: "prepare_context d c q = Inr x \<Longrightarrow> starts_with (px_binding_record_id x) BINDING_RECORD_PREFIX"
  using prepare_context_sound(12) by fastforce

lemma superseding_kept:
  assumes p: "prepare_context d c q = Inr x"
    and st: "dd_state (co_database c') = operations_apply [binding_op x] (dd_state (co_database c))"
    and tr: "\<And>s. cq_superseding_record_id q = Some s \<Longrightarrow> ledger_snapshot (co_trust c') s = ledger_snapshot (co_trust c) s"
  shows "validate_superseding_binding d c' q = Inr ()"
proof (cases "cq_superseding_record_id q")
  case (Some s)
  note v = prepare_context_sound(6) [OF p]
  then have np: "\<not> starts_with s BINDING_RECORD_PREFIX" using Some by (auto simp: validate_superseding_binding_def split: if_splits)
  then have "s \<noteq> px_binding_record_id x" using binding_id_prefix [OF p] by auto
  then have r: "require_target_record d c' s = require_target_record d c s" by (rule other_records_kept(2) [OF st])
  with v tr [OF Some] Some np show ?thesis by (simp add: validate_superseding_binding_def)
qed (simp add: validate_superseding_binding_def)

lemma superseding_pushed:
  assumes adm: "intent_admitted (co_trust c) (request_intent q (px_record_digest x)) nxt" and s: "cq_superseding_record_id q = Some s"
  shows "ledger_snapshot (ledger_push (co_trust c) (commit_transition c q x nxt)) s = ledger_snapshot (co_trust c) s"
proof -
  have "superseding_ok (tl_states (co_trust c)) (request_intent q (px_record_digest x))"
    using adm by (auto simp: intent_admitted_def validate_semantic_iff)
  then have "s \<noteq> cq_record_id q" using s by (auto simp: superseding_ok_def request_intent_def split: if_splits)
  then show ?thesis by (simp add: snapshot_push commit_transition_def request_intent_def)
qed

text \<open>The checks of recovery pass once the binding record is there.\<close>

lemma bound_recovery_checks:
  assumes p: "prepare_context d c q = Inr x" and f: "context_fits x" and pol: "co_policies c' = co_policies c"
    and st: "dd_state (co_database c') = operations_apply [binding_op x] (dd_state (co_database c))"
    and tr: "\<And>s. cq_superseding_record_id q = Some s \<Longrightarrow> ledger_snapshot (co_trust c') s = ledger_snapshot (co_trust c) s"
  shows "recovery_checks d c' (entry_stamped j (stage_entry x st' a b)) = Inr (Some (binding_record x))"
    and "bound_in x (dd_state (co_database c'))"
proof -
  show bd: "bound_in x (dd_state (co_database c'))" unfolding st by (rule bound_after)
  have rid: "cq_record_id q \<noteq> px_binding_record_id x" using prepare_context_sound(3) [OF p] binding_id_prefix [OF p] by auto
  show "recovery_checks d c' (entry_stamped j (stage_entry x st' a b)) = Inr (Some (binding_record x))"
    using recovery_checks_ok [OF p pol other_records_kept(2) [OF st rid] superseding_kept [OF p st tr]]
      bound_record [OF binding_fits_ok [OF f p] bd, of d] by simp
qed

text \<open>Whatever had been done after \<open>DATABASE_COMMITTED\<close>, reopening completes the commit.\<close>

lemma database_stage_recovers:
  assumes rdy: "commit_ready d q x nxt c fs" and ds: "database_stage c x 2 c3 fs3"
    and tr: "co_trust c3 = co_trust c \<and> trust_room c3 fs3 \<or> co_trust c3 = ledger_push (co_trust c) (commit_transition c q x nxt)"
  obtains c4 fs4 where "co_reopen d c3 fs3 = (Inr c4, fs4)" and "co_ok c4 fs4" and "co_committed c q x nxt c4"
proof -
  let ?z = "replicate 32 0 :: bytes" and ?h = "state_hash (dd_state (co_database c3))"
  let ?t = "commit_transition c q x nxt"
  have ok: "co_ok c fs" and ty: "request_typed q" and p: "prepare_context d c q = Inr x"
    and adm: "intent_admitted (co_trust c) (request_intent q (px_record_digest x)) nxt" and nz2: "tt_transition_id ?t \<noteq> ?z"
    and nz0: "state_hash (operations_apply [binding_op x] (dd_state (co_database c))) \<noteq> ?z"
    using rdy by (simp_all add: commit_ready_def commit_room_def del: operations_apply_simps)
  from ds obtain j where o: "co_open_for 2 x c3 fs3" and pol: "co_policies c3 = co_policies c"
    and st: "dd_state (co_database c3) = operations_apply [binding_op x] (dd_state (co_database c))"
    and at: "bt_get (cj_latest (co_journal c3)) (px_transaction_id x) = Some (entry_stamped j (stage_entry x Co_DatabaseCommitted ?h ?z))"
    and pd: "journal_pending (co_journal c3) = [entry_stamped j (stage_entry x Co_DatabaseCommitted ?h ?z)]"
    by (auto simp: database_stage_def)
  have nz1: "?h \<noteq> ?z" using nz0 st by (simp del: operations_apply_simps)
  obtain db fs3' where re: "co_reopen d c3 fs3 = (case recover_pending d (c3\<lparr>co_database := db, co_last_recovery := no_recovery\<rparr>) fs3' of
         (Inl e, _, fs'') \<Rightarrow> (Inl e, fs'')
       | (Inr receipt, c', fs'') \<Rightarrow> (Inr (c'\<lparr>co_last_recovery := receipt\<rparr>), fs''))"
    and sd: "dd_state db = dd_state (co_database c3)" and fg: "fget fs3' = fget fs3"
    and o': "co_open_for 2 x (c3\<lparr>co_database := db, co_last_recovery := no_recovery\<rparr>) fs3'"
    by (rule co_open_for_reload [OF o, of d])
  let ?c = "c3\<lparr>co_database := db, co_last_recovery := no_recovery\<rparr>" and ?e = "entry_stamped j (stage_entry x Co_DatabaseCommitted ?h ?z)"
  have st': "dd_state (co_database ?c) = operations_apply [binding_op x] (dd_state (co_database c))" using sd st by simp
  have tr1: "co_trust ?c = co_trust c \<and> trust_room ?c fs3' \<or> co_trust ?c = ledger_push (co_trust c) ?t"
    using tr fg by (auto simp: trust_room_def)
  have sn: "ledger_snapshot (co_trust ?c) s = ledger_snapshot (co_trust c) s" if "cq_superseding_record_id q = Some s" for s
    using tr1 superseding_pushed [OF adm that] by auto
  have cf: "context_fits x" and pl: "co_policies ?c = co_policies c" using o pol by (simp_all add: co_open_for_def)
  note rc = bound_recovery_checks [OF p cf pl st' sn]
  have ck: "recovery_checks d ?c ?e = Inr (Some (binding_record x))" and bd: "bound_in x (dd_state (co_database ?c))"
    by (rule rc(1), assumption) (rule rc(2), assumption)
  have o2: "co_open_for (Suc (Suc 0)) x ?c fs3'" using o' by (simp add: numeral_2_eq_2)
  have at': "bt_get (cj_latest (co_journal ?c)) (px_transaction_id x) = Some ?e" using at by simp
  obtain receipt j2 fs4 where r: "recover_transaction d ?e (no_recovery\<lparr>rv_pending_before := 1\<rparr>) ?c fs3' =
       (Inr receipt, ?c\<lparr>co_trust := ledger_push (co_trust c) ?t, co_journal := j2\<rparr>, fs4)"
    and o4: "co_open_for 0 x (?c\<lparr>co_trust := ledger_push (co_trust c) ?t, co_journal := j2\<rparr>) fs4"
    and pd4: "journal_pending j2 = []" and at4: "at_stage j2 x Co_Finalized ?h (tt_transition_id ?t)"
    by (rule recover_committed [OF o2 ok p ty adm, of j ?h "no_recovery\<lparr>rv_pending_before := 1\<rparr>", folded commit_transition_def,
          OF tr1 at' ck bd nz1 nz2 length_state_hash'])
  let ?c4 = "?c\<lparr>co_trust := ledger_push (co_trust c) ?t, co_journal := j2\<rparr>\<lparr>co_last_recovery := receipt\<rparr>"
  have "co_reopen d c3 fs3 = (Inr ?c4, fs4)" using re recover_one [of ?c ?e d fs3'] pd r by simp
  moreover have "co_ok ?c4 fs4" using o4 by (simp only: co_open_for_def co_ok_last_recovery)
  moreover have "co_committed c q x nxt ?c4" using st' pol pd4 at4 sd by (simp add: co_committed_def del: operations_apply_simps)
  ultimately show thesis by (rule that)
qed

lemma finished_reopens:
  assumes ok: "co_ok c fs" and np: "journal_pending (co_journal c) = []"
  obtains c' fs' where "co_reopen d c fs = (Inr c', fs')" and "co_ok c' fs'" and "dd_state (co_database c') = dd_state (co_database c)"
    and "co_trust c' = co_trust c" and "co_policies c' = co_policies c" and "co_journal c' = co_journal c"
proof -
  obtain db fs' where l: "co_load d (co_root c) (tl_path (co_trust c)) (pr_path (co_policies c)) (cj_path (co_journal c)) fs =
       (Inr (c\<lparr>co_database := db, co_last_recovery := no_recovery\<rparr>), fs')"
    and e: "dd_state db = dd_state (co_database c)" and ok': "co_ok (c\<lparr>co_database := db, co_last_recovery := no_recovery\<rparr>) fs'"
    by (rule co_load_ok [OF ok, of d]) blast
  let ?c = "c\<lparr>co_database := db, co_last_recovery := no_recovery\<rparr>"
  have "co_reopen d c fs = (Inr ?c, fs')"
    using l recover_none [of ?c d fs'] np by (simp add: co_reopen_def co_open_strict_def io_bind_def)
  then show thesis using ok' e by (intro that [of ?c]) simp_all
qed

text \<open>The receipt of a commit.\<close>

definition receipt_for :: "coordinator \<Rightarrow> commit_request \<Rightarrow> prepared_context \<Rightarrow> trust_state \<Rightarrow> commit_receipt_data \<Rightarrow> bool" where
  "receipt_for c q x nxt r \<longleftrightarrow> tr_transaction_id r = px_transaction_id x \<and> tr_binding_record_id r = px_binding_record_id x \<and>
     tr_policy_digest r = px_policy_digest x \<and> tr_record_digest r = px_record_digest x \<and>
     tr_database_state_digest r = state_hash (operations_apply [binding_op x] (dd_state (co_database c))) \<and>
     tr_trust_transition_id r = tt_transition_id (commit_transition c q x nxt) \<and>
     tr_trust_sequence r = tt_sequence (commit_transition c q x nxt) \<and> tr_finalized r"

lemma commit_trust_runs:
  fixes x c q nxt
  defines "t \<equiv> commit_transition c q x nxt"
  assumes rdy: "commit_ready d q x nxt c fs" and ds: "database_stage c x 2 c3 fs3" and tr: "co_trust c3 = co_trust c" "trust_room c3 fs3"
  obtains c4 fs4 c6 fs6 r where "database_stage c x 2 c4 fs4" and "co_trust c4 = ledger_push (co_trust c) t"
    and "\<And>stop. commit_trust d x stop (state_hash (dd_state (co_database c3))) c3 fs3 =
      (if stop = AfterTrustApplied then (Inr (Stopped_At (px_transaction_id x) Co_DatabaseCommitted), c4, fs4)
       else (Inr (Committed_Receipt r), c6, fs6))"
    and "co_ok c6 fs6" and "co_committed c q x nxt c6" and "receipt_for c q x nxt r"
proof -
  let ?z = "replicate 32 0 :: bytes" and ?h = "state_hash (dd_state (co_database c3))" and ?u = "tt_transition_id t"
  have ty: "request_typed q" and p: "prepare_context d c q = Inr x"
    and adm: "intent_admitted (co_trust c) (request_intent q (px_record_digest x)) nxt" and nz2: "?u \<noteq> ?z"
    and nz0: "state_hash (operations_apply [binding_op x] (dd_state (co_database c))) \<noteq> ?z"
    using rdy by (simp_all add: commit_ready_def commit_room_def t_def del: operations_apply_simps)
  note s = prepare_context_sound [OF p]
  have o: "co_open_for 2 x c3 fs3" and st: "dd_state (co_database c3) = operations_apply [binding_op x] (dd_state (co_database c))"
    and at: "at_stage (co_journal c3) x Co_DatabaseCommitted ?h ?z"
    using ds by (auto simp: database_stage_def at_stage_def)
  have ok3: "co_ok c3 fs3" and f: "context_fits x" using o by (simp_all add: co_open_for_def)
  have it: "intent_typed (request_intent q (px_record_digest x))"
    by (rule request_intent_typed [OF ty]) (use f in \<open>simp add: context_fits_def\<close>)
  have adm3: "intent_admitted (co_trust c3) (request_intent q (px_record_digest x)) nxt" using adm tr(1) by simp
  let ?c4 = "c3\<lparr>co_trust := ledger_push (co_trust c) t\<rparr>"
  obtain fs4 where a: "co_apply d (request_intent q (px_record_digest x)) c3 fs3 = (Inr t, ?c4, fs4)" and ok4: "co_ok ?c4 fs4"
    and fr: "\<And>p. p \<noteq> tl_path (co_trust c) \<Longrightarrow> fget fs4 p = fget fs3 p"
    by (rule co_apply_ok [OF ok3 it adm3 tr(2), unfolded tr(1), folded commit_transition_def, folded t_def, of d]) blast
  have "cj_path (co_journal c3) \<noteq> tl_path (co_trust c)" using ok3 tr(1) by (auto simp: co_ok_def co_separate_def)
  then have o4: "co_open_for 2 x ?c4 fs4" using co_open_for_store [OF o ok4] fr by simp
  have ds4: "database_stage c x 2 ?c4 fs4" using ds o4 by (auto simp: database_stage_def simp del: operations_apply_simps)
  have v: "validate_transition_matches t q (px_record_digest x) (px_trust_pre_head x) (px_expected_trust_sequence x) = Inr ()"
    unfolding t_def commit_transition_def by (rule planned_matches [OF s(8,10)])
  have nz1: "?h \<noteq> ?z" using nz0 st by (simp del: operations_apply_simps)
  have lu: "length ?u = 32" by (simp add: t_def commit_transition_def planned_transition_def Let_def compute_transition_digest_def)
  have o4': "co_open_for (Suc (Suc 0)) x ?c4 fs4" using o4 by (simp add: numeral_2_eq_2)
  have at4: "at_stage (co_journal ?c4) x Co_DatabaseCommitted ?h ?z" using at by simp
  obtain j1 fs5 e2 j2 fs6 where a1: "co_append (stage_entry x Co_TrustCommitted ?h ?u) ?c4 fs4 =
       (Inr (entry_stamped (co_journal ?c4) (stage_entry x Co_TrustCommitted ?h ?u)), ?c4\<lparr>co_journal := j1\<rparr>, fs5)"
    and a2: "co_append (stage_entry x Co_Finalized ?h ?u) (?c4\<lparr>co_journal := j1\<rparr>) fs5 = (Inr e2, ?c4\<lparr>co_journal := j2\<rparr>, fs6)"
    and o6: "co_open_for 0 x (?c4\<lparr>co_journal := j2\<rparr>) fs6" and pd: "journal_pending j2 = []" and at6: "at_stage j2 x Co_Finalized ?h ?u"
    by (rule trust_stages_ok [OF o4' at4 nz1 nz2 length_state_hash' lu])
  define r where "r = \<lparr>tr_transaction_id = px_transaction_id x, tr_binding_record_id = px_binding_record_id x,
          tr_binding_record_digest = px_binding_record_digest x, tr_policy_digest = px_policy_digest x,
          tr_record_digest = px_record_digest x, tr_database_state_digest = ?h,
          tr_trust_transition_id = ?u, tr_trust_sequence = tt_sequence t,
          tr_journal_sequence = je_sequence e2, tr_finalized = True, tr_recovered = False\<rparr>"
  have run: "commit_trust d x stop ?h c3 fs3 =
      (if stop = AfterTrustApplied then (Inr (Stopped_At (px_transaction_id x) Co_DatabaseCommitted), ?c4, fs4)
       else (Inr (Committed_Receipt r), ?c4\<lparr>co_journal := j2\<rparr>, fs6))" for stop
    using a v a1 a2 by (simp add: commit_trust_def co_simps s(1) r_def)
  have ok6: "co_ok (?c4\<lparr>co_journal := j2\<rparr>) fs6" using o6 by (simp add: co_open_for_def)
  have "co_committed c q x nxt (?c4\<lparr>co_journal := j2\<rparr>)"
    using st pd at6 ds by (simp add: co_committed_def database_stage_def t_def del: operations_apply_simps)
  moreover have "receipt_for c q x nxt r" using st by (simp add: receipt_for_def r_def t_def del: operations_apply_simps)
  ultimately show thesis using that [OF ds4 _ run ok6] by simp
qed

subsection \<open>Properties\<close>

lemma commit_crash_outcome:
  assumes rdy: "commit_ready d q x nxt c fs"
  shows "\<exists>out c1 fs1 c2 fs2. commit_for_probe d q stop c fs = (Inr out, c1, fs1) \<and> co_reopen d c1 fs1 = (Inr c2, fs2) \<and>
     co_ok c2 fs2 \<and> (if stop = AfterPrepared then co_aborted c x c2 else co_committed c q x nxt c2)"
proof (cases "stop = AfterPrepared")
  case True
  have ok: "co_ok c fs" and np: "journal_pending (co_journal c) = []" and ty: "request_typed q" and p: "prepare_context d c q = Inr x"
    and new: "bt_get (cj_latest (co_journal c)) (px_transaction_id x) = None"
    and small: "length (commit_payload (prepared_entry x)) \<le> MAX_FRAME_PAYLOAD_BYTES"
    and room: "journal_room (Suc 3) c fs" and room2: "journal_room (Suc (Suc 2)) c fs"
    using rdy by (simp_all add: commit_ready_def commit_room_def)
  obtain out c1 fs1 where run: "commit_for_probe d q AfterPrepared c fs = (Inr out, c1, fs1)"
    by (rule prepared_stage [OF ok np ty room p new small]) simp
  obtain x' c2 fs2 e where "prepare_context d c q = Inr x'" "co_reopen d c1 fs1 = (Inr c2, fs2)" "co_open_for 2 x' c2 fs2"
    "journal_pending (co_journal c2) = []" "bt_get (cj_latest (co_journal c2)) (px_transaction_id x') = Some e" "je_stage e = Co_Aborted"
    "dd_state (co_database c2) = dd_state (co_database c)" "co_trust c2 = co_trust c" "co_policies c2 = co_policies c"
    by (rule prepared_crash [OF ok np ty room2 run])
  with run p True show ?thesis by (auto simp: co_aborted_def co_open_for_def)
next
  case False
  have cr: "commit_room d q x c fs" using rdy by (simp add: commit_ready_def)
  obtain c3 fs3 where ds: "database_stage c x 2 c3 fs3" and tr: "co_trust c3 = co_trust c" "trust_room c3 fs3"
    and run: "\<And>stop. stop \<noteq> AfterPrepared \<Longrightarrow> commit_for_probe d q stop c fs =
      (if stop = AfterDatabaseCommitted then (Inr (Stopped_At (px_transaction_id x) Co_DatabaseCommitted), c3, fs3)
       else commit_trust d x stop (state_hash (dd_state (co_database c3))) c3 fs3)"
    by (rule commit_to_database_stage [OF cr]) blast
  obtain c4 fs4 c6 fs6 r where ds4: "database_stage c x 2 c4 fs4" "co_trust c4 = ledger_push (co_trust c) (commit_transition c q x nxt)"
    and run4: "\<And>stop. commit_trust d x stop (state_hash (dd_state (co_database c3))) c3 fs3 =
      (if stop = AfterTrustApplied then (Inr (Stopped_At (px_transaction_id x) Co_DatabaseCommitted), c4, fs4)
       else (Inr (Committed_Receipt r), c6, fs6))"
    and ok6: "co_ok c6 fs6" and cm: "co_committed c q x nxt c6"
    by (rule commit_trust_runs [OF rdy ds tr]) blast
  consider "stop = AfterDatabaseCommitted" | "stop = AfterTrustApplied" | "stop = Stop_None" using False by (cases stop) auto
  then show ?thesis
  proof cases
    case 1
    then show ?thesis using run [of stop] database_stage_recovers [OF rdy ds] tr by (metis probe_stop.distinct(7))
  next
    case 2
    then show ?thesis using run [of stop] run4 [of stop] database_stage_recovers [OF rdy ds4(1)] ds4(2) by simp metis
  next
    case 3
    have "journal_pending (co_journal c6) = []" using cm by (simp add: co_committed_def)
    then obtain c7 fs7 where "co_reopen d c6 fs6 = (Inr c7, fs7)" "co_ok c7 fs7"
      "dd_state (co_database c7) = dd_state (co_database c6)" "co_trust c7 = co_trust c6" "co_policies c7 = co_policies c6"
      "co_journal c7 = co_journal c6"
      by (rule finished_reopens [OF ok6, of d])
    moreover from this cm have "co_committed c q x nxt c7" unfolding co_committed_def by metis
    ultimately show ?thesis using 3 run [of stop] run4 [of stop] by auto
  qed
qed

lemma commit_outcome:
  assumes rdy: "commit_ready d q x nxt c fs"
  shows "\<exists>r c' fs'. co_commit d q c fs = (Inr r, c', fs') \<and> co_ok c' fs' \<and> receipt_for c q x nxt r \<and> co_committed c q x nxt c' \<and>
     co_record d c' (tr_binding_record_id r) = Inr (Some (binding_record x)) \<and>
     (\<exists>sn. ledger_snapshot (co_trust c') (cq_record_id q) = Some sn \<and> sn_state sn = nxt \<and> sn_record_digest sn = tr_record_digest r)"
proof -
  have cr: "commit_room d q x c fs" using rdy by (simp add: commit_ready_def)
  obtain c3 fs3 where ds: "database_stage c x 2 c3 fs3" and tr: "co_trust c3 = co_trust c" "trust_room c3 fs3"
    and run: "\<And>stop. stop \<noteq> AfterPrepared \<Longrightarrow> commit_for_probe d q stop c fs =
      (if stop = AfterDatabaseCommitted then (Inr (Stopped_At (px_transaction_id x) Co_DatabaseCommitted), c3, fs3)
       else commit_trust d x stop (state_hash (dd_state (co_database c3))) c3 fs3)"
    by (rule commit_to_database_stage [OF cr]) blast
  obtain c4 fs4 c6 fs6 r where run4: "\<And>stop. commit_trust d x stop (state_hash (dd_state (co_database c3))) c3 fs3 =
      (if stop = AfterTrustApplied then (Inr (Stopped_At (px_transaction_id x) Co_DatabaseCommitted), c4, fs4)
       else (Inr (Committed_Receipt r), c6, fs6))"
    and ok6: "co_ok c6 fs6" and cm: "co_committed c q x nxt c6" and rc: "receipt_for c q x nxt r"
    by (rule commit_trust_runs [OF rdy ds tr]) blast
  have "co_commit d q c fs = (Inr r, c6, fs6)"
    using run [of Stop_None] run4 [of Stop_None] by (simp add: co_commit_def co_bind_def co_ret_def)
  moreover have p: "prepare_context d c q = Inr x" using rdy by (simp add: commit_ready_def commit_room_def)
  have "co_record d c6 (px_binding_record_id x) = Inr (Some (binding_record x))"
    by (rule bound_record [OF binding_fits_ok [OF _ p]])
      (use ds cm in \<open>auto simp: database_stage_def co_open_for_def co_committed_def bound_after simp del: operations_apply_simps\<close>)
  ultimately show ?thesis using ok6 cm rc prepare_context_sound(1) [OF p]
    by (auto simp: receipt_for_def co_committed_def snapshot_push commit_transition_def request_intent_def)
qed

text \<open>
  C5. A trust co-commit is atomic across the database, the trust ledger and the commit journal,
  wherever it stops between two of its stages. The request is ready (\<open>commit_ready\<close>): the four
  stores agree with their files and the journal has no pending transaction; the preparation accepts
  the request and its transaction is unknown to the journal; the trust ledger admits the transition;
  the transaction id of the binding record is not zero and not committed; the names of the segment,
  checkpoint and manifest it will write are free; there is room for the journal entries, the
  transition, the log and the checkpoint; and neither the state hash nor the transition id, which the
  journal must not hold as zero, is zero. Then a commit that is not interrupted returns the receipt
  of the transaction, after which the binding record is in the database and the record is in its new
  trust state. A commit that stops at any of the points that the code names for it, followed by
  opening the four files again, has either left no trace in database and ledger, with the
  transaction aborted in the journal (it stopped after \<open>PREPARED\<close>), or is complete in all three: the
  binding record, the one new transition, and a final entry that names state hash and transition.
\<close>

theorem co_commit_atomic:
  assumes "commit_ready d q x nxt c fs"
  shows "(\<exists>out c1 fs1 c2 fs2. commit_for_probe d q stop c fs = (Inr out, c1, fs1) \<and> co_reopen d c1 fs1 = (Inr c2, fs2) \<and>
       co_ok c2 fs2 \<and> (if stop = AfterPrepared then co_aborted c x c2 else co_committed c q x nxt c2)) \<and>
     (\<exists>r c' fs'. co_commit d q c fs = (Inr r, c', fs') \<and> co_ok c' fs' \<and> receipt_for c q x nxt r \<and> co_committed c q x nxt c' \<and>
       co_record d c' (tr_binding_record_id r) = Inr (Some (binding_record x)) \<and>
       (\<exists>sn. ledger_snapshot (co_trust c') (cq_record_id q) = Some sn \<and> sn_state sn = nxt \<and> sn_record_digest sn = tr_record_digest r))"
  by (rule conjI [OF commit_crash_outcome [OF assms] commit_outcome [OF assms]])

subsection \<open>A transition that the ledger refuses\<close>

lemma co_apply_refused:
  assumes ok: "co_ok c fs" and ref: "\<nexists>nxt. intent_admitted (co_trust c) i nxt"
  obtains msg where "co_apply d i c fs = (Inl (Tc_Trust msg), c, fs)"
proof -
  let ?l = "co_trust c" and ?p = "tl_path (co_trust c)"
  obtain ts where h: "ledger_history ?p ts" "?l = ledger_of ?p ts" using ok by (auto simp: co_ok_def ledger_inv_def)
  have len: "length (tl_transitions ?l) + 1 < usize_limit"
    using ledger_history_room [OF h(1)] h(2) ledger_of_fields(2) [of ?p ts] by simp
  obtain e where "ledger_apply ?l i fs = (Inl e, ?l, fs)"
    by (rule ledger_apply_cases [OF len, of i fs]) (use ref in auto)
  then show thesis by (intro that [of "ds_trust d e"]) (simp add: co_apply_def)
qed

lemma recover_refused:
  assumes ds: "database_stage c x 2 c3 fs3" and p: "prepare_context d c q = Inr x" and tr: "co_trust c3 = co_trust c"
    and ref: "\<nexists>nxt. intent_admitted (co_trust c) (request_intent q (px_record_digest x)) nxt"
  obtains msg where "recover_pending d c3 fs3 = (Inl (Tc_Trust msg), c3, fs3)"
proof -
  note s = prepare_context_sound [OF p]
  let ?z = "replicate 32 0 :: bytes" and ?h = "state_hash (dd_state (co_database c3))"
  from ds obtain j where o: "co_open_for 2 x c3 fs3" and pol: "co_policies c3 = co_policies c"
    and st: "dd_state (co_database c3) = operations_apply [binding_op x] (dd_state (co_database c))"
    and pd: "journal_pending (co_journal c3) = [entry_stamped j (stage_entry x Co_DatabaseCommitted ?h ?z)]"
    by (auto simp: database_stage_def)
  let ?e = "entry_stamped j (stage_entry x Co_DatabaseCommitted ?h ?z)"
  have ok: "co_ok c3 fs3" and cf: "context_fits x" using o by (simp_all add: co_open_for_def)
  have ck: "recovery_checks d c3 ?e = Inr (Some (binding_record x))" and bd: "bound_in x (dd_state (co_database c3))"
    using bound_recovery_checks [OF p cf pol st] tr by simp_all
  obtain msg where a: "co_apply d (request_intent q (px_record_digest x)) c3 fs3 = (Inl (Tc_Trust msg), c3, fs3)"
    by (rule co_apply_refused [OF ok, of "request_intent q (px_record_digest x)" d]) (use ref tr in auto)
  have nm: "find_matching_transition (co_trust c3) q (px_record_digest x) (px_trust_pre_head x) (px_expected_trust_sequence x) = Inr None"
    by (rule find_matching_none [OF ok]) (simp add: tr s(10))
  have "recover_transition d ?e r c3 fs3 = (Inl (Tc_Trust msg), c3, fs3)" for r
    using nm a s(8-10) tr by (simp add: recover_transition_def co_simps s(1) Let_def)
  moreover have "validate_binding_record (binding_record x) ?e = Inr ()" by (rule binding_valid [OF p])
  ultimately have "recover_transaction d ?e r c3 fs3 = (Inl (Tc_Trust msg), c3, fs3)" for r
    using ck bound_record [OF binding_fits_ok [OF cf p] bd, of d]
    by (simp add: recover_transaction_def recover_database_stage_def co_bind_def co_query_def)
  then show thesis using recover_one [of c3 ?e d fs3] pd by (intro that) simp
qed

lemma database_stage_reload:
  assumes "database_stage c x k c3 fs3"
  obtains db fs4 where "co_reopen d c3 fs3 = (case recover_pending d (c3\<lparr>co_database := db, co_last_recovery := no_recovery\<rparr>) fs4 of
         (Inl e, _, fs'') \<Rightarrow> (Inl e, fs'')
       | (Inr receipt, c', fs'') \<Rightarrow> (Inr (c'\<lparr>co_last_recovery := receipt\<rparr>), fs''))"
    and "database_stage c x k (c3\<lparr>co_database := db, co_last_recovery := no_recovery\<rparr>) fs4" and "fget fs4 = fget fs3"
proof -
  have o: "co_open_for k x c3 fs3" using assms by (simp add: database_stage_def)
  obtain db fs4 where re: "co_reopen d c3 fs3 = (case recover_pending d (c3\<lparr>co_database := db, co_last_recovery := no_recovery\<rparr>) fs4 of
         (Inl e, _, fs'') \<Rightarrow> (Inl e, fs'')
       | (Inr receipt, c', fs'') \<Rightarrow> (Inr (c'\<lparr>co_last_recovery := receipt\<rparr>), fs''))"
    and sd: "dd_state db = dd_state (co_database c3)" and fg: "fget fs4 = fget fs3"
    and o4: "co_open_for k x (c3\<lparr>co_database := db, co_last_recovery := no_recovery\<rparr>) fs4"
    by (rule co_open_for_reload [OF o, of d])
  have "database_stage c x k (c3\<lparr>co_database := db, co_last_recovery := no_recovery\<rparr>) fs4"
    using assms o4 sd by (auto simp: database_stage_def simp del: operations_apply_simps)
  from that [OF re this fg] show thesis .
qed

text \<open>
  C37. A transition that the trust ledger refuses blocks the coordinator. The preparation of a commit
  does not ask the ledger whether it will admit the transition. Let the ledger not admit it while the
  request is otherwise in order (\<open>commit_room\<close>: the stores agree with their files, nothing is pending,
  the preparation accepts the request, its transaction is new, names are free and there is room).
  Then the commit fails only after the binding record has been committed to the database, with the
  trust ledger unchanged. In the state it leaves, every commit of every request fails on the recovery that precedes
  it and changes neither the coordinator nor a file, and opening the four files again fails with an
  error of the trust ledger and leaves them as they are.
\<close>

theorem refused_transition_wedges:
  assumes cr: "commit_room d q x c fs"
    and ref: "\<nexists>nxt. intent_admitted (co_trust c) (request_intent q (px_record_digest x)) nxt"
  shows "\<exists>m1 m2 m3 c1 fs1 fs2. co_commit d q c fs = (Inl (Tc_Trust m1), c1, fs1) \<and>
     co_record d c1 (px_binding_record_id x) = Inr (Some (binding_record x)) \<and> co_trust c1 = co_trust c \<and>
     (\<forall>q' stop. commit_for_probe d q' stop c1 fs1 = (Inl (Tc_Trust m2), c1, fs1)) \<and>
     co_reopen d c1 fs1 = (Inl (Tc_Trust m3), fs2) \<and> fget fs2 = fget fs1"
proof -
  have p: "prepare_context d c q = Inr x" using cr by (simp add: commit_room_def)
  obtain c3 fs3 where ds: "database_stage c x 2 c3 fs3" and tr: "co_trust c3 = co_trust c"
    and run: "\<And>stop. stop \<noteq> AfterPrepared \<Longrightarrow> commit_for_probe d q stop c fs =
      (if stop = AfterDatabaseCommitted then (Inr (Stopped_At (px_transaction_id x) Co_DatabaseCommitted), c3, fs3)
       else commit_trust d x stop (state_hash (dd_state (co_database c3))) c3 fs3)"
    by (rule commit_to_database_stage [OF cr]) blast
  have ok: "co_ok c3 fs3" and cf: "context_fits x" using ds by (simp_all add: database_stage_def co_open_for_def)
  obtain m1 where a: "co_apply d (request_intent q (px_record_digest x)) c3 fs3 = (Inl (Tc_Trust m1), c3, fs3)"
    by (rule co_apply_refused [OF ok, of "request_intent q (px_record_digest x)" d]) (use ref tr in auto)
  have c: "co_commit d q c fs = (Inl (Tc_Trust m1), c3, fs3)"
    using run [of Stop_None] a by (simp add: co_commit_def co_bind_def commit_trust_def prepare_context_sound(1) [OF p])
  obtain m2 where r2: "recover_pending d c3 fs3 = (Inl (Tc_Trust m2), c3, fs3)" by (rule recover_refused [OF ds p tr ref])
  have r2': "commit_for_probe d q' stop c3 fs3 = (Inl (Tc_Trust m2), c3, fs3)" for q' stop
    using r2 by (simp add: commit_for_probe_def co_bind_def)
  obtain db fs4 where re: "co_reopen d c3 fs3 = (case recover_pending d (c3\<lparr>co_database := db, co_last_recovery := no_recovery\<rparr>) fs4 of
         (Inl e, _, fs'') \<Rightarrow> (Inl e, fs'')
       | (Inr receipt, c', fs'') \<Rightarrow> (Inr (c'\<lparr>co_last_recovery := receipt\<rparr>), fs''))"
    and ds4: "database_stage c x 2 (c3\<lparr>co_database := db, co_last_recovery := no_recovery\<rparr>) fs4" and fg: "fget fs4 = fget fs3"
    by (rule database_stage_reload [OF ds, of d])
  obtain m3 where "recover_pending d (c3\<lparr>co_database := db, co_last_recovery := no_recovery\<rparr>) fs4 =
      (Inl (Tc_Trust m3), c3\<lparr>co_database := db, co_last_recovery := no_recovery\<rparr>, fs4)"
    by (rule recover_refused [OF ds4 p _ ref]) (use tr in auto)
  then have r3: "co_reopen d c3 fs3 = (Inl (Tc_Trust m3), fs4)" using re by simp
  have "bound_in x (dd_state (co_database c3))" using ds bound_after by (simp add: database_stage_def del: operations_apply_simps)
  then have "co_record d c3 (px_binding_record_id x) = Inr (Some (binding_record x))"
    by (rule bound_record [OF binding_fits_ok [OF cf p]])
  with c tr r2' r3 fg show ?thesis by blast
qed

subsection \<open>Runs\<close>

text \<open>
  A coordinator that commits, is interrupted at any stage of a commit and reopened, refuses requests
  and is reopened. The history lists the context and the transition of each commit.
\<close>

type_synonym co_history = "(prepared_context \<times> trust_transition) list"
type_synonym co_system = "coordinator \<times> fsys \<times> co_history"

inductive co_step :: "displays \<Rightarrow> co_system \<Rightarrow> co_system \<Rightarrow> bool" for d where
  co_commits:
    "commit_ready d q x nxt c fs \<Longrightarrow> co_commit d q c fs = (Inr r, c', fs') \<Longrightarrow>
     co_step d (c, fs, h) (c', fs', h @ [(x, commit_transition c q x nxt)])"
| co_crashes:
    "commit_ready d q x nxt c fs \<Longrightarrow> commit_for_probe d q stop c fs = (Inr out, c1, fs1) \<Longrightarrow>
     co_reopen d c1 fs1 = (Inr c2, fs2) \<Longrightarrow>
     co_step d (c, fs, h) (c2, fs2, if stop = AfterPrepared then h else h @ [(x, commit_transition c q x nxt)])"
| co_refuses:
    "prepare_context d c q = Inl e \<Longrightarrow> commit_for_probe d q stop c fs = (r, c', fs') \<Longrightarrow> co_step d (c, fs, h) (c', fs', h)"
| co_reopens: "co_reopen d c fs = (Inr c', fs') \<Longrightarrow> co_step d (c, fs, h) (c', fs', h)"

definition co_initial :: "coordinator \<Rightarrow> co_system \<Rightarrow> bool" where
  "co_initial c0 s \<longleftrightarrow> (case s of (c, fs, h) \<Rightarrow> c = c0 \<and> co_ok c fs \<and> journal_pending (co_journal c) = [] \<and> h = [])"

text \<open>A binding record names the transition that it belongs to.\<close>

definition binds :: "prepared_context \<times> trust_transition \<Rightarrow> bool" where
  "binds xt \<longleftrightarrow> (case xt of (x, t) \<Rightarrow> px_binding_payload x = binding_bytes x \<and> cq_record_id (px_request x) = tt_record_id t \<and>
     px_record_digest x = tt_record_digest t \<and> px_trust_pre_head x = tt_previous_transition_digest t \<and>
     px_expected_trust_sequence x = tt_sequence t \<and> cq_logical_timestamp (px_request x) = tt_logical_timestamp t)"

definition co_run_inv :: "coordinator \<Rightarrow> co_system \<Rightarrow> bool" where
  "co_run_inv c0 s \<longleftrightarrow> (case s of (c, fs, h) \<Rightarrow> co_ok c fs \<and> journal_pending (co_journal c) = [] \<and>
     dd_state (co_database c) = operations_apply (map (binding_op \<circ> fst) h) (dd_state (co_database c0)) \<and>
     co_trust c = foldl ledger_push (co_trust c0) (map snd h) \<and> co_policies c = co_policies c0 \<and> list_all binds h)"

lemma commit_binds: "prepare_context d c q = Inr x \<Longrightarrow> binds (x, commit_transition c q x nxt)"
  using prepare_context_sound [of d c q x]
  by (simp add: binds_def commit_transition_def planned_transition_def request_intent_def Let_def)

lemma co_run_commit:
  assumes "co_run_inv c0 (c, fs, h)" and "commit_ready d q x nxt c fs" and "co_ok c' fs'" and "co_committed c q x nxt c'"
  shows "co_run_inv c0 (c', fs', h @ [(x, commit_transition c q x nxt)])"
proof -
  have "prepare_context d c q = Inr x" using assms(2) by (simp add: commit_ready_def commit_room_def)
  from commit_binds [OF this] assms show ?thesis
    by (simp add: co_run_inv_def co_committed_def operations_apply_def)
qed

lemma co_step_inv: "co_step d s s' \<Longrightarrow> co_run_inv c0 s \<Longrightarrow> co_run_inv c0 s'"
proof (induction rule: co_step.induct)
  case (co_commits q x nxt c fs r c' fs' h)
  from commit_outcome [OF co_commits(1)] co_commits(2) have "co_ok c' fs'" "co_committed c q x nxt c'" by auto
  from co_run_commit [OF co_commits(3,1) this] show ?case .
next
  case (co_crashes q x nxt c fs stop out c1 fs1 c2 fs2 h)
  from commit_crash_outcome [OF co_crashes(1), of stop] co_crashes(2,3)
  have r: "co_ok c2 fs2" "if stop = AfterPrepared then co_aborted c x c2 else co_committed c q x nxt c2" by auto
  show ?case
  proof (cases "stop = AfterPrepared")
    case True
    with r co_crashes(4) show ?thesis by (simp add: co_run_inv_def co_aborted_def)
  next
    case False
    with r co_run_commit [OF co_crashes(4,1) r(1)] show ?thesis by simp
  qed
next
  case (co_refuses c q e stop fs r c' fs' h)
  then have "journal_pending (co_journal c) = []" by (simp add: co_run_inv_def)
  from commit_start [OF this, of d q stop fs] co_refuses show ?case by (auto simp: co_run_inv_def)
next
  case (co_reopens c fs c' fs' h)
  then have "co_ok c fs" "journal_pending (co_journal c) = []" by (simp_all add: co_run_inv_def)
  then obtain c2 fs2 where "co_reopen d c fs = (Inr c2, fs2)" "co_ok c2 fs2" "dd_state (co_database c2) = dd_state (co_database c)"
    "co_trust c2 = co_trust c" "co_policies c2 = co_policies c" "co_journal c2 = co_journal c"
    by (rule finished_reopens [of c fs d])
  with co_reopens show ?case by (simp add: co_run_inv_def)
qed

interpretation co_run: invariant_system "co_initial c0" "co_step d" "co_run_inv c0" for c0 d
proof unfold_locales
  show "co_initial c0 s \<Longrightarrow> co_run_inv c0 s" for s by (auto simp: co_initial_def co_run_inv_def)
  show "co_step d s s' \<Longrightarrow> co_run_inv c0 s \<Longrightarrow> co_run_inv c0 s'" for s s' by (rule co_step_inv)
qed

text \<open>
  C6. The stores of the coordinator agree. A run starts with stores that agree with their files and
  with no pending transaction. Its steps are commits that are ready (\<open>commit_ready\<close>), such commits
  stopped at any of their stages and followed by reopening, requests that the preparation refuses,
  and reopenings. After every run there is one history of commits such that the database state is the
  initial one with the binding records of the history applied in order, the trust ledger is the
  initial one with its transitions appended in order, and each binding record names the record, the
  digest, the sequence number and the predecessor of its transition. Opening the files again gives
  the same database state, ledger, policies and journal.
\<close>

theorem co_stores_agree:
  assumes r: "reachable (co_initial c0) (co_step d) (c, fs, h)"
  shows "dd_state (co_database c) = operations_apply (map (binding_op \<circ> fst) h) (dd_state (co_database c0)) \<and>
     co_trust c = foldl ledger_push (co_trust c0) (map snd h) \<and> list_all binds h \<and>
     (\<exists>c' fs'. co_reopen d c fs = (Inr c', fs') \<and> dd_state (co_database c') = dd_state (co_database c) \<and>
        co_trust c' = co_trust c \<and> co_policies c' = co_policies c0 \<and> co_journal c' = co_journal c)"
proof -
  have i: "co_run_inv c0 (c, fs, h)" by (rule co_run.reachable_inv [OF r])
  then have "co_ok c fs" "journal_pending (co_journal c) = []" by (simp_all add: co_run_inv_def)
  then obtain c2 fs2 where "co_reopen d c fs = (Inr c2, fs2)" "dd_state (co_database c2) = dd_state (co_database c)"
    "co_trust c2 = co_trust c" "co_policies c2 = co_policies c" "co_journal c2 = co_journal c"
    by (rule finished_reopens [of c fs d])
  with i show ?thesis by (auto simp: co_run_inv_def)
qed

end
