(* ===== verification/Ub_Co_Hashes.thy ===== *)
theory Ub_Co_Hashes
  imports Ub_Coordinator Ub_Sha_Eval
begin

text \<open>
  The digests of a concrete run of the trust co-commit coordinator, computed block by block: of a
  record, a policy, two requests for it, their transactions and the states that they lead to.
\<close>

text \<open>The bytes of a binding record and of an entry of a database state.\<close>

definition entry_text :: "u64 \<Rightarrow> u64 \<Rightarrow> bytes \<Rightarrow> bytes \<Rightarrow> bytes \<Rightarrow> bytes" where
  "entry_text node n digest rid payload = u32_le (of_nat (length rid)) @ u32_le 0 @ u64_le node @ u64_le n @ digest @ rid @ payload"

lemma run_co_value_hash1: "sha_compress sha_init_h
   [118, 128, 0, 0, 0, 0, 0, 0, 0, 0, 0, 0, 0, 0, 0, 0,
    0, 0, 0, 0, 0, 0, 0, 0, 0, 0, 0, 0, 0, 0, 0, 0,
    0, 0, 0, 0, 0, 0, 0, 0, 0, 0, 0, 0, 0, 0, 0, 0,
    0, 0, 0, 0, 0, 0, 0, 0, 0, 0, 0, 0, 0, 0, 0, 8] =
   [0x4C94485E, 0x0C21AE6C, 0x41CE1DFE, 0x7B6BFACE, 0xEA5AB68E, 0x40A2476F, 0x50208E52, 0x6F506080]"
  by code_simp

text \<open>The digest of the value of the record.\<close>

definition run_co_value :: bytes where
  "run_co_value = [76, 148, 72, 94, 12, 33, 174, 108, 65, 206, 29, 254, 123, 107, 250, 206,
    234, 90, 182, 142, 64, 162, 71, 111, 80, 32, 142, 82, 111, 80, 96, 128]"

lemma run_co_value_blocks:
  "blocks64 (sha_pad (lit ''v'')) =
    [[118, 128, 0, 0, 0, 0, 0, 0, 0, 0, 0, 0, 0, 0, 0, 0,
    0, 0, 0, 0, 0, 0, 0, 0, 0, 0, 0, 0, 0, 0, 0, 0,
    0, 0, 0, 0, 0, 0, 0, 0, 0, 0, 0, 0, 0, 0, 0, 0,
    0, 0, 0, 0, 0, 0, 0, 0, 0, 0, 0, 0, 0, 0, 0, 8]]"
  by code_simp

lemma length_run_co_value [simp]: "length run_co_value = 32"
  by (simp add: run_co_value_def)

lemma run_co_value_digest: "sha256 (lit ''v'') = run_co_value"
  unfolding run_co_value_def
  by (rule sha256_by_blocks [OF _ run_co_value_blocks, unfolded foldl_Cons foldl_Nil run_co_value_hash1, OF _ refl])
    (simp add: usize_limit_def , code_simp)

lemma run_co_entry_hash1: "sha_compress sha_init_h
   [1, 0, 0, 0, 0, 0, 0, 0, 1, 0, 0, 0, 0, 0, 0, 0,
    1, 0, 0, 0, 0, 0, 0, 0, 76, 148, 72, 94, 12, 33, 174, 108,
    65, 206, 29, 254, 123, 107, 250, 206, 234, 90, 182, 142, 64, 162, 71, 111,
    80, 32, 142, 82, 111, 80, 96, 128, 114, 118, 128, 0, 0, 0, 0, 0] =
   [0x6A343539, 0xDF8A9008, 0xDAC57339, 0xEE587A57, 0x448FF5CF, 0xD9C13368, 0x185B782C, 0x797E2B5B]"
  by code_simp

lemma run_co_entry_hash2: "sha_compress [0x6A343539, 0xDF8A9008, 0xDAC57339, 0xEE587A57, 0x448FF5CF, 0xD9C13368, 0x185B782C, 0x797E2B5B]
   [0, 0, 0, 0, 0, 0, 0, 0, 0, 0, 0, 0, 0, 0, 0, 0,
    0, 0, 0, 0, 0, 0, 0, 0, 0, 0, 0, 0, 0, 0, 0, 0,
    0, 0, 0, 0, 0, 0, 0, 0, 0, 0, 0, 0, 0, 0, 0, 0,
    0, 0, 0, 0, 0, 0, 0, 0, 0, 0, 0, 0, 0, 0, 1, 208] =
   [0xC5B7C04D, 0x1F0E3EF5, 0x5D5C2694, 0x5DCF32AB, 0x4E318847, 0xEC1722DC, 0xB6D34846, 0x911807D3]"
  by code_simp

text \<open>The digest of the record as the state holds it.\<close>

definition run_co_entry :: bytes where
  "run_co_entry = [197, 183, 192, 77, 31, 14, 62, 245, 93, 92, 38, 148, 93, 207, 50, 171,
    78, 49, 136, 71, 236, 23, 34, 220, 182, 211, 72, 70, 145, 24, 7, 211]"

lemma run_co_entry_blocks:
  "blocks64 (sha_pad (entry_text 1 1 run_co_value (lit ''r'') (lit ''v''))) =
    [[1, 0, 0, 0, 0, 0, 0, 0, 1, 0, 0, 0, 0, 0, 0, 0,
    1, 0, 0, 0, 0, 0, 0, 0, 76, 148, 72, 94, 12, 33, 174, 108,
    65, 206, 29, 254, 123, 107, 250, 206, 234, 90, 182, 142, 64, 162, 71, 111,
    80, 32, 142, 82, 111, 80, 96, 128, 114, 118, 128, 0, 0, 0, 0, 0],
     [0, 0, 0, 0, 0, 0, 0, 0, 0, 0, 0, 0, 0, 0, 0, 0,
    0, 0, 0, 0, 0, 0, 0, 0, 0, 0, 0, 0, 0, 0, 0, 0,
    0, 0, 0, 0, 0, 0, 0, 0, 0, 0, 0, 0, 0, 0, 0, 0,
    0, 0, 0, 0, 0, 0, 0, 0, 0, 0, 0, 0, 0, 0, 1, 208]]"
  by code_simp

lemma length_run_co_entry [simp]: "length run_co_entry = 32"
  by (simp add: run_co_entry_def)

lemma run_co_entry_digest: "sha256 (entry_text 1 1 run_co_value (lit ''r'') (lit ''v'')) = run_co_entry"
  unfolding run_co_entry_def
  by (rule sha256_by_blocks [OF _ run_co_entry_blocks, unfolded foldl_Cons foldl_Nil run_co_entry_hash1 run_co_entry_hash2, OF _ refl])
    (simp add: usize_limit_def entry_text_def, code_simp)

lemma run_co_state_hash1: "sha_compress sha_init_h
   [85, 66, 83, 84, 65, 48, 49, 0, 1, 0, 0, 0, 0, 0, 0, 0,
    0, 0, 0, 0, 0, 0, 0, 0, 1, 0, 0, 0, 1, 0, 0, 0,
    0, 0, 0, 0, 58, 0, 0, 0, 0, 0, 0, 0, 197, 183, 192, 77,
    31, 14, 62, 245, 93, 92, 38, 148, 93, 207, 50, 171, 78, 49, 136, 71] =
   [0xE1BEF5F1, 0x38991125, 0x07F591A2, 0xEC4AA0BC, 0xEE4321E2, 0x17339287, 0xA0830C07, 0x6F37A238]"
  by code_simp

lemma run_co_state_hash2: "sha_compress [0xE1BEF5F1, 0x38991125, 0x07F591A2, 0xEC4AA0BC, 0xEE4321E2, 0x17339287, 0xA0830C07, 0x6F37A238]
   [236, 23, 34, 220, 182, 211, 72, 70, 145, 24, 7, 211, 1, 0, 0, 0,
    0, 0, 0, 0, 1, 0, 0, 0, 0, 0, 0, 0, 1, 0, 0, 0,
    0, 0, 0, 0, 76, 148, 72, 94, 12, 33, 174, 108, 65, 206, 29, 254,
    123, 107, 250, 206, 234, 90, 182, 142, 64, 162, 71, 111, 80, 32, 142, 82] =
   [0x1CFB80A5, 0xA9EABDA6, 0xC1AF6102, 0x9246264E, 0x256E5CF7, 0x32A96E08, 0xD47BA1B6, 0xD4C66E91]"
  by code_simp

lemma run_co_state_hash3: "sha_compress [0x1CFB80A5, 0xA9EABDA6, 0xC1AF6102, 0x9246264E, 0x256E5CF7, 0x32A96E08, 0xD47BA1B6, 0xD4C66E91]
   [111, 80, 96, 128, 114, 118, 128, 0, 0, 0, 0, 0, 0, 0, 0, 0,
    0, 0, 0, 0, 0, 0, 0, 0, 0, 0, 0, 0, 0, 0, 0, 0,
    0, 0, 0, 0, 0, 0, 0, 0, 0, 0, 0, 0, 0, 0, 0, 0,
    0, 0, 0, 0, 0, 0, 0, 0, 0, 0, 0, 0, 0, 0, 4, 48] =
   [0x6097FAB5, 0xBD3E3527, 0xD97F5FAE, 0xC605BF82, 0x4FDF5993, 0xCC3D6826, 0x94A7A779, 0x07C88EF0]"
  by code_simp

text \<open>The hash of the state.\<close>

definition run_co_state :: bytes where
  "run_co_state = [96, 151, 250, 181, 189, 62, 53, 39, 217, 127, 95, 174, 198, 5, 191, 130,
    79, 223, 89, 147, 204, 61, 104, 38, 148, 167, 167, 121, 7, 200, 142, 240]"

lemma run_co_state_blocks:
  "blocks64 (sha_pad (STATE_HASH_MAGIC @ u64_le 1 @ u64_le 0 @ u16_le 1 @ u16_le 0 @ u64_le 1 @ u64_le 58 @ run_co_entry @ entry_text 1 1 run_co_value (lit ''r'') (lit ''v''))) =
    [[85, 66, 83, 84, 65, 48, 49, 0, 1, 0, 0, 0, 0, 0, 0, 0,
    0, 0, 0, 0, 0, 0, 0, 0, 1, 0, 0, 0, 1, 0, 0, 0,
    0, 0, 0, 0, 58, 0, 0, 0, 0, 0, 0, 0, 197, 183, 192, 77,
    31, 14, 62, 245, 93, 92, 38, 148, 93, 207, 50, 171, 78, 49, 136, 71],
     [236, 23, 34, 220, 182, 211, 72, 70, 145, 24, 7, 211, 1, 0, 0, 0,
    0, 0, 0, 0, 1, 0, 0, 0, 0, 0, 0, 0, 1, 0, 0, 0,
    0, 0, 0, 0, 76, 148, 72, 94, 12, 33, 174, 108, 65, 206, 29, 254,
    123, 107, 250, 206, 234, 90, 182, 142, 64, 162, 71, 111, 80, 32, 142, 82],
     [111, 80, 96, 128, 114, 118, 128, 0, 0, 0, 0, 0, 0, 0, 0, 0,
    0, 0, 0, 0, 0, 0, 0, 0, 0, 0, 0, 0, 0, 0, 0, 0,
    0, 0, 0, 0, 0, 0, 0, 0, 0, 0, 0, 0, 0, 0, 0, 0,
    0, 0, 0, 0, 0, 0, 0, 0, 0, 0, 0, 0, 0, 0, 4, 48]]"
  by code_simp

lemma length_run_co_state [simp]: "length run_co_state = 32"
  by (simp add: run_co_state_def)

lemma run_co_state_digest: "sha256 (STATE_HASH_MAGIC @ u64_le 1 @ u64_le 0 @ u16_le 1 @ u16_le 0 @ u64_le 1 @ u64_le 58 @ run_co_entry @ entry_text 1 1 run_co_value (lit ''r'') (lit ''v'')) = run_co_state"
  unfolding run_co_state_def
  by (rule sha256_by_blocks [OF _ run_co_state_blocks, unfolded foldl_Cons foldl_Nil run_co_state_hash1 run_co_state_hash2 run_co_state_hash3, OF _ refl])
    (simp add: usize_limit_def STATE_HASH_MAGIC_def entry_text_def, code_simp)

lemma run_co_record_hash1: "sha_compress sha_init_h
   [85, 66, 84, 82, 82, 69, 67, 49, 1, 0, 0, 0, 0, 0, 0, 0,
    1, 0, 0, 0, 114, 1, 0, 0, 0, 0, 0, 0, 0, 1, 0, 0,
    0, 0, 0, 0, 0, 76, 148, 72, 94, 12, 33, 174, 108, 65, 206, 29,
    254, 123, 107, 250, 206, 234, 90, 182, 142, 64, 162, 71, 111, 80, 32, 142] =
   [0xE62E1C84, 0xA981F742, 0xFD93B75B, 0x090B7F66, 0xA7A9914F, 0xB2B33F66, 0x8B206B80, 0xD95AA6FF]"
  by code_simp

lemma run_co_record_hash2: "sha_compress [0xE62E1C84, 0xA981F742, 0xFD93B75B, 0x090B7F66, 0xA7A9914F, 0xB2B33F66, 0x8B206B80, 0xD95AA6FF]
   [82, 111, 80, 96, 128, 118, 128, 0, 0, 0, 0, 0, 0, 0, 0, 0,
    0, 0, 0, 0, 0, 0, 0, 0, 0, 0, 0, 0, 0, 0, 0, 0,
    0, 0, 0, 0, 0, 0, 0, 0, 0, 0, 0, 0, 0, 0, 0, 0,
    0, 0, 0, 0, 0, 0, 0, 0, 0, 0, 0, 0, 0, 0, 2, 48] =
   [0x1420EF80, 0xE328A765, 0x8B03B4C8, 0x71E687A4, 0x87ECFADC, 0x95F71C81, 0x847C7086, 0x30C560C7]"
  by code_simp

text \<open>The canonical digest of the record.\<close>

definition run_co_record :: bytes where
  "run_co_record = [20, 32, 239, 128, 227, 40, 167, 101, 139, 3, 180, 200, 113, 230, 135, 164,
    135, 236, 250, 220, 149, 247, 28, 129, 132, 124, 112, 134, 48, 197, 96, 199]"

lemma run_co_record_blocks:
  "blocks64 (sha_pad (RECORD_DIGEST_DOMAIN @ u64_le 1 @ u32_le 1 @ lit ''r'' @ u64_le 1 @ u64_le 1 @ run_co_value @ lit ''v'')) =
    [[85, 66, 84, 82, 82, 69, 67, 49, 1, 0, 0, 0, 0, 0, 0, 0,
    1, 0, 0, 0, 114, 1, 0, 0, 0, 0, 0, 0, 0, 1, 0, 0,
    0, 0, 0, 0, 0, 76, 148, 72, 94, 12, 33, 174, 108, 65, 206, 29,
    254, 123, 107, 250, 206, 234, 90, 182, 142, 64, 162, 71, 111, 80, 32, 142],
     [82, 111, 80, 96, 128, 118, 128, 0, 0, 0, 0, 0, 0, 0, 0, 0,
    0, 0, 0, 0, 0, 0, 0, 0, 0, 0, 0, 0, 0, 0, 0, 0,
    0, 0, 0, 0, 0, 0, 0, 0, 0, 0, 0, 0, 0, 0, 0, 0,
    0, 0, 0, 0, 0, 0, 0, 0, 0, 0, 0, 0, 0, 0, 2, 48]]"
  by code_simp

lemma length_run_co_record [simp]: "length run_co_record = 32"
  by (simp add: run_co_record_def)

lemma run_co_record_digest: "sha256 (RECORD_DIGEST_DOMAIN @ u64_le 1 @ u32_le 1 @ lit ''r'' @ u64_le 1 @ u64_le 1 @ run_co_value @ lit ''v'') = run_co_record"
  unfolding run_co_record_def
  by (rule sha256_by_blocks [OF _ run_co_record_blocks, unfolded foldl_Cons foldl_Nil run_co_record_hash1 run_co_record_hash2, OF _ refl])
    (simp add: usize_limit_def RECORD_DIGEST_DOMAIN_def, code_simp)

lemma run_co_policy_hash1: "sha_compress sha_init_h
   [85, 66, 84, 82, 80, 79, 76, 49, 43, 0, 0, 0, 0, 0, 0, 0,
    85, 66, 80, 89, 80, 48, 49, 0, 1, 0, 63, 0, 1, 0, 0, 0,
    1, 0, 0, 0, 1, 0, 0, 0, 1, 0, 0, 0, 1, 0, 0, 0,
    0, 0, 0, 0, 0, 0, 0, 0, 112, 49, 97, 128, 0, 0, 0, 0] =
   [0x1E1717E1, 0xAD74F111, 0xD4D2152D, 0x6F0844D1, 0x9D02E9D8, 0xE5874C2F, 0xFC191594, 0x375CD840]"
  by code_simp

lemma run_co_policy_hash2: "sha_compress [0x1E1717E1, 0xAD74F111, 0xD4D2152D, 0x6F0844D1, 0x9D02E9D8, 0xE5874C2F, 0xFC191594, 0x375CD840]
   [0, 0, 0, 0, 0, 0, 0, 0, 0, 0, 0, 0, 0, 0, 0, 0,
    0, 0, 0, 0, 0, 0, 0, 0, 0, 0, 0, 0, 0, 0, 0, 0,
    0, 0, 0, 0, 0, 0, 0, 0, 0, 0, 0, 0, 0, 0, 0, 0,
    0, 0, 0, 0, 0, 0, 0, 0, 0, 0, 0, 0, 0, 0, 1, 216] =
   [0x72B0D787, 0xB0AEF73D, 0x2501DA3B, 0xBEF7018E, 0x25A4924B, 0xA51CC046, 0xB0A8BB32, 0x63A9EA98]"
  by code_simp

text \<open>The digest of the policy.\<close>

definition run_co_policy :: bytes where
  "run_co_policy = [114, 176, 215, 135, 176, 174, 247, 61, 37, 1, 218, 59, 190, 247, 1, 142,
    37, 164, 146, 75, 165, 28, 192, 70, 176, 168, 187, 50, 99, 169, 234, 152]"

lemma run_co_policy_blocks:
  "blocks64 (sha_pad (POLICY_DIGEST_DOMAIN @ u64_le 43 @ POLICY_PAYLOAD_MAGIC @ [1, 0] @ u16_le 63 @ u32_le 1 @ u32_le 1
     @ u32_le 1 @ u32_le 1 @ u32_le 1 @ u32_le 0 @ u32_le 0 @ lit ''p'' @ lit ''1'' @ lit ''a'')) =
    [[85, 66, 84, 82, 80, 79, 76, 49, 43, 0, 0, 0, 0, 0, 0, 0,
    85, 66, 80, 89, 80, 48, 49, 0, 1, 0, 63, 0, 1, 0, 0, 0,
    1, 0, 0, 0, 1, 0, 0, 0, 1, 0, 0, 0, 1, 0, 0, 0,
    0, 0, 0, 0, 0, 0, 0, 0, 112, 49, 97, 128, 0, 0, 0, 0],
     [0, 0, 0, 0, 0, 0, 0, 0, 0, 0, 0, 0, 0, 0, 0, 0,
    0, 0, 0, 0, 0, 0, 0, 0, 0, 0, 0, 0, 0, 0, 0, 0,
    0, 0, 0, 0, 0, 0, 0, 0, 0, 0, 0, 0, 0, 0, 0, 0,
    0, 0, 0, 0, 0, 0, 0, 0, 0, 0, 0, 0, 0, 0, 1, 216]]"
  by code_simp

lemma length_run_co_policy [simp]: "length run_co_policy = 32"
  by (simp add: run_co_policy_def)

lemma run_co_policy_digest: "sha256 (POLICY_DIGEST_DOMAIN @ u64_le 43 @ POLICY_PAYLOAD_MAGIC @ [1, 0] @ u16_le 63 @ u32_le 1 @ u32_le 1
     @ u32_le 1 @ u32_le 1 @ u32_le 1 @ u32_le 0 @ u32_le 0 @ lit ''p'' @ lit ''1'' @ lit ''a'') = run_co_policy"
  unfolding run_co_policy_def
  by (rule sha256_by_blocks [OF _ run_co_policy_blocks, unfolded foldl_Cons foldl_Nil run_co_policy_hash1 run_co_policy_hash2, OF _ refl])
    (simp add: usize_limit_def POLICY_DIGEST_DOMAIN_def POLICY_PAYLOAD_MAGIC_def, code_simp)

definition binding_text :: "bytes \<Rightarrow> bytes \<Rightarrow> bytes" where
  "binding_text tx digest = BINDING_PAYLOAD_MAGIC @ tx @ run_co_record @ run_co_policy @ digest @ replicate 32 0
     @ u64_le 1 @ u64_le 1 @ u32_le 1 @ u32_le 0 @ lit ''r''"

lemma run_co_propose_request_hash1: "sha_compress sha_init_h
   [85, 66, 84, 82, 82, 69, 81, 49, 1, 1, 0, 0, 0, 0, 0, 0,
    1, 0, 0, 0, 114, 1, 0, 0, 0, 112, 1, 0, 0, 0, 49, 1,
    0, 0, 0, 97, 1, 0, 0, 0, 110, 0, 0, 0, 0, 0, 0, 0,
    0, 1, 0, 0, 0, 0, 0, 0, 0, 1, 0, 0, 0, 1, 0, 0] =
   [0x297812AC, 0x41FFB4C5, 0x7C2830CA, 0x01906A52, 0xB5DB01E1, 0xA330F7B3, 0xDF31010C, 0xA98BEBDC]"
  by code_simp

lemma run_co_propose_request_hash2: "sha_compress [0x297812AC, 0x41FFB4C5, 0x7C2830CA, 0x01906A52, 0xB5DB01E1, 0xA330F7B3, 0xDF31010C, 0xA98BEBDC]
   [0, 101, 1, 0, 0, 0, 119, 5, 5, 5, 5, 5, 5, 5, 5, 5,
    5, 5, 5, 5, 5, 5, 5, 5, 5, 5, 5, 5, 5, 5, 5, 5,
    5, 5, 5, 5, 5, 5, 5, 128, 0, 0, 0, 0, 0, 0, 0, 0,
    0, 0, 0, 0, 0, 0, 0, 0, 0, 0, 0, 0, 0, 0, 3, 56] =
   [0x7F6C62D1, 0x1C246005, 0x7A249CB9, 0x1CC4AE44, 0x04AA5DAD, 0xB92AC5E2, 0xDA581CD0, 0x37545D2A]"
  by code_simp

text \<open>The digest of the request.\<close>

definition run_co_propose_request :: bytes where
  "run_co_propose_request = [127, 108, 98, 209, 28, 36, 96, 5, 122, 36, 156, 185, 28, 196, 174, 68,
    4, 170, 93, 173, 185, 42, 197, 226, 218, 88, 28, 208, 55, 84, 93, 42]"

lemma run_co_propose_request_blocks:
  "blocks64 (sha_pad (REQUEST_DIGEST_DOMAIN @ [1, 1] @ replicate 6 0 @ u32_le 1 @ lit ''r'' @ u32_le 1 @ lit ''p'' @ u32_le 1 @ lit ''1''
     @ u32_le 1 @ lit ''a'' @ u32_le 1 @ lit ''n'' @ [0] @ replicate 3 0 @ u32_le 0 @ u64_le 1 @ u32_le 1
     @ u32_le 1 @ lit ''e'' @ u32_le 1 @ lit ''w'' @ replicate 32 5)) =
    [[85, 66, 84, 82, 82, 69, 81, 49, 1, 1, 0, 0, 0, 0, 0, 0,
    1, 0, 0, 0, 114, 1, 0, 0, 0, 112, 1, 0, 0, 0, 49, 1,
    0, 0, 0, 97, 1, 0, 0, 0, 110, 0, 0, 0, 0, 0, 0, 0,
    0, 1, 0, 0, 0, 0, 0, 0, 0, 1, 0, 0, 0, 1, 0, 0],
     [0, 101, 1, 0, 0, 0, 119, 5, 5, 5, 5, 5, 5, 5, 5, 5,
    5, 5, 5, 5, 5, 5, 5, 5, 5, 5, 5, 5, 5, 5, 5, 5,
    5, 5, 5, 5, 5, 5, 5, 128, 0, 0, 0, 0, 0, 0, 0, 0,
    0, 0, 0, 0, 0, 0, 0, 0, 0, 0, 0, 0, 0, 0, 3, 56]]"
  by code_simp

lemma length_run_co_propose_request [simp]: "length run_co_propose_request = 32"
  by (simp add: run_co_propose_request_def)

lemma run_co_propose_request_digest: "sha256 (REQUEST_DIGEST_DOMAIN @ [1, 1] @ replicate 6 0 @ u32_le 1 @ lit ''r'' @ u32_le 1 @ lit ''p'' @ u32_le 1 @ lit ''1''
     @ u32_le 1 @ lit ''a'' @ u32_le 1 @ lit ''n'' @ [0] @ replicate 3 0 @ u32_le 0 @ u64_le 1 @ u32_le 1
     @ u32_le 1 @ lit ''e'' @ u32_le 1 @ lit ''w'' @ replicate 32 5) = run_co_propose_request"
  unfolding run_co_propose_request_def
  by (rule sha256_by_blocks [OF _ run_co_propose_request_blocks, unfolded foldl_Cons foldl_Nil run_co_propose_request_hash1 run_co_propose_request_hash2, OF _ refl])
    (simp add: usize_limit_def REQUEST_DIGEST_DOMAIN_def, code_simp)

lemma run_co_propose_tx_hash1: "sha_compress sha_init_h
   [85, 66, 84, 82, 84, 88, 78, 49, 96, 151, 250, 181, 189, 62, 53, 39,
    217, 127, 95, 174, 198, 5, 191, 130, 79, 223, 89, 147, 204, 61, 104, 38,
    148, 167, 167, 121, 7, 200, 142, 240, 0, 0, 0, 0, 0, 0, 0, 0,
    0, 0, 0, 0, 0, 0, 0, 0, 0, 0, 0, 0, 0, 0, 0, 0] =
   [0xB1ECF057, 0xC24BFB3B, 0x37DD00C5, 0x3C53C9A5, 0x8730FB69, 0x3F975BB5, 0x1150D56F, 0xD5B2B492]"
  by code_simp

lemma run_co_propose_tx_hash2: "sha_compress [0xB1ECF057, 0xC24BFB3B, 0x37DD00C5, 0x3C53C9A5, 0x8730FB69, 0x3F975BB5, 0x1150D56F, 0xD5B2B492]
   [0, 0, 0, 0, 0, 0, 0, 0, 114, 176, 215, 135, 176, 174, 247, 61,
    37, 1, 218, 59, 190, 247, 1, 142, 37, 164, 146, 75, 165, 28, 192, 70,
    176, 168, 187, 50, 99, 169, 234, 152, 20, 32, 239, 128, 227, 40, 167, 101,
    139, 3, 180, 200, 113, 230, 135, 164, 135, 236, 250, 220, 149, 247, 28, 129] =
   [0x43503B32, 0xBE7141DD, 0x0D5F60E0, 0x09269F25, 0x4A8FA256, 0xA24EC0DA, 0x6D8EC9C2, 0x2F7D648D]"
  by code_simp

lemma run_co_propose_tx_hash3: "sha_compress [0x43503B32, 0xBE7141DD, 0x0D5F60E0, 0x09269F25, 0x4A8FA256, 0xA24EC0DA, 0x6D8EC9C2, 0x2F7D648D]
   [132, 124, 112, 134, 48, 197, 96, 199, 127, 108, 98, 209, 28, 36, 96, 5,
    122, 36, 156, 185, 28, 196, 174, 68, 4, 170, 93, 173, 185, 42, 197, 226,
    218, 88, 28, 208, 55, 84, 93, 42, 1, 0, 0, 0, 0, 0, 0, 0,
    128, 0, 0, 0, 0, 0, 0, 0, 0, 0, 0, 0, 0, 0, 5, 128] =
   [0x6F46FBCE, 0x78AA575D, 0x766F26E0, 0x887023F5, 0x2C2DC631, 0xBBC54FA6, 0x6407E274, 0x0A3439B1]"
  by code_simp

text \<open>The id of the transaction.\<close>

definition run_co_propose_tx :: bytes where
  "run_co_propose_tx = [111, 70, 251, 206, 120, 170, 87, 93, 118, 111, 38, 224, 136, 112, 35, 245,
    44, 45, 198, 49, 187, 197, 79, 166, 100, 7, 226, 116, 10, 52, 57, 177]"

lemma run_co_propose_tx_blocks:
  "blocks64 (sha_pad (TRANSACTION_ID_DOMAIN @ run_co_state @ replicate 32 0 @ run_co_policy @ run_co_record
     @ run_co_propose_request @ u64_le 1)) =
    [[85, 66, 84, 82, 84, 88, 78, 49, 96, 151, 250, 181, 189, 62, 53, 39,
    217, 127, 95, 174, 198, 5, 191, 130, 79, 223, 89, 147, 204, 61, 104, 38,
    148, 167, 167, 121, 7, 200, 142, 240, 0, 0, 0, 0, 0, 0, 0, 0,
    0, 0, 0, 0, 0, 0, 0, 0, 0, 0, 0, 0, 0, 0, 0, 0],
     [0, 0, 0, 0, 0, 0, 0, 0, 114, 176, 215, 135, 176, 174, 247, 61,
    37, 1, 218, 59, 190, 247, 1, 142, 37, 164, 146, 75, 165, 28, 192, 70,
    176, 168, 187, 50, 99, 169, 234, 152, 20, 32, 239, 128, 227, 40, 167, 101,
    139, 3, 180, 200, 113, 230, 135, 164, 135, 236, 250, 220, 149, 247, 28, 129],
     [132, 124, 112, 134, 48, 197, 96, 199, 127, 108, 98, 209, 28, 36, 96, 5,
    122, 36, 156, 185, 28, 196, 174, 68, 4, 170, 93, 173, 185, 42, 197, 226,
    218, 88, 28, 208, 55, 84, 93, 42, 1, 0, 0, 0, 0, 0, 0, 0,
    128, 0, 0, 0, 0, 0, 0, 0, 0, 0, 0, 0, 0, 0, 5, 128]]"
  by code_simp

lemma length_run_co_propose_tx [simp]: "length run_co_propose_tx = 32"
  by (simp add: run_co_propose_tx_def)

lemma run_co_propose_tx_digest: "sha256 (TRANSACTION_ID_DOMAIN @ run_co_state @ replicate 32 0 @ run_co_policy @ run_co_record
     @ run_co_propose_request @ u64_le 1) = run_co_propose_tx"
  unfolding run_co_propose_tx_def
  by (rule sha256_by_blocks [OF _ run_co_propose_tx_blocks, unfolded foldl_Cons foldl_Nil run_co_propose_tx_hash1 run_co_propose_tx_hash2 run_co_propose_tx_hash3, OF _ refl])
    (simp add: usize_limit_def TRANSACTION_ID_DOMAIN_def, code_simp)

lemma run_co_propose_binding_hash1: "sha_compress sha_init_h
   [85, 66, 84, 66, 68, 48, 49, 0, 111, 70, 251, 206, 120, 170, 87, 93,
    118, 111, 38, 224, 136, 112, 35, 245, 44, 45, 198, 49, 187, 197, 79, 166,
    100, 7, 226, 116, 10, 52, 57, 177, 20, 32, 239, 128, 227, 40, 167, 101,
    139, 3, 180, 200, 113, 230, 135, 164, 135, 236, 250, 220, 149, 247, 28, 129] =
   [0x951B1381, 0x9357C38E, 0xC7C8983F, 0x78D6E920, 0x52D3E0F8, 0xE9DD631D, 0x747867EF, 0x7984174F]"
  by code_simp

lemma run_co_propose_binding_hash2: "sha_compress [0x951B1381, 0x9357C38E, 0xC7C8983F, 0x78D6E920, 0x52D3E0F8, 0xE9DD631D, 0x747867EF, 0x7984174F]
   [132, 124, 112, 134, 48, 197, 96, 199, 114, 176, 215, 135, 176, 174, 247, 61,
    37, 1, 218, 59, 190, 247, 1, 142, 37, 164, 146, 75, 165, 28, 192, 70,
    176, 168, 187, 50, 99, 169, 234, 152, 127, 108, 98, 209, 28, 36, 96, 5,
    122, 36, 156, 185, 28, 196, 174, 68, 4, 170, 93, 173, 185, 42, 197, 226] =
   [0x62B2AFCD, 0x69F06B82, 0x9D5E79F1, 0x50FBF6A1, 0x327C8F2A, 0x61282DB7, 0x1FC312C4, 0xA2C01CB2]"
  by code_simp

lemma run_co_propose_binding_hash3: "sha_compress [0x62B2AFCD, 0x69F06B82, 0x9D5E79F1, 0x50FBF6A1, 0x327C8F2A, 0x61282DB7, 0x1FC312C4, 0xA2C01CB2]
   [218, 88, 28, 208, 55, 84, 93, 42, 0, 0, 0, 0, 0, 0, 0, 0,
    0, 0, 0, 0, 0, 0, 0, 0, 0, 0, 0, 0, 0, 0, 0, 0,
    0, 0, 0, 0, 0, 0, 0, 0, 1, 0, 0, 0, 0, 0, 0, 0,
    1, 0, 0, 0, 0, 0, 0, 0, 1, 0, 0, 0, 0, 0, 0, 0] =
   [0x230EE37F, 0x722DAFB9, 0x9A518872, 0xFB1B72CE, 0x73A99B80, 0x371FD97F, 0xC0A5AC27, 0x98590ECD]"
  by code_simp

lemma run_co_propose_binding_hash4: "sha_compress [0x230EE37F, 0x722DAFB9, 0x9A518872, 0xFB1B72CE, 0x73A99B80, 0x371FD97F, 0xC0A5AC27, 0x98590ECD]
   [114, 128, 0, 0, 0, 0, 0, 0, 0, 0, 0, 0, 0, 0, 0, 0,
    0, 0, 0, 0, 0, 0, 0, 0, 0, 0, 0, 0, 0, 0, 0, 0,
    0, 0, 0, 0, 0, 0, 0, 0, 0, 0, 0, 0, 0, 0, 0, 0,
    0, 0, 0, 0, 0, 0, 0, 0, 0, 0, 0, 0, 0, 0, 6, 8] =
   [0x19C70BD7, 0x06C5872C, 0x48DC29EB, 0xC7D0D7B9, 0xBE76B722, 0xE7EAD806, 0xEC2F1739, 0x4CC6CDF4]"
  by code_simp

text \<open>The digest of the payload of the binding record.\<close>

definition run_co_propose_binding :: bytes where
  "run_co_propose_binding = [25, 199, 11, 215, 6, 197, 135, 44, 72, 220, 41, 235, 199, 208, 215, 185,
    190, 118, 183, 34, 231, 234, 216, 6, 236, 47, 23, 57, 76, 198, 205, 244]"

lemma run_co_propose_binding_blocks:
  "blocks64 (sha_pad (binding_text run_co_propose_tx run_co_propose_request)) =
    [[85, 66, 84, 66, 68, 48, 49, 0, 111, 70, 251, 206, 120, 170, 87, 93,
    118, 111, 38, 224, 136, 112, 35, 245, 44, 45, 198, 49, 187, 197, 79, 166,
    100, 7, 226, 116, 10, 52, 57, 177, 20, 32, 239, 128, 227, 40, 167, 101,
    139, 3, 180, 200, 113, 230, 135, 164, 135, 236, 250, 220, 149, 247, 28, 129],
     [132, 124, 112, 134, 48, 197, 96, 199, 114, 176, 215, 135, 176, 174, 247, 61,
    37, 1, 218, 59, 190, 247, 1, 142, 37, 164, 146, 75, 165, 28, 192, 70,
    176, 168, 187, 50, 99, 169, 234, 152, 127, 108, 98, 209, 28, 36, 96, 5,
    122, 36, 156, 185, 28, 196, 174, 68, 4, 170, 93, 173, 185, 42, 197, 226],
     [218, 88, 28, 208, 55, 84, 93, 42, 0, 0, 0, 0, 0, 0, 0, 0,
    0, 0, 0, 0, 0, 0, 0, 0, 0, 0, 0, 0, 0, 0, 0, 0,
    0, 0, 0, 0, 0, 0, 0, 0, 1, 0, 0, 0, 0, 0, 0, 0,
    1, 0, 0, 0, 0, 0, 0, 0, 1, 0, 0, 0, 0, 0, 0, 0],
     [114, 128, 0, 0, 0, 0, 0, 0, 0, 0, 0, 0, 0, 0, 0, 0,
    0, 0, 0, 0, 0, 0, 0, 0, 0, 0, 0, 0, 0, 0, 0, 0,
    0, 0, 0, 0, 0, 0, 0, 0, 0, 0, 0, 0, 0, 0, 0, 0,
    0, 0, 0, 0, 0, 0, 0, 0, 0, 0, 0, 0, 0, 0, 6, 8]]"
  by code_simp

lemma length_run_co_propose_binding [simp]: "length run_co_propose_binding = 32"
  by (simp add: run_co_propose_binding_def)

lemma run_co_propose_binding_digest: "sha256 (binding_text run_co_propose_tx run_co_propose_request) = run_co_propose_binding"
  unfolding run_co_propose_binding_def
  by (rule sha256_by_blocks [OF _ run_co_propose_binding_blocks, unfolded foldl_Cons foldl_Nil run_co_propose_binding_hash1 run_co_propose_binding_hash2 run_co_propose_binding_hash3 run_co_propose_binding_hash4, OF _ refl])
    (simp add: usize_limit_def binding_text_def BINDING_PAYLOAD_MAGIC_def, code_simp)

lemma run_co_propose_numbers:
  "nonzero_u64 (slice run_co_propose_tx 16 24) = 11984014541240806700" "nonzero_u64 (slice run_co_propose_tx 24 32) = 12770295437901039460"
  by code_simp+

lemma run_co_propose_entry_hash1: "sha_compress sha_init_h
   [87, 0, 0, 0, 0, 0, 0, 0, 100, 7, 226, 116, 10, 52, 57, 177,
    193, 0, 0, 0, 0, 0, 0, 0, 25, 199, 11, 215, 6, 197, 135, 44,
    72, 220, 41, 235, 199, 208, 215, 185, 190, 118, 183, 34, 231, 234, 216, 6,
    236, 47, 23, 57, 76, 198, 205, 244, 95, 95, 117, 98, 100, 98, 95, 116] =
   [0x00528717, 0x4E882256, 0x24E85A96, 0x3858A449, 0x74B5529E, 0xEADA363A, 0x2F5AB859, 0x6485FED2]"
  by code_simp

lemma run_co_propose_entry_hash2: "sha_compress [0x00528717, 0x4E882256, 0x24E85A96, 0x3858A449, 0x74B5529E, 0xEADA363A, 0x2F5AB859, 0x6485FED2]
   [114, 117, 115, 116, 95, 98, 105, 110, 100, 105, 110, 103, 95, 95, 47, 54,
    70, 52, 54, 70, 66, 67, 69, 55, 56, 65, 65, 53, 55, 53, 68, 55,
    54, 54, 70, 50, 54, 69, 48, 56, 56, 55, 48, 50, 51, 70, 53, 50,
    67, 50, 68, 67, 54, 51, 49, 66, 66, 67, 53, 52, 70, 65, 54, 54] =
   [0x1A50756A, 0x719D07E5, 0x902C801A, 0x41875498, 0xCB88BEEB, 0x1153884E, 0x186A305E, 0xD36E3201]"
  by code_simp

lemma run_co_propose_entry_hash3: "sha_compress [0x1A50756A, 0x719D07E5, 0x902C801A, 0x41875498, 0xCB88BEEB, 0x1153884E, 0x186A305E, 0xD36E3201]
   [52, 48, 55, 69, 50, 55, 52, 48, 65, 51, 52, 51, 57, 66, 49, 85,
    66, 84, 66, 68, 48, 49, 0, 111, 70, 251, 206, 120, 170, 87, 93, 118,
    111, 38, 224, 136, 112, 35, 245, 44, 45, 198, 49, 187, 197, 79, 166, 100,
    7, 226, 116, 10, 52, 57, 177, 20, 32, 239, 128, 227, 40, 167, 101, 139] =
   [0x1D61E725, 0x96CE0119, 0xFD70935C, 0x1CC5FE60, 0xB3D63F91, 0xEEFFC97B, 0x410DE70F, 0x559E1A38]"
  by code_simp

lemma run_co_propose_entry_hash4: "sha_compress [0x1D61E725, 0x96CE0119, 0xFD70935C, 0x1CC5FE60, 0xB3D63F91, 0xEEFFC97B, 0x410DE70F, 0x559E1A38]
   [3, 180, 200, 113, 230, 135, 164, 135, 236, 250, 220, 149, 247, 28, 129, 132,
    124, 112, 134, 48, 197, 96, 199, 114, 176, 215, 135, 176, 174, 247, 61, 37,
    1, 218, 59, 190, 247, 1, 142, 37, 164, 146, 75, 165, 28, 192, 70, 176,
    168, 187, 50, 99, 169, 234, 152, 127, 108, 98, 209, 28, 36, 96, 5, 122] =
   [0x8FD9A159, 0x1DBA87B7, 0xDF6B1634, 0xCA6C44B0, 0x011B9BC1, 0x4C6CA84A, 0x5EEA532E, 0x51548B54]"
  by code_simp

lemma run_co_propose_entry_hash5: "sha_compress [0x8FD9A159, 0x1DBA87B7, 0xDF6B1634, 0xCA6C44B0, 0x011B9BC1, 0x4C6CA84A, 0x5EEA532E, 0x51548B54]
   [36, 156, 185, 28, 196, 174, 68, 4, 170, 93, 173, 185, 42, 197, 226, 218,
    88, 28, 208, 55, 84, 93, 42, 0, 0, 0, 0, 0, 0, 0, 0, 0,
    0, 0, 0, 0, 0, 0, 0, 0, 0, 0, 0, 0, 0, 0, 0, 0,
    0, 0, 0, 0, 0, 0, 0, 1, 0, 0, 0, 0, 0, 0, 0, 1] =
   [0xA91CBB79, 0x00B48725, 0x067AF74E, 0x5DF02245, 0xEB7A7C17, 0x2DD488E1, 0x86A937EA, 0x7909CE5F]"
  by code_simp

lemma run_co_propose_entry_hash6: "sha_compress [0xA91CBB79, 0x00B48725, 0x067AF74E, 0x5DF02245, 0xEB7A7C17, 0x2DD488E1, 0x86A937EA, 0x7909CE5F]
   [0, 0, 0, 0, 0, 0, 0, 1, 0, 0, 0, 0, 0, 0, 0, 114,
    128, 0, 0, 0, 0, 0, 0, 0, 0, 0, 0, 0, 0, 0, 0, 0,
    0, 0, 0, 0, 0, 0, 0, 0, 0, 0, 0, 0, 0, 0, 0, 0,
    0, 0, 0, 0, 0, 0, 0, 0, 0, 0, 0, 0, 0, 0, 10, 128] =
   [0x2B87B51E, 0x5375FE91, 0x7FB904C2, 0x7A17147B, 0x0A23846E, 0x7F01BA8A, 0x2D19E27B, 0x57B9CEC2]"
  by code_simp

text \<open>The digest of the binding record as the state holds it.\<close>

definition run_co_propose_entry :: bytes where
  "run_co_propose_entry = [43, 135, 181, 30, 83, 117, 254, 145, 127, 185, 4, 194, 122, 23, 20, 123,
    10, 35, 132, 110, 127, 1, 186, 138, 45, 25, 226, 123, 87, 185, 206, 194]"

lemma run_co_propose_entry_blocks:
  "blocks64 (sha_pad (entry_text 12770295437901039460 193 run_co_propose_binding (BINDING_RECORD_PREFIX @ hex_digest run_co_propose_tx)
     (binding_text run_co_propose_tx run_co_propose_request))) =
    [[87, 0, 0, 0, 0, 0, 0, 0, 100, 7, 226, 116, 10, 52, 57, 177,
    193, 0, 0, 0, 0, 0, 0, 0, 25, 199, 11, 215, 6, 197, 135, 44,
    72, 220, 41, 235, 199, 208, 215, 185, 190, 118, 183, 34, 231, 234, 216, 6,
    236, 47, 23, 57, 76, 198, 205, 244, 95, 95, 117, 98, 100, 98, 95, 116],
     [114, 117, 115, 116, 95, 98, 105, 110, 100, 105, 110, 103, 95, 95, 47, 54,
    70, 52, 54, 70, 66, 67, 69, 55, 56, 65, 65, 53, 55, 53, 68, 55,
    54, 54, 70, 50, 54, 69, 48, 56, 56, 55, 48, 50, 51, 70, 53, 50,
    67, 50, 68, 67, 54, 51, 49, 66, 66, 67, 53, 52, 70, 65, 54, 54],
     [52, 48, 55, 69, 50, 55, 52, 48, 65, 51, 52, 51, 57, 66, 49, 85,
    66, 84, 66, 68, 48, 49, 0, 111, 70, 251, 206, 120, 170, 87, 93, 118,
    111, 38, 224, 136, 112, 35, 245, 44, 45, 198, 49, 187, 197, 79, 166, 100,
    7, 226, 116, 10, 52, 57, 177, 20, 32, 239, 128, 227, 40, 167, 101, 139],
     [3, 180, 200, 113, 230, 135, 164, 135, 236, 250, 220, 149, 247, 28, 129, 132,
    124, 112, 134, 48, 197, 96, 199, 114, 176, 215, 135, 176, 174, 247, 61, 37,
    1, 218, 59, 190, 247, 1, 142, 37, 164, 146, 75, 165, 28, 192, 70, 176,
    168, 187, 50, 99, 169, 234, 152, 127, 108, 98, 209, 28, 36, 96, 5, 122],
     [36, 156, 185, 28, 196, 174, 68, 4, 170, 93, 173, 185, 42, 197, 226, 218,
    88, 28, 208, 55, 84, 93, 42, 0, 0, 0, 0, 0, 0, 0, 0, 0,
    0, 0, 0, 0, 0, 0, 0, 0, 0, 0, 0, 0, 0, 0, 0, 0,
    0, 0, 0, 0, 0, 0, 0, 1, 0, 0, 0, 0, 0, 0, 0, 1],
     [0, 0, 0, 0, 0, 0, 0, 1, 0, 0, 0, 0, 0, 0, 0, 114,
    128, 0, 0, 0, 0, 0, 0, 0, 0, 0, 0, 0, 0, 0, 0, 0,
    0, 0, 0, 0, 0, 0, 0, 0, 0, 0, 0, 0, 0, 0, 0, 0,
    0, 0, 0, 0, 0, 0, 0, 0, 0, 0, 0, 0, 0, 0, 10, 128]]"
  by code_simp

lemma length_run_co_propose_entry [simp]: "length run_co_propose_entry = 32"
  by (simp add: run_co_propose_entry_def)

lemma run_co_propose_entry_digest: "sha256 (entry_text 12770295437901039460 193 run_co_propose_binding (BINDING_RECORD_PREFIX @ hex_digest run_co_propose_tx)
     (binding_text run_co_propose_tx run_co_propose_request)) = run_co_propose_entry"
  unfolding run_co_propose_entry_def
  by (rule sha256_by_blocks [OF _ run_co_propose_entry_blocks, unfolded foldl_Cons foldl_Nil run_co_propose_entry_hash1 run_co_propose_entry_hash2 run_co_propose_entry_hash3 run_co_propose_entry_hash4 run_co_propose_entry_hash5 run_co_propose_entry_hash6, OF _ refl])
    (simp add: usize_limit_def entry_text_def BINDING_RECORD_PREFIX_def binding_text_def BINDING_PAYLOAD_MAGIC_def, code_simp)

lemma run_co_propose_state_hash1: "sha_compress sha_init_h
   [85, 66, 83, 84, 65, 48, 49, 0, 2, 0, 0, 0, 0, 0, 0, 0,
    0, 0, 0, 0, 0, 0, 0, 0, 1, 0, 0, 0, 44, 45, 198, 49,
    187, 197, 79, 166, 80, 1, 0, 0, 0, 0, 0, 0, 43, 135, 181, 30,
    83, 117, 254, 145, 127, 185, 4, 194, 122, 23, 20, 123, 10, 35, 132, 110] =
   [0x252AA916, 0xFDC238EB, 0x6F820ED7, 0xE7AE5483, 0xA7045028, 0xFC58A16E, 0xA45D7CA6, 0x5769AFF4]"
  by code_simp

lemma run_co_propose_state_hash2: "sha_compress [0x252AA916, 0xFDC238EB, 0x6F820ED7, 0xE7AE5483, 0xA7045028, 0xFC58A16E, 0xA45D7CA6, 0x5769AFF4]
   [127, 1, 186, 138, 45, 25, 226, 123, 87, 185, 206, 194, 87, 0, 0, 0,
    0, 0, 0, 0, 100, 7, 226, 116, 10, 52, 57, 177, 193, 0, 0, 0,
    0, 0, 0, 0, 25, 199, 11, 215, 6, 197, 135, 44, 72, 220, 41, 235,
    199, 208, 215, 185, 190, 118, 183, 34, 231, 234, 216, 6, 236, 47, 23, 57] =
   [0xA79E429E, 0xC778C4FA, 0xC0F50ED4, 0xFA92671C, 0x7E3AEC26, 0x7F21A242, 0x7084B449, 0x160E3E4B]"
  by code_simp

lemma run_co_propose_state_hash3: "sha_compress [0xA79E429E, 0xC778C4FA, 0xC0F50ED4, 0xFA92671C, 0x7E3AEC26, 0x7F21A242, 0x7084B449, 0x160E3E4B]
   [76, 198, 205, 244, 95, 95, 117, 98, 100, 98, 95, 116, 114, 117, 115, 116,
    95, 98, 105, 110, 100, 105, 110, 103, 95, 95, 47, 54, 70, 52, 54, 70,
    66, 67, 69, 55, 56, 65, 65, 53, 55, 53, 68, 55, 54, 54, 70, 50,
    54, 69, 48, 56, 56, 55, 48, 50, 51, 70, 53, 50, 67, 50, 68, 67] =
   [0x7E6F8802, 0x910D4202, 0x6CC2344E, 0x71E3CBC2, 0x93C8659A, 0x36B76E67, 0x18884772, 0xC0AC509B]"
  by code_simp

lemma run_co_propose_state_hash4: "sha_compress [0x7E6F8802, 0x910D4202, 0x6CC2344E, 0x71E3CBC2, 0x93C8659A, 0x36B76E67, 0x18884772, 0xC0AC509B]
   [54, 51, 49, 66, 66, 67, 53, 52, 70, 65, 54, 54, 52, 48, 55, 69,
    50, 55, 52, 48, 65, 51, 52, 51, 57, 66, 49, 85, 66, 84, 66, 68,
    48, 49, 0, 111, 70, 251, 206, 120, 170, 87, 93, 118, 111, 38, 224, 136,
    112, 35, 245, 44, 45, 198, 49, 187, 197, 79, 166, 100, 7, 226, 116, 10] =
   [0xBF1E9822, 0x74FC6336, 0x909259F0, 0x9FD722C8, 0xD856B3A5, 0xA9A0F5B8, 0x80043DD5, 0xFDAA7ED6]"
  by code_simp

lemma run_co_propose_state_hash5: "sha_compress [0xBF1E9822, 0x74FC6336, 0x909259F0, 0x9FD722C8, 0xD856B3A5, 0xA9A0F5B8, 0x80043DD5, 0xFDAA7ED6]
   [52, 57, 177, 20, 32, 239, 128, 227, 40, 167, 101, 139, 3, 180, 200, 113,
    230, 135, 164, 135, 236, 250, 220, 149, 247, 28, 129, 132, 124, 112, 134, 48,
    197, 96, 199, 114, 176, 215, 135, 176, 174, 247, 61, 37, 1, 218, 59, 190,
    247, 1, 142, 37, 164, 146, 75, 165, 28, 192, 70, 176, 168, 187, 50, 99] =
   [0x7CD747E0, 0x589E5C93, 0xE67AB368, 0x61EB81E4, 0x7FB7AAFF, 0x4D49FF38, 0x1A8402C6, 0x0A4F0269]"
  by code_simp

lemma run_co_propose_state_hash6: "sha_compress [0x7CD747E0, 0x589E5C93, 0xE67AB368, 0x61EB81E4, 0x7FB7AAFF, 0x4D49FF38, 0x1A8402C6, 0x0A4F0269]
   [169, 234, 152, 127, 108, 98, 209, 28, 36, 96, 5, 122, 36, 156, 185, 28,
    196, 174, 68, 4, 170, 93, 173, 185, 42, 197, 226, 218, 88, 28, 208, 55,
    84, 93, 42, 0, 0, 0, 0, 0, 0, 0, 0, 0, 0, 0, 0, 0,
    0, 0, 0, 0, 0, 0, 0, 0, 0, 0, 0, 0, 0, 0, 0, 0] =
   [0x9E531B07, 0x6286A67D, 0x7B63AFE2, 0x4660877D, 0x37EDC17B, 0xDC00BCE9, 0x9F7126E3, 0x4580A3F1]"
  by code_simp

lemma run_co_propose_state_hash7: "sha_compress [0x9E531B07, 0x6286A67D, 0x7B63AFE2, 0x4660877D, 0x37EDC17B, 0xDC00BCE9, 0x9F7126E3, 0x4580A3F1]
   [0, 0, 0, 1, 0, 0, 0, 0, 0, 0, 0, 1, 0, 0, 0, 0,
    0, 0, 0, 1, 0, 0, 0, 0, 0, 0, 0, 114, 1, 0, 0, 0,
    1, 0, 0, 0, 0, 0, 0, 0, 58, 0, 0, 0, 0, 0, 0, 0,
    197, 183, 192, 77, 31, 14, 62, 245, 93, 92, 38, 148, 93, 207, 50, 171] =
   [0xE3749098, 0xF1DB20F3, 0x1E56528A, 0xB5867CCE, 0xFC92C6DA, 0x20BF1EF6, 0xCEF5946F, 0x705A1227]"
  by code_simp

lemma run_co_propose_state_hash8: "sha_compress [0xE3749098, 0xF1DB20F3, 0x1E56528A, 0xB5867CCE, 0xFC92C6DA, 0x20BF1EF6, 0xCEF5946F, 0x705A1227]
   [78, 49, 136, 71, 236, 23, 34, 220, 182, 211, 72, 70, 145, 24, 7, 211,
    1, 0, 0, 0, 0, 0, 0, 0, 1, 0, 0, 0, 0, 0, 0, 0,
    1, 0, 0, 0, 0, 0, 0, 0, 76, 148, 72, 94, 12, 33, 174, 108,
    65, 206, 29, 254, 123, 107, 250, 206, 234, 90, 182, 142, 64, 162, 71, 111] =
   [0xDC5ED235, 0xDFA97028, 0x4213990D, 0xEBD87E57, 0xBC56A519, 0x9719ABC5, 0x15FE9D50, 0xF7EBD06C]"
  by code_simp

lemma run_co_propose_state_hash9: "sha_compress [0xDC5ED235, 0xDFA97028, 0x4213990D, 0xEBD87E57, 0xBC56A519, 0x9719ABC5, 0x15FE9D50, 0xF7EBD06C]
   [80, 32, 142, 82, 111, 80, 96, 128, 114, 118, 128, 0, 0, 0, 0, 0,
    0, 0, 0, 0, 0, 0, 0, 0, 0, 0, 0, 0, 0, 0, 0, 0,
    0, 0, 0, 0, 0, 0, 0, 0, 0, 0, 0, 0, 0, 0, 0, 0,
    0, 0, 0, 0, 0, 0, 0, 0, 0, 0, 0, 0, 0, 0, 16, 80] =
   [0xB5609722, 0xA030CDA8, 0x3253B499, 0x1986848B, 0x67CF3730, 0x6B614BA1, 0x1344CCC2, 0x2A7D9D07]"
  by code_simp

text \<open>The hash of the state with the binding record.\<close>

definition run_co_propose_state :: bytes where
  "run_co_propose_state = [181, 96, 151, 34, 160, 48, 205, 168, 50, 83, 180, 153, 25, 134, 132, 139,
    103, 207, 55, 48, 107, 97, 75, 161, 19, 68, 204, 194, 42, 125, 157, 7]"

lemma run_co_propose_state_blocks:
  "blocks64 (sha_pad (STATE_HASH_MAGIC @ u64_le 2 @ u64_le 0 @ u16_le 1 @ u16_le 0 @ u64_le 11984014541240806700 @ u64_le 336 @ run_co_propose_entry
     @ entry_text 12770295437901039460 193 run_co_propose_binding (BINDING_RECORD_PREFIX @ hex_digest run_co_propose_tx)
     (binding_text run_co_propose_tx run_co_propose_request)
     @ u16_le 1 @ u16_le 0 @ u64_le 1 @ u64_le 58 @ run_co_entry @ entry_text 1 1 run_co_value (lit ''r'') (lit ''v''))) =
    [[85, 66, 83, 84, 65, 48, 49, 0, 2, 0, 0, 0, 0, 0, 0, 0,
    0, 0, 0, 0, 0, 0, 0, 0, 1, 0, 0, 0, 44, 45, 198, 49,
    187, 197, 79, 166, 80, 1, 0, 0, 0, 0, 0, 0, 43, 135, 181, 30,
    83, 117, 254, 145, 127, 185, 4, 194, 122, 23, 20, 123, 10, 35, 132, 110],
     [127, 1, 186, 138, 45, 25, 226, 123, 87, 185, 206, 194, 87, 0, 0, 0,
    0, 0, 0, 0, 100, 7, 226, 116, 10, 52, 57, 177, 193, 0, 0, 0,
    0, 0, 0, 0, 25, 199, 11, 215, 6, 197, 135, 44, 72, 220, 41, 235,
    199, 208, 215, 185, 190, 118, 183, 34, 231, 234, 216, 6, 236, 47, 23, 57],
     [76, 198, 205, 244, 95, 95, 117, 98, 100, 98, 95, 116, 114, 117, 115, 116,
    95, 98, 105, 110, 100, 105, 110, 103, 95, 95, 47, 54, 70, 52, 54, 70,
    66, 67, 69, 55, 56, 65, 65, 53, 55, 53, 68, 55, 54, 54, 70, 50,
    54, 69, 48, 56, 56, 55, 48, 50, 51, 70, 53, 50, 67, 50, 68, 67],
     [54, 51, 49, 66, 66, 67, 53, 52, 70, 65, 54, 54, 52, 48, 55, 69,
    50, 55, 52, 48, 65, 51, 52, 51, 57, 66, 49, 85, 66, 84, 66, 68,
    48, 49, 0, 111, 70, 251, 206, 120, 170, 87, 93, 118, 111, 38, 224, 136,
    112, 35, 245, 44, 45, 198, 49, 187, 197, 79, 166, 100, 7, 226, 116, 10],
     [52, 57, 177, 20, 32, 239, 128, 227, 40, 167, 101, 139, 3, 180, 200, 113,
    230, 135, 164, 135, 236, 250, 220, 149, 247, 28, 129, 132, 124, 112, 134, 48,
    197, 96, 199, 114, 176, 215, 135, 176, 174, 247, 61, 37, 1, 218, 59, 190,
    247, 1, 142, 37, 164, 146, 75, 165, 28, 192, 70, 176, 168, 187, 50, 99],
     [169, 234, 152, 127, 108, 98, 209, 28, 36, 96, 5, 122, 36, 156, 185, 28,
    196, 174, 68, 4, 170, 93, 173, 185, 42, 197, 226, 218, 88, 28, 208, 55,
    84, 93, 42, 0, 0, 0, 0, 0, 0, 0, 0, 0, 0, 0, 0, 0,
    0, 0, 0, 0, 0, 0, 0, 0, 0, 0, 0, 0, 0, 0, 0, 0],
     [0, 0, 0, 1, 0, 0, 0, 0, 0, 0, 0, 1, 0, 0, 0, 0,
    0, 0, 0, 1, 0, 0, 0, 0, 0, 0, 0, 114, 1, 0, 0, 0,
    1, 0, 0, 0, 0, 0, 0, 0, 58, 0, 0, 0, 0, 0, 0, 0,
    197, 183, 192, 77, 31, 14, 62, 245, 93, 92, 38, 148, 93, 207, 50, 171],
     [78, 49, 136, 71, 236, 23, 34, 220, 182, 211, 72, 70, 145, 24, 7, 211,
    1, 0, 0, 0, 0, 0, 0, 0, 1, 0, 0, 0, 0, 0, 0, 0,
    1, 0, 0, 0, 0, 0, 0, 0, 76, 148, 72, 94, 12, 33, 174, 108,
    65, 206, 29, 254, 123, 107, 250, 206, 234, 90, 182, 142, 64, 162, 71, 111],
     [80, 32, 142, 82, 111, 80, 96, 128, 114, 118, 128, 0, 0, 0, 0, 0,
    0, 0, 0, 0, 0, 0, 0, 0, 0, 0, 0, 0, 0, 0, 0, 0,
    0, 0, 0, 0, 0, 0, 0, 0, 0, 0, 0, 0, 0, 0, 0, 0,
    0, 0, 0, 0, 0, 0, 0, 0, 0, 0, 0, 0, 0, 0, 16, 80]]"
  by code_simp

lemma length_run_co_propose_state [simp]: "length run_co_propose_state = 32"
  by (simp add: run_co_propose_state_def)

lemma run_co_propose_state_digest: "sha256 (STATE_HASH_MAGIC @ u64_le 2 @ u64_le 0 @ u16_le 1 @ u16_le 0 @ u64_le 11984014541240806700 @ u64_le 336 @ run_co_propose_entry
     @ entry_text 12770295437901039460 193 run_co_propose_binding (BINDING_RECORD_PREFIX @ hex_digest run_co_propose_tx)
     (binding_text run_co_propose_tx run_co_propose_request)
     @ u16_le 1 @ u16_le 0 @ u64_le 1 @ u64_le 58 @ run_co_entry @ entry_text 1 1 run_co_value (lit ''r'') (lit ''v'')) = run_co_propose_state"
  unfolding run_co_propose_state_def
  by (rule sha256_by_blocks [OF _ run_co_propose_state_blocks, unfolded foldl_Cons foldl_Nil run_co_propose_state_hash1 run_co_propose_state_hash2 run_co_propose_state_hash3 run_co_propose_state_hash4 run_co_propose_state_hash5 run_co_propose_state_hash6 run_co_propose_state_hash7 run_co_propose_state_hash8 run_co_propose_state_hash9, OF _ refl])
    (simp add: usize_limit_def STATE_HASH_MAGIC_def entry_text_def BINDING_RECORD_PREFIX_def binding_text_def BINDING_PAYLOAD_MAGIC_def, code_simp)

lemma run_co_input_hash1: "sha_compress sha_init_h
   [85, 66, 84, 82, 73, 78, 49, 0, 1, 1, 0, 0, 0, 0, 0, 0,
    1, 0, 0, 0, 114, 1, 0, 0, 0, 112, 1, 0, 0, 0, 49, 1,
    0, 0, 0, 97, 1, 0, 0, 0, 110, 0, 0, 0, 0, 20, 32, 239,
    128, 227, 40, 167, 101, 139, 3, 180, 200, 113, 230, 135, 164, 135, 236, 250] =
   [0xEF6F1A9E, 0x21F0D304, 0x6BD4D344, 0xED1B3FD1, 0x202016C9, 0x3351AEE9, 0xCC499744, 0x0F8CFA8E]"
  by code_simp

lemma run_co_input_hash2: "sha_compress [0xEF6F1A9E, 0x21F0D304, 0x6BD4D344, 0xED1B3FD1, 0x202016C9, 0x3351AEE9, 0xCC499744, 0x0F8CFA8E]
   [220, 149, 247, 28, 129, 132, 124, 112, 134, 48, 197, 96, 199, 1, 0, 0,
    0, 0, 0, 0, 0, 1, 0, 0, 0, 1, 0, 0, 0, 101, 1, 0,
    0, 0, 119, 5, 5, 5, 5, 5, 5, 5, 5, 5, 5, 5, 5, 5,
    5, 5, 5, 5, 5, 5, 5, 5, 5, 5, 5, 5, 5, 5, 5, 5] =
   [0xB482EAB9, 0x0FD8EEAE, 0xAEA3DC3F, 0x0790F0E6, 0x48E33A95, 0x7BD29991, 0xB766B1DB, 0xAB3FF229]"
  by code_simp

lemma run_co_input_hash3: "sha_compress [0xB482EAB9, 0x0FD8EEAE, 0xAEA3DC3F, 0x0790F0E6, 0x48E33A95, 0x7BD29991, 0xB766B1DB, 0xAB3FF229]
   [5, 5, 5, 128, 0, 0, 0, 0, 0, 0, 0, 0, 0, 0, 0, 0,
    0, 0, 0, 0, 0, 0, 0, 0, 0, 0, 0, 0, 0, 0, 0, 0,
    0, 0, 0, 0, 0, 0, 0, 0, 0, 0, 0, 0, 0, 0, 0, 0,
    0, 0, 0, 0, 0, 0, 0, 0, 0, 0, 0, 0, 0, 0, 4, 24] =
   [0x76EA1FE9, 0xE1B42FA9, 0x4888A0B6, 0x470C22CF, 0x846B1776, 0x47DE7EAC, 0x564C18E7, 0x4CB50FA0]"
  by code_simp

text \<open>The digest of the input of the transition.\<close>

definition run_co_input :: bytes where
  "run_co_input = [118, 234, 31, 233, 225, 180, 47, 169, 72, 136, 160, 182, 71, 12, 34, 207,
    132, 107, 23, 118, 71, 222, 126, 172, 86, 76, 24, 231, 76, 181, 15, 160]"

lemma run_co_input_blocks:
  "blocks64 (sha_pad (INPUT_DIGEST_DOMAIN @ [1, 1] @ replicate 6 0 @ u32_le 1 @ lit ''r'' @ u32_le 1 @ lit ''p'' @ u32_le 1 @ lit ''1''
     @ u32_le 1 @ lit ''a'' @ u32_le 1 @ lit ''n'' @ u32_le 0 @ run_co_record @ u64_le 1 @ u32_le 1
     @ u32_le 1 @ lit ''e'' @ u32_le 1 @ lit ''w'' @ replicate 32 5)) =
    [[85, 66, 84, 82, 73, 78, 49, 0, 1, 1, 0, 0, 0, 0, 0, 0,
    1, 0, 0, 0, 114, 1, 0, 0, 0, 112, 1, 0, 0, 0, 49, 1,
    0, 0, 0, 97, 1, 0, 0, 0, 110, 0, 0, 0, 0, 20, 32, 239,
    128, 227, 40, 167, 101, 139, 3, 180, 200, 113, 230, 135, 164, 135, 236, 250],
     [220, 149, 247, 28, 129, 132, 124, 112, 134, 48, 197, 96, 199, 1, 0, 0,
    0, 0, 0, 0, 0, 1, 0, 0, 0, 1, 0, 0, 0, 101, 1, 0,
    0, 0, 119, 5, 5, 5, 5, 5, 5, 5, 5, 5, 5, 5, 5, 5,
    5, 5, 5, 5, 5, 5, 5, 5, 5, 5, 5, 5, 5, 5, 5, 5],
     [5, 5, 5, 128, 0, 0, 0, 0, 0, 0, 0, 0, 0, 0, 0, 0,
    0, 0, 0, 0, 0, 0, 0, 0, 0, 0, 0, 0, 0, 0, 0, 0,
    0, 0, 0, 0, 0, 0, 0, 0, 0, 0, 0, 0, 0, 0, 0, 0,
    0, 0, 0, 0, 0, 0, 0, 0, 0, 0, 0, 0, 0, 0, 4, 24]]"
  by code_simp

lemma length_run_co_input [simp]: "length run_co_input = 32"
  by (simp add: run_co_input_def)

lemma run_co_input_digest: "sha256 (INPUT_DIGEST_DOMAIN @ [1, 1] @ replicate 6 0 @ u32_le 1 @ lit ''r'' @ u32_le 1 @ lit ''p'' @ u32_le 1 @ lit ''1''
     @ u32_le 1 @ lit ''a'' @ u32_le 1 @ lit ''n'' @ u32_le 0 @ run_co_record @ u64_le 1 @ u32_le 1
     @ u32_le 1 @ lit ''e'' @ u32_le 1 @ lit ''w'' @ replicate 32 5) = run_co_input"
  unfolding run_co_input_def
  by (rule sha256_by_blocks [OF _ run_co_input_blocks, unfolded foldl_Cons foldl_Nil run_co_input_hash1 run_co_input_hash2 run_co_input_hash3, OF _ refl])
    (simp add: usize_limit_def INPUT_DIGEST_DOMAIN_def, code_simp)

lemma run_co_decision_hash1: "sha_compress sha_init_h
   [85, 66, 84, 82, 68, 67, 49, 0, 118, 234, 31, 233, 225, 180, 47, 169,
    72, 136, 160, 182, 71, 12, 34, 207, 132, 107, 23, 118, 71, 222, 126, 172,
    86, 76, 24, 231, 76, 181, 15, 160, 0, 0, 1, 1, 0, 0, 0, 0,
    128, 0, 0, 0, 0, 0, 0, 0, 0, 0, 0, 0, 0, 0, 1, 128] =
   [0x091C72FE, 0xDE322ABC, 0xB0EFBFCA, 0xF6F39C83, 0xE88471B2, 0x2CF777F0, 0xE37C664D, 0x6597C839]"
  by code_simp

text \<open>The digest of the decision.\<close>

definition run_co_decision :: bytes where
  "run_co_decision = [9, 28, 114, 254, 222, 50, 42, 188, 176, 239, 191, 202, 246, 243, 156, 131,
    232, 132, 113, 178, 44, 247, 119, 240, 227, 124, 102, 77, 101, 151, 200, 57]"

lemma run_co_decision_blocks:
  "blocks64 (sha_pad (DECISION_DIGEST_DOMAIN @ run_co_input @ [0, 0, 1, 1] @ replicate 4 0)) =
    [[85, 66, 84, 82, 68, 67, 49, 0, 118, 234, 31, 233, 225, 180, 47, 169,
    72, 136, 160, 182, 71, 12, 34, 207, 132, 107, 23, 118, 71, 222, 126, 172,
    86, 76, 24, 231, 76, 181, 15, 160, 0, 0, 1, 1, 0, 0, 0, 0,
    128, 0, 0, 0, 0, 0, 0, 0, 0, 0, 0, 0, 0, 0, 1, 128]]"
  by code_simp

lemma length_run_co_decision [simp]: "length run_co_decision = 32"
  by (simp add: run_co_decision_def)

lemma run_co_decision_digest: "sha256 (DECISION_DIGEST_DOMAIN @ run_co_input @ [0, 0, 1, 1] @ replicate 4 0) = run_co_decision"
  unfolding run_co_decision_def
  by (rule sha256_by_blocks [OF _ run_co_decision_blocks, unfolded foldl_Cons foldl_Nil run_co_decision_hash1, OF _ refl])
    (simp add: usize_limit_def DECISION_DIGEST_DOMAIN_def, code_simp)

lemma run_co_trust_payload_hash1: "sha_compress sha_init_h
   [85, 66, 84, 82, 80, 48, 49, 0, 1, 1, 0, 0, 1, 1, 0, 0,
    1, 0, 0, 0, 1, 0, 0, 0, 1, 0, 0, 0, 1, 0, 0, 0,
    1, 0, 0, 0, 0, 0, 0, 0, 1, 0, 0, 0, 0, 0, 0, 0,
    20, 32, 239, 128, 227, 40, 167, 101, 139, 3, 180, 200, 113, 230, 135, 164] =
   [0x86D0F07E, 0x2AC587E3, 0x36700725, 0x6DB46880, 0xA0203F8E, 0x680F38D4, 0xB4864C74, 0x23AA3FF3]"
  by code_simp

lemma run_co_trust_payload_hash2: "sha_compress [0x86D0F07E, 0x2AC587E3, 0x36700725, 0x6DB46880, 0xA0203F8E, 0x680F38D4, 0xB4864C74, 0x23AA3FF3]
   [135, 236, 250, 220, 149, 247, 28, 129, 132, 124, 112, 134, 48, 197, 96, 199,
    118, 234, 31, 233, 225, 180, 47, 169, 72, 136, 160, 182, 71, 12, 34, 207,
    132, 107, 23, 118, 71, 222, 126, 172, 86, 76, 24, 231, 76, 181, 15, 160,
    9, 28, 114, 254, 222, 50, 42, 188, 176, 239, 191, 202, 246, 243, 156, 131] =
   [0x442EC33A, 0x181B8F3D, 0x8256C334, 0x5D9CDD9F, 0x2C0E9491, 0xBFD68FA9, 0xF7C92EDD, 0x485CEAE2]"
  by code_simp

lemma run_co_trust_payload_hash3: "sha_compress [0x442EC33A, 0x181B8F3D, 0x8256C334, 0x5D9CDD9F, 0x2C0E9491, 0xBFD68FA9, 0xF7C92EDD, 0x485CEAE2]
   [232, 132, 113, 178, 44, 247, 119, 240, 227, 124, 102, 77, 101, 151, 200, 57,
    114, 112, 49, 97, 110, 1, 0, 0, 0, 1, 0, 0, 0, 5, 5, 5,
    5, 5, 5, 5, 5, 5, 5, 5, 5, 5, 5, 5, 5, 5, 5, 5,
    5, 5, 5, 5, 5, 5, 5, 5, 5, 5, 5, 5, 5, 101, 119, 128] =
   [0x1F9FF12E, 0x6AF9AF5B, 0xB16D7885, 0x44E828F6, 0xEF08DC1A, 0xCECCD2BE, 0xB01BDD59, 0xFFBF8E59]"
  by code_simp

lemma run_co_trust_payload_hash4: "sha_compress [0x1F9FF12E, 0x6AF9AF5B, 0xB16D7885, 0x44E828F6, 0xEF08DC1A, 0xCECCD2BE, 0xB01BDD59, 0xFFBF8E59]
   [0, 0, 0, 0, 0, 0, 0, 0, 0, 0, 0, 0, 0, 0, 0, 0,
    0, 0, 0, 0, 0, 0, 0, 0, 0, 0, 0, 0, 0, 0, 0, 0,
    0, 0, 0, 0, 0, 0, 0, 0, 0, 0, 0, 0, 0, 0, 0, 0,
    0, 0, 0, 0, 0, 0, 0, 0, 0, 0, 0, 0, 0, 0, 5, 248] =
   [0x22D45064, 0x0BA265C7, 0x1D5FB444, 0xDB104AC3, 0x83E85BB5, 0x13290353, 0x8E2EFF5A, 0x97128C4E]"
  by code_simp

text \<open>The digest of the payload of the transition.\<close>

definition run_co_trust_payload :: bytes where
  "run_co_trust_payload = [34, 212, 80, 100, 11, 162, 101, 199, 29, 95, 180, 68, 219, 16, 74, 195,
    131, 232, 91, 181, 19, 41, 3, 83, 142, 46, 255, 90, 151, 18, 140, 78]"

lemma run_co_trust_payload_blocks:
  "blocks64 (sha_pad (PAYLOAD_MAGIC @ [1, 1, 0, 0, 1, 1] @ u16_le 0 @ u32_le 1 @ u32_le 1 @ u32_le 1 @ u32_le 1
     @ u32_le 1 @ u32_le 0 @ u32_le 1 @ u32_le 0 @ run_co_record @ run_co_input @ run_co_decision
     @ lit ''r'' @ lit ''p'' @ lit ''1'' @ lit ''a'' @ lit ''n'' @ u32_le 1 @ u32_le 1 @ replicate 32 5 @ lit ''e'' @ lit ''w'')) =
    [[85, 66, 84, 82, 80, 48, 49, 0, 1, 1, 0, 0, 1, 1, 0, 0,
    1, 0, 0, 0, 1, 0, 0, 0, 1, 0, 0, 0, 1, 0, 0, 0,
    1, 0, 0, 0, 0, 0, 0, 0, 1, 0, 0, 0, 0, 0, 0, 0,
    20, 32, 239, 128, 227, 40, 167, 101, 139, 3, 180, 200, 113, 230, 135, 164],
     [135, 236, 250, 220, 149, 247, 28, 129, 132, 124, 112, 134, 48, 197, 96, 199,
    118, 234, 31, 233, 225, 180, 47, 169, 72, 136, 160, 182, 71, 12, 34, 207,
    132, 107, 23, 118, 71, 222, 126, 172, 86, 76, 24, 231, 76, 181, 15, 160,
    9, 28, 114, 254, 222, 50, 42, 188, 176, 239, 191, 202, 246, 243, 156, 131],
     [232, 132, 113, 178, 44, 247, 119, 240, 227, 124, 102, 77, 101, 151, 200, 57,
    114, 112, 49, 97, 110, 1, 0, 0, 0, 1, 0, 0, 0, 5, 5, 5,
    5, 5, 5, 5, 5, 5, 5, 5, 5, 5, 5, 5, 5, 5, 5, 5,
    5, 5, 5, 5, 5, 5, 5, 5, 5, 5, 5, 5, 5, 101, 119, 128],
     [0, 0, 0, 0, 0, 0, 0, 0, 0, 0, 0, 0, 0, 0, 0, 0,
    0, 0, 0, 0, 0, 0, 0, 0, 0, 0, 0, 0, 0, 0, 0, 0,
    0, 0, 0, 0, 0, 0, 0, 0, 0, 0, 0, 0, 0, 0, 0, 0,
    0, 0, 0, 0, 0, 0, 0, 0, 0, 0, 0, 0, 0, 0, 5, 248]]"
  by code_simp

lemma length_run_co_trust_payload [simp]: "length run_co_trust_payload = 32"
  by (simp add: run_co_trust_payload_def)

lemma run_co_trust_payload_digest: "sha256 (PAYLOAD_MAGIC @ [1, 1, 0, 0, 1, 1] @ u16_le 0 @ u32_le 1 @ u32_le 1 @ u32_le 1 @ u32_le 1
     @ u32_le 1 @ u32_le 0 @ u32_le 1 @ u32_le 0 @ run_co_record @ run_co_input @ run_co_decision
     @ lit ''r'' @ lit ''p'' @ lit ''1'' @ lit ''a'' @ lit ''n'' @ u32_le 1 @ u32_le 1 @ replicate 32 5 @ lit ''e'' @ lit ''w'') = run_co_trust_payload"
  unfolding run_co_trust_payload_def
  by (rule sha256_by_blocks [OF _ run_co_trust_payload_blocks, unfolded foldl_Cons foldl_Nil run_co_trust_payload_hash1 run_co_trust_payload_hash2 run_co_trust_payload_hash3 run_co_trust_payload_hash4, OF _ refl])
    (simp add: usize_limit_def PAYLOAD_MAGIC_def, code_simp)

lemma run_co_transition_hash1: "sha_compress sha_init_h
   [85, 66, 84, 82, 68, 71, 49, 0, 1, 0, 0, 0, 0, 0, 0, 0,
    1, 0, 0, 0, 0, 0, 0, 0, 0, 0, 0, 0, 0, 0, 0, 0,
    0, 0, 0, 0, 0, 0, 0, 0, 0, 0, 0, 0, 0, 0, 0, 0,
    0, 0, 0, 0, 0, 0, 0, 0, 34, 212, 80, 100, 11, 162, 101, 199] =
   [0x11666F1F, 0xD68FB366, 0x6D0A2EA6, 0x3C5F41DF, 0x4071E608, 0x3867AEE3, 0x4E1C3066, 0xA24DB125]"
  by code_simp

lemma run_co_transition_hash2: "sha_compress [0x11666F1F, 0xD68FB366, 0x6D0A2EA6, 0x3C5F41DF, 0x4071E608, 0x3867AEE3, 0x4E1C3066, 0xA24DB125]
   [29, 95, 180, 68, 219, 16, 74, 195, 131, 232, 91, 181, 19, 41, 3, 83,
    142, 46, 255, 90, 151, 18, 140, 78, 128, 0, 0, 0, 0, 0, 0, 0,
    0, 0, 0, 0, 0, 0, 0, 0, 0, 0, 0, 0, 0, 0, 0, 0,
    0, 0, 0, 0, 0, 0, 0, 0, 0, 0, 0, 0, 0, 0, 2, 192] =
   [0xDE7F7793, 0x77217B69, 0x9CF7B53D, 0xF61F900B, 0x64D3F4F9, 0xBD2EE5B5, 0xC35870B0, 0x903BE839]"
  by code_simp

text \<open>The id of the transition.\<close>

definition run_co_transition :: bytes where
  "run_co_transition = [222, 127, 119, 147, 119, 33, 123, 105, 156, 247, 181, 61, 246, 31, 144, 11,
    100, 211, 244, 249, 189, 46, 229, 181, 195, 88, 112, 176, 144, 59, 232, 57]"

lemma run_co_transition_blocks:
  "blocks64 (sha_pad (TRANSITION_DIGEST_DOMAIN @ u64_le 1 @ u64_le 1 @ replicate 32 0 @ run_co_trust_payload)) =
    [[85, 66, 84, 82, 68, 71, 49, 0, 1, 0, 0, 0, 0, 0, 0, 0,
    1, 0, 0, 0, 0, 0, 0, 0, 0, 0, 0, 0, 0, 0, 0, 0,
    0, 0, 0, 0, 0, 0, 0, 0, 0, 0, 0, 0, 0, 0, 0, 0,
    0, 0, 0, 0, 0, 0, 0, 0, 34, 212, 80, 100, 11, 162, 101, 199],
     [29, 95, 180, 68, 219, 16, 74, 195, 131, 232, 91, 181, 19, 41, 3, 83,
    142, 46, 255, 90, 151, 18, 140, 78, 128, 0, 0, 0, 0, 0, 0, 0,
    0, 0, 0, 0, 0, 0, 0, 0, 0, 0, 0, 0, 0, 0, 0, 0,
    0, 0, 0, 0, 0, 0, 0, 0, 0, 0, 0, 0, 0, 0, 2, 192]]"
  by code_simp

lemma length_run_co_transition [simp]: "length run_co_transition = 32"
  by (simp add: run_co_transition_def)

lemma run_co_transition_digest: "sha256 (TRANSITION_DIGEST_DOMAIN @ u64_le 1 @ u64_le 1 @ replicate 32 0 @ run_co_trust_payload) = run_co_transition"
  unfolding run_co_transition_def
  by (rule sha256_by_blocks [OF _ run_co_transition_blocks, unfolded foldl_Cons foldl_Nil run_co_transition_hash1 run_co_transition_hash2, OF _ refl])
    (simp add: usize_limit_def TRANSITION_DIGEST_DOMAIN_def, code_simp)

lemma run_co_promote_request_hash1: "sha_compress sha_init_h
   [85, 66, 84, 82, 82, 69, 81, 49, 2, 1, 0, 0, 0, 0, 0, 0,
    1, 0, 0, 0, 114, 1, 0, 0, 0, 112, 1, 0, 0, 0, 49, 1,
    0, 0, 0, 97, 1, 0, 0, 0, 110, 0, 0, 0, 0, 0, 0, 0,
    0, 1, 0, 0, 0, 0, 0, 0, 0, 1, 0, 0, 0, 1, 0, 0] =
   [0x475298B2, 0x7568A10D, 0x3B237015, 0xD2CCB542, 0x2C1E2A6A, 0x68064539, 0xFB42E2F4, 0x6195F649]"
  by code_simp

lemma run_co_promote_request_hash2: "sha_compress [0x475298B2, 0x7568A10D, 0x3B237015, 0xD2CCB542, 0x2C1E2A6A, 0x68064539, 0xFB42E2F4, 0x6195F649]
   [0, 101, 1, 0, 0, 0, 119, 5, 5, 5, 5, 5, 5, 5, 5, 5,
    5, 5, 5, 5, 5, 5, 5, 5, 5, 5, 5, 5, 5, 5, 5, 5,
    5, 5, 5, 5, 5, 5, 5, 128, 0, 0, 0, 0, 0, 0, 0, 0,
    0, 0, 0, 0, 0, 0, 0, 0, 0, 0, 0, 0, 0, 0, 3, 56] =
   [0xA5E71B31, 0xEA204897, 0xE3D47604, 0x4CC77919, 0x9E69484A, 0x11CF6358, 0x46BDD067, 0xA6ADC93A]"
  by code_simp

text \<open>The digest of the request.\<close>

definition run_co_promote_request :: bytes where
  "run_co_promote_request = [165, 231, 27, 49, 234, 32, 72, 151, 227, 212, 118, 4, 76, 199, 121, 25,
    158, 105, 72, 74, 17, 207, 99, 88, 70, 189, 208, 103, 166, 173, 201, 58]"

lemma run_co_promote_request_blocks:
  "blocks64 (sha_pad (REQUEST_DIGEST_DOMAIN @ [2, 1] @ replicate 6 0 @ u32_le 1 @ lit ''r'' @ u32_le 1 @ lit ''p'' @ u32_le 1 @ lit ''1''
     @ u32_le 1 @ lit ''a'' @ u32_le 1 @ lit ''n'' @ [0] @ replicate 3 0 @ u32_le 0 @ u64_le 1 @ u32_le 1
     @ u32_le 1 @ lit ''e'' @ u32_le 1 @ lit ''w'' @ replicate 32 5)) =
    [[85, 66, 84, 82, 82, 69, 81, 49, 2, 1, 0, 0, 0, 0, 0, 0,
    1, 0, 0, 0, 114, 1, 0, 0, 0, 112, 1, 0, 0, 0, 49, 1,
    0, 0, 0, 97, 1, 0, 0, 0, 110, 0, 0, 0, 0, 0, 0, 0,
    0, 1, 0, 0, 0, 0, 0, 0, 0, 1, 0, 0, 0, 1, 0, 0],
     [0, 101, 1, 0, 0, 0, 119, 5, 5, 5, 5, 5, 5, 5, 5, 5,
    5, 5, 5, 5, 5, 5, 5, 5, 5, 5, 5, 5, 5, 5, 5, 5,
    5, 5, 5, 5, 5, 5, 5, 128, 0, 0, 0, 0, 0, 0, 0, 0,
    0, 0, 0, 0, 0, 0, 0, 0, 0, 0, 0, 0, 0, 0, 3, 56]]"
  by code_simp

lemma length_run_co_promote_request [simp]: "length run_co_promote_request = 32"
  by (simp add: run_co_promote_request_def)

lemma run_co_promote_request_digest: "sha256 (REQUEST_DIGEST_DOMAIN @ [2, 1] @ replicate 6 0 @ u32_le 1 @ lit ''r'' @ u32_le 1 @ lit ''p'' @ u32_le 1 @ lit ''1''
     @ u32_le 1 @ lit ''a'' @ u32_le 1 @ lit ''n'' @ [0] @ replicate 3 0 @ u32_le 0 @ u64_le 1 @ u32_le 1
     @ u32_le 1 @ lit ''e'' @ u32_le 1 @ lit ''w'' @ replicate 32 5) = run_co_promote_request"
  unfolding run_co_promote_request_def
  by (rule sha256_by_blocks [OF _ run_co_promote_request_blocks, unfolded foldl_Cons foldl_Nil run_co_promote_request_hash1 run_co_promote_request_hash2, OF _ refl])
    (simp add: usize_limit_def REQUEST_DIGEST_DOMAIN_def, code_simp)

lemma run_co_promote_tx_hash1: "sha_compress sha_init_h
   [85, 66, 84, 82, 84, 88, 78, 49, 96, 151, 250, 181, 189, 62, 53, 39,
    217, 127, 95, 174, 198, 5, 191, 130, 79, 223, 89, 147, 204, 61, 104, 38,
    148, 167, 167, 121, 7, 200, 142, 240, 0, 0, 0, 0, 0, 0, 0, 0,
    0, 0, 0, 0, 0, 0, 0, 0, 0, 0, 0, 0, 0, 0, 0, 0] =
   [0xB1ECF057, 0xC24BFB3B, 0x37DD00C5, 0x3C53C9A5, 0x8730FB69, 0x3F975BB5, 0x1150D56F, 0xD5B2B492]"
  by code_simp

lemma run_co_promote_tx_hash2: "sha_compress [0xB1ECF057, 0xC24BFB3B, 0x37DD00C5, 0x3C53C9A5, 0x8730FB69, 0x3F975BB5, 0x1150D56F, 0xD5B2B492]
   [0, 0, 0, 0, 0, 0, 0, 0, 114, 176, 215, 135, 176, 174, 247, 61,
    37, 1, 218, 59, 190, 247, 1, 142, 37, 164, 146, 75, 165, 28, 192, 70,
    176, 168, 187, 50, 99, 169, 234, 152, 20, 32, 239, 128, 227, 40, 167, 101,
    139, 3, 180, 200, 113, 230, 135, 164, 135, 236, 250, 220, 149, 247, 28, 129] =
   [0x43503B32, 0xBE7141DD, 0x0D5F60E0, 0x09269F25, 0x4A8FA256, 0xA24EC0DA, 0x6D8EC9C2, 0x2F7D648D]"
  by code_simp

lemma run_co_promote_tx_hash3: "sha_compress [0x43503B32, 0xBE7141DD, 0x0D5F60E0, 0x09269F25, 0x4A8FA256, 0xA24EC0DA, 0x6D8EC9C2, 0x2F7D648D]
   [132, 124, 112, 134, 48, 197, 96, 199, 165, 231, 27, 49, 234, 32, 72, 151,
    227, 212, 118, 4, 76, 199, 121, 25, 158, 105, 72, 74, 17, 207, 99, 88,
    70, 189, 208, 103, 166, 173, 201, 58, 1, 0, 0, 0, 0, 0, 0, 0,
    128, 0, 0, 0, 0, 0, 0, 0, 0, 0, 0, 0, 0, 0, 5, 128] =
   [0xCBFE8E20, 0x6E789849, 0x7ABFA485, 0xA2D14FEB, 0x11C64B67, 0x728FCFC3, 0xCED254C1, 0x09738897]"
  by code_simp

text \<open>The id of the transaction.\<close>

definition run_co_promote_tx :: bytes where
  "run_co_promote_tx = [203, 254, 142, 32, 110, 120, 152, 73, 122, 191, 164, 133, 162, 209, 79, 235,
    17, 198, 75, 103, 114, 143, 207, 195, 206, 210, 84, 193, 9, 115, 136, 151]"

lemma run_co_promote_tx_blocks:
  "blocks64 (sha_pad (TRANSACTION_ID_DOMAIN @ run_co_state @ replicate 32 0 @ run_co_policy @ run_co_record
     @ run_co_promote_request @ u64_le 1)) =
    [[85, 66, 84, 82, 84, 88, 78, 49, 96, 151, 250, 181, 189, 62, 53, 39,
    217, 127, 95, 174, 198, 5, 191, 130, 79, 223, 89, 147, 204, 61, 104, 38,
    148, 167, 167, 121, 7, 200, 142, 240, 0, 0, 0, 0, 0, 0, 0, 0,
    0, 0, 0, 0, 0, 0, 0, 0, 0, 0, 0, 0, 0, 0, 0, 0],
     [0, 0, 0, 0, 0, 0, 0, 0, 114, 176, 215, 135, 176, 174, 247, 61,
    37, 1, 218, 59, 190, 247, 1, 142, 37, 164, 146, 75, 165, 28, 192, 70,
    176, 168, 187, 50, 99, 169, 234, 152, 20, 32, 239, 128, 227, 40, 167, 101,
    139, 3, 180, 200, 113, 230, 135, 164, 135, 236, 250, 220, 149, 247, 28, 129],
     [132, 124, 112, 134, 48, 197, 96, 199, 165, 231, 27, 49, 234, 32, 72, 151,
    227, 212, 118, 4, 76, 199, 121, 25, 158, 105, 72, 74, 17, 207, 99, 88,
    70, 189, 208, 103, 166, 173, 201, 58, 1, 0, 0, 0, 0, 0, 0, 0,
    128, 0, 0, 0, 0, 0, 0, 0, 0, 0, 0, 0, 0, 0, 5, 128]]"
  by code_simp

lemma length_run_co_promote_tx [simp]: "length run_co_promote_tx = 32"
  by (simp add: run_co_promote_tx_def)

lemma run_co_promote_tx_digest: "sha256 (TRANSACTION_ID_DOMAIN @ run_co_state @ replicate 32 0 @ run_co_policy @ run_co_record
     @ run_co_promote_request @ u64_le 1) = run_co_promote_tx"
  unfolding run_co_promote_tx_def
  by (rule sha256_by_blocks [OF _ run_co_promote_tx_blocks, unfolded foldl_Cons foldl_Nil run_co_promote_tx_hash1 run_co_promote_tx_hash2 run_co_promote_tx_hash3, OF _ refl])
    (simp add: usize_limit_def TRANSACTION_ID_DOMAIN_def, code_simp)

lemma run_co_promote_binding_hash1: "sha_compress sha_init_h
   [85, 66, 84, 66, 68, 48, 49, 0, 203, 254, 142, 32, 110, 120, 152, 73,
    122, 191, 164, 133, 162, 209, 79, 235, 17, 198, 75, 103, 114, 143, 207, 195,
    206, 210, 84, 193, 9, 115, 136, 151, 20, 32, 239, 128, 227, 40, 167, 101,
    139, 3, 180, 200, 113, 230, 135, 164, 135, 236, 250, 220, 149, 247, 28, 129] =
   [0x344B220D, 0xA81176B1, 0xA64C83B8, 0x3506EBD6, 0x1B199BE4, 0x4ED3E22F, 0x6C042401, 0xA9ABEE48]"
  by code_simp

lemma run_co_promote_binding_hash2: "sha_compress [0x344B220D, 0xA81176B1, 0xA64C83B8, 0x3506EBD6, 0x1B199BE4, 0x4ED3E22F, 0x6C042401, 0xA9ABEE48]
   [132, 124, 112, 134, 48, 197, 96, 199, 114, 176, 215, 135, 176, 174, 247, 61,
    37, 1, 218, 59, 190, 247, 1, 142, 37, 164, 146, 75, 165, 28, 192, 70,
    176, 168, 187, 50, 99, 169, 234, 152, 165, 231, 27, 49, 234, 32, 72, 151,
    227, 212, 118, 4, 76, 199, 121, 25, 158, 105, 72, 74, 17, 207, 99, 88] =
   [0xC74B4A21, 0x47914179, 0x774F073D, 0x0AE6DB97, 0xDC222711, 0x559F3912, 0x495613EA, 0xA663B2B7]"
  by code_simp

lemma run_co_promote_binding_hash3: "sha_compress [0xC74B4A21, 0x47914179, 0x774F073D, 0x0AE6DB97, 0xDC222711, 0x559F3912, 0x495613EA, 0xA663B2B7]
   [70, 189, 208, 103, 166, 173, 201, 58, 0, 0, 0, 0, 0, 0, 0, 0,
    0, 0, 0, 0, 0, 0, 0, 0, 0, 0, 0, 0, 0, 0, 0, 0,
    0, 0, 0, 0, 0, 0, 0, 0, 1, 0, 0, 0, 0, 0, 0, 0,
    1, 0, 0, 0, 0, 0, 0, 0, 1, 0, 0, 0, 0, 0, 0, 0] =
   [0x6C2DF076, 0xC9566AD7, 0xEC53D3BB, 0xB38963B8, 0x6115F052, 0x4B51E75F, 0x939C7BDD, 0x3F4D61DA]"
  by code_simp

lemma run_co_promote_binding_hash4: "sha_compress [0x6C2DF076, 0xC9566AD7, 0xEC53D3BB, 0xB38963B8, 0x6115F052, 0x4B51E75F, 0x939C7BDD, 0x3F4D61DA]
   [114, 128, 0, 0, 0, 0, 0, 0, 0, 0, 0, 0, 0, 0, 0, 0,
    0, 0, 0, 0, 0, 0, 0, 0, 0, 0, 0, 0, 0, 0, 0, 0,
    0, 0, 0, 0, 0, 0, 0, 0, 0, 0, 0, 0, 0, 0, 0, 0,
    0, 0, 0, 0, 0, 0, 0, 0, 0, 0, 0, 0, 0, 0, 6, 8] =
   [0xDB611528, 0xD3F4CF64, 0x9E6E9234, 0xECF434FD, 0x11D57443, 0xAF80158A, 0xFA4E0EF3, 0x324726F1]"
  by code_simp

text \<open>The digest of the payload of the binding record.\<close>

definition run_co_promote_binding :: bytes where
  "run_co_promote_binding = [219, 97, 21, 40, 211, 244, 207, 100, 158, 110, 146, 52, 236, 244, 52, 253,
    17, 213, 116, 67, 175, 128, 21, 138, 250, 78, 14, 243, 50, 71, 38, 241]"

lemma run_co_promote_binding_blocks:
  "blocks64 (sha_pad (binding_text run_co_promote_tx run_co_promote_request)) =
    [[85, 66, 84, 66, 68, 48, 49, 0, 203, 254, 142, 32, 110, 120, 152, 73,
    122, 191, 164, 133, 162, 209, 79, 235, 17, 198, 75, 103, 114, 143, 207, 195,
    206, 210, 84, 193, 9, 115, 136, 151, 20, 32, 239, 128, 227, 40, 167, 101,
    139, 3, 180, 200, 113, 230, 135, 164, 135, 236, 250, 220, 149, 247, 28, 129],
     [132, 124, 112, 134, 48, 197, 96, 199, 114, 176, 215, 135, 176, 174, 247, 61,
    37, 1, 218, 59, 190, 247, 1, 142, 37, 164, 146, 75, 165, 28, 192, 70,
    176, 168, 187, 50, 99, 169, 234, 152, 165, 231, 27, 49, 234, 32, 72, 151,
    227, 212, 118, 4, 76, 199, 121, 25, 158, 105, 72, 74, 17, 207, 99, 88],
     [70, 189, 208, 103, 166, 173, 201, 58, 0, 0, 0, 0, 0, 0, 0, 0,
    0, 0, 0, 0, 0, 0, 0, 0, 0, 0, 0, 0, 0, 0, 0, 0,
    0, 0, 0, 0, 0, 0, 0, 0, 1, 0, 0, 0, 0, 0, 0, 0,
    1, 0, 0, 0, 0, 0, 0, 0, 1, 0, 0, 0, 0, 0, 0, 0],
     [114, 128, 0, 0, 0, 0, 0, 0, 0, 0, 0, 0, 0, 0, 0, 0,
    0, 0, 0, 0, 0, 0, 0, 0, 0, 0, 0, 0, 0, 0, 0, 0,
    0, 0, 0, 0, 0, 0, 0, 0, 0, 0, 0, 0, 0, 0, 0, 0,
    0, 0, 0, 0, 0, 0, 0, 0, 0, 0, 0, 0, 0, 0, 6, 8]]"
  by code_simp

lemma length_run_co_promote_binding [simp]: "length run_co_promote_binding = 32"
  by (simp add: run_co_promote_binding_def)

lemma run_co_promote_binding_digest: "sha256 (binding_text run_co_promote_tx run_co_promote_request) = run_co_promote_binding"
  unfolding run_co_promote_binding_def
  by (rule sha256_by_blocks [OF _ run_co_promote_binding_blocks, unfolded foldl_Cons foldl_Nil run_co_promote_binding_hash1 run_co_promote_binding_hash2 run_co_promote_binding_hash3 run_co_promote_binding_hash4, OF _ refl])
    (simp add: usize_limit_def binding_text_def BINDING_PAYLOAD_MAGIC_def, code_simp)

lemma run_co_promote_numbers:
  "nonzero_u64 (slice run_co_promote_tx 16 24) = 14109653879097116177" "nonzero_u64 (slice run_co_promote_tx 24 32) = 10919103782295229134"
  by code_simp+

lemma run_co_promote_entry_hash1: "sha_compress sha_init_h
   [87, 0, 0, 0, 0, 0, 0, 0, 206, 210, 84, 193, 9, 115, 136, 151,
    193, 0, 0, 0, 0, 0, 0, 0, 219, 97, 21, 40, 211, 244, 207, 100,
    158, 110, 146, 52, 236, 244, 52, 253, 17, 213, 116, 67, 175, 128, 21, 138,
    250, 78, 14, 243, 50, 71, 38, 241, 95, 95, 117, 98, 100, 98, 95, 116] =
   [0x66FBC4E2, 0x56ACB561, 0x629A9D19, 0xA01F32F1, 0xD7D0FFD8, 0xCD121AD1, 0x505CCB2F, 0x3AF6CFCC]"
  by code_simp

lemma run_co_promote_entry_hash2: "sha_compress [0x66FBC4E2, 0x56ACB561, 0x629A9D19, 0xA01F32F1, 0xD7D0FFD8, 0xCD121AD1, 0x505CCB2F, 0x3AF6CFCC]
   [114, 117, 115, 116, 95, 98, 105, 110, 100, 105, 110, 103, 95, 95, 47, 67,
    66, 70, 69, 56, 69, 50, 48, 54, 69, 55, 56, 57, 56, 52, 57, 55,
    65, 66, 70, 65, 52, 56, 53, 65, 50, 68, 49, 52, 70, 69, 66, 49,
    49, 67, 54, 52, 66, 54, 55, 55, 50, 56, 70, 67, 70, 67, 51, 67] =
   [0x4314583F, 0x13272FA5, 0x64E201D3, 0x168DDAF1, 0x0374E9E5, 0xB9C4CBA9, 0xC5CF1230, 0x9DE3E941]"
  by code_simp

lemma run_co_promote_entry_hash3: "sha_compress [0x4314583F, 0x13272FA5, 0x64E201D3, 0x168DDAF1, 0x0374E9E5, 0xB9C4CBA9, 0xC5CF1230, 0x9DE3E941]
   [69, 68, 50, 53, 52, 67, 49, 48, 57, 55, 51, 56, 56, 57, 55, 85,
    66, 84, 66, 68, 48, 49, 0, 203, 254, 142, 32, 110, 120, 152, 73, 122,
    191, 164, 133, 162, 209, 79, 235, 17, 198, 75, 103, 114, 143, 207, 195, 206,
    210, 84, 193, 9, 115, 136, 151, 20, 32, 239, 128, 227, 40, 167, 101, 139] =
   [0x6102E30A, 0x95AECCAA, 0x6BD19C8B, 0xE67AD9A2, 0x8C13AE70, 0x0A0DE1C8, 0xE774DDA5, 0x0951F199]"
  by code_simp

lemma run_co_promote_entry_hash4: "sha_compress [0x6102E30A, 0x95AECCAA, 0x6BD19C8B, 0xE67AD9A2, 0x8C13AE70, 0x0A0DE1C8, 0xE774DDA5, 0x0951F199]
   [3, 180, 200, 113, 230, 135, 164, 135, 236, 250, 220, 149, 247, 28, 129, 132,
    124, 112, 134, 48, 197, 96, 199, 114, 176, 215, 135, 176, 174, 247, 61, 37,
    1, 218, 59, 190, 247, 1, 142, 37, 164, 146, 75, 165, 28, 192, 70, 176,
    168, 187, 50, 99, 169, 234, 152, 165, 231, 27, 49, 234, 32, 72, 151, 227] =
   [0x85385755, 0xC48A2948, 0x44F19A81, 0x4D4F10F2, 0x52A287AB, 0x229186B7, 0x9E5B2881, 0x469D0BBB]"
  by code_simp

lemma run_co_promote_entry_hash5: "sha_compress [0x85385755, 0xC48A2948, 0x44F19A81, 0x4D4F10F2, 0x52A287AB, 0x229186B7, 0x9E5B2881, 0x469D0BBB]
   [212, 118, 4, 76, 199, 121, 25, 158, 105, 72, 74, 17, 207, 99, 88, 70,
    189, 208, 103, 166, 173, 201, 58, 0, 0, 0, 0, 0, 0, 0, 0, 0,
    0, 0, 0, 0, 0, 0, 0, 0, 0, 0, 0, 0, 0, 0, 0, 0,
    0, 0, 0, 0, 0, 0, 0, 1, 0, 0, 0, 0, 0, 0, 0, 1] =
   [0xCD8D82F3, 0xD148AEF2, 0xE7B92B36, 0x20154025, 0x9F55C3F3, 0x98CD13E1, 0x28B6ADBE, 0x25D8AEF2]"
  by code_simp

lemma run_co_promote_entry_hash6: "sha_compress [0xCD8D82F3, 0xD148AEF2, 0xE7B92B36, 0x20154025, 0x9F55C3F3, 0x98CD13E1, 0x28B6ADBE, 0x25D8AEF2]
   [0, 0, 0, 0, 0, 0, 0, 1, 0, 0, 0, 0, 0, 0, 0, 114,
    128, 0, 0, 0, 0, 0, 0, 0, 0, 0, 0, 0, 0, 0, 0, 0,
    0, 0, 0, 0, 0, 0, 0, 0, 0, 0, 0, 0, 0, 0, 0, 0,
    0, 0, 0, 0, 0, 0, 0, 0, 0, 0, 0, 0, 0, 0, 10, 128] =
   [0xB4EB3164, 0xCEA6B9D9, 0xF75042CC, 0xA845F88C, 0x261AD853, 0x39750296, 0x3D73F736, 0x0E320F6E]"
  by code_simp

text \<open>The digest of the binding record as the state holds it.\<close>

definition run_co_promote_entry :: bytes where
  "run_co_promote_entry = [180, 235, 49, 100, 206, 166, 185, 217, 247, 80, 66, 204, 168, 69, 248, 140,
    38, 26, 216, 83, 57, 117, 2, 150, 61, 115, 247, 54, 14, 50, 15, 110]"

lemma run_co_promote_entry_blocks:
  "blocks64 (sha_pad (entry_text 10919103782295229134 193 run_co_promote_binding (BINDING_RECORD_PREFIX @ hex_digest run_co_promote_tx)
     (binding_text run_co_promote_tx run_co_promote_request))) =
    [[87, 0, 0, 0, 0, 0, 0, 0, 206, 210, 84, 193, 9, 115, 136, 151,
    193, 0, 0, 0, 0, 0, 0, 0, 219, 97, 21, 40, 211, 244, 207, 100,
    158, 110, 146, 52, 236, 244, 52, 253, 17, 213, 116, 67, 175, 128, 21, 138,
    250, 78, 14, 243, 50, 71, 38, 241, 95, 95, 117, 98, 100, 98, 95, 116],
     [114, 117, 115, 116, 95, 98, 105, 110, 100, 105, 110, 103, 95, 95, 47, 67,
    66, 70, 69, 56, 69, 50, 48, 54, 69, 55, 56, 57, 56, 52, 57, 55,
    65, 66, 70, 65, 52, 56, 53, 65, 50, 68, 49, 52, 70, 69, 66, 49,
    49, 67, 54, 52, 66, 54, 55, 55, 50, 56, 70, 67, 70, 67, 51, 67],
     [69, 68, 50, 53, 52, 67, 49, 48, 57, 55, 51, 56, 56, 57, 55, 85,
    66, 84, 66, 68, 48, 49, 0, 203, 254, 142, 32, 110, 120, 152, 73, 122,
    191, 164, 133, 162, 209, 79, 235, 17, 198, 75, 103, 114, 143, 207, 195, 206,
    210, 84, 193, 9, 115, 136, 151, 20, 32, 239, 128, 227, 40, 167, 101, 139],
     [3, 180, 200, 113, 230, 135, 164, 135, 236, 250, 220, 149, 247, 28, 129, 132,
    124, 112, 134, 48, 197, 96, 199, 114, 176, 215, 135, 176, 174, 247, 61, 37,
    1, 218, 59, 190, 247, 1, 142, 37, 164, 146, 75, 165, 28, 192, 70, 176,
    168, 187, 50, 99, 169, 234, 152, 165, 231, 27, 49, 234, 32, 72, 151, 227],
     [212, 118, 4, 76, 199, 121, 25, 158, 105, 72, 74, 17, 207, 99, 88, 70,
    189, 208, 103, 166, 173, 201, 58, 0, 0, 0, 0, 0, 0, 0, 0, 0,
    0, 0, 0, 0, 0, 0, 0, 0, 0, 0, 0, 0, 0, 0, 0, 0,
    0, 0, 0, 0, 0, 0, 0, 1, 0, 0, 0, 0, 0, 0, 0, 1],
     [0, 0, 0, 0, 0, 0, 0, 1, 0, 0, 0, 0, 0, 0, 0, 114,
    128, 0, 0, 0, 0, 0, 0, 0, 0, 0, 0, 0, 0, 0, 0, 0,
    0, 0, 0, 0, 0, 0, 0, 0, 0, 0, 0, 0, 0, 0, 0, 0,
    0, 0, 0, 0, 0, 0, 0, 0, 0, 0, 0, 0, 0, 0, 10, 128]]"
  by code_simp

lemma length_run_co_promote_entry [simp]: "length run_co_promote_entry = 32"
  by (simp add: run_co_promote_entry_def)

lemma run_co_promote_entry_digest: "sha256 (entry_text 10919103782295229134 193 run_co_promote_binding (BINDING_RECORD_PREFIX @ hex_digest run_co_promote_tx)
     (binding_text run_co_promote_tx run_co_promote_request)) = run_co_promote_entry"
  unfolding run_co_promote_entry_def
  by (rule sha256_by_blocks [OF _ run_co_promote_entry_blocks, unfolded foldl_Cons foldl_Nil run_co_promote_entry_hash1 run_co_promote_entry_hash2 run_co_promote_entry_hash3 run_co_promote_entry_hash4 run_co_promote_entry_hash5 run_co_promote_entry_hash6, OF _ refl])
    (simp add: usize_limit_def entry_text_def BINDING_RECORD_PREFIX_def binding_text_def BINDING_PAYLOAD_MAGIC_def, code_simp)

lemma run_co_promote_state_hash1: "sha_compress sha_init_h
   [85, 66, 83, 84, 65, 48, 49, 0, 2, 0, 0, 0, 0, 0, 0, 0,
    0, 0, 0, 0, 0, 0, 0, 0, 1, 0, 0, 0, 17, 198, 75, 103,
    114, 143, 207, 195, 80, 1, 0, 0, 0, 0, 0, 0, 180, 235, 49, 100,
    206, 166, 185, 217, 247, 80, 66, 204, 168, 69, 248, 140, 38, 26, 216, 83] =
   [0x210A383E, 0x4C16A452, 0x082D3AE7, 0x549B7208, 0x1FA96367, 0xF2AF41E0, 0x916E68BD, 0x0F50D9B1]"
  by code_simp

lemma run_co_promote_state_hash2: "sha_compress [0x210A383E, 0x4C16A452, 0x082D3AE7, 0x549B7208, 0x1FA96367, 0xF2AF41E0, 0x916E68BD, 0x0F50D9B1]
   [57, 117, 2, 150, 61, 115, 247, 54, 14, 50, 15, 110, 87, 0, 0, 0,
    0, 0, 0, 0, 206, 210, 84, 193, 9, 115, 136, 151, 193, 0, 0, 0,
    0, 0, 0, 0, 219, 97, 21, 40, 211, 244, 207, 100, 158, 110, 146, 52,
    236, 244, 52, 253, 17, 213, 116, 67, 175, 128, 21, 138, 250, 78, 14, 243] =
   [0xED66CB04, 0x070BACC5, 0xD0CCC5E9, 0xEC7BAADA, 0xA3A77BBF, 0x5E29A8DC, 0x6E39E4FF, 0x91EEBCB8]"
  by code_simp

lemma run_co_promote_state_hash3: "sha_compress [0xED66CB04, 0x070BACC5, 0xD0CCC5E9, 0xEC7BAADA, 0xA3A77BBF, 0x5E29A8DC, 0x6E39E4FF, 0x91EEBCB8]
   [50, 71, 38, 241, 95, 95, 117, 98, 100, 98, 95, 116, 114, 117, 115, 116,
    95, 98, 105, 110, 100, 105, 110, 103, 95, 95, 47, 67, 66, 70, 69, 56,
    69, 50, 48, 54, 69, 55, 56, 57, 56, 52, 57, 55, 65, 66, 70, 65,
    52, 56, 53, 65, 50, 68, 49, 52, 70, 69, 66, 49, 49, 67, 54, 52] =
   [0x17AB49F5, 0x43B9CDC5, 0x4EE9C1E6, 0x358D650F, 0xB9D5D14E, 0x8E4ADEC6, 0x22B31F90, 0x2B3B74AD]"
  by code_simp

lemma run_co_promote_state_hash4: "sha_compress [0x17AB49F5, 0x43B9CDC5, 0x4EE9C1E6, 0x358D650F, 0xB9D5D14E, 0x8E4ADEC6, 0x22B31F90, 0x2B3B74AD]
   [66, 54, 55, 55, 50, 56, 70, 67, 70, 67, 51, 67, 69, 68, 50, 53,
    52, 67, 49, 48, 57, 55, 51, 56, 56, 57, 55, 85, 66, 84, 66, 68,
    48, 49, 0, 203, 254, 142, 32, 110, 120, 152, 73, 122, 191, 164, 133, 162,
    209, 79, 235, 17, 198, 75, 103, 114, 143, 207, 195, 206, 210, 84, 193, 9] =
   [0xDC40487F, 0xF6EDEB4B, 0x3572E6BF, 0x1D178023, 0xCD97A0DC, 0x2DCE6F33, 0x049CE8EE, 0x009B1742]"
  by code_simp

lemma run_co_promote_state_hash5: "sha_compress [0xDC40487F, 0xF6EDEB4B, 0x3572E6BF, 0x1D178023, 0xCD97A0DC, 0x2DCE6F33, 0x049CE8EE, 0x009B1742]
   [115, 136, 151, 20, 32, 239, 128, 227, 40, 167, 101, 139, 3, 180, 200, 113,
    230, 135, 164, 135, 236, 250, 220, 149, 247, 28, 129, 132, 124, 112, 134, 48,
    197, 96, 199, 114, 176, 215, 135, 176, 174, 247, 61, 37, 1, 218, 59, 190,
    247, 1, 142, 37, 164, 146, 75, 165, 28, 192, 70, 176, 168, 187, 50, 99] =
   [0x16D07C54, 0xA52853A7, 0x79A1F5E6, 0x1B2B4690, 0x3DE8C5A1, 0xD1AA7CAD, 0xD30E24D7, 0xB4695DB9]"
  by code_simp

lemma run_co_promote_state_hash6: "sha_compress [0x16D07C54, 0xA52853A7, 0x79A1F5E6, 0x1B2B4690, 0x3DE8C5A1, 0xD1AA7CAD, 0xD30E24D7, 0xB4695DB9]
   [169, 234, 152, 165, 231, 27, 49, 234, 32, 72, 151, 227, 212, 118, 4, 76,
    199, 121, 25, 158, 105, 72, 74, 17, 207, 99, 88, 70, 189, 208, 103, 166,
    173, 201, 58, 0, 0, 0, 0, 0, 0, 0, 0, 0, 0, 0, 0, 0,
    0, 0, 0, 0, 0, 0, 0, 0, 0, 0, 0, 0, 0, 0, 0, 0] =
   [0x49F173A5, 0x7E127C6F, 0x98AF446F, 0x5BD7696A, 0x5473E126, 0x9F83FFDF, 0x5BB16C0B, 0x35A4968E]"
  by code_simp

lemma run_co_promote_state_hash7: "sha_compress [0x49F173A5, 0x7E127C6F, 0x98AF446F, 0x5BD7696A, 0x5473E126, 0x9F83FFDF, 0x5BB16C0B, 0x35A4968E]
   [0, 0, 0, 1, 0, 0, 0, 0, 0, 0, 0, 1, 0, 0, 0, 0,
    0, 0, 0, 1, 0, 0, 0, 0, 0, 0, 0, 114, 1, 0, 0, 0,
    1, 0, 0, 0, 0, 0, 0, 0, 58, 0, 0, 0, 0, 0, 0, 0,
    197, 183, 192, 77, 31, 14, 62, 245, 93, 92, 38, 148, 93, 207, 50, 171] =
   [0xFBAC322A, 0xBF30C137, 0x231725DE, 0xB20473FC, 0xA5AB337F, 0x99311FE8, 0xDA2DD49B, 0x66EC1D81]"
  by code_simp

lemma run_co_promote_state_hash8: "sha_compress [0xFBAC322A, 0xBF30C137, 0x231725DE, 0xB20473FC, 0xA5AB337F, 0x99311FE8, 0xDA2DD49B, 0x66EC1D81]
   [78, 49, 136, 71, 236, 23, 34, 220, 182, 211, 72, 70, 145, 24, 7, 211,
    1, 0, 0, 0, 0, 0, 0, 0, 1, 0, 0, 0, 0, 0, 0, 0,
    1, 0, 0, 0, 0, 0, 0, 0, 76, 148, 72, 94, 12, 33, 174, 108,
    65, 206, 29, 254, 123, 107, 250, 206, 234, 90, 182, 142, 64, 162, 71, 111] =
   [0x0929E5D3, 0x2D890C9F, 0xF142455F, 0x340FD27D, 0x66C1C49C, 0xAC85CA54, 0xF7D5057A, 0xFCCD6B55]"
  by code_simp

lemma run_co_promote_state_hash9: "sha_compress [0x0929E5D3, 0x2D890C9F, 0xF142455F, 0x340FD27D, 0x66C1C49C, 0xAC85CA54, 0xF7D5057A, 0xFCCD6B55]
   [80, 32, 142, 82, 111, 80, 96, 128, 114, 118, 128, 0, 0, 0, 0, 0,
    0, 0, 0, 0, 0, 0, 0, 0, 0, 0, 0, 0, 0, 0, 0, 0,
    0, 0, 0, 0, 0, 0, 0, 0, 0, 0, 0, 0, 0, 0, 0, 0,
    0, 0, 0, 0, 0, 0, 0, 0, 0, 0, 0, 0, 0, 0, 16, 80] =
   [0xF6FE3BFF, 0xD91CC280, 0x9D549D14, 0x6E66444C, 0xC8D3C2BC, 0x7ED7BD03, 0x3F734692, 0xFFF83CE9]"
  by code_simp

text \<open>The hash of the state with the binding record.\<close>

definition run_co_promote_state :: bytes where
  "run_co_promote_state = [246, 254, 59, 255, 217, 28, 194, 128, 157, 84, 157, 20, 110, 102, 68, 76,
    200, 211, 194, 188, 126, 215, 189, 3, 63, 115, 70, 146, 255, 248, 60, 233]"

lemma run_co_promote_state_blocks:
  "blocks64 (sha_pad (STATE_HASH_MAGIC @ u64_le 2 @ u64_le 0 @ u16_le 1 @ u16_le 0 @ u64_le 14109653879097116177 @ u64_le 336 @ run_co_promote_entry
     @ entry_text 10919103782295229134 193 run_co_promote_binding (BINDING_RECORD_PREFIX @ hex_digest run_co_promote_tx)
     (binding_text run_co_promote_tx run_co_promote_request)
     @ u16_le 1 @ u16_le 0 @ u64_le 1 @ u64_le 58 @ run_co_entry @ entry_text 1 1 run_co_value (lit ''r'') (lit ''v''))) =
    [[85, 66, 83, 84, 65, 48, 49, 0, 2, 0, 0, 0, 0, 0, 0, 0,
    0, 0, 0, 0, 0, 0, 0, 0, 1, 0, 0, 0, 17, 198, 75, 103,
    114, 143, 207, 195, 80, 1, 0, 0, 0, 0, 0, 0, 180, 235, 49, 100,
    206, 166, 185, 217, 247, 80, 66, 204, 168, 69, 248, 140, 38, 26, 216, 83],
     [57, 117, 2, 150, 61, 115, 247, 54, 14, 50, 15, 110, 87, 0, 0, 0,
    0, 0, 0, 0, 206, 210, 84, 193, 9, 115, 136, 151, 193, 0, 0, 0,
    0, 0, 0, 0, 219, 97, 21, 40, 211, 244, 207, 100, 158, 110, 146, 52,
    236, 244, 52, 253, 17, 213, 116, 67, 175, 128, 21, 138, 250, 78, 14, 243],
     [50, 71, 38, 241, 95, 95, 117, 98, 100, 98, 95, 116, 114, 117, 115, 116,
    95, 98, 105, 110, 100, 105, 110, 103, 95, 95, 47, 67, 66, 70, 69, 56,
    69, 50, 48, 54, 69, 55, 56, 57, 56, 52, 57, 55, 65, 66, 70, 65,
    52, 56, 53, 65, 50, 68, 49, 52, 70, 69, 66, 49, 49, 67, 54, 52],
     [66, 54, 55, 55, 50, 56, 70, 67, 70, 67, 51, 67, 69, 68, 50, 53,
    52, 67, 49, 48, 57, 55, 51, 56, 56, 57, 55, 85, 66, 84, 66, 68,
    48, 49, 0, 203, 254, 142, 32, 110, 120, 152, 73, 122, 191, 164, 133, 162,
    209, 79, 235, 17, 198, 75, 103, 114, 143, 207, 195, 206, 210, 84, 193, 9],
     [115, 136, 151, 20, 32, 239, 128, 227, 40, 167, 101, 139, 3, 180, 200, 113,
    230, 135, 164, 135, 236, 250, 220, 149, 247, 28, 129, 132, 124, 112, 134, 48,
    197, 96, 199, 114, 176, 215, 135, 176, 174, 247, 61, 37, 1, 218, 59, 190,
    247, 1, 142, 37, 164, 146, 75, 165, 28, 192, 70, 176, 168, 187, 50, 99],
     [169, 234, 152, 165, 231, 27, 49, 234, 32, 72, 151, 227, 212, 118, 4, 76,
    199, 121, 25, 158, 105, 72, 74, 17, 207, 99, 88, 70, 189, 208, 103, 166,
    173, 201, 58, 0, 0, 0, 0, 0, 0, 0, 0, 0, 0, 0, 0, 0,
    0, 0, 0, 0, 0, 0, 0, 0, 0, 0, 0, 0, 0, 0, 0, 0],
     [0, 0, 0, 1, 0, 0, 0, 0, 0, 0, 0, 1, 0, 0, 0, 0,
    0, 0, 0, 1, 0, 0, 0, 0, 0, 0, 0, 114, 1, 0, 0, 0,
    1, 0, 0, 0, 0, 0, 0, 0, 58, 0, 0, 0, 0, 0, 0, 0,
    197, 183, 192, 77, 31, 14, 62, 245, 93, 92, 38, 148, 93, 207, 50, 171],
     [78, 49, 136, 71, 236, 23, 34, 220, 182, 211, 72, 70, 145, 24, 7, 211,
    1, 0, 0, 0, 0, 0, 0, 0, 1, 0, 0, 0, 0, 0, 0, 0,
    1, 0, 0, 0, 0, 0, 0, 0, 76, 148, 72, 94, 12, 33, 174, 108,
    65, 206, 29, 254, 123, 107, 250, 206, 234, 90, 182, 142, 64, 162, 71, 111],
     [80, 32, 142, 82, 111, 80, 96, 128, 114, 118, 128, 0, 0, 0, 0, 0,
    0, 0, 0, 0, 0, 0, 0, 0, 0, 0, 0, 0, 0, 0, 0, 0,
    0, 0, 0, 0, 0, 0, 0, 0, 0, 0, 0, 0, 0, 0, 0, 0,
    0, 0, 0, 0, 0, 0, 0, 0, 0, 0, 0, 0, 0, 0, 16, 80]]"
  by code_simp

lemma length_run_co_promote_state [simp]: "length run_co_promote_state = 32"
  by (simp add: run_co_promote_state_def)

lemma run_co_promote_state_digest: "sha256 (STATE_HASH_MAGIC @ u64_le 2 @ u64_le 0 @ u16_le 1 @ u16_le 0 @ u64_le 14109653879097116177 @ u64_le 336 @ run_co_promote_entry
     @ entry_text 10919103782295229134 193 run_co_promote_binding (BINDING_RECORD_PREFIX @ hex_digest run_co_promote_tx)
     (binding_text run_co_promote_tx run_co_promote_request)
     @ u16_le 1 @ u16_le 0 @ u64_le 1 @ u64_le 58 @ run_co_entry @ entry_text 1 1 run_co_value (lit ''r'') (lit ''v'')) = run_co_promote_state"
  unfolding run_co_promote_state_def
  by (rule sha256_by_blocks [OF _ run_co_promote_state_blocks, unfolded foldl_Cons foldl_Nil run_co_promote_state_hash1 run_co_promote_state_hash2 run_co_promote_state_hash3 run_co_promote_state_hash4 run_co_promote_state_hash5 run_co_promote_state_hash6 run_co_promote_state_hash7 run_co_promote_state_hash8 run_co_promote_state_hash9, OF _ refl])
    (simp add: usize_limit_def STATE_HASH_MAGIC_def entry_text_def BINDING_RECORD_PREFIX_def binding_text_def BINDING_PAYLOAD_MAGIC_def, code_simp)

end
