(* ===== verification/Ub_Co_Demo.thy ===== *)
theory Ub_Co_Demo
  imports Ub_Co_Runs Ub_Co_Hashes Ub_Durability
begin

text \<open>
  Concrete runs of the trust co-commit coordinator: a database with one record, a registry with one
  policy, an empty trust ledger and an empty journal, with a request that the ledger admits and one
  that it refuses.
\<close>

subsection \<open>A coordinator with one record and one policy\<close>

definition co_demo_record :: operation where
  "co_demo_record = PutRecordOp 1 (lit ''r'') 1 (lit ''v'')"

definition co_demo_policy :: policy_definition where
  "co_demo_policy = \<lparr>pd_policy_id = lit ''p'', pd_policy_version = lit ''1'', pd_allowed_authority = EvidencePolicy,
     pd_allowed_operation_mask = 63, pd_min_evidence_refs = 1, pd_max_evidence_refs = 1,
     pd_required_verifier_id = lit ''a'', pd_require_unique_provenance = False\<rparr>"

definition co_demo_evidence :: evidence_ref where
  "co_demo_evidence = \<lparr>er_evidence_id = lit ''e'', er_provenance_id = lit ''w'', er_evidence_digest = replicate 32 5\<rparr>"

definition co_demo_request :: "trust_operation \<Rightarrow> commit_request" where
  "co_demo_request operation = \<lparr>cq_record_id = lit ''r'', cq_operation = operation, cq_authority = EvidencePolicy,
     cq_evidence_refs = [co_demo_evidence], cq_policy_id = lit ''p'', cq_policy_version = lit ''1'', cq_verifier_id = lit ''a'',
     cq_logical_timestamp = 1, cq_reason_code = lit ''n'', cq_superseding_record_id = None\<rparr>"

definition co_demo_state :: recovered_state where
  "co_demo_state = operations_apply [co_demo_record] empty_state"

definition co_demo_policies :: policy_registry where
  "co_demo_policies = (let r = policies_empty [lit ''policies''] in policies_push r (policy_stamped r co_demo_policy))"

definition co_demo_policy_file :: bytes where
  "co_demo_policy_file = event_bytes POLICY_LEDGER_MAGIC policy_frame (policy_stamped (policies_empty [lit ''policies'']) co_demo_policy)"

definition co_demo_fs :: fsys where
  "co_demo_fs = blank_fs\<lparr>fs_files := [([lit ''trust''], []), ([lit ''policies''], co_demo_policy_file), ([lit ''journal''], [])]\<rparr>"

lemma co_demo_fget:
  "fget co_demo_fs = [[lit ''trust''] \<mapsto> [], [lit ''policies''] \<mapsto> co_demo_policy_file, [lit ''journal''] \<mapsto> []]"
  by (auto simp: co_demo_fs_def fget_def blank_fs_def lit_def)

lemma co_demo_fresh: "fresh_root co_demo_fs [lit ''db'']"
  using blank_fresh unfolding fresh_root_def fs_quiet_def co_demo_fget
  by (auto simp: hidden_name_def path_prefixes_def starts_with_def co_demo_fs_def blank_fs_def lit_def)

lemma co_demo_policy_valid: "validate_policy co_demo_policy = Inr ()" "policy_typed co_demo_policy"
  by (simp_all add: validate_policy_def co_demo_policy_def tc_validate_string_def MAX_STRING_BYTES_def lit_def policy_typed_def)

lemma co_demo_policies_synced: "policy_file.in_sync (policies_empty [lit ''policies'']) co_demo_policies co_demo_policy_file"
proof -
  let ?r = "policies_empty [lit ''policies'']" and ?e = "policy_stamped (policies_empty [lit ''policies'']) co_demo_policy"
  have a: "policies_admit ?r ?e"
    using validated_policy_fits [OF co_demo_policy_valid] co_demo_policy_valid(1)
    by (simp add: policies_admit_def frame_follows_def policy_frame_def policy_stamped_def policies_empty_def)
  have "length (event_bytes POLICY_LEDGER_MAGIC policy_frame ?e) < usize_limit"
    by (simp add: event_bytes_def Ub_Chain.entry_bytes_def policy_frame_def length_chain_header policy_stamped_def policies_empty_def
        length_policy_payload co_demo_policy_def usize_limit_def)
  from policy_file.in_sync_push [OF policy_file.in_sync_empty a] this
  show ?thesis by (simp add: co_demo_policies_def co_demo_policy_file_def Let_def)
qed

definition co_demo :: "coordinator \<Rightarrow> fsys \<Rightarrow> bool" where
  "co_demo c fs \<longleftrightarrow> co_ok c fs \<and> dd_state (co_database c) = co_demo_state \<and> dd_committed (co_database c) = [replicate 16 1] \<and>
     co_trust c = empty_ledger [lit ''trust''] \<and> co_policies c = co_demo_policies \<and> co_journal c = journal_empty [lit ''journal''] \<and>
     fget fs [lit ''trust''] = Some [] \<and> fget fs [lit ''journal''] = Some [] \<and>
     (\<exists>frames. load_checkpoint (dd_store (co_database c)) fs = Inr (empty_state, [], 0, 0) \<and> wal_at (dd_wal (co_database c)) frames fs \<and>
        final_lsn 0 frames = 3 \<and> length (log_bytes frames) < 2 ^ 10 \<and>
        fget fs (segment_path (dd_store (co_database c)) 1 4) = None \<and>
        fget fs (checkpoint_path (dd_store (co_database c)) 1) = None \<and> fget fs (mpath (dd_store (co_database c)) 1) = None)"

lemma co_demo_record_ok: "demo_ok co_demo_record"
  by (simp add: demo_ok_def co_demo_record_def record_payload_def usize_limit_def lit_def)

lemma co_demo_pad: "pad020 4 \<noteq> pad020 1"
  by code_simp

lemma co_demo_exists: obtains c fs where "co_demo c fs"
proof -
  obtain db fs where cr: "db_create [lit ''db''] co_demo_fs = (Inr db, fs)" and st: "dd_state db = empty_state" "dd_committed db = []"
    and rt: "ps_root (dd_store db) = [lit ''db'']" and n: "ww_next_lsn (dd_wal db) = 1" and i: "db_inv db fs [] []"
    and f: "fget fs = (fget co_demo_fs)(default_wal_path [lit ''db''] \<mapsto> [])"
    using db_create_ok [OF co_demo_fresh] by blast
  note bf = demo_batch_facts [OF co_demo_record_ok]
  have free: "fget fs (segment_path (dd_store db) 1 1) = None"
    by (simp add: f co_demo_fget rt segment_path_def default_wal_path_def lit_def)
  have room: "transaction_room (dd_wal db) [] (demo_batch co_demo_record) [co_demo_record]"
    by (rule demo_room [OF co_demo_record_ok]) (simp_all add: n)
  obtain receipt db' fs' where s: "dd_store db' = dd_store db" "dd_state db' = operations_apply [co_demo_record] (dd_state db)"
    and cm: "dd_committed db' = bset_insert (replicate 16 1) (dd_committed db)"
    and i': "db_inv db' fs' ([] @ transaction_frames 1 (demo_batch co_demo_record) [co_demo_record] (state_hash (dd_state db'))) []"
    and f': "fget fs' = (fget fs)(segment_path (dd_store db) 1 1 \<mapsto> segment_encoding 1 STORAGE_MINOR (pb_entries (demo_batch co_demo_record)),
        dd_wal_path db \<mapsto> log_bytes ([] @ transaction_frames 1 (demo_batch co_demo_record) [co_demo_record] (state_hash (dd_state db'))))"
    using commit_prepared_ok [OF i bf(1) bf(4) _ _ free bf(2) room] st by (auto simp: n bf(3) simp del: operations_apply_simps append_Nil)
  let ?fr = "transaction_frames 1 (demo_batch co_demo_record) [co_demo_record] (state_hash (dd_state db'))"
  let ?c = "\<lparr>co_root = [lit ''db''], co_database = db', co_trust = empty_ledger [lit ''trust''], co_policies = co_demo_policies,
     co_journal = journal_empty [lit ''journal''], co_last_recovery = no_recovery\<rparr>"
  have wp: "dd_wal_path db = default_wal_path [lit ''db'']" using i rt by (simp add: db_inv_def)
  have out: "fget fs' p = fget co_demo_fs p" if "outside [lit ''db''] p" for p
    using that outside_neq [OF that] by (simp add: f' f rt wp segment_path_def default_wal_path_def)
  have o: "outside [lit ''db''] [lit ''trust'']" "outside [lit ''db''] [lit ''policies'']" "outside [lit ''db''] [lit ''journal'']"
    by (simp_all add: outside_def lit_def)
  have fg: "fget fs' [lit ''trust''] = Some []" "fget fs' [lit ''policies''] = Some co_demo_policy_file" "fget fs' [lit ''journal''] = Some []"
    by (simp_all add: out o co_demo_fget) (simp_all add: lit_def)
  have pp: "pr_path co_demo_policies = [lit ''policies'']"
    by (simp add: co_demo_policies_def Let_def policies_push_def policies_record_def policies_empty_def)
  have li: "ledger_inv (empty_ledger [lit ''trust''], fs')"
    unfolding ledger_inv_def by (intro exI [of _ "[lit ''trust'']"] exI [of _ "[]"]) (simp add: fg ledger_of_def)
  have sep: "co_separate ?c" by (simp add: co_separate_def pp o empty_ledger_def journal_empty_def) (simp add: lit_def)
  have ok: "co_ok ?c fs'"
    using i' rt s(1) sep li co_demo_policies_synced journal_file.in_sync_empty fg
    unfolding co_ok_def by (auto simp: pp journal_empty_def)
  have "fget fs' (head_path (dd_store db')) = None"
    by (simp add: f' f rt wp s(1) co_demo_fget head_path_def segment_path_def default_wal_path_def lit_def)
  then have "\<not> fs_exists fs' (head_path (dd_store db'))" using i' by (simp add: fs_exists_def db_inv_def store_ready_def)
  then have "load_checkpoint (dd_store db') fs' = Inr (empty_state, [], 0, 0)" by (rule load_checkpoint_none)
  moreover have "wal_at (dd_wal db') ?fr fs'" using i' by (simp add: db_inv_def)
  moreover have "final_lsn 0 ?fr = 3" by (simp add: final_lsn_def transaction_frames_def commit_frame_def)
  moreover have "length (log_bytes ?fr) < 2 ^ 10"
    using demo_frames_length(1) [of "state_hash (dd_state db')" 1 co_demo_record] co_demo_record_ok
    by (simp add: length_state_hash' demo_ok_def)
  moreover have "fget fs' (segment_path (dd_store db') 1 4) = None" "fget fs' (checkpoint_path (dd_store db') 1) = None" "fget fs' (mpath (dd_store db') 1) = None"
    by (simp_all add: f' f rt wp s(1) co_demo_fget segment_path_def default_wal_path_def checkpoint_path_def mpath_def manifest_path_def) 
      (use co_demo_pad in \<open>auto simp: lit_def\<close>)
  ultimately have "co_demo ?c fs'"
    using ok st s(2) cm fg by (auto simp: co_demo_def co_demo_state_def bset_insert_def simp del: operations_apply_simps)
  then show thesis by (rule that)
qed

definition co_demo_value :: database_record where
  "co_demo_value = record_value (lit ''r'') (1, 1, lit ''v'')"

definition co_demo_context :: "trust_operation \<Rightarrow> prepared_context" where
  "co_demo_context operation =
     (let q = co_demo_request operation; rd = canonical_database_record_digest co_demo_value; pd = registered_digest co_demo_policy;
          qd = compute_request_digest q; tx = compute_transaction_id (state_hash co_demo_state) (replicate 32 0) pd rd qd 1;
          b = BINDING_PAYLOAD_MAGIC @ tx @ rd @ pd @ qd @ replicate 32 0 @ u64_le 1 @ u64_le 1 @ u32_le 1 @ u32_le 0 @ lit ''r'' in
      \<lparr>px_request = q, px_transaction_id = tx, px_record_digest = rd, px_policy_digest = pd, px_request_digest = qd,
       px_trust_pre_head = replicate 32 0, px_expected_trust_sequence = 1,
       px_binding_record_id = BINDING_RECORD_PREFIX @ hex_digest tx, px_binding_payload = b, px_binding_record_digest = sha256 b\<rparr>)"

lemma co_demo_request_ok: "validate_request (co_demo_request op) = Inr ()" "request_typed (co_demo_request op)"
  by (simp_all add: validate_request_def co_demo_request_def co_demo_evidence_def tc_validate_string_def MAX_STRING_BYTES_def lit_def
      request_typed_def superseding_text_def evidence_typed_def list_all_iff)

lemma co_demo_allows: "policy_allows co_demo_policy op"
  by (cases op) (simp_all add: policy_allows_def co_demo_policy_def operation_bit_def)

lemma co_demo_authorized: "policies_authorize co_demo_policies (co_demo_request op) = Inr (registered_digest co_demo_policy)"
  using co_demo_allows [of op]
  by (simp add: policies_authorize_iff co_demo_policies_def policies_push_def policies_record_def policies_empty_def policy_stamped_def
      policy_key_def authorized_by_def co_demo_policy_def co_demo_request_def)

lemma co_demo_get: "bt_get (rs_records co_demo_state) k = (if k = lit ''r'' then Some (operation_entry co_demo_record) else None)"
  by (simp add: co_demo_state_def co_demo_record_def empty_state_def)

lemma co_demo_target:
  assumes "dd_state (co_database c) = co_demo_state"
  shows "co_record d c (lit ''r'') = Inr (Some co_demo_value)" and "k \<noteq> lit ''r'' \<Longrightarrow> co_record d c k = Inr None"
proof -
  have "decode_database_record (lit ''r'') (operation_entry co_demo_record) = Inr co_demo_value"
    unfolding co_demo_record_def co_demo_value_def
    by (rule decode_record_ok) (simp_all add: lit_def usize_limit_def)
  then show "co_record d c (lit ''r'') = Inr (Some co_demo_value)" "k \<noteq> lit ''r'' \<Longrightarrow> co_record d c k = Inr None"
    using assms by (simp_all add: co_record_def db_record_def co_demo_get transpose_option_def)
qed

lemma co_demo_prepares:
  assumes "co_demo c fs"
  shows "prepare_context d c (co_demo_request op) = Inr (co_demo_context op)"
proof -
  have s: "dd_state (co_database c) = co_demo_state" "co_trust c = empty_ledger [lit ''trust'']" "co_policies c = co_demo_policies"
    using assms by (simp_all add: co_demo_def)
  have r: "cq_record_id (co_demo_request op) = lit ''r''" "cq_superseding_record_id (co_demo_request op) = None"
    "cq_logical_timestamp (co_demo_request op) = 1"
    by (simp_all add: co_demo_request_def)
  have ns: "\<not> starts_with (lit ''r'') BINDING_RECORD_PREFIX" by (simp add: starts_with_def BINDING_RECORD_PREFIX_def lit_def)
  have ne: "BINDING_RECORD_PREFIX @ x \<noteq> lit ''r''" for x by (simp add: BINDING_RECORD_PREFIX_def lit_def)
  have tr: "tl_transitions (empty_ledger p) = []" "tl_head_digest (empty_ledger p) = replicate 32 0" "ledger_snapshot (empty_ledger p) k = None" for p k
    by (simp_all add: empty_ledger_def ledger_snapshot_def)
  show ?thesis
    unfolding prepare_context_def co_demo_request_ok r s co_demo_authorized require_target_record_def tr co_demo_target(1) [OF s(1)]
      co_demo_context_def
    by (simp add: ns Let_def validate_superseding_binding_def r co_demo_target(2) [OF s(1) ne] encode_binding_payload_def
      tc_validate_string_def MAX_STRING_BYTES_def) (simp add: lit_def)
qed

lemmas co_demo_lengths = co_demo_context_def compute_transaction_id_def canonical_database_record_digest_def registered_digest_def
  co_demo_request_def co_demo_evidence_def BINDING_RECORD_PREFIX_def BINDING_PAYLOAD_MAGIC_def compute_request_digest_def

lemma co_demo_entry_small: "length (commit_payload (prepared_entry (co_demo_context op))) \<le> MAX_FRAME_PAYLOAD_BYTES"
  by (simp add: commit_payload_def prepared_entry_def stage_entry_def Let_def MAX_FRAME_PAYLOAD_BYTES_def co_demo_lengths
      superseding_text_def evidence_bytes_def)

text \<open>The records of the database once the binding record is there; its name sorts before the other.\<close>

definition co_demo_bound :: "trust_operation \<Rightarrow> recovered_state" where
  "co_demo_bound op = (let x = co_demo_context op in
     \<lparr>rs_records = [(px_binding_record_id x, operation_entry (binding_op x)), (lit ''r'', operation_entry co_demo_record)], rs_edges = []\<rparr>)"

lemma co_demo_bound: "operations_apply [binding_op (co_demo_context op)] co_demo_state = co_demo_bound op"
proof -
  have "px_binding_record_id (co_demo_context op) < lit ''r''"
    by (simp add: co_demo_context_def Let_def BINDING_RECORD_PREFIX_def lit_def)
  then show ?thesis
    by (simp add: co_demo_state_def co_demo_record_def co_demo_bound_def binding_op_def empty_state_def Let_def)
qed

lemma co_demo_checkpoint_small:
  "80 + length (encode_checkpoint_payload 0 (co_demo_bound op) (bset_insert (binding_tx (co_demo_context op)) [replicate 16 1])) < usize_limit"
proof -
  have "length (concat (bset_insert (binding_tx (co_demo_context op)) [replicate 16 1])) \<le> 32"
    by (simp add: bset_insert_def binding_tx_def slice_def)
  moreover have "length (concat (map encode_entry_for_hash (state_entries (co_demo_bound op)))) \<le> 1000"
    by (simp add: state_entries_def co_demo_bound_def bt_values_def encode_entry_for_hash_def binding_op_def co_demo_record_def
        record_payload_def Let_def co_demo_lengths)
  ultimately show ?thesis
    by (simp add: encode_checkpoint_payload_def length_state_hash' usize_limit_def split: prod.split)
qed

lemma co_demo_room:
  assumes c: "co_demo c fs" and tx: "binding_tx (co_demo_context op) \<noteq> zero_tx" "binding_tx (co_demo_context op) \<noteq> replicate 16 1"
    and h: "state_hash (co_demo_bound op) \<noteq> replicate 32 0"
  shows "commit_room d (co_demo_request op) (co_demo_context op) c fs"
proof -
  note f = c [unfolded co_demo_def]
  obtain frames where fr: "load_checkpoint (dd_store (co_database c)) fs = Inr (empty_state, [], 0, 0)" "wal_at (dd_wal (co_database c)) frames fs"
    "final_lsn 0 frames = 3" "length (log_bytes frames) < 2 ^ 10" "fget fs (segment_path (dd_store (co_database c)) 1 4) = None"
    "fget fs (checkpoint_path (dd_store (co_database c)) 1) = None" "fget fs (mpath (dd_store (co_database c)) 1) = None"
    using f by blast
  have st: "dd_state (co_database c) = co_demo_state" "dd_committed (co_database c) = [replicate 16 1]" using f by simp_all
  have "journal_room 4 c fs" "trust_room c fs" using f by (simp_all add: journal_room_def trust_room_def usize_limit_def journal_empty_def empty_ledger_def)
  moreover have "binding_room (co_demo_context op) (co_database c) fs"
    unfolding binding_room_def st co_demo_bound
  proof (intro conjI exI [of _ empty_state] exI [of _ "[] :: tx_id list"] exI [of _ "0 :: u64"] exI [of _ frames])
    show "length (log_bytes frames) + 2 ^ 23 < usize_limit" using fr(4) by (simp add: usize_limit_def)
  qed (use fr tx co_demo_checkpoint_small in \<open>simp_all add: fr(3)\<close>)
  moreover have "journal_pending (journal_empty p) = []" "bt_get (cj_latest (journal_empty p)) k = None" for p k
    by (simp_all add: journal_pending_def journal_empty_def bt_values_def)
  ultimately show ?thesis
    unfolding commit_room_def using f co_demo_request_ok(2) co_demo_entry_small co_demo_prepares [OF c] h
    by (simp add: co_demo_bound del: operations_apply_simps)
qed

subsection \<open>Its digests\<close>

lemma co_demo_digests:
  "canonical_database_record_digest co_demo_value = run_co_record" "registered_digest co_demo_policy = run_co_policy"
  "state_hash co_demo_state = run_co_state" "compute_request_digest (co_demo_request Propose) = run_co_propose_request"
  "compute_request_digest (co_demo_request Promote) = run_co_promote_request"
proof -
  show "canonical_database_record_digest co_demo_value = run_co_record"
    using run_co_record_digest
    by (simp add: canonical_database_record_digest_def co_demo_value_def record_value_def run_co_value_digest)
  show "registered_digest co_demo_policy = run_co_policy"
    using run_co_policy_digest by (simp add: registered_digest_def length_policy_payload) (simp add: policy_payload_def co_demo_policy_def)
  show "state_hash co_demo_state = run_co_state"
    using run_co_state_digest run_co_entry_digest
    by (simp add: state_hash_def co_demo_state_def co_demo_record_def empty_state_def state_entries_def bt_values_def encode_entry_for_hash_def
        record_payload_def entry_text_def run_co_value_digest)
  show "compute_request_digest (co_demo_request Propose) = run_co_propose_request"
    using run_co_propose_request_digest
    by (simp add: compute_request_digest_def co_demo_request_def co_demo_evidence_def push_string_def tc_push_optional_string_def)
  show "compute_request_digest (co_demo_request Promote) = run_co_promote_request"
    using run_co_promote_request_digest
    by (simp add: compute_request_digest_def co_demo_request_def co_demo_evidence_def push_string_def tc_push_optional_string_def)
qed

lemma co_demo_transaction_ids:
  "px_transaction_id (co_demo_context Propose) = run_co_propose_tx" "px_transaction_id (co_demo_context Promote) = run_co_promote_tx"
  using run_co_propose_tx_digest run_co_promote_tx_digest
  by (simp_all add: co_demo_context_def Let_def co_demo_digests compute_transaction_id_def)

lemma co_demo_payloads:
  "px_binding_payload (co_demo_context Propose) = binding_text run_co_propose_tx run_co_propose_request"
  "px_binding_payload (co_demo_context Promote) = binding_text run_co_promote_tx run_co_promote_request"
  using co_demo_transaction_ids by (simp_all add: co_demo_context_def Let_def co_demo_digests binding_text_def)

lemma co_demo_ids: "px_binding_record_id (co_demo_context op) = BINDING_RECORD_PREFIX @ hex_digest (px_transaction_id (co_demo_context op))"
  by (simp add: co_demo_context_def Let_def)

lemma length_binding_text: "length (binding_text tx h) = 129 + length tx + length h"
  by (simp add: binding_text_def BINDING_PAYLOAD_MAGIC_def)

lemma length_binding_prefix: "length BINDING_RECORD_PREFIX = 23"
  by (simp add: BINDING_RECORD_PREFIX_def)

lemma co_demo_states:
  "state_hash (co_demo_bound Propose) = run_co_propose_state" "state_hash (co_demo_bound Promote) = run_co_promote_state"
  using run_co_propose_state_digest run_co_promote_state_digest run_co_propose_entry_digest run_co_promote_entry_digest run_co_entry_digest
  by (simp_all add: state_hash_def co_demo_bound_def state_entries_def bt_values_def encode_entry_for_hash_def binding_op_def
      co_demo_payloads co_demo_ids co_demo_transaction_ids run_co_propose_numbers run_co_promote_numbers record_payload_def entry_text_def Let_def
      run_co_propose_binding_digest run_co_promote_binding_digest length_binding_text co_demo_record_def run_co_value_digest length_binding_prefix)

lemma cons_not_replicate: "a \<noteq> b \<Longrightarrow> a # xs \<noteq> replicate n b"
  by (cases n) auto

lemma co_demo_room_ok:
  assumes "co_demo c fs"
  shows "commit_room d (co_demo_request Propose) (co_demo_context Propose) c fs"
    and "commit_room d (co_demo_request Promote) (co_demo_context Promote) c fs"
proof -
  have b: "binding_tx (co_demo_context Propose) = slice run_co_propose_tx 0 16" "binding_tx (co_demo_context Promote) = slice run_co_promote_tx 0 16"
    by (simp_all add: binding_tx_def co_demo_transaction_ids)
  show "commit_room d (co_demo_request Propose) (co_demo_context Propose) c fs"
    by (rule co_demo_room [OF assms]) (simp_all add: b co_demo_states slice_def zero_tx_def run_co_propose_tx_def run_co_propose_state_def cons_not_replicate)
  show "commit_room d (co_demo_request Promote) (co_demo_context Promote) c fs"
    by (rule co_demo_room [OF assms]) (simp_all add: b co_demo_states slice_def zero_tx_def run_co_promote_tx_def run_co_promote_state_def cons_not_replicate)
qed

abbreviation co_demo_intent :: "trust_operation \<Rightarrow> transition_intent" where
  "co_demo_intent op \<equiv> request_intent (co_demo_request op) (px_record_digest (co_demo_context op))"

lemma co_demo_record_digest: "px_record_digest (co_demo_context op) = run_co_record"
  by (simp add: co_demo_context_def Let_def co_demo_digests)

lemma co_demo_trust_payload:
  "transition_payload (planned_transition (empty_ledger p) (co_demo_intent Propose) raw_active) =
     PAYLOAD_MAGIC @ [1, 1, 0, 0, 1, 1] @ u16_le 0 @ u32_le 1 @ u32_le 1 @ u32_le 1 @ u32_le 1
     @ u32_le 1 @ u32_le 0 @ u32_le 1 @ u32_le 0 @ run_co_record @ run_co_input @ run_co_decision
     @ lit ''r'' @ lit ''p'' @ lit ''1'' @ lit ''a'' @ lit ''n'' @ u32_le 1 @ u32_le 1 @ replicate 32 5 @ lit ''e'' @ lit ''w''"
proof -
  have i: "compute_input_digest (co_demo_intent Propose) = run_co_input"
    using run_co_input_digest
    by (simp add: compute_input_digest_def request_intent_def co_demo_request_def co_demo_record_digest co_demo_evidence_def push_string_def
        push_optional_string_def)
  have s: "ledger_state_of (empty_ledger p) k = None" for k by (simp add: ledger_state_of_def empty_ledger_def)
  have d: "compute_decision_digest run_co_input None raw_active = run_co_decision"
    using run_co_decision_digest by (simp add: compute_decision_digest_def raw_active_def)
  show ?thesis
    unfolding planned_payload i s d
    by (simp add: trust_payload_bytes_def request_intent_def co_demo_request_def co_demo_record_digest co_demo_evidence_def evidence_bytes_def
        raw_active_def)
qed

lemma co_demo_admitted: "intent_admitted (empty_ledger p) (co_demo_intent Propose) raw_active"
proof -
  have "validate_common_intent (co_demo_intent Propose) = Inr ()"
    by (simp add: validate_common_intent_def request_intent_def co_demo_request_def co_demo_record_digest co_demo_evidence_def validate_string_def
        MAX_STRING_BYTES_def MAX_EVIDENCE_REFS_def is_zero_digest_def lit_def list_all_iff run_co_record_def)
  then show ?thesis unfolding intent_admitted_def co_demo_trust_payload validate_semantic_iff
    by (simp add: superseding_ok_def authority_allowed_def MAX_PAYLOAD_BYTES_def PAYLOAD_MAGIC_def)
      (simp add: request_intent_def co_demo_request_def empty_ledger_def ledger_state_of_def)
qed

lemma co_demo_refused: "\<nexists>nxt. intent_admitted (empty_ledger p) (co_demo_intent Promote) nxt"
  by (simp add: intent_admitted_def validate_semantic_iff ledger_state_of_def empty_ledger_def) (simp add: request_intent_def co_demo_request_def)

lemma co_demo_ready:
  assumes "co_demo c fs"
  shows "commit_ready d (co_demo_request Propose) (co_demo_context Propose) raw_active c fs"
proof -
  have t: "co_trust c = empty_ledger [lit ''trust'']" using assms by (simp add: co_demo_def)
  have "tt_transition_id (commit_transition c (co_demo_request Propose) (co_demo_context Propose) raw_active) = run_co_transition"
    unfolding commit_transition_def t planned_id co_demo_trust_payload run_co_trust_payload_digest
    using run_co_transition_digest
    by (simp add: compute_transition_digest_def empty_ledger_def) (simp add: request_intent_def co_demo_request_def)
  then show ?thesis using co_demo_admitted co_demo_room_ok(1) [OF assms] by (simp add: commit_ready_def t run_co_transition_def cons_not_replicate)
qed

subsection \<open>Concrete runs\<close>

text \<open>The texts of the errors, as far as a run has none.\<close>

definition no_displays :: displays where
  "no_displays = \<lparr>ds_durable = (\<lambda>_. []), ds_transaction = (\<lambda>_. []), ds_trust = (\<lambda>_. [])\<rparr>"

theorem co_commit_atomic_witness:
  "\<exists>c fs out c1 fs1 c2 fs2. commit_for_probe no_displays (co_demo_request Propose) AfterDatabaseCommitted c fs = (Inr out, c1, fs1) \<and>
     co_reopen no_displays c1 fs1 = (Inr c2, fs2) \<and> tl_transitions (co_trust c1) = [] \<and> length (tl_transitions (co_trust c2)) = 1 \<and>
     co_committed c (co_demo_request Propose) (co_demo_context Propose) raw_active c2"
proof -
  obtain c fs where c: "co_demo c fs" by (rule co_demo_exists)
  note r = co_commit_atomic [OF co_demo_ready [OF c, of no_displays], of AfterDatabaseCommitted]
  obtain out c1 fs1 c2 fs2 where a: "commit_for_probe no_displays (co_demo_request Propose) AfterDatabaseCommitted c fs = (Inr out, c1, fs1)"
    "co_reopen no_displays c1 fs1 = (Inr c2, fs2)" "co_committed c (co_demo_request Propose) (co_demo_context Propose) raw_active c2"
    using r by auto
  have t: "co_trust c = empty_ledger [lit ''trust'']" using c by (simp add: co_demo_def)
  obtain c3 fs3 where "co_trust c3 = co_trust c" "commit_for_probe no_displays (co_demo_request Propose) AfterDatabaseCommitted c fs =
      (Inr (Stopped_At (px_transaction_id (co_demo_context Propose)) Co_DatabaseCommitted), c3, fs3)"
    by (rule commit_to_database_stage [OF co_demo_room_ok(1) [OF c, of no_displays]]) auto
  then have "tl_transitions (co_trust c1) = []" using a(1) t by (simp add: empty_ledger_def)
  moreover have "length (tl_transitions (co_trust c2)) = 1" using a(3) t by (simp add: co_committed_def ledger_push_def empty_ledger_def)
  ultimately show ?thesis using a by blast
qed

theorem refused_transition_wedges_witness:
  "\<exists>c fs m1 m2 m3 c1 fs1 fs2. co_commit no_displays (co_demo_request Promote) c fs = (Inl (Tc_Trust m1), c1, fs1) \<and>
     commit_for_probe no_displays (co_demo_request Propose) Stop_None c1 fs1 = (Inl (Tc_Trust m2), c1, fs1) \<and>
     co_reopen no_displays c1 fs1 = (Inl (Tc_Trust m3), fs2)"
proof -
  obtain c fs where c: "co_demo c fs" by (rule co_demo_exists)
  then have "\<nexists>nxt. intent_admitted (co_trust c) (co_demo_intent Promote) nxt" using co_demo_refused by (simp add: co_demo_def)
  from refused_transition_wedges [OF co_demo_room_ok(2) [OF c, of no_displays] this] show ?thesis by blast
qed

theorem aborted_request_not_retryable_witness:
  "\<exists>c2 fs2. commit_for_probe no_displays (co_demo_request Propose) Stop_None c2 fs2 =
     (Inl (Tc_Invalid (lit ''invalid commit stage transition: previous=Some(Aborted) next=Prepared'')),
      c2\<lparr>co_last_recovery := no_recovery\<rparr>, fs2) \<and> dd_state (co_database c2) = co_demo_state"
proof -
  obtain c fs where c: "co_demo c fs" by (rule co_demo_exists)
  obtain out c1 fs1 c2 fs2 where a: "commit_for_probe no_displays (co_demo_request Propose) AfterPrepared c fs = (Inr out, c1, fs1)"
    "co_reopen no_displays c1 fs1 = (Inr c2, fs2)" "co_aborted c (co_demo_context Propose) c2"
    using commit_crash_outcome [OF co_demo_ready [OF c, of no_displays], of AfterPrepared] by auto
  have "co_ok c fs" "journal_pending (co_journal c) = []" "journal_room 2 c fs"
    using c by (simp_all add: co_demo_def journal_pending_def journal_empty_def bt_values_def journal_room_def usize_limit_def)
  from aborted_request_not_retryable [OF this(1,2) co_demo_request_ok(2) this(3) a(1,2)] a(3) c show ?thesis
    by (auto simp: co_aborted_def co_demo_def)
qed

theorem co_stores_agree_witness:
  "\<exists>c0 c fs t. reachable (co_initial c0) (co_step no_displays) (c, fs, [(co_demo_context Propose, t)]) \<and>
     dd_state (co_database c) = co_demo_bound Propose \<and> tl_transitions (co_trust c) = [t] \<and> binds (co_demo_context Propose, t)"
proof -
  obtain c fs where c: "co_demo c fs" by (rule co_demo_exists)
  let ?t = "commit_transition c (co_demo_request Propose) (co_demo_context Propose) raw_active"
  note rdy = co_demo_ready [OF c, of no_displays]
  obtain out c1 fs1 c2 fs2 where a: "commit_for_probe no_displays (co_demo_request Propose) AfterTrustApplied c fs = (Inr out, c1, fs1)"
    "co_reopen no_displays c1 fs1 = (Inr c2, fs2)"
    using commit_crash_outcome [OF rdy, of AfterTrustApplied] by auto
  have ini: "co_initial c (c, fs, [])" using rdy by (simp add: co_initial_def commit_ready_def commit_room_def)
  have st: "co_step no_displays (c, fs, []) (c2, fs2, [(co_demo_context Propose, ?t)])" using co_crashes [OF rdy a, of "[]"] by simp
  have r: "reachable (co_initial c) (co_step no_displays) (c2, fs2, [(co_demo_context Propose, ?t)])"
    by (rule reach_step [of _ "co_step no_displays", OF reach_init [of "co_initial c", OF ini] st])
  have "tl_transitions (co_trust c) = []" "dd_state (co_database c) = co_demo_state" using c by (simp_all add: co_demo_def empty_ledger_def)
  with co_stores_agree [OF r] r show ?thesis
    by (intro exI [of _ c] exI [of _ c2] exI [of _ fs2] exI [of _ ?t]) (auto simp: ledger_push_def co_demo_bound simp del: operations_apply_simps)
qed

end
