(* ===== verification/Spec2Isabelle.thy ===== *)
theory Spec2Isabelle
  imports Ub_Durability Ub_Reads Ub_Limits Ub_Ledger Ub_Prov_Demo Ub_Asym_Init Ub_Trust_Demo Ub_Co_Demo
begin

text \<open>
  A verification of the native storage engine of UltraBalloonDB (\<open>src/rust_native\<close>).

  The program. \<open>ultraballoondb-storage\<close> is an immutable page store: files with an 80 byte
  header and a SHA-256 of the body, segments of typed records, manifests, and one head file
  that is replaced atomically. \<open>ultraballoondb-wal\<close> is the write-ahead log.
  \<open>ultraballoondb-lifecycle\<close> holds the single-writer transaction core (\<open>lib.rs\<close>) and the
  durable database on top of store and log (\<open>durable.rs\<close>): commit, checkpoint, recovery
  and reads. \<open>ultraballoondb-trust\<close> is an append-only ledger of trust transitions of records,
  chained by digests and replayed strictly when it is opened. Four more such ledgers build on
  one another: the key registry and the authorisation ledger of
  \<open>ultraballoondb-trust-asymmetric\<close> (public keys with their roles, rotated and revoked by
  signature, and signed authorisations of subjects), the federation ledger of
  \<open>ultraballoondb-trust-federation\<close> (per namespace a policy, weighted authorities, and bundles
  accepted by a quorum of their authorisations), and \<open>ultraballoondb-provenance\<close>, the versions
  of objects, each bound to an authorisation and to an accepted bundle.
  \<open>ultraballoondb-trust-commit\<close> drives the durable database and the trust ledger together: a
  commit writes a binding record and a transition, a journal holds the stage it has reached, and
  opening completes or aborts what an interruption has left.

  The theories, bottom up, and the code they model.

  \<^item> \<open>Ub_Prelude\<close>: bytes and machine words, checked arithmetic, results as sums, little-endian
    fields, IEEE doubles as bit patterns (\<open>is_finite\<close>, zero, the unit interval); the locales
    \<open>frame_stream\<close> (a loop that reads a sequence of encoded frames) with its extension
    \<open>strict_frame_stream\<close>, \<open>ledger_file\<close> (an append-only ledger whose file is the frames of its
    entries), and \<open>invariant_system\<close> (an invariant of a transition system).
  \<^item> \<open>Ub_Sha256\<close>: the hash of \<open>storage/src/lib.rs\<close> with its buffer, and a block-wise
    reference; the incremental implementation computes the reference for any split of the input.
  \<^item> \<open>Ub_BTree\<close>: \<open>BTreeMap\<close> and \<open>BTreeSet\<close> as strictly sorted association lists, behind the
    locale \<open>ordered_map\<close>.
  \<^item> \<open>Ub_Text\<close>, \<open>Ub_Fs\<close>: UTF-8, decimal and hexadecimal formatting, path components; a file
    system with files, directories, a clock for temporary names, and the primitives of
    \<open>std::fs\<close> that the code calls, with their errors; an append on a disk that may fail
    (\<open>append_sync\<close>); the locale \<open>io_relation\<close> for facts
    every operation keeps.
  \<^item> \<open>Ub_Storage\<close>, \<open>Ub_Segment\<close>: headers, entries and their validation, heads; writing,
    publishing, verifying and reading segments, manifests and heads (\<open>PageStore\<close>). The
    verifier accepts exactly the encodings of valid entries; what is written verifies and
    reads back; published files never change; a head cannot name a file outside the store.
  \<^item> \<open>Ub_Wal\<close>: frames, \<open>scan_wal\<close> with repair, \<open>WalWriter\<close>. A scan without repair accepts
    exactly the well-formed logs; with repair every prefix of a log gives its complete frames.
  \<^item> \<open>Ub_Transaction\<close>: \<open>WriteBatch\<close> as a refinement of a list of operations, and the
    states of \<open>TransactionCore\<close>.
  \<^item> \<open>Ub_Recovery\<close>, \<open>Ub_Checkpoint\<close>, \<open>Ub_Durable\<close>: the recovered state, the payloads of the
    log, replay, checkpoint and manifest files, and the operations of \<open>DurableDatabase\<close>.
  \<^item> \<open>Ub_Durability\<close>: the database as a transition system with commits, checkpoints,
    reopenings and crashes at any byte of a commit; durability and atomicity. The commits of
    a run are within \<open>commit_guard\<close> (an id that is not zero and was never used, a free segment
    name, room in the log), which is the client's part: the source does not check all of it.
  \<^item> \<open>Ub_Reads\<close>: lookups and listings return the last committed writes.
  \<^item> \<open>Ub_Limits\<close>: what happens outside of the guard: acknowledged commits after which the files
    as they are cannot be opened.
  \<^item> \<open>Ub_Trust\<close>: \<open>trust/src/lib.rs\<close>: states, operations and authorities, the rules of a
    transition, the digests, the codec of payloads and frames, \<open>apply\<close> (on a disk that may fail
    while it writes or synchronises, \<open>ledger_apply_disk\<close>) and \<open>open_strict\<close>.
  \<^item> \<open>Ub_Ledger\<close>: the ledger as a transition system; its file reopens to the ledger in memory,
    replay accepts exactly the files that \<open>apply\<close> writes, every recorded transition is lawful,
    requests that are refused change nothing, a failing disk leaves at most a part of the frame
    in the file and the ledger in memory as it was, supersession has no cycles, a cut file is
    detected.
  \<^item> \<open>Ub_Chain\<close>: the chained frames that the files of the trust crates share, the loop of
    their \<open>decode_frames\<close> and the second pass of \<open>replay\<close>; the locales \<open>chained_frames\<close>
    (extending \<open>strict_frame_stream\<close> through an interpretation) and \<open>chained_ledger\<close>, with the
    reader of the key registry, of the authorisation ledger and of the federation ledger as
    their instances.
  \<^item> \<open>Ub_Asymmetric\<close>, \<open>Ub_Federation\<close>: the state of key registry, authorisation ledger and
    federation ledger, and the verification of an authorisation; what it means that these
    ledgers only grow.
  \<^item> \<open>Ub_Provider\<close>: \<open>provider.rs\<close>, the classes of key storage, requirements, and the providers
    of the crate over the calls of the operating system.
  \<^item> \<open>Ub_Registry\<close>, \<open>Ub_Registry_Runs\<close>: \<open>registry.rs\<close>. Enrolment, rotation and revocation
    with and without a provider, digests, codec, validation, append and replay; the registry
    reopens to itself, every rotation and revocation is signed by the key it replaces, and the
    states looked up by an old head are those at that head.
  \<^item> \<open>Ub_Authorizations\<close>, \<open>Ub_Auth_Runs\<close>, \<open>Ub_Asym_Init\<close>: \<open>ledger.rs\<close> and the root directory
    of \<open>lib.rs\<close>. Every recorded authorisation was signed by a key that was active in the role at
    its registry head; initialisation is idempotent.
  \<^item> \<open>Ub_Fed_Ledger\<close>, \<open>Ub_Fed_Runs\<close>: \<open>federation/src/lib.rs\<close>, all of it. Accepted bundles form
    a chain per namespace and have a quorum of distinct enrolled authorities whose
    authorisations no other bundle has used; two weaknesses of the code are theorems, too.
  \<^item> \<open>Ub_Provenance\<close>, \<open>Ub_Prov_Ledger\<close>, \<open>Ub_Prov_Demo\<close>: the provenance ledger, its
    codec over a cursor, append, replay and lineage; it reopens to the ledger in memory also after
    the trust ledgers have grown, every event is authorised, and lineage lists exactly the
    ancestors of an event, parents first; a concrete run for the witnesses.
  \<^item> \<open>Ub_Trust_System\<close>: the four ledgers together, with operations on any of them in any order.
    All four files reopen to the ledgers in memory, and a run is a run of the provenance
    ledger over trust ledgers that grow.
  \<^item> \<open>Ub_Sha_Eval\<close>, \<open>Ub_Trust_Hashes\<close>, \<open>Ub_Trust_Demo\<close>: SHA-256 on lists of bits, as code
    equations for evaluation in the kernel; a concrete run of the four trust ledgers up to one
    version of an object, with the values of its digests, for the witnesses.
  \<^item> \<open>Ub_Policy\<close>, \<open>Ub_Journal\<close>, \<open>Ub_Coordinator\<close>: \<open>trust-commit/src/lib.rs\<close>, all of it. The
    registry of policies and the commit journal as chained ledgers; the preparation of a
    request, the stages of a commit (\<open>commit_for_probe\<close>, with the points where the code can be
    told to stop), recovery of pending transactions and \<open>open_strict\<close>. The texts with which the
    errors of the other crates are displayed are the parameter \<open>displays\<close>.
  \<^item> \<open>Ub_Cocommit\<close>, \<open>Ub_Binding\<close>, \<open>Ub_Co_Runs\<close>: the invariant \<open>co_ok\<close> of the four stores and their
    files, the effect of every stage, and runs. A commit that is ready (\<open>commit_ready\<close>:
    prepared, admitted by the ledger, new to journal and database, with the room \<open>commit_room\<close>
    and \<open>binding_room\<close> describe) and that stops at any stage is all or nothing after reopening;
    database, ledger and journal agree after any run. Two weaknesses are theorems: a transition
    that the ledger refuses is found too late and blocks the coordinator, and a request that was
    aborted cannot be repeated.
  \<^item> \<open>Ub_Co_Hashes\<close>, \<open>Ub_Co_Demo\<close>: concrete runs of the coordinator with their digests.

  Modelling choices. A file system operation is a function from the state of the file system
  to a result and a new state; an error is a value. \<open>usize\<close> and file offsets are natural
  numbers with the limit \<open>usize_limit\<close> (2 to the 64) written out where the code checks it;
  fields of files and counters are words of their width. Paths are lists of components, the
  platform is a 64-bit Unix. The clock and the process id that temporary names use are
  components of the file system. Writes reach the file system in order and a crash keeps a
  prefix of the log; that is the failure model of the theorems on crashes. A trust co-commit stops
  between two of its stages. Writing and synchronising do not fail, but for the append of the trust
  ledger. \<open>write_segment_file\<close> writes the final bytes at once: the source writes a header of zeros
  first and replaces it after the body, in a temporary file that no reader opens. The only panic of
  the modelled code, the length overflow of SHA-256, is \<open>None\<close> in \<open>sha256_checked\<close>; inputs
  in memory are shorter than the limit. \<open>collect_lineage\<close> has fuel: two more than the number
  of known identifiers, which is enough since a parent has a smaller index than its child; the
  depth of the stack that the recursion of the source needs is not limited. No other definition uses fuel: \<open>scan_frames\<close>, \<open>verify_records\<close>, \<open>sha_blocks\<close>, \<open>read_chunks\<close>,
  \<open>replay_bytes\<close> and \<open>prov_replay\<close> terminate by a measure on the remaining bytes, the others are
  structural. A decoder of the federation ledger accepts at most 1,000,000 approvals; the
  theorems on reopening assume that no bundle has more, since the encoder does not check it.
  Counters that Rust adds with \<open>+\<close> wrap, as in a release build.

  A run of the trust ledgers assumes that the heads of the key registry are distinct
  (\<open>heads_distinct\<close>): the code looks up the states of keys by the digest of a head, so two
  different histories with one digest would be confused. The concrete run shows that the
  assumption holds of real digests. Its check of signatures accepts one fixed signature; the
  theorems hold of every check.

  Not modelled: the \<open>Display\<close> texts of errors (\<open>commit_durable\<close> takes the text of a
  database error as a parameter, the coordinator those of the crates below it), the Windows
  variants of rename and directory synchronisation, the key storage and the signature check of
  the operating system (the parameters \<open>cng\<close> and \<open>bcrypt\<close>, any function of key, digest and
  signature; the calls exist on Windows only, where paths differ from those of the model),
  failures of the disk other than those named above, and the crates that the components of the
  manifest list as not modelled (bindings, command line tools, the graph engine, the semantic
  search, and the trust crates for secret-key authorisation and approval workflows).
\<close>

end
